(* ===== verification/Prelude.thy ===== *)
theory Prelude
  imports
    Main
    "HOL-Library.Char_ord"
    "HOL-Library.List_Lexorder"
    "HOL-Library.Product_Lexorder"
    "HOL-Library.Option_ord"
    "HOL-Library.Sublist"
begin

text \<open>
  Shared vocabulary of the development: Python exceptions as values, the truth value of
  database cells, and the small database layer every service sits on.

  A database table is a list of row records in insertion order; a nullable TEXT or INTEGER
  column is an \<open>option\<close>.  The order of \<open>int option\<close> and \<open>string\<close> used by
  \<open>sort_key\<close> is that of SQLite's BINARY collation with NULL first.
\<close>

section \<open>Collections of facts\<close>

named_theorems py_simps \<open>evaluation of the Python primitives\<close>
named_theorems line_simps \<open>lines and sections of generated configuration text\<close>
named_theorems inv_intros \<open>preservation of the table invariants\<close>

section \<open>Exceptions\<close>

datatype pyexn =
    ValueError string
  | TypeError string
  | OverflowError string
  | KeyError string
  | AttributeError string
  | OSError string
  | IntegrityError string
  | RuntimeError string
  | TransactionError string
  | PfRuleOrderError string
  | FreeBSDNetworkError string
  | PrivilegedActionError string
  | OperationalError string
  | SchemaVersionError string

type_synonym 'a res = "pyexn + 'a"

definition bind_res :: "'a res \<Rightarrow> ('a \<Rightarrow> 'b res) \<Rightarrow> 'b res" where
  "bind_res r f = (case r of Inl e \<Rightarrow> Inl e | Inr x \<Rightarrow> f x)"

lemma bind_res_simps [simp]:
  "bind_res (Inl e) f = Inl e"
  "bind_res (Inr x) f = f x"
  by (simp_all add: bind_res_def)

lemma bind_res_Inr: "bind_res r f = Inr y \<longleftrightarrow> (\<exists>x. r = Inr x \<and> f x = Inr y)"
  by (cases r) auto

text \<open>\<open>str(exc)\<close> of the exceptions the code formats into messages.\<close>

fun exn_str :: "pyexn \<Rightarrow> string" where
  "exn_str (ValueError m) = m"
| "exn_str (TypeError m) = m"
| "exn_str (OverflowError m) = m"
| "exn_str (KeyError m) = m"
| "exn_str (AttributeError m) = m"
| "exn_str (OSError m) = m"
| "exn_str (IntegrityError m) = m"
| "exn_str (RuntimeError m) = m"
| "exn_str (TransactionError m) = m"
| "exn_str (PfRuleOrderError m) = m"
| "exn_str (FreeBSDNetworkError m) = m"
| "exn_str (PrivilegedActionError m) = m"
| "exn_str (OperationalError m) = m"
| "exn_str (SchemaVersionError m) = m"

section \<open>Cells of a row\<close>

text \<open>\<open>row.get(c) or d\<close> for a text cell: NULL and the empty string give the default.\<close>

fun or_str :: "string option \<Rightarrow> string \<Rightarrow> string" where
  "or_str None d = d"
| "or_str (Some s) d = (if s = [] then d else s)"

text \<open>The same for an integer cell: NULL and 0 give the default.\<close>

fun or_int :: "int option \<Rightarrow> int \<Rightarrow> int" where
  "or_int None d = d"
| "or_int (Some n) d = (if n = 0 then d else n)"

definition truthy_int :: "int option \<Rightarrow> bool" where
  "truthy_int c \<longleftrightarrow> c \<noteq> None \<and> c \<noteq> Some 0"

lemma truthy_int_simps [simp]:
  "\<not> truthy_int None"
  "truthy_int (Some n) \<longleftrightarrow> n \<noteq> 0"
  by (simp_all add: truthy_int_def)

lemma or_str_None_empty [simp]: "or_str c [] = (case c of None \<Rightarrow> [] | Some s \<Rightarrow> s)"
  by (cases c) auto

section \<open>Lists as tables\<close>

text \<open>\<open>fetchone()\<close> on a result list.\<close>

fun fetchone :: "'a list \<Rightarrow> 'a option" where
  "fetchone [] = None"
| "fetchone (r # rs) = Some r"

lemma fetchone_None [simp]: "fetchone rs = None \<longleftrightarrow> rs = []"
  by (cases rs) auto

lemma fetchone_Some_in: "fetchone rs = Some r \<Longrightarrow> r \<in> set rs"
  by (cases rs) auto

text \<open>The SQL \<open>UPDATE t SET f WHERE P\<close>: rewrites the selected rows, keeps the order.\<close>

definition update_where :: "('a \<Rightarrow> bool) \<Rightarrow> ('a \<Rightarrow> 'a) \<Rightarrow> 'a list \<Rightarrow> 'a list" where
  "update_where P f rs = map (\<lambda>r. if P r then f r else r) rs"

lemma update_where_simps [simp]:
  "update_where P f [] = []"
  "update_where P f (r # rs) = (if P r then f r else r) # update_where P f rs"
  by (simp_all add: update_where_def)

lemma length_update_where [simp]: "length (update_where P f rs) = length rs"
  by (simp add: update_where_def)

lemma in_set_update_where:
  "x \<in> set (update_where P f rs) \<longleftrightarrow> (\<exists>r \<in> set rs. x = (if P r then f r else r))"
  by (auto simp: update_where_def)

lemma update_whereE:
  assumes "x \<in> set (update_where P f rs)"
  obtains (changed) r where "r \<in> set rs" "P r" "x = f r" | (kept) "x \<in> set rs" "\<not> P x"
  using assms by (auto simp: in_set_update_where split: if_splits)

lemma map_update_where:
  "(\<And>r. P r \<Longrightarrow> k (f r) = k r) \<Longrightarrow> map k (update_where P f rs) = map k rs"
  by (simp add: update_where_def)

lemma update_where_frame:
  "x \<in> set rs \<Longrightarrow> \<not> P x \<Longrightarrow> x \<in> set (update_where P f rs)"
  by (auto simp: update_where_def)

text \<open>The row with a given key, \<open>SELECT ... WHERE k = x\<close> with \<open>fetchone\<close>.\<close>

definition find_by :: "('r \<Rightarrow> 'k) \<Rightarrow> 'k \<Rightarrow> 'r list \<Rightarrow> 'r option" where
  "find_by k x rs = fetchone (filter (\<lambda>r. k r = x) rs)"

lemma find_by_simps [simp]:
  "find_by k x [] = None"
  "find_by k x (r # rs) = (if k r = x then Some r else find_by k x rs)"
  by (simp_all add: find_by_def)

lemma find_by_append:
  "find_by k x (rs @ qs) = (case find_by k x rs of None \<Rightarrow> find_by k x qs | Some r \<Rightarrow> Some r)"
  by (induction rs) auto

lemma find_by_None: "find_by k x rs = None \<longleftrightarrow> x \<notin> k ` set rs"
  by (induction rs) auto

lemma find_by_SomeD: "find_by k x rs = Some r \<Longrightarrow> r \<in> set rs \<and> k r = x"
  by (induction rs) (auto split: if_splits)

lemma find_by_distinct:
  "distinct (map k rs) \<Longrightarrow> find_by k x rs = Some r \<longleftrightarrow> r \<in> set rs \<and> k r = x"
  by (induction rs) (auto simp: image_iff)

lemma find_by_update_other:
  assumes "\<And>r. k (f r) = k r" "\<And>r. P r \<Longrightarrow> k r \<noteq> x"
  shows "find_by k x (update_where P f rs) = find_by k x rs"
  using assms by (induction rs) auto

lemma find_by_update:
  assumes "\<And>r. k (f r) = k r"
  shows "find_by k x (update_where (\<lambda>r. k r = x) f rs) = map_option f (find_by k x rs)"
  using assms by (induction rs) auto

text \<open>\<open>INSERT OR REPLACE\<close>: the row with the same key goes, the new one is appended.\<close>

definition replace_row :: "('r \<Rightarrow> 'k) \<Rightarrow> 'r \<Rightarrow> 'r list \<Rightarrow> 'r list" where
  "replace_row k r rs = filter (\<lambda>x. k x \<noteq> k r) rs @ [r]"

lemma set_replace_row [simp]: "set (replace_row k r rs) = insert r {x \<in> set rs. k x \<noteq> k r}"
  by (auto simp: replace_row_def)

lemma find_by_filter_other: "k r \<noteq> x \<Longrightarrow> find_by k x (filter (\<lambda>y. k y \<noteq> k r) rs) = find_by k x rs"
  by (induction rs) auto

lemma find_replace_row [simp]:
  "find_by k x (replace_row k r rs) = (if x = k r then Some r else find_by k x rs)"
proof -
  have "find_by k (k r) (filter (\<lambda>y. k y \<noteq> k r) rs) = None" by (auto simp: find_by_None)
  then show ?thesis
    by (auto simp: replace_row_def find_by_append find_by_filter_other split: option.split)
qed

lemma distinct_replace_row: "distinct (map k rs) \<Longrightarrow> distinct (map k (replace_row k r rs))"
  by (auto simp: replace_row_def distinct_map inj_on_def)

text \<open>\<open>LIMIT n\<close>: a negative limit is no limit.\<close>

definition sql_limit :: "int \<Rightarrow> 'a list \<Rightarrow> 'a list" where
  "sql_limit n rs = (if n < 0 then rs else take (nat n) rs)"

lemma length_sql_limit: "0 \<le> n \<Longrightarrow> int (length (sql_limit n rs)) = min n (int (length rs))"
  by (auto simp: sql_limit_def min_def)

lemma set_sql_limit: "set (sql_limit n rs) \<subseteq> set rs"
  by (auto simp: sql_limit_def dest: in_set_takeD)

section \<open>A table with a primary key\<close>

text \<open>
  The services keep their rows in tables declared \<open>id INTEGER PRIMARY KEY AUTOINCREMENT\<close>:
  a new row gets one more than the largest id the table ever held (\<open>sqlite_sequence\<close>).
\<close>

record 'r table =
  rows :: "'r list"
  seq :: nat

definition empty_table :: "'r table" where
  "empty_table = \<lparr>rows = [], seq = 0\<rparr>"

text \<open>\<open>INSERT INTO\<close>, returning the table and \<open>cursor.lastrowid\<close>.\<close>

definition insert_row :: "(nat \<Rightarrow> 'r) \<Rightarrow> 'r table \<Rightarrow> 'r table \<times> nat" where
  "insert_row mk t = (let i = Suc (seq t) in (t\<lparr>rows := rows t @ [mk i], seq := i\<rparr>, i))"

definition update_rows :: "('r \<Rightarrow> bool) \<Rightarrow> ('r \<Rightarrow> 'r) \<Rightarrow> 'r table \<Rightarrow> 'r table" where
  "update_rows P f t = t\<lparr>rows := update_where P f (rows t)\<rparr>"

definition delete_rows :: "('r \<Rightarrow> bool) \<Rightarrow> 'r table \<Rightarrow> 'r table" where
  "delete_rows P t = t\<lparr>rows := filter (\<lambda>r. \<not> P r) (rows t)\<rparr>"

lemma table_simps [simp]:
  "rows (fst (insert_row mk t)) = rows t @ [mk (Suc (seq t))]"
  "snd (insert_row mk t) = Suc (seq t)"
  "seq (fst (insert_row mk t)) = Suc (seq t)"
  "rows (update_rows P f t) = update_where P f (rows t)"
  "seq (update_rows P f t) = seq t"
  "rows (delete_rows P t) = filter (\<lambda>r. \<not> P r) (rows t)"
  "seq (delete_rows P t) = seq t"
  "rows empty_table = []" "seq empty_table = 0"
  by (simp_all add: insert_row_def update_rows_def delete_rows_def empty_table_def Let_def)

text \<open>
  The contract every service rests on: with a selector for the primary key, keys stay
  distinct and within the sequence, a fresh row is found under the returned id, and an
  update that leaves the key alone changes the addressed row only.
\<close>

locale pk_table =
  fixes rid :: "'r \<Rightarrow> nat"
    and mk :: "'d \<Rightarrow> nat \<Rightarrow> 'r"
  assumes rid_mk: "rid (mk d i) = i"
begin

definition pk_ok :: "'r table \<Rightarrow> bool" where
  "pk_ok t \<longleftrightarrow> distinct (map rid (rows t)) \<and> (\<forall>r \<in> set (rows t). rid r \<le> seq t)"

lemma pk_ok_empty: "pk_ok empty_table"
  by (simp add: pk_ok_def)

lemma pk_ok_insert:
  assumes "pk_ok t"
  shows "pk_ok (fst (insert_row (mk d) t))"
proof -
  have "Suc (seq t) \<notin> rid ` set (rows t)"
    using assms(1) by (fastforce simp: pk_ok_def)
  with assms show ?thesis by (auto simp: pk_ok_def rid_mk)
qed

lemma pk_ok_update:
  assumes "pk_ok t" "\<And>r. rid (f r) = rid r"
  shows "pk_ok (update_rows P f t)"
  using assms by (auto simp: pk_ok_def map_update_where in_set_update_where)

lemma pk_ok_delete: "pk_ok t \<Longrightarrow> pk_ok (delete_rows P t)"
  by (auto simp: pk_ok_def distinct_map inj_on_def)

lemma find_insert:
  assumes "pk_ok t"
  shows "find_by rid (Suc (seq t)) (rows (fst (insert_row (mk d) t))) = Some (mk d (Suc (seq t)))"
proof -
  have "find_by rid (Suc (seq t)) (rows t) = None"
    using assms(1) by (fastforce simp: pk_ok_def find_by_None)
  then show ?thesis by (simp add: find_by_append rid_mk)
qed

lemma find_insert_other:
  assumes "i \<noteq> Suc (seq t)"
  shows "find_by rid i (rows (fst (insert_row (mk d) t))) = find_by rid i (rows t)"
  using assms by (simp add: find_by_append rid_mk split: option.split)

lemma find_le_seq: "pk_ok t \<Longrightarrow> find_by rid i (rows t) = Some r \<Longrightarrow> i \<le> seq t"
  by (auto simp: pk_ok_def dest!: find_by_SomeD)

lemma find_iff: "pk_ok t \<Longrightarrow> find_by rid i (rows t) = Some r \<longleftrightarrow> r \<in> set (rows t) \<and> rid r = i"
  by (simp add: pk_ok_def find_by_distinct)

end

end
