(* ===== verification/PyString.thy ===== *)
theory PyString
  imports Prelude
begin

text \<open>
  The operations of Python's \<open>str\<close> the program uses, on \<open>string\<close> (a list of bytes; a
  literal beyond ASCII is written as its UTF-8 bytes).  \<open>is_space\<close> is \<open>str.isspace\<close>
  and the regular-expression class \<open>\s\<close> on ASCII; \<open>lower\<close> is \<open>str.lower\<close> on ASCII.
  The round-trip lemmas at the end (printing and reading decimal numbers) are shared by
  the address parser, the validators and the configuration writer.
\<close>

section \<open>Text beyond ASCII\<close>

definition em_dash :: string where
  "em_dash = [CHR 0xE2, CHR 0x80, CHR 0x94]"

definition en_dash :: string where
  "en_dash = [CHR 0xE2, CHR 0x80, CHR 0x93]"

definition arrow :: string where
  "arrow = [CHR 0xE2, CHR 0x86, CHR 0x92]"

definition ellipsis :: string where
  "ellipsis = [CHR 0xE2, CHR 0x80, CHR 0xA6]"

text \<open>The two box-drawing strokes that open a section comment.\<close>

definition rule_line :: string where
  "rule_line = [CHR 0xE2, CHR 0x94, CHR 0x80, CHR 0xE2, CHR 0x94, CHR 0x80]"

section \<open>Character classes\<close>

definition code :: "char \<Rightarrow> nat" where
  "code c = of_char c"

lemma code_inject [simp]: "code a = code b \<longleftrightarrow> a = b"
  by (simp add: code_def)

definition is_space :: "char \<Rightarrow> bool" where
  "is_space c \<longleftrightarrow> code c \<in> {9, 10, 11, 12, 13, 28, 29, 30, 31, 32}"

definition is_digit :: "char \<Rightarrow> bool" where
  "is_digit c \<longleftrightarrow> 48 \<le> code c \<and> code c \<le> 57"

definition is_upper :: "char \<Rightarrow> bool" where
  "is_upper c \<longleftrightarrow> 65 \<le> code c \<and> code c \<le> 90"

definition is_lower :: "char \<Rightarrow> bool" where
  "is_lower c \<longleftrightarrow> 97 \<le> code c \<and> code c \<le> 122"

definition is_alpha :: "char \<Rightarrow> bool" where
  "is_alpha c \<longleftrightarrow> is_upper c \<or> is_lower c"

definition is_alnum :: "char \<Rightarrow> bool" where
  "is_alnum c \<longleftrightarrow> is_alpha c \<or> is_digit c"

text \<open>The line boundaries of \<open>str.splitlines\<close>.\<close>

definition is_linebreak :: "char \<Rightarrow> bool" where
  "is_linebreak c \<longleftrightarrow> code c \<in> {10, 11, 12, 13, 28, 29, 30}"

lemma linebreak_is_space: "is_linebreak c \<Longrightarrow> is_space c"
  by (auto simp: is_linebreak_def is_space_def)

lemmas char_class_defs = is_space_def is_digit_def is_upper_def is_lower_def is_alpha_def
  is_alnum_def is_linebreak_def code_def

lemma digit_not_space: "is_digit c \<Longrightarrow> \<not> is_space c"
  by (auto simp: is_digit_def is_space_def)

lemma alnum_not_space: "is_alnum c \<Longrightarrow> \<not> is_space c"
  by (auto simp: is_alnum_def is_alpha_def is_upper_def is_lower_def is_digit_def is_space_def)

section \<open>Case\<close>

definition to_lower :: "char \<Rightarrow> char" where
  "to_lower c = (if is_upper c then char_of (code c + 32) else c)"

definition to_upper :: "char \<Rightarrow> char" where
  "to_upper c = (if is_lower c then char_of (code c - 32) else c)"

definition lower :: "string \<Rightarrow> string" where
  "lower = map to_lower"

definition upper :: "string \<Rightarrow> string" where
  "upper = map to_upper"

lemma code_to_lower: "code (to_lower c) = (if is_upper c then code c + 32 else code c)"
  by (auto simp: to_lower_def is_upper_def code_def)

lemma lower_simps [simp]: "lower [] = []" "lower (c # cs) = to_lower c # lower cs"
  "lower (s @ t) = lower s @ lower t" "length (lower s) = length s"
  by (simp_all add: lower_def)

lemma lower_Nil_iff [simp]: "lower s = [] \<longleftrightarrow> s = []"
  by (simp add: lower_def)

lemma to_lower_idem [simp]: "to_lower (to_lower c) = to_lower c"
proof (cases "is_upper c")
  case True
  then have "\<not> is_upper (to_lower c)"
    by (simp add: is_upper_def code_to_lower)
  then show ?thesis by (simp add: to_lower_def)
qed (simp add: to_lower_def)

lemma lower_idem [simp]: "lower (lower s) = lower s"
  by (induction s) auto

lemma is_space_to_lower [simp]: "is_space (to_lower c) = is_space c"
  by (auto simp: is_space_def code_to_lower is_upper_def)

section \<open>strip\<close>

definition lstrip :: "string \<Rightarrow> string" where
  "lstrip s = dropWhile is_space s"

definition rstrip :: "string \<Rightarrow> string" where
  "rstrip s = rev (dropWhile is_space (rev s))"

definition strip :: "string \<Rightarrow> string" where
  "strip s = rstrip (lstrip s)"

text \<open>A string \<open>strip\<close> leaves alone.\<close>

definition stripped :: "string \<Rightarrow> bool" where
  "stripped s \<longleftrightarrow> s = [] \<or> (\<not> is_space (hd s) \<and> \<not> is_space (last s))"

lemma rstrip_Nil [simp]: "rstrip [] = []"
  by (simp add: rstrip_def)

lemma rstrip_id: "s \<noteq> [] \<Longrightarrow> \<not> is_space (last s) \<Longrightarrow> rstrip s = s"
  by (cases s rule: rev_cases) (auto simp: rstrip_def)

lemma rstrip_prefix: "prefix (rstrip s) s"
proof -
  have "s = rstrip s @ rev (takeWhile is_space (rev s))"
    by (metis rev_append rev_rev_ident rstrip_def takeWhile_dropWhile_id)
  then show ?thesis by (metis prefixI)
qed

lemma rstrip_Cons: "\<not> is_space c \<Longrightarrow> rstrip (c # s) = c # rstrip s"
  by (auto simp: rstrip_def dropWhile_append)

lemma rstrip_append: "t \<noteq> [] \<Longrightarrow> rstrip t \<noteq> [] \<Longrightarrow> rstrip (s @ t) = s @ rstrip t"
  by (auto simp: rstrip_def dropWhile_append)

lemma rstrip_snoc: "rstrip (s @ [c]) = (if is_space c then rstrip s else s @ [c])"
  by (simp add: rstrip_def)

lemma last_rstrip: "rstrip s \<noteq> [] \<Longrightarrow> \<not> is_space (last (rstrip s))"
  by (induction s rule: rev_induct) (auto simp: rstrip_snoc split: if_splits)

lemma strip_Nil [simp]: "strip [] = []"
  by (simp add: strip_def lstrip_def)

lemma strip_id: "stripped s \<Longrightarrow> strip s = s"
  by (cases s) (auto simp: stripped_def strip_def lstrip_def rstrip_id)

lemma stripped_strip [simp]: "stripped (strip s)"
proof (cases "strip s = []")
  case False
  let ?t = "lstrip s"
  from False have t: "rstrip ?t \<noteq> []" by (simp add: strip_def)
  then have "?t \<noteq> []" by auto
  then have hd: "\<not> is_space (hd ?t)"
    by (simp add: lstrip_def hd_dropWhile)
  obtain c cs where c: "?t = c # cs" using \<open>?t \<noteq> []\<close> by (cases ?t) auto
  with hd have "hd (rstrip ?t) = c" by (simp add: rstrip_Cons)
  with c hd t last_rstrip[of ?t] show ?thesis by (simp add: stripped_def strip_def)
qed (simp add: stripped_def)

lemma strip_idem [simp]: "strip (strip s) = strip s"
  by (rule strip_id) simp

lemma set_strip: "set (strip s) \<subseteq> set s"
  by (auto simp: strip_def rstrip_def lstrip_def dest!: set_dropWhileD)

lemma rstrip_Nil_iff: "rstrip s = [] \<longleftrightarrow> (\<forall>c \<in> set s. is_space c)"
  by (simp add: rstrip_def dropWhile_eq_Nil_conv)

lemma strip_all_space: "strip s = [] \<longleftrightarrow> (\<forall>c \<in> set s. is_space c)"
proof -
  have "(\<forall>c \<in> set (dropWhile is_space s). is_space c) \<longleftrightarrow> (\<forall>c \<in> set s. is_space c)"
    by (induction s) auto
  then show ?thesis by (simp add: strip_def lstrip_def rstrip_Nil_iff)
qed

lemma stripped_no_space: "(\<forall>c \<in> set s. \<not> is_space c) \<Longrightarrow> stripped s"
  by (cases s rule: rev_cases) (auto simp: stripped_def hd_append)

section \<open>Splitting and joining\<close>

text \<open>\<open>s.split(c)\<close> for a one-character separator.\<close>

fun split_on :: "char \<Rightarrow> string \<Rightarrow> string list" where
  "split_on c [] = [[]]"
| "split_on c (x # xs) =
     (if x = c then [] # split_on c xs
      else case split_on c xs of [] \<Rightarrow> [[x]] | w # ws \<Rightarrow> (x # w) # ws)"

lemma split_on_nonempty [simp]: "split_on c s \<noteq> []"
  by (induction s) (auto split: list.splits)

text \<open>\<open>sep.join(xs)\<close>.\<close>

fun join :: "string \<Rightarrow> string list \<Rightarrow> string" where
  "join sep [] = []"
| "join sep [x] = x"
| "join sep (x # y # xs) = x @ sep @ join sep (y # xs)"

lemma join_Cons: "xs \<noteq> [] \<Longrightarrow> join sep (x # xs) = x @ sep @ join sep xs"
  by (cases xs) auto

lemma split_on_no_sep: "c \<notin> set s \<Longrightarrow> split_on c s = [s]"
  by (induction s) auto

lemma split_on_append: "c \<notin> set s \<Longrightarrow> split_on c (s @ c # t) = s # split_on c t"
  by (induction s) auto

lemma split_on_pieces: "w \<in> set (split_on c s) \<Longrightarrow> c \<notin> set w \<and> set w \<subseteq> set s"
  by (induction s arbitrary: w) (fastforce split: if_splits list.splits)+

lemma join_split_on: "join [c] (split_on c s) = s"
proof (induction s)
  case (Cons x xs)
  show ?case
  proof (cases "split_on c xs")
    case (Cons w ws)
    then show ?thesis using Cons.IH by (cases ws) auto
  qed simp
qed simp

lemma split_on_join:
  assumes "xs \<noteq> []" "\<forall>x \<in> set xs. c \<notin> set x"
  shows "split_on c (join [c] xs) = xs"
  using assms
proof (induction xs)
  case (Cons x xs)
  then show ?case
    by (cases xs) (simp_all add: split_on_no_sep split_on_append)
qed simp

text \<open>\<open>s.split(c, 1)[0]\<close>: everything before the first separator.\<close>

definition before :: "char \<Rightarrow> string \<Rightarrow> string" where
  "before c s = takeWhile (\<lambda>x. x \<noteq> c) s"

text \<open>\<open>re.split(r"[P]+", s)\<close> for a character class \<open>P\<close>.\<close>

function split_runs :: "(char \<Rightarrow> bool) \<Rightarrow> string \<Rightarrow> string list" where
  "split_runs P s =
     takeWhile (\<lambda>c. \<not> P c) s #
     (case dropWhile (\<lambda>c. \<not> P c) s of
        [] \<Rightarrow> []
      | c # cs \<Rightarrow> split_runs P (dropWhile P cs))"
  by pat_completeness auto
termination
proof (relation "measure (\<lambda>(P, s). length s)", goal_cases)
  case (2 P s c cs)
  have "length (dropWhile P cs) \<le> length cs" by (rule length_dropWhile_le)
  also have "\<dots> < length (c # cs)" by simp
  also have "\<dots> \<le> length s"
    using length_dropWhile_le[of "\<lambda>c. \<not> P c" s] 2 by simp
  finally show ?case by simp
qed simp

declare split_runs.simps [simp del]

lemma split_runs_pieces: "w \<in> set (split_runs P s) \<Longrightarrow> \<forall>c \<in> set w. \<not> P c \<and> c \<in> set s"
proof (induction P s arbitrary: w rule: split_runs.induct)
  case (1 P s)
  show ?case
  proof (cases "w = takeWhile (\<lambda>c. \<not> P c) s")
    case True
    then show ?thesis by (auto dest: set_takeWhileD)
  next
    case False
    with "1.prems" obtain c cs where d: "dropWhile (\<lambda>c. \<not> P c) s = c # cs"
      and w: "w \<in> set (split_runs P (dropWhile P cs))"
      by (cases "dropWhile (\<lambda>c. \<not> P c) s") (auto simp: split_runs.simps[of P s])
    from "1.IH"[OF d w] have "\<forall>x \<in> set w. \<not> P x \<and> x \<in> set (c # cs)"
      by (auto dest: set_dropWhileD)
    then show ?thesis using d by (metis set_dropWhileD)
  qed
qed

text \<open>\<open>str.splitlines()\<close>.\<close>

fun splitlines :: "string \<Rightarrow> string list" where
  "splitlines [] = []"
| "splitlines [c] = (if is_linebreak c then [[]] else [[c]])"
| "splitlines (c # d # cs) =
     (if code c = 13 \<and> code d = 10 then [] # splitlines cs
      else if is_linebreak c then [] # splitlines (d # cs)
      else case splitlines (d # cs) of [] \<Rightarrow> [[c]] | l # ls \<Rightarrow> (c # l) # ls)"

definition nl :: string where
  "nl = [CHR 0x0A]"

definition no_break :: "string \<Rightarrow> bool" where
  "no_break s \<longleftrightarrow> list_all (\<lambda>c. \<not> is_linebreak c) s"

lemma no_break_simps [simp]:
  "no_break []"
  "no_break (c # s) \<longleftrightarrow> \<not> is_linebreak c \<and> no_break s"
  "no_break (s @ t) \<longleftrightarrow> no_break s \<and> no_break t"
  by (simp_all add: no_break_def)

lemma no_break_rstrip: "no_break s \<Longrightarrow> no_break (rstrip s)"
  using rstrip_prefix[of s] by (auto simp: no_break_def list_all_iff dest: set_mono_prefix)

lemma no_break_strip: "no_break s \<Longrightarrow> no_break (strip s)"
  using set_strip[of s] by (auto simp: no_break_def list_all_iff)

lemma linebreak_nl [simp]: "is_linebreak (CHR 0x0A)"
  by (simp add: char_class_defs)

lemma splitlines_nonempty: "s \<noteq> [] \<Longrightarrow> splitlines s \<noteq> []"
  by (induction s rule: splitlines.induct) (auto split: list.splits)

lemma splitlines_line: "no_break l \<Longrightarrow> l \<noteq> [] \<Longrightarrow> splitlines l = [l]"
proof (induction l rule: splitlines.induct)
  case (3 c d cs)
  then have "code c \<noteq> 13" by (auto simp: is_linebreak_def)
  with 3 show ?case by (auto split: list.splits)
qed auto

lemma splitlines_nl: "splitlines (CHR 0x0A # s) = [] # splitlines s"
  by (cases s) (simp_all add: char_class_defs)

lemma splitlines_Cons:
  assumes "\<not> is_linebreak c"
  shows "splitlines (c # s) = (case splitlines s of [] \<Rightarrow> [[c]] | l # ls \<Rightarrow> (c # l) # ls)"
proof -
  have "code c \<noteq> 13" using assms by (auto simp: is_linebreak_def)
  with assms show ?thesis by (cases s) (simp_all split: list.split)
qed

lemma splitlines_cons_line:
  "no_break l \<Longrightarrow> splitlines (l @ CHR 0x0A # s) = l # splitlines s"
  by (induction l) (simp_all add: splitlines_nl splitlines_Cons)

section \<open>Searching\<close>

definition startswith :: "string \<Rightarrow> string \<Rightarrow> bool" where
  "startswith s p \<longleftrightarrow> prefix p s"

definition endswith :: "string \<Rightarrow> string \<Rightarrow> bool" where
  "endswith s p \<longleftrightarrow> suffix p s"

text \<open>\<open>p in s\<close>.\<close>

fun contains :: "string \<Rightarrow> string \<Rightarrow> bool" where
  "contains p [] \<longleftrightarrow> p = []"
| "contains p (c # cs) \<longleftrightarrow> prefix p (c # cs) \<or> contains p cs"

lemma contains_iff_sublist: "contains p s \<longleftrightarrow> sublist p s"
  by (induction s) (auto simp: sublist_Cons_right)

lemma startswith_simps [simp]:
  "startswith s []"
  "startswith [] (p # ps) = False"
  "startswith (c # s) (p # ps) \<longleftrightarrow> c = p \<and> startswith s ps"
  by (auto simp: startswith_def)

text \<open>\<open>s.replace(a, b)\<close> for one-character strings.\<close>

definition replace_char :: "char \<Rightarrow> char \<Rightarrow> string \<Rightarrow> string" where
  "replace_char a b s = map (\<lambda>c. if c = a then b else c) s"

section \<open>Decimal numbers\<close>

definition digit :: "nat \<Rightarrow> char" where
  "digit d = char_of (48 + d)"

definition digit_val :: "char \<Rightarrow> nat" where
  "digit_val c = code c - 48"

lemma code_digit: "d < 10 \<Longrightarrow> code (digit d) = 48 + d"
  by (simp add: code_def digit_def)

lemma digit_val_digit [simp]: "d < 10 \<Longrightarrow> digit_val (digit d) = d"
  by (simp add: digit_val_def code_digit)

lemma is_digit_digit [simp]: "d < 10 \<Longrightarrow> is_digit (digit d)"
  by (simp add: is_digit_def code_digit)

text \<open>\<open>str(n)\<close>.\<close>

fun str_nat :: "nat \<Rightarrow> string" where
  "str_nat n = (if n < 10 then [digit n] else str_nat (n div 10) @ [digit (n mod 10)])"

declare str_nat.simps [simp del]

definition str_int :: "int \<Rightarrow> string" where
  "str_int i = (if i < 0 then CHR ''-'' # str_nat (nat (- i)) else str_nat (nat i))"

definition nat_of_digits :: "string \<Rightarrow> nat" where
  "nat_of_digits s = foldl (\<lambda>n c. 10 * n + digit_val c) 0 s"

definition all_digits :: "string \<Rightarrow> bool" where
  "all_digits s \<longleftrightarrow> s \<noteq> [] \<and> list_all is_digit s"

lemma nat_of_digits_str_nat [simp]: "nat_of_digits (str_nat n) = n"
proof (induction n rule: str_nat.induct)
  case (1 n)
  then show ?case
    by (cases "n < 10") (subst str_nat.simps, simp add: nat_of_digits_def)+
qed

lemma all_digits_str_nat [simp]: "all_digits (str_nat n)"
proof (induction n rule: str_nat.induct)
  case (1 n)
  then show ?case
    by (cases "n < 10") (subst str_nat.simps, simp add: all_digits_def)+
qed

lemma str_nat_nonempty [simp]: "str_nat n \<noteq> []"
  using all_digits_str_nat[of n] by (auto simp: all_digits_def)

lemma str_nat_digits: "c \<in> set (str_nat n) \<Longrightarrow> is_digit c"
  using all_digits_str_nat[of n] by (auto simp: all_digits_def list_all_iff)

lemma str_nat_inject [simp]: "str_nat m = str_nat n \<longleftrightarrow> m = n"
  by (metis nat_of_digits_str_nat)

text \<open>The decimal form has no leading zero.\<close>

lemma str_nat_hd: "0 < n \<Longrightarrow> hd (str_nat n) \<noteq> CHR ''0''"
proof (induction n rule: str_nat.induct)
  case (1 n)
  show ?case
  proof (cases "n < 10")
    case True
    have "code (digit n) \<noteq> code (CHR ''0'')"
      using True "1.prems" by (simp add: code_digit) (simp add: code_def)
    with True show ?thesis by (subst str_nat.simps) auto
  next
    case False
    with 1 show ?thesis by (subst str_nat.simps) (simp add: hd_append)
  qed
qed

lemma str_nat_length: "n < 10 ^ k \<Longrightarrow> 0 < k \<Longrightarrow> length (str_nat n) \<le> k"
proof (induction n arbitrary: k rule: str_nat.induct)
  case (1 n)
  show ?case
  proof (cases "n < 10")
    case True
    with "1.prems" show ?thesis by (subst str_nat.simps) simp
  next
    case False
    with "1.prems" obtain j where j: "k = Suc j" "0 < j" "n div 10 < 10 ^ j"
      by (cases k; cases "k - 1") (auto simp: less_mult_imp_div_less mult.commute)
    with False "1.IH" show ?thesis by (subst str_nat.simps) fastforce
  qed
qed

text \<open>
  \<open>int(s)\<close>: surrounding white space, an optional sign, digit groups separated by single
  underscores.
\<close>

definition py_int :: "string \<Rightarrow> int option" where
  "py_int s =
     (let t = strip s;
          neg = startswith t ''-'';
          body = (if startswith t ''-'' \<or> startswith t ''+'' then tl t else t);
          groups = split_on (CHR ''_'') body
      in if list_all all_digits groups
         then Some (let n = int (nat_of_digits (concat groups)) in if neg then - n else n)
         else None)"

lemma py_int_digits: "all_digits s \<Longrightarrow> py_int s = Some (int (nat_of_digits s))"
proof -
  assume d: "all_digits s"
  then have dig: "\<forall>c \<in> set s. is_digit c" and ne: "s \<noteq> []"
    by (auto simp: all_digits_def list_all_iff)
  then have st: "strip s = s"
    by (intro strip_id stripped_no_space) (auto dest: digit_not_space)
  have "\<not> is_digit (CHR ''-'')" "\<not> is_digit (CHR ''+'')" "\<not> is_digit (CHR ''_'')"
    by (simp_all add: char_class_defs)
  then have "\<not> startswith s ''-''" "\<not> startswith s ''+''" "CHR ''_'' \<notin> set s"
    using dig ne by (cases s; auto)+
  with d st show ?thesis by (simp add: py_int_def Let_def split_on_no_sep)
qed

lemma py_int_str_nat [simp]: "py_int (str_nat n) = Some (int n)"
  by (simp add: py_int_digits)

section \<open>repr\<close>

definition hex_digit :: "nat \<Rightarrow> char" where
  "hex_digit d = (if d < 10 then char_of (48 + d) else char_of (87 + d))"

definition apos :: string where
  "apos = [CHR 0x27]"

text \<open>\<open>repr(s)\<close>, as \<open>{v!r}\<close> prints it: quotes, escapes, \<open>\xNN\<close> for control characters.\<close>

definition repr_char :: "char \<Rightarrow> char \<Rightarrow> string" where
  "repr_char q c =
     (if c = q \<or> c = CHR 0x5C then [CHR 0x5C, c]
      else if code c = 9 then [CHR 0x5C, CHR ''t'']
      else if code c = 10 then [CHR 0x5C, CHR ''n'']
      else if code c = 13 then [CHR 0x5C, CHR ''r'']
      else if code c < 32 \<or> code c = 127
        then [CHR 0x5C, CHR ''x'', hex_digit (code c div 16), hex_digit (code c mod 16)]
      else [c])"

definition py_repr :: "string \<Rightarrow> string" where
  "py_repr s =
     (let q = (if CHR 0x27 \<in> set s \<and> CHR 0x22 \<notin> set s then CHR 0x22 else CHR 0x27)
      in q # concat (map (repr_char q) s) @ [q])"

text \<open>\<open>repr\<close> of a list of strings.\<close>

definition py_repr_list :: "string list \<Rightarrow> string" where
  "py_repr_list xs = ''['' @ join '', '' (map py_repr xs) @ '']''"

section \<open>Positions of matching lines\<close>

text \<open>\<open>enumerate(xs, start=i)\<close>.\<close>

fun number_from :: "nat \<Rightarrow> 'a list \<Rightarrow> (nat \<times> 'a) list" where
  "number_from i [] = []"
| "number_from i (x # xs) = (i, x) # number_from (Suc i) xs"

lemma number_from_ge: "(j, x) \<in> set (number_from i xs) \<Longrightarrow> i \<le> j \<and> x \<in> set xs"
  by (induction i xs rule: number_from.induct) fastforce+

lemma number_from_map: "number_from i (map f xs) = map (\<lambda>(j, x). (j, f x)) (number_from i xs)"
  by (induction i xs rule: number_from.induct) auto

end
