(* ===== verification/PyValue.thy ===== *)
theory PyValue
  imports PyString
begin

text \<open>
  Dynamic Python values as they come out of \<open>json.loads\<close>, a form or a settings row, with
  the conversions \<open>int()\<close>, \<open>bool()\<close> and \<open>repr()\<close> and the access to dict entries.
\<close>

section \<open>Python values\<close>

text \<open>A float is its \<open>repr\<close> and its value \<open>m * 2 ^ e\<close>, an infinity or a NaN.\<close>

datatype pyfloat = Dyadic int int | Infinite bool | NaN

datatype pyval =
    PNone
  | PBool bool
  | PInt int
  | PFloat string pyfloat
  | PStr string
  | PList "pyval list"
  | PDict "(string \<times> pyval) list"

fun repr_val :: "pyval \<Rightarrow> string" where
  "repr_val PNone = ''None''"
| "repr_val (PBool b) = (if b then ''True'' else ''False'')"
| "repr_val (PInt i) = str_int i"
| "repr_val (PFloat r f) = r"
| "repr_val (PStr s) = py_repr s"
| "repr_val (PList vs) = ''['' @ join '', '' (map repr_val vs) @ '']''"
| "repr_val (PDict kvs) =
     ''{'' @ join '', '' (map (\<lambda>(k, v). py_repr k @ '': '' @ repr_val v) kvs) @ ''}''"

text \<open>\<open>str(x)\<close>.\<close>

fun py_str_of :: "pyval \<Rightarrow> string" where
  "py_str_of (PStr s) = s"
| "py_str_of v = repr_val v"

text \<open>\<open>int(x)\<close> of a float truncates towards zero.\<close>

definition trunc_dyadic :: "int \<Rightarrow> int \<Rightarrow> int" where
  "trunc_dyadic m e =
     (if 0 \<le> e then m * 2 ^ nat e else sgn m * (\<bar>m\<bar> div 2 ^ nat (- e)))"

fun py_int_of :: "pyval \<Rightarrow> int res" where
  "py_int_of (PBool b) = Inr (if b then 1 else 0)"
| "py_int_of (PInt i) = Inr i"
| "py_int_of (PFloat r (Dyadic m e)) = Inr (trunc_dyadic m e)"
| "py_int_of (PFloat r (Infinite neg)) =
     Inl (OverflowError ''cannot convert float infinity to integer'')"
| "py_int_of (PFloat r NaN) = Inl (ValueError ''cannot convert float NaN to integer'')"
| "py_int_of (PStr s) =
     (case py_int s of
        None \<Rightarrow> Inl (ValueError (''invalid literal for int() with base 10: '' @ py_repr s))
      | Some i \<Rightarrow> Inr i)"
| "py_int_of v = Inl (TypeError ''int() argument must be a string or a number'')"

fun py_bool_of :: "pyval \<Rightarrow> bool" where
  "py_bool_of PNone = False"
| "py_bool_of (PBool b) = b"
| "py_bool_of (PInt i) = (i \<noteq> 0)"
| "py_bool_of (PFloat r (Dyadic m e)) = (m \<noteq> 0)"
| "py_bool_of (PFloat r f) = True"
| "py_bool_of (PStr s) = (s \<noteq> [])"
| "py_bool_of (PList vs) = (vs \<noteq> [])"
| "py_bool_of (PDict kvs) = (kvs \<noteq> [])"

text \<open>
  A settings document of the table \<open>service_state\<close>: the text of \<open>value_json\<close> is given
  by what \<open>json.loads\<close> makes of it, \<open>BadJson\<close> when it raises.
\<close>

datatype json_doc = BadJson | Json pyval

type_synonym service_state = "string \<rightharpoonup> json_doc"

text \<open>
  \<open>d.get(k)\<close>: \<open>None\<close> when \<open>d\<close> is not a dict (the call raises), otherwise the value or
  nothing.
\<close>

fun dict_get :: "pyval \<Rightarrow> string \<Rightarrow> pyval option option" where
  "dict_get (PDict kvs) k = Some (map_of kvs k)"
| "dict_get v k = None"

text \<open>\<open>json.loads(...) or {}\<close>.\<close>

definition or_dict :: "pyval \<Rightarrow> pyval" where
  "or_dict v = (if py_bool_of v then v else PDict [])"

section \<open>Methods of dynamic values\<close>

fun type_name :: "pyval \<Rightarrow> string" where
  "type_name PNone = ''NoneType''"
| "type_name (PBool b) = ''bool''"
| "type_name (PInt i) = ''int''"
| "type_name (PFloat r f) = ''float''"
| "type_name (PStr s) = ''str''"
| "type_name (PList vs) = ''list''"
| "type_name (PDict kvs) = ''dict''"

definition no_attr :: "pyval \<Rightarrow> string \<Rightarrow> pyexn" where
  "no_attr v name = AttributeError (apos @ type_name v @ apos @ '' object has no attribute '' @ apos @ name @ apos)"

text \<open>\<open>v.get(k)\<close>; a value without \<open>get\<close> raises.\<close>

definition get_attr :: "pyval \<Rightarrow> string \<Rightarrow> pyval option res" where
  "get_attr v k = (case dict_get v k of None \<Rightarrow> Inl (no_attr v ''get'') | Some x \<Rightarrow> Inr x)"

text \<open>\<open>x or d\<close> of an entry that may be missing.\<close>

definition or_val :: "pyval option \<Rightarrow> pyval \<Rightarrow> pyval" where
  "or_val x d = (case x of None \<Rightarrow> d | Some v \<Rightarrow> if py_bool_of v then v else d)"

text \<open>A method of \<open>str\<close> called on a dynamic value.\<close>

definition str_method :: "string \<Rightarrow> (string \<Rightarrow> string) \<Rightarrow> pyval \<Rightarrow> string res" where
  "str_method name f v = (case v of PStr s \<Rightarrow> Inr (f s) | _ \<Rightarrow> Inl (no_attr v name))"

text \<open>\<open>v[:n]\<close>.\<close>

definition slice_to :: "nat \<Rightarrow> pyval \<Rightarrow> pyval res" where
  "slice_to n v =
     (case v of PStr s \<Rightarrow> Inr (PStr (take n s)) | PList vs \<Rightarrow> Inr (PList (take n vs))
      | PDict kvs \<Rightarrow> Inl (TypeError ''unhashable type: slice'')
      | _ \<Rightarrow> Inl (TypeError (apos @ type_name v @ apos @ '' object is not subscriptable'')))"

text \<open>A value bound to a statement: sqlite3 refuses lists and dicts.\<close>

definition bind_param :: "pyval \<Rightarrow> pyval res" where
  "bind_param v =
     (case v of PList vs \<Rightarrow> Inl (RuntimeError ''Error binding parameter: type list is not supported'')
      | PDict kvs \<Rightarrow> Inl (RuntimeError ''Error binding parameter: type dict is not supported'')
      | _ \<Rightarrow> Inr v)"

lemma str_method_PStr [simp]: "str_method name f (PStr s) = Inr (f s)"
  by (simp add: str_method_def)

lemma get_attr_PDict [simp]: "get_attr (PDict kvs) k = Inr (map_of kvs k)"
  by (simp add: get_attr_def)

end
