(* ===== verification/ContentPolicy.thy ===== *)
theory ContentPolicy
  imports PyValue "HOL-Library.AList"
begin

text \<open>
  \<^verbatim>\<open>app/services/content_policy.py\<close> with the DoH part of
  \<^verbatim>\<open>app/services/dns_filter.py\<close> and the table matrix of
  \<^verbatim>\<open>app/services/bypass_policy.py\<close>: normalisation of actions and domains, the unified
  domain-policy map over the DNS, web and application filters, the Unbound zones it is
  rendered to, and the tests who bypasses the policy.

  A filter table is \<open>None\<close> when its query raises.  A Python dict of policies is an
  association list in insertion order.
\<close>

section \<open>Rows\<close>

record dns_rule =
  dr_id :: nat
  dr_enabled :: bool
  dr_domain :: "string option"
  dr_action :: "string option"
  dr_redirect_ip :: "string option"
  dr_category :: "string option"

record web_rule =
  wr_id :: nat
  wr_enabled :: bool
  wr_url_pattern :: "string option"
  wr_action :: "string option"
  wr_category :: "string option"

record app_rule =
  ar_id :: nat
  ar_enabled :: bool
  ar_app_name :: "string option"
  ar_action :: "string option"
  ar_block_dns :: bool
  ar_block_ports :: bool
  ar_ports :: "string option"
  ar_protocol :: "string option"
  ar_domains :: "string option"
  ar_category :: "string option"

record captive_row =
  cr_ip_address :: string
  cr_is_superuser :: bool
  cr_logged_out :: bool
  cr_expires_at :: int

record host_row =
  hr_ip_address :: string
  hr_is_whitelisted :: bool
  hr_is_policy_exempt :: bool

record policy_db =
  dns_rules :: "dns_rule list option"
  web_rules :: "web_rule list option"
  app_rules :: "app_rule list option"
  service_state :: "service_state option"
  sessions :: "captive_row list"
  hosts :: "host_row list option"
  lan_ipv4 :: "string option option option"

section \<open>Actions\<close>

datatype action = BlockAll | AllowAll | AllowWhitelistOnly | Redirect

definition normalize_action :: "string option \<Rightarrow> action res" where
  "normalize_action raw =
     (let v = lower (strip (or_str raw [])) in
      if v \<in> set [''block'', ''block_all'', ''''] then Inr BlockAll
      else if v = ''allow_all'' then Inr AllowAll
      else if v \<in> set [''allow'', ''allow_whitelist_only''] then Inr AllowWhitelistOnly
      else if v = ''redirect'' then Inr Redirect
      else Inl (ValueError (''Unknown content-policy action: '' @
             (case raw of None \<Rightarrow> ''None'' | Some s \<Rightarrow> py_repr s))))"

text \<open>\<open>action in _ENFORCING_ACTIONS\<close>.\<close>

definition enforcing_action :: "action \<Rightarrow> bool" where
  "enforcing_action a \<longleftrightarrow> a \<in> set [BlockAll, AllowWhitelistOnly, Redirect]"

definition is_enforcing :: "string option \<Rightarrow> bool" where
  "is_enforcing raw =
     (case normalize_action raw of Inl _ \<Rightarrow> False | Inr a \<Rightarrow> enforcing_action a)"

datatype mode = DnsNxdomainOnly | DnsRedirectBlockPage | CaptiveAuthRequired | WhitelistOnly

definition modes :: "(string \<times> mode) list" where
  "modes =
     [(''dns_nxdomain_only'', DnsNxdomainOnly), (''dns_redirect_block_page'', DnsRedirectBlockPage),
      (''captive_auth_required'', CaptiveAuthRequired), (''whitelist_only'', WhitelistOnly)]"

text \<open>Every failure, a missing row, bad JSON or a mode that is no string gives the default.\<close>

definition get_content_policy_mode :: "policy_db \<Rightarrow> mode" where
  "get_content_policy_mode db =
     (case service_state db of
        Some st \<Rightarrow>
          (case st ''content_policy_settings'' of
             Some (Json v) \<Rightarrow>
               (case dict_get (or_dict v) ''mode'' of
                  Some (Some (PStr m)) \<Rightarrow>
                    (case map_of modes (lower (strip m)) of
                       Some md \<Rightarrow> md | None \<Rightarrow> DnsRedirectBlockPage)
                | _ \<Rightarrow> DnsRedirectBlockPage)
           | _ \<Rightarrow> DnsRedirectBlockPage)
      | None \<Rightarrow> DnsRedirectBlockPage)"

section \<open>Domains\<close>

definition lower_alnum :: "char \<Rightarrow> bool" where
  "lower_alnum c \<longleftrightarrow> is_lower c \<or> is_digit c"

text \<open>\<open>[a-z0-9](?:[a-z0-9-]{0,61}[a-z0-9])?\<close>.\<close>

definition proper_label :: "string \<Rightarrow> bool" where
  "proper_label l \<longleftrightarrow>
     l \<noteq> [] \<and> length l \<le> 63 \<and> lower_alnum (hd l) \<and> lower_alnum (last l)
     \<and> list_all (\<lambda>c. lower_alnum c \<or> c = CHR ''-'') l"

text \<open>
  \<open>_DOMAIN_LABEL_RE.match(label)\<close>: the \<open>$\<close> at the end of the pattern also matches just
  before a newline that ends the string.
\<close>

definition domain_label_match :: "string \<Rightarrow> bool" where
  "domain_label_match l \<longleftrightarrow>
     proper_label l \<or> (l \<noteq> [] \<and> last l = CHR 0x0A \<and> proper_label (butlast l))"

text \<open>\<open>re.sub(r"^https?://", "", s)\<close>.\<close>

definition drop_scheme :: "string \<Rightarrow> string" where
  "drop_scheme s =
     (if startswith s ''http://'' then drop 7 s
      else if startswith s ''https://'' then drop 8 s else s)"

definition strip_chars :: "string \<Rightarrow> string \<Rightarrow> string" where
  "strip_chars cs s = rev (dropWhile (\<lambda>c. c \<in> set cs) (rev (dropWhile (\<lambda>c. c \<in> set cs) s)))"

definition normalize_domain :: "string \<Rightarrow> string" where
  "normalize_domain raw =
     (let d0 = lower (strip raw) in
      if d0 = [] then []
      else (let d1 = drop_scheme d0;
                d2 = before (CHR ''#'') (before (CHR ''?'') (before (CHR ''/'') d1));
                d3 = before (CHR '':'') d2;
                d4 = strip_chars ''.'' (dropWhile (\<lambda>c. c \<in> set ''*.'') d3)
            in if d4 = [] \<or> CHR ''.'' \<notin> set d4 then []
               else if list_ex (\<lambda>l. \<not> domain_label_match l) (split_on (CHR ''.'') d4) then []
               else d4))"

definition domain_matches :: "string \<Rightarrow> string \<Rightarrow> bool" where
  "domain_matches host policy_domain =
     (let h = normalize_domain host; p = normalize_domain policy_domain in
      if h = [] \<or> p = [] then False
      else h = p \<or> endswith h (CHR ''.'' # p))"

section \<open>The unified policy map\<close>

datatype source = Dns | Web | App | Soc

record domain_policy =
  dp_domain :: string
  dp_action :: action
  dp_source :: source
  dp_redirect_ip :: string

fun source_precedence :: "source \<Rightarrow> int" where
  "source_precedence Soc = 80"
| "source_precedence App = 60"
| "source_precedence Web = 40"
| "source_precedence Dns = 20"

definition precedence :: "domain_policy \<Rightarrow> int" where
  "precedence p =
     (if dp_action p = AllowWhitelistOnly then 100 else source_precedence (dp_source p))"

type_synonym policies = "(string \<times> domain_policy) list"

definition consider_policy :: "policies \<Rightarrow> domain_policy \<Rightarrow> policies" where
  "consider_policy policies candidate =
     (case map_of policies (dp_domain candidate) of
        None \<Rightarrow> AList.update (dp_domain candidate) candidate policies
      | Some existing \<Rightarrow>
          (if precedence existing < precedence candidate
           then AList.update (dp_domain candidate) candidate policies else policies))"

text \<open>The DNS loop; an unknown action raises and ends it with the rows done so far.\<close>

fun dns_loop :: "policies \<Rightarrow> dns_rule list \<Rightarrow> policies" where
  "dns_loop ps [] = ps"
| "dns_loop ps (r # rest) =
     (let d = normalize_domain (or_str (dr_domain r) []) in
      if d = [] then dns_loop ps rest
      else case normalize_action (dr_action r) of
        Inl _ \<Rightarrow> ps
      | Inr a \<Rightarrow>
          dns_loop (consider_policy ps \<lparr>dp_domain = d, dp_action = a, dp_source = Dns,
                       dp_redirect_ip = strip (or_str (dr_redirect_ip r) [])\<rparr>) rest)"

fun web_loop :: "policies \<Rightarrow> web_rule list \<Rightarrow> policies" where
  "web_loop ps [] = ps"
| "web_loop ps (r # rest) =
     (let d = normalize_domain (or_str (wr_url_pattern r) []) in
      if d = [] then web_loop ps rest
      else case normalize_action (wr_action r) of
        Inl _ \<Rightarrow> ps
      | Inr a \<Rightarrow>
          web_loop (consider_policy ps \<lparr>dp_domain = d, dp_action = a, dp_source = Web,
                       dp_redirect_ip = []\<rparr>) rest)"

fun app_domains_loop :: "policies \<Rightarrow> action \<Rightarrow> string list \<Rightarrow> policies" where
  "app_domains_loop ps a [] = ps"
| "app_domains_loop ps a (raw # rest) =
     (let d = normalize_domain raw in
      if d = [] then app_domains_loop ps a rest
      else app_domains_loop (consider_policy ps \<lparr>dp_domain = d, dp_action = a, dp_source = App,
             dp_redirect_ip = []\<rparr>) a rest)"

fun app_loop :: "policies \<Rightarrow> app_rule list \<Rightarrow> policies" where
  "app_loop ps [] = ps"
| "app_loop ps (r # rest) =
     (case normalize_action (ar_action r) of
        Inl _ \<Rightarrow> ps
      | Inr a \<Rightarrow>
          app_loop (app_domains_loop ps a (split_on (CHR '','') (or_str (ar_domains r) []))) rest)"

definition rows_of :: "'a list option \<Rightarrow> 'a list" where
  "rows_of t = (case t of None \<Rightarrow> [] | Some rs \<Rightarrow> rs)"

definition build_domain_policy_map :: "policy_db \<Rightarrow> policies" where
  "build_domain_policy_map db =
     (let ps1 = dns_loop [] (filter dr_enabled (rows_of (dns_rules db)));
          ps2 = web_loop ps1 (filter wr_enabled (rows_of (web_rules db)))
      in app_loop ps2 (filter (\<lambda>r. ar_enabled r \<and> ar_block_dns r) (rows_of (app_rules db))))"

section \<open>Questions about the policy\<close>

text \<open>
  The three queries are not guarded: a missing table raises.  The result is the exception or
  the answer.
\<close>

definition missing_table :: "string \<Rightarrow> pyexn" where
  "missing_table t = OSError (''no such table: '' @ t)"

definition has_active_content_policy :: "policy_db \<Rightarrow> bool res" where
  "has_active_content_policy db =
     (case dns_rules db of
        None \<Rightarrow> Inl (missing_table ''filter_dns_rules'')
      | Some ds \<Rightarrow>
          (if list_ex (\<lambda>r. is_enforcing (dr_action r)) (filter dr_enabled ds) then Inr True
           else case web_rules db of
             None \<Rightarrow> Inl (missing_table ''filter_web_rules'')
           | Some ws \<Rightarrow>
               (if list_ex (\<lambda>r. is_enforcing (wr_action r)) (filter wr_enabled ws) then Inr True
                else case app_rules db of
                  None \<Rightarrow> Inl (missing_table ''filter_app_rules'')
                | Some as \<Rightarrow>
                    Inr (list_ex (\<lambda>r. (ar_block_dns r \<or> ar_block_ports r) \<and> is_enforcing (ar_action r))
                           (filter ar_enabled as)))))"

definition is_blocked_domain :: "policy_db \<Rightarrow> string \<Rightarrow> bool" where
  "is_blocked_domain db host =
     (let h = normalize_domain host in
      if h = [] then False
      else list_ex (\<lambda>(d, p). enforcing_action (dp_action p) \<and> domain_matches h d)
             (build_domain_policy_map db))"

fun longest_match :: "string \<Rightarrow> policies \<Rightarrow> domain_policy option \<Rightarrow> int \<Rightarrow> domain_policy option" where
  "longest_match host [] best best_len = best"
| "longest_match host ((d, p) # rest) best best_len =
     (if \<not> domain_matches host d then longest_match host rest best best_len
      else if best_len < int (length d) then longest_match host rest (Some p) (int (length d))
      else longest_match host rest best best_len)"

definition resolve_domain_policy :: "policy_db \<Rightarrow> string \<Rightarrow> domain_policy option" where
  "resolve_domain_policy db host =
     (let h = normalize_domain host in
      if h = [] then None else longest_match h (build_domain_policy_map db) None (- 1))"

definition has_active_captive_session :: "policy_db \<Rightarrow> string option \<Rightarrow> int \<Rightarrow> bool" where
  "has_active_captive_session db ip now =
     (let a = strip (or_str ip []) in
      if a = [] then False
      else fetchone (filter (\<lambda>s. cr_ip_address s = a \<and> \<not> cr_logged_out s \<and> cr_expires_at s > now)
             (sessions db)) \<noteq> None)"

definition is_admin_bypass_session :: "policy_db \<Rightarrow> string option \<Rightarrow> int \<Rightarrow> bool" where
  "is_admin_bypass_session db ip now =
     (let a = strip (or_str ip []) in
      if a = [] then False
      else fetchone (filter (\<lambda>s. cr_ip_address s = a \<and> cr_is_superuser s \<and> \<not> cr_logged_out s
                         \<and> cr_expires_at s > now) (sessions db)) \<noteq> None)"

definition is_device_whitelisted :: "policy_db \<Rightarrow> string option \<Rightarrow> bool res" where
  "is_device_whitelisted db ip =
     (let a = strip (or_str ip []) in
      if a = [] then Inr False
      else case hosts db of
        None \<Rightarrow> Inl (missing_table ''tracked_hosts'')
      | Some hs \<Rightarrow>
          Inr (fetchone (filter (\<lambda>h. hr_ip_address h = a \<and> hr_is_whitelisted h) hs) \<noteq> None))"

definition is_policy_exempt :: "policy_db \<Rightarrow> string option \<Rightarrow> bool" where
  "is_policy_exempt db ip =
     (let a = strip (or_str ip []) in
      if a = [] then False
      else case hosts db of
        None \<Rightarrow> False
      | Some hs \<Rightarrow>
          fetchone (filter (\<lambda>h. hr_ip_address h = a \<and> hr_is_policy_exempt h) hs) \<noteq> None)"

section \<open>Unbound configuration\<close>

definition doh_provider_domains :: "string list" where
  "doh_provider_domains =
     [''dns.google'', ''dns.google.com'', ''cloudflare-dns.com'', ''mozilla.cloudflare-dns.com'',
      ''one.one.one.one'', ''dns.quad9.net'', ''dns.nextdns.io'', ''doh.opendns.com'',
      ''doh.cleanbrowsing.org'']"

definition quote :: string where
  "quote = [CHR 0x22]"

definition zone_line :: "string \<Rightarrow> string \<Rightarrow> string" where
  "zone_line fqdn kind = ''    local-zone: '' @ quote @ fqdn @ quote @ '' '' @ kind"

definition data_line :: "string \<Rightarrow> string \<Rightarrow> string" where
  "data_line fqdn ip = ''    local-data: '' @ quote @ fqdn @ '' 5 A '' @ ip @ quote"

definition emit_policy_exemption_overrides :: "policy_db \<Rightarrow> string list" where
  "emit_policy_exemption_overrides db =
     (let blocked = map fst (filter (\<lambda>(d, p). dp_action p \<noteq> AllowWhitelistOnly)
                               (build_domain_policy_map db))
      in map (\<lambda>d. zone_line (d @ ''.'') ''transparent'')
           (sort (remdups (blocked @ doh_provider_domains))))"

definition policy_zone_lines :: "bool \<Rightarrow> string \<Rightarrow> string \<times> domain_policy \<Rightarrow> string list" where
  "policy_zone_lines force_nxdomain block_page_ip dp =
     (case dp of (d, p) \<Rightarrow>
       (let fqdn = d @ ''.'' in
        if dp_action p = Redirect \<and> dp_redirect_ip p \<noteq> [] \<and> \<not> force_nxdomain
        then [zone_line fqdn ''redirect'', data_line fqdn (dp_redirect_ip p)]
        else if \<not> force_nxdomain \<and> block_page_ip \<noteq> []
        then [zone_line fqdn ''redirect'', data_line fqdn block_page_ip]
        else [zone_line fqdn ''always_nxdomain'']))"

definition emit_unbound_policy_zones :: "policy_db \<Rightarrow> string \<Rightarrow> string list" where
  "emit_unbound_policy_zones db block_page_ip =
     (let force_nxdomain = (get_content_policy_mode db = DnsNxdomainOnly) in
      concat (map (policy_zone_lines force_nxdomain block_page_ip)
                (sort_key fst (build_domain_policy_map db))))"

text \<open>\<open>lan_config\<close>: no table, no row, a NULL address or the address.\<close>

definition get_block_page_ip :: "policy_db \<Rightarrow> string" where
  "get_block_page_ip db =
     (case lan_ipv4 db of
        None \<Rightarrow> []
      | Some row \<Rightarrow>
          (let raw = strip (case row of Some (Some a) \<Rightarrow> a | _ \<Rightarrow> []);
               ip = strip (before (CHR ''/'') raw)
           in if ip \<noteq> [] \<and> \<not> startswith ip ''127.'' then ip else []))"

text \<open>\<open>dns_filter._doh_blocking_enabled\<close> and \<open>generate_doh_block_zones\<close>.\<close>

definition doh_blocking_enabled :: "policy_db \<Rightarrow> bool" where
  "doh_blocking_enabled db =
     (case service_state db of
        Some st \<Rightarrow>
          (case st ''content_policy_settings'' of
             Some (Json v) \<Rightarrow>
               (case dict_get (or_dict v) ''block_known_doh'' of
                  Some (Some b) \<Rightarrow> py_bool_of b | _ \<Rightarrow> True)
           | _ \<Rightarrow> True)
      | None \<Rightarrow> True)"

definition generate_doh_block_zones :: "policy_db \<Rightarrow> string list" where
  "generate_doh_block_zones db =
     (if has_active_content_policy db \<noteq> Inr True then []
      else if \<not> doh_blocking_enabled db then []
      else map (\<lambda>d. zone_line (d @ ''.'') ''always_nxdomain'') doh_provider_domains)"

section \<open>Explaining a decision\<close>

record explanation =
  ex_domain :: string
  ex_source :: source
  ex_rule_id :: nat
  ex_action :: action
  ex_category :: string

type_synonym best = "explanation option \<times> int"

fun explain_patterns :: "string \<Rightarrow> source \<Rightarrow> nat \<Rightarrow> action \<Rightarrow> string \<Rightarrow> best \<Rightarrow> string list \<Rightarrow> best" where
  "explain_patterns host src rid a cat b [] = b"
| "explain_patterns host src rid a cat b (raw # rest) =
     (let d = normalize_domain raw in
      if d = [] \<or> \<not> domain_matches host d then explain_patterns host src rid a cat b rest
      else (let pr = (if a = AllowWhitelistOnly then 100 else source_precedence src) in
            explain_patterns host src rid a cat
              (if pr > snd b
               then (Some \<lparr>ex_domain = d, ex_source = src, ex_rule_id = rid, ex_action = a,
                       ex_category = cat\<rparr>, pr)
               else b) rest))"

text \<open>A row of a source query: id, patterns, action, category.\<close>

type_synonym explain_row = "nat \<times> string list \<times> string option \<times> string option"

fun explain_rows :: "string \<Rightarrow> source \<Rightarrow> best \<Rightarrow> explain_row list \<Rightarrow> best res" where
  "explain_rows host src b [] = Inr b"
| "explain_rows host src b ((rid, patterns, act, cat) # rest) =
     bind_res (normalize_action act)
       (\<lambda>a. explain_rows host src
              (explain_patterns host src rid a (or_str cat []) b patterns) rest)"

definition explain_domain_policy :: "policy_db \<Rightarrow> string \<Rightarrow> explanation option res" where
  "explain_domain_policy db host =
     (let h = normalize_domain host in
      if h = [] then Inr None
      else
        (let apps = map (\<lambda>r. (ar_id r, split_on (CHR '','') (or_str (ar_domains r) []),
                             ar_action r, ar_category r))
                      (filter (\<lambda>r. ar_enabled r \<and> ar_block_dns r) (rows_of (app_rules db)));
             webs = map (\<lambda>r. (wr_id r, [or_str (wr_url_pattern r) []], wr_action r, wr_category r))
                      (filter wr_enabled (rows_of (web_rules db)));
             dnss = map (\<lambda>r. (dr_id r, [or_str (dr_domain r) []], dr_action r, dr_category r))
                      (filter dr_enabled (rows_of (dns_rules db)))
         in bind_res (explain_rows h App (None, - 1) apps)
              (\<lambda>b1. bind_res (explain_rows h Web b1 webs)
                (\<lambda>b2. bind_res (explain_rows h Dns b2 dnss) (\<lambda>b3. Inr (fst b3))))))"

section \<open>The bypass matrix\<close>

definition bypass_matrix :: "(string \<times> string list) list" where
  "bypass_matrix =
     [(''captive_portal_http'',
        [''admin_bypass_clients'', ''authenticated_clients'', ''device_whitelist'', ''access_whitelist'']),
      (''captive_portal_dns'', [''admin_bypass_clients'']),
      (''dns_policy'', [''admin_bypass_clients'', ''policy_exemption'']),
      (''web_filter'', [''admin_bypass_clients'', ''policy_exemption'']),
      (''app_filter'', [''admin_bypass_clients'', ''policy_exemption''])]"

definition bypass_tables_for :: "string \<Rightarrow> string list" where
  "bypass_tables_for layer =
     (case map_of bypass_matrix layer of None \<Rightarrow> [] | Some ts \<Rightarrow> ts)"

section \<open>The map is the winner of the candidates\<close>

text \<open>
  The candidates in the order the loops consider them, rows after an unknown action left
  out.  The map holds, for every domain, the first candidate of the highest precedence.
\<close>

fun dns_candidates :: "dns_rule list \<Rightarrow> domain_policy list" where
  "dns_candidates [] = []"
| "dns_candidates (r # rest) =
     (let d = normalize_domain (or_str (dr_domain r) []) in
      if d = [] then dns_candidates rest
      else case normalize_action (dr_action r) of
        Inl _ \<Rightarrow> []
      | Inr a \<Rightarrow> \<lparr>dp_domain = d, dp_action = a, dp_source = Dns,
                  dp_redirect_ip = strip (or_str (dr_redirect_ip r) [])\<rparr> # dns_candidates rest)"

fun web_candidates :: "web_rule list \<Rightarrow> domain_policy list" where
  "web_candidates [] = []"
| "web_candidates (r # rest) =
     (let d = normalize_domain (or_str (wr_url_pattern r) []) in
      if d = [] then web_candidates rest
      else case normalize_action (wr_action r) of
        Inl _ \<Rightarrow> []
      | Inr a \<Rightarrow> \<lparr>dp_domain = d, dp_action = a, dp_source = Web, dp_redirect_ip = []\<rparr>
                 # web_candidates rest)"

fun app_candidates :: "app_rule list \<Rightarrow> domain_policy list" where
  "app_candidates [] = []"
| "app_candidates (r # rest) =
     (case normalize_action (ar_action r) of
        Inl _ \<Rightarrow> []
      | Inr a \<Rightarrow>
          map (\<lambda>d. \<lparr>dp_domain = d, dp_action = a, dp_source = App, dp_redirect_ip = []\<rparr>)
            (filter (\<lambda>d. d \<noteq> [])
              (map normalize_domain (split_on (CHR '','') (or_str (ar_domains r) []))))
          @ app_candidates rest)"

definition policy_candidates :: "policy_db \<Rightarrow> domain_policy list" where
  "policy_candidates db =
     dns_candidates (filter dr_enabled (rows_of (dns_rules db)))
     @ web_candidates (filter wr_enabled (rows_of (web_rules db)))
     @ app_candidates (filter (\<lambda>r. ar_enabled r \<and> ar_block_dns r) (rows_of (app_rules db)))"

lemma dns_loop_foldl: "dns_loop ps rs = foldl consider_policy ps (dns_candidates rs)"
  by (induction ps rs rule: dns_loop.induct) (auto simp: Let_def split: sum.split)

lemma web_loop_foldl: "web_loop ps rs = foldl consider_policy ps (web_candidates rs)"
  by (induction ps rs rule: web_loop.induct) (auto simp: Let_def split: sum.split)

lemma app_domains_loop_foldl:
  "app_domains_loop ps a ds =
     foldl consider_policy ps
       (map (\<lambda>d. \<lparr>dp_domain = d, dp_action = a, dp_source = App, dp_redirect_ip = []\<rparr>)
         (filter (\<lambda>d. d \<noteq> []) (map normalize_domain ds)))"
  by (induction ps a ds rule: app_domains_loop.induct) (auto simp: Let_def)

lemma app_loop_foldl: "app_loop ps rs = foldl consider_policy ps (app_candidates rs)"
  by (induction ps rs rule: app_loop.induct) (auto simp: app_domains_loop_foldl split: sum.split)

lemma build_foldl: "build_domain_policy_map db = foldl consider_policy [] (policy_candidates db)"
  by (simp add: build_domain_policy_map_def policy_candidates_def Let_def dns_loop_foldl
      web_loop_foldl app_loop_foldl)

lemma map_of_consider:
  "map_of (consider_policy ps c) d =
     (if d = dp_domain c
         \<and> (case map_of ps d of None \<Rightarrow> True | Some p \<Rightarrow> precedence p < precedence c)
      then Some c else map_of ps d)"
  by (auto simp: consider_policy_def update_conv' split: option.split)

text \<open>\<open>p\<close> is the first candidate of the highest precedence for its domain.\<close>

definition winner :: "domain_policy list \<Rightarrow> string \<Rightarrow> domain_policy \<Rightarrow> bool" where
  "winner cs d p \<longleftrightarrow> dp_domain p = d \<and>
     (\<exists>ys zs. cs = ys @ p # zs
        \<and> (\<forall>c \<in> set ys. dp_domain c = d \<longrightarrow> precedence c < precedence p)
        \<and> (\<forall>c \<in> set zs. dp_domain c = d \<longrightarrow> precedence c \<le> precedence p))"

lemma winner_snoc_keep:
  assumes "winner cs d p" "dp_domain c = d \<longrightarrow> precedence c \<le> precedence p"
  shows "winner (cs @ [c]) d p"
proof -
  from assms(1) obtain ys zs where "dp_domain p = d" "cs = ys @ p # zs"
    "\<forall>c \<in> set ys. dp_domain c = d \<longrightarrow> precedence c < precedence p"
    "\<forall>c \<in> set zs. dp_domain c = d \<longrightarrow> precedence c \<le> precedence p"
    by (auto simp: winner_def)
  with assms(2) show ?thesis
    unfolding winner_def by (intro conjI exI[of _ ys] exI[of _ "zs @ [c]"]) auto
qed

lemma winner_snoc_new:
  "dp_domain c = d \<Longrightarrow> \<forall>x \<in> set cs. dp_domain x = d \<longrightarrow> precedence x < precedence c \<Longrightarrow>
     winner (cs @ [c]) d c"
  unfolding winner_def by (intro conjI exI[of _ cs] exI[of _ "[]"]) auto

lemma winner_max: "winner cs d p \<Longrightarrow> c \<in> set cs \<Longrightarrow> dp_domain c = d \<Longrightarrow> precedence c \<le> precedence p"
  by (auto simp: winner_def less_imp_le)

lemma map_of_foldl_consider:
  "case map_of (foldl consider_policy [] cs) d of
     None \<Rightarrow> \<forall>c \<in> set cs. dp_domain c \<noteq> d
   | Some p \<Rightarrow> winner cs d p"
proof (induction cs rule: rev_induct)
  case (snoc c cs)
  show ?case
  proof (cases "map_of (foldl consider_policy [] cs) d")
    case None
    with snoc show ?thesis by (auto simp: map_of_consider intro: winner_snoc_new)
  next
    case (Some p)
    with snoc have w: "winner cs d p" by simp
    show ?thesis
    proof (cases "dp_domain c = d \<and> precedence p < precedence c")
      case True
      then have "\<forall>x \<in> set cs. dp_domain x = d \<longrightarrow> precedence x < precedence c"
        using winner_max[OF w] by (auto intro: le_less_trans)
      with True Some show ?thesis by (auto simp: map_of_consider intro: winner_snoc_new)
    next
      case False
      with Some w show ?thesis by (auto simp: map_of_consider intro: winner_snoc_keep)
    qed
  qed
qed simp

lemma distinct_foldl_consider: "distinct (map fst ps) \<Longrightarrow> distinct (map fst (foldl consider_policy ps cs))"
proof (induction cs arbitrary: ps)
  case (Cons c cs)
  have "distinct (map fst (consider_policy ps c))"
    using Cons.prems by (auto simp: consider_policy_def distinct_update split: option.split)
  then show ?case using Cons.IH by simp
qed simp

lemma build_distinct [simp]: "distinct (map fst (build_domain_policy_map db))"
  by (simp add: build_foldl distinct_foldl_consider)

lemma build_map_of: "(d, p) \<in> set (build_domain_policy_map db) \<longleftrightarrow> map_of (build_domain_policy_map db) d = Some p"
  by simp

section \<open>Normalised domains\<close>

lemma lower_alnum_not: "lower_alnum c \<Longrightarrow>
   c \<noteq> CHR ''/'' \<and> c \<noteq> CHR ''?'' \<and> c \<noteq> CHR ''#'' \<and> c \<noteq> CHR '':'' \<and> c \<noteq> CHR ''*'' \<and> c \<noteq> CHR ''.''
   \<and> \<not> is_space c \<and> \<not> is_upper c \<and> c \<noteq> CHR 0x22"
  by (auto simp: lower_alnum_def char_class_defs)

definition domain_char :: "char \<Rightarrow> bool" where
  "domain_char c \<longleftrightarrow> lower_alnum c \<or> c = CHR ''-'' \<or> c = CHR ''.''"

lemma domain_char_not: "domain_char c \<Longrightarrow>
   c \<noteq> CHR ''/'' \<and> c \<noteq> CHR ''?'' \<and> c \<noteq> CHR ''#'' \<and> c \<noteq> CHR '':'' \<and> c \<noteq> CHR ''*''
   \<and> \<not> is_space c \<and> \<not> is_upper c \<and> c \<noteq> CHR 0x22"
  by (auto simp: domain_char_def dest: lower_alnum_not) (simp_all add: char_class_defs)

text \<open>A proper domain: at least two labels, each of the documented form.\<close>

definition proper_domain :: "string \<Rightarrow> bool" where
  "proper_domain d \<longleftrightarrow> CHR ''.'' \<in> set d \<and> list_all proper_label (split_on (CHR ''.'') d)"

lemma proper_domain_chars: "proper_domain d \<Longrightarrow> c \<in> set d \<Longrightarrow> domain_char c"
proof -
  assume d: "proper_domain d" "c \<in> set d"
  have "set d \<subseteq> insert (CHR ''.'') (\<Union> (set ` set (split_on (CHR ''.'') d)))"
  proof (induction d)
    case (Cons x xs)
    then show ?case by (cases "split_on (CHR ''.'') xs") auto
  qed simp
  with d show ?thesis
    by (fastforce simp: proper_domain_def list_all_iff proper_label_def domain_char_def)
qed

lemma proper_domain_hd_last:
  assumes "proper_domain d"
  shows "d \<noteq> []" "lower_alnum (hd d)" "lower_alnum (last d)"
proof -
  show ne: "d \<noteq> []" using assms by (auto simp: proper_domain_def)
  let ?ls = "split_on (CHR ''.'') d"
  have pl: "\<forall>l \<in> set ?ls. proper_label l" using assms by (simp add: proper_domain_def list_all_iff)
  obtain l ls where l: "?ls = l # ls" by (cases ?ls) auto
  have j: "join [CHR ''.''] ?ls = d" by (rule join_split_on)
  have "proper_label l" using pl l by simp
  then have "hd l \<noteq> CHR ''.'' \<and> l \<noteq> [] \<and> lower_alnum (hd l)" by (auto simp: proper_label_def dest: lower_alnum_not)
  moreover have "hd (join [CHR ''.''] (l # ls)) = hd l"
    using calculation by (cases ls) auto
  ultimately show "lower_alnum (hd d)" using j l by simp
  have "xs \<noteq> [] \<Longrightarrow> last xs \<noteq> [] \<Longrightarrow> last (join [CHR ''.''] xs) = last (last xs)" for xs
    by (induction xs rule: induct_list012) (auto simp: join_Cons)
  moreover have "proper_label (last ?ls)" using pl by simp
  ultimately show "lower_alnum (last d)" using j by (metis proper_label_def split_on_nonempty)
qed

lemma lower_id: "(\<forall>c \<in> set s. \<not> is_upper c) \<Longrightarrow> lower s = s"
  by (induction s) (auto simp: to_lower_def)

lemma before_id: "c \<notin> set s \<Longrightarrow> before c s = s"
  by (auto simp: before_def takeWhile_eq_all_conv)

lemma drop_scheme_id: "CHR '':'' \<notin> set s \<Longrightarrow> drop_scheme s = s"
  by (auto simp: drop_scheme_def startswith_def prefix_def)

lemma strip_chars_id: "s \<noteq> [] \<Longrightarrow> hd s \<notin> set cs \<Longrightarrow> last s \<notin> set cs \<Longrightarrow> strip_chars cs s = s"
proof (cases s rule: rev_cases)
  case (snoc ys y)
  assume "hd s \<notin> set cs" "last s \<notin> set cs" "s \<noteq> []"
  moreover from this have "dropWhile (\<lambda>c. c \<in> set cs) s = s" by (cases s) auto
  ultimately show ?thesis using snoc by (simp add: strip_chars_def)
qed simp

text \<open>Proper domains are fixed points of \<open>normalize_domain\<close>.\<close>

lemma normalize_domain_proper:
  assumes "proper_domain d"
  shows "normalize_domain d = d"
proof -
  note ch = proper_domain_chars[OF assms] and hl = proper_domain_hd_last[OF assms]
  have no: "CHR ''/'' \<notin> set d" "CHR ''?'' \<notin> set d" "CHR ''#'' \<notin> set d" "CHR '':'' \<notin> set d"
    "\<forall>c \<in> set d. \<not> is_space c" "\<forall>c \<in> set d. \<not> is_upper c"
    using ch domain_char_not by blast+
  have st: "lower (strip d) = d"
    using no(5,6) by (simp add: strip_id stripped_no_space lower_id)
  have "hd d \<notin> set ''*.''" "last d \<notin> set ''.''"
    using hl(2,3) by (auto dest: lower_alnum_not)
  then have d4: "strip_chars ''.'' (dropWhile (\<lambda>c. c \<in> set ''*.'') d) = d"
    using hl(1) by (cases d) (auto simp: strip_chars_id)
  have "\<not> list_ex (\<lambda>l. \<not> domain_label_match l) (split_on (CHR ''.'') d)"
    using assms by (auto simp: proper_domain_def domain_label_match_def list_ex_iff list_all_iff)
  then show ?thesis
    using assms hl(1) unfolding normalize_domain_def Let_def st drop_scheme_id[OF no(4)]
      before_id[OF no(1)] before_id[OF no(2)] before_id[OF no(3)] before_id[OF no(4)] d4
    by (simp add: proper_domain_def)
qed

text \<open>The result is a proper domain, unless a newline slipped past the label pattern.\<close>

lemma normalize_domain_result:
  assumes "normalize_domain raw \<noteq> []" "CHR 0x0A \<notin> set (normalize_domain raw)"
  shows "proper_domain (normalize_domain raw)"
proof -
  let ?d = "normalize_domain raw"
  from assms(1) have dot: "CHR ''.'' \<in> set ?d" and
    lm: "\<forall>l \<in> set (split_on (CHR ''.'') ?d). domain_label_match l"
    by (auto simp: normalize_domain_def Let_def list_ex_iff split: if_splits)
  have "proper_label l" if "l \<in> set (split_on (CHR ''.'') ?d)" for l
  proof -
    have "CHR 0x0A \<notin> set l" using split_on_pieces[OF that] assms(2) by auto
    then have "l \<noteq> [] \<Longrightarrow> last l \<noteq> CHR 0x0A" by (metis last_in_set)
    then show ?thesis using lm that by (auto simp: domain_label_match_def)
  qed
  with dot show ?thesis by (simp add: proper_domain_def list_all_iff)
qed

lemma domain_matches_proper:
  "proper_domain h \<Longrightarrow> proper_domain d \<Longrightarrow>
     domain_matches h d \<longleftrightarrow> h = d \<or> endswith h (CHR ''.'' # d)"
  using proper_domain_hd_last(1) by (simp add: domain_matches_def normalize_domain_proper)

section \<open>The longest match\<close>

lemma longest_match_spec:
  "(case longest_match h ps b n of
      None \<Rightarrow> b = None \<and> (\<forall>(d, p) \<in> set ps. domain_matches h d \<longrightarrow> int (length d) \<le> n)
    | Some p \<Rightarrow>
        (b = Some p \<and> (\<forall>(d, q) \<in> set ps. domain_matches h d \<longrightarrow> int (length d) \<le> n))
        \<or> (\<exists>d. (d, p) \<in> set ps \<and> domain_matches h d \<and> n < int (length d)
             \<and> (\<forall>(e, q) \<in> set ps. domain_matches h e \<longrightarrow> length e \<le> length d)))"
proof (induction h ps b n rule: longest_match.induct)
  case (2 h d p rest b n)
  show ?case
  proof (cases "domain_matches h d \<and> n < int (length d)")
    case True
    then have eq: "longest_match h ((d, p) # rest) b n = longest_match h rest (Some p) (int (length d))"
      by simp
    have IH: "case longest_match h rest (Some p) (int (length d)) of
        None \<Rightarrow> False
      | Some q \<Rightarrow> (q = p \<and> (\<forall>(e, r) \<in> set rest. domain_matches h e \<longrightarrow> length e \<le> length d))
          \<or> (\<exists>e. (e, q) \<in> set rest \<and> domain_matches h e \<and> length d < length e
               \<and> (\<forall>(f, r) \<in> set rest. domain_matches h f \<longrightarrow> length f \<le> length e))"
      using "2.IH"(2) True by (auto split: option.splits)
    show ?thesis
      unfolding eq using IH True by (auto split: option.splits)
  next
    case False
    then have eq: "longest_match h ((d, p) # rest) b n = longest_match h rest b n" by simp
    have IH: "case longest_match h rest b n of
        None \<Rightarrow> b = None \<and> (\<forall>(d, p) \<in> set rest. domain_matches h d \<longrightarrow> int (length d) \<le> n)
      | Some p \<Rightarrow> (b = Some p \<and> (\<forall>(d, q) \<in> set rest. domain_matches h d \<longrightarrow> int (length d) \<le> n))
          \<or> (\<exists>d. (d, p) \<in> set rest \<and> domain_matches h d \<and> n < int (length d)
               \<and> (\<forall>(e, q) \<in> set rest. domain_matches h e \<longrightarrow> length e \<le> length d))"
      using "2.IH"(1,3) False by (cases "domain_matches h d") simp_all
    show ?thesis
      unfolding eq using IH False by (auto split: option.splits)
  qed
qed (simp split: option.split)

section \<open>Zones\<close>

lemma startswith_append [simp]: "startswith (p @ s) p"
  by (simp add: startswith_def)

definition is_zone_line :: "string \<Rightarrow> bool" where
  "is_zone_line l \<longleftrightarrow> startswith l ''    local-zone: ''"

lemma zone_line_is: "is_zone_line (zone_line f k)" "\<not> is_zone_line (data_line f ip)"
  by (simp_all add: is_zone_line_def zone_line_def data_line_def)

definition zone_kind :: "bool \<Rightarrow> string \<Rightarrow> domain_policy \<Rightarrow> string" where
  "zone_kind force_nxdomain ip p =
     (if \<not> force_nxdomain \<and> (dp_action p = Redirect \<and> dp_redirect_ip p \<noteq> [] \<or> ip \<noteq> [])
      then ''redirect'' else ''always_nxdomain'')"

lemma filter_zone_lines:
  "filter is_zone_line (policy_zone_lines fnx ip (d, p)) =
     [zone_line (d @ ''.'') (zone_kind fnx ip p)]"
  by (auto simp: policy_zone_lines_def zone_kind_def zone_line_is Let_def)

lemma filter_emit_zones:
  "filter is_zone_line (emit_unbound_policy_zones db ip) =
     map (\<lambda>x. zone_line (fst x @ ''.'')
            (zone_kind (get_content_policy_mode db = DnsNxdomainOnly) ip (snd x)))
       (sort_key fst (build_domain_policy_map db))"
proof -
  have z: "filter is_zone_line (policy_zone_lines fnx ip x)
      = [zone_line (fst x @ ''.'') (zone_kind fnx ip (snd x))]" for fnx ip x
    by (cases x) (simp add: filter_zone_lines)
  show ?thesis
    by (simp add: emit_unbound_policy_zones_def Let_def filter_concat comp_def z concat_map_singleton)
qed

section \<open>Properties\<close>

text \<open>Facts about normalisation and matching the properties share.\<close>

lemma normalize_no_newline:
  assumes "CHR 0x0A \<notin> set raw"
  shows "CHR 0x0A \<notin> set (normalize_domain raw)"
proof -
  have sub: "set (before c s) \<subseteq> set s" "set (drop_scheme s) \<subseteq> set s" "set (strip_chars cs s) \<subseteq> set s"
    "set (dropWhile P s) \<subseteq> set s" for c s cs P
    by (auto simp: before_def drop_scheme_def strip_chars_def dest!: set_takeWhileD set_dropWhileD in_set_dropD)
  have "c = CHR 0x0A" if "to_lower c = CHR 0x0A" for c
    using code_to_lower[of c] that by (auto simp: is_upper_def code_def to_lower_def split: if_splits)
  then have "CHR 0x0A \<notin> set (lower (strip raw))"
    using assms set_strip[of raw] by (fastforce simp: lower_def)
  then show ?thesis
    unfolding normalize_domain_def Let_def using sub by (auto 0 3 dest!: subsetD[OF sub(1)] subsetD[OF sub(2)] subsetD[OF sub(3)] subsetD[OF sub(4)])
qed

lemma winner_unique:
  assumes "winner cs d p" "winner cs d q"
  shows "p = q"
proof -
  obtain ys zs where c1: "cs = ys @ p # zs" and d1: "dp_domain p = d"
    and w1: "\<forall>c \<in> set ys. dp_domain c = d \<longrightarrow> precedence c < precedence p"
      "\<forall>c \<in> set zs. dp_domain c = d \<longrightarrow> precedence c \<le> precedence p"
    using assms(1) by (auto simp: winner_def)
  obtain us vs where c2: "cs = us @ q # vs" and d2: "dp_domain q = d"
    and w2: "\<forall>c \<in> set us. dp_domain c = d \<longrightarrow> precedence c < precedence q"
      "\<forall>c \<in> set vs. dp_domain c = d \<longrightarrow> precedence c \<le> precedence q"
    using assms(2) by (auto simp: winner_def)
  have "us @ q # vs = ys @ p # zs" using c1 c2 by simp
  then show ?thesis
    using d1 d2 w1 w2 by (fastforce simp: append_eq_append_conv2 append_eq_Cons_conv Cons_eq_append_conv)
qed

lemma endswith_append [simp]: "endswith (x @ s) s"
  by (simp add: endswith_def suffix_def)

text \<open>
  C5: the policy in force for a domain is the winner of the candidates that name it: the
  highest precedence, and on a tie the first in their order. The candidates are those of the enabled DNS rules, then of
  the enabled web rules, then of the enabled application rules that block DNS, each by position and each up to the first row whose
  stored action is unknown, which ends its table.
\<close>

theorem policy_is_winner:
  "map_of (build_domain_policy_map db) d = Some p \<longleftrightarrow> winner (policy_candidates db) d p"
proof
  assume "map_of (build_domain_policy_map db) d = Some p"
  then show "winner (policy_candidates db) d p"
    using map_of_foldl_consider[of "policy_candidates db" d] by (simp add: build_foldl)
next
  assume w: "winner (policy_candidates db) d p"
  show "map_of (build_domain_policy_map db) d = Some p"
  proof (cases "map_of (build_domain_policy_map db) d")
    case None
    then have "\<forall>c \<in> set (policy_candidates db). dp_domain c \<noteq> d"
      using map_of_foldl_consider[of "policy_candidates db" d] by (simp add: build_foldl)
    with w show ?thesis by (auto simp: winner_def)
  next
    case (Some q)
    then have "winner (policy_candidates db) d q"
      using map_of_foldl_consider[of "policy_candidates db" d] by (simp add: build_foldl)
    with w Some show ?thesis using winner_unique by blast
  qed
qed


text \<open>A sample policy: an application rule on a site, a DNS rule on one of its hosts.\<close>

definition sample_dns :: "string \<Rightarrow> string \<Rightarrow> dns_rule" where
  "sample_dns d a =
     \<lparr>dr_id = 1, dr_enabled = True, dr_domain = Some d, dr_action = Some a, dr_redirect_ip = None,
      dr_category = None\<rparr>"

definition sample_app :: "string \<Rightarrow> app_rule" where
  "sample_app d =
     \<lparr>ar_id = 7, ar_enabled = True, ar_app_name = Some ''Video'', ar_action = Some ''block'', ar_block_dns = True,
      ar_block_ports = False, ar_ports = None, ar_protocol = None, ar_domains = Some d, ar_category = None\<rparr>"

definition sample_policy :: "dns_rule list \<Rightarrow> app_rule list \<Rightarrow> policy_db" where
  "sample_policy ds as =
     \<lparr>dns_rules = Some ds, web_rules = Some [], app_rules = Some as, service_state = None, sessions = [],
      hosts = None, lan_ipv4 = None\<rparr>"

lemma proper_samples [simp]:
  "proper_domain ''tv.com''" "proper_domain ''m.tv.com''" "proper_domain ''a.com''"
  by (simp_all add: proper_domain_def proper_label_def lower_alnum_def char_class_defs)

lemma normalize_samples [simp]:
  "normalize_domain ''tv.com'' = ''tv.com''" "normalize_domain ''m.tv.com'' = ''m.tv.com''"
  "normalize_domain ''a.com'' = ''a.com''" "normalize_domain [] = []"
  by (simp_all add: normalize_domain_proper) (simp add: normalize_domain_def strip_def lstrip_def rstrip_def)

lemma sample_actions [simp]:
  "normalize_action (Some ''block'') = Inr BlockAll"
  "normalize_action (Some ''allow_all'') = Inr AllowAll"
  "normalize_action (Some ''drop'') = Inl (ValueError (''Unknown content-policy action: '' @ py_repr ''drop''))"
  by (simp_all add: normalize_action_def strip_id stripped_no_space to_lower_def char_class_defs)

lemma sample_map:
  "build_domain_policy_map (sample_policy [sample_dns ''m.tv.com'' ''allow_all''] [sample_app ''tv.com'']) =
     [(''m.tv.com'', \<lparr>dp_domain = ''m.tv.com'', dp_action = AllowAll, dp_source = Dns, dp_redirect_ip = []\<rparr>),
      (''tv.com'', \<lparr>dp_domain = ''tv.com'', dp_action = BlockAll, dp_source = App, dp_redirect_ip = []\<rparr>)]"
  by (simp add: build_domain_policy_map_def sample_policy_def rows_of_def sample_dns_def sample_app_def
      consider_policy_def strip_def lstrip_def rstrip_def Let_def)

text \<open>
  \<open>resolve_domain_policy\<close> answers with a policy of a matching domain that is the longest
  among the matching ones, and with none exactly when nothing matches.
\<close>

theorem resolve_is_longest_match:
  "case resolve_domain_policy db host of
     None \<Rightarrow> normalize_domain host = []
       \<or> (\<forall>(d, p) \<in> set (build_domain_policy_map db). \<not> domain_matches (normalize_domain host) d)
   | Some p \<Rightarrow> (\<exists>d. map_of (build_domain_policy_map db) d = Some p \<and> domain_matches (normalize_domain host) d
       \<and> (\<forall>(e, q) \<in> set (build_domain_policy_map db).
            domain_matches (normalize_domain host) e \<longrightarrow> length e \<le> length d))"
  using longest_match_spec[where h = "normalize_domain host" and ps = "build_domain_policy_map db" and b = None and n = "- 1"]
  by (fastforce simp: resolve_domain_policy_def Let_def split: option.splits)

lemma resolve_is_longest_match_witness:
  "\<exists>p d. resolve_domain_policy (sample_policy [sample_dns ''m.tv.com'' ''allow_all''] [sample_app ''tv.com''])
       ''m.tv.com'' = Some p \<and> length ''m.tv.com'' \<le> length d \<and> domain_matches ''m.tv.com'' d"
proof -
  let ?db = "sample_policy [sample_dns ''m.tv.com'' ''allow_all''] [sample_app ''tv.com'']"
  have m: "domain_matches ''m.tv.com'' ''m.tv.com''" by (simp add: domain_matches_proper)
  then obtain p where p: "resolve_domain_policy ?db ''m.tv.com'' = Some p"
    using resolve_is_longest_match[where db = ?db and host = "''m.tv.com''"]
    by (cases "resolve_domain_policy ?db ''m.tv.com''") (simp_all add: sample_map)
  with resolve_is_longest_match[where db = ?db and host = "''m.tv.com''"] m show ?thesis
    by (auto simp: sample_map)
qed

text \<open>
  What is blocked stays blocked below: a host name under a blocked host name is blocked.
\<close>

theorem blocked_subdomains:
  assumes "is_blocked_domain db host" "proper_domain host" "proper_domain (sub @ CHR ''.'' # host)"
  shows "is_blocked_domain db (sub @ CHR ''.'' # host)"
proof -
  have ne: "host \<noteq> []" using proper_domain_hd_last(1)[OF assms(2)] .
  have "domain_matches (sub @ CHR ''.'' # host) d" if m: "domain_matches host d" for d
  proof -
    define p where "p = normalize_domain d"
    have "p \<noteq> []" "host = p \<or> endswith host (CHR ''.'' # p)"
      using m by (auto simp: domain_matches_def normalize_domain_proper[OF assms(2)] p_def Let_def split: if_splits)
    moreover have "endswith (sub @ CHR ''.'' # host) (CHR ''.'' # p)"
      if "endswith host (CHR ''.'' # p)"
      using that by (auto simp: endswith_def suffix_def)
    ultimately show ?thesis
      by (auto simp: domain_matches_def normalize_domain_proper[OF assms(3)] Let_def p_def[symmetric])
  qed
  with assms(1) show ?thesis
    using ne by (fastforce simp: is_blocked_domain_def normalize_domain_proper[OF assms(2)]
        normalize_domain_proper[OF assms(3)] Let_def list_ex_iff)
qed

lemma blocked_subdomains_witness:
  "is_blocked_domain (sample_policy [] [sample_app ''tv.com'']) (''m'' @ CHR ''.'' # ''tv.com'')"
  by (rule blocked_subdomains)
    (simp_all add: is_blocked_domain_def build_domain_policy_map_def sample_policy_def rows_of_def
      sample_app_def consider_policy_def domain_matches_def enforcing_action_def)

text \<open>
  The Unbound block holds one local-zone line for every domain of the policy, in order of
  the name, of the kind its policy and the mode give.
\<close>

theorem one_zone_per_domain:
  "\<exists>ds. filter is_zone_line (emit_unbound_policy_zones db ip)
       = map (\<lambda>d. zone_line (d @ ''.'') (zone_kind (get_content_policy_mode db = DnsNxdomainOnly) ip
                     (the (map_of (build_domain_policy_map db) d)))) ds
     \<and> sorted ds \<and> distinct ds \<and> set ds = dom (map_of (build_domain_policy_map db))"
proof -
  let ?ps = "build_domain_policy_map db"
  let ?qs = "sort_key fst ?ps"
  have d: "distinct (map fst ?qs)"
  proof -
    show ?thesis using build_distinct[of db] by (simp add: distinct_map)
  qed
  have "the (map_of ?ps (fst x)) = snd x" if "x \<in> set ?qs" for x
  proof -
    have "x \<in> set ?ps" using that by simp
    then have "map_of ?ps (fst x) = Some (snd x)" by (intro map_of_is_SomeI) simp_all
    then show ?thesis by (metis option.sel)
  qed
  then have "filter is_zone_line (emit_unbound_policy_zones db ip)
      = map (\<lambda>d. zone_line (d @ ''.'') (zone_kind (get_content_policy_mode db = DnsNxdomainOnly) ip
                     (the (map_of ?ps d)))) (map fst ?qs)"
    by (simp add: filter_emit_zones del: set_sort)
  moreover have "sorted (map fst ?qs)" by simp
  moreover have "set (map fst ?qs) = dom (map_of ?ps)" by (simp add: dom_map_of_conv_image_fst)
  ultimately show ?thesis using d by blast
qed

text \<open>
  An \<open>allow_all\<close> rule blocks: its domain gets an \<open>always_nxdomain\<close> zone like a blocked one,
  while \<open>is_blocked_domain\<close> answers no for it when no other domain of the policy matches.
\<close>

theorem allow_all_is_blocked_in_dns:
  assumes "map_of (build_domain_policy_map db) d = Some p" "dp_action p = AllowAll"
    and "proper_domain d" "\<forall>e q. (e, q) \<in> set (build_domain_policy_map db) \<longrightarrow> domain_matches d e \<longrightarrow> e = d"
  shows "zone_line (d @ ''.'') ''always_nxdomain'' \<in> set (emit_unbound_policy_zones db [])
     \<and> \<not> is_blocked_domain db d"
proof
  have "(d, p) \<in> set (sort_key fst (build_domain_policy_map db))" using assms(1) by simp
  moreover have "zone_line (d @ ''.'') ''always_nxdomain'' \<in> set (policy_zone_lines fnx [] (d, p))" for fnx
    using assms(2) by (simp add: policy_zone_lines_def)
  ultimately show "zone_line (d @ ''.'') ''always_nxdomain'' \<in> set (emit_unbound_policy_zones db [])"
    unfolding emit_unbound_policy_zones_def Let_def set_concat set_map by blast
  show "\<not> is_blocked_domain db d"
  proof
    assume "is_blocked_domain db d"
    then obtain e q where "(e, q) \<in> set (build_domain_policy_map db)" "enforcing_action (dp_action q)"
      "domain_matches d e"
      by (auto simp: is_blocked_domain_def normalize_domain_proper[OF assms(3)] Let_def list_ex_iff split: if_splits)
    moreover from this(1,3) have "e = d" using assms(4) by blast
    ultimately show False using assms(1,2) by (simp add: enforcing_action_def)
  qed
qed

lemma allow_all_is_blocked_in_dns_witness:
  "zone_line (''a.com'' @ ''.'') ''always_nxdomain''
       \<in> set (emit_unbound_policy_zones (sample_policy [sample_dns ''a.com'' ''allow_all''] []) [])
     \<and> \<not> is_blocked_domain (sample_policy [sample_dns ''a.com'' ''allow_all''] []) ''a.com''"
  by (rule allow_all_is_blocked_in_dns[where
        p = "\<lparr>dp_domain = ''a.com'', dp_action = AllowAll, dp_source = Dns, dp_redirect_ip = []\<rparr>"])
    (auto simp: build_domain_policy_map_def sample_policy_def rows_of_def sample_dns_def
      consider_policy_def strip_def lstrip_def rstrip_def Let_def split: if_splits)

text \<open>
  An input without a newline normalises to the empty string or to a domain of at least two
  labels in the documented form, and normalising again changes nothing.
\<close>

theorem normalize_domain_canonical:
  assumes "CHR 0x0A \<notin> set raw"
  shows "normalize_domain raw = []
     \<or> proper_domain (normalize_domain raw) \<and> normalize_domain (normalize_domain raw) = normalize_domain raw"
  using normalize_domain_result[OF _ normalize_no_newline[OF assms]] normalize_domain_proper by blast

lemma normalize_domain_canonical_witness:
  "normalize_domain ''TV.com'' = [] \<or> proper_domain (normalize_domain ''TV.com'')"
  using normalize_domain_canonical[of "''TV.com''"] by auto

text \<open>
  A newline at the end of a label passes the label pattern, so a rule on such a name puts a
  broken line into the Unbound configuration.
\<close>

theorem newline_label_accepted:
  "normalize_domain (''abc'' @ nl @ ''.com'') = ''abc'' @ nl @ ''.com''
     \<and> (\<exists>l \<in> set (emit_unbound_policy_zones (sample_policy [sample_dns (''abc'' @ nl @ ''.com'') ''block''] []) []).
          CHR 0x0A \<in> set l)"
proof -
  have st: "strip (''abc'' @ nl @ ''.com'') = ''abc'' @ nl @ ''.com''"
    by (rule strip_id) (simp add: stripped_def nl_def is_space_def code_def)
  let ?d = "''abc'' @ nl @ ''.com''"
  have parts: "lower ?d = ?d" "drop_scheme ?d = ?d" "CHR ''/'' \<notin> set ?d" "CHR ''?'' \<notin> set ?d"
    "CHR ''#'' \<notin> set ?d" "CHR '':'' \<notin> set ?d" "dropWhile (\<lambda>c. c \<in> set ''*.'') ?d = ?d"
    "strip_chars ''.'' ?d = ?d" "CHR ''.'' \<in> set ?d"
    by (simp_all add: nl_def to_lower_def is_upper_def code_def drop_scheme_id strip_chars_id)
  have "\<not> list_ex (\<lambda>l. \<not> domain_label_match l) (split_on (CHR ''.'') ?d)"
    by (simp add: nl_def domain_label_match_def proper_label_def lower_alnum_def is_lower_def is_digit_def code_def)
  then have n: "normalize_domain ?d = ?d"
    unfolding normalize_domain_def Let_def st parts(1,2) before_id[OF parts(3)] before_id[OF parts(4)]
      before_id[OF parts(5)] before_id[OF parts(6)] parts(7,8)
    using parts(9) by (simp add: nl_def)
  moreover have "\<exists>l \<in> set (emit_unbound_policy_zones (sample_policy [sample_dns (''abc'' @ nl @ ''.com'') ''block''] []) []).
      CHR 0x0A \<in> set l"
    using n by (simp add: emit_unbound_policy_zones_def build_domain_policy_map_def sample_policy_def rows_of_def
        sample_dns_def consider_policy_def policy_zone_lines_def zone_line_def Let_def nl_def)
  ultimately show ?thesis by blast
qed

text \<open>
  One rule with an action outside the vocabulary cancels every DNS rule after it: the policy
  is the one of the rules before it.
\<close>

theorem unknown_action_drops_later_rules:
  assumes "dns_rules db = Some (before_rows @ bad # later)" "dr_enabled bad"
    and "normalize_domain (or_str (dr_domain bad) []) \<noteq> []" "normalize_action (dr_action bad) = Inl e"
  shows "build_domain_policy_map db = build_domain_policy_map (db\<lparr>dns_rules := Some before_rows\<rparr>)"
proof -
  have "dns_loop ps (rs @ bad # rest) = dns_loop ps rs" for ps rs rest
    by (induction ps rs rule: dns_loop.induct) (use assms(3,4) in \<open>auto simp: Let_def split: sum.split\<close>)
  then show ?thesis using assms(1,2) by (simp add: build_domain_policy_map_def rows_of_def)
qed

lemma unknown_action_drops_later_rules_witness:
  "build_domain_policy_map (sample_policy [sample_dns ''a.com'' ''drop'', sample_dns ''tv.com'' ''block''] []) = []"
proof -
  let ?db = "sample_policy [sample_dns ''a.com'' ''drop'', sample_dns ''tv.com'' ''block''] []"
  have "build_domain_policy_map ?db = build_domain_policy_map (?db\<lparr>dns_rules := Some []\<rparr>)"
    by (rule unknown_action_drops_later_rules[where bad = "sample_dns ''a.com'' ''drop''"
          and later = "[sample_dns ''tv.com'' ''block'']"
          and e = "ValueError (''Unknown content-policy action: '' @ py_repr ''drop'')"])
      (simp_all add: sample_policy_def sample_dns_def)
  then show ?thesis by (simp add: build_domain_policy_map_def sample_policy_def rows_of_def)
qed

text \<open>
  The explanation shown to an analyst can name a rule that does not decide: for a host with
  a rule of its own under a blocked application, resolution takes the host's rule, the
  explanation the application's.
\<close>

theorem explanation_disagrees:
  "map_option dp_action (resolve_domain_policy
       (sample_policy [sample_dns ''m.tv.com'' ''allow_all''] [sample_app ''tv.com'']) ''m.tv.com'') = Some AllowAll
   \<and> map_sum id (map_option ex_action) (explain_domain_policy
       (sample_policy [sample_dns ''m.tv.com'' ''allow_all''] [sample_app ''tv.com'']) ''m.tv.com'') = Inr (Some BlockAll)"
  unfolding resolve_domain_policy_def sample_map
  by (simp add: domain_matches_def explain_domain_policy_def sample_policy_def sample_dns_def sample_app_def rows_of_def endswith_def suffix_def Let_def)

end
