(* ===== verification/IpAddress.thy ===== *)
theory IpAddress
  imports PyString
begin

text \<open>
  The part of Python's standard module \<open>ipaddress\<close> the program uses: reading IPv4 and
  IPv6 addresses and interfaces (address with prefix length or netmask), the network of
  an interface, printing, and the overlap test of networks.  Addresses are natural
  numbers; \<open>None\<close> is the \<open>ValueError\<close> of the constructors.
\<close>

section \<open>Values\<close>

datatype ipaddr = V4 nat | V6 nat "string option"

datatype ipiface = Iface (iface_ip: ipaddr) (iface_plen: nat)

datatype ipnet = Net (net_addr: ipaddr) (net_plen: nat)

fun ip_num :: "ipaddr \<Rightarrow> nat" where
  "ip_num (V4 n) = n"
| "ip_num (V6 n s) = n"

fun ip_bits :: "ipaddr \<Rightarrow> nat" where
  "ip_bits (V4 n) = 32"
| "ip_bits (V6 n s) = 128"

section \<open>IPv4\<close>

definition parse_octet :: "string \<Rightarrow> nat option" where
  "parse_octet s =
     (if all_digits s \<and> length s \<le> 3 \<and> (s = ''0'' \<or> hd s \<noteq> CHR ''0'') \<and> nat_of_digits s \<le> 255
      then Some (nat_of_digits s) else None)"

definition parse_v4_num :: "string \<Rightarrow> nat option" where
  "parse_v4_num s =
     (case map parse_octet (split_on (CHR ''.'') s) of
        [Some a, Some b, Some c, Some d] \<Rightarrow> Some (((a * 256 + b) * 256 + c) * 256 + d)
      | _ \<Rightarrow> None)"

definition str_v4 :: "nat \<Rightarrow> string" where
  "str_v4 n = join ''.'' (map str_nat
     [n div 16777216 mod 256, n div 65536 mod 256, n div 256 mod 256, n mod 256])"

definition parse_ipv4 :: "string \<Rightarrow> ipaddr option" where
  "parse_ipv4 s = (if CHR ''/'' \<in> set s then None else map_option V4 (parse_v4_num s))"

section \<open>IPv6\<close>

definition hex_val :: "char \<Rightarrow> nat option" where
  "hex_val c =
     (if is_digit c then Some (code c - 48)
      else if 97 \<le> code c \<and> code c \<le> 102 then Some (code c - 87)
      else if 65 \<le> code c \<and> code c \<le> 70 then Some (code c - 55)
      else None)"

definition parse_hextet :: "string \<Rightarrow> nat option" where
  "parse_hextet s =
     (if s \<noteq> [] \<and> length s \<le> 4 \<and> list_all (\<lambda>c. hex_val c \<noteq> None) s
      then Some (foldl (\<lambda>n c. 16 * n + the (hex_val c)) 0 s) else None)"

fun str_hex :: "nat \<Rightarrow> string" where
  "str_hex n = (if n < 16 then [hex_digit n] else str_hex (n div 16) @ [hex_digit (n mod 16)])"

declare str_hex.simps [simp del]

text \<open>An IPv4 suffix of the last part is rewritten into two hextets.\<close>

definition v6_expand_v4 :: "string list \<Rightarrow> string list option" where
  "v6_expand_v4 parts =
     (if CHR ''.'' \<in> set (last parts)
      then (case parse_v4_num (last parts) of
              None \<Rightarrow> None
            | Some n \<Rightarrow> Some (butlast parts @ [str_hex (n div 65536 mod 65536), str_hex (n mod 65536)]))
      else Some parts)"

definition join_hextets :: "string list \<Rightarrow> nat \<Rightarrow> string list \<Rightarrow> nat option" where
  "join_hextets hi skipped lo =
     (let hs = map parse_hextet hi; ls = map parse_hextet lo
      in if None \<in> set hs \<or> None \<in> set ls then None
         else Some (foldl (\<lambda>n h. 65536 * n + h) 0
                      (map the hs @ replicate skipped 0 @ map the ls)))"

text \<open>The positions \<open>1 \<le> i < length parts - 1\<close> of an empty part: the two colons.\<close>

definition skip_positions :: "string list \<Rightarrow> nat list" where
  "skip_positions parts = filter (\<lambda>i. parts ! i = []) [1..<length parts - 1]"

definition parse_v6_num :: "string \<Rightarrow> nat option" where
  "parse_v6_num s =
     (let parts0 = split_on (CHR '':'') s in
      if length parts0 < 3 then None
      else case v6_expand_v4 parts0 of
        None \<Rightarrow> None
      | Some parts \<Rightarrow>
          (if length parts > 9 then None
           else case skip_positions parts of
             [] \<Rightarrow>
               (if length parts \<noteq> 8 \<or> hd parts = [] \<or> last parts = [] then None
                else join_hextets parts 0 [])
           | [i] \<Rightarrow>
               (let hi = (if hd parts = [] then i - 1 else i);
                    lo = (if last parts = [] then length parts - i - 2 else length parts - i - 1)
                in if hd parts = [] \<and> hi \<noteq> 0 then None
                   else if last parts = [] \<and> lo \<noteq> 0 then None
                   else if 8 < hi + lo + 1 then None
                   else join_hextets (take hi parts) (8 - (hi + lo))
                          (drop (length parts - lo) parts))
           | _ \<Rightarrow> None))"

text \<open>\<open>addr%scope\<close>.\<close>

definition parse_ipv6 :: "string \<Rightarrow> ipaddr option" where
  "parse_ipv6 s =
     (if CHR ''/'' \<in> set s then None
      else case split_on (CHR ''%'') s of
        [a] \<Rightarrow> map_option (\<lambda>n. V6 n None) (parse_v6_num a)
      | [a, sc] \<Rightarrow> (if sc = [] then None else map_option (\<lambda>n. V6 n (Some sc)) (parse_v6_num a))
      | _ \<Rightarrow> None)"

text \<open>The leftmost longest run of zero hextets, as (start, length).\<close>

fun zero_runs :: "nat \<Rightarrow> nat \<Rightarrow> nat list \<Rightarrow> (nat \<times> nat) \<Rightarrow> nat \<times> nat" where
  "zero_runs i cur [] best = best"
| "zero_runs i cur (h # hs) best =
     (if h = 0
      then zero_runs (Suc i) (Suc cur) hs
             (if Suc cur > snd best then (i - cur, Suc cur) else best)
      else zero_runs (Suc i) 0 hs best)"

definition hextets :: "nat \<Rightarrow> nat list" where
  "hextets n = map (\<lambda>k. n div 65536 ^ k mod 65536) [7, 6, 5, 4, 3, 2, 1, 0]"

definition str_v6 :: "nat \<Rightarrow> string" where
  "str_v6 n =
     (let hs = map str_hex (hextets n);
          (st, len) = zero_runs 0 0 (hextets n) (0, 0)
      in if len > 1
         then join '':''
                ((if st = 0 then [[]] else []) @ take st hs @ [[]] @ drop (st + len) hs
                 @ (if st + len = 8 then [[]] else []))
         else join '':'' hs)"

section \<open>Addresses, interfaces and networks\<close>

definition ip_address :: "string \<Rightarrow> ipaddr option" where
  "ip_address s = (case parse_ipv4 s of Some a \<Rightarrow> Some a | None \<Rightarrow> parse_ipv6 s)"

definition str_ip :: "ipaddr \<Rightarrow> string" where
  "str_ip a =
     (case a of V4 n \<Rightarrow> str_v4 n
      | V6 n None \<Rightarrow> str_v6 n
      | V6 n (Some sc) \<Rightarrow> str_v6 n @ ''%'' @ sc)"

definition prefix_of_string :: "nat \<Rightarrow> string \<Rightarrow> nat option" where
  "prefix_of_string w s =
     (if all_digits s \<and> nat_of_digits s \<le> w then Some (nat_of_digits s) else None)"

text \<open>A dotted netmask or hostmask.\<close>

definition prefix_of_mask :: "nat \<Rightarrow> nat option" where
  "prefix_of_mask m =
     (case find (\<lambda>p. m = 2 ^ 32 - 2 ^ (32 - p)) [0..<33] of
        Some p \<Rightarrow> Some p
      | None \<Rightarrow> find (\<lambda>p. m = 2 ^ (32 - p) - 1) [0..<33])"

definition netmask_v4 :: "string \<Rightarrow> nat option" where
  "netmask_v4 s =
     (case prefix_of_string 32 s of
        Some p \<Rightarrow> Some p
      | None \<Rightarrow> Option.bind (parse_v4_num s) prefix_of_mask)"

definition parse_iface :: "(string \<Rightarrow> ipaddr option) \<Rightarrow> (string \<Rightarrow> nat option) \<Rightarrow> nat \<Rightarrow> string
    \<Rightarrow> ipiface option" where
  "parse_iface pa pm w s =
     (case split_on (CHR ''/'') s of
        [a] \<Rightarrow> map_option (\<lambda>ip. Iface ip w) (pa a)
      | [a, m] \<Rightarrow>
          (case pa a of None \<Rightarrow> None | Some ip \<Rightarrow> map_option (Iface ip) (pm m))
      | _ \<Rightarrow> None)"

definition ip_interface :: "string \<Rightarrow> ipiface option" where
  "ip_interface s =
     (case parse_iface parse_ipv4 netmask_v4 32 s of
        Some i \<Rightarrow> Some i
      | None \<Rightarrow> parse_iface parse_ipv6 (prefix_of_string 128) 128 s)"

text \<open>\<open>interface.ip\<close>, which has no scope.\<close>

definition host_ip :: "ipiface \<Rightarrow> ipaddr" where
  "host_ip i = (case iface_ip i of V4 n \<Rightarrow> V4 n | V6 n sc \<Rightarrow> V6 n None)"

text \<open>Clearing the host bits; a network whose address needed clearing loses the scope.\<close>

definition clear_host :: "nat \<Rightarrow> nat \<Rightarrow> nat \<Rightarrow> nat" where
  "clear_host w p n = n div 2 ^ (w - p) * 2 ^ (w - p)"

fun network_addr :: "ipaddr \<Rightarrow> nat \<Rightarrow> ipaddr" where
  "network_addr (V4 n) p = V4 (clear_host 32 p n)"
| "network_addr (V6 n sc) p =
     (if clear_host 128 p n = n then V6 n sc else V6 (clear_host 128 p n) None)"

definition iface_network :: "ipiface \<Rightarrow> ipnet" where
  "iface_network i = Net (network_addr (iface_ip i) (iface_plen i)) (iface_plen i)"

text \<open>\<open>ip_network(s, strict=False)\<close> accepts what \<open>ip_interface\<close> accepts.\<close>

definition ip_network :: "string \<Rightarrow> ipnet option" where
  "ip_network s = map_option iface_network (ip_interface s)"

definition str_net :: "ipnet \<Rightarrow> string" where
  "str_net n = str_ip (net_addr n) @ ''/'' @ str_nat (net_plen n)"

definition net_first :: "ipnet \<Rightarrow> nat" where
  "net_first n = ip_num (net_addr n)"

definition net_last :: "ipnet \<Rightarrow> nat" where
  "net_last n = net_first n + 2 ^ (ip_bits (net_addr n) - net_plen n) - 1"

definition net_contains :: "ipnet \<Rightarrow> nat \<Rightarrow> nat \<Rightarrow> bool" where
  "net_contains n w a \<longleftrightarrow>
     w = ip_bits (net_addr n) \<and> clear_host w (net_plen n) a = net_first n"

definition net_overlaps :: "ipnet \<Rightarrow> ipnet \<Rightarrow> bool" where
  "net_overlaps m n \<longleftrightarrow>
     (let wm = ip_bits (net_addr m); wn = ip_bits (net_addr n) in
      net_contains n wm (net_first m) \<or> net_contains n wm (net_last m)
      \<or> net_contains m wn (net_first n) \<or> net_contains m wn (net_last n))"

section \<open>IPv4 round trip\<close>

lemma parse_octet_str_nat: "n < 256 \<Longrightarrow> parse_octet (str_nat n) = Some n"
proof -
  assume n: "n < 256"
  then have "length (str_nat n) \<le> 3" by (intro str_nat_length) auto
  moreover have "str_nat n = ''0'' \<or> hd (str_nat n) \<noteq> CHR ''0''"
  proof (cases n)
    case 0
    then show ?thesis by (simp add: str_nat.simps digit_def)
  next
    case (Suc k)
    then show ?thesis using str_nat_hd[of n] by simp
  qed
  ultimately show ?thesis using n by (simp add: parse_octet_def)
qed

lemma str_nat_no: "\<not> is_digit c \<Longrightarrow> c \<notin> set (str_nat n)"
  using str_nat_digits by blast

lemma not_digit_punct [simp]: "\<not> is_digit (CHR ''.'')" "\<not> is_digit (CHR ''/'')" "\<not> is_digit (CHR '':'')"
  "\<not> is_digit (CHR ''%'')" "\<not> is_digit (CHR '','')" "\<not> is_digit (CHR ''-'')"
  "\<not> is_digit (CHR '' '')"
  by (simp_all add: char_class_defs)

lemma octets_recombine:
  fixes n :: nat
  assumes "n < 2 ^ 32"
  shows "((n div 16777216 mod 256 * 256 + n div 65536 mod 256) * 256 + n div 256 mod 256) * 256
           + n mod 256 = n"
proof -
  have "n div 16777216 < 256" using assms by (simp add: less_mult_imp_div_less)
  then have 0: "n div 16777216 mod 256 = n div 16777216" by simp
  have 1: "n div 16777216 * 256 + n div 65536 mod 256 = n div 65536"
    using div_mult_mod_eq[of "n div 65536" 256] by (simp add: div_mult2_eq[symmetric])
  have 2: "n div 65536 * 256 + n div 256 mod 256 = n div 256"
    using div_mult_mod_eq[of "n div 256" 256] by (simp add: div_mult2_eq[symmetric])
  have 3: "n div 256 * 256 + n mod 256 = n"
    by (rule div_mult_mod_eq)
  show ?thesis by (simp only: 0 1 2 3)
qed

lemma split_str_v4:
  "split_on (CHR ''.'') (str_v4 n) = map str_nat
     [n div 16777216 mod 256, n div 65536 mod 256, n div 256 mod 256, n mod 256]"
  unfolding str_v4_def by (rule split_on_join) (auto dest: str_nat_digits)

lemma parse_str_v4_num: "n < 2 ^ 32 \<Longrightarrow> parse_v4_num (str_v4 n) = Some n"
  using octets_recombine[of n] by (simp add: parse_v4_num_def split_str_v4 parse_octet_str_nat)

lemma set_str_v4: "c \<in> set (str_v4 n) \<Longrightarrow> is_digit c \<or> c = CHR ''.''"
  by (auto simp: str_v4_def dest: str_nat_digits)

lemma parse_v4_range: "parse_v4_num s = Some n \<Longrightarrow> n < 2 ^ 32"
proof -
  assume "parse_v4_num s = Some n"
  then obtain a b c d where o: "map parse_octet (split_on (CHR ''.'') s) = [Some a, Some b, Some c, Some d]"
    and n: "n = ((a * 256 + b) * 256 + c) * 256 + d"
    by (auto simp: parse_v4_num_def split: list.splits option.splits)
  have "\<And>x. Some x \<in> set [Some a, Some b, Some c, Some d] \<Longrightarrow> x \<le> 255"
    unfolding o[symmetric] by (auto simp: parse_octet_def split: if_splits)
  then have "a \<le> 255" "b \<le> 255" "c \<le> 255" "d \<le> 255" by auto
  then show ?thesis using n by simp
qed

lemma ip_address_str_v4: "n < 2 ^ 32 \<Longrightarrow> ip_address (str_v4 n) = Some (V4 n)"
  using set_str_v4[of "CHR ''/''" n] by (auto simp: ip_address_def parse_ipv4_def parse_str_v4_num)

section \<open>Networks\<close>

lemma clear_host_le: "clear_host w p n \<le> n"
  by (simp add: clear_host_def)

lemma clear_host_idem [simp]: "clear_host w p (clear_host w p n) = clear_host w p n"
  by (simp add: clear_host_def)

text \<open>An address has the network's prefix exactly when it lies in the network's range.\<close>

lemma clear_host_eq_iff:
  assumes "clear_host w p f = f"
  shows "clear_host w p a = f \<longleftrightarrow> f \<le> a \<and> a \<le> f + 2 ^ (w - p) - 1"
proof -
  let ?b = "2 ^ (w - p) :: nat"
  obtain q where q: "f = q * ?b" using assms by (metis clear_host_def)
  have "a div ?b * ?b = q * ?b \<longleftrightarrow> a div ?b = q" by simp
  also have "\<dots> \<longleftrightarrow> q * ?b \<le> a \<and> a < Suc q * ?b"
    by (metis dividend_less_div_times div_nat_eqI div_times_less_eq_dividend mult.commute
        mult_Suc zero_less_numeral zero_less_power)
  also have "\<dots> \<longleftrightarrow> q * ?b \<le> a \<and> a \<le> q * ?b + ?b - 1"
  proof -
    have "0 < ?b" by simp
    then have "a < Suc q * ?b \<longleftrightarrow> a \<le> q * ?b + ?b - 1"
      unfolding mult_Suc by linarith
    then show ?thesis by simp
  qed
  finally show ?thesis by (simp add: clear_host_def q)
qed

definition wf_net :: "ipnet \<Rightarrow> bool" where
  "wf_net n \<longleftrightarrow> clear_host (ip_bits (net_addr n)) (net_plen n) (net_first n) = net_first n"

lemma ip_num_network_addr [simp]:
  "ip_num (network_addr a p) = clear_host (ip_bits a) p (ip_num a)"
  "ip_bits (network_addr a p) = ip_bits a"
  by (cases a; simp)+

lemma wf_iface_network [simp]: "wf_net (iface_network i)"
  by (simp add: wf_net_def iface_network_def net_first_def)

lemma net_contains_iff:
  "wf_net n \<Longrightarrow> net_contains n (ip_bits (net_addr n)) a \<longleftrightarrow> net_first n \<le> a \<and> a \<le> net_last n"
  by (simp add: net_contains_def wf_net_def clear_host_eq_iff net_last_def)

lemma net_first_le_last: "net_first n \<le> net_last n"
proof -
  have "0 < (2::nat) ^ k" for k by simp
  then show ?thesis unfolding net_last_def by (metis Nat.add_diff_assoc Suc_leI le_add1 One_nat_def)
qed

text \<open>
  The four endpoint tests of \<open>overlaps\<close> decide whether two networks of one family share
  an address.
\<close>

lemma net_overlaps_iff:
  assumes "wf_net m" "wf_net n"
  shows "net_overlaps m n \<longleftrightarrow>
    ip_bits (net_addr m) = ip_bits (net_addr n)
    \<and> (\<exists>a. net_first m \<le> a \<and> a \<le> net_last m \<and> net_first n \<le> a \<and> a \<le> net_last n)"
proof (cases "ip_bits (net_addr m) = ip_bits (net_addr n)")
  case True
  note in_n = net_contains_iff[OF assms(2)] and in_m = net_contains_iff[OF assms(1)]
  have "net_overlaps m n \<longleftrightarrow> net_first m \<le> net_last n \<and> net_first n \<le> net_last m"
    unfolding net_overlaps_def Let_def True in_n in_m[unfolded True]
    using net_first_le_last[of m] net_first_le_last[of n] by auto
  also have "\<dots> \<longleftrightarrow> (\<exists>a. net_first m \<le> a \<and> a \<le> net_last m \<and> net_first n \<le> a \<and> a \<le> net_last n)"
    using net_first_le_last[of m] net_first_le_last[of n]
    by (auto intro: exI[of _ "max (net_first m) (net_first n)"])
  finally show ?thesis using True by simp
qed (auto simp: net_overlaps_def net_contains_def Let_def)


section \<open>Canonical text\<close>

lemma digit_of_val: "is_digit c \<Longrightarrow> digit (digit_val c) = c" "is_digit c \<Longrightarrow> digit_val c < 10"
  by (auto simp: is_digit_def digit_def digit_val_def code_def)

lemma digit_0: "digit 0 = CHR ''0''"
  by (rule code_inject[THEN iffD1]) (simp add: code_digit, simp add: code_def)

lemma nat_of_digits_snoc: "nat_of_digits (s @ [c]) = 10 * nat_of_digits s + digit_val c"
  by (simp add: nat_of_digits_def)

lemma nat_of_digits_pos:
  "all_digits s \<Longrightarrow> hd s \<noteq> CHR ''0'' \<Longrightarrow> 0 < nat_of_digits s"
proof (induction s rule: rev_induct)
  case (snoc c s)
  show ?case
  proof (cases "s = []")
    case True
    with snoc.prems have "digit (digit_val c) \<noteq> digit 0" by (simp add: all_digits_def digit_of_val digit_0)
    then have "digit_val c \<noteq> 0" by metis
    then show ?thesis using True by (simp add: nat_of_digits_def)
  next
    case False
    with snoc have "0 < nat_of_digits s" by (simp add: all_digits_def)
    then show ?thesis by (simp add: nat_of_digits_snoc)
  qed
qed (simp add: all_digits_def)

lemma str_nat_of_digits:
  "all_digits s \<Longrightarrow> length s = 1 \<or> hd s \<noteq> CHR ''0'' \<Longrightarrow> str_nat (nat_of_digits s) = s"
proof (induction s rule: rev_induct)
  case (snoc c s)
  then have c: "digit (digit_val c) = c" "digit_val c < 10" by (simp_all add: all_digits_def digit_of_val)
  show ?case
  proof (cases "s = []")
    case True
    with c show ?thesis by (simp add: nat_of_digits_def str_nat.simps)
  next
    case False
    then have s: "all_digits s" "hd s \<noteq> CHR ''0''" using snoc.prems by (simp_all add: all_digits_def)
    then have "str_nat (nat_of_digits s) = s" "0 < nat_of_digits s" using snoc.IH nat_of_digits_pos by auto
    moreover have "(10 * nat_of_digits s + digit_val c) div 10 = nat_of_digits s"
      "(10 * nat_of_digits s + digit_val c) mod 10 = digit_val c" using c(2) by simp_all
    ultimately show ?thesis using c(1) by (subst nat_of_digits_snoc, subst str_nat.simps) simp
  qed
qed (simp add: all_digits_def)

lemma parse_octet_canonical: "parse_octet s = Some n \<Longrightarrow> s = str_nat n \<and> n < 256"
  using str_nat_of_digits[of s] by (auto simp: parse_octet_def split: if_splits)

text \<open>An IPv4 text that is read is the text that is printed.\<close>

lemma parse_v4_canonical:
  assumes "parse_v4_num s = Some n"
  shows "s = str_v4 n"
proof -
  obtain a b c d where o: "map parse_octet (split_on (CHR ''.'') s) = [Some a, Some b, Some c, Some d]"
    and n: "n = ((a * 256 + b) * 256 + c) * 256 + d"
    using assms by (auto simp: parse_v4_num_def split: list.splits option.splits)
  obtain p q r t where sp: "split_on (CHR ''.'') s = [p, q, r, t]"
    using o by (auto simp: map_eq_Cons_conv)
  with o have x: "p = str_nat a" "q = str_nat b" "r = str_nat c" "t = str_nat d" "a < 256" "b < 256" "c < 256" "d < 256"
    using parse_octet_canonical by auto
  have dm: "(x * 256 + y) div 256 = x" "(x * 256 + y) mod 256 = y" if "y < 256" for x y :: nat
    using that by simp_all
  have "n div 65536 = n div 256 div 256" "n div 16777216 = n div 256 div 256 div 256"
    by (simp_all add: div_mult2_eq[symmetric])
  then have "n div 16777216 mod 256 = a" "n div 65536 mod 256 = b" "n div 256 mod 256 = c" "n mod 256 = d"
    unfolding n using x(5-8) by (simp_all only: dm) simp
  then have "str_v4 n = join ''.'' [p, q, r, t]" by (simp add: str_v4_def x)
  also have "\<dots> = s" using join_split_on[of "CHR ''.''" s] sp by simp
  finally show ?thesis by simp
qed

lemma parse_v4_inject: "parse_v4_num s = Some n \<Longrightarrow> parse_v4_num t = Some n \<Longrightarrow> s = t"
  using parse_v4_canonical by metis

end
