(* ===== verification/PrivHelper.thy ===== *)
theory PrivHelper
  imports IpAddress PyValue
begin

text \<open>
  \<^verbatim>\<open>app/services/priv_helper.py\<close> over \<open>run_command\<close> of
  \<^verbatim>\<open>app/services/network_service.py\<close>: the allowlist of privileged actions, the
  validators of their parameters, the construction of the argument vector, and the execution
  with its dry run, \<open>sudo\<close> prefix and audit events.

  \<open>ne_sudo\<close> is the path \<open>_resolve_sudo\<close> finds, empty when there is none.  A parameter is a \<open>pyval\<close>; the validators read its \<open>str()\<close>.  \<open>'w\<close> is the world commands
  act on; \<open>subprocess.run\<close> is the argument \<open>ne_exec\<close>.
\<close>

section \<open>Substitution in strings\<close>

text \<open>\<open>s.replace(pat, rep)\<close> for a nonempty \<open>pat\<close>; the second argument counts the
  characters of a match still to be skipped.\<close>

fun replace_from :: "string \<Rightarrow> string \<Rightarrow> nat \<Rightarrow> string \<Rightarrow> string" where
  "replace_from pat rep k [] = []"
| "replace_from pat rep (Suc k) (c # cs) = replace_from pat rep k cs"
| "replace_from pat rep 0 (c # cs) =
     (if prefix pat (c # cs) then rep @ replace_from pat rep (length pat - 1) cs
      else c # replace_from pat rep 0 cs)"

definition replace_str :: "string \<Rightarrow> string \<Rightarrow> string \<Rightarrow> string" where
  "replace_str pat rep s = replace_from pat rep 0 s"

lemma replace_str_Nil [simp]: "replace_str pat rep [] = []"
  by (simp add: replace_str_def)

lemma replace_from_all: "k = length s \<Longrightarrow> replace_from pat rep k s = []"
  by (induction s arbitrary: k) auto

lemma replace_str_self: "pat \<noteq> [] \<Longrightarrow> replace_str pat rep pat = rep"
  by (cases pat) (simp_all add: replace_str_def replace_from_all)

lemma replace_str_other:
  "pat = CHR ''{'' # q \<Longrightarrow> c \<noteq> CHR ''{'' \<Longrightarrow> replace_str pat rep (c # s) = c # replace_str pat rep s"
  by (simp add: replace_str_def)

lemma replace_str_none: "pat = CHR ''{'' # q \<Longrightarrow> CHR ''{'' \<notin> set s \<Longrightarrow> replace_str pat rep s = s"
  by (induction s) (auto simp: replace_str_other)

section \<open>Commands\<close>

text \<open>What \<open>subprocess.run\<close> does: finish, exceed its time, or raise.\<close>

datatype exec_result = Finished int string string | TimedOut | ExecRaises pyexn

record command_result =
  cr_command :: "string list"
  cr_code :: int
  cr_out :: string
  cr_err :: string

record 'w exec_env =
  ne_dry_run :: bool
  ne_freebsd :: bool
  ne_root :: bool
  ne_sudo :: string
  ne_exec :: "string list \<Rightarrow> 'w \<Rightarrow> 'w \<times> exec_result"

definition secret_flags :: "string list" where
  "secret_flags =
     [''-p'', ''--password'', ''-P'', ''--secret'', ''--psk'', ''--auth'', ''--token'', ''--key'',
      ''--credential'']"

definition secret_pattern :: "string \<Rightarrow> bool" where
  "secret_pattern s \<longleftrightarrow>
     list_ex (\<lambda>w. contains w (lower s))
       [''password'', ''secret'', ''psk'', ''token'', ''auth'', ''key'', ''credential'']"

definition stars :: string where
  "stars = ''***''"

fun redact_command :: "string list \<Rightarrow> string list" where
  "redact_command [] = []"
| "redact_command [tok] =
     (if CHR ''='' \<in> set tok
      then (let flag = before (CHR ''='') tok in
            if flag \<in> set secret_flags \<or> secret_pattern flag then [flag @ ''='' @ stars] else [tok])
      else [tok])"
| "redact_command (tok # nxt # rest) =
     (if CHR ''='' \<in> set tok
      then (let flag = before (CHR ''='') tok in
            (if flag \<in> set secret_flags \<or> secret_pattern flag then flag @ ''='' @ stars else tok)
            # redact_command (nxt # rest))
      else if tok \<in> set secret_flags \<or> secret_pattern tok then tok # redact_command (stars # rest)
      else tok # redact_command (nxt # rest))"

definition privileged_bins :: "string list" where
  "privileged_bins =
     [''/sbin/pfctl'', ''pfctl'', ''/sbin/ifconfig'', ''ifconfig'', ''/sbin/route'', ''route'',
      ''/usr/sbin/service'', ''service'', ''/usr/sbin/sysrc'', ''sysrc'',
      ''/usr/local/sbin/unbound-control'', ''unbound-control'', ''/usr/sbin/ppp'', ''ppp'', ''pkill'']"

text \<open>The events for the audit log.\<close>

datatype audit_event =
    RunCommand "string list"
  | Privileged string string "(string \<times> string) list" "string list"

text \<open>
  \<open>run_command\<close> with \<open>timeout_seconds = n\<close>: the world, the audit events and the result or
  the exception.
\<close>

definition run_command ::
  "'w exec_env \<Rightarrow> nat \<Rightarrow> bool \<Rightarrow> string list \<Rightarrow> 'w \<Rightarrow> 'w \<times> audit_event list \<times> command_result res" where
  "run_command env n check cmd w =
     (if ne_dry_run env
      then (w, [], Inr \<lparr>cr_command = cmd, cr_code = 0,
              cr_out = ''[DRY-RUN] '' @ join '' '' (redact_command cmd), cr_err = []\<rparr>)
      else
        (let privileged = cmd \<noteq> [] \<and> hd cmd \<in> set privileged_bins;
             events = (if privileged then [RunCommand (redact_command cmd)] else []);
             needs_sudo = ne_freebsd env \<and> \<not> ne_root env \<and> privileged
         in if needs_sudo \<and> ne_sudo env = []
            then (w, events, Inl (FreeBSDNetworkError
              (''sudo is required to run privileged commands as a non-root user '' @
               ''but was not found on PATH. Run Smart Shield as root, or install '' @
               ''the '' @ apos @ ''sudo'' @ apos @ '' package.'')))
            else
              (let actual = (if needs_sudo then ne_sudo env # cmd else cmd) in
               case ne_exec env actual w of
                 (w', TimedOut) \<Rightarrow>
                   (w', events, Inl (FreeBSDNetworkError (''Command timed out after '' @ str_nat n @ ''s: '' @
                      join '' '' (redact_command actual))))
               | (w', ExecRaises e) \<Rightarrow> (w', events, Inl e)
               | (w', Finished rc out err) \<Rightarrow>
                   (if check \<and> rc \<noteq> 0
                    then (w', events, Inl (FreeBSDNetworkError (''Command failed ('' @
                           join '' '' (redact_command actual) @ ''): '' @
                           (if strip err \<noteq> [] then strip err else strip out))))
                    else (w', events, Inr \<lparr>cr_command = actual, cr_code = rc, cr_out = out, cr_err = err\<rparr>)))))"

section \<open>Validators\<close>

type_synonym validator = "pyval \<Rightarrow> string res"

definition is_path_char :: "char \<Rightarrow> bool" where
  "is_path_char c \<longleftrightarrow> is_alnum c \<or> c \<in> set ''_./-''"

definition is_name_char :: "char \<Rightarrow> bool" where
  "is_name_char c \<longleftrightarrow> is_alnum c \<or> c \<in> set ''_.-''"

definition known_config_dirs :: "string list" where
  "known_config_dirs =
     [''/etc'', ''/usr/local/etc'', ''/usr/local/etc/openvpn'', ''/usr/local/etc/suricata'',
      ''/usr/local/etc/unbound'', ''/usr/local/etc/kea'', ''/usr/local/etc/miniupnpd'',
      ''/usr/local/etc/ddclient.conf'', ''/var/db/smartshield'', ''/var/db/smart-shield'']"

definition safe_path :: "string \<Rightarrow> bool" where
  "safe_path v \<longleftrightarrow>
     (case v of [] \<Rightarrow> False
      | c # cs \<Rightarrow> c = CHR ''/'' \<and> list_all is_path_char cs \<and> 1 \<le> length cs \<and> length cs \<le> 255)"

definition safe_name :: "string \<Rightarrow> bool" where
  "safe_name v \<longleftrightarrow> list_all is_name_char v \<and> 1 \<le> length v \<and> length v \<le> 64"

definition val_config_path :: validator where
  "val_config_path x =
     (let v = strip (py_str_of x) in
      if \<not> safe_path v then Inl (ValueError (''Unsafe config path: '' @ py_repr v))
      else if \<not> list_ex (startswith v) known_config_dirs
      then Inl (ValueError (''Config path not in allowed dirs: '' @ py_repr v))
      else Inr v)"

definition val_anchor_name :: validator where
  "val_anchor_name x =
     (let v = strip (py_str_of x) in
      if \<not> safe_name v then Inl (ValueError (''Invalid anchor name: '' @ py_repr v)) else Inr v)"

definition allowed_pf_tables :: "string list" where
  "allowed_pf_tables =
     [''authenticated_clients'', ''admin_bypass_clients'', ''device_whitelist'', ''access_whitelist'',
      ''policy_exemption'', ''ss_ids_blocks'', ''ss_threat_intel'', ''soc_blocklist'']"

definition val_table_name :: validator where
  "val_table_name x =
     (let v = strip (py_str_of x) in
      if \<not> safe_name v then Inl (ValueError (''Invalid PF table name: '' @ py_repr v))
      else if v \<notin> set allowed_pf_tables
      then Inl (ValueError (''PF table not in allowlist: '' @ py_repr v))
      else Inr v)"

definition val_ip :: validator where
  "val_ip x =
     (let v = strip (py_str_of x) in
      if (if CHR ''/'' \<in> set v then ip_network v = None else ip_address v = None)
      then Inl (ValueError (''Invalid IP/CIDR: '' @ py_repr v)) else Inr v)"

definition known_services :: "string list" where
  "known_services =
     [''isc-dhcpd'', ''unbound'', ''openvpn'', ''strongswan'', ''suricata'', ''ntpd'', ''miniupnpd'',
      ''igmpproxy'', ''mpd5'', ''ddclient'', ''kea-dhcp6'', ''rtadvd'', ''bsnmpd'', ''smart_shield'',
      ''nginx'', ''pf'', ''pflog'']"

definition val_service_name :: validator where
  "val_service_name x =
     (let v = strip (py_str_of x) in
      if v \<notin> set known_services then Inl (ValueError (''Unknown service name: '' @ py_repr v)) else Inr v)"

definition val_service_action :: validator where
  "val_service_action x =
     (let v = lower (strip (py_str_of x)) in
      if v \<notin> set [''start'', ''stop'', ''restart'', ''reload'', ''status'', ''onerestart'']
      then Inl (ValueError (''Unknown service action: '' @ py_repr v)) else Inr v)"

text \<open>\<open>^H[T]{0,n}$\<close> on a stripped string, for two character classes.\<close>

definition head_tail :: "(char \<Rightarrow> bool) \<Rightarrow> (char \<Rightarrow> bool) \<Rightarrow> nat \<Rightarrow> string \<Rightarrow> bool" where
  "head_tail H T n v \<longleftrightarrow> (case v of [] \<Rightarrow> False | c # cs \<Rightarrow> H c \<and> list_all T cs \<and> length cs \<le> n)"

definition is_word_char :: "char \<Rightarrow> bool" where
  "is_word_char c \<longleftrightarrow> is_alnum c \<or> c = CHR ''_''"

definition val_iface_name :: validator where
  "val_iface_name x =
     (let v = strip (py_str_of x) in
      if \<not> head_tail is_alpha is_word_char 15 v
      then Inl (ValueError (''Invalid interface name: '' @ py_repr v)) else Inr v)"

definition val_gateway :: validator where
  "val_gateway = val_ip"

definition val_sysrc_key :: validator where
  "val_sysrc_key x =
     (let v = strip (py_str_of x) in
      if \<not> head_tail (\<lambda>c. is_alpha c \<or> c = CHR ''_'') is_word_char 63 v
      then Inl (ValueError (''Invalid sysrc key: '' @ py_repr v)) else Inr v)"

definition val_sysrc_value :: validator where
  "val_sysrc_value x =
     (let v = strip (py_str_of x) in
      if 256 < length v then Inl (ValueError ''sysrc value too long'')
      else if list_ex (\<lambda>c. c \<in> set v) '';&|`$!''
      then Inl (ValueError (''Unsafe characters in sysrc value: '' @ py_repr v))
      else Inr v)"

text \<open>
  \<open>[a-z0-9]([a-z0-9\-_\.]{0,251}[a-z0-9])?$\<close>.  The text was stripped before its trailing
  dots were, so a line feed may come last, and \<open>$\<close> matches before it.
\<close>

definition is_host_char :: "char \<Rightarrow> bool" where
  "is_host_char c \<longleftrightarrow> is_lower c \<or> is_digit c"

definition domain_core :: "string \<Rightarrow> bool" where
  "domain_core s \<longleftrightarrow>
     s \<noteq> [] \<and> is_host_char (hd s) \<and> is_host_char (last s) \<and> length s \<le> 253
     \<and> list_all (\<lambda>c. is_host_char c \<or> c \<in> set ''-_.'') s"

definition domain_pattern :: "string \<Rightarrow> bool" where
  "domain_pattern s \<longleftrightarrow> domain_core s \<or> (s \<noteq> [] \<and> last s = CHR 0x0A \<and> domain_core (butlast s))"

definition rstrip_char :: "char \<Rightarrow> string \<Rightarrow> string" where
  "rstrip_char c s = rev (dropWhile (\<lambda>x. x = c) (rev s))"

definition val_unbound_domain :: validator where
  "val_unbound_domain x =
     (let v = lower (strip (py_str_of x)); bare = rstrip_char (CHR ''.'') v in
      if bare = [] \<or> \<not> domain_pattern bare then Inl (ValueError (''Invalid domain: '' @ py_repr v))
      else Inr (bare @ ''.''))"

definition val_zone_type :: validator where
  "val_zone_type x =
     (let v = lower (strip (py_str_of x)) in
      if v \<notin> set [''always_refuse'', ''always_nxdomain'', ''always_noerror'', ''static'', ''redirect'',
          ''transparent'', ''nodefault'']
      then Inl (ValueError (''Unknown zone type: '' @ py_repr v)) else Inr v)"

definition val_safe_pkg_name :: validator where
  "val_safe_pkg_name x =
     (let v = strip (py_str_of x) in
      if v = [] \<or> \<not> (list_all (\<lambda>c. is_alnum c \<or> c \<in> set ''._+-'') v \<and> length v \<le> 200)
      then Inl (ValueError (''Invalid package name: '' @ py_repr v)) else Inr v)"

definition val_seconds :: validator where
  "val_seconds x =
     (case py_int_of x of
        Inl (TypeError m) \<Rightarrow> Inl (ValueError (''seconds must be a positive integer, got '' @ repr_val x))
      | Inl (ValueError m) \<Rightarrow> Inl (ValueError (''seconds must be a positive integer, got '' @ repr_val x))
      | Inl e \<Rightarrow> Inl e
      | Inr n \<Rightarrow>
          (if n \<le> 0 then Inl (ValueError (''seconds must be positive, got '' @ str_int n))
           else Inr (str_int n)))"

section \<open>The allowlist\<close>

text \<open>An action with its command template and its parameters with their validators.\<close>

definition allowlist :: "(string \<times> string list \<times> (string \<times> validator) list) list" where
  "allowlist =
     [(''pf.reload'', [''/sbin/pfctl'', ''-f'', ''{config_path}''], [(''config_path'', val_config_path)]),
      (''pf.enable'', [''/sbin/pfctl'', ''-e''], []),
      (''pf.disable'', [''/sbin/pfctl'', ''-d''], []),
      (''pf.flush_rules'', [''/sbin/pfctl'', ''-F'', ''rules''], []),
      (''pf.anchor_reload'', [''/sbin/pfctl'', ''-a'', ''{anchor_name}'', ''-f'', ''{config_path}''], [(''anchor_name'', val_anchor_name), (''config_path'', val_config_path)]),
      (''pf.table_add'', [''/sbin/pfctl'', ''-t'', ''{table}'', ''-T'', ''add'', ''{ip}''], [(''table'', val_table_name), (''ip'', val_ip)]),
      (''pf.table_delete'', [''/sbin/pfctl'', ''-t'', ''{table}'', ''-T'', ''delete'', ''{ip}''], [(''table'', val_table_name), (''ip'', val_ip)]),
      (''pf.table_flush'', [''/sbin/pfctl'', ''-t'', ''{table}'', ''-T'', ''flush''], [(''table'', val_table_name)]),
      (''pf.table_show'', [''/sbin/pfctl'', ''-t'', ''{table}'', ''-T'', ''show''], [(''table'', val_table_name)]),
      (''service.action'', [''/usr/sbin/service'', ''{service_name}'', ''{action}''], [(''service_name'', val_service_name), (''action'', val_service_action)]),
      (''sysrc.get'', [''/usr/sbin/sysrc'', ''-n'', ''{key}''], [(''key'', val_sysrc_key)]),
      (''sysrc.set'', [''/usr/sbin/sysrc'', ''{key}={value}''], [(''key'', val_sysrc_key), (''value'', val_sysrc_value)]),
      (''sysrc.loader_set'', [''/usr/sbin/sysrc'', ''-f'', ''/boot/loader.conf'', ''{key}={value}''], [(''key'', val_sysrc_key), (''value'', val_sysrc_value)]),
      (''ifconfig.inet'', [''/sbin/ifconfig'', ''{iface}'', ''inet'', ''{ip}'', ''netmask'', ''{netmask}''], [(''iface'', val_iface_name), (''ip'', val_ip), (''netmask'', val_ip)]),
      (''ifconfig.alias_add'', [''/sbin/ifconfig'', ''{iface}'', ''inet'', ''{ip}'', ''netmask'', ''{netmask}'', ''alias''], [(''iface'', val_iface_name), (''ip'', val_ip), (''netmask'', val_ip)]),
      (''ifconfig.alias_del'', [''/sbin/ifconfig'', ''{iface}'', ''inet'', ''{ip}'', ''-alias''], [(''iface'', val_iface_name), (''ip'', val_ip)]),
      (''ifconfig.up'', [''/sbin/ifconfig'', ''{iface}'', ''up''], [(''iface'', val_iface_name)]),
      (''ifconfig.down'', [''/sbin/ifconfig'', ''{iface}'', ''down''], [(''iface'', val_iface_name)]),
      (''route.add_default'', [''/sbin/route'', ''-n'', ''add'', ''default'', ''{gateway}''], [(''gateway'', val_gateway)]),
      (''route.delete_default'', [''/sbin/route'', ''-n'', ''delete'', ''default''], []),
      (''unbound.reload'', [''/usr/local/sbin/unbound-control'', ''reload''], []),
      (''unbound.local_zone'', [''/usr/local/sbin/unbound-control'', ''local_zone'', ''{domain}'', ''{zone_type}''], [(''domain'', val_unbound_domain), (''zone_type'', val_zone_type)]),
      (''unbound.local_zone_remove'', [''/usr/local/sbin/unbound-control'', ''local_zone_remove'', ''{domain}''], [(''domain'', val_unbound_domain)]),
      (''unbound.local_data_a'', [''/usr/local/sbin/unbound-control'', ''local_data'', ''{domain}'', ''IN'', ''A'', ''{ip}''], [(''domain'', val_unbound_domain), (''ip'', val_ip)]),
      (''unbound.local_data_remove'', [''/usr/local/sbin/unbound-control'', ''local_data_remove'', ''{domain}''], [(''domain'', val_unbound_domain)]),
      (''ipsec.reload'', [''/usr/local/sbin/ipsec'', ''reload''], []),
      (''ipsec.statusall'', [''/usr/local/sbin/ipsec'', ''statusall''], []),
      (''pfctl.check'', [''/sbin/pfctl'', ''-n'', ''-f'', ''{config_path}''], [(''config_path'', val_config_path)]),
      (''pkg.install'', [''/usr/sbin/pkg'', ''install'', ''-y'', ''--'', ''{package_name}''], [(''package_name'', val_safe_pkg_name)]),
      (''pkg.delete'', [''/usr/sbin/pkg'', ''delete'', ''-y'', ''--'', ''{package_name}''], [(''package_name'', val_safe_pkg_name)]),
      (''pf.table_replace_file'', [''/sbin/pfctl'', ''-t'', ''{table}'', ''-T'', ''replace'', ''-f'', ''{file_path}''], [(''table'', val_table_name), (''file_path'', val_config_path)]),
      (''kldload'', [''/sbin/kldload'', ''{module}''], [(''module'', val_safe_pkg_name)]),
      (''pf.table_expire'', [''/sbin/pfctl'', ''-t'', ''{table}'', ''-T'', ''expire'', ''{seconds}''], [(''table'', val_table_name), (''seconds'', val_seconds)])]"

definition list_allowed_actions :: "string list" where
  "list_allowed_actions = sort (map fst allowlist)"

section \<open>Building the command\<close>

definition braces :: "string \<Rightarrow> string" where
  "braces k = CHR ''{'' # k @ ''}''"

text \<open>The parameters in the order of the schema; the first failure raises.  An exception
  that is no \<open>ValueError\<close> passes through.\<close>

fun validate_params ::
  "string \<Rightarrow> (string \<times> validator) list \<Rightarrow> (string \<times> pyval) list \<Rightarrow> (string \<times> string) list res" where
  "validate_params action [] params = Inr []"
| "validate_params action ((key, val) # schema) params =
     (case map_of params key of
        None \<Rightarrow>
          Inl (PrivilegedActionError (''Missing required param '' @ py_repr key @ '' for action '' @
                 py_repr action @ ''.''))
      | Some x \<Rightarrow>
          (case val x of
             Inl (ValueError m) \<Rightarrow>
               Inl (PrivilegedActionError (''Invalid param '' @ py_repr key @ '' for '' @ py_repr action @
                      '': '' @ m))
           | Inl e \<Rightarrow> Inl e
           | Inr v \<Rightarrow> bind_res (validate_params action schema params) (\<lambda>vs. Inr ((key, v) # vs))))"

definition fill_token :: "(string \<times> string) list \<Rightarrow> string \<Rightarrow> string" where
  "fill_token vs tok = foldl (\<lambda>t (k, v). replace_str (braces k) v t) tok vs"

definition key_value :: "(string \<times> string) list \<Rightarrow> string" where
  "key_value vs =
     (case (map_of vs ''key'', map_of vs ''value'') of
        (Some k, Some v) \<Rightarrow> k @ ''='' @ v
      | _ \<Rightarrow> [])"

text \<open>The set of unexpected names is printed in the order of the call.\<close>

definition build_command ::
  "string \<Rightarrow> (string \<times> pyval) list \<Rightarrow> ((string \<times> string) list \<times> string list) res" where
  "build_command action params =
     (case map_of allowlist action of
        None \<Rightarrow>
          Inl (PrivilegedActionError (''Action '' @ py_repr action @ '' is not in the privileged allowlist. '' @
                 ''Allowed: '' @ py_repr_list list_allowed_actions))
      | Some (template, schema) \<Rightarrow>
          bind_res (validate_params action schema params) (\<lambda>vs.
            (let extra = filter (\<lambda>k. k \<notin> set (map fst schema)) (map fst params) in
             if extra \<noteq> []
             then Inl (PrivilegedActionError (''Unexpected params for '' @ py_repr action @ '': {'' @
                         join '', '' (map py_repr extra) @ ''}''))
             else if action = ''sysrc.set'' then Inr (vs, [''/usr/sbin/sysrc'', key_value vs])
             else if action = ''sysrc.loader_set''
             then Inr (vs, [''/usr/sbin/sysrc'', ''-f'', ''/boot/loader.conf'', key_value vs])
             else Inr (vs, map (fill_token vs) template))))"

definition maybe_sudo :: "'w exec_env \<Rightarrow> string list \<Rightarrow> string list" where
  "maybe_sudo env cmd =
     (if ne_root env then cmd
      else if ne_sudo env = [] then cmd
      else [ne_sudo env, ''-n''] @ cmd)"

definition is_privileged_available :: "'w exec_env \<Rightarrow> 'w \<Rightarrow> bool" where
  "is_privileged_available env w =
     (if \<not> ne_freebsd env then False
      else if ne_dry_run env then False
      else if ne_root env then True
      else if ne_sudo env = [] then False
      else case run_command env 3 False [ne_sudo env, ''-n'', ''-l''] w of
             (_, _, Inr r) \<Rightarrow> cr_code r = 0
           | _ \<Rightarrow> False)"

definition run_privileged ::
  "'w exec_env \<Rightarrow> string \<Rightarrow> string \<Rightarrow> (string \<times> pyval) list \<Rightarrow> 'w
     \<Rightarrow> 'w \<times> audit_event list \<times> command_result res" where
  "run_privileged env action user params w =
     (case build_command action params of
        Inl e \<Rightarrow> (w, [], Inl e)
      | Inr (vs, cmd0) \<Rightarrow>
          (let cmd = (if ne_freebsd env \<and> \<not> ne_dry_run env then maybe_sudo env cmd0 else cmd0) in
           case run_command env 30 False cmd w of
             (w', events, r) \<Rightarrow> (w', Privileged action user vs cmd # events, r)))"


section \<open>Safe first characters\<close>

text \<open>A value that can neither be read as an option nor be taken for a placeholder.\<close>

definition safe_head :: "string \<Rightarrow> bool" where
  "safe_head v \<longleftrightarrow> v \<noteq> [] \<and> hd v \<noteq> CHR ''-'' \<and> hd v \<noteq> CHR ''{''"

definition safe_validator :: "validator \<Rightarrow> bool" where
  "safe_validator val \<longleftrightarrow> (\<forall>x v. val x = Inr v \<longrightarrow> safe_head v)"

definition hex_head :: "string \<Rightarrow> bool" where
  "hex_head v \<longleftrightarrow> v \<noteq> [] \<and> (hex_val (hd v) \<noteq> None \<or> hd v = CHR '':'')"

lemma hex_head_safe: "hex_head v \<Longrightarrow> safe_head v"
  by (auto simp: hex_head_def safe_head_def hex_val_def is_digit_def code_def split: if_splits)

lemma alnum_safe: "v \<noteq> [] \<Longrightarrow> is_alnum (hd v) \<Longrightarrow> safe_head v"
  by (auto simp: safe_head_def char_class_defs)

lemma split_on_hd:
  "split_on c s = p # ps \<Longrightarrow> p \<noteq> [] \<Longrightarrow> s \<noteq> [] \<and> hd s = hd p"
  by (cases s) (auto split: if_splits list.splits)

lemma split_on_empty_hd:
  "split_on c s = [] # p # ps \<Longrightarrow> s \<noteq> [] \<and> hd s = c"
  by (cases s) (auto split: if_splits list.splits)

lemma hextet_head: "parse_hextet p \<noteq> None \<Longrightarrow> p \<noteq> [] \<and> hex_val (hd p) \<noteq> None"
  by (cases p) (auto simp: parse_hextet_def split: if_splits)

lemma join_hextets_head:
  "join_hextets (p # hi) k lo \<noteq> None \<Longrightarrow> p \<noteq> [] \<and> hex_val (hd p) \<noteq> None"
  by (rule hextet_head) (auto simp: join_hextets_def Let_def split: if_splits)

lemma join_hextets_headD: "join_hextets (p # hi) k lo = Some y \<Longrightarrow> \<exists>z. hex_val (hd p) = Some z"
  using join_hextets_head[of p hi k lo] by auto

lemma digits_head: "all_digits p \<Longrightarrow> p \<noteq> [] \<and> hex_val (hd p) \<noteq> None"
  by (cases p) (auto simp: all_digits_def hex_val_def)

lemma v4_head: "parse_v4_num s \<noteq> None \<Longrightarrow> hex_head s"
proof -
  assume "parse_v4_num s \<noteq> None"
  then obtain p ps where p: "split_on (CHR ''.'') s = p # ps" and "parse_octet p \<noteq> None"
    by (auto simp: parse_v4_num_def split: list.splits option.splits)
  then have "all_digits p" by (auto simp: parse_octet_def split: if_splits)
  then show ?thesis using split_on_hd[OF p] digits_head by (auto simp: hex_head_def)
qed

lemma v6_expand_head:
  assumes "v6_expand_v4 (p # q # ps) = Some parts"
  shows "parts \<noteq> [] \<and> hd parts = p"
  using assms by (auto simp: v6_expand_v4_def split: if_splits option.splits)

lemma v6_parts_head:
  assumes "parse_v6_num s \<noteq> None"
  shows "hex_head s"
proof -
  obtain p q r ps where s: "split_on (CHR '':'') s = p # q # r # ps"
    using assms by (cases "split_on (CHR '':'') s" rule: list.exhaust)
      (auto simp: parse_v6_num_def Let_def length_Suc_conv neq_Nil_conv not_less Suc_le_length_iff
        numeral_eq_Suc split: if_splits)
  show ?thesis
  proof (cases "p = []")
    case True
    then show ?thesis using s split_on_empty_hd[of "CHR '':''" s q "r # ps"] by (simp add: hex_head_def)
  next
    case False
    obtain parts where parts: "v6_expand_v4 (p # q # r # ps) = Some parts"
      using assms s by (cases "v6_expand_v4 (p # q # r # ps)") (simp_all add: parse_v6_num_def)
    obtain qs where qs: "parts = p # qs" using v6_expand_head[OF parts] by (cases parts) auto
    have pos: "\<And>i is. skip_positions (p # qs) = i # is \<Longrightarrow> 0 < i"
    proof -
      fix i "is" assume i: "skip_positions (p # qs) = i # is"
      then have "i \<in> set (skip_positions (p # qs))" by simp
      then show "0 < i" by (auto simp: skip_positions_def simp del: upt_Suc)
    qed
    have "p \<noteq> [] \<and> hex_val (hd p) \<noteq> None"
      using assms s parts False pos
      by (auto simp: parse_v6_num_def Let_def qs take_Cons' split: if_splits list.splits
          dest: join_hextets_headD)
    then show ?thesis using split_on_hd[OF s] by (auto simp: hex_head_def)
  qed
qed

lemma ip_address_head: "ip_address s \<noteq> None \<Longrightarrow> hex_head s"
proof -
  assume a: "ip_address s \<noteq> None"
  show ?thesis
  proof (cases "parse_ipv4 s = None")
    case False
    then show ?thesis by (auto simp: parse_ipv4_def split: if_splits intro!: v4_head)
  next
    case True
    with a have 6: "parse_ipv6 s \<noteq> None" by (auto simp: ip_address_def)
    then obtain p ps where p: "split_on (CHR ''%'') s = p # ps" "parse_v6_num p \<noteq> None"
      by (auto simp: parse_ipv6_def split: if_splits list.splits)
    from v6_parts_head[OF p(2)] split_on_hd[OF p(1)] show ?thesis by (auto simp: hex_head_def)
  qed
qed

lemma parse_iface_head:
  assumes "parse_iface pa pm w s \<noteq> None" "\<And>a. pa a \<noteq> None \<Longrightarrow> hex_head a"
  shows "hex_head s"
proof -
  obtain p ps where p: "split_on (CHR ''/'') s = p # ps" "pa p \<noteq> None"
    using assms(1) by (auto simp: parse_iface_def split: list.splits option.splits)
  from assms(2)[OF p(2)] split_on_hd[OF p(1)] show ?thesis by (auto simp: hex_head_def)
qed

lemma ip_network_head: "ip_network s \<noteq> None \<Longrightarrow> hex_head s"
proof -
  assume "ip_network s \<noteq> None"
  then have "parse_iface parse_ipv4 netmask_v4 32 s \<noteq> None
      \<or> parse_iface parse_ipv6 (prefix_of_string 128) 128 s \<noteq> None"
    by (auto simp: ip_network_def ip_interface_def split: option.splits)
  moreover have "\<And>a. parse_ipv4 a \<noteq> None \<Longrightarrow> hex_head a" "\<And>a. parse_ipv6 a \<noteq> None \<Longrightarrow> hex_head a"
    by (auto simp: ip_address_def intro!: ip_address_head split: option.split)
  ultimately show ?thesis using parse_iface_head by blast
qed


lemma val_ip_safe: "safe_validator val_ip"
  using ip_network_head ip_address_head
  by (fastforce simp: safe_validator_def val_ip_def Let_def split: if_splits intro!: hex_head_safe)

lemma head_tail_head: "head_tail H T n v \<Longrightarrow> v \<noteq> [] \<and> H (hd v)"
  by (cases v) (auto simp: head_tail_def)

lemma validators_safe:
  "safe_validator val_config_path" "safe_validator val_table_name" "safe_validator val_gateway"
  "safe_validator val_service_name" "safe_validator val_service_action" "safe_validator val_iface_name"
  "safe_validator val_unbound_domain" "safe_validator val_zone_type" "safe_validator val_seconds"
proof -
  show "safe_validator val_config_path"
    by (auto simp: safe_validator_def val_config_path_def Let_def safe_path_def safe_head_def
        split: if_splits list.splits)
  show "safe_validator val_table_name"
    by (auto simp: safe_validator_def val_table_name_def Let_def allowed_pf_tables_def safe_head_def
        split: if_splits)
  show "safe_validator val_gateway" by (simp add: val_gateway_def val_ip_safe)
  show "safe_validator val_service_name"
    by (auto simp: safe_validator_def val_service_name_def Let_def known_services_def safe_head_def
        split: if_splits)
  show "safe_validator val_service_action"
    by (auto simp: safe_validator_def val_service_action_def Let_def safe_head_def split: if_splits)
  show "safe_validator val_iface_name"
    by (auto simp: safe_validator_def val_iface_name_def Let_def is_alnum_def split: if_splits
        dest!: head_tail_head intro!: alnum_safe)
  show "safe_validator val_zone_type"
    by (auto simp: safe_validator_def val_zone_type_def Let_def safe_head_def split: if_splits)
  have "is_host_char c \<Longrightarrow> is_alnum c" for c
    by (auto simp: is_host_char_def is_alnum_def is_alpha_def)
  moreover have "domain_pattern s \<Longrightarrow> s \<noteq> [] \<and> is_host_char (hd s)" for s
    by (cases s) (auto simp: domain_pattern_def domain_core_def split: if_splits)
  ultimately show "safe_validator val_unbound_domain"
    by (auto simp: safe_validator_def val_unbound_domain_def Let_def split: if_splits intro!: alnum_safe)
  have "0 < n \<Longrightarrow> safe_head (str_int n)" for n
  proof -
    assume "0 < n"
    then have "str_int n = str_nat (nat n)" by (simp add: str_int_def)
    moreover have "is_alnum (hd (str_nat k))" for k
      using str_nat_digits[of "hd (str_nat k)" k] by (simp add: is_alnum_def)
    ultimately show ?thesis by (auto intro!: alnum_safe)
  qed
  then show "safe_validator val_seconds"
    by (auto simp: safe_validator_def val_seconds_def split: sum.splits pyexn.splits if_splits)
qed

section \<open>Filled templates\<close>

definition plain_key :: "string \<Rightarrow> bool" where
  "plain_key k \<longleftrightarrow> CHR ''{'' \<notin> set k \<and> CHR ''}'' \<notin> set k"

lemma fill_token_simps:
  "fill_token [] tok = tok"
  "fill_token ((k, v) # vs) tok = fill_token vs (replace_str (braces k) v tok)"
  by (simp_all add: fill_token_def)

lemma fill_literal: "CHR ''{'' \<notin> set tok \<Longrightarrow> fill_token vs tok = tok"
  by (induction vs) (auto simp: fill_token_simps braces_def replace_str_none)

lemma fill_keeps_head:
  assumes "s \<noteq> []" "hd s \<noteq> CHR ''{''"
  shows "fill_token vs s \<noteq> [] \<and> hd (fill_token vs s) = hd s"
  using assms
proof (induction vs arbitrary: s)
  case (Cons a vs)
  obtain k v where a: "a = (k, v)" by (cases a)
  obtain c cs where s: "s = c # cs" using Cons.prems(1) by (cases s) auto
  have r: "replace_str (braces k) v s = c # replace_str (braces k) v cs"
    using Cons.prems(2) by (simp add: s replace_str_other braces_def)
  have "s \<noteq> [] \<and> hd s \<noteq> CHR ''{''" using Cons.prems by simp
  then show ?case
    using Cons.IH[of "c # replace_str (braces k) v cs"] r by (simp add: a fill_token_simps s)
qed (simp add: fill_token_simps)

lemma braces_prefix:
  "plain_key j \<Longrightarrow> plain_key k \<Longrightarrow> prefix (braces j) (braces k) \<longleftrightarrow> j = k"
proof -
  assume p: "plain_key j" "plain_key k"
  have "j = k" if "prefix (j @ ''}'') (k @ ''}'')"
  proof -
    have "prefix (j @ ''}'') k \<or> j @ ''}'' = k @ ''}''" using that by (metis prefix_snoc)
    with p(2) show ?thesis by (auto simp: plain_key_def prefix_def)
  qed
  then show ?thesis by (auto simp: braces_def)
qed

lemma replace_braces:
  assumes "plain_key j" "plain_key k"
  shows "replace_str (braces j) v (braces k) = (if j = k then v else braces k)"
proof (cases "j = k")
  case False
  have "CHR ''{'' \<notin> set (k @ ''}'')" using assms(2) by (simp add: plain_key_def)
  then have "replace_from (braces j) v 0 (k @ ''}'') = k @ ''}''"
    using replace_str_none[of "braces j" "j @ ''}''"] by (simp add: braces_def replace_str_def)
  with False assms show ?thesis
    using braces_prefix[OF assms] by (simp add: replace_str_def braces_def)
qed (simp add: replace_str_self braces_def)

lemma fill_braces_head:
  assumes "list_all (\<lambda>(j, v). plain_key j) vs" "plain_key k" "map_of vs k = Some v" "safe_head v"
  shows "safe_head (fill_token vs (braces k))"
  using assms
proof (induction vs)
  case (Cons a vs)
  obtain j w where a: "a = (j, w)" by (cases a)
  show ?case
  proof (cases "j = k")
    case True
    with Cons.prems a have "w = v" by simp
    with True Cons.prems a fill_keeps_head[of v vs] show ?thesis
      by (auto simp: fill_token_simps replace_braces safe_head_def)
  next
    case False
    with Cons a show ?thesis by (simp add: fill_token_simps replace_braces)
  qed
qed simp

definition validated :: "(string \<times> pyval) list \<Rightarrow> string \<times> validator \<Rightarrow> string \<times> string \<Rightarrow> bool" where
  "validated params e b \<longleftrightarrow>
     fst b = fst e \<and> (case map_of params (fst e) of None \<Rightarrow> False | Some x \<Rightarrow> snd e x = Inr (snd b))"

lemma validate_params_Inr:
  "validate_params action schema params = Inr vs \<Longrightarrow> list_all2 (validated params) schema vs"
proof (induction action schema params arbitrary: vs rule: validate_params.induct)
  case (2 action key val schema params)
  obtain x where x: "map_of params key = Some x" using "2.prems" by (cases "map_of params key") auto
  have v: "\<exists>v. val x = Inr v" using "2.prems" x by (cases "val x") (simp_all split: pyexn.splits)
  then obtain v where v: "val x = Inr v" by blast
  obtain ws where ws: "validate_params action schema params = Inr ws" "vs = (key, v) # ws"
    using "2.prems" x v by (auto simp: bind_res_Inr)
  show ?case using "2.IH"[OF x v ws(1)] x v by (simp add: ws(2) validated_def)
qed simp

lemma validated_names: "list_all2 (validated params) schema vs \<Longrightarrow> map fst vs = map fst schema"
  by (induction rule: list_all2_induct) (auto simp: validated_def)

lemma validated_value:
  "list_all2 (validated params) schema vs \<Longrightarrow> distinct (map fst schema) \<Longrightarrow> (k, val) \<in> set schema
     \<Longrightarrow> \<exists>x v. val x = Inr v \<and> map_of vs k = Some v"
proof (induction rule: list_all2_induct)
  case (Cons e schema b vs)
  have n: "fst ` set vs = fst ` set schema"
    using arg_cong[OF validated_names[OF Cons.hyps(2)], of set] by simp
  obtain j c where e: "e = (j, c)" by (cases e)
  obtain v where b: "b = (j, v)" using Cons.hyps(1) by (cases b) (simp add: validated_def e)
  show ?case
  proof (cases "(k, val) = (j, c)")
    case True
    then show ?thesis using Cons.hyps(1) by (auto simp: b validated_def e split: option.splits)
  next
    case False
    then have "(k, val) \<in> set schema" using Cons.prems(2) by (auto simp: e)
    moreover from this have "k \<noteq> j" using Cons.prems(1) by (force simp: e)
    ultimately show ?thesis using Cons.IH Cons.prems(1) by (simp add: b e)
  qed
qed simp

text \<open>The parameters whose values may start with a dash.\<close>

definition free_keys :: "string list" where
  "free_keys = [''anchor_name'', ''package_name'', ''module'', ''value'']"

text \<open>A template whose placeholders hold safe values, or stand where no option is read.\<close>

fun guarded_template :: "string list \<Rightarrow> string \<Rightarrow> string list \<Rightarrow> bool" where
  "guarded_template keys prev [] \<longleftrightarrow> True"
| "guarded_template keys prev (t # ts) \<longleftrightarrow>
     (CHR ''{'' \<notin> set t
      \<or> list_ex (\<lambda>k. t = braces k \<and> (k \<notin> set free_keys \<or> prev \<in> set [''--'', ''-a''])) keys)
     \<and> guarded_template keys t ts"

definition sysrc_action :: "string \<Rightarrow> bool" where
  "sysrc_action a \<longleftrightarrow> a = ''sysrc.set'' \<or> a = ''sysrc.loader_set''"

definition shape_ok :: "string \<times> string list \<times> (string \<times> validator) list \<Rightarrow> bool" where
  "shape_ok e \<longleftrightarrow>
     (case e of (a, template, schema) \<Rightarrow>
        distinct (map fst schema) \<and> list_all plain_key (map fst schema)
        \<and> template \<noteq> [] \<and> CHR ''{'' \<notin> set (hd template)
        \<and> (sysrc_action a \<or> a = ''kldload'' \<or> guarded_template (map fst schema) [] template))"

definition checks_ok :: "string \<times> string list \<times> (string \<times> validator) list \<Rightarrow> bool" where
  "checks_ok e \<longleftrightarrow>
     (case e of (a, template, schema) \<Rightarrow>
        list_all (\<lambda>(k, val). k \<in> set free_keys \<or> safe_validator val) schema)"

lemma sysrc_key_safe: "safe_validator val_sysrc_key"
  by (auto simp: safe_validator_def val_sysrc_key_def Let_def safe_head_def char_class_defs
      split: if_splits dest!: head_tail_head)

lemma allowlist_checks: "list_all checks_ok allowlist"
  unfolding allowlist_def list.pred_inject checks_ok_def prod.case
  by (intro conjI; simp add: free_keys_def validators_safe val_ip_safe sysrc_key_safe)

lemma allowlist_shape: "list_all shape_ok allowlist"
  unfolding allowlist_def list.pred_inject shape_ok_def prod.case
  by (intro conjI; simp add: plain_key_def braces_def free_keys_def sysrc_action_def)


lemma guarded_nth:
  "guarded_template keys prev ts \<Longrightarrow> i < length ts \<Longrightarrow>
     CHR ''{'' \<notin> set (ts ! i)
     \<or> (\<exists>k \<in> set keys. ts ! i = braces k \<and> (k \<notin> set free_keys \<or> (prev # ts) ! i \<in> {''--'', ''-a''}))"
proof (induction keys prev ts arbitrary: i rule: guarded_template.induct)
  case (2 keys prev t ts)
  show ?case
  proof (cases i)
    case 0
    then show ?thesis using "2.prems"(1) by (auto simp: list_ex_iff)
  next
    case (Suc j)
    with "2.prems" have "guarded_template keys t ts" "j < length ts" by auto
    from "2.IH"[OF this] show ?thesis by (simp add: Suc)
  qed
qed simp

lemma allowlist_entry:
  assumes "map_of allowlist action = Some (template, schema)"
  shows "shape_ok (action, template, schema)" "checks_ok (action, template, schema)"
proof -
  have "(action, template, schema) \<in> set allowlist" using assms by (rule map_of_SomeD)
  then show "shape_ok (action, template, schema)" "checks_ok (action, template, schema)"
    using allowlist_shape allowlist_checks unfolding list_all_iff by blast+
qed

lemma build_command_Inr:
  assumes "build_command action params = Inr (vs, cmd)"
  obtains template schema where "map_of allowlist action = Some (template, schema)"
    "list_all2 (validated params) schema vs"
    "\<not> sysrc_action action \<Longrightarrow> cmd = map (fill_token vs) template"
    "action = ''sysrc.set'' \<Longrightarrow> cmd = [''/usr/sbin/sysrc'', key_value vs]"
    "action = ''sysrc.loader_set'' \<Longrightarrow> cmd = [''/usr/sbin/sysrc'', ''-f'', ''/boot/loader.conf'', key_value vs]"
proof -
  obtain template schema where a: "map_of allowlist action = Some (template, schema)"
    using assms by (cases "map_of allowlist action") (auto simp: build_command_def)
  obtain ws where v: "validate_params action schema params = Inr ws"
    using assms by (cases "validate_params action schema params") (simp_all add: build_command_def a)
  from assms have b: "ws = vs" "(if action = ''sysrc.set'' then [''/usr/sbin/sysrc'', key_value vs]
      else if action = ''sysrc.loader_set'' then [''/usr/sbin/sysrc'', ''-f'', ''/boot/loader.conf'', key_value vs]
      else map (fill_token vs) template) = cmd"
    by (auto simp: build_command_def a v Let_def split: if_splits)
  show ?thesis
    by (rule that[OF a]) (use b validate_params_Inr[OF v] in \<open>auto simp: sysrc_action_def\<close>)
qed

lemma sysrc_entries:
  "map_of allowlist ''sysrc.set'' = Some ([''/usr/sbin/sysrc'', ''{key}={value}''],
     [(''key'', val_sysrc_key), (''value'', val_sysrc_value)])"
  "map_of allowlist ''sysrc.loader_set'' = Some
     ([''/usr/sbin/sysrc'', ''-f'', ''/boot/loader.conf'', ''{key}={value}''],
     [(''key'', val_sysrc_key), (''value'', val_sysrc_value)])"
  by (simp_all add: allowlist_def)

lemma key_value_safe:
  assumes "list_all2 (validated params) [(''key'', val_sysrc_key), (''value'', val_sysrc_value)] vs"
  shows "safe_head (key_value vs)"
proof -
  let ?schema = "[(''key'', val_sysrc_key), (''value'', val_sysrc_value)]"
  obtain k x where k: "val_sysrc_key x = Inr k" "map_of vs ''key'' = Some k"
    using validated_value[OF assms, of "''key''" val_sysrc_key] by auto
  obtain v where "map_of vs ''value'' = Some v"
    using validated_value[OF assms, of "''value''" val_sysrc_value] by auto
  moreover have "safe_head k" using sysrc_key_safe k(1) by (auto simp: safe_validator_def)
  ultimately show ?thesis by (cases k) (simp_all add: key_value_def k(2) safe_head_def)
qed

lemma filled_token_option:
  assumes "map_of allowlist action = Some (template, schema)" "list_all2 (validated params) schema vs"
    and "\<not> sysrc_action action" "action \<noteq> ''kldload''" "i < length template"
    and "startswith (fill_token vs (template ! i)) ''-''"
  shows "fill_token vs (template ! i) = template ! i
     \<or> (0 < i \<and> fill_token vs (template ! (i - 1)) \<in> {''--'', ''-a''})"
proof -
  note e = allowlist_entry[OF assms(1)]
  from e(1) assms(3,4) have g: "guarded_template (map fst schema) [] template"
    and d: "distinct (map fst schema)" "list_all plain_key (map fst schema)"
    by (simp_all add: shape_ok_def)
  from guarded_nth[OF g assms(5)] show ?thesis
  proof (elim disjE bexE conjE)
    fix k assume k: "k \<in> set (map fst schema)" "template ! i = braces k" "k \<notin> set free_keys"
    then obtain val where val: "(k, val) \<in> set schema" by auto
    with e(2) k(3) have "safe_validator val" by (auto simp: checks_ok_def list_all_iff)
    with validated_value[OF assms(2) d(1) val] obtain v where v: "map_of vs k = Some v" "safe_head v"
      by (auto simp: safe_validator_def)
    have "list_all (\<lambda>(j, v). plain_key j) vs"
      using d(2) unfolding validated_names[OF assms(2), symmetric] by (auto simp: list_all_iff)
    from fill_braces_head[OF this _ v] k(1) d(2) have "safe_head (fill_token vs (template ! i))"
      by (auto simp: k(2) list_all_iff)
    with assms(6) show ?thesis by (cases "fill_token vs (template ! i)") (auto simp: safe_head_def)
  next
    assume "([] # template) ! i \<in> {''--'', ''-a''}"
    then show ?thesis by (cases i) (auto simp: fill_literal)
  qed (simp add: fill_literal)
qed

text \<open>
  C4: a privileged action that passes its checks runs the program of its allowlist entry with
  as many arguments as the template has, and no parameter of it is read as an option: an
  argument that starts with a dash is the template's own, or follows \<open>--\<close> or is the value of
  \<open>-a\<close>.  The action \<open>kldload\<close> is the exception.
\<close>

theorem privileged_no_option:
  assumes "build_command action params = Inr (vs, cmd)" "action \<noteq> ''kldload''"
  shows "\<exists>template schema. map_of allowlist action = Some (template, schema)
     \<and> length cmd = length template \<and> hd cmd = hd template
     \<and> (\<forall>i < length cmd. startswith (cmd ! i) ''-'' \<longrightarrow>
          cmd ! i = template ! i \<or> 0 < i \<and> cmd ! (i - 1) \<in> {''--'', ''-a''})"
proof -
  obtain template schema where a: "map_of allowlist action = Some (template, schema)"
    "list_all2 (validated params) schema vs"
    "\<not> sysrc_action action \<Longrightarrow> cmd = map (fill_token vs) template"
    "action = ''sysrc.set'' \<Longrightarrow> cmd = [''/usr/sbin/sysrc'', key_value vs]"
    "action = ''sysrc.loader_set'' \<Longrightarrow> cmd = [''/usr/sbin/sysrc'', ''-f'', ''/boot/loader.conf'', key_value vs]"
    using build_command_Inr[OF assms(1)] by blast
  show ?thesis
  proof (cases "sysrc_action action")
    case False
    from allowlist_entry(1)[OF a(1)] have "template \<noteq> []" "CHR ''{'' \<notin> set (hd template)"
      by (simp_all add: shape_ok_def)
    then have "hd cmd = hd template" by (simp add: a(3)[OF False] hd_map fill_literal)
    with filled_token_option[OF a(1,2) False assms(2)] a(1) show ?thesis
      by (simp add: a(3)[OF False])
  next
    case True
    have safe: "\<not> startswith (key_value vs) ''-''"
      if "schema = [(''key'', val_sysrc_key), (''value'', val_sysrc_value)]"
      using key_value_safe[of params vs] a(2) that by (cases "key_value vs") (auto simp: safe_head_def)
    from True show ?thesis
    proof (unfold sysrc_action_def, elim disjE)
      assume "action = ''sysrc.set''"
      with a(1,4) sysrc_entries(1) safe show ?thesis by (auto simp: less_Suc_eq numeral_2_eq_2)
    next
      assume "action = ''sysrc.loader_set''"
      with a(1,5) sysrc_entries(2) safe show ?thesis by (auto simp: less_Suc_eq)
    qed
  qed
qed

lemma val_samples:
  "val_ip (PStr ''10.0.0.9'') = Inr ''10.0.0.9''"
  "val_table_name (PStr ''soc_blocklist'') = Inr ''soc_blocklist''"
  by (simp_all add: val_ip_def val_table_name_def Let_def strip_id stripped_no_space is_space_def code_def
      ip_address_def parse_ipv4_def parse_v4_num_def parse_octet_def all_digits_def is_digit_def nat_of_digits_def digit_val_def
      safe_name_def is_name_char_def is_alnum_def is_alpha_def is_upper_def is_lower_def allowed_pf_tables_def)

lemma table_entry:
  "map_of allowlist ''pf.table_add'' = Some
     ([''/sbin/pfctl'', ''-t'', ''{table}'', ''-T'', ''add'', ''{ip}''], [(''table'', val_table_name), (''ip'', val_ip)])"
  by (simp add: allowlist_def)

lemma block_command:
  "build_command ''pf.table_add'' [(''table'', PStr ''soc_blocklist''), (''ip'', PStr ''10.0.0.9'')]
     = Inr ([(''table'', ''soc_blocklist''), (''ip'', ''10.0.0.9'')],
            [''/sbin/pfctl'', ''-t'', ''soc_blocklist'', ''-T'', ''add'', ''10.0.0.9''])"
  by (simp add: build_command_def table_entry val_samples fill_token_simps replace_str_def braces_def Let_def)

lemma privileged_no_option_witness:
  "\<exists>template schema. map_of allowlist ''pf.table_add'' = Some (template, schema)
     \<and> length template = 6 \<and> hd template = ''/sbin/pfctl''"
  using privileged_no_option[OF block_command] by auto


definition needs_sudo :: "'w exec_env \<Rightarrow> string list \<Rightarrow> bool" where
  "needs_sudo env cmd \<longleftrightarrow> ne_freebsd env \<and> \<not> ne_root env \<and> cmd \<noteq> [] \<and> hd cmd \<in> set privileged_bins"

lemma run_command_world:
  "fst (run_command env n check cmd w) =
     (if ne_dry_run env \<or> (needs_sudo env cmd \<and> ne_sudo env = []) then w
      else fst (ne_exec env (if needs_sudo env cmd then ne_sudo env # cmd else cmd) w))"
proof (cases "ne_exec env (if needs_sudo env cmd then ne_sudo env # cmd else cmd) w")
  case (Pair w' r)
  then show ?thesis
    by (cases r) (simp_all add: run_command_def needs_sudo_def Let_def conj_assoc cong: conj_cong)
qed

text \<open>
  A privileged call does something to the world only by executing the command built for it,
  alone or behind \<open>sudo -n\<close>; a call whose checks fail, and every call of a dry run, leaves
  the world alone.
\<close>

theorem privileged_executes_built_command:
  assumes "fst (run_privileged env action user params w) \<noteq> w" "ne_sudo env \<notin> set privileged_bins"
  shows "\<not> ne_dry_run env \<and> (\<exists>vs cmd pre.
     build_command action params = Inr (vs, cmd) \<and> pre \<in> {[], [ne_sudo env, ''-n'']}
     \<and> fst (run_privileged env action user params w) = fst (ne_exec env (pre @ cmd) w))"
proof -
  obtain vs cmd where b: "build_command action params = Inr (vs, cmd)"
    using assms(1) by (cases "build_command action params") (auto simp: run_privileged_def)
  define full where "full = (if ne_freebsd env \<and> \<not> ne_dry_run env then maybe_sudo env cmd else cmd)"
  have r: "fst (run_privileged env action user params w) = fst (run_command env 30 False full w)"
    by (simp add: run_privileged_def b Let_def full_def split: prod.split)
  have d: "\<not> ne_dry_run env" "\<not> (needs_sudo env full \<and> ne_sudo env = [])"
    using assms(1) by (auto simp: r run_command_world split: if_splits)
  have n: "\<not> needs_sudo env full"
    using d(2) assms(2) by (auto simp: needs_sudo_def full_def maybe_sudo_def d(1) split: if_splits)
  have x: "fst (run_privileged env action user params w) = fst (ne_exec env full w)"
    unfolding r run_command_world using d(1) n by simp
  have "full = [] @ cmd \<or> full = [ne_sudo env, ''-n''] @ cmd" by (simp add: full_def maybe_sudo_def)
  then have "\<exists>pre. pre \<in> {[], [ne_sudo env, ''-n'']} \<and> full = pre @ cmd" by blast
  with b d(1) x show ?thesis by blast
qed

definition sample_env :: "string list exec_env" where
  "sample_env = \<lparr>ne_dry_run = False, ne_freebsd = True, ne_root = False, ne_sudo = ''/usr/local/bin/sudo'',
     ne_exec = (\<lambda>argv w. (argv, Finished 0 [] []))\<rparr>"

lemma privileged_executes_built_command_witness:
  "\<exists>vs cmd pre. build_command ''pf.table_add'' [(''table'', PStr ''soc_blocklist''), (''ip'', PStr ''10.0.0.9'')]
       = Inr (vs, cmd) \<and> pre \<in> {[], [''/usr/local/bin/sudo'', ''-n'']}
     \<and> fst (run_privileged sample_env ''pf.table_add'' ''system''
          [(''table'', PStr ''soc_blocklist''), (''ip'', PStr ''10.0.0.9'')] []) = pre @ cmd"
proof -
  let ?r = "run_privileged sample_env ''pf.table_add'' ''system''
     [(''table'', PStr ''soc_blocklist''), (''ip'', PStr ''10.0.0.9'')] []"
  have "fst ?r \<noteq> []"
    by (simp add: run_privileged_def block_command sample_env_def Let_def run_command_def maybe_sudo_def
        privileged_bins_def)
  from privileged_executes_built_command[OF this]
  show ?thesis by (auto simp: sample_env_def privileged_bins_def)
qed

section \<open>What the checks let through\<close>

text \<open>
  The directory check of a configuration path compares prefixes and keeps \<open>..\<close>, so any
  path of the host, written behind \<open>/etc/..\<close>, is loaded as a rule set.
\<close>

theorem config_path_escapes:
  assumes "list_all is_path_char p" "length p \<le> 247"
  shows "build_command ''pf.reload'' [(''config_path'', PStr (''/etc/../'' @ p))]
     = Inr ([(''config_path'', ''/etc/../'' @ p)], [''/sbin/pfctl'', ''-f'', ''/etc/../'' @ p])"
proof -
  have "list_all (\<lambda>c. \<not> is_space c) (''/etc/../'' @ p)"
    using assms(1) by (fastforce simp: list_all_iff is_path_char_def char_class_defs)
  then have "strip (''/etc/../'' @ p) = ''/etc/../'' @ p"
    by (intro strip_id stripped_no_space) (simp add: list_all_iff)
  moreover have "safe_path (''/etc/../'' @ p)"
    using assms by (simp add: safe_path_def is_path_char_def char_class_defs)
  ultimately have v: "val_config_path (PStr (''/etc/../'' @ p)) = Inr (''/etc/../'' @ p)"
    by (simp add: val_config_path_def Let_def known_config_dirs_def)
  have "map_of allowlist ''pf.reload'' = Some ([''/sbin/pfctl'', ''-f'', ''{config_path}''], [(''config_path'', val_config_path)])"
    by (simp add: allowlist_def)
  then show ?thesis
    using v replace_str_self[of "''{config_path}''"]
    by (simp add: build_command_def fill_token_simps braces_def Let_def replace_str_none)
qed

lemma config_path_escapes_witness:
  "build_command ''pf.reload'' [(''config_path'', PStr (''/etc/../'' @ ''tmp/x''))]
     = Inr ([(''config_path'', ''/etc/../tmp/x'')], [''/sbin/pfctl'', ''-f'', ''/etc/../tmp/x''])"
  using config_path_escapes[of "''tmp/x''"] by (simp add: is_path_char_def char_class_defs)

text \<open>
  A domain that ends in a line feed and a dot passes the domain check, so the argument
  handed to \<open>unbound-control\<close>, whose protocol is one command a line, contains a line feed.
\<close>

theorem domain_with_line_feed:
  assumes "domain_core d"
  shows "val_unbound_domain (PStr (d @ [CHR 0x0A, CHR ''.''])) = Inr (d @ [CHR 0x0A, CHR ''.''])"
proof -
  let ?v = "d @ [CHR 0x0A, CHR ''.'']"
  have low: "to_lower c = c" if "is_host_char c \<or> c \<in> set ''-_.''" for c
    using that by (auto simp: to_lower_def is_host_char_def char_class_defs)
  have d: "d \<noteq> []" "is_host_char (hd d)" "\<forall>c \<in> set d. is_host_char c \<or> c \<in> set ''-_.''"
    using assms by (auto simp: domain_core_def list_all_iff)
  have "stripped ?v"
    using d(1,2) by (auto simp: stripped_def is_host_char_def char_class_defs)
  moreover have "map to_lower d = d" using d(3) by (intro map_idI low) auto
  then have "lower ?v = ?v" by (simp add: lower_def to_lower_def char_class_defs)
  moreover have "rstrip_char (CHR ''.'') ?v = d @ [CHR 0x0A]" by (simp add: rstrip_char_def)
  ultimately show ?thesis using assms
    by (simp add: val_unbound_domain_def Let_def strip_id domain_pattern_def)
qed

lemma domain_with_line_feed_witness:
  "val_unbound_domain (PStr (''a.b'' @ [CHR 0x0A, CHR ''.''])) = Inr (''a.b'' @ [CHR 0x0A, CHR ''.''])"
  by (rule domain_with_line_feed) (simp add: domain_core_def is_host_char_def char_class_defs)

section \<open>A root process on FreeBSD\<close>

lemma run_privileged_root:
  assumes "ne_freebsd env" "ne_root env" "\<not> ne_dry_run env" "build_command action params = Inr (vs, cmd)"
  shows "fst (run_privileged env action user params w) = fst (ne_exec env cmd w)"
proof -
  obtain w' r where x: "ne_exec env cmd w = (w', r)" by fastforce
  then have "fst (run_command env 30 False cmd w) = w'"
    using assms(1-3) by (cases r) (simp_all add: run_command_def Let_def)
  then show ?thesis
    using assms x by (simp add: run_privileged_def Let_def maybe_sudo_def case_prod_beta)
qed

end
