(* ===== verification/CaptivePortal.thy ===== *)
theory CaptivePortal
  imports ContentPolicy PrivHelper
begin

text \<open>
  \<^verbatim>\<open>app/services/captive_portal.py\<close>: portal sessions with their PF tables and DNS
  exemptions, the rate limit, vouchers, the RADIUS client, and the two PF anchors.

  \<open>'w\<close> is the host the privileged commands act on.  \<open>apply_unbound\<close>, \<open>apply_dns_filter\<close>, the
  writing of a table file, the clock and the random sources are arguments; the code logs what
  they raise and goes on, so only their effect on the host is left of them.
\<close>

section \<open>Tables\<close>

record session_row =
  se_id :: nat
  se_mac :: string
  se_ip :: string
  se_user :: string
  se_super :: bool
  se_expires :: int
  se_out :: bool
  se_created :: int

record voucher_row =
  vo_id :: nat
  vo_code :: string
  vo_minutes :: int
  vo_kbps :: int
  vo_redeemed :: bool
  vo_disabled :: bool
  vo_redeemed_at :: "int option"

record attempt_row =
  at_id :: nat
  at_ip :: string
  at_user :: string
  at_type :: string
  at_success :: bool
  at_time :: int

record tracked_row =
  th_id :: nat
  th_iface :: string
  th_ip :: string
  th_via :: string
  th_whitelisted :: bool
  th_exempt :: bool
  th_source :: string

text \<open>\<open>cd_policy\<close> holds the tables the content policy reads beside these.\<close>

record cp_db =
  cd_sessions :: "session_row table"
  cd_vouchers :: "voucher_row table"
  cd_attempts :: "attempt_row table"
  cd_hosts :: "tracked_row table"
  cd_policy :: policy_db

text \<open>What the content policy sees of the portal's tables.\<close>

definition captive_row_of :: "session_row \<Rightarrow> captive_row" where
  "captive_row_of s =
     \<lparr>cr_ip_address = se_ip s, cr_is_superuser = se_super s, cr_logged_out = se_out s,
      cr_expires_at = se_expires s\<rparr>"

definition host_row_of :: "tracked_row \<Rightarrow> host_row" where
  "host_row_of h =
     \<lparr>hr_ip_address = th_ip h, hr_is_whitelisted = th_whitelisted h, hr_is_policy_exempt = th_exempt h\<rparr>"

definition policy_view :: "cp_db \<Rightarrow> policy_db" where
  "policy_view db =
     (cd_policy db)\<lparr>sessions := map captive_row_of (rows (cd_sessions db)),
        hosts := Some (map host_row_of (rows (cd_hosts db)))\<rparr>"

text \<open>The audit events of the portal: who, from where, enabled or not, and why.\<close>

record bypass_event =
  be_action :: string
  be_username :: string
  be_ip :: string
  be_enabled :: bool
  be_reason :: string
  be_severity :: string

record 'w cp_state =
  cs_db :: cp_db
  cs_world :: 'w
  cs_audit :: "audit_event list"
  cs_events :: "bypass_event list"

record 'w cp_env =
  cv_exec :: "'w exec_env"
  cv_unbound :: "cp_db \<Rightarrow> 'w \<Rightarrow> 'w"
  cv_dns_filter :: "cp_db \<Rightarrow> 'w \<Rightarrow> 'w"
  cv_write :: "string \<Rightarrow> string \<Rightarrow> 'w \<Rightarrow> 'w \<times> pyexn option"

section \<open>Rate limit\<close>

definition mk_attempt :: "string \<times> string \<times> string \<times> bool \<times> int \<Rightarrow> nat \<Rightarrow> attempt_row" where
  "mk_attempt d i =
     (case d of (ip, user, typ, success, now) \<Rightarrow>
       \<lparr>at_id = i, at_ip = ip, at_user = user, at_type = typ, at_success = success, at_time = now\<rparr>)"

definition record_captive_auth_attempt ::
  "string option \<Rightarrow> string option \<Rightarrow> string option \<Rightarrow> bool \<Rightarrow> int \<Rightarrow> cp_db \<Rightarrow> cp_db" where
  "record_captive_auth_attempt ip user typ success now db =
     db\<lparr>cd_attempts := fst (insert_row
          (mk_attempt (strip (or_str ip []), strip (or_str user []), strip (or_str typ []), success, now))
          (cd_attempts db))\<rparr>"

definition too_many_recent_attempts ::
  "string option \<Rightarrow> int \<Rightarrow> int \<Rightarrow> string \<Rightarrow> int \<Rightarrow> cp_db \<Rightarrow> bool" where
  "too_many_recent_attempts ip window max_attempts typ now db =
     (let a = strip (or_str ip []); cutoff = now - max 1 window in
      if a = [] then False
      else max_attempts \<le> int (length (filter
             (\<lambda>r. at_ip r = a \<and> \<not> at_success r \<and> (typ = [] \<or> at_type r = typ) \<and> cutoff \<le> at_time r)
             (rows (cd_attempts db)))))"

section \<open>Privileged calls and exemptions\<close>

definition priv :: "'w cp_env \<Rightarrow> string \<Rightarrow> (string \<times> pyval) list \<Rightarrow> 'w cp_state
    \<Rightarrow> 'w cp_state \<times> command_result res" where
  "priv env action params s =
     (case run_privileged (cv_exec env) action ''system'' params (cs_world s) of
        (w, events, r) \<Rightarrow> (s\<lparr>cs_world := w, cs_audit := cs_audit s @ events\<rparr>, r))"

definition table_call :: "'w cp_env \<Rightarrow> string \<Rightarrow> string \<Rightarrow> string \<Rightarrow> 'w cp_state
    \<Rightarrow> 'w cp_state \<times> command_result res" where
  "table_call env action t ip s = priv env action [(''table'', PStr t), (''ip'', PStr ip)] s"

definition emit :: "bypass_event \<Rightarrow> 'w cp_state \<Rightarrow> 'w cp_state" where
  "emit e s = s\<lparr>cs_events := cs_events s @ [e]\<rparr>"

definition mk_tracked :: "string \<Rightarrow> nat \<Rightarrow> tracked_row" where
  "mk_tracked ip i =
     \<lparr>th_id = i, th_iface = ''UNKNOWN'', th_ip = ip, th_via = ''captive_session'', th_whitelisted = False,
      th_exempt = True, th_source = ''captive_session''\<rparr>"

definition exempt_host :: "string \<Rightarrow> tracked_row table \<Rightarrow> tracked_row table" where
  "exempt_host ip t =
     (if filter (\<lambda>h. th_ip h = ip) (rows t) = [] then fst (insert_row (mk_tracked ip) t)
      else update_rows (\<lambda>h. th_ip h = ip)
             (\<lambda>h. h\<lparr>th_exempt := True, th_source := ''captive_session''\<rparr>) t)"

definition grant_captive_policy_exemption ::
  "'w cp_env \<Rightarrow> string \<Rightarrow> string \<Rightarrow> 'w cp_state \<Rightarrow> 'w cp_state" where
  "grant_captive_policy_exemption env ip0 user s =
     (let ip = strip ip0 in
      if ip = [] then s
      else
        (let db = (cs_db s)\<lparr>cd_hosts := exempt_host ip (cd_hosts (cs_db s))\<rparr>;
             s1 = s\<lparr>cs_db := db, cs_world := cv_unbound env db (cs_world s)\<rparr>
         in emit \<lparr>be_action = ''content_policy_session_bypass'', be_username = user, be_ip = ip,
                  be_enabled = True, be_reason = [], be_severity = ''high''\<rparr> s1))"

definition session_exempt :: "string \<Rightarrow> tracked_row \<Rightarrow> bool" where
  "session_exempt ip h \<longleftrightarrow> th_ip h = ip \<and> th_source h = ''captive_session''"

definition clear_captive_policy_exemption ::
  "'w cp_env \<Rightarrow> string \<Rightarrow> string \<Rightarrow> 'w cp_state \<Rightarrow> 'w cp_state" where
  "clear_captive_policy_exemption env ip0 reason s =
     (let ip = strip ip0 in
      if ip = [] \<or> filter (session_exempt ip) (rows (cd_hosts (cs_db s))) = [] then s
      else
        (let db = (cs_db s)\<lparr>cd_hosts := update_rows (session_exempt ip)
                    (\<lambda>h. h\<lparr>th_exempt := False, th_source := []\<rparr>) (cd_hosts (cs_db s))\<rparr>;
             s1 = s\<lparr>cs_db := db, cs_world := cv_unbound env db (cs_world s)\<rparr>
         in emit \<lparr>be_action = ''content_policy_session_bypass'', be_username = [], be_ip = ip,
                  be_enabled = False, be_reason = reason, be_severity = ''medium''\<rparr> s1))"

section \<open>Sessions\<close>

type_synonym session_draft = "string \<times> string \<times> string \<times> bool \<times> int \<times> int"

definition mk_session :: "session_draft \<Rightarrow> nat \<Rightarrow> session_row" where
  "mk_session d i =
     (case d of (mac, ip, user, super, expires, now) \<Rightarrow>
       \<lparr>se_id = i, se_mac = mac, se_ip = ip, se_user = user, se_super = super, se_expires = expires,
        se_out = False, se_created = now\<rparr>)"

text \<open>\<open>INSERT ... ON CONFLICT(mac_address) DO UPDATE\<close>; \<open>created_at\<close> keeps the first login.\<close>

definition upsert_session :: "session_draft \<Rightarrow> session_row table \<Rightarrow> session_row table" where
  "upsert_session d t =
     (case d of (mac, ip, user, super, expires, now) \<Rightarrow>
        (if filter (\<lambda>s. se_mac s = mac) (rows t) = [] then fst (insert_row (mk_session d) t)
         else update_rows (\<lambda>s. se_mac s = mac)
                (\<lambda>s. s\<lparr>se_ip := ip, se_user := user, se_super := super, se_expires := expires, se_out := False\<rparr>) t))"

definition drop_session :: "string \<Rightarrow> cp_db \<Rightarrow> cp_db" where
  "drop_session mac db = db\<lparr>cd_sessions := delete_rows (\<lambda>s. se_mac s = mac) (cd_sessions db)\<rparr>"

record cp_result =
  cp_ok :: bool
  cp_partial :: bool
  cp_message :: string

definition failure :: "string \<Rightarrow> cp_result" where
  "failure m = \<lparr>cp_ok = False, cp_partial = False, cp_message = m\<rparr>"

definition success :: "string \<Rightarrow> cp_result" where
  "success m = \<lparr>cp_ok = True, cp_partial = False, cp_message = m\<rparr>"

text \<open>\<open>(result.stderr or result.stdout or dflt).strip()\<close>.\<close>

definition result_message :: "command_result \<Rightarrow> string \<Rightarrow> string" where
  "result_message r dflt =
     strip (if cr_err r \<noteq> [] then cr_err r else if cr_out r \<noteq> [] then cr_out r else dflt)"


text \<open>The superuser's entry into \<open>admin_bypass_clients\<close>: whether the command succeeded.\<close>

definition add_admin_bypass :: "'w cp_env \<Rightarrow> string \<Rightarrow> string \<Rightarrow> 'w cp_state \<Rightarrow> 'w cp_state \<times> bool" where
  "add_admin_bypass env ip user s =
     (case table_call env ''pf.table_add'' ''admin_bypass_clients'' ip s of
        (s1, r) \<Rightarrow>
          (let ok = (case r of Inl e \<Rightarrow> False | Inr c \<Rightarrow> cr_code c = 0) in
           (emit \<lparr>be_action = ''admin_bypass_toggle'', be_username = user, be_ip = ip, be_enabled = ok,
                  be_reason = ''superuser_portal_login'', be_severity = ''high''\<rparr> s1, ok)))"

text \<open>\<open>auth_required\<close>: the content policy's mode is \<open>captive_auth_required\<close>.\<close>

definition auth_required :: "cp_db \<Rightarrow> bool" where
  "auth_required db \<longleftrightarrow> get_content_policy_mode (policy_view db) = CaptiveAuthRequired"

definition finish_login :: "'w cp_env \<Rightarrow> bool \<Rightarrow> string \<Rightarrow> string \<Rightarrow> 'w cp_state \<Rightarrow> 'w cp_state" where
  "finish_login env grant ip user s = (if grant then grant_captive_policy_exemption env ip user s else s)"

text \<open>The part of \<open>authenticate_session\<close> after the row is written.\<close>

definition admit ::
  "'w cp_env \<Rightarrow> string \<Rightarrow> string \<Rightarrow> string \<Rightarrow> bool \<Rightarrow> 'w cp_state \<Rightarrow> 'w cp_state \<times> cp_result" where
  "admit env mac ip user super s1 =
     (let who = (if user = [] then mac else user);
          grant = auth_required (cs_db s1);
          created = ''Session created for '' @ ip @ '' ('' @ who @ '').''
      in if \<not> ne_freebsd (cv_exec env) then (finish_login env grant ip user s1, success created)
         else
           (case table_call env ''pf.table_add'' ''authenticated_clients'' ip s1 of
              (s2, Inl e) \<Rightarrow> (s2\<lparr>cs_db := drop_session mac (cs_db s2)\<rparr>, failure (exn_str e))
            | (s2, Inr c) \<Rightarrow>
                (if cr_code c \<noteq> 0
                 then (s2\<lparr>cs_db := drop_session mac (cs_db s2)\<rparr>,
                       failure (result_message c ''pf.table_add failed''))
                 else if \<not> super then (finish_login env grant ip user s2, success created)
                 else
                   (case add_admin_bypass env ip user s2 of
                      (s3, ok) \<Rightarrow>
                        (finish_login env grant ip user s3,
                         if ok then success created
                         else \<lparr>cp_ok = True, cp_partial = True,
                           cp_message = ''Session active for '' @ ip @ '' ('' @ who @ ''), but admin '' @
                             ''bypass could not be applied '' @ em_dash @
                             '' content policy will still apply.''\<rparr>)))))"

text \<open>The key of a session; a client without a hardware address is known by its IP address.\<close>

definition norm_mac :: "string \<Rightarrow> string \<Rightarrow> string" where
  "norm_mac mac ip = (let m = lower (strip mac) in if m = [] then ''ip:'' @ ip else m)"

definition store_session :: "session_draft \<Rightarrow> 'w cp_state \<Rightarrow> 'w cp_state" where
  "store_session d s =
     s\<lparr>cs_db := (cs_db s)\<lparr>cd_sessions := upsert_session d (cd_sessions (cs_db s))\<rparr>\<rparr>"

definition authenticate_session ::
  "'w cp_env \<Rightarrow> int \<Rightarrow> string option \<Rightarrow> string option \<Rightarrow> string option \<Rightarrow> int \<Rightarrow> bool
     \<Rightarrow> 'w cp_state \<Rightarrow> 'w cp_state \<times> cp_result" where
  "authenticate_session env now mac0 ip0 user0 minutes super s =
     (let ip = strip (or_str ip0 []); user = strip (or_str user0 []);
          mac = norm_mac (or_str mac0 []) ip
      in if ip = [] then (s, failure ''IP address is required.'')
         else admit env mac ip user super
                (store_session (mac, ip, user, super, now + minutes * 60, now) s))"

definition remove_admin_bypass ::
  "'w cp_env \<Rightarrow> string \<Rightarrow> string \<Rightarrow> 'w cp_state \<Rightarrow> 'w cp_state" where
  "remove_admin_bypass env ip reason s =
     emit \<lparr>be_action = ''admin_bypass_toggle'', be_username = [], be_ip = ip, be_enabled = False,
           be_reason = reason, be_severity = ''medium''\<rparr>
       (fst (table_call env ''pf.table_delete'' ''admin_bypass_clients'' ip s))"

text \<open>Logout and expiry take the client out of the tables it was put into.\<close>

definition leave_tables :: "'w cp_env \<Rightarrow> string \<Rightarrow> bool \<Rightarrow> string \<Rightarrow> 'w cp_state \<Rightarrow> 'w cp_state" where
  "leave_tables env ip super reason s =
     (if ne_freebsd (cv_exec env)
      then (let s1 = fst (table_call env ''pf.table_delete'' ''authenticated_clients'' ip s) in
            if super then remove_admin_bypass env ip reason s1 else s1)
      else s)"

definition apply_dns_filter :: "'w cp_env \<Rightarrow> 'w cp_state \<Rightarrow> 'w cp_state" where
  "apply_dns_filter env s = s\<lparr>cs_world := cv_dns_filter env (cs_db s) (cs_world s)\<rparr>"

definition mark_logged_out :: "(session_row \<Rightarrow> bool) \<Rightarrow> cp_db \<Rightarrow> cp_db" where
  "mark_logged_out P db = db\<lparr>cd_sessions := update_rows P (\<lambda>s. s\<lparr>se_out := True\<rparr>) (cd_sessions db)\<rparr>"

definition logout_session :: "'w cp_env \<Rightarrow> nat \<Rightarrow> 'w cp_state \<Rightarrow> 'w cp_state \<times> cp_result" where
  "logout_session env i s =
     (case find_by se_id i (rows (cd_sessions (cs_db s))) of
        None \<Rightarrow> (s, failure ''Session not found.'')
      | Some row \<Rightarrow>
          (let s1 = s\<lparr>cs_db := mark_logged_out (\<lambda>r. se_id r = i) (cs_db s)\<rparr>;
               s2 = leave_tables env (se_ip row) (se_super row) ''session_logout'' s1;
               s3 = clear_captive_policy_exemption env (se_ip row) ''session_logout'' s2
           in (apply_dns_filter env s3, success (''Session '' @ str_nat i @ '' logged out.''))))"

definition session_active :: "int \<Rightarrow> session_row \<Rightarrow> bool" where
  "session_active now s \<longleftrightarrow> \<not> se_out s \<and> now < se_expires s"

definition get_active_sessions :: "int \<Rightarrow> cp_db \<Rightarrow> session_row list" where
  "get_active_sessions now db =
     rev (sort_key se_created (rev (filter (session_active now) (rows (cd_sessions db)))))"

definition session_expired :: "int \<Rightarrow> session_row \<Rightarrow> bool" where
  "session_expired now s \<longleftrightarrow> \<not> se_out s \<and> se_expires s \<le> now"

definition expire_one :: "'w cp_env \<Rightarrow> session_row \<Rightarrow> 'w cp_state \<Rightarrow> 'w cp_state" where
  "expire_one env row s =
     clear_captive_policy_exemption env (se_ip row) ''session_expired''
       (leave_tables env (se_ip row) (se_super row) ''session_expired'' s)"

definition expire_sessions :: "'w cp_env \<Rightarrow> int \<Rightarrow> 'w cp_state \<Rightarrow> 'w cp_state \<times> nat" where
  "expire_sessions env now s =
     (let expired = filter (session_expired now) (rows (cd_sessions (cs_db s))) in
      if expired = [] then (s, 0)
      else
        (let s1 = fold (expire_one env) expired s;
             s2 = s1\<lparr>cs_db := mark_logged_out (\<lambda>r. se_id r \<in> set (map se_id expired)) (cs_db s1)\<rparr>
         in (apply_dns_filter env s2, length expired)))"

section \<open>Reconciliation\<close>

text \<open>\<open>sorted({...})\<close> of addresses.\<close>

definition ip_set :: "session_row list \<Rightarrow> string list" where
  "ip_set ss = sort (remdups (filter (\<lambda>ip. ip \<noteq> []) (map se_ip ss)))"

definition table_file_text :: "string list \<Rightarrow> string" where
  "table_file_text ips = concat (map (\<lambda>ip. ip @ nl) ips)"

definition replace_table ::
  "'w cp_env \<Rightarrow> string \<Rightarrow> string \<Rightarrow> string list \<Rightarrow> 'w cp_state \<Rightarrow> 'w cp_state \<times> bool \<times> string" where
  "replace_table env t path ips s =
     (case cv_write env path (table_file_text ips) (cs_world s) of
        (w, Some e) \<Rightarrow> (s\<lparr>cs_world := w\<rparr>, False, exn_str e)
      | (w, None) \<Rightarrow>
          (case priv env ''pf.table_replace_file'' [(''table'', PStr t), (''file_path'', PStr path)]
                  (s\<lparr>cs_world := w\<rparr>) of
             (s1, Inl e) \<Rightarrow> (s1, False, exn_str e)
           | (s1, Inr c) \<Rightarrow>
               (if cr_code c \<noteq> 0 then (s1, False, result_message c []) else (s1, True, []))))"

definition auth_table_file :: string where
  "auth_table_file = ''/var/db/smartshield/captive_authenticated_ips.txt''"

definition admin_table_file :: string where
  "admin_table_file = ''/var/db/smartshield/captive_admin_bypass_ips.txt''"

record reconcile_result =
  rc_ok :: bool
  rc_message :: string
  rc_auth :: "nat option"
  rc_admin :: "nat option"

definition reconcile_captive_pf_tables :: "'w cp_env \<Rightarrow> int \<Rightarrow> 'w cp_state \<Rightarrow> 'w cp_state \<times> reconcile_result" where
  "reconcile_captive_pf_tables env now s =
     (let s0 = fst (expire_sessions env now s) in
      if \<not> ne_freebsd (cv_exec env)
      then (s0, \<lparr>rc_ok = True, rc_message = ''not freebsd'', rc_auth = None, rc_admin = None\<rparr>)
      else
        (let active = filter (session_active now) (rows (cd_sessions (cs_db s0)));
             auth_ips = ip_set active;
             admin_ips = ip_set (filter se_super active)
         in case replace_table env ''authenticated_clients'' auth_table_file auth_ips s0 of
              (s1, auth_ok, auth_msg) \<Rightarrow>
            (case replace_table env ''admin_bypass_clients'' admin_table_file admin_ips s1 of
              (s2, admin_ok, admin_msg) \<Rightarrow>
                (s2, \<lparr>rc_ok = (auth_ok \<and> admin_ok),
                      rc_message = (if auth_ok \<and> admin_ok then []
                        else ''reconcile failed: auth='' @ (if auth_msg = [] then ''ok'' else auth_msg) @
                             '' admin='' @ (if admin_msg = [] then ''ok'' else admin_msg)),
                      rc_auth = Some (length auth_ips), rc_admin = Some (length admin_ips)\<rparr>))))"

section \<open>Vouchers\<close>

definition mk_voucher :: "string \<times> int \<times> int \<Rightarrow> nat \<Rightarrow> voucher_row" where
  "mk_voucher d i =
     (case d of (c, minutes, kbps) \<Rightarrow>
       \<lparr>vo_id = i, vo_code = c, vo_minutes = minutes, vo_kbps = kbps, vo_redeemed = False,
        vo_disabled = False, vo_redeemed_at = None\<rparr>)"

text \<open>\<open>token\<close> is what \<open>secrets.token_urlsafe(8)\<close> returns; the column \<open>code\<close> is unique.\<close>

definition generate_voucher :: "string \<Rightarrow> int \<Rightarrow> int \<Rightarrow> cp_db \<Rightarrow> cp_db \<times> string res" where
  "generate_voucher token minutes kbps db =
     (let c = take 8 (upper token) in
      if \<exists>v \<in> set (rows (cd_vouchers db)). vo_code v = c
      then (db, Inl (IntegrityError ''UNIQUE constraint failed: captive_vouchers.code''))
      else (db\<lparr>cd_vouchers := fst (insert_row (mk_voucher (c, minutes, kbps)) (cd_vouchers db))\<rparr>, Inr c))"

definition disable_voucher :: "nat \<Rightarrow> bool \<Rightarrow> cp_db \<Rightarrow> cp_db \<times> cp_result" where
  "disable_voucher i disabled db =
     (if find_by vo_id i (rows (cd_vouchers db)) = None then (db, failure ''Voucher not found.'')
      else (db\<lparr>cd_vouchers := update_rows (\<lambda>v. vo_id v = i) (\<lambda>v. v\<lparr>vo_disabled := disabled\<rparr>) (cd_vouchers db)\<rparr>,
            success []))"

definition set_redeemed :: "nat \<Rightarrow> bool \<Rightarrow> int option \<Rightarrow> cp_db \<Rightarrow> cp_db" where
  "set_redeemed i flag stamp db =
     db\<lparr>cd_vouchers := update_rows (\<lambda>v. vo_id v = i)
          (\<lambda>v. v\<lparr>vo_redeemed := flag, vo_redeemed_at := stamp\<rparr>) (cd_vouchers db)\<rparr>"

definition redeem_voucher ::
  "'w cp_env \<Rightarrow> int \<Rightarrow> string option \<Rightarrow> string option \<Rightarrow> string option \<Rightarrow> 'w cp_state
     \<Rightarrow> 'w cp_state \<times> cp_result" where
  "redeem_voucher env now code0 mac ip s =
     (let c = upper (strip (or_str code0 [])); vs = rows (cd_vouchers (cs_db s)) in
      case fetchone (filter (\<lambda>v. vo_code v = c) vs) of
        None \<Rightarrow> (s, failure ''Voucher not found or already used.'')
      | Some candidate \<Rightarrow>
          (if vo_disabled candidate then (s, failure ''Voucher is disabled.'')
           else case fetchone (filter (\<lambda>v. vo_code v = c \<and> \<not> vo_redeemed v \<and> \<not> vo_disabled v) vs) of
             None \<Rightarrow> (s, failure ''Voucher not found or already used.'')
           | Some v \<Rightarrow>
               (case authenticate_session env now mac ip (Some (''voucher:'' @ c)) (vo_minutes v) False
                       (s\<lparr>cs_db := set_redeemed (vo_id v) True (Some now) (cs_db s)\<rparr>) of
                  (s1, r) \<Rightarrow>
                    (if \<not> cp_ok r
                     then (s1\<lparr>cs_db := set_redeemed (vo_id v) False None (cs_db s1)\<rparr>, r)
                     else (s1, r)))))"


section \<open>The host as the portal needs it\<close>

text \<open>
  The documented effect of pfctl's table commands on the addresses of the tables; \<open>files\<close> gives
  the text of a file.
\<close>

definition table_of_text :: "string \<Rightarrow> string set" where
  "table_of_text t = set (filter (\<lambda>l. l \<noteq> []) (splitlines t))"

fun table_effect ::
  "(string \<Rightarrow> string) \<Rightarrow> string list \<Rightarrow> (string \<Rightarrow> string set) \<Rightarrow> (string \<Rightarrow> string set)" where
  "table_effect files [p, f, t, g, op, x] m =
     (if p = ''/sbin/pfctl'' \<and> f = ''-t'' \<and> g = ''-T''
      then (if op = ''add'' then m(t := insert x (m t))
            else if op = ''delete'' then m(t := m t - {x}) else m)
      else m)"
| "table_effect files [p, f, t, g, op, h, path] m =
     (if p = ''/sbin/pfctl'' \<and> f = ''-t'' \<and> g = ''-T'' \<and> op = ''replace'' \<and> h = ''-f''
      then m(t := table_of_text (files path)) else m)"
| "table_effect files argv m = m"

text \<open>
  A FreeBSD host in live mode whose service runs as root: a command that finishes has its
  documented effect on the tables when its code is 0 and none otherwise, and the other actions
  leave the tables alone.
\<close>

definition portal_host ::
  "'w cp_env \<Rightarrow> ('w \<Rightarrow> string \<Rightarrow> string set) \<Rightarrow> ('w \<Rightarrow> string \<Rightarrow> string) \<Rightarrow> bool" where
  "portal_host env mem files \<longleftrightarrow>
     ne_freebsd (cv_exec env) \<and> ne_root (cv_exec env) \<and> \<not> ne_dry_run (cv_exec env)
     \<and> (\<forall>argv w rc out err. snd (ne_exec (cv_exec env) argv w) = Finished rc out err \<longrightarrow>
          mem (fst (ne_exec (cv_exec env) argv w))
            = (if rc = 0 then table_effect (files w) argv (mem w) else mem w))
     \<and> (\<forall>db w. mem (cv_unbound env db w) = mem w) \<and> (\<forall>db w. mem (cv_dns_filter env db w) = mem w)
     \<and> (\<forall>path text w. snd (cv_write env path text w) = None \<longrightarrow>
          mem (fst (cv_write env path text w)) = mem w \<and> files (fst (cv_write env path text w)) path = text)"

definition pfctl_succeeds :: "'w cp_env \<Rightarrow> bool" where
  "pfctl_succeeds env \<longleftrightarrow> (\<forall>argv w. \<exists>out err. snd (ne_exec (cv_exec env) argv w) = Finished 0 out err)"

definition valid_ip :: "string \<Rightarrow> bool" where
  "valid_ip ip \<longleftrightarrow> val_ip (PStr ip) = Inr ip"

lemma valid_ip_strip [simp]: "valid_ip ip \<Longrightarrow> strip ip = ip"
  by (auto simp: valid_ip_def val_ip_def Let_def split: if_splits)

lemma valid_ip_nonempty: "valid_ip ip \<Longrightarrow> ip \<noteq> []"
  using val_ip_safe by (auto simp: valid_ip_def safe_validator_def safe_head_def)

text \<open>The argument vectors of the table commands.\<close>

definition portal_table :: "string \<Rightarrow> bool" where
  "portal_table t \<longleftrightarrow> t = ''authenticated_clients'' \<or> t = ''admin_bypass_clients''"

lemmas char_eval = strip_id stripped_no_space is_space_def code_def is_digit_def is_alnum_def is_alpha_def
  is_upper_def is_lower_def

lemma portal_table_val: "portal_table t \<Longrightarrow> val_table_name (PStr t) = Inr t"
  unfolding portal_table_def
  by (elim disjE; simp add: val_table_name_def Let_def safe_name_def is_name_char_def allowed_pf_tables_def
      char_eval)

lemma fill_table:
  assumes "portal_table t"
  shows "fill_token [(''table'', t), (k, v)] ''{table}'' = t"
proof -
  have "CHR ''{'' \<notin> set t" using assms by (auto simp: portal_table_def)
  then show ?thesis
    using replace_str_self[of "''{table}''" t] by (simp add: fill_token_simps braces_def replace_str_none)
qed

lemma fill_second:
  assumes "plain_key k" "k \<noteq> ''table''"
  shows "fill_token [(''table'', t), (k, v)] (braces k) = v"
  using assms replace_braces[of "''table''" k t] replace_braces[of k k v]
  by (simp add: fill_token_simps plain_key_def)

lemma table_commands:
  assumes "portal_table t" "valid_ip ip"
  shows "build_command ''pf.table_add'' [(''table'', PStr t), (''ip'', PStr ip)]
       = Inr ([(''table'', t), (''ip'', ip)], [''/sbin/pfctl'', ''-t'', t, ''-T'', ''add'', ip])"
    and "build_command ''pf.table_delete'' [(''table'', PStr t), (''ip'', PStr ip)]
       = Inr ([(''table'', t), (''ip'', ip)], [''/sbin/pfctl'', ''-t'', t, ''-T'', ''delete'', ip])"
proof -
  have entries:
    "map_of allowlist ''pf.table_add'' = Some
       ([''/sbin/pfctl'', ''-t'', ''{table}'', ''-T'', ''add'', ''{ip}''], [(''table'', val_table_name), (''ip'', val_ip)])"
    "map_of allowlist ''pf.table_delete'' = Some
       ([''/sbin/pfctl'', ''-t'', ''{table}'', ''-T'', ''delete'', ''{ip}''], [(''table'', val_table_name), (''ip'', val_ip)])"
    by (simp_all add: allowlist_def)
  have b: "braces ''ip'' = ''{ip}''" by (simp add: braces_def)
  note fill = fill_table[OF assms(1)] fill_second[of "''ip''", unfolded b plain_key_def, simplified] fill_literal
  show "build_command ''pf.table_add'' [(''table'', PStr t), (''ip'', PStr ip)]
       = Inr ([(''table'', t), (''ip'', ip)], [''/sbin/pfctl'', ''-t'', t, ''-T'', ''add'', ip])"
    "build_command ''pf.table_delete'' [(''table'', PStr t), (''ip'', PStr ip)]
       = Inr ([(''table'', t), (''ip'', ip)], [''/sbin/pfctl'', ''-t'', t, ''-T'', ''delete'', ip])"
    using assms by (simp_all add: build_command_def entries portal_table_val valid_ip_def fill Let_def)
qed

definition table_files :: "string list" where
  "table_files = [auth_table_file, admin_table_file]"

lemma replace_command:
  assumes "portal_table t" "path \<in> set table_files"
  shows "build_command ''pf.table_replace_file'' [(''table'', PStr t), (''file_path'', PStr path)]
       = Inr ([(''table'', t), (''file_path'', path)],
              [''/sbin/pfctl'', ''-t'', t, ''-T'', ''replace'', ''-f'', path])"
proof -
  have e: "map_of allowlist ''pf.table_replace_file'' = Some
     ([''/sbin/pfctl'', ''-t'', ''{table}'', ''-T'', ''replace'', ''-f'', ''{file_path}''],
      [(''table'', val_table_name), (''file_path'', val_config_path)])"
    by (simp add: allowlist_def)
  have v: "val_config_path (PStr path) = Inr path"
    using assms(2)[unfolded table_files_def, simplified]
    by (elim disjE; simp add: auth_table_file_def admin_table_file_def val_config_path_def Let_def
        safe_path_def is_path_char_def known_config_dirs_def char_eval)
  have b: "braces ''file_path'' = ''{file_path}''" by (simp add: braces_def)
  note fill = fill_table[OF assms(1)] fill_second[of "''file_path''", unfolded b plain_key_def, simplified] fill_literal
  show ?thesis
    using assms(1) by (simp add: build_command_def e portal_table_val v fill Let_def)
qed


lemma priv_keeps [simp]:
  "cs_db (fst (priv env action params s)) = cs_db s"
  "cs_events (fst (priv env action params s)) = cs_events s"
  by (simp_all add: priv_def split: prod.split)

lemma table_call_keeps [simp]:
  "cs_db (fst (table_call env action t ip s)) = cs_db s"
  by (simp add: table_call_def)

lemma emit_keeps [simp]: "cs_db (emit e s) = cs_db s" "cs_world (emit e s) = cs_world s"
  by (simp_all add: emit_def)

lemma priv_runs:
  assumes "portal_host env mem files" "build_command action params = Inr (vs, cmd)"
  shows "cs_world (fst (priv env action params s)) = fst (ne_exec (cv_exec env) cmd (cs_world s))"
    and "snd (ne_exec (cv_exec env) cmd (cs_world s)) = Finished rc out err \<Longrightarrow>
      snd (priv env action params s) = Inr \<lparr>cr_command = cmd, cr_code = rc, cr_out = out, cr_err = err\<rparr>"
    and "snd (priv env action params s) = Inr c \<Longrightarrow>
      \<exists>out err. snd (ne_exec (cv_exec env) cmd (cs_world s)) = Finished (cr_code c) out err"
proof -
  have e: "ne_freebsd (cv_exec env)" "ne_root (cv_exec env)" "\<not> ne_dry_run (cv_exec env)"
    using assms(1) by (simp_all add: portal_host_def)
  obtain w r where x: "ne_exec (cv_exec env) cmd (cs_world s) = (w, r)" by fastforce
  have p: "priv env action params s =
      (case run_command (cv_exec env) 30 False cmd (cs_world s) of
         (w', events, r) \<Rightarrow> (s\<lparr>cs_world := w', cs_audit := cs_audit s @ Privileged action ''system'' vs cmd # events\<rparr>, r))"
    by (simp add: priv_def run_privileged_def assms(2) Let_def maybe_sudo_def e split: prod.split)
  have c: "run_command (cv_exec env) 30 False cmd (cs_world s) = (w, snd (run_command (cv_exec env) 30 False cmd (cs_world s)))"
    by (cases r) (simp_all add: run_command_def e x Let_def)
  show "cs_world (fst (priv env action params s)) = fst (ne_exec (cv_exec env) cmd (cs_world s))"
    unfolding p by (subst c) (simp add: x split: prod.split)
  show "snd (ne_exec (cv_exec env) cmd (cs_world s)) = Finished rc out err \<Longrightarrow>
      snd (priv env action params s) = Inr \<lparr>cr_command = cmd, cr_code = rc, cr_out = out, cr_err = err\<rparr>"
    unfolding p by (simp add: run_command_def e x Let_def)
  show "snd (priv env action params s) = Inr c \<Longrightarrow>
      \<exists>out err. snd (ne_exec (cv_exec env) cmd (cs_world s)) = Finished (cr_code c) out err"
    unfolding p by (cases r) (auto simp: run_command_def e x Let_def)
qed

lemma portal_host_effect:
  assumes "portal_host env mem files" "snd (ne_exec (cv_exec env) argv w) = Finished rc out err"
  shows "mem (fst (ne_exec (cv_exec env) argv w)) = (if rc = 0 then table_effect (files w) argv (mem w) else mem w)"
  using assms unfolding portal_host_def by blast

lemma table_calls:
  assumes "portal_host env mem files" "pfctl_succeeds env" "portal_table t" "valid_ip ip"
  shows "mem (cs_world (fst (table_call env ''pf.table_add'' t ip s)))
       = (mem (cs_world s))(t := insert ip (mem (cs_world s) t))"
    and "\<exists>c. snd (table_call env ''pf.table_add'' t ip s) = Inr c \<and> cr_code c = 0"
    and "mem (cs_world (fst (table_call env ''pf.table_delete'' t ip s)))
       = (mem (cs_world s))(t := mem (cs_world s) t - {ip})"
proof -
  note add = table_commands(1)[OF assms(3,4)] and del = table_commands(2)[OF assms(3,4)]
  let ?add = "[''/sbin/pfctl'', ''-t'', t, ''-T'', ''add'', ip]"
  let ?del = "[''/sbin/pfctl'', ''-t'', t, ''-T'', ''delete'', ip]"
  obtain o1 e1 where a: "snd (ne_exec (cv_exec env) ?add (cs_world s)) = Finished 0 o1 e1"
    using assms(2) unfolding pfctl_succeeds_def by blast
  obtain o2 e2 where d: "snd (ne_exec (cv_exec env) ?del (cs_world s)) = Finished 0 o2 e2"
    using assms(2) unfolding pfctl_succeeds_def by blast
  show "mem (cs_world (fst (table_call env ''pf.table_add'' t ip s)))
       = (mem (cs_world s))(t := insert ip (mem (cs_world s) t))"
    using portal_host_effect[OF assms(1) a] by (simp add: table_call_def priv_runs(1)[OF assms(1) add])
  show "\<exists>c. snd (table_call env ''pf.table_add'' t ip s) = Inr c \<and> cr_code c = 0"
    using priv_runs(2)[OF assms(1) add a] by (simp add: table_call_def)
  show "mem (cs_world (fst (table_call env ''pf.table_delete'' t ip s)))
       = (mem (cs_world s))(t := mem (cs_world s) t - {ip})"
    using portal_host_effect[OF assms(1) d] by (simp add: table_call_def priv_runs(1)[OF assms(1) del])
qed

lemma exemption_world:
  assumes "portal_host env mem files"
  shows "mem (cs_world (grant_captive_policy_exemption env ip user s)) = mem (cs_world s)"
    and "mem (cs_world (clear_captive_policy_exemption env ip reason s)) = mem (cs_world s)"
    and "mem (cs_world (finish_login env grant ip user s)) = mem (cs_world s)"
    and "mem (cs_world (apply_dns_filter env s)) = mem (cs_world s)"
  using assms
  by (simp_all add: grant_captive_policy_exemption_def clear_captive_policy_exemption_def finish_login_def
      apply_dns_filter_def portal_host_def Let_def)

lemma exemption_sessions [simp]:
  "cd_sessions (cs_db (grant_captive_policy_exemption env ip user s)) = cd_sessions (cs_db s)"
  "cd_sessions (cs_db (clear_captive_policy_exemption env ip reason s)) = cd_sessions (cs_db s)"
  "cd_sessions (cs_db (finish_login env grant ip user s)) = cd_sessions (cs_db s)"
  "cs_db (apply_dns_filter env s) = cs_db s"
  "cs_db (leave_tables env ip super reason s) = cs_db s"
  by (simp_all add: grant_captive_policy_exemption_def clear_captive_policy_exemption_def finish_login_def
      apply_dns_filter_def leave_tables_def remove_admin_bypass_def Let_def)

lemma leave_tables_world:
  assumes "portal_host env mem files" "pfctl_succeeds env" "valid_ip ip"
  shows "mem (cs_world (leave_tables env ip super reason s)) =
     (let m = (mem (cs_world s))(''authenticated_clients'' := mem (cs_world s) ''authenticated_clients'' - {ip})
      in if super then m(''admin_bypass_clients'' := m ''admin_bypass_clients'' - {ip}) else m)"
proof -
  have "ne_freebsd (cv_exec env)" using assms(1) by (simp add: portal_host_def)
  then show ?thesis
    using table_calls(3)[OF assms(1,2) _ assms(3)]
    by (simp add: leave_tables_def remove_admin_bypass_def Let_def portal_table_def)
qed

interpretation session_table: pk_table se_id mk_session
  by unfold_locales (simp add: mk_session_def split: prod.split)

interpretation voucher_table: pk_table vo_id mk_voucher
  by unfold_locales (simp add: mk_voucher_def split: prod.split)

interpretation attempt_table: pk_table at_id mk_attempt
  by unfold_locales (simp add: mk_attempt_def split: prod.split)

interpretation tracked_table: pk_table th_id mk_tracked
  by unfold_locales (simp add: mk_tracked_def)


section \<open>Logging in and out\<close>

text \<open>A login on a host whose commands succeed.\<close>

lemma admit_db:
  "cd_hosts (cs_db (fst (admit env mac ip user super s)))
     = (if cp_ok (snd (admit env mac ip user super s)) \<and> auth_required (cs_db s) \<and> strip ip \<noteq> []
        then exempt_host (strip ip) (cd_hosts (cs_db s)) else cd_hosts (cs_db s))"
  "cd_vouchers (cs_db (fst (admit env mac ip user super s))) = cd_vouchers (cs_db s)"
  by (simp_all add: admit_def Let_def finish_login_def grant_captive_policy_exemption_def failure_def success_def
      drop_session_def add_admin_bypass_def case_prod_unfold split: sum.split)

lemma admit_effect:
  assumes "portal_host env mem files" "pfctl_succeeds env" "valid_ip ip"
  shows "cd_sessions (cs_db (fst (admit env mac ip user super s))) = cd_sessions (cs_db s)"
    and "mem (cs_world (fst (admit env mac ip user super s)))
       = (let m = (mem (cs_world s))(''authenticated_clients'' := insert ip (mem (cs_world s) ''authenticated_clients''))
          in if super then m(''admin_bypass_clients'' := insert ip (m ''admin_bypass_clients'')) else m)"
proof -
  have fb: "ne_freebsd (cv_exec env)" using assms(1) by (simp add: portal_host_def)
  have t: "portal_table ''authenticated_clients''" "portal_table ''admin_bypass_clients''"
    by (simp_all add: portal_table_def)
  note add = table_calls[OF assms(1,2) _ assms(3)]
  obtain s2 c where s2: "table_call env ''pf.table_add'' ''authenticated_clients'' ip s = (s2, Inr c)" "cr_code c = 0"
    using add(2)[OF t(1), of s] by (cases "table_call env ''pf.table_add'' ''authenticated_clients'' ip s") auto
  obtain s3 d where s3: "table_call env ''pf.table_add'' ''admin_bypass_clients'' ip s2 = (s3, Inr d)" "cr_code d = 0"
    using add(2)[OF t(2), of s2] by (cases "table_call env ''pf.table_add'' ''admin_bypass_clients'' ip s2") auto
  have db: "cs_db s2 = cs_db s" "cs_db s3 = cs_db s2"
    using table_call_keeps[of env "''pf.table_add''" "''authenticated_clients''" ip s]
      table_call_keeps[of env "''pf.table_add''" "''admin_bypass_clients''" ip s2] s2 s3 by simp_all
  have a: "fst (admit env mac ip user super s) = finish_login env (auth_required (cs_db s)) ip user
        (if super then fst (add_admin_bypass env ip user s2) else s2)"
    using s2 fb by (simp add: admit_def Let_def case_prod_unfold)
  show "cd_sessions (cs_db (fst (admit env mac ip user super s))) = cd_sessions (cs_db s)"
    unfolding a by (simp add: add_admin_bypass_def s3 db Let_def)
  show "mem (cs_world (fst (admit env mac ip user super s)))
       = (let m = (mem (cs_world s))(''authenticated_clients'' := insert ip (mem (cs_world s) ''authenticated_clients''))
          in if super then m(''admin_bypass_clients'' := insert ip (m ''admin_bypass_clients'')) else m)"
    unfolding a using add(1)[OF t(1), of s] add(1)[OF t(2), of s2]
    by (simp add: add_admin_bypass_def s3 s2(1) exemption_world[OF assms(1)] Let_def)
qed

lemma login_is_admit:
  "valid_ip ip \<Longrightarrow> authenticate_session env now (Some mac) (Some ip) (Some user) minutes super s =
     admit env (norm_mac mac ip) ip (strip user) super
       (store_session (norm_mac mac ip, ip, strip user, super, now + minutes * 60, now) s)"
  using valid_ip_nonempty[of ip] by (simp add: authenticate_session_def Let_def)

lemma login_effect:
  assumes "portal_host env mem files" "pfctl_succeeds env" "valid_ip ip"
  shows "cd_sessions (cs_db (fst (authenticate_session env now (Some mac) (Some ip) (Some user) minutes super s)))
       = upsert_session (norm_mac mac ip, ip, strip user, super, now + minutes * 60, now) (cd_sessions (cs_db s))"
    and "mem (cs_world (fst (authenticate_session env now (Some mac) (Some ip) (Some user) minutes super s)))
       = (let m = (mem (cs_world s))(''authenticated_clients'' := insert ip (mem (cs_world s) ''authenticated_clients''))
          in if super then m(''admin_bypass_clients'' := insert ip (m ''admin_bypass_clients'')) else m)"
  unfolding login_is_admit[OF assms(3)] by (simp_all add: admit_effect[OF assms] store_session_def)

lemma logout_effect:
  assumes "portal_host env mem files" "pfctl_succeeds env" "valid_ip (se_ip row)"
    and "find_by se_id i (rows (cd_sessions (cs_db s))) = Some row"
  shows "cd_sessions (cs_db (fst (logout_session env i s)))
       = update_rows (\<lambda>r. se_id r = i) (\<lambda>r. r\<lparr>se_out := True\<rparr>) (cd_sessions (cs_db s))"
    and "mem (cs_world (fst (logout_session env i s))) =
     (let m = (mem (cs_world s))(''authenticated_clients'' := mem (cs_world s) ''authenticated_clients'' - {se_ip row})
      in if se_super row then m(''admin_bypass_clients'' := m ''admin_bypass_clients'' - {se_ip row}) else m)"
  using leave_tables_world[OF assms(1-3)] exemption_world[OF assms(1)]
  by (simp_all add: logout_session_def assms(4) Let_def mark_logged_out_def)


lemma rows_upsert:
  "rows (upsert_session (mac, ip, user, super, expires, now) t) =
     (if filter (\<lambda>s. se_mac s = mac) (rows t) = []
      then rows t @ [mk_session (mac, ip, user, super, expires, now) (Suc (seq t))]
      else update_where (\<lambda>s. se_mac s = mac)
        (\<lambda>s. s\<lparr>se_ip := ip, se_user := user, se_super := super, se_expires := expires, se_out := False\<rparr>) (rows t))"
  unfolding upsert_session_def prod.case by (simp only: if_distrib[of rows] table_simps)

lemma in_upsert:
  assumes "r \<in> set (rows (upsert_session (mac, ip, user, super, expires, now) t))" "se_mac r = mac"
  shows "se_ip r = ip \<and> se_super r = super \<and> \<not> se_out r"
proof (cases "filter (\<lambda>s. se_mac s = mac) (rows t) = []")
  case True
  with assms(2) have "r \<notin> set (rows t)" unfolding filter_empty_conv by blast
  moreover have "r \<in> set (rows t) \<or> r = mk_session (mac, ip, user, super, expires, now) (Suc (seq t))"
    using assms(1) unfolding rows_upsert if_P[OF True] by auto
  ultimately show ?thesis by (simp add: mk_session_def)
next
  case False
  have "r \<in> set (update_where (\<lambda>s. se_mac s = mac)
      (\<lambda>s. s\<lparr>se_ip := ip, se_user := user, se_super := super, se_expires := expires, se_out := False\<rparr>) (rows t))"
    using assms(1) unfolding rows_upsert if_not_P[OF False] .
  then show ?thesis by (rule update_whereE) (use assms(2) in simp_all)
qed

lemma cleared_not_exempt:
  "x \<in> set (update_where (session_exempt ip) (\<lambda>h. h\<lparr>th_exempt := False, th_source := []\<rparr>) hs)
     \<Longrightarrow> \<not> session_exempt ip x"
  by (erule update_whereE) (simp_all add: session_exempt_def)

lemma pk_upsert [inv_intros]:
  "session_table.pk_ok t \<Longrightarrow> session_table.pk_ok (upsert_session d t)"
  by (auto simp: upsert_session_def split: prod.split intro!: session_table.pk_ok_insert session_table.pk_ok_update)

text \<open>A host that does what pfctl documents, and always succeeds.\<close>

type_synonym sample_host = "(string \<Rightarrow> string set) \<times> (string \<Rightarrow> string)"

definition plain_portal :: "sample_host cp_env" where
  "plain_portal =
     \<lparr>cv_exec = \<lparr>ne_dry_run = False, ne_freebsd = True, ne_root = True, ne_sudo = [],
        ne_exec = (\<lambda>argv w. ((table_effect (snd w) argv (fst w), snd w), Finished 0 [] []))\<rparr>,
      cv_unbound = (\<lambda>db w. w), cv_dns_filter = (\<lambda>db w. w),
      cv_write = (\<lambda>path text w. ((fst w, (snd w)(path := text)), None))\<rparr>"

lemma plain_portal_host: "portal_host plain_portal fst snd" "pfctl_succeeds plain_portal"
  by (simp_all add: portal_host_def pfctl_succeeds_def plain_portal_def)

definition empty_portal_db :: cp_db where
  "empty_portal_db =
     \<lparr>cd_sessions = empty_table, cd_vouchers = empty_table, cd_attempts = empty_table, cd_hosts = empty_table,
      cd_policy = \<lparr>dns_rules = None, web_rules = None, app_rules = None, service_state = None,
        sessions = [], hosts = None, lan_ipv4 = None\<rparr>\<rparr>"

definition empty_portal :: "sample_host cp_state" where
  "empty_portal = \<lparr>cs_db = empty_portal_db, cs_world = (\<lambda>t. {}, \<lambda>p. []), cs_audit = [], cs_events = []\<rparr>"

lemma valid_sample_ip: "valid_ip ''10.0.0.9''"
  by (simp add: valid_ip_def val_samples)

text \<open>
  When a client who logged in as a superuser logs in again from the same device as an
  ordinary user, and that session is logged out, the client is out of
  \<open>authenticated_clients\<close> and its session is closed, but its address stays in
  \<open>admin_bypass_clients\<close>: it keeps the bypass of the portal and of the content policy.
\<close>

theorem bypass_survives_relogin:
  assumes "portal_host env mem files" "pfctl_succeeds env" "valid_ip ip"
    and "session_table.pk_ok (cd_sessions (cs_db s))"
    and "s1 = fst (authenticate_session env t1 (Some mac) (Some ip) (Some admin) m1 True s)"
    and "s2 = fst (authenticate_session env t2 (Some mac) (Some ip) (Some user) m2 False s1)"
    and "row \<in> set (rows (cd_sessions (cs_db s2)))" "se_mac row = norm_mac mac ip"
    and "s3 = fst (logout_session env (se_id row) s2)"
  shows "ip \<in> mem (cs_world s3) ''admin_bypass_clients''
     \<and> ip \<notin> mem (cs_world s3) ''authenticated_clients''
     \<and> (\<forall>r \<in> set (rows (cd_sessions (cs_db s3))). se_mac r = norm_mac mac ip \<and> se_id r = se_id row \<longrightarrow> se_out r)"
proof -
  note l1 = login_effect[OF assms(1-3), of t1 mac admin m1 True s, folded assms(5)]
  note l2 = login_effect[OF assms(1-3), of t2 mac user m2 False s1, folded assms(6)]
  have row: "se_ip row = ip" "\<not> se_super row"
    using in_upsert[of row "norm_mac mac ip" ip "strip user" False _ t2] assms(7,8) by (simp_all add: l2(1))
  have "session_table.pk_ok (cd_sessions (cs_db s2))"
    unfolding l2(1) l1(1) by (intro inv_intros assms(4))
  then have f: "find_by se_id (se_id row) (rows (cd_sessions (cs_db s2))) = Some row"
    using assms(7) by (simp add: session_table.find_iff)
  note out = logout_effect[OF assms(1,2) _ f, folded assms(9)]
  have "valid_ip (se_ip row)" using assms(3) row by simp
  from out[OF this] show ?thesis using row
    by (auto simp: l1(2) l2(2) Let_def in_set_update_where)
qed

lemma upsert_mem:
  "\<exists>r. r \<in> set (rows (upsert_session (mac, ip, user, super, expires, now) t)) \<and> se_mac r = mac"
proof (cases "filter (\<lambda>s. se_mac s = mac) (rows t) = []")
  case True
  show ?thesis unfolding rows_upsert if_P[OF True]
    by (rule exI[of _ "mk_session (mac, ip, user, super, expires, now) (Suc (seq t))"]) (simp add: mk_session_def)
next
  case False
  then obtain x where x: "x \<in> set (rows t)" "se_mac x = mac" unfolding filter_empty_conv by blast
  show ?thesis unfolding rows_upsert if_not_P[OF False] in_set_update_where
    by (rule exI[of _ "x\<lparr>se_ip := ip, se_user := user, se_super := super, se_expires := expires, se_out := False\<rparr>"])
      (use x in \<open>force\<close>)
qed

lemma empty_portal_ok: "session_table.pk_ok (cd_sessions (cs_db empty_portal))"
  by (simp add: empty_portal_def empty_portal_db_def session_table.pk_ok_empty)

lemma bypass_survives_relogin_witness:
  "\<exists>row :: session_row. ''10.0.0.9'' \<in> fst (cs_world (fst (logout_session plain_portal (se_id row)
       (fst (authenticate_session plain_portal 20 (Some ''aa'') (Some ''10.0.0.9'') (Some ''guest'') 60 False
         (fst (authenticate_session plain_portal 10 (Some ''aa'') (Some ''10.0.0.9'') (Some ''root'') 60 True
           empty_portal))))))) ''admin_bypass_clients''"
proof -
  let ?s1 = "fst (authenticate_session plain_portal 10 (Some ''aa'') (Some ''10.0.0.9'') (Some ''root'') 60 True empty_portal)"
  let ?s2 = "fst (authenticate_session plain_portal 20 (Some ''aa'') (Some ''10.0.0.9'') (Some ''guest'') 60 False ?s1)"
  obtain row where "row \<in> set (rows (cd_sessions (cs_db ?s2)))" "se_mac row = norm_mac ''aa'' ''10.0.0.9''"
    using upsert_mem unfolding login_effect(1)[OF plain_portal_host valid_sample_ip] by blast
  from bypass_survives_relogin[OF plain_portal_host valid_sample_ip empty_portal_ok refl refl this refl]
  show ?thesis by (intro exI[of _ row]) (elim conjE)
qed

text \<open>
  C22: logging a session out, on a host whose commands succeed, closes it and takes its
  address out of \<open>authenticated_clients\<close>, and a superuser's out of \<open>admin_bypass_clients\<close>;
  the portal's own DNS exemption of the address is gone.
\<close>

theorem logout_revokes:
  assumes "portal_host env mem files" "pfctl_succeeds env" "valid_ip (se_ip row)"
    and "session_table.pk_ok (cd_sessions (cs_db s))"
    and "row \<in> set (rows (cd_sessions (cs_db s)))"
    and "s' = fst (logout_session env (se_id row) s)"
  shows "se_ip row \<notin> mem (cs_world s') ''authenticated_clients''
     \<and> (se_super row \<longrightarrow> se_ip row \<notin> mem (cs_world s') ''admin_bypass_clients'')
     \<and> \<not> list_ex (\<lambda>r. se_id r = se_id row \<and> session_active now r) (rows (cd_sessions (cs_db s')))
     \<and> \<not> list_ex (session_exempt (se_ip row)) (rows (cd_hosts (cs_db s')))"
proof -
  have f: "find_by se_id (se_id row) (rows (cd_sessions (cs_db s))) = Some row"
    using assms(4,5) by (simp add: session_table.find_iff)
  note out = logout_effect[OF assms(1-3) f, folded assms(6)]
  have "\<not> list_ex (session_exempt (se_ip row)) (rows (cd_hosts (cs_db s')))"
    unfolding assms(6) logout_session_def f
    using assms(3) valid_ip_nonempty[OF assms(3)]
    by (auto simp: clear_captive_policy_exemption_def Let_def list_ex_iff mark_logged_out_def
        filter_empty_conv dest: cleared_not_exempt)
  then show ?thesis
    unfolding out by (auto simp: Let_def list_ex_iff session_active_def elim!: update_whereE)
qed


lemma logout_revokes_witness:
  "\<exists>row :: session_row. ''10.0.0.9'' \<notin> fst (cs_world (fst (logout_session plain_portal (se_id row)
       (fst (authenticate_session plain_portal 20 (Some ''aa'') (Some ''10.0.0.9'') (Some ''guest'') 60 False
         empty_portal))))) ''authenticated_clients''"
proof -
  let ?s1 = "fst (authenticate_session plain_portal 20 (Some ''aa'') (Some ''10.0.0.9'') (Some ''guest'') 60 False empty_portal)"
  note l = login_effect(1)[OF plain_portal_host valid_sample_ip, of 20 "''aa''" "''guest''" 60 False empty_portal]
  obtain row where row: "row \<in> set (rows (cd_sessions (cs_db ?s1)))" "se_mac row = norm_mac ''aa'' ''10.0.0.9''"
    using upsert_mem unfolding l by blast
  have ip: "se_ip row = ''10.0.0.9''" using in_upsert row unfolding l by blast
  then have "valid_ip (se_ip row)" using valid_sample_ip by simp
  moreover have "session_table.pk_ok (cd_sessions (cs_db ?s1))"
    unfolding l by (intro inv_intros empty_portal_ok)
  ultimately have "se_ip row \<notin> fst (cs_world (fst (logout_session plain_portal (se_id row) ?s1))) ''authenticated_clients''"
    using logout_revokes[OF plain_portal_host _ _ row(1) refl, THEN conjunct1] by iprover
  then show ?thesis unfolding ip by (rule exI[of _ row])
qed

section \<open>Reconciliation\<close>

lemma expire_one_db [simp]:
  "cd_sessions (cs_db (expire_one env row s)) = cd_sessions (cs_db s)"
  by (simp add: expire_one_def)

lemma expire_fold_db: "cd_sessions (cs_db (fold (expire_one env) rs s)) = cd_sessions (cs_db s)"
  by (induction rs arbitrary: s) simp_all

lemma expire_sessions_rows:
  "rows (cd_sessions (cs_db (fst (expire_sessions env now s)))) =
     (let ids = map se_id (filter (session_expired now) (rows (cd_sessions (cs_db s)))) in
      update_where (\<lambda>r. se_id r \<in> set ids) (\<lambda>r. r\<lparr>se_out := True\<rparr>) (rows (cd_sessions (cs_db s))))"
proof (cases "filter (session_expired now) (rows (cd_sessions (cs_db s))) = []")
  case True
  then show ?thesis by (simp add: expire_sessions_def update_where_def)
next
  case False
  then show ?thesis by (simp add: expire_sessions_def Let_def mark_logged_out_def expire_fold_db)
qed

lemma expired_not_active: "session_expired now r \<Longrightarrow> \<not> session_active now r"
  by (auto simp: session_expired_def session_active_def)

lemma filter_marked_out:
  "(\<And>x. x \<in> set xs \<Longrightarrow> P x \<Longrightarrow> \<not> session_active now x) \<Longrightarrow>
     filter (session_active now) (update_where P (\<lambda>r. r\<lparr>se_out := True\<rparr>) xs) = filter (session_active now) xs"
  by (induction xs) (simp_all add: session_active_def)

lemma active_after_expiry:
  assumes "session_table.pk_ok (cd_sessions (cs_db s))"
  shows "filter (session_active now) (rows (cd_sessions (cs_db (fst (expire_sessions env now s)))))
       = filter (session_active now) (rows (cd_sessions (cs_db s)))"
proof -
  let ?rs = "rows (cd_sessions (cs_db s))"
  have ids: "\<not> session_active now r" if r: "r \<in> set ?rs" "se_id r \<in> set (map se_id (filter (session_expired now) ?rs))" for r
  proof -
    from r(2) obtain q where q: "q \<in> set ?rs" "session_expired now q" "se_id q = se_id r" by auto
    with r(1) assms have "q = r" unfolding session_table.pk_ok_def distinct_map by (metis inj_onD)
    with q expired_not_active show ?thesis by blast
  qed
  show ?thesis unfolding expire_sessions_rows Let_def by (rule filter_marked_out) (rule ids)
qed

lemma replace_table_ok:
  assumes "portal_host env mem files" "portal_table t" "path \<in> set table_files"
    and "replace_table env t path ips s = (s', True, m)"
  shows "mem (cs_world s') = (mem (cs_world s))(t := table_of_text (table_file_text ips))"
proof -
  obtain w where w: "cv_write env path (table_file_text ips) (cs_world s) = (w, None)"
    using assms(4) by (auto simp: replace_table_def split: prod.splits option.splits)
  have f: "files w path = table_file_text ips" "mem w = mem (cs_world s)"
    using assms(1) w unfolding portal_host_def by (metis fst_conv snd_conv)+
  let ?args = "[(''table'', PStr t), (''file_path'', PStr path)]"
  let ?s1 = "s\<lparr>cs_world := w\<rparr>"
  note b = replace_command[OF assms(2,3)]
  obtain c where c: "priv env ''pf.table_replace_file'' ?args ?s1 = (s', Inr c)" "cr_code c = 0"
    using assms(4) by (auto simp: replace_table_def w split: prod.splits sum.splits if_splits)
  from priv_runs(3)[OF assms(1) b, of ?s1 c] c
  obtain out err where e: "snd (ne_exec (cv_exec env) [''/sbin/pfctl'', ''-t'', t, ''-T'', ''replace'', ''-f'', path] w) = Finished 0 out err"
    by auto
  have "cs_world s' = fst (ne_exec (cv_exec env) [''/sbin/pfctl'', ''-t'', t, ''-T'', ''replace'', ''-f'', path] w)"
    using priv_runs(1)[OF assms(1) b, of ?s1] c by simp
  then show ?thesis using portal_host_effect[OF assms(1) e] by (simp add: f)
qed

lemma table_of_file:
  assumes "\<And>ip. ip \<in> set ips \<Longrightarrow> no_break ip"
  shows "splitlines (table_file_text ips) = ips"
  using assms by (induction ips) (simp_all add: table_file_text_def nl_def splitlines_cons_line)

lemma ip_set_lines:
  assumes "\<And>r. r \<in> set rs \<Longrightarrow> no_break (se_ip r)"
  shows "table_of_text (table_file_text (ip_set rs)) = se_ip ` set rs - {[]}"
proof -
  have "splitlines (table_file_text (ip_set rs)) = ip_set rs"
    by (rule table_of_file) (use assms in \<open>auto simp: ip_set_def\<close>)
  then show ?thesis by (auto simp: table_of_text_def ip_set_def)
qed

text \<open>
  C21: after a reconciliation that reports success, the kernel's tables hold exactly the
  addresses of the active sessions, and of the active superuser sessions, whatever was in them
  before.
\<close>

theorem reconcile_matches_sessions:
  assumes "portal_host env mem files" "session_table.pk_ok (cd_sessions (cs_db s))"
    and "\<forall>r \<in> set (rows (cd_sessions (cs_db s))). no_break (se_ip r) \<and> se_ip r \<noteq> []"
    and "reconcile_captive_pf_tables env now s = (s', r)" "rc_ok r"
  shows "mem (cs_world s') ''authenticated_clients''
       = se_ip ` {x \<in> set (rows (cd_sessions (cs_db s))). session_active now x}
     \<and> mem (cs_world s') ''admin_bypass_clients''
       = se_ip ` {x \<in> set (rows (cd_sessions (cs_db s))). session_active now x \<and> se_super x}"
proof -
  define act where "act = filter (session_active now) (rows (cd_sessions (cs_db s)))"
  let ?s0 = "fst (expire_sessions env now s)"
  have fb: "ne_freebsd (cv_exec env)" using assms(1) by (simp add: portal_host_def)
  obtain s1 m1 where s1: "replace_table env ''authenticated_clients'' auth_table_file (ip_set act) ?s0 = (s1, True, m1)"
    and "\<exists>m2. replace_table env ''admin_bypass_clients'' admin_table_file (ip_set (filter se_super act)) s1 = (s', True, m2)"
    using assms(4,5) fb unfolding act_def active_after_expiry[OF assms(2), of now env, symmetric]
    by (auto simp: reconcile_captive_pf_tables_def Let_def split: prod.splits)
  then obtain m2 where s2: "replace_table env ''admin_bypass_clients'' admin_table_file (ip_set (filter se_super act)) s1 = (s', True, m2)"
    by blast
  have t: "portal_table ''authenticated_clients''" "portal_table ''admin_bypass_clients''"
    "auth_table_file \<in> set table_files" "admin_table_file \<in> set table_files"
    by (simp_all add: portal_table_def table_files_def)
  have "\<And>r. r \<in> set act \<Longrightarrow> no_break (se_ip r) \<and> se_ip r \<noteq> []" using assms(3) by (auto simp: act_def)
  then have "table_of_text (table_file_text (ip_set act)) = se_ip ` set act"
    "table_of_text (table_file_text (ip_set (filter se_super act))) = se_ip ` set (filter se_super act)"
    by (subst ip_set_lines; fastforce)+
  then show ?thesis
    unfolding replace_table_ok[OF assms(1) t(2,4) s2] replace_table_ok[OF assms(1) t(1,3) s1]
    by (auto simp: act_def)
qed


lemma replace_table_succeeds:
  assumes "portal_host env mem files" "pfctl_succeeds env" "\<And>path text w. snd (cv_write env path text w) = None"
    and "portal_table t" "path \<in> set table_files"
  shows "\<exists>s'. replace_table env t path ips s = (s', True, [])"
proof -
  obtain w where w: "cv_write env path (table_file_text ips) (cs_world s) = (w, None)"
    using assms(3)[of path "table_file_text ips" "cs_world s"] by (metis prod.collapse)
  let ?cmd = "[''/sbin/pfctl'', ''-t'', t, ''-T'', ''replace'', ''-f'', path]"
  obtain out err where "snd (ne_exec (cv_exec env) ?cmd w) = Finished 0 out err"
    using assms(2) unfolding pfctl_succeeds_def by blast
  then have "snd (priv env ''pf.table_replace_file'' [(''table'', PStr t), (''file_path'', PStr path)] (s\<lparr>cs_world := w\<rparr>))
      = Inr \<lparr>cr_command = ?cmd, cr_code = 0, cr_out = out, cr_err = err\<rparr>"
    using priv_runs(2)[OF assms(1) replace_command[OF assms(4,5)], of "s\<lparr>cs_world := w\<rparr>"] by simp
  then show ?thesis by (auto simp: replace_table_def w split: prod.split)
qed

lemma reconcile_succeeds:
  assumes "portal_host env mem files" "pfctl_succeeds env" "\<And>path text w. snd (cv_write env path text w) = None"
  shows "rc_ok (snd (reconcile_captive_pf_tables env now s))"
proof -
  have t: "portal_table ''authenticated_clients''" "portal_table ''admin_bypass_clients''"
    "auth_table_file \<in> set table_files" "admin_table_file \<in> set table_files"
    by (simp_all add: portal_table_def table_files_def)
  let ?s0 = "fst (expire_sessions env now s)"
  let ?act = "filter (session_active now) (rows (cd_sessions (cs_db ?s0)))"
  obtain s1 where s1: "replace_table env ''authenticated_clients'' auth_table_file (ip_set ?act) ?s0 = (s1, True, [])"
    using replace_table_succeeds[OF assms t(1,3)] by blast
  obtain s2 where "replace_table env ''admin_bypass_clients'' admin_table_file (ip_set (filter se_super ?act)) s1 = (s2, True, [])"
    using replace_table_succeeds[OF assms t(2,4)] by blast
  with s1 assms(1) show ?thesis by (simp add: reconcile_captive_pf_tables_def portal_host_def Let_def)
qed

text \<open>One active superuser session, and a stale address in the table of the others.\<close>

definition stale_portal :: "sample_host cp_state" where
  "stale_portal = empty_portal
     \<lparr>cs_db := empty_portal_db\<lparr>cd_sessions :=
         \<lparr>rows = [mk_session (''aa'', ''10.0.0.9'', ''root'', True, 100, 0) 1], seq = 1\<rparr>\<rparr>,
      cs_world := ((\<lambda>t. {''10.0.0.66''}), \<lambda>p. [])\<rparr>"

lemma reconcile_matches_sessions_witness:
  "fst (cs_world (fst (reconcile_captive_pf_tables plain_portal 50 stale_portal))) ''admin_bypass_clients'' = {''10.0.0.9''}"
proof -
  have "session_table.pk_ok (cd_sessions (cs_db stale_portal))"
    by (simp add: stale_portal_def session_table.pk_ok_def mk_session_def)
  moreover have "\<forall>r \<in> set (rows (cd_sessions (cs_db stale_portal))). no_break (se_ip r) \<and> se_ip r \<noteq> []"
    by (simp add: stale_portal_def mk_session_def is_linebreak_def code_def)
  moreover have "rc_ok (snd (reconcile_captive_pf_tables plain_portal 50 stale_portal))"
    by (rule reconcile_succeeds[OF plain_portal_host]) (simp add: plain_portal_def)
  ultimately have "fst (cs_world (fst (reconcile_captive_pf_tables plain_portal 50 stale_portal))) ''admin_bypass_clients''
      = se_ip ` {x \<in> set (rows (cd_sessions (cs_db stale_portal))). session_active 50 x \<and> se_super x}"
    using reconcile_matches_sessions[OF plain_portal_host(1), THEN conjunct2] surjective_pairing by blast
  moreover have "{x \<in> set (rows (cd_sessions (cs_db stale_portal))). session_active 50 x \<and> se_super x}
      = {mk_session (''aa'', ''10.0.0.9'', ''root'', True, 100, 0) 1}"
    by (auto simp: stale_portal_def mk_session_def session_active_def)
  ultimately show ?thesis by (simp add: mk_session_def)
qed

section \<open>Exemptions\<close>

lemma exempt_host_rows:
  assumes "h \<in> set (rows (exempt_host ip t))" "th_ip h = ip"
  shows "session_exempt ip h"
proof (cases "filter (\<lambda>h. th_ip h = ip) (rows t) = []")
  case True
  with assms(2) have "h \<notin> set (rows t)" unfolding filter_empty_conv by blast
  then have "h = mk_tracked ip (Suc (seq t))"
    using assms(1) unfolding exempt_host_def if_P[OF True] by simp
  then show ?thesis by (simp add: mk_tracked_def session_exempt_def)
next
  case False
  have "h \<in> set (update_where (\<lambda>h. th_ip h = ip) (\<lambda>h. h\<lparr>th_exempt := True, th_source := ''captive_session''\<rparr>) (rows t))"
    using assms(1) unfolding exempt_host_def if_not_P[OF False] by simp
  then show ?thesis by (rule update_whereE) (use assms(2) in \<open>simp_all add: session_exempt_def\<close>)
qed

text \<open>What a login that succeeds leaves of the tables.\<close>

lemma authenticated_hosts:
  assumes "authenticate_session env now mac (Some ip) user minutes super s = (s1, r)" "cp_ok r"
    and "auth_required (cs_db s)" "strip ip = ip" "ip \<noteq> []"
  shows "cd_hosts (cs_db s1) = exempt_host ip (cd_hosts (cs_db s))"
proof -
  define u where "u = strip (or_str user [])"
  define m where "m = norm_mac (or_str mac []) ip"
  define s0 where "s0 = store_session (m, ip, u, super, now + minutes * 60, now) s"
  have a: "admit env m ip u super s0 = (s1, r)"
    using assms(1,4,5) by (simp add: authenticate_session_def Let_def s0_def m_def u_def)
  have "auth_required (db\<lparr>cd_sessions := t\<rparr>) = auth_required db" for db t
    by (simp add: auth_required_def policy_view_def get_content_policy_mode_def)
  then have "auth_required (cs_db s0)" using assms(3) by (simp add: s0_def store_session_def)
  with admit_db(1)[of env m ip u super s0] assms(2,4,5) show ?thesis
    by (simp add: a) (simp add: s0_def store_session_def)
qed

lemma policy_exempt_iff:
  assumes "strip ip = ip" "ip \<noteq> []"
  shows "is_policy_exempt (policy_view db) (Some ip) \<longleftrightarrow> (\<exists>h \<in> set (rows (cd_hosts db)). th_ip h = ip \<and> th_exempt h)"
  using assms
  by (auto simp: is_policy_exempt_def policy_view_def filter_empty_conv host_row_of_def)

lemma logout_hosts:
  assumes "find_by se_id i (rows (cd_sessions (cs_db s))) = Some row" "strip (se_ip row) = se_ip row" "se_ip row \<noteq> []"
  shows "rows (cd_hosts (cs_db (fst (logout_session env i s))))
       = update_where (session_exempt (se_ip row)) (\<lambda>h. h\<lparr>th_exempt := False, th_source := []\<rparr>) (rows (cd_hosts (cs_db s)))"
proof -
  have u: "update_where P f hs = hs" if "filter P hs = []" for P and f :: "tracked_row \<Rightarrow> tracked_row" and hs
    using that by (induction hs) (auto split: if_splits)
  show ?thesis
    by (simp add: logout_session_def assms Let_def clear_captive_policy_exemption_def mark_logged_out_def u)
qed

text \<open>
  In the mode \<open>captive_auth_required\<close>, an exemption from the content policy that the
  administrator gave to an address is lost when a client signs in from it and out again: the
  login relabels the row as the portal's own, so the logout clears it.
\<close>

theorem login_consumes_exemption:
  assumes "auth_required (cs_db s)" "strip ip = ip" "ip \<noteq> []"
    and "h \<in> set (rows (cd_hosts (cs_db s)))" "th_ip h = ip" "th_exempt h" "th_source h = []"
    and "authenticate_session env now mac (Some ip) user minutes super s = (s1, r)" "cp_ok r"
    and "find_by se_id i (rows (cd_sessions (cs_db s1))) = Some row" "se_ip row = ip"
  shows "is_policy_exempt (policy_view (cs_db s)) (Some ip)
     \<and> \<not> is_policy_exempt (policy_view (cs_db (fst (logout_session env i s1)))) (Some ip)"
proof -
  have hosts: "cd_hosts (cs_db s1) = exempt_host ip (cd_hosts (cs_db s))"
    by (rule authenticated_hosts[OF assms(8,9,1-3)])
  note out = logout_hosts[OF assms(10), unfolded assms(11) hosts, OF assms(2,3)]
  have "\<not> th_exempt x" if "x \<in> set (rows (cd_hosts (cs_db (fst (logout_session env i s1)))))" "th_ip x = ip" for x
    using that(1) unfolding out
  proof (rule update_whereE)
    assume "x \<in> set (rows (exempt_host ip (cd_hosts (cs_db s))))" "\<not> session_exempt ip x"
    with exempt_host_rows[OF _ that(2)] show ?thesis by blast
  qed simp
  moreover have "is_policy_exempt (policy_view (cs_db s)) (Some ip)"
    using assms(4-6) by (auto simp: policy_exempt_iff[OF assms(2,3)])
  ultimately show ?thesis by (auto simp: policy_exempt_iff[OF assms(2,3)])
qed

section \<open>Vouchers\<close>

inductive portal_step :: "'w cp_env \<Rightarrow> 'w cp_state \<Rightarrow> 'w cp_state \<Rightarrow> bool" for env where
  step_login: "portal_step env s (fst (authenticate_session env now mac ip user minutes super s))"
| step_logout: "portal_step env s (fst (logout_session env i s))"
| step_expire: "portal_step env s (fst (expire_sessions env now s))"
| step_reconcile: "portal_step env s (fst (reconcile_captive_pf_tables env now s))"
| step_attempt: "portal_step env s (s\<lparr>cs_db := record_captive_auth_attempt ip user typ ok now (cs_db s)\<rparr>)"
| step_generate: "portal_step env s (s\<lparr>cs_db := fst (generate_voucher token minutes kbps (cs_db s))\<rparr>)"
| step_disable: "portal_step env s (s\<lparr>cs_db := fst (disable_voucher i flag (cs_db s))\<rparr>)"
| step_redeem: "portal_step env s (fst (redeem_voucher env now c mac ip s))"

inductive_cases portal_stepE: "portal_step env s s'"

definition voucher_ok :: "cp_db \<Rightarrow> bool" where
  "voucher_ok db \<longleftrightarrow> voucher_table.pk_ok (cd_vouchers db) \<and> distinct (map vo_code (rows (cd_vouchers db)))"

definition redeemed_codes :: "cp_db \<Rightarrow> string set" where
  "redeemed_codes db = vo_code ` {v \<in> set (rows (cd_vouchers db)). vo_redeemed v}"

text \<open>Everything but the voucher operations leaves the vouchers alone.\<close>

lemma same_vouchers [simp]:
  "cd_vouchers (cs_db (grant_captive_policy_exemption env ip user s)) = cd_vouchers (cs_db s)"
  "cd_vouchers (cs_db (clear_captive_policy_exemption env ip reason s)) = cd_vouchers (cs_db s)"
  "cd_vouchers (cs_db (finish_login env grant ip user s)) = cd_vouchers (cs_db s)"
  "cd_vouchers (cs_db (expire_one env row s)) = cd_vouchers (cs_db s)"
  "cd_vouchers (mark_logged_out P db) = cd_vouchers db"
  "cd_vouchers (drop_session mac db) = cd_vouchers db"
  "cd_vouchers (cs_db (fst (add_admin_bypass env ip user s))) = cd_vouchers (cs_db s)"
  by (simp_all add: grant_captive_policy_exemption_def clear_captive_policy_exemption_def finish_login_def
      expire_one_def mark_logged_out_def drop_session_def add_admin_bypass_def case_prod_unfold Let_def)

lemma authenticate_vouchers [simp]:
  "cd_vouchers (cs_db (fst (authenticate_session env now mac ip user minutes super s))) = cd_vouchers (cs_db s)"
  by (simp add: authenticate_session_def Let_def admit_db store_session_def)

lemma fold_vouchers: "cd_vouchers (cs_db (fold (expire_one env) rs s)) = cd_vouchers (cs_db s)"
  by (induction rs arbitrary: s) simp_all

lemma expire_vouchers [simp]: "cd_vouchers (cs_db (fst (expire_sessions env now s))) = cd_vouchers (cs_db s)"
  by (simp add: expire_sessions_def Let_def fold_vouchers)

lemma replace_table_db [simp]: "cs_db (fst (replace_table env t path ips s)) = cs_db s"
proof -
  have "cs_db (fst (priv env a ps q)) = cs_db q" for a ps q by simp
  then show ?thesis
    by (auto simp: replace_table_def case_prod_unfold split: option.split sum.split)
qed

lemma reconcile_vouchers [simp]:
  "cd_vouchers (cs_db (fst (reconcile_captive_pf_tables env now s))) = cd_vouchers (cs_db s)"
  by (simp add: reconcile_captive_pf_tables_def Let_def case_prod_unfold)

lemma logout_vouchers [simp]: "cd_vouchers (cs_db (fst (logout_session env i s))) = cd_vouchers (cs_db s)"
  by (simp add: logout_session_def Let_def split: option.split)


lemma voucher_tables_same:
  assumes "cd_vouchers db' = cd_vouchers db"
  shows "voucher_ok db' = voucher_ok db" "redeemed_codes db' = redeemed_codes db"
  using assms by (simp_all add: voucher_ok_def redeemed_codes_def)

lemma voucher_ok_set_redeemed [inv_intros]: "voucher_ok db \<Longrightarrow> voucher_ok (set_redeemed i flag stamp db)"
  by (simp add: voucher_ok_def set_redeemed_def voucher_table.pk_ok_update map_update_where)

lemma voucher_ok_disable: "voucher_ok db \<Longrightarrow> voucher_ok (fst (disable_voucher i flag db))"
  by (simp add: voucher_ok_def disable_voucher_def voucher_table.pk_ok_update map_update_where)

lemma voucher_ok_generate: "voucher_ok db \<Longrightarrow> voucher_ok (fst (generate_voucher token minutes kbps db))"
  by (auto simp: voucher_ok_def generate_voucher_def Let_def mk_voucher_def voucher_table.pk_ok_insert)

lemma redeemed_generate: "redeemed_codes db \<subseteq> redeemed_codes (fst (generate_voucher token minutes kbps db))"
  by (auto simp: redeemed_codes_def generate_voucher_def Let_def)

lemma redeemed_update:
  assumes "\<And>v. vo_code (f v) = vo_code v" "\<And>v. v \<in> set (rows (cd_vouchers db)) \<Longrightarrow> P v \<Longrightarrow> vo_redeemed v \<Longrightarrow> vo_redeemed (f v)"
  shows "redeemed_codes db \<subseteq> redeemed_codes (db\<lparr>cd_vouchers := update_rows P f (cd_vouchers db)\<rparr>)"
proof
  fix c assume "c \<in> redeemed_codes db"
  then obtain v where v: "v \<in> set (rows (cd_vouchers db))" "vo_redeemed v" "vo_code v = c"
    by (auto simp: redeemed_codes_def)
  then have "(if P v then f v else v) \<in> set (update_where P f (rows (cd_vouchers db)))"
    unfolding in_set_update_where by blast
  moreover have "vo_redeemed (if P v then f v else v)" "vo_code (if P v then f v else v) = c"
    using v assms by simp_all
  ultimately show "c \<in> redeemed_codes (db\<lparr>cd_vouchers := update_rows P f (cd_vouchers db)\<rparr>)"
    unfolding redeemed_codes_def by (intro image_eqI) simp_all
qed

text \<open>The outcome of a redemption: a refusal, a login, or a failed login with the mark undone.\<close>

lemma redeem_cases:
  fixes env :: "'w cp_env"
  obtains (refused) m where "redeem_voucher env now (Some vc) mac ip s = (s, failure m)"
  | (tried) v s1 r where "v \<in> set (rows (cd_vouchers (cs_db s)))" "vo_code v = upper (strip vc)"
      "\<not> vo_redeemed v"
      "cd_vouchers (cs_db s1) = cd_vouchers (set_redeemed (vo_id v) True (Some now) (cs_db s))"
      "redeem_voucher env now (Some vc) mac ip s =
         (if cp_ok r then (s1, r) else (s1\<lparr>cs_db := set_redeemed (vo_id v) False None (cs_db s1)\<rparr>, r))"
proof -
  let ?c = "upper (strip vc)"
  let ?vs = "rows (cd_vouchers (cs_db s))"
  let ?open = "filter (\<lambda>v. vo_code v = ?c \<and> \<not> vo_redeemed v \<and> \<not> vo_disabled v) ?vs"
  have c: "upper (strip (or_str (Some vc) [])) = ?c" by simp
  show ?thesis
  proof (cases "fetchone (filter (\<lambda>v. vo_code v = ?c) ?vs)")
    case None
    then show ?thesis using refused[of "''Voucher not found or already used.''"]
      unfolding redeem_voucher_def Let_def c by simp
  next
    case (Some cand)
    show ?thesis
    proof (cases "vo_disabled cand")
      case True
      then show ?thesis using refused[of "''Voucher is disabled.''"]
        unfolding redeem_voucher_def Let_def c Some option.case by simp
    next
      case enabled: False
      show ?thesis
      proof (cases "fetchone ?open")
        case None
        show ?thesis using refused[of "''Voucher not found or already used.''"] enabled
          unfolding redeem_voucher_def Let_def c Some option.case None by simp
      next
        case v: (Some v)
      let ?s0 = "s\<lparr>cs_db := set_redeemed (vo_id v) True (Some now) (cs_db s)\<rparr>"
      obtain s1 r where a: "authenticate_session env now mac ip (Some (''voucher:'' @ ?c)) (vo_minutes v) False ?s0 = (s1, r)"
        by fastforce
      have "cd_vouchers (cs_db s1) = cd_vouchers (set_redeemed (vo_id v) True (Some now) (cs_db s))"
        using authenticate_vouchers[of env now mac ip "Some (''voucher:'' @ ?c)" "vo_minutes v" False ?s0]
        unfolding a by simp
      moreover have "redeem_voucher env now (Some vc) mac ip s =
          (if cp_ok r then (s1, r) else (s1\<lparr>cs_db := set_redeemed (vo_id v) False None (cs_db s1)\<rparr>, r))"
        using enabled unfolding redeem_voucher_def Let_def c Some option.case v a prod.case by simp
      ultimately show ?thesis using fetchone_Some_in[OF v] by (intro tried) auto
      qed
    qed
  qed
qed

lemma redeemed_by_id:
  assumes "voucher_ok db" "v \<in> set (rows (cd_vouchers db))" "\<not> vo_redeemed v"
    and "x \<in> set (rows (cd_vouchers db))" "vo_id x = vo_id v"
  shows "\<not> vo_redeemed x"
proof -
  have "x = v" using assms unfolding voucher_ok_def voucher_table.pk_ok_def distinct_map by (metis inj_onD)
  with assms(3) show ?thesis by simp
qed

lemma twice_redeemed:
  "cd_vouchers db1 = cd_vouchers (set_redeemed i True stamp db) \<Longrightarrow>
     cd_vouchers (set_redeemed i False None db1)
       = cd_vouchers (set_redeemed i False None db)"
  by (simp add: set_redeemed_def update_rows_def update_where_def)

lemma redeem_keeps:
  assumes "voucher_ok (cs_db s)"
  shows "voucher_ok (cs_db (fst (redeem_voucher env now (Some vc) mac ip s)))
     \<and> redeemed_codes (cs_db s) \<subseteq> redeemed_codes (cs_db (fst (redeem_voucher env now (Some vc) mac ip s)))"
proof (rule redeem_cases[of env now vc mac ip s])
  fix m assume "redeem_voucher env now (Some vc) mac ip s = (s, failure m)"
  then show ?thesis using assms by simp
next
  fix v s1 r
  assume v: "v \<in> set (rows (cd_vouchers (cs_db s)))" "\<not> vo_redeemed v"
    and s1: "cd_vouchers (cs_db s1) = cd_vouchers (set_redeemed (vo_id v) True (Some now) (cs_db s))"
    and r: "redeem_voucher env now (Some vc) mac ip s =
         (if cp_ok r then (s1, r) else (s1\<lparr>cs_db := set_redeemed (vo_id v) False None (cs_db s1)\<rparr>, r))"
  have up: "redeemed_codes (cs_db s) \<subseteq> redeemed_codes (set_redeemed (vo_id v) flag stamp (cs_db s))" for flag stamp
    unfolding set_redeemed_def using redeemed_by_id[OF assms v] by (intro redeemed_update) auto
  show ?thesis
  proof (cases "cp_ok r")
    case True
    with r s1 up voucher_ok_set_redeemed[OF assms] show ?thesis by (simp add: voucher_tables_same[OF s1])
  next
    case False
    have "cd_vouchers (set_redeemed (vo_id v) False None (cs_db s1)) = cd_vouchers (set_redeemed (vo_id v) False None (cs_db s))"
      by (rule twice_redeemed[OF s1])
    from voucher_tables_same[OF this] False r up voucher_ok_set_redeemed[OF assms] show ?thesis by simp
  qed
qed


lemma redeem_None: "redeem_voucher env now None mac ip s = redeem_voucher env now (Some []) mac ip s"
  by (simp add: redeem_voucher_def)

lemma step_vouchers:
  assumes "portal_step env s s'" "voucher_ok (cs_db s)"
  shows "voucher_ok (cs_db s') \<and> redeemed_codes (cs_db s) \<subseteq> redeemed_codes (cs_db s')"
  using assms(1)
proof cases
  case step_login
  then show ?thesis using assms(2) by (simp add: voucher_tables_same[OF authenticate_vouchers])
next
  case step_logout
  then show ?thesis using assms(2) by (simp add: voucher_tables_same[OF logout_vouchers])
next
  case step_expire
  then show ?thesis using assms(2) by (simp add: voucher_tables_same[OF expire_vouchers])
next
  case step_reconcile
  then show ?thesis using assms(2) by (simp add: voucher_tables_same[OF reconcile_vouchers])
next
  case (step_attempt ip user ty ok now)
  have "cd_vouchers (record_captive_auth_attempt ip user ty ok now (cs_db s)) = cd_vouchers (cs_db s)"
    by (simp add: record_captive_auth_attempt_def)
  from voucher_tables_same[OF this] assms(2) step_attempt show ?thesis by simp
next
  case (step_generate token minutes kbps)
  then show ?thesis using assms(2) voucher_ok_generate redeemed_generate by simp
next
  case (step_disable i flag)
  have "redeemed_codes db \<subseteq> redeemed_codes (fst (disable_voucher i flag db))" for db
    unfolding disable_voucher_def by (simp add: redeemed_update)
  then show ?thesis using step_disable assms(2) voucher_ok_disable by simp
next
  case (step_redeem now c mac ip)
  then show ?thesis using redeem_keeps[OF assms(2)] by (cases c) (simp_all add: redeem_None)
qed

lemma steps_vouchers:
  assumes "(portal_step env)\<^sup>*\<^sup>* s s'" "voucher_ok (cs_db s)"
  shows "voucher_ok (cs_db s') \<and> redeemed_codes (cs_db s) \<subseteq> redeemed_codes (cs_db s')"
  using assms
proof (induction rule: rtranclp_induct)
  case (step x y)
  then show ?case using step_vouchers[OF step.hyps(2)] by blast
qed simp

lemma redeem_redeemed:
  assumes "voucher_ok (cs_db s)" "upper (strip vc) \<in> redeemed_codes (cs_db s)"
  shows "\<exists>m. redeem_voucher env now (Some vc) mac ip s = (s, failure m)"
proof (rule redeem_cases[of env now vc mac ip s])
  fix v assume v: "v \<in> set (rows (cd_vouchers (cs_db s)))" "vo_code v = upper (strip vc)" "\<not> vo_redeemed v"
  obtain x where "x \<in> set (rows (cd_vouchers (cs_db s)))" "vo_redeemed x" "vo_code x = upper (strip vc)"
    using assms(2) by (auto simp: redeemed_codes_def)
  with v assms(1) have False unfolding voucher_ok_def distinct_map by (metis inj_onD)
  then show ?thesis ..
qed blast

lemma redeem_success:
  assumes "redeem_voucher env now (Some vc) mac ip s = (s1, r)" "cp_ok r"
  shows "upper (strip vc) \<in> redeemed_codes (cs_db s1)"
proof (rule redeem_cases[of env now vc mac ip s])
  fix m assume "redeem_voucher env now (Some vc) mac ip s = (s, failure m)"
  with assms show ?thesis by (auto simp: failure_def)
next
  fix v s2 q
  assume v: "v \<in> set (rows (cd_vouchers (cs_db s)))" "vo_code v = upper (strip vc)"
    and s2: "cd_vouchers (cs_db s2) = cd_vouchers (set_redeemed (vo_id v) True (Some now) (cs_db s))"
    and q: "redeem_voucher env now (Some vc) mac ip s =
         (if cp_ok q then (s2, q) else (s2\<lparr>cs_db := set_redeemed (vo_id v) False None (cs_db s2)\<rparr>, q))"
  have "s1 = s2" using q assms by (simp split: if_splits)
  moreover have "v\<lparr>vo_redeemed := True, vo_redeemed_at := Some now\<rparr> \<in> set (rows (cd_vouchers (cs_db s2)))"
    unfolding s2 set_redeemed_def by (simp add: in_set_update_where) (use v in force)
  ultimately show ?thesis unfolding redeemed_codes_def
    by (intro image_eqI[of _ vo_code "v\<lparr>vo_redeemed := True, vo_redeemed_at := Some now\<rparr>"]) (simp_all add: v(2))
qed

text \<open>
  C23: a voucher lets one client in.  After a redemption that succeeded, and whatever the portal
  does then, redeeming its code is refused and changes nothing.
\<close>

theorem voucher_single_use:
  assumes "voucher_ok (cs_db s)" "redeem_voucher env t1 (Some vc) mac ip s = (s1, r)" "cp_ok r"
    and "(portal_step env)\<^sup>*\<^sup>* s1 s2"
  shows "\<exists>m. redeem_voucher env t2 (Some vc) mac' ip' s2 = (s2, failure m)"
proof -
  have "voucher_ok (cs_db s1)" using redeem_keeps[OF assms(1), of env t1 vc mac ip] assms(2) by simp
  from steps_vouchers[OF assms(4) this] redeem_success[OF assms(2,3)] redeem_redeemed show ?thesis by blast
qed

section \<open>Rate limit\<close>

text \<open>
  A client is locked out exactly when the failures recorded for its address within the
  window, of the asked type, reach the limit, however they are interleaved with other
  attempts: an attempt of another address and a success never count.
\<close>

theorem lockout_counts_failures:
  fixes l :: "(string option \<times> string option \<times> string option \<times> bool \<times> int) list"
  assumes "cd_attempts db = empty_table" "strip ip \<noteq> []" "0 < window"
  shows "too_many_recent_attempts (Some ip) window m typ now
      (fold (\<lambda>(a, u, t, ok, at). record_captive_auth_attempt a u t ok at) l db)
    \<longleftrightarrow> m \<le> int (length (filter (\<lambda>(a, u, t, ok, at).
          strip (or_str a []) = strip ip \<and> \<not> ok \<and> (typ = [] \<or> strip (or_str t []) = typ) \<and> now - window \<le> at) l))"
proof -
  let ?Q = "\<lambda>(a, u, t, ok, at). strip (or_str a []) = strip ip \<and> \<not> ok
      \<and> (typ = [] \<or> strip (or_str t []) = typ) \<and> now - window \<le> at"
  let ?P = "\<lambda>r. at_ip r = strip ip \<and> \<not> at_success r \<and> (typ = [] \<or> at_type r = typ) \<and> now - window \<le> at_time r"
  have "length (filter ?P (rows (cd_attempts (fold (\<lambda>(a, u, t, ok, at). record_captive_auth_attempt a u t ok at) l d))))
      = length (filter ?P (rows (cd_attempts d))) + length (filter ?Q l)" for d
  proof (induction l arbitrary: d)
    case (Cons x l)
    then show ?case
      by (cases x) (simp add: record_captive_auth_attempt_def mk_attempt_def)
  qed simp
  then show ?thesis using assms by (simp add: too_many_recent_attempts_def Let_def max_def)
qed

lemma lockout_counts_failures_witness:
  "too_many_recent_attempts (Some ''10.0.0.9'') 300 2 [] 1000
     (fold (\<lambda>(a, u, t, ok, at). record_captive_auth_attempt a u t ok at)
        [(Some ''10.0.0.9'', None, None, False, 900), (Some ''10.0.0.9'', None, None, True, 950),
         (Some ''10.0.0.9'', None, None, False, 990)] empty_portal_db)"
proof -
  have "strip ''10.0.0.9'' = ''10.0.0.9''" by (simp add: char_eval)
  then show ?thesis
    by (subst lockout_counts_failures) (simp_all add: empty_portal_db_def)
qed


lemma admit_ok:
  assumes "portal_host env mem files" "pfctl_succeeds env" "valid_ip ip"
  shows "cp_ok (snd (admit env mac ip user False s))"
proof -
  have t: "portal_table ''authenticated_clients''" by (simp add: portal_table_def)
  obtain s2 c where "table_call env ''pf.table_add'' ''authenticated_clients'' ip s = (s2, Inr c)" "cr_code c = 0"
    using table_calls(2)[OF assms(1,2) t assms(3), of s]
    by (cases "table_call env ''pf.table_add'' ''authenticated_clients'' ip s") auto
  with assms(1) show ?thesis by (simp add: admit_def Let_def portal_host_def success_def)
qed

definition voucher_portal :: "sample_host cp_state" where
  "voucher_portal = empty_portal\<lparr>cs_db := empty_portal_db\<lparr>cd_vouchers := \<lparr>rows = [mk_voucher (''AB'', 60, 0) 1], seq = 1\<rparr>\<rparr>\<rparr>"

lemma voucher_single_use_witness:
  "\<exists>m. redeem_voucher plain_portal 20 (Some ''ab'') (Some ''bb'') (Some ''10.0.0.7'')
     (fst (redeem_voucher plain_portal 10 (Some ''ab'') (Some ''aa'') (Some ''10.0.0.9'') voucher_portal))
   = (fst (redeem_voucher plain_portal 10 (Some ''ab'') (Some ''aa'') (Some ''10.0.0.9'') voucher_portal), failure m)"
proof -
  let ?r = "redeem_voucher plain_portal 10 (Some ''ab'') (Some ''aa'') (Some ''10.0.0.9'') voucher_portal"
  have "upper (strip ''ab'') = ''AB''" by (simp add: char_eval upper_def to_upper_def char_of_def bit_0)
  then have "cp_ok (snd ?r)"
    using admit_ok[OF plain_portal_host valid_sample_ip] valid_ip_strip[OF valid_sample_ip]
    by (simp add: redeem_voucher_def voucher_portal_def mk_voucher_def Let_def authenticate_session_def
        case_prod_unfold)
  moreover have "voucher_ok (cs_db voucher_portal)"
    by (simp add: voucher_ok_def voucher_portal_def voucher_table.pk_ok_def mk_voucher_def)
  ultimately show ?thesis
    using voucher_single_use[OF _ surjective_pairing _ rtranclp.rtrancl_refl] by blast
qed

text \<open>A development host in the mode \<open>captive_auth_required\<close> with one exempt address.\<close>

definition exempt_portal :: "sample_host cp_state" where
  "exempt_portal = empty_portal\<lparr>cs_db := empty_portal_db
     \<lparr>cd_hosts := \<lparr>rows = [\<lparr>th_id = 1, th_iface = ''LAN'', th_ip = ''10.0.0.9'', th_via = ''arp'',
          th_whitelisted = False, th_exempt = True, th_source = []\<rparr>], seq = 1\<rparr>,
      cd_policy := (cd_policy empty_portal_db)\<lparr>service_state := Some [''content_policy_settings'' \<mapsto>
          Json (PDict [(''mode'', PStr ''captive_auth_required'')])]\<rparr>\<rparr>\<rparr>"

definition dev_portal :: "sample_host cp_env" where
  "dev_portal = plain_portal\<lparr>cv_exec := (cv_exec plain_portal)\<lparr>ne_freebsd := False\<rparr>\<rparr>"

lemma login_consumes_exemption_witness:
  "\<not> is_policy_exempt (policy_view (cs_db (fst (logout_session dev_portal 1
       (fst (authenticate_session dev_portal 10 (Some ''aa'') (Some ''10.0.0.9'') None 60 False exempt_portal))))))
     (Some ''10.0.0.9'')"
proof -
  let ?a = "authenticate_session dev_portal 10 (Some ''aa'') (Some ''10.0.0.9'') None 60 False exempt_portal"
  have ip: "strip ''10.0.0.9'' = ''10.0.0.9''" by (simp add: char_eval)
  have "lower (strip ''captive_auth_required'') = ''captive_auth_required''"
    by (simp add: char_eval lower_def to_lower_def)
  then have m: "auth_required (cs_db exempt_portal)"
    by (simp add: auth_required_def exempt_portal_def policy_view_def get_content_policy_mode_def or_dict_def
        modes_def)
  have ok: "cp_ok (snd ?a)"
    by (simp add: authenticate_session_def ip admit_def Let_def dev_portal_def plain_portal_def success_def)
  have row: "find_by se_id 1 (rows (cd_sessions (cs_db (fst ?a))))
      = Some (mk_session (norm_mac ''aa'' ''10.0.0.9'', ''10.0.0.9'', [], False, 3610, 10) 1)"
    by (simp add: authenticate_session_def ip admit_def Let_def dev_portal_def plain_portal_def success_def
        store_session_def exempt_portal_def empty_portal_def empty_portal_db_def rows_upsert finish_login_def
        mk_session_def)
  show ?thesis
    using login_consumes_exemption[OF m ip _ _ _ _ _ surjective_pairing ok row, THEN conjunct2]
    by (simp add: exempt_portal_def mk_session_def)
qed

end
