(* ===== verification/CaptiveAuth.thy ===== *)
theory CaptiveAuth
  imports CaptivePortal "HOL-Library.Word"
begin

unbundle bit_operations_syntax

text \<open>
  The credential check of \<^verbatim>\<open>app/services/captive_portal.py\<close>: the RADIUS client
  \<open>authenticate_radius\<close> and \<open>try_password_auth\<close>, which falls back to the local users.

  Bytes are 8-bit words.  Arguments stand for \<open>hashlib.md5\<close>, the random identifier and
  authenticator, the NAS address, the exchange with the server, and
  \<open>check_password_hash\<close>.
\<close>

section \<open>Bytes\<close>

type_synonym bytes = "8 word list"

text \<open>\<open>s.encode()\<close>; a \<open>string\<close> holds the bytes of its text.\<close>

definition encode :: "string \<Rightarrow> bytes" where
  "encode s = map (\<lambda>c. word_of_nat (code c)) s"

definition xor_bytes :: "bytes \<Rightarrow> bytes \<Rightarrow> bytes" where
  "xor_bytes a b = map2 (\<lambda>x y. x XOR y) a b"

lemma xor_bytes_length [simp]: "length (xor_bytes a b) = min (length a) (length b)"
  by (simp add: xor_bytes_def)

lemma xor_bytes_involutive: "length a \<le> length b \<Longrightarrow> xor_bytes (xor_bytes a b) b = a"
proof (induction a arbitrary: b)
  case (Cons x a)
  then show ?case by (cases b) (simp_all add: xor_bytes_def xor.assoc)
qed (simp add: xor_bytes_def)

section \<open>The User-Password attribute\<close>

text \<open>Padding with NUL bytes to a multiple of 16.\<close>

definition pad16 :: "bytes \<Rightarrow> bytes" where
  "pad16 b = b @ replicate ((16 - length b mod 16) mod 16) 0"

function hide_blocks :: "(bytes \<Rightarrow> bytes) \<Rightarrow> bytes \<Rightarrow> bytes \<Rightarrow> bytes \<Rightarrow> bytes" where
  "hide_blocks md5 secret prev [] = []"
| "hide_blocks md5 secret prev (b # bs) =
     (let chunk = xor_bytes (take 16 (b # bs)) (md5 (secret @ prev))
      in chunk @ hide_blocks md5 secret chunk (drop 16 (b # bs)))"
  by pat_completeness auto
termination
  by (relation "measure (\<lambda>(md5, secret, prev, bs). length bs)") auto

definition encode_password :: "(bytes \<Rightarrow> bytes) \<Rightarrow> string \<Rightarrow> bytes \<Rightarrow> bytes \<Rightarrow> bytes" where
  "encode_password md5 pw authenticator secret = hide_blocks md5 secret authenticator (pad16 (encode pw))"

text \<open>What the server does with it (RFC 2865, 5.2): the same digests over the hidden blocks.\<close>

function reveal_blocks :: "(bytes \<Rightarrow> bytes) \<Rightarrow> bytes \<Rightarrow> bytes \<Rightarrow> bytes \<Rightarrow> bytes" where
  "reveal_blocks md5 secret prev [] = []"
| "reveal_blocks md5 secret prev (c # cs) =
     xor_bytes (take 16 (c # cs)) (md5 (secret @ prev))
       @ reveal_blocks md5 secret (take 16 (c # cs)) (drop 16 (c # cs))"
  by pat_completeness auto
termination
  by (relation "measure (\<lambda>(md5, secret, prev, cs). length cs)") auto

section \<open>The request\<close>

text \<open>\<open>bytes([atype, len(value) + 2]) + value\<close> raises for a value of more than 253 bytes.\<close>

definition radius_attr :: "nat \<Rightarrow> bytes \<Rightarrow> bytes res" where
  "radius_attr typ value =
     (if length value + 2 \<le> 255 then Inr (word_of_nat typ # word_of_nat (length value + 2) # value)
      else Inl (ValueError ''bytes must be in range(0, 256)''))"

definition radius_packet :: "8 word \<Rightarrow> bytes \<Rightarrow> bytes \<Rightarrow> bytes" where
  "radius_packet ident authenticator attrs =
     (let n = 20 + length attrs in
      [1, ident, word_of_nat (n div 256), word_of_nat n] @ authenticator @ attrs)"

text \<open>What comes back from the socket.\<close>

datatype radius_reply = Reply bytes | NoReply | SocketFails string | SocketRaises pyexn

record radius_env =
  ra_md5 :: "bytes \<Rightarrow> bytes"
  ra_ident :: "8 word"
  ra_authenticator :: bytes
  ra_nas :: "bytes option"
  ra_exchange :: "string \<Rightarrow> int \<Rightarrow> bytes \<Rightarrow> radius_reply"

definition attribute_missing :: pyexn where
  "attribute_missing = AttributeError ''object has no such attribute''"

text \<open>The settings document: an empty one when there is no row.\<close>

definition portal_settings :: "policy_db \<Rightarrow> pyval res" where
  "portal_settings db =
     (case service_state db of
        None \<Rightarrow> Inl (missing_table ''service_state'')
      | Some st \<Rightarrow>
          (case st ''captive_portal_settings'' of
             None \<Rightarrow> Inr (PDict [])
           | Some BadJson \<Rightarrow> Inl (ValueError ''invalid JSON document'')
           | Some (Json v) \<Rightarrow> Inr v))"

text \<open>\<open>(settings.get(key) or dflt).strip()\<close>.\<close>

definition setting_text :: "pyval \<Rightarrow> string \<Rightarrow> string \<Rightarrow> string res" where
  "setting_text v key dflt =
     (case dict_get v key of
        None \<Rightarrow> Inl attribute_missing
      | Some None \<Rightarrow> Inr (strip dflt)
      | Some (Some x) \<Rightarrow>
          (if \<not> py_bool_of x then Inr (strip dflt)
           else case x of PStr s \<Rightarrow> Inr (strip s) | _ \<Rightarrow> Inl attribute_missing))"

text \<open>\<open>rsplit(":", 1)\<close> on a string with a colon.\<close>

definition split_last :: "char \<Rightarrow> string \<Rightarrow> string \<times> string" where
  "split_last c s =
     (let tail = rev (takeWhile (\<lambda>x. x \<noteq> c) (rev s)) in (take (length s - length tail - 1) s, tail))"

definition radius_endpoint :: "string \<Rightarrow> string \<times> int" where
  "radius_endpoint server =
     (if CHR '':'' \<in> set server
      then (case split_last (CHR '':'') server of
              (host, port) \<Rightarrow> (host, case py_int port of Some p \<Rightarrow> p | None \<Rightarrow> 1812))
      else (server, 1812))"

record auth_result =
  ar_ok :: bool
  ar_type :: string
  ar_super :: bool
  ar_message :: string

definition radius_reply_result :: "radius_reply \<Rightarrow> (bool \<times> string) res" where
  "radius_reply_result r =
     (case r of
        NoReply \<Rightarrow> Inr (False, ''RADIUS server timed out.'')
      | SocketFails m \<Rightarrow> Inr (False, ''RADIUS socket error: '' @ m)
      | SocketRaises e \<Rightarrow> Inl e
      | Reply b \<Rightarrow>
          (if length b < 20 then Inr (False, ''Malformed RADIUS response.'')
           else if hd b = 2 then Inr (True, ''RADIUS authentication succeeded.'')
           else if hd b = 3 then Inr (False, ''RADIUS authentication rejected.'')
           else Inr (False, ''Unexpected RADIUS response code '' @ str_nat (unat (hd b)) @ ''.'')))"

text \<open>The attempt to add the NAS address is guarded.\<close>

definition nas_attr :: "bytes option \<Rightarrow> bytes" where
  "nas_attr nas = (case nas of None \<Rightarrow> [] | Some ip \<Rightarrow> (case radius_attr 4 ip of Inl e \<Rightarrow> [] | Inr a \<Rightarrow> a))"

definition authenticate_radius ::
  "radius_env \<Rightarrow> policy_db \<Rightarrow> string option \<Rightarrow> string option \<Rightarrow> (bool \<times> string) res" where
  "authenticate_radius env db user0 pw0 =
     (let user = strip (or_str user0 []); pw = strip (or_str pw0 []) in
      if user = [] \<or> pw = [] then Inr (False, ''Username and password are required.'')
      else
        bind_res (portal_settings db) (\<lambda>settings.
        bind_res (setting_text settings ''radius_server'' []) (\<lambda>server.
        bind_res (setting_text settings ''radius_secret'' []) (\<lambda>secret.
          if server = [] \<or> secret = [] then Inr (False, ''RADIUS server not configured.'')
          else
            (case radius_endpoint server of (host, port) \<Rightarrow>
              bind_res (radius_attr 1 (encode user)) (\<lambda>a1.
              bind_res (radius_attr 2 (encode_password (ra_md5 env) pw (ra_authenticator env) (encode secret))) (\<lambda>a2.
              radius_reply_result (ra_exchange env host port
                  (radius_packet (ra_ident env) (ra_authenticator env) (a1 @ a2 @ nas_attr (ra_nas env)))))))))))"

section \<open>Password authentication\<close>

record user_row =
  ur_username :: string
  ur_password :: string
  ur_super :: bool
  ur_status :: "string option"

text \<open>\<open>None\<close> is the table whose query raises, with the message of the exception.\<close>

definition active_user :: "string \<Rightarrow> user_row \<Rightarrow> bool" where
  "active_user name u \<longleftrightarrow> ur_username u = name \<and> (ur_status u = None \<or> ur_status u = Some ''active'')"

definition auth_failed :: "string \<Rightarrow> auth_result" where
  "auth_failed m = \<lparr>ar_ok = False, ar_type = [], ar_super = False, ar_message = m\<rparr>"

definition try_password_auth ::
  "radius_env \<Rightarrow> (string \<Rightarrow> string \<Rightarrow> bool) \<Rightarrow> (string + user_row list) \<Rightarrow> policy_db
     \<Rightarrow> string option \<Rightarrow> string option \<Rightarrow> auth_result res" where
  "try_password_auth env check users db user0 pw0 =
     (let user = strip (or_str user0 []); pw = strip (or_str pw0 []) in
      if user = [] \<or> pw = [] then Inr (auth_failed ''Username and password are required.'')
      else
        bind_res (authenticate_radius env db (Some user) (Some pw)) (\<lambda>(ok, msg).
          if ok then Inr \<lparr>ar_ok = True, ar_type = ''radius'', ar_super = False, ar_message = msg\<rparr>
          else
            (let configured = \<not> contains ''not configured'' (lower msg) in
             case users of
               Inl m \<Rightarrow> Inr (auth_failed (''Local user lookup failed: '' @ m))
             | Inr us \<Rightarrow>
                 (let rejected = (if configured
                                  then auth_failed (if msg = [] then ''Authentication failed.'' else msg)
                                  else auth_failed ''Invalid username or password.'')
                  in case fetchone (filter (active_user user) us) of
                       None \<Rightarrow> Inr rejected
                     | Some u \<Rightarrow>
                         (if check (ur_password u) pw
                          then Inr \<lparr>ar_ok = True, ar_type = ''local'', ar_super = ur_super u,
                                 ar_message = ''Local authentication succeeded.''\<rparr>
                          else Inr rejected)))))"


section \<open>The hidden password can be revealed\<close>

lemma reveal_append:
  assumes "length chunk = 16"
  shows "reveal_blocks md5 secret prev (chunk @ rest)
     = xor_bytes chunk (md5 (secret @ prev)) @ reveal_blocks md5 secret chunk rest"
proof -
  obtain c cs where c: "chunk = c # cs" using assms by (cases chunk) auto
  have "take 16 (chunk @ rest) = chunk" "drop 16 (chunk @ rest) = rest" using assms by simp_all
  then show ?thesis unfolding c append_Cons reveal_blocks.simps by simp
qed

lemma drop16_dvd: "16 dvd length bs \<Longrightarrow> 16 dvd length (drop 16 bs)"
  by (simp only: length_drop) (rule dvd_diff_nat, simp_all)

lemma block_length:
  assumes "\<And>x. length (md5 x) = 16" "16 dvd length (b # bs)"
  shows "length (xor_bytes (take 16 (b # bs)) (md5 y)) = 16"
proof -
  have "16 \<le> length (b # bs)" using assms(2) by (intro dvd_imp_le) simp_all
  then show ?thesis unfolding xor_bytes_length assms(1) by simp
qed

lemma hide_length:
  "(\<And>x. length (md5 x) = 16) \<Longrightarrow> 16 dvd length bs \<Longrightarrow> length (hide_blocks md5 secret prev bs) = length bs"
proof (induction md5 secret prev bs rule: hide_blocks.induct)
  case (2 md5 secret prev b bs)
  have "16 \<le> length (b # bs)" using "2.prems"(2) by (intro dvd_imp_le) simp_all
  moreover have "length (hide_blocks md5 secret prev (b # bs)) = 16 + (length (b # bs) - 16)"
    using "2.IH"[OF refl "2.prems"(1) drop16_dvd[OF "2.prems"(2)]]
    by (simp only: hide_blocks.simps Let_def length_append length_drop block_length[OF "2.prems"])
  ultimately show ?case by simp
qed simp

lemma reveal_hide:
  "(\<And>x. length (md5 x) = 16) \<Longrightarrow> 16 dvd length bs \<Longrightarrow>
     reveal_blocks md5 secret prev (hide_blocks md5 secret prev bs) = bs"
proof (induction md5 secret prev bs rule: hide_blocks.induct)
  case (2 md5 secret prev b bs)
  let ?x = "take 16 (b # bs)"
  let ?chunk = "xor_bytes ?x (md5 (secret @ prev))"
  note len = block_length[OF "2.prems"]
  have "reveal_blocks md5 secret prev (hide_blocks md5 secret prev (b # bs))
      = xor_bytes ?chunk (md5 (secret @ prev)) @ drop 16 (b # bs)"
    using "2.IH"[OF refl "2.prems"(1) drop16_dvd[OF "2.prems"(2)]]
    by (simp only: hide_blocks.simps Let_def reveal_append[OF len])
  also have "xor_bytes ?chunk (md5 (secret @ prev)) = ?x"
    by (rule xor_bytes_involutive) (simp add: "2.prems"(1))
  finally show ?case by simp
qed simp

lemma pad_amount:
  fixes n :: nat
  shows "n + (16 - n mod 16) mod 16 = 16 * ((n + 15) div 16)"
proof (cases "n mod 16 = 0")
  case True
  then obtain q where "n = 16 * q" by (auto simp: mod_eq_0_iff_dvd)
  then show ?thesis by simp
next
  case False
  define q where "q = n div 16"
  define r where "r = n mod 16"
  have n: "n = 16 * q + r" "0 < r" "r < 16" using False by (simp_all add: q_def r_def)
  then have "(n + 15) div 16 = q + 1" by simp
  with n False show ?thesis by (simp add: r_def[symmetric])
qed

lemma pad16_length: "16 dvd length (pad16 b)"
  by (simp add: pad16_def pad_amount)

text \<open>
  C35: a RADIUS server that knows the secret recovers the password from the attribute the client
  builds, followed by the padding only.
\<close>

theorem user_password_roundtrip:
  assumes "\<And>x. length (md5 x) = 16"
  shows "reveal_blocks md5 secret authenticator (encode_password md5 pw authenticator secret)
     = encode pw @ replicate ((16 - length pw mod 16) mod 16) 0"
  unfolding encode_password_def reveal_hide[OF assms pad16_length] by (simp add: pad16_def encode_def)

lemma user_password_roundtrip_witness:
  "reveal_blocks (\<lambda>x. replicate 16 (of_nat (length x))) (encode ''s3cret'') (replicate 16 7)
     (encode_password (\<lambda>x. replicate 16 (of_nat (length x))) ''hunter2'' (replicate 16 7) (encode ''s3cret''))
   = encode ''hunter2'' @ replicate 9 0"
  using user_password_roundtrip[of "\<lambda>x. replicate 16 (of_nat (length x))" "encode ''s3cret''" "replicate 16 7" "''hunter2''"]
  by simp

section \<open>The answer is not authenticated\<close>

text \<open>
  The client checks neither the identifier nor the response authenticator of the answer:
  whoever gets a packet of twenty bytes with code 2 to its socket first is let in under any name
  with any password, without the shared secret.
\<close>

theorem radius_answer_not_authenticated:
  assumes "service_state db = Some st" "st ''captive_portal_settings'' = Some (Json (PDict d))"
    and "map_of d ''radius_server'' = Some (PStr server)" "strip server \<noteq> []"
    and "map_of d ''radius_secret'' = Some (PStr secret)" "strip secret \<noteq> []"
    and "strip user \<noteq> []" "length (strip user) \<le> 253" "strip pw \<noteq> []" "length (strip pw) \<le> 240"
    and "\<And>x. length (ra_md5 env x) = 16"
    and "\<And>host port packet. ra_exchange env host port packet = Reply (2 # forged)" "19 \<le> length forged"
  shows "try_password_auth env check users db (Some user) (Some pw)
     = Inr \<lparr>ar_ok = True, ar_type = ''radius'', ar_super = False, ar_message = ''RADIUS authentication succeeded.''\<rparr>"
proof -
  have len: "length (encode_password (ra_md5 env) (strip pw) a s) = length (pad16 (encode (strip pw)))" for a s
    unfolding encode_password_def by (rule hide_length[OF assms(11) pad16_length])
  have "length (pad16 (encode (strip pw))) \<le> 240"
  proof -
    have "(length (strip pw) + 15) div 16 \<le> 15" using assms(10) by (simp add: div_le_mono[of _ 255 16, simplified])
    then show ?thesis by (simp add: pad16_def encode_def pad_amount)
  qed
  then obtain a2 where a: "radius_attr 2 (encode_password (ra_md5 env) (strip pw) (ra_authenticator env)
      (encode (strip secret))) = Inr a2"
    by (simp add: radius_attr_def len)
  obtain a1 where b: "radius_attr 1 (encode (strip user)) = Inr a1" using assms(8) by (simp add: radius_attr_def encode_def)
  have py: "py_bool_of (PStr server)" "py_bool_of (PStr secret)" using assms(4,6) by auto
  obtain host port where ep: "radius_endpoint (strip server) = (host, port)" by fastforce
  from a b ep have "authenticate_radius env db (Some (strip user)) (Some (strip pw)) = Inr (True, ''RADIUS authentication succeeded.'')"
    using assms(1-7,9,12,13) py
    by (simp add: authenticate_radius_def Let_def portal_settings_def setting_text_def radius_reply_result_def)
  then show ?thesis using assms(7,9) by (simp add: try_password_auth_def Let_def)
qed


definition radius_settings :: policy_db where
  "radius_settings = \<lparr>dns_rules = None, web_rules = None, app_rules = None,
     service_state = Some [''captive_portal_settings'' \<mapsto>
       Json (PDict [(''radius_server'', PStr ''10.0.0.2''), (''radius_secret'', PStr ''s3cret'')])],
     sessions = [], hosts = None, lan_ipv4 = None\<rparr>"

lemma radius_answer_not_authenticated_witness:
  "bind_res (try_password_auth
     \<lparr>ra_md5 = (\<lambda>x. replicate 16 0), ra_ident = 7, ra_authenticator = replicate 16 0, ra_nas = None,
      ra_exchange = (\<lambda>h p b. Reply (2 # replicate 19 0))\<rparr>
     (\<lambda>h p. False) (Inr []) radius_settings (Some ''mallory'') (Some ''x'')) (\<lambda>a. Inr (ar_ok a)) = Inr True"
proof -
  have "strip ''10.0.0.2'' \<noteq> []" "strip ''s3cret'' \<noteq> []" "strip ''mallory'' = ''mallory''" "strip ''x'' = ''x''"
    by (simp_all add: char_eval)
  then show ?thesis
    by (subst radius_answer_not_authenticated[where st = "the (service_state radius_settings)"
          and d = "[(''radius_server'', PStr ''10.0.0.2''), (''radius_secret'', PStr ''s3cret'')]"
          and server = "''10.0.0.2''" and secret = "''s3cret''" and forged = "replicate 19 0"])
      (simp_all add: radius_settings_def)
qed

end
