(* ===== verification/ScheduleService.thy ===== *)
theory ScheduleService
  imports PyString
begin

text \<open>
  \<^verbatim>\<open>app/services/schedule_service.py\<close>: when a firewall schedule is active, and the
  selection of the rules whose schedule is active now (with its per-name cache).  A table
  is \<open>None\<close> when its query raises; a time is the pair (hour, minute).
\<close>

section \<open>Data\<close>

record range_row =
  rr_year :: "int option"
  rr_month :: "int option"
  rr_days_csv :: "string option"
  rr_start_time :: "string option"
  rr_end_time :: "string option"

record datetime =
  dt_year :: int
  dt_month :: int
  dt_day :: int
  dt_hour :: int
  dt_minute :: int

record sched_db =
  firewall_schedules :: "(nat \<times> string) list option"
  firewall_schedule_ranges :: "(nat \<times> range_row) list option"

section \<open>One range\<close>

text \<open>\<open>datetime.time(h, m)\<close> raises outside 0-23 and 0-59.\<close>

definition parse_time :: "string \<Rightarrow> int \<times> int" where
  "parse_time t =
     (case split_on (CHR '':'') (strip t) of
        h # m # _ \<Rightarrow>
          (case (py_int h, py_int m) of
             (Some hh, Some mm) \<Rightarrow>
               (if 0 \<le> hh \<and> hh \<le> 23 \<and> 0 \<le> mm \<and> mm \<le> 59 then (hh, mm) else (0, 0))
           | _ \<Rightarrow> (0, 0))
      | _ \<Rightarrow> (0, 0))"

text \<open>The day numbers of \<open>days_csv\<close>; \<open>None\<close> when an item is not an integer.\<close>

definition parse_days :: "string \<Rightarrow> int list option" where
  "parse_days s =
     (let ds = map py_int (filter (\<lambda>d. d \<noteq> []) (map strip (split_on (CHR '','') s)))
      in if None \<in> set ds then None else Some (map the ds))"

definition day_excluded :: "string \<Rightarrow> int \<Rightarrow> bool" where
  "day_excluded days_csv day \<longleftrightarrow>
     days_csv \<noteq> [] \<and> (case parse_days days_csv of None \<Rightarrow> False | Some allowed \<Rightarrow> day \<notin> set allowed)"

definition range_active :: "range_row \<Rightarrow> datetime \<Rightarrow> bool" where
  "range_active r now =
     (let year = or_int (rr_year r) 0; month = or_int (rr_month r) 0;
          days_csv = strip (or_str (rr_days_csv r) []);
          start_t = parse_time (or_str (rr_start_time r) ''00:00'');
          end_t = parse_time (or_str (rr_end_time r) ''23:59'');
          now_t = (dt_hour now, dt_minute now)
      in if year \<noteq> 0 \<and> year \<noteq> dt_year now then False
         else if month \<noteq> 0 \<and> month \<noteq> dt_month now then False
         else if day_excluded days_csv (dt_day now) then False
         else if start_t \<le> end_t then start_t \<le> now_t \<and> now_t \<le> end_t
         else start_t \<le> now_t \<or> now_t \<le> end_t)"

section \<open>Schedules\<close>

definition ranges_of :: "(nat \<times> range_row) list \<Rightarrow> nat \<Rightarrow> range_row list" where
  "ranges_of rs sid = map snd (filter (\<lambda>r. fst r = sid) rs)"

definition is_schedule_active :: "sched_db \<Rightarrow> string \<Rightarrow> datetime \<Rightarrow> bool" where
  "is_schedule_active db schedule_name now =
     (case firewall_schedules db of
        None \<Rightarrow> False
      | Some ss \<Rightarrow>
          (case find_by snd schedule_name ss of
             None \<Rightarrow> False
           | Some (sid, _) \<Rightarrow>
               (case firewall_schedule_ranges db of
                  None \<Rightarrow> False
                | Some rs \<Rightarrow> list_ex (\<lambda>r. range_active r now) (ranges_of rs sid))))"

text \<open>The dict of all states; a failing range query ends the loop with what was collected.\<close>

definition get_all_schedule_states :: "sched_db \<Rightarrow> datetime \<Rightarrow> (string \<rightharpoonup> bool)" where
  "get_all_schedule_states db now =
     (case (firewall_schedules db, firewall_schedule_ranges db) of
        (Some ss, Some rs) \<Rightarrow>
          fold (\<lambda>(sid, name) m.
                  m(name \<mapsto> list_ex (\<lambda>r. range_active r now) (ranges_of rs sid))) ss Map.empty
      | _ \<Rightarrow> Map.empty)"

section \<open>Selecting rules\<close>

text \<open>
  The loop of \<open>filter_rules_by_schedule\<close> over rules with a schedule column, threading the
  cache; \<open>sched\<close> reads the column of a rule.
\<close>

fun filter_loop :: "sched_db \<Rightarrow> datetime \<Rightarrow> ('r \<Rightarrow> string option) \<Rightarrow> (string \<rightharpoonup> bool) \<Rightarrow> 'r list
    \<Rightarrow> 'r list" where
  "filter_loop db now sched cache [] = []"
| "filter_loop db now sched cache (rule # rest) =
     (let sched_name = strip (or_str (sched rule) []) in
      if sched_name = [] then rule # filter_loop db now sched cache rest
      else (let cache' = (if cache sched_name = None
                          then cache(sched_name \<mapsto> is_schedule_active db sched_name now)
                          else cache)
            in if cache' sched_name = Some True
               then rule # filter_loop db now sched cache' rest
               else filter_loop db now sched cache' rest))"

definition filter_rules_by_schedule :: "sched_db \<Rightarrow> datetime \<Rightarrow> ('r \<Rightarrow> string option) \<Rightarrow> 'r list
    \<Rightarrow> 'r list" where
  "filter_rules_by_schedule db now sched rules = filter_loop db now sched Map.empty rules"

text \<open>The specification without the cache.\<close>

definition rule_in_force :: "sched_db \<Rightarrow> datetime \<Rightarrow> ('r \<Rightarrow> string option) \<Rightarrow> 'r \<Rightarrow> bool" where
  "rule_in_force db now sched r \<longleftrightarrow>
     (let n = strip (or_str (sched r) []) in n = [] \<or> is_schedule_active db n now)"

lemma filter_loop_eq:
  assumes "\<And>n b. cache n = Some b \<Longrightarrow> b = is_schedule_active db n now"
  shows "filter_loop db now sched cache rules = filter (rule_in_force db now sched) rules"
  using assms
proof (induction rules arbitrary: cache)
  case (Cons r rules)
  let ?n = "strip (or_str (sched r) [])"
  let ?c = "if cache ?n = None then cache(?n \<mapsto> is_schedule_active db ?n now) else cache"
  have c: "\<And>n b. ?c n = Some b \<Longrightarrow> b = is_schedule_active db n now"
    using Cons.prems by (auto split: if_splits)
  have "?c ?n = Some (is_schedule_active db ?n now)"
    using Cons.prems by (cases "cache ?n") auto
  then show ?case
    using Cons.IH[OF c] Cons.IH[OF Cons.prems]
    by (simp add: rule_in_force_def Let_def del: or_str_None_empty)
qed simp

lemma filter_rules_by_schedule_eq:
  "filter_rules_by_schedule db now sched rules = filter (rule_in_force db now sched) rules"
  unfolding filter_rules_by_schedule_def by (rule filter_loop_eq) simp

lemma parse_time_range:
  "0 \<le> fst (parse_time t) \<and> fst (parse_time t) \<le> 23 \<and> 0 \<le> snd (parse_time t) \<and> snd (parse_time t) \<le> 59"
  by (auto simp: parse_time_def split: list.splits option.splits prod.splits)

text \<open>The time of day in minutes.\<close>

definition minutes :: "int \<times> int \<Rightarrow> int" where
  "minutes t = 60 * fst t + snd t"

lemma minutes_le_iff:
  "0 \<le> snd s \<Longrightarrow> snd s \<le> 59 \<Longrightarrow> 0 \<le> snd t \<Longrightarrow> snd t \<le> 59 \<Longrightarrow> s \<le> t \<longleftrightarrow> minutes s \<le> minutes t"
  by (cases s; cases t) (auto simp: minutes_def)


section \<open>Properties\<close>

text \<open>
  The rules kept by the cached loop are, in order, those without a schedule and those whose
  schedule is active now.
\<close>

theorem schedule_filter_selects:
  "filter_rules_by_schedule db now sched rules = filter (rule_in_force db now sched) rules"
  by (rule filter_rules_by_schedule_eq)

text \<open>
  Within its year, month and days a range is active exactly when no more minutes of a
  24-hour clock have passed since its start than lie between its start and its end; an end
  before the start therefore means the following morning.
\<close>

theorem range_active_on_clock:
  assumes "0 \<le> dt_hour now" "dt_hour now \<le> 23" "0 \<le> dt_minute now" "dt_minute now \<le> 59"
    and "s = minutes (parse_time (or_str (rr_start_time r) ''00:00''))"
    and "e = minutes (parse_time (or_str (rr_end_time r) ''23:59''))"
  shows "range_active r now \<longleftrightarrow>
     or_int (rr_year r) 0 \<in> {0, dt_year now} \<and> or_int (rr_month r) 0 \<in> {0, dt_month now}
     \<and> \<not> day_excluded (strip (or_str (rr_days_csv r) [])) (dt_day now)
     \<and> (minutes (dt_hour now, dt_minute now) - s) mod 1440 \<le> (e - s) mod 1440"
proof -
  define st where "st = parse_time (or_str (rr_start_time r) ''00:00'')"
  define en where "en = parse_time (or_str (rr_end_time r) ''23:59'')"
  define n where "n = (dt_hour now, dt_minute now)"
  have b: "0 \<le> minutes x \<and> minutes x < 1440" "0 \<le> snd x \<and> snd x \<le> 59" if "x \<in> {st, en, n}" for x
    using that assms(1-4) parse_time_range[of "or_str (rr_start_time r) ''00:00''"]
      parse_time_range[of "or_str (rr_end_time r) ''23:59''"]
    by (auto simp: minutes_def st_def en_def n_def)
  have m: "(a - b) mod 1440 = (if b \<le> a then a - b else a - b + 1440)"
    if "0 \<le> a" "a < 1440" "0 \<le> b" "b < 1440" for a b :: int
    using that mod_pos_pos_trivial[of "a - b" 1440] mod_pos_pos_trivial[of "a - b + 1440" 1440] by auto
  have le: "x \<le> y \<longleftrightarrow> minutes x \<le> minutes y" if "x \<in> {st, en, n}" "y \<in> {st, en, n}" for x y
    using b(2)[OF that(1)] b(2)[OF that(2)] by (intro minutes_le_iff) auto
  have "(if st \<le> en then st \<le> n \<and> n \<le> en else st \<le> n \<or> n \<le> en)
      \<longleftrightarrow> (minutes n - minutes st) mod 1440 \<le> (minutes en - minutes st) mod 1440"
    using b(1)[of st] b(1)[of en] b(1)[of n] by (simp add: le m)
  then show ?thesis
    by (auto simp: range_active_def Let_def assms(5,6) st_def en_def n_def simp del: or_str_None_empty)
qed

lemma range_active_on_clock_witness:
  "range_active \<lparr>rr_year = None, rr_month = None, rr_days_csv = None, rr_start_time = None, rr_end_time = None\<rparr>
     \<lparr>dt_year = 2026, dt_month = 5, dt_day = 4, dt_hour = 12, dt_minute = 30\<rparr>"
proof -
  let ?r = "\<lparr>rr_year = None, rr_month = None, rr_days_csv = None, rr_start_time = None, rr_end_time = None\<rparr>"
  let ?now = "\<lparr>dt_year = 2026, dt_month = 5, dt_day = 4, dt_hour = 12, dt_minute = 30\<rparr>"
  have "parse_time ''00:00'' = (0, 0)" "parse_time ''23:59'' = (23, 59)"
    by (simp_all add: parse_time_def strip_id stripped_no_space is_space_def code_def py_int_def
        all_digits_def nat_of_digits_def is_digit_def digit_val_def)
  then show ?thesis
    using range_active_on_clock[of ?now _ ?r] by (simp add: minutes_def day_excluded_def strip_def lstrip_def rstrip_def)
qed

end
