(* ===== verification/PfRows.thy ===== *)
theory PfRows
  imports ContentPolicy ScheduleService
begin

text \<open>
  The rows \<^verbatim>\<open>app/services/pf_generator.py\<close> reads, as columns of the schema in
  \<^verbatim>\<open>app/database.py\<close>.  A table whose query the code guards is \<open>None\<close> when the query
  raises; the others always exist.  Tables are in rowid order.
\<close>

record iface_cfg =
  if_id :: nat
  if_port :: "string option"
  if_ipv4 :: "string option"
  if_ipv4_type :: "string option"
  if_mss :: pyval

record alias_row =
  as_name :: string
  as_type :: "string option"
  as_values :: "string option"

record outbound_row =
  no_id :: nat
  no_order :: "int option"
  no_disabled :: bool
  no_interface :: "string option"
  no_src :: "string option"
  no_dst :: "string option"
  no_nat :: "string option"
  no_static_port :: "int option"
  no_description :: "string option"

record one_to_one_row =
  n1_id :: nat
  n1_order :: "int option"
  n1_disabled :: bool
  n1_interface :: "string option"
  n1_external :: "string option"
  n1_internal :: "string option"
  n1_description :: "string option"

record forward_row =
  nf_id :: nat
  nf_order :: "int option"
  nf_disabled :: bool
  nf_interface :: "string option"
  nf_protocol :: "string option"
  nf_src :: "string option"
  nf_dst_type :: "string option"
  nf_dst :: "string option"
  nf_dst_port :: "string option"
  nf_redirect_ip :: "string option"
  nf_redirect_port :: "string option"
  nf_description :: "string option"

record npt_row =
  np_id :: nat
  np_order :: "int option"
  np_disabled :: bool
  np_interface :: "string option"
  np_src_not :: "int option"
  np_src :: "string option"
  np_dst_not :: "int option"
  np_dst :: "string option"
  np_description :: "string option"

text \<open>A row of the floating, WAN or LAN table; WAN rows have no interface column.\<close>

record fw_rule =
  fw_id :: nat
  fw_order :: "int option"
  fw_disabled :: bool
  fw_action :: "string option"
  fw_interface :: "string option"
  fw_protocol :: "string option"
  fw_source :: "string option"
  fw_source_port :: "string option"
  fw_destination :: "string option"
  fw_dest_port :: "string option"
  fw_description :: "string option"
  fw_schedule :: "string option"
  fw_log_enabled :: "int option"

record shaper_row =
  sh_id :: nat
  sh_interface_type :: "string option"
  sh_enabled :: bool
  sh_name :: "string option"
  sh_scheduler :: "string option"
  sh_bandwidth :: "int option"
  sh_unit :: "string option"
  sh_queue_limit :: "int option"
  sh_tbr_size :: "int option"

record queue_row =
  qu_id :: nat
  qu_enabled :: bool
  qu_name :: "string option"
  qu_ack :: "string option"
  qu_protocol :: "string option"
  qu_source :: "string option"
  qu_source_port :: "string option"
  qu_destination :: "string option"
  qu_dest_port :: "string option"

record vip_row =
  vi_id :: nat
  vi_type :: "string option"
  vi_interface :: "string option"
  vi_address :: "string option"
  vi_prefix :: "int option"

record limiter_row =
  li_id :: nat
  li_enabled :: bool
  li_name :: "string option"
  li_bandwidth :: "int option"
  li_unit :: "string option"
  li_delay :: "int option"
  li_queue :: "int option"

record gateway_row =
  gw_id :: nat
  gw_gateway :: "string option"
  gw_interface :: "string option"

record route_row =
  pr_id :: nat
  pr_priority :: "int option"
  pr_enabled :: bool
  pr_interface_type :: "string option"
  pr_source :: "string option"
  pr_destination :: "string option"
  pr_description :: "string option"
  pr_gateway_id :: "nat option"

record soc_row =
  so_enabled :: "int option"
  so_bind_ip :: "string option"
  so_bind_port :: "int option"

record ovpn_row =
  ov_id :: nat
  ov_disabled :: "int option"
  ov_protocol :: "string option"
  ov_interface :: "string option"
  ov_port :: "int option"

record phase1_row =
  p1_disabled :: "int option"
  p1_interface :: "string option"

record l2tp_row =
  l2_enabled :: "int option"
  l2_psk :: "string option"

text \<open>
  A row of \<open>advanced_firewall_nat\<close> is its dict; \<open>l2tp_users\<close> is the number of its rows.
\<close>

record pf_db =
  lan_config :: "iface_cfg list"
  wan_config :: "iface_cfg list"
  adv_nat :: "(nat \<times> (string \<times> pyval) list) list option"
  admin_access :: "pyval list option"
  aliases :: "alias_row list"
  nat_outbound :: "outbound_row list"
  nat_1to1 :: "one_to_one_row list"
  nat_pf :: "forward_row list"
  nat_npt :: "npt_row list"
  floating_rules :: "fw_rule list"
  wan_rules :: "fw_rule list"
  lan_rules :: "fw_rule list"
  shaper_configs :: "shaper_row list option"
  shaper_queues :: "queue_row list option"
  virtual_ips :: "vip_row list option"
  limiters :: "limiter_row list option"
  policy_routes :: "route_row list option"
  gateways :: "gateway_row list"
  soc_portal :: "soc_row option option"
  l2tp_users :: "nat option"
  l2tp_config :: "l2tp_row option option"
  openvpn_servers :: "ovpn_row list option"
  ipsec_phase1 :: "phase1_row list option"
  policy :: policy_db
  schedules :: sched_db

text \<open>
  What generation takes from outside: the time, \<open>json.loads\<close> on an alias text
  (\<open>None\<close> when it raises), and the probe \<open>dns_writer.unbound_listening_on_lan\<close>
  (\<open>None\<close> when it raises).
\<close>

record pf_env =
  env_now :: datetime
  env_loads :: "string \<Rightarrow> pyval option"
  env_unbound :: "bool option"

text \<open>\<open>ORDER BY order, id\<close>.\<close>

definition by_order :: "('r \<Rightarrow> int option) \<Rightarrow> ('r \<Rightarrow> nat) \<Rightarrow> 'r list \<Rightarrow> 'r list" where
  "by_order ord rid rs = sort_key (\<lambda>r. (ord r, rid r)) rs"

lemma set_by_order [simp]: "set (by_order ord rid rs) = set rs"
  by (simp add: by_order_def)

end
