(* ===== verification/PfStaticValidator.thy ===== *)
theory PfStaticValidator
  imports PyString
begin

text \<open>
  \<^verbatim>\<open>app/services/pf_static_validator.py\<close>: the static check of a pf.conf text.  PF wants
  options, normalisation, queueing, translation and filtering in this order; the check
  scans the lines and raises at the first line of an earlier section after a later one.
  The lemmas relate the scan to sortedness of the list of sections, and give the calculus
  of \<open>text_sections\<close> by which the generator's output is checked block by block.
\<close>

section \<open>The first token of a line\<close>

definition is_tok :: "char \<Rightarrow> bool" where
  "is_tok c \<longleftrightarrow> is_alnum c \<or> c = CHR ''-''"

definition is_word :: "char \<Rightarrow> bool" where
  "is_word c \<longleftrightarrow> is_alnum c \<or> c = CHR ''_''"

text \<open>\<open>\b\<close> after the first \<open>n\<close> characters (\<open>0 < n\<close>).\<close>

definition word_boundary :: "string \<Rightarrow> nat \<Rightarrow> bool" where
  "word_boundary s n \<longleftrightarrow> is_word (s ! (n - 1)) \<noteq> (n < length s \<and> is_word (s ! n))"

text \<open>
  \<open>^\s*([A-Za-z][A-Za-z0-9-]*)\b\<close> on a stripped line: the longest run of token characters
  that ends at a word boundary.
\<close>

definition token_match :: "string \<Rightarrow> string option" where
  "token_match s =
     (if s = [] \<or> \<not> is_alpha (hd s) then None
      else map_option (\<lambda>n. take n s)
             (find (word_boundary s) (rev [1..<Suc (length (takeWhile is_tok s))])))"

definition first_token :: "string \<Rightarrow> string option" where
  "first_token line =
     (let s = strip line in
      if s = [] \<or> startswith s ''#'' then None
      else map_option lower (token_match s))"

section \<open>Sections\<close>

definition section_by_token :: "(string \<times> nat) list" where
  "section_by_token =
     [(''set'', 2), (''scrub'', 3), (''altq'', 4), (''queue'', 4),
      (''rdr'', 5), (''nat'', 5), (''binat'', 5), (''rdr-anchor'', 5), (''nat-anchor'', 5),
      (''antispoof'', 6), (''pass'', 6), (''block'', 6), (''match'', 6),
      (''anchor'', 6), (''load'', 6)]"

fun section_name :: "nat \<Rightarrow> string" where
  "section_name n =
     (if n = 2 then ''options'' else if n = 3 then ''normalization (scrub)''
      else if n = 4 then ''queueing'' else if n = 5 then ''translation (rdr/nat/binat)''
      else ''filtering (pass/block/antispoof)'')"

definition order_message :: "nat \<Rightarrow> string \<Rightarrow> string \<Rightarrow> nat \<Rightarrow> nat \<times> string \<times> nat \<Rightarrow> string" where
  "order_message idx raw tok sec h =
     (case h of (h_idx, h_text, h_sec) \<Rightarrow>
        ''PF section-order violation: line '' @ str_nat idx @ '' keyword '' @ py_repr tok @ '' ('' @
        section_name sec @ '') follows line '' @ str_nat h_idx @ '' ('' @ section_name h_sec @
        '' '' @ em_dash @ '' '' @ py_repr h_text @ ''). '' @
        ''PF requires sections to appear in order: macros/tables '' @ arrow @ '' options '' @ arrow @
        '' scrub '' @ arrow @ '' queueing '' @ arrow @ '' translation '' @ arrow @ '' filtering.'' @ nl @
        ''Offending line: '' @ py_repr (strip raw))"

fun scan_sections :: "nat \<Rightarrow> (nat \<times> string \<times> nat) option \<Rightarrow> (nat \<times> string) list \<Rightarrow> unit res" where
  "scan_sections highest seen [] = Inr ()"
| "scan_sections highest seen ((idx, raw) # rest) =
     (case first_token raw of
        None \<Rightarrow> scan_sections highest seen rest
      | Some tok \<Rightarrow>
          (case map_of section_by_token tok of
             None \<Rightarrow> scan_sections highest seen rest
           | Some sec \<Rightarrow>
               (if sec \<ge> highest then scan_sections sec (Some (idx, strip raw, sec)) rest
                else case seen of
                  None \<Rightarrow> Inl (RuntimeError ''AssertionError'')
                | Some h \<Rightarrow> Inl (PfRuleOrderError (order_message idx raw tok sec h)))))"

definition validate_section_order :: "string \<Rightarrow> unit res" where
  "validate_section_order text = scan_sections 0 None (number_from 1 (splitlines text))"

section \<open>Anchor order\<close>

definition is_cp_anchor :: "string \<Rightarrow> bool" where
  "is_cp_anchor s \<longleftrightarrow> contains ''captive_portal_filter'' s
     \<and> (startswith s ''anchor'' \<or> startswith s ''load anchor'')"

definition is_dns_intercept :: "string \<Rightarrow> bool" where
  "is_dns_intercept s \<longleftrightarrow> startswith s ''rdr'' \<and> contains '' port 53'' (take 320 s)"

definition is_broad_allow :: "string \<Rightarrow> bool" where
  "is_broad_allow s \<longleftrightarrow>
     (let low = lower s in
      startswith low ''pass'' \<and> contains '' on '' low \<and> contains '' from '' low
      \<and> contains '' to any'' low \<and> \<not> contains '' port '' low)"

definition rule_lines :: "string \<Rightarrow> (nat \<times> string) list" where
  "rule_lines text =
     filter (\<lambda>(i, s). s \<noteq> [] \<and> \<not> startswith s ''#'')
       (map (\<lambda>(i, raw). (i, strip raw)) (number_from 1 (splitlines text)))"

text \<open>The loop keeps the last anchor, the last intercept and the first broad rule.\<close>

fun anchor_loop :: "nat option \<times> nat option \<times> (nat \<times> string) option \<Rightarrow> (nat \<times> string) list
    \<Rightarrow> nat option \<times> nat option \<times> (nat \<times> string) option" where
  "anchor_loop st [] = st"
| "anchor_loop (cp, dns, broad) ((idx, s) # rest) =
     anchor_loop
       (if is_cp_anchor s then Some idx else cp,
        if is_dns_intercept s then Some idx else dns,
        if is_broad_allow s \<and> broad = None then Some (idx, s) else broad) rest"

definition broad_message :: "nat \<times> string \<Rightarrow> string" where
  "broad_message b =
     ''PF anchor-order violation: broad LAN pass on line '' @ str_nat (fst b) @ '' ('' @
     py_repr (snd b) @ '') appears ''"

definition check_broad :: "bool \<Rightarrow> (nat \<times> string) option \<Rightarrow> nat option \<Rightarrow> (nat \<Rightarrow> string)
    \<Rightarrow> unit res" where
  "check_broad flag broad pos msg =
     (case (broad, pos) of
        (Some b, Some c) \<Rightarrow>
          (if flag \<and> fst b < c then Inl (PfRuleOrderError (broad_message b @ msg c)) else Inr ())
      | _ \<Rightarrow> Inr ())"

definition validate_anchor_order :: "string \<Rightarrow> bool \<Rightarrow> bool \<Rightarrow> unit res" where
  "validate_anchor_order text captive_portal_before_lan_allow dns_intercept_before_lan_allow =
     (case anchor_loop (None, None, None) (rule_lines text) of
        (cp, dns, broad) \<Rightarrow>
          bind_res
            (check_broad captive_portal_before_lan_allow broad cp
               (\<lambda>c. ''before the captive_portal_filter anchor on line '' @ str_nat c @
                     ''. Unauthenticated clients would bypass the portal.''))
            (\<lambda>_. check_broad dns_intercept_before_lan_allow broad dns
               (\<lambda>d. ''before the DNS intercept rdr on line '' @ str_nat d @
                     ''. LAN clients could reach upstream DNS directly and bypass '' @
                     ''content policy.'')))"

section \<open>The scan as sortedness\<close>

definition line_section :: "string \<Rightarrow> nat option" where
  "line_section raw = Option.bind (first_token raw) (map_of section_by_token)"

definition lines_sections :: "string list \<Rightarrow> nat list" where
  "lines_sections ls = List.map_filter line_section ls"

definition text_sections :: "string \<Rightarrow> nat list" where
  "text_sections text = lines_sections (splitlines text)"

lemma lines_sections_simps [simp]:
  "lines_sections [] = []"
  "lines_sections (l # ls) =
     (case line_section l of None \<Rightarrow> lines_sections ls | Some n \<Rightarrow> n # lines_sections ls)"
  "lines_sections (ls @ ms) = lines_sections ls @ lines_sections ms"
  by (simp_all add: lines_sections_def map_filter_simps split: option.split)
    (simp add: List.map_filter_def)

lemma scan_sections_sorted:
  assumes "seen = None \<longrightarrow> highest = 0"
  shows "scan_sections highest seen ls = Inr () \<longleftrightarrow>
           sorted (highest # lines_sections (map snd ls))"
  using assms
proof (induction highest seen ls rule: scan_sections.induct)
  case (2 highest seen idx raw rest)
  show ?case
  proof (cases "line_section raw")
    case None
    with 2 show ?thesis
      by (cases "first_token raw") (auto simp: line_section_def)
  next
    case (Some sec)
    then obtain tok where tok: "first_token raw = Some tok" "map_of section_by_token tok = Some sec"
      by (auto simp: line_section_def Option.bind_eq_Some_conv)
    show ?thesis
    proof (cases "highest \<le> sec")
      case True
      have "scan_sections sec (Some (idx, strip raw, sec)) rest = Inr () \<longleftrightarrow>
              sorted (sec # lines_sections (map snd rest))"
        using "2.IH"(3)[OF tok True] by simp
      with True Some tok show ?thesis by (auto dest: order_trans)
    next
      case False
      with Some tok show ?thesis by (auto split: option.split)
    qed
  qed
qed simp

lemma map_snd_number_from [simp]: "map snd (number_from i xs) = xs"
  by (induction i xs rule: number_from.induct) auto

text \<open>A failing scan always raises the order error, never the assertion.\<close>

lemma scan_sections_error:
  "seen = None \<longrightarrow> highest = 0 \<Longrightarrow> scan_sections highest seen ls = Inl e \<Longrightarrow>
     \<exists>m. e = PfRuleOrderError m"
  by (induction highest seen ls rule: scan_sections.induct)
    (auto split: option.splits if_splits)

section \<open>Sections of generated text\<close>

text \<open>Lines each ended by a newline.\<close>

definition line_text :: "string list \<Rightarrow> string" where
  "line_text ls = concat (map (\<lambda>l. l @ nl) ls)"

lemma line_text_simps [simp]:
  "line_text [] = []"
  "line_text (l # ls) = l @ CHR 0x0A # line_text ls"
  "line_text (ls @ ms) = line_text ls @ line_text ms"
  by (simp_all add: line_text_def nl_def)

lemma splitlines_line_text:
  "list_all no_break ls \<Longrightarrow> splitlines (line_text ls @ rest) = ls @ splitlines rest"
  by (induction ls) (simp_all add: splitlines_cons_line)

lemma text_sections_line_text:
  "list_all no_break ls \<Longrightarrow>
     text_sections (line_text ls @ rest) = lines_sections ls @ text_sections rest"
  by (simp add: text_sections_def splitlines_line_text)

text \<open>The builders return \<open>"\n".join(lines)\<close> after \<open>lines.append("")\<close>.\<close>

lemma join_nl_line_text: "ls \<noteq> [] \<Longrightarrow> join nl (ls @ [[]]) = line_text ls"
proof (induction ls)
  case (Cons l ls)
  then show ?case by (cases ls) (simp_all add: nl_def)
qed simp

section \<open>Sections of single lines\<close>

lemma find_rev_last: "P n \<Longrightarrow> m \<le> n \<Longrightarrow> find P (rev [m..<Suc n]) = Some n"
  by simp

lemma token_match_kw:
  assumes "kw \<noteq> []" "is_alpha (hd kw)" "list_all is_tok kw" "is_alnum (last kw)"
    and "rest = [] \<or> (\<not> is_tok (hd rest) \<and> \<not> is_word (hd rest))"
  shows "token_match (kw @ rest) = Some kw"
proof -
  have tw: "takeWhile is_tok (kw @ rest) = kw"
    using assms(3,5) by (cases rest) (auto simp: takeWhile_append list_all_iff takeWhile_eq_all_conv)
  have "is_word (last kw)" using assms(4) by (simp add: is_word_def)
  moreover have "(kw @ rest) ! (length kw - 1) = last kw"
    using assms(1) by (simp add: nth_append last_conv_nth)
  moreover have "length kw < length (kw @ rest) \<Longrightarrow> \<not> is_word ((kw @ rest) ! length kw)"
    using assms(5) by (cases rest) (auto simp: nth_append)
  ultimately have "word_boundary (kw @ rest) (length kw)"
    by (auto simp: word_boundary_def)
  moreover have "1 \<le> length kw" using assms(1) by (cases kw) auto
  ultimately show ?thesis
    using assms(1,2) by (simp add: token_match_def tw find_rev_last del: upt_Suc)
qed

lemma tok_not_space: "is_tok c \<Longrightarrow> \<not> is_space c"
  by (auto simp: is_tok_def alnum_not_space) (simp add: char_class_defs)

lemma space_not_tok: "is_space c \<Longrightarrow> \<not> is_tok c \<and> \<not> is_word c"
  by (auto simp: is_tok_def is_word_def alnum_not_space) (simp_all add: char_class_defs)

lemma alpha_not_hash: "is_alpha c \<Longrightarrow> c \<noteq> CHR ''#''"
  by (auto simp: char_class_defs)

text \<open>A line that opens with a keyword and a space has that keyword as its token.\<close>

lemma line_section_kw:
  assumes kw: "kw \<noteq> []" "is_alpha (hd kw)" "list_all is_tok kw" "is_alnum (last kw)"
    and sp: "is_space c"
  shows "line_section (kw @ c # rest) = map_of section_by_token (lower kw)"
proof -
  from kw obtain k ks where k: "kw = k # ks" by (cases kw) auto
  have "\<not> is_space k" using kw k by (simp add: tok_not_space)
  then have ls: "lstrip (kw @ c # rest) = kw @ c # rest" by (simp add: lstrip_def k)
  have rk: "rstrip kw = kw"
    using kw by (intro rstrip_id) (auto dest: alnum_not_space)
  have "\<exists>r. strip (kw @ c # rest) = kw @ r \<and> (r = [] \<or> (\<not> is_tok (hd r) \<and> \<not> is_word (hd r)))"
  proof (cases "rstrip (c # rest) = []")
    case True
    then have "\<forall>x \<in> set (c # rest). is_space x" by (simp only: rstrip_Nil_iff)
    then have "dropWhile is_space (rev (c # rest) @ rev kw) = dropWhile is_space (rev kw)"
      by (intro dropWhile_append2) auto
    then have "rstrip (kw @ c # rest) = kw" using rk by (simp add: rstrip_def)
    then show ?thesis using ls by (simp add: strip_def)
  next
    case False
    then have "strip (kw @ c # rest) = kw @ rstrip (c # rest)"
      unfolding strip_def ls by (intro rstrip_append) auto
    moreover obtain t where "rstrip (c # rest) = c # t"
      using False rstrip_prefix[of "c # rest"] by (cases "rstrip (c # rest)") auto
    ultimately show ?thesis using space_not_tok[OF sp] by auto
  qed
  then obtain r where st: "strip (kw @ c # rest) = kw @ r"
    and r: "r = [] \<or> (\<not> is_tok (hd r) \<and> \<not> is_word (hd r))" by blast
  have "\<not> startswith (kw @ r) ''#''" using kw k alpha_not_hash[of k] by auto
  with st k show ?thesis
    by (simp add: line_section_def first_token_def Let_def
        token_match_kw[OF kw r, unfolded k, simplified])
qed

lemma line_section_comment [line_simps]: "line_section (CHR ''#'' # rest) = None"
proof -
  have "\<not> is_space (CHR ''#'')" by (simp add: char_class_defs)
  then have "strip (CHR ''#'' # rest) = CHR ''#'' # rstrip rest"
    by (simp add: strip_def lstrip_def rstrip_Cons)
  then show ?thesis by (simp add: line_section_def first_token_def)
qed

lemma line_section_Nil [line_simps]: "line_section [] = None"
  by (simp add: line_section_def first_token_def)

text \<open>The keywords of generated lines.\<close>

lemma line_section_keywords [line_simps]:
  "line_section (CHR ''s'' # CHR ''e'' # CHR ''t'' # CHR '' '' # r) = Some 2"
  "line_section (CHR ''s'' # CHR ''c'' # CHR ''r'' # CHR ''u'' # CHR ''b'' # CHR '' '' # r) = Some 3"
  "line_section (CHR ''a'' # CHR ''l'' # CHR ''t'' # CHR ''q'' # CHR '' '' # r) = Some 4"
  "line_section (CHR ''q'' # CHR ''u'' # CHR ''e'' # CHR ''u'' # CHR ''e'' # CHR '' '' # r) = Some 4"
  "line_section (CHR ''r'' # CHR ''d'' # CHR ''r'' # CHR '' '' # r) = Some 5"
  "line_section (CHR ''n'' # CHR ''a'' # CHR ''t'' # CHR '' '' # r) = Some 5"
  "line_section (CHR ''b'' # CHR ''i'' # CHR ''n'' # CHR ''a'' # CHR ''t'' # CHR '' '' # r) = Some 5"
  "line_section (CHR ''b'' # CHR ''i'' # CHR ''n'' # CHR ''a'' # CHR ''t'' # CHR ''6'' # CHR '' '' # r) = None"
  "line_section (CHR ''p'' # CHR ''a'' # CHR ''s'' # CHR ''s'' # CHR '' '' # r) = Some 6"
  "line_section (CHR ''b'' # CHR ''l'' # CHR ''o'' # CHR ''c'' # CHR ''k'' # CHR '' '' # r) = Some 6"
  "line_section (CHR ''m'' # CHR ''a'' # CHR ''t'' # CHR ''c'' # CHR ''h'' # CHR '' '' # r) = Some 6"
  "line_section (CHR ''t'' # CHR ''a'' # CHR ''b'' # CHR ''l'' # CHR ''e'' # CHR '' '' # r) = None"
  "line_section (''antispoof'' @ CHR '' '' # r) = Some 6"
  "line_section (''rdr-anchor'' @ CHR '' '' # r) = Some 5"
  "line_section (''anchor'' @ CHR '' '' # r) = Some 6"
proof -
  note kw = is_tok_def char_class_defs section_by_token_def to_lower_def
  show "line_section (CHR ''s'' # CHR ''e'' # CHR ''t'' # CHR '' '' # r) = Some 2"
    using line_section_kw[of "''set''" "CHR '' ''" r] by (simp add: kw)
  show "line_section (CHR ''s'' # CHR ''c'' # CHR ''r'' # CHR ''u'' # CHR ''b'' # CHR '' '' # r) = Some 3"
    using line_section_kw[of "''scrub''" "CHR '' ''" r] by (simp add: kw)
  show "line_section (CHR ''a'' # CHR ''l'' # CHR ''t'' # CHR ''q'' # CHR '' '' # r) = Some 4"
    using line_section_kw[of "''altq''" "CHR '' ''" r] by (simp add: kw)
  show "line_section (CHR ''q'' # CHR ''u'' # CHR ''e'' # CHR ''u'' # CHR ''e'' # CHR '' '' # r) = Some 4"
    using line_section_kw[of "''queue''" "CHR '' ''" r] by (simp add: kw)
  show "line_section (CHR ''r'' # CHR ''d'' # CHR ''r'' # CHR '' '' # r) = Some 5"
    using line_section_kw[of "''rdr''" "CHR '' ''" r] by (simp add: kw)
  show "line_section (CHR ''n'' # CHR ''a'' # CHR ''t'' # CHR '' '' # r) = Some 5"
    using line_section_kw[of "''nat''" "CHR '' ''" r] by (simp add: kw)
  show "line_section (CHR ''b'' # CHR ''i'' # CHR ''n'' # CHR ''a'' # CHR ''t'' # CHR '' '' # r) = Some 5"
    using line_section_kw[of "''binat''" "CHR '' ''" r] by (simp add: kw)
  show "line_section (CHR ''b'' # CHR ''i'' # CHR ''n'' # CHR ''a'' # CHR ''t'' # CHR ''6'' # CHR '' '' # r) = None"
    using line_section_kw[of "''binat6''" "CHR '' ''" r] by (simp add: kw)
  show "line_section (CHR ''p'' # CHR ''a'' # CHR ''s'' # CHR ''s'' # CHR '' '' # r) = Some 6"
    using line_section_kw[of "''pass''" "CHR '' ''" r] by (simp add: kw)
  show "line_section (CHR ''b'' # CHR ''l'' # CHR ''o'' # CHR ''c'' # CHR ''k'' # CHR '' '' # r) = Some 6"
    using line_section_kw[of "''block''" "CHR '' ''" r] by (simp add: kw)
  show "line_section (CHR ''m'' # CHR ''a'' # CHR ''t'' # CHR ''c'' # CHR ''h'' # CHR '' '' # r) = Some 6"
    using line_section_kw[of "''match''" "CHR '' ''" r] by (simp add: kw)
  show "line_section (CHR ''t'' # CHR ''a'' # CHR ''b'' # CHR ''l'' # CHR ''e'' # CHR '' '' # r) = None"
    using line_section_kw[of "''table''" "CHR '' ''" r] by (simp add: kw)
  show "line_section (''antispoof'' @ CHR '' '' # r) = Some 6"
    using line_section_kw[of "''antispoof''" "CHR '' ''" r] by (simp add: kw)
  show "line_section (''rdr-anchor'' @ CHR '' '' # r) = Some 5"
    using line_section_kw[of "''rdr-anchor''" "CHR '' ''" r] by (simp add: kw)
  show "line_section (''anchor'' @ CHR '' '' # r) = Some 6"
    using line_section_kw[of "''anchor''" "CHR '' ''" r] by (simp add: kw)
qed

section \<open>The anchor check as an order condition\<close>

text \<open>The last numbered line with a property; the loop records the last and the first.\<close>

definition last_pos :: "(string \<Rightarrow> bool) \<Rightarrow> nat option \<Rightarrow> (nat \<times> string) list \<Rightarrow> nat option" where
  "last_pos P d ls = fold (\<lambda>(i, s) r. if P s then Some i else r) ls d"

definition first_line :: "(string \<Rightarrow> bool) \<Rightarrow> (nat \<times> string) option \<Rightarrow> (nat \<times> string) list
    \<Rightarrow> (nat \<times> string) option" where
  "first_line P d ls = (case d of Some b \<Rightarrow> Some b | None \<Rightarrow> find (\<lambda>(i, s). P s) ls)"

lemma anchor_loop_eq:
  "anchor_loop (cp, dns, broad) ls =
     (last_pos is_cp_anchor cp ls, last_pos is_dns_intercept dns ls,
      first_line is_broad_allow broad ls)"
proof (induction ls arbitrary: cp dns broad)
  case (Cons x ls)
  obtain i s where "x = (i, s)" by (cases x)
  with Cons show ?case
    by (auto simp: last_pos_def first_line_def split: option.split)
qed (simp add: last_pos_def first_line_def split: option.split)

lemma last_pos_None: "last_pos P d ls = None \<longleftrightarrow> d = None \<and> (\<forall>(i, s) \<in> set ls. \<not> P s)"
  by (induction ls arbitrary: d) (auto simp: last_pos_def split: if_splits)

lemma last_pos_Some:
  "last_pos P None ls = Some c \<Longrightarrow> sorted_wrt (<) (map fst ls) \<Longrightarrow>
     (\<exists>s. (c, s) \<in> set ls \<and> P s) \<and> (\<forall>(j, s) \<in> set ls. P s \<longrightarrow> j \<le> c)"
proof (induction ls rule: rev_induct)
  case (snoc x ls)
  obtain i s where x: "x = (i, s)" by (cases x)
  show ?case
  proof (cases "P s")
    case True
    with snoc.prems x show ?thesis
      by (fastforce simp: last_pos_def sorted_wrt_append)
  next
    case False
    with snoc x show ?thesis by (fastforce simp: last_pos_def sorted_wrt_append)
  qed
qed (simp add: last_pos_def)

lemma find_first_line:
  fixes ls :: "(nat \<times> string) list"
  assumes "find (\<lambda>(i, s). P s) ls = Some (i, s)" "sorted_wrt (<) (map fst ls)"
  shows "(i, s) \<in> set ls" "P s" "(j, t) \<in> set ls \<Longrightarrow> P t \<Longrightarrow> i \<le> j"
  using assms
  by (induction ls) (auto split: if_splits prod.splits intro: less_imp_le dest!: bspec)

text \<open>A broad allow rule stands above a line with property \<open>Q\<close>.\<close>

definition broad_above :: "(string \<Rightarrow> bool) \<Rightarrow> string \<Rightarrow> bool" where
  "broad_above Q text \<longleftrightarrow>
     (\<exists>(i, s) \<in> set (rule_lines text). is_broad_allow s
        \<and> (\<exists>(j, t) \<in> set (rule_lines text). Q t \<and> i < j))"

lemma number_from_sorted: "sorted_wrt (<) (map fst (number_from i xs))"
proof (induction i xs rule: number_from.induct)
  case (2 i x xs)
  then show ?case by (fastforce dest: number_from_ge)
qed simp

lemma rule_lines_sorted: "sorted_wrt (<) (map fst (rule_lines text))"
proof -
  have "map fst (map (\<lambda>(i, raw). (i, strip raw)) ls) = map fst ls" for ls :: "(nat \<times> string) list"
    by auto
  then have "sorted_wrt (<) (map fst (map (\<lambda>(i, raw). (i, strip raw))
      (number_from 1 (splitlines text))))"
    by (metis number_from_sorted)
  then have "sorted_wrt (\<lambda>x y. fst x < fst y) (map (\<lambda>(i, raw). (i, strip raw))
      (number_from 1 (splitlines text)))"
    by (simp only: sorted_wrt_map)
  then show ?thesis
    unfolding rule_lines_def sorted_wrt_map[of _ fst] by (rule sorted_wrt_filter)
qed

lemma check_broad_iff:
  "check_broad flag (first_line is_broad_allow None (rule_lines text))
     (last_pos Q None (rule_lines text)) msg = Inr () \<longleftrightarrow> \<not> (flag \<and> broad_above Q text)"
proof -
  let ?ls = "rule_lines text"
  note srt = rule_lines_sorted[of "text"]
  consider
      (nobroad) "find (\<lambda>(i, s). is_broad_allow s) ?ls = None" 
    | (nopos) "last_pos Q None ?ls = None"
    | (both) i s c where "find (\<lambda>(i, s). is_broad_allow s) ?ls = Some (i, s)" "last_pos Q None ?ls = Some c"
    by (metis not_None_eq surj_pair)
  then show ?thesis
  proof cases
    case nobroad
    then have "\<not> broad_above Q text"
      by (auto simp: broad_above_def find_None_iff)
    with nobroad show ?thesis by (simp add: check_broad_def first_line_def)
  next
    case nopos
    then have "\<not> broad_above Q text"
      by (auto simp: broad_above_def last_pos_None)
    with nopos show ?thesis by (simp add: check_broad_def split: option.split)
  next
    case (both i s c)
    note fl = find_first_line[OF both(1) srt]
    from last_pos_Some[OF both(2) srt] obtain t where t: "(c, t) \<in> set ?ls" "Q t"
      and last: "\<And>j u. (j, u) \<in> set ?ls \<Longrightarrow> Q u \<Longrightarrow> j \<le> c" by blast
    have "broad_above Q text \<longleftrightarrow> i < c"
    proof
      assume "broad_above Q text"
      then obtain a u b v where "(a, u) \<in> set ?ls" "is_broad_allow u" "(b, v) \<in> set ?ls" "Q v" "a < b"
        by (auto simp: broad_above_def)
      then show "i < c" using fl(3)[of a u] last[of b v] by simp
    next
      assume "i < c"
      then show "broad_above Q text"
        unfolding broad_above_def using fl(1,2) t by blast
    qed
    with both show ?thesis by (auto simp: check_broad_def first_line_def)
  qed
qed


section \<open>Properties\<close>

text \<open>
  The section check accepts a text exactly when the sections of its lines never go
  backwards, and the only exception it raises is the order error.
\<close>

theorem section_order_iff_sorted:
  "(validate_section_order t = Inr () \<longleftrightarrow> sorted (text_sections t))
     \<and> \<not> (\<exists>e. validate_section_order t = Inl e \<and> (\<nexists>m. e = PfRuleOrderError m))"
  using scan_sections_sorted[of None 0 "number_from 1 (splitlines t)"]
    scan_sections_error[of None 0 "number_from 1 (splitlines t)"]
  by (auto simp: validate_section_order_def text_sections_def)

text \<open>
  With both checks on, the anchor check accepts a text exactly when no broad pass rule
  stands above a captive-portal anchor or above a DNS intercept.
\<close>

theorem anchor_order_iff:
  "validate_anchor_order t cp dns = Inr () \<longleftrightarrow>
     \<not> (cp \<and> broad_above is_cp_anchor t) \<and> \<not> (dns \<and> broad_above is_dns_intercept t)"
proof -
  have "validate_anchor_order t cp dns = bind_res
      (check_broad cp (first_line is_broad_allow None (rule_lines t)) (last_pos is_cp_anchor None (rule_lines t))
         (\<lambda>c. ''before the captive_portal_filter anchor on line '' @ str_nat c @
               ''. Unauthenticated clients would bypass the portal.''))
      (\<lambda>_. check_broad dns (first_line is_broad_allow None (rule_lines t)) (last_pos is_dns_intercept None (rule_lines t))
         (\<lambda>d. ''before the DNS intercept rdr on line '' @ str_nat d @
               ''. LAN clients could reach upstream DNS directly and bypass '' @ ''content policy.''))"
    by (simp add: validate_anchor_order_def anchor_loop_eq)
  then show ?thesis by (simp add: bind_res_Inr check_broad_iff)
qed

end
