(* ===== verification/PfBuilders.thy ===== *)
theory PfBuilders
  imports PfRows IpAddress PfStaticValidator
begin

text \<open>
  The block builders of \<^verbatim>\<open>app/services/pf_generator.py\<close> before the hardening rules:
  aliases, NAT, firewall rules, traffic shaper, virtual IPs, limiters, scrub.  A builder gives
  the lines it collects; \<open>block_text\<close> is its \<open>lines.append(""); "\n".join(lines)\<close>.
\<close>

section \<open>Helpers\<close>

definition block_text :: "string list \<Rightarrow> string" where
  "block_text ls = join nl (ls @ [[]])"

definition header :: "string \<Rightarrow> string" where
  "header title = ''# '' @ rule_line @ '' '' @ title @ '' '' @ rule_line"

definition dq :: "string \<Rightarrow> string" where
  "dq s = CHR 0x22 # s @ [CHR 0x22]"

definition addr :: "string option \<Rightarrow> string" where
  "addr a = (let s = strip (or_str a []) in if s = [] \<or> lower s = ''any'' then ''any'' else s)"

definition proto_line :: "string option \<Rightarrow> string" where
  "proto_line proto =
     (let p = lower (strip (or_str proto [])) in
      if p \<in> set [''any'', ''all'', ''''] then ''''
      else if p \<in> set [''tcp+udp'', ''tcp/udp''] then ''proto { tcp udp } ''
      else if p \<in> set [''icmpv6'', ''ipv6-icmp''] then ''proto icmp6 ''
      else ''proto '' @ p @ '' '')"

datatype pf_act = Pass | Block | BlockReturn

fun act_str :: "pf_act \<Rightarrow> string" where
  "act_str Pass = ''pass''"
| "act_str Block = ''block''"
| "act_str BlockReturn = ''block return''"

definition pf_action :: "string option \<Rightarrow> pf_act" where
  "pf_action action =
     (let a = lower (or_str action ''pass'') in
      if a = ''reject'' then BlockReturn else if a = ''block'' then Block else Pass)"

definition portless_protos :: "string list" where
  "portless_protos = [''icmp'', ''icmpv6'', ''ipv6-icmp'', ''esp'', ''ah'', ''gre'']"

text \<open>\<open>re.sub(r"^(\d+)-(\d+)$", r"\1:\2", part)\<close>.\<close>

definition colon_range :: "string \<Rightarrow> string" where
  "colon_range part =
     (let a = takeWhile is_digit part; rest = dropWhile is_digit part in
      case rest of
        [] \<Rightarrow> part
      | c # b \<Rightarrow> (if a \<noteq> [] \<and> c = CHR ''-'' \<and> all_digits b then a @ '':'' @ b else part))"

definition is_port_split :: "char \<Rightarrow> bool" where
  "is_port_split c \<longleftrightarrow> c = CHR '','' \<or> is_space c"

definition port_line :: "string option \<Rightarrow> string" where
  "port_line port =
     (let p = strip (or_str port []) in
      if p = [] \<or> lower p = ''any'' then ''''
      else (let parts = map colon_range
                  (filter (\<lambda>x. x \<noteq> []) (map strip (split_runs is_port_split p)))
            in if length parts = 1 then ''port '' @ hd parts @ '' ''
               else ''port { '' @ join '' '' parts @ '' } ''))"

text \<open>A description is a comment line above the rule.\<close>

definition comment :: "string option \<Rightarrow> string list" where
  "comment d = (let s = strip (or_str d []) in if s = [] then [] else [''# '' @ s])"

section \<open>Aliases\<close>

text \<open>The entries of an alias: a JSON list, another JSON value, or separated text.\<close>

definition alias_entries :: "(string \<Rightarrow> pyval option) \<Rightarrow> string \<Rightarrow> string list" where
  "alias_entries loads raw =
     (case loads raw of
        Some (PList vs) \<Rightarrow> filter (\<lambda>v. v \<noteq> []) (map (\<lambda>v. strip (py_str_of v)) vs)
      | Some v \<Rightarrow> [strip (py_str_of v)]
      | None \<Rightarrow> filter (\<lambda>v. v \<noteq> [])
          (map strip (split_on (CHR '','') (replace_char (CHR 0x0A) (CHR '','') raw))))"

definition alias_line :: "(string \<Rightarrow> pyval option) \<Rightarrow> alias_row \<Rightarrow> string list" where
  "alias_line loads row =
     (let name = strip (as_name row); atype = lower (or_str (as_type row) ''host'');
          raw = strip (or_str (as_values row) [])
      in if name = [] \<or> raw = [] then []
         else (let values = alias_entries loads raw in
               if values = [] then []
               else if atype \<in> set [''host'', ''network'', ''urltable'']
               then [''table <'' @ name @ ''> persist { '' @ join '' '' values @ '' }'']
               else [name @ '' = '' @ dq (''{ '' @ join '', '' values @ '' }'')]))"

definition alias_lines :: "(string \<Rightarrow> pyval option) \<Rightarrow> alias_row list \<Rightarrow> string list" where
  "alias_lines loads as =
     header ''Aliases / Tables'' # concat (map (alias_line loads) (sort_key as_name as))"

definition build_alias_tables :: "pf_env \<Rightarrow> pf_db \<Rightarrow> string" where
  "build_alias_tables env db =
     (if aliases db = [] then [] else block_text (alias_lines (env_loads env) (aliases db)))"

section \<open>NAT\<close>

definition lan_port_or_em1 :: "iface_cfg list \<Rightarrow> string" where
  "lan_port_or_em1 rs = (case rs of [] \<Rightarrow> ''em1'' | r # _ \<Rightarrow> or_str (if_port r) ''em1'')"

definition resolve_iface :: "string \<Rightarrow> string \<Rightarrow> string option \<Rightarrow> string" where
  "resolve_iface wan lan raw =
     (let v = strip (or_str raw []) in
      if upper v = ''WAN'' then wan else if upper v = ''LAN'' then lan
      else if v \<noteq> [] then v else wan)"

definition outbound_lines :: "string \<Rightarrow> string \<Rightarrow> outbound_row \<Rightarrow> string list" where
  "outbound_lines wan lan r =
     (let iface = resolve_iface wan lan (no_interface r);
          nat_addr = strip (or_str (no_nat r) []);
          target = (if nat_addr = [] then ''('' @ iface @ '')'' else nat_addr)
      in comment (no_description r) @
         [''nat on '' @ iface @ '' from '' @ addr (no_src r) @ '' to '' @ addr (no_dst r) @
          '' -> '' @ target @ (if truthy_int (no_static_port r) then '' static-port'' else '''')])"

definition one_to_one_lines :: "string \<Rightarrow> string \<Rightarrow> one_to_one_row \<Rightarrow> string list" where
  "one_to_one_lines wan lan r =
     comment (n1_description r) @
     [''binat on '' @ resolve_iface wan lan (n1_interface r) @ '' from '' @ addr (n1_internal r) @
      '' to any -> '' @ addr (n1_external r)]"

definition forward_lines :: "string \<Rightarrow> string \<Rightarrow> forward_row \<Rightarrow> string list" where
  "forward_lines wan lan r =
     (let iface = resolve_iface wan lan (nf_interface r);
          proto = lower (or_str (nf_protocol r) ''tcp'');
          redirect = addr (nf_redirect_ip r);
          redir_port = strip (or_str (nf_redirect_port r) []);
          dst_raw = addr (nf_dst r);
          dst = (if lower (strip (or_str (nf_dst_type r) [])) = ''wan_address'' then ''('' @ iface @ '')''
                 else if dst_raw \<noteq> [] \<and> dst_raw \<noteq> ''any'' then dst_raw else ''any'')
      in if redirect = [] \<or> redirect = ''any'' then []
         else comment (nf_description r) @
           [''rdr on '' @ iface @ '' proto '' @ proto @ '' from '' @ addr (nf_src r) @ '' to '' @ dst @
            '' '' @ port_line (nf_dst_port r) @ ''-> '' @
            (if redir_port \<noteq> [] then redirect @ '' port '' @ redir_port else redirect)])"

definition npt_lines :: "string \<Rightarrow> string \<Rightarrow> npt_row \<Rightarrow> string list" where
  "npt_lines wan lan r =
     (let src = strip (or_str (np_src r) []); dst = strip (or_str (np_dst r) []) in
      if src = [] \<or> dst = [] then []
      else comment (np_description r) @
        [''binat6 on '' @ resolve_iface wan lan (np_interface r) @ '' from '' @
         (if truthy_int (np_src_not r) then ''!'' else '''') @ src @ '' to '' @
         (if truthy_int (np_dst_not r) then ''!'' else '''') @ dst])"

text \<open>The row of \<open>advanced_firewall_nat\<close> with id 1.\<close>

definition adv_row :: "pf_db \<Rightarrow> (string \<times> pyval) list option" where
  "adv_row db = (case adv_nat db of None \<Rightarrow> None | Some rs \<Rightarrow> map_of rs 1)"

definition adv_get :: "(string \<times> pyval) list \<Rightarrow> string \<Rightarrow> pyval" where
  "adv_get d k = (case map_of d k of None \<Rightarrow> PNone | Some v \<Rightarrow> v)"

text \<open>A missing row, a missing column, or a mode that is no string leaves reflection off.\<close>

definition nat_reflection_on :: "pf_db \<Rightarrow> bool" where
  "nat_reflection_on db =
     (case adv_row db of
        None \<Rightarrow> False
      | Some d \<Rightarrow>
          (case map_of d ''nat_reflection_mode'' of
             Some (PStr s) \<Rightarrow> lower (if s = [] then ''disabled'' else s) \<notin> set [''disabled'', '''', ''none'']
           | _ \<Rightarrow> False))"

definition network_or_raw :: "string \<Rightarrow> string" where
  "network_or_raw s =
     (case ip_interface s of None \<Rightarrow> s | Some i \<Rightarrow> str_net (iface_network i))"

definition reflection_lines :: "pf_db \<Rightarrow> string list" where
  "reflection_lines db =
     (if \<not> nat_reflection_on db then []
      else (let lan = lan_port_or_em1 (lan_config db);
                net = network_or_raw (case lan_config db of [] \<Rightarrow> ''192.168.1.0/24''
                        | r # _ \<Rightarrow> or_str (if_ipv4 r) ''192.168.1.0/24'')
            in [''# Hairpin NAT: LAN clients connecting to WAN IP for port-forwards'',
                ''nat on '' @ lan @ '' from '' @ net @ '' to any -> ('' @ lan @ '')'']))"

text \<open>The LAN row with id 1.\<close>

definition lan_by_id :: "pf_db \<Rightarrow> iface_cfg option" where
  "lan_by_id db = find_by if_id 1 (lan_config db)"

definition policy_active :: "pf_db \<Rightarrow> bool" where
  "policy_active db \<longleftrightarrow> has_active_content_policy (policy db) = Inr True"

definition unbound_lan_ready :: "pf_env \<Rightarrow> bool" where
  "unbound_lan_ready env = (case env_unbound env of None \<Rightarrow> True | Some b \<Rightarrow> b)"

definition dns_rdr_line :: "string \<Rightarrow> string \<Rightarrow> string \<Rightarrow> string \<Rightarrow> string" where
  "dns_rdr_line iface proto net ip =
     ''rdr on '' @ iface @ '' proto '' @ proto @ '' from '' @ net @ '' to ! '' @ ip @
     '' port 53 -> '' @ ip @ '' port 53''"

text \<open>The port and interface address of that row, when both are set and the address parses.\<close>

definition lan_dns_iface :: "pf_db \<Rightarrow> (string \<times> ipiface) option" where
  "lan_dns_iface db =
     (case lan_by_id db of
        None \<Rightarrow> None
      | Some r \<Rightarrow>
          (let ip = or_str (if_ipv4 r) []; port = or_str (if_port r) [] in
           if ip = [] \<or> port = [] then None
           else map_option (\<lambda>i. (port, i)) (ip_interface ip)))"

definition intercept_lines :: "pf_env \<Rightarrow> pf_db \<Rightarrow> string list" where
  "intercept_lines env db =
     (if policy_active db \<and> \<not> unbound_lan_ready env
      then [[], ''# Content filtering active, but Unbound is NOT serving the LAN '' @ em_dash,
            ''# DNS interception suppressed (fail-open) so the LAN keeps resolving.'']
      else if policy_active db
      then (case lan_dns_iface db of
              None \<Rightarrow> []
            | Some (port, i) \<Rightarrow>
                [[], ''# Force LAN DNS to Smart Shield when content filtering is active.'',
                 ''# Per-client policy is then applied by Unbound (views: whitelist_view /'',
                 ''# policy_exemption_view) '' @ em_dash @ '' see app/services/dns_writer.py.'',
                 dns_rdr_line port ''udp'' (str_net (iface_network i)) (str_ip (host_ip i)),
                 dns_rdr_line port ''tcp'' (str_net (iface_network i)) (str_ip (host_ip i))])
      else [])"

definition nat_lines :: "pf_env \<Rightarrow> pf_db \<Rightarrow> string \<Rightarrow> string list" where
  "nat_lines env db wan =
     (let lan = lan_port_or_em1 (lan_config db) in
      header ''NAT Rules'' #
      concat (map (outbound_lines wan lan)
        (by_order no_order no_id (filter (\<lambda>r. \<not> no_disabled r) (nat_outbound db)))) @
      concat (map (one_to_one_lines wan lan)
        (by_order n1_order n1_id (filter (\<lambda>r. \<not> n1_disabled r) (nat_1to1 db)))) @
      concat (map (forward_lines wan lan)
        (by_order nf_order nf_id (filter (\<lambda>r. \<not> nf_disabled r) (nat_pf db)))) @
      reflection_lines db @
      concat (map (npt_lines wan lan)
        (by_order np_order np_id (filter (\<lambda>r. \<not> np_disabled r) (nat_npt db)))) @
      intercept_lines env db)"

definition build_nat_rules :: "pf_env \<Rightarrow> pf_db \<Rightarrow> string \<Rightarrow> string" where
  "build_nat_rules env db wan = block_text (nat_lines env db wan)"

section \<open>Firewall rules\<close>

definition rule_label :: "nat \<Rightarrow> string" where
  "rule_label i = ''label '' @ dq (''smartshield:user_rule:'' @ str_nat i)"

definition log_kw :: "fw_rule \<Rightarrow> pf_act \<Rightarrow> string" where
  "log_kw r act =
     (if act = Block \<or> act = BlockReturn \<or> truthy_int (fw_log_enabled r) then ''log '' else [])"

definition portless :: "fw_rule \<Rightarrow> bool" where
  "portless r \<longleftrightarrow> lower (strip (or_str (fw_protocol r) [])) \<in> set portless_protos"

definition rule_sport :: "fw_rule \<Rightarrow> string" where
  "rule_sport r = (if portless r then [] else port_line (fw_source_port r))"

definition rule_dport :: "fw_rule \<Rightarrow> string" where
  "rule_dport r = (if portless r then [] else port_line (fw_dest_port r))"

text \<open>A port needs a protocol: \<open>any\<close> becomes TCP when a port is given.\<close>

definition rule_proto :: "fw_rule \<Rightarrow> string" where
  "rule_proto r =
     (if (rule_dport r \<noteq> [] \<or> rule_sport r \<noteq> []) \<and> proto_line (fw_protocol r) = []
      then ''proto tcp '' else proto_line (fw_protocol r))"

text \<open>From the protocol to the end of the line.\<close>

definition rule_tail :: "fw_rule \<Rightarrow> string" where
  "rule_tail r =
     rule_proto r @ ''from '' @ addr (fw_source r) @ '' '' @ rule_sport r @
     ''to '' @ addr (fw_destination r) @ '' '' @ rule_dport r @ rule_label (fw_id r) @
     (if pf_action (fw_action r) = Pass then '' keep state'' else [])"

definition rule_comment :: "fw_rule \<Rightarrow> string list" where
  "rule_comment r =
     (let desc = strip (or_str (fw_description r) []); sched = strip (or_str (fw_schedule r) []) in
      if desc = [] then []
      else [''# '' @ desc @ (if sched \<noteq> [] then '' [schedule: '' @ sched @ '']'' else [])])"

definition floating_lines :: "string \<Rightarrow> string \<Rightarrow> fw_rule \<Rightarrow> string list" where
  "floating_lines wan lan r =
     (let v = strip (or_str (fw_interface r) []);
          iface = (if upper v = ''WAN'' then wan else if upper v = ''LAN'' then lan else v);
          act = pf_action (fw_action r)
      in rule_comment r @
         [act_str act @ '' '' @ log_kw r act @ ''quick '' @
          (if iface \<noteq> [] then ''on '' @ iface @ '' '' else []) @ rule_tail r])"

definition iface_rule_lines :: "string \<Rightarrow> fw_rule \<Rightarrow> string list" where
  "iface_rule_lines iface r =
     (let act = pf_action (fw_action r) in
      rule_comment r @
      [act_str act @ '' in '' @ log_kw r act @ ''on '' @ iface @ '' '' @ rule_tail r])"

text \<open>The enabled rules in order whose schedule is active now.\<close>

definition rules_in_force :: "pf_env \<Rightarrow> pf_db \<Rightarrow> fw_rule list \<Rightarrow> fw_rule list" where
  "rules_in_force env db rs =
     filter_rules_by_schedule (schedules db) (env_now env) fw_schedule
       (by_order fw_order fw_id (filter (\<lambda>r. \<not> fw_disabled r) rs))"

definition firewall_lines :: "pf_env \<Rightarrow> pf_db \<Rightarrow> string \<Rightarrow> string \<Rightarrow> string list" where
  "firewall_lines env db wan lan =
     header ''Firewall Rules'' #
     concat (map (floating_lines wan lan) (rules_in_force env db (floating_rules db))) @
     concat (map (iface_rule_lines wan) (rules_in_force env db (wan_rules db))) @
     concat (map (iface_rule_lines lan) (rules_in_force env db (lan_rules db)))"

definition build_firewall_rules :: "pf_env \<Rightarrow> pf_db \<Rightarrow> string \<Rightarrow> string \<Rightarrow> string" where
  "build_firewall_rules env db wan lan = block_text (firewall_lines env db wan lan)"

section \<open>Traffic shaper\<close>

definition sched_map :: "(string \<times> string) list" where
  "sched_map = [(''hfsc'', ''hfsc''), (''cbq'', ''cbq''), (''priq'', ''priq''), (''fairq'', ''fairq'')]"

text \<open>\<open>s.rstrip(chars)\<close>.\<close>

definition rstrip_chars :: "string \<Rightarrow> string \<Rightarrow> string" where
  "rstrip_chars cs s = rev (dropWhile (\<lambda>c. c \<in> set cs) (rev s))"

definition shaper_lines :: "string \<Rightarrow> string \<Rightarrow> shaper_row \<Rightarrow> string list" where
  "shaper_lines wan lan cfg =
     (let iface = (if upper (or_str (sh_interface_type cfg) ''WAN'') = ''WAN'' then wan else lan);
          sched = (case map_of sched_map (lower (or_str (sh_scheduler cfg) ''hfsc'')) of
                     None \<Rightarrow> ''hfsc'' | Some s \<Rightarrow> s);
          bw = or_int (sh_bandwidth cfg) 100;
          bw_unit = rstrip_chars ''B'' (rstrip_chars ''b'' (or_str (sh_unit cfg) ''Mb''));
          qlimit = or_int (sh_queue_limit cfg) 50;
          tbr = or_int (sh_tbr_size cfg) 0;
          name = replace_char (CHR '' '') (CHR ''_'') (or_str (sh_name cfg) (''root_'' @ iface))
      in [''altq on '' @ iface @ '' '' @ sched @ '' bandwidth '' @ str_int bw @ bw_unit @ ''b'' @
          '' qlimit '' @ str_int qlimit @ (if tbr \<noteq> 0 then '' tbrsize '' @ str_int tbr else []) @
          '' queue { '' @ name @ '' }'',
          ''queue '' @ name @ '' on '' @ iface @ '' '' @ sched @ '' bandwidth 100%''])"

definition assign_lines :: "queue_row \<Rightarrow> string list" where
  "assign_lines q =
     (let qname = strip (or_str (qu_name q) []); ackq = or_str (qu_ack q) [] in
      if qname = [] then []
      else [''match '' @ proto_line (qu_protocol q) @ ''from '' @ addr (qu_source q) @ '' '' @
            port_line (qu_source_port q) @ ''to '' @ addr (qu_destination q) @ '' '' @
            port_line (qu_dest_port q) @ ''queue '' @ qname @
            (if ackq \<noteq> [] then '' ackqueue '' @ ackq else [])])"

definition shaper_block_lines :: "pf_db \<Rightarrow> string \<Rightarrow> string \<Rightarrow> shaper_row list \<Rightarrow> string list" where
  "shaper_block_lines db wan lan configs =
     header ''Traffic Shaper (altq)'' #
     concat (map (shaper_lines wan lan)
       (sort_key (\<lambda>c. (sh_interface_type c, sh_id c)) configs)) @
     (case shaper_queues db of
        None \<Rightarrow> []
      | Some qs \<Rightarrow>
          (case sort_key qu_id (filter qu_enabled qs) of
             [] \<Rightarrow> [] | assigns \<Rightarrow> [] # concat (map assign_lines assigns)))"

definition build_shaper_queues :: "pf_db \<Rightarrow> string \<Rightarrow> string \<Rightarrow> string" where
  "build_shaper_queues db wan lan =
     (case shaper_configs db of
        None \<Rightarrow> []
      | Some cs \<Rightarrow>
          (if filter sh_enabled cs = [] then []
           else block_text (shaper_block_lines db wan lan (filter sh_enabled cs))))"

section \<open>Virtual IPs and limiters\<close>

text \<open>\<open>s.title()\<close>: the first letter of every run of letters in upper case, the others lower.\<close>

fun title_case :: "bool \<Rightarrow> string \<Rightarrow> string" where
  "title_case start [] = []"
| "title_case start (c # cs) =
     (if start then to_upper c else to_lower c) # title_case (\<not> is_alpha c) cs"

definition vip_addr :: "vip_row \<Rightarrow> string" where
  "vip_addr v = strip (or_str (vi_address v) [])"

definition vip_type :: "vip_row \<Rightarrow> string" where
  "vip_type v = lower (strip (or_str (vi_type v) []))"

definition vip_line :: "vip_row \<Rightarrow> string" where
  "vip_line v =
     ''# '' @ title_case True (vip_type v) @ '' VIP: '' @ vip_addr v @ ''/'' @
     str_int (or_int (vi_prefix v) 32) @ '' on '' @ strip (or_str (vi_interface v) [])"

definition vip_lines :: "vip_row list \<Rightarrow> string list" where
  "vip_lines vs =
     (let used = filter (\<lambda>v. vip_addr v \<noteq> []) (sort_key vi_id vs) in
      header ''Virtual IPs'' # map vip_line used @
      (if list_ex (\<lambda>v. vip_type v = ''carp'') used then [''pass quick proto carp keep state''] else []) @
      (if used \<noteq> [] then [''VIRTUAL_IPS = '' @ dq (''{ '' @ join '' '' (map vip_addr used) @ '' }'')]
       else []))"

definition build_virtual_ip_rules :: "pf_db \<Rightarrow> string" where
  "build_virtual_ip_rules db =
     (case virtual_ips db of
        None \<Rightarrow> [] | Some vs \<Rightarrow> (if vs = [] then [] else block_text (vip_lines vs)))"

definition enabled_limiters :: "pf_db \<Rightarrow> limiter_row list" where
  "enabled_limiters db =
     (case limiters db of None \<Rightarrow> [] | Some ls \<Rightarrow> sort_key li_id (filter li_enabled ls))"

definition pipe_line :: "nat \<times> limiter_row \<Rightarrow> string" where
  "pipe_line x =
     (case x of (i, r) \<Rightarrow>
       ''# Pipe '' @ str_nat i @ '': '' @ strip (or_str (li_name r) (''limiter_'' @ str_nat i)) @
       ''  ('' @ str_int (or_int (li_bandwidth r) 0) @
       lower (rstrip_chars ''/s'' (or_str (li_unit r) ''Mbit/s'')) @ '')'')"

definition build_dummynet_pipes :: "pf_db \<Rightarrow> string" where
  "build_dummynet_pipes db =
     (if enabled_limiters db = [] then []
      else block_text (header ''Dummynet Limiter Pipes'' #
             map pipe_line (number_from 1 (enabled_limiters db))))"

text \<open>The commands \<open>_run_dnctl_setup\<close> runs; a failing command is logged and skipped.\<close>

definition dnctl_commands :: "bool \<Rightarrow> pf_db \<Rightarrow> string list list" where
  "dnctl_commands freebsd db =
     (if \<not> freebsd \<or> enabled_limiters db = [] then []
      else [''/sbin/dnctl'', ''-q'', ''flush''] #
        map (\<lambda>(i, r).
          [''/sbin/dnctl'', ''pipe'', str_nat i, ''config'',
           ''bw'', str_int (or_int (li_bandwidth r) 0) @ rstrip_chars ''/s'' (or_str (li_unit r) ''Mbit/s''),
           ''queue'', str_int (or_int (li_queue r) 50)] @
          (if or_int (li_delay r) 0 \<noteq> 0 then [''delay'', str_int (or_int (li_delay r) 0)] else []))
          (number_from 1 (enabled_limiters db)))"

section \<open>Scrub\<close>

definition iface_mss_lines :: "iface_cfg list \<Rightarrow> string \<Rightarrow> string list" where
  "iface_mss_lines cfg macro =
     (case find_by if_id 1 cfg of
        None \<Rightarrow> []
      | Some r \<Rightarrow>
          (case py_int (strip (if if_mss r = PNone then [] else py_str_of (if_mss r))) of
             None \<Rightarrow> []
           | Some mss \<Rightarrow>
               (if 0 < mss then [''scrub on '' @ macro @ '' all max-mss '' @ str_int mss] else [])))"

definition build_scrub_rules :: "pf_db \<Rightarrow> (string \<times> pyval) list \<Rightarrow> string res" where
  "build_scrub_rules db afn =
     (if py_bool_of (adv_get afn ''disable_scrub'') then Inr []
      else bind_res
        (if py_bool_of (adv_get afn ''enable_mss'') \<and> py_bool_of (adv_get afn ''maximum_mss'')
         then bind_res (py_int_of (adv_get afn ''maximum_mss''))
                (\<lambda>m. Inr (''scrub in all max-mss '' @ str_int m))
         else Inr ''scrub in all'')
        (\<lambda>l. Inr (join nl (iface_mss_lines (wan_config db) ''$WAN'' @
                           iface_mss_lines (lan_config db) ''$LAN'' @ [l]) @ nl @ nl)))"

end
