(* ===== verification/PfGenerator.thy ===== *)
theory PfGenerator
  imports PfBuilders
begin

text \<open>
  The rest of \<^verbatim>\<open>app/services/pf_generator.py\<close>: hardening rules, policy routes, the
  application filter's blocks (\<^verbatim>\<open>app/services/app_filter.py\<close>), the L2TP rules of
  \<^verbatim>\<open>app/services/l2tp_writer.py\<close>, the VPN pass rules, and \<open>generate_pf_conf\<close>.
\<close>

section \<open>Hardening\<close>

definition bogon_prefixes :: "string list" where
  "bogon_prefixes =
     [''0.0.0.0/8'', ''10.0.0.0/8'', ''100.64.0.0/10'', ''127.0.0.0/8'',
      ''169.254.0.0/16'', ''172.16.0.0/12'', ''192.0.0.0/24'', ''192.0.2.0/24'',
      ''192.168.0.0/16'', ''198.18.0.0/15'', ''198.51.100.0/24'', ''203.0.113.0/24'',
      ''224.0.0.0/3'', ''240.0.0.0/4'']"

definition private_net_prefixes :: "string list" where
  "private_net_prefixes = [''10.0.0.0/8'', ''172.16.0.0/12'', ''192.168.0.0/16'']"

text \<open>The first row's two flags; NULL, a missing row, column or table counts as set.\<close>

definition adv_flags :: "pf_db \<Rightarrow> bool \<times> bool" where
  "adv_flags db =
     (case adv_nat db of
        Some ((_, d) # _) \<Rightarrow>
          (case (map_of d ''block_bogons'', map_of d ''block_private_nets'') of
             (Some b, Some p) \<Rightarrow>
               (if b = PNone then True else py_bool_of b, if p = PNone then True else py_bool_of p)
           | _ \<Rightarrow> (True, True))
      | _ \<Rightarrow> (True, True))"

definition admin_port :: "pf_db \<Rightarrow> int" where
  "admin_port db =
     (case admin_access db of
        Some (v # _) \<Rightarrow>
          (if py_bool_of v then (case py_int_of v of Inr n \<Rightarrow> n | Inl _ \<Rightarrow> 5000) else 5000)
      | _ \<Rightarrow> 5000)"

text \<open>The firewall's LAN address, from the row with id 1.\<close>

definition lan_iface_addr :: "pf_db \<Rightarrow> ipiface option" where
  "lan_iface_addr db =
     (case lan_by_id db of
        None \<Rightarrow> None
      | Some r \<Rightarrow> (let a = or_str (if_ipv4 r) [] in if a = [] then None else ip_interface a))"

definition dot_blocking_enabled :: "pf_db \<Rightarrow> bool" where
  "dot_blocking_enabled db =
     (case service_state (policy db) of
        Some st \<Rightarrow>
          (case st ''content_policy_settings'' of
             Some (Json v) \<Rightarrow>
               (case or_dict v of
                  PDict d \<Rightarrow>
                    (let doh = (case map_of d ''block_known_doh'' of None \<Rightarrow> True | Some b \<Rightarrow> py_bool_of b)
                     in case map_of d ''block_dot'' of None \<Rightarrow> doh | Some b \<Rightarrow> py_bool_of b)
                | _ \<Rightarrow> True)
           | _ \<Rightarrow> True)
      | None \<Rightarrow> True)"

text \<open>\<open>app_filter_settings\<close>; the later \<open>.get\<close> on a value that is no dict is not guarded.\<close>

definition block_quic :: "pf_db \<Rightarrow> bool res" where
  "block_quic db =
     (case service_state (policy db) of
        Some st \<Rightarrow>
          (case st ''app_filter_settings'' of
             Some (Json (PDict d)) \<Rightarrow>
               Inr (case map_of d ''block_quic'' of None \<Rightarrow> False | Some b \<Rightarrow> py_bool_of b)
           | Some (Json _) \<Rightarrow> Inl (AttributeError ''object has no attribute get'')
           | _ \<Rightarrow> Inr False)
      | None \<Rightarrow> Inr False)"

definition label :: "string \<Rightarrow> string" where
  "label s = ''label '' @ dq (''smartshield:'' @ s)"

definition table_lines :: "bool \<Rightarrow> bool \<Rightarrow> string list" where
  "table_lines bogons private =
     [''table <ss_ids_blocks> persist'',
      ''block in log quick from <ss_ids_blocks> '' @ label ''ids:block_table'', [],
      ''table <soc_blocklist> persist'',
      ''block quick from <soc_blocklist> to any'',
      ''block quick from any to <soc_blocklist>'', []] @
     (if bogons then [''table <bogons> const { '' @ join '' '' bogon_prefixes @ '' }''] else []) @
     (if private
      then [''table <private_nets> const { '' @ join '' '' private_net_prefixes @ '' }''] else []) @
     [[]]"

definition spoof_lines :: "string \<Rightarrow> string \<Rightarrow> bool \<Rightarrow> bool \<Rightarrow> string list" where
  "spoof_lines wan lan bogons private =
     [''antispoof quick for '' @ wan, ''antispoof quick for '' @ lan, []] @
     (if bogons
      then [''block in log quick on '' @ wan @ '' from <bogons> to any '' @ label ''hardening:bogon_wan'']
      else []) @
     (if private
      then [''block in log quick on '' @ wan @ '' from <private_nets> to any '' @
            label ''hardening:private_net_wan'']
      else []) @
     (if bogons \<or> private then [[]] else [])"

definition icmp_lines :: "string list" where
  "icmp_lines =
     [''# ICMP: allow essential error types inbound; echoreq handled by user rules'',
      ''pass in  inet proto icmp  icmp-type  { unreach timex paramprob } keep state'',
      ''pass out quick inet proto icmp  icmp-type  { echoreq unreach timex paramprob squench } keep state'',
      [],
      ''# ICMPv6: Neighbor Discovery (must not be blocked)'',
      ''pass quick inet6 proto icmp6 icmp6-type { 133 134 135 136 137 } keep state'',
      []]"

definition admin_lines :: "pf_db \<Rightarrow> string \<Rightarrow> string list" where
  "admin_lines db lan =
     [''# Admin GUI: nginx HTTPS reachable from LAN to firewall LAN IP only''] @
     (case lan_iface_addr db of
        Some i \<Rightarrow>
          [''pass in quick on '' @ lan @ '' proto tcp from '' @ str_net (iface_network i) @ '' to '' @
           str_ip (host_ip i) @ '' port 443 '' @ label ''admin:allow_admin_https'' @ '' keep state'']
      | None \<Rightarrow>
          [''# WARNING: lan_config.ipv4_address missing; admin HTTPS rule remains broad.'',
           ''pass in quick on '' @ lan @ '' proto tcp from any to any port 443 '' @
           label ''admin:allow_admin_https_broad'' @ '' keep state'']) @
     [''# Admin GUI: restrict direct gunicorn access to loopback only'',
      ''pass in quick on lo0 proto tcp from 127.0.0.1 to 127.0.0.1 port '' @ str_int (admin_port db) @
      '' '' @ label ''admin:allow_local_gunicorn'' @ '' keep state'',
      ''block in log quick on '' @ lan @ '' proto tcp from any to any port '' @ str_int (admin_port db) @
      '' '' @ label ''admin:block_lan_to_gunicorn'']"

definition dot_lines :: "string \<Rightarrow> string \<Rightarrow> string list" where
  "dot_lines wan lan_net =
     [[], ''# Block LAN'' @ arrow @ ''WAN DoT/DoQ (853) when content filtering is active (P.3).''] @
     map (\<lambda>t. ''pass  out quick on '' @ wan @ '' proto { tcp udp } from <'' @ t @ ''> to any port 853 '' @
              label ''content_policy:dot_exempt'' @ '' keep state'')
       (bypass_tables_for ''dns_policy'') @
     [''block out log quick on '' @ wan @ '' proto { tcp udp } from '' @ lan_net @
      '' to any port 853 '' @ label ''content_policy:dot_block'']"

definition dns_egress_lines :: "pf_env \<Rightarrow> pf_db \<Rightarrow> string \<Rightarrow> string list" where
  "dns_egress_lines env db wan =
     (case lan_iface_addr db of
        None \<Rightarrow> []
      | Some i \<Rightarrow>
          (let net = str_net (iface_network i) in
           if policy_active db \<and> unbound_lan_ready env
           then [[], ''# Block LAN'' @ arrow @ ''WAN DNS when content filtering is active (Phase 3.1).'',
                 ''block out log quick on '' @ wan @ '' proto udp from '' @ net @ '' to any port 53 '' @
                 label ''content_policy:dns_egress_udp'',
                 ''block out log quick on '' @ wan @ '' proto tcp from '' @ net @ '' to any port 53 '' @
                 label ''content_policy:dns_egress_tcp''] @
                (if dot_blocking_enabled db then dot_lines wan net else [])
           else []))"

definition quic_lines :: "pf_db \<Rightarrow> string \<Rightarrow> bool \<Rightarrow> string list" where
  "quic_lines db lan quic =
     (case lan_iface_addr db of
        None \<Rightarrow> []
      | Some i \<Rightarrow>
          (if quic
           then [[], ''# Block QUIC (UDP/443) for LAN clients so blocked HTTPS sites can'' @ apos @ ''t'',
                 ''# stream over HTTP/3 and bypass DNS-based filtering. Policy-exempt'',
                 ''# clients are excluded so legitimate HTTP/3 still works for them.'',
                 ''pass  in quick on '' @ lan @ '' proto udp from <policy_exemption> to any port 443 '' @
                 label ''content_policy:quic_exempt'' @ '' keep state'',
                 ''block in log quick on '' @ lan @ '' proto udp from '' @ str_net (iface_network i) @
                 '' to any port 443 '' @ label ''content_policy:quic_block'']
           else []))"

definition soc_lines :: "pf_db \<Rightarrow> string \<Rightarrow> string list" where
  "soc_lines db lan =
     (case soc_portal db of
        Some (Some s) \<Rightarrow>
          (let ip = or_str (so_bind_ip s) [] in
           if truthy_int (so_enabled s) \<and> ip \<noteq> [] \<and> ip \<noteq> ''0.0.0.0''
           then [[], ''# SOC Team Portal: reachable from LAN on its dedicated VIP'',
                 ''pass in quick on '' @ lan @ '' proto tcp from any to '' @ strip ip @ '' port '' @
                 str_int (or_int (so_bind_port s) 8443) @ '' '' @ label ''admin:soc_portal'' @
                 '' keep state'']
           else [])
      | _ \<Rightarrow> [])"

definition hardening_lines :: "pf_env \<Rightarrow> pf_db \<Rightarrow> string \<Rightarrow> string \<Rightarrow> bool \<Rightarrow> string list" where
  "hardening_lines env db wan lan quic =
     (case adv_flags db of (bogons, private) \<Rightarrow>
        header ''Firewall Hardening'' # table_lines bogons private @
        spoof_lines wan lan bogons private @ icmp_lines @ admin_lines db lan @
        dns_egress_lines env db wan @ quic_lines db lan quic @ soc_lines db lan)"

definition build_hardening_rules :: "pf_env \<Rightarrow> pf_db \<Rightarrow> string \<Rightarrow> string \<Rightarrow> string res" where
  "build_hardening_rules env db wan lan =
     bind_res (block_quic db) (\<lambda>q. Inr (block_text (hardening_lines env db wan lan q)))"

section \<open>Policy routes\<close>

definition gateway_of :: "pf_db \<Rightarrow> route_row \<Rightarrow> gateway_row option" where
  "gateway_of db r =
     (case pr_gateway_id r of None \<Rightarrow> None | Some g \<Rightarrow> find_by gw_id g (gateways db))"

definition route_lines :: "pf_db \<Rightarrow> string \<Rightarrow> string \<Rightarrow> route_row \<Rightarrow> string list" where
  "route_lines db wan lan r =
     (let iface = (if upper (or_str (pr_interface_type r) ''LAN'') = ''WAN'' then wan else lan);
          g = gateway_of db r;
          gw_ip = strip (or_str (Option.bind g gw_gateway) []);
          gw0 = strip (or_str (Option.bind g gw_interface) wan);
          gw_iface = (if gw0 \<noteq> [] then gw0 else wan)
      in if gw_ip = [] then []
         else comment (pr_description r) @
           [''pass in quick on '' @ iface @ '' from '' @ addr (pr_source r) @ '' to '' @
            addr (pr_destination r) @ '' route-to ('' @ gw_iface @ '' '' @ gw_ip @ '') keep state''])"

definition build_policy_routes :: "pf_db \<Rightarrow> string \<Rightarrow> string \<Rightarrow> string" where
  "build_policy_routes db wan lan =
     (case policy_routes db of
        None \<Rightarrow> []
      | Some rs \<Rightarrow>
          (let body = concat (map (route_lines db wan lan)
                (by_order pr_priority pr_id (filter pr_enabled rs)))
           in if body = [] then []
              else block_text (header ''Policy-Based Routing (route-to)'' # body)))"

section \<open>Application filter\<close>

text \<open>\<open>"6881-6889,6969"\<close> as a PF list; only the first \<open>-\<close> of a token splits.\<close>

definition app_port_token :: "string \<Rightarrow> string list" where
  "app_port_token raw =
     (let t = strip raw in
      if CHR ''-'' \<in> set t
      then [strip (before (CHR ''-'') t) @ '':'' @ strip (tl (dropWhile (\<lambda>c. c \<noteq> CHR ''-'') t))]
      else if t \<noteq> [] then [t] else [])"

definition app_rule_lines :: "string \<Rightarrow> app_rule \<Rightarrow> string list res" where
  "app_rule_lines scope r =
     bind_res (normalize_action (ar_action r))
       (\<lambda>a. if a \<noteq> BlockAll \<and> a \<noteq> AllowWhitelistOnly then Inr []
            else (let src = (if a = BlockAll then ''!<admin_bypass_clients>'' else ''!<device_whitelist>'');
                      raw = strip (or_str (ar_ports r) []);
                      proto = lower (or_str (ar_protocol r) ''tcp+udp'');
                      parts = concat (map app_port_token (split_on (CHR '','') raw));
                      line = (\<lambda>p. ''block '' @ scope @ '' proto '' @ p @ '' from '' @ src @
                               '' to any port { '' @ join '' '' parts @ '' }'')
                  in if raw = [] \<or> parts = [] then Inr []
                     else Inr ((''# '' @ (case ar_app_name r of None \<Rightarrow> ''None'' | Some n \<Rightarrow> n)) #
                       (if proto = ''tcp+udp'' then [line ''tcp'', line ''udp''] else [line proto]))))"

fun app_rules_lines :: "string \<Rightarrow> app_rule list \<Rightarrow> string list res" where
  "app_rules_lines scope [] = Inr []"
| "app_rules_lines scope (r # rs) =
     bind_res (app_rule_lines scope r)
       (\<lambda>ls. bind_res (app_rules_lines scope rs) (\<lambda>ms. Inr (ls @ ms)))"

definition generate_app_filter_pf_rules :: "pf_db \<Rightarrow> string \<Rightarrow> string res" where
  "generate_app_filter_pf_rules db lan0 =
     (let lan = (if lan0 \<noteq> [] then lan0
                 else (case lan_config db of [] \<Rightarrow> [] | r # _ \<Rightarrow> strip (or_str (if_port r) [])));
          scope = (if lan \<noteq> [] then ''in log quick on '' @ lan else ''in log quick'')
      in case app_rules (policy db) of
           None \<Rightarrow> Inl (missing_table ''filter_app_rules'')
         | Some rs \<Rightarrow>
             bind_res (app_rules_lines scope
                 (sort_key ar_id (filter (\<lambda>r. ar_enabled r \<and> ar_block_ports r) rs)))
               (\<lambda>ls. Inr (if ls = [] then [] else block_text (header ''Application Filter'' # ls))))"

text \<open>Any exception is logged and gives no rules.\<close>

definition build_app_filter_rules :: "pf_db \<Rightarrow> string \<Rightarrow> string" where
  "build_app_filter_rules db lan =
     (case generate_app_filter_pf_rules db lan of Inl _ \<Rightarrow> [] | Inr t \<Rightarrow> t)"

section \<open>VPN pass rules\<close>

definition l2tp_pf_rules :: "pf_db \<Rightarrow> string list" where
  "l2tp_pf_rules db =
     (let wan = (case wan_config db of [] \<Rightarrow> ''em0'' | r # _ \<Rightarrow> or_str (if_port r) ''em0'') in
      [''pass in on '' @ wan @ '' proto udp from any to any port 500 keep state  # IKE'',
       ''pass in on '' @ wan @ '' proto udp from any to any port 4500 keep state  # IKE NAT-T'',
       ''pass in on '' @ wan @ '' proto udp from any to any port 1701 keep state  # L2TP'',
       ''pass in on '' @ wan @ '' proto esp from any to any keep state            # ESP''])"

definition l2tp_block :: "pf_db \<Rightarrow> string" where
  "l2tp_block db =
     (case l2tp_users db of
        None \<Rightarrow> []
      | Some n \<Rightarrow>
          (if n = 0 then []
           else header ''L2TP/IPsec auto-rules'' @ nl @ join nl (l2tp_pf_rules db) @ nl @ nl))"

definition iface_macro :: "string option \<Rightarrow> string" where
  "iface_macro i = (let v = lower (or_str i ''wan'') in if v = ''wan'' then ''$WAN'' else v)"

definition ovpn_line :: "ovpn_row \<Rightarrow> string" where
  "ovpn_line r =
     (let pf_proto = (if startswith (lower (or_str (ov_protocol r) ''udp4'')) ''tcp'' then ''tcp'' else ''udp'');
          m = iface_macro (ov_interface r)
      in ''pass in quick on '' @ m @ '' proto '' @ pf_proto @ '' from any to ('' @ m @ '') port '' @
         str_int (or_int (ov_port r) 1194) @ '' keep state # smart-shield: vpn openvpn srv='' @
         str_nat (ov_id r))"

definition ike_lines :: "string \<Rightarrow> string list" where
  "ike_lines iface =
     (let m = (if iface = ''wan'' then ''$WAN'' else iface) in
      [''pass in quick on '' @ m @ '' proto udp from any to ('' @ m @
       '') port { 500 4500 } keep state # smart-shield: vpn ipsec-ike'',
       ''pass in quick on '' @ m @ '' proto esp from any to ('' @ m @
       '') keep state # smart-shield: vpn ipsec-esp''])"

definition not_disabled :: "int option \<Rightarrow> bool" where
  "not_disabled d \<longleftrightarrow> d = None \<or> d = Some 0"

definition l2tp_vpn_lines :: "pf_db \<Rightarrow> string list" where
  "l2tp_vpn_lines db =
     (case l2tp_config db of
        Some (Some r) \<Rightarrow>
          (if \<not> truthy_int (l2_enabled r) then []
           else [''pass in quick on $WAN proto udp from any to ($WAN) port 1701 keep state # smart-shield: vpn l2tp''] @
             (if strip (or_str (l2_psk r) []) = [] then []
              else [''pass in quick on $WAN proto udp from any to ($WAN) port { 500 4500 } keep state # smart-shield: vpn l2tp-ipsec-ike'',
                    ''pass in quick on $WAN proto esp from any to ($WAN) keep state # smart-shield: vpn l2tp-ipsec-esp'']))
      | _ \<Rightarrow> [])"

definition vpn_lines :: "pf_db \<Rightarrow> string list" where
  "vpn_lines db =
     map ovpn_line (filter (\<lambda>r. not_disabled (ov_disabled r)) (rows_of (openvpn_servers db))) @
     concat (map ike_lines
       (sort (remdups (map (\<lambda>r. lower (or_str (p1_interface r) ''wan''))
         (filter (\<lambda>r. not_disabled (p1_disabled r)) (rows_of (ipsec_phase1 db))))))) @
     l2tp_vpn_lines db"

definition emit_vpn_pass_rules :: "pf_db \<Rightarrow> string" where
  "emit_vpn_pass_rules db =
     (if vpn_lines db = [] then []
      else join nl (header ''VPN auto pass-rules (smart-shield: vpn)'' # vpn_lines db) @ nl @ nl)"

section \<open>The whole configuration\<close>

text \<open>\<open>d.get(k) or dflt\<close>.\<close>

definition adv_or :: "(string \<times> pyval) list \<Rightarrow> string \<Rightarrow> pyval \<Rightarrow> pyval" where
  "adv_or d k dflt = (if py_bool_of (adv_get d k) then adv_get d k else dflt)"

definition wan_iface_of :: "pf_db \<Rightarrow> string" where
  "wan_iface_of db =
     (case wan_config db of
        [] \<Rightarrow> ''em0''
      | r # _ \<Rightarrow> (if or_str (if_ipv4_type r) ''dhcp'' = ''pppoe'' then ''tun0''
                 else or_str (if_port r) ''em0''))"

definition lan_net_of :: "pf_db \<Rightarrow> string" where
  "lan_net_of db =
     network_or_raw (case lan_config db of
        [] \<Rightarrow> ''192.168.1.0/24'' | r # _ \<Rightarrow> or_str (if_ipv4 r) ''192.168.1.0/24'')"

definition macros :: "string \<Rightarrow> string \<Rightarrow> string \<Rightarrow> string list" where
  "macros wan lan net =
     [''# ============================================================'',
      ''# Smart Shield '' @ em_dash @ '' auto-generated pf.conf'',
      ''# Generated by app/services/pf_generator.py'',
      ''# DO NOT EDIT MANUALLY '' @ em_dash @ '' changes will be overwritten'',
      ''# ============================================================'', [],
      ''WAN     = '' @ dq wan, ''LAN     = '' @ dq lan, ''LAN_NET = '' @ dq net, []]"

definition base_tables :: "string list" where
  "base_tables =
     [''table <authenticated_clients> persist'', ''table <admin_bypass_clients> persist'',
      ''table <device_whitelist> persist'', ''table <access_whitelist> persist'',
      ''table <policy_exemption> persist'', []]"

definition timeout_keys :: "(string \<times> string) list" where
  "timeout_keys =
     [(''tcp_first'', ''tcp.first''), (''tcp_opening'', ''tcp.opening''),
      (''tcp_established'', ''tcp.established''), (''tcp_closing'', ''tcp.closing''),
      (''tcp_fin_wait'', ''tcp.fin_wait''), (''tcp_closed'', ''tcp.closed''),
      (''tcp_tsdiff'', ''tcp.tsdiff''),
      (''udp_first'', ''udp.first''), (''udp_single'', ''udp.single''),
      (''udp_multiple'', ''udp.multiple''),
      (''icmp_first'', ''icmp.first''), (''icmp_error'', ''icmp.error''),
      (''other_first'', ''other.first''), (''other_single'', ''other.single''),
      (''other_multiple'', ''other.multiple'')]"

fun timeout_values :: "(string \<times> pyval) list \<Rightarrow> (string \<times> string) list \<Rightarrow> string list res" where
  "timeout_values d [] = Inr []"
| "timeout_values d ((k, pf) # rest) =
     (if py_bool_of (adv_get d k)
      then bind_res (py_int_of (adv_get d k))
             (\<lambda>n. bind_res (timeout_values d rest) (\<lambda>vs. Inr ((pf @ '' '' @ str_int n) # vs)))
      else timeout_values d rest)"

definition optimization :: "(string \<times> pyval) list \<Rightarrow> string res" where
  "optimization d =
     (case adv_or d ''firewall_optimization'' (PStr ''normal'') of
        PStr s \<Rightarrow> Inr (lower (strip s))
      | _ \<Rightarrow> Inl (AttributeError ''object has no attribute strip''))"

definition option_lines :: "(string \<times> pyval) list \<Rightarrow> string list res" where
  "option_lines d =
     bind_res (optimization d) (\<lambda>opt.
     bind_res (py_int_of (adv_or d ''firewall_max_states'' (PInt 1990000))) (\<lambda>st.
     bind_res (py_int_of (adv_or d ''firewall_max_fragment'' (PInt 5000))) (\<lambda>fr.
     bind_res (py_int_of (adv_or d ''firewall_max_table'' (PInt 400000))) (\<lambda>tb.
     bind_res (py_int_of (adv_or d ''adaptive_start'' (PInt 1134000))) (\<lambda>a.
     bind_res (py_int_of (adv_or d ''adaptive_end'' (PInt 2333332))) (\<lambda>b.
     bind_res (timeout_values d timeout_keys) (\<lambda>tv.
       Inr [''set block-policy drop'', ''set skip on lo0'', ''set optimization '' @ opt, [],
            ''set limit { states '' @ str_int st @ '', frags '' @ str_int fr @ '' }'',
            ''set limit table-entries '' @ str_int tb, [],
            ''set timeout { '' @
              join '', '' (tv @ [''adaptive.start '' @ str_int a, ''adaptive.end '' @ str_int b]) @ '' }'',
            []])))))))"

text \<open>
  The captive-portal settings are read and decoded without a guard, for a flag that is not
  used afterwards.
\<close>

definition captive_settings :: "pf_db \<Rightarrow> unit res" where
  "captive_settings db =
     (case service_state (policy db) of
        None \<Rightarrow> Inl (missing_table ''service_state'')
      | Some st \<Rightarrow>
          (case st ''captive_portal_settings'' of
             None \<Rightarrow> Inr ()
           | Some BadJson \<Rightarrow> Inl (ValueError ''invalid JSON document'')
           | Some (Json (PDict d)) \<Rightarrow> Inr ()
           | Some (Json v) \<Rightarrow> Inl (AttributeError ''object has no attribute get'')))"

definition default_nat :: "string list" where
  "default_nat =
     [''# Default masquerade '' @ em_dash @ '' LAN to WAN'',
      ''nat on $WAN from $LAN_NET to any -> ($WAN)'', []]"

definition translation_hooks :: "string list" where
  "translation_hooks =
     [''# Captive portal translation hook (rdr-only anchor)'',
      ''rdr-anchor '' @ dq ''captive_portal_rdr'', []]"

definition default_policy :: "string list" where
  "default_policy =
     [''# Default policy'', ''block log all'', ''pass out quick keep state'', [],
      ''# Admin accounts bypass all content policy filtering'',
      ''pass in quick from <admin_bypass_clients> to any keep state'', [],
      ''# Captive portal filter hook must run before generic LAN allow (filter-only anchor).'',
      ''anchor '' @ dq ''captive_portal_filter'', [],
      ''# Generic LAN allow after portal pass/block decisions.'',
      ''pass in on $LAN keep state'', []]"

definition generate_pf_conf :: "pf_env \<Rightarrow> pf_db \<Rightarrow> string res" where
  "generate_pf_conf env db =
     (let wan = wan_iface_of db; lan = lan_port_or_em1 (lan_config db);
          afn = (case adv_row db of None \<Rightarrow> [] | Some d \<Rightarrow> d);
          top = line_text (macros wan lan (lan_net_of db)) @ line_text base_tables
      in bind_res (option_lines afn) (\<lambda>opts.
         bind_res (build_scrub_rules db afn) (\<lambda>scrub.
         if py_bool_of (adv_get afn ''disable_firewall'')
         then Inr (top @ line_text [''# Firewall disabled '' @ em_dash @ '' pass all traffic'', ''pass all''])
         else bind_res (captive_settings db) (\<lambda>_.
              bind_res (build_hardening_rules env db wan lan) (\<lambda>hardening.
                Inr (top @ build_alias_tables env db @ build_dummynet_pipes db @ line_text opts @
                     scrub @ build_shaper_queues db wan lan @ line_text default_nat @
                     build_nat_rules env db wan @ line_text translation_hooks @
                     build_virtual_ip_rules db @ hardening @ line_text default_policy @
                     build_policy_routes db wan lan @ l2tp_block db @ emit_vpn_pass_rules db @
                     build_app_filter_rules db lan @ build_firewall_rules env db wan lan))))))"

end
