(* ===== verification/PfOrder.thy ===== *)
theory PfOrder
  imports PfGenerator
begin

text \<open>
  The generated pf.conf against the section-order check of \<^verbatim>\<open>pf_static_validator.py\<close>:
  every builder emits lines of one section, and the blocks come in the order of the
  sections.  The clean-field predicates say which columns must hold no line break.
\<close>

section \<open>Blocks of one section\<close>

definition in_section :: "nat \<Rightarrow> string \<Rightarrow> bool" where
  "in_section k l \<longleftrightarrow> no_break l \<and> (line_section l = None \<or> line_section l = Some k)"

definition pf_block :: "nat \<Rightarrow> string \<Rightarrow> bool" where
  "pf_block k t \<longleftrightarrow> (\<exists>ls. t = line_text ls \<and> list_all (in_section k) ls)"

lemma pf_block_Nil [intro, simp]: "pf_block k []"
  unfolding pf_block_def by (rule exI[of _ "[]"]) simp

lemma pf_block_line_text: "list_all (in_section k) ls \<Longrightarrow> pf_block k (line_text ls)"
  by (auto simp: pf_block_def)

lemma pf_block_append: "pf_block k s \<Longrightarrow> pf_block k t \<Longrightarrow> pf_block k (s @ t)"
  unfolding pf_block_def by (metis line_text_simps(3) list_all_append)

lemma pf_block_block_text: "ls \<noteq> [] \<Longrightarrow> list_all (in_section k) ls \<Longrightarrow> pf_block k (block_text ls)"
  by (simp add: block_text_def join_nl_line_text pf_block_line_text)

lemma block_text_line: "ls \<noteq> [] \<Longrightarrow> block_text ls = line_text ls"
  by (simp add: block_text_def join_nl_line_text)

lemma join_nl_end: "ls \<noteq> [] \<Longrightarrow> join nl ls @ nl @ nl = line_text (ls @ [[]])"
proof (induction ls)
  case (Cons l ls)
  then show ?case by (cases ls) (simp_all add: nl_def)
qed simp

lemma in_section_Nil [simp]: "in_section k []"
  by (simp add: in_section_def line_section_Nil)

lemma pf_block_join: "ls \<noteq> [] \<Longrightarrow> list_all (in_section k) ls \<Longrightarrow> pf_block k (join nl ls @ nl @ nl)"
  unfolding join_nl_end by (rule pf_block_line_text) simp

lemma pf_block_sections:
  assumes "pf_block k t"
  shows "\<exists>n. text_sections (t @ rest) = replicate n k @ text_sections rest"
proof -
  obtain ls where t: "t = line_text ls" and ls: "list_all (in_section k) ls"
    using assms by (auto simp: pf_block_def)
  have nb: "list_all no_break ls" using ls by (simp add: list_all_iff in_section_def)
  have "\<exists>n. lines_sections ls = replicate n k"
    using ls
  proof (induction ls)
    case Nil
    have "lines_sections [] = replicate 0 k" by simp
    then show ?case by blast
  next
    case (Cons l ls)
    then obtain n where n: "lines_sections ls = replicate n k" by auto
    from Cons.prems have "line_section l = None \<or> line_section l = Some k" by (simp add: in_section_def)
    then show ?case
    proof
      assume "line_section l = Some k"
      then have "lines_sections (l # ls) = replicate (Suc n) k" by (simp add: n)
      then show ?thesis by blast
    qed (use n in auto)
  qed
  then show ?thesis by (auto simp: t text_sections_line_text[OF nb])
qed

lemma pf_blocks_sorted:
  assumes "list_all2 pf_block ks ts" "sorted ks"
  shows "sorted (text_sections (concat ts)) \<and> set (text_sections (concat ts)) \<subseteq> set ks"
  using assms
proof (induction ks ts rule: list_all2_induct)
  case Nil
  show ?case by (simp add: text_sections_def)
next
  case (Cons k ks t ts)
  obtain n where "text_sections (t @ concat ts) = replicate n k @ text_sections (concat ts)"
    using pf_block_sections[OF Cons.hyps(1)] by blast
  with Cons.IH Cons.prems show ?case by (auto simp: sorted_append dest: subsetD)
qed

lemma validate_sorted: "validate_section_order t = Inr () \<longleftrightarrow> sorted (text_sections t)"
  using scan_sections_sorted[of None 0 "number_from 1 (splitlines t)"]
  by (simp add: validate_section_order_def text_sections_def)

section \<open>Lines without breaks\<close>

named_theorems nb_simps \<open>texts without line breaks\<close>

lemma no_break_lower [nb_simps]: "no_break (lower s) = no_break s"
proof -
  have "is_linebreak (to_lower c) = is_linebreak c" for c
    by (auto simp: is_linebreak_def code_to_lower is_upper_def)
  then show ?thesis by (simp add: no_break_def lower_def list_all_iff)
qed

lemma no_break_subset: "no_break s \<Longrightarrow> set t \<subseteq> set s \<Longrightarrow> no_break t"
  by (auto simp: no_break_def list_all_iff)

lemma no_break_join [nb_simps]:
  "no_break sep \<Longrightarrow> (\<And>x. x \<in> set xs \<Longrightarrow> no_break x) \<Longrightarrow> no_break (join sep xs)"
  by (induction sep xs rule: join.induct) auto

lemma digit_no_break: "(\<And>c. c \<in> set s \<Longrightarrow> is_digit c) \<Longrightarrow> no_break s"
  by (auto simp: no_break_def list_all_iff dest: linebreak_is_space digit_not_space)

lemma no_break_str_nat [nb_simps]: "no_break (str_nat n)"
  by (rule digit_no_break) (rule str_nat_digits)

lemma no_break_str_int [nb_simps]: "no_break (str_int n)"
  by (simp add: str_int_def no_break_str_nat) (simp add: no_break_def is_linebreak_def code_def)

lemma no_break_dq [nb_simps]: "no_break (dq s) = no_break s"
  by (simp add: dq_def) (simp add: no_break_def is_linebreak_def code_def)

lemma no_break_header [nb_simps]: "no_break t \<Longrightarrow> no_break (header t)"
  by (simp add: header_def rule_line_def) (simp add: no_break_def is_linebreak_def code_def)

lemma no_break_strip_option [nb_simps]:
  "no_break (case c of None \<Rightarrow> d | Some s \<Rightarrow> s) \<Longrightarrow> no_break (strip (case c of None \<Rightarrow> d | Some s \<Rightarrow> s))"
  by (rule no_break_strip)

text \<open>A column without line breaks.\<close>

definition clean :: "string option \<Rightarrow> bool" where
  "clean c \<longleftrightarrow> (case c of None \<Rightarrow> True | Some s \<Rightarrow> no_break s)"

lemma clean_or_str [nb_simps]: "clean c \<Longrightarrow> no_break d \<Longrightarrow> no_break (or_str c d)"
  by (cases c) (auto simp: clean_def)

lemma clean_strip [nb_simps]: "clean c \<Longrightarrow> no_break (strip (or_str c []))"
  by (intro no_break_strip clean_or_str) auto

lemma no_break_addr [nb_simps]: "clean c \<Longrightarrow> no_break (addr c)"
  using clean_strip[of c] by (auto simp: addr_def Let_def simp del: or_str_None_empty)
    (auto simp: no_break_def is_linebreak_def code_def)

section \<open>Fields\<close>

lemmas lit_simps = is_linebreak_def code_def

lemmas more_keywords [line_simps] = line_section_keywords(13-15)[simplified]

lemma line_section_hash [line_simps]: "line_section (CHR ''#'' # r) = None"
  by (rule line_section_comment)

lemmas sec_simps = in_section_def line_simps lit_simps nb_simps

lemma no_break_proto_line [nb_simps]: "clean p \<Longrightarrow> no_break (proto_line p)"
  using clean_strip[of p]
  by (auto simp: proto_line_def Let_def nb_simps lit_simps simp del: or_str_None_empty)

lemma colon_range_chars: "no_break p \<Longrightarrow> no_break (colon_range p)"
proof -
  assume p: "no_break p"
  have "takeWhile is_digit p @ dropWhile is_digit p = p" by simp
  then have "no_break (takeWhile is_digit p) \<and> no_break (dropWhile is_digit p)"
    using p by (metis no_break_simps(3))
  with p show ?thesis
    by (auto simp: colon_range_def Let_def lit_simps split: list.split)
qed

lemma no_break_port_line [nb_simps]: "no_break (port_line p)"
proof -
  let ?ps = "filter (\<lambda>x. x \<noteq> []) (map strip (split_runs is_port_split (strip (or_str p []))))"
  have "no_break w" if "w \<in> set (split_runs is_port_split s)" for w s
    using split_runs_pieces[OF that]
    by (auto simp: no_break_def list_all_iff is_port_split_def dest: linebreak_is_space)
  then have "\<forall>x \<in> set ?ps. no_break x" by (auto intro: no_break_strip simp del: or_str_None_empty)
  then have ps: "\<forall>x \<in> set (map colon_range ?ps). no_break x" by (auto intro: colon_range_chars)
  have hd: "no_break (hd xs)" if "length xs = 1" "\<forall>x \<in> set xs. no_break x" for xs
    using that by (cases xs) auto
  have j: "no_break (join '' '' (map colon_range ?ps))"
    using ps by (intro no_break_join) (auto simp: lit_simps simp del: or_str_None_empty)
  show ?thesis
    unfolding port_line_def Let_def
    using hd[OF _ ps] j by (auto simp: lit_simps simp del: or_str_None_empty)
qed

lemma comment_in_section: "clean d \<Longrightarrow> list_all (in_section k) (comment d)"
  using clean_strip[of d] by (auto simp: comment_def Let_def sec_simps simp del: or_str_None_empty)

lemma no_break_resolve [nb_simps]:
  "no_break wan \<Longrightarrow> no_break lan \<Longrightarrow> clean c \<Longrightarrow> no_break (resolve_iface wan lan c)"
  using clean_strip[of c] by (auto simp: resolve_iface_def Let_def simp del: or_str_None_empty)

section \<open>Addresses\<close>

lemma no_break_str_v4 [nb_simps]: "no_break (str_v4 n)"
  unfolding str_v4_def by (rule no_break_join) (auto simp: nb_simps lit_simps)

lemma hex_digit_no_break: "n < 16 \<Longrightarrow> \<not> is_linebreak (hex_digit n)"
  by (auto simp: hex_digit_def is_linebreak_def code_def)

lemma no_break_str_hex: "no_break (str_hex n)"
  by (induction n rule: str_hex.induct) (simp add: str_hex.simps hex_digit_no_break)

lemma no_break_str_v6 [nb_simps]: "no_break (str_v6 n)"
proof -
  have hs: "x \<in> set (map str_hex (hextets n)) \<Longrightarrow> no_break x" for x
    by (auto simp: no_break_str_hex)
  have t: "x \<in> set (take k (map str_hex (hextets n))) \<Longrightarrow> no_break x"
    "x \<in> set (drop k (map str_hex (hextets n))) \<Longrightarrow> no_break x" for x k
    using hs by (blast dest: in_set_takeD in_set_dropD)+
  show ?thesis
    unfolding str_v6_def Let_def
    by (auto simp del: map_append split: prod.split intro!: no_break_join dest: t hs simp: lit_simps)
qed

lemma scope_clean:
  assumes "parse_ipv6 s = Some (V6 n (Some sc))" "no_break s"
  shows "no_break sc"
proof -
  obtain a where "split_on (CHR ''%'') s = [a, sc]"
    using assms(1) by (auto simp: parse_ipv6_def split: if_splits list.splits)
  then have "sc \<in> set (split_on (CHR ''%'') s)" by simp
  then show ?thesis using split_on_pieces assms(2) no_break_subset by metis
qed

lemma parse_ipv4_V4: "parse_ipv4 s = Some a \<Longrightarrow> \<exists>n. a = V4 n"
  by (auto simp: parse_ipv4_def split: if_splits)

lemma iface_ip_clean:
  assumes "ip_interface s = Some i" "no_break s" "iface_ip i = V6 n (Some sc)"
  shows "no_break sc"
proof -
  from assms(1) consider "parse_iface parse_ipv4 netmask_v4 32 s = Some i"
    | "parse_iface parse_ipv6 (prefix_of_string 128) 128 s = Some i"
    by (auto simp: ip_interface_def split: option.splits)
  then show ?thesis
  proof cases
    case 1
    then show ?thesis using assms(3)
      by (auto simp: parse_iface_def split: list.splits option.splits dest: parse_ipv4_V4)
  next
    case 2
    then have "\<exists>a \<in> set (split_on (CHR ''/'') s). parse_ipv6 a = Some (V6 n (Some sc))"
      using assms(3) by (auto simp: parse_iface_def split: list.splits option.splits)
    then obtain a where a: "a \<in> set (split_on (CHR ''/'') s)" "parse_ipv6 a = Some (V6 n (Some sc))"
      by blast
    then have "no_break a" using split_on_pieces[OF a(1)] assms(2) no_break_subset by blast
    with a(2) show ?thesis by (rule scope_clean)
  qed
qed

lemma no_break_str_ip:
  assumes "\<And>n sc. a = V6 n (Some sc) \<Longrightarrow> no_break sc"
  shows "no_break (str_ip a)"
  using assms by (auto simp: str_ip_def nb_simps lit_simps split: ipaddr.split option.split)

lemma iface_text_clean [nb_simps]:
  assumes "ip_interface s = Some i" "no_break s"
  shows "no_break (str_ip (host_ip i))" "no_break (str_net (iface_network i))"
proof -
  show "no_break (str_ip (host_ip i))"
    by (intro no_break_str_ip) (auto simp: host_ip_def split: ipaddr.splits)
  have "network_addr (iface_ip i) p = V6 n (Some sc) \<Longrightarrow> iface_ip i = V6 n (Some sc)" for p n sc
    by (cases "iface_ip i") (auto split: if_splits)
  then have "no_break (str_ip (network_addr (iface_ip i) (iface_plen i)))"
    using iface_ip_clean[OF assms] by (intro no_break_str_ip) blast
  then show "no_break (str_net (iface_network i))"
    by (simp add: str_net_def iface_network_def nb_simps lit_simps)
qed

lemma no_break_network_or_raw [nb_simps]: "no_break s \<Longrightarrow> no_break (network_or_raw s)"
  by (auto simp: network_or_raw_def nb_simps split: option.split)

section \<open>Macro lines\<close>

text \<open>A line \<open>name = ...\<close> whose name is a word and no keyword starts no section.\<close>

lemma strip_word_line:
  assumes "w \<noteq> []" "\<forall>c \<in> set w. \<not> is_space c"
  shows "\<exists>r. strip (w @ CHR '' '' # rest) = w @ r \<and> (r = [] \<or> hd r = CHR '' '')"
proof -
  obtain k ks where k: "w = k # ks" using assms(1) by (cases w) auto
  have ls: "lstrip (w @ CHR '' '' # rest) = w @ CHR '' '' # rest"
    using assms(2) by (simp add: lstrip_def k)
  have rw: "rstrip w = w" using assms by (intro rstrip_id) auto
  show ?thesis
  proof (cases "rstrip (CHR '' '' # rest) = []")
    case True
    then have "\<forall>x \<in> set (CHR '' '' # rest). is_space x" by (simp only: rstrip_Nil_iff)
    then have "dropWhile is_space (rev (CHR '' '' # rest) @ rev w) = dropWhile is_space (rev w)"
      by (intro dropWhile_append2) auto
    then have "rstrip (w @ CHR '' '' # rest) = w" using rw by (simp add: rstrip_def)
    then show ?thesis using ls by (simp add: strip_def)
  next
    case False
    then have "strip (w @ CHR '' '' # rest) = w @ rstrip (CHR '' '' # rest)"
      unfolding strip_def ls by (intro rstrip_append) auto
    moreover obtain t where "rstrip (CHR '' '' # rest) = CHR '' '' # t"
      using False rstrip_prefix[of "CHR '' '' # rest"] by (cases "rstrip (CHR '' '' # rest)") auto
    ultimately show ?thesis by auto
  qed
qed

definition macro_name :: "string \<Rightarrow> bool" where
  "macro_name w \<longleftrightarrow> w \<noteq> [] \<and> list_all is_word w \<and> map_of section_by_token (lower w) = None"

lemma word_not_space: "is_word c \<Longrightarrow> \<not> is_space c"
  using space_not_tok by blast

lemma macro_name_no_break: "macro_name w \<Longrightarrow> no_break w"
  by (auto simp: macro_name_def no_break_def list_all_iff dest: word_not_space linebreak_is_space)

lemma underscore_no_token:
  assumes "list_all is_word w" "CHR ''_'' \<in> set w"
  shows "token_match (w @ r) = None"
proof -
  let ?n = "length (takeWhile is_tok (w @ r))"
  obtain i where i: "i < length w" "w ! i = CHR ''_''" using assms(2) by (metis in_set_conv_nth)
  have "\<not> is_tok (CHR ''_'')" by (simp add: is_tok_def char_class_defs)
  have n: "?n \<le> i"
  proof (rule ccontr)
    assume "\<not> ?n \<le> i"
    then have "i < ?n" by simp
    moreover have "takeWhile is_tok (w @ r) ! i \<in> set (takeWhile is_tok (w @ r))"
      using calculation by (rule nth_mem)
    moreover have "takeWhile is_tok (w @ r) ! i = CHR ''_''"
      using i calculation(1) by (simp add: takeWhile_nth nth_append)
    ultimately show False using \<open>\<not> is_tok (CHR ''_'')\<close> by (metis set_takeWhileD)
  qed
  have "\<not> word_boundary (w @ r) m" if "1 \<le> m" "m \<le> ?n" for m
  proof -
    have "m < length w" using that n i by simp
    then have "is_word (w ! (m - 1))" "is_word (w ! m)" using assms(1) by (simp_all add: list_all_length)
    moreover have "m - 1 < length w" using \<open>m < length w\<close> by simp
    ultimately show ?thesis using \<open>m < length w\<close> by (simp add: word_boundary_def nth_append)
  qed
  then have "find (word_boundary (w @ r)) (rev [1..<Suc ?n]) = None"
    by (auto simp: find_None_iff)
  then show ?thesis by (simp add: token_match_def del: upt_Suc)
qed

lemma line_section_macro:
  assumes "macro_name w"
  shows "line_section (w @ CHR '' '' # rest) = None"
proof -
  have w: "w \<noteq> []" "list_all is_word w" "map_of section_by_token (lower w) = None"
    using assms by (simp_all add: macro_name_def)
  obtain r where r: "strip (w @ CHR '' '' # rest) = w @ r" "r = [] \<or> hd r = CHR '' ''"
    using strip_word_line[of w rest] w word_not_space by (metis list_all_iff)
  show ?thesis
  proof (cases "CHR ''_'' \<in> set w")
    case True
    then show ?thesis
      by (simp add: line_section_def first_token_def Let_def r(1) underscore_no_token[OF w(2)])
  next
    case False
    then have al: "list_all is_alnum w" using w(2) by (auto simp: list_all_iff is_word_def)
    show ?thesis
    proof (cases "is_alpha (hd w)")
      case True
      have "list_all is_tok w" "is_alnum (last w)"
        using al w(1) by (auto simp: list_all_iff is_tok_def)
      then show ?thesis
        using line_section_kw[of w "CHR '' ''" rest] w True by (simp add: char_class_defs)
    next
      case na: False
      then have "token_match (w @ r) = None" using w(1) by (simp add: token_match_def)
      then show ?thesis by (simp add: line_section_def first_token_def Let_def r(1))
    qed
  qed
qed

section \<open>Clean rows\<close>

text \<open>No text column of a row holds a line break; alias macros are words and no keywords.\<close>

definition clean_iface :: "iface_cfg \<Rightarrow> bool" where
  "clean_iface r \<longleftrightarrow> clean (if_port r) \<and> clean (if_ipv4 r)"

definition clean_alias :: "(string \<Rightarrow> pyval option) \<Rightarrow> alias_row \<Rightarrow> bool" where
  "clean_alias loads r \<longleftrightarrow> no_break (strip (as_name r))
     \<and> (\<forall>v \<in> set (alias_entries loads (strip (or_str (as_values r) []))). no_break v)
     \<and> (lower (or_str (as_type r) ''host'') \<in> set [''host'', ''network'', ''urltable'']
        \<or> macro_name (strip (as_name r)))"

definition clean_outbound :: "outbound_row \<Rightarrow> bool" where
  "clean_outbound r \<longleftrightarrow> list_all clean [no_interface r, no_src r, no_dst r, no_nat r, no_description r]"

definition clean_one_to_one :: "one_to_one_row \<Rightarrow> bool" where
  "clean_one_to_one r \<longleftrightarrow> list_all clean [n1_interface r, n1_external r, n1_internal r, n1_description r]"

definition clean_forward :: "forward_row \<Rightarrow> bool" where
  "clean_forward r \<longleftrightarrow> list_all clean [nf_interface r, nf_protocol r, nf_src r, nf_dst r,
     nf_redirect_ip r, nf_redirect_port r, nf_description r]"

definition clean_npt :: "npt_row \<Rightarrow> bool" where
  "clean_npt r \<longleftrightarrow> list_all clean [np_interface r, np_src r, np_dst r, np_description r]"

definition clean_rule :: "fw_rule \<Rightarrow> bool" where
  "clean_rule r \<longleftrightarrow> list_all clean [fw_interface r, fw_protocol r, fw_source r, fw_destination r,
     fw_description r, fw_schedule r]"

definition clean_shaper :: "shaper_row \<Rightarrow> bool" where
  "clean_shaper r \<longleftrightarrow> clean (sh_name r) \<and> clean (sh_unit r)"

definition clean_vip :: "vip_row \<Rightarrow> bool" where
  "clean_vip r \<longleftrightarrow> list_all clean [vi_type r, vi_interface r, vi_address r]"

definition clean_limiter :: "limiter_row \<Rightarrow> bool" where
  "clean_limiter r \<longleftrightarrow> clean (li_name r) \<and> clean (li_unit r)"

definition clean_route :: "route_row \<Rightarrow> bool" where
  "clean_route r \<longleftrightarrow> list_all clean [pr_source r, pr_destination r, pr_description r]"

definition clean_gateway :: "gateway_row \<Rightarrow> bool" where
  "clean_gateway g \<longleftrightarrow> clean (gw_gateway g) \<and> clean (gw_interface g)"

definition clean_app :: "app_rule \<Rightarrow> bool" where
  "clean_app r \<longleftrightarrow> list_all clean [ar_app_name r, ar_ports r, ar_protocol r]"

section \<open>The lines of a builder\<close>

lemmas block_simps = in_section_def line_simps lit_simps nb_simps

lemma list_all_concat_map: "(\<And>x. x \<in> set xs \<Longrightarrow> list_all P (f x)) \<Longrightarrow> list_all P (concat (map f xs))"
  by (induction xs) auto

lemma header_in_section: "no_break t \<Longrightarrow> in_section k (header t)"
  by (simp add: in_section_def nb_simps) (simp add: header_def line_simps)

lemma line_section_header: "line_section (header t) = None"
  by (simp add: header_def line_simps)

lemma alias_line_in_section:
  assumes "clean_alias loads r"
  shows "list_all (in_section k) (alias_line loads r)"
proof -
  let ?n = "strip (as_name r)" and ?vs = "alias_entries loads (strip (or_str (as_values r) []))"
  have n: "no_break ?n" and vs: "\<forall>v \<in> set ?vs. no_break v"
    using assms by (auto simp: clean_alias_def)
  have j: "no_break (join '' '' ?vs)" "no_break (join '', '' ?vs)"
    using vs by (auto intro!: no_break_join simp: lit_simps simp del: or_str_None_empty)
  have "in_section k (?n @ '' = '' @ dq (''{ '' @ join '', '' ?vs @ '' }''))" if "macro_name ?n"
    using line_section_macro[OF that] n j by (simp add: in_section_def nb_simps lit_simps)
  then show ?thesis
    using assms n j
    by (auto simp: alias_line_def clean_alias_def Let_def block_simps simp del: or_str_None_empty)
qed

lemma outbound_in_section:
  assumes "no_break wan" "no_break lan" "clean_outbound r"
  shows "list_all (in_section 5) (outbound_lines wan lan r)"
  using assms clean_strip[of "no_nat r"] comment_in_section[of "no_description r"]
  by (auto simp: outbound_lines_def clean_outbound_def Let_def block_simps simp del: or_str_None_empty)

lemma one_to_one_in_section:
  assumes "no_break wan" "no_break lan" "clean_one_to_one r"
  shows "list_all (in_section 5) (one_to_one_lines wan lan r)"
  using assms comment_in_section[of "n1_description r"]
  by (auto simp: one_to_one_lines_def clean_one_to_one_def block_simps)

lemma forward_in_section:
  assumes "no_break wan" "no_break lan" "clean_forward r"
  shows "list_all (in_section 5) (forward_lines wan lan r)"
  using assms clean_strip[of "nf_redirect_port r"] comment_in_section[of "nf_description r"]
  by (auto simp: forward_lines_def clean_forward_def Let_def block_simps simp del: or_str_None_empty)

lemma npt_in_section:
  assumes "no_break wan" "no_break lan" "clean_npt r"
  shows "list_all (in_section 5) (npt_lines wan lan r)"
  using assms clean_strip[of "np_src r"] clean_strip[of "np_dst r"] comment_in_section[of "np_description r"]
  by (auto simp: npt_lines_def clean_npt_def Let_def block_simps simp del: or_str_None_empty)

lemma rule_tail_no_break: "clean_rule r \<Longrightarrow> no_break (rule_tail r)"
  by (auto simp: rule_tail_def rule_proto_def rule_sport_def rule_dport_def rule_label_def
      clean_rule_def nb_simps lit_simps)

lemma rule_comment_in_section:
  assumes "clean_rule r" shows "list_all (in_section k) (rule_comment r)"
  using assms clean_strip[of "fw_description r"] clean_strip[of "fw_schedule r"]
  by (auto simp: rule_comment_def clean_rule_def Let_def block_simps simp del: or_str_None_empty)

lemma floating_in_section:
  assumes "no_break wan" "no_break lan" "clean_rule r"
  shows "list_all (in_section 6) (floating_lines wan lan r)"
  using assms rule_comment_in_section[OF assms(3)] rule_tail_no_break[OF assms(3)]
    clean_strip[of "fw_interface r"]
  by (cases "pf_action (fw_action r)")
    (auto simp: floating_lines_def clean_rule_def log_kw_def Let_def block_simps simp del: or_str_None_empty)

lemma iface_rule_in_section:
  assumes "no_break iface" "clean_rule r"
  shows "list_all (in_section 6) (iface_rule_lines iface r)"
  using assms rule_comment_in_section[OF assms(2)] rule_tail_no_break[OF assms(2)]
  by (cases "pf_action (fw_action r)")
    (auto simp: iface_rule_lines_def log_kw_def Let_def block_simps)

section \<open>Clean databases\<close>

definition clean_queue :: "queue_row \<Rightarrow> bool" where
  "clean_queue q \<longleftrightarrow> list_all clean [qu_name q, qu_ack q, qu_protocol q, qu_source q, qu_destination q]"

definition clean_adv :: "(string \<times> pyval) list \<Rightarrow> bool" where
  "clean_adv d \<longleftrightarrow> (case map_of d ''firewall_optimization'' of Some (PStr s) \<Rightarrow> no_break s | _ \<Rightarrow> True)"

definition clean_soc :: "soc_row option option \<Rightarrow> bool" where
  "clean_soc s \<longleftrightarrow> (case s of Some (Some r) \<Rightarrow> clean (so_bind_ip r) | _ \<Rightarrow> True)"

definition clean_db :: "pf_env \<Rightarrow> pf_db \<Rightarrow> bool" where
  "clean_db env db \<longleftrightarrow>
     list_all clean_iface (lan_config db) \<and> list_all clean_iface (wan_config db)
     \<and> clean_adv (case adv_row db of None \<Rightarrow> [] | Some d \<Rightarrow> d)
     \<and> list_all (clean_alias (env_loads env)) (aliases db)
     \<and> list_all clean_outbound (nat_outbound db) \<and> list_all clean_one_to_one (nat_1to1 db)
     \<and> list_all clean_forward (nat_pf db) \<and> list_all clean_npt (nat_npt db)
     \<and> list_all clean_rule (floating_rules db) \<and> list_all clean_rule (wan_rules db)
     \<and> list_all clean_rule (lan_rules db)
     \<and> list_all clean_shaper (rows_of (shaper_configs db))
     \<and> list_all clean_queue (rows_of (shaper_queues db))
     \<and> list_all clean_vip (rows_of (virtual_ips db)) \<and> list_all clean_limiter (rows_of (limiters db))
     \<and> list_all clean_route (rows_of (policy_routes db)) \<and> list_all clean_gateway (gateways db)
     \<and> clean_soc (soc_portal db)
     \<and> list_all (\<lambda>r. clean (ov_interface r)) (rows_of (openvpn_servers db))
     \<and> list_all (\<lambda>r. clean (p1_interface r)) (rows_of (ipsec_phase1 db))
     \<and> list_all clean_app (rows_of (app_rules (policy db)))"

section \<open>Interfaces and networks of the database\<close>

lemma lan_port_no_break: "list_all clean_iface (lan_config db) \<Longrightarrow> no_break (lan_port_or_em1 (lan_config db))"
  by (cases "lan_config db")
    (auto simp: lan_port_or_em1_def clean_iface_def lit_simps intro!: clean_or_str)

lemma wan_iface_no_break: "list_all clean_iface (wan_config db) \<Longrightarrow> no_break (wan_iface_of db)"
  by (cases "wan_config db")
    (auto simp: wan_iface_of_def clean_iface_def lit_simps intro!: clean_or_str)

lemma lan_net_no_break: "list_all clean_iface (lan_config db) \<Longrightarrow> no_break (lan_net_of db)"
  by (cases "lan_config db")
    (auto simp: lan_net_of_def clean_iface_def lit_simps intro!: no_break_network_or_raw clean_or_str)

lemma lan_by_id_clean: "list_all clean_iface (lan_config db) \<Longrightarrow> lan_by_id db = Some r \<Longrightarrow> clean_iface r"
  by (auto simp: lan_by_id_def list_all_iff dest: find_by_SomeD)

lemma lan_iface_addr_clean:
  assumes "list_all clean_iface (lan_config db)" "lan_iface_addr db = Some i"
  shows "no_break (str_ip (host_ip i))" "no_break (str_net (iface_network i))"
proof -
  obtain r where r: "lan_by_id db = Some r" "ip_interface (or_str (if_ipv4 r) []) = Some i"
    using assms(2) by (auto simp: lan_iface_addr_def Let_def simp del: or_str_None_empty split: option.splits if_splits)
  have "no_break (or_str (if_ipv4 r) [])"
    using lan_by_id_clean[OF assms(1) r(1)] by (intro clean_or_str) (auto simp: clean_iface_def)
  then show "no_break (str_ip (host_ip i))" "no_break (str_net (iface_network i))"
    using iface_text_clean[OF r(2)] by auto
qed

lemma lan_dns_iface_clean:
  assumes "list_all clean_iface (lan_config db)" "lan_dns_iface db = Some (port, i)"
  shows "no_break port" "no_break (str_ip (host_ip i))" "no_break (str_net (iface_network i))"
proof -
  obtain r where r: "lan_by_id db = Some r" "ip_interface (or_str (if_ipv4 r) []) = Some i"
    "port = or_str (if_port r) []"
    using assms(2) by (auto simp: lan_dns_iface_def Let_def simp del: or_str_None_empty split: option.splits if_splits)
  have c: "clean_iface r" by (rule lan_by_id_clean[OF assms(1) r(1)])
  have "no_break (or_str (if_ipv4 r) [])" "no_break port"
    using c r(3) by (auto intro!: clean_or_str simp: clean_iface_def simp del: or_str_None_empty)
  then show "no_break port" "no_break (str_ip (host_ip i))" "no_break (str_net (iface_network i))"
    using iface_text_clean[OF r(2)] by auto
qed

section \<open>Blocks\<close>

lemma macro_names:
  "macro_name ''VIRTUAL_IPS''" "macro_name ''WAN''" "macro_name ''LAN''" "macro_name ''LAN_NET''"
  by code_simp+

lemma macro_lines [line_simps]:
  "line_section (''VIRTUAL_IPS '' @ r) = None"
  "line_section (''WAN '' @ r) = None"
  "line_section (''LAN '' @ r) = None"
  "line_section (''LAN_NET '' @ r) = None"
  using line_section_macro[of "''VIRTUAL_IPS''" r] line_section_macro[of "''WAN''" r]
    line_section_macro[of "''LAN''" r] line_section_macro[of "''LAN_NET''" r]
  by (simp_all add: macro_names)

lemmas macro_lines_simps [line_simps] = macro_lines[simplified]

lemma line_section_scrub_set [line_simps]:
  "line_section (CHR ''s'' # CHR ''c'' # CHR ''r'' # CHR ''u'' # CHR ''b'' # CHR '' '' # r) = Some 3"
  by (rule line_section_keywords)

lemmas pf_simps = in_section_def line_simps lit_simps nb_simps

lemma pf_block_aliases:
  "list_all (clean_alias (env_loads env)) (aliases db) \<Longrightarrow> pf_block 0 (build_alias_tables env db)"
  unfolding build_alias_tables_def alias_lines_def
  by (auto intro!: pf_block_block_text header_in_section list_all_concat_map alias_line_in_section
      simp: lit_simps list_all_iff[of "clean_alias _"])

lemma pf_block_pipes:
  assumes "list_all clean_limiter (rows_of (limiters db))"
  shows "pf_block 0 (build_dummynet_pipes db)"
proof -
  have cl: "clean_limiter r" if "(i, r) \<in> set (number_from 1 (enabled_limiters db))" for i r
    using number_from_ge[OF that] assms
    by (auto simp: enabled_limiters_def list_all_iff rows_of_def split: option.splits)
  have rs: "no_break s \<Longrightarrow> no_break (rstrip_chars cs s)" for s cs
    by (erule no_break_subset) (auto simp: rstrip_chars_def dest: set_dropWhileD)
  have "in_section 0 (pipe_line x)" if "x \<in> set (number_from 1 (enabled_limiters db))" for x
  proof -
    obtain i r where x: "x = (i, r)" by (cases x)
    then have c: "clean (li_name r)" "clean (li_unit r)" using cl that by (auto simp: clean_limiter_def)
    have "no_break (or_str (li_name r) (''limiter_'' @ str_nat i))"
      by (intro clean_or_str c) (simp add: nb_simps lit_simps)
    moreover have "no_break (or_str (li_unit r) ''Mbit/s'')"
      by (intro clean_or_str c) (simp add: lit_simps)
    ultimately show ?thesis
      by (simp add: x pipe_line_def pf_simps no_break_strip rs)
  qed
  then show ?thesis
    unfolding build_dummynet_pipes_def
    by (auto intro!: pf_block_block_text header_in_section simp: list_all_iff lit_simps)
qed

lemma timeout_values_no_break:
  "timeout_values d ks = Inr vs \<Longrightarrow> \<forall>(k, pf) \<in> set ks. no_break pf \<Longrightarrow> \<forall>v \<in> set vs. no_break v"
proof (induction ks arbitrary: vs)
  case (Cons x ks)
  obtain k pf where x: "x = (k, pf)" by (cases x)
  show ?case
  proof (cases "py_bool_of (adv_get d k)")
    case True
    with Cons.prems(1) x obtain n us where "vs = (pf @ '' '' @ str_int n) # us" "timeout_values d ks = Inr us"
      by (auto simp: bind_res_Inr)
    with Cons x show ?thesis by (auto simp: nb_simps lit_simps)
  qed (use Cons x in auto)
qed simp

lemma timeout_keys_no_break: "\<forall>(k, pf) \<in> set timeout_keys. no_break pf"
  by (simp add: timeout_keys_def lit_simps)

lemma optimization_no_break: "clean_adv d \<Longrightarrow> optimization d = Inr opt \<Longrightarrow> no_break opt"
  by (auto simp: optimization_def adv_or_def adv_get_def clean_adv_def nb_simps no_break_strip lit_simps
      split: if_splits pyval.splits option.splits)

lemma pf_block_options:
  assumes "clean_adv d" "option_lines d = Inr ls"
  shows "pf_block 2 (line_text ls)"
proof -
  obtain opt st fr tb a b tv where opt: "optimization d = Inr opt"
    and tv: "timeout_values d timeout_keys = Inr tv"
    and ls: "ls = [''set block-policy drop'', ''set skip on lo0'', ''set optimization '' @ opt, [],
            ''set limit { states '' @ str_int st @ '', frags '' @ str_int fr @ '' }'',
            ''set limit table-entries '' @ str_int tb, [],
            ''set timeout { '' @
              join '', '' (tv @ [''adaptive.start '' @ str_int a, ''adaptive.end '' @ str_int b]) @ '' }'',
            []]"
    using assms(2) by (auto simp: option_lines_def bind_res_Inr simp del: append_Cons)
  have "no_break (join '', '' (tv @ [''adaptive.start '' @ str_int a, ''adaptive.end '' @ str_int b]))"
    using timeout_values_no_break[OF tv timeout_keys_no_break]
    by (intro no_break_join) (auto simp: nb_simps lit_simps)
  then show ?thesis
    using optimization_no_break[OF assms(1) opt]
    by (intro pf_block_line_text) (simp add: ls pf_simps del: join.simps)
qed

lemma iface_mss_in_section:
  "no_break m \<Longrightarrow> list_all (in_section 3) (iface_mss_lines cfg m)"
  by (auto simp: iface_mss_lines_def pf_simps split: option.split)

lemma pf_block_scrub:
  assumes "build_scrub_rules db d = Inr t"
  shows "pf_block 3 t"
proof (cases "py_bool_of (adv_get d ''disable_scrub'')")
  case False
  let ?ls = "iface_mss_lines (wan_config db) ''$WAN'' @ iface_mss_lines (lan_config db) ''$LAN''"
  from assms False have "\<exists>l. (l = ''scrub in all'' \<or> (\<exists>m. l = ''scrub in all max-mss '' @ str_int m))
      \<and> t = join nl (?ls @ [l]) @ nl @ nl"
    by (auto simp: build_scrub_rules_def bind_res_Inr split: if_splits)
  then obtain l where "l = ''scrub in all'' \<or> (\<exists>m. l = ''scrub in all max-mss '' @ str_int m)"
    and t: "t = join nl (?ls @ [l]) @ nl @ nl" by blast
  then have l: "in_section 3 l" by (elim disjE exE) (simp_all add: pf_simps)
  have "list_all (in_section 3) ?ls"
    by (auto intro!: iface_mss_in_section simp: lit_simps)
  with l show ?thesis unfolding t by (intro pf_block_join) simp_all
qed (use assms in \<open>simp add: build_scrub_rules_def\<close>)

lemma pf_block_nat:
  assumes "clean_db env db"
  shows "pf_block 5 (build_nat_rules env db (wan_iface_of db))"
proof -
  note c = assms[unfolded clean_db_def]
  let ?wan = "wan_iface_of db" and ?lan = "lan_port_or_em1 (lan_config db)"
  have w: "no_break ?wan" "no_break ?lan"
    using c wan_iface_no_break lan_port_no_break by blast+
  have net: "no_break (network_or_raw (case lan_config db of [] \<Rightarrow> ''192.168.1.0/24''
      | r # _ \<Rightarrow> or_str (if_ipv4 r) ''192.168.1.0/24''))"
    using lan_net_no_break[of db] c by (simp add: lan_net_of_def)
  have refl: "list_all (in_section 5) (reflection_lines db)"
    using w(2) net by (simp add: reflection_lines_def Let_def pf_simps)
  have icpt: "list_all (in_section 5) (intercept_lines env db)"
  proof (cases "lan_dns_iface db")
    case (Some x)
    obtain port i where x: "x = (port, i)" by (cases x)
    have "no_break port" "no_break (str_ip (host_ip i))" "no_break (str_net (iface_network i))"
      using lan_dns_iface_clean[of db port i] Some x c by auto
    then show ?thesis by (simp add: intercept_lines_def Some x dns_rdr_line_def pf_simps em_dash_def)
  qed (simp add: intercept_lines_def pf_simps em_dash_def)
  show ?thesis
    unfolding build_nat_rules_def nat_lines_def Let_def
    using c w refl icpt
    by (intro pf_block_block_text)
      (auto intro!: header_in_section list_all_concat_map outbound_in_section one_to_one_in_section
        forward_in_section npt_in_section simp: lit_simps list_all_iff[of clean_outbound]
        list_all_iff[of clean_one_to_one] list_all_iff[of clean_forward] list_all_iff[of clean_npt])
qed

lemma rules_in_force_subset: "set (rules_in_force env db rs) \<subseteq> set rs"
  by (auto simp: rules_in_force_def filter_rules_by_schedule_eq)

lemma pf_block_firewall:
  assumes "clean_db env db" "no_break wan" "no_break lan"
  shows "pf_block 6 (build_firewall_rules env db wan lan)"
proof -
  note c = assms(1)[unfolded clean_db_def]
  have r: "\<And>r. r \<in> set (rules_in_force env db (floating_rules db)) \<Longrightarrow> clean_rule r"
    "\<And>r. r \<in> set (rules_in_force env db (wan_rules db)) \<Longrightarrow> clean_rule r"
    "\<And>r. r \<in> set (rules_in_force env db (lan_rules db)) \<Longrightarrow> clean_rule r"
    using c rules_in_force_subset by (force simp: list_all_iff[of clean_rule])+
  show ?thesis
    unfolding build_firewall_rules_def firewall_lines_def
    using assms(2,3) r
    by (intro pf_block_block_text)
      (auto intro!: header_in_section list_all_concat_map floating_in_section iface_rule_in_section
        simp: lit_simps)
qed

lemma no_break_title_case [nb_simps]: "no_break (title_case b s) = no_break s"
proof -
  have "is_linebreak (to_lower c) = is_linebreak c" "is_linebreak (to_upper c) = is_linebreak c" for c
    by (auto simp: is_linebreak_def code_to_lower is_upper_def to_upper_def is_lower_def)
      (auto simp: code_def)
  then show ?thesis by (induction b s rule: title_case.induct) auto
qed

lemma pf_block_vips:
  assumes "list_all clean_vip (rows_of (virtual_ips db))"
  shows "pf_block 6 (build_virtual_ip_rules db)"
proof (cases "virtual_ips db")
  case (Some vs)
  have cl: "clean (vi_type v) \<and> clean (vi_interface v) \<and> clean (vi_address v)" if "v \<in> set vs" for v
    using assms Some that by (auto simp: rows_of_def list_all_iff clean_vip_def)
  have a: "no_break (vip_addr v)" if "v \<in> set vs" for v
    using cl[OF that] clean_strip[of "vi_address v"] by (simp add: vip_addr_def del: or_str_None_empty)
  have line: "in_section k (vip_line v)" if "v \<in> set vs" for v k
    using cl[OF that] a[OF that] clean_strip[of "vi_type v"] clean_strip[of "vi_interface v"]
    by (simp add: vip_line_def vip_type_def pf_simps no_break_title_case del: or_str_None_empty)
  have j: "no_break (join '' '' (map vip_addr (filter (\<lambda>v. vip_addr v \<noteq> []) (sort_key vi_id vs))))"
    using a by (intro no_break_join) (auto simp: lit_simps)
  show ?thesis
    unfolding build_virtual_ip_rules_def Some vip_lines_def Let_def
    using line j
    by (auto intro!: pf_block_block_text simp: list_all_iff pf_simps line_section_header)
qed (simp add: build_virtual_ip_rules_def)

lemma bypass_dns_policy: "bypass_tables_for ''dns_policy'' = [''admin_bypass_clients'', ''policy_exemption'']"
  by (simp add: bypass_tables_for_def bypass_matrix_def)

lemma in_section_hardening_parts:
  assumes "no_break wan" "no_break lan"
  shows "list_all (in_section 6) (table_lines b p)"
    and "list_all (in_section 6) (spoof_lines wan lan b p)"
    and "list_all (in_section 6) icmp_lines"
  using assms
  by (simp_all add: table_lines_def spoof_lines_def icmp_lines_def label_def bogon_prefixes_def
      private_net_prefixes_def pf_simps)

lemma in_section_admin:
  assumes "list_all clean_iface (lan_config db)" "no_break lan"
  shows "list_all (in_section 6) (admin_lines db lan)"
  using assms(2) lan_iface_addr_clean[OF assms(1)]
  by (auto simp: admin_lines_def label_def pf_simps split: option.split)

lemma in_section_egress:
  assumes "list_all clean_iface (lan_config db)" "no_break wan" "no_break lan"
  shows "list_all (in_section 6) (dns_egress_lines env db wan)"
    and "list_all (in_section 6) (quic_lines db lan q)"
  using assms(2,3) lan_iface_addr_clean[OF assms(1)]
  by (auto simp: dns_egress_lines_def quic_lines_def dot_lines_def bypass_dns_policy label_def Let_def
      arrow_def apos_def pf_simps split: option.split)

lemma in_section_soc:
  assumes "clean_soc (soc_portal db)" "no_break lan"
  shows "list_all (in_section 6) (soc_lines db lan)"
proof (cases "soc_portal db")
  case (Some s)
  show ?thesis
  proof (cases s)
    case s: (Some r)
    then have "no_break (strip (or_str (so_bind_ip r) []))"
      using assms(1) Some clean_strip by (simp add: clean_soc_def del: or_str_None_empty)
    then show ?thesis
      using assms(2) by (simp add: soc_lines_def Some s label_def Let_def pf_simps del: or_str_None_empty)
  qed (simp add: soc_lines_def Some)
qed (simp add: soc_lines_def)

lemma pf_block_hardening:
  assumes "clean_db env db" "no_break wan" "no_break lan" "build_hardening_rules env db wan lan = Inr t"
  shows "pf_block 6 t"
proof -
  note c = assms(1)[unfolded clean_db_def]
  obtain q where t: "t = block_text (hardening_lines env db wan lan q)"
    using assms(4) by (auto simp: build_hardening_rules_def bind_res_Inr)
  show ?thesis
    unfolding t hardening_lines_def
    using in_section_hardening_parts[OF assms(2,3)] in_section_admin[of db lan]
      in_section_egress[of db wan lan] in_section_soc[of db lan] c assms(2,3)
    by (auto intro!: pf_block_block_text header_in_section simp: lit_simps split: prod.split)
qed

lemma pf_block_routes:
  assumes "clean_db env db" "no_break wan" "no_break lan"
  shows "pf_block 6 (build_policy_routes db wan lan)"
proof (cases "policy_routes db")
  case (Some rs)
  note c = assms(1)[unfolded clean_db_def]
  have gw: "clean (Option.bind (gateway_of db r) gw_gateway) \<and> clean (Option.bind (gateway_of db r) gw_interface)" for r
  proof (cases "gateway_of db r")
    case (Some g)
    then have "g \<in> set (gateways db)"
      by (auto simp: gateway_of_def dest: find_by_SomeD split: option.splits)
    then show ?thesis using c Some by (auto simp: list_all_iff[of clean_gateway] clean_gateway_def)
  qed (simp add: clean_def)
  have "list_all (in_section 6) (route_lines db wan lan r)" if "r \<in> set rs" for r
  proof -
    have r: "clean (pr_source r)" "clean (pr_destination r)" "clean (pr_description r)"
      using c Some that by (auto simp: rows_of_def list_all_iff[of clean_route] clean_route_def)
    have "no_break (strip (or_str (Option.bind (gateway_of db r) gw_interface) wan))"
      "no_break (strip (or_str (Option.bind (gateway_of db r) gw_gateway) []))"
      using gw[of r] assms(2) by (auto intro!: no_break_strip clean_or_str simp del: or_str_None_empty)
    then show ?thesis
      using r assms comment_in_section[OF r(3)]
      by (auto simp: route_lines_def Let_def pf_simps simp del: or_str_None_empty)
  qed
  then have "list_all (in_section 6) (concat (map (route_lines db wan lan)
      (by_order pr_priority pr_id (filter pr_enabled rs))))"
    by (intro list_all_concat_map) auto
  then show ?thesis
    unfolding build_policy_routes_def Some Let_def
    by (auto intro!: pf_block_block_text header_in_section simp: lit_simps)
qed (simp add: build_policy_routes_def)

lemma pf_block_l2tp:
  assumes "list_all clean_iface (wan_config db)"
  shows "pf_block 6 (l2tp_block db)"
proof -
  have w: "no_break (case wan_config db of [] \<Rightarrow> ''em0'' | r # _ \<Rightarrow> or_str (if_port r) ''em0'')"
    using assms by (cases "wan_config db") (auto simp: clean_iface_def lit_simps intro!: clean_or_str)
  then have "list_all (in_section 6) (l2tp_pf_rules db)"
    by (simp add: l2tp_pf_rules_def Let_def pf_simps)
  then have "pf_block 6 (join nl (header ''L2TP/IPsec auto-rules'' # l2tp_pf_rules db) @ nl @ nl)"
    by (intro pf_block_join) (auto intro!: header_in_section simp: lit_simps)
  then show ?thesis
    by (auto simp: l2tp_block_def join_Cons l2tp_pf_rules_def Let_def simp del: join.simps(2,3)
        split: option.split)
qed

lemma iface_macro_no_break: "clean i \<Longrightarrow> no_break (iface_macro i)"
  by (auto simp: iface_macro_def Let_def nb_simps lit_simps intro!: clean_or_str)

lemma in_section_vpn:
  assumes "list_all (\<lambda>r. clean (ov_interface r)) (rows_of (openvpn_servers db))"
    and "list_all (\<lambda>r. clean (p1_interface r)) (rows_of (ipsec_phase1 db))"
  shows "list_all (in_section 6) (vpn_lines db)"
proof -
  have ov: "in_section 6 (ovpn_line r)" if "clean (ov_interface r)" for r
    using iface_macro_no_break[OF that] by (simp add: ovpn_line_def Let_def pf_simps)
  have ike: "list_all (in_section 6) (ike_lines i)" if "no_break i" for i
    using that by (simp add: ike_lines_def Let_def pf_simps)
  have p1: "no_break (lower (or_str (p1_interface r) ''wan''))" if "r \<in> set (rows_of (ipsec_phase1 db))" for r
    using assms(2) that by (auto simp: list_all_iff nb_simps lit_simps intro!: clean_or_str)
  have "list_all (in_section 6) (l2tp_vpn_lines db)"
    by (simp add: l2tp_vpn_lines_def pf_simps split: option.split)
  moreover have "list_all (in_section 6)
      (map ovpn_line (filter (\<lambda>r. not_disabled (ov_disabled r)) (rows_of (openvpn_servers db))))"
    using assms(1) ov by (auto simp: list_all_iff)
  moreover have "list_all (in_section 6) (concat (map ike_lines
       (sort (remdups (map (\<lambda>r. lower (or_str (p1_interface r) ''wan''))
         (filter (\<lambda>r. not_disabled (p1_disabled r)) (rows_of (ipsec_phase1 db))))))))"
    using p1 by (intro list_all_concat_map ike) auto
  ultimately show ?thesis by (simp add: vpn_lines_def)
qed

lemma pf_block_vpn:
  assumes "list_all (\<lambda>r. clean (ov_interface r)) (rows_of (openvpn_servers db))"
    and "list_all (\<lambda>r. clean (p1_interface r)) (rows_of (ipsec_phase1 db))"
  shows "pf_block 6 (emit_vpn_pass_rules db)"
proof -
  have "in_section 6 (header ''VPN auto pass-rules (smart-shield: vpn)'')"
    by (rule header_in_section) (simp add: lit_simps)
  then have "pf_block 6 (join nl (header ''VPN auto pass-rules (smart-shield: vpn)'' # vpn_lines db) @ nl @ nl)"
    using in_section_vpn[OF assms] by (intro pf_block_join) simp_all
  then show ?thesis by (simp add: emit_vpn_pass_rules_def del: join.simps)
qed

lemma set_tl_dropWhile: "set (tl (dropWhile P s)) \<subseteq> set s"
  by (induction s) auto

lemma app_ports_no_break:
  assumes "no_break raw" "x \<in> set (concat (map app_port_token (split_on (CHR '','') raw)))"
  shows "no_break x"
proof -
  obtain w where w: "w \<in> set (split_on (CHR '','') raw)" "x \<in> set (app_port_token w)"
    using assms(2) by auto
  have "no_break w" using split_on_pieces[OF w(1)] assms(1) no_break_subset by blast
  then have s: "no_break (strip w)" by (rule no_break_strip)
  have "no_break (strip (before (CHR ''-'') (strip w)))"
    using s by (intro no_break_strip) (auto simp: before_def intro: no_break_subset dest: set_takeWhileD)
  moreover have "no_break (strip (tl (dropWhile (\<lambda>c. c \<noteq> CHR ''-'') (strip w))))"
    using s set_tl_dropWhile by (intro no_break_strip) (rule no_break_subset)
  ultimately show ?thesis
    using w(2) s by (auto simp: app_port_token_def Let_def lit_simps split: if_splits)
qed

lemma app_rule_in_section:
  assumes "clean_app r" "no_break scope" "app_rule_lines (''in log quick'' @ scope) r = Inr ls"
  shows "list_all (in_section 6) ls"
proof -
  let ?parts = "concat (map app_port_token (split_on (CHR '','') (strip (or_str (ar_ports r) []))))"
  have c: "clean (ar_app_name r)" "clean (ar_ports r)" "clean (ar_protocol r)"
    using assms(1) by (simp_all add: clean_app_def)
  have "no_break (join '' '' ?parts)"
    using app_ports_no_break[OF clean_strip[OF c(2)]] by (intro no_break_join) (auto simp: lit_simps)
  moreover have "no_break (lower (or_str (ar_protocol r) ''tcp+udp''))"
    using c(3) by (auto simp: nb_simps lit_simps intro!: clean_or_str)
  moreover have "no_break (case ar_app_name r of None \<Rightarrow> ''None'' | Some n \<Rightarrow> n)"
    using c(1) by (auto simp: clean_def lit_simps split: option.split)
  ultimately show ?thesis
    using assms(2,3)
    by (auto simp: app_rule_lines_def bind_res_Inr Let_def pf_simps split: if_splits
        simp del: or_str_None_empty)
qed

lemma app_rules_in_section:
  assumes "list_all clean_app rs" "no_break scope" "app_rules_lines (''in log quick'' @ scope) rs = Inr ls"
  shows "list_all (in_section 6) ls"
  using assms(1,3)
proof (induction rs arbitrary: ls)
  case (Cons r rs)
  then obtain ls1 ls2 where "app_rule_lines (''in log quick'' @ scope) r = Inr ls1"
    "app_rules_lines (''in log quick'' @ scope) rs = Inr ls2" "ls = ls1 @ ls2"
    by (auto simp: bind_res_Inr)
  with Cons app_rule_in_section[OF _ assms(2)] show ?case by auto
qed simp

lemma pf_block_app_filter:
  assumes "list_all clean_app (rows_of (app_rules (policy db)))" "no_break lan"
    and "list_all clean_iface (lan_config db)"
  shows "pf_block 6 (build_app_filter_rules db lan)"
proof (cases "generate_app_filter_pf_rules db lan")
  case (Inr t)
  define lan' where "lan' = (if lan \<noteq> [] then lan
      else (case lan_config db of [] \<Rightarrow> [] | r # _ \<Rightarrow> strip (or_str (if_port r) [])))"
  define sc where "sc = (if lan' \<noteq> [] then '' on '' @ lan' else [])"
  have "no_break lan'"
    using assms(2,3) clean_strip
    by (cases "lan_config db") (auto simp: lan'_def clean_iface_def simp del: or_str_None_empty)
  then have sc: "no_break sc" by (simp add: sc_def lit_simps)
  obtain rs ls where rs: "app_rules (policy db) = Some rs"
    and ls: "app_rules_lines (''in log quick'' @ sc) (sort_key ar_id (filter (\<lambda>r. ar_enabled r \<and> ar_block_ports r) rs)) = Inr ls"
    and t: "t = (if ls = [] then [] else block_text (header ''Application Filter'' # ls))"
    using Inr
    by (auto simp: generate_app_filter_pf_rules_def lan'_def sc_def Let_def bind_res_Inr
        simp del: or_str_None_empty split: option.splits if_splits)
  have "list_all clean_app (sort_key ar_id (filter (\<lambda>r. ar_enabled r \<and> ar_block_ports r) rs))"
    using assms(1) rs by (auto simp: list_all_iff rows_of_def)
  then have "list_all (in_section 6) ls" using ls sc by (intro app_rules_in_section)
  then show ?thesis
    unfolding build_app_filter_rules_def Inr t
    by (auto intro!: pf_block_block_text header_in_section simp: lit_simps)
qed (simp add: build_app_filter_rules_def)

section \<open>The shaper block\<close>

text \<open>No queue assignment is emitted.\<close>

definition unassigned :: "pf_db \<Rightarrow> bool" where
  "unassigned db \<longleftrightarrow> filter sh_enabled (rows_of (shaper_configs db)) = []
     \<or> (\<forall>q \<in> set (rows_of (shaper_queues db)). qu_enabled q \<longrightarrow> strip (or_str (qu_name q) []) = [])"

lemma sched_map_no_break: "no_break (case map_of sched_map s of None \<Rightarrow> ''hfsc'' | Some t \<Rightarrow> t)"
  by (auto simp: sched_map_def lit_simps)

lemma shaper_in_section:
  assumes "clean_shaper r" "no_break wan" "no_break lan"
  shows "list_all (in_section 4) (shaper_lines wan lan r)"
proof -
  have rs: "no_break s \<Longrightarrow> no_break (rstrip_chars cs s)" for s cs
    by (erule no_break_subset) (auto simp: rstrip_chars_def dest: set_dropWhileD)
  have rc: "no_break s \<Longrightarrow> no_break (replace_char (CHR '' '') (CHR ''_'') s)" for s
    by (auto simp: replace_char_def no_break_def list_all_iff lit_simps)
  have u: "no_break (or_str (sh_unit r) ''Mb'')"
    using assms(1) by (intro clean_or_str) (auto simp: clean_shaper_def lit_simps)
  have n: "no_break (or_str (sh_name r) (''root_'' @ i))" if "no_break i" for i
    using assms(1) that by (intro clean_or_str) (auto simp: clean_shaper_def lit_simps)
  define i where "i = (if upper (or_str (sh_interface_type r) ''WAN'') = ''WAN'' then wan else lan)"
  define sc where "sc = (case map_of sched_map (lower (or_str (sh_scheduler r) ''hfsc'')) of None \<Rightarrow> ''hfsc'' | Some s \<Rightarrow> s)"
  have i: "no_break i" using assms(2,3) by (simp add: i_def)
  have sc: "no_break sc" unfolding sc_def by (rule sched_map_no_break)
  show ?thesis
    unfolding shaper_lines_def Let_def i_def[symmetric] sc_def[symmetric]
    using rs[OF rs[OF u]] rc[OF n[OF i]] i sc by (simp add: pf_simps del: append_Cons)
      (simp add: pf_simps)
qed

lemma assign_no_break: "clean_queue q \<Longrightarrow> list_all no_break (assign_lines q)"
  using clean_strip[of "qu_name q"] clean_or_str[of "qu_ack q" "[]"]
  by (auto simp: assign_lines_def clean_queue_def Let_def pf_simps simp del: or_str_None_empty)

lemma assign_section:
  "strip (or_str (qu_name q) []) \<noteq> [] \<Longrightarrow> 6 \<in> set (lines_sections (assign_lines q))"
  by (simp add: assign_lines_def Let_def pf_simps del: or_str_None_empty)

lemma shaper_body:
  assumes "list_all clean_shaper (rows_of (shaper_configs db))" "no_break wan" "no_break lan"
    and "shaper_configs db = Some cs"
  shows "list_all (in_section 4) (header ''Traffic Shaper (altq)'' #
     concat (map (shaper_lines wan lan) (sort_key (\<lambda>c. (sh_interface_type c, sh_id c)) (filter sh_enabled cs))))"
proof -
  have "clean_shaper r" if "r \<in> set cs" for r
    using assms(1,4) that by (auto simp: rows_of_def list_all_iff)
  then show ?thesis
    using assms(2,3) header_in_section[of "''Traffic Shaper (altq)''"]
    by (auto intro!: list_all_concat_map shaper_in_section simp: lit_simps)
qed

lemma pf_block_shaper:
  assumes "list_all clean_shaper (rows_of (shaper_configs db))" "no_break wan" "no_break lan" "unassigned db"
  shows "pf_block 4 (build_shaper_queues db wan lan)"
proof (cases "shaper_configs db")
  case (Some cs)
  show ?thesis
  proof (cases "filter sh_enabled cs = []")
    case False
    then have q: "assign_lines q = []" if "q \<in> set (rows_of (shaper_queues db))" "qu_enabled q" for q
      using assms(4) Some that
      by (auto simp: unassigned_def rows_of_def[of "Some cs"] assign_lines_def Let_def simp del: or_str_None_empty)
    have "list_all (in_section 4) (case shaper_queues db of None \<Rightarrow> []
        | Some qs \<Rightarrow> (case sort_key qu_id (filter qu_enabled qs) of
             [] \<Rightarrow> [] | assigns \<Rightarrow> [] # concat (map assign_lines assigns)))"
    proof (cases "shaper_queues db")
      case q2: (Some qs)
      have "x \<in> set (sort_key qu_id (filter qu_enabled qs)) \<Longrightarrow> assign_lines x = []" for x
        using q by (auto simp: rows_of_def q2)
      then show ?thesis
        by (cases "sort_key qu_id (filter qu_enabled qs)") (auto simp: q2 intro!: list_all_concat_map)
    qed simp
    then show ?thesis
      using shaper_body[OF assms(1-3) Some] False
      by (simp add: build_shaper_queues_def Some shaper_block_lines_def pf_block_block_text)
  qed (simp add: build_shaper_queues_def Some)
qed (simp add: build_shaper_queues_def)

text \<open>With an assignment the block holds a filter line.\<close>

lemma shaper_assigned:
  assumes "list_all clean_shaper (rows_of (shaper_configs db))" "no_break wan" "no_break lan"
    and "list_all clean_queue (rows_of (shaper_queues db))" "\<not> unassigned db"
  shows "\<exists>ls. build_shaper_queues db wan lan = line_text ls \<and> list_all no_break ls \<and> 6 \<in> set (lines_sections ls)"
proof -
  obtain cs where cs: "shaper_configs db = Some cs" "filter sh_enabled cs \<noteq> []"
    using assms(5) by (cases "shaper_configs db") (auto simp: unassigned_def rows_of_def)
  obtain qs q where qs: "shaper_queues db = Some qs" and q: "q \<in> set (sort_key qu_id (filter qu_enabled qs))"
    "strip (or_str (qu_name q) []) \<noteq> []"
    using assms(5) by (cases "shaper_queues db") (auto simp: unassigned_def rows_of_def simp del: or_str_None_empty)
  obtain x xs where xs: "sort_key qu_id (filter qu_enabled qs) = x # xs" using q(1) by (cases "sort_key qu_id (filter qu_enabled qs)") auto
  let ?ls = "shaper_block_lines db wan lan (filter sh_enabled cs)"
  have ls: "?ls = (header ''Traffic Shaper (altq)'' #
      concat (map (shaper_lines wan lan) (sort_key (\<lambda>c. (sh_interface_type c, sh_id c)) (filter sh_enabled cs))))
      @ [] # concat (map assign_lines (sort_key qu_id (filter qu_enabled qs)))"
    by (simp add: shaper_block_lines_def qs xs)
  have cq: "clean_queue r" if "r \<in> set qs" for r
    using assms(4) qs that by (auto simp: rows_of_def list_all_iff)
  have "list_all no_break (concat (map assign_lines (sort_key qu_id (filter qu_enabled qs))))"
    using cq by (intro list_all_concat_map assign_no_break) auto
  moreover have "list_all no_break (header ''Traffic Shaper (altq)'' #
      concat (map (shaper_lines wan lan) (sort_key (\<lambda>c. (sh_interface_type c, sh_id c)) (filter sh_enabled cs))))"
    using shaper_body[OF assms(1-3) cs(1)] by (auto simp: list_all_iff in_section_def)
  ultimately have nb: "list_all no_break ?ls" unfolding ls by simp
  have "lines_sections (concat lss) = concat (map lines_sections lss)" for lss
    by (induction lss) auto
  then have "6 \<in> set (lines_sections (concat (map assign_lines (sort_key qu_id (filter qu_enabled qs)))))"
    using q assign_section by (auto simp: comp_def)
  then have "6 \<in> set (lines_sections ?ls)"
    unfolding ls by (simp add: line_section_header line_section_Nil del: set_map)
  moreover have "build_shaper_queues db wan lan = line_text ?ls"
    using cs block_text_line[of ?ls] by (simp add: build_shaper_queues_def shaper_block_lines_def)
  ultimately show ?thesis using nb by blast
qed

section \<open>The whole file\<close>

lemma fixed_blocks:
  assumes "no_break wan" "no_break lan" "no_break net"
  shows "pf_block 0 (line_text (macros wan lan net))" "pf_block 0 (line_text base_tables)"
    "pf_block 5 (line_text default_nat)" "pf_block 5 (line_text translation_hooks)"
    "pf_block 6 (line_text default_policy)"
    "pf_block 6 (line_text [''# Firewall disabled '' @ em_dash @ '' pass all traffic'', ''pass all''])"
  by (rule pf_block_line_text, use assms in \<open>simp add: macros_def base_tables_def default_nat_def
      translation_hooks_def default_policy_def em_dash_def pf_simps\<close>)+

definition disabled :: "pf_db \<Rightarrow> bool" where
  "disabled db \<longleftrightarrow> py_bool_of (adv_get (case adv_row db of None \<Rightarrow> [] | Some d \<Rightarrow> d) ''disable_firewall'')"

lemma generate_Inr:
  assumes "generate_pf_conf env db = Inr t" "\<not> disabled db"
  obtains opts scrub hardening where
    "option_lines (case adv_row db of None \<Rightarrow> [] | Some d \<Rightarrow> d) = Inr opts"
    "build_scrub_rules db (case adv_row db of None \<Rightarrow> [] | Some d \<Rightarrow> d) = Inr scrub"
    "build_hardening_rules env db (wan_iface_of db) (lan_port_or_em1 (lan_config db)) = Inr hardening"
    "t = concat [line_text (macros (wan_iface_of db) (lan_port_or_em1 (lan_config db)) (lan_net_of db)),
        line_text base_tables, build_alias_tables env db, build_dummynet_pipes db, line_text opts,
        scrub, build_shaper_queues db (wan_iface_of db) (lan_port_or_em1 (lan_config db)),
        line_text default_nat, build_nat_rules env db (wan_iface_of db), line_text translation_hooks,
        build_virtual_ip_rules db, hardening, line_text default_policy,
        build_policy_routes db (wan_iface_of db) (lan_port_or_em1 (lan_config db)), l2tp_block db,
        emit_vpn_pass_rules db, build_app_filter_rules db (lan_port_or_em1 (lan_config db)),
        build_firewall_rules env db (wan_iface_of db) (lan_port_or_em1 (lan_config db))]"
  using assms
  by (auto simp: generate_pf_conf_def disabled_def Let_def bind_res_Inr)

lemma generate_disabled:
  assumes "generate_pf_conf env db = Inr t" "disabled db"
  shows "t = concat [line_text (macros (wan_iface_of db) (lan_port_or_em1 (lan_config db)) (lan_net_of db)),
    line_text base_tables,
    line_text [''# Firewall disabled '' @ em_dash @ '' pass all traffic'', ''pass all'']]"
  using assms
  by (auto simp: generate_pf_conf_def disabled_def Let_def bind_res_Inr simp del: line_text_simps)

lemma clean_ifaces:
  assumes "clean_db env db"
  shows "no_break (wan_iface_of db)" "no_break (lan_port_or_em1 (lan_config db))" "no_break (lan_net_of db)"
  using assms wan_iface_no_break lan_port_no_break lan_net_no_break unfolding clean_db_def by blast+

text \<open>The blocks before and after the shaper, each in its section.\<close>

lemma generate_blocks:
  assumes "clean_db env db" "generate_pf_conf env db = Inr t" "\<not> disabled db"
  obtains pre post where
    "t = concat pre @ build_shaper_queues db (wan_iface_of db) (lan_port_or_em1 (lan_config db)) @ concat post"
    "list_all2 pf_block [0, 0, 0, 0, 2, 3] pre"
    "list_all2 pf_block [5, 5, 5, 6, 6, 6, 6, 6, 6, 6, 6] post"
    "hd post = line_text default_nat"
proof -
  note c = assms(1)[unfolded clean_db_def] and w = clean_ifaces[OF assms(1)]
  let ?wan = "wan_iface_of db" and ?lan = "lan_port_or_em1 (lan_config db)"
  obtain opts scrub hardening where g:
    "option_lines (case adv_row db of None \<Rightarrow> [] | Some d \<Rightarrow> d) = Inr opts"
    "build_scrub_rules db (case adv_row db of None \<Rightarrow> [] | Some d \<Rightarrow> d) = Inr scrub"
    "build_hardening_rules env db ?wan ?lan = Inr hardening"
    "t = concat [line_text (macros ?wan ?lan (lan_net_of db)),
        line_text base_tables, build_alias_tables env db, build_dummynet_pipes db, line_text opts,
        scrub, build_shaper_queues db ?wan ?lan,
        line_text default_nat, build_nat_rules env db ?wan, line_text translation_hooks,
        build_virtual_ip_rules db, hardening, line_text default_policy,
        build_policy_routes db ?wan ?lan, l2tp_block db,
        emit_vpn_pass_rules db, build_app_filter_rules db ?lan,
        build_firewall_rules env db ?wan ?lan]"
    using generate_Inr[OF assms(2,3)] by blast
  have pre: "list_all2 pf_block [0, 0, 0, 0, 2, 3]
      [line_text (macros ?wan ?lan (lan_net_of db)), line_text base_tables, build_alias_tables env db,
       build_dummynet_pipes db, line_text opts, scrub]"
    using c fixed_blocks(1,2)[OF w] pf_block_options[OF _ g(1)] pf_block_scrub[OF g(2)]
      pf_block_aliases[of env db] pf_block_pipes[of db]
    by (simp only: list_all2_Cons list_all2_Nil)
  have post: "list_all2 pf_block [5, 5, 5, 6, 6, 6, 6, 6, 6, 6, 6]
      [line_text default_nat, build_nat_rules env db ?wan, line_text translation_hooks,
        build_virtual_ip_rules db, hardening, line_text default_policy,
        build_policy_routes db ?wan ?lan, l2tp_block db,
        emit_vpn_pass_rules db, build_app_filter_rules db ?lan,
        build_firewall_rules env db ?wan ?lan]"
    using c w fixed_blocks[OF w] pf_block_nat[OF assms(1)] pf_block_vips[of db]
      pf_block_hardening[OF assms(1) w(1,2) g(3)] pf_block_routes[OF assms(1) w(1,2)] pf_block_l2tp[of db]
      pf_block_vpn[of db] pf_block_app_filter[of db ?lan] pf_block_firewall[OF assms(1) w(1,2)]
    by (simp only: list_all2_Cons list_all2_Nil)
  from pre post show ?thesis by (rule that[rotated]) (simp_all add: g(4) del: line_text_simps)
qed

lemma section_order_unassigned:
  assumes "clean_db env db" "generate_pf_conf env db = Inr t" "disabled db \<or> unassigned db"
  shows "validate_section_order t = Inr ()"
proof (cases "disabled db")
  case True
  have "list_all2 pf_block [0, 0, 6] [line_text (macros (wan_iface_of db) (lan_port_or_em1 (lan_config db)) (lan_net_of db)),
    line_text base_tables, line_text [''# Firewall disabled '' @ em_dash @ '' pass all traffic'', ''pass all'']]"
    using fixed_blocks[OF clean_ifaces[OF assms(1)]] by (simp del: line_text_simps)
  then show ?thesis
    unfolding validate_sorted generate_disabled[OF assms(2) True]
    using pf_blocks_sorted[of "[0, 0, 6]"] by (simp only: sorted_simps list.set) blast
next
  case False
  obtain pre post where t: "t = concat pre @ build_shaper_queues db (wan_iface_of db) (lan_port_or_em1 (lan_config db)) @ concat post"
    and b: "list_all2 pf_block [0, 0, 0, 0, 2, 3] pre" "list_all2 pf_block [5, 5, 5, 6, 6, 6, 6, 6, 6, 6, 6] post"
    using generate_blocks[OF assms(1,2) False] by blast
  have "pf_block 4 (build_shaper_queues db (wan_iface_of db) (lan_port_or_em1 (lan_config db)))"
    using assms(1,3) False clean_ifaces[OF assms(1)] unfolding clean_db_def by (intro pf_block_shaper) auto
  then have "list_all2 pf_block ([0, 0, 0, 0, 2, 3] @ [4] @ [5, 5, 5, 6, 6, 6, 6, 6, 6, 6, 6])
      (pre @ [build_shaper_queues db (wan_iface_of db) (lan_port_or_em1 (lan_config db))] @ post)"
    using b by (intro list_all2_appendI) simp_all
  moreover have "sorted ([0, 0, 0, 0, 2, 3] @ [4] @ [5, 5, 5, 6, 6, 6, 6, 6, 6, 6, 6] :: nat list)" by simp
  ultimately have "sorted (text_sections (concat (pre @ [build_shaper_queues db (wan_iface_of db)
      (lan_port_or_em1 (lan_config db))] @ post)))"
    using pf_blocks_sorted by blast
  then show ?thesis unfolding validate_sorted t by simp
qed

lemma section_order_assigned:
  assumes "clean_db env db" "generate_pf_conf env db = Inr t" "\<not> disabled db" "\<not> unassigned db"
  shows "validate_section_order t \<noteq> Inr ()"
proof -
  note c = assms(1)[unfolded clean_db_def] and w = clean_ifaces[OF assms(1)]
  let ?sh = "build_shaper_queues db (wan_iface_of db) (lan_port_or_em1 (lan_config db))"
  obtain pre post where t: "t = concat pre @ ?sh @ concat post"
    and b: "list_all2 pf_block [0, 0, 0, 0, 2, 3] pre" "list_all2 pf_block [5, 5, 5, 6, 6, 6, 6, 6, 6, 6, 6] post"
    and h: "hd post = line_text default_nat"
    using generate_blocks[OF assms(1-3)] by blast
  have split: "\<exists>xs. text_sections (concat ts @ rest) = xs @ text_sections rest" if "list_all2 pf_block ks ts" for ks ts rest
    using that
  proof (induction ks ts rule: list_all2_induct)
    case (Cons k ks t ts)
    obtain n where "text_sections (t @ concat ts @ rest) = replicate n k @ text_sections (concat ts @ rest)"
      using pf_block_sections[OF Cons.hyps(1)] by blast
    with Cons.IH show ?case by auto
  qed simp
  obtain xs where xs: "text_sections t = xs @ text_sections (?sh @ concat post)"
    using split[OF b(1)] t by metis
  obtain ls where ls: "?sh = line_text ls" "list_all no_break ls" "6 \<in> set (lines_sections ls)"
    using shaper_assigned[of db "wan_iface_of db" "lan_port_or_em1 (lan_config db)"] c w assms(4) by blast
  obtain post' where post: "post = line_text default_nat # post'"
    using b(2) h by (cases post) auto
  have "list_all no_break default_nat" by (simp add: default_nat_def em_dash_def lit_simps)
  then have "text_sections (concat post) = lines_sections default_nat @ text_sections (concat post')"
    unfolding post by (simp add: text_sections_line_text del: line_text_simps)
  moreover have "5 \<in> set (lines_sections default_nat)"
    by (simp add: default_nat_def line_simps)
  ultimately have "5 \<in> set (text_sections (concat post))" by simp
  moreover have "text_sections (?sh @ concat post) = lines_sections ls @ text_sections (concat post)"
    unfolding ls(1) by (rule text_sections_line_text[OF ls(2)])
  ultimately have "\<not> sorted (text_sections t)"
    using ls(3) by (fastforce simp: xs sorted_append)
  then show ?thesis by (simp add: validate_sorted)
qed

section \<open>A small configuration\<close>

text \<open>LAN \<open>em1\<close> with 192.168.1.1/24, WAN \<open>em0\<close>, nothing else configured.\<close>

definition plain_env :: pf_env where
  "plain_env =
     \<lparr>env_now = \<lparr>dt_year = 2026, dt_month = 1, dt_day = 1, dt_hour = 12, dt_minute = 0\<rparr>,
      env_loads = (\<lambda>_. None), env_unbound = Some True\<rparr>"

definition plain_policy :: policy_db where
  "plain_policy =
     \<lparr>dns_rules = Some [], web_rules = Some [], app_rules = Some [],
      service_state = Some Map.empty, sessions = [], hosts = Some [], lan_ipv4 = Some None\<rparr>"

definition plain_db :: pf_db where
  "plain_db =
     \<lparr>lan_config = [\<lparr>if_id = 1, if_port = Some ''em1'', if_ipv4 = Some ''192.168.1.1/24'',
        if_ipv4_type = Some ''static'', if_mss = PStr []\<rparr>],
      wan_config = [\<lparr>if_id = 1, if_port = Some ''em0'', if_ipv4 = None,
        if_ipv4_type = Some ''dhcp'', if_mss = PStr []\<rparr>],
      adv_nat = Some [], admin_access = Some [], aliases = [], nat_outbound = [], nat_1to1 = [],
      nat_pf = [], nat_npt = [], floating_rules = [], wan_rules = [], lan_rules = [],
      shaper_configs = Some [], shaper_queues = Some [], virtual_ips = Some [], limiters = Some [],
      policy_routes = Some [], gateways = [], soc_portal = Some None, l2tp_users = Some 0,
      l2tp_config = Some None, openvpn_servers = Some [], ipsec_phase1 = Some [],
      policy = plain_policy, schedules = \<lparr>firewall_schedules = Some [], firewall_schedule_ranges = Some []\<rparr>\<rparr>"

text \<open>The same with a root queue on the WAN and one assignment to it.\<close>

definition shaped_db :: pf_db where
  "shaped_db = plain_db
     \<lparr>shaper_configs := Some [\<lparr>sh_id = 1, sh_interface_type = Some ''WAN'', sh_enabled = True,
        sh_name = Some ''root_q'', sh_scheduler = Some ''HFSC'', sh_bandwidth = Some 100,
        sh_unit = Some ''Mb'', sh_queue_limit = Some 50, sh_tbr_size = None\<rparr>],
      shaper_queues := Some [\<lparr>qu_id = 1, qu_enabled = True, qu_name = Some ''voip'', qu_ack = None,
        qu_protocol = Some ''udp'', qu_source = None, qu_source_port = None, qu_destination = None,
        qu_dest_port = Some ''5060''\<rparr>]\<rparr>"

lemma plain_clean: "clean_db plain_env plain_db" "clean_db plain_env shaped_db"
  by (simp_all add: clean_db_def plain_db_def shaped_db_def plain_policy_def clean_iface_def clean_def
      clean_adv_def adv_row_def rows_of_def clean_soc_def clean_shaper_def clean_queue_def lit_simps)

lemma plain_generates:
  assumes "db = plain_db \<or> db = shaped_db"
  shows "\<exists>t. generate_pf_conf plain_env db = Inr t"
proof -
  have d: "adv_row db = None" "block_quic db = Inr False" "captive_settings db = Inr ()"
    using assms
    by (auto simp: plain_db_def shaped_db_def plain_policy_def adv_row_def block_quic_def captive_settings_def)
  have o: "\<exists>opts. option_lines [] = Inr opts"
    by (simp add: option_lines_def optimization_def adv_or_def adv_get_def timeout_keys_def)
  have s: "\<exists>t. build_scrub_rules db [] = Inr t"
    by (simp add: build_scrub_rules_def adv_get_def)
  from d o s show ?thesis
    by (auto simp: generate_pf_conf_def Let_def build_hardening_rules_def adv_get_def)
qed

section \<open>Properties\<close>

text \<open>
  C1: for a database whose text columns hold no line break (and whose port aliases are no PF
  keywords), the generated pf.conf passes the static section-order check exactly when
  filtering is switched off or no traffic-shaper queue assignment is emitted.
\<close>

theorem generated_section_order:
  assumes "clean_db env db" "generate_pf_conf env db = Inr t"
  shows "validate_section_order t = Inr () \<longleftrightarrow> disabled db \<or> unassigned db"
  using section_order_unassigned[OF assms] section_order_assigned[OF assms] by blast

lemma generated_section_order_witness:
  "\<exists>t. generate_pf_conf plain_env plain_db = Inr t \<and> validate_section_order t = Inr ()"
proof -
  obtain t where t: "generate_pf_conf plain_env plain_db = Inr t" using plain_generates by blast
  have "unassigned plain_db" by (simp add: unassigned_def plain_db_def rows_of_def)
  then show ?thesis using generated_section_order[OF plain_clean(1) t] t by blast
qed

end
