(* ===== verification/CaptiveAnchor.thy ===== *)
theory CaptiveAnchor
  imports CaptiveAuth PfOrder
begin

text \<open>
  The two PF anchors of \<^verbatim>\<open>app/services/captive_portal.py\<close> (\<open>generate_pf_anchor\<close>), their
  application (\<open>apply_captive_portal\<close>) and the status query.

  \<open>lan_port\<close> is \<open>lan_config.assigned_port\<close> of row 1: no table, no row, or the cell.  The
  certificate and the writing of an anchor file are arguments; the redirect thread has no state
  of its own.
\<close>

section \<open>Settings\<close>

definition setting_bool :: "pyval \<Rightarrow> string \<Rightarrow> bool \<Rightarrow> bool res" where
  "setting_bool v key dflt =
     (case dict_get v key of
        None \<Rightarrow> Inl attribute_missing
      | Some None \<Rightarrow> Inr dflt
      | Some (Some x) \<Rightarrow> Inr (py_bool_of x))"

text \<open>\<open>settings.get(key) or dflt\<close> as the text it is formatted to.\<close>

definition setting_value :: "pyval \<Rightarrow> string \<Rightarrow> string \<Rightarrow> string res" where
  "setting_value v key dflt =
     (case dict_get v key of
        None \<Rightarrow> Inl attribute_missing
      | Some None \<Rightarrow> Inr dflt
      | Some (Some x) \<Rightarrow> Inr (if py_bool_of x then py_str_of x else dflt))"

definition default_portal_ip :: "policy_db \<Rightarrow> string" where
  "default_portal_ip db =
     (case lan_ipv4 db of
        Some (Some (Some a)) \<Rightarrow>
          (case (if a = [] then None else ip_interface a) of
             Some i \<Rightarrow> str_ip (host_ip i)
           | None \<Rightarrow> ''127.0.0.1'')
      | _ \<Rightarrow> ''127.0.0.1'')"

type_synonym lan_port = "string option option option"

definition anchor_iface :: "pyval \<Rightarrow> lan_port \<Rightarrow> string res" where
  "anchor_iface settings lan_port =
     bind_res (setting_text settings ''lan_interface'' []) (\<lambda>i.
       Inr (if i \<noteq> [] then i
            else case lan_port of
              Some (Some (Some p)) \<Rightarrow> (if p = [] then ''em1'' else p)
            | _ \<Rightarrow> ''em1''))"

section \<open>The anchors\<close>

definition anchor_header :: "bool \<Rightarrow> string list" where
  "anchor_header strict =
     [''# ============================================================'',
      ''# Smart Shield - Captive Portal / Content Filter PF anchor'',
      ''# Generated by app/services/captive_portal.py'',
      ''# DO NOT EDIT MANUALLY'',
      ''# ============================================================'',
      []] @
     (if strict
      then [''# Strict captive portal: ALL unauthenticated traffic is blocked.'',
            ''# Only the portal itself and (optionally) DNS queries are allowed.'']
      else [''# Soft captive portal: redirect HTTP only '' @ em_dash @ '' all other traffic passes normally.'',
            ''# Soft mode is for testing/splash-page deployments only and does not'',
            ''# provide real network access control.'']) @ [[]]"

record anchor_conf =
  ac_iface :: string
  ac_ip :: string
  ac_port :: string
  ac_http :: string
  ac_dns :: bool
  ac_strict :: bool
  ac_admin_dns :: bool

definition admin_dns_lines :: "anchor_conf \<Rightarrow> string list" where
  "admin_dns_lines c =
     (if ac_admin_dns c
      then [[], ''# Opt-in: admin_bypass_clients skip the DNS redirect entirely and'',
            ''# reach the configured upstream resolver directly. Emitted FIRST so'',
            ''# the catch-all DNS rdr below cannot short-circuit them.''] @
        concat (map (\<lambda>t. [''no rdr on '' @ ac_iface c @ '' proto udp from <'' @ t @ ''> to any port 53'',
                          ''no rdr on '' @ ac_iface c @ '' proto tcp from <'' @ t @ ''> to any port 53''])
                  (bypass_tables_for ''captive_portal_dns''))
      else [])"

definition rdr_anchor_lines :: "anchor_conf \<Rightarrow> string list" where
  "rdr_anchor_lines c =
     anchor_header (ac_strict c) @
     [''# Force ALL LAN DNS through Unbound so content policy keeps applying.'',
      ''# Authenticated and whitelisted clients are NOT exempt by default '' @ em_dash,
      ''# they still resolve through Unbound so DNS/content-policy stays in'',
      ''# effect. Only admin_bypass_clients may opt out via dns_bypass_for_admin.''] @
     admin_dns_lines c @
     [[], ''rdr on '' @ ac_iface c @ '' proto udp from any to !'' @ ac_ip c @ '' port 53 -> '' @ ac_ip c @ '' port 53'',
      ''rdr on '' @ ac_iface c @ '' proto tcp from any to !'' @ ac_ip c @ '' port 53 -> '' @ ac_ip c @ '' port 53'',
      [], ''# Defense-in-depth: bypass clients also skip the HTTP redirect at the'',
      ''# rdr layer, so a misordered filter anchor cannot accidentally portal'',
      ''# them. The filter anchor'' @ apos @ ''s pass-in-quick rules remain the primary'',
      ''# enforcement; this is belt-and-braces.''] @
     map (\<lambda>t. ''no rdr on '' @ ac_iface c @ '' proto tcp from <'' @ t @ ''> to any port '' @ ac_http c)
       (bypass_tables_for ''captive_portal_http'') @
     [[], ''# Redirect unauthenticated HTTP (port 80) to the portal login page.'',
      ''rdr on '' @ ac_iface c @ '' proto tcp from any to any port '' @ ac_http c @ '' -> '' @ ac_ip c @
        '' port '' @ ac_port c] @
     (if ac_strict c then []
      else [[], ''# Soft mode: HTTPS may optionally be redirected to the portal HTTPS landing'',
        ''# (best-effort '' @ em_dash @ '' browsers will still flag the self-signed cert).'',
        ''rdr on '' @ ac_iface c @ '' proto tcp from any to any port 443 -> '' @ ac_ip c @ '' port 5443''])"

definition cp_label :: "string \<Rightarrow> string" where
  "cp_label s = ''label '' @ dq (''smartshield:captive_portal:'' @ s)"

definition filter_anchor_lines :: "anchor_conf \<Rightarrow> string list" where
  "filter_anchor_lines c =
     (let pq = ''pass in quick on '' @ ac_iface c in
      anchor_header (ac_strict c) @
      [''# Pass authenticated / whitelisted / admin-bypass clients FIRST so the'',
       ''# block rule at the end never matches them. Order matters: '' @ apos @ ''quick'' @ apos @ '' makes'',
       ''# each rule terminal on match.'',
       pq @ '' from <authenticated_clients> to any '' @ cp_label ''allow_auth'' @ '' keep state'',
       pq @ '' from <device_whitelist>      to any '' @ cp_label ''allow_device_wl'' @ '' keep state'',
       pq @ '' from <access_whitelist>      to any '' @ cp_label ''allow_access_wl'' @ '' keep state'',
       pq @ '' from <admin_bypass_clients>  to any '' @ cp_label ''allow_admin_bypass'' @ '' keep state'',
       [], ''# DHCP must work before authentication so clients can acquire an IP.'',
       pq @ '' proto udp from any port 68 to any port 67 '' @ cp_label ''allow_dhcp'' @ '' keep state'',
       [], ''# Portal itself is always reachable (needed for login page and HTTPS landing).'',
       pq @ '' proto tcp from any to '' @ ac_ip c @ '' port '' @ ac_port c @ '' '' @
         cp_label ''allow_portal_http'' @ '' keep state'',
       pq @ '' proto tcp from any to '' @ ac_ip c @ '' port 443 '' @ cp_label ''allow_portal_https'' @ '' keep state''] @
      (if ac_dns c
       then [pq @ '' proto udp from any to '' @ ac_ip c @ '' port 53 '' @ cp_label ''allow_dns_udp'' @ '' keep state'',
             pq @ '' proto tcp from any to '' @ ac_ip c @ '' port 53 '' @ cp_label ''allow_dns_tcp'' @ '' keep state'']
       else []) @
      (if ac_strict c
       then [[], ''# Strict mode: reject HTTPS with a clean TCP RST so the browser shows'',
         ''# '' @ apos @ ''connection refused'' @ apos @ '' instead of a misleading TLS error from a self-signed cert.'',
         ''block return in log quick on '' @ ac_iface c @ '' proto tcp from any to any port 443 '' @
           cp_label ''block_unauth_https'',
         [], ''# Block everything else. Unauthenticated clients only have HTTP redirect + DNS.'',
         ''block in log quick on '' @ ac_iface c @ '' from any to any '' @ cp_label ''block_unauth'']
       else [[], ''# Soft mode: allow remaining traffic after rdr decisions.'',
         ''pass in on '' @ ac_iface c @ '' from any to any '' @ cp_label ''soft_pass'' @ '' keep state'']))"

definition anchor_conf_of :: "policy_db \<Rightarrow> lan_port \<Rightarrow> pyval \<Rightarrow> anchor_conf res" where
  "anchor_conf_of db lan_port settings =
     bind_res (setting_text settings ''portal_ip'' (default_portal_ip db)) (\<lambda>ip.
     bind_res (setting_value settings ''portal_port'' ''80'') (\<lambda>port.
     bind_res (setting_bool settings ''allow_dns'' True) (\<lambda>dns.
     bind_res (setting_value settings ''http_redirect_port'' ''80'') (\<lambda>http.
     bind_res (setting_bool settings ''strict_mode'' True) (\<lambda>strict.
     bind_res (setting_bool settings ''dns_bypass_for_admin'' False) (\<lambda>admin_dns.
     bind_res (anchor_iface settings lan_port) (\<lambda>iface.
     bind_res (setting_text settings ''upstream_dns'' ''8.8.8.8'') (\<lambda>_.
       Inr \<lparr>ac_iface = iface, ac_ip = ip, ac_port = port, ac_http = http, ac_dns = dns, ac_strict = strict,
            ac_admin_dns = admin_dns\<rparr>))))))))"

definition generate_pf_anchor :: "policy_db \<Rightarrow> lan_port \<Rightarrow> (string \<times> string) res" where
  "generate_pf_anchor db lan_port =
     bind_res (portal_settings db) (\<lambda>settings.
     bind_res (anchor_conf_of db lan_port settings) (\<lambda>c.
       Inr (join nl (rdr_anchor_lines c) @ nl, join nl (filter_anchor_lines c) @ nl)))"

definition generate_pf_anchor_preview :: "policy_db \<Rightarrow> lan_port \<Rightarrow> string res" where
  "generate_pf_anchor_preview db lan_port =
     bind_res (generate_pf_anchor db lan_port) (\<lambda>(rdr, flt).
       Inr (''# '' @ rule_line @ '' captive_portal_rdr anchor (/etc/pf.captive_portal.rdr.conf) '' @ rule_line @ nl @
            rdr @ nl @ ''# '' @ rule_line @
            '' captive_portal_filter anchor (/etc/pf.captive_portal.filter.conf) '' @ rule_line @ nl @ flt))"

section \<open>Application\<close>

text \<open>\<open>an_write\<close> is \<open>config_file_utils.atomic_write\<close> on the host, \<open>an_cert\<close> the certificate's
  result.\<close>

record 'w anchor_env =
  an_portal :: "'w cp_env"
  an_write :: "string \<Rightarrow> string \<Rightarrow> 'w \<Rightarrow> 'w \<times> pyexn option"
  an_cert :: "string \<Rightarrow> 'w \<Rightarrow> 'w \<times> bool \<times> string"

record anchor_result =
  an_ok :: bool
  an_message :: string
  an_conf :: "(string \<times> string) option"

definition rdr_path :: string where "rdr_path = ''/etc/pf.captive_portal.rdr.conf''"
definition filter_path :: string where "filter_path = ''/etc/pf.captive_portal.filter.conf''"

definition write_anchor ::
  "'w anchor_env \<Rightarrow> string \<Rightarrow> string \<Rightarrow> 'w cp_state \<Rightarrow> 'w cp_state \<times> pyexn option" where
  "write_anchor env path text s =
     (case an_write env path text (cs_world s) of (w, e) \<Rightarrow> (s\<lparr>cs_world := w\<rparr>, e))"

definition reload_anchor ::
  "'w anchor_env \<Rightarrow> string \<Rightarrow> string \<Rightarrow> 'w cp_state \<Rightarrow> 'w cp_state \<times> pyexn option" where
  "reload_anchor env name path s =
     (case priv (an_portal env) ''pf.anchor_reload'' [(''anchor_name'', PStr name), (''config_path'', PStr path)] s of
        (s1, Inl e) \<Rightarrow> (s1, Some e)
      | (s1, Inr _) \<Rightarrow> (s1, None))"

text \<open>Actions in sequence up to the first exception.\<close>

fun try_all :: "('s \<Rightarrow> 's \<times> pyexn option) list \<Rightarrow> 's \<Rightarrow> 's \<times> pyexn option" where
  "try_all [] s = (s, None)"
| "try_all (f # fs) s = (case f s of (s1, Some e) \<Rightarrow> (s1, Some e) | (s1, None) \<Rightarrow> try_all fs s1)"

definition clear_anchors :: "'w anchor_env \<Rightarrow> 'w cp_state \<Rightarrow> 'w cp_state" where
  "clear_anchors env s =
     fst (try_all
       [write_anchor env rdr_path (''# captive portal disabled'' @ nl),
        reload_anchor env ''captive_portal_rdr'' rdr_path,
        write_anchor env filter_path (''# captive portal disabled'' @ nl),
        reload_anchor env ''captive_portal_filter'' filter_path] s)"

definition install_anchors ::
  "'w anchor_env \<Rightarrow> string \<times> string \<Rightarrow> 'w cp_state \<Rightarrow> 'w cp_state \<times> pyexn option" where
  "install_anchors env conf s =
     try_all
       [write_anchor env rdr_path (fst conf), write_anchor env filter_path (snd conf),
        reload_anchor env ''captive_portal_rdr'' rdr_path,
        reload_anchor env ''captive_portal_filter'' filter_path,
        (\<lambda>s. case priv (an_portal env) ''pf.table_show'' [(''table'', PStr ''authenticated_clients'')] s of
               (s1, Inl e) \<Rightarrow> (s1, Some e) | (s1, Inr _) \<Rightarrow> (s1, None))] s"

definition order_checked :: "string \<times> string \<Rightarrow> unit res" where
  "order_checked conf = bind_res (validate_section_order (fst conf)) (\<lambda>_. validate_section_order (snd conf))"

text \<open>\<open>portal_ip\<close> as \<open>apply_captive_portal\<close> reads it again: the settings have passed the generator by
  then, so the text is there.\<close>

definition portal_ip_of :: "policy_db \<Rightarrow> string" where
  "portal_ip_of db =
     (case bind_res (portal_settings db) (\<lambda>st. setting_text st ''portal_ip'' (default_portal_ip db)) of
        Inr ip \<Rightarrow> ip | Inl _ \<Rightarrow> [])"

definition apply_captive_portal ::
  "'w anchor_env \<Rightarrow> lan_port \<Rightarrow> int \<Rightarrow> 'w cp_state \<Rightarrow> 'w cp_state \<times> anchor_result res" where
  "apply_captive_portal env lan_port now s =
     (let db = cd_policy (cs_db s); freebsd = ne_freebsd (cv_exec (an_portal env));
          enabled = bind_res (portal_settings db) (\<lambda>st. setting_bool st ''enabled'' False)
      in case enabled of
           Inl e \<Rightarrow> (s, Inl e)
         | Inr False \<Rightarrow>
             ((if freebsd then clear_anchors env s else s),
              Inr \<lparr>an_ok = True, an_message = ''Captive portal disabled '' @ em_dash @ '' PF anchors cleared.'',
                   an_conf = None\<rparr>)
         | Inr True \<Rightarrow>
             (case generate_pf_anchor db lan_port of
                Inl e \<Rightarrow> (s, Inl e)
              | Inr conf \<Rightarrow>
                  (let res = (\<lambda>ok m. \<lparr>an_ok = ok, an_message = m, an_conf = Some conf\<rparr>) in
                   case order_checked conf of
                     Inl (PfRuleOrderError m) \<Rightarrow> (s, Inr (res False (''Captive portal rule-order error: '' @ m)))
                   | Inl e \<Rightarrow> (s, Inl e)
                   | Inr _ \<Rightarrow>
                       (if \<not> freebsd
                        then (s, Inr (res True (''Non-FreeBSD '' @ em_dash @
                               '' captive portal anchors generated but not applied.'')))
                        else
                          (case install_anchors env conf s of
                             (s1, Some e) \<Rightarrow> (s1, Inr (res False (exn_str e)))
                           | (s1, None) \<Rightarrow>
                               (case an_cert env (portal_ip_of db) (cs_world s1) of
                                  (w, ok, m) \<Rightarrow>
                                    (let s2 = s1\<lparr>cs_world := w\<rparr> in
                                     if \<not> ok
                                     then (s2, Inr (res False
                                            (''Captive portal HTTPS redirect certificate could not be created: '' @ m)))
                                     else (fst (reconcile_captive_pf_tables (an_portal env) now s2),
                                           Inr (res True ''Captive portal anchor applied.'')))))))))"

definition get_captive_status ::
  "'w cp_env \<Rightarrow> int \<Rightarrow> 'w cp_state \<Rightarrow> 'w cp_state \<times> (bool \<times> nat \<times> string) res" where
  "get_captive_status env now s =
     (let active = get_active_sessions now (cs_db s);
          s1 = fst (expire_sessions env now s)
      in (s1, bind_res (bind_res (portal_settings (cd_policy (cs_db s1))) (\<lambda>st. setting_bool st ''enabled'' False))
                (\<lambda>enabled. Inr (enabled, length active, if enabled then ''running'' else ''stopped''))))"


section \<open>The order check of the anchors\<close>

text \<open>The four texts of the settings that reach the anchors hold no line break.\<close>

definition clean_anchor :: "anchor_conf \<Rightarrow> bool" where
  "clean_anchor c \<longleftrightarrow> no_break (ac_iface c) \<and> no_break (ac_ip c) \<and> no_break (ac_port c) \<and> no_break (ac_http c)"

lemma line_section_no [line_simps]: "line_section (CHR ''n'' # CHR ''o'' # CHR '' '' # r) = None"
  using line_section_kw[of "''no''" "CHR '' ''" r]
  by (simp add: is_tok_def char_class_defs section_by_token_def to_lower_def)

lemma cp_label_no_break [nb_simps]: "no_break s \<Longrightarrow> no_break (cp_label s)"
  by (simp add: cp_label_def nb_simps lit_simps)

lemma anchor_header_section: "list_all (in_section k) (anchor_header b)"
  by (simp add: anchor_header_def em_dash_def sec_simps)

lemma admin_dns_section: "clean_anchor c \<Longrightarrow> list_all (in_section 5) (admin_dns_lines c)"
  by (simp add: admin_dns_lines_def clean_anchor_def bypass_tables_for_def bypass_matrix_def sec_simps line_section_no)

lemma rdr_anchor_section: "clean_anchor c \<Longrightarrow> list_all (in_section 5) (rdr_anchor_lines c)"
  using admin_dns_section[of c] anchor_header_section[of 5 "ac_strict c"]
  by (simp add: rdr_anchor_lines_def clean_anchor_def bypass_tables_for_def bypass_matrix_def em_dash_def
      apos_def sec_simps line_section_no)

lemma filter_anchor_section: "clean_anchor c \<Longrightarrow> list_all (in_section 6) (filter_anchor_lines c)"
  using anchor_header_section[of 6 "ac_strict c"]
  by (simp add: filter_anchor_lines_def Let_def clean_anchor_def apos_def sec_simps cp_label_no_break)

lemma anchor_lines_ne [simp]: "rdr_anchor_lines c \<noteq> []" "filter_anchor_lines c \<noteq> []"
  by (simp_all add: rdr_anchor_lines_def filter_anchor_lines_def anchor_header_def Let_def)

lemma join_line: "ls \<noteq> [] \<Longrightarrow> join nl ls @ nl = line_text ls"
proof (induction ls)
  case (Cons l ls)
  then show ?case by (cases ls) (simp_all add: nl_def)
qed simp

lemma anchor_blocks:
  assumes "clean_anchor c"
  shows "pf_block 5 (join nl (rdr_anchor_lines c) @ nl)" "pf_block 6 (join nl (filter_anchor_lines c) @ nl)"
  by (simp_all only: join_line[OF anchor_lines_ne(1)] join_line[OF anchor_lines_ne(2)]
      pf_block_line_text rdr_anchor_section[OF assms] filter_anchor_section[OF assms])

lemma order_checked_Inr:
  "order_checked (a, b) = Inr () \<longleftrightarrow> sorted (text_sections a) \<and> sorted (text_sections b)"
proof -
  have "order_checked (a, b) = Inr () \<longleftrightarrow>
      validate_section_order a = Inr () \<and> validate_section_order b = Inr ()"
    by (cases "validate_section_order a") (auto simp: order_checked_def)
  then show ?thesis by (simp add: validate_sorted)
qed

lemma pf_block_sections_sorted:
  assumes "pf_block k t"
  shows "sorted (text_sections t)" "set (text_sections t) \<subseteq> {k}"
  using pf_blocks_sorted[of "[k]" "[t]"] assms by simp_all

text \<open>
  C34: for an enabled portal with settings without line breaks the two anchors are what PF wants: the first has
  only translation statements, the second only filter statements, and both pass the section-order
  check. So \<open>apply_captive_portal\<close> answers with them, and never with a rule-order error: what fails is the installation of
  the anchors or the certificate, which happens on FreeBSD only.
\<close>

theorem captive_anchors_ordered:
  assumes "portal_settings (cd_policy (cs_db s)) = Inr st"
    and "anchor_conf_of (cd_policy (cs_db s)) lan st = Inr c"
    and "clean_anchor c" "setting_bool st ''enabled'' False = Inr True"
  shows "\<exists>rdr flt r. generate_pf_anchor (cd_policy (cs_db s)) lan = Inr (rdr, flt)
    \<and> set (text_sections rdr) \<subseteq> {5} \<and> set (text_sections flt) \<subseteq> {6}
    \<and> order_checked (rdr, flt) = Inr ()
    \<and> snd (apply_captive_portal env lan now s) = Inr r \<and> an_conf r = Some (rdr, flt)
    \<and> (an_ok r
       \<or> ne_freebsd (cv_exec (an_portal env))
         \<and> ((\<exists>e. snd (install_anchors env (rdr, flt) s) = Some e \<and> an_message r = exn_str e)
            \<or> startswith (an_message r) ''Captive portal HTTPS redirect certificate could not be created: ''))"
proof (intro exI conjI)
  let ?rdr = "join nl (rdr_anchor_lines c) @ nl" and ?flt = "join nl (filter_anchor_lines c) @ nl"
  let ?r = "the (case snd (apply_captive_portal env lan now s) of Inl e \<Rightarrow> None | Inr r \<Rightarrow> Some r)"
  note b = anchor_blocks[OF assms(3)]
  show g: "generate_pf_anchor (cd_policy (cs_db s)) lan = Inr (?rdr, ?flt)"
    using assms(1,2) by (simp add: generate_pf_anchor_def)
  show "set (text_sections ?rdr) \<subseteq> {5}" "set (text_sections ?flt) \<subseteq> {6}"
    using pf_block_sections_sorted b by blast+
  show o: "order_checked (?rdr, ?flt) = Inr ()"
    using pf_block_sections_sorted b by (simp only: order_checked_Inr simp_thms)
  have "\<exists>r. snd (apply_captive_portal env lan now s) = Inr r \<and> an_conf r = Some (?rdr, ?flt)
    \<and> (an_ok r \<or> ne_freebsd (cv_exec (an_portal env))
         \<and> ((\<exists>e. snd (install_anchors env (?rdr, ?flt) s) = Some e \<and> an_message r = exn_str e)
            \<or> startswith (an_message r) ''Captive portal HTTPS redirect certificate could not be created: ''))"
    using assms(1,4) g o
    by (auto simp: apply_captive_portal_def Let_def startswith_def split: prod.split option.split)
  then show "snd (apply_captive_portal env lan now s) = Inr ?r" "an_conf ?r = Some (?rdr, ?flt)"
    "an_ok ?r \<or> ne_freebsd (cv_exec (an_portal env))
         \<and> ((\<exists>e. snd (install_anchors env (?rdr, ?flt) s) = Some e \<and> an_message ?r = exn_str e)
            \<or> startswith (an_message ?r) ''Captive portal HTTPS redirect certificate could not be created: '')"
    by auto
qed

definition portal_on :: policy_db where
  "portal_on =
     \<lparr>dns_rules = None, web_rules = None, app_rules = None,
      service_state = Some [''captive_portal_settings'' \<mapsto>
        Json (PDict [(''enabled'', PBool True), (''portal_ip'', PStr ''10.0.0.1''), (''lan_interface'', PStr ''em1'')])],
      sessions = [], hosts = None, lan_ipv4 = None\<rparr>"

lemma captive_anchors_ordered_witness:
  "\<exists>conf. generate_pf_anchor portal_on None = Inr conf \<and> order_checked conf = Inr ()"
proof -
  define st where "st = PDict [(''enabled'', PBool True), (''portal_ip'', PStr ''10.0.0.1''), (''lan_interface'', PStr ''em1'')]"
  define c where "c = \<lparr>ac_iface = ''em1'', ac_ip = ''10.0.0.1'', ac_port = ''80'', ac_http = ''80'', ac_dns = True,
    ac_strict = True, ac_admin_dns = False\<rparr>"
  define s where "s = stale_portal\<lparr>cs_db := (cs_db stale_portal)\<lparr>cd_policy := portal_on\<rparr>\<rparr>"
  define env where "env = \<lparr>an_portal = plain_portal\<lparr>cv_exec := (cv_exec plain_portal)\<lparr>ne_freebsd := False\<rparr>\<rparr>,
    an_write = (\<lambda>p t w. (w, None)), an_cert = (\<lambda>i w. (w, True, []))\<rparr>"
  have db: "cd_policy (cs_db s) = portal_on" by (simp add: s_def)
  have st: "portal_settings portal_on = Inr st" by (simp add: portal_settings_def portal_on_def st_def)
  have "strip ''10.0.0.1'' = ''10.0.0.1''" "strip ''em1'' = ''em1''" by (simp_all add: char_eval)
  then have c: "anchor_conf_of portal_on None st = Inr c"
    by (simp add: anchor_conf_of_def setting_text_def setting_value_def setting_bool_def anchor_iface_def st_def c_def)
  have "clean_anchor c" by (simp add: c_def clean_anchor_def lit_simps)
  moreover have "setting_bool st ''enabled'' False = Inr True" by (simp add: setting_bool_def st_def)
  ultimately show ?thesis
    using captive_anchors_ordered[of s st None c env 0] st c unfolding db by meson
qed

text \<open>
  The order check does not see a filter rule in the translation anchor: the whole filter text
  after the translation text passes, although the comment at the call says the check makes sure that
  \<^verbatim>\<open>rdr block must contain no filter rules\<close>.
\<close>

theorem cross_pollination_passes:
  assumes "clean_anchor c"
  shows "order_checked (join nl (rdr_anchor_lines c) @ nl @ join nl (filter_anchor_lines c) @ nl,
    join nl (filter_anchor_lines c) @ nl) = Inr ()"
  unfolding order_checked_Inr
  using pf_blocks_sorted[of "[5, 6]" "[join nl (rdr_anchor_lines c) @ nl, join nl (filter_anchor_lines c) @ nl]"]
    anchor_blocks[OF assms] pf_block_sections_sorted(1)[OF anchor_blocks(2)[OF assms]]
  by (simp del: sorted_simps)

lemma cross_pollination_passes_witness:
  "\<exists>c. ac_iface c = ''em1'' \<and> order_checked (join nl (rdr_anchor_lines c) @ nl @ join nl (filter_anchor_lines c) @ nl,
    join nl (filter_anchor_lines c) @ nl) = Inr ()"
proof -
  define c where "c = \<lparr>ac_iface = ''em1'', ac_ip = ''10.0.0.1'', ac_port = ''80'', ac_http = ''80'', ac_dns = True,
    ac_strict = True, ac_admin_dns = False\<rparr>"
  have "clean_anchor c" by (simp add: c_def clean_anchor_def lit_simps)
  then show ?thesis using cross_pollination_passes[of c] by (intro exI[of _ c]) (simp add: c_def)
qed

text \<open>
  Switching the portal off answers that the anchors were cleared even when nothing could be
  written: on a FreeBSD host whose write fails the state is the one before, the blocking anchor
  included, and the answer is the success message.
\<close>

theorem disable_reports_cleared:
  assumes "portal_settings (cd_policy (cs_db s)) = Inr st" "setting_bool st ''enabled'' False = Inr False"
    and "an_write env rdr_path (''# captive portal disabled'' @ nl) (cs_world s) = (cs_world s, Some e)"
  shows "apply_captive_portal env lan now s =
    (s, Inr \<lparr>an_ok = True, an_message = ''Captive portal disabled '' @ em_dash @ '' PF anchors cleared.'', an_conf = None\<rparr>)"
proof -
  have "clear_anchors env s = s"
    unfolding clear_anchors_def try_all.simps write_anchor_def assms(3) by simp
  then show ?thesis using assms(1,2) by (simp add: apply_captive_portal_def)
qed

lemma disable_reports_cleared_witness:
  "\<exists>r. snd (apply_captive_portal
      \<lparr>an_portal = plain_portal, an_write = (\<lambda>p t w. (w, Some (RuntimeError ''read-only file system''))),
       an_cert = (\<lambda>i w. (w, True, []))\<rparr> None 0
      (stale_portal\<lparr>cs_db := (cs_db stale_portal)\<lparr>cd_policy := portal_on\<lparr>service_state := Some (\<lambda>_. None)\<rparr>\<rparr>\<rparr>)) = Inr r
    \<and> an_ok r"
proof -
  let ?s = "stale_portal\<lparr>cs_db := (cs_db stale_portal)\<lparr>cd_policy := portal_on\<lparr>service_state := Some (\<lambda>_. None)\<rparr>\<rparr>\<rparr>"
  have "portal_settings (cd_policy (cs_db ?s)) = Inr (PDict [])" by (simp add: portal_settings_def)
  moreover have "setting_bool (PDict []) ''enabled'' False = Inr False" by (simp add: setting_bool_def)
  ultimately show ?thesis by (subst disable_reports_cleared) simp_all
qed

end
