(* ===== verification/IdsBlocker.thy ===== *)
theory IdsBlocker
  imports PrivHelper
begin

text \<open>
  \<^verbatim>\<open>app/services/ids_blocker.py\<close>: Suricata alerts turned into blocks of the table
  \<open>ss_ids_blocks\<close> of PF, with one bookkeeping row per block in \<open>ids_blocked_ips\<close>, a time to live and
  a rate limit per process.  Times are integers of a unit of which 300 are five minutes.
  A table that is not there is \<open>None\<close>; every statement on it raises and is caught.
\<close>

section \<open>State\<close>

record block_row =
  bl_id :: nat
  bl_ip :: string
  bl_alert :: string
  bl_signature :: string
  bl_severity :: string
  bl_added :: int
  bl_expires :: int

text \<open>\<open>ids_config\<close>: no such table or column, no row, or the two cells.\<close>

type_synonym ids_policy = "(pyval \<times> pyval) option option"

datatype block_audit = AutoBlock string string bool int | Unblocked string string

record 'w block_state =
  bs_blocks :: "block_row table option"
  bs_config :: ids_policy
  bs_rate :: "int list"
  bs_audit :: "block_audit list"
  bs_priv :: "audit_event list"
  bs_world :: 'w

record block_result =
  br_ip :: string
  br_expires :: int
  br_ttl :: int
  br_pf :: bool

section \<open>Policy\<close>

definition block_table :: string where "block_table = ''ss_ids_blocks''"
definition default_ttl :: int where "default_ttl = 3600"
definition rate_max :: nat where "rate_max = 60"
definition rate_window :: int where "rate_window = 300"

text \<open>The prefix of old events is dropped; the call is recorded when there is room.\<close>

definition rate_ok :: "int \<Rightarrow> int list \<Rightarrow> int list \<times> bool" where
  "rate_ok now events =
     (let recent = dropWhile (\<lambda>t. t < now - rate_window) events
      in if rate_max \<le> length recent then (recent, False) else (recent @ [now], True))"

definition split_sids :: "string \<Rightarrow> string list" where
  "split_sids raw = filter (\<lambda>s. s \<noteq> []) (map strip (split_on (CHR '','') raw))"

definition clamp_ttl :: "int \<Rightarrow> int" where
  "clamp_ttl ttl = (if ttl \<le> 0 then default_ttl else ttl)"

text \<open>\<open>int()\<close> of an infinite float raises \<open>OverflowError\<close>, which only the outer handler catches.\<close>

definition auto_block_policy :: "ids_policy \<Rightarrow> int \<times> string list" where
  "auto_block_policy cfg =
     (case cfg of
        Some (Some (ttl, sids)) \<Rightarrow>
          (case py_int_of (or_val (Some ttl) (PInt default_ttl)) of
             Inr n \<Rightarrow> (clamp_ttl n, split_sids (py_str_of (or_val (Some sids) (PStr []))))
           | Inl (OverflowError m) \<Rightarrow> (default_ttl, [])
           | Inl _ \<Rightarrow> (default_ttl, split_sids (py_str_of (or_val (Some sids) (PStr [])))))
      | _ \<Rightarrow> (default_ttl, []))"

definition should_block :: "string option \<Rightarrow> string option \<Rightarrow> string list \<Rightarrow> bool" where
  "should_block severity sid sids \<longleftrightarrow>
     lower (or_str severity []) \<in> {''high'', ''critical''}
     \<or> (strip (or_str sid []) \<noteq> [] \<and> strip (or_str sid []) \<in> set sids)"

section \<open>The table of PF\<close>

definition pf_call ::
  "'w exec_env \<Rightarrow> string \<Rightarrow> (string \<times> pyval) list \<Rightarrow> 'w block_state \<Rightarrow> 'w block_state \<times> bool" where
  "pf_call env action params s =
     (if \<not> ne_freebsd env then (s, False)
      else case run_privileged env action ''system'' params (bs_world s) of
        (w, events, r) \<Rightarrow>
          (s\<lparr>bs_world := w, bs_priv := bs_priv s @ events\<rparr>,
           case r of Inl e \<Rightarrow> False | Inr c \<Rightarrow> cr_code c = 0))"

definition pf_add :: "'w exec_env \<Rightarrow> string \<Rightarrow> 'w block_state \<Rightarrow> 'w block_state \<times> bool" where
  "pf_add env ip = pf_call env ''pf.table_add'' [(''table'', PStr block_table), (''ip'', PStr ip)]"

definition pf_delete :: "'w exec_env \<Rightarrow> string \<Rightarrow> 'w block_state \<Rightarrow> 'w block_state \<times> bool" where
  "pf_delete env ip = pf_call env ''pf.table_delete'' [(''table'', PStr block_table), (''ip'', PStr ip)]"

definition block_active :: "string \<Rightarrow> int \<Rightarrow> 'w block_state \<Rightarrow> bool" where
  "block_active ip now s \<longleftrightarrow>
     (case bs_blocks s of
        None \<Rightarrow> False
      | Some t \<Rightarrow> list_ex (\<lambda>r. bl_ip r = ip \<and> now < bl_expires r) (rows t))"

section \<open>Operations\<close>

definition mk_block :: "string \<times> string \<times> string \<times> string \<times> int \<times> int \<Rightarrow> nat \<Rightarrow> block_row" where
  "mk_block d i =
     (case d of (ip, alert, sig, sev, added, expires) \<Rightarrow>
        \<lparr>bl_id = i, bl_ip = ip, bl_alert = alert, bl_signature = sig, bl_severity = sev, bl_added = added,
         bl_expires = expires\<rparr>)"

record alert_args =
  aa_ip :: "string option"
  aa_severity :: "string option"
  aa_signature :: "string option"
  aa_sid :: "string option"
  aa_alert :: "string option"

text \<open>The bookkeeping row, the kernel table and the audit event of an accepted block.\<close>

definition record_block ::
  "'w exec_env \<Rightarrow> int \<Rightarrow> int \<Rightarrow> string \<Rightarrow> alert_args \<Rightarrow> 'w block_state \<Rightarrow> 'w block_state \<times> block_result option" where
  "record_block env now ttl ip a s =
     (case bs_blocks s of
        None \<Rightarrow> (s, None)
      | Some t \<Rightarrow>
          (let d = (ip, or_str (aa_alert a) [], or_str (aa_signature a) [], lower (or_str (aa_severity a) []), now, now + ttl)
           in case pf_add env ip (s\<lparr>bs_blocks := Some (fst (insert_row (mk_block d) t))\<rparr>) of
                (s1, ok) \<Rightarrow>
                  (s1\<lparr>bs_audit := bs_audit s1 @ [AutoBlock ip (or_str (aa_signature a) []) ok ttl]\<rparr>,
                   Some \<lparr>br_ip = ip, br_expires = now + ttl, br_ttl = ttl, br_pf = ok\<rparr>)))"

definition maybe_block ::
  "'w exec_env \<Rightarrow> int \<Rightarrow> alert_args \<Rightarrow> 'w block_state \<Rightarrow> 'w block_state \<times> block_result option" where
  "maybe_block env now a s =
     (let ip = strip (or_str (aa_ip a) []) in
      if ip = [] \<or> ip_address ip = None then (s, None)
      else case auto_block_policy (bs_config s) of
        (ttl, sids) \<Rightarrow>
          (if \<not> should_block (aa_severity a) (aa_sid a) sids then (s, None)
           else if block_active ip now s then (s, None)
           else case rate_ok now (bs_rate s) of
             (rate, ok) \<Rightarrow>
               (if ok then record_block env now ttl ip a (s\<lparr>bs_rate := rate\<rparr>) else (s\<lparr>bs_rate := rate\<rparr>, None))))"

definition list_blocked :: "int \<Rightarrow> 'w block_state \<Rightarrow> block_row list" where
  "list_blocked now s =
     (case bs_blocks s of
        None \<Rightarrow> []
      | Some t \<Rightarrow> sort_key (\<lambda>r. - bl_added r) (filter (\<lambda>r. now < bl_expires r) (rows t)))"

definition unblock :: "'w exec_env \<Rightarrow> string option \<Rightarrow> string \<Rightarrow> 'w block_state \<Rightarrow> 'w block_state \<times> string \<times> bool" where
  "unblock env ip0 actor s =
     (let ip = strip (or_str ip0 []) in
      if ip = [] then (s, ''ip is required'', False)
      else if ip_address ip = None then (s, ''invalid IP'', False)
      else case bs_blocks s of
        None \<Rightarrow> (s, ''DB delete failed: no such table: ids_blocked_ips'', False)
      | Some t \<Rightarrow>
          (let s1 = fst (pf_delete env ip (s\<lparr>bs_blocks := Some (delete_rows (\<lambda>r. bl_ip r = ip) t)\<rparr>))
           in (s1\<lparr>bs_audit := bs_audit s1 @ [Unblocked actor ip]\<rparr>, ip @ '' unblocked'', True)))"

text \<open>\<open>expire_blocks(conn, ttl_hint)\<close>: the kernel table by age, the rows by their own time.\<close>

definition expire_blocks ::
  "'w exec_env \<Rightarrow> int \<Rightarrow> int option \<Rightarrow> 'w block_state \<Rightarrow> 'w block_state \<times> bool \<times> nat" where
  "expire_blocks env now hint s =
     (let ttl = (case hint of None \<Rightarrow> fst (auto_block_policy (bs_config s)) | Some n \<Rightarrow> n);
          s1 = fst (pf_call env ''pf.table_expire'' [(''table'', PStr block_table), (''seconds'', PStr (str_int ttl))] s)
      in case bs_blocks s1 of
           None \<Rightarrow> (s1, False, 0)
         | Some t \<Rightarrow>
             (s1\<lparr>bs_blocks := Some (delete_rows (\<lambda>r. bl_expires r < now) t)\<rparr>, True,
              length (filter (\<lambda>r. bl_expires r < now) (rows t))))"

section \<open>The rate limit\<close>

text \<open>The calls a history makes, with the times and the results.\<close>

fun block_history ::
  "'w exec_env \<Rightarrow> (int \<times> alert_args) list \<Rightarrow> 'w block_state \<Rightarrow> (int \<times> block_result option) list" where
  "block_history env [] s = []"
| "block_history env ((now, a) # calls) s =
     (case maybe_block env now a s of (s1, r) \<Rightarrow> (now, r) # block_history env calls s1)"

definition accepted :: "(int \<times> block_result option) list \<Rightarrow> int list" where
  "accepted h = map fst (filter (\<lambda>(t, r). r \<noteq> None) h)"

lemma accepted_simps [simp]:
  "accepted [] = []" "accepted ((t, None) # h) = accepted h" "accepted ((t, Some r) # h) = t # accepted h"
  by (simp_all add: accepted_def)

lemma pf_call_frame [simp]:
  "bs_rate (fst (pf_call env act ps s)) = bs_rate s" "bs_blocks (fst (pf_call env act ps s)) = bs_blocks s"
  "bs_config (fst (pf_call env act ps s)) = bs_config s" "bs_audit (fst (pf_call env act ps s)) = bs_audit s"
  by (simp_all add: pf_call_def split: prod.split)

lemma record_block_frame [simp]:
  "bs_rate (fst (record_block env now ttl ip a s)) = bs_rate s"
  "bs_config (fst (record_block env now ttl ip a s)) = bs_config s"
  by (simp_all add: record_block_def pf_add_def Let_def case_prod_beta split: option.split)

lemma record_block_rate: "record_block env now ttl ip a s = (s1, r) \<Longrightarrow> bs_rate s1 = bs_rate s"
  using record_block_frame(1)[of env now ttl ip a s] by simp

lemma maybe_block_rate:
  assumes "maybe_block env now a s = (s1, r)"
  shows "(bs_rate s1 = bs_rate s \<and> r = None)
    \<or> (bs_rate s1 = fst (rate_ok now (bs_rate s)) \<and> (r \<noteq> None \<longrightarrow> snd (rate_ok now (bs_rate s))))"
proof -
  obtain rate ok where rate: "rate_ok now (bs_rate s) = (rate, ok)" by fastforce
  then show ?thesis using assms
    by (auto simp: maybe_block_def Let_def split: if_splits prod.splits dest!: record_block_rate)
qed

lemma dropWhile_sorted: "sorted xs \<Longrightarrow> dropWhile (\<lambda>t. t < k) xs = filter (\<lambda>t. k \<le> t) (xs :: int list)"
proof (induction xs)
  case (Cons x xs)
  show ?case
  proof (cases "k \<le> x")
    case True
    then have "\<forall>t \<in> set (x # xs). k \<le> t" using Cons.prems by auto
    then show ?thesis using True filter_True[of "x # xs" "\<lambda>t. k \<le> t"] by simp
  qed (use Cons in simp)
qed simp

lemma length_filter_le2: "(\<And>x. x \<in> set xs \<Longrightarrow> P x \<Longrightarrow> Q x) \<Longrightarrow> length (filter P xs) \<le> length (filter Q xs)"
  by (induction xs) (auto intro: le_SucI)

definition in_window :: "int \<Rightarrow> int \<Rightarrow> bool" where
  "in_window a t \<longleftrightarrow> a \<le> t \<and> t \<le> a + rate_window"

text \<open>\<open>h\<close> holds every time the limiter has recorded so far, \<open>now\<close> included.\<close>

lemma rate_ok_window:
  assumes "sorted h" "\<forall>x \<in> set h. x \<le> lst" "lst \<le> now" "c \<le> lst - rate_window"
    and "\<forall>a. length (filter (in_window a) h) \<le> rate_max"
    and "rate_ok now (filter (\<lambda>x. c \<le> x) h) = (rate, ok)"
    and "h' = (if ok then h @ [now] else h)"
  shows "rate = filter (\<lambda>x. now - rate_window \<le> x) h' \<and> (\<forall>a. length (filter (in_window a) h') \<le> rate_max)"
proof -
  have "sorted (filter (\<lambda>x. c \<le> x) h)" using assms(1) by (rule sorted_wrt_filter)
  moreover have "filter (\<lambda>x. now - rate_window \<le> x \<and> c \<le> x) h = filter (\<lambda>x. now - rate_window \<le> x) h"
    using assms(3,4) by (intro filter_cong) auto
  ultimately have recent: "dropWhile (\<lambda>t. t < now - rate_window) (filter (\<lambda>x. c \<le> x) h) = filter (\<lambda>x. now - rate_window \<le> x) h"
    by (simp add: dropWhile_sorted conj_commute)
  show ?thesis
  proof (cases ok)
    case False
    then show ?thesis using assms(5,6,7) by (auto simp: rate_ok_def Let_def recent split: if_splits)
  next
    case True
    then have r: "rate = filter (\<lambda>x. now - rate_window \<le> x) h @ [now]"
      and room: "length (filter (\<lambda>x. now - rate_window \<le> x) h) < rate_max"
      using assms(6) by (auto simp: rate_ok_def Let_def recent split: if_splits)
    have "length (filter (in_window a) (h @ [now])) \<le> rate_max" for a
    proof (cases "in_window a now")
      case win: True
      have "length (filter (in_window a) h) \<le> length (filter (\<lambda>x. now - rate_window \<le> x) h)"
        using win by (intro length_filter_le2) (auto simp: in_window_def)
      then show ?thesis using win room by simp
    qed (use assms(5) in simp)
    then show ?thesis using r True assms(7) by (simp add: rate_window_def)
  qed
qed

lemma history_window:
  assumes "sorted h" "\<forall>x \<in> set h. x \<le> lst" "c \<le> lst - rate_window" "bs_rate s = filter (\<lambda>x. c \<le> x) h"
    and "\<forall>a. length (filter (in_window a) h) \<le> rate_max"
    and "sorted (map fst calls)" "\<forall>x \<in> set (map fst calls). lst \<le> x"
  shows "length (filter (in_window a) (h @ accepted (block_history env calls s))) \<le> rate_max"
  using assms
proof (induction calls arbitrary: h lst c s)
  case Nil
  then show ?case by simp
next
  case (Cons call calls)
  obtain now x where call: "call = (now, x)" by fastforce
  obtain s1 r where m: "maybe_block env now x s = (s1, r)" by fastforce
  from maybe_block_rate[OF m] show ?case
  proof
    assume "bs_rate s1 = bs_rate s \<and> r = None"
    then show ?thesis using Cons.IH[of h lst c s1] Cons.prems call m by simp
  next
    assume rr: "bs_rate s1 = fst (rate_ok now (bs_rate s)) \<and> (r \<noteq> None \<longrightarrow> snd (rate_ok now (bs_rate s)))"
    obtain rate ok where rate: "rate_ok now (filter (\<lambda>x. c \<le> x) h) = (rate, ok)" by fastforce
    define h' where "h' = (if ok then h @ [now] else h)"
    have now: "lst \<le> now" using Cons.prems(7) call by simp
    note w = rate_ok_window[OF Cons.prems(1,2) now Cons.prems(3,5) rate h'_def]
    have "sorted h'" "\<forall>x \<in> set h'. x \<le> now"
      using Cons.prems(1,2) now by (auto simp: h'_def sorted_append)
    moreover have "bs_rate s1 = filter (\<lambda>x. now - rate_window \<le> x) h'"
      using rr rate w Cons.prems(4) by simp
    ultimately have "length (filter (in_window a) (h' @ accepted (block_history env calls s1))) \<le> rate_max"
      using w Cons.prems(6,7) call by (intro Cons.IH[of h' now "now - rate_window"]) auto
    moreover have "length (filter (in_window a) (h @ accepted ((now, r) # block_history env calls s1)))
        \<le> length (filter (in_window a) (h' @ accepted (block_history env calls s1)))"
      using rr rate Cons.prems(4) by (cases r) (auto simp: h'_def)
    ultimately show ?thesis using call m by simp
  qed
qed

text \<open>
  C31: however many alerts come in, of whatever address, severity and signature, within any five
  minutes at most 60 of them make a new block, as long as the clock does not go back.
\<close>

theorem block_rate_limited:
  assumes "bs_rate s = []" "sorted (map fst calls)"
  shows "length (filter (in_window a) (accepted (block_history env calls s))) \<le> rate_max"
proof (cases calls)
  case (Cons call rest)
  have "length (filter (in_window a) ([] @ accepted (block_history env calls s))) \<le> rate_max"
    by (rule history_window[of "[]" "fst call" "fst call - rate_window"]) (use assms Cons in auto)
  then show ?thesis by simp
qed (simp add: rate_max_def)

lemma block_rate_limited_witness:
  "length (filter (in_window 0) (accepted (block_history \<lparr>ne_dry_run = False, ne_freebsd = False, ne_root = True, ne_sudo = [],
       ne_exec = (\<lambda>c w. (w, Finished 0 [] []))\<rparr> (replicate 3 (7, \<lparr>aa_ip = Some ''10.0.0.9'', aa_severity = Some ''high'',
       aa_signature = None, aa_sid = None, aa_alert = None\<rparr>))
     \<lparr>bs_blocks = Some empty_table, bs_config = None, bs_rate = [], bs_audit = [], bs_priv = [], bs_world = ()\<rparr>))) \<le> rate_max"
  by (rule block_rate_limited) simp_all

section \<open>Life of a block\<close>

lemma pf_call_active [simp]: "block_active ip now (fst (pf_call env act ps s)) = block_active ip now s"
  by (simp add: block_active_def)

lemma block_active_only [simp]:
  "block_active ip now (s\<lparr>bs_audit := a\<rparr>) = block_active ip now s"
  "block_active ip now (s\<lparr>bs_rate := r\<rparr>) = block_active ip now s"
  by (simp_all add: block_active_def)

lemma record_block_active:
  assumes "record_block env now ttl ip a s = (s1, Some r)" "t < br_expires r"
  shows "block_active (br_ip r) t s1"
  using assms
  by (auto simp: record_block_def pf_add_def Let_def block_active_def mk_block_def case_prod_beta split: option.splits)

text \<open>
  A block is made once.  Until it expires, further alerts for the address change nothing: no row, no
  command, no use of the rate limit.  That holds as well when the kernel has refused the address
  (\<open>br_pf\<close> is false): it is listed as blocked and not tried again.
\<close>

theorem block_not_repeated:
  assumes "maybe_block env now a s = (s1, Some r)" "now \<le> t" "t < br_expires r"
    and "strip (or_str (aa_ip b) []) = br_ip r"
  shows "maybe_block env t b s1 = (s1, None) \<and> block_active (br_ip r) t s1"
proof -
  have act: "block_active (br_ip r) t s1"
    using assms(1,3) by (auto simp: maybe_block_def Let_def split: if_splits prod.splits intro: record_block_active)
  then show ?thesis using assms(4) by (simp add: maybe_block_def Let_def split: prod.split)
qed

definition refusing :: "nat exec_env" where
  "refusing = \<lparr>ne_dry_run = False, ne_freebsd = True, ne_root = True, ne_sudo = [],
     ne_exec = (\<lambda>c w. (Suc w, Finished 1 [] ''pfctl: Operation not permitted''))\<rparr>"

definition sample_alert :: alert_args where
  "sample_alert = \<lparr>aa_ip = Some ''10.0.0.9'', aa_severity = Some ''HIGH'', aa_signature = None, aa_sid = None, aa_alert = None\<rparr>"

definition no_blocks :: "nat block_state" where
  "no_blocks = \<lparr>bs_blocks = Some empty_table, bs_config = None, bs_rate = [], bs_audit = [], bs_priv = [], bs_world = 0\<rparr>"

lemma sample_ip: "strip ''10.0.0.9'' = ''10.0.0.9''" "ip_address ''10.0.0.9'' \<noteq> None"
proof -
  show s: "strip ''10.0.0.9'' = ''10.0.0.9''" by (simp add: strip_id stripped_no_space is_space_def code_def)
  show "ip_address ''10.0.0.9'' \<noteq> None" using val_samples(1) s by (auto simp: val_ip_def Let_def split: if_splits)
qed

lemma block_table_val: "val_table_name (PStr block_table) = Inr ''ss_ids_blocks''" "block_table = ''ss_ids_blocks''"
  by (simp_all add: block_table_def val_table_name_def Let_def strip_id stripped_no_space is_space_def code_def
      safe_name_def is_name_char_def is_alnum_def is_alpha_def is_upper_def is_lower_def is_digit_def allowed_pf_tables_def)

lemma sample_block:
  "\<exists>s1. maybe_block refusing 10 sample_alert no_blocks = (s1, Some \<lparr>br_ip = ''10.0.0.9'', br_expires = 3610, br_ttl = 3600, br_pf = False\<rparr>)"
proof -
  note ip = sample_ip
  moreover have "lower ''HIGH'' = ''high''" by (simp add: to_lower_def is_upper_def code_def char_of_def bit_0)
  moreover have "build_command ''pf.table_add'' [(''table'', PStr block_table), (''ip'', PStr ''10.0.0.9'')]
      = Inr ([(''table'', ''ss_ids_blocks''), (''ip'', ''10.0.0.9'')],
             [''/sbin/pfctl'', ''-t'', ''ss_ids_blocks'', ''-T'', ''add'', ''10.0.0.9''])"
    by (simp add: build_command_def table_entry val_samples block_table_val block_table_val(1)[unfolded block_table_val(2)] fill_token_simps replace_str_def braces_def Let_def)
  ultimately show ?thesis
    by (simp add: maybe_block_def sample_alert_def no_blocks_def auto_block_policy_def should_block_def block_active_def
        rate_ok_def rate_max_def record_block_def pf_add_def pf_call_def refusing_def run_privileged_def run_command_def
        maybe_sudo_def default_ttl_def Let_def)
qed

lemma block_not_repeated_witness:
  "\<exists>s1. fst (maybe_block refusing 10 sample_alert no_blocks) = s1 \<and> maybe_block refusing 500 sample_alert s1 = (s1, None)"
proof -
  obtain s1 where m: "maybe_block refusing 10 sample_alert no_blocks
      = (s1, Some \<lparr>br_ip = ''10.0.0.9'', br_expires = 3610, br_ttl = 3600, br_pf = False\<rparr>)"
    using sample_block by blast
  have "strip (or_str (aa_ip sample_alert) []) = ''10.0.0.9''" by (simp add: sample_alert_def sample_ip)
  then show ?thesis using block_not_repeated[OF m, of 500 sample_alert] m by simp
qed

lemma expire_command:
  assumes "0 < n"
  shows "build_command ''pf.table_expire'' [(''table'', PStr block_table), (''seconds'', PStr (str_int n))]
    = Inr ([(''table'', ''ss_ids_blocks''), (''seconds'', str_int n)],
           [''/sbin/pfctl'', ''-t'', ''ss_ids_blocks'', ''-T'', ''expire'', str_int n])"
proof -
  have "py_int (str_int n) = Some n" using assms by (simp add: str_int_def)
  then have "val_seconds (PStr (str_int n)) = Inr (str_int n)" using assms by (simp add: val_seconds_def)
  moreover note block_table_val(1)
  moreover have "map_of allowlist ''pf.table_expire'' = Some
      ([''/sbin/pfctl'', ''-t'', ''{table}'', ''-T'', ''expire'', ''{seconds}''], [(''table'', val_table_name), (''seconds'', val_seconds)])"
    by (simp add: allowlist_def)
  ultimately show ?thesis
    using replace_str_self[of "''{seconds}''"]
    by (simp add: build_command_def fill_token_simps braces_def Let_def replace_str_def)
qed

text \<open>
  The two copies of a block do not live equally long.  The kernel is told to expire by age with the
  time to live that is configured now, the row keeps the expiry it was made with: after the setting has been
  shortened, an entry the kernel drops is still listed as blocked, and alerts for the address are
  ignored until the row expires.
\<close>

theorem shortened_ttl_leaves_row:
  assumes "ne_freebsd env" "ne_root env" "\<not> ne_dry_run env"
    and "auto_block_policy (bs_config s) = (n, sids)" "0 < n"
    and "bs_blocks s = Some t" "r \<in> set (rows t)" "now < bl_expires r"
    and "strip (or_str (aa_ip a) []) = bl_ip r"
  shows "\<exists>s1. fst (expire_blocks env now None s) = s1
    \<and> bs_world s1 = fst (ne_exec env [''/sbin/pfctl'', ''-t'', ''ss_ids_blocks'', ''-T'', ''expire'', str_int n] (bs_world s))
    \<and> r \<in> set (list_blocked now s1) \<and> maybe_block env now a s1 = (s1, None)"
proof -
  define p where "p = pf_call env ''pf.table_expire'' [(''table'', PStr block_table), (''seconds'', PStr (str_int n))] s"
  have w: "bs_world (fst p) = fst (ne_exec env [''/sbin/pfctl'', ''-t'', ''ss_ids_blocks'', ''-T'', ''expire'', str_int n] (bs_world s))"
    using run_privileged_root[OF assms(1-3) expire_command[OF assms(5)], of "''system''" "bs_world s"] assms(1)
    by (simp add: p_def pf_call_def case_prod_beta)
  have b: "bs_blocks (fst p) = Some t" using assms(6) by (simp add: p_def)
  define s1 where "s1 = (fst p)\<lparr>bs_blocks := Some (delete_rows (\<lambda>r. bl_expires r < now) t)\<rparr>"
  have e: "fst (expire_blocks env now None s) = s1"
    using assms(4,6) by (simp add: expire_blocks_def Let_def s1_def p_def)
  have in1: "r \<in> set (rows (delete_rows (\<lambda>r. bl_expires r < now) t))" using assms(7,8) by simp
  then have "block_active (bl_ip r) now s1"
    using assms(8) by (auto simp: s1_def block_active_def list_ex_iff)
  then have "maybe_block env now a s1 = (s1, None)"
    using assms(9) by (simp add: maybe_block_def Let_def split: prod.split)
  moreover have "r \<in> set (list_blocked now s1)" using in1 assms(8) by (simp add: list_blocked_def s1_def)
  ultimately show ?thesis using e w by (simp add: s1_def)
qed

lemma shortened_ttl_leaves_row_witness:
  "\<exists>s1. fst (expire_blocks refusing 100 None
       (no_blocks\<lparr>bs_config := Some (Some (PInt 60, PNone)),
         bs_blocks := Some \<lparr>rows = [mk_block (''10.0.0.9'', [], [], ''high'', 10, 3610) 1], seq = 1\<rparr>\<rparr>)) = s1
     \<and> maybe_block refusing 100 sample_alert s1 = (s1, None)"
proof -
  let ?t = "\<lparr>rows = [mk_block (''10.0.0.9'', [], [], ''high'', 10, 3610) 1], seq = 1\<rparr> :: block_row table"
  have ip: "strip (or_str (aa_ip sample_alert) []) = bl_ip (mk_block (''10.0.0.9'', [], [], ''high'', 10, 3610) 1)"
    by (simp add: sample_alert_def sample_ip mk_block_def)
  have "auto_block_policy (Some (Some (PInt 60, PNone))) = (60, [])"
    by (simp add: auto_block_policy_def or_val_def clamp_ttl_def split_sids_def)
  then show ?thesis
    using shortened_ttl_leaves_row[of refusing "no_blocks\<lparr>bs_config := Some (Some (PInt 60, PNone)), bs_blocks := Some ?t\<rparr>" 60 "[]" ?t
        "mk_block (''10.0.0.9'', [], [], ''high'', 10, 3610) 1" 100 sample_alert] ip
    by (simp add: refusing_def mk_block_def)
qed

text \<open>
  After an address has been unblocked no row blocks it, at any time, and the blocks of all other
  addresses and the state of the rate limit are as before.
\<close>

theorem unblock_clears:
  assumes "unblock env ip actor s = (s1, m, True)"
  shows "\<not> block_active (strip (or_str ip [])) t s1
    \<and> (a \<noteq> strip (or_str ip []) \<longrightarrow> block_active a t s1 = block_active a t s)
    \<and> bs_rate s1 = bs_rate s"
  using assms
  by (auto simp: unblock_def pf_delete_def Let_def block_active_def list_ex_iff split: if_splits option.splits) blast+

lemma unblock_clears_witness:
  "\<not> block_active ''10.0.0.9'' 11
      (fst (unblock refusing (Some ''10.0.0.9'') ''admin''
         (no_blocks\<lparr>bs_blocks := Some \<lparr>rows = [mk_block (''10.0.0.9'', [], [], ''high'', 10, 3610) 1], seq = 1\<rparr>\<rparr>)))"
proof -
  let ?s = "no_blocks\<lparr>bs_blocks := Some \<lparr>rows = [mk_block (''10.0.0.9'', [], [], ''high'', 10, 3610) 1], seq = 1\<rparr>\<rparr>"
  note ip = sample_ip
  then have "\<exists>s1 m. unblock refusing (Some ''10.0.0.9'') ''admin'' ?s = (s1, m, True)"
    by (simp add: unblock_def Let_def no_blocks_def)
  then show ?thesis using unblock_clears ip(1) by fastforce
qed

end
