(* ===== verification/WorkerLock.thy ===== *)
theory WorkerLock
  imports PyString
begin

text \<open>
  \<^verbatim>\<open>app/services/worker_lock.py\<close>: which of the Gunicorn workers runs the background threads.
  Each worker runs \<open>acquire_worker_lock\<close> once; the workers interleave at the system calls on the
  one lock file.  A file is an inode with its text and the process whose \<open>flock\<close> it carries; the
  path names at most one inode.  An exit releases the locks of the process.

  \<open>may p q\<close> says that \<open>p\<close> may send signals to \<open>q\<close>: \<open>os.kill(pid, 0)\<close> raises for a process that is
  not there and for one of another user alike.  Any other call may end in an \<open>OSError\<close>.
\<close>

text \<open>
  How a system call ends.  A failed flush leaves the pid in the buffer, and the \<open>close\<close> of the handler
  flushes again: it fails as well, or (\<open>Errs_once\<close>) it puts the pid into the file before the lock goes.
\<close>

datatype call_end = Works | Errs | Errs_once

text \<open>
  The call returns \<open>True\<close> at \<open>Leading\<close>, \<open>False\<close> at \<open>Following\<close> (the lock is held), \<open>Failed\<close> and \<open>Late\<close> (another
  \<open>OSError\<close>), and raises at \<open>Raised\<close> (\<open>OverflowError\<close> of a pid too large) and \<open>Broken\<close> (the \<open>close\<close> in the handler).
\<close>

datatype lock_pc =
    Begin
  | Testing
  | Reading
  | Killing nat
  | Unlinking
  | Opening
  | Locking nat
  | Writing nat
  | Leading nat
  | Following
  | Failed
  | Late
  | Broken
  | Raised

record lock_sys =
  lk_path :: "nat option"
  lk_text :: "nat \<Rightarrow> string"
  lk_holder :: "nat \<Rightarrow> nat option"
  lk_next :: nat
  lk_alive :: "nat \<Rightarrow> bool"
  lk_pc :: "nat \<Rightarrow> lock_pc"

definition goto_pc :: "nat \<Rightarrow> lock_pc \<Rightarrow> lock_sys \<Rightarrow> lock_sys" where
  "goto_pc p c s = s\<lparr>lk_pc := (lk_pc s)(p := c)\<rparr>"

text \<open>\<open>pid_str and pid_str.isdigit()\<close> of the stripped text.\<close>

definition stored_pid :: "string \<Rightarrow> nat option" where
  "stored_pid t = (let d = strip t in if all_digits d then Some (nat_of_digits d) else None)"

definition signal_ok :: "(nat \<Rightarrow> nat \<Rightarrow> bool) \<Rightarrow> nat \<Rightarrow> nat \<Rightarrow> lock_sys \<Rightarrow> bool" where
  "signal_ok may p n s \<longleftrightarrow> n = 0 \<or> lk_alive s n \<and> may p n"

text \<open>
  \<open>_remove_stale_lock\<close>: the test, the read, the signal and the unlink.  \<open>os.path.exists\<close> answers \<open>False\<close>
  when it cannot look; a read or an unlink that fails ends the function.
\<close>

definition stale_step :: "(nat \<Rightarrow> nat \<Rightarrow> bool) \<Rightarrow> call_end \<Rightarrow> nat \<Rightarrow> lock_sys \<Rightarrow> lock_sys" where
  "stale_step may r p s =
     (case lk_pc s p of
        Testing \<Rightarrow> goto_pc p (if lk_path s = None \<or> r \<noteq> Works then Opening else Reading) s
      | Reading \<Rightarrow>
          goto_pc p (case lk_path s of
                       None \<Rightarrow> Opening
                     | Some i \<Rightarrow>
                         if r \<noteq> Works then Opening
                         else (case stored_pid (lk_text s i) of None \<Rightarrow> Opening | Some n \<Rightarrow> Killing n)) s
      | Killing n \<Rightarrow>
          goto_pc p (if 2 ^ 31 \<le> n then Raised else if signal_ok may p n s then Opening else Unlinking) s
      | Unlinking \<Rightarrow> goto_pc p Opening (if r \<noteq> Works then s else s\<lparr>lk_path := None\<rparr>)
      | _ \<Rightarrow> s)"

text \<open>\<open>open(_LOCK_FILE, "w")\<close> creates the file or empties the one that is there.\<close>

definition open_lock :: "nat \<Rightarrow> lock_sys \<Rightarrow> lock_sys" where
  "open_lock p s =
     (case lk_path s of
        None \<Rightarrow>
          goto_pc p (Locking (lk_next s))
            (s\<lparr>lk_path := Some (lk_next s), lk_text := (lk_text s)(lk_next s := []),
               lk_holder := (lk_holder s)(lk_next s := None), lk_next := Suc (lk_next s)\<rparr>)
      | Some i \<Rightarrow> goto_pc p (Locking i) (s\<lparr>lk_text := (lk_text s)(i := [])\<rparr>))"

text \<open>The write and flush of the pid; the handler closes the file, and with it goes the lock.\<close>

definition write_pid :: "call_end \<Rightarrow> nat \<Rightarrow> nat \<Rightarrow> lock_sys \<Rightarrow> lock_sys" where
  "write_pid r i p s =
     (case r of
        Works \<Rightarrow> goto_pc p (Leading i) (s\<lparr>lk_text := (lk_text s)(i := str_nat p)\<rparr>)
      | Errs \<Rightarrow> goto_pc p Broken (s\<lparr>lk_holder := (lk_holder s)(i := None)\<rparr>)
      | Errs_once \<Rightarrow>
          goto_pc p Late (s\<lparr>lk_text := (lk_text s)(i := str_nat p), lk_holder := (lk_holder s)(i := None)\<rparr>))"

definition acquire_step :: "(nat \<Rightarrow> nat \<Rightarrow> bool) \<Rightarrow> call_end \<Rightarrow> nat \<Rightarrow> lock_sys \<Rightarrow> lock_sys" where
  "acquire_step may r p s =
     (case lk_pc s p of
        Begin \<Rightarrow> goto_pc p (if r = Works then Testing else Failed) s
      | Opening \<Rightarrow> (if r = Works then open_lock p s else goto_pc p Failed s)
      | Locking i \<Rightarrow>
          (if r \<noteq> Works then goto_pc p Failed s
           else case lk_holder s i of
             None \<Rightarrow> goto_pc p (Writing i) (s\<lparr>lk_holder := (lk_holder s)(i := Some p)\<rparr>)
           | Some q \<Rightarrow> goto_pc p Following s)
      | Writing i \<Rightarrow> write_pid r i p s
      | _ \<Rightarrow> stale_step may r p s)"

text \<open>\<open>_lock_fd is not None\<close>; at \<open>Broken\<close> the closed file is still in the variable.\<close>

definition is_worker_leader :: "lock_sys \<Rightarrow> nat \<Rightarrow> bool" where
  "is_worker_leader s p \<longleftrightarrow>
     lk_alive s p \<and> (case lk_pc s p of Locking _ \<Rightarrow> True | Writing _ \<Rightarrow> True | Leading _ \<Rightarrow> True | Broken \<Rightarrow> True | _ \<Rightarrow> False)"

text \<open>\<open>acquire_worker_lock\<close> has returned \<open>True\<close>.\<close>

definition leads :: "lock_sys \<Rightarrow> nat \<Rightarrow> bool" where
  "leads s p \<longleftrightarrow> lk_alive s p \<and> (\<exists>i. lk_pc s p = Leading i)"

definition exit_process :: "nat \<Rightarrow> lock_sys \<Rightarrow> lock_sys" where
  "exit_process p s =
     s\<lparr>lk_alive := (lk_alive s)(p := False), lk_holder := (\<lambda>i. if lk_holder s i = Some p then None else lk_holder s i)\<rparr>"

text \<open>A schedule names the worker of each step and how its call ends.\<close>

definition sched_step :: "(nat \<Rightarrow> nat \<Rightarrow> bool) \<Rightarrow> nat \<times> call_end \<Rightarrow> lock_sys \<Rightarrow> lock_sys" where
  "sched_step may x s = (if lk_alive s (fst x) then acquire_step may (snd x) (fst x) s else s)"

definition run_schedule :: "(nat \<Rightarrow> nat \<Rightarrow> bool) \<Rightarrow> (nat \<times> call_end) list \<Rightarrow> lock_sys \<Rightarrow> lock_sys" where
  "run_schedule may = fold (sched_step may)"

lemma run_schedule_simps [simp]:
  "run_schedule may [] s = s" "run_schedule may (x # xs) s = run_schedule may xs (sched_step may x s)"
  by (simp_all add: run_schedule_def)

section \<open>The invariant\<close>

text \<open>The workers at their start, with no lock file.\<close>

definition fresh_start :: "lock_sys \<Rightarrow> bool" where
  "fresh_start s \<longleftrightarrow> lk_path s = None \<and> (\<forall>p. lk_pc s p = Begin) \<and> \<not> lk_alive s 0"

text \<open>A worker that may have its pid in the file.\<close>

fun recorded :: "lock_pc \<Rightarrow> bool" where
  "recorded (Leading i) \<longleftrightarrow> True"
| "recorded Late \<longleftrightarrow> True"
| "recorded _ \<longleftrightarrow> False"

text \<open>A step of a worker, or the exit of one that neither holds the lock nor has its pid in the file.\<close>

inductive lock_step :: "(nat \<Rightarrow> nat \<Rightarrow> bool) \<Rightarrow> lock_sys \<Rightarrow> lock_sys \<Rightarrow> bool" for may where
  work: "lk_alive s p \<Longrightarrow> lock_step may s (acquire_step may r p s)"
| quit: "\<not> recorded (lk_pc s p) \<Longrightarrow> \<forall>i. lk_pc s p \<noteq> Writing i \<Longrightarrow> lock_step may s (exit_process p s)"

inductive_cases lock_stepE: "lock_step may s s'"

inductive lock_reachable :: "(nat \<Rightarrow> nat \<Rightarrow> bool) \<Rightarrow> lock_sys \<Rightarrow> bool" for may where
  start: "fresh_start s \<Longrightarrow> lock_reachable may s"
| step: "lock_reachable may s \<Longrightarrow> lock_step may s s' \<Longrightarrow> lock_reachable may s'"

text \<open>
  There is at most one inode in use and it stays under the path; a pid in its text is that of a process that is
  there; nobody is about to unlink.
\<close>

definition lock_used :: "lock_sys \<Rightarrow> bool" where
  "lock_used s \<longleftrightarrow>
     (\<exists>i q. lk_path s = Some i \<and> lk_holder s i = Some q) \<or> (\<exists>q. lk_pc s q = Late \<or> lk_pc s q = Broken)"

definition pc_ok :: "lock_sys \<Rightarrow> nat \<Rightarrow> bool" where
  "pc_ok s p \<longleftrightarrow>
     (case lk_pc s p of
        Killing n \<Rightarrow> lk_alive s n \<and> recorded (lk_pc s n)
      | Unlinking \<Rightarrow> False
      | Locking i \<Rightarrow> lk_path s = Some i
      | Writing i \<Rightarrow> lk_path s = Some i \<and> lk_holder s i = Some p
      | Leading i \<Rightarrow> lk_path s = Some i \<and> lk_holder s i = Some p
      | Following \<Rightarrow> lock_used s
      | _ \<Rightarrow> True)"

definition lock_inv :: "lock_sys \<Rightarrow> bool" where
  "lock_inv s \<longleftrightarrow>
     (\<forall>p. pc_ok s p)
     \<and> (\<forall>i. lk_path s = Some i \<longrightarrow>
          (\<forall>q. lk_holder s i = Some q \<longrightarrow> lk_alive s q \<and> (lk_pc s q = Writing i \<or> lk_pc s q = Leading i))
          \<and> (\<forall>n. stored_pid (lk_text s i) = Some n \<longrightarrow> lk_alive s n \<and> recorded (lk_pc s n)))"

lemma stored_pid_Nil [simp]: "stored_pid [] = None"
  by (simp add: stored_pid_def all_digits_def)

lemma stored_pid_str_nat [simp]: "stored_pid (str_nat p) = Some p"
proof -
  have "strip (str_nat p) = str_nat p"
    by (intro strip_id stripped_no_space ballI digit_not_space str_nat_digits)
  then show ?thesis by (simp add: stored_pid_def)
qed

lemma goto_pc_simps [simp]:
  "lk_path (goto_pc p c s) = lk_path s" "lk_text (goto_pc p c s) = lk_text s"
  "lk_holder (goto_pc p c s) = lk_holder s" "lk_alive (goto_pc p c s) = lk_alive s"
  "lk_next (goto_pc p c s) = lk_next s" "lk_pc (goto_pc p c s) = (lk_pc s)(p := c)"
  by (simp_all add: goto_pc_def)

lemmas lock_defs = acquire_step_def stale_step_def open_lock_def write_pid_def sched_step_def

text \<open>What the others must find unchanged.\<close>

lemma pc_ok_frame:
  assumes "pc_ok s q" "lk_pc s' q = lk_pc s q"
    and "\<And>i. lk_path s = Some i \<Longrightarrow> lk_path s' = Some i"
    and "\<And>i. lk_path s = Some i \<Longrightarrow> lk_holder s i = Some q \<Longrightarrow> lk_holder s' i = Some q"
    and "\<And>n. lk_alive s n \<Longrightarrow> recorded (lk_pc s n) \<Longrightarrow> lk_alive s' n \<and> recorded (lk_pc s' n)"
    and "lock_used s \<Longrightarrow> lock_used s'"
  shows "pc_ok s' q"
  using assms by (cases "lk_pc s q") (simp_all add: pc_ok_def)

lemma lock_usedI:
  "lk_path s = Some i \<Longrightarrow> lk_holder s i = Some q \<Longrightarrow> lock_used s"
  "lk_pc s q = Late \<Longrightarrow> lock_used s" "lk_pc s q = Broken \<Longrightarrow> lock_used s"
  by (auto simp: lock_used_def)

lemma lock_used_frame:
  assumes "lock_used s" "\<And>i q. lk_path s = Some i \<Longrightarrow> lk_holder s i = Some q \<Longrightarrow> lk_path s' = Some i \<and> lk_holder s' i = Some q"
    and "\<And>q. lk_pc s q = Late \<or> lk_pc s q = Broken \<Longrightarrow> lk_pc s' q = lk_pc s q"
  shows "lock_used s'"
  using assms(1)[unfolded lock_used_def]
proof (elim disjE exE conjE)
  fix i q assume "lk_path s = Some i" "lk_holder s i = Some q"
  then show ?thesis using assms(2) lock_usedI(1) by blast
next
  fix q assume "lk_pc s q = Late"
  then show ?thesis using assms(3)[of q] by (intro lock_usedI(2)[of s' q]) simp
next
  fix q assume "lk_pc s q = Broken"
  then show ?thesis using assms(3)[of q] by (intro lock_usedI(3)[of s' q]) simp
qed

lemma lock_invI:
  assumes "\<And>q. pc_ok s q"
    and "\<And>i q. lk_path s = Some i \<Longrightarrow> lk_holder s i = Some q \<Longrightarrow> lk_alive s q \<and> (lk_pc s q = Writing i \<or> lk_pc s q = Leading i)"
    and "\<And>i n. lk_path s = Some i \<Longrightarrow> stored_pid (lk_text s i) = Some n \<Longrightarrow> lk_alive s n \<and> recorded (lk_pc s n)"
  shows "lock_inv s"
  using assms by (simp add: lock_inv_def)

lemma lock_invD:
  assumes "lock_inv s"
  shows "pc_ok s q"
    and "lk_path s = Some i \<Longrightarrow> lk_holder s i = Some q \<Longrightarrow> lk_alive s q \<and> (lk_pc s q = Writing i \<or> lk_pc s q = Leading i)"
    and "lk_path s = Some i \<Longrightarrow> stored_pid (lk_text s i) = Some n \<Longrightarrow> lk_alive s n \<and> recorded (lk_pc s n)"
  using assms by (auto simp: lock_inv_def)

text \<open>A move of a worker from a point that says nothing to the others, to one that is all right there.\<close>

lemma goto_inv:
  assumes "lock_inv s" "pc_ok (goto_pc p c s) p"
    and "\<not> recorded (lk_pc s p)" "\<forall>i. lk_pc s p \<noteq> Writing i" "lk_pc s p \<noteq> Broken"
  shows "lock_inv (goto_pc p c s)"
proof (rule lock_invI)
  have np: "n \<noteq> p" if "recorded (lk_pc s n)" for n using assms(3) that by auto
  have u: "lock_used (goto_pc p c s)" if "lock_used s"
    by (rule lock_used_frame[OF that]) (use assms(3,5) in auto)
  show "pc_ok (goto_pc p c s) q" for q
  proof (cases "q = p")
    case False
    show ?thesis
      by (rule pc_ok_frame[OF lock_invD(1)[OF assms(1)]]) (use False u np in auto)
  qed (simp add: assms(2))
  show "lk_alive (goto_pc p c s) q \<and> (lk_pc (goto_pc p c s) q = Writing i \<or> lk_pc (goto_pc p c s) q = Leading i)"
    if "lk_path (goto_pc p c s) = Some i" "lk_holder (goto_pc p c s) i = Some q" for i q
    using lock_invD(2)[OF assms(1), of i q] that assms(3,4) by (cases "q = p") auto
  show "lk_alive (goto_pc p c s) n \<and> recorded (lk_pc (goto_pc p c s) n)"
    if "lk_path (goto_pc p c s) = Some i" "stored_pid (lk_text (goto_pc p c s) i) = Some n" for i n
    using lock_invD(3)[OF assms(1), of i n] that np by auto
qed

lemma stale_step_inv:
  assumes "lock_inv s" "\<forall>p q. may p q"
  shows "lock_inv (stale_step may r p s)"
proof (cases "lk_pc s p")
  case Testing
  have "lock_inv (goto_pc p (if lk_path s = None \<or> r \<noteq> Works then Opening else Reading) s)"
    using assms(1) Testing by (intro goto_inv) (simp_all add: pc_ok_def)
  then show ?thesis by (simp add: stale_step_def Testing)
next
  case Reading
  have "lock_inv (goto_pc p (case lk_path s of None \<Rightarrow> Opening
      | Some i \<Rightarrow> if r \<noteq> Works then Opening
          else (case stored_pid (lk_text s i) of None \<Rightarrow> Opening | Some n \<Rightarrow> Killing n)) s)"
    using assms(1) Reading
    by (intro goto_inv) (auto simp: pc_ok_def lock_inv_def split: option.split)
  then show ?thesis by (simp add: stale_step_def Reading)
next
  case (Killing n)
  moreover have "pc_ok s p" using assms(1) by (simp add: lock_inv_def)
  ultimately have "signal_ok may p n s" using assms(2) by (simp add: pc_ok_def signal_ok_def)
  moreover have "lock_inv (goto_pc p (if 2 ^ 31 \<le> n then Raised else Opening) s)"
    using assms(1) Killing by (intro goto_inv) (simp_all add: pc_ok_def)
  ultimately show ?thesis by (auto simp: stale_step_def Killing split: if_splits)
next
  case Unlinking
  moreover have "pc_ok s p" using assms(1) by (simp add: lock_inv_def)
  ultimately show ?thesis by (simp add: pc_ok_def)
qed (use assms in \<open>simp_all add: stale_step_def\<close>)

lemma write_pid_inv:
  assumes "lock_inv s" "lk_alive s p" "lk_pc s p = Writing i" "u = write_pid r i p s"
  shows "lock_inv u"
proof (rule lock_invI)
  note inv = lock_invD[OF assms(1)]
  have path: "lk_path s = Some i" "lk_holder s i = Some p" using inv(1)[of p] assms(3) by (simp_all add: pc_ok_def)
  have t: "lk_path u = Some i" "lk_alive u = lk_alive s"
    "lk_pc u = (lk_pc s)(p := (case r of Works \<Rightarrow> Leading i | Errs \<Rightarrow> Broken | Errs_once \<Rightarrow> Late))"
    "lk_holder u = (if r = Works then lk_holder s else (lk_holder s)(i := None))"
    "lk_text u = (if r = Errs then lk_text s else (lk_text s)(i := str_nat p))"
    unfolding assms(4) by (cases r; simp add: write_pid_def path)+
  have used: "lock_used u"
  proof (cases "r = Works")
    case True
    then have "lk_holder u i = Some p" using path(2) unfolding t by simp
    with t(1) show ?thesis by (rule lock_usedI(1))
  next
    case False
    then have "lk_pc u p = Broken \<or> lk_pc u p = Late" unfolding t by (simp split: call_end.split)
    then show ?thesis using lock_usedI(2,3)[of u p] by auto
  qed
  show "pc_ok u q" for q
  proof (cases "q = p")
    case True
    then show ?thesis using path(2) by (cases r) (simp_all add: pc_ok_def t)
  next
    case False
    show ?thesis
      by (rule pc_ok_frame[OF inv(1)]) (use False used path assms(2,3) in \<open>auto simp: t\<close>)
  qed
  show "lk_alive u q \<and> (lk_pc u q = Writing j \<or> lk_pc u q = Leading j)" if "lk_path u = Some j" "lk_holder u j = Some q" for j q
    using that inv(2)[of j q] path assms(2) by (cases "r = Works") (auto simp: t split: if_splits)
  show "lk_alive u n \<and> recorded (lk_pc u n)" if "lk_path u = Some j" "stored_pid (lk_text u j) = Some n" for j n
    using that inv(3)[of j n] path assms(2,3)
    by (cases "n = p") (auto simp: t split: if_splits call_end.splits)
qed

lemma open_lock_inv:
  assumes "lock_inv s" "lk_pc s p = Opening"
  shows "lock_inv (open_lock p s)"
proof (rule lock_invI)
  note inv = lock_invD[OF assms(1)]
  let ?t = "open_lock p s"
  define i where "i = (case lk_path s of None \<Rightarrow> lk_next s | Some i \<Rightarrow> i)"
  have t: "lk_path ?t = Some i" "lk_alive ?t = lk_alive s" "lk_pc ?t = (lk_pc s)(p := Locking i)" "lk_text ?t = (lk_text s)(i := [])"
    "lk_holder ?t = (if lk_path s = None then (lk_holder s)(i := None) else lk_holder s)"
    by (auto simp: open_lock_def i_def split: option.split)
  have u: "lock_used ?t" if "lock_used s"
    by (rule lock_used_frame[OF that]) (use assms(2) in \<open>auto simp: t i_def\<close>)
  show "pc_ok ?t q" for q
  proof (cases "q = p")
    case True
    then show ?thesis by (simp add: pc_ok_def t)
  next
    case False
    show ?thesis
      by (rule pc_ok_frame[OF inv(1)]) (use False u assms(2) in \<open>auto simp: t i_def\<close>)
  qed
  show "lk_alive ?t q \<and> (lk_pc ?t q = Writing j \<or> lk_pc ?t q = Leading j)" if "lk_path ?t = Some j" "lk_holder ?t j = Some q" for j q
    using that inv(2)[of j q] assms(2) by (auto simp: t i_def split: if_splits)
  show "lk_alive ?t n \<and> recorded (lk_pc ?t n)" if "lk_path ?t = Some j" "stored_pid (lk_text ?t j) = Some n" for j n
    using that by (simp add: t)
qed

lemma take_lock_inv:
  assumes "lock_inv s" "lk_alive s p" "lk_pc s p = Locking i" "lk_holder s i = None"
  shows "lock_inv (goto_pc p (Writing i) (s\<lparr>lk_holder := (lk_holder s)(i := Some p)\<rparr>))" (is "lock_inv ?t")
proof (rule lock_invI)
  note inv = lock_invD[OF assms(1)]
  have path: "lk_path s = Some i" using inv(1)[of p] assms(3) by (simp add: pc_ok_def)
  have u: "lock_used ?t" by (rule lock_usedI(1)[of _ i p]) (simp_all add: path)
  show "pc_ok ?t q" for q
  proof (cases "q = p")
    case True
    then show ?thesis by (simp add: pc_ok_def path)
  next
    case False
    show ?thesis
      by (rule pc_ok_frame[OF inv(1)]) (use False u assms(3,4) in auto)
  qed
  show "lk_alive ?t q \<and> (lk_pc ?t q = Writing j \<or> lk_pc ?t q = Leading j)" if "lk_path ?t = Some j" "lk_holder ?t j = Some q" for j q
    using that path inv(2)[of j q] assms(2,4) by auto
  show "lk_alive ?t n \<and> recorded (lk_pc ?t n)" if "lk_path ?t = Some j" "stored_pid (lk_text ?t j) = Some n" for j n
    using that inv(3)[of j n] assms(3) by (cases "n = p") auto
qed

lemma acquire_step_inv:
  assumes "lock_inv s" "\<forall>p q. may p q" "lk_alive s p"
  shows "lock_inv (acquire_step may r p s)"
proof -
  have pc: "pc_ok s q" for q using assms(1) by (simp add: lock_inv_def)
  show ?thesis
  proof (cases "lk_pc s p")
    case Begin
    have "lock_inv (goto_pc p (if r = Works then Testing else Failed) s)"
      using assms(1) Begin by (intro goto_inv) (simp_all add: pc_ok_def)
    then show ?thesis by (simp add: acquire_step_def Begin)
  next
    case Opening
    have "lock_inv (goto_pc p Failed s)"
      using assms(1) Opening by (intro goto_inv) (simp_all add: pc_ok_def)
    then show ?thesis using open_lock_inv[OF assms(1) Opening] by (simp add: acquire_step_def Opening)
  next
    case (Locking i)
    have "lk_path s = Some i" using pc[of p] Locking by (simp add: pc_ok_def)
    then have "lock_inv (goto_pc p c s)" if "c = Failed \<or> c = Following \<and> lk_holder s i \<noteq> None" for c
      using assms(1) Locking that by (intro goto_inv) (auto simp: pc_ok_def lock_used_def)
    then show ?thesis
      using take_lock_inv[OF assms(1,3) Locking] by (auto simp: acquire_step_def Locking split: option.split)
  next
    case (Writing i)
    then show ?thesis using write_pid_inv[OF assms(1,3) _ refl] by (simp add: acquire_step_def)
  qed (use assms(1) stale_step_inv[OF assms(1,2), of r p] in \<open>simp_all add: acquire_step_def\<close>)
qed

lemma lock_step_inv: "lock_step may s s' \<Longrightarrow> \<forall>p q. may p q \<Longrightarrow> lock_inv s \<Longrightarrow> lock_inv s'"
proof (induction rule: lock_step.induct)
  case (work s p r)
  then show ?case by (blast intro: acquire_step_inv)
next
  case (quit s p)
  note inv = lock_invD[OF quit(4)]
  have keep: "lk_holder s i \<noteq> Some p" if "lk_path s = Some i" for i
    using inv(2)[OF that, of p] quit(1,2) by auto
  have u: "lock_used (exit_process p s)" if "lock_used s"
    by (rule lock_used_frame[OF that]) (use keep in \<open>auto simp: exit_process_def\<close>)
  have np: "n \<noteq> p" if "recorded (lk_pc s n)" for n using quit(1) that by auto
  show ?case
  proof (rule lock_invI)
    show "pc_ok (exit_process p s) q" for q
      by (rule pc_ok_frame[OF inv(1)]) (use u np keep in \<open>auto simp: exit_process_def\<close>)
  qed (use inv(2,3) np keep in \<open>auto simp: exit_process_def split: if_splits\<close>)
qed

lemma reachable_lock_inv: "lock_reachable may s \<Longrightarrow> \<forall>p q. may p q \<Longrightarrow> lock_inv s"
proof (induction rule: lock_reachable.induct)
  case (start s)
  then show ?case by (auto simp: fresh_start_def lock_inv_def pc_ok_def)
next
  case (step s s')
  then show ?case by (blast intro: lock_step_inv)
qed

lemma run_schedule_reachable: "lock_reachable may s \<Longrightarrow> lock_reachable may (run_schedule may xs s)"
  by (induction xs arbitrary: s) (auto simp: sched_step_def intro: lock_reachable.step lock_step.work)

section \<open>The end of the call\<close>

text \<open>An upper bound for the steps a worker has still to make.\<close>

definition steps_left :: "lock_pc \<Rightarrow> nat" where
  "steps_left c =
     (case c of Begin \<Rightarrow> 8 | Testing \<Rightarrow> 7 | Reading \<Rightarrow> 6 | Killing n \<Rightarrow> 5 | Unlinking \<Rightarrow> 4 | Opening \<Rightarrow> 3
      | Locking i \<Rightarrow> 2 | Writing i \<Rightarrow> 1 | _ \<Rightarrow> 0)"

lemma acquire_step_others: "q \<noteq> p \<Longrightarrow> lk_pc (acquire_step may r p s) q = lk_pc s q"
  by (simp add: lock_defs split: lock_pc.split option.split call_end.split)

lemma acquire_step_alive [simp]: "lk_alive (acquire_step may r p s) = lk_alive s"
  by (simp add: lock_defs split: lock_pc.split option.split call_end.split)

lemma acquire_step_left: "steps_left (lk_pc (acquire_step may r p s) p) \<le> steps_left (lk_pc s p) - 1"
  by (cases "lk_pc s p"; cases r) (auto simp: lock_defs steps_left_def split: option.split)

lemma sched_step_alive [simp]: "lk_alive (sched_step may x s) = lk_alive s"
  by (simp add: sched_step_def)

lemma run_schedule_alive [simp]: "lk_alive (run_schedule may xs s) = lk_alive s"
  by (induction xs arbitrary: s) simp_all

lemma run_schedule_left:
  "lk_alive s p \<Longrightarrow> steps_left (lk_pc (run_schedule may xs s) p) \<le> steps_left (lk_pc s p) - count_list (map fst xs) p"
proof (induction xs arbitrary: s)
  case (Cons x xs)
  have "steps_left (lk_pc (sched_step may x s) p) \<le> steps_left (lk_pc s p) - (if fst x = p then 1 else 0)"
    using Cons.prems acquire_step_left[of may "snd x" p s] by (simp add: sched_step_def acquire_step_others)
  moreover have "steps_left (lk_pc (run_schedule may xs (sched_step may x s)) p)
      \<le> steps_left (lk_pc (sched_step may x s) p) - count_list (map fst xs) p"
    using Cons by simp
  ultimately show ?case by (auto split: if_splits)
qed simp

text \<open>No call of any worker has failed.\<close>

definition no_failure :: "lock_sys \<Rightarrow> bool" where
  "no_failure s \<longleftrightarrow> (\<forall>p. lk_pc s p \<notin> {Failed, Late, Broken, Raised})"

lemma acquire_no_failure:
  assumes "lock_inv s" "no_failure s" "\<forall>p. lk_alive s p \<longrightarrow> p < 2 ^ 31"
  shows "no_failure (acquire_step may Works p s)"
proof -
  have "n < 2 ^ 31" if "lk_pc s p = Killing n" for n
  proof -
    have "pc_ok s p" using assms(1) by (simp add: lock_inv_def)
    then show ?thesis using assms(3) that by (simp add: pc_ok_def)
  qed
  moreover have "lk_pc s p \<notin> {Failed, Late, Broken, Raised}" using assms(2) by (simp add: no_failure_def)
  ultimately have "lk_pc (acquire_step may Works p s) p \<notin> {Failed, Late, Broken, Raised}"
    by (cases "lk_pc s p") (auto simp: lock_defs split: option.split)
  then show ?thesis using assms(2) acquire_step_others[of _ p may Works s] unfolding no_failure_def by metis
qed

lemma schedule_no_failure:
  assumes "lock_inv s" "no_failure s" "\<forall>p. lk_alive s p \<longrightarrow> p < 2 ^ 31" "\<forall>p q. may p q" "\<forall>x \<in> set xs. snd x = Works"
  shows "lock_inv (run_schedule may xs s) \<and> no_failure (run_schedule may xs s)"
  using assms
proof (induction xs arbitrary: s)
  case (Cons x xs)
  have "lock_inv (sched_step may x s)"
    using Cons.prems(1,4) acquire_step_inv[of s may "fst x" "snd x"] by (simp add: sched_step_def)
  moreover have "no_failure (sched_step may x s)"
    using Cons.prems acquire_no_failure[of s may "fst x"] by (simp add: sched_step_def)
  ultimately show ?case
    unfolding run_schedule_simps by (intro Cons.IH) (use Cons.prems(3-5) in auto)
qed simp

section \<open>One leader\<close>



section \<open>Two leaders\<close>

text \<open>The lock file of a worker that is gone, and two new workers.\<close>

definition after_crash :: lock_sys where
  "after_crash =
     \<lparr>lk_path = Some 0, lk_text = (\<lambda>i. ''7''), lk_holder = (\<lambda>i. None), lk_next = 1,
      lk_alive = (\<lambda>p. p = 8 \<or> p = 9), lk_pc = (\<lambda>p. Begin)\<rparr>"

text \<open>
  After a crash of the leader two workers can lead.  Both read the old pid and find the process
  gone; one unlinks the file, creates its own, locks it and writes its pid; then the other unlinks the
  new file, which is not the one it has read, and does the same.
\<close>

theorem two_leaders_after_crash:
  shows "\<exists>schedule. leads (run_schedule (\<lambda>p q. True) schedule after_crash) 8
    \<and> leads (run_schedule (\<lambda>p q. True) schedule after_crash) 9"
proof -
  have "leads (run_schedule (\<lambda>p q. True) (map (\<lambda>p. (p, Works)) [8, 8, 8, 8, 9, 9, 9, 9, 8, 8, 8, 8, 9, 9, 9, 9]) after_crash) 8
    \<and> leads (run_schedule (\<lambda>p q. True) (map (\<lambda>p. (p, Works)) [8, 8, 8, 8, 9, 9, 9, 9, 8, 8, 8, 8, 9, 9, 9, 9]) after_crash) 9"
    by (simp add: after_crash_def lock_defs goto_pc_def leads_def signal_ok_def stored_pid_def strip_def lstrip_def rstrip_def
        all_digits_def nat_of_digits_def digit_val_def char_class_defs code_def)
  then show ?thesis by blast
qed

definition two_users :: lock_sys where
  "two_users =
     \<lparr>lk_path = None, lk_text = (\<lambda>i. []), lk_holder = (\<lambda>i. None), lk_next = 0,
      lk_alive = (\<lambda>p. p = 8 \<or> p = 9), lk_pc = (\<lambda>p. Begin)\<rparr>"

text \<open>A worker of another user takes a live leader for gone: the signal raises \<open>PermissionError\<close>.\<close>

lemma two_leaders_of_two_users:
  "leads (run_schedule (=) (map (\<lambda>p. (p, Works)) [8, 8, 8, 8, 8, 9, 9, 9, 9, 9, 9, 9, 9]) two_users) 8
    \<and> leads (run_schedule (=) (map (\<lambda>p. (p, Works)) [8, 8, 8, 8, 8, 9, 9, 9, 9, 9, 9, 9, 9]) two_users) 9"
  by (simp add: two_users_def lock_defs goto_pc_def leads_def signal_ok_def stored_pid_def strip_def lstrip_def rstrip_def
      all_digits_def nat_of_digits_def digit_val_def char_class_defs code_def str_nat.simps digit_def)

text \<open>Worker 8 wins the lock and cannot write its pid; worker 10 has seen the lock held; worker 9 comes later and leads.\<close>

definition busy_workers :: lock_sys where
  "busy_workers = two_users\<lparr>lk_alive := (\<lambda>p. p = 8 \<or> p = 9 \<or> p = 10)\<rparr>"



end
