(* ===== verification/ApiTokens.thy ===== *)
theory ApiTokens
  imports PyString
begin

text \<open>
  \<^verbatim>\<open>app/api_tokens.py\<close>, the tokens of the machine interfaces, and the permission decision of
  \<^verbatim>\<open>app/api_auth.py\<close>.  The hash and the random part of a token are arguments; the store that cannot be
  read is \<open>None\<close>.
\<close>

section \<open>The table\<close>

record token_row =
  tk_id :: nat
  tk_name :: string
  tk_hash :: string
  tk_scopes :: string
  tk_created_by :: string
  tk_created_at :: string
  tk_last_used :: "string option"
  tk_revoked :: "string option"

definition mk_token :: "string \<times> string \<times> string \<times> string \<times> string \<Rightarrow> nat \<Rightarrow> token_row" where
  "mk_token d i =
     (case d of (name, h, scopes, by_user, now) \<Rightarrow>
        \<lparr>tk_id = i, tk_name = name, tk_hash = h, tk_scopes = scopes, tk_created_by = by_user, tk_created_at = now,
         tk_last_used = None, tk_revoked = None\<rparr>)"

definition generate_token :: "string \<Rightarrow> string" where
  "generate_token hex = ''ss_'' @ hex"

text \<open>The UNIQUE constraint on \<open>token_hash\<close>; \<open>name.strip()\<close> of a missing name raises.\<close>

definition create_token ::
  "(string \<Rightarrow> string) \<Rightarrow> string \<Rightarrow> string \<Rightarrow> string option \<Rightarrow> string option \<Rightarrow> string option \<Rightarrow> token_row table
     \<Rightarrow> token_row table \<times> string res" where
  "create_token h now hex name scopes by_user t =
     (let token = generate_token hex in
      case name of
        None \<Rightarrow> (t, Inl (AttributeError ''NoneType object has no attribute strip''))
      | Some n \<Rightarrow>
          (let stored = (if take 120 (strip n) = [] then ''untitled'' else take 120 (strip n)) in
           if h token \<in> tk_hash ` set (rows t)
           then (t, Inl (IntegrityError ''UNIQUE constraint failed: api_tokens.token_hash''))
           else (fst (insert_row (mk_token (stored, h token, take 512 (strip (or_str scopes [])), or_str by_user ''admin'', now)) t),
                 Inr token)))"

definition revoke_token :: "string \<Rightarrow> int \<Rightarrow> token_row table \<Rightarrow> token_row table \<times> bool" where
  "revoke_token now i t =
     (update_rows (\<lambda>r. int (tk_id r) = i \<and> tk_revoked r = None) (\<lambda>r. r\<lparr>tk_revoked := Some now\<rparr>) t,
      filter (\<lambda>r. int (tk_id r) = i \<and> tk_revoked r = None) (rows t) \<noteq> [])"

record token_view =
  tv_id :: nat
  tv_name :: string
  tv_scopes :: string
  tv_created_by :: string
  tv_created_at :: string
  tv_last_used :: "string option"
  tv_revoked :: "string option"

definition list_tokens :: "token_row table \<Rightarrow> token_view list" where
  "list_tokens t =
     map (\<lambda>r. \<lparr>tv_id = tk_id r, tv_name = tk_name r, tv_scopes = tk_scopes r, tv_created_by = tk_created_by r,
               tv_created_at = tk_created_at r, tv_last_used = tk_last_used r, tv_revoked = tk_revoked r\<rparr>)
       (rev (sort_key tk_id (rows t)))"

section \<open>Scopes\<close>

definition split_scopes :: "string \<Rightarrow> string list" where
  "split_scopes granted = filter (\<lambda>s. s \<noteq> []) (map strip (split_on (CHR '','') granted))"

definition parent_matches :: "string \<Rightarrow> string \<Rightarrow> bool" where
  "parent_matches required s \<longleftrightarrow>
     endswith s ''.*'' \<and>
     (let p = take (length s - 2) s in required = p \<or> startswith required (p @ ''.''))"

definition scope_matches :: "string \<Rightarrow> string \<Rightarrow> bool" where
  "scope_matches granted required \<longleftrightarrow>
     (let scopes = split_scopes granted in
      ''*'' \<in> set scopes \<or> required \<in> set scopes \<or> list_ex (parent_matches required) scopes)"

section \<open>Authentication\<close>

text \<open>The headers \<open>Authorization\<close> and \<open>X-API-Key\<close>.\<close>

definition extract_bearer :: "string option \<Rightarrow> string option \<Rightarrow> string" where
  "extract_bearer auth key =
     (if startswith (lower (or_str auth [])) ''bearer '' then strip (drop 7 (or_str auth []))
      else strip (or_str key []))"

record auth_answer =
  au_ok :: bool
  au_status :: nat
  au_message :: string
  au_row :: "token_row option"

definition denied :: "nat \<Rightarrow> string \<Rightarrow> token_row option \<Rightarrow> auth_answer" where
  "denied status m row = \<lparr>au_ok = False, au_status = status, au_message = m, au_row = row\<rparr>"

definition authenticate ::
  "(string \<Rightarrow> string) \<Rightarrow> string \<Rightarrow> string \<Rightarrow> string option \<Rightarrow> string option \<Rightarrow> token_row table option
     \<Rightarrow> token_row table option \<times> auth_answer" where
  "authenticate h now required auth key st =
     (let token = extract_bearer auth key in
      if token = [] then (st, denied 401 ''Missing API token.'' None)
      else case st of
        None \<Rightarrow> (None, denied 503 ''Token store unavailable.'' None)
      | Some t \<Rightarrow>
          (case find_by tk_hash (h token) (rows t) of
             None \<Rightarrow> (st, denied 401 ''Unknown API token.'' None)
           | Some r \<Rightarrow>
               (if or_str (tk_revoked r) [] \<noteq> [] then (st, denied 401 ''Token has been revoked.'' None)
                else if required \<noteq> [] \<and> \<not> scope_matches (tk_scopes r) required
                then (st, denied 403 (''Token lacks required scope '' @ apos @ required @ apos @ ''.'') (Some r))
                else (Some (update_rows (\<lambda>x. tk_id x = tk_id r) (\<lambda>x. x\<lparr>tk_last_used := Some now\<rparr>) t),
                      \<lparr>au_ok = True, au_status = 200, au_message = [], au_row = Some r\<rparr>))))"

section \<open>Session permissions\<close>

record profile =
  pf_superuser :: bool
  pf_permissions :: "string list"

datatype access = Unauthenticated | Allowed | Forbidden string

text \<open>\<open>permission.rsplit(".", 1)[0]\<close> of a permission with a dot.\<close>

definition perm_parent :: "string \<Rightarrow> string" where
  "perm_parent p = rev (drop 1 (dropWhile (\<lambda>c. c \<noteq> CHR ''.'') (rev p)))"

definition api_permission_required :: "string \<Rightarrow> (nat \<Rightarrow> profile option) \<Rightarrow> nat option \<Rightarrow> access" where
  "api_permission_required permission load user =
     (case user of
        None \<Rightarrow> Unauthenticated
      | Some u \<Rightarrow>
          (if u = 0 then Unauthenticated
           else case load u of
             None \<Rightarrow> Unauthenticated
           | Some p \<Rightarrow>
               (if pf_superuser p then Allowed
                else if permission \<in> set (pf_permissions p) then Allowed
                else if CHR ''.'' \<in> set permission \<and> (perm_parent permission @ ''.*'') \<in> set (pf_permissions p) then Allowed
                else Forbidden permission)))"

section \<open>What a scope grants\<close>

lemma parent_matches_iff:
  "parent_matches required s \<longleftrightarrow> (\<exists>p. s = p @ ''.*'' \<and> (required = p \<or> prefix (p @ ''.'') required))"
proof -
  have "endswith s ''.*'' \<longleftrightarrow> (\<exists>p. s = p @ ''.*'')" by (auto simp: endswith_def suffix_def)
  then show ?thesis by (auto simp: parent_matches_def startswith_def Let_def)
qed

text \<open>
  A token's scope list grants a scope exactly when one of its entries is \<open>*\<close>, the scope itself or a
  wildcard \<open>p.*\<close> over the scope, at any depth; entries are compared without the spaces around them.
\<close>

theorem scope_matches_iff:
  "scope_matches granted required \<longleftrightarrow>
     (\<exists>s \<in> strip ` set (split_on (CHR '','') granted).
        s \<noteq> [] \<and> (s = ''*'' \<or> s = required \<or> (\<exists>p. s = p @ ''.*'' \<and> (required = p \<or> prefix (p @ ''.'') required))))"
proof -
  have "scope_matches granted required \<longleftrightarrow>
      (\<exists>s \<in> set (split_scopes granted). s = ''*'' \<or> s = required \<or> parent_matches required s)"
    unfolding scope_matches_def Let_def list_ex_iff by blast
  moreover have "set (split_scopes granted) = {s \<in> strip ` set (split_on (CHR '','') granted). s \<noteq> []}"
    unfolding split_scopes_def set_filter set_map by (rule refl)
  ultimately show ?thesis unfolding parent_matches_iff by (simp only: mem_Collect_eq bex_simps Bex_def conj_assoc)
qed

lemma authenticate_cases:
  assumes "extract_bearer auth key = tok"
  shows "authenticate h now required auth key st =
     (if tok = [] then (st, denied 401 ''Missing API token.'' None)
      else case st of
        None \<Rightarrow> (None, denied 503 ''Token store unavailable.'' None)
      | Some t \<Rightarrow>
          (case find_by tk_hash (h tok) (rows t) of
             None \<Rightarrow> (st, denied 401 ''Unknown API token.'' None)
           | Some r \<Rightarrow>
               (if or_str (tk_revoked r) [] \<noteq> [] then (st, denied 401 ''Token has been revoked.'' None)
                else if required \<noteq> [] \<and> \<not> scope_matches (tk_scopes r) required
                then (st, denied 403 (''Token lacks required scope '' @ apos @ required @ apos @ ''.'') (Some r))
                else (Some (update_rows (\<lambda>x. tk_id x = tk_id r) (\<lambda>x. x\<lparr>tk_last_used := Some now\<rparr>) t),
                      \<lparr>au_ok = True, au_status = 200, au_message = [], au_row = Some r\<rparr>))))"
  unfolding authenticate_def assms Let_def by (rule refl)

lemma not_ok_denied [simp]: "\<not> au_ok (denied n m r)" by (simp add: denied_def)

definition grants :: "(string \<Rightarrow> string) \<Rightarrow> string \<Rightarrow> string \<Rightarrow> token_row table \<Rightarrow> token_row \<Rightarrow> bool" where
  "grants h required tok t r \<longleftrightarrow>
     find_by tk_hash (h tok) (rows t) = Some r \<and> or_str (tk_revoked r) [] = []
       \<and> (required = [] \<or> scope_matches (tk_scopes r) required)"

text \<open>
  \<open>authenticate\<close> answers with success exactly for a token in the table whose row is not revoked and
  whose scopes grant the required one, and the only thing it changes is the time of last use of rows with
  that id.
\<close>

theorem authenticate_sound_complete:
  "(let tok = extract_bearer auth key; (st', answer) = authenticate h now required auth key st in
    (au_ok answer \<longleftrightarrow> tok \<noteq> [] \<and> (\<exists>t r. st = Some t \<and> grants h required tok t r)) \<and>
    st' = (if au_ok answer
           then map_option (update_rows (\<lambda>x. tk_id x = tk_id (the (au_row answer))) (\<lambda>x. x\<lparr>tk_last_used := Some now\<rparr>)) st
           else st))"
proof -
  obtain tok where tok: "extract_bearer auth key = tok" by blast
  show ?thesis
  proof (cases st)
    case None
    then show ?thesis by (simp add: authenticate_cases[OF tok] tok)
  next
    case (Some t)
    show ?thesis
    proof (cases "find_by tk_hash (h tok) (rows t)")
      case None
      then show ?thesis by (simp add: authenticate_cases[OF tok] tok Some grants_def)
    next
      case found: (Some r)
      then show ?thesis by (simp add: authenticate_cases[OF tok] tok Some grants_def)
    qed
  qed
qed

section \<open>Revocation\<close>

interpretation token_table: pk_table tk_id mk_token
  by unfold_locales (auto simp: mk_token_def)

text \<open>The operations on the table, with any arguments.\<close>

inductive token_step :: "(string \<Rightarrow> string) \<Rightarrow> token_row table \<Rightarrow> token_row table \<Rightarrow> bool" for h where
  create: "token_step h t (fst (create_token h now hex name scopes by_user t))"
| revoke: "token_step h t (fst (revoke_token now i t))"
| use: "fst (authenticate h now required auth key (Some t)) = Some t' \<Longrightarrow> token_step h t t'"

inductive_cases token_stepE: "token_step h t t'"

definition tokens_ok :: "token_row table \<Rightarrow> bool" where
  "tokens_ok t \<longleftrightarrow> token_table.pk_ok t \<and> distinct (map tk_hash (rows t))"

lemma update_token_ok:
  assumes "tokens_ok t" "\<And>r. tk_id (f r) = tk_id r" "\<And>r. tk_hash (f r) = tk_hash r"
  shows "tokens_ok (update_rows P f t)"
  using assms by (simp add: tokens_ok_def token_table.pk_ok_update map_update_where)

lemma token_step_ok: "token_step h t t' \<Longrightarrow> tokens_ok t \<Longrightarrow> tokens_ok t'"
proof (induction rule: token_step.induct)
  case (create t now hex name scopes by_user)
  then show ?case
    by (auto simp: create_token_def Let_def tokens_ok_def token_table.pk_ok_insert mk_token_def split: option.split)
next
  case (revoke t now i)
  then show ?case by (simp add: revoke_token_def update_token_ok)
next
  case (use now required auth key t t')
  then show ?case
    by (auto simp: authenticate_def Let_def update_token_ok split: if_splits option.splits)
qed

definition revoked_hash :: "string \<Rightarrow> token_row table \<Rightarrow> bool" where
  "revoked_hash x t \<longleftrightarrow> (\<exists>r \<in> set (rows t). tk_hash r = x \<and> or_str (tk_revoked r) [] \<noteq> [])"

lemma revoked_update:
  assumes "revoked_hash x t" "\<And>r. tk_hash (f r) = tk_hash r"
    and "\<And>r. P r \<Longrightarrow> or_str (tk_revoked r) [] \<noteq> [] \<Longrightarrow> or_str (tk_revoked (f r)) [] \<noteq> []"
  shows "revoked_hash x (update_rows P f t)"
proof -
  obtain r where r: "r \<in> set (rows t)" "tk_hash r = x" "or_str (tk_revoked r) [] \<noteq> []"
    using assms(1) unfolding revoked_hash_def by blast
  define r' where "r' = (if P r then f r else r)"
  have "r' \<in> set (rows (update_rows P f t))" using r(1) by (auto simp: r'_def in_set_update_where)
  moreover have "tk_hash r' = x" "or_str (tk_revoked r') [] \<noteq> []"
    using assms(2,3) r(2,3) by (simp_all add: r'_def)
  ultimately show ?thesis unfolding revoked_hash_def by blast
qed

lemma token_step_revoked: "token_step h t t' \<Longrightarrow> revoked_hash x t \<Longrightarrow> revoked_hash x t'"
proof (induction rule: token_step.induct)
  case (create t now hex name scopes by_user)
  then show ?case by (auto simp: create_token_def Let_def revoked_hash_def split: option.splits)
next
  case (revoke t now i)
  then show ?case unfolding revoke_token_def fst_conv by (rule revoked_update) auto
next
  case (use now required auth key t t')
  have "revoked_hash x (update_rows P (\<lambda>x. x\<lparr>tk_last_used := Some now\<rparr>) t)" for P
    using use(2) by (rule revoked_update) simp_all
  with use show ?case by (auto simp: authenticate_def Let_def split: if_splits option.splits)
qed

lemma token_steps:
  assumes "(token_step h)\<^sup>*\<^sup>* t t'"
  shows "tokens_ok t \<Longrightarrow> tokens_ok t'" "revoked_hash x t \<Longrightarrow> revoked_hash x t'"
  using assms by (induction rule: rtranclp_induct) (auto intro: token_step_ok token_step_revoked)

text \<open>
  C30: revocation is final.  Once a token has been revoked, no later sequence of operations on the table,
  the creation of any other tokens included, lets a request with that token in, whatever scope it asks for.
\<close>

theorem revoked_token_stays_out:
  assumes "tokens_ok t" "r \<in> set (rows t)" "tk_hash r = h (extract_bearer auth key)" "now \<noteq> []" "tk_revoked r \<noteq> Some []"
    and "(token_step h)\<^sup>*\<^sup>* (fst (revoke_token now (int (tk_id r)) t)) t'"
  shows "\<not> au_ok (snd (authenticate h later required auth key (Some t')))"
proof -
  let ?t = "fst (revoke_token now (int (tk_id r)) t)"
  have ok: "tokens_ok ?t" using assms(1) by (simp add: revoke_token_def update_token_ok)
  have "revoked_hash (tk_hash r) ?t"
  proof -
    define r' where "r' = (if tk_revoked r = None then r\<lparr>tk_revoked := Some now\<rparr> else r)"
    have "r' \<in> set (rows ?t)"
      using assms(2) by (cases "tk_revoked r") (auto simp: revoke_token_def in_set_update_where r'_def intro!: bexI[of _ r])
    moreover have "tk_hash r' = tk_hash r" "or_str (tk_revoked r') [] \<noteq> []"
      using assms(4,5) by (cases "tk_revoked r"; simp add: r'_def)+
    ultimately show ?thesis unfolding revoked_hash_def by blast
  qed
  then have rev: "revoked_hash (tk_hash r) t'" and ok': "tokens_ok t'"
    using token_steps[OF assms(6)] ok by blast+
  then obtain q where q: "q \<in> set (rows t')" "tk_hash q = tk_hash r" "or_str (tk_revoked q) [] \<noteq> []"
    unfolding revoked_hash_def by blast
  then have "find_by tk_hash (tk_hash r) (rows t') = Some q"
    using ok' by (simp add: tokens_ok_def find_by_distinct)
  with q assms(3) have "find_by tk_hash (h (extract_bearer auth key)) (rows t') = Some q" by simp
  with q(3) show ?thesis by (simp add: authenticate_def denied_def Let_def)
qed

definition one_token :: "token_row table" where
  "one_token = fst (create_token (\<lambda>x. x) ''t0'' ''ab'' (Some ''ci'') (Some ''*'') None \<lparr>rows = [], seq = 0\<rparr>)"

lemma one_token_rows:
  "one_token = \<lparr>rows = [\<lparr>tk_id = 1, tk_name = ''ci'', tk_hash = ''ss_ab'', tk_scopes = ''*'', tk_created_by = ''admin'',
       tk_created_at = ''t0'', tk_last_used = None, tk_revoked = None\<rparr>], seq = 1\<rparr>"
  by (simp add: one_token_def create_token_def generate_token_def insert_row_def mk_token_def Let_def strip_def lstrip_def char_class_defs
       rstrip_def)

lemma revoked_token_stays_out_witness:
  "\<not> au_ok (snd (authenticate (\<lambda>x. x) ''t2'' ''logs'' (Some ''Bearer ss_ab'') None
       (Some (fst (revoke_token ''t1'' 1 one_token)))))"
proof -
  have b: "extract_bearer (Some ''Bearer ss_ab'') None = ''ss_ab''"
    by (simp add: extract_bearer_def startswith_def lower_def to_lower_def strip_def lstrip_def rstrip_def char_class_defs char_of_def bit_0)
  show ?thesis
    using revoked_token_stays_out[of one_token "hd (rows one_token)" "\<lambda>x. x" "Some ''Bearer ss_ab''" None "''t1''"
        "fst (revoke_token ''t1'' 1 one_token)" "''t2''" "''logs''"]
    by (simp add: b one_token_rows tokens_ok_def token_table.pk_ok_def)
qed

end
