(* ===== verification/ApplyState.thy ===== *)
theory ApplyState
  imports PyValue
begin

text \<open>
  \<^verbatim>\<open>app/services/apply_state.py\<close>: one job per save or apply of a feature in the table
  \<open>config_apply_jobs\<close>, and the summary row per feature in \<open>feature_applied_state\<close> the
  interface reads.  The times of one call are one reading of the clock, \<open>now\<close>; the audit
  events \<open>record_apply_result\<close> sends to \<open>log_event\<close> are collected in the state.
\<close>

section \<open>The result shape of the writers\<close>

record apply_result =
  res_ok :: bool
  res_component :: string
  res_action :: string
  res_message :: string
  res_validation_output :: "pyval option"
  res_rollback_performed :: bool
  res_details :: "(string \<times> pyval) list"

definition known_keys :: "string list" where
  "known_keys = [''ok'', ''message'', ''conf'', ''validation_output'', ''rolled_back'',
                 ''rollback_performed'']"

definition truthy_entry :: "(string \<times> pyval) list \<Rightarrow> string \<Rightarrow> bool" where
  "truthy_entry d k = (case map_of d k of None \<Rightarrow> False | Some v \<Rightarrow> py_bool_of v)"

definition from_legacy :: "string \<Rightarrow> pyval \<Rightarrow> string \<Rightarrow> apply_result" where
  "from_legacy component payload action =
     (case payload of
        PDict d \<Rightarrow>
          \<lparr>res_ok = truthy_entry d ''ok'', res_component = component, res_action = action,
           res_message = (case map_of d ''message'' of None \<Rightarrow> [] | Some v \<Rightarrow> py_str_of v),
           res_validation_output = map_of d ''validation_output'',
           res_rollback_performed =
             (truthy_entry d ''rolled_back'' \<or> truthy_entry d ''rollback_performed''),
           res_details = filter (\<lambda>(k, v). k \<notin> set known_keys) d\<rparr>
      | _ \<Rightarrow>
          \<lparr>res_ok = False, res_component = component, res_action = action,
           res_message = ''non-dict result: '' @ repr_val payload, res_validation_output = None,
           res_rollback_performed = False, res_details = []\<rparr>)"

section \<open>States\<close>

datatype apply_st =
    Saved | Pending | Applying | Applied | Failed | RolledBack | DryRun | Unsupported

fun state_str :: "apply_st \<Rightarrow> string" where
  "state_str Saved = ''saved''"
| "state_str Pending = ''pending''"
| "state_str Applying = ''applying''"
| "state_str Applied = ''applied''"
| "state_str Failed = ''failed''"
| "state_str RolledBack = ''rolled_back''"
| "state_str DryRun = ''dry-run''"
| "state_str Unsupported = ''unsupported''"

fun state_color :: "apply_st \<Rightarrow> string" where
  "state_color Saved = ''blue''"
| "state_color Pending = ''yellow''"
| "state_color Applying = ''yellow''"
| "state_color Applied = ''green''"
| "state_color Failed = ''red''"
| "state_color RolledBack = ''orange''"
| "state_color DryRun = ''gray''"
| "state_color Unsupported = ''gray''"

fun state_label :: "apply_st \<Rightarrow> string" where
  "state_label Saved = ''Saved''"
| "state_label Pending = ''Pending Apply''"
| "state_label Applying = ''Applying'' @ ellipsis"
| "state_label Applied = ''Applied''"
| "state_label Failed = ''Failed''"
| "state_label RolledBack = ''Rolled Back''"
| "state_label DryRun = ''Dry-Run''"
| "state_label Unsupported = ''Unsupported''"

section \<open>Tables\<close>

record job =
  jb_id :: nat
  jb_feature :: string
  jb_state :: apply_st
  jb_hash :: string
  jb_applied_by :: string
  jb_notes :: string
  jb_message :: string
  jb_created :: int
  jb_updated :: int

record feature_row =
  fs_feature :: string
  fs_state :: apply_st
  fs_message :: string
  fs_last_job :: "nat option"
  fs_updated :: int

record audit_event =
  ev_action :: string
  ev_severity :: string
  ev_username :: string
  ev_feature :: string
  ev_job :: nat
  ev_state :: string
  ev_message :: string

record apply_db =
  jobs :: "job table"
  features :: "feature_row list"
  audit :: "audit_event list"

definition empty_apply_db :: apply_db where
  "empty_apply_db = \<lparr>jobs = empty_table, features = [], audit = []\<rparr>"

text \<open>The columns of a new job besides the id.\<close>

record job_draft =
  jd_feature :: string
  jd_state :: apply_st
  jd_hash :: string
  jd_applied_by :: string
  jd_notes :: string
  jd_now :: int

definition mk_job :: "job_draft \<Rightarrow> nat \<Rightarrow> job" where
  "mk_job d i =
     \<lparr>jb_id = i, jb_feature = jd_feature d, jb_state = jd_state d, jb_hash = jd_hash d,
      jb_applied_by = jd_applied_by d, jb_notes = jd_notes d, jb_message = [],
      jb_created = jd_now d, jb_updated = jd_now d\<rparr>"

interpretation job_table: pk_table jb_id mk_job
  by unfold_locales (simp add: mk_job_def)

section \<open>Writes\<close>

definition update_feature_summary ::
  "string \<Rightarrow> apply_st \<Rightarrow> string \<Rightarrow> nat option \<Rightarrow> int \<Rightarrow> apply_db \<Rightarrow> apply_db" where
  "update_feature_summary key st msg job now db =
     db\<lparr>features := replace_row fs_feature
          \<lparr>fs_feature = key, fs_state = st, fs_message = msg, fs_last_job = job, fs_updated = now\<rparr>
          (features db)\<rparr>"

text \<open>The insert into \<open>config_apply_jobs\<close> with the summary update, common to the writers.\<close>

definition insert_job :: "job_draft \<Rightarrow> string \<Rightarrow> apply_db \<Rightarrow> apply_db \<times> nat" where
  "insert_job d msg db =
     (let (t, i) = insert_row (mk_job d) (jobs db) in
      (update_feature_summary (jd_feature d) (jd_state d) msg (Some i) (jd_now d) (db\<lparr>jobs := t\<rparr>), i))"

definition record_save ::
  "string \<Rightarrow> string \<Rightarrow> string \<Rightarrow> string \<Rightarrow> int \<Rightarrow> apply_db \<Rightarrow> apply_db \<times> nat" where
  "record_save key hash by notes now db =
     insert_job \<lparr>jd_feature = key, jd_state = Saved, jd_hash = hash, jd_applied_by = by,
                 jd_notes = notes, jd_now = now\<rparr>
       (''Saved '' @ em_dash @ '' not yet applied'') db"

definition record_apply_start ::
  "string \<Rightarrow> string \<Rightarrow> string \<Rightarrow> string \<Rightarrow> int \<Rightarrow> apply_db \<Rightarrow> apply_db \<times> nat" where
  "record_apply_start key hash by notes now db =
     insert_job \<lparr>jd_feature = key, jd_state = Applying, jd_hash = hash, jd_applied_by = by,
                 jd_notes = notes, jd_now = now\<rparr>
       (''Apply in progress'' @ ellipsis) db"

definition result_state :: "bool \<Rightarrow> bool option \<Rightarrow> apply_st" where
  "result_state ok rollback_ok =
     (if ok then Applied else if rollback_ok = Some True then RolledBack else Failed)"

definition record_apply_result ::
  "nat \<Rightarrow> bool \<Rightarrow> string \<Rightarrow> bool option \<Rightarrow> int \<Rightarrow> apply_db \<Rightarrow> apply_db" where
  "record_apply_result job ok msg rollback_ok now db =
     (let st = result_state ok rollback_ok;
          db1 = db\<lparr>jobs := update_rows (\<lambda>j. jb_id j = job)
                  (\<lambda>j. j\<lparr>jb_state := st, jb_message := msg, jb_updated := now\<rparr>) (jobs db)\<rparr>;
          row = find_by jb_id job (rows (jobs db1));
          db2 = (case row of
                   None \<Rightarrow> db1
                 | Some j \<Rightarrow> update_feature_summary (jb_feature j) st msg (Some job) now db1)
      in if ok then db2
         else db2\<lparr>audit := audit db2 @
           [\<lparr>ev_action = ''config_apply_failed'', ev_severity = ''high'', ev_username = ''system'',
             ev_feature = (case row of None \<Rightarrow> [] | Some j \<Rightarrow> jb_feature j), ev_job = job,
             ev_state = state_str st, ev_message = take 500 msg\<rparr>]\<rparr>)"

text \<open>\<open>sha16\<close> stands for the first 16 digits of \<open>hashlib.sha256\<close>.\<close>

definition record_dry_run ::
  "(string \<Rightarrow> string) \<Rightarrow> string \<Rightarrow> string \<Rightarrow> string \<Rightarrow> int \<Rightarrow> apply_db \<Rightarrow> apply_db \<times> nat" where
  "record_dry_run sha16 key preview by now db =
     insert_job \<lparr>jd_feature = key, jd_state = DryRun,
                 jd_hash = (if preview \<noteq> [] then sha16 preview else []), jd_applied_by = by,
                 jd_notes = ''dry-run: config generated, not applied'', jd_now = now\<rparr>
       (''Dry-run '' @ em_dash @ '' config generated but not applied to OS'') db"

definition record_unsupported :: "string \<Rightarrow> string \<Rightarrow> int \<Rightarrow> apply_db \<Rightarrow> apply_db" where
  "record_unsupported key reason now db =
     update_feature_summary key Unsupported
       (if reason = [] then ''Not supported on this platform'' else reason) None now db"

section \<open>Reads\<close>

record feature_view =
  fv_feature :: string
  fv_state :: apply_st
  fv_message :: string
  fv_updated :: int
  fv_hash :: "string option"
  fv_applied_by :: "string option"
  fv_notes :: "string option"
  fv_color :: string
  fv_label :: string

text \<open>The \<open>LEFT JOIN\<close> of a summary row with its last job, with the badge columns.\<close>

definition feature_view_of :: "apply_db \<Rightarrow> feature_row \<Rightarrow> feature_view" where
  "feature_view_of db fs =
     (let j = (case fs_last_job fs of
                 None \<Rightarrow> None | Some i \<Rightarrow> find_by jb_id i (rows (jobs db)))
      in \<lparr>fv_feature = fs_feature fs, fv_state = fs_state fs, fv_message = fs_message fs,
          fv_updated = fs_updated fs, fv_hash = map_option jb_hash j,
          fv_applied_by = map_option jb_applied_by j, fv_notes = map_option jb_notes j,
          fv_color = state_color (fs_state fs), fv_label = state_label (fs_state fs)\<rparr>)"

definition get_feature_state :: "apply_db \<Rightarrow> string \<Rightarrow> feature_view option" where
  "get_feature_state db key =
     map_option (feature_view_of db) (find_by fs_feature key (features db))"

text \<open>The list query does not select the notes.\<close>

definition get_all_feature_states :: "apply_db \<Rightarrow> (string \<times> feature_view) list" where
  "get_all_feature_states db =
     map (\<lambda>fs. (fs_feature fs, (feature_view_of db fs)\<lparr>fv_notes := None\<rparr>)) (features db)"

definition get_recent_jobs :: "apply_db \<Rightarrow> string \<Rightarrow> int \<Rightarrow> (job \<times> string \<times> string) list" where
  "get_recent_jobs db key limit =
     (let js = (if key \<noteq> [] then filter (\<lambda>j. jb_feature j = key) (rows (jobs db)) else rows (jobs db))
      in map (\<lambda>j. (j, state_color (jb_state j), state_label (jb_state j)))
           (sql_limit limit (sort_key (\<lambda>j. - jb_created j) js)))"

definition has_pending_changes :: "apply_db \<Rightarrow> string \<Rightarrow> bool" where
  "has_pending_changes db key =
     (case find_by fs_feature key (features db) of
        None \<Rightarrow> False | Some fs \<Rightarrow> fs_state fs = Saved)"

definition get_pending_features :: "apply_db \<Rightarrow> string list" where
  "get_pending_features db = map fs_feature (filter (\<lambda>fs. fs_state fs = Saved) (features db))"

section \<open>The summary agrees with the jobs\<close>

definition summary_row_ok :: "job list \<Rightarrow> feature_row \<Rightarrow> bool" where
  "summary_row_ok js fs \<longleftrightarrow>
     (case fs_last_job fs of
        None \<Rightarrow> fs_state fs = Unsupported
      | Some i \<Rightarrow> list_ex (\<lambda>j. jb_id j = i \<and> jb_feature j = fs_feature fs \<and> jb_state j = fs_state fs) js)"

definition summary_ok :: "apply_db \<Rightarrow> bool" where
  "summary_ok db \<longleftrightarrow>
     job_table.pk_ok (jobs db) \<and> distinct (map fs_feature (features db))
     \<and> list_all (summary_row_ok (rows (jobs db))) (features db)"

lemma summary_ok_empty: "summary_ok empty_apply_db"
  by (simp add: summary_ok_def empty_apply_db_def job_table.pk_ok_empty)

lemma update_feature_summary_simps [simp]:
  "jobs (update_feature_summary key st msg job now db) = jobs db"
  "audit (update_feature_summary key st msg job now db) = audit db"
  "find_by fs_feature k (features (update_feature_summary key st msg job now db)) =
     (if k = key
      then Some \<lparr>fs_feature = key, fs_state = st, fs_message = msg, fs_last_job = job, fs_updated = now\<rparr>
      else find_by fs_feature k (features db))"
  by (simp_all add: update_feature_summary_def)

lemma summary_ok_update_feature:
  assumes "summary_ok db"
    and "summary_row_ok (rows (jobs db))
           \<lparr>fs_feature = key, fs_state = st, fs_message = msg, fs_last_job = job, fs_updated = now\<rparr>"
  shows "summary_ok (update_feature_summary key st msg job now db)"
  using assms
  by (auto simp: summary_ok_def update_feature_summary_def list_all_iff intro: distinct_replace_row)

lemma summary_row_ok_mono:
  "summary_row_ok js fs \<Longrightarrow> summary_row_ok (js @ js') fs"
  by (auto simp: summary_row_ok_def split: option.splits)

lemma summary_ok_insert_job [inv_intros]:
  assumes "summary_ok db"
  shows "summary_ok (fst (insert_job d msg db))"
proof -
  let ?db = "db\<lparr>jobs := fst (insert_row (mk_job d) (jobs db))\<rparr>"
  have "summary_ok ?db"
    using assms by (auto simp: summary_ok_def job_table.pk_ok_insert list_all_iff summary_row_ok_mono)
  then have "summary_ok (update_feature_summary (jd_feature d) (jd_state d) msg
      (Some (Suc (seq (jobs db)))) (jd_now d) ?db)"
    by (rule summary_ok_update_feature) (simp add: summary_row_ok_def mk_job_def)
  then show ?thesis by (simp add: insert_job_def insert_row_def Let_def)
qed

lemma summary_ok_audit [simp]: "summary_ok (db\<lparr>audit := a\<rparr>) = summary_ok db"
  by (simp add: summary_ok_def)

lemma jobs_after_result:
  "jobs (record_apply_result job ok msg rb now db) =
     update_rows (\<lambda>j. jb_id j = job)
       (\<lambda>j. j\<lparr>jb_state := result_state ok rb, jb_message := msg, jb_updated := now\<rparr>) (jobs db)"
  by (simp add: record_apply_result_def Let_def split: option.split)

lemma features_after_result:
  "features (record_apply_result job ok msg rb now db) =
     (case find_by jb_id job (rows (jobs db)) of
        None \<Rightarrow> features db
      | Some j \<Rightarrow> replace_row fs_feature
          \<lparr>fs_feature = jb_feature j, fs_state = result_state ok rb, fs_message = msg,
           fs_last_job = Some job, fs_updated = now\<rparr> (features db))"
proof -
  define st where "st = result_state ok rb"
  have "find_by jb_id job (update_where (\<lambda>j. jb_id j = job)
          (\<lambda>j. j\<lparr>jb_state := st, jb_message := msg, jb_updated := now\<rparr>) (rows (jobs db)))
      = map_option (\<lambda>j. j\<lparr>jb_state := st, jb_message := msg, jb_updated := now\<rparr>)
          (find_by jb_id job (rows (jobs db)))"
    by (rule find_by_update) simp
  then show ?thesis
    unfolding record_apply_result_def st_def[symmetric] Let_def
    by (simp add: update_feature_summary_def split: option.split)
qed

lemma summary_ok_result [inv_intros]:
  assumes ok: "summary_ok db"
  shows "summary_ok (record_apply_result job ok msg rb now db)"
proof -
  let ?st = "result_state ok rb"
  let ?upd = "\<lambda>j. j\<lparr>jb_state := ?st, jb_message := msg, jb_updated := now\<rparr>"
  let ?js = "update_where (\<lambda>j. jb_id j = job) ?upd (rows (jobs db))"
  let ?db1 = "db\<lparr>jobs := update_rows (\<lambda>j. jb_id j = job) ?upd (jobs db)\<rparr>"
  have pk: "job_table.pk_ok (jobs ?db1)"
    using ok by (auto simp: summary_ok_def intro!: job_table.pk_ok_update)
  have keep: "summary_row_ok ?js fs"
    if "fs \<in> set (features db)" "\<forall>j. find_by jb_id job (rows (jobs db)) = Some j \<longrightarrow> jb_feature j \<noteq> fs_feature fs"
    for fs
  proof (cases "fs_last_job fs")
    case (Some i)
    with ok that(1) obtain j where j: "j \<in> set (rows (jobs db))" "jb_id j = i"
      "jb_feature j = fs_feature fs" "jb_state j = fs_state fs"
      by (fastforce simp: summary_ok_def list_all_iff list_ex_iff summary_row_ok_def)
    have "i \<noteq> job" using that(2) j ok by (auto simp: summary_ok_def job_table.find_iff)
    then have "j \<in> set ?js" using j by (auto intro: update_where_frame)
    then show ?thesis using Some j by (auto simp: summary_row_ok_def list_ex_iff)
  qed (use ok that(1) in \<open>auto simp: summary_ok_def list_all_iff summary_row_ok_def\<close>)
  show ?thesis
  proof (cases "find_by jb_id job (rows (jobs db))")
    case None
    then show ?thesis
      using ok pk keep by (simp add: summary_ok_def list_all_iff jobs_after_result features_after_result)
  next
    case (Some j)
    let ?fs = "\<lparr>fs_feature = jb_feature j, fs_state = ?st, fs_message = msg,
                fs_last_job = Some job, fs_updated = now\<rparr>"
    have "?upd j \<in> set ?js" "jb_id (?upd j) = job"
      using find_by_SomeD[OF Some] by (auto simp: in_set_update_where)
    then have "summary_row_ok ?js ?fs" by (auto simp: summary_row_ok_def list_ex_iff intro!: bexI[of _ "?upd j"])
    then show ?thesis
      using ok pk keep Some
      by (auto simp: summary_ok_def jobs_after_result features_after_result list_all_iff
          intro: distinct_replace_row)
  qed
qed

lemma summary_ok_writers [inv_intros]:
  assumes "summary_ok db"
  shows "summary_ok (fst (record_save key hash by notes now db))"
    and "summary_ok (fst (record_apply_start key hash by notes now db))"
    and "summary_ok (fst (record_dry_run sha16 key preview by now db))"
    and "summary_ok (record_unsupported key reason now db)"
  using assms
  by (simp_all add: record_save_def record_apply_start_def record_dry_run_def record_unsupported_def
      summary_ok_insert_job summary_ok_update_feature summary_row_ok_def)

section \<open>Histories\<close>

text \<open>Everything the application does to the two tables, in any order.\<close>

inductive apply_step :: "apply_db \<Rightarrow> apply_db \<Rightarrow> bool" where
  step_save: "apply_step db (fst (record_save key hash by notes now db))"
| step_start: "apply_step db (fst (record_apply_start key hash by notes now db))"
| step_result: "apply_step db (record_apply_result job ok msg rb now db)"
| step_dry_run: "apply_step db (fst (record_dry_run sha16 key preview by now db))"
| step_unsupported: "apply_step db (record_unsupported key reason now db)"

inductive apply_history :: "apply_db \<Rightarrow> bool" where
  hist_empty: "apply_history empty_apply_db"
| hist_step: "apply_history db \<Longrightarrow> apply_step db db' \<Longrightarrow> apply_history db'"

inductive_cases apply_stepE: "apply_step db db'"

lemma summary_ok_step: "apply_step db db' \<Longrightarrow> summary_ok db \<Longrightarrow> summary_ok db'"
  by (elim apply_stepE) (auto intro: inv_intros)

lemma summary_ok_history: "apply_history db \<Longrightarrow> summary_ok db"
  by (induction rule: apply_history.induct) (auto intro: summary_ok_empty summary_ok_step)

section \<open>What a read sees after a write\<close>

lemma insert_job_fst:
  "fst (insert_job d msg db) =
     update_feature_summary (jd_feature d) (jd_state d) msg (Some (Suc (seq (jobs db)))) (jd_now d)
       (db\<lparr>jobs := fst (insert_row (mk_job d) (jobs db))\<rparr>)"
  by (simp add: insert_job_def insert_row_def Let_def)

lemma snd_insert_job [simp]: "snd (insert_job d msg db) = Suc (seq (jobs db))"
  by (simp add: insert_job_def insert_row_def Let_def)

lemma feature_after_insert:
  "find_by fs_feature k (features (fst (insert_job d msg db))) =
     (if k = jd_feature d
      then Some \<lparr>fs_feature = k, fs_state = jd_state d, fs_message = msg,
                 fs_last_job = Some (Suc (seq (jobs db))), fs_updated = jd_now d\<rparr>
      else find_by fs_feature k (features db))"
  by (simp add: insert_job_fst)

lemma jobs_after_insert [simp]:
  "jobs (fst (insert_job d msg db)) = fst (insert_row (mk_job d) (jobs db))"
  by (simp add: insert_job_fst)

lemma feature_after_result:
  "find_by fs_feature k (features (record_apply_result job ok msg rb now db)) =
     (case find_by jb_id job (rows (jobs db)) of
        None \<Rightarrow> find_by fs_feature k (features db)
      | Some j \<Rightarrow>
          if k = jb_feature j
          then Some \<lparr>fs_feature = k, fs_state = result_state ok rb, fs_message = msg,
                     fs_last_job = Some job, fs_updated = now\<rparr>
          else find_by fs_feature k (features db))"
  by (simp add: features_after_result split: option.split)


section \<open>Properties\<close>

text \<open>
  Whatever is recorded, every feature has one summary row, and a summary row that names a
  job shows the state of an existing job of that feature.
\<close>

theorem summary_shows_job:
  assumes "apply_history db"
  shows "distinct (map fs_feature (features db))
     \<and> (\<forall>fs \<in> set (features db). \<forall>i. fs_last_job fs = Some i \<longrightarrow>
          (\<exists>j \<in> set (rows (jobs db)). jb_id j = i \<and> jb_feature j = fs_feature fs \<and> jb_state j = fs_state fs))"
  using summary_ok_history[OF assms]
  by (fastforce simp: summary_ok_def list_all_iff list_ex_iff summary_row_ok_def)

lemma summary_shows_job_witness:
  "distinct (map fs_feature (features (fst (record_save ''dns'' ''h1'' ''alice'' [] 10 empty_apply_db))))"
  using summary_shows_job[OF hist_step[OF hist_empty step_save]] by blast

text \<open>
  The result of a job that was started is what the feature shows: its state, its message,
  and the hash and user of the start.
\<close>

theorem start_then_result:
  assumes "summary_ok db" "record_apply_start key hash by notes now db = (db1, i)"
  shows "get_feature_state (record_apply_result i ok msg rb later db1) key =
     Some \<lparr>fv_feature = key, fv_state = result_state ok rb, fv_message = msg, fv_updated = later,
           fv_hash = Some hash, fv_applied_by = Some by, fv_notes = Some notes,
           fv_color = state_color (result_state ok rb), fv_label = state_label (result_state ok rb)\<rparr>"
proof -
  let ?d = "\<lparr>jd_feature = key, jd_state = Applying, jd_hash = hash, jd_applied_by = by, jd_notes = notes, jd_now = now\<rparr>"
  have db1: "db1 = fst (insert_job ?d (''Apply in progress'' @ ellipsis) db)" and i: "i = Suc (seq (jobs db))"
    using arg_cong[OF assms(2), of fst] arg_cong[OF assms(2), of snd] by (simp_all add: record_apply_start_def)
  have f: "find_by jb_id i (rows (jobs db1)) = Some (mk_job ?d i)"
    using job_table.find_insert[of "jobs db" ?d] assms(1) by (simp add: db1 i summary_ok_def)
  have u: "find_by jb_id i (rows (jobs (record_apply_result i ok msg rb later db1)))
      = Some ((mk_job ?d i)\<lparr>jb_state := result_state ok rb, jb_message := msg, jb_updated := later\<rparr>)"
    by (simp add: jobs_after_result find_by_update f)
  have "find_by fs_feature key (features (record_apply_result i ok msg rb later db1))
      = Some \<lparr>fs_feature = key, fs_state = result_state ok rb, fs_message = msg, fs_last_job = Some i, fs_updated = later\<rparr>"
    by (simp add: feature_after_result f mk_job_def)
  then show ?thesis using u by (simp add: get_feature_state_def feature_view_of_def Let_def mk_job_def)
qed

lemma start_then_result_witness:
  "\<exists>v. get_feature_state (record_apply_result 1 False ''bad'' (Some True) 11
       (fst (record_apply_start ''dns'' ''h1'' ''alice'' [] 10 empty_apply_db))) ''dns'' = Some v
     \<and> fv_state v = RolledBack \<and> fv_hash v = Some ''h1''"
proof -
  have "record_apply_start ''dns'' ''h1'' ''alice'' [] 10 empty_apply_db
      = (fst (record_apply_start ''dns'' ''h1'' ''alice'' [] 10 empty_apply_db), 1)"
    by (simp add: record_apply_start_def prod_eq_iff empty_apply_db_def)
  from start_then_result[OF summary_ok_empty this, of False "''bad''" "Some True" 11]
  show ?thesis by (simp add: result_state_def)
qed

text \<open>
  A save made while an earlier apply runs is forgotten when that apply reports success: the
  feature shows the earlier job as applied and no pending change, although the job of the save
  is still in state saved.
\<close>

theorem stale_result_hides_save:
  assumes "summary_ok db" "find_by jb_id i (rows (jobs db)) = Some j" "jb_feature j = key"
    and "record_save key hash by notes now db = (db1, s)"
    and "db2 = record_apply_result i True msg rb later db1"
  shows "has_pending_changes db1 key \<and> \<not> has_pending_changes db2 key
     \<and> (\<exists>k. find_by jb_id s (rows (jobs db2)) = Some k \<and> jb_feature k = key \<and> jb_state k = Saved)"
proof -
  let ?d = "\<lparr>jd_feature = key, jd_state = Saved, jd_hash = hash, jd_applied_by = by, jd_notes = notes, jd_now = now\<rparr>"
  have db1: "db1 = fst (insert_job ?d (''Saved '' @ em_dash @ '' not yet applied'') db)" and s: "s = Suc (seq (jobs db))"
    using arg_cong[OF assms(4), of fst] arg_cong[OF assms(4), of snd] by (simp_all add: record_save_def)
  have pk: "job_table.pk_ok (jobs db)" using assms(1) by (simp add: summary_ok_def)
  have ne: "i \<noteq> s" using job_table.find_le_seq[OF pk assms(2)] s by simp
  have j: "find_by jb_id i (rows (jobs db1)) = Some j"
    using job_table.find_insert_other[of i "jobs db" ?d] ne assms(2) by (simp add: db1 s)
  have k: "find_by jb_id s (rows (jobs db1)) = Some (mk_job ?d s)"
    using job_table.find_insert[OF pk, of ?d] by (simp add: db1 s)
  have "find_by jb_id s (rows (jobs db2)) = Some (mk_job ?d s)"
    using k ne unfolding assms(5) jobs_after_result table_simps by (subst find_by_update_other) auto
  moreover have "has_pending_changes db1 key"
    by (simp add: has_pending_changes_def db1 feature_after_insert)
  moreover have "\<not> has_pending_changes db2 key"
    using j assms(3) by (simp add: has_pending_changes_def assms(5) feature_after_result result_state_def)
  ultimately show ?thesis by (simp add: mk_job_def)
qed

lemma stale_result_hides_save_witness:
  "\<not> has_pending_changes (record_apply_result 1 True [] None 12
       (fst (record_save ''dns'' ''h2'' ''bob'' [] 11
          (fst (record_apply_start ''dns'' ''h1'' ''alice'' [] 10 empty_apply_db))))) ''dns''"
proof -
  let ?db = "fst (record_apply_start ''dns'' ''h1'' ''alice'' [] 10 empty_apply_db)"
  let ?d = "\<lparr>jd_feature = ''dns'', jd_state = Applying, jd_hash = ''h1'', jd_applied_by = ''alice'', jd_notes = [], jd_now = 10\<rparr>"
  have "summary_ok ?db" by (rule summary_ok_writers(2)[OF summary_ok_empty])
  moreover have "find_by jb_id 1 (rows (jobs ?db)) = Some (mk_job ?d 1)"
    by (simp add: record_apply_start_def empty_apply_db_def find_by_def mk_job_def)
  ultimately show ?thesis
    using stale_result_hides_save[of ?db 1 "mk_job ?d 1" "''dns''" "''h2''" "''bob''" "[]" 11, OF _ _ _ prod.collapse[symmetric] refl]
    by (simp add: mk_job_def)
qed

end
