(* ===== verification/ConfigTransaction.thy ===== *)
theory ConfigTransaction
  imports ApplyState
begin

text \<open>
  \<^verbatim>\<open>app/services/config_transaction.py\<close>: service applies grouped into a unit that
  rolls the finished ones back, in reverse order, when one fails.

  \<open>'w\<close> is the world the apply and rollback functions of the services act on (files,
  running services); the functions are the caller's and are arguments.
\<close>

section \<open>The transaction object\<close>

text \<open>What \<open>apply_fn\<close> does: raise, return a value that is no dict (its type's name), or
  return a dict with its \<open>ok\<close> and \<open>message\<close> entries.\<close>

datatype answer = Raises pyexn | NotDict string | Answer bool string

type_synonym 'w apply_fn = "'w \<Rightarrow> 'w \<times> answer"
type_synonym 'w rollback_fn = "'w \<Rightarrow> 'w \<times> pyexn option"

text \<open>\<open>_ROLLBACK_HANDLERS\<close>.\<close>

type_synonym 'w handlers = "string \<rightharpoonup> 'w rollback_fn"

definition register_rollback :: "string \<Rightarrow> 'w rollback_fn \<Rightarrow> 'w handlers \<Rightarrow> 'w handlers" where
  "register_rollback key h hs = hs(key \<mapsto> h)"

record 'w txn =
  tx_db :: "apply_db option"
  tx_name :: string
  tx_applied_by :: string
  tx_dry_run :: bool
  tx_steps :: "(string \<times> 'w rollback_fn option) list"
  tx_errors :: "(string \<times> string) list"
  tx_id :: string

definition new_txn :: "bool \<Rightarrow> apply_db option \<Rightarrow> string \<Rightarrow> string \<Rightarrow> bool \<Rightarrow> int \<Rightarrow> 'w txn" where
  "new_txn on_freebsd db name by dry_run now =
     \<lparr>tx_db = db, tx_name = name, tx_applied_by = by, tx_dry_run = (dry_run \<or> \<not> on_freebsd),
      tx_steps = [], tx_errors = [], tx_id = name @ ''_'' @ str_int now\<rparr>"

section \<open>Operations\<close>

text \<open>The loop of \<open>_rollback_all\<close>, over the steps in reverse order.\<close>

fun rollback_loop ::
  "(string \<times> 'w rollback_fn option) list \<Rightarrow> 'w \<Rightarrow> (string \<times> string) list
     \<Rightarrow> 'w \<times> (string \<times> string) list" where
  "rollback_loop [] w errs = (w, errs)"
| "rollback_loop ((key, None) # rest) w errs = rollback_loop rest w errs"
| "rollback_loop ((key, Some rb) # rest) w errs =
     (case rb w of
        (w', None) \<Rightarrow> rollback_loop rest w' errs
      | (w', Some e) \<Rightarrow> rollback_loop rest w' (errs @ [(key, ''rollback: '' @ exn_str e)]))"

definition rollback_all :: "'w txn \<Rightarrow> 'w \<Rightarrow> 'w txn \<times> 'w \<times> nat" where
  "rollback_all t w =
     (case rollback_loop (rev (tx_steps t)) w (tx_errors t) of
        (w', errs) \<Rightarrow> (t\<lparr>tx_errors := errs\<rparr>, w', length (tx_steps t)))"

record step_result =
  sr_message :: string
  sr_feature :: string

definition record_result :: "nat option \<Rightarrow> bool \<Rightarrow> string \<Rightarrow> int \<Rightarrow> 'w txn \<Rightarrow> 'w txn" where
  "record_result job ok msg now t =
     (case (tx_db t, job) of
        (Some db, Some j) \<Rightarrow> t\<lparr>tx_db := Some (record_apply_result j ok msg None now db)\<rparr>
      | _ \<Rightarrow> t)"

definition start_job :: "string \<Rightarrow> int \<Rightarrow> 'w txn \<Rightarrow> 'w txn \<times> nat option" where
  "start_job key now t =
     (case tx_db t of
        None \<Rightarrow> (t, None)
      | Some db \<Rightarrow>
          (case record_apply_start key [] (tx_applied_by t) (''transaction:'' @ tx_id t) now db of
             (db', j) \<Rightarrow> (t\<lparr>tx_db := Some db'\<rparr>, Some j)))"

text \<open>The exception raised inside the \<open>try\<close> block, or the message of a successful apply.\<close>

definition judge_answer :: "string \<Rightarrow> answer \<Rightarrow> string res" where
  "judge_answer key a =
     (case a of
        Raises e \<Rightarrow> Inl e
      | NotDict ty \<Rightarrow>
          Inl (TypeError (''apply_fn for '' @ apos @ key @ apos @ '' returned '' @ ty @ '', expected dict''))
      | Answer ok msg \<Rightarrow>
          (if ok then Inr msg
           else Inl (RuntimeError (if msg \<noteq> [] then msg else key @ '' apply returned ok=False''))))"

definition txn_apply ::
  "'w handlers \<Rightarrow> (string \<Rightarrow> string) \<Rightarrow> int \<Rightarrow> string \<Rightarrow> 'w apply_fn \<Rightarrow> 'w rollback_fn option
     \<Rightarrow> 'w txn \<Rightarrow> 'w \<Rightarrow> 'w txn \<times> 'w \<times> step_result res" where
  "txn_apply handlers sha16 now key apply_fn rollback_fn t w =
     (if tx_dry_run t
      then ((case tx_db t of
               None \<Rightarrow> t
             | Some db \<Rightarrow> t\<lparr>tx_db := Some (fst (record_dry_run sha16 key [] (tx_applied_by t) now db))\<rparr>),
            w, Inr \<lparr>sr_message = ''dry-run'', sr_feature = key\<rparr>)
      else
     (let (t1, job) = start_job key now t;
          (w1, a) = apply_fn w
      in case judge_answer key a of
           Inr msg \<Rightarrow>
             (let t2 = record_result job True msg now t1;
                  rb = (case rollback_fn of None \<Rightarrow> handlers key | Some r \<Rightarrow> Some r)
              in (t2\<lparr>tx_steps := tx_steps t2 @ [(key, rb)]\<rparr>, w1,
                  Inr \<lparr>sr_message = msg, sr_feature = key\<rparr>))
         | Inl e \<Rightarrow>
             (let t2 = record_result job False (exn_str e) now t1;
                  t3 = t2\<lparr>tx_errors := tx_errors t2 @ [(key, exn_str e)]\<rparr>;
                  (t4, w2, n) = rollback_all t3 w1
              in (t4, w2,
                  Inl (TransactionError (''Step '' @ apos @ key @ apos @ '' failed: '' @ exn_str e
                    @ ''. Rolled back '' @ str_nat n @ '' prior step(s).''))))))"

text \<open>\<open>__exit__\<close>: an exception other than \<open>TransactionError\<close> rolls back; none is suppressed.\<close>

definition txn_exit :: "pyexn option \<Rightarrow> 'w txn \<Rightarrow> 'w \<Rightarrow> 'w txn \<times> 'w" where
  "txn_exit exc t w =
     (case exc of
        None \<Rightarrow> (t, w)
      | Some (TransactionError _) \<Rightarrow> (t, w)
      | Some _ \<Rightarrow> (case rollback_all t w of (t', w', _) \<Rightarrow> (t', w')))"

definition txn_success :: "'w txn \<Rightarrow> bool" where
  "txn_success t \<longleftrightarrow> length (tx_errors t) = 0"

record summary =
  su_id :: string
  su_name :: string
  su_applied_by :: string
  su_dry_run :: bool
  su_steps_applied :: nat
  su_errors :: "(string \<times> string) list"
  su_ok :: bool

definition txn_summary :: "'w txn \<Rightarrow> summary" where
  "txn_summary t =
     \<lparr>su_id = tx_id t, su_name = tx_name t, su_applied_by = tx_applied_by t,
      su_dry_run = tx_dry_run t, su_steps_applied = length (tx_steps t),
      su_errors = tx_errors t, su_ok = txn_success t\<rparr>"

section \<open>The body of a with block\<close>

text \<open>
  A body applies steps and may raise between them; the exception leaves the block through
  \<open>__exit__\<close> and goes on to the caller.
\<close>

datatype 'w command =
    Apply_Step string "'w apply_fn" "'w rollback_fn option"
  | Raise pyexn

fun run_body ::
  "'w handlers \<Rightarrow> (string \<Rightarrow> string) \<Rightarrow> int \<Rightarrow> 'w command list \<Rightarrow> 'w txn \<Rightarrow> 'w
     \<Rightarrow> 'w txn \<times> 'w \<times> pyexn option" where
  "run_body hs sha16 now [] t w = (t, w, None)"
| "run_body hs sha16 now (Raise e # cs) t w = (t, w, Some e)"
| "run_body hs sha16 now (Apply_Step key fn rb # cs) t w =
     (case txn_apply hs sha16 now key fn rb t w of
        (t', w', Inl e) \<Rightarrow> (t', w', Some e)
      | (t', w', Inr _) \<Rightarrow> run_body hs sha16 now cs t' w')"

definition run_with ::
  "'w handlers \<Rightarrow> (string \<Rightarrow> string) \<Rightarrow> int \<Rightarrow> 'w command list \<Rightarrow> 'w txn \<Rightarrow> 'w
     \<Rightarrow> 'w txn \<times> 'w \<times> pyexn option" where
  "run_with hs sha16 now cs t w =
     (case run_body hs sha16 now cs t w of
        (t1, w1, exc) \<Rightarrow> (case txn_exit exc t1 w1 of (t2, w2) \<Rightarrow> (t2, w2, exc)))"

section \<open>The job of a step\<close>

lemma record_result_simps [simp]:
  "tx_steps (record_result job ok msg now t) = tx_steps t"
  "tx_errors (record_result job ok msg now t) = tx_errors t"
  "tx_dry_run (record_result job ok msg now t) = tx_dry_run t"
  by (simp_all add: record_result_def split: option.split)

lemma start_job_simps [simp]:
  "tx_steps (fst (start_job key now t)) = tx_steps t"
  "tx_errors (fst (start_job key now t)) = tx_errors t"
  "tx_dry_run (fst (start_job key now t)) = tx_dry_run t"
  by (simp_all add: start_job_def split: option.split prod.split)

lemma rollback_all_simps [simp]:
  "tx_steps (fst (rollback_all t w)) = tx_steps t"
  "tx_db (fst (rollback_all t w)) = tx_db t"
  "tx_dry_run (fst (rollback_all t w)) = tx_dry_run t"
  "snd (snd (rollback_all t w)) = length (tx_steps t)"
  by (simp_all add: rollback_all_def split: prod.split)

lemma rollback_loop_world:
  "fst (rollback_loop steps w errs) =
     foldl (\<lambda>w s. case snd s of None \<Rightarrow> w | Some rb \<Rightarrow> fst (rb w)) w steps"
  by (induction steps w errs rule: rollback_loop.induct) (auto split: prod.split option.split)

lemma rollback_loop_errors: "prefix errs (snd (rollback_loop steps w errs))"
proof (induction steps w errs rule: rollback_loop.induct)
  case (3 key rb rest w errs)
  then show ?case
    by (cases "rb w"; cases "snd (rb w)") (auto intro: append_prefixD)
qed simp_all

lemma rollback_all_world:
  "fst (snd (rollback_all t w)) =
     foldl (\<lambda>w s. case snd s of None \<Rightarrow> w | Some rb \<Rightarrow> fst (rb w)) w (rev (tx_steps t))"
  using rollback_loop_world[of "rev (tx_steps t)" w "tx_errors t"]
  by (cases "rollback_loop (rev (tx_steps t)) w (tx_errors t)") (simp add: rollback_all_def)

lemma record_result_db:
  assumes "\<And>db. tx_db t = Some db \<Longrightarrow> summary_ok db" "tx_db (record_result job ok msg now t) = Some db"
  shows "summary_ok db"
  using assms by (auto simp: record_result_def summary_ok_result split: option.splits)

section \<open>Undoing steps\<close>

text \<open>
  The contract of an apply with its rollback.  Steps are named by \<open>'i\<close>; the world maps
  places to values.  A step owns a set of places, touches no other, and decides and restores
  by what it owns; its public places are the ones a rollback gives back.
\<close>

locale undo_steps =
  fixes run :: "'i \<Rightarrow> ('p \<Rightarrow> 'v) \<Rightarrow> ('p \<Rightarrow> 'v) \<times> bool"
    and undo :: "'i \<Rightarrow> ('p \<Rightarrow> 'v) \<Rightarrow> ('p \<Rightarrow> 'v)"
    and ready :: "'i \<Rightarrow> ('p \<Rightarrow> 'v) \<Rightarrow> bool"
    and own :: "'i \<Rightarrow> 'p set"
    and pub :: "'i \<Rightarrow> 'p set"
  assumes run_frame: "ready i s \<Longrightarrow> p \<notin> own i \<Longrightarrow> fst (run i s) p = s p"
    and undo_frame: "p \<notin> own i \<Longrightarrow> undo i s p = s p"
    and undo_local: "(\<And>p. p \<in> own i \<Longrightarrow> s p = t p) \<Longrightarrow> q \<in> own i \<Longrightarrow> undo i s q = undo i t q"
    and ready_local: "(\<And>p. p \<in> own i \<Longrightarrow> s p = t p) \<Longrightarrow> ready i s = ready i t"
    and run_undo: "ready i s \<Longrightarrow> snd (run i s) \<Longrightarrow> p \<in> pub i \<Longrightarrow> undo i (fst (run i s)) p = s p"
    and run_fail: "ready i s \<Longrightarrow> \<not> snd (run i s) \<Longrightarrow> p \<in> pub i \<Longrightarrow> fst (run i s) p = s p"
    and pub_own: "pub i \<subseteq> own i"
begin

text \<open>Run in order; on a failure undo the finished ones, the latest first.\<close>

fun run_all :: "'i list \<Rightarrow> 'i list \<Rightarrow> ('p \<Rightarrow> 'v) \<Rightarrow> ('p \<Rightarrow> 'v) \<times> bool" where
  "run_all finished [] s = (s, True)"
| "run_all finished (i # is) s =
     (case run i s of
        (s', True) \<Rightarrow> run_all (i # finished) is s'
      | (s', False) \<Rightarrow> (foldl (\<lambda>s j. undo j s) s' finished, False))"

lemma foldl_undo_frame:
  "(\<And>j. j \<in> set js \<Longrightarrow> p \<notin> own j) \<Longrightarrow> foldl (\<lambda>s j. undo j s) s js p = s p"
  by (induction js arbitrary: s) (auto simp: undo_frame)

definition disjoint_steps :: "'i list \<Rightarrow> bool" where
  "disjoint_steps is \<longleftrightarrow> distinct is \<and> (\<forall>i \<in> set is. \<forall>j \<in> set is. i \<noteq> j \<longrightarrow> own i \<inter> own j = {})"

lemma disjoint_stepsD:
  assumes "disjoint_steps (rev fin @ i # is)"
  shows "disjoint_steps (i # fin)" "disjoint_steps (fin @ [])"
    "j \<in> set fin \<Longrightarrow> k \<in> set (i # is) \<Longrightarrow> own j \<inter> own k = {}"
    "k \<in> set is \<Longrightarrow> own k \<inter> own i = {}"
proof -
  show "disjoint_steps (i # fin)" "disjoint_steps (fin @ [])"
    using assms by (simp_all add: disjoint_steps_def)
  have ne: "\<And>x y. x \<in> set fin \<union> set (i # is) \<Longrightarrow> y \<in> set fin \<union> set (i # is) \<Longrightarrow> x \<noteq> y \<Longrightarrow> own x \<inter> own y = {}"
  proof -
    have "set (rev fin @ i # is) = set fin \<union> set (i # is)" by auto
    moreover have "\<forall>x \<in> set (rev fin @ i # is). \<forall>y \<in> set (rev fin @ i # is). x \<noteq> y \<longrightarrow> own x \<inter> own y = {}"
      using assms unfolding disjoint_steps_def by blast
    ultimately have "\<forall>x \<in> set fin \<union> set (i # is). \<forall>y \<in> set fin \<union> set (i # is). x \<noteq> y \<longrightarrow> own x \<inter> own y = {}"
      by (simp only:)
    then show "\<And>x y. x \<in> set fin \<union> set (i # is) \<Longrightarrow> y \<in> set fin \<union> set (i # is) \<Longrightarrow> x \<noteq> y \<Longrightarrow> own x \<inter> own y = {}"
      by blast
  qed
  show "own j \<inter> own k = {}" if "j \<in> set fin" "k \<in> set (i # is)"
    using that assms by (intro ne) (auto simp: disjoint_steps_def)
  show "own k \<inter> own i = {}" if "k \<in> set is"
    using that assms by (intro ne) (auto simp: disjoint_steps_def)
qed

lemma foldl_undo_at:
  assumes "disjoint_steps (js @ [])" "j \<in> set js" "p \<in> own j"
  shows "foldl (\<lambda>s j. undo j s) s js p = undo j s p"
  using assms
proof (induction js arbitrary: s)
  case (Cons k ks)
  have dis: "disjoint_steps (ks @ [])" using Cons.prems(1) by (auto simp: disjoint_steps_def)
  show ?case
  proof (cases "j = k")
    case True
    have "p \<notin> own i" if "i \<in> set ks" for i
      using Cons.prems True that by (auto simp: disjoint_steps_def)
    then show ?thesis using True by (simp add: foldl_undo_frame)
  next
    case False
    then have j: "j \<in> set ks" using Cons.prems(2) by simp
    have "own j \<inter> own k = {}"
      using Cons.prems(1,2) False by (auto simp: disjoint_steps_def)
    then have "undo k s q = s q" if "q \<in> own j" for q
      using that by (intro undo_frame) auto
    then have "undo j (undo k s) p = undo j s p"
      using Cons.prems(3) by (intro undo_local) auto
    then show ?thesis using Cons.IH[OF dis j Cons.prems(3)] by simp
  qed
qed simp

text \<open>The state after some steps: undoing any of them restores its public places.\<close>

definition undoable :: "('p \<Rightarrow> 'v) \<Rightarrow> 'i list \<Rightarrow> ('p \<Rightarrow> 'v) \<Rightarrow> bool" where
  "undoable s0 finished s \<longleftrightarrow>
     (\<forall>j \<in> set finished. \<forall>p \<in> pub j. undo j s p = s0 p)
     \<and> (\<forall>p. (\<forall>j \<in> set finished. p \<notin> own j) \<longrightarrow> s p = s0 p)"

lemma undoable_run:
  assumes "undoable s0 fin s" "disjoint_steps (i # fin)" "ready i s0" "snd (run i s)"
  shows "undoable s0 (i # fin) (fst (run i s))"
proof -
  have away: "own j \<inter> own i = {}" if "j \<in> set fin" for j
    using assms(2) that by (auto simp: disjoint_steps_def)
  have at: "s p = s0 p" if "p \<in> own i" for p
  proof -
    have "\<forall>j \<in> set fin. p \<notin> own j" using away that by blast
    then show ?thesis using assms(1) by (simp add: undoable_def)
  qed
  then have rd: "ready i s" using assms(3) ready_local by blast
  have "undo j (fst (run i s)) p = s0 p" if "j \<in> set fin" "p \<in> pub j" for j p
  proof -
    have "fst (run i s) q = s q" if "q \<in> own j" for q
      using away[OF \<open>j \<in> set fin\<close>] that rd by (intro run_frame) auto
    then have "undo j (fst (run i s)) p = undo j s p"
      using that pub_own by (intro undo_local) auto
    then show ?thesis using assms(1) that by (simp add: undoable_def)
  qed
  moreover have "undo i (fst (run i s)) p = s0 p" if "p \<in> pub i" for p
    using run_undo[OF rd assms(4) that] at pub_own that by auto
  moreover have "fst (run i s) p = s0 p" if "\<forall>j \<in> set (i # fin). p \<notin> own j" for p
    using run_frame[OF rd, of p] that assms(1) by (simp add: undoable_def)
  ultimately show ?thesis by (simp add: undoable_def)
qed

text \<open>A failing run gives every public place back and touches nothing but what steps own.\<close>

lemma run_all_failed:
  assumes "undoable s0 fin s" "disjoint_steps (rev fin @ is)" "\<forall>i \<in> set is. ready i s0"
    and "run_all fin is s = (s', False)"
  shows "(\<forall>i \<in> set fin \<union> set is. \<forall>p \<in> pub i. s' p = s0 p)
    \<and> (\<forall>p. (\<forall>i \<in> set fin \<union> set is. p \<notin> own i) \<longrightarrow> s' p = s0 p)"
  using assms
proof (induction "is" arbitrary: fin s)
  case (Cons i "is")
  have dis: "disjoint_steps (i # fin)" "disjoint_steps (fin @ [])"
    "\<And>j k. j \<in> set fin \<Longrightarrow> k \<in> set (i # is) \<Longrightarrow> own j \<inter> own k = {}"
    "\<And>k. k \<in> set is \<Longrightarrow> own k \<inter> own i = {}"
    using disjoint_stepsD[OF Cons.prems(2)] by blast+
  have rd0: "ready i s0" using Cons.prems(3) by simp
  show ?case
  proof (cases "snd (run i s)")
    case True
    then have "run_all (i # fin) is (fst (run i s)) = (s', False)"
      using Cons.prems(4) by (cases "run i s") simp
    moreover have "undoable s0 (i # fin) (fst (run i s))"
      using undoable_run[OF Cons.prems(1) dis(1) rd0 True] .
    moreover have "disjoint_steps (rev (i # fin) @ is)" using Cons.prems(2) by simp
    ultimately show ?thesis using Cons.IH[of "i # fin" "fst (run i s)"] Cons.prems(3) by simp
  next
    case False
    let ?s1 = "fst (run i s)"
    have s': "s' = foldl (\<lambda>s j. undo j s) ?s1 fin"
      using Cons.prems(4) False by (cases "run i s") simp
    have outside: "s p = s0 p" if "p \<in> own k" "k \<in> set (i # is)" for p k
    proof -
      have "\<forall>j \<in> set fin. p \<notin> own j" using dis(3) that by blast
      then show ?thesis using Cons.prems(1) by (simp add: undoable_def)
    qed
    have rd: "ready i s" using ready_local[of i s s0] outside rd0 by simp
    have "s' p = s0 p" if "j \<in> set fin" "p \<in> pub j" for j p
    proof -
      have "?s1 q = s q" if "q \<in> own j" for q
        using dis(3)[OF \<open>j \<in> set fin\<close>, of i] that rd by (intro run_frame) auto
      then have "undo j ?s1 p = undo j s p" using that pub_own by (intro undo_local) auto
      moreover have "s' p = undo j ?s1 p"
        unfolding s' using that pub_own by (intro foldl_undo_at[OF dis(2)]) auto
      ultimately show ?thesis using that Cons.prems(1) by (simp add: undoable_def)
    qed
    moreover have "s' p = s0 p" if "p \<in> pub k" "k \<in> set (i # is)" for p k
    proof -
      have pk: "p \<in> own k" using that pub_own by auto
      have "s' p = ?s1 p"
        unfolding s' using dis(3) pk that(2) by (intro foldl_undo_frame) blast
      also have "\<dots> = s p"
      proof (cases "k = i")
        case True
        then show ?thesis using run_fail[OF rd False] that by simp
      next
        case ki: False
        then have "p \<notin> own i" using dis(4) pk that(2) by auto
        then show ?thesis by (rule run_frame[OF rd])
      qed
      finally show ?thesis using outside[OF pk that(2)] by simp
    qed
    moreover have "s' p = s0 p" if "\<forall>i \<in> set fin \<union> set (i # is). p \<notin> own i" for p
      using that run_frame[OF rd, of p] Cons.prems(1)
      by (simp add: s' foldl_undo_frame undoable_def)
    ultimately show ?thesis by auto
  qed
qed simp

lemma run_all_atomic:
  assumes "disjoint_steps is" "\<forall>i \<in> set is. ready i s" "run_all [] is s = (s', False)"
  shows "\<forall>i \<in> set is. \<forall>p \<in> pub i. s' p = s p"
    and "(\<forall>i \<in> set is. p \<notin> own i) \<Longrightarrow> s' p = s p"
  using run_all_failed[of s "[]" s "is" s'] assms by (auto simp: undoable_def)

end

section \<open>A transaction of undoable steps\<close>

fun answer_ok :: "answer \<Rightarrow> bool" where
  "answer_ok (Answer ok msg) = ok"
| "answer_ok a = False"

lemma judge_answer_Inr: "(\<exists>msg. judge_answer key a = Inr msg) \<longleftrightarrow> answer_ok a"
  by (cases a) (auto simp: judge_answer_def)

text \<open>A live step on a world: success adds the step, failure rolls the earlier ones back.\<close>

lemma txn_apply_ok:
  assumes "\<not> tx_dry_run t" "answer_ok (snd (fn w))"
  shows "fst (snd (txn_apply hs sha16 now key fn rb t w)) = fst (fn w)"
    and "\<exists>r. snd (snd (txn_apply hs sha16 now key fn rb t w)) = Inr r"
    and "tx_steps (fst (txn_apply hs sha16 now key fn rb t w))
           = tx_steps t @ [(key, case rb of None \<Rightarrow> hs key | Some r \<Rightarrow> Some r)]"
    and "\<not> tx_dry_run (fst (txn_apply hs sha16 now key fn rb t w))"
proof -
  obtain msg where "judge_answer key (snd (fn w)) = Inr msg"
    using assms(2) judge_answer_Inr by blast
  with assms(1) show "fst (snd (txn_apply hs sha16 now key fn rb t w)) = fst (fn w)"
    and "\<exists>r. snd (snd (txn_apply hs sha16 now key fn rb t w)) = Inr r"
    and "tx_steps (fst (txn_apply hs sha16 now key fn rb t w))
           = tx_steps t @ [(key, case rb of None \<Rightarrow> hs key | Some r \<Rightarrow> Some r)]"
    and "\<not> tx_dry_run (fst (txn_apply hs sha16 now key fn rb t w))"
    by (simp_all add: txn_apply_def Let_def case_prod_unfold)
qed

lemma txn_apply_fail:
  assumes "\<not> tx_dry_run t" "\<not> answer_ok (snd (fn w))"
  shows "fst (snd (txn_apply hs sha16 now key fn rb t w))
           = foldl (\<lambda>w s. case snd s of None \<Rightarrow> w | Some rb \<Rightarrow> fst (rb w)) (fst (fn w)) (rev (tx_steps t))"
    and "\<exists>m. snd (snd (txn_apply hs sha16 now key fn rb t w)) = Inl (TransactionError m)"
    and "tx_errors (fst (txn_apply hs sha16 now key fn rb t w)) \<noteq> []"
proof -
  obtain e where e: "judge_answer key (snd (fn w)) = Inl e"
    using assms(2) judge_answer_Inr by (metis old.sum.exhaust)
  define t3 where "t3 = (let t2 = record_result (snd (start_job key now t)) False (exn_str e) now
      (fst (start_job key now t)) in t2\<lparr>tx_errors := tx_errors t2 @ [(key, exn_str e)]\<rparr>)"
  have st: "tx_steps t3 = tx_steps t" "tx_errors t3 \<noteq> []" by (simp_all add: t3_def Let_def)
  have eq: "txn_apply hs sha16 now key fn rb t w =
      (fst (rollback_all t3 (fst (fn w))), fst (snd (rollback_all t3 (fst (fn w)))),
       Inl (TransactionError (''Step '' @ apos @ key @ apos @ '' failed: '' @ exn_str e
          @ ''. Rolled back '' @ str_nat (length (tx_steps t)) @ '' prior step(s).'')))"
    using assms(1) e st(1) by (simp add: txn_apply_def Let_def case_prod_unfold t3_def)
  have "prefix (tx_errors t3) (tx_errors (fst (rollback_all t3 (fst (fn w)))))"
    using rollback_loop_errors[of "tx_errors t3" "rev (tx_steps t3)" "fst (fn w)"]
    by (simp add: rollback_all_def case_prod_unfold)
  with st(2) show "tx_errors (fst (txn_apply hs sha16 now key fn rb t w)) \<noteq> []"
    by (auto simp: eq)
  show "fst (snd (txn_apply hs sha16 now key fn rb t w))
      = foldl (\<lambda>w s. case snd s of None \<Rightarrow> w | Some rb \<Rightarrow> fst (rb w)) (fst (fn w)) (rev (tx_steps t))"
    by (simp add: eq rollback_all_world st(1))
  show "\<exists>m. snd (snd (txn_apply hs sha16 now key fn rb t w)) = Inl (TransactionError m)"
    by (simp add: eq)
qed

text \<open>
  The world functions \<open>ap\<close> and \<open>rb\<close> a block hands to the transaction realise the steps of
  the contract, so a live \<open>with\<close> block is the run of the steps.
\<close>

locale txn_steps = undo_steps run undo ready own pub
  for run :: "'i \<Rightarrow> ('p \<Rightarrow> 'v) \<Rightarrow> ('p \<Rightarrow> 'v) \<times> bool"
    and undo :: "'i \<Rightarrow> ('p \<Rightarrow> 'v) \<Rightarrow> ('p \<Rightarrow> 'v)"
    and ready :: "'i \<Rightarrow> ('p \<Rightarrow> 'v) \<Rightarrow> bool"
    and own :: "'i \<Rightarrow> 'p set"
    and pub :: "'i \<Rightarrow> 'p set" +
  fixes key :: "'i \<Rightarrow> string"
    and ap :: "'i \<Rightarrow> ('p \<Rightarrow> 'v) apply_fn"
    and rb :: "'i \<Rightarrow> ('p \<Rightarrow> 'v) rollback_fn"
  assumes run_ap: "run i s = (fst (ap i s), answer_ok (snd (ap i s)))"
    and undo_rb: "undo i s = fst (rb i s)"
begin

definition block :: "'i list \<Rightarrow> ('p \<Rightarrow> 'v) command list" where
  "block is = map (\<lambda>i. Apply_Step (key i) (ap i) (Some (rb i))) is"

lemma foldl_steps:
  "foldl (\<lambda>w s. case snd s of None \<Rightarrow> w | Some rb \<Rightarrow> fst (rb w)) s (map (\<lambda>i. (key i, Some (rb i))) js)
     = foldl (\<lambda>s j. undo j s) s js"
  by (induction js arbitrary: s) (simp_all add: undo_rb)

lemma run_body_run_all:
  assumes "\<not> tx_dry_run t" "tx_steps t = map (\<lambda>i. (key i, Some (rb i))) (rev fin)"
  shows "\<exists>t' e. run_body hs sha16 now (block is) t s = (t', fst (run_all fin is s), e)
     \<and> (e = None \<longleftrightarrow> snd (run_all fin is s)) \<and> (\<forall>x. e = Some x \<longrightarrow> (\<exists>m. x = TransactionError m))"
  using assms
proof (induction "is" arbitrary: fin t s)
  case (Cons i "is")
  show ?case
  proof (cases "answer_ok (snd (ap i s))")
    case True
    note ok = txn_apply_ok[of t "ap i" s, OF Cons.prems(1) True, of hs sha16 now "key i" "Some (rb i)"]
    obtain t' r where t': "txn_apply hs sha16 now (key i) (ap i) (Some (rb i)) t s = (t', fst (ap i s), Inr r)"
      using ok(1,2) by (metis prod.collapse)
    have "tx_steps t' = map (\<lambda>i. (key i, Some (rb i))) (rev (i # fin))" "\<not> tx_dry_run t'"
      using ok(3,4) Cons.prems(2) t' by simp_all
    from Cons.IH[OF this(2,1), of "fst (ap i s)"] show ?thesis
      using t' run_ap[of i s] True by (simp add: block_def)
  next
    case False
    note no = txn_apply_fail[of t "ap i" s, OF Cons.prems(1) False, of hs sha16 now "key i" "Some (rb i)"]
    obtain t' w' m where "txn_apply hs sha16 now (key i) (ap i) (Some (rb i)) t s = (t', w', Inl (TransactionError m))"
      using no(2) by (metis prod.collapse)
    moreover have "rev (tx_steps t) = map (\<lambda>i. (key i, Some (rb i))) fin"
      by (simp add: Cons.prems(2) rev_map)
    ultimately show ?thesis using run_ap[of i s] False no(1) by (simp add: block_def foldl_steps)
  qed
qed (simp add: block_def)

lemma run_with_run_all:
  assumes "\<not> tx_dry_run t" "tx_steps t = []"
  obtains t' e where "run_with hs sha16 now (block is) t s = (t', fst (run_all [] is s), e)"
    and "e = None \<longleftrightarrow> snd (run_all [] is s)"
proof -
  obtain t' e where "run_body hs sha16 now (block is) t s = (t', fst (run_all [] is s), e)"
    "e = None \<longleftrightarrow> snd (run_all [] is s)" "\<forall>x. e = Some x \<longrightarrow> (\<exists>m. x = TransactionError m)"
    using run_body_run_all[of t "[]" hs sha16 now "is" s] assms by auto
  moreover from this(3) have "txn_exit e t' w = (t', w)" for w
    by (auto simp: txn_exit_def split: option.split)
  ultimately show ?thesis by (intro that) (auto simp: run_with_def)
qed

lemma with_atomic:
  assumes "\<not> tx_dry_run t" "tx_steps t = []" "disjoint_steps is" "\<forall>i \<in> set is. ready i s"
    and "run_with hs sha16 now (block is) t s = (t', s', Some e)"
  shows "\<forall>i \<in> set is. \<forall>p \<in> pub i. s' p = s p"
    and "(\<forall>i \<in> set is. p \<notin> own i) \<Longrightarrow> s' p = s p"
proof -
  have r: "run_all [] is s = (s', False)"
  proof -
    obtain t2 e2 where "run_with hs sha16 now (block is) t s = (t2, fst (run_all [] is s), e2)"
      "e2 = None \<longleftrightarrow> snd (run_all [] is s)"
      using run_with_run_all[OF assms(1,2)] by blast
    with assms(5) show ?thesis by (cases "run_all [] is s") auto
  qed
  show "\<forall>i \<in> set is. \<forall>p \<in> pub i. s' p = s p"
    and "(\<forall>i \<in> set is. p \<notin> own i) \<Longrightarrow> s' p = s p"
    using run_all_atomic[OF assms(3,4) r] by blast+
qed

end


text \<open>A block of two steps whose second one fails.\<close>

lemma run_with_second_fails:
  assumes "txn_apply hs sha16 now key1 fn1 rb1 t w = (t1, w1, Inr r)"
    and "snd (snd (txn_apply hs sha16 now key2 fn2 rb2 t1 w1)) = Inl (TransactionError m)"
  shows "run_with hs sha16 now [Apply_Step key1 fn1 rb1, Apply_Step key2 fn2 rb2] t w
    = (fst (txn_apply hs sha16 now key2 fn2 rb2 t1 w1), fst (snd (txn_apply hs sha16 now key2 fn2 rb2 t1 w1)),
       Some (TransactionError m))"
  using assms by (cases "txn_apply hs sha16 now key2 fn2 rb2 t1 w1") (simp add: run_with_def txn_exit_def)

section \<open>What the job tables say after a transaction\<close>

lemma record_result_Some:
  "tx_db (record_result (Some j) ok msg now t) = map_option (record_apply_result j ok msg None now) (tx_db t)"
  by (simp add: record_result_def split: option.split)

lemma start_job_Some:
  assumes "tx_db t = Some db"
  shows "start_job key now t =
     (t\<lparr>tx_db := Some (fst (record_apply_start key [] (tx_applied_by t) (''transaction:'' @ tx_id t) now db))\<rparr>,
      Some (Suc (seq (jobs db))))"
  using assms by (simp add: start_job_def case_prod_unfold record_apply_start_def)

lemma txn_apply_db:
  assumes "\<not> tx_dry_run t" "tx_db t = Some db"
  shows "\<exists>msg. tx_db (fst (txn_apply hs sha16 now key fn rb t w)) =
     Some (record_apply_result (Suc (seq (jobs db))) (answer_ok (snd (fn w))) msg None now
       (fst (record_apply_start key [] (tx_applied_by t) (''transaction:'' @ tx_id t) now db)))"
proof (cases "snd (fn w)")
  case (Answer ok msg)
  then show ?thesis
    using assms by (cases ok)
      (auto simp: txn_apply_def Let_def case_prod_unfold judge_answer_def start_job_Some record_result_Some
        rollback_all_def split: prod.split)
qed (use assms in \<open>auto simp: txn_apply_def Let_def case_prod_unfold judge_answer_def start_job_Some record_result_Some
        rollback_all_def split: prod.split\<close>)

text \<open>The feature of a job just started shows its result; other features are untouched.\<close>

lemma feature_after_start_result:
  assumes "job_table.pk_ok (jobs db)"
  shows "find_by fs_feature k (features (record_apply_result (Suc (seq (jobs db))) ok msg rb now
       (fst (record_apply_start key hash by notes now db)))) =
     (if k = key then Some \<lparr>fs_feature = key, fs_state = result_state ok rb, fs_message = msg,
          fs_last_job = Some (Suc (seq (jobs db))), fs_updated = now\<rparr>
      else find_by fs_feature k (features db))"
proof -
  let ?d = "\<lparr>jd_feature = key, jd_state = Applying, jd_hash = hash, jd_applied_by = by, jd_notes = notes, jd_now = now\<rparr>"
  have "find_by jb_id (Suc (seq (jobs db))) (rows (jobs (fst (record_apply_start key hash by notes now db))))
      = Some (mk_job ?d (Suc (seq (jobs db))))"
    using job_table.find_insert[OF assms, of ?d] by (simp add: record_apply_start_def)
  then show ?thesis
    by (simp add: feature_after_result mk_job_def) (simp add: record_apply_start_def feature_after_insert)
qed

section \<open>Properties\<close>

text \<open>
  When the second step of a transaction fails, the first one is rolled back, but the apply
  state goes on showing its feature as applied.
\<close>

theorem rolled_back_step_shows_applied:
  assumes "\<not> tx_dry_run t" "tx_db t = Some db" "summary_ok db" "key1 \<noteq> key2"
    and "answer_ok (snd (fn1 w))" "\<not> answer_ok (snd (fn2 (fst (fn1 w))))"
  shows "\<exists>t' w' m db' fs. run_with hs sha16 now [Apply_Step key1 fn1 rb1, Apply_Step key2 fn2 rb2] t w
       = (t', w', Some (TransactionError m)) \<and> tx_db t' = Some db'
     \<and> find_by fs_feature key1 (features db') = Some fs \<and> fs_state fs = Applied"
proof -
  let ?r1 = "txn_apply hs sha16 now key1 fn1 rb1 t w"
  let ?t1 = "fst ?r1"
  note ok = txn_apply_ok[where fn = fn1 and w = w and t = t and hs = hs and ?sha16.0 = sha16 and now = now
      and key = key1 and rb = rb1, OF assms(1,5)]
  obtain r where r1: "?r1 = (?t1, fst (fn1 w), Inr r)" using ok(1,2) by (metis prod.collapse)
  let ?r2 = "txn_apply hs sha16 now key2 fn2 rb2 ?t1 (fst (fn1 w))"
  obtain m where m: "snd (snd ?r2) = Inl (TransactionError m)" using txn_apply_fail(2)[where fn = fn2 and w = "fst (fn1 w)", OF ok(4) assms(6)] by blast
  obtain m1 where d1: "tx_db ?t1 = Some (record_apply_result (Suc (seq (jobs db))) True m1 None now
      (fst (record_apply_start key1 [] (tx_applied_by t) (''transaction:'' @ tx_id t) now db)))"
    using txn_apply_db[OF assms(1,2), of hs sha16 now key1 fn1 rb1 w] assms(5) by auto
  define db1 where "db1 = record_apply_result (Suc (seq (jobs db))) True m1 None now
      (fst (record_apply_start key1 [] (tx_applied_by t) (''transaction:'' @ tx_id t) now db))"
  have ok1: "summary_ok db1"
    unfolding db1_def by (intro summary_ok_result summary_ok_writers(2) assms(3))
  obtain m2 where d2: "tx_db (fst ?r2) = Some (record_apply_result (Suc (seq (jobs db1))) False m2 None now
      (fst (record_apply_start key2 [] (tx_applied_by ?t1) (''transaction:'' @ tx_id ?t1) now db1)))"
    using txn_apply_db[OF ok(4) d1[folded db1_def], of hs sha16 now key2 fn2 rb2 "fst (fn1 w)"] assms(6) by auto
  have run: "run_with hs sha16 now [Apply_Step key1 fn1 rb1, Apply_Step key2 fn2 rb2] t w
      = (fst ?r2, fst (snd ?r2), Some (TransactionError m))"
    by (rule run_with_second_fails[OF r1 m])
  have "find_by fs_feature key1 (features (record_apply_result (Suc (seq (jobs db1))) False m2 None now
      (fst (record_apply_start key2 [] (tx_applied_by ?t1) (''transaction:'' @ tx_id ?t1) now db1))))
    = find_by fs_feature key1 (features db1)"
    using ok1 assms(4) by (subst feature_after_start_result) (simp_all add: summary_ok_def)
  also have "\<dots> = Some \<lparr>fs_feature = key1, fs_state = Applied, fs_message = m1,
      fs_last_job = Some (Suc (seq (jobs db))), fs_updated = now\<rparr>"
    unfolding db1_def using assms(3)
    by (subst feature_after_start_result) (simp_all add: summary_ok_def result_state_def)
  finally show ?thesis using run d2 by auto
qed

lemma rolled_back_step_shows_applied_witness:
  "\<exists>t' w' m db' fs. run_with (\<lambda>_. None) (\<lambda>s. s) 5
       [Apply_Step ''dns'' (\<lambda>w. (Suc w, Answer True [])) (Some (\<lambda>w. (0, None))),
        Apply_Step ''pf'' (\<lambda>w. (w, Answer False ''bad'')) None]
       (new_txn True (Some empty_apply_db) ''t'' ''alice'' False 5) (0::nat)
       = (t', w', Some (TransactionError m)) \<and> tx_db t' = Some db'
     \<and> find_by fs_feature ''dns'' (features db') = Some fs \<and> fs_state fs = Applied"
  by (rule rolled_back_step_shows_applied[OF _ _ summary_ok_empty]) (simp_all add: new_txn_def)

end
