(* ===== verification/ConfigFile.thy ===== *)
theory ConfigFile
  imports ConfigTransaction
begin

text \<open>
  \<^verbatim>\<open>app/services/config_file_utils.py\<close>: the temp-file, validate, back up, swap, reload
  sequence every configuration writer goes through, with its rollback.

  The file system maps a path to the content and mode of a file.  What the operating system
  does beside the code is an argument: the name \<open>mkstemp\<close> picks, the faults of the single
  calls, and the validation and restart functions of the caller.
\<close>

section \<open>Files\<close>

record conf_file =
  f_content :: string
  f_mode :: nat

type_synonym fs = "string \<rightharpoonup> conf_file"

text \<open>
  The fault of a \<open>shutil.copy2\<close>: the file it leaves at the destination, when it got as far
  as opening it, and the exception.
\<close>

datatype copy_fault = CopyFault "conf_file option" pyexn

text \<open>\<open>None\<close> in a field is a call that succeeds.\<close>

record io =
  io_tmp :: string
  io_mkstemp :: "pyexn option"
  io_write :: "pyexn option"
  io_replace :: "pyexn option"
  io_backup :: "copy_fault option"
  io_restore :: "copy_fault option"

definition is_oserror :: "pyexn \<Rightarrow> bool" where
  "is_oserror e = (case e of OSError _ \<Rightarrow> True | _ \<Rightarrow> False)"

definition backup_of :: "string \<Rightarrow> string" where
  "backup_of path = path @ ''.known_good''"

lemma backup_of_neq [simp]: "backup_of path \<noteq> path" "path \<noteq> backup_of path"
  by (simp_all add: backup_of_def)

lemma backup_of_inject [simp]: "backup_of p = backup_of q \<longleftrightarrow> p = q"
  by (simp add: backup_of_def)

definition copy2 :: "copy_fault option \<Rightarrow> string \<Rightarrow> string \<Rightarrow> fs \<Rightarrow> fs \<times> pyexn option" where
  "copy2 fault src dst fs =
     (case fault of
        None \<Rightarrow> (fs(dst := fs src), None)
      | Some (CopyFault left e) \<Rightarrow>
          ((case left of None \<Rightarrow> fs | Some f \<Rightarrow> fs(dst \<mapsto> f)), Some e))"

section \<open>The operations\<close>

text \<open>The new file under its temporary name, or the exception of a failed step.\<close>

definition stage :: "io \<Rightarrow> string \<Rightarrow> nat \<Rightarrow> fs \<Rightarrow> fs \<times> pyexn option" where
  "stage io content mode fs =
     (case io_write io of
        None \<Rightarrow> (fs(io_tmp io \<mapsto> \<lparr>f_content = content, f_mode = mode\<rparr>), None)
      | Some e \<Rightarrow> (fs(io_tmp io \<mapsto> \<lparr>f_content = [], f_mode = 384\<rparr>), Some e))"

definition unlink :: "string \<Rightarrow> fs \<Rightarrow> fs" where
  "unlink p fs = fs(p := None)"

definition replace :: "string \<Rightarrow> string \<Rightarrow> fs \<Rightarrow> fs" where
  "replace src dst fs = (fs(dst := fs src))(src := None)"

definition atomic_write :: "io \<Rightarrow> string \<Rightarrow> string \<Rightarrow> nat \<Rightarrow> fs \<Rightarrow> fs \<times> unit res" where
  "atomic_write io path content mode fs =
     (case io_mkstemp io of
        Some e \<Rightarrow> (fs, Inl e)
      | None \<Rightarrow>
          (case stage io content mode fs of
             (fs1, Some e) \<Rightarrow> (unlink (io_tmp io) fs1, Inl e)
           | (fs1, None) \<Rightarrow>
               (case io_replace io of
                  Some e \<Rightarrow> (unlink (io_tmp io) fs1, Inl e)
                | None \<Rightarrow> (replace (io_tmp io) path fs1, Inr ()))))"

text \<open>Only an \<open>OSError\<close> of the copy is caught.\<close>

definition backup_config :: "bool \<Rightarrow> io \<Rightarrow> string \<Rightarrow> fs \<Rightarrow> fs \<times> string option res" where
  "backup_config freebsd io path fs =
     (if \<not> freebsd then (fs, Inr None)
      else if fs path = None then (fs, Inr None)
      else (case copy2 (io_backup io) path (backup_of path) fs of
              (fs1, None) \<Rightarrow> (fs1, Inr (Some (backup_of path)))
            | (fs1, Some e) \<Rightarrow> (fs1, if is_oserror e then Inr None else Inl e)))"

record op_result =
  op_ok :: bool
  op_message :: string

definition rollback_config :: "bool \<Rightarrow> io \<Rightarrow> string \<Rightarrow> fs \<Rightarrow> fs \<times> op_result res" where
  "rollback_config freebsd io path fs =
     (if \<not> freebsd
      then (fs, Inr \<lparr>op_ok = False, op_message = ''non-FreeBSD '' @ em_dash @ '' rollback skipped''\<rparr>)
      else if fs (backup_of path) = None
      then (fs, Inr \<lparr>op_ok = False, op_message = ''No backup found at '' @ backup_of path\<rparr>)
      else (case copy2 (io_restore io) (backup_of path) path fs of
              (fs1, None) \<Rightarrow>
                (fs1, Inr \<lparr>op_ok = True,
                  op_message = ''Rolled back '' @ path @ '' from '' @ backup_of path\<rparr>)
            | (fs1, Some e) \<Rightarrow>
                (fs1, if is_oserror e
                      then Inr \<lparr>op_ok = False, op_message = ''Rollback failed: '' @ exn_str e\<rparr>
                      else Inl e)))"

text \<open>What a validation function returns: its dict, or any other value by its truth.\<close>

datatype verdict = VDict bool "string option" string | VOther bool

fun verdict_ok :: "verdict \<Rightarrow> bool" where
  "verdict_ok (VDict b m p) = b"
| "verdict_ok (VOther b) = b"

fun verdict_message :: "verdict \<Rightarrow> string" where
  "verdict_message (VDict b m p) = or_str m []"
| "verdict_message (VOther b) = []"

fun verdict_output :: "verdict \<Rightarrow> string" where
  "verdict_output (VDict b m p) = p"
| "verdict_output (VOther b) = []"

type_synonym validator = "string \<Rightarrow> fs \<Rightarrow> verdict res"

text \<open>A restart function may touch files; its dict has \<open>ok\<close> and perhaps \<open>message\<close>.\<close>

type_synonym restarter = "fs \<Rightarrow> fs \<times> (bool \<times> string option) res"

record apply_outcome =
  ao_ok :: bool
  ao_rolled_back :: bool
  ao_message :: string
  ao_validated :: "bool option"
  ao_validation_output :: "string option"
  ao_rollback_message :: "string option"

definition outcome :: "bool \<Rightarrow> bool \<Rightarrow> string \<Rightarrow> apply_outcome" where
  "outcome ok rb m =
     \<lparr>ao_ok = ok, ao_rolled_back = rb, ao_message = m, ao_validated = None,
      ao_validation_output = None, ao_rollback_message = None\<rparr>"

definition run_validate :: "validator option \<Rightarrow> string \<Rightarrow> fs \<Rightarrow> verdict" where
  "run_validate validate tmp fs =
     (case validate of
        None \<Rightarrow> VOther True
      | Some v \<Rightarrow> (case v tmp fs of Inl e \<Rightarrow> VDict False (Some (exn_str e)) [] | Inr r \<Rightarrow> r))"

text \<open>Steps 5 and 6: restart, and roll back when that fails.\<close>

definition restart_or_rollback ::
  "bool \<Rightarrow> io \<Rightarrow> string \<Rightarrow> restarter \<Rightarrow> bool \<Rightarrow> fs \<Rightarrow> fs \<times> apply_outcome res" where
  "restart_or_rollback freebsd io path restart rollback_on_failure fs =
     (case restart fs of (fs1, r) \<Rightarrow>
       (let res = (case r of Inl e \<Rightarrow> (False, Some (exn_str e)) | Inr p \<Rightarrow> p);
            failure = (case snd res of None \<Rightarrow> ''restart failed'' | Some m \<Rightarrow> m)
        in if \<not> fst res
           then (if rollback_on_failure
                 then (case rollback_config freebsd io path fs1 of
                         (fs2, Inl e) \<Rightarrow> (fs2, Inl e)
                       | (fs2, Inr rb) \<Rightarrow>
                           (fs2, Inr ((outcome False (op_ok rb) failure)
                                        \<lparr>ao_rollback_message := Some (op_message rb)\<rparr>)))
                 else (fs1, Inr (outcome False False failure)))
           else (fs1, Inr (outcome True False (case snd res of None \<Rightarrow> [] | Some m \<Rightarrow> m)))))"

definition apply_with_rollback ::
  "bool \<Rightarrow> io \<Rightarrow> string \<Rightarrow> string \<Rightarrow> restarter \<Rightarrow> validator option \<Rightarrow> nat \<Rightarrow> bool \<Rightarrow> fs
     \<Rightarrow> fs \<times> apply_outcome res" where
  "apply_with_rollback freebsd io path content restart validate mode rollback_on_failure fs =
     (case io_mkstemp io of
        Some e \<Rightarrow> (fs, Inl e)
      | None \<Rightarrow>
     (case stage io content mode fs of
        (fs1, Some e) \<Rightarrow>
          (if is_oserror e
           then (unlink (io_tmp io) fs1,
                 Inr (outcome False False (''Failed to write '' @ path @ '': '' @ exn_str e)))
           else (fs1, Inl e))
      | (fs1, None) \<Rightarrow>
     (let v = run_validate validate (io_tmp io) fs1 in
      if \<not> verdict_ok v
      then (unlink (io_tmp io) fs1,
            Inr ((outcome False False
                    (if verdict_message v \<noteq> [] then verdict_message v
                     else ''Validation failed for '' @ path))
                   \<lparr>ao_validated := Some False, ao_validation_output := Some (verdict_output v)\<rparr>))
      else
     (case backup_config freebsd io path fs1 of
        (fs2, Inl e) \<Rightarrow> (fs2, Inl e)
      | (fs2, Inr _) \<Rightarrow>
     (case io_replace io of
        Some e \<Rightarrow>
          (if is_oserror e
           then (unlink (io_tmp io) fs2,
                 Inr (outcome False False (''Failed to install '' @ path @ '': '' @ exn_str e)))
           else (fs2, Inl e))
      | None \<Rightarrow>
          restart_or_rollback freebsd io path restart rollback_on_failure
            (replace (io_tmp io) path fs2))))))"

section \<open>A fault-free run\<close>

text \<open>
  What \<open>mkstemp\<close> promises: the name is unused; it is no target or backup name.
\<close>

definition tmp_fresh :: "io \<Rightarrow> string \<Rightarrow> fs \<Rightarrow> bool" where
  "tmp_fresh io path fs \<longleftrightarrow> fs (io_tmp io) = None \<and> io_tmp io \<noteq> path \<and> io_tmp io \<noteq> backup_of path"

definition no_faults :: "io \<Rightarrow> bool" where
  "no_faults io \<longleftrightarrow> io_mkstemp io = None \<and> io_write io = None \<and> io_replace io = None
     \<and> io_backup io = None \<and> io_restore io = None"

text \<open>A restart that leaves files alone, answering with \<open>ok\<close> and \<open>message\<close> or an exception.\<close>

definition quiet :: "restarter \<Rightarrow> bool" where
  "quiet restart \<longleftrightarrow> (\<forall>fs. fst (restart fs) = fs)"

definition restart_ok :: "restarter \<Rightarrow> fs \<Rightarrow> bool" where
  "restart_ok restart fs = (case snd (restart fs) of Inl e \<Rightarrow> False | Inr p \<Rightarrow> fst p)"

definition staged :: "io \<Rightarrow> string \<Rightarrow> nat \<Rightarrow> fs \<Rightarrow> fs" where
  "staged io content mode fs = fs(io_tmp io \<mapsto> \<lparr>f_content = content, f_mode = mode\<rparr>)"

text \<open>The files when the service is restarted: backup taken, new file in place.\<close>

definition installed :: "bool \<Rightarrow> io \<Rightarrow> string \<Rightarrow> string \<Rightarrow> nat \<Rightarrow> fs \<Rightarrow> fs" where
  "installed freebsd io path content mode fs =
     (if freebsd \<and> fs path \<noteq> None then fs(backup_of path := fs path) else fs)
       (path \<mapsto> \<lparr>f_content = content, f_mode = mode\<rparr>)"

lemma rejected:
  assumes "tmp_fresh io path fs" "io_mkstemp io = None" "io_write io = None"
    and "\<not> verdict_ok (run_validate validate (io_tmp io) (staged io content mode fs))"
  shows "\<exists>m p. apply_with_rollback freebsd io path content restart validate mode rof fs
     = (fs, Inr ((outcome False False m)\<lparr>ao_validated := Some False, ao_validation_output := Some p\<rparr>))
     \<and> m \<noteq> []"
  using assms
  by (auto simp: apply_with_rollback_def stage_def staged_def unlink_def tmp_fresh_def Let_def)

lemma accepted:
  assumes "tmp_fresh io path fs" "no_faults io"
    and "verdict_ok (run_validate validate (io_tmp io) (staged io content mode fs))"
  shows "apply_with_rollback freebsd io path content restart validate mode rof fs
     = restart_or_rollback freebsd io path restart rof (installed freebsd io path content mode fs)"
proof -
  let ?st = "staged io content mode fs"
  have st: "stage io content mode fs = (?st, None)"
    using assms(2) by (simp add: stage_def staged_def no_faults_def)
  have p: "?st path = fs path" "?st (io_tmp io) = Some \<lparr>f_content = content, f_mode = mode\<rparr>"
    using assms(1) by (auto simp: staged_def tmp_fresh_def)
  have b: "backup_config freebsd io path ?st =
      (if freebsd \<and> fs path \<noteq> None then ?st(backup_of path := fs path) else ?st,
       Inr (if freebsd \<and> fs path \<noteq> None then Some (backup_of path) else None))"
    using assms(2) p by (auto simp: backup_config_def copy2_def no_faults_def)
  have "replace (io_tmp io) path
      (if freebsd \<and> fs path \<noteq> None then ?st(backup_of path := fs path) else ?st)
    = installed freebsd io path content mode fs"
    using assms(1) by (auto simp: replace_def installed_def staged_def tmp_fresh_def)
  with assms st b show ?thesis
    by (simp add: apply_with_rollback_def no_faults_def Let_def)
qed

lemma restart_good:
  assumes "quiet restart" "restart_ok restart fs"
  shows "\<exists>m. restart_or_rollback freebsd io path restart rof fs = (fs, Inr (outcome True False m))"
  using assms by (cases "restart fs") (auto simp: restart_or_rollback_def quiet_def restart_ok_def
      Let_def split: sum.splits; metis fst_conv)

lemma restart_bad:
  assumes "quiet restart" "\<not> restart_ok restart fs"
  shows "restart_or_rollback True io path restart True fs =
     (case rollback_config True io path fs of
        (fs2, Inl e) \<Rightarrow> (fs2, Inl e)
      | (fs2, Inr rb) \<Rightarrow>
          (fs2, Inr ((outcome False (op_ok rb)
             (case snd (restart fs) of
                Inl e \<Rightarrow> exn_str e
              | Inr p \<Rightarrow> (case snd p of None \<Rightarrow> ''restart failed'' | Some m \<Rightarrow> m)))
             \<lparr>ao_rollback_message := Some (op_message rb)\<rparr>)))"
proof -
  have "fst (restart fs) = fs" using assms(1) by (simp add: quiet_def)
  with assms(2) show ?thesis
    by (cases "restart fs"; cases "snd (restart fs)")
      (auto simp: restart_or_rollback_def restart_ok_def Let_def)
qed

lemma rollback_good:
  assumes "io_restore io = None" "fs (backup_of path) \<noteq> None"
  shows "\<exists>rb. rollback_config True io path fs = (fs(path := fs (backup_of path)), Inr rb) \<and> op_ok rb"
  using assms by (auto simp: rollback_config_def copy2_def)

section \<open>Configuration files as transaction steps\<close>

text \<open>A writer's step: \<open>apply_with_rollback\<close> on its file, undone by \<open>rollback_config\<close>.\<close>

record file_step =
  st_key :: string
  st_io :: io
  st_path :: string
  st_content :: string
  st_mode :: nat
  st_restart :: restarter
  st_validate :: "validator option"

definition file_apply :: "file_step \<Rightarrow> fs apply_fn" where
  "file_apply i fs =
     (case apply_with_rollback True (st_io i) (st_path i) (st_content i) (st_restart i)
             (st_validate i) (st_mode i) True fs of
        (fs', Inl e) \<Rightarrow> (fs', Raises e)
      | (fs', Inr out) \<Rightarrow> (fs', Answer (ao_ok out) (ao_message out)))"

definition file_rollback :: "file_step \<Rightarrow> fs rollback_fn" where
  "file_rollback i fs =
     (case rollback_config True (st_io i) (st_path i) fs of
        (fs', Inl e) \<Rightarrow> (fs', Some e)
      | (fs', Inr _) \<Rightarrow> (fs', None))"

definition file_run :: "file_step \<Rightarrow> fs \<Rightarrow> fs \<times> bool" where
  "file_run i fs = (fst (file_apply i fs), answer_ok (snd (file_apply i fs)))"

definition file_undo :: "file_step \<Rightarrow> fs \<Rightarrow> fs" where
  "file_undo i fs = fst (file_rollback i fs)"

text \<open>The file exists, no call fails, and the restart leaves files alone.\<close>

definition file_ready :: "file_step \<Rightarrow> fs \<Rightarrow> bool" where
  "file_ready i fs \<longleftrightarrow> fs (st_path i) \<noteq> None \<and> tmp_fresh (st_io i) (st_path i) fs
     \<and> no_faults (st_io i) \<and> quiet (st_restart i)"

text \<open>The same for a file that does not exist yet and has no backup.\<close>

definition file_ready_new :: "file_step \<Rightarrow> fs \<Rightarrow> bool" where
  "file_ready_new i fs \<longleftrightarrow> fs (st_path i) = None \<and> fs (backup_of (st_path i)) = None
     \<and> tmp_fresh (st_io i) (st_path i) fs \<and> no_faults (st_io i) \<and> quiet (st_restart i)"

definition file_own :: "file_step \<Rightarrow> string set" where
  "file_own i = {st_path i, backup_of (st_path i), io_tmp (st_io i)}"

definition file_pub :: "file_step \<Rightarrow> string set" where
  "file_pub i = {st_path i, io_tmp (st_io i)}"

text \<open>The three ends of a ready step.\<close>

lemma file_run_cases:
  assumes "file_ready i fs"
  obtains (reject) "file_run i fs = (fs, False)"
    | (good) "file_run i fs = (fs(backup_of (st_path i) := fs (st_path i),
                 st_path i \<mapsto> \<lparr>f_content = st_content i, f_mode = st_mode i\<rparr>), True)"
    | (bad) "file_run i fs = (fs(backup_of (st_path i) := fs (st_path i)), False)"
proof -
  let ?p = "st_path i" and ?v = "run_validate (st_validate i) (io_tmp (st_io i))
    (staged (st_io i) (st_content i) (st_mode i) fs)"
  let ?in = "installed True (st_io i) ?p (st_content i) (st_mode i) fs"
  have r: "fs ?p \<noteq> None" "tmp_fresh (st_io i) ?p fs" "no_faults (st_io i)" "quiet (st_restart i)"
    using assms by (simp_all add: file_ready_def)
  show ?thesis
  proof (cases "verdict_ok ?v")
    case False
    then obtain m q where "apply_with_rollback True (st_io i) ?p (st_content i) (st_restart i)
        (st_validate i) (st_mode i) True fs
      = (fs, Inr ((outcome False False m)\<lparr>ao_validated := Some False, ao_validation_output := Some q\<rparr>))"
      using rejected[of "st_io i" ?p fs "st_validate i" "st_content i" "st_mode i" True "st_restart i" True] r
      by (auto simp: no_faults_def)
    then show ?thesis
      by (intro reject) (simp add: file_run_def file_apply_def outcome_def)
  next
    case True
    note acc = accepted[of "st_io i" ?p fs "st_validate i" "st_content i" "st_mode i" True
        "st_restart i" True, OF r(2,3) True]
    show ?thesis
    proof (cases "restart_ok (st_restart i) ?in")
      case True
      then obtain m where "restart_or_rollback True (st_io i) ?p (st_restart i) True ?in
          = (?in, Inr (outcome True False m))"
        using restart_good[OF r(4)] by blast
      then show ?thesis using acc r(1)
        by (intro good) (simp add: file_run_def file_apply_def outcome_def installed_def)
    next
      case False
      obtain rb where rb: "rollback_config True (st_io i) ?p ?in
          = (?in(?p := ?in (backup_of ?p)), Inr rb)"
        using rollback_good[of "st_io i" ?in ?p] r by (auto simp: no_faults_def installed_def)
      have "?in(?p := ?in (backup_of ?p)) = fs(backup_of ?p := fs ?p)"
        using r(1) by (auto simp: installed_def)
      then show ?thesis using acc restart_bad[OF r(4) False, of "st_io i" ?p] rb
        by (intro bad) (simp add: file_run_def file_apply_def outcome_def)
    qed
  qed
qed

lemma file_undo_eq:
  "file_undo i fs =
     (if fs (backup_of (st_path i)) = None then fs
      else fst (copy2 (io_restore (st_io i)) (backup_of (st_path i)) (st_path i) fs))"
  by (auto simp: file_undo_def file_rollback_def rollback_config_def copy2_def
      split: option.split copy_fault.split)

interpretation file_steps: undo_steps file_run file_undo file_ready file_own file_pub
proof unfold_locales
  show "fst (file_run i s) p = s p" if "file_ready i s" "p \<notin> file_own i" for i s p
    using that(1) by (rule file_run_cases) (use that(2) in \<open>auto simp: file_own_def\<close>)
  show "file_undo i s p = s p" if "p \<notin> file_own i" for i s p
    using that by (auto simp: file_undo_eq file_own_def copy2_def split: option.split copy_fault.split)
  show "file_undo i s q = file_undo i t q"
    if "\<And>p. p \<in> file_own i \<Longrightarrow> s p = t p" "q \<in> file_own i" for i s t q
    using that by (auto simp: file_undo_eq file_own_def copy2_def split: option.split copy_fault.split)
  show "file_ready i s = file_ready i t" if "\<And>p. p \<in> file_own i \<Longrightarrow> s p = t p" for i s t
    using that by (auto simp: file_ready_def tmp_fresh_def file_own_def)
  show "file_undo i (fst (file_run i s)) p = s p"
    if "file_ready i s" "snd (file_run i s)" "p \<in> file_pub i" for i s p
    using that(1)
    by (rule file_run_cases)
      (use that in \<open>auto simp: file_undo_eq copy2_def file_pub_def file_ready_def tmp_fresh_def no_faults_def\<close>)
  show "fst (file_run i s) p = s p" if "file_ready i s" "\<not> snd (file_run i s)" "p \<in> file_pub i" for i s p
    using that(1)
    by (rule file_run_cases) (use that in \<open>auto simp: file_pub_def file_ready_def tmp_fresh_def\<close>)
  show "file_pub i \<subseteq> file_own i" for i
    by (auto simp: file_pub_def file_own_def)
qed

interpretation file_txn: txn_steps file_run file_undo file_ready file_own file_pub
  st_key file_apply file_rollback
  by unfold_locales (simp_all add: file_run_def file_undo_def)

section \<open>Properties\<close>

definition sample_io :: "string \<Rightarrow> io" where
  "sample_io tmp =
     \<lparr>io_tmp = tmp, io_mkstemp = None, io_write = None, io_replace = None, io_backup = None, io_restore = None\<rparr>"

definition sample_step :: "string \<Rightarrow> string \<Rightarrow> string \<Rightarrow> bool \<Rightarrow> file_step" where
  "sample_step path tmp content ok =
     \<lparr>st_key = path, st_io = sample_io tmp, st_path = path, st_content = content, st_mode = 420,
      st_restart = (\<lambda>fs. (fs, Inr (ok, None))), st_validate = None\<rparr>"

definition sample_fs :: fs where
  "sample_fs = [''/a'' \<mapsto> \<lparr>f_content = ''old a'', f_mode = 420\<rparr>, ''/b'' \<mapsto> \<lparr>f_content = ''old b'', f_mode = 420\<rparr>]"

definition sample_txn :: "fs txn" where
  "sample_txn = new_txn True None ''alice'' ''dns'' False 0"

text \<open>
  C6: take a \<open>with ConfigTransaction\<close> block, outside the dry run, whose steps write distinct configuration files that exist. No file operation
  fails, so that each step takes a fresh backup; the temporary names are unused; no file, temporary name or backup belongs to two steps; and the restarts leave the
  files alone. The block either ends without an exception, or leaves every one of those files, and everything outside the
  files, their temporary names and their backups, as it was before the block.
\<close>

theorem file_transaction_atomic:
  assumes "\<not> tx_dry_run t" "tx_steps t = []" "distinct is" "\<forall>i \<in> set is. file_ready i fs"
    and "\<forall>i \<in> set is. \<forall>j \<in> set is. i \<noteq> j \<longrightarrow> file_own i \<inter> file_own j = {}"
    and "run_with hs sha16 now
           (map (\<lambda>i. Apply_Step (st_key i) (file_apply i) (Some (file_rollback i))) is) t fs = (t', fs', Some e)"
  shows "(\<forall>i \<in> set is. fs' (st_path i) = fs (st_path i) \<and> fs' (io_tmp (st_io i)) = None)
     \<and> (\<forall>p. (\<forall>i \<in> set is. p \<notin> file_own i) \<longrightarrow> fs' p = fs p)"
proof -
  have d: "file_steps.disjoint_steps is"
    using assms(3,5) by (simp add: file_steps.disjoint_steps_def)
  note at = file_txn.with_atomic[OF assms(1,2) d assms(4), of hs sha16 now t' fs' e, unfolded file_txn.block_def,
      OF assms(6)]
  have "fs (io_tmp (st_io i)) = None" if "i \<in> set is" for i
    using assms(4) that by (simp add: file_ready_def tmp_fresh_def)
  with at show ?thesis by (simp add: file_pub_def)
qed

lemma file_transaction_atomic_witness:
  "\<exists>t' fs' e. run_with (\<lambda>_. None) (\<lambda>s. s) 0
       (map (\<lambda>i. Apply_Step (st_key i) (file_apply i) (Some (file_rollback i)))
         [sample_step ''/a'' ''/t1'' ''new a'' True, sample_step ''/b'' ''/t2'' ''new b'' False])
       sample_txn sample_fs = (t', fs', Some e)
     \<and> fs' ''/a'' = sample_fs ''/a'' \<and> fs' ''/b'' = sample_fs ''/b''"
proof -
  let ?is = "[sample_step ''/a'' ''/t1'' ''new a'' True, sample_step ''/b'' ''/t2'' ''new b'' False]"
  have t: "\<not> tx_dry_run sample_txn" "tx_steps sample_txn = []" by (simp_all add: sample_txn_def new_txn_def)
  have rdy: "\<forall>i \<in> set ?is. file_ready i sample_fs"
    by (simp add: sample_step_def sample_io_def sample_fs_def file_ready_def tmp_fresh_def backup_of_def
        no_faults_def quiet_def)
  have dis: "distinct ?is" "\<forall>i \<in> set ?is. \<forall>j \<in> set ?is. i \<noteq> j \<longrightarrow> file_own i \<inter> file_own j = {}"
    by (auto simp: sample_step_def sample_io_def file_own_def backup_of_def)
  obtain t' e where r: "run_with (\<lambda>_. None) (\<lambda>s. s) 0
       (map (\<lambda>i. Apply_Step (st_key i) (file_apply i) (Some (file_rollback i))) ?is) sample_txn sample_fs
     = (t', fst (file_steps.run_all [] ?is sample_fs), e)" "e = None \<longleftrightarrow> snd (file_steps.run_all [] ?is sample_fs)"
    using file_txn.run_with_run_all[OF t, unfolded file_txn.block_def] by blast
  have "\<not> snd (file_steps.run_all [] ?is sample_fs)"
    by (simp add: sample_step_def sample_io_def sample_fs_def file_run_def file_apply_def apply_with_rollback_def
        stage_def run_validate_def backup_config_def copy2_def backup_of_def replace_def restart_or_rollback_def
        rollback_config_def outcome_def split: if_splits)
  with r obtain x where x: "e = Some x" by auto
  from file_transaction_atomic[OF t dis(1) rdy dis(2) r(1)[unfolded x]] r(1) x show ?thesis
    by (auto simp: sample_step_def)
qed

text \<open>
  When the service does not come back after the swap, \<open>apply_with_rollback\<close> puts the old
  file back, keeps a copy of it as the known-good backup, and reports the failure and the rollback.
\<close>

theorem restart_failure_restores:
  assumes "tmp_fresh io path fs" "no_faults io" "quiet restart" "fs path = Some old"
    and "verdict_ok (run_validate validate (io_tmp io) (staged io content mode fs))"
    and "\<not> restart_ok restart (installed True io path content mode fs)"
  shows "\<exists>r. apply_with_rollback True io path content restart validate mode True fs
       = (fs(backup_of path \<mapsto> old), Inr r) \<and> \<not> ao_ok r \<and> ao_rolled_back r"
proof -
  let ?in = "installed True io path content mode fs"
  obtain rb where "rollback_config True io path ?in = (?in(path := ?in (backup_of path)), Inr rb)" "op_ok rb"
    using rollback_good[of io ?in path] assms(2,4) by (auto simp: no_faults_def installed_def)
  moreover have "?in(path := ?in (backup_of path)) = fs(backup_of path \<mapsto> old)"
    using assms(4) by (auto simp: installed_def)
  ultimately show ?thesis
    using accepted[OF assms(1,2,5)] restart_bad[OF assms(3,6), of io path] by (simp add: outcome_def)
qed

lemma restart_failure_restores_witness:
  "\<exists>r. apply_with_rollback True (sample_io ''/t'') ''/a'' ''new'' (\<lambda>fs. (fs, Inl (RuntimeError ''down''))) None 420 True
         sample_fs
       = (sample_fs(backup_of ''/a'' \<mapsto> \<lparr>f_content = ''old a'', f_mode = 420\<rparr>), Inr r) \<and> \<not> ao_ok r \<and> ao_rolled_back r"
  by (rule restart_failure_restores)
    (simp_all add: tmp_fresh_def no_faults_def quiet_def sample_io_def sample_fs_def backup_of_def
      run_validate_def restart_ok_def)

text \<open>
  A run that reports the validation as failed has left the file system as it found it,
  apart from the temporary name, which is gone; nothing is asked of the calls around it.
\<close>

theorem rejected_content_not_installed:
  assumes "apply_with_rollback freebsd io path content restart validate mode rof fs = (fs', Inr r)"
    and "ao_validated r = Some False"
  shows "fs' = fs(io_tmp io := None) \<and> \<not> ao_ok r \<and> \<not> ao_rolled_back r"
  using assms
  by (auto simp: apply_with_rollback_def stage_def unlink_def outcome_def restart_or_rollback_def Let_def
      split: option.splits if_splits prod.splits sum.splits)

lemma rejected_content_not_installed_witness:
  "fst (apply_with_rollback True (sample_io ''/t'') ''/a'' ''bad'' (\<lambda>fs. (fs, Inr (True, None)))
      (Some (\<lambda>p fs. Inr (VDict False (Some ''syntax'') []))) 420 True sample_fs) = sample_fs(''/t'' := None)"
proof -
  obtain fs' r where "apply_with_rollback True (sample_io ''/t'') ''/a'' ''bad'' (\<lambda>fs. (fs, Inr (True, None)))
      (Some (\<lambda>p fs. Inr (VDict False (Some ''syntax'') []))) 420 True sample_fs = (fs', Inr r)"
    "ao_validated r = Some False"
    by (simp add: apply_with_rollback_def sample_io_def stage_def run_validate_def outcome_def)
  from rejected_content_not_installed[OF this] this show ?thesis by (simp add: sample_io_def)
qed

text \<open>
  The backup copy can fail (full disk, permissions) and the run goes on; if the service then
  does not come back, the rollback installs whatever older backup is lying around, the file that
  was live is gone, and the result still says \<open>rolled_back\<close>.
\<close>

theorem stale_backup_restored:
  assumes "tmp_fresh io path fs" "io_mkstemp io = None" "io_write io = None" "io_replace io = None"
    and "io_restore io = None" "io_backup io = Some (CopyFault None (OSError m))"
    and "fs path = Some old" "fs (backup_of path) = Some stale"
    and "verdict_ok (run_validate validate (io_tmp io) (staged io content mode fs))"
    and "quiet restart" "\<not> restart_ok restart (fs(path \<mapsto> \<lparr>f_content = content, f_mode = mode\<rparr>))"
  shows "\<exists>r. apply_with_rollback True io path content restart validate mode True fs
       = (fs(path \<mapsto> stale), Inr r) \<and> ao_rolled_back r"
proof -
  let ?new = "fs(path \<mapsto> \<lparr>f_content = content, f_mode = mode\<rparr>)" and ?st = "staged io content mode fs"
  have st: "stage io content mode fs = (?st, None)" using assms(3) by (simp add: stage_def staged_def)
  have b: "backup_config True io path ?st = (?st, Inr None)"
    using assms(1,6,7) by (auto simp: backup_config_def copy2_def is_oserror_def staged_def tmp_fresh_def)
  have r: "replace (io_tmp io) path ?st = ?new"
    using assms(1) by (auto simp: replace_def staged_def tmp_fresh_def)
  obtain rb where "rollback_config True io path ?new = (?new(path := ?new (backup_of path)), Inr rb)" "op_ok rb"
    using rollback_good[of io ?new path] assms(5,8) by auto
  then show ?thesis
    using assms(2,4,8,9) st b r restart_bad[OF assms(10,11), of io path]
    by (simp add: apply_with_rollback_def Let_def outcome_def)
qed

lemma stale_backup_restored_witness:
  "\<exists>r. apply_with_rollback True ((sample_io ''/t'')\<lparr>io_backup := Some (CopyFault None (OSError ''no space''))\<rparr>)
       ''/a'' ''new'' (\<lambda>fs. (fs, Inr (False, None))) None 420 True
       (sample_fs(backup_of ''/a'' \<mapsto> \<lparr>f_content = ''last year'', f_mode = 420\<rparr>))
     = (sample_fs(backup_of ''/a'' \<mapsto> \<lparr>f_content = ''last year'', f_mode = 420\<rparr>,
                  ''/a'' \<mapsto> \<lparr>f_content = ''last year'', f_mode = 420\<rparr>), Inr r) \<and> ao_rolled_back r"
  by (rule stale_backup_restored[where old = "\<lparr>f_content = ''old a'', f_mode = 420\<rparr>"])
    (simp_all add: tmp_fresh_def quiet_def sample_io_def sample_fs_def backup_of_def run_validate_def restart_ok_def)


text \<open>
  A file that did not exist before the block has no backup, and its rollback reports that in
  a result the transaction does not look at: the failed block leaves the new file in place.
\<close>

theorem new_file_survives_rollback:
  assumes "\<not> tx_dry_run t" "tx_steps t = []" "file_ready_new i fs"
    and "verdict_ok (run_validate (st_validate i) (io_tmp (st_io i)) (staged (st_io i) (st_content i) (st_mode i) fs))"
    and "restart_ok (st_restart i) (installed True (st_io i) (st_path i) (st_content i) (st_mode i) fs)"
    and "\<And>fs. fst (fn fs) = fs \<and> \<not> answer_ok (snd (fn fs))"
  shows "\<exists>t' m. run_with hs sha16 now
       [Apply_Step (st_key i) (file_apply i) (Some (file_rollback i)), Apply_Step key fn None] t fs
     = (t', fs(st_path i \<mapsto> \<lparr>f_content = st_content i, f_mode = st_mode i\<rparr>), Some (TransactionError m))"
proof -
  let ?p = "st_path i" and ?fs = "fs(st_path i \<mapsto> \<lparr>f_content = st_content i, f_mode = st_mode i\<rparr>)"
  have r: "fs ?p = None" "fs (backup_of ?p) = None" "tmp_fresh (st_io i) ?p fs" "no_faults (st_io i)" "quiet (st_restart i)"
    using assms(3) by (simp_all add: file_ready_new_def)
  have inst: "installed True (st_io i) ?p (st_content i) (st_mode i) fs = ?fs"
    using r(1) by (simp add: installed_def)
  obtain msg where "apply_with_rollback True (st_io i) ?p (st_content i) (st_restart i) (st_validate i) (st_mode i) True fs
      = (?fs, Inr (outcome True False msg))"
    using accepted[OF r(3,4) assms(4), of True "st_restart i" True] restart_good[OF r(5) assms(5)] inst by metis
  then have ap: "file_apply i fs = (?fs, Answer True msg)" by (simp add: file_apply_def outcome_def)
  note ok = txn_apply_ok[OF assms(1), of "file_apply i" fs, unfolded ap, simplified, of hs sha16 now "st_key i" "Some (file_rollback i)"]
  let ?r1 = "txn_apply hs sha16 now (st_key i) (file_apply i) (Some (file_rollback i)) t fs"
  obtain x where r1: "?r1 = (fst ?r1, ?fs, Inr x)" using ok(1,2) by (metis prod.collapse)
  let ?r2 = "txn_apply hs sha16 now key fn None (fst ?r1) ?fs"
  note no = txn_apply_fail[OF ok(4), of fn ?fs hs sha16 now key None]
  have un: "fst (file_rollback i ?fs) = ?fs"
    using r(2) file_undo_eq[of i ?fs] by (simp add: file_undo_def)
  have w: "fst (snd ?r2) = ?fs"
    using no(1) assms(6) ok(3) assms(2) un by simp
  obtain m where m: "snd (snd ?r2) = Inl (TransactionError m)" using no(2) assms(6) by blast
  show ?thesis using run_with_second_fails[OF r1 m] w by simp
qed

lemma new_file_survives_rollback_witness:
  "\<exists>t' m. run_with (\<lambda>_. None) (\<lambda>s. s) 0
       [Apply_Step (st_key (sample_step ''/c'' ''/t'' ''new'' True)) (file_apply (sample_step ''/c'' ''/t'' ''new'' True))
          (Some (file_rollback (sample_step ''/c'' ''/t'' ''new'' True))),
        Apply_Step ''pf'' (\<lambda>fs. (fs, Raises (RuntimeError ''down''))) None] sample_txn sample_fs
     = (t', sample_fs(st_path (sample_step ''/c'' ''/t'' ''new'' True)
          \<mapsto> \<lparr>f_content = st_content (sample_step ''/c'' ''/t'' ''new'' True),
              f_mode = st_mode (sample_step ''/c'' ''/t'' ''new'' True)\<rparr>), Some (TransactionError m))"
  by (rule new_file_survives_rollback)
    (simp_all add: sample_txn_def new_txn_def file_ready_new_def sample_step_def sample_io_def sample_fs_def tmp_fresh_def
      backup_of_def no_faults_def quiet_def run_validate_def restart_ok_def)

end
