(* ===== verification/ServiceManager.thy ===== *)
theory ServiceManager
  imports PrivHelper ConfigFile
begin

text \<open>
  \<^verbatim>\<open>app/services/service_manager.py\<close>: rc.conf variables, service actions and the reload of every
  service, over the privileged helper.  The host has files, the audit log of privileged calls and the
  rest of the world; a command may do anything to it.
\<close>

section \<open>The host\<close>

record 'w host =
  hs_files :: fs
  hs_audit :: "PrivHelper.audit_event list"
  hs_world :: 'w

text \<open>\<open>run_privileged\<close> with its default audit name.\<close>

definition priv :: "'w host exec_env \<Rightarrow> string \<Rightarrow> (string \<times> pyval) list \<Rightarrow> 'w host \<Rightarrow> 'w host \<times> command_result res" where
  "priv env action params h =
     (case run_privileged env action ''system'' params h of
        (h1, events, r) \<Rightarrow> (h1\<lparr>hs_audit := hs_audit h1 @ events\<rparr>, r))"

text \<open>Commands that leave the files the program writes alone.\<close>

definition keeps_files :: "'w host exec_env \<Rightarrow> bool" where
  "keeps_files env \<longleftrightarrow> (\<forall>argv h. hs_files (fst (ne_exec env argv h)) = hs_files h)"

section \<open>rc.conf variables\<close>

definition ok_result :: "string \<Rightarrow> op_result" where
  "ok_result m = \<lparr>op_ok = True, op_message = m\<rparr>"

definition err_result :: "string \<Rightarrow> op_result" where
  "err_result m = \<lparr>op_ok = False, op_message = m\<rparr>"

text \<open>\<open>except (FreeBSDNetworkError, PrivilegedActionError)\<close>.\<close>

definition service_error :: "pyexn \<Rightarrow> bool" where
  "service_error e \<longleftrightarrow> (case e of FreeBSDNetworkError _ \<Rightarrow> True | PrivilegedActionError _ \<Rightarrow> True | _ \<Rightarrow> False)"

text \<open>Both streams of a command, or a default.\<close>

definition both_streams :: "command_result \<Rightarrow> string \<Rightarrow> string" where
  "both_streams r d =
     (let parts = filter (\<lambda>p. p \<noteq> []) (map strip [cr_out r, cr_err r])
      in if join nl parts = [] then d else join nl parts)"

definition command_answer :: "string \<Rightarrow> 'w host \<times> command_result res \<Rightarrow> 'w host \<times> op_result res" where
  "command_answer d call =
     (case call of
        (h, Inl e) \<Rightarrow> (h, if service_error e then Inr (err_result (exn_str e)) else Inl e)
      | (h, Inr r) \<Rightarrow> (h, Inr \<lparr>op_ok = cr_code r = 0, op_message = both_streams r d\<rparr>))"

definition sysrc_get :: "'w host exec_env \<Rightarrow> string \<Rightarrow> 'w host \<Rightarrow> 'w host \<times> string option res" where
  "sysrc_get env key h =
     (if \<not> ne_freebsd env then (h, Inr None)
      else case priv env ''sysrc.get'' [(''key'', PStr key)] h of
        (h1, Inl e) \<Rightarrow> (h1, if service_error e then Inr None else Inl e)
      | (h1, Inr r) \<Rightarrow> (h1, Inr (if cr_code r = 0 \<and> strip (cr_out r) \<noteq> [] then Some (strip (cr_out r)) else None)))"

definition sysrc_set :: "'w host exec_env \<Rightarrow> string \<Rightarrow> string \<Rightarrow> 'w host \<Rightarrow> 'w host \<times> op_result res" where
  "sysrc_set env key v h =
     (if \<not> ne_freebsd env
      then (h, Inr (ok_result (''Non-FreeBSD '' @ em_dash @ '' skipped sysrc '' @ key @ ''='' @ v)))
      else command_answer (''sysrc: '' @ key @ ''='' @ v)
             (priv env ''sysrc.set'' [(''key'', PStr key), (''value'', PStr v)] h))"

section \<open>Service actions\<close>

definition valid_actions :: "string list" where
  "valid_actions = [''start'', ''stop'', ''restart'', ''reload'', ''status'', ''enable'', ''disable'']"

definition service_action :: "'w host exec_env \<Rightarrow> string \<Rightarrow> string \<Rightarrow> 'w host \<Rightarrow> 'w host \<times> op_result res" where
  "service_action env name act0 h =
     (if \<not> ne_freebsd env
      then (h, Inr (ok_result (''Non-FreeBSD '' @ em_dash @ '' skipped: service '' @ name @ '' '' @ act0)))
      else let act = strip (lower act0) in
        if act \<notin> set valid_actions then (h, Inr (err_result (''Unknown service action: '' @ act)))
        else if act = ''enable'' then sysrc_set env (name @ ''_enable'') ''YES'' h
        else if act = ''disable'' then sysrc_set env (name @ ''_enable'') ''NO'' h
        else command_answer (''service '' @ name @ '' '' @ act @ '' completed'')
               (priv env ''service.action'' [(''service_name'', PStr name), (''action'', PStr act)] h))"

definition service_is_enabled :: "'w host exec_env \<Rightarrow> string \<Rightarrow> 'w host \<Rightarrow> 'w host \<times> bool res" where
  "service_is_enabled env name h =
     (case sysrc_get env (name @ ''_enable'') h of
        (h1, Inl e) \<Rightarrow> (h1, Inl e)
      | (h1, Inr v) \<Rightarrow> (h1, Inr (upper (strip (or_str v [])) = ''YES'')))"

record svc_status =
  ss_ok :: bool
  ss_running :: bool
  ss_message :: string

definition service_status :: "'w host exec_env \<Rightarrow> string \<Rightarrow> 'w host \<Rightarrow> 'w host \<times> svc_status res" where
  "service_status env name h =
     (if \<not> ne_freebsd env
      then (h, Inr \<lparr>ss_ok = True, ss_running = False, ss_message = ''Non-FreeBSD host''\<rparr>)
      else case service_action env name ''status'' h of
        (h1, Inl e) \<Rightarrow> (h1, Inl e)
      | (h1, Inr r) \<Rightarrow>
          (h1, Inr \<lparr>ss_ok = op_ok r, ss_running = op_ok r \<and> contains ''running'' (lower (op_message r)),
                    ss_message = op_message r\<rparr>))"

section \<open>Reloading every service\<close>

text \<open>
  The apply functions of the writers, by service; \<open>rl_bad\<close> is the exception of \<open>json.loads\<close> on a
  settings row it cannot read.
\<close>

record 'w reload_env =
  re_apply :: "string \<Rightarrow> 'w host \<Rightarrow> 'w host \<times> op_result res"
  re_state :: service_state
  re_bad :: "string \<Rightarrow> pyexn"

definition settings_doc :: "'w reload_env \<Rightarrow> string \<Rightarrow> pyval \<Rightarrow> pyval res" where
  "settings_doc env key d =
     (case re_state env key of
        None \<Rightarrow> Inr d
      | Some BadJson \<Rightarrow> Inl (re_bad env key)
      | Some (Json v) \<Rightarrow> Inr v)"

definition enabled_setting :: "string \<Rightarrow> bool \<Rightarrow> 'w reload_env \<Rightarrow> bool res" where
  "enabled_setting key d env =
     bind_res (settings_doc env key (PDict [])) (\<lambda>v.
     bind_res (get_attr v ''enabled'') (\<lambda>x.
     Inr (case x of None \<Rightarrow> d | Some b \<Rightarrow> py_bool_of b)))"

text \<open>\<open>any(not c.get("disabled") for c in clients)\<close>, which stops at the first client in use.\<close>

fun any_active :: "pyval list \<Rightarrow> bool res" where
  "any_active [] = Inr False"
| "any_active (c # cs) =
     bind_res (get_attr c ''disabled'') (\<lambda>x.
       if py_bool_of (case x of None \<Rightarrow> PNone | Some v \<Rightarrow> v) then any_active cs else Inr True)"

fun iterate :: "pyval \<Rightarrow> pyval list res" where
  "iterate (PList vs) = Inr vs"
| "iterate (PDict kvs) = Inr (map (\<lambda>(k, v). PStr k) kvs)"
| "iterate (PStr s) = Inr (map (\<lambda>c. PStr [c]) s)"
| "iterate v = Inl (TypeError (apos @ type_name v @ apos @ '' object is not iterable''))"

definition ddns_wanted :: "'w reload_env \<Rightarrow> bool res" where
  "ddns_wanted env = bind_res (settings_doc env ''dynamic_dns_clients'' (PList [])) (\<lambda>v. bind_res (iterate v) any_active)"

definition always :: "'w reload_env \<Rightarrow> bool res" where
  "always env = Inr True"

text \<open>The services behind pf, in order, each with the name it is reported under and its condition.\<close>

definition reload_steps :: "(string \<times> ('w reload_env \<Rightarrow> bool res)) list" where
  "reload_steps =
     [(''nginx'', always), (''dhcpd'', always), (''unbound'', always), (''openvpn'', always),
      (''strongswan'', always), (''l2tp'', always), (''ntpd'', enabled_setting ''ntp_settings'' True),
      (''suricata'', always), (''ddns'', ddns_wanted), (''bsnmpd'', enabled_setting ''snmp_settings'' False),
      (''miniupnpd'', enabled_setting ''upnp_settings'' False), (''igmpproxy'', enabled_setting ''igmp_settings'' False),
      (''captive_portal'', always)]"

definition reload_entry :: "string \<Rightarrow> op_result res \<Rightarrow> string \<times> op_result" where
  "reload_entry name r = (name, case r of Inl e \<Rightarrow> err_result (exn_str e) | Inr x \<Rightarrow> x)"

fun run_reloads ::
  "'w reload_env \<Rightarrow> (string \<times> ('w reload_env \<Rightarrow> bool res)) list \<Rightarrow> 'w host \<Rightarrow> (string \<times> op_result) list
     \<Rightarrow> 'w host \<times> (string \<times> op_result) list" where
  "run_reloads env [] h rs = (h, rs)"
| "run_reloads env ((name, wanted) # steps) h rs =
     (case wanted env of
        Inl e \<Rightarrow> run_reloads env steps h (rs @ [reload_entry name (Inl e)])
      | Inr False \<Rightarrow> run_reloads env steps h rs
      | Inr True \<Rightarrow>
          (case re_apply env name h of
             (h1, r) \<Rightarrow> run_reloads env steps h1 (rs @ [reload_entry name r])))"

definition reload_all_services :: "'w reload_env \<Rightarrow> 'w host \<Rightarrow> 'w host \<times> (bool \<times> (string \<times> op_result) list) res" where
  "reload_all_services env h =
     (case re_apply env ''pf'' h of
        (h1, Inl e) \<Rightarrow> (h1, Inl e)
      | (h1, Inr r) \<Rightarrow>
          (case run_reloads env reload_steps h1 [(''pf'', r)] of
             (h2, rs) \<Rightarrow> (h2, Inr (list_all (\<lambda>(n, x). op_ok x) rs, rs))))"

section \<open>What a service action does\<close>

lemma priv_files:
  assumes "keeps_files env"
  shows "hs_files (fst (priv env action params h)) = hs_files h"
proof (cases "build_command action params")
  case (Inl e)
  then show ?thesis by (simp add: priv_def run_privileged_def)
next
  case (Inr x)
  then show ?thesis
    using assms by (auto simp: priv_def run_privileged_def Let_def run_command_world keeps_files_def
        split: prod.splits dest!: arg_cong[where f = fst])
qed

lemma command_answer_host [simp]: "fst (command_answer d call) = fst call"
  by (simp add: command_answer_def split: prod.split sum.split)

lemma service_action_files:
  "keeps_files env \<Longrightarrow> hs_files (fst (service_action env name act h)) = hs_files h"
  by (simp add: service_action_def sysrc_set_def Let_def priv_files)

lemma sysrc_set_files: "keeps_files env \<Longrightarrow> hs_files (fst (sysrc_set env k v h)) = hs_files h"
  by (simp add: sysrc_set_def priv_files)


lemma service_entries:
  "map_of allowlist ''service.action'' =
     Some ([''/usr/sbin/service'', ''{service_name}'', ''{action}''],
       [(''service_name'', val_service_name), (''action'', val_service_action)])"
  "map_of allowlist ''sysrc.set'' =
     Some ([''/usr/sbin/sysrc'', ''{key}={value}''], [(''key'', val_sysrc_key), (''value'', val_sysrc_value)])"
  by (simp_all add: allowlist_def)

lemma refused_service_command:
  assumes "strip name \<notin> set known_services"
  shows "\<exists>m. build_command ''service.action'' [(''service_name'', PStr name), (''action'', PStr act)]
           = Inl (PrivilegedActionError m)"
  using assms by (simp add: build_command_def service_entries val_service_name_def Let_def)

text \<open>The name of the variable that enables a service passes the helper's check.\<close>

definition makes_variable :: "string \<Rightarrow> bool" where
  "makes_variable name \<longleftrightarrow>
     head_tail (\<lambda>c. is_alpha c \<or> c = CHR ''_'') is_word_char 63 (strip (name @ ''_enable''))"

lemma refused_sysrc_command:
  assumes "\<not> makes_variable name"
  shows "\<exists>m. build_command ''sysrc.set'' [(''key'', PStr (name @ ''_enable'')), (''value'', PStr v)] = Inl (PrivilegedActionError m)"
  using assms by (simp add: makes_variable_def build_command_def service_entries val_sysrc_key_def Let_def)

lemma priv_refused:
  assumes "build_command action params = Inl (PrivilegedActionError m)"
  shows "command_answer d (priv env action params h) = (h, Inr (err_result m))"
  by (simp add: priv_def run_privileged_def assms command_answer_def service_error_def)

text \<open>
  C19: on FreeBSD a service action reaches the host only when it is one of the seven known ones, and for a service of the helper's
  list, or, when it enables or disables one, for any name that makes an rc.conf variable. Every other call is answered with
  an error and changes nothing.
\<close>

theorem service_action_guarded:
  assumes "ne_freebsd env"
    and "strip (lower act) \<notin> set valid_actions
       \<or> (strip (lower act) \<in> {''enable'', ''disable''} \<and> \<not> makes_variable name)
       \<or> (strip (lower act) \<notin> {''enable'', ''disable''} \<and> strip name \<notin> set known_services)"
  shows "\<exists>m. service_action env name act h = (h, Inr (err_result m))"
proof (cases "strip (lower act) \<in> set valid_actions")
  case False
  then have "service_action env name act h = (h, Inr (err_result (''Unknown service action: '' @ strip (lower act))))"
    using assms(1) by (simp add: service_action_def Let_def)
  then show ?thesis by blast
next
  case valid: True
  show ?thesis
  proof (cases "strip (lower act) \<in> {''enable'', ''disable''}")
    case True
    then have "\<not> makes_variable name" using assms(2) valid by blast
    from refused_sysrc_command[OF this] show ?thesis
      using True valid assms(1) priv_refused by (fastforce simp: service_action_def sysrc_set_def Let_def)
  next
    case False
    then have "strip name \<notin> set known_services" using assms(2) valid by blast
    from refused_service_command[OF this] show ?thesis
      using False valid assms(1) priv_refused by (fastforce simp: service_action_def Let_def)
  qed
qed

text \<open>The base resolver is asked to stop under a name the helper does not know, so it never is.\<close>

lemma service_action_guarded_witness:
  "\<forall>h :: unit host. \<exists>m. service_action \<lparr>ne_dry_run = False, ne_freebsd = True, ne_root = True, ne_sudo = [], ne_exec = \<lambda>argv h. (h, TimedOut)\<rparr>
     ''local_unbound'' ''stop'' h = (h, Inr (err_result m))"
proof
  fix h :: "unit host"
  have "strip (lower ''stop'') = ''stop''" "strip ''local_unbound'' = ''local_unbound''"
    by (simp_all add: lower_def to_lower_def strip_def lstrip_def rstrip_def char_class_defs)
  then show "\<exists>m. service_action \<lparr>ne_dry_run = False, ne_freebsd = True, ne_root = True, ne_sudo = [], ne_exec = \<lambda>argv h. (h, TimedOut)\<rparr>
     ''local_unbound'' ''stop'' h = (h, Inr (err_result m))"
    by (intro service_action_guarded) (simp_all add: known_services_def)
qed

section \<open>What a reload of every service does\<close>

definition wanted_names :: "'w reload_env \<Rightarrow> (string \<times> ('w reload_env \<Rightarrow> bool res)) list \<Rightarrow> string list" where
  "wanted_names env steps = map fst (filter (\<lambda>(n, g). g env = Inr True) steps)"

definition reported_names :: "'w reload_env \<Rightarrow> (string \<times> ('w reload_env \<Rightarrow> bool res)) list \<Rightarrow> string list" where
  "reported_names env steps = map fst (filter (\<lambda>(n, g). g env \<noteq> Inr False) steps)"

lemma run_reloads_spec:
  "fst (run_reloads env steps h rs) = foldl (\<lambda>h n. fst (re_apply env n h)) h (wanted_names env steps)"
  "map fst (snd (run_reloads env steps h rs)) = map fst rs @ reported_names env steps"
  by (induction env steps h rs rule: run_reloads.induct)
    (auto simp: wanted_names_def reported_names_def reload_entry_def split: sum.splits bool.splits prod.splits)

text \<open>
  A failure or an exception of one service never keeps another from being reloaded: behind pf, every
  service whose condition holds is applied once, in the order of the list, every service whose
  condition is not false is reported, and the whole is a success exactly when every report is.
\<close>

theorem reload_all_continues:
  assumes "re_apply env ''pf'' h = (h1, Inr r)"
  shows "\<exists>rs. reload_all_services env h
      = (foldl (\<lambda>h n. fst (re_apply env n h)) h1 (wanted_names env reload_steps), Inr (\<forall>x \<in> snd ` set rs. op_ok x, rs))
    \<and> map fst rs = ''pf'' # reported_names env reload_steps"
proof -
  obtain h2 rs where x: "run_reloads env reload_steps h1 [(''pf'', r)] = (h2, rs)" by fastforce
  then have "h2 = foldl (\<lambda>h n. fst (re_apply env n h)) h1 (wanted_names env reload_steps)"
    "map fst rs = ''pf'' # reported_names env reload_steps"
    using run_reloads_spec[of env reload_steps h1 "[(''pf'', r)]"] by simp_all
  moreover have "list_all (\<lambda>(n, x). op_ok x) rs \<longleftrightarrow> (\<forall>x \<in> snd ` set rs. op_ok x)"
    by (auto simp: list_all_iff)
  ultimately show ?thesis by (simp add: reload_all_services_def assms x)
qed

definition quiet_reload :: "nat reload_env" where
  "quiet_reload = \<lparr>re_apply = (\<lambda>n h. (h\<lparr>hs_world := Suc (hs_world h)\<rparr>, if n = ''dhcpd'' then Inl (KeyError n) else Inr (ok_result n))),
     re_state = (\<lambda>k. None), re_bad = ValueError\<rparr>"

lemma reload_all_continues_witness:
  "hs_world (fst (reload_all_services quiet_reload \<lparr>hs_files = \<lambda>p. None, hs_audit = [], hs_world = 0\<rparr>)) = 10"
proof -
  let ?h = "\<lparr>hs_files = \<lambda>p. None, hs_audit = [], hs_world = 0\<rparr> :: nat host"
  have "wanted_names quiet_reload reload_steps =
      [''nginx'', ''dhcpd'', ''unbound'', ''openvpn'', ''strongswan'', ''l2tp'', ''ntpd'', ''suricata'', ''captive_portal'']"
    by (simp add: wanted_names_def reload_steps_def always_def enabled_setting_def ddns_wanted_def settings_doc_def
        quiet_reload_def get_attr_def)
  moreover have "re_apply quiet_reload ''pf'' ?h = (?h\<lparr>hs_world := 1\<rparr>, Inr (ok_result ''pf''))"
    by (simp add: quiet_reload_def)
  ultimately show ?thesis
    using reload_all_continues[of quiet_reload ?h] by (fastforce simp: quiet_reload_def)
qed

end
