(* ===== verification/DhcpWriter.thy ===== *)
theory DhcpWriter
  imports ServiceManager PfRows
begin

text \<open>
  \<^verbatim>\<open>app/services/dhcp_writer.py\<close>: the check of the DHCP tables, the text of dhcpd.conf, its installation
  with rollback, the status, the lease file and the pool derived from an interface.  A network is
  enumerated by its first host and the number of its hosts, so the list of an IPv6 network, which the
  program builds in memory, is taken to fit.
\<close>

section \<open>Tables\<close>

record pool_row =
  po_id :: nat
  po_type :: string
  po_enabled :: "int option"
  po_start :: string
  po_end :: string
  po_gateway :: "string option"
  po_dns :: "string option"
  po_lease :: "int option"

record lease_row =
  sl_id :: nat
  sl_type :: string
  sl_hostname :: "string option"
  sl_mac :: string
  sl_ip :: string

record tracked_row =
  tr_id :: nat
  tr_type :: string
  tr_iface :: string
  tr_ip :: string
  tr_mac :: string
  tr_hostname :: string
  tr_via :: string

record dhcp_db =
  dp_pools :: "pool_row table"
  dp_leases :: "lease_row list"
  dp_lan :: "iface_cfg list"
  dp_wan :: "iface_cfg list"
  dp_tracked :: "tracked_row table"

definition conf_path :: string where
  "conf_path = ''/usr/local/etc/dhcpd.conf''"

definition known_good_path :: string where
  "known_good_path = ''/usr/local/etc/dhcpd.conf.known_good''"

definition lease_path :: string where
  "lease_path = ''/var/db/dhcpd/dhcpd.leases''"

section \<open>Helpers\<close>

definition dns_list :: "string \<Rightarrow> string list" where
  "dns_list raw = filter (\<lambda>s. s \<noteq> []) (map strip (split_on (CHR '','') (replace_char (CHR '';'') (CHR '','') raw)))"

definition netmask_str :: "ipnet \<Rightarrow> string" where
  "netmask_str n =
     (case net_addr n of
        V4 a \<Rightarrow> str_v4 (2 ^ 32 - 2 ^ (32 - net_plen n))
      | V6 a sc \<Rightarrow> str_v6 (2 ^ 128 - 2 ^ (128 - net_plen n)))"

definition parse_cidr :: "string \<Rightarrow> (string \<times> string) option" where
  "parse_cidr cidr =
     map_option (\<lambda>i. (str_ip (net_addr (iface_network i)), netmask_str (iface_network i))) (ip_interface cidr)"

text \<open>\<open>network.hosts()\<close>, as the first host and the number of hosts.\<close>

definition net_hosts :: "ipnet \<Rightarrow> nat \<times> nat" where
  "net_hosts n =
     (let w = ip_bits (net_addr n); size = 2 ^ (w - net_plen n) in
      if w \<le> net_plen n + 1 then (net_first n, size)
      else (net_first n + 1, if w = 32 then size - 2 else size - 1))"

record auto_pool =
  ap_gateway :: string
  ap_start :: string
  ap_end :: string
  ap_dns :: string

definition num_ip :: "ipaddr \<Rightarrow> nat \<Rightarrow> string" where
  "num_ip a n = (case a of V4 _ \<Rightarrow> str_v4 n | V6 _ _ \<Rightarrow> str_v6 n)"

definition pool_offset :: "nat \<Rightarrow> nat" where
  "pool_offset count = min 99 (max 1 (count div 4))"

definition pool_range :: "ipnet \<Rightarrow> nat \<times> nat" where
  "pool_range n =
     (case net_hosts n of (first, count) \<Rightarrow> (first + min (pool_offset count) (count - 1), first + count - 1))"

definition auto_pool_from_cidr :: "string \<Rightarrow> auto_pool option" where
  "auto_pool_from_cidr cidr =
     (case ip_interface cidr of
        None \<Rightarrow> None
      | Some i \<Rightarrow>
          (case pool_range (iface_network i) of (first, final) \<Rightarrow>
             Some \<lparr>ap_gateway = str_ip (host_ip i), ap_start = num_ip (host_ip i) first,
                   ap_end = num_ip (host_ip i) final, ap_dns = str_ip (host_ip i)\<rparr>))"

definition v4 :: "string \<Rightarrow> nat option" where
  "v4 s = (if CHR ''/'' \<in> set (strip s) then None else parse_v4_num (strip s))"

section \<open>Validation\<close>

definition iface_row :: "dhcp_db \<Rightarrow> string \<Rightarrow> iface_cfg option" where
  "iface_row db itype = fetchone (if itype = ''LAN'' then dp_lan db else dp_wan db)"

definition pools_by_type :: "dhcp_db \<Rightarrow> pool_row list" where
  "pools_by_type db = sort_key po_type (rows (dp_pools db))"

definition tagged :: "string \<Rightarrow> string \<Rightarrow> string" where
  "tagged itype m = ''['' @ itype @ ''] '' @ m"

definition subnet_errors :: "string \<Rightarrow> string \<Rightarrow> string \<Rightarrow> iface_cfg option \<Rightarrow> string list" where
  "subnet_errors itype start_raw end_raw row =
     (case row of
        None \<Rightarrow> []
      | Some r \<Rightarrow>
          (let cidr = strip (or_str (if_ipv4 r) []) in
           case ip_network cidr of
             None \<Rightarrow> []
           | Some net \<Rightarrow>
               (case v4 start_raw of
                  None \<Rightarrow> []
                | Some a \<Rightarrow>
                    (if net_contains net 32 a then []
                     else [tagged itype (''Pool start '' @ start_raw @ '' not in interface subnet '' @ cidr @ ''.'')])) @
               (case v4 end_raw of
                  None \<Rightarrow> []
                | Some b \<Rightarrow>
                    (if net_contains net 32 b then []
                     else [tagged itype (''Pool end '' @ end_raw @ '' not in interface subnet '' @ cidr @ ''.'')]))))"

definition pool_errors :: "dhcp_db \<Rightarrow> pool_row \<Rightarrow> string list" where
  "pool_errors db p =
     (let itype = upper (if po_type p = [] then ''?'' else po_type p);
          start_raw = strip (po_start p); end_raw = strip (po_end p);
          gw_raw = strip (or_str (po_gateway p) []); lease = or_int (po_lease p) 0
      in (if v4 start_raw = None then [tagged itype (''Pool start IP '' @ apos @ start_raw @ apos @ '' is invalid.'')] else []) @
         (if v4 end_raw = None then [tagged itype (''Pool end IP '' @ apos @ end_raw @ apos @ '' is invalid.'')] else []) @
         (case (v4 start_raw, v4 end_raw) of
            (Some a, Some b) \<Rightarrow>
              (if b < a then [tagged itype (''Pool start '' @ start_raw @ '' > end '' @ end_raw @ ''.'')] else [])
          | _ \<Rightarrow> []) @
         subnet_errors itype start_raw end_raw (iface_row db itype) @
         (if gw_raw \<noteq> [] \<and> v4 gw_raw = None
          then [tagged itype (''Gateway '' @ apos @ gw_raw @ apos @ '' is not a valid IP.'')] else []) @
         concat (map (\<lambda>d. if v4 d = None
                          then [tagged itype (''DNS server '' @ apos @ d @ apos @ '' is not a valid IP.'')] else [])
                   (dns_list (strip (or_str (po_dns p) [])))) @
         (if lease < 60
          then [tagged itype (''Lease time '' @ str_int lease @ ''s is too short (minimum 60s).'')] else []))"

definition in_pool_errors :: "pool_row list \<Rightarrow> string \<Rightarrow> string \<Rightarrow> string list" where
  "in_pool_errors pools ip mac =
     (case v4 ip of
        None \<Rightarrow> []
      | Some a \<Rightarrow>
          concat (map (\<lambda>p.
            if \<not> truthy_int (po_enabled p) then []
            else case (v4 (po_start p), v4 (po_end p)) of
              (Some s, Some e) \<Rightarrow>
                (if s \<le> a \<and> a \<le> e
                 then [''Static lease IP='' @ ip @ '' (MAC='' @ mac @ '') falls inside '' @ po_type p @ '' pool '' @
                       po_start p @ en_dash @ po_end p @ ''.'']
                 else [])
            | _ \<Rightarrow> []) pools))"

text \<open>The loop over the static leases, with the addresses seen so far.\<close>

fun lease_errors ::
  "pool_row list \<Rightarrow> (string \<rightharpoonup> string) \<Rightarrow> (string \<rightharpoonup> string) \<Rightarrow> lease_row list \<Rightarrow> string list" where
  "lease_errors pools macs ips [] = []"
| "lease_errors pools macs ips (sl # rest) =
     (let mac = lower (strip (sl_mac sl)); ip = strip (sl_ip sl); hostname = strip (or_str (sl_hostname sl) []) in
      if mac = []
      then (''Static lease (hostname='' @ py_repr hostname @ '') has no MAC address.'') # lease_errors pools macs ips rest
      else
        (if v4 ip = None then [''Static lease MAC='' @ mac @ '' has invalid IP '' @ apos @ ip @ apos @ ''.''] else []) @
        (case macs mac of
           Some o_ip \<Rightarrow> [''Duplicate static lease MAC='' @ mac @ '' (also used by '' @ o_ip @ '').'']
         | None \<Rightarrow> []) @
        (case ips ip of
           Some o_mac \<Rightarrow> [''Duplicate static lease IP='' @ ip @ '' (also assigned to MAC '' @ o_mac @ '').'']
         | None \<Rightarrow> []) @
        in_pool_errors pools ip mac @
        lease_errors pools (if macs mac = None then macs(mac \<mapsto> ip) else macs)
          (if ips ip = None then ips(ip \<mapsto> mac) else ips) rest)"

definition validate_dhcp_config :: "dhcp_db \<Rightarrow> string list" where
  "validate_dhcp_config db =
     concat (map (\<lambda>p. if truthy_int (po_enabled p) then pool_errors db p else []) (pools_by_type db)) @
     lease_errors (pools_by_type db) (\<lambda>k. None) (\<lambda>k. None) (dp_leases db)"

section \<open>The configuration text\<close>

definition conf_header :: "string list" where
  "conf_header =
     [''# ============================================================'',
      ''# Smart Shield '' @ em_dash @ '' auto-generated dhcpd.conf'',
      ''# Generated by app/services/dhcp_writer.py'',
      ''# DO NOT EDIT MANUALLY'',
      ''# ============================================================'',
      [], ''default-lease-time 86400;'', ''max-lease-time 86400;'', ''authoritative;'', []]"

definition or_else :: "string \<Rightarrow> string \<Rightarrow> string" where
  "or_else s d = (if s = [] then d else s)"

definition subnet_lines :: "dhcp_db \<Rightarrow> pool_row \<Rightarrow> string list" where
  "subnet_lines db p =
     (let itype = upper (or_else (po_type p) ''LAN'');
          cidr = (case iface_row db itype of None \<Rightarrow> [] | Some r \<Rightarrow> or_str (if_ipv4 r) []);
          port = (case iface_row db itype of None \<Rightarrow> [] | Some r \<Rightarrow> or_str (if_port r) [])
      in case (parse_cidr cidr, auto_pool_from_cidr cidr) of
           (Some (subnet, netmask), Some auto) \<Rightarrow>
             (let start_ip = or_else (strip (po_start p)) (ap_start auto);
                  end_ip = or_else (strip (po_end p)) (ap_end auto);
                  gateway = or_else (strip (or_str (po_gateway p) [])) (ap_gateway auto);
                  lease = or_int (po_lease p) 86400;
                  dns = (let own = dns_list (strip (or_str (po_dns p) [])) in if own = [] then dns_list (ap_dns auto) else own)
              in if start_ip = [] \<or> end_ip = [] then []
                 else [''# '' @ itype @ '' pool ('' @ or_else port itype @ '')'',
                       ''subnet '' @ subnet @ '' netmask '' @ netmask @ '' {'',
                       ''    range '' @ start_ip @ '' '' @ end_ip @ '';''] @
                      (if gateway \<noteq> [] then [''    option routers '' @ gateway @ '';''] else []) @
                      (if dns \<noteq> [] then [''    option domain-name-servers '' @ join '', '' dns @ '';''] else []) @
                      [''    default-lease-time '' @ str_int lease @ '';'',
                       ''    max-lease-time '' @ str_int lease @ '';'', ''}'', []])
         | _ \<Rightarrow> [])"

definition quote_hostname :: "string \<Rightarrow> string" where
  "quote_hostname s =
     concat (map (\<lambda>c. if c = CHR 0x5C then [CHR 0x5C, CHR 0x5C] else if c = CHR 0x22 then [CHR 0x5C, CHR 0x22] else [c]) s)"

definition host_lines :: "lease_row \<Rightarrow> string list" where
  "host_lines sl =
     (let hostname = strip (or_str (sl_hostname sl) []); mac = lower (strip (sl_mac sl)); ip = strip (sl_ip sl);
          host_id = (if hostname \<noteq> [] then replace_char (CHR '' '') (CHR ''_'') hostname
                     else filter (\<lambda>c. c \<noteq> CHR '':'') mac)
      in if mac = [] \<or> ip = [] then []
         else [''host '' @ host_id @ '' {'', ''    hardware ethernet '' @ mac @ '';'', ''    fixed-address '' @ ip @ '';''] @
              (if hostname \<noteq> []
               then [''    option host-name '' @ [CHR 0x22] @ quote_hostname hostname @ [CHR 0x22] @ '';''] else []) @
              [''}'', []])"

definition generate_dhcpd_conf :: "dhcp_db \<Rightarrow> string" where
  "generate_dhcpd_conf db =
     join nl
       (conf_header @
        concat (map (subnet_lines db) (filter (\<lambda>p. po_enabled p = Some 1) (pools_by_type db))) @
        (let leases = sort_key (\<lambda>sl. (sl_type sl, sl_hostname sl)) (dp_leases db)
         in if leases = [] then []
            else (''# '' @ rule_line @ '' Static leases '' @ rule_line) # concat (map host_lines leases)))"

section \<open>Syntax check and rollback\<close>

text \<open>
  What the operating system does beside the code: whether dhcpd is on the path, the name and the fault
  of the file of the syntax check, the faults of the three writes and of reading a file.
\<close>

record dhcp_os =
  do_dhcpd :: bool
  do_tmp :: string
  do_tmp_fault :: "pyexn option"
  do_read_fault :: "pyexn option"
  do_save :: io
  do_install :: io
  do_restore :: io

definition put_file :: "string \<Rightarrow> string \<Rightarrow> nat \<Rightarrow> 'w host \<Rightarrow> 'w host" where
  "put_file path content mode h = h\<lparr>hs_files := (hs_files h)(path \<mapsto> \<lparr>f_content = content, f_mode = mode\<rparr>)\<rparr>"

definition drop_file :: "string \<Rightarrow> 'w host \<Rightarrow> 'w host" where
  "drop_file path h = h\<lparr>hs_files := unlink path (hs_files h)\<rparr>"

definition validate_dhcpd_conf_syntax ::
  "dhcp_os \<Rightarrow> 'w host exec_env \<Rightarrow> string \<Rightarrow> 'w host \<Rightarrow> 'w host \<times> bool \<times> string" where
  "validate_dhcpd_conf_syntax os env conf h =
     (if \<not> ne_freebsd env then (h, True, ''skipped-non-freebsd'')
      else if \<not> do_dhcpd os then (h, True, ''skipped-dhcpd-not-found'')
      else case do_tmp_fault os of
        Some e \<Rightarrow> (h, False, exn_str e)
      | None \<Rightarrow>
          (case run_command env 20 False [''dhcpd'', ''-t'', ''-cf'', do_tmp os] (put_file (do_tmp os) conf 384 h) of
             (h1, events, r) \<Rightarrow>
               (drop_file (do_tmp os) (h1\<lparr>hs_audit := hs_audit h1 @ events\<rparr>),
                case r of
                  Inl e \<Rightarrow> (False, exn_str e)
                | Inr c \<Rightarrow> (cr_code c = 0, strip (if cr_err c \<noteq> [] then cr_err c else cr_out c)))))"

definition write_host :: "io \<Rightarrow> string \<Rightarrow> string \<Rightarrow> 'w host \<Rightarrow> 'w host \<times> unit res" where
  "write_host io path content h =
     (case atomic_write io path content 420 (hs_files h) of (fs, r) \<Rightarrow> (h\<lparr>hs_files := fs\<rparr>, r))"

definition save_known_good_dhcpd :: "dhcp_os \<Rightarrow> 'w host \<Rightarrow> 'w host \<times> bool res" where
  "save_known_good_dhcpd os h =
     (case hs_files h conf_path of
        None \<Rightarrow> (h, Inr True)
      | Some f \<Rightarrow>
          (case do_read_fault os of
             Some e \<Rightarrow> (h, if is_oserror e then Inr False else Inl e)
           | None \<Rightarrow>
               (case write_host (do_save os) known_good_path (f_content f) h of
                  (h1, Inr u) \<Rightarrow> (h1, Inr True)
                | (h1, Inl e) \<Rightarrow> (h1, if is_oserror e then Inr False else Inl e))))"

definition rollback_failure :: "pyexn \<Rightarrow> op_result res" where
  "rollback_failure e = (if is_oserror e then Inr (err_result (''Rollback failed: '' @ exn_str e)) else Inl e)"

definition rollback_dhcpd :: "dhcp_os \<Rightarrow> 'w host exec_env \<Rightarrow> 'w host \<Rightarrow> 'w host \<times> op_result res" where
  "rollback_dhcpd os env h =
     (case hs_files h known_good_path of
        None \<Rightarrow> (h, Inr (err_result ''No known-good dhcpd.conf backup found.''))
      | Some f \<Rightarrow>
          (case do_read_fault os of
             Some e \<Rightarrow> (h, rollback_failure e)
           | None \<Rightarrow>
               (case write_host (do_restore os) conf_path (f_content f) h of
                  (h1, Inl e) \<Rightarrow> (h1, rollback_failure e)
                | (h1, Inr u) \<Rightarrow>
                    (case service_action env ''isc-dhcpd'' ''restart'' h1 of
                       (h2, Inl e) \<Rightarrow> (h2, rollback_failure e)
                     | (h2, Inr r) \<Rightarrow>
                         (h2, Inr (if op_ok r then ok_result ''Rolled back to last known-good dhcpd.conf.''
                                   else err_result (''Rollback file restored but restart failed: '' @ op_message r)))))))"

section \<open>Write and apply\<close>

record dhcp_result =
  dr_ok :: bool
  dr_message :: string
  dr_conf :: string
  dr_errors :: "string list"
  dr_rolled_back :: "bool option"

definition dhcp_answer :: "bool \<Rightarrow> string \<Rightarrow> string \<Rightarrow> string list \<Rightarrow> dhcp_result" where
  "dhcp_answer ok m conf errs = \<lparr>dr_ok = ok, dr_message = m, dr_conf = conf, dr_errors = errs, dr_rolled_back = None\<rparr>"

definition write_dhcpd_conf :: "dhcp_os \<Rightarrow> 'w host exec_env \<Rightarrow> dhcp_db \<Rightarrow> 'w host \<Rightarrow> 'w host \<times> op_result res" where
  "write_dhcpd_conf os env db h =
     (let conf = generate_dhcpd_conf db in
      if \<not> ne_freebsd env
      then (h, Inr (ok_result (''Non-FreeBSD '' @ em_dash @ '' dhcpd.conf generated but not written.'')))
      else case write_host (do_install os) conf_path conf h of
        (h1, Inr u) \<Rightarrow> (h1, Inr (ok_result (''Written to '' @ conf_path)))
      | (h1, Inl e) \<Rightarrow> (h1, if is_oserror e then Inr (err_result (exn_str e)) else Inl e))"

definition dhcp_ifaces :: "dhcp_db \<Rightarrow> string" where
  "dhcp_ifaces db =
     join '' ''
       (foldl (\<lambda>ifaces p.
          let row = iface_row db (upper (or_else (po_type p) ''LAN''));
              port = strip (case row of None \<Rightarrow> [] | Some r \<Rightarrow> or_str (if_port r) []);
              cidr = (case row of None \<Rightarrow> [] | Some r \<Rightarrow> or_str (if_ipv4 r) [])
          in if port \<noteq> [] \<and> parse_cidr cidr \<noteq> None \<and> port \<notin> set ifaces then ifaces @ [port] else ifaces)
        [] (filter (\<lambda>p. po_enabled p = Some 1) (pools_by_type db)))"

definition stop_dhcpd :: "'w host exec_env \<Rightarrow> 'w host \<Rightarrow> 'w host \<times> dhcp_result res" where
  "stop_dhcpd env h =
     (case sysrc_set env ''dhcpd_enable'' ''NO'' h of
        (h1, Inl e) \<Rightarrow> (h1, Inl e)
      | (h1, Inr r1) \<Rightarrow>
          (case sysrc_set env ''dhcpd_ifaces'' [] h1 of
             (h2, Inl e) \<Rightarrow> (h2, Inl e)
           | (h2, Inr r2) \<Rightarrow>
               (case service_action env ''isc-dhcpd'' ''stop'' h2 of
                  (h3, Inl e) \<Rightarrow> (h3, Inl e)
                | (h3, Inr r3) \<Rightarrow>
                    (h3, Inr (dhcp_answer True
                       (''DHCP disabled in DB '' @ em_dash @ '' isc-dhcpd stopped and disabled in rc.conf.'') [] [])))))"

text \<open>Enabling the service and restarting it, with the rollback of a restart that fails.\<close>

definition restart_dhcpd ::
  "dhcp_os \<Rightarrow> 'w host exec_env \<Rightarrow> dhcp_db \<Rightarrow> string \<Rightarrow> 'w host \<Rightarrow> 'w host \<times> dhcp_result res" where
  "restart_dhcpd os env db conf h =
     (case sysrc_set env ''dhcpd_enable'' ''YES'' h of
        (h1, Inl e) \<Rightarrow> (h1, Inl e)
      | (h1, Inr r1) \<Rightarrow>
          (case sysrc_set env ''dhcpd_ifaces'' (dhcp_ifaces db) h1 of
             (h2, Inl e) \<Rightarrow> (h2, Inl e)
           | (h2, Inr r2) \<Rightarrow>
               (case service_action env ''isc-dhcpd'' ''restart'' h2 of
                  (h3, Inl e) \<Rightarrow> (h3, Inl e)
                | (h3, Inr r) \<Rightarrow>
                    (if op_ok r then (h3, Inr ((dhcp_answer True (op_message r) conf [])\<lparr>dr_rolled_back := Some False\<rparr>))
                     else case rollback_dhcpd os env h3 of
                       (h4, Inl e) \<Rightarrow> (h4, Inl e)
                     | (h4, Inr rb) \<Rightarrow>
                         (h4, Inr ((dhcp_answer False
                            (''isc-dhcpd restart failed ('' @ op_message r @ ''). '' @ op_message rb) conf [])
                            \<lparr>dr_rolled_back := Some (op_ok rb)\<rparr>))))))"

definition install_dhcpd ::
  "dhcp_os \<Rightarrow> 'w host exec_env \<Rightarrow> dhcp_db \<Rightarrow> string \<Rightarrow> 'w host \<Rightarrow> 'w host \<times> dhcp_result res" where
  "install_dhcpd os env db conf h =
     (case save_known_good_dhcpd os h of
        (h1, Inl e) \<Rightarrow> (h1, Inl e)
      | (h1, Inr saved) \<Rightarrow>
          (case write_host (do_install os) conf_path conf h1 of
             (h2, Inl e) \<Rightarrow> (h2, if is_oserror e then Inr (dhcp_answer False (exn_str e) conf []) else Inl e)
           | (h2, Inr u) \<Rightarrow> restart_dhcpd os env db conf h2))"

definition apply_dhcpd :: "dhcp_os \<Rightarrow> 'w host exec_env \<Rightarrow> dhcp_db \<Rightarrow> 'w host \<Rightarrow> 'w host \<times> dhcp_result res" where
  "apply_dhcpd os env db h =
     (if filter (\<lambda>p. po_enabled p = Some 1) (rows (dp_pools db)) = []
      then (if \<not> ne_freebsd env
            then (h, Inr (dhcp_answer True
                    (''DHCP disabled (no enabled pools) '' @ em_dash @ '' non-FreeBSD, nothing to stop.'') [] []))
            else stop_dhcpd env h)
      else
        (let errors = validate_dhcp_config db; conf = generate_dhcpd_conf db in
         if errors \<noteq> []
         then (h, Inr (dhcp_answer False
                 (''DHCP config has '' @ str_nat (length errors) @ '' error(s); not applied.'') conf errors))
         else if \<not> ne_freebsd env
         then (h, Inr (dhcp_answer True (''Non-FreeBSD '' @ em_dash @ '' dhcpd.conf generated but not applied.'') conf []))
         else case validate_dhcpd_conf_syntax os env conf h of
           (h1, ok, err) \<Rightarrow>
             (if \<not> ok then (h1, Inr (dhcp_answer False (''dhcpd syntax check failed: '' @ err) conf [err]))
              else install_dhcpd os env db conf h1)))"

definition get_dhcp_status :: "'w host exec_env \<Rightarrow> 'w host \<Rightarrow> 'w host \<times> (bool \<times> string \<times> string) res" where
  "get_dhcp_status env h =
     (if \<not> ne_freebsd env then (h, Inr (False, ''dry-run'', ''Non-FreeBSD host.''))
      else case service_action env ''isc-dhcpd'' ''status'' h of
        (h1, Inl e) \<Rightarrow> (h1, Inl e)
      | (h1, Inr r) \<Rightarrow>
          (let running = op_ok r \<and> contains ''running'' (lower (op_message r))
           in (h1, Inr (running, if running then ''running'' else ''stopped'', op_message r))))"


section \<open>The lease file\<close>

text \<open>\<open>re.split(r"^lease\s+", text, flags=re.M)\<close>; \<open>bol\<close> says whether the position is the start of a line.\<close>

definition at_lease :: "bool \<Rightarrow> string \<Rightarrow> bool" where
  "at_lease bol s \<longleftrightarrow> bol \<and> startswith s ''lease'' \<and> drop 5 s \<noteq> [] \<and> is_space (hd (drop 5 s))"

function cut_leases :: "bool \<Rightarrow> string \<Rightarrow> string \<Rightarrow> string list" where
  "cut_leases bol acc s =
     (if s = [] then [rev acc]
      else if at_lease bol s
      then rev acc # cut_leases (last (takeWhile is_space (drop 5 s)) = CHR 0x0A) [] (dropWhile is_space (drop 5 s))
      else cut_leases (hd s = CHR 0x0A) (hd s # acc) (tl s))"
  by pat_completeness auto
termination
proof (relation "measure (\<lambda>(bol, acc, s). length s)", goal_cases)
  case 1
  then show ?case by simp
next
  case (2 bol acc s)
  have "length (dropWhile is_space (drop 5 s)) \<le> length (drop 5 s)" by (rule length_dropWhile_le)
  with 2 show ?case by (cases s) auto
next
  case (3 bol acc s)
  then show ?case by (cases s) auto
qed

declare cut_leases.simps [simp del]

record live_lease =
  ll_ip :: string
  ll_mac :: "string option"
  ll_hostname :: "string option"
  ll_starts :: "string option"
  ll_ends :: "string option"
  ll_state :: "string option"

text \<open>\<open>s.split()\<close>, and the rest behind the first \<open>n\<close> words as \<open>s.split(None, n)\<close> leaves it.\<close>

definition words_of :: "string \<Rightarrow> string list" where
  "words_of s = filter (\<lambda>w. w \<noteq> []) (split_runs is_space s)"

fun behind_words :: "nat \<Rightarrow> string \<Rightarrow> string" where
  "behind_words 0 s = lstrip s"
| "behind_words (Suc n) s = behind_words n (dropWhile (\<lambda>c. \<not> is_space c) (lstrip s))"

definition strip_char :: "char \<Rightarrow> string \<Rightarrow> string" where
  "strip_char c s = rstrip_char c (dropWhile (\<lambda>x. x = c) s)"

definition third_word :: "string \<Rightarrow> string option" where
  "third_word l = (if 3 \<le> length (words_of l) then Some (behind_words 2 l) else None)"

definition lease_line :: "string \<Rightarrow> live_lease \<Rightarrow> live_lease" where
  "lease_line raw e =
     (let l = rstrip_char (CHR ''}'') (rstrip_char (CHR '';'') (strip raw)) in
      if l = [] then e
      else if startswith l ''hardware ethernet'' then e\<lparr>ll_mac := Some (last (words_of l))\<rparr>
      else if startswith l ''client-hostname''
      then e\<lparr>ll_hostname := Some (strip_char (CHR 0x22) (if length (words_of l) \<ge> 2 then behind_words 1 l else last (words_of l)))\<rparr>
      else if startswith l ''starts''
      then (case third_word l of None \<Rightarrow> e | Some w \<Rightarrow> e\<lparr>ll_starts := Some w\<rparr>)
      else if startswith l ''ends''
      then (case third_word l of None \<Rightarrow> e | Some w \<Rightarrow> e\<lparr>ll_ends := Some w\<rparr>)
      else if startswith l ''binding state''
      then e\<lparr>ll_state := Some (case third_word l of None \<Rightarrow> last (words_of l) | Some w \<Rightarrow> w)\<rparr>
      else e)"

definition lease_block :: "string \<Rightarrow> live_lease option" where
  "lease_block block =
     (case splitlines (strip block) of
        [] \<Rightarrow> None
      | l # ls \<Rightarrow>
          Some (foldl (\<lambda>e x. lease_line x e)
            \<lparr>ll_ip = strip (rstrip_char (CHR ''{'') (hd (words_of l))), ll_mac = None, ll_hostname = None,
             ll_starts = None, ll_ends = None, ll_state = None\<rparr> ls))"

definition get_live_leases :: "bool \<Rightarrow> pyexn option \<Rightarrow> fs \<Rightarrow> live_lease list" where
  "get_live_leases freebsd fault fs =
     (if \<not> freebsd then []
      else case (fs lease_path, fault) of
        (Some f, None) \<Rightarrow>
          filter (\<lambda>e. ll_state e = Some ''active'') (List.map_filter lease_block (tl (cut_leases True [] (f_content f))))
      | _ \<Rightarrow> [])"

section \<open>The pool derived from an interface\<close>

record neighbor =
  nb_ip :: string
  nb_mac :: string
  nb_hostname :: string

definition mk_pool :: "string \<times> auto_pool \<times> int \<Rightarrow> nat \<Rightarrow> pool_row" where
  "mk_pool d i =
     (case d of (itype, a, lease) \<Rightarrow>
        \<lparr>po_id = i, po_type = itype, po_enabled = Some 1, po_start = ap_start a, po_end = ap_end a,
         po_gateway = Some (ap_gateway a), po_dns = Some (ap_dns a), po_lease = Some lease\<rparr>)"

definition set_pool :: "auto_pool \<Rightarrow> pool_row \<Rightarrow> pool_row" where
  "set_pool a p =
     p\<lparr>po_enabled := Some 1, po_start := ap_start a, po_end := ap_end a, po_gateway := Some (ap_gateway a),
       po_dns := Some (ap_dns a)\<rparr>"

definition upsert_pool :: "string \<Rightarrow> auto_pool \<Rightarrow> int \<Rightarrow> pool_row table \<Rightarrow> pool_row table" where
  "upsert_pool itype a lease t =
     (if find_by po_type itype (rows t) = None then fst (insert_row (mk_pool (itype, a, lease)) t)
      else update_rows (\<lambda>p. po_type p = itype) (set_pool a) t)"

definition mk_tracked :: "string \<times> string \<times> neighbor \<Rightarrow> nat \<Rightarrow> tracked_row" where
  "mk_tracked d i =
     (case d of (itype, port, nb) \<Rightarrow>
        \<lparr>tr_id = i, tr_type = itype, tr_iface = port, tr_ip = nb_ip nb, tr_mac = nb_mac nb,
         tr_hostname = nb_hostname nb, tr_via = ''arp''\<rparr>)"

definition upsert_tracked :: "string \<Rightarrow> string \<Rightarrow> neighbor \<Rightarrow> tracked_row table \<Rightarrow> tracked_row table" where
  "upsert_tracked itype port nb t =
     (if filter (\<lambda>r. tr_type r = itype \<and> tr_ip r = nb_ip nb) (rows t) = []
      then fst (insert_row (mk_tracked (itype, port, nb)) t)
      else update_rows (\<lambda>r. tr_type r = itype \<and> tr_ip r = nb_ip nb)
             (\<lambda>r. r\<lparr>tr_mac := nb_mac nb, tr_hostname := nb_hostname nb, tr_iface := port, tr_via := ''arp''\<rparr>) t)"

definition in_network :: "ipnet \<Rightarrow> neighbor \<Rightarrow> bool" where
  "in_network net nb \<longleftrightarrow>
     (case ip_address (nb_ip nb) of None \<Rightarrow> False | Some a \<Rightarrow> net_contains net (ip_bits a) (ip_num a))"

record auto_result =
  ar_ok :: bool
  ar_message :: string
  ar_pool :: "(auto_pool \<times> int) option"
  ar_discovered :: "neighbor list"

definition auto_configure_pool :: "neighbor list option \<Rightarrow> string \<Rightarrow> dhcp_db \<Rightarrow> dhcp_db \<times> auto_result" where
  "auto_configure_pool arp interface_type db =
     (let itype = upper interface_type;
          row = find_by if_id 1 (if itype = ''LAN'' then dp_lan db else dp_wan db);
          cidr = (case row of None \<Rightarrow> [] | Some r \<Rightarrow> or_str (if_ipv4 r) []);
          port = (case row of None \<Rightarrow> [] | Some r \<Rightarrow> or_str (if_port r) [])
      in if cidr = []
         then (db, \<lparr>ar_ok = False, ar_message = itype @ '' interface has no IP configured.'', ar_pool = None, ar_discovered = []\<rparr>)
         else case (auto_pool_from_cidr cidr, ip_network cidr) of
           (Some a, Some net) \<Rightarrow>
             (let lease = (case find_by po_type itype (rows (dp_pools db)) of None \<Rightarrow> 86400 | Some p \<Rightarrow> or_int (po_lease p) 86400);
                  found = (case arp of None \<Rightarrow> [] | Some nbs \<Rightarrow> filter (in_network net) nbs)
              in (db\<lparr>dp_pools := upsert_pool itype a lease (dp_pools db),
                     dp_tracked := foldl (\<lambda>t nb. upsert_tracked itype port nb t) (dp_tracked db) found\<rparr>,
                  \<lparr>ar_ok = True,
                   ar_message = itype @ '' pool auto-configured from '' @ cidr @ '': '' @ ap_start a @ '' '' @ en_dash @ '' '' @
                     ap_end a @ '', gateway '' @ ap_gateway a @ ''. '' @ str_nat (length found) @
                     '' device(s) discovered on LAN.'',
                   ar_pool = Some (a, lease), ar_discovered = found\<rparr>))
         | _ \<Rightarrow>
             (db, \<lparr>ar_ok = False, ar_message = ''Could not derive pool from CIDR '' @ apos @ cidr @ apos @ ''.'',
                   ar_pool = None, ar_discovered = []\<rparr>))"


section \<open>What the check accepts\<close>

lemma v4_strip [simp]: "v4 (strip s) = v4 s"
  by (simp add: v4_def)

lemma v4_Nil [simp]: "v4 [] = None"
  by (simp add: v4_def parse_v4_num_def parse_octet_def all_digits_def)

lemma v4_inject: "v4 s = Some a \<Longrightarrow> v4 t = Some a \<Longrightarrow> strip s = strip t"
  unfolding v4_def using parse_v4_inject[of "strip s" a "strip t"] by (simp split: if_splits)

lemma v4_eq:
  assumes "v4 s \<noteq> None"
  shows "v4 s = v4 t \<longleftrightarrow> strip s = strip t"
proof
  assume e: "v4 s = v4 t"
  obtain a where a: "v4 s = Some a" using assms by blast
  with e have "v4 t = Some a" by simp
  with a show "strip s = strip t" by (rule v4_inject)
next
  assume "strip s = strip t"
  then show "v4 s = v4 t" using v4_strip[of s] v4_strip[of t] by simp
qed

lemma concat_map_Nil: "concat (map f xs) = [] \<longleftrightarrow> (\<forall>x \<in> set xs. f x = [])"
  by (induction xs) auto

lemma one_error_Nil: "(if P then [x] else []) = [] \<longleftrightarrow> \<not> P" "(if P then [] else [x]) = [] \<longleftrightarrow> P"
  by simp_all

definition mac_of :: "lease_row \<Rightarrow> string" where
  "mac_of sl = lower (strip (sl_mac sl))"

definition in_range :: "pool_row \<Rightarrow> nat \<Rightarrow> bool" where
  "in_range p a \<longleftrightarrow> (case (v4 (po_start p), v4 (po_end p)) of (Some s, Some e) \<Rightarrow> s \<le> a \<and> a \<le> e | _ \<Rightarrow> False)"

text \<open>The network of the interface a pool belongs to.\<close>

definition pool_net :: "dhcp_db \<Rightarrow> pool_row \<Rightarrow> ipnet option" where
  "pool_net db p =
     Option.bind (iface_row db (upper (if po_type p = [] then ''?'' else po_type p)))
       (\<lambda>r. ip_network (strip (or_str (if_ipv4 r) [])))"

definition pool_valid :: "dhcp_db \<Rightarrow> pool_row \<Rightarrow> bool" where
  "pool_valid db p \<longleftrightarrow>
     (\<exists>a b. v4 (po_start p) = Some a \<and> v4 (po_end p) = Some b \<and> a \<le> b \<and>
        (\<forall>net. pool_net db p = Some net \<longrightarrow> net_contains net 32 a \<and> net_contains net 32 b)) \<and>
     (strip (or_str (po_gateway p) []) = [] \<or> v4 (or_str (po_gateway p) []) \<noteq> None) \<and>
     (\<forall>d \<in> set (dns_list (strip (or_str (po_dns p) []))). v4 d \<noteq> None) \<and> 60 \<le> or_int (po_lease p) 0"

definition static_valid :: "pool_row list \<Rightarrow> lease_row \<Rightarrow> bool" where
  "static_valid pools sl \<longleftrightarrow>
     mac_of sl \<noteq> [] \<and> (\<exists>a. v4 (sl_ip sl) = Some a \<and> (\<forall>p \<in> set pools. truthy_int (po_enabled p) \<longrightarrow> \<not> in_range p a))"

definition dhcp_valid :: "dhcp_db \<Rightarrow> bool" where
  "dhcp_valid db \<longleftrightarrow>
     (\<forall>p \<in> set (rows (dp_pools db)). truthy_int (po_enabled p) \<longrightarrow> pool_valid db p) \<and>
     (\<forall>sl \<in> set (dp_leases db). static_valid (rows (dp_pools db)) sl) \<and>
     distinct (map mac_of (dp_leases db)) \<and> distinct (map (v4 \<circ> sl_ip) (dp_leases db))"

lemma subnet_errors_Nil:
  assumes "v4 s = Some a" "v4 e = Some b"
  shows "subnet_errors itype s e row = [] \<longleftrightarrow>
    (\<forall>net. Option.bind row (\<lambda>r. ip_network (strip (or_str (if_ipv4 r) []))) = Some net
       \<longrightarrow> net_contains net 32 a \<and> net_contains net 32 b)"
  using assms by (cases row) (auto simp: subnet_errors_def Let_def split: option.splits)

lemma pool_errors_Nil: "pool_errors db p = [] \<longleftrightarrow> pool_valid db p"
proof (cases "v4 (po_start p) = None \<or> v4 (po_end p) = None")
  case True
  then show ?thesis
    unfolding pool_errors_def pool_valid_def Let_def by (rule disjE) (simp_all del: or_str_None_empty)
next
  case False
  then obtain a b where v: "v4 (po_start p) = Some a" "v4 (po_end p) = Some b" by auto
  have "pool_errors db p = [] \<longleftrightarrow>
      a \<le> b \<and> (\<forall>net. pool_net db p = Some net \<longrightarrow> net_contains net 32 a \<and> net_contains net 32 b)
      \<and> (strip (or_str (po_gateway p) []) = [] \<or> v4 (or_str (po_gateway p) []) \<noteq> None)
      \<and> (\<forall>d \<in> set (dns_list (strip (or_str (po_dns p) []))). v4 d \<noteq> None) \<and> 60 \<le> or_int (po_lease p) 0"
    unfolding pool_errors_def Let_def pool_net_def
    using subnet_errors_Nil[of "strip (po_start p)" a "strip (po_end p)" b] v
    by (simp only: v append_is_Nil_conv concat_map_Nil one_error_Nil v4_strip option.case prod.case not_less de_Morgan_conj not_not)
      blast
  with v show ?thesis by (simp add: pool_valid_def del: or_str_None_empty)
qed

lemma in_pool_errors_Nil:
  "v4 ip = Some a \<Longrightarrow> in_pool_errors pools ip mac = [] \<longleftrightarrow> (\<forall>p \<in> set pools. truthy_int (po_enabled p) \<longrightarrow> \<not> in_range p a)"
  unfolding in_pool_errors_def in_range_def
  by (simp add: concat_map_Nil del: concat_eq_Nil_conv) (rule ball_cong; auto split: option.splits)

lemma in_pool_errors_invalid: "v4 ip = None \<Longrightarrow> in_pool_errors pools ip mac = []"
  by (simp add: in_pool_errors_def)

lemma fresh_step: "A \<inter> dom (f(m \<mapsto> x)) = {} \<longleftrightarrow> m \<notin> A \<and> A \<inter> dom f = {}"
  by auto

lemma fresh_head: "insert m A \<inter> dom f = {} \<longleftrightarrow> f m = None \<and> A \<inter> dom f = {}"
  by auto

lemma lease_errors_Nil:
  "lease_errors pools macs ips ls = [] \<longleftrightarrow>
     (\<forall>sl \<in> set ls. static_valid pools sl)
     \<and> distinct (map mac_of ls) \<and> mac_of ` set ls \<inter> dom macs = {}
     \<and> distinct (map (strip \<circ> sl_ip) ls) \<and> (strip \<circ> sl_ip) ` set ls \<inter> dom ips = {}"
proof (induction ls arbitrary: macs ips)
  case (Cons sl ls)
  let ?m = "mac_of sl" and ?ip = "strip (sl_ip sl)"
  show ?case
  proof (cases "?m = [] \<or> v4 (sl_ip sl) = None")
    case True
    then show ?thesis by (auto simp: mac_of_def static_valid_def Let_def)
  next
    case False
    then obtain a where v: "v4 (sl_ip sl) = Some a" and m: "?m \<noteq> []" by auto
    have "lease_errors pools macs ips (sl # ls) = [] \<longleftrightarrow>
        macs ?m = None \<and> ips ?ip = None \<and> static_valid pools sl
        \<and> lease_errors pools (macs(?m \<mapsto> ?ip)) (ips(?ip \<mapsto> ?m)) ls = []"
    proof -
      have "static_valid pools sl \<longleftrightarrow> in_pool_errors pools ?ip ?m = []"
        using v m in_pool_errors_Nil[of ?ip a pools] by (simp add: static_valid_def)
      then show ?thesis
        using v m unfolding lease_errors.simps Let_def mac_of_def[symmetric]
        by (cases "macs ?m"; cases "ips ?ip"; simp)
    qed
    then show ?thesis
      by (simp only: Cons.IH fresh_step fresh_head list.set image_insert list.map distinct.simps comp_apply set_map ball_simps
          conj_ac)
  qed
qed simp

lemma distinct_ips:
  assumes "\<forall>sl \<in> set ls. v4 (sl_ip sl) \<noteq> None"
  shows "distinct (map (strip \<circ> sl_ip) ls) \<longleftrightarrow> distinct (map (v4 \<circ> sl_ip) ls)"
proof -
  have "inj_on (strip \<circ> sl_ip) (set ls) \<longleftrightarrow> inj_on (v4 \<circ> sl_ip) (set ls)"
    unfolding inj_on_def comp_def using assms by (simp add: v4_eq)
  then show ?thesis by (simp add: distinct_map)
qed

text \<open>
  C17: the check of the DHCP tables reports nothing exactly when every enabled pool is a range with first not behind last, within the
  interface's network where the interface has a CIDR that can be read, with valid gateway and servers and a lease time of at least 60 seconds, every static lease has a MAC and an address outside
  every enabled pool, and no two leases share a MAC, in any case, or an address.
\<close>

theorem validate_dhcp_iff: "validate_dhcp_config db = [] \<longleftrightarrow> dhcp_valid db"
proof -
  have "set (pools_by_type db) = set (rows (dp_pools db))" by (simp add: pools_by_type_def)
  then have "validate_dhcp_config db = [] \<longleftrightarrow>
     (\<forall>p \<in> set (rows (dp_pools db)). truthy_int (po_enabled p) \<longrightarrow> pool_valid db p) \<and>
     (\<forall>sl \<in> set (dp_leases db). static_valid (rows (dp_pools db)) sl) \<and>
     distinct (map mac_of (dp_leases db)) \<and> distinct (map (strip \<circ> sl_ip) (dp_leases db))"
    by (simp del: concat_eq_Nil_conv add: validate_dhcp_config_def concat_map_Nil lease_errors_Nil pool_errors_Nil static_valid_def)
  moreover have "distinct (map (strip \<circ> sl_ip) (dp_leases db)) \<longleftrightarrow> distinct (map (v4 \<circ> sl_ip) (dp_leases db))"
    if "\<forall>sl \<in> set (dp_leases db). static_valid (rows (dp_pools db)) sl"
    using that by (intro distinct_ips) (fastforce simp: static_valid_def)
  ultimately show ?thesis unfolding dhcp_valid_def by blast
qed


section \<open>What an apply leaves behind\<close>

definition dhcp_paths :: "string set" where
  "dhcp_paths = {conf_path, known_good_path}"

text \<open>No call fails, and the temporary names are none of the two files.\<close>

definition faultless :: "dhcp_os \<Rightarrow> bool" where
  "faultless os \<longleftrightarrow>
     no_faults (do_save os) \<and> no_faults (do_install os) \<and> no_faults (do_restore os)
     \<and> do_tmp_fault os = None \<and> do_read_fault os = None
     \<and> {do_tmp os, io_tmp (do_save os), io_tmp (do_install os), io_tmp (do_restore os)} \<inter> dhcp_paths = {}"

lemma paths_differ [simp]: "conf_path \<noteq> known_good_path" "known_good_path \<noteq> conf_path"
  by (simp_all add: conf_path_def known_good_path_def)

lemma write_host_ok:
  assumes "no_faults io" "io_tmp io \<noteq> path"
  shows "write_host io path content h
    = (h\<lparr>hs_files := (hs_files h)(path \<mapsto> \<lparr>f_content = content, f_mode = 420\<rparr>, io_tmp io := None)\<rparr>, Inr ())"
  using assms by (simp add: write_host_def atomic_write_def no_faults_def stage_def replace_def fun_upd_twist)

lemma syntax_check_files:
  assumes "keeps_files env" "do_tmp os \<noteq> path"
  shows "hs_files (fst (validate_dhcpd_conf_syntax os env conf h)) path = hs_files h path"
proof -
  have "hs_files (fst (run_command env n c cmd g)) = hs_files g" for n c cmd g
    using assms(1) by (simp add: run_command_world keeps_files_def)
  then show ?thesis
    using assms(2)
    by (simp add: validate_dhcpd_conf_syntax_def drop_file_def put_file_def unlink_def case_prod_beta
        split: option.split)
qed

lemma save_known_good_ok:
  assumes "faultless os"
  shows "\<exists>h1. save_known_good_dhcpd os h = (h1, Inr True) \<and> hs_files h1 conf_path = hs_files h conf_path
    \<and> (\<forall>f. hs_files h conf_path = Some f \<longrightarrow> hs_files h1 known_good_path = Some \<lparr>f_content = f_content f, f_mode = 420\<rparr>)
    \<and> (hs_files h conf_path = None \<longrightarrow> h1 = h)"
  using assms
  by (auto simp: save_known_good_dhcpd_def faultless_def write_host_ok dhcp_paths_def split: option.split)

lemma rollback_files:
  assumes "faultless os" "keeps_files env" "hs_files h known_good_path = Some f"
  shows "hs_files (fst (rollback_dhcpd os env h)) conf_path = Some \<lparr>f_content = f_content f, f_mode = 420\<rparr>"
proof -
  let ?h1 = "fst (write_host (do_restore os) conf_path (f_content f) h)"
  have w: "write_host (do_restore os) conf_path (f_content f) h = (?h1, Inr ())"
    "hs_files ?h1 conf_path = Some \<lparr>f_content = f_content f, f_mode = 420\<rparr>"
    using assms(1) by (auto simp: faultless_def dhcp_paths_def write_host_ok)
  have "fst (rollback_dhcpd os env h) = fst (service_action env ''isc-dhcpd'' ''restart'' ?h1)"
    using assms(1,3) w(1)
    by (auto simp: rollback_dhcpd_def faultless_def split: prod.split sum.split)
  then show ?thesis using w(2) service_action_files[OF assms(2)] by simp
qed

text \<open>The result and the file a restart leaves, from the file that was installed.\<close>

lemma restart_files:
  assumes "faultless os" "keeps_files env" "restart_dhcpd os env db conf h = (h', Inr r)"
    and "hs_files h known_good_path = Some f"
  shows "hs_files h' conf_path = (if dr_ok r then hs_files h conf_path else Some \<lparr>f_content = f_content f, f_mode = 420\<rparr>)"
proof -
  obtain h1 r1 where 1: "sysrc_set env ''dhcpd_enable'' ''YES'' h = (h1, Inr r1)"
    using assms(3) by (auto simp: restart_dhcpd_def split: prod.splits sum.splits)
  obtain h2 r2 where 2: "sysrc_set env ''dhcpd_ifaces'' (dhcp_ifaces db) h1 = (h2, Inr r2)"
    using assms(3) 1 by (auto simp: restart_dhcpd_def split: prod.splits sum.splits)
  obtain h3 r3 where 3: "service_action env ''isc-dhcpd'' ''restart'' h2 = (h3, Inr r3)"
    using assms(3) 1 2 by (auto simp: restart_dhcpd_def split: prod.splits sum.splits)
  have f: "hs_files h3 = hs_files h"
    using sysrc_set_files[OF assms(2)] service_action_files[OF assms(2)] 1 2 3 by (metis fst_conv)
  show ?thesis
  proof (cases "op_ok r3")
    case True
    then show ?thesis using assms(3) 1 2 3 f by (auto simp: restart_dhcpd_def dhcp_answer_def)
  next
    case False
    then have "h' = fst (rollback_dhcpd os env h3)" "\<not> dr_ok r"
      using assms(3) 1 2 3 by (auto simp: restart_dhcpd_def dhcp_answer_def split: prod.splits sum.splits)
    then show ?thesis using rollback_files[OF assms(1,2), of h3 f] assms(4) f by simp
  qed
qed

text \<open>
  C7: on a live FreeBSD host where single calls do not fail, an apply with an enabled pool that returns leaves
  dhcpd.conf with the generated text when it succeeds and with its content from before when it does
  not; it succeeds only when the check of the tables reports nothing.
\<close>

theorem dhcp_apply_atomic:
  assumes "faultless os" "keeps_files env" "ne_freebsd env"
    and "Some 1 \<in> po_enabled ` set (rows (dp_pools db))"
    and "hs_files h conf_path = Some \<lparr>f_content = old, f_mode = 420\<rparr>"
    and "apply_dhcpd os env db h = (h', Inr r)"
  shows "hs_files h' conf_path = Some \<lparr>f_content = (if dr_ok r then generate_dhcpd_conf db else old), f_mode = 420\<rparr>
    \<and> (dr_ok r \<longrightarrow> dhcp_valid db)"
proof -
  let ?conf = "generate_dhcpd_conf db"
  have pools: "filter (\<lambda>p. po_enabled p = Some 1) (rows (dp_pools db)) \<noteq> []"
    using assms(4) by (force simp: filter_empty_conv)
  show ?thesis
  proof (cases "validate_dhcp_config db = []")
    case False
    then show ?thesis using assms(5,6) pools by (auto simp: apply_dhcpd_def dhcp_answer_def Let_def)
  next
    case valid: True
    obtain h1 ok err where s: "validate_dhcpd_conf_syntax os env ?conf h = (h1, ok, err)" by (metis prod_cases3)
    have f1: "hs_files h1 conf_path = hs_files h conf_path"
      using syntax_check_files[OF assms(2), of os conf_path ?conf h] s assms(1) by (auto simp: faultless_def dhcp_paths_def)
    show ?thesis
    proof (cases ok)
      case False
      then show ?thesis
        using assms(3,5,6) pools valid s f1 by (auto simp: apply_dhcpd_def dhcp_answer_def Let_def)
    next
      case True
      then have i: "install_dhcpd os env db ?conf h1 = (h', Inr r)"
        using assms(3,6) pools valid s by (simp add: apply_dhcpd_def Let_def)
      obtain h2 where k: "save_known_good_dhcpd os h1 = (h2, Inr True)"
        "hs_files h2 known_good_path = Some \<lparr>f_content = old, f_mode = 420\<rparr>"
        using save_known_good_ok[OF assms(1), of h1] f1 assms(5) by auto
      obtain h3 where w: "write_host (do_install os) conf_path ?conf h2 = (h3, Inr ())"
        "hs_files h3 conf_path = Some \<lparr>f_content = ?conf, f_mode = 420\<rparr>"
        "hs_files h3 known_good_path = Some \<lparr>f_content = old, f_mode = 420\<rparr>"
        using assms(1) k(2) by (auto simp: faultless_def dhcp_paths_def write_host_ok)
      have "restart_dhcpd os env db ?conf h3 = (h', Inr r)" using i k(1) w(1) by (simp add: install_dhcpd_def)
      from restart_files[OF assms(1,2) this w(3)] w(2) valid show ?thesis by (simp flip: validate_dhcp_iff)
    qed
  qed
qed


section \<open>Pools derived from an interface\<close>

text \<open>
  The derived range lies inside the hosts of the interface's network: behind the network address and
  at least one reserved host, and, for IPv4, before the broadcast address.
\<close>

theorem auto_pool_in_network:
  assumes "wf_net net" "net_plen net + 2 \<le> ip_bits (net_addr net)" "pool_range net = (a, b)"
  shows "net_first net + 1 < a \<and> a \<le> b \<and> b \<le> net_last net \<and> (ip_bits (net_addr net) = 32 \<longrightarrow> b < net_last net)"
proof -
  let ?w = "ip_bits (net_addr net)"
  define size where "size = (2 ^ (?w - net_plen net) :: nat)"
  define count where "count = (if ?w = 32 then size - 2 else size - 1)"
  obtain k where "?w - net_plen net = Suc (Suc k)"
    using assms(2) by (cases "?w - net_plen net"; cases "?w - net_plen net - 1") auto
  then have "4 dvd size" "0 < size" by (simp_all add: size_def)
  then have size: "4 \<le> size" by (auto dest: dvd_imp_le)
  then have count: "2 \<le> count" "count + 1 \<le> size" "?w = 32 \<Longrightarrow> count + 2 \<le> size"
    by (auto simp: count_def)
  have "a = net_first net + 1 + min (pool_offset count) (count - 1)" "b = net_first net + count"
    using assms(2,3) count(1) by (auto simp: pool_range_def net_hosts_def count_def size_def Let_def)
  moreover have "1 \<le> min (pool_offset count) (count - 1)" using count(1) by (simp add: pool_offset_def)
  moreover have "net_last net = net_first net + size - 1" by (simp add: net_last_def size_def)
  ultimately show ?thesis using count by (auto simp: min_def split: if_splits)
qed

lemma auto_pool_in_network_witness:
  "net_first (Net (V4 167772160) 24) + 1 < 167772224 \<and> 167772414 \<le> net_last (Net (V4 167772160) 24)"
  using auto_pool_in_network[of "Net (V4 167772160) 24" 167772224 167772414]
  by (simp add: wf_net_def net_first_def clear_host_def pool_range_def net_hosts_def pool_offset_def)

lemma v4_str_v4:
  assumes "k < 2 ^ 32"
  shows "v4 (str_v4 k) = Some k"
proof -
  have "\<forall>c \<in> set (str_v4 k). \<not> is_space c"
    using set_str_v4 digit_not_space by (fastforce simp: char_class_defs)
  then have "strip (str_v4 k) = str_v4 k" by (intro strip_id stripped_no_space)
  moreover have "CHR ''/'' \<notin> set (str_v4 k)" using set_str_v4[of "CHR ''/''" k] by auto
  ultimately show ?thesis using assms by (simp add: v4_def parse_str_v4_num)
qed

text \<open>
  The router's own address can lie in the pool it derives: on every /24 whose interface address ends
  in 64 to 254, the dynamic range contains the address, and no check of the tables looks for that.
\<close>

theorem auto_pool_contains_router:
  assumes "64 \<le> n mod 256" "n mod 256 \<le> 254" "n < 2 ^ 32" "ip_interface cidr = Some (Iface (V4 n) 24)"
  shows "\<exists>auto s e. auto_pool_from_cidr cidr = Some auto \<and> v4 (ap_start auto) = Some s \<and> v4 (ap_end auto) = Some e
    \<and> ap_gateway auto = str_v4 n \<and> s \<le> n \<and> n \<le> e"
proof -
  let ?f = "n div 256 * 256"
  have f: "?f + n mod 256 = n" by (rule div_mult_mod_eq)
  have "n div 256 < 2 ^ 24" using assms(3) by (simp add: less_mult_imp_div_less)
  then have bound: "?f + 254 < 2 ^ 32" by simp
  have "pool_range (iface_network (Iface (V4 n) 24)) = (?f + 64, ?f + 254)"
    by (simp add: pool_range_def net_hosts_def iface_network_def net_first_def clear_host_def pool_offset_def)
  then have "auto_pool_from_cidr cidr = Some \<lparr>ap_gateway = str_v4 n, ap_start = str_v4 (?f + 64), ap_end = str_v4 (?f + 254),
      ap_dns = str_v4 n\<rparr>"
    using assms(4) by (simp add: auto_pool_from_cidr_def num_ip_def str_ip_def host_ip_def)
  moreover have "v4 (str_v4 (?f + 64)) = Some (?f + 64)" "v4 (str_v4 (?f + 254)) = Some (?f + 254)"
    using bound by (simp_all add: v4_str_v4)
  moreover have "?f + 64 \<le> n" "n \<le> ?f + 254" using assms(1,2) f by linarith+
  ultimately show ?thesis by fastforce
qed

lemma ip_interface_24: "n < 2 ^ 32 \<Longrightarrow> ip_interface (str_v4 n @ ''/24'') = Some (Iface (V4 n) 24)"
proof -
  assume n: "n < 2 ^ 32"
  have s: "CHR ''/'' \<notin> set (str_v4 n)" using set_str_v4[of "CHR ''/''" n] by auto
  have "netmask_v4 ''24'' = Some 24"
    by (simp add: netmask_v4_def prefix_of_string_def all_digits_def nat_of_digits_def digit_val_def char_class_defs)
  then show ?thesis
    using n s by (simp add: ip_interface_def parse_iface_def split_on_append split_on_no_sep parse_ipv4_def parse_str_v4_num)
qed

lemma auto_pool_contains_router_witness:
  "\<exists>auto s e. auto_pool_from_cidr (str_v4 3232235976 @ ''/24'') = Some auto \<and> v4 (ap_start auto) = Some s
     \<and> v4 (ap_end auto) = Some e \<and> s \<le> 3232235976 \<and> 3232235976 \<le> e"
  using auto_pool_contains_router[of 3232235976 "str_v4 3232235976 @ ''/24''"] ip_interface_24[of 3232235976] by auto

text \<open>
  A pool that is only switched on, with its range left blank, is never served: the generator would
  fill in the derived range, but the check before it reports the blank range, so the apply is refused
  and the host is left alone.
\<close>

theorem blank_pool_refused:
  assumes "p \<in> set (rows (dp_pools db))" "po_enabled p = Some 1" "strip (po_start p) = []"
  shows "\<exists>r. apply_dhcpd os env db h = (h, Inr r) \<and> \<not> dr_ok r \<and> dr_errors r \<noteq> []"
proof -
  have "v4 (po_start p) = None" using assms(3) v4_strip[of "po_start p"] by simp
  then have "\<not> pool_valid db p" by (simp add: pool_valid_def)
  then have "pool_errors db p \<noteq> []" by (simp add: pool_errors_Nil)
  moreover have "p \<in> set (pools_by_type db)" using assms(1) by (simp add: pools_by_type_def)
  ultimately have "validate_dhcp_config db \<noteq> []"
    using assms(2) by (auto simp: validate_dhcp_config_def concat_map_Nil simp del: concat_eq_Nil_conv)
  moreover have "filter (\<lambda>p. po_enabled p = Some 1) (rows (dp_pools db)) \<noteq> []"
    using assms(1,2) by (auto simp: filter_empty_conv)
  ultimately show ?thesis by (auto simp: apply_dhcpd_def dhcp_answer_def Let_def)
qed

definition blank_pool :: pool_row where
  "blank_pool = \<lparr>po_id = 1, po_type = ''LAN'', po_enabled = Some 1, po_start = [], po_end = [], po_gateway = None, po_dns = Some [],
     po_lease = Some 86400\<rparr>"

definition pool_db :: "pool_row \<Rightarrow> dhcp_db" where
  "pool_db p = \<lparr>dp_pools = \<lparr>rows = [p], seq = 1\<rparr>, dp_leases = [], dp_lan = [], dp_wan = [], dp_tracked = empty_table\<rparr>"

definition plain_os :: dhcp_os where
  "plain_os = (let i = \<lparr>io_tmp = ''/tmp/x'', io_mkstemp = None, io_write = None, io_replace = None, io_backup = None, io_restore = None\<rparr>
     in \<lparr>do_dhcpd = True, do_tmp = ''/tmp/ss_dhcpd_1.conf'', do_tmp_fault = None, do_read_fault = None, do_save = i, do_install = i,
         do_restore = i\<rparr>)"

definition dry_env :: "unit host exec_env" where
  "dry_env = \<lparr>ne_dry_run = True, ne_freebsd = True, ne_root = True, ne_sudo = [], ne_exec = (\<lambda>argv h. (h, TimedOut))\<rparr>"

lemma blank_pool_refused_witness:
  "\<forall>h :: unit host. \<exists>r. apply_dhcpd plain_os dry_env (pool_db blank_pool) h = (h, Inr r) \<and> \<not> dr_ok r"
proof
  fix h :: "unit host"
  show "\<exists>r. apply_dhcpd plain_os dry_env (pool_db blank_pool) h = (h, Inr r) \<and> \<not> dr_ok r"
    using blank_pool_refused[of blank_pool "pool_db blank_pool" plain_os dry_env h] by (auto simp: pool_db_def blank_pool_def)
qed

lemma service_build_error:
  "build_command ''service.action'' [(''service_name'', PStr name), (''action'', PStr act)] = Inl e \<Longrightarrow> service_error e"
  "build_command ''sysrc.set'' [(''key'', PStr name), (''value'', PStr act)] = Inl e \<Longrightarrow> service_error e"
  by (auto simp: build_command_def service_entries val_service_name_def val_service_action_def val_sysrc_key_def val_sysrc_value_def
      Let_def service_error_def split: if_splits)

lemma dry_run_answers:
  assumes "\<And>e. build_command action params = Inl e \<Longrightarrow> service_error e" "ne_dry_run env"
  shows "\<exists>h' r. command_answer d (priv env action params h) = (h', Inr r)"
  using assms by (cases "build_command action params")
    (auto simp: priv_def run_privileged_def run_command_def command_answer_def Let_def)

lemma dry_run_service:
  "\<exists>h' r. service_action dry_env ''isc-dhcpd'' act h = (h', Inr r)" "\<exists>h' r. sysrc_set dry_env k v h = (h', Inr r)"
proof -
  show 1: "\<exists>h' r. sysrc_set dry_env k v h = (h', Inr r)" for k v
  proof -
    have "\<exists>h' r. command_answer d (priv dry_env ''sysrc.set'' [(''key'', PStr k), (''value'', PStr v)] h) = (h', Inr r)" for d
      by (rule dry_run_answers[OF service_build_error(2)]) (simp_all add: dry_env_def)
    then show ?thesis unfolding sysrc_set_def by simp
  qed
  have 2: "\<exists>h' r. command_answer d (priv dry_env ''service.action'' [(''service_name'', PStr n), (''action'', PStr a)] h) = (h', Inr r)"
    for d n a by (rule dry_run_answers[OF service_build_error(1)]) (simp_all add: dry_env_def)
  show "\<exists>h' r. service_action dry_env ''isc-dhcpd'' act h = (h', Inr r)"
    unfolding service_action_def Let_def using 1 2 by (simp add: dry_env_def)
qed

lemma plain_os_faultless: "faultless plain_os"
  by (simp add: faultless_def plain_os_def Let_def no_faults_def dhcp_paths_def conf_path_def known_good_path_def)

lemma dry_restart: "\<exists>h' r. restart_dhcpd plain_os dry_env db conf h = (h', Inr r)"
proof -
  obtain h1 r1 where 1: "sysrc_set dry_env ''dhcpd_enable'' ''YES'' h = (h1, Inr r1)" using dry_run_service(2) by blast
  obtain h2 r2 where 2: "sysrc_set dry_env ''dhcpd_ifaces'' (dhcp_ifaces db) h1 = (h2, Inr r2)" using dry_run_service(2) by blast
  obtain h3 r3 where 3: "service_action dry_env ''isc-dhcpd'' ''restart'' h2 = (h3, Inr r3)" using dry_run_service(1) by blast
  have w: "write_host (do_restore plain_os) conf_path c g
      = (g\<lparr>hs_files := (hs_files g)(conf_path \<mapsto> \<lparr>f_content = c, f_mode = 420\<rparr>, io_tmp (do_restore plain_os) := None)\<rparr>, Inr ())" for c g
    using plain_os_faultless by (intro write_host_ok) (auto simp: faultless_def dhcp_paths_def)
  have "\<exists>h' r. rollback_dhcpd plain_os dry_env h3 = (h', Inr r)"
  proof (cases "hs_files h3 known_good_path")
    case (Some f)
    define g where "g = fst (write_host (do_restore plain_os) conf_path (f_content f) h3)"
    obtain h4 r4 where "service_action dry_env ''isc-dhcpd'' ''restart'' g = (h4, Inr r4)" using dry_run_service(1) by blast
    then show ?thesis
      using Some plain_os_faultless unfolding rollback_dhcpd_def by (simp add: faultless_def w g_def)
  qed (simp add: rollback_dhcpd_def)
  with 1 2 3 show ?thesis by (cases "op_ok r3") (auto simp: restart_dhcpd_def)
qed

definition small_pool :: pool_row where
  "small_pool = blank_pool\<lparr>po_start := str_v4 5, po_end := str_v4 9\<rparr>"

definition dhcp_host :: "unit host" where
  "dhcp_host = \<lparr>hs_files = [conf_path \<mapsto> \<lparr>f_content = ''old'', f_mode = 420\<rparr>], hs_audit = [], hs_world = ()\<rparr>"

lemma dhcp_apply_atomic_witness:
  "\<exists>h' r. apply_dhcpd plain_os dry_env (pool_db small_pool) dhcp_host = (h', Inr r) \<and> hs_files h' conf_path
     = Some \<lparr>f_content = (if dr_ok r then generate_dhcpd_conf (pool_db small_pool) else ''old''), f_mode = 420\<rparr>"
proof -
  let ?db = "pool_db small_pool"
  have "dhcp_valid ?db"
    using v4_str_v4[of 5] v4_str_v4[of 9]
    by (simp add: dhcp_valid_def pool_valid_def pool_db_def small_pool_def blank_pool_def pool_net_def iface_row_def dns_list_def
        replace_char_def)
  then have v: "validate_dhcp_config ?db = []" by (simp add: validate_dhcp_iff)
  obtain h1 err where s: "validate_dhcpd_conf_syntax plain_os dry_env (generate_dhcpd_conf ?db) dhcp_host = (h1, True, err)"
    by (simp add: validate_dhcpd_conf_syntax_def dry_env_def plain_os_def run_command_def Let_def)
  obtain h2 where k: "save_known_good_dhcpd plain_os h1 = (h2, Inr True)" using save_known_good_ok[OF plain_os_faultless] by blast
  obtain h3 where w: "write_host (do_install plain_os) conf_path (generate_dhcpd_conf ?db) h2 = (h3, Inr ())"
    using plain_os_faultless by (auto simp: faultless_def dhcp_paths_def write_host_ok)
  obtain h' r where "restart_dhcpd plain_os dry_env ?db (generate_dhcpd_conf ?db) h3 = (h', Inr r)" using dry_restart by blast
  then have a: "apply_dhcpd plain_os dry_env ?db dhcp_host = (h', Inr r)"
    using v s k w
    by (simp add: apply_dhcpd_def install_dhcpd_def Let_def) (simp add: pool_db_def small_pool_def blank_pool_def dry_env_def)
  show ?thesis
    using dhcp_apply_atomic[OF plain_os_faultless _ _ _ _ a, of "''old''"] a
    by (auto simp: keeps_files_def dry_env_def pool_db_def small_pool_def blank_pool_def dhcp_host_def)
qed

end
