(* ===== verification/RcConfWriter.thy ===== *)
theory RcConfWriter
  imports DhcpWriter
begin

text \<open>
  \<^verbatim>\<open>app/services/rc_conf_writer.py\<close>: the managed block of rc.conf.local, from the tables to the file, the
  checks in between, the edit of one MTU and the static routes.  The capture interface of the intrusion
  detection is an argument.
\<close>

section \<open>Tables\<close>

record rc_iface_cfg =
  rf_port :: "string option"
  rf_type :: "string option"
  rf_ipv4 :: "string option"
  rf_gateway :: "string option"
  rf_mtu :: "string option"

record vlan_row =
  vl_parent :: "string option"
  vl_tag :: "int option"

record lagg_row =
  lg_id :: nat
  lg_members :: "string option"
  lg_protocol :: "string option"

record bridge_row =
  bg_id :: nat
  bg_members :: "string option"

record gre_row =
  gr_id :: nat
  gr_parent :: "string option"
  gr_local :: "string option"
  gr_remote :: "string option"
  gr_tunnel :: "string option"

text \<open>
  \<open>rc_l2tp\<close> is \<open>None\<close> when its table is missing; \<open>rc_ovpn\<close> and \<open>rc_phase1\<close> are the \<open>disabled\<close>
  columns of their tables; \<open>rc_ids\<close> holds \<open>enabled\<close> and \<open>mode\<close> of row 1.
\<close>

record rc_db =
  rc_wan :: "rc_iface_cfg option"
  rc_lan :: "rc_iface_cfg option"
  rc_vlans :: "vlan_row list"
  rc_laggs :: "lagg_row list"
  rc_bridges :: "bridge_row list"
  rc_gres :: "gre_row list"
  rc_dhcp :: dhcp_db
  rc_state :: service_state
  rc_ovpn :: "int option list"
  rc_phase1 :: "int option list"
  rc_l2tp :: "int option option option"
  rc_ids :: "(int option \<times> string option) option"
  rc_capture :: "string res"

definition rc_path :: string where
  "rc_path = ''/etc/rc.conf.local''"

definition block_start :: string where
  "block_start = ''# >>> Smart Shield managed block '' @ em_dash @ '' do not edit manually <<<''"

definition block_end :: string where
  "block_end = ''# <<< end Smart Shield managed block >>>''"

definition suricata_conf_path :: string where
  "suricata_conf_path = ''/usr/local/etc/suricata/suricata.yaml''"

section \<open>The block\<close>

definition dq :: string where
  "dq = [CHR 0x22]"

definition assign :: "string \<Rightarrow> string \<Rightarrow> string" where
  "assign k v = k @ ''='' @ dq @ v @ dq"

definition rc_iface :: "string \<Rightarrow> string" where
  "rc_iface name = map (\<lambda>c. if is_alnum c \<or> c = CHR ''_'' then c else CHR ''_'') name"

definition ifconfig_line :: "string \<Rightarrow> string \<Rightarrow> string" where
  "ifconfig_line iface v = assign (''ifconfig_'' @ rc_iface iface) v"

definition inet_cfg :: "ipiface \<Rightarrow> string \<Rightarrow> string" where
  "inet_cfg i mtu =
     ''inet '' @ str_ip (host_ip i) @ '' netmask '' @ netmask_str (iface_network i) @
     (if mtu = [] then [] else '' mtu '' @ mtu)"

definition forwarding_lines :: "string list" where
  "forwarding_lines = map (\<lambda>k. assign k ''YES'') [''pf_enable'', ''pflog_enable'', ''gateway_enable'', ''ipv6_gateway_enable'']"

definition wan_lines :: "rc_iface_cfg option \<Rightarrow> string list" where
  "wan_lines row =
     (case row of
        None \<Rightarrow> []
      | Some w \<Rightarrow>
          (let iface = strip (or_str (rf_port w) ''em0''); ty = lower (or_str (rf_type w) ''dhcp'');
               cidr = strip (or_str (rf_ipv4 w) []); gw = strip (or_str (rf_gateway w) []); mtu = strip (or_str (rf_mtu w) [])
           in (if ty = ''dhcp'' then [ifconfig_line iface ''DHCP'']
               else if ty = ''pppoe''
               then [ifconfig_line iface ''up'', assign ''ppp_enable'' ''YES'', assign ''ppp_profile'' ''smartshield_wan'',
                     assign ''ppp_mode'' ''ddial'']
               else if ty = ''static'' \<and> cidr \<noteq> []
               then (case ip_interface cidr of None \<Rightarrow> [] | Some i \<Rightarrow> [ifconfig_line iface (inet_cfg i mtu)])
               else []) @
              (if gw \<noteq> [] then [assign ''defaultrouter'' gw] else [])))"

definition lan_lines :: "rc_iface_cfg option \<Rightarrow> string list" where
  "lan_lines row =
     (case row of
        None \<Rightarrow> []
      | Some l \<Rightarrow>
          (let iface = strip (or_str (rf_port l) ''em1''); cidr = strip (or_str (rf_ipv4 l) []); mtu = strip (or_str (rf_mtu l) [])
           in if cidr = [] then []
              else case ip_interface cidr of
                None \<Rightarrow> []
              | Some i \<Rightarrow> [ifconfig_line iface (inet_cfg i mtu), assign ''smart_shield_bind'' ''127.0.0.1:5000'']))"

definition vlan_used :: "vlan_row \<Rightarrow> bool" where
  "vlan_used v \<longleftrightarrow> strip (or_str (vl_parent v) []) \<noteq> [] \<and> or_int (vl_tag v) 0 \<noteq> 0"

definition vlan_name :: "vlan_row \<Rightarrow> string" where
  "vlan_name v = strip (or_str (vl_parent v) []) @ ''.'' @ str_int (or_int (vl_tag v) 0)"

definition vlan_lines :: "vlan_row list \<Rightarrow> string list" where
  "vlan_lines vs =
     (let used = filter vlan_used vs
      in map (\<lambda>v. ifconfig_line (vlan_name v)
                    (''vlan '' @ str_int (or_int (vl_tag v) 0) @ '' vlandev '' @ strip (or_str (vl_parent v) []))) used @
         (case used of
            [] \<Rightarrow> []
          | v # _ \<Rightarrow> [assign (''vlans_'' @ vlan_name v) (join '' '' (map vlan_name used))]))"

definition member_list :: "string \<Rightarrow> string list" where
  "member_list s = filter (\<lambda>m. m \<noteq> []) (map strip (split_on (CHR '','') s))"

definition cloned_line :: "string \<Rightarrow> string" where
  "cloned_line name = assign ''cloned_interfaces'' (''${cloned_interfaces} '' @ name)"

definition lagg_lines :: "lagg_row \<Rightarrow> string list" where
  "lagg_lines r =
     (let name = ''lagg'' @ str_nat (lg_id r); members = strip (or_str (lg_members r) []);
          protocol = lower (or_str (lg_protocol r) ''lacp'')
      in if members = [] then []
         else map (\<lambda>m. ifconfig_line m ''up'') (member_list members) @
              [ifconfig_line name
                 (join '' '' ((''laggproto '' @ protocol) # map (\<lambda>m. ''laggport '' @ m) (member_list members))),
               cloned_line name])"

text \<open>The table has no column \<open>bridge_interface\<close>, so the name is made from the id.\<close>

definition bridge_lines :: "bridge_row \<Rightarrow> string list" where
  "bridge_lines r =
     (let name = ''bridge'' @ str_nat (bg_id r); members = strip (or_str (bg_members r) [])
      in if members = [] then []
         else [ifconfig_line name (join '' '' (map (\<lambda>m. ''addm '' @ m) (member_list members))), cloned_line name])"

definition gre_lines :: "gre_row \<Rightarrow> string list" where
  "gre_lines r =
     (let name = strip (or_str (gr_parent r) (''gre'' @ str_nat (gr_id r)));
          local = strip (or_str (gr_local r) []); remote = strip (or_str (gr_remote r) []);
          tunnel_ip = strip (or_str (gr_tunnel r) [])
      in if local = [] \<or> remote = [] then []
         else [ifconfig_line name
                 (''tunnel '' @ local @ '' '' @ remote @
                  (if tunnel_ip = [] then []
                   else case ip_interface tunnel_ip of
                     None \<Rightarrow> []
                   | Some i \<Rightarrow> '' inet '' @ str_ip (host_ip i) @ '' '' @ str_ip (net_addr (iface_network i)))),
               cloned_line name])"

definition dhcp_lines :: "dhcp_db \<Rightarrow> string list" where
  "dhcp_lines db =
     (if filter (\<lambda>p. po_enabled p = Some 1) (rows (dp_pools db)) = [] then []
      else [assign ''dhcpd_enable'' ''YES'', assign ''dhcpd_flags'' ''-q''] @
           (if dhcp_ifaces db = [] then [] else [assign ''dhcpd_ifaces'' (dhcp_ifaces db)]))"

definition enabled_in :: "json_doc \<Rightarrow> bool \<Rightarrow> bool res" where
  "enabled_in doc d =
     (case doc of
        BadJson \<Rightarrow> Inl (ValueError ''invalid document'')
      | Json v \<Rightarrow> bind_res (get_attr v ''enabled'') (\<lambda>x. Inr (case x of None \<Rightarrow> d | Some b \<Rightarrow> py_bool_of b)))"

definition service_lines :: "rc_db \<Rightarrow> string list" where
  "service_lines db =
     dhcp_lines (rc_dhcp db) @
     (case rc_state db ''dns_resolver'' of
        None \<Rightarrow> []
      | Some doc \<Rightarrow> (if enabled_in doc True = Inr False then [] else [assign ''unbound_enable'' ''YES''])) @
     (case rc_state db ''ntp_settings'' of
        None \<Rightarrow> []
      | Some doc \<Rightarrow> (if enabled_in doc False = Inr True then [assign ''ntpd_enable'' ''YES''] else [])) @
     (if Some 0 \<in> set (rc_ovpn db) then [assign ''openvpn_enable'' ''YES''] else []) @
     (if Some 0 \<in> set (rc_phase1 db) then [assign ''strongswan_enable'' ''YES''] else []) @
     (case rc_l2tp db of
        Some (Some e) \<Rightarrow> (if truthy_int e then [assign ''mpd_enable'' ''YES''] else [])
      | _ \<Rightarrow> []) @
     (case rc_ids db of
        None \<Rightarrow> []
      | Some (enabled, mode) \<Rightarrow>
          (if \<not> truthy_int enabled then []
           else [assign ''suricata_enable'' ''YES'', assign ''suricata_conf'' suricata_conf_path] @
                (if lower (or_str mode ''ids'') = ''ips'' then [assign ''suricata_interface'' []]
                 else case rc_capture db of
                   Inl e \<Rightarrow> []
                 | Inr i \<Rightarrow> [assign ''suricata_interface'' i])))"

definition rc_lines :: "rc_db \<Rightarrow> string list" where
  "rc_lines db =
     forwarding_lines @ wan_lines (rc_wan db) @ lan_lines (rc_lan db) @ vlan_lines (rc_vlans db) @
     concat (map lagg_lines (rc_laggs db)) @ concat (map bridge_lines (rc_bridges db)) @
     concat (map gre_lines (rc_gres db)) @ service_lines db"

definition generate_rc_conf_block :: "rc_db \<Rightarrow> string" where
  "generate_rc_conf_block db = join nl (rc_lines db)"


section \<open>Searching and replacing\<close>

text \<open>The text before the first occurrence of a pattern and the text behind it.\<close>

fun cut_at :: "string \<Rightarrow> string \<Rightarrow> (string \<times> string) option" where
  "cut_at p [] = (if p = [] then Some ([], []) else None)"
| "cut_at p (c # s) =
     (if prefix p (c # s) then Some ([], drop (length p) (c # s))
      else map_option (\<lambda>(a, b). (c # a, b)) (cut_at p s))"

lemma cut_at_Some: "cut_at p s = Some (a, b) \<Longrightarrow> s = a @ p @ b"
  by (induction p s arbitrary: a b rule: cut_at.induct) (auto simp: prefix_def split: if_splits)

text \<open>\<open>text.count(p)\<close> of a pattern that is not empty.\<close>

function count_of :: "string \<Rightarrow> string \<Rightarrow> nat" where
  "count_of p s =
     (if p = [] then 0
      else case cut_at p s of None \<Rightarrow> 0 | Some (a, b) \<Rightarrow> Suc (count_of p b))"
  by pat_completeness auto
termination
proof (relation "measure (\<lambda>(p, s). length s)", goal_cases)
  case (2 p s x a b)
  then have "s = a @ p @ b" by (simp add: cut_at_Some)
  then show ?case using 2(1) by simp
qed simp

declare count_of.simps [simp del]

text \<open>The first block between two markers: the text before, the body and the text behind.\<close>

definition cut_block :: "string \<Rightarrow> string \<Rightarrow> string \<Rightarrow> (string \<times> string \<times> string) option" where
  "cut_block p q s =
     (case cut_at p s of
        None \<Rightarrow> None
      | Some (a, b) \<Rightarrow> (case cut_at q b of None \<Rightarrow> None | Some (body, rest) \<Rightarrow> Some (a, body, rest)))"

lemma cut_block_Some: "cut_block p q s = Some (a, body, rest) \<Longrightarrow> s = a @ p @ body @ q @ rest"
  by (auto simp: cut_block_def split: option.splits dest!: cut_at_Some)

text \<open>
  The replacement of \<open>re.sub\<close> is a template: an escape is expanded, an unknown one or a reference to
  a group the pattern does not have is an error.
\<close>

definition octal :: "char \<Rightarrow> bool" where
  "octal c \<longleftrightarrow> is_digit c \<and> digit_val c < 8"

definition control_escape :: "char \<Rightarrow> char option" where
  "control_escape c =
     map_of [(CHR ''a'', CHR 0x07), (CHR ''b'', CHR 0x08), (CHR ''f'', CHR 0x0C), (CHR ''n'', CHR 0x0A),
             (CHR ''r'', CHR 0x0D), (CHR ''t'', CHR 0x09), (CHR ''v'', CHR 0x0B)] c"

definition zero_escape :: "string \<Rightarrow> string" where
  "zero_escape s = takeWhile octal (take 2 s)"

function expand_template :: "string \<Rightarrow> string res" where
  "expand_template s =
     (case s of
        [] \<Rightarrow> Inr []
      | c # t \<Rightarrow>
          (if c \<noteq> CHR 0x5C then bind_res (expand_template t) (\<lambda>u. Inr (c # u))
           else case t of
             [] \<Rightarrow> Inl (RuntimeError ''bad escape (end of pattern)'')
           | d # u \<Rightarrow>
               (if d = CHR ''0''
                then bind_res (expand_template (drop (length (zero_escape u)) u))
                       (\<lambda>v. Inr (char_of (foldl (\<lambda>n x. 8 * n + digit_val x) 0 (zero_escape u)) # v))
                else if is_digit d
                then (if octal d \<and> length (takeWhile octal (take 2 u)) = 2 \<and> digit_val d < 4
                      then bind_res (expand_template (drop 2 u))
                             (\<lambda>v. Inr (char_of (foldl (\<lambda>n x. 8 * n + digit_val x) 0 (d # take 2 u)) # v))
                      else Inl (RuntimeError ''invalid group reference''))
                else if d = CHR 0x5C then bind_res (expand_template u) (\<lambda>v. Inr (d # v))
                else case control_escape d of
                  Some x \<Rightarrow> bind_res (expand_template u) (\<lambda>v. Inr (x # v))
                | None \<Rightarrow>
                    (if is_alpha d then Inl (RuntimeError ''bad escape'')
                     else bind_res (expand_template u) (\<lambda>v. Inr (c # d # v))))))"
  by pat_completeness auto
termination by (relation "measure length") auto

declare expand_template.simps [simp del]

lemma expand_template_plain: "CHR 0x5C \<notin> set s \<Longrightarrow> expand_template s = Inr s"
proof (induction s)
  case (Cons c s)
  then have "expand_template s = Inr s" "c \<noteq> CHR 0x5C" by auto
  then show ?case by (subst expand_template.simps) simp
qed (simp add: expand_template.simps)

text \<open>\<open>re.sub(START.*?END, repl, text, flags=DOTALL)\<close>, with the expanded replacement.\<close>

function sub_blocks :: "string \<Rightarrow> string \<Rightarrow> string \<Rightarrow> string \<Rightarrow> string" where
  "sub_blocks p q repl s =
     (if p = [] then s
      else case cut_block p q s of
        None \<Rightarrow> s
      | Some (a, body, rest) \<Rightarrow> a @ repl @ sub_blocks p q repl rest)"
  by pat_completeness auto
termination
proof (relation "measure (\<lambda>(p, q, repl, s). length s)", goal_cases)
  case (2 p q repl s x a y body rest)
  then have "s = a @ p @ body @ q @ rest" by (simp add: cut_block_Some)
  then show ?case using 2(1) by simp
qed simp

declare sub_blocks.simps [simp del]

text \<open>\<open>re.sub(r"^isc_dhcpd_enable=.*\n?", "", text, flags=re.M)\<close>, on the lines of the text.\<close>

fun drop_stale :: "string list \<Rightarrow> string list" where
  "drop_stale [] = []"
| "drop_stale [l] = (if startswith l ''isc_dhcpd_enable='' then [[]] else [l])"
| "drop_stale (l # m # ls) =
     (if startswith l ''isc_dhcpd_enable='' then drop_stale (m # ls) else l # drop_stale (m # ls))"

definition strip_stale :: "string \<Rightarrow> string" where
  "strip_stale s = join nl (drop_stale (split_on (CHR 0x0A) s))"

section \<open>The static checks\<close>

definition iface_key_char :: "char \<Rightarrow> bool" where
  "iface_key_char c \<longleftrightarrow> is_alnum c \<or> c = CHR ''_'' \<or> c = CHR ''.''"

text \<open>A match of \<open>(ifconfig_[A-Za-z0-9_.]+)\s*=\s*"([^"]*)"\<close> at the head of a text: the two groups and the rest.\<close>

definition match_ifconfig :: "string \<Rightarrow> (string \<times> string \<times> string) option" where
  "match_ifconfig s =
     (let key = takeWhile iface_key_char (drop 9 s);
          s1 = dropWhile is_space (dropWhile iface_key_char (drop 9 s));
          s2 = dropWhile is_space (tl s1);
          v = takeWhile (\<lambda>c. c \<noteq> CHR 0x22) (tl s2);
          rest = dropWhile (\<lambda>c. c \<noteq> CHR 0x22) (tl s2)
      in if startswith s ''ifconfig_'' \<and> key \<noteq> [] \<and> startswith s1 ''='' \<and> startswith s2 dq \<and> rest \<noteq> []
         then Some (''ifconfig_'' @ key, v, tl rest) else None)"

lemma match_ifconfig_shorter: "match_ifconfig s = Some (k, v, rest) \<Longrightarrow> length rest < length s"
proof -
  assume m: "match_ifconfig s = Some (k, v, rest)"
  let ?s1 = "dropWhile is_space (dropWhile iface_key_char (drop 9 s))"
  let ?s2 = "dropWhile is_space (tl ?s1)"
  let ?r = "dropWhile (\<lambda>c. c \<noteq> CHR 0x22) (tl ?s2)"
  have r: "rest = tl ?r" "?r \<noteq> []" using m by (auto simp: match_ifconfig_def Let_def split: if_splits)
  have "length ?r \<le> length (tl ?s2)" by (rule length_dropWhile_le)
  also have "\<dots> \<le> length ?s2" by simp
  also have "\<dots> \<le> length (tl ?s1)" by (rule length_dropWhile_le)
  also have "\<dots> \<le> length ?s1" by simp
  also have "\<dots> \<le> length (dropWhile iface_key_char (drop 9 s))" by (rule length_dropWhile_le)
  also have "\<dots> \<le> length (drop 9 s)" by (rule length_dropWhile_le)
  also have "\<dots> \<le> length s" by simp
  finally show ?thesis using r by (cases ?r) auto
qed

text \<open>\<open>re.finditer\<close> of that pattern at the starts of lines.\<close>

function ifconfig_values :: "bool \<Rightarrow> string \<Rightarrow> (string \<times> string) list" where
  "ifconfig_values bol s =
     (case s of
        [] \<Rightarrow> []
      | c # t \<Rightarrow>
          (case (if bol then match_ifconfig s else None) of
             Some (k, v, rest) \<Rightarrow> (k, v) # ifconfig_values False rest
           | None \<Rightarrow> ifconfig_values (c = CHR 0x0A) t))"
  by pat_completeness auto
termination
  by (relation "measure (\<lambda>(b, s). length s)") (auto split: if_splits dest: match_ifconfig_shorter)

declare ifconfig_values.simps [simp del]

definition value_errors :: "string \<times> string \<Rightarrow> string list" where
  "value_errors kv =
     (case kv of (k, raw) \<Rightarrow>
       (let v = strip raw in
        if v = [] then []
        else (if CHR ''('' \<in> set v \<or> CHR '')'' \<in> set v
              then [k @ '' contains display-label characters: '' @ py_repr v] else []) @
             (if upper (hd (words_of v)) \<notin> set [''DHCP'', ''SYNCDHCP'', ''INET'', ''INET6''] \<and> \<not> startswith v ''inet ''
              then [k @ '' has unexpected form: '' @ py_repr v] else [])))"

definition validate_rc_conf_local :: "string \<Rightarrow> string list" where
  "validate_rc_conf_local s =
     (let starts = count_of block_start s; ends = count_of block_end s in
      (if starts \<noteq> 1 \<or> ends \<noteq> 1
       then [''managed-block markers must appear exactly once (found '' @ str_nat starts @ '' start / '' @
             str_nat ends @ '' end)''] else []) @
      (if odd (length (filter (\<lambda>c. c = CHR 0x22) s)) then [''unbalanced double-quote in generated rc.conf.local''] else []) @
      concat (map value_errors (ifconfig_values True s)))"


section \<open>The writer\<close>

definition get_current_rc_conf_block :: "pyexn option \<Rightarrow> fs \<Rightarrow> string res" where
  "get_current_rc_conf_block fault fs =
     (case fs rc_path of
        None \<Rightarrow> Inr []
      | Some f \<Rightarrow>
          (case fault of
             Some e \<Rightarrow> if is_oserror e then Inr [] else Inl e
           | None \<Rightarrow>
               Inr (case cut_block block_start block_end (f_content f) of
                      None \<Rightarrow> [] | Some (a, body, rest) \<Rightarrow> strip body)))"

definition full_block :: "string \<Rightarrow> string" where
  "full_block body = block_start @ nl @ body @ nl @ block_end @ nl"

text \<open>\<open>full_block.rstrip("\n")\<close>: the block ends in the end marker.\<close>

definition block_text :: "string \<Rightarrow> string" where
  "block_text body = block_start @ nl @ body @ nl @ block_end"

definition place_block :: "string \<Rightarrow> string \<Rightarrow> string res" where
  "place_block body existing =
     (if cut_block block_start block_end existing \<noteq> None
      then bind_res (expand_template (block_text body)) (\<lambda>r. Inr (sub_blocks block_start block_end r existing))
      else Inr (rstrip_char (CHR 0x0A) existing @ nl @ nl @ full_block body))"

record rc_result =
  rr_ok :: bool
  rr_message :: string
  rr_block :: string
  rr_errors :: "string list"

text \<open>The faults of reading the file, of its backup and of its installation.\<close>

record rc_os =
  ro_read_fault :: "pyexn option"
  ro_io :: io

definition rc_answer :: "bool \<Rightarrow> string \<Rightarrow> string \<Rightarrow> string list \<Rightarrow> rc_result" where
  "rc_answer ok m block errs = \<lparr>rr_ok = ok, rr_message = m, rr_block = block, rr_errors = errs\<rparr>"

definition read_rc :: "rc_os \<Rightarrow> 'w host \<Rightarrow> string res" where
  "read_rc os h =
     (case hs_files h rc_path of
        None \<Rightarrow> Inr []
      | Some f \<Rightarrow> (case ro_read_fault os of Some e \<Rightarrow> Inl e | None \<Rightarrow> Inr (f_content f)))"

definition backup_and_write :: "rc_os \<Rightarrow> bool \<Rightarrow> string \<Rightarrow> 'w host \<Rightarrow> 'w host \<times> unit res" where
  "backup_and_write os freebsd content h =
     (case backup_config freebsd (ro_io os) rc_path (hs_files h) of
        (fs1, Inl e) \<Rightarrow> (h\<lparr>hs_files := fs1\<rparr>, Inl e)
      | (fs1, Inr b) \<Rightarrow> write_host (ro_io os) rc_path content (h\<lparr>hs_files := fs1\<rparr>))"

text \<open>The two \<open>sysctl\<close> calls behind the write; what they answer is not looked at.\<close>

definition enable_forwarding :: "'w host exec_env \<Rightarrow> 'w host \<Rightarrow> 'w host \<times> unit res" where
  "enable_forwarding env h =
     (case run_command env 20 False [''sysctl'', ''net.inet.ip.forwarding=1''] h of
        (h1, ev1, Inl e) \<Rightarrow> (h1, Inl e)
      | (h1, ev1, Inr r1) \<Rightarrow>
          (case run_command env 20 False [''sysctl'', ''net.inet6.ip6.forwarding=1''] h1 of
             (h2, ev2, Inl e) \<Rightarrow> (h2, Inl e)
           | (h2, ev2, Inr r2) \<Rightarrow> (h2, Inr ())))"

definition install_rc :: "rc_os \<Rightarrow> 'w host exec_env \<Rightarrow> string \<Rightarrow> string \<Rightarrow> 'w host \<Rightarrow> 'w host \<times> rc_result res" where
  "install_rc os env block content h =
     (let errors = validate_rc_conf_local content in
      if errors \<noteq> []
      then (h, Inr (rc_answer False (''rc.conf.local validation failed: '' @ join ''; '' errors) block errors))
      else case backup_and_write os True content h of
        (h1, Inl e) \<Rightarrow>
          (h1, if is_oserror e then Inr (rc_answer False (''Cannot write '' @ rc_path @ '': '' @ exn_str e) block []) else Inl e)
      | (h1, Inr u) \<Rightarrow>
          (case enable_forwarding env h1 of
             (h2, Inl e) \<Rightarrow> (h2, Inl e)
           | (h2, Inr u) \<Rightarrow> (h2, Inr (rc_answer True (''Network config written to '' @ rc_path) block []))))"

definition apply_rc_conf :: "rc_os \<Rightarrow> 'w host exec_env \<Rightarrow> rc_db \<Rightarrow> 'w host \<Rightarrow> 'w host \<times> rc_result res" where
  "apply_rc_conf os env db h =
     (let body = generate_rc_conf_block db; block = full_block body in
      if \<not> ne_freebsd env
      then (h, Inr (rc_answer True (''Non-FreeBSD '' @ em_dash @ '' rc.conf block generated but not written.'') block []))
      else case read_rc os h of
        Inl e \<Rightarrow> (h, if is_oserror e then Inr (rc_answer False (''Cannot read '' @ rc_path @ '': '' @ exn_str e) block []) else Inl e)
      | Inr existing \<Rightarrow>
          (case place_block body existing of
             Inl e \<Rightarrow> (h, Inl e)
           | Inr content \<Rightarrow> install_rc os env block (strip_stale content) h))"

section \<open>The MTU of one interface\<close>

definition is_re_word :: "char \<Rightarrow> bool" where
  "is_re_word c \<longleftrightarrow> is_alnum c \<or> c = CHR ''_''"

text \<open>The match of \<open>\bmtu\s+\d+\<close> at a position behind the character \<open>prev\<close>: what follows it.\<close>

definition match_mtu :: "char option \<Rightarrow> string \<Rightarrow> string option" where
  "match_mtu prev s =
     (let s1 = drop 3 s; s2 = dropWhile is_space s1 in
      if (case prev of None \<Rightarrow> True | Some c \<Rightarrow> \<not> is_re_word c) \<and> startswith s ''mtu'' \<and> s2 \<noteq> s1 \<and> s2 \<noteq> [] \<and> is_digit (hd s2)
      then Some (dropWhile is_digit s2) else None)"

lemma match_mtu_shorter: "match_mtu prev s = Some rest \<Longrightarrow> length rest < length s"
proof -
  assume m: "match_mtu prev s = Some rest"
  have "length (dropWhile is_digit (dropWhile is_space (drop 3 s))) \<le> length (dropWhile is_space (drop 3 s))"
    by (rule length_dropWhile_le)
  also have "\<dots> \<le> length (drop 3 s)" by (rule length_dropWhile_le)
  finally show ?thesis using m by (cases s) (auto simp: match_mtu_def Let_def split: if_splits)
qed

function sub_mtu :: "string \<Rightarrow> char option \<Rightarrow> string \<Rightarrow> string" where
  "sub_mtu repl prev s =
     (case s of
        [] \<Rightarrow> []
      | c # t \<Rightarrow>
          (case match_mtu prev s of
             Some rest \<Rightarrow> repl @ sub_mtu repl (Some (CHR ''0'')) rest
           | None \<Rightarrow> c # sub_mtu repl (Some c) t))"
  by pat_completeness auto
termination by (relation "measure (\<lambda>(r, p, s). length s)") (auto dest: match_mtu_shorter)

declare sub_mtu.simps [simp del]

fun has_mtu :: "char option \<Rightarrow> string \<Rightarrow> bool" where
  "has_mtu prev [] = False"
| "has_mtu prev (c # t) = (match_mtu prev (c # t) \<noteq> None \<or> has_mtu (Some c) t)"

text \<open>The first line \<open>ifconfig_X\s*=\s*"..."\<close>: the text up to its value, the value and the text behind it.\<close>

definition match_line :: "string \<Rightarrow> string \<Rightarrow> (string \<times> string \<times> string) option" where
  "match_line key s =
     (let s1 = dropWhile is_space (drop (length key) s); s2 = dropWhile is_space (tl s1);
          v = takeWhile (\<lambda>c. c \<noteq> CHR 0x22) (tl s2); rest = dropWhile (\<lambda>c. c \<noteq> CHR 0x22) (tl s2)
      in if startswith s key \<and> startswith s1 ''='' \<and> startswith s2 dq \<and> rest \<noteq> []
         then Some (take (length s - length (tl s2)) s, v, rest) else None)"

fun find_line :: "string \<Rightarrow> bool \<Rightarrow> string \<Rightarrow> (string \<times> string \<times> string) option" where
  "find_line key bol [] = None"
| "find_line key bol (c # t) =
     (case (if bol then match_line key (c # t) else None) of
        Some m \<Rightarrow> Some m
      | None \<Rightarrow> map_option (\<lambda>(a, v, rest). (c # a, v, rest)) (find_line key (c = CHR 0x0A) t))"

definition set_iface_mtu ::
  "rc_os \<Rightarrow> 'w host exec_env \<Rightarrow> string \<Rightarrow> pyval \<Rightarrow> 'w host \<Rightarrow> 'w host \<times> op_result res" where
  "set_iface_mtu os env iface mtu h =
     (let rc = rc_iface (strip iface) in
      case py_int (strip (py_str_of mtu)) of
        None \<Rightarrow> (h, Inr (err_result (''invalid MTU: '' @ repr_val mtu)))
      | Some n \<Rightarrow>
          (if rc = [] \<or> n \<le> 0 then (h, Inr (err_result ''iface and positive MTU required''))
           else if \<not> ne_freebsd env
           then (h, Inr (ok_result (''Non-FreeBSD '' @ em_dash @ '' MTU '' @ str_int n @ '' for '' @ iface @ '' not written'')))
           else if hs_files h rc_path = None
           then (h, Inr (ok_result (rc_path @ '' absent '' @ em_dash @ '' MTU deferred to next apply'')))
           else case read_rc os h of
             Inl e \<Rightarrow> (h, if is_oserror e then Inr (err_result (''cannot read '' @ rc_path @ '': '' @ exn_str e)) else Inl e)
           | Inr content \<Rightarrow>
               (case find_line (''ifconfig_'' @ rc) True content of
                  None \<Rightarrow>
                    (h, Inr (ok_result (''no ifconfig_'' @ rc @ '' line yet '' @ em_dash @ '' MTU deferred to next apply'')))
                | Some (a, v, rest) \<Rightarrow>
                    (let new = (if has_mtu None v then sub_mtu (''mtu '' @ str_int n) None v
                                else strip (rstrip v @ '' mtu '' @ str_int n))
                     in if new = v
                        then (h, Inr (ok_result (''MTU '' @ str_int n @ '' already set for '' @ iface)))
                        else case backup_and_write os True (a @ new @ rest) h of
                          (h1, Inl e) \<Rightarrow>
                            (h1, if is_oserror e then Inr (err_result (''cannot write '' @ rc_path @ '': '' @ exn_str e)) else Inl e)
                        | (h1, Inr u) \<Rightarrow>
                            (h1, Inr (ok_result (''MTU '' @ str_int n @ '' persisted for '' @ iface)))))))"

section \<open>Static routes\<close>

definition routes_begin :: string where
  "routes_begin = ''# SMARTSHIELD_STATIC_ROUTES_BEGIN''"

definition routes_end :: string where
  "routes_end = ''# SMARTSHIELD_STATIC_ROUTES_END''"

record static_row =
  st_disabled :: "int option"
  st_destination :: string
  st_gateway_id :: "nat option"

text \<open>The routes in use with their gateways; the join keeps a route whose gateway exists.\<close>

definition enabled_routes :: "static_row list \<Rightarrow> (nat \<rightharpoonup> string) \<Rightarrow> (string \<times> string) list" where
  "enabled_routes routes gw =
     List.map_filter (\<lambda>r. if st_disabled r \<noteq> Some 0 then None
                        else map_option (Pair (st_destination r)) (Option.bind (st_gateway_id r) gw)) routes"

text \<open>A route, pushed by a delete and an add.\<close>

definition push_route ::
  "'w host exec_env \<Rightarrow> string \<times> string \<Rightarrow> 'w host \<times> nat \<times> string list \<Rightarrow> 'w host \<times> nat \<times> string list" where
  "push_route env r acc =
     (case (r, acc) of ((dst, gw), (h, applied, errors)) \<Rightarrow>
       (case run_command env 20 False [''route'', ''-n'', ''delete'', ''-net'', dst, gw] h of
          (h1, ev1, Inl e) \<Rightarrow>
            (h1\<lparr>hs_audit := hs_audit h1 @ ev1\<rparr>, applied, errors @ [dst @ '' via '' @ gw @ '': '' @ exn_str e])
        | (h1, ev1, Inr r1) \<Rightarrow>
            (case run_command env 20 False [''route'', ''-n'', ''add'', ''-net'', dst, gw] (h1\<lparr>hs_audit := hs_audit h1 @ ev1\<rparr>) of
               (h2, ev2, Inl e) \<Rightarrow>
                 (h2\<lparr>hs_audit := hs_audit h2 @ ev2\<rparr>, applied, errors @ [dst @ '' via '' @ gw @ '': '' @ exn_str e])
             | (h2, ev2, Inr r2) \<Rightarrow>
                 (if cr_code r2 = 0 then (h2\<lparr>hs_audit := hs_audit h2 @ ev2\<rparr>, Suc applied, errors)
                  else (h2\<lparr>hs_audit := hs_audit h2 @ ev2\<rparr>, applied,
                        errors @ [dst @ '' via '' @ gw @ '': '' @
                          strip (if cr_err r2 \<noteq> [] then cr_err r2 else cr_out r2)])))))"

definition routes_block :: "(string \<times> string) list \<Rightarrow> string" where
  "routes_block routes =
     (let names = map (\<lambda>(i, r). ''ssroute'' @ str_nat i) (number_from 0 routes);
          defs = map (\<lambda>(i, dst, gw). assign (''route_ssroute'' @ str_nat i) (''-net '' @ dst @ '' '' @ gw)) (number_from 0 routes)
      in routes_begin @ nl @ assign ''static_routes'' (join '' '' names) @ nl @
         (if defs = [] then [] else join nl defs @ nl) @ routes_end @ nl)"

text \<open>\<open>BEGIN.*?END\n?\<close>.\<close>

function sub_routes :: "string \<Rightarrow> string \<Rightarrow> string" where
  "sub_routes repl s =
     (case cut_block routes_begin routes_end s of
        None \<Rightarrow> s
      | Some (a, body, rest) \<Rightarrow> a @ repl @ sub_routes repl (if startswith rest nl then tl rest else rest))"
  by pat_completeness auto
termination
proof (relation "measure (\<lambda>(repl, s). length s)", goal_cases)
  case (2 repl s x a y body rest)
  then have s: "s = a @ routes_begin @ body @ routes_end @ rest" by (simp add: cut_block_Some)
  have "0 < length routes_begin" by (simp add: routes_begin_def)
  then show ?case unfolding s by (cases rest) auto
qed simp

declare sub_routes.simps [simp del]

definition place_routes :: "string \<Rightarrow> string \<Rightarrow> string res" where
  "place_routes block existing =
     (if cut_block routes_begin routes_end existing \<noteq> None
      then bind_res (expand_template block) (\<lambda>r. Inr (sub_routes r existing))
      else Inr ((if existing \<noteq> [] \<and> \<not> endswith existing nl then existing @ nl else existing) @ block))"

text \<open>
  The file is rewritten in place; a fault of the write is the file it leaves and the exception.  An
  \<open>OSError\<close> of either access is dropped.
\<close>

definition persist_routes ::
  "rc_os \<Rightarrow> (conf_file option \<times> pyexn) option \<Rightarrow> (string \<times> string) list \<Rightarrow> 'w host \<Rightarrow> 'w host \<times> unit res" where
  "persist_routes os wfault routes h =
     (case bind_res (read_rc os h) (place_routes (routes_block routes)) of
        Inl e \<Rightarrow> (h, if is_oserror e then Inr () else Inl e)
      | Inr new \<Rightarrow>
          (case wfault of
             Some (left, e) \<Rightarrow> (h\<lparr>hs_files := (hs_files h)(rc_path := left)\<rparr>, if is_oserror e then Inr () else Inl e)
           | None \<Rightarrow>
               (put_file rc_path new (case hs_files h rc_path of None \<Rightarrow> 420 | Some f \<Rightarrow> f_mode f) h, Inr ())))"

definition apply_static_routes ::
  "rc_os \<Rightarrow> (conf_file option \<times> pyexn) option \<Rightarrow> 'w host exec_env \<Rightarrow> (string \<times> string) list \<Rightarrow> 'w host
     \<Rightarrow> 'w host \<times> (bool \<times> string \<times> nat) res" where
  "apply_static_routes os wfault env routes h =
     (if routes = [] then (h, Inr (True, ''No enabled static routes.'', 0))
      else if \<not> ne_freebsd env then (h, Inr (True, ''Non-FreeBSD '' @ em_dash @ '' static routes not applied.'', 0))
      else case foldl (\<lambda>acc r. push_route env r acc) (h, 0, []) routes of
        (h1, applied, errors) \<Rightarrow>
          (case persist_routes os wfault routes h1 of
             (h2, Inl e) \<Rightarrow> (h2, Inl e)
           | (h2, Inr u) \<Rightarrow>
               (h2, Inr (if errors \<noteq> [] then (False, ''Some routes failed: '' @ join ''; '' errors, applied)
                         else (True, str_nat applied @ '' static route(s) applied.'', applied)))))"


section \<open>The managed block in the file\<close>

text \<open>A pattern whose first character is nowhere else in it is found where it was put.\<close>

lemma cut_at_append:
  assumes "p \<noteq> []" "hd p \<notin> set (tl p)" "\<not> sublist p a"
  shows "cut_at p (a @ p @ x) = Some (a, x)"
  using assms(3)
proof (induction a)
  case Nil
  then show ?case using assms(1) by (cases p) simp_all
next
  case (Cons c a)
  have "\<not> prefix p (c # a @ p @ x)"
  proof
    assume pre: "prefix p (c # a @ p @ x)"
    show False
    proof (cases "length p \<le> length (c # a)")
      case True
      with pre have "prefix p (c # a)" using prefix_length_prefix[of p "(c # a) @ p @ x" "c # a"] by simp
      then show False using Cons.prems by (auto intro: prefix_imp_sublist)
    next
      case False
      have "prefix (c # a) ((c # a) @ p @ x)" by (rule prefixI) (rule refl)
      moreover have "prefix p ((c # a) @ p @ x)" using pre by (simp only: append_Cons)
      moreover have "length (c # a) \<le> length p" using False by linarith
      ultimately have "prefix (c # a) p" by (rule prefix_length_prefix)
      then obtain q where q: "p = (c # a) @ q" by (rule prefixE)
      with False have "q \<noteq> []" by auto
      obtain z where "c # a @ p @ x = p @ z" using pre by (rule prefixE)
      then have "(c # a) @ p @ x = (c # a) @ q @ z" using q by (metis append.assoc append_Cons)
      then have "p @ x = q @ z" by (simp only: same_append_eq)
      then have "hd q = hd p" using \<open>q \<noteq> []\<close> assms(1) by (metis hd_append2)
      moreover have "hd q \<in> set (tl p)" using q \<open>q \<noteq> []\<close> by simp
      ultimately show False using assms(2) by simp
    qed
  qed
  moreover have "\<not> sublist p a" using Cons.prems by (simp add: sublist_Cons_right)
  ultimately show ?case using Cons.IH by simp
qed

lemma cut_at_None: "cut_at p s = None \<longleftrightarrow> \<not> sublist p s"
proof (induction p s rule: cut_at.induct)
  case (2 p c s)
  then show ?case by (auto simp: sublist_Cons_right)
qed simp

lemma cut_at_no_earlier: "cut_at p s = Some (a, b) \<Longrightarrow> cut_at p (a @ p @ x) = Some (a, x)"
proof (induction p s arbitrary: a b rule: cut_at.induct)
  case (1 p)
  then show ?case by (cases x) (auto split: if_splits)
next
  case (2 p c s)
  show ?case
  proof (cases "prefix p (c # s)")
    case True
    then show ?thesis using "2.prems" by (cases "p @ x"; cases p) auto
  next
    case False
    then obtain a' where a: "a = c # a'" "cut_at p s = Some (a', b)" using "2.prems" by (auto split: if_splits)
    have s: "s = a' @ p @ b" using a(2) by (rule cut_at_Some)
    have "\<not> prefix p (c # a' @ p @ x)"
    proof
      assume "prefix p (c # a' @ p @ x)"
      then have "prefix p (c # a' @ p)" using prefix_length_prefix[of p "(c # a' @ p) @ x" "c # a' @ p"] by simp
      then have "prefix p (c # s)" unfolding s by (metis append_Cons append_assoc prefix_append)
      then show False using False by simp
    qed
    then show ?thesis using "2.IH"[OF False a(2)] a(1) by simp
  qed
qed

lemma marker_heads:
  "block_start \<noteq> []" "hd block_start \<notin> set (tl block_start)" "block_end \<noteq> []" "hd block_end \<notin> set (tl block_end)"
  by (simp_all add: block_start_def block_end_def em_dash_def)

lemma sublist_around:
  assumes "c \<notin> set p" "p \<noteq> []" "sublist p (c # s @ [c])"
  shows "sublist p s"
proof -
  have cons: "sublist q (c # t) \<Longrightarrow> c \<notin> set q \<Longrightarrow> q \<noteq> [] \<Longrightarrow> sublist q t" for q t
    by (cases q) (auto simp: sublist_Cons_right)
  have "sublist p (s @ [c])" using cons[of p "s @ [c]"] assms by simp
  then have "sublist (rev p) (c # rev s)" by (metis rev.simps(2) rev_rev_ident sublist_rev)
  then have "sublist (rev p) (rev s)" using cons[of "rev p" "rev s"] assms by simp
  then show ?thesis by simp
qed

lemma no_end_around:
  assumes "\<not> sublist block_end body"
  shows "\<not> sublist block_end (nl @ body @ nl)"
proof -
  have "CHR 0x0A \<notin> set block_end" by (simp add: block_end_def)
  then show ?thesis using sublist_around[of "CHR 0x0A" block_end body] assms marker_heads(3) by (auto simp: nl_def)
qed

text \<open>Where the file has one managed block, the step that places a new one replaces exactly that block.\<close>

lemma place_block_in_place:
  assumes "cut_block block_start block_end existing = Some (a, old, rest)"
    and "cut_block block_start block_end rest = None" "CHR 0x5C \<notin> set body" "\<not> sublist block_end body"
  shows "existing = a @ block_start @ old @ block_end @ rest
    \<and> place_block body existing = Inr (a @ block_text body @ rest)
    \<and> cut_block block_start block_end (a @ block_text body @ rest) = Some (a, nl @ body @ nl, rest)"
proof -
  have plain: "CHR 0x5C \<notin> set (block_text body)"
    using assms(3) by (simp add: block_text_def block_start_def block_end_def em_dash_def nl_def)
  have "sub_blocks block_start block_end repl rest = rest" for repl
    using assms(2) by (simp add: sub_blocks.simps)
  then have "sub_blocks block_start block_end repl existing = a @ repl @ rest" for repl
    using assms(1) marker_heads(1) by (subst sub_blocks.simps) simp
  then have "place_block body existing = Inr (a @ block_text body @ rest)"
    using assms(1) by (simp add: place_block_def expand_template_plain[OF plain])
  moreover obtain b where "cut_at block_start existing = Some (a, b)"
    using assms(1) by (auto simp: cut_block_def split: option.splits)
  then have "cut_at block_start (a @ block_start @ nl @ body @ nl @ block_end @ rest) = Some (a, nl @ body @ nl @ block_end @ rest)"
    by (rule cut_at_no_earlier)
  moreover have "cut_at block_end ((nl @ body @ nl) @ block_end @ rest) = Some (nl @ body @ nl, rest)"
    using marker_heads(3,4) no_end_around[OF assms(4)] by (rule cut_at_append)
  ultimately show ?thesis
    using cut_block_Some[OF assms(1)] by (simp add: cut_block_def block_text_def)
qed

lemma write_host_Inr:
  assumes "write_host io path content h = (h', Inr u)" "io_tmp io \<noteq> path"
  shows "hs_files h' path = Some \<lparr>f_content = content, f_mode = 420\<rparr>"
  using assms by (auto simp: write_host_def atomic_write_def stage_def replace_def split: option.splits prod.splits)

lemma forwarding_files: "keeps_files env \<Longrightarrow> hs_files (fst (enable_forwarding env h)) = hs_files h"
proof -
  assume k: "keeps_files env"
  have c: "hs_files (fst (run_command env n check argv g)) = hs_files g" for n check argv g
    using k by (simp add: run_command_world keeps_files_def)
  show ?thesis
    using c[of 20 False "[''sysctl'', ''net.inet.ip.forwarding=1'']" h]
      c[of 20 False "[''sysctl'', ''net.inet6.ip6.forwarding=1'']" "fst (run_command env 20 False [''sysctl'', ''net.inet.ip.forwarding=1''] h)"]
    by (auto simp: enable_forwarding_def split: prod.splits sum.splits)
qed

text \<open>What a successful installation leaves in the file.\<close>

lemma install_rc_ok:
  assumes "install_rc os env block content h = (h', Inr r)" "rr_ok r" "keeps_files env" "io_tmp (ro_io os) \<noteq> rc_path"
  shows "hs_files h' rc_path = Some \<lparr>f_content = content, f_mode = 420\<rparr>"
proof -
  obtain h1 u where w: "backup_and_write os True content h = (h1, Inr u)"
    using assms(1,2) by (auto simp: install_rc_def rc_answer_def Let_def split: if_splits prod.splits sum.splits)
  then obtain h2 where "enable_forwarding env h1 = (h', Inr h2)"
    using assms(1,2) by (auto simp: install_rc_def rc_answer_def Let_def split: if_splits prod.splits sum.splits)
  then have "hs_files h' = hs_files h1" using forwarding_files[OF assms(3), of h1] by simp
  moreover have "hs_files h1 rc_path = Some \<lparr>f_content = content, f_mode = 420\<rparr>"
    using w write_host_Inr[OF _ assms(4)] by (auto simp: backup_and_write_def split: prod.splits sum.splits)
  ultimately show ?thesis by simp
qed

lemma drop_stale_id: "list_all (\<lambda>l. \<not> startswith l ''isc_dhcpd_enable='') ls \<Longrightarrow> drop_stale ls = ls"
  by (induction ls rule: drop_stale.induct) simp_all

lemma strip_stale_id:
  "list_all (\<lambda>l. \<not> startswith l ''isc_dhcpd_enable='') (split_on (CHR 0x0A) s) \<Longrightarrow> strip_stale s = s"
  by (simp add: strip_stale_def drop_stale_id nl_def join_split_on)

text \<open>
  C18: when the file has one managed block and the apply succeeds on FreeBSD, with a body that has no backslash and no
  end marker in it, the file has the text it had before the block, the block with the body generated from the database, and the text it had
  behind the block, less all lines that begin with \<open>isc_dhcpd_enable=\<close>. Where there is no such line nothing outside the block
  changes, and the current block read back is the new body.
\<close>

theorem block_replaced_in_place:
  fixes db :: rc_db
  defines "body \<equiv> generate_rc_conf_block db"
  assumes "hs_files h rc_path = Some f" "cut_block block_start block_end (f_content f) = Some (a, old, rest)"
    and "cut_block block_start block_end rest = None" "CHR 0x5C \<notin> set body" "\<not> sublist block_end body"
    and "ne_freebsd env" "keeps_files env" "io_tmp (ro_io os) \<noteq> rc_path"
    and "apply_rc_conf os env db h = (h', Inr r)" "rr_ok r"
  defines "new \<equiv> a @ block_text body @ rest"
  shows "f_content f = a @ block_start @ old @ block_end @ rest
    \<and> hs_files h' rc_path = Some \<lparr>f_content = strip_stale new, f_mode = 420\<rparr>
    \<and> (list_all (\<lambda>l. \<not> startswith l ''isc_dhcpd_enable='') (split_on (CHR 0x0A) new)
        \<longrightarrow> strip_stale new = new \<and> get_current_rc_conf_block None (hs_files h') = Inr (strip (nl @ body @ nl)))"
proof -
  note p = place_block_in_place[OF assms(3-6)]
  have rd: "read_rc os h = Inr (f_content f)"
    using assms(2,7,10,11) by (auto simp: apply_rc_conf_def read_rc_def rc_answer_def Let_def split: option.splits if_splits)
  have "apply_rc_conf os env db h = install_rc os env (full_block body) (strip_stale new) h"
    using assms(7) by (simp add: apply_rc_conf_def Let_def rd p[THEN conjunct2, THEN conjunct1] new_def flip: body_def)
  then have "hs_files h' rc_path = Some \<lparr>f_content = strip_stale new, f_mode = 420\<rparr>"
    using install_rc_ok[OF _ assms(11,8,9)] assms(10) by simp
  then show ?thesis
    using p unfolding new_def by (auto simp: get_current_rc_conf_block_def strip_stale_id)
qed

section \<open>Configurations that are never written\<close>

lemma drop_stale_nonempty: "ls \<noteq> [] \<Longrightarrow> drop_stale ls \<noteq> []"
  by (induction ls rule: drop_stale.induct) auto

lemma strip_stale_line:
  assumes "CHR 0x0A \<notin> set l" "\<not> startswith l ''isc_dhcpd_enable=''"
  shows "strip_stale (l @ nl @ s) = l @ nl @ strip_stale s"
proof -
  let ?t = "split_on (CHR 0x0A) s"
  have "drop_stale (l # ?t) = l # drop_stale ?t" using assms(2) by (cases ?t) simp_all
  then show ?thesis
    using assms(1) drop_stale_nonempty[of ?t]
    by (simp add: strip_stale_def nl_def split_on_append join_Cons)
qed

lemma values_Cons:
  "ifconfig_values bol (c # t) =
     (case (if bol then match_ifconfig (c # t) else None) of
        Some (k, v, rest) \<Rightarrow> (k, v) # ifconfig_values False rest
      | None \<Rightarrow> ifconfig_values (c = CHR 0x0A) t)"
  by (subst ifconfig_values.simps) simp

lemma values_skip_chars:
  "CHR 0x0A \<notin> set l \<Longrightarrow> ifconfig_values False (l @ nl @ s) = ifconfig_values True s"
proof (induction l)
  case (Cons c l)
  then have "c \<noteq> CHR 0x0A" by auto
  with Cons show ?case by (simp add: values_Cons)
qed (simp add: nl_def values_Cons)

lemma values_skip_line:
  assumes "CHR 0x0A \<notin> set l" "\<not> startswith l ''ifconfig_''"
  shows "ifconfig_values True (l @ nl @ s) = ifconfig_values True s"
proof -
  have "\<not> prefix ''ifconfig_'' (l @ nl @ s)"
  proof
    assume p: "prefix ''ifconfig_'' (l @ nl @ s)"
    have "prefix l (l @ nl @ s)" by simp
    with p have "prefix ''ifconfig_'' l \<or> prefix l ''ifconfig_''" by (rule prefix_same_cases)
    then obtain q where q: "''ifconfig_'' = l @ q" using assms(2) by (auto simp: startswith_def elim: prefixE)
    with p have "prefix q (nl @ s)" by (simp only: same_prefix_prefix)
    moreover have "q \<noteq> []" using q assms(2) by (auto simp: startswith_def)
    ultimately have "CHR 0x0A \<in> set q" by (cases q) (auto simp: nl_def)
    then have "CHR 0x0A \<in> set (l @ q)" by simp
    then show False unfolding q[symmetric] by simp
  qed
  then have m: "match_ifconfig (l @ nl @ s) = None" by (simp add: match_ifconfig_def startswith_def)
  show ?thesis
  proof (cases l)
    case Nil
    then show ?thesis using m by (simp add: nl_def values_Cons)
  next
    case (Cons c t)
    then have "c \<noteq> CHR 0x0A" using assms(1) by auto
    with Cons show ?thesis using m assms(1) values_skip_chars[of t s] by (simp add: values_Cons)
  qed
qed

lemma match_assign:
  assumes "list_all iface_key_char key" "key \<noteq> []" "CHR 0x22 \<notin> set v"
  shows "match_ifconfig (assign (''ifconfig_'' @ key) v @ s) = Some (''ifconfig_'' @ key, v, s)"
proof -
  have k: "takeWhile iface_key_char (key @ CHR ''='' # t) = key" "dropWhile iface_key_char (key @ CHR ''='' # t) = CHR ''='' # t" for t
    using assms(1) by (induction key) (auto simp: iface_key_char_def char_class_defs)
  have q: "takeWhile (\<lambda>c. c \<noteq> CHR 0x22) (v @ CHR 0x22 # s) = v" "dropWhile (\<lambda>c. c \<noteq> CHR 0x22) (v @ CHR 0x22 # s) = CHR 0x22 # s"
    using assms(3) by (induction v) auto
  have "\<not> is_space (CHR ''='')" "\<not> is_space (CHR 0x22)" by (simp_all add: char_class_defs)
  then show ?thesis
    using assms(2) k q by (simp add: match_ifconfig_def assign_def dq_def startswith_def)
qed

lemma rc_iface_chars: "list_all iface_key_char (rc_iface s)" "rc_iface s = [] \<longleftrightarrow> s = []"
  by (auto simp: rc_iface_def list_all_iff iface_key_char_def)

lemma key_no_nl: "list_all iface_key_char s \<Longrightarrow> CHR 0x0A \<notin> set s"
  by (auto simp: list_all_iff iface_key_char_def char_class_defs)

lemma up_refused: "(k @ '' has unexpected form: '' @ py_repr ''up'') \<in> set (value_errors (k, ''up''))"
proof -
  have "strip ''up'' = ''up''" "words_of ''up'' = [''up'']" "upper ''up'' = ''UP''"
    by (simp_all add: strip_def lstrip_def rstrip_def char_class_defs words_of_def split_runs.simps upper_def to_upper_def char_of_def bit_0)
  then show ?thesis by (simp add: value_errors_def startswith_def)
qed

lemma values_assign:
  assumes "strip p \<noteq> []" "CHR 0x22 \<notin> set v"
  shows "ifconfig_values True (assign (''ifconfig_'' @ rc_iface (strip p)) v @ s)
    = (''ifconfig_'' @ rc_iface (strip p), v) # ifconfig_values False s"
proof -
  have "match_ifconfig (assign (''ifconfig_'' @ rc_iface (strip p)) v @ s) = Some (''ifconfig_'' @ rc_iface (strip p), v, s)"
    using rc_iface_chars assms by (intro match_assign) auto
  then show ?thesis by (simp add: assign_def values_Cons)
qed

text \<open>
  A WAN that dials in is never written: the block sets its interface to \<open>up\<close>, and the check of the
  generated file, which knows addresses and DHCP only, refuses that.  The same check refuses the lines
  of VLANs, link aggregation, bridges and tunnels.
\<close>

theorem pppoe_never_written:
  assumes "ne_freebsd env" "hs_files h rc_path = None" "rc_wan db = Some w"
    and "lower (or_str (rf_type w) ''dhcp'') = ''pppoe''" "strip (or_str (rf_port w) ''em0'') \<noteq> []"
  shows "\<exists>r. apply_rc_conf os env db h = (h, Inr r) \<and> \<not> rr_ok r
    \<and> (''ifconfig_'' @ rc_iface (strip (or_str (rf_port w) ''em0'')) @ '' has unexpected form: '' @ py_repr ''up'') \<in> set (rr_errors r)"
proof -
  let ?if = "rc_iface (strip (or_str (rf_port w) ''em0''))"
  let ?up = "assign (''ifconfig_'' @ ?if) ''up''"
  obtain more where "rc_lines db = forwarding_lines @ ?up # more" "more \<noteq> []"
    using assms(3,4) by (simp add: rc_lines_def wan_lines_def ifconfig_line_def Let_def)
  then have body: "generate_rc_conf_block db @ nl @ block_end @ nl = assign ''pf_enable'' ''YES'' @ nl @ assign ''pflog_enable'' ''YES'' @ nl
      @ assign ''gateway_enable'' ''YES'' @ nl @ assign ''ipv6_gateway_enable'' ''YES'' @ nl @ ?up @ nl
      @ join nl more @ nl @ block_end @ nl"
    by (simp add: generate_rc_conf_block_def forwarding_lines_def join_Cons)
  have content: "place_block (generate_rc_conf_block db) [] = Inr ([] @ nl @ [] @ nl @ block_start @ nl @ generate_rc_conf_block db @ nl @ block_end @ nl)"
    using marker_heads(1) by (cases block_start) (simp_all add: place_block_def cut_block_def full_block_def rstrip_char_def)
  have plain: "CHR 0x0A \<notin> set l" "\<not> startswith l ''isc_dhcpd_enable=''" "\<not> startswith l ''ifconfig_''"
    if "l \<in> set [[], block_start, assign ''pf_enable'' ''YES'', assign ''pflog_enable'' ''YES'', assign ''gateway_enable'' ''YES'',
      assign ''ipv6_gateway_enable'' ''YES'']" for l
    using that by (auto simp: assign_def dq_def block_start_def em_dash_def startswith_def)
  have skip: "strip_stale (l @ nl @ s) = l @ nl @ strip_stale s \<and> ifconfig_values True (l @ nl @ s) = ifconfig_values True s"
    if "l \<in> set [[], block_start, assign ''pf_enable'' ''YES'', assign ''pflog_enable'' ''YES'', assign ''gateway_enable'' ''YES'',
      assign ''ipv6_gateway_enable'' ''YES'']" for l s
    using plain[OF that] strip_stale_line values_skip_line by blast
  have up: "CHR 0x0A \<notin> set ?up" "\<not> startswith ?up ''isc_dhcpd_enable=''"
    using key_no_nl[OF rc_iface_chars(1)] by (auto simp: assign_def dq_def startswith_def)
  define rest where "rest = strip_stale (join nl more @ nl @ block_end @ nl)"
  let ?content = "[] @ nl @ [] @ nl @ block_start @ nl @ assign ''pf_enable'' ''YES'' @ nl @ assign ''pflog_enable'' ''YES'' @ nl
      @ assign ''gateway_enable'' ''YES'' @ nl @ assign ''ipv6_gateway_enable'' ''YES'' @ nl @ ?up @ nl @ rest"
  have stale: "strip_stale ([] @ nl @ [] @ nl @ block_start @ nl @ generate_rc_conf_block db @ nl @ block_end @ nl) = ?content"
    unfolding body rest_def
    by (subst skip[THEN conjunct1], (simp; fail))+ (simp only: strip_stale_line[OF up])
  have "ifconfig_values True ?content = ifconfig_values True (?up @ nl @ rest)"
    by (subst skip[THEN conjunct2], (simp; fail))+ (rule refl)
  also have "\<dots> = (''ifconfig_'' @ ?if, ''up'') # ifconfig_values False (nl @ rest)"
    using assms(5) by (intro values_assign) simp_all
  finally have vals: "ifconfig_values True ?content = (''ifconfig_'' @ ?if, ''up'') # ifconfig_values False (nl @ rest)" .
  let ?err = "''ifconfig_'' @ ?if @ '' has unexpected form: '' @ py_repr ''up''"
  have err: "?err \<in> set (validate_rc_conf_local ?content)"
    unfolding validate_rc_conf_local_def Let_def vals using up_refused[of "''ifconfig_'' @ ?if"] by simp
  have "read_rc os h = Inr []" using assms(2) by (simp add: read_rc_def)
  then have "apply_rc_conf os env db h = install_rc os env (full_block (generate_rc_conf_block db)) ?content h"
    using assms(1) by (simp add: apply_rc_conf_def Let_def content stale del: append_Nil)
  moreover have "validate_rc_conf_local ?content \<noteq> []" using err by (metis empty_iff list.set(1))
  ultimately show ?thesis using err by (simp add: install_rc_def rc_answer_def Let_def del: append_Nil)
qed


lemma short_no_end: "length s < length block_end \<Longrightarrow> \<not> sublist block_end s"
  by (auto dest: sublist_length_le)

lemma cut_block_text:
  assumes "\<not> sublist block_end body"
  shows "cut_block block_start block_end (block_text body @ rest) = Some ([], nl @ body @ nl, rest)"
proof -
  have "cut_at block_start (block_start @ nl @ body @ nl @ block_end @ rest) = Some ([], nl @ body @ nl @ block_end @ rest)"
    using cut_at_append[of block_start "[]"] marker_heads by simp
  moreover have "cut_at block_end ((nl @ body @ nl) @ block_end @ rest) = Some (nl @ body @ nl, rest)"
    using marker_heads(3,4) no_end_around[OF assms] by (rule cut_at_append)
  ultimately show ?thesis by (simp add: cut_block_def block_text_def)
qed

definition dial_in :: rc_db where
  "dial_in = \<lparr>rc_wan = Some \<lparr>rf_port = Some ''em0'', rf_type = Some ''pppoe'', rf_ipv4 = None, rf_gateway = None, rf_mtu = None\<rparr>,
     rc_lan = None, rc_vlans = [], rc_laggs = [], rc_bridges = [], rc_gres = [], rc_dhcp = pool_db blank_pool,
     rc_state = (\<lambda>k. None), rc_ovpn = [], rc_phase1 = [], rc_l2tp = None, rc_ids = None, rc_capture = Inr ''em0''\<rparr>"

lemma pppoe_never_written_witness:
  "\<exists>r. apply_rc_conf \<lparr>ro_read_fault = None, ro_io = do_install plain_os\<rparr> dry_env dial_in (dhcp_host\<lparr>hs_files := \<lambda>p. None\<rparr>)
     = (dhcp_host\<lparr>hs_files := \<lambda>p. None\<rparr>, Inr r) \<and> \<not> rr_ok r"
proof -
  have "lower ''pppoe'' = ''pppoe''" by (simp add: lower_def to_lower_def char_class_defs)
  moreover have "strip ''em0'' = ''em0''" by (simp add: strip_def lstrip_def rstrip_def char_class_defs)
  ultimately show ?thesis
    using pppoe_never_written[of dry_env "dhcp_host\<lparr>hs_files := \<lambda>p. None\<rparr>" dial_in "the (rc_wan dial_in)"]
    by (fastforce simp: dry_env_def dial_in_def)
qed

text \<open>A WAN that asks DHCP for its address, and a file that holds an older block.\<close>

definition dial_dhcp :: rc_db where
  "dial_dhcp = dial_in\<lparr>rc_wan := Some \<lparr>rf_port = Some ''em0'', rf_type = Some ''dhcp'', rf_ipv4 = None, rf_gateway = None, rf_mtu = None\<rparr>\<rparr>"

definition old_rc :: "unit host" where
  "old_rc = dhcp_host\<lparr>hs_files := [rc_path \<mapsto> \<lparr>f_content = block_text ''old'' @ nl, f_mode = 420\<rparr>]\<rparr>"

lemma dial_dhcp_body:
  "validate_rc_conf_local (strip_stale (block_text (generate_rc_conf_block dial_dhcp) @ nl)) = []"
  "CHR 0x5C \<notin> set (generate_rc_conf_block dial_dhcp)" "\<not> sublist block_end (generate_rc_conf_block dial_dhcp)"
  by code_simp+

lemma block_replaced_in_place_witness:
  "\<exists>h' r. apply_rc_conf \<lparr>ro_read_fault = None, ro_io = do_install plain_os\<rparr> dry_env dial_dhcp old_rc = (h', Inr r)
     \<and> hs_files h' rc_path = Some \<lparr>f_content = strip_stale (block_text (generate_rc_conf_block dial_dhcp) @ nl), f_mode = 420\<rparr>"
proof -
  let ?os = "\<lparr>ro_read_fault = None, ro_io = do_install plain_os\<rparr>" and ?body = "generate_rc_conf_block dial_dhcp"
  have f: "hs_files old_rc rc_path = Some \<lparr>f_content = block_text ''old'' @ nl, f_mode = 420\<rparr>" by (simp add: old_rc_def)
  have c: "cut_block block_start block_end (block_text ''old'' @ nl) = Some ([], nl @ ''old'' @ nl, nl)"
    by (rule cut_block_text, rule short_no_end) (simp add: block_end_def)
  have n: "cut_block block_start block_end nl = None"
    using marker_heads(1) by (simp add: cut_block_def nl_def block_start_def)
  have e: "ne_freebsd dry_env" "keeps_files dry_env" "io_tmp (ro_io ?os) \<noteq> rc_path"
    by (simp_all add: dry_env_def keeps_files_def plain_os_def rc_path_def Let_def)
  have pl: "place_block ?body (block_text ''old'' @ nl) = Inr (block_text ?body @ nl)"
    using place_block_in_place[OF c n dial_dhcp_body(2,3), THEN conjunct2, THEN conjunct1] by (simp only: append_Nil)
  have rd: "read_rc ?os old_rc = Inr (block_text ''old'' @ nl)" by (simp add: read_rc_def f)
  have "\<exists>h1. backup_and_write ?os True content old_rc = (h1, Inr ())" for content
    by (simp add: backup_and_write_def backup_config_def copy2_def write_host_def atomic_write_def stage_def plain_os_def Let_def f)
  moreover have "\<exists>h2. enable_forwarding dry_env h1 = (h2, Inr ())" for h1
    by (simp add: enable_forwarding_def run_command_def dry_env_def)
  ultimately have "\<exists>h' r. install_rc ?os dry_env (full_block ?body) (strip_stale (block_text ?body @ nl)) old_rc = (h', Inr r) \<and> rr_ok r"
    by (auto simp: install_rc_def dial_dhcp_body(1) rc_answer_def split: prod.splits sum.splits) (metis old.unit.exhaust prod.inject sum.inject(2) sum.distinct(1))+
  then obtain h' r where a: "apply_rc_conf ?os dry_env dial_dhcp old_rc = (h', Inr r)" "rr_ok r"
    using e(1) by (auto simp: apply_rc_conf_def Let_def rd pl)
  have "cut_block block_start block_end (f_content \<lparr>f_content = block_text ''old'' @ nl, f_mode = 420\<rparr>) = Some ([], nl @ ''old'' @ nl, nl)"
    using c by simp
  from block_replaced_in_place[OF f this n dial_dhcp_body(2,3) e a] a(1) show ?thesis by simp
qed

end
