(* ===== verification/PfReload.thy ===== *)
theory PfReload
  imports PfOrder ConfigFile
begin

text \<open>
  The apply side of \<^verbatim>\<open>app/services/pf_generator.py\<close>: the macro check, the pfctl syntax
  check, the known-good copy, the reload with its rollback, and the status query.

  The host is a file system, the rule set the kernel holds, and a log of the other commands.
  pfctl and the privileged helper are arguments: what they answer on a configuration text.
  With \<^verbatim>\<open>SMARTSHIELD_NETWORK_DRY_RUN=1\<close> \<open>run_command\<close> starts nothing and answers with return code 0;
  the files are written all the same.
\<close>

section \<open>Commands\<close>

text \<open>A finished command (return code, stdout, stderr) or the exception of the call.\<close>

datatype cmd_result = Ran int string string | CmdError pyexn

text \<open>\<open>(result.stderr or result.stdout or dflt).strip()\<close>.\<close>

definition cmd_message :: "string \<Rightarrow> string \<Rightarrow> string \<Rightarrow> string" where
  "cmd_message out err dflt = strip (if err \<noteq> [] then err else if out \<noteq> [] then out else dflt)"

record pf_os =
  os_freebsd :: bool
  os_dry :: bool
  os_check_tmp :: "string res"
  os_check :: "string \<Rightarrow> cmd_result"
  os_load :: "string \<Rightarrow> cmd_result"
  os_enable :: cmd_result
  os_info :: cmd_result
  os_write :: io
  os_save :: "copy_fault option"
  os_back :: "copy_fault option"

record pf_host =
  ho_files :: fs
  ho_rules :: "string option"
  ho_commands :: "string list list"

definition pf_conf_path :: string where
  "pf_conf_path = ''/etc/pf.conf''"

definition pf_known_good :: string where
  "pf_known_good = ''/etc/pf.conf.known_good''"

lemma pf_known_good_backup: "pf_known_good = backup_of pf_conf_path"
  by (simp add: pf_known_good_def backup_of_def pf_conf_path_def)

text \<open>
  \<open>run_command\<close> on the commands of this module: in the dry run the command line comes back, and no
  token of these commands is one that \<open>redact_command\<close> masks.
\<close>

definition dry_answer :: "pf_os \<Rightarrow> string list \<Rightarrow> cmd_result \<Rightarrow> cmd_result" where
  "dry_answer os cmd real = (if os_dry os then Ran 0 (''[DRY-RUN] '' @ join '' '' cmd) [] else real)"

definition run_others :: "pf_os \<Rightarrow> string list list \<Rightarrow> pf_host \<Rightarrow> pf_host" where
  "run_others os cmds h = (if os_dry os then h else h\<lparr>ho_commands := ho_commands h @ cmds\<rparr>)"

text \<open>
  Loading the text of pf.conf; the kernel takes it when a pfctl that really ran accepts it.
\<close>

definition load_rules :: "pf_os \<Rightarrow> string \<Rightarrow> pf_host \<Rightarrow> pf_host \<times> cmd_result" where
  "load_rules os text h =
     (let ans = dry_answer os [''/sbin/pfctl'', ''-f'', pf_conf_path] (os_load os text)
      in (case ans of
            Ran rc out err \<Rightarrow> ((if rc = 0 \<and> \<not> os_dry os then h\<lparr>ho_rules := Some text\<rparr> else h), ans)
          | CmdError e \<Rightarrow> (h, ans)))"

section \<open>Checks before the files are touched\<close>

definition first_field :: "iface_cfg list \<Rightarrow> (iface_cfg \<Rightarrow> string option) \<Rightarrow> string" where
  "first_field cfg f = (case cfg of [] \<Rightarrow> [] | r # _ \<Rightarrow> strip (or_str (f r) []))"

text \<open>The last message ends with the text of the \<open>ValueError\<close> of \<open>ip_interface\<close>.\<close>

definition validate_pf_macros :: "pf_db \<Rightarrow> bool \<times> string" where
  "validate_pf_macros db =
     (let lan_iface = first_field (lan_config db) if_port;
          wan_iface = first_field (wan_config db) if_port;
          lan_cidr = first_field (lan_config db) if_ipv4
      in if wan_iface = []
         then (False, ''PF macros: WAN interface is unassigned. Set it in Interfaces '' @ arrow @ '' WAN.'')
         else if lan_iface = []
         then (False, ''PF macros: LAN interface is unassigned. Set it in Interfaces '' @ arrow @ '' LAN.'')
         else if lan_cidr = []
         then (False, ''PF macros: LAN network is unset. Configure a LAN IPv4 address (CIDR).'')
         else if ip_interface lan_cidr = None
         then (False, ''PF macros: LAN network '' @ py_repr lan_cidr @ '' is not a valid CIDR: '' @
                py_repr lan_cidr @ '' does not appear to be an IPv4 or IPv6 interface'')
         else (True, []))"

definition validate_pf_conf :: "pf_os \<Rightarrow> string \<Rightarrow> (bool \<times> string) res" where
  "validate_pf_conf os text =
     (if \<not> os_freebsd os then Inr (True, ''skipped-non-freebsd'')
      else case (case os_check_tmp os of
          Inl e \<Rightarrow> CmdError e
        | Inr tmp \<Rightarrow> dry_answer os [''pfctl'', ''-nf'', tmp] (os_check os text)) of
        Ran rc out err \<Rightarrow> Inr (rc = 0, cmd_message out err [])
      | CmdError (FreeBSDNetworkError m) \<Rightarrow> Inr (False, m)
      | CmdError e \<Rightarrow> Inl e)"

section \<open>Known-good copy and rollback\<close>

text \<open>\<open>open(path, "w")\<close> keeps the mode of an existing file.\<close>

definition write_text :: "string \<Rightarrow> string \<Rightarrow> fs \<Rightarrow> fs" where
  "write_text path content fs =
     fs(path \<mapsto> \<lparr>f_content = content, f_mode = (case fs path of Some f \<Rightarrow> f_mode f | None \<Rightarrow> 420)\<rparr>)"

definition copy_text :: "copy_fault option \<Rightarrow> string \<Rightarrow> string \<Rightarrow> fs \<Rightarrow> fs \<times> pyexn option" where
  "copy_text fault src dst fs =
     (case fault of
        None \<Rightarrow>
          (case fs src of
             None \<Rightarrow> (fs, Some (OSError ''No such file or directory''))
           | Some f \<Rightarrow> (write_text dst (f_content f) fs, None))
      | Some (CopyFault left e) \<Rightarrow>
          ((case left of None \<Rightarrow> fs | Some f \<Rightarrow> fs(dst \<mapsto> f)), Some e))"

definition save_known_good :: "pf_os \<Rightarrow> pf_host \<Rightarrow> pf_host \<times> bool res" where
  "save_known_good os h =
     (if ho_files h pf_conf_path = None then (h, Inr True)
      else case copy_text (os_save os) pf_conf_path pf_known_good (ho_files h) of
        (fs, None) \<Rightarrow> (h\<lparr>ho_files := fs\<rparr>, Inr True)
      | (fs, Some e) \<Rightarrow> (h\<lparr>ho_files := fs\<rparr>, if is_oserror e then Inr False else Inl e))"

definition rollback_failed :: "pyexn \<Rightarrow> op_result" where
  "rollback_failed e = \<lparr>op_ok = False, op_message = ''Rollback failed: '' @ exn_str e\<rparr>"

text \<open>Only \<open>OSError\<close> and \<open>FreeBSDNetworkError\<close> are caught.\<close>

definition catch_rollback :: "pyexn \<Rightarrow> op_result res" where
  "catch_rollback e =
     (case e of
        OSError _ \<Rightarrow> Inr (rollback_failed e)
      | FreeBSDNetworkError _ \<Rightarrow> Inr (rollback_failed e)
      | _ \<Rightarrow> Inl e)"

definition rollback_pf :: "pf_os \<Rightarrow> pf_host \<Rightarrow> pf_host \<times> op_result res" where
  "rollback_pf os h =
     (if \<not> os_freebsd os
      then (h, Inr \<lparr>op_ok = False, op_message = ''Rollback only runs on FreeBSD.''\<rparr>)
      else case ho_files h pf_known_good of
        None \<Rightarrow> (h, Inr \<lparr>op_ok = False, op_message = ''No known-good backup found.''\<rparr>)
      | Some old \<Rightarrow>
          (case copy_text (os_back os) pf_known_good pf_conf_path (ho_files h) of
             (fs, Some e) \<Rightarrow> (h\<lparr>ho_files := fs\<rparr>, catch_rollback e)
           | (fs, None) \<Rightarrow>
               (case load_rules os (f_content old) (h\<lparr>ho_files := fs\<rparr>) of
                  (h1, Ran rc out err) \<Rightarrow>
                    (if rc = 0
                     then (h1, Inr \<lparr>op_ok = True, op_message = ''Rolled back to last known-good pf.conf.''\<rparr>)
                     else (h1, Inr (rollback_failed (FreeBSDNetworkError (cmd_message out err ''pf.reload failed'')))))
                | (h1, CmdError e) \<Rightarrow> (h1, catch_rollback e))))"

section \<open>Status\<close>

record pf_status =
  pf_running :: bool
  pf_state :: string
  pf_message :: string
  pf_enabled :: bool

definition get_pf_status :: "pf_os \<Rightarrow> pf_status res" where
  "get_pf_status os =
     (if \<not> os_freebsd os
      then Inr \<lparr>pf_running = False, pf_state = ''dry-run'',
                pf_message = ''Non-FreeBSD host '' @ em_dash @ '' PF not available.'', pf_enabled = False\<rparr>
      else case dry_answer os [''pfctl'', ''-s'', ''info''] (os_info os) of
        Ran rc out err \<Rightarrow>
          (let enabled = (rc = 0); running = (enabled \<and> contains ''Enabled'' out) in
           Inr \<lparr>pf_running = running,
                pf_state = (if running then ''running'' else if enabled then ''stopped'' else ''error''),
                pf_message = (if out \<noteq> [] then hd (splitlines out) else []), pf_enabled = enabled\<rparr>)
      | CmdError (FreeBSDNetworkError m) \<Rightarrow>
          Inr \<lparr>pf_running = False, pf_state = ''error'', pf_message = m, pf_enabled = False\<rparr>
      | CmdError e \<Rightarrow> Inl e)"

section \<open>Reload\<close>

record reload_result =
  rl_ok :: bool
  rl_message :: string
  rl_conf :: string

definition kill_states :: "pf_db \<Rightarrow> bool" where
  "kill_states db =
     (case adv_row db of
        None \<Rightarrow> False
      | Some d \<Rightarrow> (case map_of d ''kill_states_on_reload'' of None \<Rightarrow> False | Some v \<Rightarrow> py_bool_of v))"

text \<open>Step 4 and after: load, enable, and roll back on a \<open>FreeBSDNetworkError\<close>.\<close>

definition load_outcome :: "pf_os \<Rightarrow> string \<Rightarrow> pf_host \<Rightarrow> pf_host \<times> pyexn option" where
  "load_outcome os text h =
     (case load_rules os text h of
        (h1, CmdError e) \<Rightarrow> (h1, Some e)
      | (h1, Ran rc out err) \<Rightarrow>
          (if rc \<noteq> 0 then (h1, Some (FreeBSDNetworkError (cmd_message out err ''pf.reload failed'')))
           else case dry_answer os [''/sbin/pfctl'', ''-e''] (os_enable os) of
             CmdError e \<Rightarrow> (h1, Some e)
           | Ran _ _ _ \<Rightarrow> (run_others os [[''pf.enable'']] h1, None)))"

definition finish_reload :: "pf_os \<Rightarrow> pf_db \<Rightarrow> string \<Rightarrow> pf_host \<Rightarrow> pf_host \<times> reload_result res" where
  "finish_reload os db text h =
     (case load_outcome os text h of
        (h1, Some (FreeBSDNetworkError m)) \<Rightarrow>
          (case rollback_pf os h1 of
             (h2, Inl e) \<Rightarrow> (h2, Inl e)
           | (h2, Inr rb) \<Rightarrow>
               (h2, Inr \<lparr>rl_ok = False,
                 rl_message = ''pfctl reload failed ('' @ m @ ''). '' @ op_message rb, rl_conf = text\<rparr>))
      | (h1, Some e) \<Rightarrow> (h1, Inl e)
      | (h1, None) \<Rightarrow>
          ((if kill_states db then run_others os [[''pfctl'', ''-k'', ''0.0.0.0/0'']] h1 else h1),
           Inr \<lparr>rl_ok = True, rl_message = ''PF rules reloaded successfully.'', rl_conf = text\<rparr>))"

text \<open>Steps 2 and 3: the backup, the atomic write, the dummynet pipes.\<close>

definition install_conf :: "pf_os \<Rightarrow> pf_db \<Rightarrow> string \<Rightarrow> pf_host \<Rightarrow> pf_host \<times> reload_result res" where
  "install_conf os db text h =
     (case save_known_good os h of
        (h1, Inl e) \<Rightarrow> (h1, Inl e)
      | (h1, Inr _) \<Rightarrow>
          (case atomic_write (os_write os) pf_conf_path text 420 (ho_files h1) of
             (fs, Inl e) \<Rightarrow>
               (h1\<lparr>ho_files := fs\<rparr>,
                if is_oserror e
                then Inr \<lparr>rl_ok = False,
                  rl_message = ''Failed to write '' @ pf_conf_path @ '': '' @ exn_str e, rl_conf = text\<rparr>
                else Inl e)
           | (fs, Inr _) \<Rightarrow>
               finish_reload os db text (run_others os (dnctl_commands True db) (h1\<lparr>ho_files := fs\<rparr>))))"

definition reload_pf_rules :: "pf_os \<Rightarrow> pf_env \<Rightarrow> pf_db \<Rightarrow> pf_host \<Rightarrow> pf_host \<times> reload_result res" where
  "reload_pf_rules os env db h =
     (let (macros_ok, macros_err) = (if os_freebsd os then validate_pf_macros db else (True, [])) in
      if \<not> macros_ok then (h, Inr \<lparr>rl_ok = False, rl_message = macros_err, rl_conf = []\<rparr>)
      else case generate_pf_conf env db of
        Inl e \<Rightarrow> (h, Inl e)
      | Inr text \<Rightarrow>
          (case validate_section_order text of
             Inl (PfRuleOrderError m) \<Rightarrow>
               (h, Inr \<lparr>rl_ok = False, rl_message = ''PF rule-order error: '' @ m, rl_conf = text\<rparr>)
           | Inl e \<Rightarrow> (h, Inl e)
           | Inr _ \<Rightarrow>
               (if \<not> os_freebsd os
                then (h, Inr \<lparr>rl_ok = True,
                  rl_message = ''Non-FreeBSD host '' @ em_dash @ '' rules generated but not applied.'',
                  rl_conf = text\<rparr>)
                else case validate_pf_conf os text of
                  Inl e \<Rightarrow> (h, Inl e)
                | Inr (ok, err) \<Rightarrow>
                    (if \<not> ok
                     then (h, Inr \<lparr>rl_ok = False, rl_message = ''pfctl syntax error: '' @ err, rl_conf = text\<rparr>)
                     else install_conf os db text h))))"

section \<open>What a reload does to the host\<close>

lemma replace_at: "io_tmp io \<noteq> path \<Longrightarrow> replace (io_tmp io) path fs path = fs (io_tmp io)"
  by (simp add: replace_def)

text \<open>A successful atomic write puts the content in place.\<close>

lemma atomic_write_Inr:
  assumes "atomic_write io path content mode fs = (fs', Inr ())" "io_tmp io \<noteq> path"
  shows "fs' path = Some \<lparr>f_content = content, f_mode = mode\<rparr>"
    and "p \<noteq> path \<Longrightarrow> p \<noteq> io_tmp io \<Longrightarrow> fs' p = fs p"
  using assms
  by (auto simp: atomic_write_def stage_def replace_def split: option.splits prod.splits)

lemma run_others_keeps [simp]:
  "ho_files (run_others os cmds h) = ho_files h" "ho_rules (run_others os cmds h) = ho_rules h"
  by (simp_all add: run_others_def)

lemma load_rules_files [simp]: "ho_files (fst (load_rules os text h)) = ho_files h"
  by (simp add: load_rules_def Let_def split: cmd_result.split)

lemma load_outcome_files: "ho_files (fst (load_outcome os text h)) = ho_files h"
  by (auto simp: load_outcome_def load_rules_def Let_def split: cmd_result.split)

text \<open>What the kernel holds after a load that was accepted.\<close>

definition held_after :: "pf_os \<Rightarrow> string \<Rightarrow> pf_host \<Rightarrow> string option" where
  "held_after os text h = (if os_dry os then ho_rules h else Some text)"

lemma load_outcome_None:
  "snd (load_outcome os text h) = None \<Longrightarrow> ho_rules (fst (load_outcome os text h)) = held_after os text h"
  by (auto simp: load_outcome_def load_rules_def held_after_def Let_def split: cmd_result.splits if_splits)

text \<open>Until the configuration is installed the host is not touched.\<close>

lemma reload_untouched:
  assumes "\<And>text m. generate_pf_conf env db = Inr text \<Longrightarrow> validate_section_order text = Inr ()
     \<Longrightarrow> os_freebsd os \<Longrightarrow> validate_pf_conf os text \<noteq> Inr (True, m)"
  shows "fst (reload_pf_rules os env db h) = h"
  using assms
  by (auto simp: reload_pf_rules_def Let_def split: prod.split sum.split pyexn.split)

lemma reload_installs:
  assumes "reload_pf_rules os env db h = (h', Inr r)" "rl_ok r" "os_freebsd os"
  obtains t where "generate_pf_conf env db = Inr t" "validate_section_order t = Inr ()"
    "install_conf os db t h = (h', Inr r)"
  using assms
  by (auto simp: reload_pf_rules_def Let_def split: prod.splits sum.splits pyexn.splits if_splits)

lemma finish_reload_ok:
  assumes "finish_reload os db text h = (h', Inr r)" "rl_ok r"
  shows "ho_files h' = ho_files h" "ho_rules h' = held_after os text h" "rl_conf r = text"
proof -
  obtain h1 where o: "load_outcome os text h = (h1, None)"
    using assms by (auto simp: finish_reload_def split: prod.splits option.splits pyexn.splits sum.splits)
  then have "ho_files h1 = ho_files h" "ho_rules h1 = held_after os text h"
    using load_outcome_files[of os "text" h] load_outcome_None[of os "text" h] by auto
  then show "ho_files h' = ho_files h" "ho_rules h' = held_after os text h" "rl_conf r = text"
    using assms o by (auto simp: finish_reload_def)
qed

lemma install_conf_ok:
  assumes "install_conf os db text h = (h', Inr r)" "rl_ok r" "io_tmp (os_write os) \<noteq> pf_conf_path"
  shows "ho_rules h' = held_after os text h" "rl_conf r = text"
    "ho_files h' pf_conf_path = Some \<lparr>f_content = text, f_mode = 420\<rparr>"
proof -
  obtain h1 fs where w: "atomic_write (os_write os) pf_conf_path text 420 (ho_files h1) = (fs, Inr ())"
    and f: "finish_reload os db text (run_others os (dnctl_commands True db) (h1\<lparr>ho_files := fs\<rparr>)) = (h', Inr r)"
    and k: "fst (save_known_good os h) = h1"
    using assms(1,2) by (auto simp: install_conf_def split: prod.splits sum.splits if_splits)
  have "ho_rules h1 = ho_rules h"
    by (auto simp: k[symmetric] save_known_good_def split: prod.split option.split)
  then show "ho_rules h' = held_after os text h" "rl_conf r = text"
    using finish_reload_ok[OF f assms(2)] by (simp_all add: held_after_def)
  show "ho_files h' pf_conf_path = Some \<lparr>f_content = text, f_mode = 420\<rparr>"
    using finish_reload_ok(1)[OF f assms(2)] atomic_write_Inr(1)[OF w assms(3)] by simp
qed

text \<open>The files after the backup and the write of a fault-free host.\<close>

definition reload_quiet :: "pf_os \<Rightarrow> bool" where
  "reload_quiet os \<longleftrightarrow> os_freebsd os \<and> \<not> os_dry os \<and> io_mkstemp (os_write os) = None \<and> io_write (os_write os) = None
     \<and> io_replace (os_write os) = None \<and> os_save os = None \<and> os_back os = None
     \<and> io_tmp (os_write os) \<noteq> pf_conf_path \<and> io_tmp (os_write os) \<noteq> pf_known_good"

definition loads_text :: "pf_os \<Rightarrow> string \<Rightarrow> bool" where
  "loads_text os text \<longleftrightarrow> (case os_load os text of Ran rc out err \<Rightarrow> rc = 0 | CmdError e \<Rightarrow> False)"

definition refuses_text :: "pf_os \<Rightarrow> string \<Rightarrow> bool" where
  "refuses_text os text \<longleftrightarrow>
     (case os_load os text of Ran rc out err \<Rightarrow> rc \<noteq> 0
      | CmdError e \<Rightarrow> (case e of FreeBSDNetworkError m \<Rightarrow> True | _ \<Rightarrow> False))"

lemma pf_paths [simp]: "pf_known_good \<noteq> pf_conf_path" "pf_conf_path \<noteq> pf_known_good"
  by (simp_all add: pf_known_good_def pf_conf_path_def)

lemma rollback_pf_good:
  assumes "os_freebsd os" "\<not> os_dry os" "os_back os = None" "ho_files h pf_known_good = Some old"
    and "loads_text os (f_content old)"
  shows "\<exists>h2 rb. rollback_pf os h = (h2, Inr rb) \<and> op_ok rb
     \<and> map_option f_content (ho_files h2 pf_conf_path) = Some (f_content old)
     \<and> ho_rules h2 = Some (f_content old)"
  using assms
  by (cases "os_load os (f_content old)")
    (auto simp: rollback_pf_def copy_text_def write_text_def load_rules_def dry_answer_def loads_text_def)

lemma load_outcome_refused:
  assumes "refuses_text os text" "\<not> os_dry os"
  shows "\<exists>m. load_outcome os text h = (h, Some (FreeBSDNetworkError m))"
  using assms
  by (auto simp: load_outcome_def load_rules_def dry_answer_def refuses_text_def split: cmd_result.splits pyexn.splits)

lemma install_refused:
  assumes "reload_quiet os" "ho_files h pf_conf_path = Some old" "refuses_text os text"
    and "loads_text os (f_content old)"
  shows "\<exists>h' r. install_conf os db text h = (h', Inr r) \<and> \<not> rl_ok r \<and> rl_conf r = text
     \<and> map_option f_content (ho_files h' pf_conf_path) = Some (f_content old)
     \<and> ho_rules h' = Some (f_content old)"
proof -
  note q = assms(1)[unfolded reload_quiet_def]
  let ?fs1 = "write_text pf_known_good (f_content old) (ho_files h)"
  have s: "save_known_good os h = (h\<lparr>ho_files := ?fs1\<rparr>, Inr True)"
    using q assms(2) by (simp add: save_known_good_def copy_text_def)
  obtain fs2 where w: "atomic_write (os_write os) pf_conf_path text 420 ?fs1 = (fs2, Inr ())"
    using q by (auto simp: atomic_write_def stage_def)
  let ?h2 = "run_others os (dnctl_commands True db) (h\<lparr>ho_files := fs2\<rparr>)"
  have "fs2 pf_known_good = ?fs1 pf_known_good"
    using atomic_write_Inr(2)[OF w] q by auto
  then have kg: "map_option f_content (ho_files ?h2 pf_known_good) = Some (f_content old)"
    by (simp add: write_text_def)
  then obtain k where k: "ho_files ?h2 pf_known_good = Some k" "f_content k = f_content old" by auto
  obtain m where o: "load_outcome os text ?h2 = (?h2, Some (FreeBSDNetworkError m))"
    using load_outcome_refused[OF assms(3)] q by blast
  have "loads_text os (f_content k)" using assms(4) k(2) by simp
  then obtain h3 rb where "rollback_pf os ?h2 = (h3, Inr rb)"
    "map_option f_content (ho_files h3 pf_conf_path) = Some (f_content old)"
    "ho_rules h3 = Some (f_content old)"
    using rollback_pf_good[of os ?h2 k] q k by auto
  with s w o show ?thesis
    by (simp add: install_conf_def finish_reload_def)
qed

lemma reload_reaches_install:
  assumes "os_freebsd os" "validate_pf_macros db = (True, [])" "generate_pf_conf env db = Inr t"
    and "validate_section_order t = Inr ()" "validate_pf_conf os t = Inr (True, m)"
  shows "reload_pf_rules os env db h = install_conf os db t h"
  using assms by (simp add: reload_pf_rules_def)

section \<open>A small host\<close>

text \<open>A host whose pfctl accepts what \<open>ok\<close> accepts.\<close>

definition plain_os :: "(string \<Rightarrow> bool) \<Rightarrow> pf_os" where
  "plain_os ok =
     \<lparr>os_freebsd = True, os_dry = False, os_check_tmp = Inr ''/tmp/ss_pf_1.conf'', os_check = (\<lambda>_. Ran 0 [] []),
      os_load = (\<lambda>t. if ok t then Ran 0 [] [] else Ran 1 [] ''syntax error''),
      os_enable = Ran 0 [] [], os_info = Ran 0 ''Status: Enabled'' [],
      os_write = \<lparr>io_tmp = ''/etc/.ss_tmp_1'', io_mkstemp = None, io_write = None, io_replace = None,
        io_backup = None, io_restore = None\<rparr>,
      os_save = None, os_back = None\<rparr>"

definition plain_host :: pf_host where
  "plain_host =
     \<lparr>ho_files = [pf_conf_path \<mapsto> \<lparr>f_content = ''pass all'', f_mode = 420\<rparr>],
      ho_rules = Some ''pass all'', ho_commands = []\<rparr>"

lemma plain_os_quiet: "reload_quiet (plain_os ok)"
  by (simp add: reload_quiet_def plain_os_def pf_conf_path_def pf_known_good_def)

lemma plain_installs:
  "\<exists>h' r. install_conf (plain_os (\<lambda>_. True)) db t (plain_host\<lparr>ho_rules := rs\<rparr>) = (h', Inr r) \<and> rl_ok r"
  by (simp add: install_conf_def save_known_good_def plain_os_def plain_host_def copy_text_def
      atomic_write_def stage_def finish_reload_def load_outcome_def load_rules_def dry_answer_def Let_def)

lemma plain_macros: "validate_pf_macros plain_db = (True, [])"
proof -
  have "ip_interface ''192.168.1.1/24'' \<noteq> None"
    by (simp add: ip_interface_def parse_iface_def parse_ipv4_def parse_v4_num_def parse_octet_def
        netmask_v4_def prefix_of_string_def all_digits_def nat_of_digits_def is_digit_def
        digit_val_def code_def)
  moreover have "strip ''192.168.1.1/24'' = ''192.168.1.1/24''" "strip ''em1'' = ''em1''" "strip ''em0'' = ''em0''"
    by (auto intro!: strip_id stripped_no_space simp: is_space_def code_def)
  ultimately show ?thesis
    by (auto simp: validate_pf_macros_def first_field_def plain_db_def Let_def split: option.split)
qed

lemma plain_reload:
  obtains t where "generate_pf_conf plain_env plain_db = Inr t" "validate_section_order t = Inr ()"
    "\<And>ok. validate_pf_conf (plain_os ok) t = Inr (True, [])"
    "\<And>ok. reload_pf_rules (plain_os ok) plain_env plain_db plain_host
       = install_conf (plain_os ok) plain_db t plain_host"
proof -
  obtain t where t: "generate_pf_conf plain_env plain_db = Inr t" using plain_generates by blast
  have "unassigned plain_db" by (simp add: unassigned_def plain_db_def rows_of_def)
  then have o: "validate_section_order t = Inr ()"
    using section_order_unassigned[OF plain_clean(1) t] by blast
  have c: "validate_pf_conf (plain_os ok) t = Inr (True, [])" for ok
    by (simp add: validate_pf_conf_def dry_answer_def plain_os_def cmd_message_def)
  have "reload_pf_rules (plain_os ok) plain_env plain_db plain_host
      = install_conf (plain_os ok) plain_db t plain_host" for ok
    using t o c plain_macros by (intro reload_reaches_install) (auto simp: plain_os_def)
  with t o c show ?thesis by (rule that)
qed

section \<open>Properties\<close>

text \<open>
  C2: on FreeBSD a reload that reports success has generated a configuration that passes the
  order check, and pf.conf holds exactly that text, with mode 0644. The kernel holds it too, except under the
  network dry run, where a success is reported with the rules of the kernel as they were.
\<close>

theorem reload_success:
  assumes "reload_pf_rules os env db h = (h', Inr r)" "rl_ok r" "os_freebsd os"
    and "io_tmp (os_write os) \<noteq> pf_conf_path"
  shows "generate_pf_conf env db = Inr (rl_conf r) \<and> validate_section_order (rl_conf r) = Inr ()
     \<and> ho_rules h' = (if os_dry os then ho_rules h else Some (rl_conf r))
     \<and> ho_files h' pf_conf_path = Some \<lparr>f_content = rl_conf r, f_mode = 420\<rparr>"
proof -
  obtain t where t: "generate_pf_conf env db = Inr t" "validate_section_order t = Inr ()"
    "install_conf os db t h = (h', Inr r)"
    using reload_installs[OF assms(1-3)] by blast
  with install_conf_ok[OF t(3) assms(2,4)] show ?thesis by (simp add: held_after_def)
qed

lemma reload_success_witness:
  "\<exists>h' r. reload_pf_rules (plain_os (\<lambda>_. True)) plain_env plain_db plain_host = (h', Inr r)
     \<and> rl_ok r \<and> ho_rules h' = Some (rl_conf r)"
proof -
  obtain t where "reload_pf_rules (plain_os (\<lambda>_. True)) plain_env plain_db plain_host
      = install_conf (plain_os (\<lambda>_. True)) plain_db t plain_host"
    by (rule plain_reload) blast
  moreover have "\<exists>h' r. install_conf (plain_os (\<lambda>_. True)) plain_db t plain_host = (h', Inr r) \<and> rl_ok r"
    using plain_installs[of plain_db t "ho_rules plain_host"] by simp
  ultimately obtain h' r where r: "reload_pf_rules (plain_os (\<lambda>_. True)) plain_env plain_db plain_host = (h', Inr r)"
    "rl_ok r" by auto
  have "os_freebsd (plain_os (\<lambda>_. True))" "io_tmp (os_write (plain_os (\<lambda>_. True))) \<noteq> pf_conf_path"
    by (simp_all add: plain_os_def pf_conf_path_def)
  from reload_success[OF r this] r show ?thesis by (auto simp: plain_os_def)
qed

text \<open>
  C3: when pfctl refuses to load a configuration that passed both checks, a fault-free host
  ends with the previous pf.conf and the previous rules, and the caller is told of the failure.
\<close>

theorem reload_rolls_back:
  assumes "reload_quiet os" "ho_files h pf_conf_path = Some old" "validate_pf_macros db = (True, [])"
    and "generate_pf_conf env db = Inr t" "validate_section_order t = Inr ()"
    and "validate_pf_conf os t = Inr (True, m)" "refuses_text os t" "loads_text os (f_content old)"
  shows "\<exists>h' r. reload_pf_rules os env db h = (h', Inr r) \<and> \<not> rl_ok r
     \<and> map_option f_content (ho_files h' pf_conf_path) = Some (f_content old)
     \<and> ho_rules h' = Some (f_content old)"
proof -
  have "os_freebsd os" using assms(1) by (simp add: reload_quiet_def)
  from reload_reaches_install[OF this assms(3-6)] install_refused[OF assms(1,2,7,8)] show ?thesis
    by metis
qed

lemma reload_rolls_back_witness:
  "\<exists>h' r. reload_pf_rules (plain_os (\<lambda>t. t = ''pass all'')) plain_env plain_db plain_host = (h', Inr r)
     \<and> \<not> rl_ok r \<and> ho_rules h' = Some ''pass all''"
proof -
  let ?os = "plain_os (\<lambda>t. t = ''pass all'')"
  obtain t where t: "generate_pf_conf plain_env plain_db = Inr t" "validate_section_order t = Inr ()"
    "\<And>ok. validate_pf_conf (plain_os ok) t = Inr (True, [])"
    by (rule plain_reload) blast
  have "\<not> disabled plain_db" by (simp add: disabled_def plain_db_def adv_row_def adv_get_def)
  then have "t \<noteq> ''pass all''"
    using generate_Inr[OF t(1)] by (auto simp: macros_def)
  then have "refuses_text ?os t" by (simp add: refuses_text_def plain_os_def)
  moreover have "ho_files plain_host pf_conf_path = Some \<lparr>f_content = ''pass all'', f_mode = 420\<rparr>"
    by (simp add: plain_host_def)
  moreover have "loads_text ?os ''pass all''" by (simp add: loads_text_def plain_os_def)
  ultimately show ?thesis
    using reload_rolls_back[OF plain_os_quiet[of "\<lambda>t. t = ''pass all''"], of plain_host "\<lparr>f_content = ''pass all'', f_mode = 420\<rparr>",
        OF _ plain_macros t(1,2) t(3)] by auto
qed

text \<open>
  With an enabled shaper and an enabled queue assignment that names its queue, no reload
  ever applies: the generator puts the assignment's \<open>match\<close> rule before the NAT rules, the
  order check refuses the file, and host and rules stay as they were.
\<close>

theorem shaper_assignment_blocks_reload:
  assumes "clean_db env db" "\<not> disabled db" "\<not> unassigned db"
  shows "fst (reload_pf_rules os env db h) = h
     \<and> (\<forall>r. snd (reload_pf_rules os env db h) = Inr r \<longrightarrow> \<not> rl_ok r)"
proof -
  have no: "validate_section_order t \<noteq> Inr ()" if "generate_pf_conf env db = Inr t" for t
    using section_order_assigned[OF assms(1) that assms(2,3)] .
  then show ?thesis
    by (auto simp: reload_pf_rules_def Let_def split: prod.split sum.splits pyexn.splits)
qed

lemma shaper_assignment_blocks_reload_witness:
  "fst (reload_pf_rules (plain_os (\<lambda>_. True)) plain_env shaped_db plain_host) = plain_host"
proof -
  have "\<not> disabled shaped_db"
    by (simp add: disabled_def shaped_db_def plain_db_def adv_row_def adv_get_def)
  moreover have "\<not> unassigned shaped_db"
    by (simp add: unassigned_def shaped_db_def plain_db_def rows_of_def strip_all_space is_space_def code_def)
  ultimately show ?thesis
    using shaper_assignment_blocks_reload[OF plain_clean(2)] by blast
qed

text \<open>
  A configuration that the order check or pfctl's syntax check does not accept never
  reaches the host: files, kernel rules and commands run stay as they were.
\<close>

theorem rejected_reload_untouched:
  assumes "generate_pf_conf env db = Inr t"
    and "validate_section_order t \<noteq> Inr () \<or> (\<forall>m. validate_pf_conf os t \<noteq> Inr (True, m))"
  shows "fst (reload_pf_rules os env db h) = h"
  by (rule reload_untouched) (use assms in auto)

lemma rejected_reload_untouched_witness:
  "fst (reload_pf_rules (plain_os (\<lambda>_. True)\<lparr>os_check := (\<lambda>_. Ran 1 [] ''bad'')\<rparr>) plain_env plain_db plain_host)
     = plain_host"
proof -
  obtain t where t: "generate_pf_conf plain_env plain_db = Inr t" using plain_generates by blast
  have "\<forall>m. validate_pf_conf (plain_os (\<lambda>_. True)\<lparr>os_check := (\<lambda>_. Ran 1 [] ''bad'')\<rparr>) t \<noteq> Inr (True, m)"
    by (simp add: validate_pf_conf_def dry_answer_def plain_os_def)
  with rejected_reload_untouched[OF t] show ?thesis by blast
qed

end
