(* ===== verification/ConfigHistory.thy ===== *)
theory ConfigHistory
  imports PfReload
begin

text \<open>
  \<^verbatim>\<open>app/services/config_history.py\<close>: saved versions of generated configurations, their
  listing and pruning, and the rollback that writes a version back and reloads its service.

  The table \<open>config_versions\<close> is a list of rows with a sequence; the host is the one of
  \<^verbatim>\<open>PfReload\<close>.  Arguments stand for the hash (\<open>sha\<close>), the clock (\<open>now\<close>), the fault of
  writing the file, and \<open>service_manager.service_action\<close>, which is not modelled.
\<close>

section \<open>Tables\<close>

record version =
  ve_id :: nat
  ve_service :: string
  ve_num :: nat
  ve_content :: string
  ve_hash :: string
  ve_applied_by :: string
  ve_applied_at :: string
  ve_validation_ok :: bool
  ve_apply_ok :: bool
  ve_notes :: string
  ve_path :: string

text \<open>The audit event of a rollback.\<close>

record rollback_event =
  re_username :: string
  re_service :: string
  re_num :: nat
  re_version :: nat
  re_reload_ok :: bool

record history_db =
  versions :: "version table"
  events :: "rollback_event list"

definition empty_history :: history_db where
  "empty_history = \<lparr>versions = empty_table, events = []\<rparr>"

text \<open>The keyword arguments of \<open>save_config_version\<close>.\<close>

record save_args =
  sa_applied_by :: string
  sa_path :: string
  sa_validation_ok :: bool
  sa_apply_ok :: bool
  sa_notes :: string

definition default_args :: save_args where
  "default_args =
     \<lparr>sa_applied_by = ''system'', sa_path = [], sa_validation_ok = True, sa_apply_ok = True, sa_notes = []\<rparr>"

section \<open>Writing\<close>

definition service_name :: "string option \<Rightarrow> string" where
  "service_name service = take 64 (strip (or_str service ''unknown''))"

text \<open>\<open>COALESCE(MAX(version_num), 0)\<close> of a service.\<close>

definition last_num :: "string \<Rightarrow> version list \<Rightarrow> nat" where
  "last_num service vs = foldr max (map ve_num (filter (\<lambda>v. ve_service v = service) vs)) 0"

type_synonym version_draft = "string \<times> nat \<times> string \<times> string \<times> string \<times> save_args"

definition mk_version :: "version_draft \<Rightarrow> nat \<Rightarrow> version" where
  "mk_version d i =
     (case d of (service, num, content, hash, now, a) \<Rightarrow>
       \<lparr>ve_id = i, ve_service = service, ve_num = num, ve_content = content, ve_hash = hash,
        ve_applied_by = sa_applied_by a, ve_applied_at = now, ve_validation_ok = sa_validation_ok a,
        ve_apply_ok = sa_apply_ok a, ve_notes = take 1024 (sa_notes a), ve_path = sa_path a\<rparr>)"

definition save_config_version ::
  "(string \<Rightarrow> string) \<Rightarrow> string \<Rightarrow> string option \<Rightarrow> string \<Rightarrow> save_args \<Rightarrow> history_db \<Rightarrow> history_db \<times> nat" where
  "save_config_version sha now service content a db =
     (let s = service_name service;
          n = last_num s (rows (versions db)) + 1
      in case insert_row (mk_version (s, n, content, sha content, now, a)) (versions db) of
           (t, i) \<Rightarrow> (db\<lparr>versions := t\<rparr>, i))"

section \<open>Reading\<close>

text \<open>\<open>max(lo, min(n, hi))\<close>.\<close>

definition clamp :: "int \<Rightarrow> int \<Rightarrow> int \<Rightarrow> int" where
  "clamp lo hi n = max lo (min n hi)"

text \<open>\<open>ORDER BY version_num DESC\<close>, on rows of one service.\<close>

definition newest_first :: "string \<Rightarrow> version list \<Rightarrow> version list" where
  "newest_first service vs = rev (sort_key ve_num (filter (\<lambda>v. ve_service v = service) vs))"

text \<open>The listing selects every column but the content.\<close>

definition list_config_versions :: "history_db \<Rightarrow> string option \<Rightarrow> int \<Rightarrow> version list" where
  "list_config_versions db service limit =
     map (\<lambda>v. v\<lparr>ve_content := []\<rparr>)
       (sql_limit (clamp 1 200 limit) (newest_first (strip (or_str service [])) (rows (versions db))))"

record service_summary =
  sv_service :: string
  sv_count :: nat
  sv_last_applied :: string
  sv_latest :: nat

definition summarize :: "version list \<Rightarrow> string \<Rightarrow> service_summary" where
  "summarize vs s =
     \<lparr>sv_service = s, sv_count = length (filter (\<lambda>v. ve_service v = s) vs),
      sv_last_applied = foldr max (map ve_applied_at (filter (\<lambda>v. ve_service v = s) vs)) [],
      sv_latest = last_num s vs\<rparr>"

text \<open>Services of the same time come in the order of their group.\<close>

definition list_all_services_with_history :: "history_db \<Rightarrow> service_summary list" where
  "list_all_services_with_history db =
     (let vs = rows (versions db) in
      rev (sort_key sv_last_applied (map (summarize vs) (rev (sort (remdups (map ve_service vs)))))))"

definition get_config_version :: "history_db \<Rightarrow> nat \<Rightarrow> version option" where
  "get_config_version db i = find_by ve_id i (rows (versions db))"

section \<open>Pruning\<close>

definition prune_config_versions :: "string option \<Rightarrow> int \<Rightarrow> history_db \<Rightarrow> history_db \<times> nat" where
  "prune_config_versions service keep db =
     (let s = strip (or_str service []);
          vs = rows (versions db);
          ids = map ve_id (sql_limit (max 1 keep) (newest_first s vs));
          gone = (\<lambda>v. ve_service v = s \<and> ve_id v \<notin> set ids)
      in if ids = [] then (db, 0)
         else (db\<lparr>versions := delete_rows gone (versions db)\<rparr>, length (filter gone vs)))"

section \<open>Rollback\<close>

text \<open>
  What happens around a rollback: pf's environment, the fault of writing the file (with what it
  leaves of it), and the service manager (its dict, or the exception caught by the caller).
\<close>

type_synonym service_action = "string \<Rightarrow> string \<Rightarrow> pf_host \<Rightarrow> pf_host \<times> (bool \<times> string option) res"

record rollback_env =
  rv_os :: pf_os
  rv_pf :: pf_env
  rv_db :: pf_db
  rv_write :: "copy_fault option"
  rv_action :: service_action

definition managed_services :: "(string \<times> string \<times> string) list" where
  "managed_services =
     [(''dhcpd'', ''isc-dhcpd'', ''restart''), (''unbound'', ''unbound'', ''reload''),
      (''openvpn'', ''openvpn'', ''restart''), (''strongswan'', ''strongswan'', ''restart''),
      (''suricata'', ''suricata'', ''restart'')]"

definition reload_failed :: "pyexn \<Rightarrow> bool \<times> string" where
  "reload_failed e = (False, ''Reload failed: '' @ exn_str e)"

definition reload_service_for :: "rollback_env \<Rightarrow> string \<Rightarrow> pf_host \<Rightarrow> pf_host \<times> bool \<times> string" where
  "reload_service_for env service h =
     (if service = ''pf''
      then (case reload_pf_rules (rv_os env) (rv_pf env) (rv_db env) h of
              (h', Inl e) \<Rightarrow> (h', reload_failed e)
            | (h', Inr r) \<Rightarrow> (h', rl_ok r, rl_message r))
      else case map_of managed_services service of
        Some (name, what) \<Rightarrow>
          (case rv_action env name what h of
             (h', Inl e) \<Rightarrow> (h', reload_failed e)
           | (h', Inr (ok, msg)) \<Rightarrow> (h', ok, case msg of None \<Rightarrow> [] | Some m \<Rightarrow> m))
      | None \<Rightarrow>
          (h, True, ''No reload handler for service '' @ py_repr service @ '' '' @ em_dash @
             '' file written, restart manually.''))"

record rollback_result =
  rr_ok :: bool
  rr_message :: string
  rr_version :: nat
  rr_service :: "string option"
  rr_num :: "nat option"

text \<open>The file the rollback writes, or the exception of the write.\<close>

definition write_version :: "rollback_env \<Rightarrow> version \<Rightarrow> pf_host \<Rightarrow> pf_host \<times> pyexn option" where
  "write_version env v h =
     (case rv_write env of
        None \<Rightarrow> (h\<lparr>ho_files := write_text (ve_path v) (ve_content v) (ho_files h)\<rparr>, None)
      | Some (CopyFault left e) \<Rightarrow>
          ((case left of None \<Rightarrow> h | Some f \<Rightarrow> h\<lparr>ho_files := (ho_files h)(ve_path v \<mapsto> f)\<rparr>), Some e))"

text \<open>The version recorded after the reload, and the audit event.\<close>

definition record_rollback ::
  "(string \<Rightarrow> string) \<Rightarrow> string \<Rightarrow> string \<Rightarrow> version \<Rightarrow> bool \<Rightarrow> string \<Rightarrow> history_db \<Rightarrow> history_db" where
  "record_rollback sha now by v ok msg db =
     (let db1 = fst (save_config_version sha now (Some (ve_service v)) (ve_content v)
            \<lparr>sa_applied_by = by, sa_path = ve_path v, sa_validation_ok = True, sa_apply_ok = ok,
             sa_notes = ''Rollback to version '' @ str_nat (ve_num v) @ ''. '' @ msg\<rparr> db)
      in db1\<lparr>events := events db1 @
        [\<lparr>re_username = by, re_service = ve_service v, re_num = ve_num v, re_version = ve_id v,
          re_reload_ok = ok\<rparr>]\<rparr>)"

definition rollback_to_config_version ::
  "rollback_env \<Rightarrow> (string \<Rightarrow> string) \<Rightarrow> string \<Rightarrow> nat \<Rightarrow> string \<Rightarrow> history_db \<Rightarrow> pf_host
     \<Rightarrow> history_db \<times> pf_host \<times> rollback_result res" where
  "rollback_to_config_version env sha now i by db h =
     (case get_config_version db i of
        None \<Rightarrow>
          (db, h, Inr \<lparr>rr_ok = False, rr_message = ''Version '' @ str_nat i @ '' not found.'',
             rr_version = i, rr_service = None, rr_num = None\<rparr>)
      | Some v \<Rightarrow>
          (let live = (os_freebsd (rv_os env) \<and> ve_path v \<noteq> []);
               res = (\<lambda>ok msg. \<lparr>rr_ok = ok, rr_message = msg, rr_version = i,
                        rr_service = Some (ve_service v), rr_num = Some (ve_num v)\<rparr>)
           in if \<not> live
              then (let msg = ''Service reload skipped (non-FreeBSD or no file path).'' in
                    (record_rollback sha now by v True msg db, h,
                     Inr (res True (strip (''Non-FreeBSD '' @ em_dash @ '' file not written.. '' @ msg)))))
              else case write_version env v h of
                (h1, Some e) \<Rightarrow>
                  (db, h1, if is_oserror e
                           then Inr (res False (''Failed to write '' @ ve_path v @ '': '' @ exn_str e))
                           else Inl e)
              | (h1, None) \<Rightarrow>
                  (case reload_service_for env (ve_service v) h1 of
                     (h2, ok, msg) \<Rightarrow>
                       (record_rollback sha now by v ok msg db, h2,
                        Inr (res ok (strip (''Wrote '' @ ve_path v @ ''. '' @ msg)))))))"


section \<open>The version table\<close>

interpretation version_table: pk_table ve_id mk_version
  by unfold_locales (simp add: mk_version_def split: prod.split)

lemma last_num_ge: "v \<in> set vs \<Longrightarrow> ve_service v = s \<Longrightarrow> ve_num v \<le> last_num s vs"
  by (induction vs) (auto simp: last_num_def)

lemma last_num_le: "(\<And>v. v \<in> set vs \<Longrightarrow> ve_service v = s \<Longrightarrow> ve_num v \<le> n) \<Longrightarrow> last_num s vs \<le> n"
  by (induction vs) (auto simp: last_num_def)

lemma set_newest_first [simp]: "set (newest_first s vs) = {v \<in> set vs. ve_service v = s}"
  by (auto simp: newest_first_def)

lemma newest_first_hd:
  assumes "newest_first s vs = v # rest"
  shows "ve_num v = last_num s vs"
proof (rule antisym)
  have v: "v \<in> set (newest_first s vs)" using assms by simp
  then show "ve_num v \<le> last_num s vs" by (intro last_num_ge) simp_all
  have "sorted (map ve_num (rev (v # rest)))"
    unfolding assms[symmetric] newest_first_def rev_rev_ident by simp
  then have "\<forall>w \<in> set (v # rest). ve_num w \<le> ve_num v"
    by (auto simp: sorted_append rev_map[symmetric])
  then have "\<forall>w \<in> set (newest_first s vs). ve_num w \<le> ve_num v" by (simp add: assms)
  then show "last_num s vs \<le> ve_num v" by (intro last_num_le) auto
qed

text \<open>What a save adds.\<close>

lemma save_rows:
  "rows (versions (fst (save_config_version sha now service content a db))) = rows (versions db) @
     [mk_version (service_name service, last_num (service_name service) (rows (versions db)) + 1, content,
        sha content, now, a) (Suc (seq (versions db)))]"
  "snd (save_config_version sha now service content a db) = Suc (seq (versions db))"
  by (simp_all add: save_config_version_def insert_row_def Let_def)

lemma record_rollback_save:
  "\<exists>a. versions (record_rollback sha now by v ok msg db)
     = versions (fst (save_config_version sha now (Some (ve_service v)) (ve_content v) a db))"
  by (auto simp: record_rollback_def Let_def)

text \<open>What a prune leaves.\<close>

lemma filter_ids_take:
  "distinct (map f xs) \<Longrightarrow> filter (\<lambda>x. f x \<in> set (map f (take k xs))) xs = take k xs"
proof -
  assume d: "distinct (map f xs)"
  then have "set (map f (take k xs)) \<inter> set (map f (drop k xs)) = {}"
    by (metis append_take_drop_id distinct_append map_append)
  then have "filter (\<lambda>x. f x \<in> set (map f (take k xs))) (drop k xs) = []"
    by (auto simp: filter_empty_conv)
  moreover have "filter (\<lambda>x. f x \<in> set (map f (take k xs))) (take k xs) = take k xs"
    by (simp add: filter_id_conv)
  ultimately show ?thesis by (metis append_Nil2 append_take_drop_id filter_append)
qed

lemma prune_keeps:
  assumes "version_table.pk_ok (versions db)"
  shows "newest_first (strip (or_str service [])) (rows (versions (fst (prune_config_versions service keep db))))
       = take (nat (max 1 keep)) (newest_first (strip (or_str service [])) (rows (versions db)))"
    and "filter (\<lambda>v. ve_service v \<noteq> strip (or_str service [])) (rows (versions (fst (prune_config_versions service keep db))))
       = filter (\<lambda>v. ve_service v \<noteq> strip (or_str service [])) (rows (versions db))"
proof -
  define s where "s = strip (or_str service [])"
  define k where "k = nat (max 1 keep)"
  let ?vs = "rows (versions db)"
  define ids where "ids = map ve_id (take k (newest_first s ?vs))"
  have lim: "sql_limit (max 1 keep) xs = take k xs" for xs :: "version list"
    by (simp add: sql_limit_def k_def)
  have rows: "rows (versions (fst (prune_config_versions service keep db)))
      = (if ids = [] then ?vs else filter (\<lambda>v. \<not> (ve_service v = s \<and> ve_id v \<notin> set ids)) ?vs)"
    unfolding prune_config_versions_def Let_def s_def[symmetric] lim ids_def[symmetric] by simp
  have k: "0 < k" by (simp add: k_def)
  have dist: "distinct (map ve_id (newest_first s ?vs))"
    using assms by (simp add: newest_first_def version_table.pk_ok_def distinct_map inj_on_def rev_map)
  have "newest_first s (filter (\<lambda>v. \<not> (ve_service v = s \<and> ve_id v \<notin> set ids)) ?vs)
      = filter (\<lambda>v. ve_id v \<in> set ids) (newest_first s ?vs)"
  proof -
    have "filter (\<lambda>v. ve_service v = s) (filter (\<lambda>v. \<not> (ve_service v = s \<and> ve_id v \<notin> set ids)) ?vs)
        = filter (\<lambda>v. ve_id v \<in> set ids) (filter (\<lambda>v. ve_service v = s) ?vs)"
      by (auto simp: filter_filter intro: filter_cong)
    then show ?thesis by (simp only: newest_first_def rev_filter[symmetric] filter_sort)
  qed
  also have "\<dots> = take k (newest_first s ?vs)"
    unfolding ids_def using filter_ids_take[OF dist] .
  finally have p: "newest_first s (filter (\<lambda>v. \<not> (ve_service v = s \<and> ve_id v \<notin> set ids)) ?vs)
      = take k (newest_first s ?vs)" .
  have "ids = [] \<Longrightarrow> newest_first s ?vs = []" using k by (simp add: ids_def)
  then show "newest_first (strip (or_str service [])) (rows (versions (fst (prune_config_versions service keep db))))
       = take (nat (max 1 keep)) (newest_first (strip (or_str service [])) ?vs)"
    unfolding s_def[symmetric] k_def[symmetric] rows using p by simp
  show "filter (\<lambda>v. ve_service v \<noteq> strip (or_str service [])) (rows (versions (fst (prune_config_versions service keep db))))
       = filter (\<lambda>v. ve_service v \<noteq> strip (or_str service [])) ?vs"
    unfolding s_def[symmetric] rows by (auto simp: filter_filter intro: filter_cong)
qed


section \<open>Histories\<close>

inductive history_step :: "history_db \<Rightarrow> history_db \<Rightarrow> bool" where
  hstep_save: "history_step db (fst (save_config_version sha now service content a db))"
| hstep_prune: "history_step db (fst (prune_config_versions service keep db))"
| hstep_rollback: "history_step db (fst (rollback_to_config_version env sha now i by db h))"

inductive_cases history_stepE: "history_step db db'"

text \<open>Unique ids, and unique numbers within a service.\<close>

definition history_ok :: "history_db \<Rightarrow> bool" where
  "history_ok db \<longleftrightarrow> version_table.pk_ok (versions db)
     \<and> distinct (map (\<lambda>v. (ve_service v, ve_num v)) (rows (versions db)))"

lemma history_ok_empty: "history_ok empty_history"
  by (simp add: history_ok_def empty_history_def version_table.pk_ok_empty)

lemma history_ok_versions: "versions db = versions db' \<Longrightarrow> history_ok db = history_ok db'"
  by (simp add: history_ok_def)

lemma history_ok_save [inv_intros]:
  assumes "history_ok db"
  shows "history_ok (fst (save_config_version sha now service content a db))"
proof -
  define s where "s = service_name service"
  define n where "n = last_num s (rows (versions db)) + 1"
  have "(s, n) \<notin> (\<lambda>v. (ve_service v, ve_num v)) ` set (rows (versions db))"
    using last_num_ge[of _ "rows (versions db)" s] by (fastforce simp: n_def)
  moreover have "version_table.pk_ok (versions (fst (save_config_version sha now service content a db)))"
    using assms version_table.pk_ok_insert[of "versions db" "(s, n, content, sha content, now, a)"]
    by (simp add: history_ok_def save_config_version_def insert_row_def Let_def s_def n_def)
  ultimately show ?thesis
    using assms by (simp add: history_ok_def save_rows(1) mk_version_def s_def n_def)
qed

lemma history_ok_prune [inv_intros]:
  assumes "history_ok db"
  shows "history_ok (fst (prune_config_versions service keep db))"
  using assms
  by (auto simp: history_ok_def prune_config_versions_def Let_def version_table.pk_ok_delete distinct_map
      inj_on_def)

text \<open>A rollback leaves the table or saves into it.\<close>

lemma rollback_db:
  "fst (rollback_to_config_version env sha now i by db h) = db
     \<or> (\<exists>v ok msg. fst (rollback_to_config_version env sha now i by db h) = record_rollback sha now by v ok msg db)"
  by (auto simp: rollback_to_config_version_def Let_def split: option.split prod.split)

lemma rollback_versions:
  "versions (fst (rollback_to_config_version env sha now i by db h)) = versions db
     \<or> (\<exists>service content a. versions (fst (rollback_to_config_version env sha now i by db h))
         = versions (fst (save_config_version sha now service content a db)))"
  using rollback_db[of env sha now i "by" db h] record_rollback_save[of sha now "by" _ _ _ db] by metis

lemma history_ok_rollback [inv_intros]:
  assumes "history_ok db"
  shows "history_ok (fst (rollback_to_config_version env sha now i by db h))"
  using rollback_versions[of env sha now i "by" db h] history_ok_save[OF assms] assms
  by (metis history_ok_versions)

lemma history_ok_step: "history_step db db' \<Longrightarrow> history_ok db \<Longrightarrow> history_ok db'"
  by (elim history_stepE) (auto intro: inv_intros)

lemma history_ok_steps: "history_step\<^sup>*\<^sup>* db db' \<Longrightarrow> history_ok db \<Longrightarrow> history_ok db'"
  by (induction rule: rtranclp_induct) (auto intro: history_ok_step)

text \<open>The highest number of a service never falls.\<close>

lemma last_num_save:
  "last_num s (rows (versions db)) \<le> last_num s (rows (versions (fst (save_config_version sha now service content a db))))"
  by (rule last_num_le) (auto simp: save_rows(1) intro: last_num_ge)

lemma last_num_prune:
  assumes "history_ok db"
  shows "last_num s (rows (versions (fst (prune_config_versions service keep db)))) = last_num s (rows (versions db))"
proof -
  have pk: "version_table.pk_ok (versions db)" using assms by (simp add: history_ok_def)
  let ?s = "strip (or_str service [])" and ?vs = "rows (versions db)"
  let ?vs' = "rows (versions (fst (prune_config_versions service keep db)))"
  show ?thesis
  proof (cases "s = ?s")
    case True
    show ?thesis
    proof (cases "newest_first s ?vs")
      case Nil
      then have "newest_first s ?vs' = []" using prune_keeps(1)[OF pk] True by simp
      with Nil show ?thesis
        by (metis (mono_tags, lifting) filter.simps(1) filter_sort last_num_def list.simps(8) newest_first_def
            rev_is_Nil_conv length_0_conv length_sort)
    next
      case (Cons v rest)
      obtain k where "nat (max 1 keep) = Suc k" by (cases "nat (max 1 keep)") auto
      then have "newest_first s ?vs' = v # take k rest" using prune_keeps(1)[OF pk] True Cons by simp
      then show ?thesis using newest_first_hd[OF Cons] newest_first_hd by metis
    qed
  next
    case False
    have "filter (\<lambda>v. ve_service v = s) (filter (\<lambda>v. ve_service v \<noteq> ?s) vs) = filter (\<lambda>v. ve_service v = s) vs" for vs
      using False by (auto simp: filter_filter intro: filter_cong)
    then show ?thesis using prune_keeps(2)[OF pk, of service keep] unfolding last_num_def by metis
  qed
qed

lemma last_num_step:
  assumes "history_step db db'" "history_ok db"
  shows "last_num s (rows (versions db)) \<le> last_num s (rows (versions db'))"
  using assms(1)
proof (elim history_stepE)
  fix env sha now i b h
  assume "db' = fst (rollback_to_config_version env sha now i b db h)"
  then show ?thesis using rollback_versions[of env sha now i b db h] last_num_save by (metis order_refl)
qed (use assms(2) in \<open>simp_all add: last_num_save last_num_prune\<close>)

lemma last_num_steps:
  "history_step\<^sup>*\<^sup>* db db' \<Longrightarrow> history_ok db \<Longrightarrow> last_num s (rows (versions db)) \<le> last_num s (rows (versions db'))"
proof (induction rule: rtranclp_induct)
  case (step y z)
  then show ?case using last_num_step[OF step.hyps(2)] history_ok_steps[OF step.hyps(1)] order_trans by metis
qed simp

section \<open>Properties\<close>

text \<open>
  Version numbers are never given twice: whatever is saved, pruned and rolled back after a
  version of a service exists, a later save of the service gets a higher number, and it is the
  number found under the returned id.
\<close>

theorem version_numbers_fresh:
  assumes "history_step\<^sup>*\<^sup>* empty_history db" "v \<in> set (rows (versions db))" "history_step\<^sup>*\<^sup>* db db'"
    and "service_name service = ve_service v" "save_config_version sha now service content a db' = (db2, i)"
  shows "\<exists>w. get_config_version db2 i = Some w \<and> ve_service w = ve_service v \<and> ve_content w = content
     \<and> ve_num v < ve_num w"
proof -
  have ok: "history_ok db" "history_ok db'"
    using history_ok_steps[OF assms(1) history_ok_empty] history_ok_steps[OF assms(3)] by auto
  let ?d = "(ve_service v, last_num (ve_service v) (rows (versions db')) + 1, content, sha content, now, a)"
  have d: "db2 = fst (save_config_version sha now service content a db')" "i = Suc (seq (versions db'))"
    using assms(5) save_rows(2)[of sha now service content a db'] by auto
  have "versions db2 = fst (insert_row (mk_version ?d) (versions db'))"
    by (simp add: d(1) save_config_version_def Let_def insert_row_def assms(4))
  then have "get_config_version db2 i = Some (mk_version ?d i)"
    using version_table.find_insert[of "versions db'" ?d] ok(2) by (simp add: get_config_version_def d(2) history_ok_def)
  moreover have "ve_num v \<le> last_num (ve_service v) (rows (versions db'))"
    using last_num_ge[OF assms(2) refl] last_num_steps[OF assms(3) ok(1)] order_trans by blast
  ultimately show ?thesis by (simp add: mk_version_def)
qed


lemma version_numbers_fresh_witness:
  "\<exists>w. get_config_version (fst (save_config_version id ''t2'' (Some ''pf'') ''new'' default_args
         (fst (prune_config_versions (Some ''pf'') 1
           (fst (save_config_version id ''t1'' (Some ''pf'') ''old'' default_args empty_history)))))) 2 = Some w
     \<and> 1 < ve_num w"
proof -
  let ?db = "fst (save_config_version id ''t1'' (Some ''pf'') ''old'' default_args empty_history)"
  let ?v = "mk_version (''pf'', 1, ''old'', ''old'', ''t1'', default_args) 1"
  have s: "service_name (Some ''pf'') = ''pf''"
    by (simp add: service_name_def strip_id stripped_no_space is_space_def code_def)
  have 1: "history_step\<^sup>*\<^sup>* empty_history ?db" by (rule r_into_rtranclp) (rule hstep_save)
  have 2: "?v \<in> set (rows (versions ?db))"
    by (simp add: save_rows(1) s empty_history_def last_num_def)
  let ?db' = "fst (prune_config_versions (Some ''pf'') 1 ?db)"
  have 3: "history_step\<^sup>*\<^sup>* ?db ?db'" by (rule r_into_rtranclp) (rule hstep_prune)
  have 4: "service_name (Some ''pf'') = ve_service ?v" by (simp add: s mk_version_def)
  have "seq (versions ?db') = 1"
    by (simp add: prune_config_versions_def Let_def save_config_version_def insert_row_def empty_history_def)
  then have 5: "save_config_version id ''t2'' (Some ''pf'') ''new'' default_args ?db'
      = (fst (save_config_version id ''t2'' (Some ''pf'') ''new'' default_args ?db'), 2)"
    by (simp add: prod_eq_iff save_rows(2))
  from version_numbers_fresh[OF 1 2 3 4 5] show ?thesis by (auto simp: mk_version_def)
qed

text \<open>
  Pruning a service keeps exactly its newest versions, at least one, and touches no other
  service.
\<close>

theorem prune_keeps_newest:
  assumes "history_step\<^sup>*\<^sup>* empty_history db" "s = strip (or_str service [])"
    and "db' = fst (prune_config_versions service keep db)"
  shows "newest_first s (rows (versions db')) = take (nat (max 1 keep)) (newest_first s (rows (versions db)))
     \<and> filter (\<lambda>v. ve_service v \<noteq> s) (rows (versions db')) = filter (\<lambda>v. ve_service v \<noteq> s) (rows (versions db))"
proof -
  have "version_table.pk_ok (versions db)"
    using history_ok_steps[OF assms(1) history_ok_empty] by (simp add: history_ok_def)
  from prune_keeps[OF this, of service keep] show ?thesis by (simp only: assms(2,3))
qed

lemma prune_keeps_newest_witness:
  "newest_first (strip (or_str (Some ''pf'') [])) (rows (versions (fst (prune_config_versions (Some ''pf'') 0 empty_history)))) = []"
proof -
  have "newest_first s (rows (versions empty_history)) = []" for s
    by (simp add: newest_first_def empty_history_def)
  with prune_keeps_newest[OF rtranclp.rtrancl_refl refl refl, of "Some ''pf''" 0] show ?thesis by simp
qed

text \<open>A history that holds one version of pf.conf, saved with the given path.\<close>

definition saved_pf :: "string \<Rightarrow> history_db" where
  "saved_pf path =
     fst (save_config_version id ''t'' (Some ''pf'') ''pass all'' (default_args\<lparr>sa_path := path\<rparr>) empty_history)"

definition plain_rollback :: rollback_env where
  "plain_rollback =
     \<lparr>rv_os = plain_os (\<lambda>_. True), rv_pf = plain_env, rv_db = plain_db, rv_write = None,
      rv_action = (\<lambda>_ _ h. (h, Inr (True, None)))\<rparr>"

lemma saved_pf_version:
  "get_config_version (saved_pf path) 1
     = Some (mk_version (''pf'', 1, ''pass all'', ''pass all'', ''t'', default_args\<lparr>sa_path := path\<rparr>) 1)"
proof -
  have "service_name (Some ''pf'') = ''pf''"
    by (simp add: service_name_def strip_id stripped_no_space is_space_def code_def)
  then show ?thesis
    by (simp add: get_config_version_def saved_pf_def save_rows(1) empty_history_def last_num_def mk_version_def)
qed

lemma plain_reload_ok:
  "\<exists>h r. reload_pf_rules (plain_os (\<lambda>_. True)) plain_env plain_db plain_host = (h, Inr r) \<and> rl_ok r"
proof -
  obtain t where "reload_pf_rules (plain_os (\<lambda>_. True)) plain_env plain_db plain_host
      = install_conf (plain_os (\<lambda>_. True)) plain_db t plain_host"
    by (rule plain_reload) blast
  then show ?thesis
    using plain_installs[of plain_db t "ho_rules plain_host"] by simp
qed

text \<open>
  A version without a file path, as every manual backup of the three core services is
  saved, is "restored" with success without any change to the host.
\<close>

theorem rollback_without_path_does_nothing:
  assumes "get_config_version db i = Some v" "ve_path v = []"
  shows "\<exists>db' r. rollback_to_config_version env sha now i by db h = (db', h, Inr r) \<and> rr_ok r"
  using assms by (simp add: rollback_to_config_version_def Let_def)

lemma rollback_without_path_does_nothing_witness:
  "\<exists>db' r. rollback_to_config_version plain_rollback id ''t'' 1 ''alice'' (saved_pf []) plain_host
     = (db', plain_host, Inr r) \<and> rr_ok r"
  by (rule rollback_without_path_does_nothing[OF saved_pf_version]) (simp add: mk_version_def default_args_def)

text \<open>
  Rolling \<open>pf\<close> back does not bring the saved text back: when the rollback reports success on
  FreeBSD (outside the dry run), kernel and pf.conf hold what is generated from the database now, whatever the
  version contains.
\<close>

theorem pf_rollback_regenerates:
  assumes "get_config_version db i = Some v" "ve_service v = ''pf''" "ve_path v \<noteq> []"
    and "os_freebsd (rv_os env)" "\<not> os_dry (rv_os env)" "io_tmp (os_write (rv_os env)) \<noteq> pf_conf_path"
    and "rollback_to_config_version env sha now i by db h = (db', h', Inr r)" "rr_ok r"
  shows "\<exists>t. generate_pf_conf (rv_pf env) (rv_db env) = Inr t \<and> ho_rules h' = Some t
     \<and> ho_files h' pf_conf_path = Some \<lparr>f_content = t, f_mode = 420\<rparr>"
proof -
  obtain h1 where w: "write_version env v h = (h1, None)"
    using assms(1,3,4,7,8)
    by (cases "write_version env v h"; cases "snd (write_version env v h)")
      (auto simp: rollback_to_config_version_def Let_def split: if_splits)
  obtain h2 ok msg where l: "reload_service_for env ''pf'' h1 = (h2, ok, msg)" by (metis prod_cases3)
  then have h2: "h' = h2" "ok"
    using assms(1-4,7,8) w by (auto simp: rollback_to_config_version_def Let_def)
  then obtain x where x: "reload_pf_rules (rv_os env) (rv_pf env) (rv_db env) h1 = (h2, Inr x)" "rl_ok x"
    using l by (auto simp: reload_service_for_def reload_failed_def split: prod.splits sum.splits)
  obtain t where t: "generate_pf_conf (rv_pf env) (rv_db env) = Inr t" "install_conf (rv_os env) (rv_db env) t h1 = (h2, Inr x)"
    using reload_installs[OF x assms(4)] by blast
  with install_conf_ok(1,3)[OF t(2) x(2) assms(6)] assms(5) show ?thesis by (auto simp: h2 held_after_def)
qed

lemma pf_rollback_regenerates_witness:
  "\<exists>db' h' r t. rollback_to_config_version plain_rollback id ''t'' 1 ''alice'' (saved_pf pf_conf_path) plain_host
       = (db', h', Inr r) \<and> rr_ok r \<and> generate_pf_conf plain_env plain_db = Inr t \<and> ho_rules h' = Some t"
proof -
  let ?v = "mk_version (''pf'', 1, ''pass all'', ''pass all'', ''t'', default_args\<lparr>sa_path := pf_conf_path\<rparr>) 1"
  let ?run = "rollback_to_config_version plain_rollback id ''t'' 1 ''alice'' (saved_pf pf_conf_path) plain_host"
  have v: "ve_service ?v = ''pf''" "ve_path ?v \<noteq> []" "ve_content ?v = ''pass all''" "ve_path ?v = pf_conf_path"
    by (simp_all add: mk_version_def pf_conf_path_def)
  have e: "os_freebsd (rv_os plain_rollback)" "\<not> os_dry (rv_os plain_rollback)" "io_tmp (os_write (rv_os plain_rollback)) \<noteq> pf_conf_path"
    by (simp_all add: plain_rollback_def plain_os_def pf_conf_path_def)
  have w: "write_version plain_rollback ?v plain_host = (plain_host, None)"
    using v(3,4) by (simp add: write_version_def plain_rollback_def write_text_def plain_host_def)
  obtain h r where "reload_pf_rules (plain_os (\<lambda>_. True)) plain_env plain_db plain_host = (h, Inr r)" "rl_ok r"
    using plain_reload_ok by blast
  then have "reload_service_for plain_rollback ''pf'' plain_host = (h, True, rl_message r)"
    by (simp add: reload_service_for_def plain_rollback_def)
  then obtain db' x where run: "?run = (db', h, Inr x)" "rr_ok x"
    using saved_pf_version[of pf_conf_path] e(1) v(1,2) w by (simp add: rollback_to_config_version_def Let_def)
  from pf_rollback_regenerates[OF saved_pf_version v(1,2) e run] run show ?thesis
    by (auto simp: plain_rollback_def)
qed

end
