(* ===== verification/Validators.thy ===== *)
theory Validators
  imports IpAddress PyValue
begin

text \<open>
  \<^verbatim>\<open>app/validators.py\<close>: the input validators of the API.  A validator returns the
  normalised value or \<open>Inl (ValueError message)\<close>; an argument \<open>str | None\<close> is a
  \<open>string option\<close>, an argument that comes from JSON or a form is a \<open>pyval\<close>.  The
  regular expressions are anchored classes; each is written as the predicate it matches.
\<close>

section \<open>IP addresses and networks\<close>

text \<open>\<open>(value or "").strip()\<close>.\<close>

definition arg_strip :: "string option \<Rightarrow> string" where
  "arg_strip v = strip (or_str v [])"

definition validate_ip :: "string option \<Rightarrow> bool \<Rightarrow> string res" where
  "validate_ip value allow_empty =
     (let v = arg_strip value in
      if v = [] then (if allow_empty then Inr v else Inl (ValueError ''IP address is required''))
      else case ip_address v of
        None \<Rightarrow> Inl (ValueError (''Invalid IP address: '' @ py_repr v))
      | Some _ \<Rightarrow> Inr v)"

definition validate_cidr :: "string option \<Rightarrow> bool \<Rightarrow> string res" where
  "validate_cidr value allow_empty =
     (let v = arg_strip value in
      if v = [] then (if allow_empty then Inr v else Inl (ValueError ''CIDR address is required''))
      else case ip_interface v of
        None \<Rightarrow> Inl (ValueError (''Invalid CIDR address: '' @ py_repr v))
      | Some _ \<Rightarrow> Inr v)"

definition validate_network :: "string option \<Rightarrow> bool \<Rightarrow> string res" where
  "validate_network value allow_empty =
     (let v = arg_strip value in
      if v = [] then (if allow_empty then Inr v else Inl (ValueError ''Network CIDR is required''))
      else case ip_network v of
        None \<Rightarrow> Inl (ValueError (''Invalid network CIDR: '' @ py_repr v))
      | Some _ \<Rightarrow> Inr v)"

text \<open>
  One of the four interface queries: \<open>None\<close> when \<open>conn.execute\<close> raises (a table without
  the address column), otherwise its rows \<open>(iface, cidr)\<close>.
\<close>

type_synonym iface_query = "(string option \<times> string option) list option"

fun check_iface_rows :: "ipnet \<Rightarrow> string \<Rightarrow> string \<Rightarrow> (string option \<times> string option) list
    \<Rightarrow> unit res" where
  "check_iface_rows new_net v skip [] = Inr ()"
| "check_iface_rows new_net v skip ((iface, cidr) # rest) =
     (let other_iface = arg_strip iface; other_cidr = arg_strip cidr in
      if other_cidr = [] then check_iface_rows new_net v skip rest
      else if skip \<noteq> [] \<and> other_iface = skip then check_iface_rows new_net v skip rest
      else case ip_interface other_cidr of
        None \<Rightarrow> check_iface_rows new_net v skip rest
      | Some oi \<Rightarrow>
          (if net_overlaps new_net (iface_network oi)
           then Inl (ValueError (''Subnet '' @ v @ '' overlaps interface '' @
                  (if other_iface = [] then ''(unassigned)'' else other_iface) @
                  '' ('' @ other_cidr @ '')''))
           else check_iface_rows new_net v skip rest))"

fun check_iface_queries :: "ipnet \<Rightarrow> string \<Rightarrow> string \<Rightarrow> iface_query list \<Rightarrow> unit res" where
  "check_iface_queries new_net v skip [] = Inr ()"
| "check_iface_queries new_net v skip (None # qs) = check_iface_queries new_net v skip qs"
| "check_iface_queries new_net v skip (Some rs # qs) =
     bind_res (check_iface_rows new_net v skip rs)
       (\<lambda>_. check_iface_queries new_net v skip qs)"

definition validate_no_overlap :: "iface_query list \<Rightarrow> string option \<Rightarrow> string option
    \<Rightarrow> string res" where
  "validate_no_overlap sources iface_to_skip new_cidr =
     (let v = arg_strip new_cidr in
      if v = [] then Inr v
      else case ip_interface v of
        None \<Rightarrow> Inl (ValueError (''Invalid CIDR address: '' @ py_repr v))
      | Some i \<Rightarrow>
          bind_res (check_iface_queries (iface_network i) v (arg_strip iface_to_skip) sources)
            (\<lambda>_. Inr v))"

section \<open>Host names\<close>

text \<open>
  \<open>[a-zA-Z0-9](?:[a-zA-Z0-9\-]{0,61}[a-zA-Z0-9])?\<close>; the host name pattern is a sequence
  of such labels separated by dots.
\<close>

definition label_match :: "string \<Rightarrow> bool" where
  "label_match l \<longleftrightarrow>
     l \<noteq> [] \<and> length l \<le> 63 \<and> is_alnum (hd l) \<and> is_alnum (last l)
     \<and> list_all (\<lambda>c. is_alnum c \<or> c = CHR ''-'') l"

definition hostname_match :: "string \<Rightarrow> bool" where
  "hostname_match v \<longleftrightarrow> list_all label_match (split_on (CHR ''.'') v)"

definition validate_hostname :: "string option \<Rightarrow> bool \<Rightarrow> string res" where
  "validate_hostname value allow_empty =
     (let v = lower (arg_strip value) in
      if v = [] then (if allow_empty then Inr v else Inl (ValueError ''Hostname is required''))
      else if 253 < length v then Inl (ValueError ''Hostname exceeds 253 characters'')
      else if \<not> hostname_match v
        then Inl (ValueError (''Invalid hostname or domain: '' @ py_repr v))
      else Inr v)"

section \<open>Ports\<close>

text \<open>\<open>None\<close> in the result is Python's \<open>None\<close>; only \<open>TypeError\<close> and \<open>ValueError\<close> are caught.\<close>

definition blank_val :: "pyval \<Rightarrow> bool" where
  "blank_val value = (case value of PNone \<Rightarrow> True | PStr s \<Rightarrow> strip s = [] | _ \<Rightarrow> False)"

definition validate_port :: "pyval \<Rightarrow> bool \<Rightarrow> int option res" where
  "validate_port value allow_empty =
     (if blank_val value
      then (if allow_empty then Inr None else Inl (ValueError ''Port is required''))
      else case py_int_of value of
        Inl (TypeError m) \<Rightarrow> Inl (ValueError (''Port must be an integer, got '' @ repr_val value))
      | Inl (ValueError m) \<Rightarrow> Inl (ValueError (''Port must be an integer, got '' @ repr_val value))
      | Inl e \<Rightarrow> Inl e
      | Inr port \<Rightarrow>
          (if \<not> (1 \<le> port \<and> port \<le> 65535)
           then Inl (ValueError (''Port '' @ str_int port @ '' out of range 1'' @ en_dash @ ''65535''))
           else Inr (Some port)))"

text \<open>
  \<open>^(\d+)(?:[:\-](\d+))?$\<close>: the digits before the separator and, when there is one, the
  digits after it.
\<close>

definition port_groups :: "string \<Rightarrow> (string \<times> string option) option" where
  "port_groups s =
     (let a = takeWhile is_digit s; rest = dropWhile is_digit s in
      if a = [] then None
      else case rest of
        [] \<Rightarrow> Some (a, None)
      | c # b \<Rightarrow> (if c \<in> {CHR '':'', CHR ''-''} \<and> all_digits b then Some (a, Some b) else None))"

text \<open>\<open>_PORT_RANGE_RE\<close>: at most five digits in each group.\<close>

definition port_range_groups :: "string \<Rightarrow> (string \<times> string option) option" where
  "port_range_groups s =
     (case port_groups s of
        Some (a, b) \<Rightarrow>
          (if length a \<le> 5 \<and> (case b of None \<Rightarrow> True | Some d \<Rightarrow> length d \<le> 5)
           then Some (a, b) else None)
      | None \<Rightarrow> None)"

definition validate_port_range :: "string option \<Rightarrow> bool \<Rightarrow> string res" where
  "validate_port_range value allow_empty =
     (let v = arg_strip value in
      if v = [] then (if allow_empty then Inr v else Inl (ValueError ''Port range is required''))
      else case port_range_groups v of
        None \<Rightarrow> Inl (ValueError (''Invalid port range: '' @ py_repr v))
      | Some (a, b) \<Rightarrow>
          (let start = nat_of_digits a;
               end' = (case b of None \<Rightarrow> start | Some d \<Rightarrow> nat_of_digits d)
           in if \<not> (1 \<le> start \<and> start \<le> 65535) \<or> \<not> (1 \<le> end' \<and> end' \<le> 65535)
              then Inl (ValueError (''Port values out of range in: '' @ py_repr v))
              else if end' < start
              then Inl (ValueError (''Port range end must be >= start in: '' @ py_repr v))
              else Inr v))"

definition is_port_sep :: "char \<Rightarrow> bool" where
  "is_port_sep c \<longleftrightarrow> c = CHR '','' \<or> is_space c"

fun validate_parts :: "string list \<Rightarrow> unit res" where
  "validate_parts [] = Inr ()"
| "validate_parts (p # ps) =
     (let part = strip p in
      if part = [] then validate_parts ps
      else bind_res (validate_port_range (Some part) False) (\<lambda>_. validate_parts ps))"

definition validate_port_list :: "string option \<Rightarrow> bool \<Rightarrow> string res" where
  "validate_port_list value allow_empty =
     (let v = arg_strip value in
      if v = [] then (if allow_empty then Inr v else Inl (ValueError ''Port list is required''))
      else bind_res (validate_parts (split_runs is_port_sep v)) (\<lambda>_. Inr v))"

definition after :: "char \<Rightarrow> string \<Rightarrow> string" where
  "after c s = tl (dropWhile (\<lambda>x. x \<noteq> c) s)"

definition normalize_part :: "string \<Rightarrow> string res" where
  "normalize_part part =
     (if port_groups part = None then Inl (ValueError (''Invalid port token: '' @ py_repr part))
      else if CHR ''-'' \<in> set part \<or> CHR '':'' \<in> set part
      then (let sep = (if CHR '':'' \<in> set part then CHR '':'' else CHR ''-'');
                lo = nat_of_digits (before sep part); hi = nat_of_digits (after sep part)
            in if \<not> (1 \<le> lo \<and> lo \<le> hi \<and> hi \<le> 65535)
               then Inl (ValueError (''Invalid port range: '' @ py_repr part))
               else Inr (str_nat lo @ '':'' @ str_nat hi))
      else (let port = nat_of_digits part
            in if \<not> (1 \<le> port \<and> port \<le> 65535)
               then Inl (ValueError (''Port '' @ str_nat port @ '' out of range 1-65535''))
               else Inr (str_nat port)))"

fun normalize_parts :: "string list \<Rightarrow> string list res" where
  "normalize_parts [] = Inr []"
| "normalize_parts (p # ps) =
     bind_res (normalize_part p) (\<lambda>q. bind_res (normalize_parts ps) (\<lambda>qs. Inr (q # qs)))"

definition normalize_ports :: "string option \<Rightarrow> bool \<Rightarrow> string res" where
  "normalize_ports value allow_empty =
     (let raw = arg_strip value in
      if raw = [] then (if allow_empty then Inr [] else Inl (ValueError ''Port value is required''))
      else (let parts = filter (\<lambda>p. p \<noteq> []) (map strip (split_on (CHR '','') raw)) in
            if parts = []
            then (if allow_empty then Inr [] else Inl (ValueError ''Port value is required''))
            else bind_res (normalize_parts parts) (\<lambda>ns. Inr (join '','' ns))))"

section \<open>Protocols, interfaces, MAC addresses, user names\<close>

definition valid_protocols :: "string list" where
  "valid_protocols = [''tcp'', ''udp'', ''tcp+udp'', ''icmp'', ''icmpv6'', ''esp'', ''ah'', ''gre'',
     ''any'', ''all'', '''']"

text \<open>\<open>{value!r}\<close> of the raw argument.\<close>

definition repr_arg :: "string option \<Rightarrow> string" where
  "repr_arg v = (case v of None \<Rightarrow> ''None'' | Some s \<Rightarrow> py_repr s)"

definition validate_protocol :: "string option \<Rightarrow> bool \<Rightarrow> string res" where
  "validate_protocol value allow_empty =
     (let v = lower (arg_strip value) in
      if v \<notin> set valid_protocols then Inl (ValueError (''Invalid protocol: '' @ repr_arg value))
      else Inr v)"

definition iface_match :: "string \<Rightarrow> bool" where
  "iface_match v \<longleftrightarrow>
     v \<noteq> [] \<and> length v \<le> 32 \<and> is_alpha (hd v)
     \<and> list_all (\<lambda>c. is_alnum c \<or> c \<in> {CHR ''_'', CHR ''.'', CHR '':'', CHR ''-''}) v"

definition validate_interface_name :: "string option \<Rightarrow> bool \<Rightarrow> string res" where
  "validate_interface_name value allow_empty =
     (let v = arg_strip value in
      if v = [] then (if allow_empty then Inr v else Inl (ValueError ''Interface name is required''))
      else if \<not> iface_match v then Inl (ValueError (''Invalid interface name: '' @ py_repr v))
      else Inr v)"

definition is_hex_lower :: "char \<Rightarrow> bool" where
  "is_hex_lower c \<longleftrightarrow> is_digit c \<or> (97 \<le> code c \<and> code c \<le> 102)"

definition mac_match :: "string \<Rightarrow> bool" where
  "mac_match v \<longleftrightarrow>
     (let ps = split_on (CHR '':'') v in
      length ps = 6 \<and> list_all (\<lambda>p. length p = 2 \<and> list_all is_hex_lower p) ps)"

definition validate_mac :: "string option \<Rightarrow> bool \<Rightarrow> string res" where
  "validate_mac value allow_empty =
     (let v = lower (arg_strip value) in
      if v = [] then (if allow_empty then Inr v else Inl (ValueError ''MAC address is required''))
      else if \<not> mac_match v
        then Inl (ValueError (''Invalid MAC address: '' @ repr_arg value @
               '' (expected xx:xx:xx:xx:xx:xx)''))
      else Inr v)"

definition username_match :: "string \<Rightarrow> bool" where
  "username_match v \<longleftrightarrow>
     v \<noteq> [] \<and> length v \<le> 64
     \<and> list_all (\<lambda>c. is_alnum c \<or> c \<in> {CHR ''_'', CHR ''.'', CHR ''@'', CHR ''-''}) v"

definition validate_username :: "string option \<Rightarrow> bool \<Rightarrow> string res" where
  "validate_username value allow_empty =
     (let v = arg_strip value in
      if v = [] then (if allow_empty then Inr v else Inl (ValueError ''Username is required''))
      else if \<not> username_match v then Inl (ValueError (''Invalid username: '' @ py_repr v))
      else Inr v)"

section \<open>Booleans and free text\<close>

fun validate_boolean :: "pyval \<Rightarrow> bool \<Rightarrow> bool" where
  "validate_boolean PNone dflt = dflt"
| "validate_boolean (PBool b) dflt = b"
| "validate_boolean (PInt i) dflt = (i \<noteq> 0)"
| "validate_boolean (PStr s) dflt =
     (lower (strip s) \<in> set [''1'', ''true'', ''yes'', ''on''])"
| "validate_boolean v dflt = py_bool_of v"

definition validate_description :: "string option \<Rightarrow> nat \<Rightarrow> string res" where
  "validate_description value max_len =
     (let v = arg_strip value in
      if max_len < length v
      then Inl (ValueError (''Description exceeds '' @ str_nat max_len @ '' characters''))
      else Inr v)"

definition validate_name :: "string option \<Rightarrow> nat \<Rightarrow> bool \<Rightarrow> string res" where
  "validate_name value max_len allow_empty =
     (let v = arg_strip value in
      if v = [] then (if allow_empty then Inr v else Inl (ValueError ''Name is required''))
      else if max_len < length v
      then Inl (ValueError (''Name exceeds '' @ str_nat max_len @ '' characters''))
      else Inr v)"

section \<open>Collecting errors\<close>

text \<open>
  The callables are given by their outcomes, in call order; only \<open>ValueError\<close> is caught, any
  other exception leaves the loop.  The result is the dict in insertion order.
\<close>

fun collect_errors :: "(string \<times> 'a res) list \<Rightarrow> (string \<times> string) list res" where
  "collect_errors [] = Inr []"
| "collect_errors ((field, r) # rest) =
     (case r of
        Inr _ \<Rightarrow> collect_errors rest
      | Inl (ValueError m) \<Rightarrow> bind_res (collect_errors rest) (\<lambda>es. Inr ((field, m) # es))
      | Inl e \<Rightarrow> Inl e)"

section \<open>Canonical port lists\<close>

text \<open>
  What \<open>normalize_ports\<close> promises: its result is a comma-separated list of entries, each a
  port or an ascending range inside 1-65535, printed without leading zeros.
\<close>

fun entry_str :: "nat \<times> nat option \<Rightarrow> string" where
  "entry_str (lo, None) = str_nat lo"
| "entry_str (lo, Some hi) = str_nat lo @ '':'' @ str_nat hi"

fun entry_ok :: "nat \<times> nat option \<Rightarrow> bool" where
  "entry_ok (lo, None) \<longleftrightarrow> 1 \<le> lo \<and> lo \<le> 65535"
| "entry_ok (lo, Some hi) \<longleftrightarrow> 1 \<le> lo \<and> lo \<le> hi \<and> hi \<le> 65535"

lemma takeWhile_str_nat: "\<not> is_digit c \<Longrightarrow> takeWhile is_digit (str_nat n @ c # s) = str_nat n"
  by (simp add: takeWhile_append2 str_nat_digits)

lemma dropWhile_str_nat: "\<not> is_digit c \<Longrightarrow> dropWhile is_digit (str_nat n @ c # s) = c # s"
  by (simp add: dropWhile_append2 str_nat_digits)

lemma digits_only: "takeWhile is_digit (str_nat n) = str_nat n" "dropWhile is_digit (str_nat n) = []"
  by (simp_all add: takeWhile_eq_all_conv str_nat_digits dropWhile_eq_Nil_conv)

lemma port_groups_entry:
  "port_groups (entry_str (lo, h)) = Some (str_nat lo, map_option str_nat h)"
  by (cases h) (simp_all add: port_groups_def Let_def takeWhile_str_nat dropWhile_str_nat digits_only)

lemma set_entry_str: "c \<in> set (entry_str e) \<Longrightarrow> is_digit c \<or> c = CHR '':''"
  by (cases e rule: entry_str.cases) (auto dest: str_nat_digits)

lemma colon_not_space [simp]: "\<not> is_space (CHR '':'')" "\<not> is_space (CHR '','')"
  by (simp_all add: char_class_defs)

lemma entry_str_chars:
  "entry_str e \<noteq> []" "CHR '','' \<notin> set (entry_str e)" "CHR ''-'' \<notin> set (entry_str e)"
  "c \<in> set (entry_str e) \<Longrightarrow> \<not> is_space c"
proof -
  show "entry_str e \<noteq> []" by (cases e rule: entry_str.cases) auto
  show "CHR '','' \<notin> set (entry_str e)" "CHR ''-'' \<notin> set (entry_str e)"
    using set_entry_str[of "CHR '',''" e] set_entry_str[of "CHR ''-''" e] by auto
  show "\<not> is_space c" if "c \<in> set (entry_str e)"
    using set_entry_str[OF that] by (auto dest: digit_not_space)
qed

lemma before_after_colon:
  "before (CHR '':'') (str_nat lo @ CHR '':'' # s) = str_nat lo"
  "after (CHR '':'') (str_nat lo @ CHR '':'' # s) = s"
proof -
  have "\<forall>c \<in> set (str_nat lo). c \<noteq> CHR '':''" using str_nat_no[of "CHR '':''"] by auto
  then show "before (CHR '':'') (str_nat lo @ CHR '':'' # s) = str_nat lo"
    "after (CHR '':'') (str_nat lo @ CHR '':'' # s) = s"
    by (simp_all add: before_def after_def takeWhile_append2 dropWhile_append2)
qed

lemma normalize_part_canonical: "entry_ok e \<Longrightarrow> normalize_part (entry_str e) = Inr (entry_str e)"
proof (cases e rule: entry_str.cases)
  case (1 lo)
  moreover assume "entry_ok e"
  ultimately show ?thesis
    using port_groups_entry[of lo None] str_nat_no[of "CHR '':''" lo] str_nat_no[of "CHR ''-''" lo]
    by (simp add: normalize_part_def)
next
  case (2 lo hi)
  moreover assume "entry_ok e"
  ultimately show ?thesis
    using port_groups_entry[of lo "Some hi"]
    by (simp add: normalize_part_def Let_def before_after_colon)
qed

lemma normalize_part_entry:
  assumes "normalize_part p = Inr q"
  shows "\<exists>e. entry_ok e \<and> q = entry_str e"
proof (cases "CHR ''-'' \<in> set p \<or> CHR '':'' \<in> set p")
  case True
  let ?sep = "if CHR '':'' \<in> set p then CHR '':'' else CHR ''-''"
  from True assms show ?thesis
    by (intro exI[of _ "(nat_of_digits (before ?sep p), Some (nat_of_digits (after ?sep p)))"])
      (auto simp: normalize_part_def Let_def split: if_splits)
next
  case False
  with assms show ?thesis
    by (intro exI[of _ "(nat_of_digits p, None)"])
      (auto simp: normalize_part_def Let_def split: if_splits)
qed

lemma normalize_parts_entries:
  "normalize_parts ps = Inr qs \<Longrightarrow>
     \<exists>es. list_all entry_ok es \<and> qs = map entry_str es \<and> length es = length ps"
proof (induction ps arbitrary: qs)
  case (Cons p ps)
  then obtain q qs' where q: "normalize_part p = Inr q" and qs': "normalize_parts ps = Inr qs'"
    and qs: "qs = q # qs'"
    by (auto simp: bind_res_Inr)
  from normalize_part_entry[OF q] Cons.IH[OF qs'] obtain e es
    where "entry_ok e" "q = entry_str e" "list_all entry_ok es" "qs' = map entry_str es"
      "length es = length ps"
    by auto
  with qs show ?case by (intro exI[of _ "e # es"]) simp
qed simp

lemma normalize_parts_canonical:
  "list_all entry_ok es \<Longrightarrow> normalize_parts (map entry_str es) = Inr (map entry_str es)"
  by (induction es) (simp_all add: normalize_part_canonical)

lemma set_join: "c \<in> set (join sep xs) \<Longrightarrow> c \<in> set sep \<or> (\<exists>x \<in> set xs. c \<in> set x)"
  by (induction sep xs rule: join.induct) auto

lemma join_nonempty: "xs \<noteq> [] \<Longrightarrow> hd xs \<noteq> [] \<Longrightarrow> join sep xs \<noteq> []"
  by (cases xs; cases "tl xs") auto

lemma normalize_ports_join:
  assumes "es \<noteq> []" "list_all entry_ok es"
  shows "normalize_ports (Some (join '','' (map entry_str es))) a = Inr (join '','' (map entry_str es))"
proof -
  let ?v = "join '','' (map entry_str es)"
  have "\<forall>c \<in> set ?v. \<not> is_space c"
    by (auto dest!: set_join simp: entry_str_chars)
  then have v: "arg_strip (Some ?v) = ?v"
    by (simp add: arg_strip_def strip_id stripped_no_space)
  have ne: "?v \<noteq> []"
    using assms(1) by (intro join_nonempty) (auto simp: hd_map entry_str_chars)
  have sp: "split_on (CHR '','') ?v = map entry_str es"
    using assms(1) by (intro split_on_join) (auto simp: entry_str_chars)
  have st: "map strip (map entry_str es) = map entry_str es"
    by (auto intro!: strip_id stripped_no_space simp: entry_str_chars)
  have fl: "filter (\<lambda>p. p \<noteq> []) (map entry_str es) = map entry_str es"
    by (auto simp: filter_id_conv entry_str_chars)
  show ?thesis
    using assms ne by (simp add: normalize_ports_def v sp st fl normalize_parts_canonical
        del: map_map)
qed

lemma normalize_ports_Inr:
  assumes "normalize_ports value a = Inr v"
  shows "(v = [] \<and> a) \<or> (\<exists>es. es \<noteq> [] \<and> list_all entry_ok es \<and> v = join '','' (map entry_str es))"
proof -
  let ?parts = "filter (\<lambda>p. p \<noteq> []) (map strip (split_on (CHR '','') (arg_strip value)))"
  consider "v = [] \<and> a" | ns where "?parts \<noteq> []" "normalize_parts ?parts = Inr ns" "v = join '','' ns"
    using assms by (auto simp: normalize_ports_def Let_def bind_res_Inr split: if_splits)
  then show ?thesis
  proof cases
    case (2 ns)
    from normalize_parts_entries[OF 2(2)] 2(1,3) show ?thesis
      by (metis length_0_conv)
  qed simp
qed

section \<open>Interface overlap\<close>

text \<open>A configured interface other than the edited one that shares an address with the network.\<close>

definition clashes :: "ipnet \<Rightarrow> string \<Rightarrow> string option \<times> string option \<Rightarrow> bool" where
  "clashes net skip row \<longleftrightarrow>
     (let other_cidr = arg_strip (snd row) in
      other_cidr \<noteq> [] \<and> \<not> (skip \<noteq> [] \<and> arg_strip (fst row) = skip)
      \<and> (\<exists>oi a. ip_interface other_cidr = Some oi
              \<and> ip_bits (net_addr net) = ip_bits (net_addr (iface_network oi))
              \<and> net_first net \<le> a \<and> a \<le> net_last net
              \<and> net_first (iface_network oi) \<le> a \<and> a \<le> net_last (iface_network oi)))"

lemma check_iface_rows_Cons:
  assumes "wf_net net"
  shows "check_iface_rows net v skip (r # rest) = Inr () \<longleftrightarrow>
    \<not> clashes net skip r \<and> check_iface_rows net v skip rest = Inr ()"
proof -
  obtain iface cidr where r: "r = (iface, cidr)" by (cases r)
  show ?thesis
  proof (cases "ip_interface (arg_strip cidr)")
    case None
    then show ?thesis by (simp add: r clashes_def Let_def)
  next
    case (Some oi)
    show ?thesis
      unfolding r clashes_def check_iface_rows.simps Let_def Some fst_conv snd_conv option.case
        net_overlaps_iff[OF assms wf_iface_network]
      by (cases "arg_strip cidr = []"; cases "skip \<noteq> [] \<and> arg_strip iface = skip") auto
  qed
qed

lemma check_iface_rows_iff:
  "wf_net net \<Longrightarrow>
     check_iface_rows net v skip rs = Inr () \<longleftrightarrow> (\<forall>r \<in> set rs. \<not> clashes net skip r)"
  by (induction rs) (simp_all add: check_iface_rows_Cons del: check_iface_rows.simps(2))

lemma check_iface_queries_iff:
  "wf_net net \<Longrightarrow> check_iface_queries net v skip qs = Inr () \<longleftrightarrow>
     (\<forall>rs. Some rs \<in> set qs \<longrightarrow> (\<forall>r \<in> set rs. \<not> clashes net skip r))"
  by (induction net v skip qs rule: check_iface_queries.induct)
    (auto simp: bind_res_Inr check_iface_rows_iff)

section \<open>Accepted values\<close>

lemma validate_parts_Inr:
  "validate_parts ps = Inr () \<Longrightarrow> p \<in> set ps \<Longrightarrow> strip p \<noteq> [] \<Longrightarrow>
     validate_port_range (Some (strip p)) False = Inr (strip p)"
proof (induction ps)
  case (Cons q qs)
  have "validate_port_range (Some t) False = Inr x \<Longrightarrow> x = strip t" for t x
    by (auto simp: validate_port_range_def arg_strip_def Let_def
        split: if_splits option.splits prod.splits)
  then have "validate_port_range (Some (strip q)) False = Inr x \<Longrightarrow> x = strip q" for x
    by fastforce
  with Cons show ?case
    by (fastforce simp: bind_res_Inr Let_def split: if_splits)
qed simp

lemma lower_no_upper: "c \<in> set (lower s) \<Longrightarrow> \<not> is_upper c"
  by (auto simp: lower_def is_upper_def code_to_lower split: if_splits)


section \<open>Properties\<close>

text \<open>
  What \<open>normalize_ports\<close> accepts comes out as a comma-separated list of ports and ascending
  ranges within 1-65535, without leading zeros, and normalising it again changes nothing.
\<close>

theorem normalize_ports_canonical:
  assumes "normalize_ports value allow_empty = Inr v"
  shows "(\<exists>es. list_all entry_ok es \<and> v = join '','' (map entry_str es) \<and> (es = [] \<longrightarrow> allow_empty))
     \<and> normalize_ports (Some v) allow_empty = Inr v"
  using normalize_ports_Inr[OF assms]
proof
  assume v: "v = [] \<and> allow_empty"
  then have "normalize_ports (Some v) allow_empty = Inr v"
    by (simp add: normalize_ports_def arg_strip_def strip_def lstrip_def rstrip_def)
  with v show ?thesis by (intro conjI exI[of _ "[]"]) simp_all
next
  assume "\<exists>es. es \<noteq> [] \<and> list_all entry_ok es \<and> v = join '','' (map entry_str es)"
  then show ?thesis using normalize_ports_join by blast
qed

lemma normalize_ports_canonical_witness:
  "normalize_ports (Some ''80,1000:2000'') False = Inr ''80,1000:2000''"
proof -
  have "normalize_ports (Some (join '','' (map entry_str [(80, None), (1000, Some 2000)]))) False
      = Inr (join '','' (map entry_str [(80, None), (1000, Some 2000)]))"
    by (rule normalize_ports_join) simp_all
  moreover have "join '','' (map entry_str [(80, None), (1000, Some 2000)]) = ''80,1000:2000''"
    by (simp add: str_nat.simps digit_def char_of_def bit_0)
  ultimately have "normalize_ports (Some ''80,1000:2000'') False = Inr ''80,1000:2000''" by simp
  from normalize_ports_canonical[OF this] show ?thesis by blast
qed

text \<open>
  A subnet is accepted for an interface exactly when no other configured interface has a
  network that shares an address with it; tables that cannot be queried and addresses that do
  not parse never object.
\<close>

theorem no_overlap_iff_disjoint:
  assumes "arg_strip cidr \<noteq> []" "ip_interface (arg_strip cidr) = Some i"
  shows "validate_no_overlap sources skip cidr = Inr (arg_strip cidr) \<longleftrightarrow>
     \<not> (\<exists>rs r. Some rs \<in> set sources \<and> r \<in> set rs \<and> clashes (iface_network i) (arg_strip skip) r)"
  using assms check_iface_queries_iff[of "iface_network i" "arg_strip cidr" "arg_strip skip" sources]
  by (auto simp: validate_no_overlap_def Let_def bind_res_Inr)

lemma no_overlap_iff_disjoint_witness:
  "validate_no_overlap [Some []] None (Some ''10.0.0.1'') = Inr ''10.0.0.1''"
proof -
  have s: "arg_strip (Some ''10.0.0.1'') = ''10.0.0.1''"
    by (simp add: arg_strip_def strip_id stripped_no_space is_space_def code_def)
  have "ip_interface ''10.0.0.1'' \<noteq> None"
    by (simp add: ip_interface_def parse_iface_def parse_ipv4_def parse_v4_num_def parse_octet_def
        all_digits_def nat_of_digits_def is_digit_def digit_val_def code_def)
  then obtain i where "ip_interface (arg_strip (Some ''10.0.0.1'')) = Some i" using s by auto
  from no_overlap_iff_disjoint[OF _ this, of "[Some []]" None] s show ?thesis by simp
qed

text \<open>
  \<open>validate_port\<close> accepts exactly the values \<open>int()\<close> maps into 1-65535, and the only values
  that escape as an exception other than \<open>ValueError\<close> are the infinite floats.
\<close>

theorem validate_port_outcomes:
  "(validate_port value allow_empty = Inr (Some p) \<longleftrightarrow> \<not> blank_val value \<and> py_int_of value = Inr p \<and> 1 \<le> p \<and> p \<le> 65535)
   \<and> ((\<exists>e. validate_port value allow_empty = Inl e \<and> (\<nexists>m. e = ValueError m)) \<longleftrightarrow> (\<exists>r neg. value = PFloat r (Infinite neg)))"
proof
  show "validate_port value allow_empty = Inr (Some p)
      \<longleftrightarrow> \<not> blank_val value \<and> py_int_of value = Inr p \<and> 1 \<le> p \<and> p \<le> 65535"
    by (auto simp: validate_port_def split: sum.splits pyexn.splits)
  show "(\<exists>e. validate_port value allow_empty = Inl e \<and> (\<nexists>m. e = ValueError m)) \<longleftrightarrow> (\<exists>r neg. value = PFloat r (Infinite neg))"
    by (cases "value" rule: py_int_of.cases)
      (auto simp: validate_port_def blank_val_def split: if_splits option.splits)
qed

end
