(* ===== verification/Playbooks.thy ===== *)
theory Playbooks
  imports PrivHelper
begin

text \<open>
  \<^verbatim>\<open>app/services/playbooks.py\<close>, the automation engine: a playbook is a trigger and a list of steps,
  a run executes the steps in order and halts at a step that needs approval.  It is called by
  \<open>log_event\<close> of \<^verbatim>\<open>app/audit_log.py\<close> for every event, and its steps call \<open>log_event\<close> again; the
  thread-local guard of \<open>on_event\<close> ends the recursion.

  The steps come from JSON, so the step handlers work on dynamic values and their type errors are
  modelled.  The log of a run is written by this module only and is kept as a list of records.
  The enrichment of the details of an event is an argument.
\<close>

section \<open>Rows and state\<close>

text \<open>A line of the audit log.  Fields a step takes from its arguments may hold any value.\<close>

record event =
  ev_ts :: string
  ev_severity :: pyval
  ev_category :: pyval
  ev_action :: pyval
  ev_user :: string
  ev_remote :: string
  ev_details :: pyval

record playbook =
  pb_id :: nat
  pb_name :: string
  pb_description :: string
  pb_enabled :: bool
  pb_action :: string
  pb_category :: "string option"
  pb_min_sev :: "string option"
  pb_steps :: json_doc
  pb_created_by :: string

datatype step_status = StepOk | StepFailed | StepSkipped | StepAwaiting | StepApproved

record step_entry =
  le_index :: nat
  le_type :: string
  le_status :: step_status
  le_message :: "string option"
  le_approver :: "string option"

datatype run_status = Running | Done | Awaiting

record run_row =
  pr_id :: nat
  pr_playbook :: nat
  pr_event_ts :: string
  pr_event_action :: pyval
  pr_status :: run_status
  pr_log :: "step_entry list"
  pr_finished :: "string option"

record case_row =
  cs_id :: nat
  cs_title :: string
  cs_description :: string
  cs_severity :: pyval
  cs_source :: string
  cs_tags :: string

record 'w pb_state =
  ps_playbooks :: "playbook table"
  ps_runs :: "run_row table"
  ps_cases :: "case_row table"
  ps_log :: "event list"
  ps_audit :: "audit_event list"
  ps_world :: 'w

record 'w pb_env =
  pe_exec :: "'w exec_env"
  pe_now :: string
  pe_enrich :: "pyval \<Rightarrow> string \<Rightarrow> string \<Rightarrow> pyval"

text \<open>The context of a run: after an approval there is no event any more.\<close>

record run_ctx =
  cx_run :: nat
  cx_name :: string
  cx_event :: "event option"

type_synonym 'w logger = "event \<Rightarrow> 'w pb_state \<Rightarrow> 'w pb_state"
type_synonym step_result = "(bool \<times> string) res"

section \<open>The steps\<close>

definition mk_event :: "'w pb_env \<Rightarrow> pyval \<Rightarrow> pyval \<Rightarrow> string \<Rightarrow> string \<Rightarrow> pyval \<Rightarrow> pyval \<Rightarrow> event" where
  "mk_event env category action user remote severity details =
     \<lparr>ev_ts = pe_now env, ev_severity = severity, ev_category = category, ev_action = action,
      ev_user = (if user = [] then ''anonymous'' else user), ev_remote = remote,
      ev_details = pe_enrich env (or_dict details) remote user\<rparr>"

text \<open>\<open>args.get(key, d)\<close>: the default is for a missing key only.\<close>

definition arg :: "pyval \<Rightarrow> string \<Rightarrow> pyval \<Rightarrow> pyval res" where
  "arg args key d = bind_res (get_attr args key) (\<lambda>x. Inr (case x of None \<Rightarrow> d | Some v \<Rightarrow> v))"

definition event_val :: "event \<Rightarrow> pyval" where
  "event_val e =
     PDict [(''timestamp'', PStr (ev_ts e)), (''severity'', ev_severity e), (''category'', ev_category e),
            (''action'', ev_action e), (''username'', PStr (ev_user e)), (''remote_addr'', PStr (ev_remote e)),
            (''details'', ev_details e)]"

definition step_log :: "'w pb_env \<Rightarrow> 'w logger \<Rightarrow> pyval \<Rightarrow> run_ctx \<Rightarrow> 'w pb_state \<Rightarrow> 'w pb_state \<times> step_result" where
  "step_log env lg args cx s =
     (case bind_res (arg args ''category'' (PStr ''system'')) (\<lambda>cat.
             bind_res (arg args ''action'' (PStr ''playbook_log'')) (\<lambda>act.
             bind_res (arg args ''severity'' (PStr ''info'')) (\<lambda>sev.
             bind_res (arg args ''message'' (PStr [])) (\<lambda>m.
               Inr (mk_event env cat act (cx_name cx) [] sev
                      (PDict [(''message'', m), (''playbook_run_id'', PInt (int (cx_run cx)))])))))) of
        Inl e \<Rightarrow> (s, Inl e)
      | Inr ev \<Rightarrow> (lg ev s, Inr (True, ''logged'')))"

definition mk_case :: "string \<times> string \<times> pyval \<times> string \<times> string \<Rightarrow> nat \<Rightarrow> case_row" where
  "mk_case d i =
     (case d of (title, descr, sev, src, tags) \<Rightarrow>
        \<lparr>cs_id = i, cs_title = title, cs_description = descr, cs_severity = sev, cs_source = src, cs_tags = tags\<rparr>)"

definition text_param :: "pyval \<Rightarrow> string res" where
  "text_param v = bind_res (bind_param v) (\<lambda>x. Inr (py_str_of x))"

text \<open>\<open>ctx.get("event_severity") or "high"\<close>: \<open>on_event\<close> puts \<open>info\<close> for an event without severity.\<close>

definition ctx_severity :: "run_ctx \<Rightarrow> pyval" where
  "ctx_severity cx =
     (case cx_event cx of None \<Rightarrow> PStr ''high'' | Some e \<Rightarrow> or_val (Some (ev_severity e)) (PStr ''info''))"

definition case_fields :: "pyval \<Rightarrow> run_ctx \<Rightarrow> (string \<times> string \<times> pyval \<times> string \<times> string) res" where
  "case_fields args cx =
     bind_res (get_attr args ''title'') (\<lambda>t.
     bind_res (slice_to 200 (or_val t (PStr (''[Playbook] '' @ cx_name cx)))) (\<lambda>t1.
     bind_res (get_attr args ''description'') (\<lambda>d.
     bind_res (slice_to 1000 (or_val d (PStr ''Opened automatically by a playbook.''))) (\<lambda>d1.
     bind_res (arg args ''severity'' (ctx_severity cx)) (\<lambda>v.
     bind_res (text_param t1) (\<lambda>title.
     bind_res (text_param d1) (\<lambda>descr.
     bind_res (bind_param v) (\<lambda>sev.
       Inr (title, descr, sev, (case cx_event cx of None \<Rightarrow> [] | Some e \<Rightarrow> ev_ts e),
            ''auto,playbook,run:'' @ str_nat (cx_run cx))))))))))"

definition step_open_case :: "pyval \<Rightarrow> run_ctx \<Rightarrow> 'w pb_state \<Rightarrow> 'w pb_state \<times> step_result" where
  "step_open_case args cx s =
     (case case_fields args cx of
        Inl e \<Rightarrow> (s, Inr (False, ''open_case failed: '' @ exn_str e))
      | Inr d \<Rightarrow>
          (case insert_row (mk_case d) (ps_cases s) of
             (t, i) \<Rightarrow> (s\<lparr>ps_cases := t\<rparr>, Inr (True, ''case '' @ str_nat i @ '' opened''))))"

text \<open>The address: the argument, else the event's, else the source address in its details.\<close>

definition event_address :: "event \<Rightarrow> string res" where
  "event_address e =
     (if ev_remote e \<noteq> [] then Inr (strip (ev_remote e))
      else
        (let d = or_dict (ev_details e) in
         bind_res (get_attr d ''src_ip'') (\<lambda>a.
         bind_res (if py_bool_of (or_val a PNone) then Inr a else get_attr d ''source_ip'') (\<lambda>b.
           str_method ''strip'' strip (or_val b (PStr []))))))"

definition block_address :: "pyval \<Rightarrow> run_ctx \<Rightarrow> string res" where
  "block_address args cx =
     bind_res (get_attr args ''ip'') (\<lambda>x.
     bind_res (str_method ''strip'' strip (or_val x (PStr []))) (\<lambda>ip.
       if ip \<noteq> [] then Inr ip else case cx_event cx of None \<Rightarrow> Inr [] | Some e \<Rightarrow> event_address e))"

definition step_block_ip :: "'w pb_env \<Rightarrow> pyval \<Rightarrow> run_ctx \<Rightarrow> 'w pb_state \<Rightarrow> 'w pb_state \<times> step_result" where
  "step_block_ip env args cx s =
     (case block_address args cx of
        Inl e \<Rightarrow> (s, Inl e)
      | Inr ip \<Rightarrow>
          (if ip = [] then (s, Inr (False, ''no IP available to block''))
           else if \<not> ne_freebsd (pe_exec env) then (s, Inr (True, ''dry-run: would block '' @ ip))
           else case run_privileged (pe_exec env) ''pf.table_add'' ''system''
                       [(''table'', PStr ''soc_blocklist''), (''ip'', PStr ip)] (ps_world s) of
             (w, events, r) \<Rightarrow>
               (s\<lparr>ps_world := w, ps_audit := ps_audit s @ events\<rparr>,
                (case r of
                   Inl e \<Rightarrow> Inr (False, ''block_ip failed: '' @ exn_str e)
                 | Inr c \<Rightarrow>
                     (let out = strip (if cr_err c \<noteq> [] then cr_err c else cr_out c);
                          msg = (if out \<noteq> [] then out else if cr_code c = 0 then ''blocked'' else ''pfctl failed'')
                      in Inr (cr_code c = 0, msg @ '' ('' @ ip @ '')''))))))"

definition step_notify :: "'w pb_env \<Rightarrow> 'w logger \<Rightarrow> pyval \<Rightarrow> run_ctx \<Rightarrow> 'w pb_state \<Rightarrow> 'w pb_state \<times> step_result" where
  "step_notify env lg args cx s =
     (case bind_res (arg args ''severity'' (PStr ''high'')) (\<lambda>sev.
             bind_res (arg args ''channel'' (PStr ''log'')) (\<lambda>ch.
             bind_res (arg args ''message'' (PStr [])) (\<lambda>m.
             bind_res (slice_to 1024 m) (\<lambda>m1.
               Inr (ch, mk_event env (PStr ''alert'') (PStr ''playbook_notify'') (cx_name cx) [] sev
                      (PDict [(''channel'', ch), (''message'', m1), (''playbook_run_id'', PInt (int (cx_run cx))),
                              (''event'', case cx_event cx of None \<Rightarrow> PDict [] | Some e \<Rightarrow> event_val e)])))))) of
        Inl e \<Rightarrow> (s, Inl e)
      | Inr (ch, ev) \<Rightarrow> (lg ev s, Inr (True, ''notified via '' @ py_str_of ch)))"

definition step_handler ::
  "'w pb_env \<Rightarrow> 'w logger \<Rightarrow> string \<Rightarrow> (pyval \<Rightarrow> run_ctx \<Rightarrow> 'w pb_state \<Rightarrow> 'w pb_state \<times> step_result) option" where
  "step_handler env lg ty =
     (if ty = ''log'' then Some (step_log env lg)
      else if ty = ''open_case'' then Some step_open_case
      else if ty = ''block_ip'' then Some (step_block_ip env)
      else if ty = ''notify'' then Some (step_notify env lg)
      else None)"

section \<open>Runs\<close>

definition sev_order :: "(string \<times> nat) list" where
  "sev_order = [(''info'', 0), (''low'', 1), (''medium'', 2), (''high'', 3), (''critical'', 4)]"

definition sev_rank :: "string \<Rightarrow> nat \<Rightarrow> nat" where
  "sev_rank s d = (case map_of sev_order s of None \<Rightarrow> d | Some n \<Rightarrow> n)"

definition meets_severity :: "string \<Rightarrow> string \<Rightarrow> bool" where
  "meets_severity event_sev min_sev \<longleftrightarrow>
     sev_rank (lower (if min_sev = [] then ''medium'' else min_sev)) 2
       \<le> sev_rank (lower (if event_sev = [] then ''info'' else event_sev)) 0"

definition playbook_matches :: "string \<Rightarrow> string \<Rightarrow> string \<Rightarrow> playbook \<Rightarrow> bool" where
  "playbook_matches action category severity p \<longleftrightarrow>
     pb_enabled p \<and> (pb_action p = [] \<or> pb_action p = action)
     \<and> (or_str (pb_category p) [] = [] \<or> or_str (pb_category p) [] = category)
     \<and> meets_severity severity (or_str (pb_min_sev p) ''medium'')"

definition field_text :: "pyval \<Rightarrow> string \<Rightarrow> string res" where
  "field_text v d = str_method ''strip'' strip (if py_bool_of v then v else PStr d)"

definition match_playbooks :: "event \<Rightarrow> playbook list \<Rightarrow> playbook list res" where
  "match_playbooks e ps =
     bind_res (field_text (ev_action e) []) (\<lambda>action.
     bind_res (field_text (ev_category e) []) (\<lambda>category.
     bind_res (field_text (ev_severity e) ''info'') (\<lambda>severity.
       Inr (filter (playbook_matches action category (lower severity)) ps))))"

definition step_dict :: "pyval \<Rightarrow> (string \<times> pyval) list" where
  "step_dict v = (case v of PDict kvs \<Rightarrow> kvs | _ \<Rightarrow> [])"

definition step_type :: "pyval \<Rightarrow> string res" where
  "step_type v = str_method ''lower'' lower (or_val (map_of (step_dict v) ''type'') (PStr []))"

definition step_args :: "pyval \<Rightarrow> pyval" where
  "step_args v = or_val (map_of (step_dict v) ''args'') (PDict [])"

definition needs_approval :: "pyval \<Rightarrow> bool" where
  "needs_approval v = py_bool_of (or_val (map_of (step_dict v) ''approval_required'') PNone)"

definition entry :: "nat \<Rightarrow> string \<Rightarrow> step_status \<Rightarrow> string option \<Rightarrow> step_entry" where
  "entry idx ty st m = \<lparr>le_index = idx, le_type = ty, le_status = st, le_message = m, le_approver = None\<rparr>"

text \<open>\<open>except Exception as exc: result = {"ok": False, ...}\<close>.\<close>

definition step_entry_of :: "nat \<Rightarrow> string \<Rightarrow> step_result \<Rightarrow> step_entry" where
  "step_entry_of idx ty r =
     (case r of
        Inl e \<Rightarrow> entry idx ty StepFailed (Some (take 1024 (''step crashed: '' @ exn_str e)))
      | Inr (ok, m) \<Rightarrow> entry idx ty (if ok then StepOk else StepFailed) (Some (take 1024 m)))"

fun run_steps ::
  "'w pb_env \<Rightarrow> 'w logger \<Rightarrow> run_ctx \<Rightarrow> nat \<Rightarrow> pyval list \<Rightarrow> step_entry list \<Rightarrow> 'w pb_state
     \<Rightarrow> 'w pb_state \<times> (run_status \<times> step_entry list) res" where
  "run_steps env lg cx idx [] log s = (s, Inr (Done, log))"
| "run_steps env lg cx idx (step # rest) log s =
     (case step_type step of
        Inl e \<Rightarrow> (s, Inl e)
      | Inr ty \<Rightarrow>
          (if needs_approval step then (s, Inr (Awaiting, log @ [entry idx ty StepAwaiting None]))
           else case step_handler env lg ty of
             None \<Rightarrow>
               run_steps env lg cx (Suc idx) rest (log @ [entry idx ty StepSkipped (Some ''unknown step type'')]) s
           | Some h \<Rightarrow>
               (case h (step_args step) cx s of
                  (s1, r) \<Rightarrow> run_steps env lg cx (Suc idx) rest (log @ [step_entry_of idx ty r]) s1)))"

definition set_run :: "nat \<Rightarrow> (run_row \<Rightarrow> run_row) \<Rightarrow> 'w pb_state \<Rightarrow> 'w pb_state" where
  "set_run i f s = s\<lparr>ps_runs := update_rows (\<lambda>r. pr_id r = i) f (ps_runs s)\<rparr>"

definition finish_run :: "'w pb_env \<Rightarrow> run_status \<Rightarrow> step_entry list \<Rightarrow> run_row \<Rightarrow> run_row" where
  "finish_run env st log r =
     r\<lparr>pr_status := st, pr_log := log, pr_finished := (if st = Done then Some (pe_now env) else pr_finished r)\<rparr>"

definition stored_log :: "nat \<Rightarrow> 'w pb_state \<Rightarrow> step_entry list" where
  "stored_log i s = (case find_by pr_id i (rows (ps_runs s)) of None \<Rightarrow> [] | Some r \<Rightarrow> pr_log r)"

definition execute_steps ::
  "'w pb_env \<Rightarrow> 'w logger \<Rightarrow> nat \<Rightarrow> pyval list \<Rightarrow> run_ctx \<Rightarrow> nat \<Rightarrow> 'w pb_state \<Rightarrow> 'w pb_state \<times> run_status res" where
  "execute_steps env lg i steps cx start s =
     (case run_steps env lg cx start (drop start steps) (stored_log i s) s of
        (s1, Inl e) \<Rightarrow> (s1, Inl e)
      | (s1, Inr (st, log)) \<Rightarrow> (set_run i (finish_run env st log) s1, Inr st))"

section \<open>Events\<close>

definition emit_event :: "event \<Rightarrow> 'w pb_state \<Rightarrow> 'w pb_state" where
  "emit_event e s = s\<lparr>ps_log := ps_log s @ [e]\<rparr>"

definition mk_run :: "nat \<times> string \<times> pyval \<Rightarrow> nat \<Rightarrow> run_row" where
  "mk_run d i =
     (case d of (p, ts, act) \<Rightarrow>
        \<lparr>pr_id = i, pr_playbook = p, pr_event_ts = ts, pr_event_action = or_val (Some act) (PStr []), pr_status = Running, pr_log = [],
         pr_finished = None\<rparr>)"

text \<open>One matching playbook; steps that are no list, or an empty one, are passed over.\<close>

definition start_run ::
  "'w pb_env \<Rightarrow> 'w logger \<Rightarrow> event \<Rightarrow> playbook \<Rightarrow> 'w pb_state \<Rightarrow> 'w pb_state \<times> pyexn option" where
  "start_run env lg e p s =
     (case pb_steps p of
        Json (PList (v # vs)) \<Rightarrow>
          (case insert_row (mk_run (pb_id p, ev_ts e, ev_action e)) (ps_runs s) of
             (t, i) \<Rightarrow>
               (case execute_steps env lg i (v # vs) \<lparr>cx_run = i, cx_name = pb_name p, cx_event = Some e\<rparr> 0
                       (s\<lparr>ps_runs := t\<rparr>) of
                  (s1, Inl x) \<Rightarrow> (s1, Some x)
                | (s1, Inr _) \<Rightarrow> (s1, None)))
      | _ \<Rightarrow> (s, None))"

fun start_runs ::
  "'w pb_env \<Rightarrow> 'w logger \<Rightarrow> event \<Rightarrow> playbook list \<Rightarrow> 'w pb_state \<Rightarrow> 'w pb_state \<times> pyexn option" where
  "start_runs env lg e [] s = (s, None)"
| "start_runs env lg e (p # ps) s =
     (case start_run env lg e p s of
        (s1, Some x) \<Rightarrow> (s1, Some x)
      | (s1, None) \<Rightarrow> start_runs env lg e ps s1)"

text \<open>
  \<open>on_event\<close> with the thread's guard as an argument: while it is set nothing happens. The steps run with it
  set, and what they log comes back to this function.
\<close>

function (sequential) on_event :: "'w pb_env \<Rightarrow> bool \<Rightarrow> event \<Rightarrow> 'w pb_state \<Rightarrow> 'w pb_state \<times> pyexn option" where
  "on_event env True e s = (s, None)"
| "on_event env False e s =
     (case match_playbooks e (rows (ps_playbooks s)) of
        Inl x \<Rightarrow> (s, Some x)
      | Inr ps \<Rightarrow> start_runs env (\<lambda>e1 s1. fst (on_event env True e1 (emit_event e1 s1))) e ps s)"
  by pat_completeness auto
termination by (relation "measure (\<lambda>(env, active, e, s). if active then 0 else 1)") simp_all

definition log_event :: "'w pb_env \<Rightarrow> bool \<Rightarrow> event \<Rightarrow> 'w pb_state \<Rightarrow> 'w pb_state" where
  "log_event env active e s = fst (on_event env active e (emit_event e s))"

text \<open>So the events of the steps are written and start nothing.\<close>

lemma log_event_guarded: "log_event env True = emit_event"
  by (simp add: fun_eq_iff log_event_def)

lemma on_event_eq:
  "on_event env active e s =
     (if active then (s, None)
      else case match_playbooks e (rows (ps_playbooks s)) of
        Inl x \<Rightarrow> (s, Some x)
      | Inr ps \<Rightarrow> start_runs env emit_event e ps s)"
  by (cases active) (simp_all split: sum.split)

declare on_event.simps [simp del]

section \<open>Approval\<close>

datatype approve_result = Refused string | Resumed run_status

definition pending_index :: "step_entry list \<Rightarrow> nat option" where
  "pending_index log = find (\<lambda>i. le_status (log ! i) = StepAwaiting) [0..<length log]"

text \<open>\<open>len(steps)\<close> and \<open>steps[idx]\<close> from a position on; the UI stores lists only.\<close>

definition steps_from :: "nat \<Rightarrow> pyval \<Rightarrow> pyval list res" where
  "steps_from start v =
     (case v of
        PList vs \<Rightarrow> Inr vs
      | PStr t \<Rightarrow> Inr (map (\<lambda>c. PStr [c]) t)
      | PDict kvs \<Rightarrow> (if length kvs \<le> start then Inr [] else Inl (KeyError (str_nat start)))
      | _ \<Rightarrow> Inl (TypeError (''object of type '' @ apos @ type_name v @ apos @ '' has no len()'')))"

definition approve_entry :: "string \<Rightarrow> step_entry \<Rightarrow> step_entry" where
  "approve_entry who l = l\<lparr>le_status := StepApproved, le_approver := Some who\<rparr>"

definition run_with_playbook :: "nat \<Rightarrow> 'w pb_state \<Rightarrow> (run_row \<times> playbook) option" where
  "run_with_playbook i s =
     (case find_by pr_id i (rows (ps_runs s)) of
        None \<Rightarrow> None
      | Some r \<Rightarrow> map_option (Pair r) (find_by pb_id (pr_playbook r) (rows (ps_playbooks s))))"

definition run_status_text :: "run_status \<Rightarrow> string" where
  "run_status_text st = (case st of Running \<Rightarrow> ''running'' | Done \<Rightarrow> ''done'' | Awaiting \<Rightarrow> ''awaiting_approval'')"

definition approve_run :: "'w pb_env \<Rightarrow> nat \<Rightarrow> string \<Rightarrow> 'w pb_state \<Rightarrow> 'w pb_state \<times> approve_result res" where
  "approve_run env i who s =
     (case run_with_playbook i s of
        None \<Rightarrow> (s, Inr (Refused ''run not found''))
      | Some (r, p) \<Rightarrow>
          (if pr_status r \<noteq> Awaiting
           then (s, Inr (Refused (''run is '' @ run_status_text (pr_status r) @ '', not awaiting approval'')))
           else case pb_steps p of
             BadJson \<Rightarrow> (s, Inr (Refused ''corrupt playbook payload''))
           | Json v \<Rightarrow>
               (case pending_index (pr_log r) of
                  None \<Rightarrow> (s, Inr (Refused ''no pending step found''))
                | Some k \<Rightarrow>
                    (let log = (pr_log r)[k := approve_entry who (pr_log r ! k)];
                         s1 = set_run i (\<lambda>x. x\<lparr>pr_status := Running, pr_log := log\<rparr>) s
                     in case steps_from (Suc k) v of
                          Inl e \<Rightarrow> (s1, Inl e)
                        | Inr steps \<Rightarrow>
                            (case execute_steps env (log_event env False) i steps
                                    \<lparr>cx_run = i, cx_name = pb_name p, cx_event = None\<rparr> (Suc k) s1 of
                               (s2, Inl e) \<Rightarrow> (s2, Inl e)
                             | (s2, Inr st) \<Rightarrow> (s2, Inr (Resumed st)))))))"

section \<open>Managing playbooks\<close>

text \<open>The payload of the playbooks page; \<open>loads\<close> is \<open>json.loads\<close> on a text given for the steps.\<close>

record pb_payload =
  up_id :: "string option"
  up_name :: "string option"
  up_description :: "string option"
  up_enabled :: "bool option"
  up_action :: "string option"
  up_category :: "string option"
  up_min_sev :: "string option"
  up_steps :: pyval
  up_created_by :: "string option"

definition payload_steps :: "(string \<Rightarrow> pyval option) \<Rightarrow> pyval \<Rightarrow> string + pyval list" where
  "payload_steps loads v =
     (let parsed = (if \<not> py_bool_of v then Some (PList [])
                    else case v of PStr t \<Rightarrow> loads t | _ \<Rightarrow> Some v)
      in case parsed of
           None \<Rightarrow> Inl ''steps must be valid JSON''
         | Some (PList vs) \<Rightarrow> Inr vs
         | Some _ \<Rightarrow> Inl ''steps must be a list'')"

definition set_fields :: "pb_payload \<Rightarrow> string \<Rightarrow> pyval list \<Rightarrow> playbook \<Rightarrow> playbook" where
  "set_fields u name steps p =
     p\<lparr>pb_name := name, pb_description := take 1000 (or_str (up_description u) []),
       pb_enabled := (case up_enabled u of None \<Rightarrow> True | Some b \<Rightarrow> b),
       pb_action := strip (or_str (up_action u) ''correlation_match''),
       pb_category := Some (strip (or_str (up_category u) ''security'')),
       pb_min_sev := Some (lower (strip (or_str (up_min_sev u) ''medium''))),
       pb_steps := Json (PList steps)\<rparr>"

definition mk_playbook :: "pb_payload \<times> string \<times> pyval list \<Rightarrow> nat \<Rightarrow> playbook" where
  "mk_playbook d i =
     (case d of (u, name, steps) \<Rightarrow>
        set_fields u name steps
          \<lparr>pb_id = i, pb_name = [], pb_description = [], pb_enabled = True, pb_action = [], pb_category = None,
           pb_min_sev = None, pb_steps = Json (PList []), pb_created_by = or_str (up_created_by u) ''admin''\<rparr>)"

definition upsert_playbook ::
  "(string \<Rightarrow> pyval option) \<Rightarrow> pb_payload \<Rightarrow> 'w pb_state \<Rightarrow> 'w pb_state \<times> (string + unit) res" where
  "upsert_playbook loads u s =
     (let name = strip (or_str (up_name u) []) in
      if name = [] then (s, Inr (Inl ''name is required''))
      else case payload_steps loads (up_steps u) of
        Inl m \<Rightarrow> (s, Inr (Inl m))
      | Inr steps \<Rightarrow>
          (case or_str (up_id u) [] of
             [] \<Rightarrow> (s\<lparr>ps_playbooks := fst (insert_row (mk_playbook (u, name, steps)) (ps_playbooks s))\<rparr>, Inr (Inr ()))
           | c # cs \<Rightarrow>
               (case py_int (c # cs) of
                  None \<Rightarrow> (s, Inl (ValueError (''invalid literal for int() with base 10: '' @ py_repr (c # cs))))
                | Some n \<Rightarrow>
                    (s\<lparr>ps_playbooks := update_rows (\<lambda>p. int (pb_id p) = n) (set_fields u name steps) (ps_playbooks s)\<rparr>,
                     Inr (Inr ())))))"

text \<open>The foreign key of \<open>playbook_runs\<close> cascades.\<close>

definition delete_playbook :: "int \<Rightarrow> 'w pb_state \<Rightarrow> 'w pb_state" where
  "delete_playbook n s =
     s\<lparr>ps_playbooks := delete_rows (\<lambda>p. int (pb_id p) = n) (ps_playbooks s),
       ps_runs := delete_rows (\<lambda>r. int (pr_playbook r) = n) (ps_runs s)\<rparr>"

definition list_playbooks :: "'w pb_state \<Rightarrow> (playbook \<times> pyval) list" where
  "list_playbooks s =
     map (\<lambda>p. (p, case pb_steps p of BadJson \<Rightarrow> PList [] | Json v \<Rightarrow> v)) (sort_key pb_name (rows (ps_playbooks s)))"

definition list_runs :: "int \<Rightarrow> 'w pb_state \<Rightarrow> (run_row \<times> string option) list" where
  "list_runs limit s =
     sql_limit (if limit = 0 then 50 else limit)
       (map (\<lambda>r. (r, map_option pb_name (find_by pb_id (pr_playbook r) (rows (ps_playbooks s)))))
          (rev (sort_key pr_id (rows (ps_runs s)))))"

section \<open>Runs that agree with their log\<close>

interpretation playbook_table: pk_table pb_id mk_playbook
  by unfold_locales (auto simp: mk_playbook_def set_fields_def)

interpretation run_table: pk_table pr_id mk_run
  by unfold_locales (auto simp: mk_run_def)

interpretation case_table: pk_table cs_id mk_case
  by unfold_locales (auto simp: mk_case_def)

text \<open>
  The entry at a position belongs to the step of that position, only the last entry may wait for
  approval, and it does exactly when the run waits.
\<close>

definition log_ok :: "run_status \<Rightarrow> step_entry list \<Rightarrow> bool" where
  "log_ok st log \<longleftrightarrow>
     map le_index log = [0..<length log]
     \<and> (\<forall>l \<in> set (butlast log). le_status l \<noteq> StepAwaiting)
     \<and> (st = Awaiting \<longleftrightarrow> log \<noteq> [] \<and> le_status (last log) = StepAwaiting)"

definition runs_ok :: "'w pb_state \<Rightarrow> bool" where
  "runs_ok s \<longleftrightarrow> run_table.pk_ok (ps_runs s) \<and> (\<forall>r \<in> set (rows (ps_runs s)). log_ok (pr_status r) (pr_log r))"

text \<open>A step of the engine that leaves the runs there were alone.\<close>

definition extends :: "'w pb_state \<Rightarrow> 'w pb_state \<Rightarrow> bool" where
  "extends s s' \<longleftrightarrow>
     runs_ok s' \<and> ps_playbooks s' = ps_playbooks s \<and> seq (ps_runs s) \<le> seq (ps_runs s')
     \<and> (\<forall>i \<le> seq (ps_runs s). find_by pr_id i (rows (ps_runs s')) = find_by pr_id i (rows (ps_runs s)))"

lemma extends_refl: "runs_ok s \<Longrightarrow> extends s s"
  by (simp add: extends_def)

lemma extends_trans: "extends s t \<Longrightarrow> extends t u \<Longrightarrow> extends s u"
  by (auto simp: extends_def)

lemma extends_ok: "extends s t \<Longrightarrow> runs_ok t"
  by (simp add: extends_def)

lemma extends_same:
  "ps_runs s' = ps_runs s \<Longrightarrow> ps_playbooks s' = ps_playbooks s \<Longrightarrow> runs_ok s \<Longrightarrow> extends s s'"
  by (simp add: extends_def runs_ok_def)

lemma set_run_simps [simp]:
  "ps_playbooks (set_run i f s) = ps_playbooks s" "ps_cases (set_run i f s) = ps_cases s"
  "ps_log (set_run i f s) = ps_log s" "ps_world (set_run i f s) = ps_world s" "ps_audit (set_run i f s) = ps_audit s"
  "rows (ps_runs (set_run i f s)) = update_where (\<lambda>r. pr_id r = i) f (rows (ps_runs s))"
  "seq (ps_runs (set_run i f s)) = seq (ps_runs s)"
  by (simp_all add: set_run_def)

text \<open>A set of entries without a waiting one, continued by one entry.\<close>

lemma log_ok_snoc:
  assumes "log_ok Running log" "le_index l = length log"
  shows "log_ok (if le_status l = StepAwaiting then Awaiting else Running) (log @ [l])"
    "le_status l \<noteq> StepAwaiting \<Longrightarrow> log_ok Done (log @ [l])"
proof -
  have "\<forall>x \<in> set log. le_status x \<noteq> StepAwaiting"
  proof (cases log rule: rev_cases)
    case (snoc ys y)
    then show ?thesis using assms(1) by (auto simp: log_ok_def)
  qed simp
  then show "log_ok (if le_status l = StepAwaiting then Awaiting else Running) (log @ [l])"
    "le_status l \<noteq> StepAwaiting \<Longrightarrow> log_ok Done (log @ [l])"
    using assms by (simp_all add: log_ok_def)
qed

lemma log_ok_status: "st \<noteq> Awaiting \<Longrightarrow> st' \<noteq> Awaiting \<Longrightarrow> log_ok st log \<longleftrightarrow> log_ok st' log"
  by (auto simp: log_ok_def)

lemma entry_simps [simp]:
  "le_index (entry i ty st m) = i" "le_status (entry i ty st m) = st"
  "le_index (step_entry_of i ty r) = i" "le_status (step_entry_of i ty r) \<noteq> StepAwaiting"
  by (auto simp: entry_def step_entry_of_def split: sum.splits)
section \<open>The engine with any logger that leaves the runs alone\<close>

locale event_logger =
  fixes lg :: "event \<Rightarrow> 'w pb_state \<Rightarrow> 'w pb_state"
  assumes lg_extends: "runs_ok s \<Longrightarrow> extends s (lg e s)"
begin

lemma handler_extends:
  assumes "step_handler env lg ty = Some h" "runs_ok s"
  shows "extends s (fst (h args cx s))"
proof -
  have "extends s (fst (step_log env lg args cx s))"
    using assms(2) by (auto simp: step_log_def lg_extends extends_refl split: sum.splits)
  moreover have "extends s (fst (step_open_case args cx s))"
    using assms(2)
    by (auto simp: step_open_case_def extends_refl intro: extends_same split: sum.splits prod.splits)
  moreover have "extends s (fst (step_block_ip env args cx s))"
    using assms(2)
    by (auto simp: step_block_ip_def extends_refl intro: extends_same split: sum.splits prod.splits)
  moreover have "extends s (fst (step_notify env lg args cx s))"
    using assms(2) by (auto simp: step_notify_def lg_extends extends_refl split: sum.splits prod.splits)
  ultimately show ?thesis using assms(1) by (auto simp: step_handler_def split: if_splits)
qed

lemma run_steps_keeps:
  assumes "run_steps env lg cx idx steps log s = (s1, r)" "runs_ok s" "log_ok Running log" "length log = idx"
  shows "extends s s1 \<and> (case r of Inl e \<Rightarrow> True | Inr (st, log') \<Rightarrow> st \<noteq> Running \<and> log_ok st log')"
  using assms
proof (induction steps arbitrary: idx log s)
  case Nil
  then show ?case using log_ok_status[of Running Done log] by (auto simp: extends_refl)
next
  case (Cons step rest)
  have next_log: "log_ok Running (log @ [l])" if "le_status l \<noteq> StepAwaiting" "le_index l = idx" for l
    using log_ok_snoc(1)[OF Cons.prems(3), of l] that Cons.prems(4) by simp
  show ?case
  proof (cases "step_type step")
    case (Inl e)
    then show ?thesis using Cons.prems by (auto simp: extends_refl)
  next
    case ty: (Inr ty)
    show ?thesis
    proof (cases "needs_approval step")
      case True
      moreover have "log_ok Awaiting (log @ [entry idx ty StepAwaiting None])"
        using log_ok_snoc(1)[OF Cons.prems(3), of "entry idx ty StepAwaiting None"] Cons.prems(4) by simp
      ultimately show ?thesis using Cons.prems ty by (auto simp: extends_refl)
    next
      case False
      show ?thesis
      proof (cases "step_handler env lg ty")
        case None
        then show ?thesis
          using Cons.IH[of "Suc idx" "log @ [entry idx ty StepSkipped (Some ''unknown step type'')]" s]
            Cons.prems ty False next_log by simp
      next
        case (Some h)
        obtain s2 x where h: "h (step_args step) cx s = (s2, x)" by fastforce
        have "extends s s2" using handler_extends[OF Some Cons.prems(2), of "step_args step" cx] h by simp
        moreover have "run_steps env lg cx (Suc idx) rest (log @ [step_entry_of idx ty x]) s2 = (s1, r)"
          using Cons.prems(1) ty False Some h by simp
        ultimately show ?thesis
          using Cons.IH[of "Suc idx" "log @ [step_entry_of idx ty x]" s2] next_log Cons.prems(4)
          by (auto dest: extends_ok intro: extends_trans)
      qed
    qed
  qed
qed

text \<open>Executing a run touches that run only.\<close>

lemma execute_keeps:
  assumes "execute_steps env lg i steps cx start s = (s1, r)" "runs_ok s"
    and "find_by pr_id i (rows (ps_runs s)) = Some row" "pr_status row = Running" "length (pr_log row) = start"
  shows "runs_ok s1 \<and> ps_playbooks s1 = ps_playbooks s \<and> seq (ps_runs s) \<le> seq (ps_runs s1)
    \<and> (\<forall>j \<le> seq (ps_runs s). j \<noteq> i \<longrightarrow> find_by pr_id j (rows (ps_runs s1)) = find_by pr_id j (rows (ps_runs s)))
    \<and> (\<exists>row1. find_by pr_id i (rows (ps_runs s1)) = Some row1
         \<and> (case r of Inl e \<Rightarrow> row1 = row | Inr st \<Rightarrow> pr_status row1 = st \<and> st \<noteq> Running))"
proof -
  obtain s2 x where run: "run_steps env lg cx start (drop start steps) (pr_log row) s = (s2, x)" by fastforce
  have "row \<in> set (rows (ps_runs s))" using find_by_SomeD[OF assms(3)] by simp
  then have log: "log_ok Running (pr_log row)" using assms(2,4) by (auto simp: runs_ok_def)
  have keep: "extends s s2" "case x of Inl e \<Rightarrow> True | Inr (st, log') \<Rightarrow> st \<noteq> Running \<and> log_ok st log'"
    using run_steps_keeps[OF run assms(2) log assms(5)] by auto
  have i: "i \<le> seq (ps_runs s)" using run_table.find_le_seq assms(2,3) by (auto simp: runs_ok_def)
  then have row2: "find_by pr_id i (rows (ps_runs s2)) = Some row" using keep(1) assms(3) by (simp add: extends_def)
  show ?thesis
  proof (cases x)
    case (Inl e)
    then have "s1 = s2" "r = Inl e" using assms(1,3) run by (simp_all add: execute_steps_def stored_log_def)
    then show ?thesis using keep(1) row2 by (auto simp: extends_def)
  next
    case (Inr y)
    obtain st log where y: "y = (st, log)" by fastforce
    have s1: "s1 = set_run i (finish_run env st log) s2" "r = Inr st"
      using assms(1,3) run Inr y by (simp_all add: execute_steps_def stored_log_def)
    have fr: "pr_id (finish_run env st log z) = pr_id z" for z by (simp add: finish_run_def)
    have "runs_ok s1"
      using keep Inr y run_table.pk_ok_update[of "ps_runs s2" "finish_run env st log"] fr
      by (auto simp: s1 runs_ok_def set_run_def extends_def finish_run_def elim!: update_whereE)
    moreover have "find_by pr_id j (rows (ps_runs s1)) = find_by pr_id j (rows (ps_runs s2))" if "j \<noteq> i" for j
      unfolding s1 set_run_simps using that fr by (intro find_by_update_other) auto
    moreover have "find_by pr_id i (rows (ps_runs s1)) = Some (finish_run env st log row)"
      unfolding s1 set_run_simps using find_by_update[of pr_id "finish_run env st log" i] fr row2 by simp
    moreover have "st \<noteq> Running" using keep(2) Inr y by simp
    ultimately show ?thesis
      using keep(1) by (simp add: s1 extends_def finish_run_def)
  qed
qed

lemma start_run_extends:
  assumes "runs_ok s"
  shows "extends s (fst (start_run env lg e p s)) \<and> seq (ps_runs (fst (start_run env lg e p s))) \<ge> seq (ps_runs s)"
proof (cases "\<exists>v vs. pb_steps p = Json (PList (v # vs))")
  case False
  then have "start_run env lg e p s = (s, None)"
    by (auto simp: start_run_def split: json_doc.splits pyval.splits list.splits)
  then show ?thesis using assms by (simp add: extends_refl)
next
  case True
  then obtain v vs where st: "pb_steps p = Json (PList (v # vs))" by blast
  define i where "i = Suc (seq (ps_runs s))"
  define d where "d = (pb_id p, ev_ts e, ev_action e)"
  define s0 where "s0 = s\<lparr>ps_runs := fst (insert_row (mk_run d) (ps_runs s))\<rparr>"
  have pk: "run_table.pk_ok (ps_runs s)" using assms by (simp add: runs_ok_def)
  have rows0: "rows (ps_runs s0) = rows (ps_runs s) @ [mk_run d i]" "seq (ps_runs s0) = i"
    by (simp_all add: s0_def i_def)
  have ok0: "runs_ok s0"
    using assms run_table.pk_ok_insert[OF pk, of d]
    by (auto simp: runs_ok_def rows0 s0_def mk_run_def log_ok_def d_def split: prod.splits)
  have find0: "find_by pr_id i (rows (ps_runs s0)) = Some (mk_run d i)"
    using run_table.find_insert[OF pk, of d] by (simp add: s0_def i_def)
  have old: "find_by pr_id j (rows (ps_runs s0)) = find_by pr_id j (rows (ps_runs s))" if "j \<le> seq (ps_runs s)" for j
    using that run_table.find_insert_other[of j "ps_runs s" d] by (simp add: s0_def)
  obtain s1 r where ex: "execute_steps env lg i (v # vs) \<lparr>cx_run = i, cx_name = pb_name p, cx_event = Some e\<rparr> 0 s0 = (s1, r)"
    by fastforce
  have "start_run env lg e p s = (s1, case r of Inl x \<Rightarrow> Some x | Inr _ \<Rightarrow> None)"
    using st ex by (simp add: start_run_def insert_row_def Let_def s0_def i_def d_def split: sum.splits)
  moreover have "runs_ok s1 \<and> ps_playbooks s1 = ps_playbooks s0 \<and> i \<le> seq (ps_runs s1)
      \<and> (\<forall>j \<le> i. j \<noteq> i \<longrightarrow> find_by pr_id j (rows (ps_runs s1)) = find_by pr_id j (rows (ps_runs s0)))"
    using execute_keeps[OF ex ok0 find0] by (simp add: rows0 mk_run_def d_def)
  ultimately show ?thesis
    using old by (auto simp: extends_def s0_def i_def)
qed

lemma start_runs_extends: "runs_ok s \<Longrightarrow> extends s (fst (start_runs env lg e ps s))"
proof (induction ps arbitrary: s)
  case (Cons p ps)
  obtain s1 x where p: "start_run env lg e p s = (s1, x)" by fastforce
  have e: "extends s s1" using start_run_extends[OF Cons.prems, of env e p] p by simp
  with Cons.IH[OF extends_ok[OF e]] show ?case by (auto simp: p intro: extends_trans split: option.split)
qed (simp add: extends_refl)

end

text \<open>Both loggers of the program are such loggers.\<close>

interpretation plain_log: event_logger emit_event
  by unfold_locales (rule extends_same, simp_all add: emit_event_def)

lemma emit_extends: "runs_ok s \<Longrightarrow> extends s (emit_event e s)"
  by (rule plain_log.lg_extends)

lemma log_event_extends: "runs_ok s \<Longrightarrow> extends s (log_event env active e s)"
  using extends_trans[OF emit_extends plain_log.start_runs_extends[OF extends_ok[OF emit_extends]]]
  by (auto simp: log_event_def on_event_eq emit_extends split: sum.split)

interpretation dispatching_log: event_logger "log_event env False" for env
  by unfold_locales (rule log_event_extends)
section \<open>Every run the program can reach\<close>

text \<open>What happens to the tables: an event, an approval, and the two operations of the page.\<close>

inductive playbook_step :: "'w pb_env \<Rightarrow> 'w pb_state \<Rightarrow> 'w pb_state \<Rightarrow> bool" for env where
  event: "playbook_step env s (log_event env False e s)"
| approve: "playbook_step env s (fst (approve_run env i who s))"
| save: "playbook_step env s (fst (upsert_playbook loads u s))"
| remove: "playbook_step env s (delete_playbook n s)"

inductive_cases playbook_stepE: "playbook_step env s s'"

inductive playbook_reachable :: "'w pb_env \<Rightarrow> 'w pb_state \<Rightarrow> bool" for env where
  start: "ps_runs s = empty_table \<Longrightarrow> playbook_reachable env s"
| step: "playbook_reachable env s \<Longrightarrow> playbook_step env s s' \<Longrightarrow> playbook_reachable env s'"

lemma find_append: "find P (xs @ ys) = (case find P xs of None \<Rightarrow> find P ys | Some x \<Rightarrow> Some x)"
  by (induction xs) auto

lemma pending_of_ok:
  assumes "log_ok st log"
  shows "pending_index log = (if st = Awaiting then Some (length log - 1) else None)"
proof (cases log rule: rev_cases)
  case Nil
  then show ?thesis using assms by (auto simp: log_ok_def pending_index_def)
next
  case (snoc ys y)
  have "find (\<lambda>i. le_status ((ys @ [y]) ! i) = StepAwaiting) [0..<length ys] = None"
    using assms snoc by (auto simp: find_None_iff nth_append log_ok_def)
  then have "find (\<lambda>i. le_status ((ys @ [y]) ! i) = StepAwaiting) ([0..<length ys] @ [length ys])
      = (if le_status y = StepAwaiting then Some (length ys) else None)"
    by (auto simp: find_append split: option.split)
  then show ?thesis using assms snoc by (auto simp: pending_index_def log_ok_def)
qed

text \<open>The log with its last entry approved.\<close>

lemma approved_log_ok:
  assumes "log_ok Awaiting log" "k = length log - 1"
  shows "log_ok Running (log[k := approve_entry who (log ! k)])"
proof -
  obtain ys y where log: "log = ys @ [y]"
    using assms(1) by (cases log rule: rev_cases) (auto simp: log_ok_def)
  have "log ! k = y" "log[k := z] = ys @ [z]" for z by (simp_all add: log assms(2))
  then show ?thesis using assms(1) by (auto simp: log log_ok_def approve_entry_def)
qed

lemma approve_keeps:
  assumes "runs_ok s"
  shows "runs_ok (fst (approve_run env i who s))"
proof (cases "run_with_playbook i s")
  case None
  then show ?thesis using assms by (simp add: approve_run_def)
next
  case (Some rp)
  obtain r p where rp: "run_with_playbook i s = Some (r, p)" using Some by (cases rp) auto
  then have find: "find_by pr_id i (rows (ps_runs s)) = Some r"
    by (auto simp: run_with_playbook_def split: option.splits)
  then have log: "log_ok (pr_status r) (pr_log r)"
    using assms by (auto simp: runs_ok_def dest: find_by_SomeD)
  define k where "k = length (pr_log r) - 1"
  define f where "f = (\<lambda>x :: run_row. x\<lparr>pr_status := Running, pr_log := (pr_log r)[k := approve_entry who (pr_log r ! k)]\<rparr>)"
  show ?thesis
  proof (cases "pr_status r = Awaiting \<and> (\<exists>v. pb_steps p = Json v)")
    case False
    then show ?thesis using assms rp
      by (auto simp: approve_run_def split: json_doc.split)
  next
    case True
    then obtain v where v: "pr_status r = Awaiting" "pb_steps p = Json v" by blast
    have pend: "pending_index (pr_log r) = Some k" using pending_of_ok[OF log] v by (simp add: k_def)
    have fid: "pr_id (f x) = pr_id x" for x by (simp add: f_def)
    have okf: "log_ok Running (pr_log (f x))" for x
      using approved_log_ok[of "pr_log r" k who] log v by (simp add: f_def k_def)
    have ok1: "runs_ok (set_run i f s)"
      using assms okf run_table.pk_ok_update[of "ps_runs s" f] fid
      by (auto simp: runs_ok_def set_run_def f_def elim!: update_whereE)
    have find1: "find_by pr_id i (rows (ps_runs (set_run i f s))) = Some (f r)"
      using find_by_update[of pr_id f i] fid find by simp
    have len: "length (pr_log (f r)) = Suc k"
      using log v by (auto simp: f_def k_def log_ok_def)
    have eq: "approve_run env i who s =
       (case steps_from (Suc k) v of
          Inl e \<Rightarrow> (set_run i f s, Inl e)
        | Inr steps \<Rightarrow>
            (case execute_steps env (log_event env False) i steps
                    \<lparr>cx_run = i, cx_name = pb_name p, cx_event = None\<rparr> (Suc k) (set_run i f s) of
               (s2, Inl e) \<Rightarrow> (s2, Inl e)
             | (s2, Inr st) \<Rightarrow> (s2, Inr (Resumed st))))"
      unfolding f_def by (simp add: approve_run_def rp v pend Let_def)
    show ?thesis
    proof (cases "steps_from (Suc k) v")
      case (Inl e)
      then show ?thesis using ok1 by (simp add: eq)
    next
      case (Inr steps)
      obtain s2 x where ex: "execute_steps env (log_event env False) i steps
            \<lparr>cx_run = i, cx_name = pb_name p, cx_event = None\<rparr> (Suc k) (set_run i f s) = (s2, x)" by fastforce
      have "runs_ok s2" using dispatching_log.execute_keeps[OF ex ok1 find1] len by (simp add: f_def)
      then show ?thesis using Inr ex by (simp add: eq split: sum.split)
    qed
  qed
qed

lemma playbook_step_ok: "playbook_step env s s' \<Longrightarrow> runs_ok s \<Longrightarrow> runs_ok s'"
proof (induction rule: playbook_step.induct)
  case (event s e)
  then show ?case using log_event_extends extends_ok by blast
next
  case (approve s i who)
  then show ?case by (rule approve_keeps)
next
  case (save s loads u)
  then show ?case
    by (auto simp: upsert_playbook_def runs_ok_def Let_def split: sum.split list.split option.split)
next
  case (remove s n)
  then show ?case by (auto simp: delete_playbook_def runs_ok_def run_table.pk_ok_delete)
qed

lemma reachable_runs_ok: "playbook_reachable env s \<Longrightarrow> runs_ok s"
proof (induction rule: playbook_reachable.induct)
  case (start s)
  then show ?case by (simp add: runs_ok_def run_table.pk_ok_empty)
next
  case (step s s')
  then show ?case by (blast intro: playbook_step_ok)
qed

text \<open>
  C24: In every state the engine can reach, the log of a run has one entry per step it has passed,
  in the order of the steps, a run waits for approval exactly when the last entry of its log does, and
  no earlier entry waits.  So \<open>approve_run\<close> never answers that there is no pending step, and the step
  it takes as the pending one is the last of the log.
\<close>

theorem run_log_invariant:
  assumes "playbook_reachable env s" "find_by pr_id i (rows (ps_runs s)) = Some r"
  shows "map le_index (pr_log r) = [0..<length (pr_log r)]
    \<and> pending_index (pr_log r) = (if pr_status r = Awaiting then Some (length (pr_log r) - 1) else None)
    \<and> snd (approve_run env i who s) \<noteq> Inr (Refused ''no pending step found'')"
proof -
  have log: "log_ok (pr_status r) (pr_log r)"
    using reachable_runs_ok[OF assms(1)] assms(2) by (auto simp: runs_ok_def dest: find_by_SomeD)
  note pend = pending_of_ok[OF log]
  have "r' = r" if "run_with_playbook i s = Some (r', p)" for r' p
    using that assms(2) by (auto simp: run_with_playbook_def split: option.splits)
  then have "snd (approve_run env i who s) \<noteq> Inr (Refused ''no pending step found'')"
    using pend by (auto simp: approve_run_def Let_def run_status_text_def
        split: option.splits json_doc.splits sum.splits prod.splits run_status.splits)
  then show ?thesis using log pend by (simp add: log_ok_def)
qed
section \<open>Approval gates\<close>

lemma run_steps_append:
  "run_steps env lg cx idx (xs @ ys) log s =
     (case run_steps env lg cx idx xs log s of
        (s1, Inr (Done, log1)) \<Rightarrow> run_steps env lg cx (idx + length xs) ys log1 s1
      | res \<Rightarrow> res)"
proof (induction xs arbitrary: idx log s)
  case (Cons x xs)
  show ?case
    by (auto simp: Cons.IH split: sum.split option.split prod.split run_status.split)
qed simp

lemma run_steps_no_gate:
  "\<forall>v \<in> set xs. \<not> needs_approval v \<Longrightarrow> run_steps env lg cx idx xs log s = (s1, Inr (st, log1)) \<Longrightarrow> st = Done"
  by (induction xs arbitrary: idx log s) (auto split: sum.splits option.splits prod.splits)

text \<open>
  C25: A step that needs approval stops the run.  Whatever follows it in the list, what an execution
  does to the firewall, the audit log, the cases and the event log is what the steps before it do,
  and the run waits unless one of those raised.
\<close>

theorem gate_stops_run:
  assumes "\<forall>v \<in> set pre. \<not> needs_approval v" "needs_approval gate" "step_type gate = Inr ty"
  shows "ps_world (fst (execute_steps env lg i (pre @ gate # post) cx 0 s)) = ps_world (fst (execute_steps env lg i pre cx 0 s))
    \<and> ps_audit (fst (execute_steps env lg i (pre @ gate # post) cx 0 s)) = ps_audit (fst (execute_steps env lg i pre cx 0 s))
    \<and> ps_cases (fst (execute_steps env lg i (pre @ gate # post) cx 0 s)) = ps_cases (fst (execute_steps env lg i pre cx 0 s))
    \<and> ps_log (fst (execute_steps env lg i (pre @ gate # post) cx 0 s)) = ps_log (fst (execute_steps env lg i pre cx 0 s))
    \<and> (snd (execute_steps env lg i (pre @ gate # post) cx 0 s) = Inr Awaiting
       \<or> (\<exists>x. snd (execute_steps env lg i pre cx 0 s) = Inl x))"
proof -
  obtain s1 r where pre: "run_steps env lg cx 0 pre (stored_log i s) s = (s1, r)" by fastforce
  show ?thesis
  proof (cases r)
    case (Inl x)
    then show ?thesis using pre by (simp add: execute_steps_def run_steps_append)
  next
    case (Inr y)
    obtain st log where y: "y = (st, log)" by fastforce
    have "st = Done" using run_steps_no_gate[OF assms(1)] pre Inr y by simp
    then show ?thesis using pre Inr y assms(2,3) by (simp add: execute_steps_def run_steps_append)
  qed
qed

text \<open>A \<open>block_ip\<close> step that takes the address of the event.\<close>

definition blocks_source :: "pyval \<Rightarrow> bool" where
  "blocks_source v \<longleftrightarrow> step_type v = Inr ''block_ip'' \<and> \<not> needs_approval v \<and> get_attr (step_args v) ''ip'' = Inr None"

lemma run_blocks_source:
  assumes "\<forall>v \<in> set vs. blocks_source v" "cx_event cx = None"
  shows "\<exists>log'. run_steps env lg cx idx vs log s = (s, Inr (Done, log'))"
  using assms(1)
proof (induction vs arbitrary: idx log)
  case (Cons v vs)
  then have v: "blocks_source v" by simp
  have "step_block_ip env (step_args v) cx s = (s, Inr (False, ''no IP available to block''))"
    using v assms(2) by (simp add: step_block_ip_def block_address_def blocks_source_def or_val_def)
  then show ?case using v Cons by (simp add: blocks_source_def step_handler_def)
qed simp

text \<open>
  An approved step is not carried out.  Let the only matching playbook ask for approval in its
  first step, whatever that step is, and then block the source of the event.  The event leaves the run
  waiting; the approval marks the first step approved, goes on behind it, and the steps behind it have
  lost the event.  The run is reported as done, and no command was run, no case opened.
\<close>

theorem approval_carries_out_nothing:
  assumes "runs_ok s" "match_playbooks e (rows (ps_playbooks s)) = Inr [p]"
    and "find_by pb_id (pb_id p) (rows (ps_playbooks s)) = Some p"
    and "pb_steps p = Json (PList (gate # rest))" "needs_approval gate" "step_type gate = Inr ty"
    and "\<forall>v \<in> set rest. blocks_source v"
  shows "\<exists>s2. approve_run env (Suc (seq (ps_runs s))) who (log_event env False e s) = (s2, Inr (Resumed Done))
    \<and> ps_world s2 = ps_world s \<and> ps_audit s2 = ps_audit s \<and> ps_cases s2 = ps_cases s"
proof -
  define i where "i = Suc (seq (ps_runs s))"
  define d where "d = (pb_id p, ev_ts e, ev_action e)"
  define s0 where "s0 = (emit_event e s)\<lparr>ps_runs := fst (insert_row (mk_run d) (ps_runs s))\<rparr>"
  define fin where "fin = finish_run env Awaiting [entry 0 ty StepAwaiting None]"
  define s1 where "s1 = set_run i fin s0"
  have pk: "run_table.pk_ok (ps_runs s)" using assms(1) by (simp add: runs_ok_def)
  have find0: "find_by pr_id i (rows (ps_runs s0)) = Some (mk_run d i)"
    using run_table.find_insert[OF pk, of d] by (simp add: s0_def i_def)
  have log0: "stored_log i s0 = []" using find0 by (simp add: stored_log_def mk_run_def d_def)
  have "execute_steps env emit_event i (gate # rest) cx 0 s0 = (s1, Inr Awaiting)" for cx
    using assms(5,6) log0 by (simp add: execute_steps_def s1_def fin_def)
  then have "start_run env emit_event e p (emit_event e s) = (s1, None)"
    using assms(4) by (simp add: start_run_def insert_row_def Let_def s0_def i_def d_def emit_event_def)
  then have ev: "log_event env False e s = s1"
    using assms(2) by (simp add: log_event_def on_event_eq emit_event_def)
  have fid: "pr_id (fin r) = pr_id r" for r by (simp add: fin_def finish_run_def)
  have find1: "find_by pr_id i (rows (ps_runs s1)) = Some (fin (mk_run d i))"
    unfolding s1_def set_run_simps using find_by_update[of pr_id fin i] fid find0 by simp
  have same: "ps_playbooks s1 = ps_playbooks s" "ps_world s1 = ps_world s" "ps_audit s1 = ps_audit s" "ps_cases s1 = ps_cases s"
    by (simp_all add: s1_def s0_def emit_event_def)
  have rp: "run_with_playbook i s1 = Some (fin (mk_run d i), p)"
    using find1 assms(3) by (simp add: run_with_playbook_def same fin_def finish_run_def mk_run_def d_def)
  have pend: "pending_index (pr_log (fin (mk_run d i))) = Some 0"
    by (simp add: fin_def finish_run_def pending_index_def upt_rec)
  define cx where "cx = \<lparr>cx_run = i, cx_name = pb_name p, cx_event = None\<rparr>"
  define g where "g = (\<lambda>x :: run_row. x\<lparr>pr_status := Running,
      pr_log := (pr_log (fin (mk_run d i)))[0 := approve_entry who (pr_log (fin (mk_run d i)) ! 0)]\<rparr>)"
  have "\<exists>log'. run_steps env (log_event env False) cx (Suc 0) rest (stored_log i (set_run i g s1)) (set_run i g s1)
      = (set_run i g s1, Inr (Done, log'))"
    by (rule run_blocks_source[OF assms(7)]) (simp add: cx_def)
  then obtain log' where run: "run_steps env (log_event env False) cx (Suc 0) rest (stored_log i (set_run i g s1)) (set_run i g s1)
      = (set_run i g s1, Inr (Done, log'))" by blast
  then have ex: "execute_steps env (log_event env False) i (gate # rest) cx (Suc 0) (set_run i g s1)
      = (set_run i (finish_run env Done log') (set_run i g s1), Inr Done)"
    by (simp add: execute_steps_def)
  have aw: "pr_status (fin (mk_run d i)) = Awaiting" by (simp add: fin_def finish_run_def)
  have "approve_run env i who s1 = (set_run i (finish_run env Done log') (set_run i g s1), Inr (Resumed Done))"
    unfolding approve_run_def rp using ex assms(4)
    by (simp add: aw pend steps_from_def flip: g_def cx_def)
  then show ?thesis by (simp add: ev same flip: i_def)
qed

section \<open>Which runs an event starts\<close>

lemma emit_handler_runs:
  "step_handler env emit_event ty = Some h \<Longrightarrow> ps_runs (fst (h a cx s)) = ps_runs s"
  by (auto simp: step_handler_def step_log_def step_open_case_def step_block_ip_def step_notify_def
      emit_event_def split: if_splits sum.splits prod.splits)

lemma emit_run_steps_runs: "ps_runs (fst (run_steps env emit_event cx idx vs log s)) = ps_runs s"
proof (induction vs arbitrary: idx log s)
  case (Cons v vs)
  show ?case
  proof (cases "step_type v")
    case (Inr ty)
    show ?thesis
    proof (cases "step_handler env emit_event ty")
      case (Some h)
      obtain s1 r where h: "h (step_args v) cx s = (s1, r)" by fastforce
      then have "ps_runs s1 = ps_runs s" using emit_handler_runs[OF Some, of "step_args v" cx s] by simp
      then show ?thesis using Inr Some h Cons.IH by simp
    qed (use Inr Cons.IH in simp)
  qed simp
qed simp

text \<open>The playbook and the event a run was started for.\<close>

definition origin :: "run_row \<Rightarrow> nat \<times> string \<times> pyval" where
  "origin r = (pr_playbook r, pr_event_ts r, pr_event_action r)"

definition origins :: "'w pb_state \<Rightarrow> (nat \<times> string \<times> pyval) list" where
  "origins s = map origin (rows (ps_runs s))"

definition has_steps :: "playbook \<Rightarrow> bool" where
  "has_steps p \<longleftrightarrow> (case pb_steps p of Json (PList vs) \<Rightarrow> vs \<noteq> [] | _ \<Rightarrow> False)"

definition started_for :: "event \<Rightarrow> playbook \<Rightarrow> nat \<times> string \<times> pyval" where
  "started_for e p = (pb_id p, ev_ts e, or_val (Some (ev_action e)) (PStr []))"

lemma emit_execute_origins: "origins (fst (execute_steps env emit_event i vs cx start s)) = origins s"
proof -
  obtain s1 r where run: "run_steps env emit_event cx start (drop start vs) (stored_log i s) s = (s1, r)" by fastforce
  then have "ps_runs s1 = ps_runs s" using emit_run_steps_runs[of env cx start "drop start vs" "stored_log i s" s] by simp
  moreover have "map origin (update_where P (finish_run env st log) rs) = map origin rs" for P st log rs
    by (induction rs) (auto simp: origin_def finish_run_def update_where_def)
  ultimately show ?thesis using run by (simp add: execute_steps_def origins_def split: sum.split prod.split)
qed

lemma start_run_origins:
  "origins (fst (start_run env emit_event e p s)) = origins s @ (if has_steps p then [started_for e p] else [])"
proof (cases "has_steps p")
  case False
  then have "start_run env emit_event e p s = (s, None)"
    by (auto simp: start_run_def has_steps_def split: json_doc.splits pyval.splits list.splits)
  then show ?thesis using False by simp
next
  case True
  then obtain v vs where st: "pb_steps p = Json (PList (v # vs))"
    by (auto simp: has_steps_def neq_Nil_conv split: json_doc.splits pyval.splits)
  define i where "i = Suc (seq (ps_runs s))"
  define cx where "cx = \<lparr>cx_run = i, cx_name = pb_name p, cx_event = Some e\<rparr>"
  define s0 where "s0 = s\<lparr>ps_runs := fst (insert_row (mk_run (pb_id p, ev_ts e, ev_action e)) (ps_runs s))\<rparr>"
  have "fst (start_run env emit_event e p s) = fst (execute_steps env emit_event i (v # vs) cx 0 s0)"
    using st by (simp add: start_run_def insert_row_def Let_def s0_def cx_def i_def split: sum.split prod.split)
  then show ?thesis using True
    by (simp only: emit_execute_origins) (simp add: s0_def origins_def origin_def started_for_def mk_run_def)
qed

lemma start_runs_origins:
  "\<exists>k. origins (fst (start_runs env emit_event e ps s)) = origins s @ map (started_for e) (take k (filter has_steps ps))
     \<and> (snd (start_runs env emit_event e ps s) = None \<longrightarrow> k = length (filter has_steps ps))"
proof (induction ps arbitrary: s)
  case (Cons p ps)
  obtain s1 x where p: "start_run env emit_event e p s = (s1, x)" by fastforce
  have one: "origins s1 = origins s @ (if has_steps p then [started_for e p] else [])"
    using start_run_origins[of env e p s] p by simp
  show ?case
  proof (cases x)
    case None
    from Cons.IH[of s1] obtain k where
      "origins (fst (start_runs env emit_event e ps s1)) = origins s1 @ map (started_for e) (take k (filter has_steps ps))"
      "snd (start_runs env emit_event e ps s1) = None \<longrightarrow> k = length (filter has_steps ps)"
      by (elim exE conjE)
    then show ?thesis using None one p
      by (intro exI[of _ "if has_steps p then Suc k else k"]) simp
  next
    case (Some y)
    then show ?thesis using one p by (intro exI[of _ "if has_steps p then 1 else 0"]) simp
  qed
qed simp


section \<open>The event log only grows\<close>

definition log_grows :: "'w pb_state \<Rightarrow> 'w pb_state \<Rightarrow> bool" where
  "log_grows s t \<longleftrightarrow> (\<exists>es. ps_log t = ps_log s @ es)"

lemma log_grows_same: "ps_log t = ps_log s \<Longrightarrow> log_grows s t"
  by (simp add: log_grows_def)

lemma log_grows_trans [trans]: "log_grows s t \<Longrightarrow> log_grows t u \<Longrightarrow> log_grows s u"
  by (auto simp: log_grows_def)

locale growing_log =
  fixes lg :: "event \<Rightarrow> 'w pb_state \<Rightarrow> 'w pb_state"
  assumes lg_grows: "log_grows s (lg e s)"
begin

lemma handler_grows:
  assumes "step_handler env lg ty = Some h"
  shows "log_grows s (fst (h args cx s))"
proof -
  have "log_grows s (fst (step_log env lg args cx s))" "log_grows s (fst (step_open_case args cx s))"
    "log_grows s (fst (step_block_ip env args cx s))" "log_grows s (fst (step_notify env lg args cx s))"
    by (auto simp: step_log_def step_open_case_def step_block_ip_def step_notify_def lg_grows
        intro: log_grows_same split: sum.splits prod.splits)
  then show ?thesis using assms by (auto simp: step_handler_def split: if_splits)
qed

lemma run_steps_grows: "log_grows s (fst (run_steps env lg cx idx vs log s))"
proof (induction vs arbitrary: idx log s)
  case (Cons v vs)
  show ?case
  proof (cases "step_type v")
    case (Inr ty)
    show ?thesis
    proof (cases "step_handler env lg ty")
      case (Some h)
      obtain s1 x where h: "h (step_args v) cx s = (s1, x)" by fastforce
      have "log_grows s s1" using handler_grows[OF Some, of s "step_args v" cx] h by simp
      then show ?thesis using Inr Some h Cons.IH by (auto intro: log_grows_same log_grows_trans)
    qed (use Inr Cons.IH in \<open>simp add: log_grows_same\<close>)
  qed (simp add: log_grows_same)
qed (simp add: log_grows_same)

lemma execute_grows: "log_grows s (fst (execute_steps env lg i vs cx start s))"
  using run_steps_grows[of s env cx start "drop start vs" "stored_log i s"]
  by (auto simp: execute_steps_def log_grows_def split: sum.splits prod.splits)

lemma start_run_grows: "log_grows s (fst (start_run env lg e p s))"
proof (cases "pb_steps p")
  case (Json v)
  have "log_grows s (fst (execute_steps env lg i ws cx 0 (s\<lparr>ps_runs := t\<rparr>)))" for i ws cx t
    using execute_grows[of "s\<lparr>ps_runs := t\<rparr>" env i ws cx 0] by (simp add: log_grows_def)
  then show ?thesis using Json
    by (auto simp: start_run_def intro: log_grows_same split: pyval.split list.split prod.split sum.split) (metis fst_conv)+
qed (simp add: start_run_def log_grows_same)

lemma start_runs_grows: "log_grows s (fst (start_runs env lg e ps s))"
proof (induction ps arbitrary: s)
  case (Cons p ps)
  obtain s1 x where p: "start_run env lg e p s = (s1, x)" by fastforce
  have "log_grows s s1" using start_run_grows[of s env e p] p by simp
  then show ?case using p Cons.IH[of s1] by (auto intro: log_grows_trans split: option.split)
qed (simp add: log_grows_same)

end

interpretation plain_growth: growing_log emit_event
  by unfold_locales (simp add: emit_event_def log_grows_def)

text \<open>An event is in the log first, before the runs it starts.\<close>

lemma log_event_writes: "\<exists>es. ps_log (log_event env active e s) = ps_log s @ e # es"
  using plain_growth.start_runs_grows[of "emit_event e s" env e]
  by (auto simp: log_event_def on_event_eq emit_event_def log_grows_def split: sum.split)

interpretation dispatching_growth: growing_log "log_event env active" for env active
proof unfold_locales
  show "log_grows s (log_event env active e s)" for s e
    using log_event_writes[of env active e s] by (auto simp: log_grows_def)
qed

section \<open>Concrete runs\<close>

definition idle_env :: "nat pb_env" where
  "idle_env =
     \<lparr>pe_exec = \<lparr>ne_dry_run = False, ne_freebsd = True, ne_root = True, ne_sudo = [],
        ne_exec = (\<lambda>c w. (Suc w, Finished 0 [] []))\<rparr>,
      pe_now = ''t'', pe_enrich = (\<lambda>d r u. d)\<rparr>"

definition sample_event :: event where
  "sample_event =
     \<lparr>ev_ts = ''t0'', ev_severity = PStr ''high'', ev_category = PStr ''alert'', ev_action = PStr ''playbook_notify'',
      ev_user = ''siem'', ev_remote = ''10.0.0.9'', ev_details = PDict []\<rparr>"

definition gated :: "string \<Rightarrow> pyval" where
  "gated ty = PDict [(''type'', PStr ty), (''approval_required'', PBool True)]"

definition ungated :: "string \<Rightarrow> pyval" where
  "ungated ty = PDict [(''type'', PStr ty)]"

definition sample_playbook :: "pyval list \<Rightarrow> playbook" where
  "sample_playbook vs =
     \<lparr>pb_id = 1, pb_name = ''p'', pb_description = [], pb_enabled = True, pb_action = ''playbook_notify'',
      pb_category = Some ''alert'', pb_min_sev = Some ''low'', pb_steps = Json (PList vs), pb_created_by = ''admin''\<rparr>"

definition one_playbook :: "pyval list \<Rightarrow> nat pb_state" where
  "one_playbook vs =
     \<lparr>ps_playbooks = \<lparr>rows = [sample_playbook vs], seq = 1\<rparr>, ps_runs = empty_table, ps_cases = empty_table,
      ps_log = [], ps_audit = [], ps_world = 0\<rparr>"

lemma one_playbook_reachable: "playbook_reachable env (one_playbook vs)"
  by (rule playbook_reachable.start) (simp add: one_playbook_def)


lemma approval_carries_out_nothing_witness:
  "\<exists>s2. approve_run idle_env 1 ''admin''
       (log_event idle_env False sample_event (one_playbook [gated ''block_ip'', ungated ''block_ip''])) = (s2, Inr (Resumed Done))
    \<and> ps_world s2 = 0"
proof -
  let ?vs = "[gated ''block_ip'', ungated ''block_ip'']"
  have "match_playbooks sample_event (rows (ps_playbooks (one_playbook ?vs))) = Inr [sample_playbook ?vs]" by code_simp
  moreover have "step_type (gated ''block_ip'') = Inr ''block_ip''" "needs_approval (gated ''block_ip'')"
    "blocks_source (ungated ''block_ip'')"
    unfolding blocks_source_def by code_simp+
  moreover have "runs_ok (one_playbook ?vs)" using reachable_runs_ok[OF one_playbook_reachable] .
  moreover have "find_by pb_id (pb_id (sample_playbook ?vs)) (rows (ps_playbooks (one_playbook ?vs))) = Some (sample_playbook ?vs)"
    "pb_steps (sample_playbook ?vs) = Json (PList (gated ''block_ip'' # [ungated ''block_ip'']))"
    "Suc (seq (ps_runs (one_playbook ?vs))) = 1" "ps_world (one_playbook ?vs) = 0"
    by (simp_all add: one_playbook_def sample_playbook_def)
  ultimately show ?thesis
    using approval_carries_out_nothing[of "one_playbook ?vs" sample_event "sample_playbook ?vs" "gated ''block_ip''"
        "[ungated ''block_ip'']" "''block_ip''" idle_env "''admin''"] by auto
qed

lemma run_log_invariant_witness:
  "\<exists>r. find_by pr_id 1 (rows (ps_runs (log_event idle_env False sample_event (one_playbook [ungated ''log'', gated ''block_ip''])))) = Some r
     \<and> pending_index (pr_log r) = Some (length (pr_log r) - 1)"
proof -
  let ?s = "log_event idle_env False sample_event (one_playbook [ungated ''log'', gated ''block_ip''])"
  have "playbook_reachable idle_env ?s"
    by (rule playbook_reachable.step[OF one_playbook_reachable playbook_step.event])
  moreover have "map_option pr_status (find_by pr_id 1 (rows (ps_runs ?s))) = Some Awaiting" by code_simp
  ultimately show ?thesis using run_log_invariant[of idle_env ?s 1] by fastforce
qed

lemma gate_stops_run_witness:
  "ps_world (fst (execute_steps idle_env emit_event 1 ([ungated ''log''] @ gated ''block_ip'' # [ungated ''block_ip''])
      \<lparr>cx_run = 1, cx_name = ''p'', cx_event = Some sample_event\<rparr> 0 (one_playbook []))) = 0"
proof -
  have "\<not> needs_approval (ungated ''log'')" "needs_approval (gated ''block_ip'')" "step_type (gated ''block_ip'') = Inr ''block_ip''"
    by code_simp+
  moreover have "ps_world (fst (execute_steps idle_env emit_event 1 [ungated ''log'']
      \<lparr>cx_run = 1, cx_name = ''p'', cx_event = Some sample_event\<rparr> 0 (one_playbook []))) = 0" by code_simp
  ultimately show ?thesis
    using gate_stops_run[of "[ungated ''log'']" "gated ''block_ip''" "''block_ip''" idle_env emit_event 1
        "[ungated ''block_ip'']" "\<lparr>cx_run = 1, cx_name = ''p'', cx_event = Some sample_event\<rparr>" "one_playbook []"] by simp
qed

text \<open>
  An approved run is executed without the guard: its steps start playbooks, the same one included, so
  each approval of this playbook opens the next run that waits for approval.
\<close>

lemma approval_starts_next_run:
  "map pr_status (rows (ps_runs (fst (approve_run idle_env 1 ''admin''
       (log_event idle_env False sample_event (one_playbook [gated ''log'', ungated ''notify''])))))) = [Done, Awaiting]"
  by code_simp

end
