(* ===== verification/AlertService.thy ===== *)
theory AlertService
  imports PyValue Complex_Main
begin

text \<open>
  \<^verbatim>\<open>app/services/alert_service.py\<close> over the tables of migrations 37 and 41: creation
  with deduplication against the open alert of the key, suppression, observations, and the
  analyst's actions with their log.

  The unique index \<open>idx_alerts_dedup_open\<close> lets one open alert exist per key; a statement
  that would break it raises \<open>IntegrityError\<close> and changes nothing.  A clock reading has
  the ISO text of \<open>_utcnow()\<close> and the text of SQLite's \<open>CURRENT_TIMESTAMP\<close>.  JSON
  columns hold the value they encode.
\<close>

section \<open>Tables\<close>

datatype alert_status =
    New | Acknowledged | InProgress | Escalated | CaseOpened | Closed | FalsePositive | SuppressedAlert

fun status_str :: "alert_status \<Rightarrow> string" where
  "status_str New = ''new''"
| "status_str Acknowledged = ''acknowledged''"
| "status_str InProgress = ''in_progress''"
| "status_str Escalated = ''escalated''"
| "status_str CaseOpened = ''case_opened''"
| "status_str Closed = ''closed''"
| "status_str FalsePositive = ''false_positive''"
| "status_str SuppressedAlert = ''suppressed''"

text \<open>\<open>status NOT IN ('closed','false_positive','suppressed')\<close>.\<close>

fun open_status :: "alert_status \<Rightarrow> bool" where
  "open_status Closed = False"
| "open_status FalsePositive = False"
| "open_status SuppressedAlert = False"
| "open_status s = True"

record clock =
  ck_iso :: string
  ck_sql :: string

text \<open>The arguments of \<open>create_or_update_alert\<close>.\<close>

record alert_in =
  ai_dedup_key :: string
  ai_title :: string
  ai_severity :: string
  ai_category :: string
  ai_alert_type :: string
  ai_description :: string
  ai_event_id :: "int option"
  ai_event_uuid :: string
  ai_src_ip :: string
  ai_dst_ip :: string
  ai_username :: string
  ai_hostname :: string
  ai_mac :: string
  ai_domain :: string
  ai_rule_id :: string
  ai_rule_name :: string
  ai_signature_id :: string
  ai_mitre_tactic :: string
  ai_mitre_technique :: string
  ai_risk_score :: real
  ai_details :: "(string \<times> pyval) list"

text \<open>A row of \<open>alerts\<close>: the columns taken from the arguments, and the others.\<close>

record alert =
  al_id :: nat
  al_uuid :: string
  al_in :: alert_in
  al_dedup_key :: string
  al_first_seen :: string
  al_last_seen :: string
  al_status :: alert_status
  al_severity :: string
  al_count :: int
  al_risk_score :: real
  al_assigned_to :: "int option"
  al_assigned_name :: "string option"
  al_assigned_by :: "string option"
  al_assigned_at :: "string option"
  al_acknowledged_by :: "string option"
  al_acknowledged_at :: "string option"
  al_closed_by :: "string option"
  al_closed_at :: "string option"
  al_closure_type :: "string option"
  al_suppression_id :: "nat option"
  al_case_id :: "int option"
  al_created_at :: string
  al_updated_at :: string

record observation =
  ob_id :: nat
  ob_alert :: nat
  ob_event_uuid :: "string option"
  ob_observed_at :: string
  ob_src_ip :: "string option"
  ob_dst_ip :: "string option"
  ob_domain :: "string option"
  ob_url :: "string option"
  ob_username :: "string option"
  ob_hostname :: "string option"
  ob_summary :: string
  ob_raw :: "(string \<times> pyval) list"

record action_row =
  ac_id :: nat
  ac_alert :: nat
  ac_action :: string
  ac_actor :: string
  ac_note :: string
  ac_old_status :: string
  ac_new_status :: string
  ac_details :: "(string \<times> pyval) list"

record suppression =
  sp_id :: nat
  sp_name :: string
  sp_enabled :: bool
  sp_match_type :: string
  sp_match_value :: string
  sp_reason :: string
  sp_created_by :: string
  sp_expires_at :: "string option"

record case_link =
  cl_id :: nat
  cl_case :: int
  cl_alert :: nat
  cl_added_by :: string

text \<open>\<open>case_ids\<close> are the keys of \<open>siem_cases\<close>, which a link must refer to;
  \<open>alert_observations\<close> is \<open>None\<close> in a database that has not migrated yet.\<close>

record alert_db =
  alerts :: "alert table"
  observations :: "observation table option"
  actions :: "action_row table"
  suppressions :: "suppression table"
  case_links :: "case_link table"
  case_ids :: "int list"

definition empty_alert_db :: alert_db where
  "empty_alert_db =
     \<lparr>alerts = empty_table, observations = Some empty_table, actions = empty_table,
      suppressions = empty_table, case_links = empty_table, case_ids = []\<rparr>"

section \<open>Severity and suppression\<close>

definition sev_rank :: "(string \<times> nat) list" where
  "sev_rank = [(''info'', 0), (''low'', 1), (''medium'', 2), (''high'', 3), (''critical'', 4)]"

definition severity_rank :: "string \<Rightarrow> nat" where
  "severity_rank sev =
     (case map_of sev_rank (lower (strip sev)) of None \<Rightarrow> 1 | Some r \<Rightarrow> r)"

definition suppression_active :: "string \<Rightarrow> suppression \<Rightarrow> bool" where
  "suppression_active now s \<longleftrightarrow> sp_enabled s
     \<and> (case sp_expires_at s of None \<Rightarrow> True | Some e \<Rightarrow> e = [] \<or> now < e)"

fun first_suppression :: "string \<Rightarrow> suppression list \<Rightarrow> (string \<times> string) list \<Rightarrow> nat option" where
  "first_suppression now ss [] = None"
| "first_suppression now ss ((ty, v) # rest) =
     (if v = [] then first_suppression now ss rest
      else case fetchone (filter (\<lambda>s. suppression_active now s \<and> sp_match_type s = ty
                                    \<and> sp_match_value s = v) ss) of
             Some s \<Rightarrow> Some (sp_id s)
           | None \<Rightarrow> first_suppression now ss rest)"

definition suppression_keys :: "alert_in \<Rightarrow> (string \<times> string) list" where
  "suppression_keys a =
     [(''dedup_key'', ai_dedup_key a), (''signature_id'', ai_signature_id a),
      (''rule_id'', ai_rule_id a), (''alert_type'', ai_alert_type a), (''src_ip'', ai_src_ip a),
      (''dst_ip'', ai_dst_ip a), (''domain'', ai_domain a), (''username'', ai_username a)]"

definition is_suppressed :: "alert_db \<Rightarrow> clock \<Rightarrow> alert_in \<Rightarrow> nat option" where
  "is_suppressed db ck a =
     first_suppression (ck_iso ck) (rows (suppressions db)) (suppression_keys a)"

section \<open>Writing alerts\<close>

definition open_keys :: "alert list \<Rightarrow> string list" where
  "open_keys as = map al_dedup_key (filter (\<lambda>a. open_status (al_status a)) as)"

text \<open>A statement on \<open>alerts\<close> under the unique index.\<close>

definition write_alerts :: "alert table \<Rightarrow> alert_db \<Rightarrow> alert_db res" where
  "write_alerts t db =
     (if distinct (open_keys (rows t)) then Inr (db\<lparr>alerts := t\<rparr>)
      else Inl (IntegrityError ''UNIQUE constraint failed: alerts.dedup_key''))"

definition update_alert :: "nat \<Rightarrow> (alert \<Rightarrow> alert) \<Rightarrow> alert_db \<Rightarrow> alert_db res" where
  "update_alert i f db = write_alerts (update_rows (\<lambda>a. al_id a = i) f (alerts db)) db"

definition null_if_empty :: "string \<Rightarrow> string option" where
  "null_if_empty s = (if s = [] then None else Some s)"

definition mk_observation :: "nat \<Rightarrow> clock \<Rightarrow> alert_in \<Rightarrow> nat \<Rightarrow> observation" where
  "mk_observation alert ck a i =
     \<lparr>ob_id = i, ob_alert = alert, ob_event_uuid = null_if_empty (ai_event_uuid a),
      ob_observed_at = ck_sql ck, ob_src_ip = null_if_empty (ai_src_ip a),
      ob_dst_ip = null_if_empty (ai_dst_ip a), ob_domain = null_if_empty (ai_domain a),
      ob_url = None, ob_username = null_if_empty (ai_username a),
      ob_hostname = null_if_empty (ai_hostname a), ob_summary = ai_title a, ob_raw = ai_details a\<rparr>"

definition record_observation :: "nat \<Rightarrow> clock \<Rightarrow> alert_in \<Rightarrow> alert_db \<Rightarrow> alert_db" where
  "record_observation alert ck a db =
     db\<lparr>observations := map_option (\<lambda>t. fst (insert_row (mk_observation alert ck a) t)) (observations db)\<rparr>"

type_synonym alert_draft = "string \<times> string \<times> string \<times> alert_in"

definition mk_alert :: "alert_draft \<Rightarrow> nat \<Rightarrow> alert" where
  "mk_alert d i =
     (case d of (uuid, key, now, a) \<Rightarrow>
       \<lparr>al_id = i, al_uuid = uuid, al_in = a, al_dedup_key = key, al_first_seen = now,
        al_last_seen = now, al_status = New, al_severity = ai_severity a, al_count = 1,
        al_risk_score = ai_risk_score a, al_assigned_to = None, al_assigned_name = None,
        al_assigned_by = None, al_assigned_at = None, al_acknowledged_by = None,
        al_acknowledged_at = None, al_closed_by = None, al_closed_at = None,
        al_closure_type = None, al_suppression_id = None, al_case_id = None,
        al_created_at = now, al_updated_at = now\<rparr>)"

text \<open>The open alert of a key, the one with the largest id.\<close>

definition open_alert :: "string \<Rightarrow> alert list \<Rightarrow> alert option" where
  "open_alert key as =
     fetchone (rev (sort_key al_id (filter (\<lambda>a. al_dedup_key a = key \<and> open_status (al_status a)) as)))"

definition bump :: "string \<Rightarrow> alert_in \<Rightarrow> alert \<Rightarrow> alert" where
  "bump now a x =
     x\<lparr>al_last_seen := now, al_count := al_count x + 1,
       al_severity := (if severity_rank (al_severity x) < severity_rank (ai_severity a)
                       then ai_severity a else al_severity x),
       al_risk_score := max (al_risk_score x) (ai_risk_score a), al_updated_at := now\<rparr>"

text \<open>
  \<open>uuid\<close> is the hexadecimal \<open>uuid4\<close> of the row, \<open>adhoc\<close> the one that makes a key when
  none is given.  \<open>None\<close> is a suppressed alert.
\<close>

definition create_or_update_alert ::
  "string \<Rightarrow> string \<Rightarrow> clock \<Rightarrow> alert_in \<Rightarrow> alert_db \<Rightarrow> alert_db \<times> nat option res" where
  "create_or_update_alert uuid adhoc ck a0 db =
     (let key = (if ai_dedup_key a0 = [] then ''adhoc:'' @ adhoc else ai_dedup_key a0);
          a = a0\<lparr>ai_dedup_key := key\<rparr>;
          now = ck_iso ck
      in if is_suppressed db ck a \<noteq> None then (db, Inr None)
         else case open_alert key (rows (alerts db)) of
           Some x \<Rightarrow>
             (case update_alert (al_id x) (bump now a) db of
                Inl e \<Rightarrow> (db, Inl e)
              | Inr db1 \<Rightarrow> (record_observation (al_id x) ck a db1, Inr (Some (al_id x))))
         | None \<Rightarrow>
             (case insert_row (mk_alert (uuid, key, now, a)) (alerts db) of
                (t, i) \<Rightarrow>
                  (case write_alerts t db of
                     Inl e \<Rightarrow> (db, Inl e)
                   | Inr db1 \<Rightarrow> (record_observation i ck a db1, Inr (Some i)))))"

definition list_alert_observations :: "alert_db \<Rightarrow> nat \<Rightarrow> int \<Rightarrow> int \<Rightarrow> observation list" where
  "list_alert_observations db alert limit offset =
     (case observations db of
        None \<Rightarrow> []
      | Some t \<Rightarrow>
          sql_limit limit (drop (nat offset)
            (rev (sort_key (\<lambda>x. (ob_observed_at x, ob_id x))
              (filter (\<lambda>x. ob_alert x = alert) (rows t))))))"

section \<open>Analyst actions\<close>

definition or_system :: "string \<Rightarrow> string" where
  "or_system s = (if s = [] then ''system'' else s)"

type_synonym action_draft =
  "nat \<times> string \<times> string \<times> string \<times> string \<times> string \<times> (string \<times> pyval) list"

definition mk_action :: "action_draft \<Rightarrow> nat \<Rightarrow> action_row" where
  "mk_action d i =
     (case d of (alert, action, actor, note, old, new_st, details) \<Rightarrow>
       \<lparr>ac_id = i, ac_alert = alert, ac_action = action, ac_actor = or_system actor,
        ac_note = note, ac_old_status = old, ac_new_status = new_st, ac_details = details\<rparr>)"

definition log_action :: "action_draft \<Rightarrow> alert_db \<Rightarrow> alert_db" where
  "log_action d db = db\<lparr>actions := fst (insert_row (mk_action d) (actions db))\<rparr>"

definition get_alert :: "alert_db \<Rightarrow> nat \<Rightarrow> alert option" where
  "get_alert db i = find_by al_id i (rows (alerts db))"

text \<open>An update of the alert, then the log entry; \<open>False\<close> when there is no such alert.\<close>

definition act ::
  "nat \<Rightarrow> (alert \<Rightarrow> alert) \<Rightarrow> (alert \<Rightarrow> action_draft) \<Rightarrow> alert_db \<Rightarrow> alert_db \<times> bool res" where
  "act i f entry db =
     (case get_alert db i of
        None \<Rightarrow> (db, Inr False)
      | Some a \<Rightarrow>
          (case update_alert i f db of
             Inl e \<Rightarrow> (db, Inl e)
           | Inr db1 \<Rightarrow> (log_action (entry a) db1, Inr True)))"

definition acknowledge_alert :: "clock \<Rightarrow> nat \<Rightarrow> string \<Rightarrow> string \<Rightarrow> alert_db \<Rightarrow> alert_db \<times> bool res" where
  "acknowledge_alert ck i actor note =
     act i (\<lambda>a. a\<lparr>al_status := Acknowledged, al_acknowledged_by := Some actor,
                  al_acknowledged_at := Some (ck_iso ck), al_updated_at := ck_iso ck\<rparr>)
       (\<lambda>a. (i, ''ack'', actor, note, status_str (al_status a), ''acknowledged'', []))"

text \<open>\<open>assignee_id in (None, 0, "", "0")\<close>, with Python's \<open>==\<close> between numbers.\<close>

fun no_assignee :: "pyval \<Rightarrow> bool" where
  "no_assignee PNone = True"
| "no_assignee (PInt n) = (n = 0)"
| "no_assignee (PBool b) = (\<not> b)"
| "no_assignee (PFloat r (Dyadic m e)) = (m = 0)"
| "no_assignee (PStr s) = (s = [] \<or> s = ''0'')"
| "no_assignee v = False"

definition assign_alert ::
  "clock \<Rightarrow> nat \<Rightarrow> string \<Rightarrow> pyval \<Rightarrow> string \<Rightarrow> alert_db \<Rightarrow> alert_db \<times> bool res" where
  "assign_alert ck i actor assignee_id assignee_name db =
     (if no_assignee assignee_id
      then act i (\<lambda>a. a\<lparr>al_assigned_to := None, al_assigned_name := None, al_assigned_by := None,
                       al_assigned_at := None, al_updated_at := ck_iso ck\<rparr>)
             (\<lambda>a. (i, ''unassign'', actor, [], [], [], [(''prev_assignee'', PStr assignee_name)])) db
      else if get_alert db i = None then (db, Inr False)
      else (case py_int_of assignee_id of
              Inl e \<Rightarrow> (db, Inl e)
            | Inr n \<Rightarrow>
                act i (\<lambda>a. a\<lparr>al_assigned_to := Some n, al_assigned_name := Some assignee_name,
                             al_assigned_by := Some actor, al_assigned_at := Some (ck_iso ck),
                             al_updated_at := ck_iso ck\<rparr>)
                  (\<lambda>a. (i, ''assign'', actor, [], [], [],
                     [(''assignee_id'', assignee_id), (''assignee_name'', PStr assignee_name)])) db))"

definition close_alert ::
  "clock \<Rightarrow> nat \<Rightarrow> string \<Rightarrow> string \<Rightarrow> string \<Rightarrow> alert_db \<Rightarrow> alert_db \<times> bool res" where
  "close_alert ck i actor closure_type note =
     act i (\<lambda>a. a\<lparr>al_status := Closed, al_closed_by := Some actor, al_closed_at := Some (ck_iso ck),
                  al_closure_type := Some closure_type, al_updated_at := ck_iso ck\<rparr>)
       (\<lambda>a. (i, ''close'', actor, note, status_str (al_status a), ''closed'',
          [(''closure_type'', PStr closure_type)]))"

text \<open>The dict \<open>suppress_match\<close>, \<open>None\<close> for an absent or null entry.\<close>

record suppress_match =
  sm_name :: "string option"
  sm_match_type :: "string option"
  sm_match_value :: "string option"
  sm_reason :: "string option"
  sm_expires_at :: "string option"

type_synonym supp_draft = "nat \<times> string \<times> string \<times> suppress_match"

definition mk_suppression :: "supp_draft \<Rightarrow> nat \<Rightarrow> suppression" where
  "mk_suppression d i =
     (case d of (alert, actor, note, m) \<Rightarrow>
       \<lparr>sp_id = i, sp_name = or_str (sm_name m) (''FP-'' @ str_nat alert), sp_enabled = True,
        sp_match_type = or_str (sm_match_type m) ''dedup_key'',
        sp_match_value = or_str (sm_match_value m) [],
        sp_reason = (if note \<noteq> [] then note else or_str (sm_reason m) []),
        sp_created_by = actor, sp_expires_at = null_if_empty (or_str (sm_expires_at m) [])\<rparr>)"

definition add_suppression ::
  "nat \<Rightarrow> string \<Rightarrow> string \<Rightarrow> suppress_match option \<Rightarrow> alert_db \<Rightarrow> alert_db \<times> nat option" where
  "add_suppression i actor note match db =
     (case match of
        None \<Rightarrow> (db, None)
      | Some m \<Rightarrow>
          (if or_str (sm_match_value m) [] = [] then (db, None)
           else case insert_row (mk_suppression (i, actor, note, m)) (suppressions db) of
             (t, sid) \<Rightarrow> (db\<lparr>suppressions := t\<rparr>, Some sid)))"

definition mark_false_positive ::
  "clock \<Rightarrow> nat \<Rightarrow> string \<Rightarrow> string \<Rightarrow> suppress_match option \<Rightarrow> alert_db \<Rightarrow> alert_db \<times> bool res" where
  "mark_false_positive ck i actor note match db =
     (if get_alert db i = None then (db, Inr False)
      else case add_suppression i actor note match db of
        (db1, sid) \<Rightarrow>
          act i (\<lambda>a. a\<lparr>al_status := FalsePositive, al_closure_type := Some ''false_positive'',
                       al_closed_by := Some actor, al_closed_at := Some (ck_iso ck),
                       al_suppression_id := (case sid of None \<Rightarrow> al_suppression_id a | Some s \<Rightarrow> Some s),
                       al_updated_at := ck_iso ck\<rparr>)
            (\<lambda>a. (i, ''false_positive'', actor, note, status_str (al_status a), ''false_positive'',
               [(''suppression_id'', (case sid of None \<Rightarrow> PNone | Some s \<Rightarrow> PInt (int s)))])) db1)"

definition reopen_alert :: "clock \<Rightarrow> nat \<Rightarrow> string \<Rightarrow> string \<Rightarrow> alert_db \<Rightarrow> alert_db \<times> bool res" where
  "reopen_alert ck i actor note =
     act i (\<lambda>a. a\<lparr>al_status := New, al_closed_at := None, al_closed_by := None,
                  al_closure_type := None, al_updated_at := ck_iso ck\<rparr>)
       (\<lambda>a. (i, ''reopen'', actor, note, status_str (al_status a), ''new'', []))"

definition mk_case_link :: "int \<times> nat \<times> string \<Rightarrow> nat \<Rightarrow> case_link" where
  "mk_case_link d i =
     (case d of (c, alert, actor) \<Rightarrow> \<lparr>cl_id = i, cl_case = c, cl_alert = alert, cl_added_by = actor\<rparr>)"

text \<open>
  The insert with \<open>ON CONFLICT DO NOTHING\<close>.  When it raises for a missing case, the fallback
  finds no link and raises again.
\<close>

definition insert_case_link :: "int \<Rightarrow> nat \<Rightarrow> string \<Rightarrow> alert_db \<Rightarrow> alert_db res" where
  "insert_case_link c i actor db =
     (if list_ex (\<lambda>l. cl_case l = c \<and> cl_alert l = i) (rows (case_links db)) then Inr db
      else if c \<notin> set (case_ids db) then Inl (IntegrityError ''FOREIGN KEY constraint failed'')
      else Inr (db\<lparr>case_links := fst (insert_row (mk_case_link (c, i, actor)) (case_links db))\<rparr>))"

definition link_alert_to_case ::
  "clock \<Rightarrow> nat \<Rightarrow> int \<Rightarrow> string \<Rightarrow> alert_db \<Rightarrow> alert_db \<times> bool res" where
  "link_alert_to_case ck i c actor db =
     (if get_alert db i = None then (db, Inr False)
      else case insert_case_link c i actor db of
        Inl e \<Rightarrow> (db, Inl e)
      | Inr db1 \<Rightarrow>
          act i (\<lambda>a. a\<lparr>al_case_id := Some c, al_status := CaseOpened, al_updated_at := ck_iso ck\<rparr>)
            (\<lambda>a. (i, ''case_linked'', actor, [], status_str (al_status a), ''case_opened'',
               [(''case_id'', PInt c)])) db1)"

text \<open>An absent or empty filter selects everything.\<close>

definition list_alerts ::
  "alert_db \<Rightarrow> string list option \<Rightarrow> string list option \<Rightarrow> int option \<Rightarrow> int \<Rightarrow> int \<Rightarrow> alert list" where
  "list_alerts db st sev assigned limit offset =
     (let keep = (\<lambda>a.
            (case st of None \<Rightarrow> True | Some ss \<Rightarrow> ss = [] \<or> status_str (al_status a) \<in> set ss)
            \<and> (case sev of None \<Rightarrow> True | Some ss \<Rightarrow> ss = [] \<or> al_severity a \<in> set ss)
            \<and> (case assigned of None \<Rightarrow> True | Some n \<Rightarrow> al_assigned_to a = Some n))
      in sql_limit limit (drop (nat offset)
           (rev (sort_key al_last_seen (filter keep (rows (alerts db)))))))"

section \<open>Invariant\<close>

interpretation alert_table: pk_table al_id mk_alert
  by unfold_locales (simp add: mk_alert_def split: prod.split)

interpretation action_table: pk_table ac_id mk_action
  by unfold_locales (simp add: mk_action_def split: prod.split)

interpretation suppression_table: pk_table sp_id mk_suppression
  by unfold_locales (simp add: mk_suppression_def split: prod.split)

text \<open>Distinct ids, one open alert per key, one link per alert and case.\<close>

definition alert_ok :: "alert_db \<Rightarrow> bool" where
  "alert_ok db \<longleftrightarrow>
     alert_table.pk_ok (alerts db) \<and> distinct (open_keys (rows (alerts db)))
     \<and> distinct (map (\<lambda>l. (cl_case l, cl_alert l)) (rows (case_links db)))"

lemma alert_ok_empty: "alert_ok empty_alert_db"
  by (simp add: alert_ok_def empty_alert_db_def alert_table.pk_ok_empty open_keys_def)

lemma write_alerts_Inr: "write_alerts t db = Inr db' \<longleftrightarrow> distinct (open_keys (rows t)) \<and> db' = db\<lparr>alerts := t\<rparr>"
  by (auto simp: write_alerts_def)

lemma alert_ok_update:
  assumes "alert_ok db" "update_alert i f db = Inr db'" "\<And>a. al_id (f a) = al_id a"
  shows "alert_ok db'"
  using assms
  by (auto simp: alert_ok_def update_alert_def write_alerts_Inr intro!: alert_table.pk_ok_update)

lemma alert_ok_frame [simp]:
  "alert_ok (db\<lparr>observations := obs\<rparr>) = alert_ok db"
  "alert_ok (db\<lparr>actions := acts\<rparr>) = alert_ok db"
  "alert_ok (db\<lparr>suppressions := ss\<rparr>) = alert_ok db"
  by (simp_all add: alert_ok_def)

lemma alert_ok_record [simp]:
  "alert_ok (record_observation i ck a db) = alert_ok db"
  "alert_ok (log_action d db) = alert_ok db"
  by (simp_all add: record_observation_def log_action_def)

lemma alert_ok_act:
  assumes "alert_ok db" "\<And>a. al_id (f a) = al_id a"
  shows "alert_ok (fst (act i f entry db))"
  using assms alert_ok_update[OF assms(1)] by (auto simp: act_def split: option.split sum.split)

lemma alert_ok_actions [inv_intros]:
  assumes "alert_ok db"
  shows "alert_ok (fst (acknowledge_alert ck i actor note db))"
    and "alert_ok (fst (assign_alert ck i actor who name db))"
    and "alert_ok (fst (close_alert ck i actor ct note db))"
    and "alert_ok (fst (reopen_alert ck i actor note db))"
  using assms
  by (auto simp: acknowledge_alert_def assign_alert_def close_alert_def reopen_alert_def
      intro!: alert_ok_act split: sum.split)

lemma alert_ok_false_positive [inv_intros]:
  assumes "alert_ok db"
  shows "alert_ok (fst (mark_false_positive ck i actor note m db))"
proof -
  have "alert_ok (fst (add_suppression i actor note m db))"
    using assms by (auto simp: add_suppression_def split: option.split prod.split)
  then show ?thesis
    using assms by (auto simp: mark_false_positive_def intro!: alert_ok_act split: prod.split)
qed

lemma alert_ok_insert_link:
  assumes "alert_ok db" "insert_case_link c i actor db = Inr db'"
  shows "alert_ok db'"
  using assms
  by (auto simp: insert_case_link_def alert_ok_def mk_case_link_def list_ex_iff split: if_splits)

lemma alert_ok_link [inv_intros]:
  assumes "alert_ok db"
  shows "alert_ok (fst (link_alert_to_case ck i c actor db))"
  using assms
  by (auto simp: link_alert_to_case_def intro!: alert_ok_act intro: alert_ok_insert_link split: sum.split)

lemma alert_ok_create [inv_intros]:
  assumes "alert_ok db"
  shows "alert_ok (fst (create_or_update_alert uuid adhoc ck a db))"
proof -
  have "alert_ok db'"
    if "write_alerts (fst (insert_row (mk_alert d) (alerts db))) db = Inr db'" for d db'
    using assms that by (auto simp: alert_ok_def write_alerts_Inr intro!: alert_table.pk_ok_insert)
  then have ins: "\<And>t i d db'. insert_row (mk_alert d) (alerts db) = (t, i) \<Longrightarrow> write_alerts t db = Inr db' \<Longrightarrow> alert_ok db'"
    by (metis fst_conv)
  show ?thesis
    using assms alert_ok_update[OF assms]
    by (auto simp: create_or_update_alert_def Let_def bump_def split: option.split sum.split prod.split
        intro: ins)
qed

section \<open>Histories\<close>

inductive alert_step :: "alert_db \<Rightarrow> alert_db \<Rightarrow> bool" where
  step_create: "alert_step db (fst (create_or_update_alert uuid adhoc ck a db))"
| step_ack: "alert_step db (fst (acknowledge_alert ck i actor note db))"
| step_assign: "alert_step db (fst (assign_alert ck i actor who name db))"
| step_close: "alert_step db (fst (close_alert ck i actor ct note db))"
| step_false_positive: "alert_step db (fst (mark_false_positive ck i actor note m db))"
| step_reopen: "alert_step db (fst (reopen_alert ck i actor note db))"
| step_link: "alert_step db (fst (link_alert_to_case ck i c actor db))"

inductive_cases alert_stepE: "alert_step db db'"

lemma alert_ok_step: "alert_step db db' \<Longrightarrow> alert_ok db \<Longrightarrow> alert_ok db'"
  by (elim alert_stepE) (auto intro: inv_intros)

lemma alert_ok_steps: "alert_step\<^sup>*\<^sup>* db db' \<Longrightarrow> alert_ok db \<Longrightarrow> alert_ok db'"
  by (induction rule: rtranclp_induct) (auto intro: alert_ok_step)

section \<open>The open alert of a key\<close>

lemma open_keys_distinctD:
  "distinct (open_keys as) \<Longrightarrow> a \<in> set as \<Longrightarrow> b \<in> set as \<Longrightarrow> open_status (al_status a)
     \<Longrightarrow> open_status (al_status b) \<Longrightarrow> al_dedup_key a = al_dedup_key b \<Longrightarrow> a = b"
  by (auto simp: open_keys_def distinct_map inj_on_def)

lemma open_alert_None:
  "open_alert key as = None \<longleftrightarrow> key \<notin> set (open_keys as)"
proof -
  have "sort_key k xs = [] \<longleftrightarrow> xs = []" for k :: "alert \<Rightarrow> nat" and xs
    by (metis length_0_conv length_sort)
  then show ?thesis by (auto simp: open_alert_def open_keys_def filter_empty_conv)
qed

lemma open_alert_SomeD:
  assumes "open_alert key as = Some a"
  shows "a \<in> set as" "al_dedup_key a = key" "open_status (al_status a)"
  using fetchone_Some_in[of _ a] assms by (fastforce simp: open_alert_def)+

lemma open_alert_iff:
  assumes "distinct (open_keys as)"
  shows "open_alert key as = Some a \<longleftrightarrow> a \<in> set as \<and> al_dedup_key a = key \<and> open_status (al_status a)"
proof
  assume r: "a \<in> set as \<and> al_dedup_key a = key \<and> open_status (al_status a)"
  then have "key \<in> set (open_keys as)" by (auto simp: open_keys_def)
  then obtain b where b: "open_alert key as = Some b" by (metis open_alert_None not_None_eq)
  then have "b = a"
    using open_keys_distinctD[OF assms] open_alert_SomeD[OF b] r by metis
  with b show "open_alert key as = Some a" by simp
qed (auto dest: open_alert_SomeD)

text \<open>An update that keeps keys and does not open anything keeps the index satisfied.\<close>

lemma open_keys_update_keep:
  assumes "\<And>a. al_dedup_key (f a) = al_dedup_key a"
    and "\<And>a. P a \<Longrightarrow> open_status (al_status (f a)) \<Longrightarrow> open_status (al_status a)"
    and "distinct (open_keys as)"
  shows "distinct (open_keys (update_where P f as))"
proof -
  have sub: "set (open_keys (update_where P f as)) \<subseteq> set (open_keys as)" for as
    using assms(1,2) by (fastforce simp: open_keys_def in_set_update_where)
  from assms(3) show ?thesis
  proof (induction as)
    case (Cons a as)
    then have "distinct (open_keys (update_where P f as))"
      by (auto simp: open_keys_def split: if_splits)
    moreover have "al_dedup_key a \<notin> set (open_keys (update_where P f as))" if "open_status (al_status a)"
      using Cons.prems that sub[of as] by (auto simp: open_keys_def)
    ultimately show ?case
      using assms(1,2) by (auto simp: open_keys_def)
  qed (simp add: open_keys_def)
qed

lemma update_alert_keep:
  assumes "alert_ok db" "\<And>a. al_dedup_key (f a) = al_dedup_key a"
    and "\<And>a. al_id a = i \<Longrightarrow> open_status (al_status (f a)) \<Longrightarrow> open_status (al_status a)"
  shows "update_alert i f db = Inr (db\<lparr>alerts := update_rows (\<lambda>a. al_id a = i) f (alerts db)\<rparr>)"
  using open_keys_update_keep[of f "\<lambda>a. al_id a = i", OF assms(2,3)] assms(1)
  by (simp add: update_alert_def write_alerts_def alert_ok_def)

lemma create_bump:
  assumes "alert_ok db" "ai_dedup_key a \<noteq> []" "is_suppressed db ck a = None"
    and "open_alert (ai_dedup_key a) (rows (alerts db)) = Some x"
  shows "create_or_update_alert uuid adhoc ck a db =
     (record_observation (al_id x) ck a
        (db\<lparr>alerts := update_rows (\<lambda>y. al_id y = al_id x) (bump (ck_iso ck) a) (alerts db)\<rparr>),
      Inr (Some (al_id x)))"
proof -
  have "update_alert (al_id x) (bump (ck_iso ck) a) db =
      Inr (db\<lparr>alerts := update_rows (\<lambda>y. al_id y = al_id x) (bump (ck_iso ck) a) (alerts db)\<rparr>)"
    by (rule update_alert_keep[OF assms(1)]) (auto simp: bump_def)
  with assms show ?thesis by (simp add: create_or_update_alert_def Let_def)
qed

lemma create_new:
  assumes "alert_ok db" "ai_dedup_key a \<noteq> []" "is_suppressed db ck a = None"
    and "open_alert (ai_dedup_key a) (rows (alerts db)) = None"
  shows "create_or_update_alert uuid adhoc ck a db =
     (record_observation (Suc (seq (alerts db))) ck a
        (db\<lparr>alerts := fst (insert_row (mk_alert (uuid, ai_dedup_key a, ck_iso ck, a)) (alerts db))\<rparr>),
      Inr (Some (Suc (seq (alerts db)))))"
proof -
  have "distinct (open_keys (rows (alerts db) @ [mk_alert (uuid, ai_dedup_key a, ck_iso ck, a) (Suc (seq (alerts db)))]))"
    using assms(1,4) by (auto simp: alert_ok_def open_alert_None open_keys_def mk_alert_def)
  with assms show ?thesis
    by (simp add: create_or_update_alert_def Let_def insert_row_def write_alerts_def)
qed

lemma record_observation_simps [simp]:
  "alerts (record_observation i ck a db) = alerts db"
  "suppressions (record_observation i ck a db) = suppressions db"
  "actions (record_observation i ck a db) = actions db"
  "case_links (record_observation i ck a db) = case_links db"
  by (simp_all add: record_observation_def)

lemma alert_ok_distinct:
  "alert_ok db \<Longrightarrow> a \<in> set (rows (alerts db)) \<Longrightarrow> b \<in> set (rows (alerts db)) \<Longrightarrow> al_id a = al_id b \<Longrightarrow> a = b"
  by (auto simp: alert_ok_def alert_table.pk_ok_def distinct_map inj_on_def)

text \<open>The open alert after a bump and after an insert.\<close>

lemma open_alert_bump:
  assumes "alert_ok db" "open_alert key (rows (alerts db)) = Some x"
  shows "open_alert key (update_where (\<lambda>y. al_id y = al_id x) (bump now a) (rows (alerts db)))
    = Some (bump now a x)"
proof -
  have x: "x \<in> set (rows (alerts db))" "al_dedup_key x = key" "open_status (al_status x)"
    using open_alert_SomeD[OF assms(2)] by auto
  have "distinct (open_keys (update_where (\<lambda>y. al_id y = al_id x) (bump now a) (rows (alerts db))))"
    using assms(1) by (intro open_keys_update_keep) (auto simp: bump_def alert_ok_def)
  then show ?thesis
    using x by (subst open_alert_iff) (auto simp: in_set_update_where bump_def)
qed

lemma open_alert_insert:
  assumes "alert_ok db" "open_alert key (rows (alerts db)) = None"
  shows "open_alert key (rows (alerts db) @ [mk_alert (uuid, key, now, a) i]) = Some (mk_alert (uuid, key, now, a) i)"
proof -
  have "distinct (open_keys (rows (alerts db) @ [mk_alert (uuid, key, now, a) i]))"
    using assms by (auto simp: alert_ok_def open_alert_None open_keys_def mk_alert_def)
  then show ?thesis by (subst open_alert_iff) (simp_all add: mk_alert_def)
qed

section \<open>A statement that opens a second alert\<close>

lemma two_open_not_distinct:
  assumes "a \<in> set as" "b \<in> set as" "a \<noteq> b" "open_status (al_status a)" "open_status (al_status b)"
    and "al_dedup_key a = al_dedup_key b"
  shows "\<not> distinct (open_keys as)"
  using open_keys_distinctD[OF _ assms(1,2,4,5,6)] assms(3) by blast

lemma act_clash:
  assumes ok: "alert_ok db" and i: "get_alert db i = Some a" "\<not> open_status (al_status a)"
    and b: "open_alert (al_dedup_key a) (rows (alerts db)) = Some b"
    and f: "\<And>x. al_id (f x) = al_id x" "\<And>x. al_dedup_key (f x) = al_dedup_key x"
      "\<And>x. open_status (al_status (f x))"
  shows "act i f entry db = (db, Inl (IntegrityError ''UNIQUE constraint failed: alerts.dedup_key''))"
proof -
  have a: "a \<in> set (rows (alerts db))" "al_id a = i"
    using i(1) by (auto simp: get_alert_def dest: find_by_SomeD)
  have b': "b \<in> set (rows (alerts db))" "al_dedup_key b = al_dedup_key a" "open_status (al_status b)"
    using open_alert_SomeD[OF b] by auto
  have ne: "al_id b \<noteq> i"
  proof
    assume "al_id b = i"
    then have "a = b" using alert_ok_distinct[OF ok a(1) b'(1)] a(2) by simp
    with i(2) b'(3) show False by simp
  qed
  let ?as = "update_where (\<lambda>x. al_id x = i) f (rows (alerts db))"
  have "f a \<in> set ?as" using a by (auto simp: in_set_update_where)
  moreover have "b \<in> set ?as" using b'(1) ne by (intro update_where_frame)
  moreover have "f a \<noteq> b" using ne f(1)[of a] a(2) by auto
  ultimately have "\<not> distinct (open_keys ?as)"
    using two_open_not_distinct[of "f a" ?as b] b'(2,3) f(2)[of a] f(3)[of a] by metis
  with i(1) show ?thesis by (simp add: act_def update_alert_def write_alerts_def)
qed


section \<open>Suppressions stay\<close>

lemma act_suppressions [simp]: "suppressions (fst (act i f entry db)) = suppressions db"
  by (auto simp: act_def update_alert_def write_alerts_def log_action_def split: option.split)

lemma write_alerts_suppressions: "write_alerts t db = Inr db' \<Longrightarrow> suppressions db' = suppressions db"
  by (auto simp: write_alerts_def split: if_splits)

lemma create_suppressions [simp]:
  "suppressions (fst (create_or_update_alert uuid adhoc ck a db)) = suppressions db"
  by (auto simp: create_or_update_alert_def update_alert_def Let_def write_alerts_suppressions
      split: option.split sum.split prod.split)

lemma action_suppressions [simp]:
  "suppressions (fst (acknowledge_alert ck i actor note db)) = suppressions db"
  "suppressions (fst (assign_alert ck i actor who name db)) = suppressions db"
  "suppressions (fst (close_alert ck i actor ct note db)) = suppressions db"
  "suppressions (fst (reopen_alert ck i actor note db)) = suppressions db"
  by (auto simp: acknowledge_alert_def assign_alert_def close_alert_def reopen_alert_def split: sum.split)

lemma link_suppressions [simp]:
  "suppressions (fst (link_alert_to_case ck i c actor db)) = suppressions db"
proof -
  have "suppressions db' = suppressions db" if "insert_case_link c i actor db = Inr db'" for db'
    using that by (auto simp: insert_case_link_def split: if_splits)
  then show ?thesis by (auto simp: link_alert_to_case_def split: sum.split)
qed

lemma false_positive_suppressions:
  "suppressions (fst (mark_false_positive ck i actor note m db)) =
     (if get_alert db i = None then suppressions db
      else suppressions (fst (add_suppression i actor note m db)))"
  by (simp add: mark_false_positive_def case_prod_unfold)

lemma step_suppressions:
  assumes "alert_step db db'"
  shows "set (rows (suppressions db)) \<subseteq> set (rows (suppressions db'))"
  using assms
proof (elim alert_stepE)
  fix ck i actor nt m
  assume d: "db' = fst (mark_false_positive ck i actor nt m db)"
  have "set (rows (suppressions db)) \<subseteq> set (rows (suppressions (fst (add_suppression i actor nt m db))))"
    by (auto simp: add_suppression_def insert_row_def Let_def split: option.split)
  then show ?thesis by (auto simp: d false_positive_suppressions)
qed simp_all

lemma steps_suppressions:
  "alert_step\<^sup>*\<^sup>* db db' \<Longrightarrow> set (rows (suppressions db)) \<subseteq> set (rows (suppressions db'))"
  by (induction rule: rtranclp_induct) (auto dest: step_suppressions)

lemma suppressed_key:
  assumes "s \<in> set (rows (suppressions db))" "suppression_active (ck_iso ck) s" "sp_match_type s = ''dedup_key''"
    and "sp_match_value s = ai_dedup_key a" "ai_dedup_key a \<noteq> []"
  shows "create_or_update_alert uuid adhoc ck a db = (db, Inr None)"
proof -
  let ?hits = "filter (\<lambda>s. suppression_active (ck_iso ck) s \<and> sp_match_type s = ''dedup_key''
      \<and> sp_match_value s = ai_dedup_key a) (rows (suppressions db))"
  have "s \<in> set ?hits" using assms by simp
  then have "?hits \<noteq> []" by (metis empty_iff empty_set)
  then obtain s' where "fetchone ?hits = Some s'" using fetchone_None by blast
  then have "is_suppressed db ck a \<noteq> None"
    using assms(5) by (simp add: is_suppressed_def suppression_keys_def)
  moreover have "a\<lparr>ai_dedup_key := ai_dedup_key a\<rparr> = a" by simp
  ultimately show ?thesis using assms(5) by (simp add: create_or_update_alert_def Let_def)
qed

section \<open>Properties\<close>

text \<open>Small inputs for the witnesses.\<close>

definition sample_clock :: clock where
  "sample_clock = \<lparr>ck_iso = ''2026-01-01T00:00:00'', ck_sql = ''2026-01-01 00:00:00''\<rparr>"

definition sample_in :: "string \<Rightarrow> string \<Rightarrow> alert_in" where
  "sample_in key sev =
     \<lparr>ai_dedup_key = key, ai_title = ''Scan'', ai_severity = sev, ai_category = [], ai_alert_type = [],
      ai_description = [], ai_event_id = None, ai_event_uuid = [], ai_src_ip = [], ai_dst_ip = [],
      ai_username = [], ai_hostname = [], ai_mac = [], ai_domain = [], ai_rule_id = [], ai_rule_name = [],
      ai_signature_id = [], ai_mitre_tactic = [], ai_mitre_technique = [], ai_risk_score = 10, ai_details = []\<rparr>"

definition one_alert :: alert_db where
  "one_alert = fst (create_or_update_alert ''u1'' [] sample_clock (sample_in ''k'' ''low'') empty_alert_db)"

lemma one_alert_eq:
  "one_alert = empty_alert_db
     \<lparr>alerts := \<lparr>rows = [mk_alert (''u1'', ''k'', ''2026-01-01T00:00:00'', sample_in ''k'' ''low'') 1], seq = 1\<rparr>,
      observations := Some \<lparr>rows = [mk_observation 1 sample_clock (sample_in ''k'' ''low'') 1], seq = 1\<rparr>\<rparr>"
proof -
  have "is_suppressed empty_alert_db sample_clock (sample_in ''k'' ''low'') = None"
    by (simp add: is_suppressed_def suppression_keys_def sample_in_def empty_alert_db_def)
  then have "one_alert = record_observation 1 sample_clock (sample_in ''k'' ''low'')
      (empty_alert_db\<lparr>alerts := fst (insert_row (mk_alert (''u1'', ''k'', ''2026-01-01T00:00:00'',
         sample_in ''k'' ''low'')) (alerts empty_alert_db))\<rparr>)"
    unfolding one_alert_def
    by (subst create_new[OF alert_ok_empty])
      (simp_all add: sample_in_def sample_clock_def empty_alert_db_def open_alert_def)
  then show ?thesis
    by (simp add: record_observation_def empty_alert_db_def insert_row_def empty_table_def Let_def)
qed

lemma one_alert_steps: "alert_step\<^sup>*\<^sup>* empty_alert_db one_alert"
  unfolding one_alert_def by (rule r_into_rtranclp) (rule step_create)

text \<open>
  Whatever creations, analyst actions and failures a database goes through, alert ids stay
  unique and a deduplication key never has two open alerts.
\<close>

theorem one_open_alert_per_key:
  assumes "alert_step\<^sup>*\<^sup>* empty_alert_db db"
  shows "distinct (map al_id (rows (alerts db)))
     \<and> (\<forall>a \<in> set (rows (alerts db)). \<forall>b \<in> set (rows (alerts db)).
          open_status (al_status a) \<and> open_status (al_status b) \<and> al_dedup_key a = al_dedup_key b \<longrightarrow> a = b)"
  using alert_ok_steps[OF assms alert_ok_empty] open_keys_distinctD
  by (auto simp: alert_ok_def alert_table.pk_ok_def)

lemma one_open_alert_per_key_witness: "distinct (map al_id (rows (alerts one_alert)))"
  using one_open_alert_per_key[OF one_alert_steps] by blast

text \<open>
  C20: in a database that any creations, analyst actions and failures have led to, creating an alert with a key
  that no suppression matches succeeds, it never meets the unique index. When the key has an open alert,
  that alert is counted up, its severity and its risk rise to the maximum, its id is
  returned and no row is inserted; otherwise a new alert of count one is inserted.  The result is the open alert of the
  key, and every other alert stays as it was.
\<close>

theorem create_deduplicates:
  fixes uuid adhoc :: string
  assumes "alert_step\<^sup>*\<^sup>* empty_alert_db db" "ai_dedup_key a \<noteq> []" "is_suppressed db ck a = None"
  defines "db' \<equiv> fst (create_or_update_alert uuid adhoc ck a db)"
  shows "\<exists>y. snd (create_or_update_alert uuid adhoc ck a db) = Inr (Some (al_id y))
     \<and> open_alert (ai_dedup_key a) (rows (alerts db')) = Some y
     \<and> (\<forall>z. al_id z \<noteq> al_id y \<longrightarrow> (z \<in> set (rows (alerts db')) \<longleftrightarrow> z \<in> set (rows (alerts db))))
     \<and> (case open_alert (ai_dedup_key a) (rows (alerts db)) of
          None \<Rightarrow> al_count y = 1 \<and> al_status y = New \<and> al_severity y = ai_severity a
            \<and> length (rows (alerts db')) = Suc (length (rows (alerts db)))
        | Some x \<Rightarrow> al_id y = al_id x \<and> al_count y = al_count x + 1 \<and> al_status y = al_status x
            \<and> severity_rank (al_severity y) = max (severity_rank (al_severity x)) (severity_rank (ai_severity a))
            \<and> al_risk_score y = max (al_risk_score x) (ai_risk_score a)
            \<and> length (rows (alerts db')) = length (rows (alerts db)))"
proof (cases "open_alert (ai_dedup_key a) (rows (alerts db))")
  note ok = alert_ok_steps[OF assms(1) alert_ok_empty]
  case None
  show ?thesis
    unfolding db'_def create_new[OF ok assms(2,3) None] None
    by (intro exI[of _ "mk_alert (uuid, ai_dedup_key a, ck_iso ck, a) (Suc (seq (alerts db)))"])
      (simp add: open_alert_insert[OF ok None], auto simp: mk_alert_def)
next
  note ok = alert_ok_steps[OF assms(1) alert_ok_empty]
  case (Some x)
  have b: "al_id (bump (ck_iso ck) a x) = al_id x" for x by (simp add: bump_def)
  have "z \<in> set (update_where (\<lambda>y. al_id y = al_id x) (bump (ck_iso ck) a) (rows (alerts db))) \<longleftrightarrow> z \<in> set (rows (alerts db))"
    if "al_id z \<noteq> al_id x" for z
    using that b by (auto simp: in_set_update_where)
  then show ?thesis
    unfolding db'_def create_bump[OF ok assms(2,3) Some] Some
    by (intro exI[of _ "bump (ck_iso ck) a x"])
      (simp add: open_alert_bump[OF ok Some] b, simp add: bump_def max_def)
qed

lemma create_deduplicates_witness:
  "\<exists>y. open_alert ''k'' (rows (alerts (fst (create_or_update_alert ''u2'' [] sample_clock (sample_in ''k'' ''high'') one_alert))))
       = Some y \<and> al_count y = 2 \<and> al_id y = 1"
proof -
  let ?a = "sample_in ''k'' ''high''"
  note one_alert_steps
  moreover have "ai_dedup_key ?a = ''k''" by (simp add: sample_in_def)
  moreover have "is_suppressed one_alert sample_clock ?a = None"
    by (simp add: is_suppressed_def suppression_keys_def sample_in_def one_alert_eq empty_alert_db_def)
  moreover have "open_alert ''k'' (rows (alerts one_alert))
      = Some (mk_alert (''u1'', ''k'', ''2026-01-01T00:00:00'', sample_in ''k'' ''low'') 1)"
    by (simp add: one_alert_eq open_alert_def mk_alert_def)
  ultimately show ?thesis
    using create_deduplicates[of one_alert ?a sample_clock "''u2''" "[]"] by (auto simp: mk_alert_def)
qed

text \<open>
  A false-positive verdict that carries a suppression of a key without an expiry silences
  every later alert of the key, whatever happens in between: creation returns nothing and
  changes nothing.
\<close>

theorem false_positive_silences:
  assumes "mark_false_positive ck i actor note (Some m) db = (db1, Inr True)"
    and "or_str (sm_match_type m) ''dedup_key'' = ''dedup_key''" "sm_match_value m = Some key" "key \<noteq> []"
    and "or_str (sm_expires_at m) [] = []" "alert_step\<^sup>*\<^sup>* db1 db2" "ai_dedup_key a = key"
  shows "create_or_update_alert uuid adhoc ck2 a db2 = (db2, Inr None)"
proof -
  let ?s = "mk_suppression (i, actor, note, m) (Suc (seq (suppressions db)))"
  have "get_alert db i \<noteq> None"
    using assms(1) by (cases "get_alert db i") (simp_all add: mark_false_positive_def)
  then have sup: "suppressions (fst (mark_false_positive ck i actor note (Some m) db))
      = fst (insert_row (mk_suppression (i, actor, note, m)) (suppressions db))"
    using assms(3,4) by (simp add: false_positive_suppressions add_suppression_def case_prod_unfold)
  have "?s \<in> set (rows (suppressions db1))" using sup assms(1) by simp
  then have "?s \<in> set (rows (suppressions db2))" using steps_suppressions[OF assms(6)] by blast
  then show ?thesis
    using assms(2-5,7)
    by (intro suppressed_key[of ?s]) (simp_all add: mk_suppression_def suppression_active_def null_if_empty_def)
qed

lemma false_positive_silences_witness:
  "\<exists>db1. mark_false_positive sample_clock 1 ''alice'' [] (Some \<lparr>sm_name = None, sm_match_type = None,
       sm_match_value = Some ''k'', sm_reason = None, sm_expires_at = None\<rparr>) one_alert = (db1, Inr True)
     \<and> create_or_update_alert ''u2'' [] sample_clock (sample_in ''k'' ''critical'') db1 = (db1, Inr None)"
proof -
  let ?m = "\<lparr>sm_name = None, sm_match_type = None, sm_match_value = Some ''k'', sm_reason = None, sm_expires_at = None\<rparr>"
  have "snd (mark_false_positive sample_clock 1 ''alice'' [] (Some ?m) one_alert) = Inr True"
    by (simp add: mark_false_positive_def add_suppression_def act_def get_alert_def one_alert_eq empty_alert_db_def
        find_by_def mk_alert_def update_alert_def write_alerts_def open_keys_def insert_row_def Let_def)
  then obtain db1 where d: "mark_false_positive sample_clock 1 ''alice'' [] (Some ?m) one_alert = (db1, Inr True)"
    by (metis prod.collapse)
  have "create_or_update_alert ''u2'' [] sample_clock (sample_in ''k'' ''critical'') db1 = (db1, Inr None)"
    by (rule false_positive_silences[OF d]) (simp_all add: sample_in_def)
  with d show ?thesis by blast
qed

text \<open>
  Reopening a closed alert whose key has a newer open alert does not return a result: the
  unique index on open keys makes the update raise, and nothing changes.
\<close>

theorem reopen_clashes:
  assumes "alert_ok db" "get_alert db i = Some a" "\<not> open_status (al_status a)"
    and "open_alert (al_dedup_key a) (rows (alerts db)) = Some b"
  shows "reopen_alert ck i actor note db
     = (db, Inl (IntegrityError ''UNIQUE constraint failed: alerts.dedup_key''))"
  unfolding reopen_alert_def by (rule act_clash[OF assms]) simp_all


definition reopened :: alert_db where
  "reopened = one_alert
     \<lparr>alerts := \<lparr>rows = [(mk_alert (''u1'', ''k'', ''t'', sample_in ''k'' ''low'') 1)\<lparr>al_status := Closed\<rparr>,
                         mk_alert (''u2'', ''k'', ''t'', sample_in ''k'' ''low'') 2], seq = 2\<rparr>\<rparr>"

lemma reopen_clashes_witness:
  "reopen_alert sample_clock 1 ''alice'' [] reopened
     = (reopened, Inl (IntegrityError ''UNIQUE constraint failed: alerts.dedup_key''))"
proof (rule reopen_clashes)
  show "alert_ok reopened"
    by (simp add: alert_ok_def alert_table.pk_ok_def reopened_def one_alert_eq empty_alert_db_def open_keys_def
        mk_alert_def)
  show "get_alert reopened 1 = Some ((mk_alert (''u1'', ''k'', ''t'', sample_in ''k'' ''low'') 1)\<lparr>al_status := Closed\<rparr>)"
    by (simp add: get_alert_def reopened_def find_by_def mk_alert_def)
  show "open_alert (al_dedup_key ((mk_alert (''u1'', ''k'', ''t'', sample_in ''k'' ''low'') 1)\<lparr>al_status := Closed\<rparr>))
      (rows (alerts reopened)) = Some (mk_alert (''u2'', ''k'', ''t'', sample_in ''k'' ''low'') 2)"
    by (simp add: reopened_def open_alert_def mk_alert_def)
qed simp

end
