(* ===== verification/RiskScoring.thy ===== *)
theory RiskScoring
  imports Complex_Main PyString
begin

text \<open>
  \<^verbatim>\<open>app/services/risk_scoring.py\<close>: a score per address or user that grows with detections and halves every
  day.  Scores are real numbers in place of floats.  A row keeps the second of its last update, as
  SQLite's CURRENT_TIMESTAMP does, in UTC; the program reads that text as local time, which is
  \<open>parse_ts\<close> with the offset of the time zone.  A database that cannot be opened is \<open>None\<close>.
\<close>

section \<open>Rows\<close>

record risk_row =
  ri_id :: nat
  ri_type :: string
  ri_value :: string
  ri_score :: real
  ri_updated :: int

definition mk_risk :: "string \<times> string \<times> real \<times> int \<Rightarrow> nat \<Rightarrow> risk_row" where
  "mk_risk d i =
     (case d of (ty, v, score, now) \<Rightarrow>
        \<lparr>ri_id = i, ri_type = ty, ri_value = v, ri_score = score, ri_updated = now\<rparr>)"

definition sev_delta :: "string \<Rightarrow> real" where
  "sev_delta s =
     (case map_of [(''critical'', 25), (''high'', 10), (''medium'', 4), (''low'', 3 / 2), (''info'', 0)] s of
        None \<Rightarrow> 0 | Some d \<Rightarrow> d)"

definition half_life :: real where
  "half_life = 86400"

text \<open>\<open>datetime.fromisoformat(...).timestamp()\<close> of a text without a zone, east of Greenwich by \<open>zone\<close> seconds.\<close>

definition parse_ts :: "real \<Rightarrow> int \<Rightarrow> real" where
  "parse_ts zone stored = real_of_int stored - zone"

definition decayed :: "real \<Rightarrow> real \<Rightarrow> real \<Rightarrow> real" where
  "decayed score last_ts now =
     (if score \<le> 0 then 0 else score * (1 / 2) powr (max 0 (now - last_ts) / half_life))"

definition row_score :: "real \<Rightarrow> real \<Rightarrow> risk_row \<Rightarrow> real" where
  "row_score zone now r = decayed (ri_score r) (parse_ts zone (ri_updated r)) now"

section \<open>Operations\<close>

definition same_entity :: "string \<Rightarrow> string \<Rightarrow> risk_row \<Rightarrow> bool" where
  "same_entity ty v r \<longleftrightarrow> ri_type r = ty \<and> ri_value r = v"

definition bump ::
  "real \<Rightarrow> real \<Rightarrow> string option \<Rightarrow> string option \<Rightarrow> string option \<Rightarrow> risk_row table option
     \<Rightarrow> risk_row table option \<times> real" where
  "bump zone now entity_type entity_value severity db =
     (let ty = lower (strip (or_str entity_type [])); v = strip (or_str entity_value []);
          delta = sev_delta (lower (or_str severity ''info''))
      in if ty = [] \<or> v = [] \<or> delta \<le> 0 then (db, 0)
         else case db of
           None \<Rightarrow> (None, 0)
         | Some t \<Rightarrow>
             (case fetchone (filter (same_entity ty v) (rows t)) of
                Some r \<Rightarrow>
                  (let new = row_score zone now r + delta
                   in (Some (update_rows (same_entity ty v) (\<lambda>x. x\<lparr>ri_score := new, ri_updated := \<lfloor>now\<rfloor>\<rparr>) t), new))
              | None \<Rightarrow> (Some (fst (insert_row (mk_risk (ty, v, delta, \<lfloor>now\<rfloor>)) t)), delta)))"

definition current_score :: "real \<Rightarrow> real \<Rightarrow> string \<Rightarrow> string \<Rightarrow> risk_row table option \<Rightarrow> real" where
  "current_score zone now ty v db =
     (case db of
        None \<Rightarrow> 0
      | Some t \<Rightarrow>
          (case fetchone (filter (same_entity ty v) (rows t)) of None \<Rightarrow> 0 | Some r \<Rightarrow> row_score zone now r))"

text \<open>The scores behind the decay, sorted by the rounded score, highest first, then by the oldest update.\<close>

definition top_risky ::
  "real \<Rightarrow> real \<Rightarrow> (real \<Rightarrow> real) \<Rightarrow> int option \<Rightarrow> real \<Rightarrow> risk_row table option \<Rightarrow> (string \<times> string \<times> real \<times> int) list" where
  "top_risky zone now round2 limit min_score db =
     (case db of
        None \<Rightarrow> []
      | Some t \<Rightarrow>
          take (nat (max 1 (or_int limit 20)))
            (sort_key (\<lambda>(ty, v, score, upd). (- score, upd))
              (map (\<lambda>r. (ri_type r, ri_value r, round2 (row_score zone now r), ri_updated r))
                (filter (\<lambda>r. min_score \<le> row_score zone now r) (rows t)))))"

definition decay_all :: "real \<Rightarrow> real \<Rightarrow> risk_row table option \<Rightarrow> risk_row table option \<times> nat" where
  "decay_all zone now db =
     (case db of
        None \<Rightarrow> (None, 0)
      | Some t \<Rightarrow>
          (Some (update_rows (\<lambda>r. True) (\<lambda>r. r\<lparr>ri_score := row_score zone now r, ri_updated := \<lfloor>now\<rfloor>\<rparr>)
                   (delete_rows (\<lambda>r. row_score zone now r < 1 / 10) t)),
           length (filter (\<lambda>r. row_score zone now r < 1 / 10) (rows t))))"

section \<open>Decay\<close>

lemma decayed_nonneg: "0 \<le> decayed s l n"
  by (simp add: decayed_def)

lemma decayed_le: "0 \<le> s \<Longrightarrow> decayed s l n \<le> s"
proof (cases "s \<le> 0")
  case False
  have "(1 / 2) powr (max 0 (n - l) / half_life) \<le> (1 / 2 :: real) powr 0"
    by (intro powr_mono') (simp_all add: half_life_def)
  with False show ?thesis by (simp add: decayed_def mult_le_cancel_left1)
qed (simp add: decayed_def)

lemma decayed_antimono: "m \<le> n \<Longrightarrow> decayed s l n \<le> decayed s l m"
proof (cases "s \<le> 0")
  case False
  assume "m \<le> n"
  then have "(1 / 2) powr (max 0 (n - l) / half_life) \<le> (1 / 2 :: real) powr (max 0 (m - l) / half_life)"
    by (intro powr_mono' divide_right_mono) (simp_all add: half_life_def)
  with False show ?thesis by (simp add: decayed_def)
qed (simp add: decayed_def)

text \<open>Decaying up to a time and then from there is decaying at once.\<close>

lemma decayed_compose:
  assumes "l \<le> m" "m \<le> n"
  shows "decayed (decayed s l m) m n = decayed s l n"
proof (cases "s \<le> 0")
  case False
  have "(n - l) / half_life = (m - l) / half_life + (n - m) / half_life"
    by (simp flip: add_divide_distrib)
  moreover have "0 < s * (1 / 2) powr ((m - l) / half_life)" using False by simp
  ultimately show ?thesis using assms False by (simp add: decayed_def powr_add not_le)
qed (simp add: decayed_def)


section \<open>The table\<close>

interpretation risk_table: pk_table ri_id mk_risk
  by unfold_locales (auto simp: mk_risk_def)

definition entity :: "risk_row \<Rightarrow> string \<times> string" where
  "entity r = (ri_type r, ri_value r)"

definition risk_ok :: "risk_row table \<Rightarrow> bool" where
  "risk_ok t \<longleftrightarrow> risk_table.pk_ok t \<and> distinct (map entity (rows t)) \<and> (\<forall>r \<in> set (rows t). 0 < ri_score r)"

lemma fetch_entity: "fetchone (filter (same_entity ty v) rs) = find_by entity (ty, v) rs"
  unfolding find_by_def by (simp add: same_entity_def entity_def cong: filter_cong)

lemma map_update_entity: "(\<And>r. entity (f r) = entity r) \<Longrightarrow> map entity (update_where P f rs) = map entity rs"
  by (simp add: map_update_where)

lemma sev_delta_nonneg: "0 \<le> sev_delta s"
  by (simp add: sev_delta_def split: option.split)

text \<open>
  A bump keeps one row per entity with a positive score, and what it returns is the score the row
  then has: the decayed score of before, or nothing, plus what the severity adds.
\<close>

theorem bump_adds:
  assumes "risk_ok t" "lower (strip (or_str ty0 [])) = ty" "strip (or_str v0 []) = v"
    and "ty \<noteq> []" "v \<noteq> []" "0 < sev_delta (lower (or_str sev ''info''))"
  shows "\<exists>t'. bump zone now ty0 v0 sev (Some t)
      = (Some t', current_score zone now ty v (Some t) + sev_delta (lower (or_str sev ''info'')))
    \<and> risk_ok t' \<and> map_option ri_score (find_by entity (ty, v) (rows t'))
      = Some (current_score zone now ty v (Some t) + sev_delta (lower (or_str sev ''info'')))"
proof (cases "find_by entity (ty, v) (rows t)")
  case None
  let ?r = "mk_risk (ty, v, sev_delta (lower (or_str sev ''info'')), \<lfloor>now\<rfloor>)"
  have e: "entity (?r i) = (ty, v)" for i by (simp add: entity_def mk_risk_def)
  have "risk_ok (fst (insert_row ?r t))"
    using assms(1,6) None e risk_table.pk_ok_insert by (auto simp: risk_ok_def find_by_None mk_risk_def)
  then show ?thesis
    using assms(2-6) None e
    by (simp add: bump_def current_score_def fetch_entity Let_def find_by_append not_le del: or_str_None_empty)
      (simp add: mk_risk_def)
next
  case (Some r)
  let ?new = "row_score zone now r + sev_delta (lower (or_str sev ''info''))"
  let ?f = "\<lambda>x. x\<lparr>ri_score := ?new, ri_updated := \<lfloor>now\<rfloor>\<rparr>"
  let ?t = "update_rows (same_entity ty v) ?f t"
  have e: "entity (?f x) = entity x" for x by (simp add: entity_def)
  have P: "same_entity ty v = (\<lambda>x. entity x = (ty, v))" by (auto simp: same_entity_def entity_def)
  have pos: "0 < ?new" using assms(6) decayed_nonneg[of "ri_score r"] by (simp add: row_score_def add_nonneg_pos)
  have "risk_table.pk_ok ?t" using assms(1) by (auto simp: risk_ok_def intro: risk_table.pk_ok_update)
  moreover have "distinct (map entity (rows ?t))" using assms(1) e by (simp add: risk_ok_def map_update_entity)
  moreover have "\<forall>x \<in> set (rows ?t). 0 < ri_score x" using assms(1) pos by (auto simp: risk_ok_def in_set_update_where)
  moreover have "find_by entity (ty, v) (rows ?t) = Some (?f r)"
    using find_by_update[of entity ?f "(ty, v)" "rows t"] e Some by (simp add: P)
  ultimately show ?thesis
    using assms(2-6) Some
    by (simp add: bump_def current_score_def fetch_entity Let_def not_le risk_ok_def del: or_str_None_empty)
qed

lemma find_by_filter:
  "distinct (map k rs) \<Longrightarrow> find_by k x (filter P rs) = (case find_by k x rs of None \<Rightarrow> None | Some r \<Rightarrow> if P r then Some r else None)"
proof (induction rs)
  case (Cons a rs)
  show ?case
  proof (cases "k a = x")
    case True
    then have "find_by k x rs = None" using Cons.prems by (auto simp: find_by_None)
    then show ?thesis using Cons True by simp
  qed (use Cons in simp)
qed simp

lemma find_by_map: "(\<And>r. k (f r) = k r) \<Longrightarrow> find_by k x (map f rs) = map_option f (find_by k x rs)"
  by (induction rs) auto

text \<open>
  On an appliance whose clock runs in UTC, the sweep that writes the decayed scores back changes no
  later score, except that an entity whose score has fallen below a tenth is forgotten.
\<close>

theorem sweep_transparent:
  assumes "risk_ok t" "\<forall>r \<in> set (rows t). ri_updated r \<le> m" "real_of_int m \<le> n"
  shows "current_score 0 n ty v (fst (decay_all 0 (real_of_int m) (Some t)))
    = (if current_score 0 (real_of_int m) ty v (Some t) < 1 / 10 then 0 else current_score 0 n ty v (Some t))"
proof -
  let ?f = "\<lambda>r. r\<lparr>ri_score := row_score 0 (real_of_int m) r, ri_updated := \<lfloor>real_of_int m\<rfloor>\<rparr>"
  let ?P = "\<lambda>r. \<not> row_score 0 (real_of_int m) r < 1 / 10"
  have e: "entity (?f r) = entity r" for r by (simp add: entity_def)
  have d: "distinct (map entity (rows t))" using assms(1) by (simp add: risk_ok_def)
  have "find_by entity (ty, v) (rows (update_rows (\<lambda>r. True) ?f (delete_rows (\<lambda>r. \<not> ?P r) t)))
      = map_option ?f (find_by entity (ty, v) (filter ?P (rows t)))"
    using find_by_map[of entity ?f, OF e] by (simp add: update_where_def)
  then have f: "find_by entity (ty, v) (rows (update_rows (\<lambda>r. True) ?f (delete_rows (\<lambda>r. \<not> ?P r) t)))
      = (case find_by entity (ty, v) (rows t) of None \<Rightarrow> None | Some r \<Rightarrow> if ?P r then Some (?f r) else None)"
    by (simp add: find_by_filter[OF d] split: option.split)
  show ?thesis
  proof (cases "find_by entity (ty, v) (rows t)")
    case None
    then show ?thesis using f by (simp add: current_score_def decay_all_def fetch_entity)
  next
    case (Some r)
    then have "ri_updated r \<le> m" using assms(2) by (auto dest: find_by_SomeD)
    then have "row_score 0 n (?f r) = row_score 0 n r"
      using decayed_compose[of "real_of_int (ri_updated r)" "real_of_int m" n "ri_score r"] assms(3)
      by (simp add: row_score_def parse_ts_def)
    then show ?thesis using Some f by (simp add: current_score_def decay_all_def fetch_entity)
  qed
qed

text \<open>
  On an appliance east of Greenwich a score is smaller than what was just added: the row's UTC text is
  read as local time, so it looks \<open>zone\<close> seconds old the moment it is written.
\<close>

theorem east_zone_loses_score:
  assumes "0 < zone" "bump zone (real_of_int now) ty0 v0 sev (Some t) = (Some t', s)" "0 < s" "risk_ok t"
    and "ty = lower (strip (or_str ty0 []))" "v = strip (or_str v0 [])"
  shows "current_score zone (real_of_int now) ty v (Some t') = s * (1 / 2) powr (zone / half_life)
    \<and> current_score zone (real_of_int now) ty v (Some t') < s"
proof -
  have c: "ty \<noteq> []" "v \<noteq> []" "0 < sev_delta (lower (or_str sev ''info''))"
    using assms(2,3,5,6) by (auto simp: bump_def Let_def split: if_splits)
  obtain r :: risk_row where r: "find_by entity (ty, v) (rows t') = Some r" "ri_score r = s" "ri_updated r = now"
  proof (cases "find_by entity (ty, v) (rows t)")
    case None
    then have "t' = fst (insert_row (mk_risk (ty, v, s, now)) t)"
      using assms(2,5,6) c by (auto simp: bump_def fetch_entity Let_def not_le)
    then show thesis using None by (intro that[of "mk_risk (ty, v, s, now) (Suc (seq t))"])
      (simp_all add: find_by_append mk_risk_def entity_def)
  next
    case (Some q)
    then have t': "t' = update_rows (same_entity ty v) (\<lambda>x :: risk_row. x\<lparr>ri_score := s, ri_updated := now\<rparr>) t"
      using assms(2,5,6) c by (auto simp: bump_def fetch_entity Let_def not_le)
    have "same_entity ty v = (\<lambda>x. entity x = (ty, v))" by (auto simp: same_entity_def entity_def)
    then have "find_by entity (ty, v) (rows t') = Some ((q :: risk_row)\<lparr>ri_score := s, ri_updated := now\<rparr>)"
      using find_by_update[of entity "\<lambda>x :: risk_row. x\<lparr>ri_score := s, ri_updated := now\<rparr>" "(ty, v)" "rows t"] Some t'
      by (simp add: entity_def)
    moreover have "ri_score ((q :: risk_row)\<lparr>ri_score := s, ri_updated := now\<rparr>) = s"
      "ri_updated ((q :: risk_row)\<lparr>ri_score := s, ri_updated := now\<rparr>) = now" by simp_all
    ultimately show thesis by (rule that)
  qed
  have "current_score zone (real_of_int now) ty v (Some t') = s * (1 / 2) powr (zone / half_life)"
    using r assms(1,3) by (simp add: current_score_def fetch_entity row_score_def parse_ts_def decayed_def not_le)
  moreover have "(1 / 2) powr (zone / half_life) < (1 / 2 :: real) powr 0"
    using assms(1) by (intro powr_less_mono') (simp_all add: half_life_def)
  ultimately show ?thesis using assms(3) by simp
qed


section \<open>Examples\<close>

definition one_risk :: "risk_row table" where
  "one_risk = \<lparr>rows = [mk_risk (''ip'', ''10.0.0.9'', 10, 0) 1], seq = 1\<rparr>"

lemma one_risk_ok: "risk_ok one_risk"
  by (simp add: one_risk_def risk_ok_def risk_table.pk_ok_def mk_risk_def)

lemma risk_text: "lower (strip ''ip'') = ''ip''" "strip ''10.0.0.9'' = ''10.0.0.9''" "lower ''high'' = ''high''"
  by (simp_all add: lower_def to_lower_def strip_def lstrip_def rstrip_def char_class_defs)

lemma bump_adds_witness:
  "snd (bump 0 86400 (Some ''ip'') (Some ''10.0.0.9'') (Some ''high'') (Some one_risk)) = 15"
proof -
  have "current_score 0 86400 ''ip'' ''10.0.0.9'' (Some one_risk) = 5"
    by (simp add: current_score_def one_risk_def same_entity_def mk_risk_def row_score_def decayed_def parse_ts_def half_life_def)
  then show ?thesis
    using bump_adds[OF one_risk_ok, of "Some ''ip''" "''ip''" "Some ''10.0.0.9''" "''10.0.0.9''" "Some ''high''" 0 86400]
    by (auto simp: risk_text sev_delta_def to_lower_def char_class_defs)
qed

lemma sweep_transparent_witness:
  "current_score 0 86400 ''ip'' ''10.0.0.9'' (fst (decay_all 0 (real_of_int 0) (Some one_risk))) = 5"
proof -
  have "current_score 0 86400 ''ip'' ''10.0.0.9'' (Some one_risk) = 5" "current_score 0 0 ''ip'' ''10.0.0.9'' (Some one_risk) = 10"
    by (simp_all add: current_score_def one_risk_def same_entity_def mk_risk_def row_score_def decayed_def parse_ts_def half_life_def)
  then show ?thesis
    using sweep_transparent[OF one_risk_ok, of 0 86400 "''ip''" "''10.0.0.9''"] by (simp add: one_risk_def mk_risk_def)
qed

lemma east_zone_loses_score_witness:
  "\<exists>t'. bump 86400 (real_of_int 0) (Some ''ip'') (Some ''10.0.0.9'') (Some ''high'') (Some empty_table) = (Some t', 10)
     \<and> current_score 86400 (real_of_int 0) ''ip'' ''10.0.0.9'' (Some t') = 5"
proof -
  have "\<exists>t'. bump 86400 (real_of_int 0) (Some ''ip'') (Some ''10.0.0.9'') (Some ''high'') (Some empty_table) = (Some t', 10)"
    by (simp add: bump_def risk_text sev_delta_def to_lower_def char_class_defs)
  then obtain t' where b: "bump 86400 (real_of_int 0) (Some ''ip'') (Some ''10.0.0.9'') (Some ''high'') (Some empty_table) = (Some t', 10)"
    by blast
  have "risk_ok empty_table" by (simp add: risk_ok_def risk_table.pk_ok_empty)
  then show ?thesis
    using east_zone_loses_score[OF _ b _ _, of "''ip''" "''10.0.0.9''"] b by (auto simp: risk_text half_life_def to_lower_def char_class_defs)
qed

end
