(* ===== verification/CorrelationEngine.thy ===== *)
theory CorrelationEngine
  imports Playbooks AlertService RiskScoring "HOL-Library.AList" "HOL-Library.Multiset"
begin

text \<open>
  \<^verbatim>\<open>app/services/correlation_engine.py\<close>: rules that count events of a window by group and, past a
  threshold, log a security event, open a case, raise an alert and bump a risk score; and the simulator.
  The events are read from the event store that \<open>log_event\<close> fills (\<open>tail_events_since\<close> of
  \<^verbatim>\<open>audit_log.py\<close>).  Times are real numbers of seconds; the ISO texts of the clock are arguments.
\<close>

section \<open>The event store\<close>

text \<open>What a value becomes in a TEXT column; a list or a dict cannot be bound and the row is not written.\<close>

fun column_text :: "pyval \<Rightarrow> string option" where
  "column_text PNone = Some []"
| "column_text (PBool b) = Some (if b then ''1'' else ''0'')"
| "column_text (PList vs) = None"
| "column_text (PDict kvs) = None"
| "column_text v = Some (py_str_of v)"

text \<open>The dict \<open>_row_to_event\<close> makes of a row; \<open>uuid\<close> is the identifier the row was given.\<close>

record stored_event =
  se_ts :: string
  se_severity :: string
  se_category :: string
  se_action :: string
  se_username :: string
  se_remote :: string
  se_details :: pyval
  se_uuid :: string

definition stored :: "(nat \<Rightarrow> string) \<Rightarrow> nat \<times> event \<Rightarrow> stored_event option" where
  "stored uuid ne =
     (case ne of (n, e) \<Rightarrow>
       (case (column_text (ev_severity e), column_text (ev_category e), column_text (ev_action e)) of
          (Some sev, Some cat, Some ac) \<Rightarrow>
            Some \<lparr>se_ts = ev_ts e, se_severity = (if sev = [] then ''info'' else sev), se_category = cat, se_action = ac,
                  se_username = (if ev_user e = [] then ''anonymous'' else ev_user e), se_remote = ev_remote e,
                  se_details = ev_details e, se_uuid = uuid n\<rparr>
        | _ \<Rightarrow> None))"

text \<open>The query with the arguments the engine gives: a start, a limit and the categories; \<open>None\<close> of \<open>stored\<close> is a row the insert refused.\<close>

definition tail_events_since :: "(nat \<Rightarrow> string) \<Rightarrow> event list \<Rightarrow> string \<Rightarrow> nat \<Rightarrow> string list \<Rightarrow> stored_event list" where
  "tail_events_since uuid evs start_ts limit categories =
     take limit
       (filter (\<lambda>e. (start_ts = [] \<or> start_ts \<le> se_ts e) \<and> (categories = [] \<or> se_category e \<in> set categories))
         (rev (List.map_filter (stored uuid) (number_from 0 evs))))"

section \<open>Rules\<close>

record corr_rule =
  cu_id :: nat
  cu_name :: string
  cu_enabled :: "int option"
  cu_category :: "string option"
  cu_action :: "string option"
  cu_group :: "string option"
  cu_threshold :: "int option"
  cu_window :: "int option"
  cu_severity :: "string option"
  cu_mitre :: "string option"
  cu_prereq :: "string option"
  cu_auto_case :: "int option"

definition comma_list :: "string \<Rightarrow> string list" where
  "comma_list s = filter (\<lambda>a. a \<noteq> []) (map strip (split_on (CHR '','') s))"

definition rule_actions :: "corr_rule \<Rightarrow> string list" where
  "rule_actions r = comma_list (or_str (cu_action r) [])"

definition rule_prereq :: "corr_rule \<Rightarrow> string" where
  "rule_prereq r = strip (or_str (cu_prereq r) [])"

definition enabled_rules :: "corr_rule list option \<Rightarrow> corr_rule list" where
  "enabled_rules t = (case t of None \<Rightarrow> [] | Some rs \<Rightarrow> filter (\<lambda>r. cu_enabled r = Some 1) rs)"

definition event_field :: "stored_event \<Rightarrow> string \<Rightarrow> pyval option" where
  "event_field e k =
     map_of [(''timestamp'', PStr (se_ts e)), (''severity'', PStr (se_severity e)), (''category'', PStr (se_category e)),
             (''action'', PStr (se_action e)), (''username'', PStr (se_username e)), (''remote_addr'', PStr (se_remote e)),
             (''details'', se_details e), (''event_uuid'', PStr (se_uuid e))] k"

text \<open>\<open>str(x or "")\<close> of an entry.\<close>

definition text_or_empty :: "pyval option \<Rightarrow> string" where
  "text_or_empty x = py_str_of (or_val x (PStr []))"

definition group_value :: "stored_event \<Rightarrow> string \<Rightarrow> string res" where
  "group_value e group_by =
     (if group_by = [] then Inr ''*''
      else if startswith group_by ''details.''
      then bind_res (get_attr (or_dict (se_details e)) (drop 8 group_by)) (\<lambda>x. Inr (text_or_empty x))
      else Inr (text_or_empty (event_field e group_by)))"

definition bump_count :: "string \<Rightarrow> (string \<times> nat) list \<Rightarrow> (string \<times> nat) list" where
  "bump_count gv counts =
     (if gv \<in> fst ` set counts then map (\<lambda>(k, n). if k = gv then (k, Suc n) else (k, n)) counts
      else counts @ [(gv, 1)])"

text \<open>The action of an event counts for a rule.\<close>

definition counts_for :: "corr_rule \<Rightarrow> string \<Rightarrow> bool" where
  "counts_for r a \<longleftrightarrow>
     a \<noteq> ''correlation_match'' \<and>
     (if rule_actions r \<noteq> [] then a \<in> set (rule_actions r)
      else \<not> (rule_prereq r \<noteq> [] \<and> a = rule_prereq r))"

fun filter_events ::
  "corr_rule \<Rightarrow> stored_event list \<Rightarrow> (string \<times> nat) list \<Rightarrow> string list \<Rightarrow> ((string \<times> nat) list \<times> string list) res" where
  "filter_events r [] counts groups = Inr (counts, groups)"
| "filter_events r (e # es) counts groups =
     (if se_action e = ''correlation_match'' then filter_events r es counts groups
      else bind_res (group_value e (or_str (cu_group r) [])) (\<lambda>gv.
        filter_events r es
          (if counts_for r (se_action e) then bump_count gv counts else counts)
          (if rule_prereq r \<noteq> [] \<and> se_action e = rule_prereq r then gv # groups else groups)))"

section \<open>State\<close>

record siem_case =
  sm_id :: nat
  sm_title :: string
  sm_description :: string
  sm_severity :: string
  sm_source_event :: string
  sm_tags :: string

record siem_case_event =
  sv_id :: nat
  sv_case :: nat
  sv_timestamp :: string
  sv_summary :: string

text \<open>\<open>co_fired\<close> is the cooldown map; \<open>None\<close> for the cases is a missing table.\<close>

record 'w corr_state =
  co_pb :: "'w pb_state"
  co_alerts :: alert_db
  co_risk :: "risk_row table option"
  co_cases :: "(siem_case table \<times> siem_case_event table) option"
  co_fired :: "((nat \<times> string) \<times> real) list"

record 'w corr_env =
  ce_pb :: "'w pb_env"
  ce_clock :: clock
  ce_now :: real
  ce_zone :: real
  ce_iso :: string
  ce_start :: "int \<Rightarrow> string res"
  ce_uuid :: "nat \<Rightarrow> string"
  ce_alert_uuid :: string
  ce_adhoc :: string

definition cooldown :: real where
  "cooldown = 600"

section \<open>A match\<close>

definition mk_siem :: "string \<times> string \<times> string \<times> string \<times> string \<Rightarrow> nat \<Rightarrow> siem_case" where
  "mk_siem d i =
     (case d of (title, descr, sev, src, tags) \<Rightarrow>
        \<lparr>sm_id = i, sm_title = title, sm_description = descr, sm_severity = sev, sm_source_event = src, sm_tags = tags\<rparr>)"

definition mk_siem_event :: "nat \<times> string \<times> string \<Rightarrow> nat \<Rightarrow> siem_case_event" where
  "mk_siem_event d i =
     (case d of (case_id, ts, summary) \<Rightarrow> \<lparr>sv_id = i, sv_case = case_id, sv_timestamp = ts, sv_summary = summary\<rparr>)"

definition rule_window :: "corr_rule \<Rightarrow> int" where
  "rule_window r = or_int (cu_window r) 300"

definition rule_threshold :: "corr_rule \<Rightarrow> int" where
  "rule_threshold r = or_int (cu_threshold r) 5"

definition rule_severity :: "corr_rule \<Rightarrow> string" where
  "rule_severity r = or_str (cu_severity r) ''high''"

definition named_or :: "string \<Rightarrow> string \<Rightarrow> string" where
  "named_or s d = (if s = [] then d else s)"

definition case_text :: "corr_rule \<Rightarrow> string \<Rightarrow> nat \<Rightarrow> string \<Rightarrow> string" where
  "case_text r gv hits fired_ts =
     ''Correlation rule '' @ apos @ cu_name r @ apos @ '' fired automatically.'' @ nl @
     ''group_by='' @ or_str (cu_group r) ''*'' @ ''; group_value='' @ gv @ '';'' @ nl @
     ''matches='' @ str_nat hits @ '' within '' @ str_int (rule_window r) @ ''s;'' @ nl @
     ''MITRE technique: '' @ or_str (cu_mitre r) ''-'' @ nl @ nl @
     ''Investigate the events near '' @ fired_ts @ '' for this group and decide '' @
     ''whether to escalate or mark as a false positive.''"

definition maybe_open_case ::
  "corr_rule \<Rightarrow> string \<Rightarrow> nat \<Rightarrow> string \<Rightarrow> (siem_case table \<times> siem_case_event table) option
     \<Rightarrow> (siem_case table \<times> siem_case_event table) option" where
  "maybe_open_case r gv hits fired_ts db =
     (if \<not> truthy_int (cu_auto_case r) then db
      else case db of
        None \<Rightarrow> None
      | Some (cases, links) \<Rightarrow>
          (let title = ''[Auto] '' @ named_or (cu_name r) ''Correlation match'' @
                 (if gv \<noteq> [] \<and> gv \<noteq> ''*'' then '' '' @ em_dash @ '' '' @ gv else []);
               (cases1, i) = insert_row (mk_siem (title, case_text r gv hits fired_ts, lower (rule_severity r), fired_ts,
                                          ''auto,correlation,rule:'' @ str_nat (cu_id r))) cases
           in Some (cases1, fst (insert_row (mk_siem_event (i, fired_ts,
                      cu_name r @ '' fired for '' @ gv @ '' ('' @ str_nat hits @ '' matches)'')) links))))"

definition match_details :: "corr_rule \<Rightarrow> string \<Rightarrow> nat \<Rightarrow> pyval" where
  "match_details r gv hits =
     PDict [(''rule'', PStr (cu_name r)), (''rule_id'', PInt (int (cu_id r))), (''mitre_technique'', PStr (or_str (cu_mitre r) [])),
            (''group_by'', PStr (or_str (cu_group r) [])), (''group_value'', PStr gv), (''count'', PInt (int hits)),
            (''threshold'', PInt (rule_threshold r)), (''window_seconds'', PInt (rule_window r)),
            (''prerequisite_action'', if rule_prereq r = [] then PNone else PStr (rule_prereq r)),
            (''auto_case'', PBool (truthy_int (cu_auto_case r)))]"

definition groups_by_source :: "string \<Rightarrow> bool" where
  "groups_by_source gb \<longleftrightarrow> gb = ''remote_addr'' \<or> endswith gb ''ip''"

definition alert_args :: "corr_rule \<Rightarrow> string \<Rightarrow> nat \<Rightarrow> string \<Rightarrow> alert_in" where
  "alert_args r gv hits uuid =
     (let gb = lower (or_str (cu_group r) []) in
      \<lparr>ai_dedup_key = ''corr:'' @ str_nat (cu_id r) @ '':'' @ gv, ai_title = named_or (cu_name r) ''Correlation match'',
       ai_severity = rule_severity r, ai_category = ''security'', ai_alert_type = ''correlation_match'',
       ai_description = cu_name r @ '' fired for '' @ gv @ '' ('' @ str_nat hits @ '' matches in '' @ str_int (rule_window r) @ ''s)'',
       ai_event_id = None, ai_event_uuid = uuid, ai_src_ip = (if groups_by_source gb then gv else []), ai_dst_ip = [],
       ai_username = (if gb = ''username'' \<or> gb = ''user'' then gv else []), ai_hostname = [], ai_mac = [], ai_domain = [],
       ai_rule_id = str_nat (cu_id r), ai_rule_name = cu_name r, ai_signature_id = [], ai_mitre_tactic = [],
       ai_mitre_technique = or_str (cu_mitre r) [], ai_risk_score = real hits,
       ai_details = [(''group_by'', PStr (or_str (cu_group r) [])), (''group_value'', PStr gv), (''count'', PInt (int hits)),
                     (''threshold'', PInt (rule_threshold r)), (''window_seconds'', PInt (rule_window r))]\<rparr>)"

definition bump_group :: "'w corr_env \<Rightarrow> corr_rule \<Rightarrow> string \<Rightarrow> risk_row table option \<Rightarrow> risk_row table option" where
  "bump_group env r gv db =
     (let gb = lower (or_str (cu_group r) []) in
      if groups_by_source gb then fst (bump (ce_zone env) (ce_now env) (Some ''ip'') (Some gv) (Some (rule_severity r)) db)
      else if gb = ''username'' \<or> gb = ''user''
      then fst (bump (ce_zone env) (ce_now env) (Some ''username'') (Some gv) (Some (rule_severity r)) db)
      else db)"

definition match_event :: "'w corr_env \<Rightarrow> corr_rule \<Rightarrow> string \<Rightarrow> nat \<Rightarrow> event" where
  "match_event env r gv hits =
     mk_event (ce_pb env) (PStr ''security'') (PStr ''correlation_match'') ''siem''
       (if cu_group r = Some ''remote_addr'' then gv else []) (PStr (rule_severity r)) (match_details r gv hits)"

definition fire :: "'w corr_env \<Rightarrow> corr_rule \<Rightarrow> string \<Rightarrow> nat \<Rightarrow> 'w corr_state \<Rightarrow> 'w corr_state" where
  "fire env r gv hits s =
     (let uuid = ce_uuid env (length (ps_log (co_pb s)))
      in s\<lparr>co_fired := AList.update (cu_id r, gv) (ce_now env) (co_fired s),
           co_pb := log_event (ce_pb env) False (match_event env r gv hits) (co_pb s),
           co_cases := maybe_open_case r gv hits (ce_iso env) (co_cases s),
           co_alerts := fst (create_or_update_alert (ce_alert_uuid env) (ce_adhoc env) (ce_clock env)
                               (alert_args r gv hits uuid) (co_alerts s)),
           co_risk := bump_group env r gv (co_risk s)\<rparr>)"

section \<open>One evaluation\<close>

definition rule_cats :: "corr_rule \<Rightarrow> string list" where
  "rule_cats r = comma_list (or_str (cu_category r) [])"

definition last_fired :: "'w corr_state \<Rightarrow> nat \<times> string \<Rightarrow> real" where
  "last_fired s k = (case map_of (co_fired s) k of None \<Rightarrow> 0 | Some t \<Rightarrow> t)"

text \<open>Whether a group of the counts is a match of the rule.\<close>

definition matches :: "corr_rule \<Rightarrow> string list \<Rightarrow> string \<Rightarrow> nat \<Rightarrow> bool" where
  "matches r groups gv n \<longleftrightarrow> rule_threshold r \<le> int n \<and> (rule_prereq r = [] \<or> gv \<in> set groups)"

fun fire_groups ::
  "'w corr_env \<Rightarrow> corr_rule \<Rightarrow> string list \<Rightarrow> (string \<times> nat) list \<Rightarrow> 'w corr_state \<times> nat \<Rightarrow> 'w corr_state \<times> nat" where
  "fire_groups env r groups [] (s, fired) = (s, fired)"
| "fire_groups env r groups ((gv, n) # rest) (s, fired) =
     (if \<not> matches r groups gv n then fire_groups env r groups rest (s, fired)
      else if ce_now env - last_fired s (cu_id r, gv) < cooldown then fire_groups env r groups rest (s, fired)
      else fire_groups env r groups rest (fire env r gv n s, Suc fired))"

definition window_events :: "'w corr_env \<Rightarrow> corr_rule \<Rightarrow> 'w corr_state \<Rightarrow> stored_event list res" where
  "window_events env r s =
     bind_res (ce_start env (rule_window r)) (\<lambda>start.
       Inr (tail_events_since (ce_uuid env) (ps_log (co_pb s)) start 5000 (rule_cats r)))"

text \<open>An exception of one rule leaves the others alone.\<close>

definition run_rule :: "'w corr_env \<Rightarrow> corr_rule \<Rightarrow> 'w corr_state \<times> nat \<Rightarrow> 'w corr_state \<times> nat" where
  "run_rule env r sn =
     (case bind_res (window_events env r (fst sn)) (\<lambda>es. filter_events r es [] []) of
        Inl e \<Rightarrow> sn
      | Inr (counts, groups) \<Rightarrow> fire_groups env r groups counts sn)"

definition bound_fired :: "real \<Rightarrow> 'w corr_state \<Rightarrow> 'w corr_state" where
  "bound_fired now s =
     (if 5000 < length (co_fired s)
      then s\<lparr>co_fired := filter (\<lambda>(k, t). \<not> cooldown < now - t) (co_fired s)\<rparr> else s)"

definition evaluate :: "'w corr_env \<Rightarrow> corr_rule list option \<Rightarrow> 'w corr_state \<Rightarrow> 'w corr_state \<times> nat" where
  "evaluate env table s =
     (if enabled_rules table = [] then (s, 0)
      else case fold (run_rule env) (enabled_rules table) (s, 0) of
        (s1, fired) \<Rightarrow> (bound_fired (ce_now env) s1, fired))"

section \<open>The simulator\<close>

record bucket =
  bu_key :: "int \<times> string"
  bu_count :: nat
  bu_first :: string
  bu_last :: string

text \<open>\<open>int(ts)\<close> drops the fraction.\<close>

definition whole_seconds :: "real \<Rightarrow> int" where
  "whole_seconds t = (if t < 0 then - \<lfloor>- t\<rfloor> else \<lfloor>t\<rfloor>)"

definition add_to_bucket :: "int \<times> string \<Rightarrow> string \<Rightarrow> bucket list \<Rightarrow> bucket list" where
  "add_to_bucket key ts bs =
     update_where (\<lambda>b. bu_key b = key)
       (\<lambda>b. b\<lparr>bu_count := Suc (bu_count b), bu_first := (if ts < bu_first b then ts else bu_first b),
              bu_last := (if bu_last b < ts then ts else bu_last b)\<rparr>)
       (if key \<in> bu_key ` set bs then bs
        else bs @ [\<lparr>bu_key = key, bu_count = 0, bu_first = ts, bu_last = ts\<rparr>])"

fun sim_events ::
  "(string \<Rightarrow> real option) \<Rightarrow> corr_rule \<Rightarrow> stored_event list \<Rightarrow> bucket list \<Rightarrow> string list
     \<Rightarrow> (bucket list \<times> string list) res" where
  "sim_events ts_of r [] bs groups = Inr (bs, groups)"
| "sim_events ts_of r (e # es) bs groups =
     (case ts_of (se_ts e) of
        None \<Rightarrow> sim_events ts_of r es bs groups
      | Some t \<Rightarrow>
          bind_res (group_value e (or_str (cu_group r) [])) (\<lambda>gv.
            (if se_action e = ''correlation_match'' then sim_events ts_of r es bs groups
             else sim_events ts_of r es
                (if counts_for r (se_action e)
                 then add_to_bucket (whole_seconds t div max (rule_window r) 1, gv) (se_ts e) bs else bs)
                (if rule_prereq r \<noteq> [] \<and> se_action e = rule_prereq r then gv # groups else groups))))"

record sim_match =
  sx_group :: string
  sx_count :: nat
  sx_first :: string
  sx_last :: string
  sx_case :: bool

record sim_result =
  sz_evaluated :: nat
  sz_would_fire :: nat
  sz_matches :: "sim_match list"

text \<open>The hours behind the clamp, and the sample limit.\<close>

definition scan_hours :: "int option \<Rightarrow> int" where
  "scan_hours hours = max 1 (min (or_int hours 24) 720)"

definition sim_matches :: "corr_rule \<Rightarrow> bucket list \<Rightarrow> string list \<Rightarrow> sim_match list" where
  "sim_matches r bs groups =
     map (\<lambda>b. \<lparr>sx_group = snd (bu_key b), sx_count = bu_count b, sx_first = bu_first b, sx_last = bu_last b,
               sx_case = truthy_int (cu_auto_case r)\<rparr>)
       (filter (\<lambda>b. matches r groups (snd (bu_key b)) (bu_count b)) bs)"

definition simulate ::
  "(nat \<Rightarrow> string) \<Rightarrow> (int \<Rightarrow> string) \<Rightarrow> (string \<Rightarrow> real option) \<Rightarrow> corr_rule \<Rightarrow> int option \<Rightarrow> int option \<Rightarrow> event list
     \<Rightarrow> sim_result res" where
  "simulate uuid start_of ts_of r hours sample_limit evs =
     (let events = tail_events_since uuid evs (start_of (scan_hours hours)) 20000 (rule_cats r) in
      bind_res (sim_events ts_of r events [] []) (\<lambda>(bs, groups).
        Inr \<lparr>sz_evaluated = length events, sz_would_fire = length (sim_matches r bs groups),
             sz_matches = take (nat (max 0 (or_int sample_limit 20)))
               (sort_key (\<lambda>m. - int (sx_count m)) (sim_matches r bs groups))\<rparr>))"

section \<open>What a window counts\<close>

definition group_of :: "corr_rule \<Rightarrow> stored_event \<Rightarrow> string res" where
  "group_of r e = group_value e (or_str (cu_group r) [])"

definition group_count :: "corr_rule \<Rightarrow> stored_event list \<Rightarrow> string \<Rightarrow> nat" where
  "group_count r es gv = length (filter (\<lambda>e. counts_for r (se_action e) \<and> group_of r e = Inr gv) es)"

definition prereq_seen :: "corr_rule \<Rightarrow> stored_event list \<Rightarrow> string \<Rightarrow> bool" where
  "prereq_seen r es gv \<longleftrightarrow>
     (\<exists>e \<in> set es. se_action e \<noteq> ''correlation_match'' \<and> rule_prereq r \<noteq> [] \<and> se_action e = rule_prereq r \<and> group_of r e = Inr gv)"

definition groups_readable :: "corr_rule \<Rightarrow> stored_event list \<Rightarrow> bool" where
  "groups_readable r es \<longleftrightarrow> (\<forall>e \<in> set es. se_action e \<noteq> ''correlation_match'' \<longrightarrow> (\<exists>gv. group_of r e = Inr gv))"

definition tally :: "(string \<times> nat) list \<Rightarrow> string \<Rightarrow> nat" where
  "tally cs gv = (case map_of cs gv of None \<Rightarrow> 0 | Some n \<Rightarrow> n)"

definition tally_ok :: "(string \<times> nat) list \<Rightarrow> bool" where
  "tally_ok cs \<longleftrightarrow> distinct (map fst cs) \<and> (\<forall>(k, n) \<in> set cs. 0 < n)"

lemma bump_map_of: "map_of (map (\<lambda>(k, n). if k = gv then (k, Suc n) else (k, n)) cs) k
    = (if k = gv then map_option Suc (map_of cs k) else map_of cs k)"
  by (induction cs) auto

lemma tally_bump: "tally (bump_count gv cs) k = (if k = gv then Suc (tally cs k) else tally cs k)"
  by (auto simp: tally_def bump_count_def bump_map_of map_add_def dom_map_of_conv_image_fst[symmetric] split: option.splits)

lemma tally_ok_bump:
  assumes "tally_ok cs"
  shows "tally_ok (bump_count gv cs)"
proof -
  let ?f = "\<lambda>(k, n). if k = gv then (k, Suc n) else (k, n)"
  have keys: "map fst (map ?f cs) = map fst cs" by (induction cs) auto
  have cs: "distinct (map fst cs)" "\<forall>(k, n) \<in> set cs. 0 < n" using assms unfolding tally_ok_def by blast+
  have pos: "\<forall>(k, n) \<in> set (map ?f cs). 0 < n"
    using cs(2) by (induction cs) (simp_all split: prod.splits)
  show ?thesis
  proof (cases "gv \<in> fst ` set cs")
    case True
    then show ?thesis using keys pos cs(1) unfolding tally_ok_def bump_count_def by presburger
  next
    case False
    then show ?thesis using cs unfolding tally_ok_def bump_count_def by simp
  qed
qed

lemma group_count_Cons:
  "group_count r (e # es) gv
     = (if counts_for r (se_action e) \<and> group_of r e = Inr gv then Suc (group_count r es gv) else group_count r es gv)"
  by (simp add: group_count_def)

lemma own_output_not_counted: "\<not> counts_for r ''correlation_match''"
  by (simp add: counts_for_def)

lemma filter_events_iff:
  "(\<exists>x. filter_events r es cs gs = Inr x) \<longleftrightarrow> groups_readable r es"
  by (induction r es cs gs rule: filter_events.induct)
    (auto simp: groups_readable_def group_of_def bind_res_def split: sum.splits)

lemma filter_events_spec:
  assumes "filter_events r es cs gs = Inr (cs1, gs1)"
  shows "tally cs1 gv = tally cs gv + group_count r es gv"
    and "gv \<in> set gs1 \<longleftrightarrow> gv \<in> set gs \<or> prereq_seen r es gv"
    and "tally_ok cs \<Longrightarrow> tally_ok cs1"
proof -
  have "tally cs1 gv = tally cs gv + group_count r es gv \<and> (gv \<in> set gs1 \<longleftrightarrow> gv \<in> set gs \<or> prereq_seen r es gv)
      \<and> (tally_ok cs \<longrightarrow> tally_ok cs1)"
    using assms
  proof (induction r es cs gs rule: filter_events.induct)
    case (1 r cs gs)
    then show ?case by (simp add: group_count_def prereq_seen_def)
  next
    case (2 r e es cs gs)
    show ?case
    proof (cases "se_action e = ''correlation_match''")
      case True
      then show ?thesis using 2 by (simp add: group_count_Cons own_output_not_counted prereq_seen_def)
    next
      case False
      then obtain g where g: "group_of r e = Inr g" using 2(3) by (auto simp: group_of_def bind_res_def split: sum.splits)
      then show ?thesis
        using 2(3) 2(2)[OF False] False tally_ok_bump
        by (simp add: group_of_def group_count_Cons prereq_seen_def tally_bump split: if_splits) blast+
    qed
  qed
  then show "tally cs1 gv = tally cs gv + group_count r es gv" "gv \<in> set gs1 \<longleftrightarrow> gv \<in> set gs \<or> prereq_seen r es gv"
    "tally_ok cs \<Longrightarrow> tally_ok cs1" by blast+
qed

section \<open>Which groups fire\<close>

lemma stamp_fire:
  "map_of (co_fired (fire env r gv n s)) k = (if k = (cu_id r, gv) then Some (ce_now env) else map_of (co_fired s) k)"
  by (simp add: fire_def Let_def update_conv')

lemma distinct_fire:
  "distinct (map fst (co_fired s)) \<Longrightarrow> distinct (map fst (co_fired (fire env r gv n s)))"
  by (simp add: fire_def Let_def distinct_update)

lemma last_fire:
  "last_fired (fire env r gv n s) k = (if k = (cu_id r, gv) then ce_now env else last_fired s k)"
  by (simp add: last_fired_def stamp_fire)

text \<open>A fire writes its event behind what is there.\<close>

definition writes :: "'w corr_state \<Rightarrow> event set \<Rightarrow> 'w corr_state \<Rightarrow> bool" where
  "writes s E s1 \<longleftrightarrow> (\<exists>es. ps_log (co_pb s1) = ps_log (co_pb s) @ es \<and> E \<subseteq> set es)"

lemma writes_none: "writes s {} s"
  by (simp add: writes_def)

lemma writes_trans: "writes s E s1 \<Longrightarrow> writes s1 F s2 \<Longrightarrow> writes s (E \<union> F) s2"
  by (auto simp: writes_def)

lemma fire_writes: "writes s {match_event env r gv n} (fire env r gv n s)"
  using log_event_writes[of "ce_pb env" False "match_event env r gv n" "co_pb s"]
  by (auto simp: writes_def fire_def Let_def)

definition due :: "'w corr_env \<Rightarrow> corr_rule \<Rightarrow> string list \<Rightarrow> 'w corr_state \<Rightarrow> string \<times> nat \<Rightarrow> bool" where
  "due env r groups s x \<longleftrightarrow>
     matches r groups (fst x) (snd x) \<and> cooldown \<le> ce_now env - last_fired s (cu_id r, fst x)"

lemma fire_groups_Cons:
  "fire_groups env r groups (x # rest) (s, m)
     = (if due env r groups s x then fire_groups env r groups rest (fire env r (fst x) (snd x) s, Suc m)
        else fire_groups env r groups rest (s, m))"
  by (cases x) (simp add: due_def)

lemma fire_groups_spec:
  assumes "distinct (map fst counts)" "fire_groups env r groups counts (s, m) = (s1, m1)"
  shows "m1 = m + length (filter (due env r groups s) counts)"
    and "map_of (co_fired s1) k
      = (if k \<in> (\<lambda>x. (cu_id r, fst x)) ` set (filter (due env r groups s) counts) then Some (ce_now env)
         else map_of (co_fired s) k)"
proof -
  have "m1 = m + length (filter (due env r groups s) counts) \<and> (\<forall>k. map_of (co_fired s1) k
      = (if k \<in> (\<lambda>x. (cu_id r, fst x)) ` set (filter (due env r groups s) counts) then Some (ce_now env)
         else map_of (co_fired s) k))"
    using assms
  proof (induction counts arbitrary: s m)
    case (Cons x rest)
    show ?case
    proof (cases "due env r groups s x")
      case True
      let ?s = "fire env r (fst x) (snd x) s"
      have same: "filter (due env r groups ?s) rest = filter (due env r groups s) rest"
      proof (rule filter_cong)
        fix y assume "y \<in> set rest"
        then have "fst y \<noteq> fst x" using Cons.prems(1) by (auto simp: image_iff)
        then show "due env r groups ?s y \<longleftrightarrow> due env r groups s y" by (simp add: due_def last_fire)
      qed simp
      have "fire_groups env r groups rest (?s, Suc m) = (s1, m1)" using Cons.prems(2) True by (simp only: fire_groups_Cons if_True)
      then have "m1 = Suc m + length (filter (due env r groups s) rest) \<and> (\<forall>k. map_of (co_fired s1) k
          = (if k \<in> (\<lambda>x. (cu_id r, fst x)) ` set (filter (due env r groups s) rest) then Some (ce_now env)
             else map_of (co_fired ?s) k))"
        using Cons.IH[of ?s "Suc m"] Cons.prems(1) unfolding same by simp
      then show ?thesis using True by (auto simp: stamp_fire)
    next
      case False
      then show ?thesis using Cons by (simp add: fire_groups_Cons)
    qed
  qed simp
  then show "m1 = m + length (filter (due env r groups s) counts)"
    "map_of (co_fired s1) k = (if k \<in> (\<lambda>x. (cu_id r, fst x)) ` set (filter (due env r groups s) counts)
       then Some (ce_now env) else map_of (co_fired s) k)"
    by blast+
qed

lemma fire_groups_writes:
  assumes "distinct (map fst counts)" "fire_groups env r groups counts (s, m) = (s1, m1)"
  shows "writes s ((\<lambda>x. match_event env r (fst x) (snd x)) ` set (filter (due env r groups s) counts)) s1"
  using assms
proof (induction counts arbitrary: s m)
  case Nil
  then show ?case by (simp add: writes_none)
next
  case (Cons x rest)
  show ?case
  proof (cases "due env r groups s x")
    case True
    let ?s = "fire env r (fst x) (snd x) s"
    have same: "filter (due env r groups ?s) rest = filter (due env r groups s) rest"
      by (rule filter_cong) (use Cons.prems(1) in \<open>force simp: due_def last_fire image_iff\<close>)+
    have "fire_groups env r groups rest (?s, Suc m) = (s1, m1)" using Cons.prems(2) True by (simp only: fire_groups_Cons if_True)
    from writes_trans[OF fire_writes Cons.IH[OF _ this, unfolded same]] Cons.prems(1) True show ?thesis by simp
  next
    case False
    then show ?thesis using Cons by (simp add: fire_groups_Cons)
  qed
qed

text \<open>The groups of a window that a rule should report now.\<close>

definition fired_groups :: "'w corr_env \<Rightarrow> corr_rule \<Rightarrow> stored_event list \<Rightarrow> 'w corr_state \<Rightarrow> string set" where
  "fired_groups env r es s =
     {gv. 0 < group_count r es gv \<and> rule_threshold r \<le> int (group_count r es gv)
        \<and> (rule_prereq r = [] \<or> prereq_seen r es gv) \<and> cooldown \<le> ce_now env - last_fired s (cu_id r, gv)}"

lemma tally_entries:
  assumes "tally_ok cs"
  shows "(gv, n) \<in> set cs \<longleftrightarrow> 0 < n \<and> tally cs gv = n"
proof -
  have m: "map_of cs gv = Some n \<longleftrightarrow> (gv, n) \<in> set cs" and pos: "(gv, n) \<in> set cs \<Longrightarrow> 0 < n"
    using assms by (auto simp: tally_ok_def map_of_eq_Some_iff)
  then show ?thesis by (cases "map_of cs gv") (auto simp: tally_def)
qed

lemma due_groups:
  assumes "filter_events r es [] [] = Inr (counts, groups)"
  shows "fst ` set (filter (due env r groups s) counts) = fired_groups env r es s"
    and "length (filter (due env r groups s) counts) = card (fired_groups env r es s)"
    and "distinct (map fst counts)"
    and "snd ` {x \<in> set counts. fst x = gv} \<subseteq> {group_count r es gv}"
proof -
  have ok: "tally_ok counts" using filter_events_spec(3)[OF assms] by (simp add: tally_ok_def)
  have t: "tally counts gv = group_count r es gv" for gv
    using filter_events_spec(1)[OF assms, of gv] by (simp add: tally_def)
  have mem: "(gv, n) \<in> set counts \<longleftrightarrow> 0 < n \<and> n = group_count r es gv" for gv n
    using tally_entries[OF ok] t by metis
  then show "snd ` {x \<in> set counts. fst x = gv} \<subseteq> {group_count r es gv}" by auto
  show eq: "fst ` set (filter (due env r groups s) counts) = fired_groups env r es s"
    using filter_events_spec(2)[OF assms] mem
    by (auto simp: fired_groups_def due_def matches_def image_iff)
  show d: "distinct (map fst counts)" using ok by (simp add: tally_ok_def)
  then have "distinct (map fst (filter (due env r groups s) counts))" by (rule distinct_map_filter)
  then show "length (filter (due env r groups s) counts) = card (fired_groups env r es s)"
    unfolding eq[symmetric] by (metis distinct_card length_map set_map)
qed

text \<open>One evaluation on a window that is read.\<close>

lemma run_rule_window:
  assumes "window_events env r s = Inr es" "groups_readable r es" "run_rule env r (s, m) = (s1, m1)"
  shows "m1 = m + card (fired_groups env r es s)"
    and "map_of (co_fired s1) k
         = (if k \<in> Pair (cu_id r) ` fired_groups env r es s then Some (ce_now env) else map_of (co_fired s) k)"
proof -
  obtain counts groups where f: "filter_events r es [] [] = Inr (counts, groups)"
    using filter_events_iff[of r es "[]" "[]"] assms(2) by fastforce
  then have g: "fire_groups env r groups counts (s, m) = (s1, m1)" using assms(1,3) by (simp add: run_rule_def)
  have "(\<lambda>x. (cu_id r, fst x)) ` set (filter (due env r groups s) counts) = Pair (cu_id r) ` fired_groups env r es s"
    unfolding due_groups(1)[OF f, of env s, symmetric] by (simp add: image_image)
  then show "m1 = m + card (fired_groups env r es s)"
    "map_of (co_fired s1) k
       = (if k \<in> Pair (cu_id r) ` fired_groups env r es s then Some (ce_now env) else map_of (co_fired s) k)"
    using fire_groups_spec[OF due_groups(3)[OF f] g] due_groups(2)[OF f] by simp_all
qed

text \<open>The groups one evaluation of a rule reports; a query or a group that raises ends it.\<close>

definition reported :: "'w corr_env \<Rightarrow> corr_rule \<Rightarrow> 'w corr_state \<Rightarrow> string set" where
  "reported env r s =
     (case window_events env r s of
        Inl e \<Rightarrow> {}
      | Inr es \<Rightarrow> if groups_readable r es then fired_groups env r es s else {})"

definition hits_of :: "'w corr_env \<Rightarrow> corr_rule \<Rightarrow> 'w corr_state \<Rightarrow> string \<Rightarrow> nat" where
  "hits_of env r s gv = (case window_events env r s of Inl e \<Rightarrow> 0 | Inr es \<Rightarrow> group_count r es gv)"

text \<open>
  C26: evaluating a rule reports exactly the groups whose counted events among the 5000 newest of its
  categories in the window reach the threshold, which have the prerequisite, when there is one, among the same events, before or after
  the counted ones, and which were quiet for the cooldown. When one of those events has a group that cannot be
  read, it reports none. Each reported group is counted once, stamped with the time, and its \<open>correlation_match\<close> event, with the
  number of hits, is new in the event log; the stamps of all other groups stay.
\<close>

theorem rule_fires_exactly:
  assumes "run_rule env r (s, m) = (s1, m1)"
  shows "m1 = m + card (reported env r s)
    \<and> (\<forall>k. map_of (co_fired s1) k
         = (if k \<in> Pair (cu_id r) ` reported env r s then Some (ce_now env) else map_of (co_fired s) k))
    \<and> writes s ((\<lambda>gv. match_event env r gv (hits_of env r s gv)) ` reported env r s) s1"
proof (cases "\<exists>es. window_events env r s = Inr es \<and> groups_readable r es")
  case True
  then obtain es where w: "window_events env r s = Inr es" "groups_readable r es" by blast
  then have rep: "reported env r s = fired_groups env r es s" "hits_of env r s = group_count r es"
    by (simp_all add: reported_def hits_of_def fun_eq_iff)
  obtain counts groups where f: "filter_events r es [] [] = Inr (counts, groups)"
    using filter_events_iff[of r es "[]" "[]"] w(2) by fastforce
  then have g: "fire_groups env r groups counts (s, m) = (s1, m1)" using assms w(1) by (simp add: run_rule_def)
  let ?due = "set (filter (due env r groups s) counts)"
  have im: "(\<lambda>x. h (fst x)) ` ?due = h ` fired_groups env r es s" for h :: "string \<Rightarrow> 'b"
    unfolding due_groups(1)[OF f, of env s, symmetric] by (simp add: image_image)
  have "snd x = group_count r es (fst x)" if "x \<in> ?due" for x
    using due_groups(4)[OF f, of "fst x"] that by auto
  then have "(\<lambda>x. match_event env r (fst x) (snd x)) ` ?due = (\<lambda>x. match_event env r (fst x) (group_count r es (fst x))) ` ?due"
    by (intro image_cong) simp_all
  then have "writes s ((\<lambda>gv. match_event env r gv (group_count r es gv)) ` fired_groups env r es s) s1"
    using fire_groups_writes[OF due_groups(3)[OF f] g] im[of "\<lambda>gv. match_event env r gv (group_count r es gv)"] by simp
  then show ?thesis
    using run_rule_window[OF w assms] by (simp add: rep)
next
  case False
  have "run_rule env r (s, m) = (s, m)" if "window_events env r s = Inr es" "\<not> groups_readable r es" for es
    using filter_events_iff[of r es "[]" "[]"] that
    by (cases "filter_events r es [] []") (auto simp: run_rule_def)
  then have "run_rule env r (s, m) = (s, m)" "reported env r s = {}"
    using False by (cases "window_events env r s"; auto simp: run_rule_def reported_def)+
  then show ?thesis using assms by (simp add: writes_none)
qed

section \<open>The cooldown\<close>

definition stamps_ok :: "'w corr_state \<Rightarrow> bool" where
  "stamps_ok s \<longleftrightarrow> distinct (map fst (co_fired s))"

text \<open>How one evaluation may change the stamp of a match.\<close>

definition stamp_step :: "real \<Rightarrow> nat \<times> string \<Rightarrow> 'w corr_state \<Rightarrow> 'w corr_state \<Rightarrow> bool" where
  "stamp_step now k s s1 \<longleftrightarrow>
     map_of (co_fired s1) k = map_of (co_fired s) k
     \<or> map_of (co_fired s1) k = Some now \<and> cooldown \<le> now - last_fired s k"

lemma stamp_fire_step:
  assumes "cooldown \<le> ce_now env - last_fired s (cu_id r, gv)"
  shows "stamp_step (ce_now env) k s (fire env r gv n s)"
  using assms by (simp add: stamp_step_def stamp_fire)

lemma stamp_step_trans:
  assumes "stamp_step now k s s1" "stamp_step now k s1 s2"
  shows "stamp_step now k s s2"
  using assms by (auto simp: stamp_step_def last_fired_def cooldown_def)

lemma fire_groups_stamps:
  "stamps_ok s \<Longrightarrow> fire_groups env r groups counts (s, m) = (s1, m1) \<Longrightarrow> stamps_ok s1 \<and> stamp_step (ce_now env) k s s1"
proof (induction counts arbitrary: s m)
  case Nil
  then show ?case by (simp add: stamp_step_def)
next
  case (Cons x rest)
  show ?case
  proof (cases "due env r groups s x")
    case True
    have "stamps_ok (fire env r (fst x) (snd x) s)" using Cons.prems(1) distinct_fire by (simp add: stamps_ok_def)
    moreover have "fire_groups env r groups rest (fire env r (fst x) (snd x) s, Suc m) = (s1, m1)"
      using Cons.prems(2) True by (simp only: fire_groups_Cons if_True)
    moreover have "stamp_step (ce_now env) k s (fire env r (fst x) (snd x) s)"
      using True by (intro stamp_fire_step) (simp add: due_def)
    ultimately show ?thesis using Cons.IH stamp_step_trans by blast
  next
    case False
    then show ?thesis using Cons.IH[OF Cons.prems(1)] Cons.prems(2) by (simp only: fire_groups_Cons if_False)
  qed
qed

lemma run_rule_stamps:
  assumes "stamps_ok (fst sn)"
  shows "stamps_ok (fst (run_rule env r sn)) \<and> stamp_step (ce_now env) k (fst sn) (fst (run_rule env r sn))"
proof (cases "bind_res (window_events env r (fst sn)) (\<lambda>es. filter_events r es [] [])")
  case (Inl e)
  then show ?thesis using assms by (simp add: run_rule_def stamp_step_def)
next
  case (Inr x)
  then obtain counts groups where "run_rule env r sn = fire_groups env r groups counts sn"
    by (cases x) (simp add: run_rule_def)
  then show ?thesis using fire_groups_stamps[OF assms, of env r groups counts "snd sn"] by (metis prod.collapse)
qed

lemma rules_stamps:
  "stamps_ok (fst sn) \<Longrightarrow>
    stamps_ok (fst (fold (run_rule env) rs sn)) \<and> stamp_step (ce_now env) k (fst sn) (fst (fold (run_rule env) rs sn))"
proof (induction rs arbitrary: sn)
  case (Cons r rs)
  then show ?case using run_rule_stamps[OF Cons.prems, of env r k] stamp_step_trans by fastforce
qed (simp add: stamp_step_def)

lemma bound_fired_stamps:
  assumes "stamps_ok s"
  shows "stamps_ok (bound_fired now s)"
    and "map_of (co_fired (bound_fired now s)) k = map_of (co_fired s) k
      \<or> map_of (co_fired (bound_fired now s)) k = None \<and> (\<exists>t. map_of (co_fired s) k = Some t \<and> cooldown < now - t)"
proof -
  let ?P = "\<lambda>(k, t). \<not> cooldown < now - t"
  have "map_of (filter ?P xs) k = (case map_of xs k of Some t \<Rightarrow> if cooldown < now - t then None else Some t | None \<Rightarrow> None)"
    if "distinct (map fst xs)" for xs :: "((nat \<times> string) \<times> real) list"
    using that by (induction xs) (auto simp: map_of_eq_None_iff[symmetric] split: option.splits)
  then show "map_of (co_fired (bound_fired now s)) k = map_of (co_fired s) k
      \<or> map_of (co_fired (bound_fired now s)) k = None \<and> (\<exists>t. map_of (co_fired s) k = Some t \<and> cooldown < now - t)"
    using assms by (auto simp: bound_fired_def stamps_ok_def split: option.splits)
  show "stamps_ok (bound_fired now s)"
    using assms by (simp add: bound_fired_def stamps_ok_def distinct_map_filter)
qed

lemma evaluate_stamps:
  assumes "stamps_ok s" "evaluate env table s = (s1, n)"
  shows "stamps_ok s1"
    and "stamp_step (ce_now env) k s s1
      \<or> map_of (co_fired s1) k = None \<and> (\<exists>t. map_of (co_fired s) k = Some t \<and> cooldown < ce_now env - t)"
proof -
  let ?m = "fst (fold (run_rule env) (enabled_rules table) (s, 0))"
  have m: "stamps_ok ?m" "stamp_step (ce_now env) k s ?m" using rules_stamps[of "(s, 0)" env "enabled_rules table" k] assms(1) by auto
  have s1: "s1 = s \<or> s1 = bound_fired (ce_now env) ?m"
    using assms(2) by (auto simp: evaluate_def split: if_splits prod.splits)
  then show "stamps_ok s1" using assms(1) bound_fired_stamps(1)[OF m(1)] by blast
  show "stamp_step (ce_now env) k s s1
      \<or> map_of (co_fired s1) k = None \<and> (\<exists>t. map_of (co_fired s) k = Some t \<and> cooldown < ce_now env - t)"
    using s1 m(2) bound_fired_stamps(2)[OF m(1), of "ce_now env" k]
    by (auto simp: stamp_step_def cooldown_def)
qed

text \<open>The states that evaluations at later and later times lead to.\<close>

inductive later :: "real \<times> 'w corr_state \<Rightarrow> real \<times> 'w corr_state \<Rightarrow> bool" where
  same: "later x x"
| evaluated: "later x (t, s) \<Longrightarrow> t \<le> ce_now env \<Longrightarrow> evaluate env table s = (s1, n) \<Longrightarrow> later x (ce_now env, s1)"

lemma later_stamps:
  assumes "later x y" "x = (t0, s0)" "stamps_ok s0" "map_of (co_fired s0) k = Some t0"
  shows "stamps_ok (snd y) \<and> t0 \<le> fst y
    \<and> ((\<exists>t. map_of (co_fired (snd y)) k = Some t \<and> t0 \<le> t) \<or> t0 + cooldown \<le> fst y)"
  using assms
proof (induction rule: later.induct)
  case (same x)
  then show ?case by auto
next
  case (evaluated x t s env table s1 n)
  then have ih: "stamps_ok s" "t0 \<le> t" "(\<exists>u. map_of (co_fired s) k = Some u \<and> t0 \<le> u) \<or> t0 + cooldown \<le> t" by simp_all
  note step = evaluate_stamps(1)[OF ih(1) evaluated.hyps(3)] evaluate_stamps(2)[OF ih(1) evaluated.hyps(3), of k]
  have "(\<exists>u. map_of (co_fired s1) k = Some u \<and> t0 \<le> u) \<or> t0 + cooldown \<le> ce_now env"
    using step(2) ih(2,3) evaluated.hyps(2) by (auto simp: stamp_step_def)
  then show ?case using step(1) ih(2) evaluated.hyps(2) by simp
qed

text \<open>
  C28: however many evaluations lie between, and whatever the bound of the map has removed, a
  match of the same rule and group fires again only when the cooldown is over.
\<close>

theorem cooldown_between_matches:
  assumes "later (t0, s0) (t, s)" "stamps_ok s0" "map_of (co_fired s0) k = Some t0"
    and "t \<le> ce_now env" "evaluate env table s = (s1, n)"
    and "map_of (co_fired s1) k = Some (ce_now env)" "map_of (co_fired s) k \<noteq> Some (ce_now env)"
  shows "t0 + cooldown \<le> ce_now env"
proof -
  note l = later_stamps[OF assms(1) refl assms(2,3), simplified]
  then show ?thesis
    using evaluate_stamps(2)[OF l[THEN conjunct1] assms(5), of k] assms(4,6,7)
    by (auto simp: stamp_step_def last_fired_def)
qed

section \<open>Where the rules are weaker than they say\<close>

lemma groups_mset: "mset es = mset es' \<Longrightarrow> groups_readable r es \<longleftrightarrow> groups_readable r es'"
  unfolding groups_readable_def by (simp add: mset_eq_setD[of es es'])

lemma group_count_mset: "mset es = mset es' \<Longrightarrow> group_count r es gv = group_count r es' gv"
  unfolding group_count_def by (rule mset_eq_length) simp

lemma prereq_seen_mset: "mset es = mset es' \<Longrightarrow> prereq_seen r es gv \<longleftrightarrow> prereq_seen r es' gv"
  unfolding prereq_seen_def by (simp add: mset_eq_setD[of es es'])

text \<open>
  The order of the events of a window plays no part: the same events in any order fire for the
  same groups, so a prerequisite that came after everything it should precede counts like one before it.
\<close>

theorem order_of_events_ignored:
  assumes "window_events env r s = Inr es" "groups_readable r es" "run_rule env r (s, m) = (s1, m1)"
    and "window_events env' r s' = Inr es'" "run_rule env' r (s', m) = (s1', m1')"
    and "mset es' = mset es" "ce_now env' = ce_now env" "co_fired s' = co_fired s"
  shows "m1' = m1 \<and> map_of (co_fired s1') = map_of (co_fired s1)"
proof -
  have "last_fired s' k = last_fired s k" for k using assms(8) by (simp add: last_fired_def)
  then have "fired_groups env' r es' s' = fired_groups env r es s"
    unfolding fired_groups_def assms(7) group_count_mset[OF assms(6)] prereq_seen_mset[OF assms(6)] by simp
  then show ?thesis
    using run_rule_window[OF assms(1-3)] run_rule_window[OF assms(4) _ assms(5)] groups_mset[OF assms(6)] assms(2,7,8)
    by auto
qed

text \<open>
  A prerequisite is looked for only among the categories of the rule: when its events are of
  another category, the rule never fires, whatever happens.
\<close>

theorem prerequisite_of_other_category:
  assumes "rule_cats r \<noteq> []" "rule_prereq r \<noteq> []"
    and "\<forall>e \<in> set (List.map_filter (stored (ce_uuid env)) (number_from 0 (ps_log (co_pb s)))).
           se_action e = rule_prereq r \<longrightarrow> se_category e \<notin> set (rule_cats r)"
  shows "run_rule env r (s, m) = (s, m)"
proof (cases "bind_res (window_events env r s) (\<lambda>es. filter_events r es [] [])")
  case (Inl e)
  then show ?thesis by (simp add: run_rule_def)
next
  case (Inr x)
  obtain counts groups where x: "x = (counts, groups)" by (cases x)
  obtain start where w: "window_events env r s = Inr (tail_events_since (ce_uuid env) (ps_log (co_pb s)) start 5000 (rule_cats r))"
    using Inr by (cases "ce_start env (rule_window r)") (simp_all add: window_events_def)
  let ?es = "tail_events_since (ce_uuid env) (ps_log (co_pb s)) start 5000 (rule_cats r)"
  have f: "filter_events r ?es [] [] = Inr (counts, groups)" using Inr x w by simp
  have "\<forall>e \<in> set ?es. se_category e \<in> set (rule_cats r)
      \<and> e \<in> set (List.map_filter (stored (ce_uuid env)) (number_from 0 (ps_log (co_pb s))))"
    using assms(1) by (auto simp: tail_events_since_def dest!: in_set_takeD)
  then have "\<not> prereq_seen r ?es gv" for gv using assms(3) unfolding prereq_seen_def by blast
  then have "fired_groups env r ?es s = {}" using assms(2) by (simp add: fired_groups_def)
  then have "filter (due env r groups s) counts = []" using due_groups(1)[OF f, of env s] by (simp only: image_is_empty set_empty)
  moreover have "fire_groups env r groups cs (s, m) = (s, m)" if "filter (due env r groups s) cs = []" for cs
    using that by (induction cs) (simp_all add: fire_groups_Cons del: fire_groups.simps(2) split: if_splits)
  ultimately show ?thesis using Inr x by (simp add: run_rule_def)
qed

text \<open>
  Two events that fall together in a window of the engine but on the two sides of a bucket of the
  simulator are a match of the engine, at a threshold of two, and none of the simulator, although its
  comment calls the simulation an upper bound.
\<close>

theorem simulator_splits_window:
  assumes "counts_for r (se_action e1)" "counts_for r (se_action e2)" "group_of r e1 = Inr gv" "group_of r e2 = Inr gv"
    and "rule_prereq r = []" "rule_threshold r = 2"
    and "ts_of (se_ts e1) = Some t1" "ts_of (se_ts e2) = Some t2"
    and "whole_seconds t1 div max (rule_window r) 1 \<noteq> whole_seconds t2 div max (rule_window r) 1"
  shows "\<exists>counts groups bs. filter_events r [e2, e1] [] [] = Inr (counts, groups) \<and> tally counts gv = 2 \<and> matches r groups gv 2
    \<and> sim_events ts_of r [e2, e1] [] [] = Inr (bs, groups) \<and> sim_matches r bs groups = []"
proof -
  have not_own: "se_action e1 \<noteq> ''correlation_match''" "se_action e2 \<noteq> ''correlation_match''"
    using assms(1,2) by (auto simp: counts_for_def)
  then have "filter_events r [e2, e1] [] [] = Inr ([(gv, 2)], [])"
    using assms by (simp add: group_of_def bump_count_def)
  moreover have "\<exists>bs. sim_events ts_of r [e2, e1] [] [] = Inr (bs, []) \<and> sim_matches r bs [] = []"
    using assms not_own by (simp add: group_of_def add_to_bucket_def sim_matches_def matches_def)
  ultimately show ?thesis using assms(5,6) by (auto simp: tally_def matches_def)
qed

section \<open>Concrete rules\<close>

definition probe :: "real \<Rightarrow> nat corr_env" where
  "probe now = \<lparr>ce_pb = idle_env, ce_clock = sample_clock, ce_now = now, ce_zone = 0, ce_iso = ''t'', ce_start = (\<lambda>w. Inr []),
     ce_uuid = (\<lambda>n. ''u''), ce_alert_uuid = ''a'', ce_adhoc = ''h''\<rparr>"

definition brute_rule :: corr_rule where
  "brute_rule = \<lparr>cu_id = 1, cu_name = ''brute'', cu_enabled = Some 1, cu_category = None, cu_action = Some ''login_failed'',
     cu_group = Some ''remote_addr'', cu_threshold = Some 2, cu_window = Some 300, cu_severity = None, cu_mitre = None,
     cu_prereq = None, cu_auto_case = None\<rparr>"

definition failed_login :: "string \<Rightarrow> event" where
  "failed_login ts = \<lparr>ev_ts = ts, ev_severity = PStr ''low'', ev_category = PStr ''auth'', ev_action = PStr ''login_failed'',
     ev_user = ''root'', ev_remote = ''10.0.0.9'', ev_details = PDict []\<rparr>"

definition stored_login :: "string \<Rightarrow> stored_event" where
  "stored_login ts = \<lparr>se_ts = ts, se_severity = ''low'', se_category = ''auth'', se_action = ''login_failed'',
     se_username = ''root'', se_remote = ''10.0.0.9'', se_details = PDict [], se_uuid = ''u''\<rparr>"

definition after_logins :: "((nat \<times> string) \<times> real) list \<Rightarrow> event list \<Rightarrow> nat corr_state" where
  "after_logins fired evs = \<lparr>co_pb = (one_playbook [])\<lparr>ps_log := evs\<rparr>, co_alerts = empty_alert_db, co_risk = None,
     co_cases = None, co_fired = fired\<rparr>"

lemma stored_failed_login: "stored (ce_uuid (probe now)) (n, failed_login ts) = Some (stored_login ts)"
  by (simp add: stored_def failed_login_def stored_login_def probe_def)

lemma login_window:
  assumes "list_all (\<lambda>t. t \<noteq> []) ts"
  shows "window_events (probe now) brute_rule (after_logins fired (map failed_login ts)) = Inr (take 5000 (rev (map stored_login ts)))"
proof -
  have "List.map_filter (stored (ce_uuid (probe now))) (number_from k (map failed_login ts)) = map stored_login ts" for k
    by (induction ts arbitrary: k) (simp_all add: stored_failed_login map_filter_simps)
  moreover have "ce_start (probe now) w = Inr []" for w by (simp add: probe_def)
  ultimately show ?thesis
    by (simp add: window_events_def tail_events_since_def rule_cats_def comma_list_def brute_rule_def after_logins_def split_on.simps)
qed

lemma login_groups: "group_of brute_rule (stored_login ts) = Inr ''10.0.0.9''"
  by (simp add: group_of_def group_value_def brute_rule_def stored_login_def event_field_def startswith_def text_or_empty_def or_val_def)

lemma login_counts: "counts_for brute_rule ''login_failed''"
proof -
  have "strip ''login_failed'' = ''login_failed''" by (simp add: strip_def lstrip_def rstrip_def char_class_defs)
  then show ?thesis by (simp add: counts_for_def rule_actions_def comma_list_def brute_rule_def)
qed

lemma two_logins:
  fixes ts :: "string list"
  assumes "ts = [''1'', ''2''] \<or> ts = [''2'', ''1'']"
  shows "window_events (probe now) brute_rule (after_logins fired (map failed_login ts)) = Inr (map stored_login (rev ts))"
    and "groups_readable brute_rule (map stored_login (rev ts))"
    and "group_count brute_rule (map stored_login (rev ts)) gv = (if gv = ''10.0.0.9'' then 2 else 0)"
proof -
  show "window_events (probe now) brute_rule (after_logins fired (map failed_login ts)) = Inr (map stored_login (rev ts))"
    using login_window[of ts now fired] assms by auto
  show "groups_readable brute_rule (map stored_login (rev ts))" using login_groups by (auto simp: groups_readable_def)
  show "group_count brute_rule (map stored_login (rev ts)) gv = (if gv = ''10.0.0.9'' then 2 else 0)"
    using assms login_counts by (auto simp: group_count_def login_groups) (auto simp: stored_login_def)
qed

lemma two_logins_fire:
  assumes "ts = [''1'', ''2''] \<or> ts = [''2'', ''1'']" "600 \<le> now - last_fired (after_logins fired evs) (1, ''10.0.0.9'')"
  shows "fired_groups (probe now) brute_rule (map stored_login (rev ts)) (after_logins fired evs) = {''10.0.0.9''}"
proof -
  have "rule_threshold brute_rule = 2" "rule_prereq brute_rule = []" "cu_id brute_rule = 1" "ce_now (probe now) = now"
    by (simp_all add: rule_threshold_def rule_prereq_def brute_rule_def probe_def or_int_def)
  then show ?thesis
    unfolding fired_groups_def two_logins(3)[OF assms(1)] using assms(2) by (auto simp: cooldown_def)
qed

lemma rule_fires_exactly_witness:
  "\<exists>s1. run_rule (probe 1000) brute_rule (after_logins [] (map failed_login [''1'', ''2'']), 0) = (s1, 1)
     \<and> match_event (probe 1000) brute_rule ''10.0.0.9'' 2 \<in> set (ps_log (co_pb s1))"
proof -
  let ?s = "after_logins [] (map failed_login [''1'', ''2''])"
  obtain s1 m1 where r: "run_rule (probe 1000) brute_rule (?s, 0) = (s1, m1)" by (metis surj_pair)
  have ts: "[''1'', ''2''] = [''1'', ''2''] \<or> [''1'', ''2''] = [''2'', ''1'']" by simp
  note w = two_logins[OF ts]
  have f: "fired_groups (probe 1000) brute_rule (map stored_login (rev [''1'', ''2''])) ?s = {''10.0.0.9''}"
    by (rule two_logins_fire) (simp_all add: last_fired_def after_logins_def)
  have "reported (probe 1000) brute_rule ?s = {''10.0.0.9''}"
    unfolding reported_def w(1) sum.case if_P[OF w(2)] f by (rule refl)
  moreover have "hits_of (probe 1000) brute_rule ?s ''10.0.0.9'' = 2"
    unfolding hits_of_def w(1) sum.case w(3) if_P[OF refl] by (rule refl)
  ultimately have "m1 = 1" "writes ?s {match_event (probe 1000) brute_rule ''10.0.0.9'' 2} s1"
    using rule_fires_exactly[OF r] by simp_all
  then show ?thesis using r by (auto simp: writes_def)
qed

lemma order_of_events_ignored_witness:
  "snd (run_rule (probe 1000) brute_rule (after_logins [] (map failed_login [''2'', ''1'']), 0))
     = snd (run_rule (probe 1000) brute_rule (after_logins [] (map failed_login [''1'', ''2'']), 0))"
proof -
  let ?s = "after_logins [] (map failed_login [''1'', ''2''])" and ?s' = "after_logins [] (map failed_login [''2'', ''1''])"
  obtain s1 m1 where r: "run_rule (probe 1000) brute_rule (?s, 0) = (s1, m1)" by (metis surj_pair)
  obtain s2 m2 where r': "run_rule (probe 1000) brute_rule (?s', 0) = (s2, m2)" by (metis surj_pair)
  have "mset (map stored_login (rev [''2'', ''1''])) = mset (map stored_login (rev [''1'', ''2'']))" by simp
  moreover have "co_fired ?s' = co_fired ?s" by (simp add: after_logins_def)
  ultimately have "m2 = m1"
    using order_of_events_ignored[OF two_logins(1,2) r two_logins(1) r'] by blast
  then show ?thesis using r r' by simp
qed

lemma cooldown_between_matches_witness:
  "\<exists>s1 n. evaluate (probe 2000) (Some [brute_rule]) (after_logins [((1, ''10.0.0.9''), 1000)] (map failed_login [''1'', ''2'']))
       = (s1, n) \<and> (1000 :: real) + cooldown \<le> 2000"
proof -
  let ?k = "(1 :: nat, ''10.0.0.9'')"
  let ?s = "after_logins [(?k, 1000)] (map failed_login [''1'', ''2''])"
  obtain s1 m1 where r: "run_rule (probe 2000) brute_rule (?s, 0) = (s1, m1)" by (metis surj_pair)
  have ok: "stamps_ok ?s" "map_of (co_fired ?s) ?k = Some 1000" by (simp_all add: stamps_ok_def after_logins_def)
  have now: "ce_now (probe 2000) = 2000" and id: "cu_id brute_rule = 1" by (simp_all add: probe_def brute_rule_def)
  have "fired_groups (probe 2000) brute_rule (map stored_login (rev [''1'', ''2''])) ?s = {''10.0.0.9''}"
    by (rule two_logins_fire) (simp_all add: last_fired_def after_logins_def)
  then have k: "map_of (co_fired s1) ?k = Some 2000"
    using run_rule_window(2)[OF two_logins(1,2) r] now id by simp
  let ?e = "evaluate (probe 2000) (Some [brute_rule]) ?s"
  have e: "?e = (bound_fired 2000 s1, m1)" using r now by (simp add: evaluate_def enabled_rules_def brute_rule_def)
  have "stamps_ok s1" using run_rule_stamps[of "(?s, 0)"] ok(1) r by (metis fst_conv)
  from bound_fired_stamps(2)[OF this, of 2000 ?k] k have "map_of (co_fired (bound_fired 2000 s1)) ?k = Some (ce_now (probe 2000))"
    by (auto simp: now cooldown_def)
  then have "(1000 :: real) + cooldown \<le> ce_now (probe 2000)"
    using cooldown_between_matches[OF later.same ok _ e] ok(2) now by fastforce
  then show ?thesis using e now by auto
qed

lemma prerequisite_of_other_category_witness:
  "run_rule (probe 1000) (brute_rule\<lparr>cu_category := Some ''vpn'', cu_prereq := Some ''login_failed''\<rparr>)
     (after_logins [] [failed_login ''1''], 0) = (after_logins [] [failed_login ''1''], 0)"
proof -
  let ?r = "brute_rule\<lparr>cu_category := Some ''vpn'', cu_prereq := Some ''login_failed''\<rparr>"
  have t: "strip ''vpn'' = ''vpn''" "strip ''login_failed'' = ''login_failed''"
    by (simp_all add: strip_def lstrip_def rstrip_def char_class_defs)
  then have r: "rule_cats ?r = [''vpn'']" "rule_prereq ?r = ''login_failed''"
    by (simp_all add: rule_cats_def rule_prereq_def comma_list_def)
  have "List.map_filter (stored (ce_uuid (probe 1000))) (number_from 0 (ps_log (co_pb (after_logins [] [failed_login ''1'']))))
      = [stored_login ''1'']"
    by (simp add: after_logins_def stored_failed_login map_filter_simps)
  then show ?thesis
    using r by (intro prerequisite_of_other_category) (simp_all add: stored_login_def)
qed

lemma simulator_splits_window_witness:
  "\<exists>counts groups bs. filter_events brute_rule [stored_login ''2'', stored_login ''1''] [] [] = Inr (counts, groups)
     \<and> tally counts ''10.0.0.9'' = 2
     \<and> sim_events (\<lambda>t. Some (if t = ''1'' then 299 else 301)) brute_rule [stored_login ''2'', stored_login ''1''] [] [] = Inr (bs, groups)
     \<and> sim_matches brute_rule bs groups = []"
proof -
  have r: "rule_prereq brute_rule = []" "rule_threshold brute_rule = 2" "rule_window brute_rule = 300"
    by (simp_all add: rule_prereq_def rule_threshold_def rule_window_def brute_rule_def or_int_def)
  have c: "counts_for brute_rule (se_action (stored_login ts))" for ts using login_counts by (simp add: stored_login_def)
  have "\<exists>counts groups bs. filter_events brute_rule [stored_login ''2'', stored_login ''1''] [] [] = Inr (counts, groups)
     \<and> tally counts ''10.0.0.9'' = 2 \<and> matches brute_rule groups ''10.0.0.9'' 2
     \<and> sim_events (\<lambda>t. Some (if t = ''1'' then 299 else 301)) brute_rule [stored_login ''2'', stored_login ''1''] [] [] = Inr (bs, groups)
     \<and> sim_matches brute_rule bs groups = []"
    by (rule simulator_splits_window[OF c c login_groups login_groups r(1,2), where ?t1.0 = 299 and ?t2.0 = 301])
      (simp_all add: stored_login_def whole_seconds_def r(3))
  then show ?thesis by blast
qed

end
