(* ===== verification/RuntimeMode.thy ===== *)
theory RuntimeMode
  imports PyString
begin

text \<open>
  \<^verbatim>\<open>app/services/runtime_mode.py\<close>: the operating mode, the warnings of the start, the answer whether the
  appliance is ready for production and the refusal to boot.  The environment and the host are one record;
  the report of \<open>preflight_check\<close> is an argument.
\<close>

section \<open>The host\<close>

text \<open>
  \<open>ru_missing\<close> is \<open>None\<close> when the preflight check raises; \<open>ru_file\<close> gives the mode bits of a path, a failing
  \<open>stat\<close>, or nothing where no file is; \<open>ru_key_path\<close> is the path of the key file.
\<close>

record runtime_env =
  ru_freebsd :: bool
  ru_env :: "string \<rightharpoonup> string"
  ru_missing :: "string list option"
  ru_isdir :: "string \<Rightarrow> bool"
  ru_file :: "string \<Rightarrow> nat res option"
  ru_key_path :: string

definition getenv :: "runtime_env \<Rightarrow> string \<Rightarrow> string \<Rightarrow> string" where
  "getenv h k d = (case ru_env h k of None \<Rightarrow> d | Some v \<Rightarrow> v)"

definition ss_dir :: "runtime_env \<Rightarrow> string \<Rightarrow> string" where
  "ss_dir h parent =
     (if ru_isdir h (parent @ ''/smart-shield'') \<and> \<not> ru_isdir h (parent @ ''/smartshield'')
      then parent @ ''/smart-shield'' else parent @ ''/smartshield'')"

definition has_master_key :: "runtime_env \<Rightarrow> bool" where
  "has_master_key h \<longleftrightarrow> strip (getenv h ''SMARTSHIELD_MASTER_KEY'' []) \<noteq> [] \<or> ru_file h (ru_key_path h) \<noteq> None"

section \<open>The mode\<close>

definition network_apply_enabled :: "runtime_env \<Rightarrow> bool" where
  "network_apply_enabled h \<longleftrightarrow> getenv h ''SMARTSHIELD_ENABLE_NETWORK_APPLY'' ''0'' = ''1''"

definition dry_run_enabled :: "runtime_env \<Rightarrow> bool" where
  "dry_run_enabled h \<longleftrightarrow> getenv h ''SMARTSHIELD_NETWORK_DRY_RUN'' ''0'' = ''1''"

definition missing_dependencies :: "runtime_env \<Rightarrow> string list" where
  "missing_dependencies h = (case ru_missing h of None \<Rightarrow> [] | Some ts \<Rightarrow> ts)"

definition current_mode :: "runtime_env \<Rightarrow> string" where
  "current_mode h =
     (if \<not> ru_freebsd h then ''development''
      else if missing_dependencies h \<noteq> [] then ''degraded''
      else if dry_run_enabled h \<or> \<not> network_apply_enabled h then ''dry-run''
      else ''live'')"

section \<open>The warnings of the start\<close>

record startup_warning =
  sw_level :: string
  sw_feature :: string
  sw_message :: string

definition warn :: "string \<Rightarrow> string \<Rightarrow> string \<Rightarrow> startup_warning" where
  "warn level feature m = \<lparr>sw_level = level, sw_feature = feature, sw_message = m\<rparr>"

definition weak_secret_markers :: "string list" where
  "weak_secret_markers =
     [''change-me'', ''replace-this'', ''changeme'', ''secret'', ''dev'', ''test'', ''flask-secret'', ''insecure'', ''please-change'', []]"

definition weak_secret :: "string \<Rightarrow> bool" where
  "weak_secret key \<longleftrightarrow> list_ex (\<lambda>m. contains m (lower key)) weak_secret_markers \<or> length key < 24"

definition optional_warnings :: "runtime_env \<Rightarrow> startup_warning list" where
  "optional_warnings h =
     (if getenv h ''GROQ_API_KEY'' [] = []
      then [warn ''warning'' ''chatbot'' (''GROQ_API_KEY is not set '' @ em_dash @ '' AI chatbot will be unavailable.'')] else []) @
     (if getenv h ''ABUSECH_AUTH_KEY'' [] = []
      then [warn ''warning'' ''threat_intel''
        (''ABUSECH_AUTH_KEY is not set '' @ em_dash @ '' abuse.ch threat intelligence feeds will be disabled.'')] else [])"

definition key_warnings :: "runtime_env \<Rightarrow> startup_warning list" where
  "key_warnings h =
     (if has_master_key h then []
      else [warn (if current_mode h = ''live'' then ''critical'' else ''warning'') ''secrets''
        (''No master key found (SMARTSHIELD_MASTER_KEY unset and no key file present) '' @ em_dash @ '' a key will be auto-generated.'' @
         (if current_mode h = ''live''
          then '' On a production appliance this key must be set explicitly so encrypted secrets (VPN keys, PSKs) survive reboots.''
          else []))])"

text \<open>The environment file, under its name or its former name.\<close>

definition env_file :: "runtime_env \<Rightarrow> string" where
  "env_file h =
     (let d = ss_dir h ''/usr/local/etc'' in
      if ru_file h (d @ ''/smartshield.env'') = None \<and> ru_file h (d @ ''/smart-shield.env'') \<noteq> None
      then d @ ''/smart-shield.env'' else d @ ''/smartshield.env'')"

definition world_readable :: "nat \<Rightarrow> bool" where
  "world_readable m \<longleftrightarrow> (m div 4) mod 2 = 1"

definition live_warnings :: "runtime_env \<Rightarrow> startup_warning list res" where
  "live_warnings h =
     (let key = getenv h ''SECRET_KEY'' [];
          ws = (if weak_secret key
                then [warn ''critical'' ''admin_security''
                  (''SECRET_KEY appears to be weak or default. Generate a strong random key: python3 -c '' @ [CHR 0x22] @
                   ''import secrets; print(secrets.token_hex(32))'' @ [CHR 0x22])] else []) @
            (if strip (getenv h ''FLASK_DEBUG'' ''0'') = ''1''
             then [warn ''critical'' ''admin_security''
               (''FLASK_DEBUG=1 is set in production (live) mode '' @ em_dash @ '' disable immediately.'')] else []) @
            (if getenv h ''SMARTSHIELD_ENABLE_NETWORK_APPLY'' ''0'' \<noteq> ''1''
             then [warn ''warning'' ''network_apply''
               (''SMARTSHIELD_ENABLE_NETWORK_APPLY is not set to 1 '' @ em_dash @
                '' firewall and network changes will not be applied to the OS.'')] else []);
          default = (if ru_freebsd h \<and> lower key \<in> set weak_secret_markers
            then [warn ''critical'' ''secret_key_default''
              (''SECRET_KEY is default or empty '' @ em_dash @ '' set a strong random key'')] else [])
      in case (if ru_freebsd h then ru_file h (env_file h) else None) of
        None \<Rightarrow> Inr (ws @ default)
      | Some (Inl e) \<Rightarrow> Inl e
      | Some (Inr m) \<Rightarrow>
          Inr (ws @ (if world_readable m
                     then [warn ''critical'' ''env_file_perms'' (env_file h @ '' is world-readable '' @ em_dash @ '' fix: chmod 600'')]
                     else []) @ default))"

definition startup_warnings :: "runtime_env \<Rightarrow> startup_warning list res" where
  "startup_warnings h =
     (if current_mode h = ''live''
      then bind_res (live_warnings h) (\<lambda>ws. Inr (optional_warnings h @ key_warnings h @ ws))
      else Inr (optional_warnings h @ key_warnings h))"

definition production_ready :: "runtime_env \<Rightarrow> (bool \<times> string list) res" where
  "production_ready h =
     bind_res (startup_warnings h) (\<lambda>ws.
       let issues = map sw_message (filter (\<lambda>w. sw_level w = ''critical'') ws) @
         (if current_mode h = ''degraded''
          then (case ru_missing h of None \<Rightarrow> [] | Some ts \<Rightarrow> map (\<lambda>t. ''Missing required tool: '' @ t) ts) else [])
       in Inr (issues = [], issues))"

section \<open>The refusal to boot\<close>

definition env_file_world_readable :: "runtime_env \<Rightarrow> string" where
  "env_file_world_readable h =
     (if \<not> ru_freebsd h then []
      else case ru_file h (env_file h) of
        Some (Inr m) \<Rightarrow> if world_readable m then env_file h else []
      | Some (Inl e) \<Rightarrow> []
      | None \<Rightarrow> [])"

text \<open>The exit code, when the program refuses to boot.\<close>

definition assert_env_file_safe :: "runtime_env \<Rightarrow> nat option" where
  "assert_env_file_safe h =
     (if current_mode h \<noteq> ''live'' then None
      else if env_file_world_readable h = [] then None
      else Some 78)"

definition mode_badge :: "runtime_env \<Rightarrow> string \<times> string \<times> string \<times> string" where
  "mode_badge h =
     (let mode = current_mode h in
      case map_of [(''live'', ''Live'', ''green'', ''shield-check''), (''dry-run'', ''Dry-Run'', ''yellow'', ''shield''),
                   (''degraded'', ''Degraded'', ''red'', ''shield-exclamation''),
                   (''development'', ''Development'', ''gray'', ''code-bracket'')] mode of
        Some (l, c, i) \<Rightarrow> (mode, l, c, i)
      | None \<Rightarrow> (mode, ''Development'', ''gray'', ''code-bracket''))"

section \<open>What the answers mean\<close>

lemma every_secret_is_weak: "weak_secret key"
  by (simp add: weak_secret_def weak_secret_markers_def contains_iff_sublist)

lemma live_has_critical:
  assumes "live_warnings h = Inr ws"
  shows "\<exists>w \<in> set ws. sw_level w = ''critical''"
  using assms every_secret_is_weak[of "getenv h ''SECRET_KEY'' []"]
  by (auto simp: live_warnings_def Let_def warn_def split: option.splits sum.splits if_splits)

lemma current_mode_live: "current_mode h = ''live'' \<longleftrightarrow>
    ru_freebsd h \<and> missing_dependencies h = [] \<and> \<not> dry_run_enabled h \<and> network_apply_enabled h"
  by (simp add: current_mode_def)

lemma current_mode_degraded: "current_mode h = ''degraded'' \<longleftrightarrow> ru_freebsd h \<and> missing_dependencies h \<noteq> []"
  by (simp add: current_mode_def)

text \<open>
  The appliance is called ready for production exactly in the two modes in which it does not work as
  one, development and dry run: a live one always fails the check of its secret key, since the empty
  text is one of the weak markers and is contained in every key.
\<close>

theorem ready_exactly_when_idle:
  assumes "production_ready h = Inr (ok, issues)"
  shows "ok \<longleftrightarrow> current_mode h \<in> {''development'', ''dry-run''}"
proof (cases "current_mode h = ''live''")
  case True
  then obtain ws where "live_warnings h = Inr ws"
    using assms by (cases "live_warnings h") (simp_all add: production_ready_def startup_warnings_def)
  moreover obtain w where "w \<in> set ws" "sw_level w = ''critical''" using live_has_critical[OF calculation] by blast
  ultimately show ?thesis
    using assms True by (auto simp: production_ready_def startup_warnings_def Let_def filter_empty_conv)
next
  case False
  then have quiet: "filter (\<lambda>w. sw_level w = ''critical'') (optional_warnings h @ key_warnings h) = []"
    by (simp add: optional_warnings_def key_warnings_def warn_def)
  show ?thesis
  proof (cases "current_mode h = ''degraded''")
    case True
    then have "missing_dependencies h \<noteq> []" by (simp add: current_mode_degraded)
    then show ?thesis
      using assms True False quiet
      by (auto simp: production_ready_def startup_warnings_def Let_def missing_dependencies_def split: option.splits)
  next
    case degraded: False
    then have "current_mode h \<in> {''development'', ''dry-run''}" using False by (auto simp: current_mode_def split: if_splits)
    then show ?thesis
      using assms False degraded quiet by (auto simp: production_ready_def startup_warnings_def Let_def)
  qed
qed

text \<open>
  The check of the file with the secrets ends the process exactly when the program would work on the host, which has every tool, and everyone can read that file.
  It is one of several refusals to boot; those of the application factory are not modelled.
\<close>

theorem env_file_refused_iff:
  "assert_env_file_safe h = Some 78 \<longleftrightarrow>
     ru_freebsd h \<and> missing_dependencies h = [] \<and> \<not> dry_run_enabled h \<and> network_apply_enabled h
     \<and> (\<exists>m. ru_file h (env_file h) = Some (Inr m) \<and> world_readable m)"
proof -
  have "env_file h \<noteq> []" by (simp add: env_file_def ss_dir_def Let_def)
  then show ?thesis
    by (auto simp: assert_env_file_safe_def env_file_world_readable_def current_mode_live split: option.splits sum.splits)
qed

definition hardened :: runtime_env where
  "hardened = \<lparr>ru_freebsd = True,
     ru_env = [''SMARTSHIELD_ENABLE_NETWORK_APPLY'' \<mapsto> ''1'', ''SECRET_KEY'' \<mapsto> ''0123456789abcdef0123456789abcdef'',
               ''SMARTSHIELD_MASTER_KEY'' \<mapsto> ''k''],
     ru_missing = Some [], ru_isdir = (\<lambda>p. False), ru_file = (\<lambda>p. None), ru_key_path = ''/k''\<rparr>"

lemma ready_exactly_when_idle_witness: "\<exists>issues. production_ready hardened = Inr (False, issues)"
proof -
  have "\<exists>ok issues. production_ready hardened = Inr (ok, issues)"
    by (simp add: production_ready_def startup_warnings_def live_warnings_def Let_def hardened_def split: if_splits)
  then obtain ok issues where p: "production_ready hardened = Inr (ok, issues)" by blast
  have "current_mode hardened = ''live''"
    by (simp add: current_mode_live hardened_def missing_dependencies_def dry_run_enabled_def network_apply_enabled_def getenv_def)
  then show ?thesis using ready_exactly_when_idle[OF p] p by auto
qed

end
