(* ===== verification/Watchdog.thy ===== *)
theory Watchdog
  imports Playbooks "HOL-Library.AList"
begin

text \<open>
  \<^verbatim>\<open>app/services/dns_watchdog.py\<close> and \<^verbatim>\<open>app/services/ids_watchdog.py\<close>: the two loops that start Unbound and
  Suricata again, with the policy they share: a pause between attempts and a cap for each hour, kept in
  two rows of the table \<open>siem_state\<close>.  The recovery itself (\<open>recover_dns_service\<close>, \<open>recover_ids_service\<close>)
  and the probe of Unbound are arguments.
\<close>

section \<open>The rows and the times\<close>

text \<open>The row of the last attempt, a text, and the row of the counter, a document.\<close>

record watch_state =
  wt_last :: "string option"
  wt_count :: "json_doc option"

text \<open>
  The clock at its four readings in one attempt: at the check of the pause and of the cap, at the mark
  of the attempt and at the count; and whether each of the two rows could be written.
\<close>

record watch_times =
  wm_check :: int
  wm_cap :: int
  wm_mark :: int
  wm_bump :: int
  wm_last_ok :: bool
  wm_count_ok :: bool

definition min_backoff :: int where
  "min_backoff = 300"

definition max_per_hour :: int where
  "max_per_hour = 6"

section \<open>The policy\<close>

text \<open>\<open>value != n\<close> of a counter document: Python compares numbers across their types.\<close>

fun equals_int :: "pyval option \<Rightarrow> int \<Rightarrow> bool" where
  "equals_int (Some (PInt i)) n \<longleftrightarrow> i = n"
| "equals_int (Some (PBool b)) n \<longleftrightarrow> (if b then 1 else 0) = n"
| "equals_int (Some (PFloat r (Dyadic m e))) n \<longleftrightarrow> (if 0 \<le> e then m * 2 ^ nat e = n else m = n * 2 ^ nat (- e))"
| "equals_int v n \<longleftrightarrow> False"

definition hour_counter :: "int \<Rightarrow> watch_state \<Rightarrow> (string \<times> pyval) list res" where
  "hour_counter now ws =
     (let data = (case wt_count ws of Some (Json v) \<Rightarrow> v | _ \<Rightarrow> PDict []) in
      bind_res (get_attr data ''hour_bucket'') (\<lambda>b.
        Inr (if equals_int b (now div 3600) then (case data of PDict kvs \<Rightarrow> kvs | _ \<Rightarrow> [])
             else [(''hour_bucket'', PInt (now div 3600)), (''count'', PInt 0)])))"

text \<open>\<open>int(data.get("count") or 0)\<close>.\<close>

definition counted :: "(string \<times> pyval) list \<Rightarrow> int res" where
  "counted data = py_int_of (or_val (map_of data ''count'') (PInt 0))"

definition write_last :: "watch_times \<Rightarrow> watch_state \<Rightarrow> watch_state" where
  "write_last tm ws = (if wm_last_ok tm then ws\<lparr>wt_last := Some (str_int (wm_mark tm))\<rparr> else ws)"

definition bump_hour_counter :: "watch_times \<Rightarrow> watch_state \<Rightarrow> watch_state \<times> int res" where
  "bump_hour_counter tm ws =
     (case bind_res (hour_counter (wm_bump tm) ws) (\<lambda>data. bind_res (counted data) (\<lambda>n. Inr (data, n))) of
        Inl e \<Rightarrow> (ws, Inl e)
      | Inr (data, n) \<Rightarrow>
          (if wm_count_ok tm then ws\<lparr>wt_count := Some (Json (PDict (AList.update ''count'' (PInt (n + 1)) data)))\<rparr> else ws,
           Inr (n + 1)))"

text \<open>\<open>Some\<close> of the reason when no attempt is allowed.\<close>

definition last_try :: "watch_state \<Rightarrow> int" where
  "last_try ws = (case py_int (case wt_last ws of None \<Rightarrow> ''0'' | Some t \<Rightarrow> t) of None \<Rightarrow> 0 | Some n \<Rightarrow> n)"

definition should_attempt :: "watch_times \<Rightarrow> watch_state \<Rightarrow> string option res" where
  "should_attempt tm ws =
     (let elapsed = wm_check tm - last_try ws in
      if elapsed < min_backoff
      then Inr (Some (''cooldown ('' @ str_int (min_backoff - elapsed) @ ''s remaining)''))
      else bind_res (hour_counter (wm_cap tm) ws) (\<lambda>data. bind_res (counted data) (\<lambda>n.
        Inr (if max_per_hour \<le> n then Some (''hourly cap reached ('' @ str_int max_per_hour @ '')'') else None))))"

text \<open>The check and, when it allows the attempt, the two writes in front of it. The rows are read without a failure;
  the code takes a read that raises as a missing row, and then allows the attempt.\<close>

definition admit :: "watch_times \<Rightarrow> watch_state \<Rightarrow> watch_state \<times> (string + int) res" where
  "admit tm ws =
     (case should_attempt tm ws of
        Inl e \<Rightarrow> (ws, Inl e)
      | Inr (Some reason) \<Rightarrow> (ws, Inr (Inl reason))
      | Inr None \<Rightarrow>
          (case bump_hour_counter tm (write_last tm ws) of
             (ws1, Inl e) \<Rightarrow> (ws1, Inl e)
           | (ws1, Inr n) \<Rightarrow> (ws1, Inr (Inr n))))"

section \<open>Answers\<close>

record watch_answer =
  wa_ok :: bool
  wa_skipped :: bool
  wa_reason :: "pyval option"
  wa_message :: pyval
  wa_attempts :: "int option"
  wa_extra :: "(string \<times> pyval) list"

definition skip_answer :: "bool \<Rightarrow> string \<Rightarrow> string \<Rightarrow> watch_answer" where
  "skip_answer ok reason m =
     \<lparr>wa_ok = ok, wa_skipped = True, wa_reason = Some (PStr reason), wa_message = PStr m, wa_attempts = None, wa_extra = []\<rparr>"

type_synonym 'w recovery = "'w pb_state \<Rightarrow> 'w pb_state \<times> (string \<times> pyval) list res"

text \<open>What one of the two services calls its events, and what its answers say.\<close>

record watch_names =
  wn_category :: string
  wn_recovered :: string
  wn_failed :: string
  wn_recovered_message :: string
  wn_default_reason :: string
  wn_default_message :: string

definition watch_event ::
  "'w pb_env \<Rightarrow> watch_names \<Rightarrow> string \<Rightarrow> string \<Rightarrow> (string \<times> pyval) list \<Rightarrow> 'w pb_state \<Rightarrow> 'w pb_state" where
  "watch_event env nm action sev details s =
     log_event env False (mk_event env (PStr (wn_category nm)) (PStr action) ''watchdog'' [] (PStr sev) (PDict details)) s"

definition entry_or :: "(string \<times> pyval) list \<Rightarrow> string \<Rightarrow> pyval \<Rightarrow> pyval" where
  "entry_or result k d = (case map_of result k of None \<Rightarrow> d | Some v \<Rightarrow> v)"

text \<open>
  The attempt behind the policy.  \<open>extra\<close> gives the further entries of a failure, of its event and of
  its answer.
\<close>

definition run_recovery ::
  "'w pb_env \<Rightarrow> watch_names \<Rightarrow> ((string \<times> pyval) list \<Rightarrow> (string \<times> pyval) list \<times> (string \<times> pyval) list) \<Rightarrow> 'w recovery \<Rightarrow> int
     \<Rightarrow> 'w pb_state \<Rightarrow> 'w pb_state \<times> watch_answer res" where
  "run_recovery env nm extra recover n s =
     (let hour = (''attempts_this_hour'', PInt n) in
      case recover s of
        (s1, Inl e) \<Rightarrow>
          (watch_event env nm (wn_failed nm) ''high''
             [(''stage'', PStr ''recover''), (''error'', PStr (take 512 (exn_str e))), hour] s1,
           Inr \<lparr>wa_ok = False, wa_skipped = False, wa_reason = Some (PStr ''exception''), wa_message = PStr (exn_str e),
                wa_attempts = Some n, wa_extra = []\<rparr>)
      | (s1, Inr result) \<Rightarrow>
          (if py_bool_of (entry_or result ''ok'' PNone)
           then (case slice_to 512 (or_val (map_of result ''service_message'') (or_val (map_of result ''message'') (PStr []))) of
                   Inl e \<Rightarrow> (s1, Inl e)
                 | Inr m \<Rightarrow>
                     (watch_event env nm (wn_recovered nm) ''medium'' [hour, (''service_message'', m)] s1,
                      Inr \<lparr>wa_ok = True, wa_skipped = False, wa_reason = None, wa_message = PStr (wn_recovered_message nm),
                           wa_attempts = Some n, wa_extra = []\<rparr>))
           else (case slice_to 512 (or_val (map_of result ''service_message'') (PStr [])) of
                   Inl e \<Rightarrow> (s1, Inl e)
                 | Inr m \<Rightarrow>
                     (watch_event env nm (wn_failed nm) ''high''
                        ([(''stage'', PStr ''recover''), (''reason'', entry_or result ''reason'' (PStr (wn_default_reason nm))), hour,
                          (''service_message'', m)] @ fst (extra result)) s1,
                      Inr \<lparr>wa_ok = False, wa_skipped = False,
                           wa_reason = Some (entry_or result ''reason'' (PStr (wn_default_reason nm))),
                           wa_message = entry_or result ''message'' (PStr (wn_default_message nm)),
                           wa_attempts = Some n, wa_extra = snd (extra result)\<rparr>))))"

definition watched ::
  "'w pb_env \<Rightarrow> watch_names \<Rightarrow> ((string \<times> pyval) list \<Rightarrow> (string \<times> pyval) list \<times> (string \<times> pyval) list) \<Rightarrow> 'w recovery
     \<Rightarrow> watch_times \<Rightarrow> watch_state \<Rightarrow> 'w pb_state \<Rightarrow> watch_state \<times> 'w pb_state \<times> watch_answer res" where
  "watched env nm extra recover tm ws s =
     (case admit tm ws of
        (ws1, Inl e) \<Rightarrow> (ws1, s, Inl e)
      | (ws1, Inr (Inl reason)) \<Rightarrow> (ws1, s, Inr (skip_answer True ''rate_limited'' reason))
      | (ws1, Inr (Inr n)) \<Rightarrow> (case run_recovery env nm extra recover n s of (s1, r) \<Rightarrow> (ws1, s1, r)))"

section \<open>Unbound\<close>

definition dns_names :: watch_names where
  "dns_names = \<lparr>wn_category = ''network'', wn_recovered = ''dns_auto_recovered'', wn_failed = ''dns_auto_recovery_failed'',
     wn_recovered_message = ''Unbound recovered by watchdog'', wn_default_reason = ''did_not_serve'',
     wn_default_message = ''recovery returned but Unbound is not serving the LAN''\<rparr>"

text \<open>\<open>None\<close> for the settings is a missing table.\<close>

definition dns_watchdog_enabled :: "service_state option \<Rightarrow> bool" where
  "dns_watchdog_enabled settings =
     (case settings of
        None \<Rightarrow> True
      | Some st \<Rightarrow>
          (case st ''dns_resolver'' of
             Some (Json v) \<Rightarrow>
               (case get_attr v ''watchdog_enabled'' of Inr (Some x) \<Rightarrow> py_bool_of x | Inr None \<Rightarrow> True | Inl e \<Rightarrow> True)
           | _ \<Rightarrow> True))"

definition dns_attempt_recovery ::
  "'w pb_env \<Rightarrow> service_state option \<Rightarrow> bool res \<Rightarrow> 'w recovery \<Rightarrow> watch_times \<Rightarrow> watch_state option \<Rightarrow> 'w pb_state
     \<Rightarrow> watch_state option \<times> 'w pb_state \<times> watch_answer res" where
  "dns_attempt_recovery env settings serving recover tm db s =
     (case db of
        None \<Rightarrow> (None, s, Inr (skip_answer False ''events_db_unavailable'' ''events DB unavailable''))
      | Some ws \<Rightarrow>
          (if \<not> dns_watchdog_enabled settings
           then (db, s, Inr (skip_answer True ''watchdog_disabled'' ''dns_resolver.watchdog_enabled = false''))
           else case serving of
             Inl e \<Rightarrow> (db, s, Inl e)
           | Inr True \<Rightarrow> (db, s, Inr (skip_answer True ''already_serving'' ''Unbound is serving the LAN''))
           | Inr False \<Rightarrow>
               (case watched env dns_names (\<lambda>r. ([], [])) recover tm ws s of (ws1, s1, r) \<Rightarrow> (Some ws1, s1, r))))"

section \<open>Suricata\<close>

definition ids_names :: watch_names where
  "ids_names = \<lparr>wn_category = ''security'', wn_recovered = ''ids_auto_recovered'', wn_failed = ''ids_auto_recovery_failed'',
     wn_recovered_message = ''Suricata restarted by watchdog'', wn_default_reason = ''did_not_start'',
     wn_default_message = ''recovery returned but daemon is not alive''\<rparr>"

definition suricata_alive :: "'w exec_env \<Rightarrow> 'w pb_state \<Rightarrow> 'w pb_state \<times> bool" where
  "suricata_alive env s =
     (if \<not> ne_freebsd env then (s, True)
      else case run_command env 20 False [''pgrep'', ''-x'', ''suricata''] (ps_world s) of
        (w, events, r) \<Rightarrow>
          (s\<lparr>ps_world := w, ps_audit := ps_audit s @ events\<rparr>, (case r of Inl e \<Rightarrow> False | Inr c \<Rightarrow> cr_code c = 0)))"

text \<open>
  The row of \<open>ids_config\<close>: \<open>None\<close> when the query raises, as it does without the column
  \<open>watchdog_enabled\<close>, \<open>Some None\<close> without a row.
\<close>

definition ids_settings :: "(int option \<times> int option) option option \<Rightarrow> bool \<times> bool" where
  "ids_settings q =
     (case q of
        Some (Some (enabled, wd)) \<Rightarrow> (truthy_int enabled, (case wd of None \<Rightarrow> True | Some n \<Rightarrow> n \<noteq> 0))
      | _ \<Rightarrow> (False, True))"

definition ids_extra :: "(string \<times> pyval) list \<Rightarrow> (string \<times> pyval) list \<times> (string \<times> pyval) list" where
  "ids_extra result =
     (let tail = (''log_tail'', entry_or result ''log_tail'' (PList []));
          oom = (''oom_killed'', PBool (py_bool_of (entry_or result ''oom_killed'' PNone)))
      in ([tail, oom, (''dmesg'', entry_or result ''dmesg'' (PStr []))],
          [(''service_message'', entry_or result ''service_message'' (PStr [])), tail, oom]))"

definition ids_attempt_recovery ::
  "'w pb_env \<Rightarrow> (int option \<times> int option) option option \<Rightarrow> 'w recovery \<Rightarrow> watch_times \<Rightarrow> watch_state option \<Rightarrow> 'w pb_state
     \<Rightarrow> watch_state option \<times> 'w pb_state \<times> watch_answer res" where
  "ids_attempt_recovery env q recover tm db s =
     (case db of
        None \<Rightarrow> (None, s, Inr (skip_answer False ''events_db_unavailable'' ''events DB unavailable''))
      | Some ws \<Rightarrow>
          (if \<not> fst (ids_settings q) then (db, s, Inr (skip_answer True ''disabled_in_config'' ''ids_config.enabled = 0''))
           else if \<not> snd (ids_settings q)
           then (db, s, Inr (skip_answer True ''watchdog_disabled'' ''ids_config.watchdog_enabled = 0''))
           else case suricata_alive (pe_exec env) s of
             (s0, True) \<Rightarrow> (db, s0, Inr (skip_answer True ''already_running'' ''Suricata is alive''))
           | (s0, False) \<Rightarrow>
               (case watched env ids_names ids_extra recover tm ws s0 of (ws1, s1, r) \<Rightarrow> (Some ws1, s1, r))))"

section \<open>The pause and the cap\<close>

lemma py_int_str_int: "0 \<le> n \<Longrightarrow> py_int (str_int n) = Some n"
  by (simp add: str_int_def)

lemma str_int_Nil [simp]: "str_int n \<noteq> []"
  by (simp add: str_int_def)

text \<open>Readings of one clock, none before \<open>t\<close>, and rows that can be written.\<close>

definition times_ok :: "int \<Rightarrow> watch_times \<Rightarrow> bool" where
  "times_ok t tm \<longleftrightarrow> t \<le> wm_check tm \<and> wm_check tm \<le> wm_cap tm \<and> wm_cap tm \<le> wm_mark tm \<and> wm_mark tm \<le> wm_bump tm
     \<and> wm_last_ok tm \<and> wm_count_ok tm"

definition note_attempt :: "watch_times \<Rightarrow> (string + int) res \<Rightarrow> (int \<times> int) list \<Rightarrow> (int \<times> int) list" where
  "note_attempt tm r tr = (case r of Inr (Inr n) \<Rightarrow> tr @ [(wm_mark tm, wm_bump tm)] | _ \<Rightarrow> tr)"

text \<open>The states a watchdog can be in, with its attempts (the times of the mark and of the count).\<close>

inductive watch_reach :: "watch_state \<Rightarrow> (int \<times> int) list \<Rightarrow> int \<Rightarrow> bool" where
  start: "0 \<le> t \<Longrightarrow> watch_reach \<lparr>wt_last = None, wt_count = None\<rparr> [] t"
| tick: "watch_reach ws tr t \<Longrightarrow> times_ok t tm \<Longrightarrow> admit tm ws = (ws1, r) \<Longrightarrow> watch_reach ws1 (note_attempt tm r tr) (wm_bump tm)"

definition in_hour :: "int \<Rightarrow> (int \<times> int) list \<Rightarrow> int" where
  "in_hour h tr = int (length (filter (\<lambda>x. snd x div 3600 = h) tr))"

lemma in_hour_simps [simp]:
  "in_hour h [] = 0"
  "in_hour h (tr @ [x]) = in_hour h tr + (if snd x div 3600 = h then 1 else 0)"
  by (simp_all add: in_hour_def)

definition counter_doc :: "int \<Rightarrow> int \<Rightarrow> json_doc" where
  "counter_doc b n = Json (PDict [(''hour_bucket'', PInt b), (''count'', PInt n)])"

definition watch_inv :: "watch_state \<Rightarrow> (int \<times> int) list \<Rightarrow> int \<Rightarrow> bool" where
  "watch_inv ws tr t \<longleftrightarrow> 0 \<le> t \<and> (\<forall>x \<in> set tr. fst x \<le> snd x \<and> snd x \<le> t)
     \<and> (if tr = [] then wt_last ws = None \<and> wt_count ws = None
        else 0 \<le> fst (last tr) \<and> wt_last ws = Some (str_int (fst (last tr)))
          \<and> wt_count ws = Some (counter_doc (snd (last tr) div 3600) (in_hour (snd (last tr) div 3600) tr))
          \<and> (\<forall>x \<in> set tr. snd x \<le> snd (last tr)))"

lemma hour_counter_inv:
  assumes "watch_inv ws tr t" "t \<le> now"
  shows "hour_counter now ws = Inr [(''hour_bucket'', PInt (now div 3600)), (''count'', PInt (in_hour (now div 3600) tr))]"
proof (cases "tr = []")
  case True
  then show ?thesis using assms by (simp add: watch_inv_def hour_counter_def)
next
  case False
  let ?b = "snd (last tr) div 3600"
  have c: "wt_count ws = Some (counter_doc ?b (in_hour ?b tr))" and le: "\<forall>x \<in> set tr. snd x \<le> snd (last tr)"
    using assms(1) False by (auto simp: watch_inv_def)
  show ?thesis
  proof (cases "?b = now div 3600")
    case True
    then show ?thesis using c by (simp add: hour_counter_def counter_doc_def)
  next
    case other: False
    have "snd (last tr) \<le> now" using assms False last_in_set by (fastforce simp: watch_inv_def)
    then have "?b < now div 3600" using other by (simp add: order.not_eq_order_implies_strict zdiv_mono1)
    then have "snd x div 3600 \<noteq> now div 3600" if "x \<in> set tr" for x
      using le that zdiv_mono1[of "snd x" "snd (last tr)" 3600] by fastforce
    then have "in_hour (now div 3600) tr = 0" by (simp add: in_hour_def filter_empty_conv)
    then show ?thesis using c other by (simp add: hour_counter_def counter_doc_def)
  qed
qed

lemma last_try_inv: "watch_inv ws tr t \<Longrightarrow> tr \<noteq> [] \<Longrightarrow> last_try ws = fst (last tr)"
  by (simp add: watch_inv_def last_try_def py_int_str_int)

lemma bump_inv:
  assumes "watch_inv ws tr t" "t \<le> wm_bump tm" "wm_count_ok tm"
  defines "h \<equiv> wm_bump tm div 3600"
  shows "bump_hour_counter tm (write_last tm ws)
    = ((write_last tm ws)\<lparr>wt_count := Some (counter_doc h (in_hour h tr + 1))\<rparr>, Inr (in_hour h tr + 1))"
proof -
  have "hour_counter n (write_last tm ws) = hour_counter n ws" for n
    by (simp add: hour_counter_def write_last_def)
  then show ?thesis
    using hour_counter_inv[OF assms(1,2)] assms(3)
    by (simp add: bump_hour_counter_def counted_def or_val_def counter_doc_def h_def)
qed

lemma admit_inv:
  assumes "watch_inv ws tr t" "times_ok t tm" "admit tm ws = (ws1, r)"
  shows "watch_inv ws1 (note_attempt tm r tr) (wm_bump tm)
    \<and> (note_attempt tm r tr \<noteq> tr \<longrightarrow> in_hour (wm_cap tm div 3600) tr < max_per_hour
         \<and> (tr \<noteq> [] \<longrightarrow> fst (last tr) + min_backoff \<le> wm_mark tm))"
proof -
  have tm: "t \<le> wm_cap tm" "t \<le> wm_bump tm" "t \<le> wm_mark tm" "wm_mark tm \<le> wm_bump tm" "wm_check tm \<le> wm_mark tm"
    "wm_last_ok tm" "wm_count_ok tm" and t: "0 \<le> t"
    using assms(1,2) by (auto simp: times_ok_def watch_inv_def)
  have cap: "hour_counter (wm_cap tm) ws = Inr [(''hour_bucket'', PInt (wm_cap tm div 3600)), (''count'', PInt (in_hour (wm_cap tm div 3600) tr))]"
    using hour_counter_inv[OF assms(1) tm(1)] .
  have "should_attempt tm ws \<noteq> Inr None \<longrightarrow> ws1 = ws \<and> note_attempt tm r tr = tr"
    using assms(3) by (auto simp: admit_def note_attempt_def split: sum.splits option.splits)
  moreover have "watch_inv ws tr (wm_bump tm)" using assms(1) tm(2) by (fastforce simp: watch_inv_def)
  moreover have ?thesis if go: "should_attempt tm ws = Inr None"
  proof -
    have few: "in_hour (wm_cap tm div 3600) tr < max_per_hour" and quiet: "min_backoff \<le> wm_check tm - last_try ws"
      using go by (auto simp: should_attempt_def cap counted_def or_val_def Let_def max_per_hour_def split: if_splits)
    let ?h = "wm_bump tm div 3600"
    note b = bump_inv[OF assms(1) tm(2,7)]
    have r: "r = Inr (Inr (in_hour ?h tr + 1))"
      "ws1 = \<lparr>wt_last = Some (str_int (wm_mark tm)), wt_count = Some (counter_doc ?h (in_hour ?h tr + 1))\<rparr>"
      using assms(3) go tm(6) b by (auto simp: admit_def write_last_def)
    have "watch_inv ws1 (tr @ [(wm_mark tm, wm_bump tm)]) (wm_bump tm)"
      using assms(1) tm t unfolding r by (fastforce simp: watch_inv_def)
    moreover have "tr \<noteq> [] \<longrightarrow> fst (last tr) + min_backoff \<le> wm_mark tm"
      using quiet tm(5) last_try_inv[OF assms(1)] by auto
    ultimately show ?thesis using few by (simp add: r note_attempt_def)
  qed
  ultimately show ?thesis by auto
qed

text \<open>
  C29: while its rows can be read and written, a watchdog leaves at least five minutes between the marks of two
  attempts and makes at most six of them within one hour of the clock.
\<close>

theorem watchdog_rate_limited:
  assumes "watch_reach ws tr t"
  shows "successively (\<lambda>x y. fst x + min_backoff \<le> fst y) tr \<and> in_hour h tr \<le> max_per_hour"
proof -
  have "watch_inv ws tr t \<and> successively (\<lambda>x y. fst x + min_backoff \<le> fst y) tr \<and> (\<forall>h. in_hour h tr \<le> max_per_hour)"
    using assms
  proof (induction rule: watch_reach.induct)
    case (start t)
    then show ?case by (simp add: watch_inv_def max_per_hour_def)
  next
    case (tick ws tr t tm ws1 r)
    note a = admit_inv[OF tick.IH[THEN conjunct1] tick.hyps(2,3)]
    show ?case
    proof (cases "note_attempt tm r tr = tr")
      case True
      then show ?thesis using a tick.IH by simp
    next
      case False
      then have tr: "note_attempt tm r tr = tr @ [(wm_mark tm, wm_bump tm)]" by (auto simp: note_attempt_def split: sum.splits)
      have few: "in_hour (wm_cap tm div 3600) tr < max_per_hour" using a False by blast
      have "in_hour (wm_bump tm div 3600) tr < max_per_hour"
      proof (cases "tr = [] \<or> (\<forall>x \<in> set tr. snd x div 3600 \<noteq> wm_bump tm div 3600)")
        case True
        then have "in_hour (wm_bump tm div 3600) tr = 0" by (auto simp: in_hour_def filter_empty_conv)
        then show ?thesis by (simp add: max_per_hour_def)
      next
        case other: False
        then obtain x where x: "x \<in> set tr" "snd x div 3600 = wm_bump tm div 3600" by blast
        then have "snd x \<le> wm_cap tm" "wm_cap tm \<le> wm_bump tm"
          using tick.IH tick.hyps(2) by (fastforce simp: watch_inv_def times_ok_def)+
        then have "wm_cap tm div 3600 = wm_bump tm div 3600"
          using x(2) zdiv_mono1[of "snd x" "wm_cap tm" 3600] zdiv_mono1[of "wm_cap tm" "wm_bump tm" 3600] by linarith
        then show ?thesis using few by simp
      qed
      then show ?thesis
        using a False tick.IH unfolding tr by (auto simp: successively_append_iff)
    qed
  qed
  then show ?thesis by blast
qed

text \<open>
  When the rows cannot be written nothing limits the attempts: every tick of the loop makes one.
\<close>

theorem unwritable_rows_no_limit:
  assumes "wt_last ws = None" "wt_count ws = None" "\<not> wm_last_ok tm" "\<not> wm_count_ok tm" "min_backoff \<le> wm_check tm"
  shows "admit tm ws = (ws, Inr (Inr 1))"
proof -
  have "str_nat 0 = ''0''" by code_simp
  then have "py_int ''0'' = Some 0" using py_int_str_nat[of 0] by simp
  then show ?thesis
    using assms by (simp add: admit_def should_attempt_def last_try_def hour_counter_def counted_def or_val_def
        bump_hour_counter_def write_last_def max_per_hour_def Let_def)
qed

definition tick_at :: "int \<Rightarrow> watch_times" where
  "tick_at n = \<lparr>wm_check = n, wm_cap = n, wm_mark = n, wm_bump = n, wm_last_ok = True, wm_count_ok = True\<rparr>"

lemma reach_inv: "watch_reach ws tr t \<Longrightarrow> watch_inv ws tr t"
proof (induction rule: watch_reach.induct)
  case (start t)
  then show ?case by (simp add: watch_inv_def)
next
  case (tick ws tr t tm ws1 r)
  then show ?case using admit_inv by blast
qed

lemma reach_attempt:
  assumes "watch_reach ws tr t" "t \<le> n" "in_hour (n div 3600) tr < max_per_hour"
    and "min_backoff \<le> n - (if tr = [] then 0 else fst (last tr))"
  shows "\<exists>ws1. watch_reach ws1 (tr @ [(n, n)]) n"
proof -
  note inv = reach_inv[OF assms(1)]
  have "str_nat 0 = ''0''" by code_simp
  then have "py_int ''0'' = Some 0" using py_int_str_nat[of 0] by simp
  then have lt: "last_try ws = (if tr = [] then 0 else fst (last tr))"
    using last_try_inv[OF inv] inv by (auto simp: watch_inv_def last_try_def)
  have "should_attempt (tick_at n) ws = Inr None"
    using assms(3,4) hour_counter_inv[OF inv assms(2)]
    by (simp add: should_attempt_def tick_at_def lt Let_def counted_def or_val_def)
  moreover have "wm_count_ok (tick_at n)" "t \<le> wm_bump (tick_at n)" using assms(2) by (simp_all add: tick_at_def)
  ultimately obtain ws1 m where "admit (tick_at n) ws = (ws1, Inr (Inr m))"
    using bump_inv[OF inv, of "tick_at n"] by (simp add: admit_def)
  then show ?thesis
    using watch_reach.tick[OF assms(1), of "tick_at n"] assms(2)
    by (auto simp: times_ok_def note_attempt_def) (auto simp: tick_at_def)
qed

lemma watchdog_rate_limited_witness: "in_hour 0 [(300, 300), (600, 600)] \<le> max_per_hour"
proof -
  obtain ws where "watch_reach ws [(300, 300)] 300"
    using reach_attempt[OF watch_reach.start[of 0], of 300] by (auto simp: max_per_hour_def min_backoff_def)
  from reach_attempt[OF this, of 600] obtain ws1 where "watch_reach ws1 [(300, 300), (600, 600)] 600"
    by (auto simp: max_per_hour_def min_backoff_def in_hour_def)
  from watchdog_rate_limited[OF this, of 0] show ?thesis by simp
qed

lemma unwritable_rows_no_limit_witness:
  "admit ((tick_at 1000)\<lparr>wm_last_ok := False, wm_count_ok := False\<rparr>) \<lparr>wt_last = None, wt_count = None\<rparr>
     = (\<lparr>wt_last = None, wt_count = None\<rparr>, Inr (Inr 1))"
  by (rule unwritable_rows_no_limit) (simp_all add: tick_at_def min_backoff_def)

text \<open>
  The cap is one of the hours of the clock, not of any sixty minutes: twelve attempts are
  possible within fifty-five minutes around the full hour.
\<close>

theorem twelve_attempts_within_the_hour:
  "\<exists>ws t. watch_reach ws (map (\<lambda>k. (1800 + 300 * k, 1800 + 300 * k)) [0, 1, 2, 3, 4, 5, 6, 7, 8, 9, 10, 11]) t"
proof -
  let ?f = "\<lambda>k :: int. (1800 + 300 * k, 1800 + 300 * k)"
  have step: "\<exists>ws1. watch_reach ws1 (tr @ [(n, n)]) n"
    if "\<exists>ws. watch_reach ws tr t" "t \<le> n" "in_hour (n div 3600) tr < 6" "300 \<le> n - (if tr = [] then 0 else fst (last tr))" for tr t n
    using that reach_attempt[of _ tr t n] by (auto simp: max_per_hour_def min_backoff_def)
  have "\<exists>ws. watch_reach ws [] 0" using watch_reach.start[of 0] by auto
  from step[OF this, of 1800] have "\<exists>ws. watch_reach ws (map ?f [0]) 1800" by simp
  from step[OF this, of 2100] have "\<exists>ws. watch_reach ws (map ?f [0, 1]) 2100" by (simp add: in_hour_def)
  from step[OF this, of 2400] have "\<exists>ws. watch_reach ws (map ?f [0, 1, 2]) 2400" by (simp add: in_hour_def)
  from step[OF this, of 2700] have "\<exists>ws. watch_reach ws (map ?f [0, 1, 2, 3]) 2700" by (simp add: in_hour_def)
  from step[OF this, of 3000] have "\<exists>ws. watch_reach ws (map ?f [0, 1, 2, 3, 4]) 3000" by (simp add: in_hour_def)
  from step[OF this, of 3300] have "\<exists>ws. watch_reach ws (map ?f [0, 1, 2, 3, 4, 5]) 3300" by (simp add: in_hour_def)
  from step[OF this, of 3600] have "\<exists>ws. watch_reach ws (map ?f [0, 1, 2, 3, 4, 5, 6]) 3600" by (simp add: in_hour_def)
  from step[OF this, of 3900] have "\<exists>ws. watch_reach ws (map ?f [0, 1, 2, 3, 4, 5, 6, 7]) 3900" by (simp add: in_hour_def)
  from step[OF this, of 4200] have "\<exists>ws. watch_reach ws (map ?f [0, 1, 2, 3, 4, 5, 6, 7, 8]) 4200" by (simp add: in_hour_def)
  from step[OF this, of 4500] have "\<exists>ws. watch_reach ws (map ?f [0, 1, 2, 3, 4, 5, 6, 7, 8, 9]) 4500" by (simp add: in_hour_def)
  from step[OF this, of 4800] have "\<exists>ws. watch_reach ws (map ?f [0, 1, 2, 3, 4, 5, 6, 7, 8, 9, 10]) 4800" by (simp add: in_hour_def)
  from step[OF this, of 5100] have "\<exists>ws. watch_reach ws (map ?f [0, 1, 2, 3, 4, 5, 6, 7, 8, 9, 10, 11]) 5100" by (simp add: in_hour_def)
  then show ?thesis by blast
qed

end
