(* ===== verification/ScheduleEnforcer.thy ===== *)
theory ScheduleEnforcer
  imports PfReload Playbooks "HOL-Library.AList"
begin

text \<open>
  \<^verbatim>\<open>app/services/schedule_enforcer.py\<close>: the loop that reloads the packet filter when a schedule opens or
  closes, over \<open>reload_pf_rules\<close> and the event log; and why it is enough to look at the states of the schedules.
\<close>

section \<open>The states as a dict\<close>

text \<open>The dict of \<open>get_all_schedule_states\<close> with its entries in the order of Python.\<close>

definition schedule_states :: "sched_db \<Rightarrow> datetime \<Rightarrow> (string \<times> bool) list" where
  "schedule_states db now =
     (case (firewall_schedules db, firewall_schedule_ranges db) of
        (Some ss, Some rs) \<Rightarrow>
          fold (\<lambda>(sid, name). AList.update name (list_ex (\<lambda>r. range_active r now) (ranges_of rs sid))) ss []
      | _ \<Rightarrow> [])"

definition states_changed :: "(string \<times> bool) list \<Rightarrow> (string \<times> bool) list \<Rightarrow> bool" where
  "states_changed prev cur \<longleftrightarrow>
     list_ex (\<lambda>(n, a). map_of prev n \<noteq> Some a) cur \<or> list_ex (\<lambda>(n, a). n \<notin> fst ` set cur) prev"

definition changed_names :: "(string \<times> bool) list \<Rightarrow> (string \<times> bool) list \<Rightarrow> string list" where
  "changed_names prev cur = map fst (filter (\<lambda>(n, a). map_of prev n \<noteq> Some a) cur)"

section \<open>One check\<close>

record 'w enforcer =
  ef_prev :: "(string \<times> bool) list"
  ef_host :: pf_host
  ef_pb :: "'w pb_state"

definition reload_event :: "'w pb_env \<Rightarrow> (string \<times> bool) list \<Rightarrow> (string \<times> bool) list \<Rightarrow> reload_result \<Rightarrow> event" where
  "reload_event env prev cur r =
     mk_event env (PStr ''firewall'') (PStr ''schedule_enforcement_reload'') [] [] (PStr ''info'')
       (PDict [(''ok'', PBool (rl_ok r)), (''message'', PStr (rl_message r)),
               (''changed_schedules'', PList (map PStr (changed_names prev cur)))])"

text \<open>\<open>now\<close> is the time of the states; the reload reads its own time from its environment.\<close>

definition run_check :: "pf_os \<Rightarrow> 'w pb_env \<Rightarrow> pf_env \<Rightarrow> datetime \<Rightarrow> pf_db option \<Rightarrow> 'w enforcer \<Rightarrow> 'w enforcer" where
  "run_check os env pe now conn s =
     (case conn of
        None \<Rightarrow> s
      | Some db \<Rightarrow>
          (let cur = schedule_states (schedules db) now in
           if states_changed (ef_prev s) cur \<and> ef_prev s \<noteq> []
           then (case reload_pf_rules os pe db (ef_host s) of
                   (h, Inl e) \<Rightarrow> s\<lparr>ef_prev := cur, ef_host := h\<rparr>
                 | (h, Inr r) \<Rightarrow>
                     s\<lparr>ef_prev := cur, ef_host := h, ef_pb := log_event env False (reload_event env (ef_prev s) cur r) (ef_pb s)\<rparr>)
           else s\<lparr>ef_prev := cur\<rparr>))"

section \<open>The states decide the rules\<close>

lemma distinct_states: "distinct (map fst (schedule_states db now))"
proof -
  have "distinct (map fst (fold (\<lambda>(sid, name). AList.update name (f sid)) ss acc))" if "distinct (map fst acc)"
    for ss :: "(nat \<times> string) list" and f :: "nat \<Rightarrow> bool" and acc
    using that by (induction ss arbitrary: acc) (auto simp: distinct_update)
  then show ?thesis by (auto simp: schedule_states_def split: option.split)
qed

lemma states_map_of: "map_of (schedule_states db now) = get_all_schedule_states db now"
proof -
  have "map_of (fold (\<lambda>(sid, name). AList.update name (f sid)) ss acc) = fold (\<lambda>(sid, name) m. m(name \<mapsto> f sid)) ss (map_of acc)"
    for ss :: "(nat \<times> string) list" and f :: "nat \<Rightarrow> bool" and acc
    by (induction ss arbitrary: acc) (auto simp: update_conv')
  then show ?thesis by (auto simp: schedule_states_def get_all_schedule_states_def split: option.split)
qed

lemma unchanged_iff:
  assumes "distinct (map fst prev)" "distinct (map fst cur)"
  shows "\<not> states_changed prev cur \<longleftrightarrow> map_of prev = map_of cur"
proof
  assume n: "\<not> states_changed prev cur"
  show "map_of prev = map_of cur"
  proof
    fix k
    show "map_of prev k = map_of cur k"
    proof (cases "map_of cur k")
      case None
      then have "k \<notin> fst ` set cur" by (simp add: map_of_eq_None_iff)
      then have "k \<notin> fst ` set prev" using n by (force simp: states_changed_def list_ex_iff)
      then have "map_of prev k = None" by (simp add: map_of_eq_None_iff)
      then show ?thesis using None by (simp only:)
    next
      case (Some a)
      then have "(k, a) \<in> set cur" by (rule map_of_SomeD)
      then show ?thesis using n Some by (force simp: states_changed_def list_ex_iff)
    qed
  qed
next
  assume "map_of prev = map_of cur"
  then show "\<not> states_changed prev cur"
    using assms by (auto simp: states_changed_def list_ex_iff dest: map_of_is_SomeI) (metis domIff image_eqI fst_conv dom_map_of_conv_image_fst)
qed

definition unique_names :: "sched_db \<Rightarrow> bool" where
  "unique_names db \<longleftrightarrow> (\<forall>ss. firewall_schedules db = Some ss \<longrightarrow> distinct (map snd ss))"

text \<open>The state of a schedule is its entry, when the names are distinct.\<close>

lemma states_active:
  assumes "unique_names db"
  shows "is_schedule_active db n now \<longleftrightarrow> map_of (schedule_states db now) n = Some True"
proof (cases "firewall_schedules db")
  case None
  then show ?thesis by (simp add: is_schedule_active_def schedule_states_def)
next
  case (Some ss)
  show ?thesis
  proof (cases "firewall_schedule_ranges db")
    case None
    then show ?thesis using Some by (auto simp: is_schedule_active_def schedule_states_def split: option.split)
  next
    case ranges: (Some rs)
    let ?f = "\<lambda>sid. list_ex (\<lambda>r. range_active r now) (ranges_of rs sid)"
    have "fold (\<lambda>(sid, name) m. m(name \<mapsto> f sid)) ss m n
        = (case find_by snd n ss of None \<Rightarrow> m n | Some (sid, name) \<Rightarrow> Some (f sid))"
      if "distinct (map snd ss)" for f :: "nat \<Rightarrow> bool" and ss and m
      using that
    proof (induction ss arbitrary: m)
      case (Cons x ss)
      obtain sid name where x: "x = (sid, name)" by fastforce
      show ?case
      proof (cases "name = n")
        case True
        then have "find_by snd n ss = None" using Cons.prems x by (auto simp: find_by_None)
        then show ?thesis using Cons True x by simp
      next
        case False
        then show ?thesis using Cons x by simp
      qed
    qed simp
    then have "get_all_schedule_states db now n = (case find_by snd n ss of None \<Rightarrow> None | Some (sid, name) \<Rightarrow> Some (?f sid))"
      using assms Some ranges by (simp add: get_all_schedule_states_def unique_names_def)
    then show ?thesis
      using Some ranges by (auto simp: states_map_of is_schedule_active_def split: option.splits)
  qed
qed

lemma same_states_same_rules:
  assumes "unique_names (schedules db)" "map_of (schedule_states (schedules db) now) = map_of (schedule_states (schedules db) (env_now pe))"
  shows "rules_in_force (pe\<lparr>env_now := now\<rparr>) db rs = rules_in_force pe db rs"
  using assms
  by (simp add: rules_in_force_def filter_rules_by_schedule_eq rule_in_force_def[abs_def] states_active)

lemma same_states_same_conf:
  assumes "unique_names (schedules db)" "map_of (schedule_states (schedules db) now) = map_of (schedule_states (schedules db) (env_now pe))"
  shows "generate_pf_conf (pe\<lparr>env_now := now\<rparr>) db = generate_pf_conf pe db"
proof -
  let ?pe = "pe\<lparr>env_now := now\<rparr>"
  have a: "build_alias_tables ?pe db = build_alias_tables pe db"
    by (simp add: build_alias_tables_def alias_line_def alias_entries_def)
  have u: "unbound_lan_ready ?pe = unbound_lan_ready pe" by (simp add: unbound_lan_ready_def)
  have n: "build_nat_rules ?pe db = build_nat_rules pe db"
    by (simp add: fun_eq_iff build_nat_rules_def nat_lines_def intercept_lines_def u)
  have h: "build_hardening_rules ?pe db = build_hardening_rules pe db"
    unfolding fun_eq_iff build_hardening_rules_def hardening_lines_def dns_egress_lines_def u by (intro allI refl)
  have f: "build_firewall_rules ?pe db = build_firewall_rules pe db"
    by (simp add: fun_eq_iff build_firewall_rules_def firewall_lines_def same_states_same_rules[OF assms])
  show ?thesis unfolding generate_pf_conf_def a n h f by (rule refl)
qed

section \<open>What the loop keeps\<close>

lemma states_keys: "map fst (schedule_states db now) = map fst (schedule_states db now')"
proof -
  have "map fst (fold (\<lambda>(sid, name). AList.update name (f sid)) ss acc) = map fst (fold (\<lambda>(sid, name). AList.update name (g sid)) ss acc')"
    if "map fst acc = map fst acc'" for ss :: "(nat \<times> string) list" and f g :: "nat \<Rightarrow> bool" and acc acc'
    using that
  proof (induction ss arbitrary: acc acc')
    case (Cons x ss)
    obtain sid name where x: "x = (sid, name)" by fastforce
    have "map fst (AList.update name (f sid) acc) = map fst (AList.update name (g sid) acc')"
      unfolding update_keys Cons.prems by (rule refl)
    from Cons.IH[OF this] show ?case by (simp add: x)
  qed simp
  then show ?thesis by (auto simp: schedule_states_def split: option.split)
qed

text \<open>
  C27: when a check's reload succeeds (on FreeBSD, outside the network dry run), a host that runs the rules of the
  present states of the schedules, whose names are distinct, still does so after a check at a later time: the check reloads when a state has
  changed, and when none has, the file of that time is the one that is loaded already.
\<close>

theorem enforcer_keeps_rules:
  fixes s :: "'w enforcer" and env :: "'w pb_env"
  assumes "unique_names (schedules db)" "ef_prev s = schedule_states (schedules db) (env_now pe)"
    and "generate_pf_conf pe db = Inr t" "ho_rules (ef_host s) = Some t"
    and "reload_pf_rules os (pe\<lparr>env_now := now\<rparr>) db (ef_host s) = (h1, Inr r)" "rl_ok r"
    and "os_freebsd os" "\<not> os_dry os" "io_tmp (os_write os) \<noteq> pf_conf_path"
  defines "s1 \<equiv> run_check os env (pe\<lparr>env_now := now\<rparr>) now (Some db) s"
  shows "ef_prev s1 = schedule_states (schedules db) now
    \<and> (\<exists>t1. generate_pf_conf (pe\<lparr>env_now := now\<rparr>) db = Inr t1 \<and> ho_rules (ef_host s1) = Some t1)"
proof (cases "states_changed (ef_prev s) (schedule_states (schedules db) now) \<and> ef_prev s \<noteq> []")
  case True
  obtain t1 where t1: "generate_pf_conf (pe\<lparr>env_now := now\<rparr>) db = Inr t1" "install_conf os db t1 (ef_host s) = (h1, Inr r)"
    using reload_installs[OF assms(5-7)] by blast
  moreover have "ef_host s1 = h1" "ef_prev s1 = schedule_states (schedules db) now"
    using True assms(5) by (simp_all add: s1_def run_check_def Let_def)
  ultimately show ?thesis using install_conf_ok(1)[OF t1(2) assms(6,9)] assms(8) by (auto simp: held_after_def)
next
  case False
  then have same: "ef_host s1 = ef_host s" "ef_prev s1 = schedule_states (schedules db) now"
    unfolding s1_def run_check_def Let_def option.case if_not_P[OF False] by simp_all
  have "map_of (ef_prev s) = map_of (schedule_states (schedules db) now)"
  proof (cases "ef_prev s = []")
    case True
    then show ?thesis using states_keys[of "schedules db" "env_now pe" now] assms(2) by simp
  next
    case other: False
    then show ?thesis using False unchanged_iff distinct_states unfolding assms(2) by blast
  qed
  then have "generate_pf_conf (pe\<lparr>env_now := now\<rparr>) db = Inr t"
    using same_states_same_conf[OF assms(1), of now pe] assms(2,3) by simp
  then show ?thesis using same assms(4) by simp
qed

text \<open>A later check: its host, its environments, its time and the database it sees.\<close>

type_synonym 'w check_at = "pf_os \<times> 'w pb_env \<times> pf_env \<times> datetime \<times> pf_db"

definition run_checks :: "'w check_at list \<Rightarrow> 'w enforcer \<Rightarrow> 'w enforcer" where
  "run_checks = fold (\<lambda>(os, env, pe, now, db). run_check os env pe now (Some db))"

lemma unchanged_check:
  assumes "ef_prev s = schedule_states (schedules db) now"
  shows "run_check os env pe now (Some db) s = s"
proof -
  have "\<not> states_changed (schedule_states (schedules db) now) (schedule_states (schedules db) now)"
    using unchanged_iff[OF distinct_states distinct_states] by blast
  then show ?thesis by (simp add: run_check_def Let_def flip: assms)
qed

lemma unchanged_checks:
  assumes "\<forall>(os, env, pe, now, db) \<in> set cs. schedule_states (schedules db) now = ef_prev s"
  shows "run_checks cs s = s"
  using assms by (induction cs) (auto simp: run_checks_def unchanged_check)

text \<open>
  C37: a reload that the checks before the installation refuse is not tried again. The change of the states that
  asked for it is remembered all the same, so the host goes on with the rules it had, of the schedule not yet opened or not yet
  closed, at that check and at all later ones for as long as the states stay as they are then, also when the
  configuration has become loadable in between.
\<close>

theorem failed_reload_not_retried:
  fixes s :: "'w enforcer" and env :: "'w pb_env"
  assumes "states_changed (ef_prev s) (schedule_states (schedules db) now)" "ef_prev s \<noteq> []"
    and "generate_pf_conf pe db = Inr t"
    and "validate_section_order t \<noteq> Inr () \<or> (\<forall>m. validate_pf_conf os t \<noteq> Inr (True, m))"
  defines "s1 \<equiv> run_check os env pe now (Some db) s"
  assumes "\<forall>(os', env', pe', later, db') \<in> set cs. schedule_states (schedules db') later = schedule_states (schedules db) now"
  shows "ef_prev s1 = schedule_states (schedules db) now \<and> ef_host (run_checks cs s1) = ef_host s"
proof -
  have h: "fst (reload_pf_rules os pe db (ef_host s)) = ef_host s"
    by (rule reload_untouched) (use assms(3,4) in auto)
  have s1: "ef_host s1 = ef_host s" "ef_prev s1 = schedule_states (schedules db) now"
    using assms(1,2) h by (auto simp: s1_def run_check_def Let_def split: prod.split sum.split)
  have "run_checks cs s1 = s1"
    by (rule unchanged_checks) (use assms(6) s1(2) in auto)
  then show ?thesis using s1 by simp
qed

section \<open>A small appliance\<close>

definition quiet_enforcer :: "(string \<times> bool) list \<Rightarrow> string \<Rightarrow> nat enforcer" where
  "quiet_enforcer prev t = \<lparr>ef_prev = prev, ef_host = plain_host\<lparr>ho_rules := Some t\<rparr>, ef_pb = one_playbook []\<rparr>"

definition strict_os :: pf_os where
  "strict_os = (plain_os (\<lambda>t. True))\<lparr>os_check := \<lambda>t. Ran 1 [] ''refused''\<rparr>"

lemma plain_states: "schedule_states (schedules plain_db) now = []"
  by (simp add: schedule_states_def plain_db_def)

lemma failed_reload_not_retried_witness:
  "ho_rules (ef_host (run_checks [(plain_os (\<lambda>t. True), idle_env, plain_env, env_now plain_env, plain_db)]
     (run_check strict_os idle_env plain_env (env_now plain_env) (Some plain_db) (quiet_enforcer [(''night'', True)] ''old''))))
   = Some ''old''"
proof -
  let ?s = "quiet_enforcer [(''night'', True)] ''old''"
  obtain t where t: "generate_pf_conf plain_env plain_db = Inr t" by (rule plain_reload)
  have "\<forall>m. validate_pf_conf strict_os t \<noteq> Inr (True, m)"
    by (simp add: validate_pf_conf_def dry_answer_def strict_os_def plain_os_def)
  moreover have "states_changed (ef_prev ?s) (schedule_states (schedules plain_db) (env_now plain_env))" "ef_prev ?s \<noteq> []"
    by (simp_all add: plain_states states_changed_def quiet_enforcer_def)
  ultimately show ?thesis
    using failed_reload_not_retried[of ?s plain_db "env_now plain_env" plain_env t strict_os
        "[(plain_os (\<lambda>t. True), idle_env, plain_env, env_now plain_env, plain_db)]" idle_env] t
    by (simp add: quiet_enforcer_def plain_host_def)
qed

lemma enforcer_keeps_rules_witness:
  "\<exists>t. ho_rules (ef_host (run_check (plain_os (\<lambda>t. True)) idle_env plain_env (env_now plain_env) (Some plain_db) (quiet_enforcer [] t)))
     = Some t \<and> generate_pf_conf plain_env plain_db = Inr t"
proof -
  obtain t where t: "generate_pf_conf plain_env plain_db = Inr t" "validate_section_order t = Inr ()" by (rule plain_reload)
  let ?s = "quiet_enforcer [] t" and ?os = "plain_os (\<lambda>t. True)"
  have "validate_pf_conf ?os t = Inr (True, [])" by (simp add: validate_pf_conf_def dry_answer_def plain_os_def cmd_message_def)
  then have "reload_pf_rules ?os plain_env plain_db (ef_host ?s) = install_conf ?os plain_db t (ef_host ?s)"
    using t plain_macros by (intro reload_reaches_install) (auto simp: plain_os_def)
  moreover have "\<exists>h' r. install_conf ?os plain_db t (ef_host ?s) = (h', Inr r) \<and> rl_ok r"
    using plain_installs[of plain_db t "Some t"] by (simp add: quiet_enforcer_def)
  ultimately obtain h' r where r: "reload_pf_rules ?os (plain_env\<lparr>env_now := env_now plain_env\<rparr>) plain_db (ef_host ?s) = (h', Inr r)" "rl_ok r"
    by auto
  have "ef_prev ?s = schedule_states (schedules plain_db) (env_now plain_env)" by (simp add: plain_states quiet_enforcer_def)
  moreover have "unique_names (schedules plain_db)" "ho_rules (ef_host ?s) = Some t" "os_freebsd ?os" "\<not> os_dry ?os" "io_tmp (os_write ?os) \<noteq> pf_conf_path"
    by (simp_all add: unique_names_def plain_db_def quiet_enforcer_def plain_os_def pf_conf_path_def)
  ultimately show ?thesis using enforcer_keeps_rules[OF _ _ t(1) _ r, of idle_env] t(1) by auto
qed

end
