(* ===== verification/GatewayMonitor.thy ===== *)
theory GatewayMonitor
  imports Playbooks
begin

text \<open>
  \<^verbatim>\<open>app/services/gateway_monitor.py\<close>: one round of pings over the gateways, the health dict, the columns of
  the table and the events of a change.
\<close>

section \<open>State\<close>

record gw_row =
  gw_id :: nat
  gw_name :: string
  gw_addr :: "string option"
  gw_disabled :: "int option"
  gw_last_seen :: "string option"
  gw_reachable :: "int option"

text \<open>\<open>gm_columns\<close>: the table has the columns of the monitor; \<open>gm_health\<close> is the dict of the last round.\<close>

record 'w gw_state =
  gm_rows :: "gw_row list"
  gm_columns :: bool
  gm_health :: "(nat \<times> bool) list"
  gm_pb :: "'w pb_state"

record 'w gw_env =
  ge_pb :: "'w pb_env"
  ge_ping :: string
  ge_now :: string

section \<open>One round\<close>

definition ping_command :: "'w gw_env \<Rightarrow> string \<Rightarrow> string list" where
  "ping_command env ip = [ge_ping env, ''-c'', ''2'', ''-W'', ''1'', ''-q'', ip]"

definition ping_gateway :: "'w gw_env \<Rightarrow> string \<Rightarrow> 'w pb_state \<Rightarrow> 'w pb_state \<times> bool" where
  "ping_gateway env ip s =
     (case run_command (pe_exec (ge_pb env)) 5 False (ping_command env ip) (ps_world s) of
        (w, events, r) \<Rightarrow>
          (s\<lparr>ps_world := w, ps_audit := ps_audit s @ events\<rparr>, (case r of Inl e \<Rightarrow> False | Inr c \<Rightarrow> cr_code c = 0)))"

definition change_event :: "'w gw_env \<Rightarrow> gw_row \<Rightarrow> string \<Rightarrow> bool \<Rightarrow> bool \<Rightarrow> event" where
  "change_event env row ip was now_up =
     mk_event (ge_pb env) (PStr ''network'') (PStr ''gateway_state_change'') [] [] (PStr ''info'')
       (PDict [(''gateway_id'', PInt (int (gw_id row))), (''gateway_name'', PStr (gw_name row)), (''ip'', PStr ip),
               (''was_reachable'', PBool was), (''now_reachable'', PBool now_up)])"

definition set_reachable :: "'w gw_env \<Rightarrow> nat \<Rightarrow> bool \<Rightarrow> 'w gw_state \<Rightarrow> 'w gw_state" where
  "set_reachable env i up s =
     (if gm_columns s
      then s\<lparr>gm_rows := update_where (\<lambda>r. gw_id r = i)
               (\<lambda>r. r\<lparr>gw_last_seen := Some (ge_now env), gw_reachable := Some (if up then 1 else 0)\<rparr>) (gm_rows s)\<rparr>
      else s)"

text \<open>One gateway; \<open>new\<close> is the dict of this round.\<close>

definition check_gateway :: "'w gw_env \<Rightarrow> gw_row \<Rightarrow> 'w gw_state \<times> (nat \<times> bool) list \<Rightarrow> 'w gw_state \<times> (nat \<times> bool) list" where
  "check_gateway env row sn =
     (let ip = strip (or_str (gw_addr row) []) in
      if ip = [] then sn
      else case ping_gateway env ip (gm_pb (fst sn)) of
        (p, up) \<Rightarrow>
          (let s1 = set_reachable env (gw_id row) up ((fst sn)\<lparr>gm_pb := p\<rparr>);
               s2 = (case map_of (gm_health (fst sn)) (gw_id row) of
                       Some prev \<Rightarrow>
                         if prev \<noteq> up then s1\<lparr>gm_pb := log_event (ge_pb env) False (change_event env row ip prev up) (gm_pb s1)\<rparr> else s1
                     | None \<Rightarrow> s1)
           in (s2, snd sn @ [(gw_id row, up)])))"

definition monitored :: "gw_row \<Rightarrow> bool" where
  "monitored r \<longleftrightarrow> \<not> truthy_int (gw_disabled r)"

definition run_check :: "'w gw_env \<Rightarrow> 'w gw_state \<Rightarrow> 'w gw_state" where
  "run_check env s =
     (case fold (check_gateway env) (filter monitored (gm_rows s)) (s, []) of
        (s1, new) \<Rightarrow> s1\<lparr>gm_health := new\<rparr>)"

definition get_gateway_health :: "'w gw_state \<Rightarrow> (nat \<times> bool) list" where
  "get_gateway_health s = gm_health s"

section \<open>What a round does\<close>

text \<open>A host whose pings are answered by \<open>up\<close>, whatever its state.\<close>

definition answers :: "'w gw_env \<Rightarrow> (string \<Rightarrow> bool) \<Rightarrow> bool" where
  "answers env up \<longleftrightarrow> (\<forall>ip p. snd (ping_gateway env ip p) = up ip)"

text \<open>The gateways of a round with their answers, and the events of the changes among them.\<close>

definition address :: "gw_row \<Rightarrow> string" where
  "address r = strip (or_str (gw_addr r) [])"

definition pinged :: "gw_row list \<Rightarrow> gw_row list" where
  "pinged rs = filter (\<lambda>r. address r \<noteq> []) (filter monitored rs)"

definition change_of :: "'w gw_env \<Rightarrow> (string \<Rightarrow> bool) \<Rightarrow> (nat \<times> bool) list \<Rightarrow> gw_row \<Rightarrow> event list" where
  "change_of env up health r =
     (case map_of health (gw_id r) of
        Some prev \<Rightarrow> if prev \<noteq> up (address r) then [change_event env r (address r) prev (up (address r))] else []
      | None \<Rightarrow> [])"

lemma ping_frame: "ps_log (fst (ping_gateway env ip p)) = ps_log p" "ps_playbooks (fst (ping_gateway env ip p)) = ps_playbooks p"
  by (simp_all add: ping_gateway_def split: prod.split)

lemma log_event_quiet:
  assumes "rows (ps_playbooks p) = []"
  shows "ps_log (log_event env False e p) = ps_log p @ [e]" "ps_playbooks (log_event env False e p) = ps_playbooks p"
  using assms by (simp_all add: log_event_def on_event_eq emit_event_def match_playbooks_def bind_res_def split: sum.split)

lemma check_gateway_spec:
  assumes "answers env up" "rows (ps_playbooks (gm_pb s)) = []" "check_gateway env r (s, new) = (s1, new1)"
  shows "new1 = new @ (if address r = [] then [] else [(gw_id r, up (address r))])"
    and "ps_log (gm_pb s1) = ps_log (gm_pb s) @ (if address r = [] then [] else change_of env up (gm_health s) r)"
    and "gm_health s1 = gm_health s" "ps_playbooks (gm_pb s1) = ps_playbooks (gm_pb s)" "gm_columns s1 = gm_columns s"
    and "gm_rows s1 = (if address r = [] \<or> \<not> gm_columns s then gm_rows s
      else update_where (\<lambda>x. gw_id x = gw_id r)
             (\<lambda>x. x\<lparr>gw_last_seen := Some (ge_now env), gw_reachable := Some (if up (address r) then 1 else 0)\<rparr>) (gm_rows s))"
proof -
  have "snd (ping_gateway env (address r) (gm_pb s)) = up (address r)" using assms(1) unfolding answers_def by blast
  then obtain p where p: "ping_gateway env (address r) (gm_pb s) = (p, up (address r))"
    by (cases "ping_gateway env (address r) (gm_pb s)") simp
  then have f: "ps_log p = ps_log (gm_pb s)" "ps_playbooks p = ps_playbooks (gm_pb s)"
    using ping_frame[of env "address r" "gm_pb s"] by simp_all
  have q: "rows (ps_playbooks p) = []" using f assms(2) by simp
  define b where "b = up (address r)"
  define st where "st = set_reachable env (gw_id r) b (s\<lparr>gm_pb := p\<rparr>)"
  have s: "gm_pb st = p" "gm_health st = gm_health s" "gm_columns st = gm_columns s"
    "gm_rows st = (if \<not> gm_columns s then gm_rows s
      else update_where (\<lambda>x. gw_id x = gw_id r)
             (\<lambda>x. x\<lparr>gw_last_seen := Some (ge_now env), gw_reachable := Some (if b then 1 else 0)\<rparr>) (gm_rows s))"
    by (simp_all add: st_def set_reachable_def)
  define ev where "ev = (\<lambda>prev. change_event env r (address r) prev b)"
  define logged where "logged = (\<lambda>prev. st\<lparr>gm_pb := log_event (ge_pb env) False (ev prev) p\<rparr>)"
  have c: "check_gateway env r (s, new) = (if address r = [] then (s, new)
      else (case map_of (gm_health s) (gw_id r) of Some prev \<Rightarrow> if prev \<noteq> b then logged prev else st | None \<Rightarrow> st, new @ [(gw_id r, b)]))"
    unfolding check_gateway_def Let_def address_def[symmetric] fst_conv snd_conv p prod.case b_def[symmetric] st_def[symmetric]
      s(1) logged_def ev_def by (rule refl)
  have ch: "change_of env up (gm_health s) r
      = (case map_of (gm_health s) (gw_id r) of Some prev \<Rightarrow> if prev \<noteq> b then [ev prev] else [] | None \<Rightarrow> [])"
    unfolding change_of_def ev_def b_def by (rule refl)
  have l: "ps_log (gm_pb (logged x)) = ps_log (gm_pb s) @ [ev x]" "ps_playbooks (gm_pb (logged x)) = ps_playbooks (gm_pb s)"
    "gm_health (logged x) = gm_health s" "gm_columns (logged x) = gm_columns s" "gm_rows (logged x) = gm_rows st" for x
    by (simp_all add: logged_def log_event_quiet[OF q] f s(1-3))
  have "new1 = new @ (if address r = [] then [] else [(gw_id r, b)])
    \<and> ps_log (gm_pb s1) = ps_log (gm_pb s) @ (if address r = [] then [] else change_of env up (gm_health s) r)
    \<and> gm_health s1 = gm_health s \<and> ps_playbooks (gm_pb s1) = ps_playbooks (gm_pb s) \<and> gm_columns s1 = gm_columns s
    \<and> gm_rows s1 = (if address r = [] then gm_rows s else gm_rows st)"
    using assms(3) s(1-3) unfolding c ch
    by (cases "address r = []"; cases "map_of (gm_health s) (gw_id r)") (auto simp: f l split: if_splits)
  then show "new1 = new @ (if address r = [] then [] else [(gw_id r, up (address r))])"
    "ps_log (gm_pb s1) = ps_log (gm_pb s) @ (if address r = [] then [] else change_of env up (gm_health s) r)"
    "gm_health s1 = gm_health s" "ps_playbooks (gm_pb s1) = ps_playbooks (gm_pb s)" "gm_columns s1 = gm_columns s"
    "gm_rows s1 = (if address r = [] \<or> \<not> gm_columns s then gm_rows s
      else update_where (\<lambda>x. gw_id x = gw_id r)
             (\<lambda>x. x\<lparr>gw_last_seen := Some (ge_now env), gw_reachable := Some (if up (address r) then 1 else 0)\<rparr>) (gm_rows s))"
    unfolding s(4) b_def by simp_all
qed

lemma round_spec:
  assumes "answers env up" "rows (ps_playbooks (gm_pb s)) = []" "fold (check_gateway env) rs (s, new) = (s1, new1)"
  shows "new1 = new @ map (\<lambda>r. (gw_id r, up (address r))) (filter (\<lambda>r. address r \<noteq> []) rs)
    \<and> ps_log (gm_pb s1) = ps_log (gm_pb s) @ concat (map (change_of env up (gm_health s)) (filter (\<lambda>r. address r \<noteq> []) rs))"
  using assms(2,3)
proof (induction rs arbitrary: s new)
  case (Cons r rs)
  obtain s2 new2 where c: "check_gateway env r (s, new) = (s2, new2)" by fastforce
  note k = check_gateway_spec[OF assms(1) Cons.prems(1) c]
  show ?case using Cons.IH[of s2 new2] Cons.prems c k by simp
qed simp

text \<open>
  After a round the health dict holds exactly the answers of the gateways that are enabled and have
  an address, and the round has logged one event for each of them whose answer differs from the last
  round, and none for a gateway that was not in it.
\<close>

theorem gateway_round:
  assumes "answers env up" "rows (ps_playbooks (gm_pb s)) = []"
  shows "get_gateway_health (run_check env s) = map (\<lambda>r. (gw_id r, up (address r))) (pinged (gm_rows s))
    \<and> ps_log (gm_pb (run_check env s)) = ps_log (gm_pb s) @ concat (map (change_of env up (gm_health s)) (pinged (gm_rows s)))"
proof -
  obtain s1 new where r: "fold (check_gateway env) (filter monitored (gm_rows s)) (s, []) = (s1, new)" by fastforce
  from round_spec[OF assms r] show ?thesis by (simp add: run_check_def r pinged_def get_gateway_health_def)
qed

lemma seen_kept:
  assumes "answers env up" "rows (ps_playbooks (gm_pb s)) = []" "gm_columns s" "fold (check_gateway env) rs (s, new) = (s1, new1)"
    and "\<forall>x \<in> set (gm_rows s). gw_id x = i \<longrightarrow> gw_last_seen x = Some (ge_now env)"
  shows "\<forall>x \<in> set (gm_rows s1). gw_id x = i \<longrightarrow> gw_last_seen x = Some (ge_now env)"
  using assms(2-5)
proof (induction rs arbitrary: s new)
  case (Cons r rs)
  obtain s2 new2 where c: "check_gateway env r (s, new) = (s2, new2)" by fastforce
  note k = check_gateway_spec[OF assms(1) Cons.prems(1) c]
  have "\<forall>x \<in> set (gm_rows s2). gw_id x = i \<longrightarrow> gw_last_seen x = Some (ge_now env)"
    unfolding k(6) using Cons.prems(4) by (auto simp: update_where_def)
  then show ?case using Cons.IH[of s2 new2] Cons.prems c k by simp
qed simp

lemma seen_in_round:
  assumes "answers env up" "rows (ps_playbooks (gm_pb s)) = []" "gm_columns s" "fold (check_gateway env) rs (s, new) = (s1, new1)"
    and "r \<in> set rs" "address r \<noteq> []"
  shows "\<forall>x \<in> set (gm_rows s1). gw_id x = gw_id r \<longrightarrow> gw_last_seen x = Some (ge_now env)"
  using assms(2-5)
proof (induction rs arbitrary: s new)
  case (Cons r' rs)
  obtain s2 new2 where c: "check_gateway env r' (s, new) = (s2, new2)" by fastforce
  note k = check_gateway_spec[OF assms(1) Cons.prems(1) c]
  have f: "fold (check_gateway env) rs (s2, new2) = (s1, new1)" using Cons.prems(3) c by simp
  have s2: "rows (ps_playbooks (gm_pb s2)) = []" "gm_columns s2" using k Cons.prems by simp_all
  show ?case
  proof (cases "r' = r")
    case True
    have "\<forall>x \<in> set (gm_rows s2). gw_id x = gw_id r \<longrightarrow> gw_last_seen x = Some (ge_now env)"
      unfolding k(6) using True assms(6) Cons.prems(2) by (auto simp: update_where_def)
    then show ?thesis using seen_kept[OF assms(1) s2 f] by blast
  next
    case False
    then show ?thesis using Cons.IH[OF s2 f] Cons.prems(4) by simp
  qed
qed simp

text \<open>
  Every gateway of a round is marked as seen at its time, whatever the ping said, while the schema calls
  the column the time of the last successful check.
\<close>

theorem unreachable_gateway_seen:
  assumes "answers env up" "rows (ps_playbooks (gm_pb s)) = []" "gm_columns s" "r \<in> set (pinged (gm_rows s))"
  shows "\<forall>x \<in> set (gm_rows (run_check env s)). gw_id x = gw_id r \<longrightarrow> gw_last_seen x = Some (ge_now env)"
proof -
  obtain s1 new where f: "fold (check_gateway env) (filter monitored (gm_rows s)) (s, []) = (s1, new)" by fastforce
  have "r \<in> set (filter monitored (gm_rows s))" "address r \<noteq> []" using assms(4) by (simp_all add: pinged_def)
  from seen_in_round[OF assms(1-3) f this] show ?thesis by (simp add: run_check_def f)
qed

section \<open>A small host\<close>

definition dead_gateway :: gw_row where
  "dead_gateway = \<lparr>gw_id = 1, gw_name = ''wan'', gw_addr = Some ''10.0.0.1'', gw_disabled = None, gw_last_seen = None, gw_reachable = None\<rparr>"

definition dead_wan :: "nat gw_state" where
  "dead_wan = \<lparr>gm_rows = [dead_gateway], gm_columns = True, gm_health = [(1, True)],
     gm_pb = \<lparr>ps_playbooks = empty_table, ps_runs = empty_table, ps_cases = empty_table, ps_log = [], ps_audit = [], ps_world = 0\<rparr>\<rparr>"

definition silent :: "nat gw_env" where
  "silent = \<lparr>ge_pb = idle_env\<lparr>pe_exec := \<lparr>ne_dry_run = False, ne_freebsd = True, ne_root = True, ne_sudo = [],
      ne_exec = (\<lambda>c w. (w, TimedOut))\<rparr>\<rparr>, ge_ping = ''/sbin/ping'', ge_now = ''t''\<rparr>"

lemma silent_answers: "answers silent (\<lambda>ip. False)"
  by (simp add: answers_def ping_gateway_def silent_def run_command_def ping_command_def privileged_bins_def Let_def)

lemma dead_pinged: "address dead_gateway = ''10.0.0.1''" "pinged (gm_rows dead_wan) = [dead_gateway]"
proof -
  show a: "address dead_gateway = ''10.0.0.1''"
    by (simp add: address_def dead_gateway_def strip_def lstrip_def rstrip_def char_class_defs)
  have "monitored dead_gateway" by (simp add: monitored_def dead_gateway_def)
  then show "pinged (gm_rows dead_wan) = [dead_gateway]" by (simp add: pinged_def dead_wan_def a)
qed

lemma gateway_round_witness:
  "get_gateway_health (run_check silent dead_wan) = [(1, False)] \<and> length (ps_log (gm_pb (run_check silent dead_wan))) = 1"
proof -
  have "rows (ps_playbooks (gm_pb dead_wan)) = []" by (simp add: dead_wan_def)
  from gateway_round[OF silent_answers this] show ?thesis
    unfolding dead_pinged by (simp add: dead_wan_def change_of_def dead_gateway_def)
qed

lemma unreachable_gateway_seen_witness:
  "\<forall>x \<in> set (gm_rows (run_check silent dead_wan)). gw_id x = gw_id dead_gateway \<longrightarrow> gw_last_seen x = Some (ge_now silent)"
  by (rule unreachable_gateway_seen[OF silent_answers]) (simp_all add: dead_pinged, simp_all add: dead_wan_def)

end
