(* ===== verification/FilterRules.thy ===== *)
theory FilterRules
  imports PfGenerator ServiceManager
begin

text \<open>
  The three content filters as the administrator edits them: \<^verbatim>\<open>app/services/dns_filter.py\<close>,
  \<^verbatim>\<open>app/services/web_filter.py\<close> and the rules of \<^verbatim>\<open>app/services/app_filter.py\<close>, with their zones for the preview,
  the overrides for the whitelisted devices and the change of one rule in the running Unbound; and
  \<^verbatim>\<open>app/services/filter_conflicts.py\<close>: conflicts between the filters, import and export.
\<close>

section \<open>The tables\<close>

record dns_filter_row = dns_rule +
  df_description :: string

record web_filter_row = web_rule +
  wf_description :: string

record app_filter_row = app_rule +
  af_description :: string

text \<open>\<open>fd_rest\<close> holds the other tables the filters read.\<close>

record filter_db =
  fd_dns :: "dns_filter_row table"
  fd_web :: "web_filter_row table"
  fd_app :: "app_filter_row table"
  fd_rest :: policy_db

definition policy_of :: "filter_db \<Rightarrow> policy_db" where
  "policy_of db = (fd_rest db)
     \<lparr>dns_rules := Some (map dns_rule.truncate (rows (fd_dns db))),
      web_rules := Some (map web_rule.truncate (rows (fd_web db))),
      app_rules := Some (map app_rule.truncate (rows (fd_app db)))\<rparr>"

section \<open>Zones of one filter\<close>

definition table_rows :: "string \<Rightarrow> 'a list option \<Rightarrow> 'a list res" where
  "table_rows name t = (case t of None \<Rightarrow> Inl (missing_table name) | Some rs \<Rightarrow> Inr rs)"

fun collect_res :: "('a \<Rightarrow> 'b list res) \<Rightarrow> 'a list \<Rightarrow> 'b list res" where
  "collect_res f [] = Inr []"
| "collect_res f (x # xs) = bind_res (f x) (\<lambda>ys. bind_res (collect_res f xs) (\<lambda>zs. Inr (ys @ zs)))"

definition block_zone :: "string \<Rightarrow> string \<Rightarrow> string list" where
  "block_zone block_ip domain =
     (if block_ip \<noteq> [] then [zone_line (domain @ ''.'') ''redirect'', data_line (domain @ ''.'') block_ip]
      else [zone_line (domain @ ''.'') ''always_nxdomain''])"

definition default_deny :: "action \<Rightarrow> bool" where
  "default_deny a \<longleftrightarrow> a = BlockAll \<or> a = AllowWhitelistOnly"

definition dns_zone :: "string \<Rightarrow> dns_rule \<Rightarrow> string list res" where
  "dns_zone block_ip r =
     bind_res (normalize_action (dr_action r)) (\<lambda>a.
       let d = normalize_domain (or_str (dr_domain r) []);
           ip = strip (or_str (dr_redirect_ip r) [])
       in Inr (if d = [] then []
               else if default_deny a then block_zone block_ip d
               else if a = Redirect \<and> ip \<noteq> [] then [zone_line (d @ ''.'') ''redirect'', data_line (d @ ''.'') ip]
               else []))"

definition generate_dns_filter_zones :: "policy_db \<Rightarrow> string list res" where
  "generate_dns_filter_zones db =
     bind_res (table_rows ''filter_dns_rules'' (dns_rules db)) (\<lambda>rs.
       collect_res (dns_zone (get_block_page_ip db)) (sort_key dr_id (filter dr_enabled rs)))"

definition web_zone :: "string \<Rightarrow> web_rule \<Rightarrow> string list res" where
  "web_zone block_ip r =
     bind_res (normalize_action (wr_action r)) (\<lambda>a.
       let d = normalize_domain (or_str (wr_url_pattern r) [])
       in Inr (if d = [] then [] else if default_deny a then block_zone block_ip d else []))"

definition generate_web_filter_zones :: "policy_db \<Rightarrow> string list res" where
  "generate_web_filter_zones db =
     bind_res (table_rows ''filter_web_rules'' (web_rules db)) (\<lambda>rs.
       collect_res (web_zone (get_block_page_ip db)) (sort_key wr_id (filter wr_enabled rs)))"

definition app_rule_domains :: "app_rule \<Rightarrow> string list" where
  "app_rule_domains r =
     filter (\<lambda>d. d \<noteq> []) (map normalize_domain (split_on (CHR '','') (or_str (ar_domains r) [])))"

definition app_zone :: "string \<Rightarrow> app_rule \<Rightarrow> string list res" where
  "app_zone block_ip r =
     bind_res (normalize_action (ar_action r)) (\<lambda>a.
       Inr (if default_deny a then concat (map (block_zone block_ip) (app_rule_domains r)) else []))"

definition generate_app_filter_dns_zones :: "policy_db \<Rightarrow> string list res" where
  "generate_app_filter_dns_zones db =
     bind_res (table_rows ''filter_app_rules'' (app_rules db)) (\<lambda>rs.
       collect_res (app_zone (get_block_page_ip db)) (sort_key ar_id (filter (\<lambda>r. ar_enabled r \<and> ar_block_dns r) rs)))"

section \<open>Overrides for whitelisted devices\<close>

text \<open>\<open>LOWER(COALESCE(action,'')) IN ('allow', 'allow_whitelist_only')\<close>.\<close>

definition allow_like :: "string option \<Rightarrow> bool" where
  "allow_like a \<longleftrightarrow> lower (or_str a []) \<in> set [''allow'', ''allow_whitelist_only'']"

definition transparent_lines :: "string list \<Rightarrow> string list" where
  "transparent_lines ds = map (\<lambda>d. zone_line (d @ ''.'') ''transparent'') (filter (\<lambda>d. d \<noteq> []) ds)"

definition generate_dns_whitelist_overrides :: "policy_db \<Rightarrow> string list res" where
  "generate_dns_whitelist_overrides db =
     bind_res (table_rows ''filter_dns_rules'' (dns_rules db)) (\<lambda>rs.
       Inr (transparent_lines (map (\<lambda>r. normalize_domain (or_str (dr_domain r) []))
              (filter (\<lambda>r. allow_like (dr_action r) \<and> dr_enabled r) rs))))"

definition generate_web_whitelist_overrides :: "policy_db \<Rightarrow> string list res" where
  "generate_web_whitelist_overrides db =
     bind_res (table_rows ''filter_web_rules'' (web_rules db)) (\<lambda>rs.
       Inr (transparent_lines (map (\<lambda>r. normalize_domain (or_str (wr_url_pattern r) []))
              (filter (\<lambda>r. allow_like (wr_action r) \<and> wr_enabled r) rs))))"

definition generate_app_filter_dns_overrides :: "policy_db \<Rightarrow> string list res" where
  "generate_app_filter_dns_overrides db =
     bind_res (table_rows ''filter_app_rules'' (app_rules db)) (\<lambda>rs.
       Inr (transparent_lines (concat (map app_rule_domains
              (filter (\<lambda>r. allow_like (ar_action r) \<and> ar_block_dns r \<and> ar_enabled r) rs)))))"

section \<open>One rule in the running Unbound\<close>

text \<open>A call whose exception is logged.\<close>

definition quiet_priv :: "'w host exec_env \<Rightarrow> string \<Rightarrow> (string \<times> pyval) list \<Rightarrow> 'w host \<Rightarrow> 'w host" where
  "quiet_priv env action params h = fst (priv env action params h)"

definition set_zone :: "'w host exec_env \<Rightarrow> string \<Rightarrow> string \<Rightarrow> 'w host \<Rightarrow> 'w host" where
  "set_zone env domain kind h = quiet_priv env ''unbound.local_zone'' [(''domain'', PStr domain), (''zone_type'', PStr kind)] h"

text \<open>The second call is not made when the first one raises.\<close>

definition redirect_zone :: "'w host exec_env \<Rightarrow> string \<Rightarrow> string \<Rightarrow> 'w host \<Rightarrow> 'w host" where
  "redirect_zone env domain ip h =
     (case priv env ''unbound.local_zone'' [(''domain'', PStr domain), (''zone_type'', PStr ''redirect'')] h of
        (h1, Inl e) \<Rightarrow> h1
      | (h1, Inr r) \<Rightarrow> quiet_priv env ''unbound.local_data_a'' [(''domain'', PStr domain), (''ip'', PStr ip)] h1)"

definition set_block :: "'w host exec_env \<Rightarrow> policy_db \<Rightarrow> string \<Rightarrow> 'w host \<Rightarrow> 'w host" where
  "set_block env db domain h =
     (if get_block_page_ip db \<noteq> [] then redirect_zone env domain (get_block_page_ip db) h
      else set_zone env domain ''always_nxdomain'' h)"

definition hot_remove_domain :: "'w host exec_env \<Rightarrow> string \<Rightarrow> 'w host \<Rightarrow> 'w host" where
  "hot_remove_domain env domain h =
     (if \<not> ne_freebsd env then h
      else quiet_priv env ''unbound.local_data_remove'' [(''domain'', PStr domain)]
             (quiet_priv env ''unbound.local_zone_remove'' [(''domain'', PStr domain)] h))"

definition hot_apply_dns_rule :: "'w host exec_env \<Rightarrow> filter_db \<Rightarrow> nat \<Rightarrow> 'w host \<Rightarrow> 'w host" where
  "hot_apply_dns_rule env db i h =
     (if \<not> ne_freebsd env then h
      else case find_by dr_id i (rows (fd_dns db)) of
        None \<Rightarrow> h
      | Some r \<Rightarrow>
          (let d = or_str (dr_domain r) [] in
           if dr_enabled r
           then (if dr_action r = Some ''redirect'' \<and> or_str (dr_redirect_ip r) [] \<noteq> []
                 then redirect_zone env d (or_str (dr_redirect_ip r) []) h
                 else if dr_action r = Some ''block'' then set_block env (policy_of db) d h
                 else set_zone env d ''transparent'' h)
           else hot_remove_domain env d h))"

definition hot_apply_web_rule :: "'w host exec_env \<Rightarrow> filter_db \<Rightarrow> nat \<Rightarrow> 'w host \<Rightarrow> 'w host" where
  "hot_apply_web_rule env db i h =
     (if \<not> ne_freebsd env then h
      else case find_by wr_id i (rows (fd_web db)) of
        None \<Rightarrow> h
      | Some r \<Rightarrow>
          (let d = or_str (wr_url_pattern r) [] in
           if wr_enabled r
           then (if wr_action r = Some ''block'' then set_block env (policy_of db) d h
                 else set_zone env d ''transparent'' h)
           else quiet_priv env ''unbound.local_zone_remove'' [(''domain'', PStr d)] h))"

section \<open>Editing the rules\<close>

definition get_dns_filter_rules :: "filter_db \<Rightarrow> dns_filter_row list" where
  "get_dns_filter_rules db = rev (sort_key dr_id (rows (fd_dns db)))"

definition mk_dns :: "string \<times> string \<times> string \<times> string \<times> string \<Rightarrow> nat \<Rightarrow> dns_filter_row" where
  "mk_dns d i = (case d of (domain, action, ip, category, description) \<Rightarrow>
     \<lparr>dr_id = i, dr_enabled = True, dr_domain = Some domain, dr_action = Some action, dr_redirect_ip = Some ip,
      dr_category = Some category, df_description = description\<rparr>)"

definition check_dns :: "string \<Rightarrow> string \<Rightarrow> string \<Rightarrow> string \<Rightarrow> unit res" where
  "check_dns domain action ip ip_message =
     (if domain = [] then Inl (ValueError ''Domain must not be empty.'')
      else if action \<notin> set [''block'', ''allow'', ''redirect'']
      then Inl (ValueError (''Action must be '' @ apos @ ''block'' @ apos @ '', '' @ apos @ ''allow'' @ apos @ '', or '' @
             apos @ ''redirect'' @ apos @ ''.''))
      else if action = ''redirect'' \<and> ip = [] then Inl (ValueError ip_message)
      else Inr ())"

text \<open>\<open>INSERT OR IGNORE\<close>: the unique index on the domain turns a second insert into no row.\<close>

definition add_dns_filter_rule ::
  "string \<Rightarrow> string \<Rightarrow> string \<Rightarrow> string \<Rightarrow> string \<Rightarrow> filter_db \<Rightarrow> filter_db \<times> nat res" where
  "add_dns_filter_rule raw action ip category description db =
     (let d = normalize_domain raw in
      case check_dns d action ip (''A redirect IP is required for '' @ apos @ ''redirect'' @ apos @ '' action.'') of
        Inl e \<Rightarrow> (db, Inl e)
      | Inr u \<Rightarrow>
          (if Some d \<in> set (map dr_domain (rows (fd_dns db)))
           then (db, Inl (ValueError (''A DNS block rule for '' @ apos @ d @ apos @ '' already exists.'')))
           else case insert_row (mk_dns (d, action, ip, category, description)) (fd_dns db) of
             (t, i) \<Rightarrow> (db\<lparr>fd_dns := t\<rparr>, Inr i)))"

definition update_dns_filter_rule ::
  "nat \<Rightarrow> string \<Rightarrow> string \<Rightarrow> string \<Rightarrow> string \<Rightarrow> string \<Rightarrow> filter_db \<Rightarrow> filter_db \<times> unit res" where
  "update_dns_filter_rule i raw action ip category description db =
     (let d = normalize_domain raw in
      case check_dns d action ip (''redirect_ip is required when action is '' @ apos @ ''redirect'' @ apos @ ''.'') of
        Inl e \<Rightarrow> (db, Inl e)
      | Inr u \<Rightarrow>
          (if list_ex (\<lambda>r. dr_id r = i) (rows (fd_dns db)) \<and> list_ex (\<lambda>r. dr_id r \<noteq> i \<and> dr_domain r = Some d) (rows (fd_dns db))
           then (db, Inl (IntegrityError ''UNIQUE constraint failed: filter_dns_rules.domain''))
           else (db\<lparr>fd_dns := update_rows (\<lambda>r. dr_id r = i)
                   (\<lambda>r. r\<lparr>dr_domain := Some d, dr_action := Some action, dr_redirect_ip := Some ip, dr_category := Some category,
                          df_description := description\<rparr>) (fd_dns db)\<rparr>, Inr ())))"

definition toggle_dns_filter_rule :: "'w host exec_env \<Rightarrow> nat \<Rightarrow> bool \<Rightarrow> filter_db \<times> 'w host \<Rightarrow> filter_db \<times> 'w host" where
  "toggle_dns_filter_rule env i on dh =
     (let db = (fst dh)\<lparr>fd_dns := update_rows (\<lambda>r. dr_id r = i) (\<lambda>r. r\<lparr>dr_enabled := on\<rparr>) (fd_dns (fst dh))\<rparr>
      in (db, hot_apply_dns_rule env db i (snd dh)))"

definition delete_dns_filter_rule :: "'w host exec_env \<Rightarrow> nat \<Rightarrow> filter_db \<times> 'w host \<Rightarrow> filter_db \<times> 'w host" where
  "delete_dns_filter_rule env i dh =
     ((fst dh)\<lparr>fd_dns := delete_rows (\<lambda>r. dr_id r = i) (fd_dns (fst dh))\<rparr>,
      case find_by dr_id i (rows (fd_dns (fst dh))) of
        None \<Rightarrow> snd dh
      | Some r \<Rightarrow> hot_remove_domain env (or_str (dr_domain r) []) (snd dh))"

definition get_web_filter_rules :: "filter_db \<Rightarrow> web_filter_row list" where
  "get_web_filter_rules db = rev (sort_key wr_id (rows (fd_web db)))"

definition mk_web :: "string \<times> string \<times> string \<times> string \<Rightarrow> nat \<Rightarrow> web_filter_row" where
  "mk_web d i = (case d of (domain, action, category, description) \<Rightarrow>
     \<lparr>wr_id = i, wr_enabled = True, wr_url_pattern = Some domain, wr_action = Some action, wr_category = Some category,
      wf_description = description\<rparr>)"

definition no_domain :: pyexn where
  "no_domain = ValueError ''Could not extract a domain from the supplied URL/pattern.''"

definition add_web_filter_rule :: "string \<Rightarrow> string \<Rightarrow> string \<Rightarrow> string \<Rightarrow> filter_db \<Rightarrow> filter_db \<times> nat res" where
  "add_web_filter_rule raw action category description db =
     (let d = normalize_domain raw in
      if d = [] then (db, Inl no_domain)
      else if Some d \<in> set (map wr_url_pattern (rows (fd_web db)))
      then (db, Inl (ValueError (''A web filter rule for '' @ apos @ d @ apos @ '' already exists.'')))
      else case insert_row (mk_web (d, action, category, description)) (fd_web db) of
        (t, i) \<Rightarrow> (db\<lparr>fd_web := t\<rparr>, Inr i))"

definition update_web_filter_rule ::
  "nat \<Rightarrow> string \<Rightarrow> string \<Rightarrow> string \<Rightarrow> string \<Rightarrow> filter_db \<Rightarrow> filter_db \<times> unit res" where
  "update_web_filter_rule i raw action category description db =
     (let d = normalize_domain raw in
      if d = [] then (db, Inl no_domain)
      else if action \<notin> set [''block'', ''allow'']
      then (db, Inl (ValueError (''Action must be '' @ apos @ ''block'' @ apos @ '' or '' @ apos @ ''allow'' @ apos @ ''.'')))
      else if list_ex (\<lambda>r. wr_id r = i) (rows (fd_web db)) \<and> list_ex (\<lambda>r. wr_id r \<noteq> i \<and> wr_url_pattern r = Some d) (rows (fd_web db))
      then (db, Inl (IntegrityError ''UNIQUE constraint failed: filter_web_rules.url_pattern''))
      else (db\<lparr>fd_web := update_rows (\<lambda>r. wr_id r = i)
              (\<lambda>r. r\<lparr>wr_url_pattern := Some d, wr_action := Some action, wr_category := Some category, wf_description := description\<rparr>)
              (fd_web db)\<rparr>, Inr ()))"

definition toggle_web_filter_rule :: "'w host exec_env \<Rightarrow> nat \<Rightarrow> bool \<Rightarrow> filter_db \<times> 'w host \<Rightarrow> filter_db \<times> 'w host" where
  "toggle_web_filter_rule env i on dh =
     (let db = (fst dh)\<lparr>fd_web := update_rows (\<lambda>r. wr_id r = i) (\<lambda>r. r\<lparr>wr_enabled := on\<rparr>) (fd_web (fst dh))\<rparr>
      in (db, hot_apply_web_rule env db i (snd dh)))"

definition delete_web_filter_rule :: "'w host exec_env \<Rightarrow> nat \<Rightarrow> filter_db \<times> 'w host \<Rightarrow> filter_db \<times> 'w host" where
  "delete_web_filter_rule env i dh =
     ((fst dh)\<lparr>fd_web := delete_rows (\<lambda>r. wr_id r = i) (fd_web (fst dh))\<rparr>,
      case find_by wr_id i (rows (fd_web (fst dh))) of
        None \<Rightarrow> snd dh
      | Some r \<Rightarrow> hot_remove_domain env (or_str (wr_url_pattern r) []) (snd dh))"

section \<open>Applications\<close>

text \<open>The fields of a rule in the order of the insert.\<close>

record app_fields =
  ap_name :: string
  ap_action :: string
  ap_block_dns :: bool
  ap_block_ports :: bool
  ap_ports :: string
  ap_protocol :: string
  ap_domains :: string
  ap_category :: string
  ap_description :: string

definition get_app_filter_rules :: "filter_db \<Rightarrow> app_filter_row list" where
  "get_app_filter_rules db = rev (sort_key ar_id (rows (fd_app db)))"

definition mk_app :: "app_fields \<Rightarrow> nat \<Rightarrow> app_filter_row" where
  "mk_app f i =
     \<lparr>ar_id = i, ar_enabled = True, ar_app_name = Some (strip (ap_name f)), ar_action = Some (ap_action f),
      ar_block_dns = ap_block_dns f, ar_block_ports = ap_block_ports f, ar_ports = Some (ap_ports f),
      ar_protocol = Some (ap_protocol f), ar_domains = Some (ap_domains f), ar_category = Some (ap_category f),
      af_description = ap_description f\<rparr>"

definition no_name :: pyexn where
  "no_name = ValueError ''Application name must not be empty.''"

definition add_app_filter_rule :: "app_fields \<Rightarrow> filter_db \<Rightarrow> filter_db \<times> nat res" where
  "add_app_filter_rule f db =
     (if strip (ap_name f) = [] then (db, Inl no_name)
      else case insert_row (mk_app f) (fd_app db) of (t, i) \<Rightarrow> (db\<lparr>fd_app := t\<rparr>, Inr i))"

text \<open>The signature library: key, name, category, domains, ports; every entry is \<open>tcp+udp\<close>.\<close>

definition app_signatures :: "(string \<times> string \<times> string \<times> string \<times> string) list" where
  "app_signatures =
     [(''facebook'', ''Facebook'', ''social'',
       ''facebook.com,fbcdn.net,fb.com,facebook.net,fbsbx.com'', ''''),
      (''instagram'', ''Instagram'', ''social'',
       ''instagram.com,cdninstagram.com'', ''''),
      (''twitter'', ''Twitter / X'', ''social'',
       ''twitter.com,t.co,x.com,twimg.com,abs.twimg.com'', ''''),
      (''tiktok'', ''TikTok'', ''social'',
       ''tiktok.com,tiktokcdn.com,musical.ly,bytedance.com,tiktokv.com'', ''''),
      (''snapchat'', ''Snapchat'', ''social'',
       ''snapchat.com,snap.com,snapchatads.com,sc-cdn.net'', ''''),
      (''youtube'', ''YouTube'', ''streaming'',
       ''youtube.com,youtu.be,ytimg.com,googlevideo.com,yt3.ggpht.com,youtubei.googleapis.com,youtube.googleapis.com'', ''''),
      (''netflix'', ''Netflix'', ''streaming'',
       ''netflix.com,nflxvideo.net,nflximg.net,nflxso.net,nflxext.com'', ''''),
      (''spotify'', ''Spotify'', ''streaming'',
       ''spotify.com,scdn.co,spotifycdn.com,audio-ak.spotify.com'', ''4070''),
      (''twitch'', ''Twitch'', ''streaming'',
       ''twitch.tv,twitchapps.com,jtvnw.net,twitchsvc.net'', ''''),
      (''whatsapp'', ''WhatsApp'', ''messaging'',
       ''whatsapp.com,whatsapp.net,whatsapp.org'', ''5222,5228,4244''),
      (''telegram'', ''Telegram'', ''messaging'',
       ''telegram.org,t.me,telegram.me,core.telegram.org'', ''''),
      (''discord'', ''Discord'', ''messaging'',
       ''discord.com,discordapp.com,discord.gg,discord.media'', ''''),
      (''signal'', ''Signal'', ''messaging'',
       ''signal.org,signalapp.com,cdn2.signal.org'', ''''),
      (''zoom'', ''Zoom'', ''voip'',
       ''zoom.us,zoom.com,zoomgov.com,zmtg.com'', ''8801-8802,3478,3479''),
      (''teams'', ''Microsoft Teams'', ''voip'',
       ''teams.microsoft.com,teams.live.com,skype.com'', ''3478-3481''),
      (''steam'', ''Steam'', ''gaming'',
       ''steampowered.com,steamcommunity.com,steamgames.com,steamstatic.com'', ''27015-27030,27036-27037''),
      (''bittorrent'', ''BitTorrent / P2P'', ''p2p'',
       '''', ''6881-6889,6969,51413''),
      (''emule'', ''eMule'', ''p2p'',
       '''', ''4662,4672'')]"

definition add_app_from_signature :: "string \<Rightarrow> string \<Rightarrow> filter_db \<Rightarrow> filter_db \<times> nat res" where
  "add_app_from_signature key action db =
     (case map_of app_signatures key of
        None \<Rightarrow> (db, Inl (ValueError (''Unknown application signature: '' @ apos @ key @ apos)))
      | Some (name, category, domains, ports) \<Rightarrow>
          add_app_filter_rule
            \<lparr>ap_name = name, ap_action = action, ap_block_dns = domains \<noteq> [], ap_block_ports = ports \<noteq> [], ap_ports = ports,
             ap_protocol = ''tcp+udp'', ap_domains = domains, ap_category = category,
             ap_description = ''Added from built-in signature library.''\<rparr> db)"

definition update_app_filter_rule :: "nat \<Rightarrow> app_fields \<Rightarrow> filter_db \<Rightarrow> filter_db \<times> unit res" where
  "update_app_filter_rule i f db =
     (if strip (ap_name f) = [] then (db, Inl no_name)
      else (db\<lparr>fd_app := update_rows (\<lambda>r. ar_id r = i) (\<lambda>r. (mk_app f (ar_id r))\<lparr>ar_enabled := ar_enabled r\<rparr>) (fd_app db)\<rparr>, Inr ()))"

definition toggle_app_filter_rule :: "nat \<Rightarrow> bool \<Rightarrow> filter_db \<Rightarrow> filter_db" where
  "toggle_app_filter_rule i on db = db\<lparr>fd_app := update_rows (\<lambda>r. ar_id r = i) (\<lambda>r. r\<lparr>ar_enabled := on\<rparr>) (fd_app db)\<rparr>"

definition delete_app_filter_rule :: "'w host exec_env \<Rightarrow> nat \<Rightarrow> filter_db \<times> 'w host \<Rightarrow> filter_db \<times> 'w host" where
  "delete_app_filter_rule env i dh =
     ((fst dh)\<lparr>fd_app := delete_rows (\<lambda>r. ar_id r = i) (fd_app (fst dh))\<rparr>,
      case find_by ar_id i (rows (fd_app (fst dh))) of
        None \<Rightarrow> snd dh
      | Some r \<Rightarrow>
          fold (hot_remove_domain env)
            (filter (\<lambda>d. d \<noteq> []) (map strip (split_on (CHR '','') (or_str (ar_domains r) [])))) (snd dh))"

section \<open>Conflicts between the filters\<close>

text \<open>\<open>(r.get("action") or "block").lower()\<close>: the words of the rows, not the normalised actions.\<close>

definition raw_action :: "string option \<Rightarrow> string" where
  "raw_action a = lower (or_str a ''block'')"

type_synonym entry = "string \<times> string \<times> string"

definition dns_entries :: "dns_rule list \<Rightarrow> entry list" where
  "dns_entries rs = filter (\<lambda>e. fst e \<noteq> [])
     (map (\<lambda>r. (normalize_domain (or_str (dr_domain r) []), ''dns_filter'', raw_action (dr_action r))) rs)"

definition web_entries :: "web_rule list \<Rightarrow> entry list" where
  "web_entries rs = filter (\<lambda>e. fst e \<noteq> [])
     (map (\<lambda>r. (normalize_domain (or_str (wr_url_pattern r) []), ''web_filter'', raw_action (wr_action r))) rs)"

definition app_label :: "app_rule \<Rightarrow> string" where
  "app_label r = ''app_filter('' @ (case ar_app_name r of None \<Rightarrow> ''None'' | Some n \<Rightarrow> n) @ '')''"

definition app_entries :: "app_rule list \<Rightarrow> entry list" where
  "app_entries rs = concat (map (\<lambda>r.
     map (\<lambda>d. (d, app_label r, raw_action (ar_action r)))
       (filter (\<lambda>d. d \<noteq> []) (map normalize_domain (split_on (CHR '','') (strip (or_str (ar_domains r) [])))))) rs)"

definition redirect_error :: "dns_rule \<Rightarrow> string list" where
  "redirect_error r =
     (let d = normalize_domain (or_str (dr_domain r) []); ip = strip (or_str (dr_redirect_ip r) []) in
      if d = [] \<or> raw_action (dr_action r) \<noteq> ''redirect'' then []
      else if ip = [] then [''DNS filter: domain '' @ py_repr d @ '' has action=redirect but no redirect IP set.'']
      else if ip_address ip = None then [''DNS filter: redirect IP '' @ py_repr ip @ '' for '' @ py_repr d @ '' is invalid.'']
      else [])"

text \<open>\<open>domain_map.setdefault(d, []).append((source, action))\<close>.\<close>

definition note_entry :: "entry \<Rightarrow> (string \<times> (string \<times> string) list) list \<Rightarrow> (string \<times> (string \<times> string) list) list" where
  "note_entry e m = AList.update (fst e) ((case map_of m (fst e) of None \<Rightarrow> [] | Some xs \<Rightarrow> xs) @ [snd e]) m"

definition blocking :: "string \<Rightarrow> bool" where
  "blocking a \<longleftrightarrow> a \<in> set [''block'', ''redirect'']"

definition duplicate_text :: "string \<Rightarrow> (string \<times> string) list \<Rightarrow> string" where
  "duplicate_text d es = ''Duplicate rule: '' @ py_repr d @ '' is blocked by multiple filters: '' @ py_repr_list (map fst es) @ ''. Only one is needed.''"

definition conflict_text :: "string \<Rightarrow> (string \<times> string) list \<Rightarrow> string" where
  "conflict_text d es =
     ''Conflict on '' @ py_repr d @ '': blocked by '' @ py_repr_list (map fst (filter (\<lambda>e. blocking (snd e)) es)) @
     '' but allowed by '' @ py_repr_list (map fst (filter (\<lambda>e. snd e = ''allow'') es)) @ ''. Block takes precedence in Unbound.''"

definition duplicate_warning :: "string \<times> (string \<times> string) list \<Rightarrow> string list" where
  "duplicate_warning de =
     (case de of (d, es) \<Rightarrow> if 1 < length es \<and> list_all (\<lambda>e. snd e = snd (hd es)) es then [duplicate_text d es] else [])"

definition conflict_error :: "string \<times> (string \<times> string) list \<Rightarrow> string list" where
  "conflict_error de =
     (case de of (d, es) \<Rightarrow>
       if list_ex (\<lambda>e. blocking (snd e)) es \<and> list_ex (\<lambda>e. snd e = ''allow'') es then [conflict_text d es] else [])"

definition enabled_entries :: "dns_rule list \<Rightarrow> web_rule list \<Rightarrow> app_rule list \<Rightarrow> entry list" where
  "enabled_entries ds ws as =
     dns_entries (filter dr_enabled ds) @ web_entries (filter wr_enabled ws) @
     app_entries (filter (\<lambda>r. ar_enabled r \<and> ar_block_dns r) as)"

definition detect_conflicts :: "policy_db \<Rightarrow> (string list \<times> string list) res" where
  "detect_conflicts db =
     bind_res (table_rows ''filter_dns_rules'' (dns_rules db)) (\<lambda>ds.
     bind_res (table_rows ''filter_web_rules'' (web_rules db)) (\<lambda>ws.
     bind_res (table_rows ''filter_app_rules'' (app_rules db)) (\<lambda>as.
       let m = fold note_entry (enabled_entries ds ws as) []
       in Inr (concat (map redirect_error (filter dr_enabled ds)) @ concat (map conflict_error m),
               concat (map duplicate_warning m)))))"

record filter_preview =
  fp_zones :: "string list"
  fp_pf_rules :: string
  fp_conflicts :: "string list \<times> string list"
  fp_zone_count :: nat

definition or_error :: "string \<Rightarrow> string list res \<Rightarrow> string list" where
  "or_error name r = (case r of Inl e \<Rightarrow> [''# '' @ name @ '' error: '' @ exn_str e] | Inr ls \<Rightarrow> ls)"

definition get_filter_preview :: "pf_db \<Rightarrow> filter_preview res" where
  "get_filter_preview pdb =
     (let db = policy pdb;
          zones = or_error ''DNS filter'' (generate_dns_filter_zones db) @
                  or_error ''Web filter'' (generate_web_filter_zones db) @
                  or_error ''App filter DNS'' (generate_app_filter_dns_zones db);
          pf = (case generate_app_filter_pf_rules pdb [] of Inl e \<Rightarrow> ''# App filter PF error: '' @ exn_str e | Inr t \<Rightarrow> t)
      in bind_res (detect_conflicts db) (\<lambda>c.
           Inr \<lparr>fp_zones = zones, fp_pf_rules = pf, fp_conflicts = c,
                fp_zone_count = length (filter (\<lambda>z. strip z \<noteq> [] \<and> \<not> startswith (strip z) ''#'') zones)\<rparr>))"

section \<open>Import and export\<close>

record import_result =
  ir_ok :: bool
  ir_imported :: nat
  ir_skipped :: nat
  ir_errors :: "string list"

definition import_lines :: "string \<Rightarrow> string list" where
  "import_lines txt = map strip (filter (\<lambda>l. strip l \<noteq> [] \<and> \<not> startswith l ''#'') (splitlines txt))"

definition add_line :: "string \<Rightarrow> string \<Rightarrow> string \<Rightarrow> string \<Rightarrow> filter_db \<Rightarrow> filter_db \<times> nat res" where
  "add_line kind action category line db =
     (if kind = ''dns'' then add_dns_filter_rule line action [] category [] db
      else if kind = ''web'' then add_web_filter_rule line action category [] db
      else add_app_filter_rule
             \<lparr>ap_name = line, ap_action = action, ap_block_dns = True, ap_block_ports = False, ap_ports = [],
              ap_protocol = ''tcp+udp'', ap_domains = line, ap_category = category, ap_description = []\<rparr> db)"

fun import_loop :: "(string \<Rightarrow> filter_db \<Rightarrow> filter_db \<times> nat res) \<Rightarrow> string list \<Rightarrow> filter_db \<Rightarrow> filter_db \<times> nat \<times> string list" where
  "import_loop add [] db = (db, 0, [])"
| "import_loop add (l # ls) db =
     (case add l db of
        (db1, Inr i) \<Rightarrow> (case import_loop add ls db1 of (db2, n, errs) \<Rightarrow> (db2, Suc n, errs))
      | (db1, Inl e) \<Rightarrow> (case import_loop add ls db1 of (db2, n, errs) \<Rightarrow> (db2, n, (py_repr l @ '': '' @ exn_str e) # errs)))"

definition import_filter_list :: "string \<Rightarrow> string \<Rightarrow> string \<Rightarrow> string \<Rightarrow> filter_db \<Rightarrow> filter_db \<times> import_result" where
  "import_filter_list txt kind action category db =
     (if kind \<notin> set [''dns'', ''web'', ''app'']
      then (db, \<lparr>ir_ok = False, ir_imported = 0, ir_skipped = 0, ir_errors = [''Unknown filter_type: '' @ py_repr kind]\<rparr>)
      else case import_loop (add_line kind action category) (import_lines txt) db of
        (db1, n, errs) \<Rightarrow> (db1, \<lparr>ir_ok = (errs = []), ir_imported = n, ir_skipped = length errs, ir_errors = errs\<rparr>))"

definition export_filter_list :: "string \<Rightarrow> filter_db \<Rightarrow> string" where
  "export_filter_list kind db =
     (if kind = ''dns'' then join nl (sort (map (\<lambda>r. or_str (dr_domain r) []) (filter dr_enabled (rows (fd_dns db)))))
      else if kind = ''web'' then join nl (sort (map (\<lambda>r. or_str (wr_url_pattern r) []) (filter wr_enabled (rows (fd_web db)))))
      else if kind = ''app'' then join nl (sort (map (\<lambda>r. or_str (ar_app_name r) []) (filter ar_enabled (rows (fd_app db)))))
      else [])"

section \<open>Conflicts are exactly the contradictions\<close>

text \<open>The domains in the order in which the filters name them first.\<close>

definition named_domains :: "entry list \<Rightarrow> string list" where
  "named_domains es = rev (remdups (rev (map fst es)))"

definition sources_of :: "entry list \<Rightarrow> string \<Rightarrow> (string \<times> string) list" where
  "sources_of es d = map snd (filter (\<lambda>e. fst e = d) es)"

lemma note_entries: "fold note_entry es [] = map (\<lambda>d. (d, sources_of es d)) (named_domains es)"
proof (induction es rule: rev_induct)
  case (snoc e es)
  let ?m = "map (\<lambda>d. (d, sources_of es d)) (named_domains es)"
  have s: "set (named_domains es) = fst ` set es" by (simp add: named_domains_def)
  have d: "distinct (named_domains es)" by (simp add: named_domains_def)
  have keys: "map fst ?m = named_domains es" by (simp add: comp_def)
  have n: "named_domains (es @ [e]) = (if fst e \<in> fst ` set es then named_domains es else named_domains es @ [fst e])"
    by (simp add: named_domains_def)
  have sr: "sources_of (es @ [e]) d = sources_of es d @ (if fst e = d then [snd e] else [])" for d
    by (simp add: sources_of_def)
  have none: "fst e \<notin> fst ` set es \<Longrightarrow> sources_of es (fst e) = []"
    by (auto simp: sources_of_def filter_empty_conv intro: rev_image_eqI)
  have upd: "AList.update k v (map (\<lambda>d. (d, f d)) ds) =
      (if k \<in> set ds then map (\<lambda>d. (d, if d = k then v else f d)) ds else map (\<lambda>d. (d, f d)) ds @ [(k, v)])"
    if "distinct ds" for k v ds and f :: "string \<Rightarrow> (string \<times> string) list"
    using that by (induction ds) auto
  have m: "map_of ?m (fst e) = (if fst e \<in> fst ` set es then Some (sources_of es (fst e)) else None)"
    by (simp add: map_of_map_restrict s restrict_map_def)
  have "fold note_entry (es @ [e]) [] = note_entry e ?m"
    unfolding fold_append comp_apply snoc.IH fold_simps by (rule refl)
  also have "\<dots> = map (\<lambda>d. (d, sources_of (es @ [e]) d)) (named_domains (es @ [e]))"
  proof (cases "fst e \<in> fst ` set es")
    case True
    then show ?thesis unfolding note_entry_def m upd[OF d] n by (auto simp: s sr)
  next
    case False
    then show ?thesis unfolding note_entry_def m upd[OF d] n using none by (auto simp: s sr)
  qed
  finally show ?case .
qed (simp add: named_domains_def)

definition contradicted :: "entry list \<Rightarrow> string \<Rightarrow> bool" where
  "contradicted es d \<longleftrightarrow> (\<exists>src a. (d, src, a) \<in> set es \<and> blocking a) \<and> (\<exists>src. (d, src, ''allow'') \<in> set es)"

lemma concat_filter: "concat (map (\<lambda>x. if P x then [f x] else []) xs) = map f (filter P xs)"
  by (induction xs) auto

text \<open>
  C11: The errors are those of the redirect rules and one for each domain, in the order in which the enabled DNS rules, web rules and
  application rules that block DNS name it first, for which one of these rules has the stored action \<open>block\<close> or \<open>redirect\<close> and another one the
  stored action \<open>allow\<close>; other words of the same meaning, as \<open>block_all\<close> and \<open>deny\<close>, count for neither side. The text names all the filters of
  both sides.
\<close>

theorem conflicts_are_contradictions:
  assumes "detect_conflicts db = Inr (errors, warnings)" "dns_rules db = Some ds" "web_rules db = Some ws" "app_rules db = Some as"
  defines "es \<equiv> enabled_entries ds ws as"
  shows "errors = concat (map redirect_error (filter dr_enabled ds)) @
      map (\<lambda>d. conflict_text d (sources_of es d)) (filter (contradicted es) (named_domains es))"
proof -
  have c: "conflict_error (d, sources_of es d) = (if contradicted es d then [conflict_text d (sources_of es d)] else [])" for d
    by (fastforce simp: conflict_error_def contradicted_def sources_of_def list_ex_iff)
  from assms(1) show ?thesis
    unfolding detect_conflicts_def assms(2-4) table_rows_def option.case bind_res_simps Let_def es_def[symmetric] note_entries
    by (simp add: c comp_def concat_filter)
qed

section \<open>One rule for a domain\<close>

text \<open>
  What the two tables with a unique index share: a row is made of its data, an update keeps the id and sets the
  domain, a change that leaves both alone (the switch) keeps everything.
\<close>

locale domain_table = pk_table rid mk for rid :: "'r \<Rightarrow> nat" and mk :: "'d \<Rightarrow> nat \<Rightarrow> 'r" +
  fixes col :: "'r \<Rightarrow> string option"
    and dom_of :: "'d \<Rightarrow> string"
  assumes col_mk: "col (mk d i) = Some (dom_of d)"
begin

definition rules_ok :: "'r table \<Rightarrow> bool" where
  "rules_ok t \<longleftrightarrow> pk_ok t \<and> distinct (map col (rows t))
     \<and> (\<forall>r \<in> set (rows t). \<exists>raw. col r = Some (normalize_domain raw) \<and> normalize_domain raw \<noteq> [])"

lemma rules_ok_empty: "rules_ok empty_table"
  by (simp add: rules_ok_def pk_ok_empty)

lemma rules_ok_insert:
  assumes "rules_ok t" "Some (dom_of d) \<notin> set (map col (rows t))" "dom_of d = normalize_domain raw" "dom_of d \<noteq> []"
  shows "rules_ok (fst (insert_row (mk d) t))"
  using assms pk_ok_insert[of t d] by (auto simp: rules_ok_def col_mk)

lemma rules_ok_keep:
  assumes "rules_ok t" "\<And>r. rid (f r) = rid r" "\<And>r. col (f r) = col r"
  shows "rules_ok (update_rows P f t)"
  using assms pk_ok_update[of t f P] by (auto simp: rules_ok_def map_update_where in_set_update_where)

lemma rules_ok_delete: "rules_ok t \<Longrightarrow> rules_ok (delete_rows P t)"
  by (auto simp: rules_ok_def pk_ok_delete distinct_map inj_on_def)

lemma rules_ok_update:
  assumes "rules_ok t" "\<not> (list_ex (\<lambda>r. rid r = i) (rows t) \<and> list_ex (\<lambda>r. rid r \<noteq> i \<and> col r = Some d) (rows t))"
    and "d = normalize_domain raw" "d \<noteq> []" "\<And>r. rid (f r) = rid r" "\<And>r. col (f r) = Some d"
  shows "rules_ok (update_rows (\<lambda>r. rid r = i) f t)"
proof -
  have "distinct (map col (update_where (\<lambda>r. rid r = i) f rs))"
    if "distinct (map rid rs)" "distinct (map col rs)"
      "list_ex (\<lambda>r. rid r = i) rs \<longrightarrow> (\<forall>r \<in> set rs. rid r \<noteq> i \<longrightarrow> col r \<noteq> Some d)" for rs
    using that
  proof (induction rs)
    case (Cons r rs)
    show ?case
    proof (cases "rid r = i")
      case True
      then have "update_where (\<lambda>r. rid r = i) f rs = rs"
        using Cons.prems(1) by (induction rs) (auto simp: update_where_def)
      then show ?thesis using True Cons.prems assms(6) by (auto simp: update_where_def) (metis imageI)
    next
      case False
      have "col r \<notin> col ` set (update_where (\<lambda>r. rid r = i) f rs)"
        using Cons.prems False assms(6) by (auto simp: in_set_update_where list_ex_iff image_iff) metis
      then show ?thesis using Cons.IH Cons.prems False by simp
    qed
  qed (simp add: update_where_def)
  from this[of "rows t"] have "distinct (map col (update_where (\<lambda>r. rid r = i) f (rows t)))"
    using assms(1,2) by (auto simp: rules_ok_def pk_ok_def list_ex_iff)
  moreover have "\<exists>raw. col r = Some (normalize_domain raw) \<and> normalize_domain raw \<noteq> []"
    if "r \<in> set (update_where (\<lambda>r. rid r = i) f (rows t))" for r
    using that assms(1,3,4,6) by (fastforce simp: rules_ok_def in_set_update_where)
  ultimately show ?thesis
    using assms(1) pk_ok_update[of t f "\<lambda>r. rid r = i"] assms(5) by (simp add: rules_ok_def)
qed

end

interpretation dns_table: domain_table dr_id mk_dns dr_domain "\<lambda>d. fst d"
  by unfold_locales (auto simp: mk_dns_def split: prod.splits)

interpretation web_table: domain_table wr_id mk_web wr_url_pattern "\<lambda>d. fst d"
  by unfold_locales (auto simp: mk_web_def split: prod.splits)

interpretation app_table: pk_table ar_id mk_app
  by unfold_locales (simp add: mk_app_def)

text \<open>The tables the edits of an administrator can lead to.\<close>

inductive filter_reach :: "'w host exec_env \<Rightarrow> filter_db \<Rightarrow> bool" for env where
  empty: "filter_reach env \<lparr>fd_dns = empty_table, fd_web = empty_table, fd_app = empty_table, fd_rest = p\<rparr>"
| add_dns: "filter_reach env db \<Longrightarrow> filter_reach env (fst (add_dns_filter_rule raw a ip c t db))"
| update_dns: "filter_reach env db \<Longrightarrow> filter_reach env (fst (update_dns_filter_rule i raw a ip c t db))"
| toggle_dns: "filter_reach env db \<Longrightarrow> filter_reach env (fst (toggle_dns_filter_rule env i on (db, h)))"
| delete_dns: "filter_reach env db \<Longrightarrow> filter_reach env (fst (delete_dns_filter_rule env i (db, h)))"
| add_web: "filter_reach env db \<Longrightarrow> filter_reach env (fst (add_web_filter_rule raw a c t db))"
| update_web: "filter_reach env db \<Longrightarrow> filter_reach env (fst (update_web_filter_rule i raw a c t db))"
| toggle_web: "filter_reach env db \<Longrightarrow> filter_reach env (fst (toggle_web_filter_rule env i on (db, h)))"
| delete_web: "filter_reach env db \<Longrightarrow> filter_reach env (fst (delete_web_filter_rule env i (db, h)))"
| add_app: "filter_reach env db \<Longrightarrow> filter_reach env (fst (add_app_filter_rule f db))"
| add_signature: "filter_reach env db \<Longrightarrow> filter_reach env (fst (add_app_from_signature k a db))"
| update_app: "filter_reach env db \<Longrightarrow> filter_reach env (fst (update_app_filter_rule i f db))"
| toggle_app: "filter_reach env db \<Longrightarrow> filter_reach env (toggle_app_filter_rule i on db)"
| delete_app: "filter_reach env db \<Longrightarrow> filter_reach env (fst (delete_app_filter_rule env i (db, h)))"
| import_list: "filter_reach env db \<Longrightarrow> filter_reach env (fst (import_filter_list txt kind a c db))"

definition filters_ok :: "filter_db \<Rightarrow> bool" where
  "filters_ok db \<longleftrightarrow> dns_table.rules_ok (fd_dns db) \<and> web_table.rules_ok (fd_web db) \<and> app_table.pk_ok (fd_app db)"

lemma filters_ok_add_dns: "filters_ok db \<Longrightarrow> filters_ok (fst (add_dns_filter_rule raw a ip c t db))"
  using dns_table.rules_ok_insert[of "fd_dns db" "(normalize_domain raw, a, ip, c, t)" raw]
  by (auto simp: filters_ok_def add_dns_filter_rule_def check_dns_def Let_def split: sum.split prod.split if_splits)

lemma filters_ok_update_dns: "filters_ok db \<Longrightarrow> filters_ok (fst (update_dns_filter_rule i raw a ip c t db))"
  by (auto simp: filters_ok_def update_dns_filter_rule_def check_dns_def Let_def split: if_splits
      intro!: dns_table.rules_ok_update[where raw = raw])

lemma filters_ok_toggle_dns: "filters_ok db \<Longrightarrow> filters_ok (fst (toggle_dns_filter_rule env i on (db, h)))"
  by (simp add: filters_ok_def toggle_dns_filter_rule_def Let_def dns_table.rules_ok_keep)

lemma filters_ok_delete_dns: "filters_ok db \<Longrightarrow> filters_ok (fst (delete_dns_filter_rule env i (db, h)))"
  by (simp add: filters_ok_def delete_dns_filter_rule_def dns_table.rules_ok_delete)

lemma filters_ok_add_web: "filters_ok db \<Longrightarrow> filters_ok (fst (add_web_filter_rule raw a c t db))"
  using web_table.rules_ok_insert[of "fd_web db" "(normalize_domain raw, a, c, t)" raw]
  by (auto simp: filters_ok_def add_web_filter_rule_def Let_def split: prod.split if_splits)

lemma filters_ok_update_web: "filters_ok db \<Longrightarrow> filters_ok (fst (update_web_filter_rule i raw a c t db))"
  by (auto simp: filters_ok_def update_web_filter_rule_def Let_def split: if_splits
      intro!: web_table.rules_ok_update[where raw = raw])

lemma filters_ok_toggle_web: "filters_ok db \<Longrightarrow> filters_ok (fst (toggle_web_filter_rule env i on (db, h)))"
  by (simp add: filters_ok_def toggle_web_filter_rule_def Let_def web_table.rules_ok_keep)

lemma filters_ok_delete_web: "filters_ok db \<Longrightarrow> filters_ok (fst (delete_web_filter_rule env i (db, h)))"
  by (simp add: filters_ok_def delete_web_filter_rule_def web_table.rules_ok_delete)

lemma filters_ok_add_app: "filters_ok db \<Longrightarrow> filters_ok (fst (add_app_filter_rule f db))"
  using app_table.pk_ok_insert[of "fd_app db" f]
  by (auto simp: filters_ok_def add_app_filter_rule_def split: prod.split)

lemma filters_ok_signature: "filters_ok db \<Longrightarrow> filters_ok (fst (add_app_from_signature k a db))"
  by (auto simp: add_app_from_signature_def filters_ok_add_app split: option.split)

lemma filters_ok_update_app: "filters_ok db \<Longrightarrow> filters_ok (fst (update_app_filter_rule i f db))"
  by (simp add: filters_ok_def update_app_filter_rule_def app_table.pk_ok_update mk_app_def)

lemma filters_ok_toggle_app: "filters_ok db \<Longrightarrow> filters_ok (toggle_app_filter_rule i on db)"
  by (simp add: filters_ok_def toggle_app_filter_rule_def app_table.pk_ok_update)

lemma filters_ok_delete_app: "filters_ok db \<Longrightarrow> filters_ok (fst (delete_app_filter_rule env i (db, h)))"
  by (simp add: filters_ok_def delete_app_filter_rule_def app_table.pk_ok_delete)

lemma filters_ok_import: "filters_ok db \<Longrightarrow> filters_ok (fst (import_filter_list txt kind a c db))"
proof -
  have add: "filters_ok db \<Longrightarrow> filters_ok (fst (add_line kind a c l db))" for l db
    by (simp add: add_line_def filters_ok_add_dns filters_ok_add_web filters_ok_add_app)
  have "filters_ok db \<Longrightarrow> filters_ok (fst (import_loop (add_line kind a c) ls db))" for ls db
  proof (induction ls arbitrary: db)
    case (Cons l ls)
    obtain db1 r where r: "add_line kind a c l db = (db1, r)" by fastforce
    have "filters_ok db1" using add[OF Cons.prems, of l] by (simp add: r)
    from Cons.IH[OF this] show ?case by (auto simp: r split: sum.split prod.split)
  qed simp
  from this[of db "import_lines txt"] show "filters_ok db \<Longrightarrow> ?thesis"
    by (cases "import_loop (add_line kind a c) (import_lines txt) db") (simp add: import_filter_list_def)
qed

text \<open>
  C10: Whatever rules are added, changed, switched, deleted and imported, the DNS and the web
  filter hold at most one rule for a domain and only domains in their normal form, and the ids of every filter are distinct.
\<close>

theorem one_rule_per_domain:
  assumes "filter_reach env db"
  shows "filters_ok db"
  using assms
proof induction
  case (empty p)
  then show ?case by (simp add: filters_ok_def dns_table.rules_ok_empty web_table.rules_ok_empty app_table.pk_ok_empty)
qed (simp_all add: filters_ok_add_dns filters_ok_update_dns filters_ok_toggle_dns filters_ok_delete_dns filters_ok_add_web
    filters_ok_update_web filters_ok_toggle_web filters_ok_delete_web filters_ok_add_app filters_ok_signature filters_ok_update_app
    filters_ok_toggle_app filters_ok_delete_app filters_ok_import)

section \<open>The running Unbound and the policy\<close>

text \<open>A domain of the policy has a zone in the generated file that blocks it or sends it elsewhere.\<close>

lemma policy_zone_emitted:
  assumes "d \<in> dom (map_of (build_domain_policy_map db))"
  shows "\<exists>kind \<in> {''redirect'', ''always_nxdomain''}. zone_line (d @ ''.'') kind \<in> set (emit_unbound_policy_zones db ip)"
proof -
  obtain p where "map_of (build_domain_policy_map db) d = Some p" using assms by blast
  then have "(d, p) \<in> set (build_domain_policy_map db)" by (rule map_of_SomeD)
  then have "(d, p) \<in> set (sort_key fst (build_domain_policy_map db))" unfolding set_sort .
  then have "zone_line (d @ ''.'') (zone_kind (get_content_policy_mode db = DnsNxdomainOnly) ip p)
      \<in> set (filter is_zone_line (emit_unbound_policy_zones db ip))"
    unfolding filter_emit_zones set_map by (rule rev_image_eqI) (simp only: fst_conv snd_conv)
  moreover have "zone_kind b ip p \<in> {''redirect'', ''always_nxdomain''}" for b by (simp add: zone_kind_def)
  ultimately show ?thesis by (meson filter_is_subset subsetD)
qed

text \<open>
  Switching on an allow rule, which the policy and every regenerated file block for all but the whitelisted
  devices, makes the domain's zone in the running Unbound transparent for everybody.
\<close>

theorem switched_allow_opens_domain:
  assumes "ne_freebsd env" "find_by dr_id i (rows (fd_dns db)) = Some r" "dr_action r = Some ''allow''" "dr_domain r = Some d"
    and "toggle_dns_filter_rule env i True (db, h) = (db1, h1)" "d \<in> dom (map_of (build_domain_policy_map (policy_of db1)))"
  shows "h1 = set_zone env d ''transparent'' h
    \<and> (\<exists>kind \<in> {''redirect'', ''always_nxdomain''}. zone_line (d @ ''.'') kind \<in> set (emit_unbound_policy_zones (policy_of db1) ip))"
proof -
  have db1: "db1 = db\<lparr>fd_dns := update_rows (\<lambda>r. dr_id r = i) (\<lambda>r. r\<lparr>dr_enabled := True\<rparr>) (fd_dns db)\<rparr>"
    and h1: "h1 = hot_apply_dns_rule env db1 i h"
    using assms(5) by (auto simp: toggle_dns_filter_rule_def Let_def)
  have "find_by dr_id i (rows (fd_dns db1)) = Some (r\<lparr>dr_enabled := True\<rparr>)"
    using assms(2) by (simp add: db1 find_by_update)
  then have "h1 = set_zone env d ''transparent'' h"
    using assms(1,3,4) by (simp add: h1 hot_apply_dns_rule_def Let_def)
  then show ?thesis using policy_zone_emitted[OF assms(6)] by blast
qed

text \<open>
  Deleting a DNS rule takes the zone of its domain out of the running Unbound even when another filter still
  blocks the domain.
\<close>

theorem deleted_rule_opens_domain:
  assumes "ne_freebsd env" "find_by dr_id i (rows (fd_dns db)) = Some r" "dr_domain r = Some d"
    and "delete_dns_filter_rule env i (db, h) = (db1, h1)" "d \<in> dom (map_of (build_domain_policy_map (policy_of db1)))"
  shows "h1 = quiet_priv env ''unbound.local_data_remove'' [(''domain'', PStr d)]
             (quiet_priv env ''unbound.local_zone_remove'' [(''domain'', PStr d)] h)
    \<and> (\<exists>kind \<in> {''redirect'', ''always_nxdomain''}. zone_line (d @ ''.'') kind \<in> set (emit_unbound_policy_zones (policy_of db1) ip))"
proof -
  have "h1 = hot_remove_domain env d h" using assms(2-4) by (simp add: delete_dns_filter_rule_def)
  then show ?thesis using assms(1) policy_zone_emitted[OF assms(5)] by (simp add: hot_remove_domain_def)
qed

section \<open>Export and import\<close>

lemma splitlines_join: "\<forall>l \<in> set ls. no_break l \<and> l \<noteq> [] \<Longrightarrow> splitlines (join nl ls) = ls"
proof (induction ls)
  case (Cons l ls)
  then show ?case
    by (cases "ls = []") (simp_all add: splitlines_line join_Cons nl_def splitlines_cons_line)
qed simp

lemma proper_line:
  assumes "proper_domain d"
  shows "no_break d" "d \<noteq> []" "strip d = d" "\<not> startswith d ''#''"
proof -
  note ch = proper_domain_chars[OF assms] and hl = proper_domain_hd_last[OF assms]
  have ns: "\<forall>c \<in> set d. \<not> is_space c" using ch domain_char_not by blast
  then show "no_break d" using linebreak_is_space by (auto simp: no_break_def list_all_iff)
  show "d \<noteq> []" by (rule hl(1))
  show "strip d = d" using ns by (simp add: strip_id stripped_no_space)
  show "\<not> startswith d ''#''"
    using hl(1,2) by (cases d) (auto simp: startswith_def dest: lower_alnum_not)
qed

lemma import_proper:
  assumes "\<forall>d \<in> set ds. proper_domain d" "distinct ds" "\<forall>d \<in> set ds. Some d \<notin> set (map dr_domain (rows (fd_dns db)))"
  shows "\<exists>db1 new. import_loop (add_line ''dns'' ''block'' cat) ds db = (db1, length ds, [])
    \<and> rows (fd_dns db1) = rows (fd_dns db) @ new \<and> map dr_domain new = map Some ds \<and> list_all dr_enabled new"
  using assms
proof (induction ds arbitrary: db)
  case (Cons d ds)
  have n: "normalize_domain d = d" "d \<noteq> []"
    using Cons.prems(1) normalize_domain_proper proper_domain_hd_last(1) by simp_all
  define row where "row = mk_dns (d, ''block'', [], cat, []) (Suc (seq (fd_dns db)))"
  define db1 where "db1 = db\<lparr>fd_dns := fst (insert_row (mk_dns (d, ''block'', [], cat, [])) (fd_dns db))\<rparr>"
  have add: "add_line ''dns'' ''block'' cat d db = (db1, Inr (Suc (seq (fd_dns db))))"
    using Cons.prems(3) n by (simp add: add_line_def add_dns_filter_rule_def check_dns_def db1_def insert_row_def Let_def)
  have r: "rows (fd_dns db1) = rows (fd_dns db) @ [row]" by (simp add: db1_def row_def)
  have row: "dr_domain row = Some d" "dr_enabled row" by (simp_all add: row_def mk_dns_def)
  obtain db2 new where "import_loop (add_line ''dns'' ''block'' cat) ds db1 = (db2, length ds, [])"
    "rows (fd_dns db2) = rows (fd_dns db1) @ new" "map dr_domain new = map Some ds" "list_all dr_enabled new"
    using Cons.IH[of db1] Cons.prems by (auto simp: r row)
  then show ?case by (intro exI[of _ db2] exI[of _ "row # new"]) (simp add: add r row)
qed simp

text \<open>
  C12: When no domain of the list holds a line feed, the exported list of one appliance, imported as block rules into an appliance without DNS rules, is taken over
  completely: every line becomes a rule, none is refused, and the list exported there is the same text.
\<close>

theorem export_import_roundtrip:
  assumes "filters_ok db" "\<forall>r \<in> set (rows (fd_dns db)). CHR 0x0A \<notin> set (or_str (dr_domain r) [])"
    and "rows (fd_dns fresh) = []"
    and "import_filter_list (export_filter_list ''dns'' db) ''dns'' ''block'' cat fresh = (copy, res)"
  shows "ir_ok res \<and> ir_imported res = length (filter dr_enabled (rows (fd_dns db)))
    \<and> export_filter_list ''dns'' copy = export_filter_list ''dns'' db"
proof -
  define ds where "ds = sort (map (\<lambda>r. or_str (dr_domain r) []) (filter dr_enabled (rows (fd_dns db))))"
  have named: "\<exists>raw. dr_domain r = Some (normalize_domain raw) \<and> normalize_domain raw \<noteq> []" if "r \<in> set (rows (fd_dns db))" for r
    using assms(1) that by (auto simp: filters_ok_def dns_table.rules_ok_def)
  have proper: "proper_domain d" if "d \<in> set ds" for d
  proof -
    obtain r where r: "r \<in> set (rows (fd_dns db))" "d = or_str (dr_domain r) []" using \<open>d \<in> set ds\<close> by (auto simp: ds_def)
    obtain raw where raw: "dr_domain r = Some (normalize_domain raw)" "normalize_domain raw \<noteq> []" using named[OF r(1)] by blast
    then show ?thesis using normalize_domain_result[OF raw(2)] assms(2) r by force
  qed
  have "distinct (map dr_domain (filter dr_enabled (rows (fd_dns db))))"
    using assms(1) by (auto simp: filters_ok_def dns_table.rules_ok_def distinct_map_filter)
  moreover have "map dr_domain (filter dr_enabled (rows (fd_dns db)))
      = map Some (map (\<lambda>r. or_str (dr_domain r) []) (filter dr_enabled (rows (fd_dns db))))"
    using named by fastforce
  ultimately have distinct: "distinct ds" unfolding ds_def distinct_sort by (metis distinct_map)
  have lines: "import_lines (export_filter_list ''dns'' db) = ds"
  proof -
    have e: "export_filter_list ''dns'' db = join nl ds" by (simp add: export_filter_list_def ds_def)
    have s: "splitlines (join nl ds) = ds" using proper proper_line by (intro splitlines_join) blast
    have "filter (\<lambda>l. strip l \<noteq> [] \<and> \<not> startswith l ''#'') ds = ds" "map strip ds = ds"
      using proper proper_line by (simp_all add: filter_id_conv map_idI)
    then show ?thesis unfolding import_lines_def e s by simp
  qed
  obtain db1 new where l: "import_loop (add_line ''dns'' ''block'' cat) ds fresh = (db1, length ds, [])"
    "rows (fd_dns db1) = rows (fd_dns fresh) @ new" "map dr_domain new = map Some ds" "list_all dr_enabled new"
    using import_proper[of ds fresh cat] proper distinct assms(3) by auto
  have "map (\<lambda>r. or_str (dr_domain r) []) new = ds"
  proof -
    have "map (\<lambda>x. or_str x []) (map dr_domain new) = ds"
      unfolding l(3) using proper proper_line(2) by (simp add: comp_def map_idI)
    then show ?thesis by (simp add: comp_def)
  qed
  moreover have "filter dr_enabled new = new" using l(4) by (simp add: filter_id_conv list_all_iff)
  moreover have "sorted ds" by (simp add: ds_def)
  ultimately have "export_filter_list ''dns'' db1 = export_filter_list ''dns'' db"
    unfolding export_filter_list_def l(2) assms(3) by (simp add: ds_def sort_key_id_if_sorted del: or_str.simps or_str_None_empty)
  moreover have "copy = db1" "res = \<lparr>ir_ok = True, ir_imported = length ds, ir_skipped = 0, ir_errors = []\<rparr>"
    using assms(4) by (simp_all add: import_filter_list_def lines l(1))
  moreover have "length ds = length (filter dr_enabled (rows (fd_dns db)))" by (simp add: ds_def)
  ultimately show ?thesis by simp
qed

section \<open>Small filters\<close>

definition no_tables :: policy_db where
  "no_tables = \<lparr>dns_rules = Some [], web_rules = Some [], app_rules = Some [], service_state = None, sessions = [], hosts = Some [],
     lan_ipv4 = None\<rparr>"

definition no_filters :: filter_db where
  "no_filters = \<lparr>fd_dns = empty_table, fd_web = empty_table, fd_app = empty_table, fd_rest = no_tables\<rparr>"

definition one_each :: "string \<Rightarrow> string \<Rightarrow> filter_db" where
  "one_each dns_action web_action = no_filters
     \<lparr>fd_dns := \<lparr>rows = [mk_dns (''a.com'', dns_action, [], ''custom'', []) 1], seq = 1\<rparr>,
      fd_web := \<lparr>rows = [mk_web (''a.com'', web_action, ''custom'', []) 1], seq = 1\<rparr>\<rparr>"

definition small_box :: "nat host exec_env" where
  "small_box = \<lparr>ne_dry_run = False, ne_freebsd = True, ne_root = True, ne_sudo = [], ne_exec = (\<lambda>c w. (w, TimedOut))\<rparr>"

lemmas small_filters = one_each_def no_filters_def no_tables_def mk_dns_def mk_web_def policy_of_def dns_rule.truncate_def web_rule.truncate_def

lemma one_each_policy:
  "dns_rules (policy_of (one_each a b)) = Some [\<lparr>dr_id = 1, dr_enabled = True, dr_domain = Some ''a.com'', dr_action = Some a,
     dr_redirect_ip = Some [], dr_category = Some ''custom''\<rparr>]"
  "web_rules (policy_of (one_each a b)) = Some [\<lparr>wr_id = 1, wr_enabled = True, wr_url_pattern = Some ''a.com'', wr_action = Some b,
     wr_category = Some ''custom''\<rparr>]"
  "app_rules (policy_of (one_each a b)) = Some []"
  by (simp_all add: small_filters)

lemma one_each_ok: "filters_ok (one_each a b)"
proof -
  have "\<exists>raw. ''a.com'' = normalize_domain raw \<and> normalize_domain raw \<noteq> []" by (rule exI[of _ "''a.com''"]) simp
  then show ?thesis
    by (simp add: filters_ok_def dns_table.rules_ok_def web_table.rules_ok_def dns_table.pk_ok_def web_table.pk_ok_def app_table.pk_ok_def
        one_each_def no_filters_def mk_dns_def mk_web_def)
qed

lemma plain_actions [simp]: "raw_action (Some ''allow'') = ''allow''" "raw_action (Some ''block'') = ''block''"
  "raw_action (Some ''block_all'') = ''block_all''"
  by (simp_all add: raw_action_def to_lower_def is_upper_def code_def)

lemma one_each_entries: "enabled_entries (filter f []) [] [] = []"
  by (simp add: enabled_entries_def dns_entries_def web_entries_def app_entries_def)

lemma one_each_conflicts:
  "detect_conflicts (policy_of (one_each a b)) = (
     let es = [(''dns_filter'', raw_action (Some a)), (''web_filter'', raw_action (Some b))] in
     Inr (redirect_error \<lparr>dr_id = 1, dr_enabled = True, dr_domain = Some ''a.com'', dr_action = Some a,
            dr_redirect_ip = Some [], dr_category = Some ''custom''\<rparr> @ conflict_error (''a.com'', es), duplicate_warning (''a.com'', es)))"
  by (simp add: detect_conflicts_def one_each_policy table_rows_def enabled_entries_def dns_entries_def web_entries_def app_entries_def
      note_entry_def Let_def)

text \<open>
  An allow rule of one filter and a rule of another filter with the action \<open>block_all\<close>, which means the same as
  \<open>block\<close>, are no conflict for the report.
\<close>

theorem block_all_hides_conflict:
  "add_web_filter_rule ''a.com'' ''block_all'' ''custom'' [] (no_filters\<lparr>fd_dns := fd_dns (one_each ''allow'' b)\<rparr>)
       = (one_each ''allow'' ''block_all'', Inr 1)
   \<and> normalize_action (Some ''block_all'') = normalize_action (Some ''block'')
   \<and> detect_conflicts (policy_of (one_each ''allow'' ''block_all'')) = Inr ([], [])"
proof (intro conjI)
  show "add_web_filter_rule ''a.com'' ''block_all'' ''custom'' [] (no_filters\<lparr>fd_dns := fd_dns (one_each ''allow'' b)\<rparr>)
       = (one_each ''allow'' ''block_all'', Inr 1)"
    by (simp add: add_web_filter_rule_def insert_row_def one_each_def no_filters_def empty_table_def Let_def)
  show "normalize_action (Some ''block_all'') = normalize_action (Some ''block'')"
    by (simp add: normalize_action_def strip_def lstrip_def rstrip_def char_class_defs to_lower_def Let_def)
  show "detect_conflicts (policy_of (one_each ''allow'' ''block_all'')) = Inr ([], [])"
    by (simp add: one_each_conflicts redirect_error_def conflict_error_def duplicate_warning_def blocking_def Let_def)
qed

lemma conflicts_are_contradictions_witness:
  "\<exists>errors warnings. detect_conflicts (policy_of (one_each ''allow'' ''block'')) = Inr (errors, warnings) \<and> length errors = 1"
proof -
  let ?db = "policy_of (one_each ''allow'' ''block'')"
  obtain errors warnings where d: "detect_conflicts ?db = Inr (errors, warnings)" unfolding one_each_conflicts by (simp add: Let_def)
  have "length errors = 1"
    unfolding conflicts_are_contradictions[OF d one_each_policy]
    by (simp add: enabled_entries_def dns_entries_def web_entries_def app_entries_def named_domains_def contradicted_def blocking_def
        redirect_error_def Let_def) auto
  then show ?thesis using d by blast
qed

lemma one_rule_per_domain_witness:
  "filters_ok (fst (add_dns_filter_rule ''a.com'' ''block'' [] ''custom'' [] no_filters))"
  by (rule one_rule_per_domain[of small_box]) (simp add: no_filters_def filter_reach.intros)

lemma export_import_roundtrip_witness:
  "\<exists>copy res. import_filter_list (export_filter_list ''dns'' (one_each ''allow'' ''block'')) ''dns'' ''block'' [] no_filters = (copy, res)
     \<and> ir_ok res \<and> ir_imported res = 1"
proof -
  obtain copy res where i: "import_filter_list (export_filter_list ''dns'' (one_each ''allow'' ''block'')) ''dns'' ''block'' [] no_filters
      = (copy, res)" by fastforce
  have "\<forall>r \<in> set (rows (fd_dns (one_each ''allow'' ''block''))). CHR 0x0A \<notin> set (or_str (dr_domain r) [])" "rows (fd_dns no_filters) = []"
    by (simp_all add: one_each_def mk_dns_def no_filters_def)
  from export_import_roundtrip[OF one_each_ok this i] i show ?thesis by (simp add: one_each_def mk_dns_def)
qed

definition quiet_host :: "nat host" where
  "quiet_host = \<lparr>hs_files = (\<lambda>p. None), hs_audit = [], hs_world = 0\<rparr>"

lemma allow_action: "normalize_action (Some ''allow'') = Inr AllowWhitelistOnly"
  by (simp add: normalize_action_def strip_def lstrip_def rstrip_def char_class_defs to_lower_def Let_def)

lemma one_each_named:
  "''a.com'' \<in> dom (map_of (build_domain_policy_map (policy_of (one_each ''allow'' ''block''))))"
  "''a.com'' \<in> dom (map_of (build_domain_policy_map (policy_of ((one_each a ''block'')\<lparr>fd_dns := \<lparr>rows = [], seq = 1\<rparr>\<rparr>))))"
  by (simp_all add: small_filters build_domain_policy_map_def rows_of_def consider_policy_def allow_action dom_def Let_def)

lemma switched_allow_opens_domain_witness:
  "snd (toggle_dns_filter_rule small_box 1 True (one_each ''allow'' ''block'', quiet_host)) = set_zone small_box ''a.com'' ''transparent'' quiet_host"
proof -
  let ?r = "mk_dns (''a.com'', ''allow'', [], ''custom'', []) 1"
  have r: "ne_freebsd small_box" "find_by dr_id 1 (rows (fd_dns (one_each ''allow'' ''block''))) = Some ?r"
    "dr_action ?r = Some ''allow''" "dr_domain ?r = Some ''a.com''"
    by (simp_all add: small_box_def one_each_def mk_dns_def)
  have "toggle_dns_filter_rule small_box 1 True (one_each ''allow'' ''block'', quiet_host)
      = (one_each ''allow'' ''block'', hot_apply_dns_rule small_box (one_each ''allow'' ''block'') 1 quiet_host)"
    by (simp add: toggle_dns_filter_rule_def update_rows_def one_each_def mk_dns_def no_filters_def Let_def)
  from switched_allow_opens_domain[OF r this one_each_named(1)] this show ?thesis by simp
qed

lemma deleted_rule_opens_domain_witness:
  "snd (delete_dns_filter_rule small_box 1 (one_each ''block'' ''block'', quiet_host))
     = quiet_priv small_box ''unbound.local_data_remove'' [(''domain'', PStr ''a.com'')]
         (quiet_priv small_box ''unbound.local_zone_remove'' [(''domain'', PStr ''a.com'')] quiet_host)"
proof -
  let ?r = "mk_dns (''a.com'', ''block'', [], ''custom'', []) 1"
  have r: "ne_freebsd small_box" "find_by dr_id 1 (rows (fd_dns (one_each ''block'' ''block''))) = Some ?r" "dr_domain ?r = Some ''a.com''"
    by (simp_all add: small_box_def one_each_def mk_dns_def)
  have d: "delete_dns_filter_rule small_box 1 (one_each ''block'' ''block'', quiet_host)
      = ((one_each ''block'' ''block'')\<lparr>fd_dns := \<lparr>rows = [], seq = 1\<rparr>\<rparr>, hot_remove_domain small_box ''a.com'' quiet_host)"
    by (simp add: delete_dns_filter_rule_def delete_rows_def one_each_def mk_dns_def)
  from deleted_rule_opens_domain[OF r d one_each_named(2)] d show ?thesis by simp
qed

end
