(* ===== verification/DnsWriter.thy ===== *)
theory DnsWriter
  imports FilterRules DhcpWriter PfReload
begin

text \<open>
  \<^verbatim>\<open>app/services/dns_writer.py\<close>: the configuration of Unbound from the tables, its check, its
  installation with the checks that the daemon serves the LAN, the rollback, the recovery, and the
  resolution test.  The apply functions of the three filters call it.
\<close>

section \<open>The host\<close>

text \<open>
  \<open>du_config\<close> is the document of the configuration file, when there is one that can be read; \<open>du_default_dns\<close>
  the environment variable, \<open>du_resolve\<close> the resolver of the system (\<open>Inl\<close> is the text of its error),
  \<open>du_tmp_fault\<close>, \<open>du_save\<close>, \<open>du_write\<close> and \<open>du_back\<close> the faults of the file operations.
\<close>

record 'w dns_env =
  du_exec :: "'w host exec_env"
  du_config :: "pyval option"
  du_default_dns :: string
  du_checkconf :: bool
  du_drill :: bool
  du_dig :: bool
  du_resolve :: "string \<Rightarrow> string + string list"
  du_tmp :: string
  du_tmp_fault :: "pyexn option"
  du_save :: "copy_fault option"
  du_write :: io
  du_back :: "copy_fault option"

definition unbound_path :: string where
  "unbound_path = ''/usr/local/etc/unbound/unbound.conf''"

definition unbound_known_good :: string where
  "unbound_known_good = ''/usr/local/etc/unbound/unbound.conf.known_good''"

section \<open>Settings\<close>

text \<open>\<open>{}\<close> for a missing row and for a text \<open>json.loads\<close> refuses; a missing table raises.\<close>

definition load_service_state :: "policy_db \<Rightarrow> string \<Rightarrow> pyval res" where
  "load_service_state db key =
     (case service_state db of
        None \<Rightarrow> Inl (missing_table ''service_state'')
      | Some st \<Rightarrow> Inr (case st key of Some (Json v) \<Rightarrow> v | _ \<Rightarrow> PDict []))"

definition config_servers :: "pyval option \<Rightarrow> string list" where
  "config_servers cfg =
     (case cfg of
        None \<Rightarrow> []
      | Some v \<Rightarrow>
          (case bind_res (get_attr v ''dns_servers'') (\<lambda>x. iterate (or_val x (PList []))) of
             Inl e \<Rightarrow> []
           | Inr vs \<Rightarrow> map py_str_of (filter py_bool_of vs)))"

definition upstream_dns :: "'w dns_env \<Rightarrow> string list" where
  "upstream_dns u =
     (if config_servers (du_config u) \<noteq> [] then config_servers (du_config u)
      else if strip (du_default_dns u) \<noteq> []
      then filter (\<lambda>s. s \<noteq> []) (map strip (split_on (CHR '','') (strip (du_default_dns u))))
      else [''1.1.1.1'', ''8.8.8.8''])"

definition lan_cidr :: "policy_db \<Rightarrow> string option res" where
  "lan_cidr db =
     (case lan_ipv4 db of
        None \<Rightarrow> Inl (missing_table ''lan_config'')
      | Some None \<Rightarrow> Inr None
      | Some (Some a) \<Rightarrow> Inr (Some (strip (or_str a []))))"

definition lan_ip :: "policy_db \<Rightarrow> string res" where
  "lan_ip db =
     bind_res (lan_cidr db) (\<lambda>c. Inr (case c of
       None \<Rightarrow> ''127.0.0.1''
     | Some cidr \<Rightarrow>
         (case ip_interface cidr of
            Some i \<Rightarrow> str_ip (host_ip i)
          | None \<Rightarrow> if CHR ''/'' \<in> set cidr then before (CHR ''/'') cidr else if cidr \<noteq> [] then cidr else ''127.0.0.1'')))"

definition lan_net :: "policy_db \<Rightarrow> string res" where
  "lan_net db =
     bind_res (lan_cidr db) (\<lambda>c. Inr (case c of
       None \<Rightarrow> []
     | Some cidr \<Rightarrow> (case ip_interface cidr of Some i \<Rightarrow> str_net (iface_network i) | None \<Rightarrow> [])))"

section \<open>The configuration\<close>

definition conf_start :: "string \<Rightarrow> string list" where
  "conf_start ip =
     [''# ============================================================'',
      ''# Smart Shield '' @ em_dash @ '' auto-generated unbound.conf'',
      ''# Generated by app/services/dns_writer.py'',
      ''# DO NOT EDIT MANUALLY'',
      ''# ============================================================'',
      [],
      ''server:'',
      ''    interface: '' @ ip,
      ''    interface: 127.0.0.1'',
      ''    port: 53'',
      ''    do-ip4: yes'',
      ''    do-ip6: no'',
      ''    do-udp: yes'',
      ''    do-tcp: yes'',
      [],
      ''    access-control: 127.0.0.0/8 allow'',
      ''    access-control: ::1 allow'']"

definition conf_options :: "string list" where
  "conf_options =
     [[],
      ''    hide-identity: yes'',
      ''    hide-version: yes'',
      ''    harden-glue: yes'',
      ''    harden-dnssec-stripped: yes'',
      ''    use-caps-for-id: no'',
      ''    cache-min-ttl: 0'',
      ''    cache-max-ttl: 86400'',
      ''    prefetch: yes'',
      ''    num-threads: 1'',
      ''    msg-cache-slabs: 1'',
      ''    rrset-cache-slabs: 1'',
      ''    infra-cache-slabs: 1'',
      ''    key-cache-slabs: 1'',
      [],
      ''    # Private address suppression'',
      ''    private-address: 192.168.0.0/16'',
      ''    private-address: 172.16.0.0/12'',
      ''    private-address: 10.0.0.0/8'',
      []]"

definition host_rows :: "policy_db \<Rightarrow> (host_row \<Rightarrow> bool) \<Rightarrow> string list" where
  "host_rows db P = map hr_ip_address (filter P (rows_of (hosts db)))"

text \<open>The overrides of the three filters, none of them when one raises.\<close>

definition whitelist_overrides :: "policy_db \<Rightarrow> string list" where
  "whitelist_overrides db =
     (if host_rows db hr_is_whitelisted = [] then []
      else case bind_res (generate_dns_whitelist_overrides db) (\<lambda>a.
                bind_res (generate_web_whitelist_overrides db) (\<lambda>b.
                bind_res (generate_app_filter_dns_overrides db) (\<lambda>c. Inr (a @ b @ c)))) of
             Inl e \<Rightarrow> []
           | Inr ls \<Rightarrow> ls)"

definition view_line :: "string \<Rightarrow> string \<Rightarrow> string" where
  "view_line view ip = ''    access-control-view: '' @ ip @ ''/32 '' @ view"

definition entry_text :: "pyval \<Rightarrow> string \<Rightarrow> string res" where
  "entry_text e k = bind_res (get_attr e k) (\<lambda>x. str_method ''strip'' strip (or_val x (PStr [])))"

definition override_lines :: "pyval \<Rightarrow> string list res" where
  "override_lines e =
     bind_res (entry_text e ''host'') (\<lambda>host.
     bind_res (entry_text e ''domain'') (\<lambda>domain.
     bind_res (entry_text e ''ip'') (\<lambda>ip.
       Inr (if host \<noteq> [] \<and> domain \<noteq> [] \<and> ip \<noteq> []
            then [''    local-data: '' @ quote @ host @ ''.'' @ domain @ ''. A '' @ ip @ quote,
                  ''    local-data-ptr: '' @ quote @ ip @ '' '' @ host @ ''.'' @ domain @ quote]
            else []))))"

definition titled :: "string \<Rightarrow> string list \<Rightarrow> string list" where
  "titled title ls = (if ls = [] then [] else [''    '' @ header title] @ ls @ [[]])"

definition host_override_lines :: "pyval \<Rightarrow> string list res" where
  "host_override_lines resolver =
     bind_res (get_attr resolver ''host_overrides'') (\<lambda>x.
       let v = or_val x (PList []) in
       if \<not> py_bool_of v then Inr []
       else bind_res (iterate v) (\<lambda>es. bind_res (collect_res override_lines es) (\<lambda>ls.
              Inr ([''    '' @ header ''Host overrides''] @ ls @ [[]]))))"

definition forward_lines :: "string list \<Rightarrow> string list" where
  "forward_lines servers =
     [''forward-zone:'', ''    name: '' @ quote @ ''.'' @ quote] @ map (\<lambda>d. ''    forward-addr: '' @ d) servers @ [[]]"

definition view_lines :: "string \<Rightarrow> string list \<Rightarrow> string list" where
  "view_lines name ls = [''view:'', ''    name: '' @ quote @ name @ quote] @ ls @ [[]]"

definition exemption_view :: "policy_db \<Rightarrow> string list" where
  "exemption_view db =
     view_lines ''policy_exemption_view''
       (if emit_policy_exemption_overrides db \<noteq> [] then emit_policy_exemption_overrides db
        else [''    # No blocked domains currently '' @ em_dash @ '' view is a no-op.''])"

text \<open>The lines of the server block behind the options, and the blocks behind it.\<close>

definition zone_section :: "policy_db \<Rightarrow> string list" where
  "zone_section db =
     titled ''Content Policy (Security Profiles)'' (emit_unbound_policy_zones db (get_block_page_ip db)) @
     titled ''DNS-over-HTTPS provider blocks (Phase 4.2)'' (generate_doh_block_zones db)"

definition view_section :: "'w dns_env \<Rightarrow> policy_db \<Rightarrow> string list" where
  "view_section u db =
     forward_lines (upstream_dns u) @
     (if whitelist_overrides db \<noteq> [] then view_lines ''whitelist_view'' (whitelist_overrides db) else []) @
     (if host_rows db hr_is_policy_exempt \<noteq> [] then exemption_view db else [])"

definition access_section :: "policy_db \<Rightarrow> string \<Rightarrow> string list" where
  "access_section db net =
     (if net \<noteq> [] then [''    access-control: '' @ net @ '' allow''] else []) @
     (if whitelist_overrides db \<noteq> [] then map (view_line ''whitelist_view'') (host_rows db hr_is_whitelisted) else []) @
     map (view_line ''policy_exemption_view'') (host_rows db hr_is_policy_exempt)"

definition query_log_lines :: "string list" where
  "query_log_lines =
     [''    # SIEM DNS query logging'', ''    log-queries: yes'',
      ''    logfile: '' @ quote @ ''/var/log/unbound/query.log'' @ quote, []]"

definition unbound_lines :: "'w dns_env \<Rightarrow> policy_db \<Rightarrow> string list res" where
  "unbound_lines u db =
     bind_res (load_service_state db ''dns_resolver'') (\<lambda>resolver.
     bind_res (lan_ip db) (\<lambda>ip.
     bind_res (lan_net db) (\<lambda>net.
     bind_res (load_service_state db ''siem_settings'') (\<lambda>siem.
     bind_res (get_attr siem ''dns_query_logging'') (\<lambda>logging.
     bind_res (host_override_lines resolver) (\<lambda>overrides.
       Inr (conf_start (if ip \<noteq> [] then ip else ''127.0.0.1'') @ access_section db net @ conf_options @
            (if py_bool_of (case logging of None \<Rightarrow> PNone | Some v \<Rightarrow> v) then query_log_lines else []) @
            overrides @ zone_section db @ view_section u db)))))))"

definition generate_unbound_conf :: "'w dns_env \<Rightarrow> policy_db \<Rightarrow> string res" where
  "generate_unbound_conf u db = bind_res (unbound_lines u db) (\<lambda>ls. Inr (join nl ls))"

section \<open>Check, known-good copy, daemon\<close>

text \<open>A command through \<open>run_command\<close>, its audit events kept.\<close>

definition command :: "'w host exec_env \<Rightarrow> nat \<Rightarrow> string list \<Rightarrow> 'w host \<Rightarrow> 'w host \<times> command_result res" where
  "command env n argv h =
     (case run_command env n False argv h of (h1, events, r) \<Rightarrow> (h1\<lparr>hs_audit := hs_audit h1 @ events\<rparr>, r))"

definition validate_unbound_conf :: "'w dns_env \<Rightarrow> string \<Rightarrow> 'w host \<Rightarrow> 'w host \<times> bool \<times> string" where
  "validate_unbound_conf u conf h =
     (if \<not> ne_freebsd (du_exec u) then (h, True, ''skipped-non-freebsd'')
      else if \<not> du_checkconf u then (h, True, ''skipped-unbound-checkconf-not-found'')
      else case du_tmp_fault u of
        Some e \<Rightarrow> (h, False, exn_str e)
      | None \<Rightarrow>
          (case command (du_exec u) 20 [''unbound-checkconf'', du_tmp u] (put_file (du_tmp u) conf 384 h) of
             (h1, r) \<Rightarrow>
               (drop_file (du_tmp u) h1,
                case r of
                  Inl e \<Rightarrow> (False, exn_str e)
                | Inr c \<Rightarrow> (cr_code c = 0, strip (if cr_err c \<noteq> [] then cr_err c else cr_out c)))))"

definition save_known_good_unbound :: "'w dns_env \<Rightarrow> 'w host \<Rightarrow> 'w host \<times> bool res" where
  "save_known_good_unbound u h =
     (if hs_files h unbound_path = None then (h, Inr True)
      else case copy_text (du_save u) unbound_path unbound_known_good (hs_files h) of
        (fs, None) \<Rightarrow> (h\<lparr>hs_files := fs\<rparr>, Inr True)
      | (fs, Some e) \<Rightarrow> (h\<lparr>hs_files := fs\<rparr>, if is_oserror e then Inr False else Inl e))"

definition unbound_is_running :: "'w dns_env \<Rightarrow> 'w host \<Rightarrow> 'w host \<times> bool res" where
  "unbound_is_running u h =
     (case service_action (du_exec u) ''unbound'' ''status'' h of
        (h1, Inl e) \<Rightarrow> (h1, Inl e)
      | (h1, Inr r) \<Rightarrow> (h1, Inr (op_ok r \<and> contains ''is running'' (lower (op_message r)))))"

definition start_or_reload_unbound :: "'w dns_env \<Rightarrow> 'w host \<Rightarrow> 'w host \<times> op_result res" where
  "start_or_reload_unbound u h =
     (case unbound_is_running u h of
        (h1, Inl e) \<Rightarrow> (h1, Inl e)
      | (h1, Inr b) \<Rightarrow> service_action (du_exec u) ''unbound'' (if b then ''reload'' else ''start'') h1)"

definition restart_unbound :: "'w dns_env \<Rightarrow> 'w host \<Rightarrow> 'w host \<times> op_result res" where
  "restart_unbound u h = service_action (du_exec u) ''unbound'' ''restart'' h"

text \<open>Only \<open>OSError\<close> is caught.\<close>

definition rollback_unbound :: "'w dns_env \<Rightarrow> 'w host \<Rightarrow> 'w host \<times> op_result res" where
  "rollback_unbound u h =
     (if hs_files h unbound_known_good = None then (h, Inr (err_result ''No known-good unbound.conf backup found.''))
      else case copy_text (du_back u) unbound_known_good unbound_path (hs_files h) of
        (fs, Some e) \<Rightarrow> (h\<lparr>hs_files := fs\<rparr>, rollback_failure e)
      | (fs, None) \<Rightarrow>
          (case start_or_reload_unbound u (h\<lparr>hs_files := fs\<rparr>) of
             (h1, Inl e) \<Rightarrow> (h1, rollback_failure e)
           | (h1, Inr r) \<Rightarrow>
               (h1, Inr (if op_ok r then ok_result ''Rolled back to last known-good unbound.conf.''
                         else err_result (''Rollback file restored but reload failed: '' @ op_message r)))))"

definition write_unbound_conf :: "'w dns_env \<Rightarrow> policy_db \<Rightarrow> 'w host \<Rightarrow> 'w host \<times> op_result res" where
  "write_unbound_conf u db h =
     (case generate_unbound_conf u db of
        Inl e \<Rightarrow> (h, Inl e)
      | Inr conf \<Rightarrow>
          (if \<not> ne_freebsd (du_exec u)
           then (h, Inr (ok_result (''Non-FreeBSD '' @ em_dash @ '' unbound.conf generated but not written.'')))
           else case write_host (du_write u) unbound_path conf h of
             (h1, Inr x) \<Rightarrow> (h1, Inr (ok_result (''Written to '' @ unbound_path)))
           | (h1, Inl e) \<Rightarrow> (h1, if is_oserror e then Inr (err_result (exn_str e)) else Inl e)))"

section \<open>Does it serve the LAN?\<close>

definition get_unbound_status :: "'w dns_env \<Rightarrow> 'w host \<Rightarrow> 'w host \<times> (bool \<times> string \<times> string) res" where
  "get_unbound_status u h =
     (if \<not> ne_freebsd (du_exec u) then (h, Inr (False, ''dry-run'', ''Non-FreeBSD host.''))
      else case service_action (du_exec u) ''unbound'' ''status'' h of
        (h1, Inl e) \<Rightarrow> (h1, Inl e)
      | (h1, Inr r) \<Rightarrow>
          (let running = op_ok r \<and> contains ''running'' (lower (op_message r))
           in (h1, Inr (running, if running then ''running'' else ''stopped'', op_message r))))"

definition listens_in :: "string \<Rightarrow> string \<Rightarrow> bool" where
  "listens_in ip out \<longleftrightarrow> list_ex (\<lambda>l. list_ex (\<lambda>w. w = ip @ '':53'' \<or> w = ''*:53'') (words_of l)) (splitlines out)"

definition unbound_listening_on_lan :: "'w dns_env \<Rightarrow> policy_db \<Rightarrow> 'w host \<Rightarrow> 'w host \<times> bool res" where
  "unbound_listening_on_lan u db h =
     (if \<not> ne_freebsd (du_exec u) then (h, Inr True)
      else case lan_ip db of
        Inl e \<Rightarrow> (h, Inl e)
      | Inr ip \<Rightarrow>
          (if ip = [] \<or> ip = ''127.0.0.1'' then (h, Inr False)
           else case command (du_exec u) 5 [''sockstat'', ''-4'', ''-l''] h of
             (h1, Inl e) \<Rightarrow> (h1, Inr False)
           | (h1, Inr r) \<Rightarrow> (h1, Inr (listens_in ip (cr_out r)))))"

record resolution =
  rs_ok :: bool
  rs_ip :: "string option"
  rs_method :: string
  rs_message :: string

fun a_record :: "string list \<Rightarrow> string option" where
  "a_record [] = None"
| "a_record (l # ls) =
     (let parts = words_of l in
      if 5 \<le> length parts \<and> parts ! 3 = ''A'' then Some (parts ! 4) else a_record ls)"

text \<open>One method: \<open>None\<close> when the next one is tried.\<close>

definition by_drill :: "'w dns_env \<Rightarrow> string \<Rightarrow> string \<Rightarrow> 'w host \<Rightarrow> 'w host \<times> resolution option" where
  "by_drill u name server h =
     (if \<not> (ne_freebsd (du_exec u) \<and> du_drill u) then (h, None)
      else case command (du_exec u) 5 [''drill'', ''@'' @ server, name, ''A''] h of
        (h1, Inl e) \<Rightarrow> (h1, None)
      | (h1, Inr r) \<Rightarrow>
          (h1, if cr_code r \<noteq> 0 then None
               else case a_record (splitlines (cr_out r)) of
                 Some ip \<Rightarrow> Some \<lparr>rs_ok = True, rs_ip = Some ip, rs_method = ''drill'', rs_message = []\<rparr>
               | None \<Rightarrow> Some \<lparr>rs_ok = False, rs_ip = None, rs_method = ''drill'', rs_message = ''No A record.''\<rparr>))"

definition by_dig :: "'w dns_env \<Rightarrow> string \<Rightarrow> string \<Rightarrow> 'w host \<Rightarrow> 'w host \<times> resolution option" where
  "by_dig u name server h =
     (if \<not> du_dig u then (h, None)
      else case command (du_exec u) 5 [''dig'', ''@'' @ server, ''+short'', name, ''A''] h of
        (h1, Inl e) \<Rightarrow> (h1, None)
      | (h1, Inr r) \<Rightarrow>
          (h1, if cr_code r = 0 \<and> strip (cr_out r) \<noteq> []
               then Some \<lparr>rs_ok = True, rs_ip = Some (strip (hd (splitlines (strip (cr_out r))))), rs_method = ''dig'', rs_message = []\<rparr>
               else None))"

definition by_system :: "'w dns_env \<Rightarrow> string \<Rightarrow> resolution" where
  "by_system u name =
     (case du_resolve u name of
        Inl m \<Rightarrow> \<lparr>rs_ok = False, rs_ip = None, rs_method = ''socket'', rs_message = m\<rparr>
      | Inr [] \<Rightarrow> \<lparr>rs_ok = False, rs_ip = None, rs_method = ''none'', rs_message = ''All resolution methods failed.''\<rparr>
      | Inr (ip # ips) \<Rightarrow> \<lparr>rs_ok = True, rs_ip = Some ip, rs_method = ''socket'',
          rs_message = ''Resolved via system resolver (server param ignored).''\<rparr>)"

definition test_dns_resolution :: "'w dns_env \<Rightarrow> string \<Rightarrow> string \<Rightarrow> 'w host \<Rightarrow> 'w host \<times> resolution" where
  "test_dns_resolution u hostname server h =
     (let name = strip hostname in
      if name = [] then (h, \<lparr>rs_ok = False, rs_ip = None, rs_method = ''none'', rs_message = ''No hostname provided.''\<rparr>)
      else case by_drill u name server h of
        (h1, Some r) \<Rightarrow> (h1, r)
      | (h1, None) \<Rightarrow>
          (case by_dig u name server h1 of
             (h2, Some r) \<Rightarrow> (h2, r)
           | (h2, None) \<Rightarrow> (h2, by_system u name)))"

definition unbound_serving_lan :: "'w dns_env \<Rightarrow> policy_db \<Rightarrow> 'w host \<Rightarrow> 'w host \<times> bool res" where
  "unbound_serving_lan u db h =
     (if \<not> ne_freebsd (du_exec u) then (h, Inr True)
      else case unbound_listening_on_lan u db h of
        (h1, Inl e) \<Rightarrow> (h1, Inl e)
      | (h1, Inr False) \<Rightarrow> (h1, Inr False)
      | (h1, Inr True) \<Rightarrow>
          (case lan_ip db of
             Inl e \<Rightarrow> (h1, Inl e)
           | Inr ip \<Rightarrow> (case test_dns_resolution u ''example.com'' ip h1 of (h2, r) \<Rightarrow> (h2, Inr (rs_ok r)))))"

section \<open>Apply\<close>

record dns_result =
  un_ok :: bool
  un_message :: string
  un_conf :: string
  un_rolled_back :: "bool option"

definition dns_answer :: "bool \<Rightarrow> string \<Rightarrow> string \<Rightarrow> bool option \<Rightarrow> dns_result" where
  "dns_answer ok m conf rb = \<lparr>un_ok = ok, un_message = m, un_conf = conf, un_rolled_back = rb\<rparr>"

text \<open>Up to \<open>n\<close> probes, a second apart.\<close>

fun wait_bound :: "'w dns_env \<Rightarrow> policy_db \<Rightarrow> nat \<Rightarrow> 'w host \<Rightarrow> 'w host \<times> bool res" where
  "wait_bound u db 0 h = (h, Inr False)"
| "wait_bound u db (Suc n) h =
     (case unbound_listening_on_lan u db h of
        (h1, Inl e) \<Rightarrow> (h1, Inl e)
      | (h1, Inr True) \<Rightarrow> (h1, Inr True)
      | (h1, Inr False) \<Rightarrow> wait_bound u db n h1)"

definition own_port_hint :: string where
  "own_port_hint = ''Check `unbound-checkconf '' @ unbound_path @ ''` and confirm the pkg `unbound` service (not base `local_unbound`) owns port 53.''"

definition rolled_back_answer :: "'w dns_env \<Rightarrow> string \<Rightarrow> (string \<Rightarrow> string) \<Rightarrow> 'w host \<Rightarrow> 'w host \<times> dns_result res" where
  "rolled_back_answer u conf msg h =
     (case rollback_unbound u h of
        (h1, Inl e) \<Rightarrow> (h1, Inl e)
      | (h1, Inr rb) \<Rightarrow> (h1, Inr (dns_answer False (msg (op_message rb)) conf (Some (op_ok rb)))))"

text \<open>The restart, when the daemon runs without serving the LAN address.\<close>

definition rebind :: "'w dns_env \<Rightarrow> policy_db \<Rightarrow> string \<Rightarrow> string \<Rightarrow> 'w host \<Rightarrow> 'w host \<times> dns_result res" where
  "rebind u db conf ip h =
     (case restart_unbound u h of
        (h1, Inl e) \<Rightarrow> (h1, Inl e)
      | (h1, Inr r) \<Rightarrow>
          (case wait_bound u db 3 h1 of
             (h2, Inl e) \<Rightarrow> (h2, Inl e)
           | (h2, Inr bound) \<Rightarrow>
               (if op_ok r \<and> bound then (h2, Inr (dns_answer True (op_message r) conf (Some False)))
                else rolled_back_answer u conf
                       (\<lambda>m. strip (''Unbound restarted ('' @ op_message r @ '') but is still not listening on the LAN IP '' @ ip @
                          '':53. '' @ own_port_hint @ '' '' @ m)) h2)))"

definition verify_unbound :: "'w dns_env \<Rightarrow> policy_db \<Rightarrow> string \<Rightarrow> op_result \<Rightarrow> 'w host \<Rightarrow> 'w host \<times> dns_result res" where
  "verify_unbound u db conf r h =
     (if ne_dry_run (du_exec u) then (h, Inr (dns_answer True (op_message r) conf (Some False)))
      else case get_unbound_status u h of
        (h1, Inl e) \<Rightarrow> (h1, Inl e)
      | (h1, Inr (running, state, m)) \<Rightarrow>
          (if \<not> running
           then (h1, Inr (dns_answer False
             (''Unbound '' @ op_message r @ '', but the daemon is not listening on :53 ('' @ (if m \<noteq> [] then m else ''no status'') @
              ''). '' @ own_port_hint) conf (Some False)))
           else case lan_ip db of
             Inl e \<Rightarrow> (h1, Inl e)
           | Inr ip \<Rightarrow>
               (if ip = [] \<or> ip = ''127.0.0.1'' then (h1, Inr (dns_answer True (op_message r) conf (Some False)))
                else case unbound_listening_on_lan u db h1 of
                  (h2, Inl e) \<Rightarrow> (h2, Inl e)
                | (h2, Inr True) \<Rightarrow> (h2, Inr (dns_answer True (op_message r) conf (Some False)))
                | (h2, Inr False) \<Rightarrow> rebind u db conf ip h2)))"

definition start_unbound :: "'w dns_env \<Rightarrow> policy_db \<Rightarrow> string \<Rightarrow> 'w host \<Rightarrow> 'w host \<times> dns_result res" where
  "start_unbound u db conf h =
     (case sysrc_set (du_exec u) ''unbound_enable'' ''YES'' h of
        (h1, Inl e) \<Rightarrow> (h1, Inl e)
      | (h1, Inr x) \<Rightarrow>
          (case start_or_reload_unbound u h1 of
             (h2, Inl e) \<Rightarrow> (h2, Inl e)
           | (h2, Inr r) \<Rightarrow>
               (if \<not> op_ok r
                then rolled_back_answer u conf (\<lambda>m. ''Unbound reload failed ('' @ op_message r @ ''). '' @ m) h2
                else verify_unbound u db conf r h2)))"

definition install_unbound :: "'w dns_env \<Rightarrow> policy_db \<Rightarrow> string \<Rightarrow> 'w host \<Rightarrow> 'w host \<times> dns_result res" where
  "install_unbound u db conf h =
     (case save_known_good_unbound u h of
        (h1, Inl e) \<Rightarrow> (h1, Inl e)
      | (h1, Inr saved) \<Rightarrow>
          (case write_host (du_write u) unbound_path conf h1 of
             (h2, Inl e) \<Rightarrow> (h2, if is_oserror e then Inr (dns_answer False (exn_str e) conf None) else Inl e)
           | (h2, Inr x) \<Rightarrow> start_unbound u db conf h2))"

definition apply_unbound :: "'w dns_env \<Rightarrow> policy_db \<Rightarrow> 'w host \<Rightarrow> 'w host \<times> dns_result res" where
  "apply_unbound u db h =
     (case generate_unbound_conf u db of
        Inl e \<Rightarrow> (h, Inl e)
      | Inr conf \<Rightarrow>
          (case validate_unbound_conf u conf h of
             (h1, ok, err) \<Rightarrow>
               (if \<not> ok then (h1, Inr (dns_answer False (''unbound-checkconf error: '' @ err) conf None))
                else if \<not> ne_freebsd (du_exec u)
                then (h1, Inr (dns_answer True (''Non-FreeBSD '' @ em_dash @ '' conf generated (validation OK).'') conf None))
                else install_unbound u db conf h1)))"

section \<open>Recovery and the apply functions of the filters\<close>

definition disable_base_local_unbound :: "'w dns_env \<Rightarrow> 'w host \<Rightarrow> 'w host" where
  "disable_base_local_unbound u h =
     (if \<not> ne_freebsd (du_exec u) then h
      else case sysrc_set (du_exec u) ''local_unbound_enable'' ''NO'' h of
        (h1, Inl e) \<Rightarrow> h1
      | (h1, Inr r) \<Rightarrow> fst (service_action (du_exec u) ''local_unbound'' ''stop'' h1))"

record recovery_result =
  rc_ok :: bool
  rc_skipped :: bool
  rc_reason :: string
  rc_message :: string
  rc_service_message :: "string option"

text \<open>PF is reloaded in its own environment, on its part of the host.\<close>

definition recover_dns_service ::
  "'w dns_env \<Rightarrow> pf_os \<Rightarrow> pf_env \<Rightarrow> pf_db \<Rightarrow> 'w host \<times> pf_host \<Rightarrow> ('w host \<times> pf_host) \<times> recovery_result res" where
  "recover_dns_service u os pe pdb hp =
     (case unbound_serving_lan u (policy pdb) (fst hp) of
        (h, Inl e) \<Rightarrow> ((h, snd hp), Inl e)
      | (h, Inr True) \<Rightarrow>
          ((h, snd hp), Inr \<lparr>rc_ok = True, rc_skipped = True, rc_reason = ''already_serving'',
             rc_message = ''Unbound is already serving the LAN.'', rc_service_message = None\<rparr>)
      | (h, Inr False) \<Rightarrow>
          (case apply_unbound u (policy pdb) (disable_base_local_unbound u h) of
             (h1, Inl e) \<Rightarrow> ((h1, snd hp), Inl e)
           | (h1, Inr r) \<Rightarrow>
               (if \<not> un_ok r
                then ((h1, snd hp), Inr \<lparr>rc_ok = False, rc_skipped = False, rc_reason = ''apply_failed'', rc_message = un_message r,
                       rc_service_message = Some (un_message r)\<rparr>)
                else case reload_pf_rules os pe pdb (snd hp) of
                  (p1, q) \<Rightarrow>
                    ((h1, p1), Inr \<lparr>rc_ok = True, rc_skipped = False, rc_reason = ''recovered'',
                       rc_message = strip (''Unbound recovered and serving the LAN. '' @
                         (case q of Inl e \<Rightarrow> ''pf reload skipped: '' @ exn_str e | Inr x \<Rightarrow> rl_message x)),
                       rc_service_message = Some (un_message r)\<rparr>))))"

definition apply_dns_filter :: "'w dns_env \<Rightarrow> policy_db \<Rightarrow> 'w host \<Rightarrow> 'w host \<times> op_result" where
  "apply_dns_filter u db h =
     (case apply_unbound u db h of
        (h1, Inl e) \<Rightarrow> (h1, err_result (exn_str e))
      | (h1, Inr r) \<Rightarrow> (h1, \<lparr>op_ok = un_ok r, op_message = un_message r\<rparr>))"

definition apply_app_filter :: "'w dns_env \<Rightarrow> pf_os \<Rightarrow> pf_env \<Rightarrow> pf_db \<Rightarrow> 'w host \<times> pf_host \<Rightarrow> ('w host \<times> pf_host) \<times> op_result" where
  "apply_app_filter u os pe pdb hp =
     (case apply_unbound u (policy pdb) (fst hp) of
        (h1, d) \<Rightarrow>
          (case reload_pf_rules os pe pdb (snd hp) of
             (p1, q) \<Rightarrow>
               ((h1, p1),
                \<lparr>op_ok = (case d of Inl e \<Rightarrow> False | Inr r \<Rightarrow> un_ok r) \<and> (case q of Inl e \<Rightarrow> False | Inr r \<Rightarrow> rl_ok r),
                 op_message = join '' | ''
                   [case d of Inl e \<Rightarrow> ''DNS apply error: '' @ exn_str e | Inr r \<Rightarrow> ''DNS: '' @ un_message r,
                    case q of Inl e \<Rightarrow> ''PF apply error: '' @ exn_str e | Inr r \<Rightarrow> ''PF: '' @ rl_message r]\<rparr>)))"

section \<open>What the steps do to the file\<close>

definition text_at :: "string \<Rightarrow> 'w host \<Rightarrow> string option" where
  "text_at path h = map_option f_content (hs_files h path)"

text \<open>No file operation fails, and the temporary files are not the two files of the program.\<close>

definition dns_faultless :: "'w dns_env \<Rightarrow> bool" where
  "dns_faultless u \<longleftrightarrow> du_save u = None \<and> du_back u = None \<and> no_faults (du_write u)
     \<and> {du_tmp u, io_tmp (du_write u)} \<inter> {unbound_path, unbound_known_good} = {}"

lemma unbound_paths [simp]: "unbound_path \<noteq> unbound_known_good" "unbound_known_good \<noteq> unbound_path"
  by (simp_all add: unbound_path_def unbound_known_good_def)

lemma command_files: "keeps_files env \<Longrightarrow> hs_files (fst (command env n argv h)) = hs_files h"
  by (simp add: command_def run_command_world keeps_files_def case_prod_beta)

lemma start_or_reload_files:
  assumes "keeps_files (du_exec u)"
  shows "hs_files (fst (start_or_reload_unbound u h)) = hs_files h"
proof -
  have s: "hs_files (fst (service_action (du_exec u) n a g)) = hs_files g" for n a g by (rule service_action_files[OF assms])
  obtain h1 r where 1: "service_action (du_exec u) ''unbound'' ''status'' h = (h1, r)" by fastforce
  then have "hs_files h1 = hs_files h" using s[of "''unbound''" "''status''" h] by simp
  then show ?thesis by (cases r) (simp_all add: start_or_reload_unbound_def unbound_is_running_def 1 s)
qed

lemma listening_files:
  assumes "keeps_files (du_exec u)"
  shows "hs_files (fst (unbound_listening_on_lan u db h)) = hs_files h"
  using command_files[OF assms] by (auto simp: unbound_listening_on_lan_def case_prod_beta split: sum.split)

lemma wait_files: "keeps_files (du_exec u) \<Longrightarrow> hs_files (fst (wait_bound u db n h)) = hs_files h"
proof (induction n arbitrary: h)
  case (Suc n)
  obtain h1 r where p: "unbound_listening_on_lan u db h = (h1, r)" by fastforce
  have "hs_files h1 = hs_files h" using listening_files[OF Suc.prems, of db h] p by simp
  then show ?case using Suc.IH[OF Suc.prems] by (auto simp: p split: sum.split bool.split)
qed simp

lemma status_files: "keeps_files (du_exec u) \<Longrightarrow> hs_files (fst (get_unbound_status u h)) = hs_files h"
  using service_action_files by (auto simp: get_unbound_status_def case_prod_beta Let_def split: sum.split)

lemma rollback_text:
  assumes "dns_faultless u" "keeps_files (du_exec u)" "text_at unbound_known_good h = Some old"
  shows "text_at unbound_path (fst (rollback_unbound u h)) = Some old \<and> text_at unbound_known_good (fst (rollback_unbound u h)) = Some old"
proof -
  obtain f where f: "hs_files h unbound_known_good = Some f" "f_content f = old" using assms(3) by (auto simp: text_at_def)
  have c: "copy_text (du_back u) unbound_known_good unbound_path (hs_files h) = (write_text unbound_path old (hs_files h), None)"
    using assms(1) f by (simp add: copy_text_def dns_faultless_def)
  have "hs_files (fst (rollback_unbound u h)) = write_text unbound_path old (hs_files h)"
    using start_or_reload_files[OF assms(2), of "h\<lparr>hs_files := write_text unbound_path old (hs_files h)\<rparr>"] f
    by (auto simp: rollback_unbound_def c case_prod_beta split: sum.split)
  then show ?thesis using f by (simp add: text_at_def write_text_def)
qed

lemma rolled_back_text:
  assumes "dns_faultless u" "keeps_files (du_exec u)" "text_at unbound_known_good h = Some old"
    and "rolled_back_answer u conf m h = (h', Inr r)"
  shows "text_at unbound_path h' = Some old \<and> text_at unbound_known_good h' = Some old \<and> \<not> un_ok r \<and> un_rolled_back r \<noteq> None"
  using rollback_text[OF assms(1-3)] assms(4)
  by (auto simp: rolled_back_answer_def dns_answer_def split: prod.splits sum.splits)

lemma save_text:
  assumes "dns_faultless u" "text_at unbound_path h = Some old"
  shows "\<exists>h1. save_known_good_unbound u h = (h1, Inr True) \<and> text_at unbound_path h1 = Some old \<and> text_at unbound_known_good h1 = Some old"
  using assms by (auto simp: save_known_good_unbound_def dns_faultless_def copy_text_def write_text_def text_at_def)

lemma write_conf_text:
  assumes "dns_faultless u"
  shows "\<exists>h1. write_host (du_write u) unbound_path conf h = (h1, Inr ()) \<and> text_at unbound_path h1 = Some conf
    \<and> text_at unbound_known_good h1 = text_at unbound_known_good h"
  using assms by (auto simp: dns_faultless_def write_host_ok text_at_def)

lemma validate_text:
  assumes "dns_faultless u" "keeps_files (du_exec u)" "path \<in> {unbound_path, unbound_known_good}"
  shows "text_at path (fst (validate_unbound_conf u conf h)) = text_at path h"
  using command_files[OF assms(2)] assms(1,3)
  by (auto simp: validate_unbound_conf_def dns_faultless_def text_at_def drop_file_def put_file_def unlink_def case_prod_beta
      split: option.split)

text \<open>What an answer says of the file, when the text before was \<open>old\<close>.\<close>

definition leaves :: "string \<Rightarrow> string \<Rightarrow> 'w host \<Rightarrow> dns_result \<Rightarrow> bool" where
  "leaves old conf h r \<longleftrightarrow> (un_ok r \<longrightarrow> text_at unbound_path h = Some conf)
     \<and> (un_rolled_back r = Some True \<longrightarrow> \<not> un_ok r \<and> text_at unbound_path h = Some old)
     \<and> (text_at unbound_path h = Some conf \<or> \<not> un_ok r \<and> text_at unbound_path h = Some old)
     \<and> un_rolled_back r \<noteq> None \<and> text_at unbound_known_good h = Some old"

lemma outcome_rolled_back:
  assumes "dns_faultless u" "keeps_files (du_exec u)" "text_at unbound_known_good h = Some old" "rolled_back_answer u conf m h = (h', Inr r)"
  shows "leaves old conf h' r"
  using rolled_back_text[OF assms] by (simp add: leaves_def)

lemma outcome_answer:
  "text_at unbound_path h = Some conf \<Longrightarrow> text_at unbound_known_good h = Some old \<Longrightarrow> leaves old conf h (dns_answer ok m conf (Some False))"
  by (simp add: leaves_def dns_answer_def)

lemma rebind_outcome:
  assumes "dns_faultless u" "keeps_files (du_exec u)" "text_at unbound_path h = Some conf" "text_at unbound_known_good h = Some old"
    and "rebind u db conf ip h = (h', Inr r)"
  shows "leaves old conf h' r"
proof -
  obtain h1 q where 1: "restart_unbound u h = (h1, Inr q)" using assms(5) by (auto simp: rebind_def split: prod.splits sum.splits)
  obtain h2 b where 2: "wait_bound u db 3 h1 = (h2, Inr b)" using assms(5) 1 by (auto simp: rebind_def split: prod.splits sum.splits)
  have f: "hs_files h2 = hs_files h"
    using service_action_files[OF assms(2), of "''unbound''" "''restart''" h] wait_files[OF assms(2), of db 3 h1] 1 2
    by (simp add: restart_unbound_def)
  then have t: "text_at unbound_path h2 = Some conf" "text_at unbound_known_good h2 = Some old" using assms(3,4) by (simp_all add: text_at_def)
  show ?thesis
  proof (cases "op_ok q \<and> b")
    case True
    then have "h' = h2" "r = dns_answer True (op_message q) conf (Some False)" using assms(5) by (simp_all add: rebind_def 1 2)
    then show ?thesis using outcome_answer[OF t] by simp
  next
    case False
    from assms(5)[unfolded rebind_def 1 2 prod.case sum.case if_not_P[OF False]]
    show ?thesis by (rule outcome_rolled_back[OF assms(1,2) t(2)])
  qed
qed

lemma verify_outcome:
  assumes "dns_faultless u" "keeps_files (du_exec u)" "text_at unbound_path h = Some conf" "text_at unbound_known_good h = Some old"
    and "verify_unbound u db conf q h = (h', Inr r)"
  shows "leaves old conf h' r"
proof (cases "ne_dry_run (du_exec u)")
  case True
  then show ?thesis using assms(5) outcome_answer[OF assms(3,4)] by (auto simp: verify_unbound_def)
next
  case False
  obtain h1 running state m where 1: "get_unbound_status u h = (h1, Inr (running, state, m))"
    using assms(5) False by (auto simp: verify_unbound_def split: prod.splits sum.splits)
  have f1: "hs_files h1 = hs_files h" using status_files[OF assms(2), of h] 1 by simp
  then have t1: "text_at unbound_path h1 = Some conf" "text_at unbound_known_good h1 = Some old" using assms(3,4) by (simp_all add: text_at_def)
  note out1 = outcome_answer[OF t1]
  show ?thesis
  proof (cases running)
    case run: True
    obtain ip where ip: "lan_ip db = Inr ip" using assms(5) False run 1 by (cases "lan_ip db") (auto simp: verify_unbound_def)
    show ?thesis
    proof (cases "ip = [] \<or> ip = ''127.0.0.1''")
      case True
      then show ?thesis using assms(5) False run 1 ip out1 by (auto simp: verify_unbound_def)
    next
      case lan: False
      obtain h2 b where 2: "unbound_listening_on_lan u db h1 = (h2, Inr b)"
        using assms(5) False run 1 ip lan by (auto simp: verify_unbound_def split: prod.splits sum.splits)
      have "hs_files h2 = hs_files h1" using listening_files[OF assms(2), of db h1] 2 by simp
      then have t2: "text_at unbound_path h2 = Some conf" "text_at unbound_known_good h2 = Some old" using t1 by (simp_all add: text_at_def)
      show ?thesis
      proof (cases b)
        case True
        then show ?thesis using assms(5) False run 1 ip lan 2 outcome_answer[OF t2] by (auto simp: verify_unbound_def)
      next
        case no: False
        then have "rebind u db conf ip h2 = (h', Inr r)" using assms(5) False run 1 ip lan 2 by (simp add: verify_unbound_def)
        from rebind_outcome[OF assms(1,2) t2 this] show ?thesis .
      qed
    qed
  next
    case down: False
    then show ?thesis using assms(5) False 1 out1 by (auto simp: verify_unbound_def)
  qed
qed

lemma start_outcome:
  assumes "dns_faultless u" "keeps_files (du_exec u)" "text_at unbound_path h = Some conf" "text_at unbound_known_good h = Some old"
    and "start_unbound u db conf h = (h', Inr r)"
  shows "leaves old conf h' r"
proof -
  obtain h1 x where 1: "sysrc_set (du_exec u) ''unbound_enable'' ''YES'' h = (h1, Inr x)"
    using assms(5) by (auto simp: start_unbound_def split: prod.splits sum.splits)
  obtain h2 q where 2: "start_or_reload_unbound u h1 = (h2, Inr q)"
    using assms(5) 1 by (auto simp: start_unbound_def split: prod.splits sum.splits)
  have "hs_files h2 = hs_files h"
    using sysrc_set_files[OF assms(2), of "''unbound_enable''" "''YES''" h] start_or_reload_files[OF assms(2), of h1] 1 2 by simp
  then have t: "text_at unbound_path h2 = Some conf" "text_at unbound_known_good h2 = Some old" using assms(3,4) by (simp_all add: text_at_def)
  show ?thesis
  proof (cases "op_ok q")
    case True
    then show ?thesis using assms(5) verify_outcome[OF assms(1,2) t] by (simp add: start_unbound_def 1 2)
  next
    case False
    then show ?thesis using assms(5) outcome_rolled_back[OF assms(1,2) t(2)] by (simp add: start_unbound_def 1 2)
  qed
qed

text \<open>The installation of a checked text, from a host that has a configuration.\<close>

lemma install_outcome:
  assumes "dns_faultless u" "keeps_files (du_exec u)" "text_at unbound_path h = Some old" "install_unbound u db conf h = (h', Inr r)"
  shows "leaves old conf h' r"
proof -
  obtain h1 where 1: "save_known_good_unbound u h = (h1, Inr True)" "text_at unbound_known_good h1 = Some old"
    using save_text[OF assms(1,3)] by blast
  obtain h2 where 2: "write_host (du_write u) unbound_path conf h1 = (h2, Inr ())" "text_at unbound_path h2 = Some conf"
    "text_at unbound_known_good h2 = Some old"
    using write_conf_text[OF assms(1), of conf h1] 1(2) by auto
  have "start_unbound u db conf h2 = (h', Inr r)" using assms(4) by (simp add: install_unbound_def 1(1) 2(1))
  from start_outcome[OF assms(1,2) 2(2,3) this] show ?thesis .
qed

lemma apply_installs:
  assumes "ne_freebsd (du_exec u)" "generate_unbound_conf u db = Inr conf" "apply_unbound u db h = (h', Inr r)"
  obtains h1 err where "validate_unbound_conf u conf h = (h1, False, err)" "h' = h1" "\<not> un_ok r" "un_rolled_back r = None"
  | h1 err where "validate_unbound_conf u conf h = (h1, True, err)" "install_unbound u db conf h1 = (h', Inr r)"
proof -
  obtain h1 ok err where v: "validate_unbound_conf u conf h = (h1, ok, err)" by (metis prod_cases3)
  show thesis
  proof (cases ok)
    case True
    then show thesis using that(2)[of h1 err] v assms by (simp add: apply_unbound_def)
  next
    case False
    then show thesis using that(1)[of h1 err] v assms by (auto simp: apply_unbound_def dns_answer_def)
  qed
qed

text \<open>
  C8: On a live FreeBSD host whose file operations succeed, an apply that returns leaves the generated text when it reports
  success, the text from before when it reports a rollback or the check refused the text, and one of the two in any case.
\<close>

theorem dns_apply_outcome:
  assumes "dns_faultless u" "keeps_files (du_exec u)" "ne_freebsd (du_exec u)" "generate_unbound_conf u db = Inr conf"
    and "text_at unbound_path h = Some old" "apply_unbound u db h = (h', Inr r)"
  shows "(un_ok r \<longrightarrow> text_at unbound_path h' = Some conf)
    \<and> (un_rolled_back r = Some True \<or> un_rolled_back r = None \<longrightarrow> \<not> un_ok r \<and> text_at unbound_path h' = Some old)
    \<and> (text_at unbound_path h' = Some conf \<or> \<not> un_ok r \<and> text_at unbound_path h' = Some old)"
proof -
  have v: "text_at unbound_path (fst (validate_unbound_conf u conf h)) = Some old"
    using validate_text[OF assms(1,2), of unbound_path conf h] assms(5) by simp
  from assms(3,4,6) show ?thesis
  proof (cases rule: apply_installs)
    case (1 h1 err)
    then show ?thesis using v by simp
  next
    case (2 h1 err)
    then have "leaves old conf h' r" using install_outcome[OF assms(1,2)] v by simp
    then show ?thesis by (auto simp: leaves_def)
  qed
qed

text \<open>
  C39: An apply that fails and leaves its text in place, as when the daemon does not come up with it, keeps the text from before as the
  known-good one. But the next apply overwrites that copy with the failed text, so when it rolls back, the live file and the known-good file both
  hold the failed text, and neither holds the one that worked.
\<close>

theorem failed_conf_becomes_known_good:
  assumes "dns_faultless u" "keeps_files (du_exec u)" "ne_freebsd (du_exec u)" "text_at unbound_path h = Some good" "bad \<noteq> good"
    and "generate_unbound_conf u db = Inr bad" "apply_unbound u db h = (h1, Inr r1)" "\<not> un_ok r1" "text_at unbound_path h1 = Some bad"
    and "generate_unbound_conf u db' = Inr conf" "apply_unbound u db' h1 = (h2, Inr r2)" "un_rolled_back r2 = Some True"
  shows "text_at unbound_known_good h1 = Some good
    \<and> text_at unbound_path h2 = Some bad \<and> text_at unbound_known_good h2 = Some bad"
proof
  have v: "text_at unbound_path (fst (validate_unbound_conf u bad h)) = Some good"
    using validate_text[OF assms(1,2), of unbound_path bad h] assms(4) by simp
  from assms(3,6,7) show "text_at unbound_known_good h1 = Some good"
  proof (cases rule: apply_installs)
    case (1 g err)
    then show ?thesis using v assms(5,9) by simp
  next
    case (2 g err)
    then have "leaves good bad h1 r1" using install_outcome[OF assms(1,2)] v by simp
    then show ?thesis by (simp add: leaves_def)
  qed
  from assms(3,10,11) show "text_at unbound_path h2 = Some bad \<and> text_at unbound_known_good h2 = Some bad"
  proof (cases rule: apply_installs)
    case (1 g err)
    then show ?thesis using assms(12) by simp
  next
    case (2 g err)
    have "text_at unbound_path g = Some bad"
      using validate_text[OF assms(1,2), of unbound_path conf h1] assms(9) 2(1) by simp
    from install_outcome[OF assms(1,2) this 2(2)] show ?thesis using assms(12) by (simp add: leaves_def)
  qed
qed

section \<open>What success means\<close>

lemma wait_bound_True: "wait_bound u db n h = (h', Inr True) \<Longrightarrow> \<exists>g. unbound_listening_on_lan u db g = (h', Inr True)"
  by (induction n arbitrary: h) (auto split: prod.splits sum.splits bool.splits)

lemma verify_serves:
  assumes "verify_unbound u db conf q h = (h', Inr r)" "un_ok r" "\<not> ne_dry_run (du_exec u)"
    and "lan_ip db = Inr ip" "ip \<noteq> []" "ip \<noteq> ''127.0.0.1''"
  shows "\<exists>g. unbound_listening_on_lan u db g = (h', Inr True)"
proof -
  obtain h1 running state m where 1: "get_unbound_status u h = (h1, Inr (running, state, m))"
    using assms(1,3) by (auto simp: verify_unbound_def split: prod.splits sum.splits)
  have run: "running" using assms(1-3) by (auto simp: verify_unbound_def 1 dns_answer_def split: if_splits)
  obtain h2 b where 2: "unbound_listening_on_lan u db h1 = (h2, Inr b)"
    using assms(1,3-6) run by (auto simp: verify_unbound_def 1 split: prod.splits sum.splits)
  show ?thesis
  proof (cases b)
    case True
    then have "h' = h2" using assms(1,3-6) run by (auto simp: verify_unbound_def 1 2)
    then show ?thesis using 2 True by (intro exI[of _ h1]) simp
  next
    case False
    then have rb: "rebind u db conf ip h2 = (h', Inr r)" using assms(1,3-6) run by (simp add: verify_unbound_def 1 2)
    obtain h3 q where 3: "restart_unbound u h2 = (h3, Inr q)" using rb by (auto simp: rebind_def split: prod.splits sum.splits)
    obtain h4 bound where 4: "wait_bound u db 3 h3 = (h4, Inr bound)" using rb 3 by (auto simp: rebind_def split: prod.splits sum.splits)
    show ?thesis
    proof (cases "op_ok q \<and> bound")
      case True
      then have "h' = h4" using rb by (simp add: rebind_def 3 4)
      then show ?thesis using wait_bound_True[of u db 3 h3 h4] 4 True by simp
    next
      case no: False
      from rb[unfolded rebind_def 3 4 prod.case sum.case if_not_P[OF no]] have "\<not> un_ok r"
        by (auto simp: rolled_back_answer_def dns_answer_def split: prod.splits sum.splits)
      then show ?thesis using assms(2) by simp
    qed
  qed
qed

text \<open>
  C9: An apply on a live host with a LAN address reports success only when its last act was a probe that found Unbound
  listening on that address.
\<close>

theorem dns_apply_ok_serves:
  assumes "apply_unbound u db h = (h', Inr r)" "un_ok r" "ne_freebsd (du_exec u)" "\<not> ne_dry_run (du_exec u)"
    and "lan_ip db = Inr ip" "ip \<noteq> []" "ip \<noteq> ''127.0.0.1''"
  shows "\<exists>g. unbound_listening_on_lan u db g = (h', Inr True)"
proof -
  obtain conf where conf: "generate_unbound_conf u db = Inr conf" using assms(1) by (cases "generate_unbound_conf u db") (auto simp: apply_unbound_def)
  from assms(3) conf assms(1) show ?thesis
  proof (cases rule: apply_installs)
    case (1 h1 err)
    then show ?thesis using assms(2) by simp
  next
    case (2 h1 err)
    obtain h2 saved where s: "save_known_good_unbound u h1 = (h2, Inr saved)"
      using 2(2) by (auto simp: install_unbound_def split: prod.splits sum.splits)
    have "\<exists>h3 w. write_host (du_write u) unbound_path conf h2 = (h3, Inr w)"
      using 2(2) assms(2) by (auto simp: install_unbound_def s dns_answer_def split: prod.splits sum.splits if_splits)
    then obtain h3 w where w: "write_host (du_write u) unbound_path conf h2 = (h3, Inr w)" by blast
    have st: "start_unbound u db conf h3 = (h', Inr r)" using 2(2) by (simp add: install_unbound_def s w)
    obtain h4 x where x: "sysrc_set (du_exec u) ''unbound_enable'' ''YES'' h3 = (h4, Inr x)"
      using st by (auto simp: start_unbound_def split: prod.splits sum.splits)
    obtain h5 q where q: "start_or_reload_unbound u h4 = (h5, Inr q)"
      using st by (auto simp: start_unbound_def x split: prod.splits sum.splits)
    show ?thesis
    proof (cases "op_ok q")
      case True
      then have "verify_unbound u db conf q h5 = (h', Inr r)" using st by (simp add: start_unbound_def x q)
      from verify_serves[OF this assms(2,4-7)] show ?thesis .
    next
      case no: False
      then have "\<not> un_ok r"
        using st by (auto simp: start_unbound_def x q rolled_back_answer_def dns_answer_def split: prod.splits sum.splits)
      then show ?thesis using assms(2) by simp
    qed
  qed
qed

text \<open>
  The check of the recovery, which promises an answer of Unbound on the LAN address, is also passed when neither
  drill nor dig could ask there: the resolver of the system, which need not be Unbound, answers instead.
\<close>

theorem system_resolver_counts_as_serving:
  assumes "ne_freebsd (du_exec u)" "unbound_listening_on_lan u db h = (h1, Inr True)" "lan_ip db = Inr ip"
    and "by_drill u ''example.com'' ip h1 = (h2, None)" "\<not> du_dig u" "du_resolve u ''example.com'' = Inr (a # as)"
  shows "unbound_serving_lan u db h = (h2, Inr True)"
proof -
  have "strip ''example.com'' = ''example.com''" by (rule strip_id) (simp add: stripped_def char_class_defs)
  then have "test_dns_resolution u ''example.com'' ip h1
      = (h2, \<lparr>rs_ok = True, rs_ip = Some a, rs_method = ''socket'', rs_message = ''Resolved via system resolver (server param ignored).''\<rparr>)"
    using assms(4-6) by (simp add: test_dns_resolution_def by_dig_def by_system_def)
  then show ?thesis using assms(1-3) by (simp add: unbound_serving_lan_def)
qed

text \<open>
  The base resolver is switched off in rc.conf and never stopped: the service action is refused, since
  \<open>local_unbound\<close> is not a service the helper knows.
\<close>

theorem base_resolver_not_stopped:
  assumes "ne_freebsd (du_exec u)"
  shows "disable_base_local_unbound u h = fst (sysrc_set (du_exec u) ''local_unbound_enable'' ''NO'' h)"
proof -
  have n: "strip ''local_unbound'' \<notin> set known_services" and a: "strip (lower ''stop'') = ''stop''"
    by (simp_all add: lower_def to_lower_def strip_def lstrip_def rstrip_def char_class_defs known_services_def)
  have "fst (service_action (du_exec u) ''local_unbound'' ''stop'' g) = g" for g
  proof -
    obtain m where "build_command ''service.action'' [(''service_name'', PStr ''local_unbound''), (''action'', PStr ''stop'')]
        = Inl (PrivilegedActionError m)"
      using refused_service_command[OF n] by blast
    note c = priv_refused[OF this]
    show ?thesis using assms unfolding service_action_def Let_def a c by (simp add: valid_actions_def)
  qed
  then show ?thesis using assms by (auto simp: disable_base_local_unbound_def split: prod.split sum.split)
qed

section \<open>A domain named twice\<close>

definition names_zone :: "string \<Rightarrow> string \<Rightarrow> bool" where
  "names_zone d l \<longleftrightarrow> startswith l (''    local-zone: '' @ quote @ d @ ''.'' @ quote)"

lemma names_zone_line: "names_zone d (zone_line (d @ ''.'') k)"
  unfolding names_zone_def zone_line_def by (simp add: startswith_def)

lemma filter_count: "x \<in> set xs \<Longrightarrow> P x \<Longrightarrow> 1 \<le> length (filter P xs)"
  by (induction xs) auto

text \<open>
  C40: While a rule that blocks or redirects is in force and the blocking of DNS-over-HTTPS has not been switched off, a domain with a policy that is also a known DNS-over-HTTPS
  provider gets two local-zone lines in the generated file, although the zones are collected in one map so that no zone is declared twice.
\<close>

theorem doh_domain_declared_twice:
  assumes "unbound_lines u db = Inr ls" "d \<in> set doh_provider_domains" "d \<in> dom (map_of (build_domain_policy_map db))"
    and "has_active_content_policy db = Inr True" "doh_blocking_enabled db"
  shows "2 \<le> length (filter (names_zone d) ls)"
proof -
  let ?zones = "emit_unbound_policy_zones db (get_block_page_ip db)" and ?doh = "generate_doh_block_zones db"
  obtain k where k: "zone_line (d @ ''.'') k \<in> set ?zones" using policy_zone_emitted[OF assms(3)] by blast
  have doh: "zone_line (d @ ''.'') ''always_nxdomain'' \<in> set ?doh"
    using assms(2,4,5) unfolding generate_doh_block_zones_def by simp
  have titled: "filter (names_zone d) (titled t xs) = filter (names_zone d) xs" if "\<not> names_zone d (''    '' @ header t)" for t xs
    using that by (simp add: titled_def names_zone_def startswith_def)
  have head: "\<not> names_zone d (''    '' @ header t)" for t
    by (simp add: names_zone_def startswith_def header_def)
  have sec: "2 \<le> length (filter (names_zone d) (zone_section db))"
    unfolding zone_section_def filter_append length_append titled[OF head]
    using filter_count[of _ _ "names_zone d", OF k names_zone_line] filter_count[of _ _ "names_zone d", OF doh names_zone_line] by linarith
  obtain pre post where "ls = pre @ zone_section db @ post"
  proof -
    have "\<exists>pre post. ls = pre @ zone_section db @ post"
      using assms(1) unfolding unbound_lines_def bind_res_Inr by (metis append_assoc sum.inject(2))
    then show thesis using that by blast
  qed
  then show ?thesis using sec by simp
qed

section \<open>A small appliance\<close>

definition lan_tables :: policy_db where
  "lan_tables = no_tables\<lparr>service_state := Some Map.empty, lan_ipv4 := Some (Some (Some ''192.168.1.1/24'')),
     dns_rules := Some [\<lparr>dr_id = 1, dr_enabled = True, dr_domain = Some ''dns.google'', dr_action = Some ''block'', dr_redirect_ip = None,
       dr_category = None\<rparr>]\<rparr>"

definition unbound_box :: "(string list \<Rightarrow> nat \<Rightarrow> exec_result) \<Rightarrow> nat dns_env" where
  "unbound_box f = (let i = \<lparr>io_tmp = ''/tmp/x'', io_mkstemp = None, io_write = None, io_replace = None, io_backup = None, io_restore = None\<rparr> in
     \<lparr>du_exec = \<lparr>ne_dry_run = False, ne_freebsd = True, ne_root = True, ne_sudo = [],
        ne_exec = (\<lambda>c h. (h\<lparr>hs_world := Suc (hs_world h)\<rparr>, f c (hs_world h)))\<rparr>,
      du_config = None, du_default_dns = [], du_checkconf = False, du_drill = False, du_dig = False, du_resolve = (\<lambda>n. Inr [''10.0.0.1'']),
      du_tmp = ''/tmp/y'', du_tmp_fault = None, du_save = None, du_write = i, du_back = None\<rparr>)"

lemma box_ok: "dns_faultless (unbound_box f)" "keeps_files (du_exec (unbound_box f))" "ne_freebsd (du_exec (unbound_box f))"
  "\<not> ne_dry_run (du_exec (unbound_box f))"
  by (simp_all add: unbound_box_def dns_faultless_def no_faults_def unbound_path_def unbound_known_good_def keeps_files_def Let_def)

lemma lan_tables_ip: "lan_ip lan_tables = Inr ''192.168.1.1''" "\<exists>net. lan_net lan_tables = Inr net"
proof -
  have d: "str_nat 192 = ''192''" "str_nat 168 = ''168''" "str_nat 1 = ''1''" by code_simp+
  have y: "str_v4 3232235777 = ''192.168.1.1''" using d by (simp add: str_v4_def)
  have i: "ip_interface ''192.168.1.1/24'' = Some (Iface (V4 3232235777) 24)"
    using ip_interface_24[of 3232235777] by (simp add: y)
  have "strip ''192.168.1.1/24'' = ''192.168.1.1/24''" by (rule strip_id) (simp add: stripped_def char_class_defs)
  then show "lan_ip lan_tables = Inr ''192.168.1.1''" "\<exists>net. lan_net lan_tables = Inr net"
    by (simp_all add: lan_ip_def lan_net_def lan_cidr_def lan_tables_def no_tables_def i y host_ip_def str_ip_def)
qed

lemma lan_tables_conf: "\<exists>ls. unbound_lines u lan_tables = Inr ls"
proof -
  obtain net where net: "lan_net lan_tables = Inr net" using lan_tables_ip(2) by blast
  have s: "load_service_state lan_tables k = Inr (PDict [])" for k by (simp add: load_service_state_def lan_tables_def no_tables_def)
  have o: "host_override_lines (PDict []) = Inr []" by (simp add: host_override_lines_def get_attr_def or_val_def Let_def)
  have g: "get_attr (PDict []) k = Inr None" for k by (simp add: get_attr_def)
  show ?thesis unfolding unbound_lines_def s lan_tables_ip(1) net bind_res_simps o g by (rule exI) (rule refl)
qed

lemma box_service:
  assumes "a \<in> {''status'', ''start'', ''reload'', ''restart''}" "f [''/usr/sbin/service'', ''unbound'', a] (hs_world h) = Finished rc out []"
    and "stripped out" "out \<noteq> []"
  shows "\<exists>h1. service_action (du_exec (unbound_box f)) ''unbound'' a h = (h1, Inr \<lparr>op_ok = (rc = 0), op_message = out\<rparr>)
    \<and> hs_files h1 = hs_files h \<and> hs_world h1 = Suc (hs_world h)"
proof -
  have b: "build_command ''service.action'' [(''service_name'', PStr ''unbound''), (''action'', PStr a)]
    = Inr ([(''service_name'', ''unbound''), (''action'', a)], [''/usr/sbin/service'', ''unbound'', a])"
    using assms(1) by (elim insertE emptyE; simp only:; code_simp)
  have n: "strip (lower a) = a" "a \<in> set valid_actions" "a \<noteq> ''enable''" "a \<noteq> ''disable''"
    using assms(1) by (elim insertE emptyE; simp only:; code_simp)+
  show ?thesis
    using assms(2-4) n unfolding service_action_def Let_def n
    by (simp add: unbound_box_def Let_def priv_def run_privileged_def b run_command_def maybe_sudo_def command_answer_def both_streams_def
        strip_id)
qed

lemma box_sysrc:
  assumes "f [''/usr/sbin/sysrc'', ''unbound_enable=YES''] (hs_world h) = Finished rc out err"
  shows "\<exists>h1 r. sysrc_set (du_exec (unbound_box f)) ''unbound_enable'' ''YES'' h = (h1, Inr r)
    \<and> hs_files h1 = hs_files h \<and> hs_world h1 = Suc (hs_world h)"
proof -
  have b: "build_command ''sysrc.set'' [(''key'', PStr ''unbound_enable''), (''value'', PStr ''YES'')]
    = Inr ([(''key'', ''unbound_enable''), (''value'', ''YES'')], [''/usr/sbin/sysrc'', ''unbound_enable=YES''])"
    by code_simp
  show ?thesis
    using assms by (simp add: sysrc_set_def unbound_box_def Let_def priv_def run_privileged_def b run_command_def maybe_sudo_def command_answer_def)
qed

lemma box_listening:
  assumes "f [''sockstat'', ''-4'', ''-l''] (hs_world h) = Finished 0 out []"
  shows "\<exists>h1. unbound_listening_on_lan (unbound_box f) lan_tables h = (h1, Inr (listens_in ''192.168.1.1'' out))
    \<and> hs_files h1 = hs_files h \<and> hs_world h1 = Suc (hs_world h)"
  using assms by (simp add: unbound_listening_on_lan_def lan_tables_ip command_def run_command_def unbound_box_def Let_def)

lemma box_apply:
  assumes "generate_unbound_conf (unbound_box f) db = Inr conf" "text_at unbound_path h = Some old"
  shows "\<exists>h2. apply_unbound (unbound_box f) db h = start_unbound (unbound_box f) db conf h2 \<and> hs_world h2 = hs_world h
    \<and> text_at unbound_path h2 = Some conf \<and> text_at unbound_known_good h2 = Some old"
proof -
  let ?u = "unbound_box f"
  obtain h1 where 1: "save_known_good_unbound ?u h = (h1, Inr True)" "text_at unbound_known_good h1 = Some old"
    using save_text[OF box_ok(1) assms(2)] by blast
  have w1: "hs_world h1 = hs_world h"
    using 1(1) by (auto simp: save_known_good_unbound_def split: if_splits prod.splits option.splits)
  obtain h2 where 2: "write_host (du_write ?u) unbound_path conf h1 = (h2, Inr ())" "text_at unbound_path h2 = Some conf"
    "text_at unbound_known_good h2 = Some old"
    using write_conf_text[OF box_ok(1)[of f], of conf h1] 1(2) by auto
  have w2: "hs_world h2 = hs_world h1" using 2(1) by (auto simp: write_host_def split: prod.splits)
  have v: "validate_unbound_conf ?u conf h = (h, True, ''skipped-unbound-checkconf-not-found'')"
    by (simp add: validate_unbound_conf_def unbound_box_def Let_def)
  have "apply_unbound ?u db h = start_unbound ?u db conf h2"
    using box_ok(3)[of f] by (simp add: apply_unbound_def assms(1) v install_unbound_def 1(1) 2(1))
  then show ?thesis using 2(2,3) w1 w2 by (intro exI[of _ h2]) simp
qed

definition serves :: "string list \<Rightarrow> nat \<Rightarrow> exec_result" where
  "serves c w = Finished 0 (if hd c = ''sockstat'' then ''unbound 7 *:53'' else ''unbound is running'') []"

text \<open>A daemon that never comes up; its seventh command fails.\<close>

definition flaky :: "string list \<Rightarrow> nat \<Rightarrow> exec_result" where
  "flaky c w = Finished (if last c = ''status'' \<or> w = 6 then 1 else 0) ''down'' []"

definition unbound_host :: "nat host" where
  "unbound_host = \<lparr>hs_files = [unbound_path \<mapsto> \<lparr>f_content = ''old'', f_mode = 420\<rparr>], hs_audit = [], hs_world = 0\<rparr>"

lemma box_texts: "stripped ''unbound is running''" "stripped ''down''" "contains ''is running'' (lower ''unbound is running'')"
  "contains ''running'' (lower ''unbound is running'')" "listens_in ''192.168.1.1'' ''unbound 7 *:53''"
proof -
  show "stripped ''unbound is running''" "stripped ''down''" "contains ''is running'' (lower ''unbound is running'')"
    "contains ''running'' (lower ''unbound is running'')" by code_simp+
  have "words_of ''unbound 7 *:53'' = [''unbound'', ''7'', ''*:53'']"
    by (simp add: words_of_def split_runs.simps char_class_defs)
  then show "listens_in ''192.168.1.1'' ''unbound 7 *:53''" by (simp add: listens_in_def is_linebreak_def code_def)
qed

lemma old_text: "text_at unbound_path unbound_host = Some ''old''"
  by (simp add: text_at_def unbound_host_def)

lemma lan_tables_generate: "\<exists>conf. generate_unbound_conf u lan_tables = Inr conf"
  using lan_tables_conf[of u] by (auto simp: generate_unbound_conf_def)

lemma generated_long:
  assumes "generate_unbound_conf u db = Inr conf"
  shows "conf \<noteq> ''old''"
proof -
  obtain ip ls where "conf = join nl (conf_start ip @ ls)"
    using assms by (auto simp: generate_unbound_conf_def unbound_lines_def bind_res_Inr)
  moreover have "\<exists>c cs l ls. conf_start ip = (c # cs) # l # ls \<and> c \<noteq> CHR ''o''"
    by (simp add: conf_start_def)
  ultimately show ?thesis by auto
qed

lemma serving_run: "\<exists>h' r. apply_unbound (unbound_box serves) lan_tables unbound_host = (h', Inr r) \<and> un_ok r"
proof -
  let ?u = "unbound_box serves" and ?e = "du_exec (unbound_box serves)"
  obtain conf where conf: "generate_unbound_conf ?u lan_tables = Inr conf" using lan_tables_generate by blast
  obtain h2 where 2: "apply_unbound ?u lan_tables unbound_host = start_unbound ?u lan_tables conf h2"
    using box_apply[OF conf old_text] by blast
  obtain h3 r3 where 3: "sysrc_set ?e ''unbound_enable'' ''YES'' h2 = (h3, Inr r3)"
    using box_sysrc[of serves h2] by (auto simp: serves_def)
  have svc: "\<exists>g. service_action ?e ''unbound'' a h = (g, Inr \<lparr>op_ok = True, op_message = ''unbound is running''\<rparr>)"
    if "a \<in> {''status'', ''start'', ''reload'', ''restart''}" for a h
    using box_service[OF that, of serves h 0 "''unbound is running''"] box_texts(1) by (auto simp: serves_def)
  obtain h4 where 4: "service_action ?e ''unbound'' ''status'' h3 = (h4, Inr \<lparr>op_ok = True, op_message = ''unbound is running''\<rparr>)"
    using svc by blast
  obtain h5 where 5: "service_action ?e ''unbound'' ''reload'' h4 = (h5, Inr \<lparr>op_ok = True, op_message = ''unbound is running''\<rparr>)"
    using svc by blast
  have q: "start_or_reload_unbound ?u h3 = (h5, Inr \<lparr>op_ok = True, op_message = ''unbound is running''\<rparr>)"
    unfolding start_or_reload_unbound_def unbound_is_running_def 4 using 5 box_texts(3) by simp
  obtain h6 where 6: "service_action ?e ''unbound'' ''status'' h5 = (h6, Inr \<lparr>op_ok = True, op_message = ''unbound is running''\<rparr>)"
    using svc by blast
  have st: "get_unbound_status ?u h5 = (h6, Inr (True, ''running'', ''unbound is running''))"
    unfolding get_unbound_status_def 6 using box_ok(3)[of serves] box_texts(4) by simp
  obtain h7 where 7: "unbound_listening_on_lan ?u lan_tables h6 = (h7, Inr True)"
    using box_listening[of serves h6 "''unbound 7 *:53''"] box_texts(5) by (auto simp: serves_def)
  have "start_unbound ?u lan_tables conf h2 = (h7, Inr (dns_answer True ''unbound is running'' conf (Some False)))"
    using box_ok(4)[of serves] by (simp add: start_unbound_def 3 q verify_unbound_def st lan_tables_ip(1) 7)
  then show ?thesis unfolding 2 by (simp add: dns_answer_def)
qed

lemma dns_apply_outcome_witness:
  "\<exists>h' r conf. apply_unbound (unbound_box serves) lan_tables unbound_host = (h', Inr r) \<and> un_ok r \<and> text_at unbound_path h' = Some conf"
proof -
  obtain h' r where r: "apply_unbound (unbound_box serves) lan_tables unbound_host = (h', Inr r)" "un_ok r" using serving_run by blast
  obtain conf where conf: "generate_unbound_conf (unbound_box serves) lan_tables = Inr conf" using lan_tables_generate by blast
  from dns_apply_outcome[OF box_ok(1-3) conf old_text r(1)] r show ?thesis by blast
qed

lemma dns_apply_ok_serves_witness:
  "\<exists>g h'. unbound_listening_on_lan (unbound_box serves) lan_tables g = (h', Inr True)"
proof -
  obtain h' r where r: "apply_unbound (unbound_box serves) lan_tables unbound_host = (h', Inr r)" "un_ok r" using serving_run by blast
  from dns_apply_ok_serves[OF r box_ok(3,4) lan_tables_ip(1)] show ?thesis by auto
qed

lemma flaky_start:
  assumes "hs_world h \<noteq> 6" "hs_world h \<noteq> 5" "hs_world h \<noteq> 4"
  shows "\<exists>h' q. start_or_reload_unbound (unbound_box flaky) h = (h', Inr q) \<and> op_ok q \<and> hs_files h' = hs_files h \<and> hs_world h' = hs_world h + 2"
    and "hs_world g = 5 \<Longrightarrow> \<exists>h' q. start_or_reload_unbound (unbound_box flaky) g = (h', Inr q) \<and> \<not> op_ok q \<and> hs_files h' = hs_files g \<and> hs_world h' = 7"
proof -
  let ?e = "du_exec (unbound_box flaky)"
  have status: "\<exists>h1. service_action ?e ''unbound'' ''status'' h = (h1, Inr \<lparr>op_ok = False, op_message = ''down''\<rparr>)
      \<and> hs_files h1 = hs_files h \<and> hs_world h1 = Suc (hs_world h)" for h
    using box_service[of "''status''" flaky h 1 "''down''"] box_texts(2) by (auto simp: flaky_def)
  have start: "\<exists>h1. service_action ?e ''unbound'' ''start'' h = (h1, Inr \<lparr>op_ok = (hs_world h \<noteq> 6), op_message = ''down''\<rparr>)
      \<and> hs_files h1 = hs_files h \<and> hs_world h1 = Suc (hs_world h)" for h
    using box_service[of "''start''" flaky h "if hs_world h = 6 then 1 else 0" "''down''"] box_texts(2) by (auto simp: flaky_def)
  have go: "\<exists>h'. start_or_reload_unbound (unbound_box flaky) h = (h', Inr \<lparr>op_ok = (hs_world h \<noteq> 5), op_message = ''down''\<rparr>)
      \<and> hs_files h' = hs_files h \<and> hs_world h' = hs_world h + 2" for h
  proof -
    obtain h1 where 1: "service_action ?e ''unbound'' ''status'' h = (h1, Inr \<lparr>op_ok = False, op_message = ''down''\<rparr>)"
      "hs_files h1 = hs_files h" "hs_world h1 = Suc (hs_world h)" using status by blast
    obtain h2 where 2: "service_action ?e ''unbound'' ''start'' h1 = (h2, Inr \<lparr>op_ok = (hs_world h1 \<noteq> 6), op_message = ''down''\<rparr>)"
      "hs_files h2 = hs_files h1" "hs_world h2 = Suc (hs_world h1)" using start by blast
    show ?thesis unfolding start_or_reload_unbound_def unbound_is_running_def 1(1) using 1 2 by simp
  qed
  show "\<exists>h' q. start_or_reload_unbound (unbound_box flaky) h = (h', Inr q) \<and> op_ok q \<and> hs_files h' = hs_files h \<and> hs_world h' = hs_world h + 2"
    using go[of h] assms by fastforce
  show "hs_world g = 5 \<Longrightarrow> \<exists>h' q. start_or_reload_unbound (unbound_box flaky) g = (h', Inr q) \<and> \<not> op_ok q \<and> hs_files h' = hs_files g \<and> hs_world h' = 7"
    using go[of g] by fastforce
qed

lemma flaky_sysrc: "\<exists>h1 r. sysrc_set (du_exec (unbound_box flaky)) ''unbound_enable'' ''YES'' h = (h1, Inr r)
    \<and> hs_files h1 = hs_files h \<and> hs_world h1 = Suc (hs_world h)"
  by (rule box_sysrc[of flaky h "if hs_world h = 6 then 1 else 0" "''down''" "[]"]) (simp add: flaky_def)

text \<open>The first apply leaves its text and a dead daemon.\<close>

lemma flaky_first:
  assumes "generate_unbound_conf (unbound_box flaky) lan_tables = Inr conf"
  shows "\<exists>h' r. apply_unbound (unbound_box flaky) lan_tables unbound_host = (h', Inr r) \<and> \<not> un_ok r \<and> text_at unbound_path h' = Some conf
    \<and> hs_world h' = 4"
proof -
  let ?u = "unbound_box flaky" and ?e = "du_exec (unbound_box flaky)"
  obtain h2 where 2: "apply_unbound ?u lan_tables unbound_host = start_unbound ?u lan_tables conf h2" "hs_world h2 = 0"
    "text_at unbound_path h2 = Some conf"
    using box_apply[OF assms old_text] by (auto simp: unbound_host_def)
  obtain h3 r3 where 3: "sysrc_set ?e ''unbound_enable'' ''YES'' h2 = (h3, Inr r3)" "hs_files h3 = hs_files h2" "hs_world h3 = 1"
    using flaky_sysrc[of h2] 2(2) by auto
  obtain h4 q where 4: "start_or_reload_unbound ?u h3 = (h4, Inr q)" "op_ok q" "hs_files h4 = hs_files h3" "hs_world h4 = 3"
    using flaky_start(1)[of h3] 3(3) by auto
  obtain h5 where 5: "service_action ?e ''unbound'' ''status'' h4 = (h5, Inr \<lparr>op_ok = False, op_message = ''down''\<rparr>)"
      "hs_files h5 = hs_files h4" "hs_world h5 = 4"
    using box_service[of "''status''" flaky h4 1 "''down''"] box_texts(2) 4(4) by (auto simp: flaky_def)
  have st: "get_unbound_status ?u h4 = (h5, Inr (False, ''stopped'', ''down''))"
    unfolding get_unbound_status_def 5(1) using box_ok(3)[of flaky] by simp
  have "\<exists>r. start_unbound ?u lan_tables conf h2 = (h5, Inr r) \<and> \<not> un_ok r"
    unfolding start_unbound_def 3(1) 4(1) prod.case sum.case verify_unbound_def st using box_ok(4)[of flaky] 4(2) by (simp add: dns_answer_def)
  then show ?thesis unfolding 2(1) using 2(3) 3(2) 4(3) 5(2,3) by (auto simp: text_at_def)
qed

lemma flaky_second:
  assumes "generate_unbound_conf (unbound_box flaky) lan_tables = Inr conf" "text_at unbound_path h = Some bad" "hs_world h = 4"
  shows "\<exists>h' r. apply_unbound (unbound_box flaky) lan_tables h = (h', Inr r) \<and> un_rolled_back r = Some True"
proof -
  let ?u = "unbound_box flaky" and ?e = "du_exec (unbound_box flaky)"
  obtain h2 where 2: "apply_unbound ?u lan_tables h = start_unbound ?u lan_tables conf h2" "hs_world h2 = 4"
    "text_at unbound_known_good h2 = Some bad"
    using box_apply[OF assms(1,2)] assms(3) by auto
  obtain h3 r3 where 3: "sysrc_set ?e ''unbound_enable'' ''YES'' h2 = (h3, Inr r3)" "hs_files h3 = hs_files h2" "hs_world h3 = 5"
    using flaky_sysrc[of h2] 2(2) by auto
  obtain h4 q where 4: "start_or_reload_unbound ?u h3 = (h4, Inr q)" "\<not> op_ok q" "hs_files h4 = hs_files h3" "hs_world h4 = 7"
    using flaky_start(2)[of unbound_host h3] 3(3) by (auto simp: unbound_host_def)
  obtain f where f: "hs_files h4 unbound_known_good = Some f" using 2(3) 3(2) 4(3) by (auto simp: text_at_def)
  define h5 where "h5 = h4\<lparr>hs_files := write_text unbound_path (f_content f) (hs_files h4)\<rparr>"
  obtain h6 p where 6: "start_or_reload_unbound ?u h5 = (h6, Inr p)" "op_ok p"
    using flaky_start(1)[of h5] 4(4) by (auto simp: h5_def)
  have "copy_text (du_back ?u) unbound_known_good unbound_path (hs_files h4) = (hs_files h5, None)"
    using f by (simp add: copy_text_def unbound_box_def Let_def h5_def)
  then have "rollback_unbound ?u h4 = (h6, Inr (ok_result ''Rolled back to last known-good unbound.conf.''))"
    using f 6 by (simp add: rollback_unbound_def h5_def)
  then show ?thesis unfolding 2(1) start_unbound_def 3(1) prod.case sum.case 4(1) using 4(2) by (simp add: rolled_back_answer_def dns_answer_def ok_result_def)
qed

lemma failed_conf_becomes_known_good_witness:
  "\<exists>h1 r1 h2 r2 conf. apply_unbound (unbound_box flaky) lan_tables unbound_host = (h1, Inr r1) \<and> text_at unbound_known_good h1 = Some ''old''
     \<and> apply_unbound (unbound_box flaky) lan_tables h1 = (h2, Inr r2) \<and> un_rolled_back r2 = Some True
     \<and> generate_unbound_conf (unbound_box flaky) lan_tables = Inr conf \<and> text_at unbound_known_good h2 = Some conf"
proof -
  obtain conf where conf: "generate_unbound_conf (unbound_box flaky) lan_tables = Inr conf" using lan_tables_generate by blast
  obtain h1 r1 where 1: "apply_unbound (unbound_box flaky) lan_tables unbound_host = (h1, Inr r1)" "\<not> un_ok r1"
    "text_at unbound_path h1 = Some conf" "hs_world h1 = 4"
    using flaky_first[OF conf] by blast
  obtain h2 r2 where 2: "apply_unbound (unbound_box flaky) lan_tables h1 = (h2, Inr r2)" "un_rolled_back r2 = Some True"
    using flaky_second[OF conf 1(3,4)] by blast
  from failed_conf_becomes_known_good[OF box_ok(1-3) old_text generated_long[OF conf] conf 1(1-3) conf 2] 1 2 conf show ?thesis by blast
qed

lemma system_resolver_counts_as_serving_witness:
  "\<exists>h1. unbound_serving_lan (unbound_box serves) lan_tables unbound_host = (h1, Inr True)"
proof -
  obtain h1 where 1: "unbound_listening_on_lan (unbound_box serves) lan_tables unbound_host = (h1, Inr True)"
    using box_listening[of serves unbound_host "''unbound 7 *:53''"] box_texts(5) by (auto simp: serves_def)
  have "by_drill (unbound_box serves) ''example.com'' ''192.168.1.1'' h1 = (h1, None)" "\<not> du_dig (unbound_box serves)"
    "du_resolve (unbound_box serves) ''example.com'' = Inr (''10.0.0.1'' # [])"
    by (simp_all add: by_drill_def unbound_box_def Let_def)
  from system_resolver_counts_as_serving[OF box_ok(3) 1 lan_tables_ip(1) this] show ?thesis by blast
qed

lemma base_resolver_not_stopped_witness:
  "\<forall>h. disable_base_local_unbound (unbound_box serves) h = fst (sysrc_set (du_exec (unbound_box serves)) ''local_unbound_enable'' ''NO'' h)"
  using base_resolver_not_stopped[OF box_ok(3)] by blast

lemma doh_domain_declared_twice_witness:
  "\<exists>ls. unbound_lines (unbound_box serves) lan_tables = Inr ls \<and> 2 \<le> length (filter (names_zone ''dns.google'') ls)"
proof -
  obtain ls where ls: "unbound_lines (unbound_box serves) lan_tables = Inr ls" using lan_tables_conf by blast
  have "proper_domain ''dns.google''" by (simp add: proper_domain_def proper_label_def lower_alnum_def char_class_defs)
  then have n: "normalize_domain ''dns.google'' = ''dns.google''" by (rule normalize_domain_proper)
  have "''dns.google'' \<in> dom (map_of (build_domain_policy_map lan_tables))"
    by (simp add: build_domain_policy_map_def lan_tables_def no_tables_def rows_of_def n consider_policy_def dom_def Let_def)
  moreover have "has_active_content_policy lan_tables = Inr True" "doh_blocking_enabled lan_tables"
    by (simp_all add: has_active_content_policy_def is_enforcing_def enforcing_action_def doh_blocking_enabled_def lan_tables_def no_tables_def)
  moreover have "''dns.google'' \<in> set doh_provider_domains" by (simp add: doh_provider_domains_def)
  ultimately show ?thesis using doh_domain_declared_twice[OF ls] ls by blast
qed

end
