(* ===== verification/SqliteSchema.thy ===== *)
theory SqliteSchema
  imports PyValue
begin

text \<open>
  What \<^verbatim>\<open>database.py\<close> and \<^verbatim>\<open>migrations.py\<close> use of SQLite and of Python's \<open>sqlite3\<close>: the statements that
  define tables, columns and indexes, and the connection with its implicit transactions.

  A statement that writes rows is its SQL text with its parameters; what it does to the rows
  and how many it changed are arguments, like the answers of queries and the reasons SQLite may have to refuse a statement
  (a full disk, a locked file, a violated constraint).  The rules for the schema are those of
  SQLite's documentation.  \<open>sqlite3\<close> opens a transaction before an INSERT, UPDATE or DELETE only: every
  other statement outside of a transaction is committed at once.
\<close>

section \<open>Statements\<close>

datatype ctype = Integer_type | Text_type | Real_type | Timestamp_type

datatype column_con =
    PrimaryKey bool
  | NotNull
  | UniqueCol
  | Default string
  | DefaultText string
  | CheckCol string
  | References string string

datatype column = Column (cl_name: string) (cl_type: ctype) (cl_cons: "column_con list")

datatype table_con =
    PrimaryKeyOf "string list"
  | UniqueOf "string list"
  | ForeignKey string string string string

text \<open>
  All \<open>CREATE\<close> statements of the program say \<open>IF NOT EXISTS\<close>.  A statement that writes is given with the tables and columns
  it names, and with its text.
\<close>

datatype stmt =
    CreateTable string "column list" "table_con list"
  | CreateIndex bool string string "string list" string
  | AddColumn string column
  | RenameColumn string string string
  | CreateVirtual string "string list"
  | CreateTrigger string string string
  | Write "(string \<times> string list) list" string "pyval list"
  | InsertVersion bool nat

definition is_write :: "stmt \<Rightarrow> bool" where
  "is_write s = (case s of Write uses sql ps \<Rightarrow> True | InsertVersion ign v \<Rightarrow> True | _ \<Rightarrow> False)"

section \<open>The database\<close>

record 'd db =
  sd_tables :: "(string \<times> string list) list"
  sd_indexes :: "string list"
  sd_triggers :: "string list"
  sd_versions :: "nat list"
  sd_data :: 'd

record 'd sqlite =
  sq_write :: "string \<Rightarrow> pyval list \<Rightarrow> 'd \<Rightarrow> 'd"
  sq_changed :: "string \<Rightarrow> pyval list \<Rightarrow> 'd \<Rightarrow> nat"
  sq_rows :: "string \<Rightarrow> 'd \<Rightarrow> pyval list list"
  sq_refuses :: "stmt \<Rightarrow> 'd db \<Rightarrow> string option"
  sq_fts5 :: bool

definition has_table :: "string \<Rightarrow> 'd db \<Rightarrow> bool" where
  "has_table t d \<longleftrightarrow> map_of (sd_tables d) t \<noteq> None"

text \<open>\<open>PRAGMA table_info\<close>: no rows for a table that does not exist.\<close>

definition columns_of :: "string \<Rightarrow> 'd db \<Rightarrow> string list" where
  "columns_of t d = (case map_of (sd_tables d) t of None \<Rightarrow> [] | Some cs \<Rightarrow> cs)"

definition set_columns :: "string \<Rightarrow> (string list \<Rightarrow> string list) \<Rightarrow> 'd db \<Rightarrow> 'd db" where
  "set_columns t f d = d\<lparr>sd_tables := map (\<lambda>(n, cs). (n, if n = t then f cs else cs)) (sd_tables d)\<rparr>"

definition no_such_table :: "string \<Rightarrow> pyexn" where
  "no_such_table t = OperationalError (''no such table: '' @ t)"

definition no_such_column :: "string \<Rightarrow> pyexn" where
  "no_such_column c = OperationalError (''no such column: '' @ c)"

definition duplicate_column :: "string \<Rightarrow> pyexn" where
  "duplicate_column c = OperationalError (''duplicate column name: '' @ c)"

definition missing :: "string list \<Rightarrow> string list \<Rightarrow> string option" where
  "missing cs have = List.find (\<lambda>c. c \<notin> set have) cs"

fun unknown_use :: "(string \<times> string list) list \<Rightarrow> 'd db \<Rightarrow> pyexn option" where
  "unknown_use [] d = None"
| "unknown_use ((t, cs) # us) d =
     (if \<not> has_table t d then Some (no_such_table t)
      else case missing cs (columns_of t d) of Some c \<Rightarrow> Some (no_such_column c) | None \<Rightarrow> unknown_use us d)"

text \<open>
  A column can be added when it has no key and no unique constraint, when its default is a constant, and when
  it has a default that is not NULL if it must not be NULL.
\<close>

fun default_of :: "column_con list \<Rightarrow> string" where
  "default_of [] = ''NULL''"
| "default_of (Default e # ks) = e"
| "default_of (DefaultText e # ks) = ''a text''"
| "default_of (k # ks) = default_of ks"

definition addable :: "column \<Rightarrow> string option" where
  "addable c =
     (let ks = cl_cons c in
      if PrimaryKey True \<in> set ks \<or> PrimaryKey False \<in> set ks then Some ''Cannot add a PRIMARY KEY column''
      else if UniqueCol \<in> set ks then Some ''Cannot add a UNIQUE column''
      else if NotNull \<in> set ks \<and> default_of ks = ''NULL'' then Some ''Cannot add a NOT NULL column with default value NULL''
      else if default_of ks = ''CURRENT_TIMESTAMP'' then Some ''Cannot add a column with non-constant default''
      else None)"

fun apply_stmt :: "'d sqlite \<Rightarrow> stmt \<Rightarrow> 'd db \<Rightarrow> 'd db res" where
  "apply_stmt q (CreateTable t cs ks) d =
     (if has_table t d then Inr d
      else if distinct (map cl_name cs) then Inr (d\<lparr>sd_tables := sd_tables d @ [(t, map cl_name cs)]\<rparr>)
      else Inl (OperationalError ''duplicate column name''))"
| "apply_stmt q (CreateIndex u i t cs w) d =
     (if \<not> has_table t d then Inl (no_such_table (''main.'' @ t))
      else if i \<in> set (sd_indexes d) then Inr d
      else case missing cs (columns_of t d) of
             Some c \<Rightarrow> Inl (no_such_column c)
           | None \<Rightarrow> Inr (d\<lparr>sd_indexes := i # sd_indexes d\<rparr>))"
| "apply_stmt q (AddColumn t c) d =
     (if \<not> has_table t d then Inl (no_such_table t)
      else if cl_name c \<in> set (columns_of t d) then Inl (duplicate_column (cl_name c))
      else case addable c of
             Some m \<Rightarrow> Inl (OperationalError m)
           | None \<Rightarrow> Inr (set_columns t (\<lambda>cs. cs @ [cl_name c]) d))"
| "apply_stmt q (RenameColumn t c c') d =
     (if \<not> has_table t d then Inl (no_such_table t)
      else if c \<notin> set (columns_of t d) then Inl (no_such_column c)
      else if c' \<in> set (columns_of t d) then Inl (duplicate_column c')
      else Inr (set_columns t (map (\<lambda>x. if x = c then c' else x)) d))"
| "apply_stmt q (CreateVirtual t cs) d =
     (if has_table t d then Inr d
      else if sq_fts5 q then Inr (d\<lparr>sd_tables := sd_tables d @ [(t, cs)]\<rparr>)
      else Inl (OperationalError ''no such module: fts5''))"
| "apply_stmt q (CreateTrigger r t body) d =
     (if \<not> has_table t d then Inl (no_such_table (''main.'' @ t))
      else if r \<in> set (sd_triggers d) then Inr d
      else Inr (d\<lparr>sd_triggers := r # sd_triggers d\<rparr>))"
| "apply_stmt q (Write uses sql ps) d =
     (case unknown_use uses d of Some e \<Rightarrow> Inl e | None \<Rightarrow> Inr (d\<lparr>sd_data := sq_write q sql ps (sd_data d)\<rparr>))"
| "apply_stmt q (InsertVersion ign v) d =
     (if \<not> has_table ''schema_version'' d then Inl (no_such_table ''schema_version'')
      else if v \<in> set (sd_versions d)
      then (if ign then Inr d else Inl (IntegrityError ''UNIQUE constraint failed: schema_version.version''))
      else Inr (d\<lparr>sd_versions := v # sd_versions d\<rparr>))"

definition exec_stmt :: "'d sqlite \<Rightarrow> stmt \<Rightarrow> 'd db \<Rightarrow> 'd db res" where
  "exec_stmt q s d = (case sq_refuses q s d of Some m \<Rightarrow> Inl (OperationalError m) | None \<Rightarrow> apply_stmt q s d)"

section \<open>The connection\<close>

text \<open>\<open>cn_saved\<close> is the database at the start of the open transaction.\<close>

record 'd conn =
  cn_db :: "'d db"
  cn_saved :: "'d db option"

type_synonym 'd op = "'d conn \<Rightarrow> 'd conn \<times> unit res"

definition begin_write :: "stmt \<Rightarrow> 'd conn \<Rightarrow> 'd conn" where
  "begin_write s c = (if is_write s \<and> cn_saved c = None then c\<lparr>cn_saved := Some (cn_db c)\<rparr> else c)"

definition execute :: "'d sqlite \<Rightarrow> stmt \<Rightarrow> 'd op" where
  "execute q s c =
     (let c1 = begin_write s c in
      case exec_stmt q s (cn_db c1) of Inl e \<Rightarrow> (c1, Inl e) | Inr d \<Rightarrow> (c1\<lparr>cn_db := d\<rparr>, Inr ()))"

definition commit :: "'d conn \<Rightarrow> 'd conn" where
  "commit c = c\<lparr>cn_saved := None\<rparr>"

definition rollback :: "'d conn \<Rightarrow> 'd conn" where
  "rollback c = (case cn_saved c of None \<Rightarrow> c | Some d \<Rightarrow> \<lparr>cn_db = d, cn_saved = None\<rparr>)"

fun seq_ops :: "'d op list \<Rightarrow> 'd op" where
  "seq_ops [] c = (c, Inr ())"
| "seq_ops (f # fs) c = (case f c of (c1, Inl e) \<Rightarrow> (c1, Inl e) | (c1, Inr u) \<Rightarrow> seq_ops fs c1)"

text \<open>\<open>executescript\<close> commits first and then runs the statements without opening a transaction.\<close>

fun run_script :: "'d sqlite \<Rightarrow> stmt list \<Rightarrow> 'd op" where
  "run_script q [] c = (c, Inr ())"
| "run_script q (s # ss) c =
     (case exec_stmt q s (cn_db c) of Inl e \<Rightarrow> (c, Inl e) | Inr d \<Rightarrow> run_script q ss (c\<lparr>cn_db := d\<rparr>))"

definition executescript :: "'d sqlite \<Rightarrow> stmt list \<Rightarrow> 'd op" where
  "executescript q ss c = run_script q ss (commit c)"

text \<open>\<open>try: ... except Exception: pass\<close>.\<close>

definition quietly :: "'d op \<Rightarrow> 'd op" where
  "quietly f c = (fst (f c), Inr ())"

definition commit_op :: "'d op" where
  "commit_op c = (commit c, Inr ())"

text \<open>The guards on \<open>PRAGMA table_info\<close>: the second one also wants the table to exist.\<close>

definition unless_column :: "string \<Rightarrow> string \<Rightarrow> 'd op \<Rightarrow> 'd op" where
  "unless_column t k f c = (if k \<in> set (columns_of t (cn_db c)) then (c, Inr ()) else f c)"

definition where_lacking :: "string \<Rightarrow> string \<Rightarrow> 'd op \<Rightarrow> 'd op" where
  "where_lacking t k f c =
     (if columns_of t (cn_db c) \<noteq> [] \<and> k \<notin> set (columns_of t (cn_db c)) then f c else (c, Inr ()))"

definition if_column :: "string \<Rightarrow> string \<Rightarrow> 'd op \<Rightarrow> 'd op" where
  "if_column t k f c = (if k \<in> set (columns_of t (cn_db c)) then f c else (c, Inr ()))"

definition select :: "'d sqlite \<Rightarrow> (string \<times> string list) list \<Rightarrow> string \<Rightarrow> 'd conn \<Rightarrow> pyval list list res" where
  "select q uses sql c =
     (case unknown_use uses (cn_db c) of Some e \<Rightarrow> Inl e | None \<Rightarrow> Inr (sq_rows q sql (sd_data (cn_db c))))"

text \<open>\<open>SELECT COUNT(*)\<close>, and the operation when the count is zero.\<close>

definition if_none :: "'d sqlite \<Rightarrow> (string \<times> string list) list \<Rightarrow> string \<Rightarrow> 'd op \<Rightarrow> 'd op" where
  "if_none q uses sql f c =
     (case select q uses sql c of Inl e \<Rightarrow> (c, Inl e) | Inr rs \<Rightarrow> if rs = [[PInt 0]] then f c else (c, Inr ()))"

text \<open>\<open>try: f except Exception: g\<close>.\<close>

definition or_else :: "'d op \<Rightarrow> 'd op \<Rightarrow> 'd op" where
  "or_else f g c = (case f c of (c1, Inl e) \<Rightarrow> g c1 | (c1, Inr u) \<Rightarrow> (c1, Inr ()))"

section \<open>What every operation keeps\<close>

text \<open>What a rollback would leave.\<close>

definition durable :: "'d conn \<Rightarrow> 'd db" where
  "durable c = (case cn_saved c of None \<Rightarrow> cn_db c | Some d \<Rightarrow> d)"

text \<open>
  An operation conforms to a relation of databases when it keeps the transaction of the connection in it and moves
  the database, and what a rollback would leave of it, along it.
\<close>

definition reaches :: "('d db \<Rightarrow> 'd db \<Rightarrow> bool) \<Rightarrow> 'd conn \<Rightarrow> 'd conn \<Rightarrow> bool" where
  "reaches R c c' \<longleftrightarrow> R (durable c') (cn_db c') \<and> R (durable c) (durable c') \<and> R (cn_db c) (cn_db c')"

definition conforms :: "('d db \<Rightarrow> 'd db \<Rightarrow> bool) \<Rightarrow> 'd op \<Rightarrow> bool" where
  "conforms R f \<longleftrightarrow> (\<forall>c. R (durable c) (cn_db c) \<longrightarrow> reaches R c (fst (f c)))"

named_theorems conforms_intros \<open>operations that conform to a relation of databases\<close>

lemma begin_write_db [simp]: "cn_db (begin_write s c) = cn_db c"
  by (simp add: begin_write_def)

lemma durable_begin [simp]: "durable (begin_write s c) = durable c"
  by (simp add: begin_write_def durable_def split: option.split)

lemma commit_simps [simp]: "cn_db (commit c) = cn_db c" "cn_saved (commit c) = None" "durable (commit c) = cn_db c"
  by (simp_all add: commit_def durable_def)

lemma rollback_simps [simp]: "cn_db (rollback c) = durable c" "cn_saved (rollback c) = None" "durable (rollback c) = durable c"
  by (simp_all add: rollback_def durable_def split: option.split)

text \<open>The contract: a preorder that the statements of a class follow, and that says nothing of the rows.\<close>

locale schema_order =
  fixes R :: "'d db \<Rightarrow> 'd db \<Rightarrow> bool"
    and ok :: "stmt \<Rightarrow> bool"
  assumes refl: "R d d"
    and trans: "R d d1 \<Longrightarrow> R d1 d2 \<Longrightarrow> R d d2"
    and stmt: "apply_stmt q s d = Inr d' \<Longrightarrow> ok s \<Longrightarrow> R d d'"
    and data: "R d (d\<lparr>sd_data := x\<rparr>)"
begin

lemma exec: "exec_stmt q s d = Inr d' \<Longrightarrow> ok s \<Longrightarrow> R d d'"
  by (auto simp: exec_stmt_def intro: stmt split: option.splits)

lemma reaches_refl: "R (durable c) (cn_db c) \<Longrightarrow> reaches R c c"
  by (simp add: reaches_def refl)

lemma reaches_trans: "reaches R c c1 \<Longrightarrow> reaches R c1 c2 \<Longrightarrow> reaches R c c2"
  by (auto simp: reaches_def intro: trans)

lemma reaches_step: "R (durable c) (cn_db c) \<Longrightarrow> R (cn_db c) d \<Longrightarrow> reaches R c (c\<lparr>cn_db := d\<rparr>)"
  by (auto simp: reaches_def durable_def refl intro: trans split: option.splits)

lemma reaches_begin: "R (durable c) (cn_db c) \<Longrightarrow> reaches R c (begin_write s c)"
  by (simp add: reaches_def refl)

lemma reaches_commit: "R (durable c) (cn_db c) \<Longrightarrow> reaches R c (commit c)"
  by (simp add: reaches_def refl)

lemma reaches_rollback: "reaches R c c1 \<Longrightarrow> R (durable c) (cn_db (rollback c1))"
  by (simp add: reaches_def)

lemma conformsI: "(\<And>c. R (durable c) (cn_db c) \<Longrightarrow> reaches R c (fst (f c))) \<Longrightarrow> conforms R f"
  by (simp add: conforms_def)

lemma conformsD: "conforms R f \<Longrightarrow> R (durable c) (cn_db c) \<Longrightarrow> reaches R c (fst (f c))"
  by (simp add: conforms_def)

lemma reachesD: "reaches R c c' \<Longrightarrow> R (durable c') (cn_db c')"
  by (simp add: reaches_def)

lemma execute [conforms_intros]:
  assumes "ok s"
  shows "conforms R (execute q s)"
proof (rule conformsI)
  fix c assume c: "R (durable c) (cn_db c)"
  note b = reaches_begin[OF c, of s]
  show "reaches R c (fst (execute q s c))"
  proof (cases "exec_stmt q s (cn_db c)")
    case (Inr d)
    have "reaches R (begin_write s c) ((begin_write s c)\<lparr>cn_db := d\<rparr>)"
      by (rule reaches_step[OF reachesD[OF b]]) (simp add: exec[OF Inr assms])
    then show ?thesis using b by (simp add: execute_def Let_def Inr reaches_trans)
  qed (simp add: execute_def Let_def b)
qed

lemma seq_Nil [conforms_intros]: "conforms R (seq_ops [])"
  by (simp add: conforms_def reaches_refl)

lemma seq_Cons [conforms_intros]:
  assumes f: "conforms R f" and fs: "conforms R (seq_ops fs)"
  shows "conforms R (seq_ops (f # fs))"
proof (rule conformsI)
  fix c assume c: "R (durable c) (cn_db c)"
  have r: "reaches R c (fst (f c))" by (rule conformsD[OF f c])
  then have "reaches R (fst (f c)) (fst (seq_ops fs (fst (f c))))" by (rule conformsD[OF fs reachesD])
  then show "reaches R c (fst (seq_ops (f # fs) c))"
    using r by (cases "f c") (auto intro: reaches_trans split: sum.split)
qed

lemma run_script: "list_all ok ss \<Longrightarrow> R (durable c) (cn_db c) \<Longrightarrow> reaches R c (fst (run_script q ss c))"
proof (induction ss arbitrary: c)
  case (Cons s ss)
  show ?case
  proof (cases "exec_stmt q s (cn_db c)")
    case (Inr d)
    have r: "reaches R c (c\<lparr>cn_db := d\<rparr>)"
      using Cons.prems exec[OF Inr] by (intro reaches_step) auto
    then show ?thesis using Cons.IH[OF _ reachesD[OF r]] Cons.prems by (simp add: Inr) (rule reaches_trans)
  qed (simp add: reaches_refl Cons.prems)
qed (simp add: reaches_refl)

lemma script [conforms_intros]: "list_all ok ss \<Longrightarrow> conforms R (executescript q ss)"
  by (rule conformsI) (simp add: executescript_def refl reaches_trans[OF reaches_commit run_script])

lemma guards [conforms_intros]:
  "conforms R f \<Longrightarrow> conforms R (quietly f)" "conforms R commit_op"
  "conforms R f \<Longrightarrow> conforms R (unless_column t k f)" "conforms R f \<Longrightarrow> conforms R (where_lacking t k f)"
  "conforms R f \<Longrightarrow> conforms R (if_column t k f)" "conforms R f \<Longrightarrow> conforms R (if_none q uses sql f)"
  by (auto simp: conforms_def quietly_def commit_op_def unless_column_def where_lacking_def if_column_def if_none_def
      reaches_refl reaches_commit split: sum.split)

lemma or_else [conforms_intros]:
  assumes f: "conforms R f" and g: "conforms R g"
  shows "conforms R (or_else f g)"
proof (rule conformsI)
  fix c assume c: "R (durable c) (cn_db c)"
  have r: "reaches R c (fst (f c))" by (rule conformsD[OF f c])
  then have "reaches R (fst (f c)) (fst (g (fst (f c))))" by (rule conformsD[OF g reachesD])
  then show "reaches R c (fst (or_else f g c))"
    using r by (cases "f c") (auto simp: or_else_def intro: reaches_trans split: sum.split)
qed

end

section \<open>The schema only grows, and versions are entered by one statement\<close>

lemma no_columns: "\<not> has_table t d \<Longrightarrow> columns_of t d = []"
  by (auto simp: columns_of_def has_table_def)

lemma map_of_set_columns: "map_of (sd_tables (set_columns t f d)) n = map_option (\<lambda>cs. if n = t then f cs else cs) (map_of (sd_tables d) n)"
proof -
  have "map_of (map (\<lambda>(n, cs). (n, if n = t then f cs else cs)) xs) n = map_option (\<lambda>cs. if n = t then f cs else cs) (map_of xs n)" for xs
    by (induction xs) auto
  then show ?thesis by (simp add: set_columns_def)
qed

lemma set_columns_simps [simp]:
  "has_table n (set_columns t f d) = has_table n d"
  "sd_indexes (set_columns t f d) = sd_indexes d" "sd_versions (set_columns t f d) = sd_versions d"
  "sd_triggers (set_columns t f d) = sd_triggers d" "sd_data (set_columns t f d) = sd_data d"
  by (simp_all add: has_table_def map_of_set_columns) (simp_all add: set_columns_def)

lemma columns_set_columns: "columns_of n (set_columns t f d) = (if n = t \<and> has_table t d then f (columns_of t d) else columns_of n d)"
  by (auto simp: columns_of_def has_table_def map_of_set_columns split: option.split)

lemma new_table_simps:
  assumes "\<not> has_table t d"
  shows "has_table n (d\<lparr>sd_tables := sd_tables d @ [(t, cs)]\<rparr>) \<longleftrightarrow> n = t \<or> has_table n d"
    "columns_of n (d\<lparr>sd_tables := sd_tables d @ [(t, cs)]\<rparr>) = (if n = t then cs else columns_of n d)"
  using assms by (auto simp: has_table_def columns_of_def map_add_def split: option.splits)

lemma other_fields [simp]:
  "has_table t (d\<lparr>sd_indexes := is\<rparr>) = has_table t d" "columns_of t (d\<lparr>sd_indexes := is\<rparr>) = columns_of t d"
  "has_table t (d\<lparr>sd_triggers := ts\<rparr>) = has_table t d" "columns_of t (d\<lparr>sd_triggers := ts\<rparr>) = columns_of t d"
  "has_table t (d\<lparr>sd_versions := vs\<rparr>) = has_table t d" "columns_of t (d\<lparr>sd_versions := vs\<rparr>) = columns_of t d"
  "has_table t (d\<lparr>sd_data := x\<rparr>) = has_table t d" "columns_of t (d\<lparr>sd_data := x\<rparr>) = columns_of t d"
  by (simp_all add: has_table_def columns_of_def)

text \<open>
  No table and no index is lost, and no column but the two that one migration renames: \<open>key_pem_enc\<close> and
  \<open>serial_number\<close> of the certificates.
\<close>

definition renamed :: "string \<Rightarrow> string set" where
  "renamed t = (if t = ''certificates'' then {''key_pem_enc'', ''serial_number''} else {})"

definition grown :: "'d db \<Rightarrow> 'd db \<Rightarrow> bool" where
  "grown d d' \<longleftrightarrow> (\<forall>t. (has_table t d \<longrightarrow> has_table t d') \<and> set (columns_of t d) \<subseteq> set (columns_of t d') \<union> renamed t)
     \<and> set (sd_indexes d) \<subseteq> set (sd_indexes d') \<and> set (sd_versions d) \<subseteq> set (sd_versions d')"

definition keeps_names :: "stmt \<Rightarrow> bool" where
  "keeps_names s = (case s of RenameColumn t c c' \<Rightarrow> c \<in> renamed t | _ \<Rightarrow> True)"

lemma grown_refl [simp]: "grown d d"
  by (simp add: grown_def)

lemma apply_stmt_grown: "apply_stmt q s d = Inr d' \<Longrightarrow> keeps_names s \<Longrightarrow> grown d d'"
  by (cases "(q, s, d)" rule: apply_stmt.cases)
     (auto simp: keeps_names_def grown_def new_table_simps no_columns columns_set_columns split: if_splits option.splits)

definition same_versions :: "'d db \<Rightarrow> 'd db \<Rightarrow> bool" where
  "same_versions d d' \<longleftrightarrow> sd_versions d' = sd_versions d"

definition leaves_versions :: "stmt \<Rightarrow> bool" where
  "leaves_versions s = (case s of InsertVersion ign v \<Rightarrow> False | _ \<Rightarrow> True)"

lemma apply_stmt_versions: "apply_stmt q s d = Inr d' \<Longrightarrow> leaves_versions s \<Longrightarrow> same_versions d d'"
  by (cases "(q, s, d)" rule: apply_stmt.cases) (auto simp: leaves_versions_def same_versions_def split: if_splits option.splits)

interpretation growth: schema_order grown keeps_names
  by unfold_locales (auto simp: apply_stmt_grown, auto simp: grown_def)

interpretation versions: schema_order same_versions leaves_versions
  by unfold_locales (auto simp: apply_stmt_versions, auto simp: same_versions_def)

end
