(* ===== verification/EventBackfill.thy ===== *)
theory EventBackfill
  imports PyJson
begin

text \<open>
  The data part of two migrations of \<^verbatim>\<open>migrations.py\<close>: the audit log that migration 22 copies into the table
  \<open>events\<close>, and the identifiers and normalised columns migration 34 gives its rows, in batches.

  \<open>loads\<close> is \<open>json.loads\<close>, \<open>None\<close> when it raises.  \<open>uuid\<close> gives the random number of the identifier of a row.
\<close>

section \<open>Rows\<close>

record ev_row =
  ev_id :: nat
  ev_uuid :: "string option"
  ev_details :: "string option"
  ev_norm :: "(string \<times> pyval) list"

definition norm_cell :: "string \<Rightarrow> ev_row \<Rightarrow> pyval" where
  "norm_cell k r = (case map_of (ev_norm r) k of None \<Rightarrow> PNone | Some v \<Rightarrow> v)"

text \<open>\<open>uuid4().hex\<close> has 32 digits.\<close>

primrec hex_digits :: "nat \<Rightarrow> nat \<Rightarrow> string" where
  "hex_digits 0 n = []"
| "hex_digits (Suc k) n = hex_digits k (n div 16) @ [hex_digit (n mod 16)]"

definition uuid_hex :: "nat \<Rightarrow> string" where
  "uuid_hex n = hex_digits 32 n"

lemma length_hex_digits [simp]: "length (hex_digits k n) = k"
  by (induction k arbitrary: n) auto

lemma uuid_hex_nonempty [simp]: "uuid_hex n \<noteq> []"
  using length_hex_digits[of 32 n] by (auto simp: uuid_hex_def simp del: length_hex_digits)

section \<open>The audit log of migration 22\<close>

fun collect_res :: "('a \<Rightarrow> 'b res) \<Rightarrow> 'a list \<Rightarrow> 'b list res" where
  "collect_res f [] = Inr []"
| "collect_res f (x # xs) = bind_res (f x) (\<lambda>y. bind_res (collect_res f xs) (\<lambda>ys. Inr (y # ys)))"

definition get_or :: "pyval \<Rightarrow> string \<Rightarrow> pyval \<Rightarrow> pyval res" where
  "get_or d k v = bind_res (get_attr d k) (\<lambda>x. Inr (case x of None \<Rightarrow> v | Some y \<Rightarrow> y))"

definition audit_row :: "pyval \<Rightarrow> pyval list res" where
  "audit_row e =
     bind_res
       (collect_res (\<lambda>(k, v). get_or e k v)
         [(''timestamp'', PStr []), (''severity'', PStr ''info''), (''category'', PStr []), (''action'', PStr []),
          (''username'', PStr []), (''remote_addr'', PStr [])])
       (\<lambda>vs. bind_res (get_or e ''details'' (PDict [])) (\<lambda>d. Inr (vs @ [PStr (json_dumps d)])))"

text \<open>A line that is blank or no JSON is skipped; one that is JSON but no object ends the backfill.\<close>

fun audit_rows :: "(string \<Rightarrow> pyval option) \<Rightarrow> string list \<Rightarrow> pyval list list res" where
  "audit_rows loads [] = Inr []"
| "audit_rows loads (l # ls) =
     (if strip l = [] then audit_rows loads ls
      else case loads (strip l) of
             None \<Rightarrow> audit_rows loads ls
           | Some e \<Rightarrow> bind_res (audit_row e) (\<lambda>r. bind_res (audit_rows loads ls) (\<lambda>rs. Inr (r # rs))))"

section \<open>Identifiers, in batches\<close>

definition unnamed :: "ev_row \<Rightarrow> bool" where
  "unnamed r \<longleftrightarrow> ev_uuid r = None \<or> ev_uuid r = Some []"

definition name_row :: "(nat \<Rightarrow> nat) \<Rightarrow> ev_row \<Rightarrow> ev_row" where
  "name_row uuid r = r\<lparr>ev_uuid := Some (uuid_hex (uuid (ev_id r)))\<rparr>"

definition name_batch :: "(nat \<Rightarrow> nat) \<Rightarrow> nat \<Rightarrow> ev_row list \<Rightarrow> ev_row list" where
  "name_batch uuid n rs = update_where (\<lambda>r. ev_id r \<in> set (map ev_id (take n (filter unnamed rs)))) (name_row uuid) rs"

lemma not_unnamed_name_row [simp]: "\<not> unnamed (name_row uuid r)"
  by (simp add: unnamed_def name_row_def)

lemma unnamed_name_batch: "filter unnamed (name_batch uuid n rs) = filter (\<lambda>r. unnamed r \<and> ev_id r \<notin> set (map ev_id (take n (filter unnamed rs)))) rs"
proof -
  have "filter unnamed (update_where P (name_row uuid) xs) = filter (\<lambda>r. unnamed r \<and> \<not> P r) xs" for P xs
    by (induction xs) auto
  then show ?thesis by (simp add: name_batch_def)
qed

lemma fewer_unnamed:
  assumes "filter unnamed rs \<noteq> []"
  shows "length (filter unnamed (name_batch uuid (Suc n) rs)) < length (filter unnamed rs)"
proof -
  obtain r rest where r: "filter unnamed rs = r # rest" using assms by (cases "filter unnamed rs") auto
  let ?P = "\<lambda>x. ev_id x \<notin> set (map ev_id (take (Suc n) (filter unnamed rs)))"
  have "filter unnamed (name_batch uuid (Suc n) rs) = filter ?P (filter unnamed rs)"
    by (simp add: unnamed_name_batch conj_commute)
  moreover have "\<not> ?P r" by (simp add: r)
  ultimately show ?thesis by (simp add: r le_imp_less_Suc)
qed

text \<open>\<open>while True\<close>, 5000 rows at a time.\<close>

function backfill_uuids :: "(nat \<Rightarrow> nat) \<Rightarrow> ev_row list \<Rightarrow> ev_row list" where
  "backfill_uuids uuid rs = (if filter unnamed rs = [] then rs else backfill_uuids uuid (name_batch uuid 5000 rs))"
  by pat_completeness auto
termination
  using fewer_unnamed[of _ _ 4999] by (relation "measure (\<lambda>(uuid, rs). length (filter unnamed rs))") auto

declare backfill_uuids.simps [simp del]

section \<open>Normalised columns, in batches\<close>

text \<open>\<open>_pick\<close>: the first of the keys that has a value other than None and the empty text.\<close>

fun pick :: "(string \<times> pyval) list \<Rightarrow> string list \<Rightarrow> pyval" where
  "pick d [] = PNone"
| "pick d (k # ks) = (case map_of d k of None \<Rightarrow> pick d ks | Some v \<Rightarrow> if v = PNone \<or> v = PStr [] then pick d ks else v)"

text \<open>\<open>_int_or_none\<close>: an overflow is not caught.\<close>

definition int_or_none :: "pyval \<Rightarrow> pyval res" where
  "int_or_none v =
     (if v = PNone \<or> v = PStr [] then Inr PNone
      else case py_int_of v of
             Inr i \<Rightarrow> Inr (PInt i)
           | Inl (OverflowError m) \<Rightarrow> Inl (OverflowError m)
           | Inl e \<Rightarrow> Inr PNone)"

definition details_dict :: "(string \<Rightarrow> pyval option) \<Rightarrow> string option \<Rightarrow> (string \<times> pyval) list" where
  "details_dict loads t =
     (case loads (or_str t [CHR 0x7B, CHR 0x7D]) of Some (PDict d) \<Rightarrow> d | _ \<Rightarrow> [])"

definition field_update :: "(string \<Rightarrow> pyval option) \<Rightarrow> ev_row \<Rightarrow> (string \<times> pyval) list res" where
  "field_update loads r =
     (let d = details_dict loads (ev_details r); p = pick d in
      bind_res (int_or_none (p [''src_port'', ''source_port''])) (\<lambda>sp.
      bind_res (int_or_none (p [''dst_port'', ''dest_port'', ''destination_port''])) (\<lambda>dp.
      Inr [(''source_type'', p [''source_type'', ''collector'']), (''source_name'', p [''source_name'']),
           (''src_ip'', p [''src_ip'', ''source_ip'', ''client_ip'']), (''src_port'', sp),
           (''dst_ip'', p [''dst_ip'', ''dest_ip'', ''destination_ip'']), (''dst_port'', dp),
           (''protocol'', p [''protocol'', ''proto'']), (''interface'', p [''interface'', ''iface'']),
           (''direction'', p [''direction'']), (''hostname'', p [''hostname'', ''host'']),
           (''mac'', p [''mac'', ''mac_address'']), (''domain'', p [''domain'', ''query'']), (''url'', p [''url'']),
           (''rule_id'', p [''rule_id'']), (''rule_name'', p [''rule_name'', ''rule_label'']),
           (''policy_id'', p [''policy_id'']), (''policy_name'', p [''policy_name'']),
           (''mitre_tactic'', p [''mitre_tactic'']), (''mitre_technique'', p [''mitre_technique'']),
           (''soc_origin'', PInt (case map_of d ''soc_origin'' of None \<Rightarrow> 0 | Some v \<Rightarrow> if py_bool_of v then 1 else 0)),
           (''raw'', p [''raw'', ''raw_line''])])))"

definition plain_row :: "ev_row \<Rightarrow> bool" where
  "plain_row r \<longleftrightarrow> list_all (\<lambda>k. norm_cell k r = PNone) [''source_type'', ''src_ip'', ''dst_ip'', ''domain'', ''rule_id'']"

definition batch_after :: "nat \<Rightarrow> nat \<Rightarrow> ev_row list \<Rightarrow> ev_row list" where
  "batch_after n last_id rs = take n (sort_key ev_id (filter (\<lambda>r. last_id < ev_id r \<and> plain_row r) rs))"

text \<open>The values are bound one after the other; a list or a dict is refused.\<close>

definition bound_update :: "(string \<Rightarrow> pyval option) \<Rightarrow> ev_row \<Rightarrow> (nat \<times> (string \<times> pyval) list) res" where
  "bound_update loads r =
     bind_res (field_update loads r) (\<lambda>vs.
     bind_res (collect_res (\<lambda>(k, v). bind_res (bind_param v) (\<lambda>w. Inr (k, w))) vs) (\<lambda>ws. Inr (ev_id r, ws)))"

definition set_fields :: "(nat \<times> (string \<times> pyval) list) list \<Rightarrow> ev_row list \<Rightarrow> ev_row list" where
  "set_fields ups = map (\<lambda>r. case map_of ups (ev_id r) of None \<Rightarrow> r | Some vs \<Rightarrow> r\<lparr>ev_norm := vs\<rparr>)"

lemma batch_after_in: "r \<in> set (batch_after n last_id rs) \<Longrightarrow> r \<in> set rs \<and> last_id < ev_id r \<and> plain_row r"
  by (auto simp: batch_after_def dest: in_set_takeD)

lemma ids_set_fields [simp]: "map ev_id (set_fields ups rs) = map ev_id rs"
  by (induction rs) (auto simp: set_fields_def split: option.split)

lemma length_filter_ids:
  assumes "map ev_id rs = map ev_id rs'"
  shows "length (filter (\<lambda>r. n < ev_id r) rs) = length (filter (\<lambda>r. n < ev_id r) rs')"
proof -
  have key: "length (filter (\<lambda>r. n < ev_id r) xs) = length (filter (\<lambda>i. n < i) (map ev_id xs))" for xs
    by (induction xs) auto
  show ?thesis by (simp only: key assms)
qed

lemma fewer_after:
  assumes "batch_after n last_id rs \<noteq> []"
  shows "length (filter (\<lambda>r. ev_id (last (batch_after n last_id rs)) < ev_id r) rs) < length (filter (\<lambda>r. last_id < ev_id r) rs)"
proof -
  let ?l = "last (batch_after n last_id rs)"
  have l: "?l \<in> set rs" "last_id < ev_id ?l" using batch_after_in[OF last_in_set[OF assms]] by auto
  have "filter (\<lambda>r. ev_id ?l < ev_id r) rs = filter (\<lambda>r. ev_id ?l < ev_id r) (filter (\<lambda>r. last_id < ev_id r) rs)"
    using l(2) by (auto intro!: filter_cong)
  moreover have "length (filter (\<lambda>r. ev_id ?l < ev_id r) (filter (\<lambda>r. last_id < ev_id r) rs)) < length (filter (\<lambda>r. last_id < ev_id r) rs)"
    using l by (intro length_filter_less[of ?l]) auto
  ultimately show ?thesis by simp
qed

function backfill_fields :: "(string \<Rightarrow> pyval option) \<Rightarrow> nat \<Rightarrow> nat \<Rightarrow> ev_row list \<Rightarrow> ev_row list res" where
  "backfill_fields loads n last_id rs =
     (let b = batch_after n last_id rs in
      if b = [] then Inr rs
      else case collect_res (bound_update loads) b of
             Inl e \<Rightarrow> Inl e
           | Inr ups \<Rightarrow>
               (if length b < n then Inr (set_fields ups rs)
                else backfill_fields loads n (ev_id (last b)) (set_fields ups rs)))"
  by pat_completeness auto
termination
proof (relation "measure (\<lambda>(loads, n, last_id, rs). length (filter (\<lambda>r. last_id < ev_id r) rs))")
  fix loads :: "string \<Rightarrow> pyval option" and n last_id :: nat and rs b ups
  assume "b = batch_after n last_id rs" "b \<noteq> []"
  then show "((loads, n, ev_id (last b), set_fields ups rs), loads, n, last_id, rs) \<in> measure (\<lambda>(loads, n, last_id, rs). length (filter (\<lambda>r. last_id < ev_id r) rs))"
    using fewer_after[of n last_id rs] length_filter_ids[OF ids_set_fields, of "ev_id (last b)" ups rs] by simp
qed simp

declare backfill_fields.simps [simp del]

text \<open>Both steps: 5000 rows and 2000 rows at a time.\<close>

definition backfill_events :: "(string \<Rightarrow> pyval option) \<Rightarrow> (nat \<Rightarrow> nat) \<Rightarrow> ev_row list \<Rightarrow> ev_row list res" where
  "backfill_events loads uuid rs = backfill_fields loads 2000 0 (backfill_uuids uuid rs)"

section \<open>The batches do what one pass would do\<close>

lemma collect_res_Inr: "collect_res f xs = Inr ys \<longleftrightarrow> list_all2 (\<lambda>x y. f x = Inr y) xs ys"
  by (induction xs arbitrary: ys) (auto simp: bind_res_Inr list_all2_Cons1)

lemma backfill_uuids_map:
  assumes "distinct (map ev_id rs)"
  shows "backfill_uuids uuid rs = map (\<lambda>r. if unnamed r then name_row uuid r else r) rs"
  using assms
proof (induction uuid rs rule: backfill_uuids.induct)
  case (1 uuid rs)
  show ?case
  proof (cases "filter unnamed rs = []")
    case True
    then show ?thesis by (subst backfill_uuids.simps) (auto simp: filter_empty_conv intro!: map_idI[symmetric])
  next
    case False
    define P where "P = (\<lambda>r :: ev_row. ev_id r \<in> set (map ev_id (take 5000 (filter unnamed rs))))"
    have ids: "map ev_id (name_batch uuid 5000 rs) = map ev_id rs"
      by (simp add: name_batch_def map_update_where name_row_def)
    have nb: "name_batch uuid 5000 rs = map (\<lambda>r. if P r then name_row uuid r else r) rs"
      by (simp only: name_batch_def update_where_def P_def)
    have P: "unnamed r" if Pr: "P r" and r: "r \<in> set rs" for r :: ev_row
    proof -
      obtain r' where "r' \<in> set (take 5000 (filter unnamed rs))" "ev_id r' = ev_id r" using Pr by (auto simp: P_def)
      then have "r' \<in> set rs" "unnamed r'" "ev_id r' = ev_id r" by (auto dest!: in_set_takeD)
      then show ?thesis using r "1.prems" by (metis distinct_map inj_onD)
    qed
    have "backfill_uuids uuid rs = backfill_uuids uuid (name_batch uuid 5000 rs)"
      using False by (subst backfill_uuids.simps) simp
    also have "\<dots> = map (\<lambda>r. if unnamed r then name_row uuid r else r) (name_batch uuid 5000 rs)"
      using "1.IH"[OF False] "1.prems" by (simp add: ids)
    also have "\<dots> = map (\<lambda>r. if unnamed r then name_row uuid r else r) rs"
      unfolding nb map_map comp_def by (rule map_cong[OF refl]) (use P in auto)
    finally show ?thesis .
  qed
qed

lemma sorted_le_last: "sorted_wrt (\<le>) (map f xs) \<Longrightarrow> x \<in> set xs \<Longrightarrow> f x \<le> f (last xs)" for f :: "'a \<Rightarrow> nat"
  by (induction xs) auto

lemma set_fields_batch:
  assumes "distinct (map ev_id rs)" "set b \<subseteq> set rs"
  shows "set_fields (map (\<lambda>r. (ev_id r, upd r)) b) rs = map (\<lambda>r. if r \<in> set b then r\<lparr>ev_norm := upd r\<rparr> else r) rs"
proof -
  have "map_of (map (\<lambda>r. (ev_id r, upd r)) xs) (ev_id r) = (if r \<in> set xs then Some (upd r) else None)"
    if "r \<in> set rs" "set xs \<subseteq> set rs" for r xs
    using that(2) by (induction xs) (use assms(1) that(1) in \<open>auto simp: distinct_map inj_on_def\<close>)
  then show ?thesis using assms(2) by (auto simp: set_fields_def)
qed

lemma backfill_fields_step:
  assumes "batch_after n last_id rs = b" "b \<noteq> []" "collect_res (bound_update loads) b = Inr ups"
  shows "backfill_fields loads n last_id rs =
    (if length b < n then Inr (set_fields ups rs) else backfill_fields loads n (ev_id (last b)) (set_fields ups rs))"
  by (subst backfill_fields.simps) (simp add: assms)

lemma backfill_fields_map:
  assumes "distinct (map ev_id rs)" "0 < n"
    and "\<forall>r \<in> set rs. last_id < ev_id r \<and> plain_row r \<longrightarrow> bound_update loads r = Inr (ev_id r, upd r)"
  shows "backfill_fields loads n last_id rs =
    Inr (map (\<lambda>r. if last_id < ev_id r \<and> plain_row r then r\<lparr>ev_norm := upd r\<rparr> else r) rs)"
  using assms
proof (induction loads n last_id rs rule: backfill_fields.induct)
  case (1 loads n last_id rs)
  define S where "S = sort_key ev_id (filter (\<lambda>r. last_id < ev_id r \<and> plain_row r) rs)"
  define b where "b = take n S"
  have b: "batch_after n last_id rs = b" by (simp add: b_def S_def batch_after_def)
  have S: "set S = {r \<in> set rs. last_id < ev_id r \<and> plain_row r}" "sorted (map ev_id S)" by (auto simp: S_def)
  have bS: "set b \<subseteq> set S" by (simp add: b_def set_take_subset)
  show ?case
  proof (cases "b = []")
    case True
    then have "S = []" using "1.prems"(2) by (simp add: b_def)
    then have "\<forall>r \<in> set rs. \<not> (last_id < ev_id r \<and> plain_row r)" using S(1) by auto
    then show ?thesis by (subst backfill_fields.simps) (auto simp: b True Let_def intro!: map_idI[symmetric])
  next
    case False
    define ups where "ups = map (\<lambda>r. (ev_id r, upd r)) b"
    have c: "collect_res (bound_update loads) b = Inr ups"
      using "1.prems"(3) bS S(1) by (auto simp: collect_res_Inr ups_def list_all2_map2 intro!: list.rel_refl_strong)
    define rs1 where "rs1 = set_fields ups rs"
    have rs1: "rs1 = map (\<lambda>r. if r \<in> set b then r\<lparr>ev_norm := upd r\<rparr> else r) rs"
      unfolding rs1_def ups_def by (rule set_fields_batch[OF "1.prems"(1)]) (use bS S(1) in auto)
    note step = backfill_fields_step[OF b False c, folded rs1_def]
    note IH = "1.IH"[OF refl, unfolded b, OF False c, folded rs1_def]
    show ?thesis
    proof (cases "length b < n")
      case True
      then have "set b = set S" by (simp add: b_def)
      then show ?thesis using S(1) by (simp add: step True rs1 cong: map_cong)
    next
      case full: False
      have le: "ev_id r \<le> ev_id (last b)" if "r \<in> set b" for r
        using S(2) that by (intro sorted_le_last) (auto simp: b_def take_map[symmetric] sorted_wrt_take)
      have lastb: "last b \<in> set rs" "last_id < ev_id (last b)" using bS S(1) last_in_set[OF False] by auto
      have gt: "ev_id (last b) < ev_id r" if r: "r \<in> set S" "r \<notin> set b" for r
      proof -
        have split: "S = b @ drop n S" by (simp add: b_def)
        then have "r \<in> set (drop n S)" using r by (metis UnE set_append)
        moreover have "sorted (map ev_id b @ map ev_id (drop n S))" using S(2) split by (metis map_append)
        ultimately have "ev_id (last b) \<le> ev_id r"
          using last_in_set[OF False] by (auto simp: sorted_append)
        moreover have "ev_id (last b) \<noteq> ev_id r"
          using "1.prems"(1) lastb(1) r S(1) last_in_set[OF False] by (auto simp: distinct_map inj_on_def)
        ultimately show ?thesis by simp
      qed
      have ids: "map ev_id rs1 = map ev_id rs" by (simp add: rs1_def)
      have ok: "\<forall>r \<in> set rs1. ev_id (last b) < ev_id r \<and> plain_row r \<longrightarrow> bound_update loads r = Inr (ev_id r, upd r)"
      proof (intro ballI impI)
        fix r assume "r \<in> set rs1" and r: "ev_id (last b) < ev_id r \<and> plain_row r"
        then obtain r0 where r0: "r0 \<in> set rs" "r = (if r0 \<in> set b then r0\<lparr>ev_norm := upd r0\<rparr> else r0)" by (auto simp: rs1)
        then have "r0 \<notin> set b" using le[of r0] r by (auto split: if_splits)
        then show "bound_update loads r = Inr (ev_id r, upd r)" using r0 r lastb(2) "1.prems"(3) by auto
      qed
      have "backfill_fields loads n last_id rs = Inr (map (\<lambda>r. if ev_id (last b) < ev_id r \<and> plain_row r then r\<lparr>ev_norm := upd r\<rparr> else r) rs1)"
        using IH[OF full _ "1.prems"(2) ok] "1.prems"(1) full by (simp add: step ids)
      also have "map (\<lambda>r. if ev_id (last b) < ev_id r \<and> plain_row r then r\<lparr>ev_norm := upd r\<rparr> else r) rs1 =
          map (\<lambda>r. if last_id < ev_id r \<and> plain_row r then r\<lparr>ev_norm := upd r\<rparr> else r) rs"
        unfolding rs1 map_map comp_def
      proof (rule map_cong[OF refl])
        fix r assume r: "r \<in> set rs"
        show "(if ev_id (last b) < ev_id (if r \<in> set b then r\<lparr>ev_norm := upd r\<rparr> else r) \<and> plain_row (if r \<in> set b then r\<lparr>ev_norm := upd r\<rparr> else r)
            then (if r \<in> set b then r\<lparr>ev_norm := upd r\<rparr> else r)\<lparr>ev_norm := upd (if r \<in> set b then r\<lparr>ev_norm := upd r\<rparr> else r)\<rparr>
            else (if r \<in> set b then r\<lparr>ev_norm := upd r\<rparr> else r)) =
          (if last_id < ev_id r \<and> plain_row r then r\<lparr>ev_norm := upd r\<rparr> else r)"
        proof (cases "r \<in> set b")
          case True
          then show ?thesis using le[OF True] bS S(1) by auto
        next
          case False
          then show ?thesis using gt[of r] S(1) r lastb(2) by auto
        qed
      qed
      finally show ?thesis .
    qed
  qed
qed

text \<open>The values a row is given, and what one pass over the table would make of it.\<close>

definition fields_of :: "(string \<Rightarrow> pyval option) \<Rightarrow> ev_row \<Rightarrow> (string \<times> pyval) list" where
  "fields_of loads r = (case bound_update loads r of Inl e \<Rightarrow> [] | Inr iv \<Rightarrow> snd iv)"

definition complete_row :: "(string \<Rightarrow> pyval option) \<Rightarrow> (nat \<Rightarrow> nat) \<Rightarrow> ev_row \<Rightarrow> ev_row" where
  "complete_row loads uuid r =
     (let r1 = (if unnamed r then name_row uuid r else r) in
      if plain_row r1 then r1\<lparr>ev_norm := fields_of loads r1\<rparr> else r1)"

lemma bound_update_id: "bound_update loads r = Inr iv \<Longrightarrow> fst iv = ev_id r"
  by (auto simp: bound_update_def bind_res_Inr)

lemma name_row_simps [simp]:
  "ev_id (name_row uuid r) = ev_id r" "bound_update loads (name_row uuid r) = bound_update loads r" "plain_row (name_row uuid r) = plain_row r"
  by (simp_all add: name_row_def bound_update_def field_update_def plain_row_def norm_cell_def Let_def)

text \<open>
  C16: Migration 34 ends on every table of events: when the values of each row can be bound, its two loops, which take 5000
  and 2000 rows at a time, leave what one pass over the table leaves, an identifier in every row and the columns
  taken from the details in the rows that had none, also when a row has nothing to take, which the cursor of the loop passes.
\<close>

theorem backfill_in_one_pass:
  assumes "distinct (map ev_id rs)" "\<forall>r \<in> set rs. 0 < ev_id r"
    and "\<forall>r \<in> set rs. plain_row r \<longrightarrow> (\<exists>iv. bound_update loads r = Inr iv)"
  shows "backfill_events loads uuid rs = Inr (map (complete_row loads uuid) rs)"
proof -
  let ?n = "\<lambda>r. if unnamed r then name_row uuid r else r"
  have "map ev_id (map ?n rs) = map ev_id rs" by simp
  then have d: "distinct (map ev_id (map ?n rs))" by (simp only: assms(1))
  have "\<forall>r \<in> set (map ?n rs). 0 < ev_id r \<and> plain_row r \<longrightarrow> bound_update loads r = Inr (ev_id r, fields_of loads r)"
    using assms(3) by (fastforce simp: fields_of_def dest: bound_update_id)
  note all = this
  have "backfill_fields loads 2000 0 (map ?n rs) =
      Inr (map (\<lambda>r. if 0 < ev_id r \<and> plain_row r then r\<lparr>ev_norm := fields_of loads r\<rparr> else r) (map ?n rs))"
    by (rule backfill_fields_map[OF d _ all]) simp
  moreover have "map (\<lambda>r. if 0 < ev_id r \<and> plain_row r then r\<lparr>ev_norm := fields_of loads r\<rparr> else r) (map ?n rs) = map (complete_row loads uuid) rs"
    using assms(2) by (auto simp: complete_row_def Let_def)
  ultimately show ?thesis by (simp add: backfill_events_def backfill_uuids_map[OF assms(1)])
qed

definition sample_loads :: "string \<Rightarrow> pyval option" where
  "sample_loads t = (if t = ''host'' then Some (PDict [(''host'', PStr ''nas''), (''dest_port'', PStr ''53'')]) else Some (PDict []))"

definition sample_events :: "ev_row list" where
  "sample_events =
     [\<lparr>ev_id = 1, ev_uuid = None, ev_details = Some ''host'', ev_norm = []\<rparr>,
      \<lparr>ev_id = 2, ev_uuid = Some ''a'', ev_details = None, ev_norm = []\<rparr>]"

lemma backfill_in_one_pass_witness:
  "backfill_events sample_loads id sample_events = Inr (map (complete_row sample_loads id) sample_events)
   \<and> map (norm_cell ''hostname'') (map (complete_row sample_loads id) sample_events) = [PStr ''nas'', PNone]
   \<and> map (norm_cell ''dst_port'') (map (complete_row sample_loads id) sample_events) = [PInt 53, PNone]"
proof -
  have "list_all (\<lambda>r. \<not> isl (bound_update sample_loads r)) sample_events" by code_simp
  then have u: "\<exists>iv. bound_update sample_loads r = Inr iv" if "r \<in> set sample_events" for r
    using that by (cases "bound_update sample_loads r") (auto simp: list_all_iff)
  have "distinct (map ev_id sample_events)" "\<forall>r \<in> set sample_events. 0 < ev_id r" by (simp_all add: sample_events_def)
  then have "backfill_events sample_loads id sample_events = Inr (map (complete_row sample_loads id) sample_events)"
    by (rule backfill_in_one_pass) (use u in blast)
  moreover have "map (norm_cell ''hostname'') (map (complete_row sample_loads id) sample_events) = [PStr ''nas'', PNone]"
    "map (norm_cell ''dst_port'') (map (complete_row sample_loads id) sample_events) = [PInt 53, PNone]" by code_simp+
  ultimately show ?thesis by blast
qed

end
