(* ===== verification/Migrations.thy ===== *)
theory Migrations
  imports SqliteSchema EventBackfill
begin

text \<open>
  The schema migrations of \<^verbatim>\<open>migrations.py\<close>: one operation on the connection for every migration, in the order of the
  file, and the runner that applies those a database still lacks, each with its version in one commit.

  White space inside of SQL texts is collapsed.  Loops over lists of statements are written out.
\<close>

section \<open>The environment of the migrations\<close>

text \<open>
  \<open>me_audit_log\<close> are the lines of the audit log, \<open>None\<close> when there is no file or it cannot be read; \<open>me_events\<close> and
  \<open>me_put_events\<close> give and replace the rows of the table \<open>events\<close> in the data; \<open>me_db_path\<close> is the path of the database
  file on FreeBSD, \<open>me_copy\<close> the error of copying it.
\<close>

record 'd mig_env =
  me_sql :: "'d sqlite"
  me_loads :: "string \<Rightarrow> pyval option"
  me_audit_log :: "string list option"
  me_uuid :: "nat \<Rightarrow> nat"
  me_events :: "'d \<Rightarrow> ev_row list"
  me_put_events :: "ev_row list \<Rightarrow> 'd \<Rightarrow> 'd"
  me_db_path :: "string option"
  me_stamp :: string
  me_copy :: "string option"

definition rename_if :: "'d sqlite \<Rightarrow> string \<Rightarrow> string \<Rightarrow> string \<Rightarrow> 'd op" where
  "rename_if q t old new c =
     (if old \<in> set (columns_of t (cn_db c)) \<and> new \<notin> set (columns_of t (cn_db c))
      then execute q (RenameColumn t old new) c else (c, Inr ()))"

text \<open>The copy of the audit log of migration 22: whatever fails ends it quietly.\<close>

definition insert_event :: "'d sqlite \<Rightarrow> pyval list \<Rightarrow> 'd op" where
  "insert_event q r c =
     (case collect_res bind_param r of
        Inl e \<Rightarrow> (c, Inl e)
      | Inr vs \<Rightarrow> execute q (Write [(''events'', [''ts'', ''severity'', ''category'', ''action'', ''username'', ''remote_addr'', ''details''])]
          ''INSERT INTO events (ts, severity, category, action, username, remote_addr, details) VALUES (?,?,?,?,?,?,?)'' vs) c)"

definition backfill_audit_log :: "'d mig_env \<Rightarrow> 'd op" where
  "backfill_audit_log m =
     if_none (me_sql m) [(''events'', [])] ''SELECT COUNT(*) FROM events''
       (quietly (case me_audit_log m of
          None \<Rightarrow> seq_ops []
        | Some ls \<Rightarrow>
            (case audit_rows (me_loads m) ls of
               Inl e \<Rightarrow> (\<lambda>c. (c, Inl e))
             | Inr rs \<Rightarrow> seq_ops (map (insert_event (me_sql m)) rs))))"

text \<open>The loops of migration 34: a transaction is open once a row is written.\<close>

definition event_columns :: "string list" where
  "event_columns = [''id'', ''details'', ''event_uuid'', ''source_type'', ''source_name'', ''src_ip'', ''src_port'', ''dst_ip'', ''dst_port'',
     ''protocol'', ''interface'', ''direction'', ''hostname'', ''mac'', ''domain'', ''url'', ''rule_id'', ''rule_name'', ''policy_id'',
     ''policy_name'', ''mitre_tactic'', ''mitre_technique'', ''soc_origin'', ''raw'']"

definition update_events :: stmt where
  "update_events = Write [(''events'', event_columns)] ''UPDATE events'' []"

definition backfill_op :: "'d mig_env \<Rightarrow> 'd op" where
  "backfill_op m c =
     (case unknown_use [(''events'', event_columns)] (cn_db c) of
        Some e \<Rightarrow> (c, Inl e)
      | None \<Rightarrow>
          (let rs = me_events m (sd_data (cn_db c)) in
           if list_all (\<lambda>r. \<not> unnamed r \<and> \<not> plain_row r) rs then (c, Inr ())
           else let c1 = begin_write update_events c in
                case sq_refuses (me_sql m) update_events (cn_db c1) of
                  Some e \<Rightarrow> (c1, Inl (OperationalError e))
                | None \<Rightarrow>
                    (case backfill_events (me_loads m) (me_uuid m) rs of
                       Inl e \<Rightarrow> (c1, Inl e)
                     | Inr rs1 \<Rightarrow> (c1\<lparr>cn_db := (cn_db c1)\<lparr>sd_data := me_put_events m rs1 (sd_data (cn_db c1))\<rparr>\<rparr>, Inr ()))))"

text \<open>The fallback of migration 39.\<close>

definition seed_logging_mode :: "'d sqlite \<Rightarrow> 'd op" where
  "seed_logging_mode q c =
     (case select q [(''siem_state'', [''value'', ''key''])] (''SELECT value FROM siem_state WHERE key = '' @ apos @ ''dns_logging_mode'' @ apos) c of
        Inl e \<Rightarrow> (c, Inl e)
      | Inr rs \<Rightarrow>
          (if rs = []
           then execute q (Write [(''siem_state'', [''key'', ''value''])] ''INSERT INTO siem_state (key, value) VALUES (?, ?)''
                  [PStr ''dns_logging_mode'', PStr ''blocked_only'']) c
           else (c, Inr ())))"

section \<open>The migrations\<close>

definition migration_v2 :: "'d sqlite \<Rightarrow> 'd op" where
  "migration_v2 q = seq_ops
    [execute q (CreateTable ''pending_interface_changes''
     [Column ''id'' Integer_type [PrimaryKey True],
      Column ''interface_type'' Text_type [NotNull],
      Column ''snapshot_json'' Text_type [NotNull],
      Column ''created_at'' Timestamp_type [Default ''CURRENT_TIMESTAMP'']] [])]"

definition migration_v3 :: "'d sqlite \<Rightarrow> 'd op" where
  "migration_v3 q = seq_ops
    [execute q (CreateTable ''certificates''
     [Column ''id'' Integer_type [PrimaryKey True],
      Column ''cert_type'' Text_type [NotNull],
      Column ''name'' Text_type [NotNull],
      Column ''common_name'' Text_type [NotNull],
      Column ''ca_id'' Integer_type [],
      Column ''cert_pem'' Text_type [NotNull],
      Column ''key_pem_enc'' Text_type [NotNull],
      Column ''chain_pem'' Text_type [DefaultText []],
      Column ''serial_number'' Text_type [DefaultText []],
      Column ''not_before'' Text_type [DefaultText []],
      Column ''not_after'' Text_type [DefaultText []],
      Column ''revoked'' Integer_type [Default ''0''],
      Column ''created_at'' Timestamp_type [Default ''CURRENT_TIMESTAMP'']]
     [ForeignKey ''ca_id'' ''certificates'' ''id'' []])]"

definition migration_v4 :: "'d sqlite \<Rightarrow> 'd op" where
  "migration_v4 q = seq_ops
    [execute q (CreateTable ''dhcpv6_pools''
     [Column ''id'' Integer_type [PrimaryKey True],
      Column ''interface_name'' Text_type [NotNull],
      Column ''prefix'' Text_type [NotNull],
      Column ''start_address'' Text_type [NotNull],
      Column ''end_address'' Text_type [NotNull],
      Column ''preferred_lifetime'' Integer_type [Default ''3600''],
      Column ''valid_lifetime'' Integer_type [Default ''7200''],
      Column ''dns_servers'' Text_type [DefaultText []],
      Column ''domain_search'' Text_type [DefaultText []],
      Column ''updated_at'' Timestamp_type [Default ''CURRENT_TIMESTAMP'']] []),
     execute q (CreateTable ''ra_settings''
     [Column ''id'' Integer_type [PrimaryKey True],
      Column ''interface_name'' Text_type [NotNull, UniqueCol],
      Column ''min_interval'' Integer_type [Default ''200''],
      Column ''max_interval'' Integer_type [Default ''600''],
      Column ''managed_flag'' Integer_type [Default ''0''],
      Column ''other_flag'' Integer_type [Default ''0''],
      Column ''prefix'' Text_type [DefaultText []],
      Column ''prefix_length'' Integer_type [Default ''64''],
      Column ''dns_servers'' Text_type [DefaultText []],
      Column ''domain_search'' Text_type [DefaultText []],
      Column ''updated_at'' Timestamp_type [Default ''CURRENT_TIMESTAMP'']] []),
     execute q (CreateTable ''wol_hosts''
     [Column ''id'' Integer_type [PrimaryKey True],
      Column ''name'' Text_type [NotNull],
      Column ''mac_address'' Text_type [NotNull, UniqueCol],
      Column ''interface_name'' Text_type [NotNull],
      Column ''broadcast_ip'' Text_type [DefaultText ''255.255.255.255''],
      Column ''description'' Text_type [DefaultText []],
      Column ''created_at'' Timestamp_type [Default ''CURRENT_TIMESTAMP'']] []),
     execute q (CreateTable ''captive_sessions''
     [Column ''id'' Integer_type [PrimaryKey True],
      Column ''mac_address'' Text_type [NotNull, UniqueCol],
      Column ''ip_address'' Text_type [NotNull],
      Column ''username'' Text_type [DefaultText []],
      Column ''is_superuser'' Integer_type [Default ''0''],
      Column ''expires_at'' Integer_type [NotNull],
      Column ''logged_out'' Integer_type [Default ''0''],
      Column ''created_at'' Timestamp_type [Default ''CURRENT_TIMESTAMP'']] []),
     execute q (CreateTable ''captive_vouchers''
     [Column ''id'' Integer_type [PrimaryKey True],
      Column ''code'' Text_type [NotNull, UniqueCol],
      Column ''duration_minutes'' Integer_type [NotNull, Default ''60''],
      Column ''bandwidth_kbps'' Integer_type [Default ''0''],
      Column ''redeemed'' Integer_type [Default ''0''],
      Column ''redeemed_at'' Timestamp_type [],
      Column ''created_at'' Timestamp_type [Default ''CURRENT_TIMESTAMP'']] [])]"

definition migration_v5 :: "'d sqlite \<Rightarrow> 'd op" where
  "migration_v5 q = seq_ops
    [execute q (CreateTable ''config_versions''
     [Column ''id'' Integer_type [PrimaryKey True],
      Column ''service'' Text_type [NotNull],
      Column ''version_num'' Integer_type [NotNull, Default ''1''],
      Column ''content'' Text_type [NotNull],
      Column ''content_hash'' Text_type [DefaultText []],
      Column ''applied_by'' Text_type [DefaultText ''system''],
      Column ''applied_at'' Timestamp_type [Default ''CURRENT_TIMESTAMP''],
      Column ''validation_ok'' Integer_type [Default ''1''],
      Column ''apply_ok'' Integer_type [Default ''1''],
      Column ''notes'' Text_type [DefaultText []],
      Column ''file_path'' Text_type [DefaultText []]] []),
     execute q (CreateIndex False ''idx_config_versions_service_version'' ''config_versions'' [''service'', ''version_num''] []),
     execute q (CreateTable ''health_snapshots''
     [Column ''id'' Integer_type [PrimaryKey True],
      Column ''snapshot_at'' Timestamp_type [Default ''CURRENT_TIMESTAMP''],
      Column ''services_json'' Text_type [NotNull, DefaultText ''{}''],
      Column ''disk_json'' Text_type [NotNull, DefaultText ''{}''],
      Column ''system_json'' Text_type [NotNull, DefaultText ''{}'']] []),
     execute q (CreateIndex False ''idx_health_snapshots_at'' ''health_snapshots'' [''snapshot_at''] [])]"

definition migration_v6 :: "'d sqlite \<Rightarrow> 'd op" where
  "migration_v6 q = seq_ops
    [execute q (CreateTable ''ids_threat_feeds''
     [Column ''id'' Integer_type [PrimaryKey False, CheckCol ''id = 1''],
      Column ''abusech_auth_key'' Text_type [DefaultText []],
      Column ''updated_at'' Timestamp_type [Default ''CURRENT_TIMESTAMP'']] []),
     execute q (Write [(''ids_threat_feeds'', [''id''])] ''INSERT OR IGNORE INTO ids_threat_feeds (id) VALUES (1)'' [])]"

definition migration_v7 :: "'d sqlite \<Rightarrow> 'd op" where
  "migration_v7 q = seq_ops
    [quietly (execute q (AddColumn ''captive_vouchers'' (Column ''disabled'' Integer_type [Default ''0''])))]"

definition migration_v8 :: "'d sqlite \<Rightarrow> 'd op" where
  "migration_v8 q = seq_ops
    [quietly (execute q (AddColumn ''ids_threat_feeds'' (Column ''abusech_dry_run'' Integer_type [Default ''1''])))]"

definition migration_v9 :: "'d sqlite \<Rightarrow> 'd op" where
  "migration_v9 q = seq_ops
    [quietly (execute q (AddColumn ''dhcpv6_pools'' (Column ''interface_type'' Text_type [DefaultText ''LAN'']))),
     quietly (execute q (AddColumn ''dhcpv6_pools'' (Column ''enabled'' Integer_type [Default ''0'']))),
     quietly (execute q (AddColumn ''dhcpv6_pools'' (Column ''pd_prefix'' Text_type [DefaultText []]))),
     quietly (execute q (AddColumn ''dhcpv6_pools'' (Column ''pd_prefix_len'' Integer_type [Default ''64''])))]"

definition migration_v10 :: "'d sqlite \<Rightarrow> 'd op" where
  "migration_v10 q = seq_ops
    [execute q (CreateTable ''siem_state''
     [Column ''key'' Text_type [PrimaryKey False],
      Column ''value'' Text_type [NotNull, DefaultText []],
      Column ''updated_at'' Timestamp_type [Default ''CURRENT_TIMESTAMP'']] [])]"

definition migration_v11 :: "'d sqlite \<Rightarrow> 'd op" where
  "migration_v11 q = seq_ops
    [rename_if q ''certificates'' ''key_pem_enc'' ''private_key_enc'',
     rename_if q ''certificates'' ''serial_number'' ''serial'',
     unless_column ''certificates'' ''revoked_at'' (quietly (execute q (AddColumn ''certificates'' (Column ''revoked_at'' Timestamp_type []))))]"

definition migration_v12 :: "'d sqlite \<Rightarrow> 'd op" where
  "migration_v12 q = seq_ops
    [quietly (execute q (AddColumn ''advanced_firewall_nat'' (Column ''block_bogons'' Integer_type [Default ''1'']))),
     quietly (execute q (AddColumn ''advanced_firewall_nat'' (Column ''block_private_nets'' Integer_type [Default ''1''])))]"

definition migration_v13 :: "'d sqlite \<Rightarrow> 'd op" where
  "migration_v13 q = seq_ops
    [execute q (CreateTable ''config_apply_jobs''
     [Column ''id'' Integer_type [PrimaryKey True],
      Column ''feature_key'' Text_type [NotNull],
      Column ''state'' Text_type [NotNull, DefaultText ''saved''],
      Column ''config_hash'' Text_type [DefaultText []],
      Column ''applied_by'' Text_type [DefaultText ''system''],
      Column ''notes'' Text_type [DefaultText []],
      Column ''message'' Text_type [DefaultText []],
      Column ''created_at'' Real_type [NotNull, Default ''0''],
      Column ''updated_at'' Real_type [NotNull, Default ''0'']] []),
     execute q (CreateIndex False ''idx_cap_jobs_feature_created'' ''config_apply_jobs'' [''feature_key'', ''created_at''] []),
     execute q (CreateTable ''feature_applied_state''
     [Column ''feature_key'' Text_type [PrimaryKey False],
      Column ''state'' Text_type [NotNull, DefaultText ''saved''],
      Column ''message'' Text_type [DefaultText []],
      Column ''last_job_id'' Integer_type [],
      Column ''updated_at'' Real_type [NotNull, Default ''0'']]
     [ForeignKey ''last_job_id'' ''config_apply_jobs'' ''id'' []])]"

definition migration_v14 :: "'d sqlite \<Rightarrow> 'd op" where
  "migration_v14 q = seq_ops
    [execute q (CreateTable ''policy_routes''
     [Column ''id'' Integer_type [PrimaryKey True],
      Column ''enabled'' Integer_type [Default ''1''],
      Column ''priority'' Integer_type [Default ''100''],
      Column ''description'' Text_type [DefaultText []],
      Column ''interface_type'' Text_type [DefaultText ''LAN''],
      Column ''source'' Text_type [DefaultText ''any''],
      Column ''destination'' Text_type [DefaultText ''any''],
      Column ''gateway_id'' Integer_type [References ''gateways'' ''id''],
      Column ''created_at'' Timestamp_type [Default ''CURRENT_TIMESTAMP'']] []),
     quietly (execute q (AddColumn ''advanced_firewall_nat'' (Column ''nat_reflection'' Integer_type [Default ''0'']))),
     quietly (execute q (AddColumn ''advanced_firewall_nat'' (Column ''kill_states_on_reload'' Integer_type [Default ''0''])))]"

definition migration_v15 :: "'d sqlite \<Rightarrow> 'd op" where
  "migration_v15 q = seq_ops
    [quietly (execute q (AddColumn ''virtual_ips_configs'' (Column ''vhid'' Integer_type [Default ''1'']))),
     quietly (execute q (AddColumn ''virtual_ips_configs'' (Column ''carp_pass'' Text_type [DefaultText []]))),
     quietly (execute q (AddColumn ''virtual_ips_configs'' (Column ''advskew'' Integer_type [Default ''0'']))),
     quietly (execute q (AddColumn ''virtual_ips_configs'' (Column ''advbase'' Integer_type [Default ''1''])))]"

definition migration_v16 :: "'d sqlite \<Rightarrow> 'd op" where
  "migration_v16 q = seq_ops
    [quietly (execute q (AddColumn ''gateways'' (Column ''reachable'' Integer_type [Default ''NULL'']))),
     quietly (execute q (AddColumn ''gateways'' (Column ''last_seen'' Timestamp_type [Default ''NULL''])))]"

definition migration_v17 :: "'d sqlite \<Rightarrow> 'd op" where
  "migration_v17 q = seq_ops
    [execute q (CreateTable ''siem_cases''
     [Column ''id'' Integer_type [PrimaryKey True],
      Column ''title'' Text_type [NotNull],
      Column ''description'' Text_type [DefaultText []],
      Column ''severity'' Text_type [DefaultText ''medium''],
      Column ''status'' Text_type [DefaultText ''open''],
      Column ''assigned_to'' Integer_type [],
      Column ''created_by'' Text_type [NotNull, DefaultText ''system''],
      Column ''source_event'' Text_type [DefaultText []],
      Column ''tags'' Text_type [DefaultText []],
      Column ''created_at'' Timestamp_type [Default ''CURRENT_TIMESTAMP''],
      Column ''updated_at'' Timestamp_type [Default ''CURRENT_TIMESTAMP'']]
     [ForeignKey ''assigned_to'' ''users'' ''id'' ''SET NULL'']),
     execute q (CreateIndex False ''idx_siem_cases_status'' ''siem_cases'' [''status''] []),
     execute q (CreateIndex False ''idx_siem_cases_assigned'' ''siem_cases'' [''assigned_to''] []),
     execute q (CreateTable ''siem_case_notes''
     [Column ''id'' Integer_type [PrimaryKey True],
      Column ''case_id'' Integer_type [NotNull],
      Column ''note'' Text_type [NotNull],
      Column ''created_by'' Text_type [NotNull],
      Column ''created_at'' Timestamp_type [Default ''CURRENT_TIMESTAMP'']]
     [ForeignKey ''case_id'' ''siem_cases'' ''id'' ''CASCADE'']),
     execute q (CreateTable ''siem_case_events''
     [Column ''id'' Integer_type [PrimaryKey True],
      Column ''case_id'' Integer_type [NotNull],
      Column ''event_timestamp'' Text_type [NotNull],
      Column ''event_action'' Text_type [NotNull, DefaultText []],
      Column ''event_category'' Text_type [NotNull, DefaultText []],
      Column ''event_summary'' Text_type [DefaultText []],
      Column ''event_uuid'' Text_type [DefaultText []],
      Column ''event_details'' Text_type [DefaultText []]]
     [ForeignKey ''case_id'' ''siem_cases'' ''id'' ''CASCADE''])]"

definition migration_v18 :: "'d sqlite \<Rightarrow> 'd op" where
  "migration_v18 q = seq_ops
    [execute q (CreateTable ''siem_alert_actions''
     [Column ''id'' Integer_type [PrimaryKey True],
      Column ''event_key'' Text_type [NotNull],
      Column ''event_action'' Text_type [NotNull, DefaultText []],
      Column ''action'' Text_type [NotNull],
      Column ''taken_by'' Text_type [NotNull],
      Column ''taken_at'' Timestamp_type [Default ''CURRENT_TIMESTAMP''],
      Column ''note'' Text_type [DefaultText []],
      Column ''case_id'' Integer_type []] []),
     execute q (CreateIndex False ''idx_saa_event_key'' ''siem_alert_actions'' [''event_key''] [])]"

definition migration_v19 :: "'d sqlite \<Rightarrow> 'd op" where
  "migration_v19 q = seq_ops
    [quietly (execute q (AddColumn ''groups'' (Column ''soc_tier'' Text_type [Default ''NULL'']))),
     execute q (CreateTable ''soc_portal_config''
     [Column ''id'' Integer_type [PrimaryKey False, CheckCol ''id = 1''],
      Column ''enabled'' Integer_type [Default ''0''],
      Column ''bind_ip'' Text_type [DefaultText ''0.0.0.0''],
      Column ''bind_port'' Integer_type [Default ''8443''],
      Column ''ssl_cert_id'' Integer_type [Default ''NULL''],
      Column ''updated_at'' Timestamp_type [Default ''CURRENT_TIMESTAMP'']] []),
     execute q (Write [(''soc_portal_config'', [''id''])] ''INSERT OR IGNORE INTO soc_portal_config (id) VALUES (1)'' [])]"

definition migration_v20 :: "'d sqlite \<Rightarrow> 'd op" where
  "migration_v20 q = seq_ops
    [quietly (execute q (AddColumn ''siem_cases'' (Column ''escalation_tier'' Text_type [Default ''NULL'']))),
     quietly (execute q (AddColumn ''siem_cases'' (Column ''closure_type'' Text_type [Default ''NULL''])))]"

definition migration_v21 :: "'d sqlite \<Rightarrow> 'd op" where
  "migration_v21 q = seq_ops
    [quietly (execute q (AddColumn ''users'' (Column ''soc_tier'' Text_type [Default ''NULL''])))]"

definition migration_v22 :: "'d mig_env \<Rightarrow> 'd op" where
  "migration_v22 m = (let q = me_sql m in seq_ops
    [executescript q
    [CreateTable ''events''
     [Column ''id'' Integer_type [PrimaryKey True],
      Column ''ts'' Text_type [NotNull],
      Column ''severity'' Text_type [DefaultText ''info''],
      Column ''category'' Text_type [],
      Column ''action'' Text_type [],
      Column ''username'' Text_type [],
      Column ''remote_addr'' Text_type [],
      Column ''details'' Text_type []] [],
     CreateIndex False ''idx_events_ts'' ''events'' [''ts''] [],
     CreateIndex False ''idx_events_category'' ''events'' [''category''] [],
     CreateIndex False ''idx_events_severity'' ''events'' [''severity''] [],
     CreateIndex False ''idx_events_action'' ''events'' [''action''] []],
     backfill_audit_log m])"

definition migration_v23 :: "'d sqlite \<Rightarrow> 'd op" where
  "migration_v23 q = seq_ops
    [execute q (CreateTable ''correlation_rules''
     [Column ''id'' Integer_type [PrimaryKey True],
      Column ''name'' Text_type [NotNull],
      Column ''enabled'' Integer_type [Default ''1''],
      Column ''category_filter'' Text_type [DefaultText []],
      Column ''action_filter'' Text_type [DefaultText []],
      Column ''group_by'' Text_type [DefaultText ''remote_addr''],
      Column ''threshold'' Integer_type [Default ''5''],
      Column ''window_seconds'' Integer_type [Default ''300''],
      Column ''severity'' Text_type [DefaultText ''high''],
      Column ''mitre_technique'' Text_type [DefaultText []],
      Column ''created_at'' Timestamp_type [Default ''CURRENT_TIMESTAMP'']] []),
     if_none q [(''correlation_rules'', [])] ''SELECT COUNT(*) FROM correlation_rules'' (seq_ops
       [execute q (Write [(''correlation_rules'', [''name'', ''category_filter'', ''action_filter'', ''group_by'', ''threshold'', ''window_seconds'', ''severity'', ''mitre_technique''])] ''INSERT INTO correlation_rules (name, category_filter, action_filter, group_by, threshold, window_seconds, severity, mitre_technique) VALUES (?,?,?,?,?,?,?,?)'' [PStr ''Brute-force login attempt'', PStr [], PStr ''login_failed'', PStr ''remote_addr'', PInt 5, PInt 300, PStr ''high'', PStr ''T1110'']),
        execute q (Write [(''correlation_rules'', [''name'', ''category_filter'', ''action_filter'', ''group_by'', ''threshold'', ''window_seconds'', ''severity'', ''mitre_technique''])] ''INSERT INTO correlation_rules (name, category_filter, action_filter, group_by, threshold, window_seconds, severity, mitre_technique) VALUES (?,?,?,?,?,?,?,?)'' [PStr ''IDS alert flood from host'', PStr ''ids'', PStr ''ids_alert'', PStr ''details.src_ip'', PInt 10, PInt 300, PStr ''high'', PStr ''T1046''])])]"

definition migration_v24 :: "'d sqlite \<Rightarrow> 'd op" where
  "migration_v24 q = seq_ops
    [quietly (execute q (AddColumn ''soc_portal_config'' (Column ''vip_prefix'' Integer_type [Default ''32''])))]"

definition migration_v25 :: "'d sqlite \<Rightarrow> 'd op" where
  "migration_v25 q = seq_ops
    [quietly (execute q (AddColumn ''users'' (Column ''totp_secret'' Text_type [DefaultText []]))),
     quietly (execute q (AddColumn ''users'' (Column ''totp_enabled'' Integer_type [Default ''0''])))]"

definition migration_v26 :: "'d sqlite \<Rightarrow> 'd op" where
  "migration_v26 q = seq_ops
    [quietly (execute q (AddColumn ''correlation_rules'' (Column ''auto_case'' Integer_type [Default ''0'']))),
     quietly (execute q (AddColumn ''correlation_rules'' (Column ''prerequisite_action'' Text_type [DefaultText []]))),
     execute q (CreateTable ''api_tokens''
     [Column ''id'' Integer_type [PrimaryKey True],
      Column ''name'' Text_type [NotNull],
      Column ''token_hash'' Text_type [NotNull, UniqueCol],
      Column ''scopes'' Text_type [NotNull, DefaultText []],
      Column ''created_by'' Text_type [NotNull, DefaultText ''system''],
      Column ''created_at'' Timestamp_type [Default ''CURRENT_TIMESTAMP''],
      Column ''last_used_at'' Timestamp_type [],
      Column ''revoked_at'' Timestamp_type []] []),
     execute q (CreateIndex False ''idx_api_tokens_hash'' ''api_tokens'' [''token_hash''] [])]"

definition migration_v27 :: "'d sqlite \<Rightarrow> 'd op" where
  "migration_v27 q = seq_ops
    [execute q (CreateTable ''assets''
     [Column ''id'' Integer_type [PrimaryKey True],
      Column ''ip'' Text_type [NotNull],
      Column ''hostname'' Text_type [DefaultText []],
      Column ''mac'' Text_type [DefaultText []],
      Column ''owner'' Text_type [DefaultText []],
      Column ''business_unit'' Text_type [DefaultText []],
      Column ''criticality'' Text_type [DefaultText ''medium''],
      Column ''tags'' Text_type [DefaultText []],
      Column ''notes'' Text_type [DefaultText []],
      Column ''created_at'' Timestamp_type [Default ''CURRENT_TIMESTAMP''],
      Column ''updated_at'' Timestamp_type [Default ''CURRENT_TIMESTAMP'']] []),
     execute q (CreateIndex False ''idx_assets_ip'' ''assets'' [''ip''] []),
     execute q (CreateTable ''identities''
     [Column ''id'' Integer_type [PrimaryKey True],
      Column ''username'' Text_type [NotNull],
      Column ''full_name'' Text_type [DefaultText []],
      Column ''email'' Text_type [DefaultText []],
      Column ''role'' Text_type [DefaultText []],
      Column ''manager'' Text_type [DefaultText []],
      Column ''business_unit'' Text_type [DefaultText []],
      Column ''sensitivity'' Text_type [DefaultText ''standard''],
      Column ''notes'' Text_type [DefaultText []],
      Column ''created_at'' Timestamp_type [Default ''CURRENT_TIMESTAMP''],
      Column ''updated_at'' Timestamp_type [Default ''CURRENT_TIMESTAMP'']] []),
     execute q (CreateIndex False ''idx_identities_username'' ''identities'' [''username''] []),
     execute q (CreateTable ''risk_scores''
     [Column ''id'' Integer_type [PrimaryKey True],
      Column ''entity_type'' Text_type [NotNull],
      Column ''entity_value'' Text_type [NotNull],
      Column ''score'' Real_type [NotNull, Default ''0''],
      Column ''last_updated'' Timestamp_type [Default ''CURRENT_TIMESTAMP'']]
     [UniqueOf [''entity_type'', ''entity_value'']]),
     execute q (CreateIndex False ''idx_risk_scores_score'' ''risk_scores'' [''score''] []),
     execute q (CreateTable ''saved_searches''
     [Column ''id'' Integer_type [PrimaryKey True],
      Column ''name'' Text_type [NotNull],
      Column ''owner'' Text_type [NotNull, DefaultText ''system''],
      Column ''query_json'' Text_type [NotNull, DefaultText ''{}''],
      Column ''schedule_minutes'' Integer_type [Default ''0''],
      Column ''last_run_at'' Timestamp_type [],
      Column ''last_match_count'' Integer_type [Default ''0''],
      Column ''enabled'' Integer_type [Default ''1''],
      Column ''created_at'' Timestamp_type [Default ''CURRENT_TIMESTAMP'']] []),
     execute q (CreateTable ''playbooks''
     [Column ''id'' Integer_type [PrimaryKey True],
      Column ''name'' Text_type [NotNull],
      Column ''description'' Text_type [DefaultText []],
      Column ''enabled'' Integer_type [Default ''1''],
      Column ''trigger_action'' Text_type [NotNull, DefaultText ''correlation_match''],
      Column ''trigger_category'' Text_type [DefaultText ''security''],
      Column ''trigger_min_sev'' Text_type [DefaultText ''medium''],
      Column ''steps_json'' Text_type [NotNull, DefaultText ''[]''],
      Column ''created_by'' Text_type [DefaultText ''system''],
      Column ''created_at'' Timestamp_type [Default ''CURRENT_TIMESTAMP''],
      Column ''updated_at'' Timestamp_type [Default ''CURRENT_TIMESTAMP'']] []),
     execute q (CreateTable ''playbook_runs''
     [Column ''id'' Integer_type [PrimaryKey True],
      Column ''playbook_id'' Integer_type [NotNull],
      Column ''trigger_event_ts'' Text_type [],
      Column ''trigger_event_action'' Text_type [],
      Column ''status'' Text_type [DefaultText ''pending''],
      Column ''steps_log_json'' Text_type [DefaultText ''[]''],
      Column ''started_at'' Timestamp_type [Default ''CURRENT_TIMESTAMP''],
      Column ''finished_at'' Timestamp_type []]
     [ForeignKey ''playbook_id'' ''playbooks'' ''id'' ''CASCADE'']),
     execute q (CreateIndex False ''idx_playbook_runs_status'' ''playbook_runs'' [''status''] []),
     execute q (CreateTable ''reports''
     [Column ''id'' Integer_type [PrimaryKey True],
      Column ''report_type'' Text_type [NotNull],
      Column ''period_start'' Text_type [NotNull],
      Column ''period_end'' Text_type [NotNull],
      Column ''generated_by'' Text_type [DefaultText ''system''],
      Column ''generated_at'' Timestamp_type [Default ''CURRENT_TIMESTAMP''],
      Column ''html'' Text_type [NotNull],
      Column ''summary_json'' Text_type [DefaultText ''{}'']] []),
     quietly (seq_ops
       [execute q (CreateVirtual ''events_fts'' [''category'', ''action'', ''username'', ''remote_addr'', ''details'']),
        execute q (Write [(''events_fts'', [''category'', ''action'', ''username'', ''remote_addr'', ''details'']), (''events'', [''id'', ''category'', ''action'', ''username'', ''remote_addr'', ''details''])] (''INSERT INTO events_fts(rowid, category, action, username, remote_addr, details) SELECT id, COALESCE(category,'' @ apos @ apos @ ''), COALESCE(action,'' @ apos @ apos @ ''), COALESCE(username,'' @ apos @ apos @ ''), COALESCE(remote_addr,'' @ apos @ apos @ ''), COALESCE(details,'' @ apos @ apos @ '') FROM events WHERE id NOT IN (SELECT rowid FROM events_fts)'') []),
        execute q (CreateTrigger ''trg_events_fts_ai'' ''events'' (''INSERT INTO events_fts(rowid, category, action, username, remote_addr, details) VALUES (new.id, COALESCE(new.category,'' @ apos @ apos @ ''), COALESCE(new.action,'' @ apos @ apos @ ''), COALESCE(new.username,'' @ apos @ apos @ ''), COALESCE(new.remote_addr,'' @ apos @ apos @ ''), COALESCE(new.details,'' @ apos @ apos @ ''));'')),
        execute q (CreateTrigger ''trg_events_fts_ad'' ''events'' (''INSERT INTO events_fts(events_fts, rowid, category, action, username, remote_addr, details) VALUES ('' @ apos @ ''delete'' @ apos @ '', old.id, COALESCE(old.category,'' @ apos @ apos @ ''), COALESCE(old.action,'' @ apos @ apos @ ''), COALESCE(old.username,'' @ apos @ apos @ ''), COALESCE(old.remote_addr,'' @ apos @ apos @ ''), COALESCE(old.details,'' @ apos @ apos @ ''));''))])]"

definition migration_v28 :: "'d sqlite \<Rightarrow> 'd op" where
  "migration_v28 q = seq_ops
    [quietly (execute q (AddColumn ''ids_config'' (Column ''watchdog_enabled'' Integer_type [Default ''1''])))]"

definition migration_v29 :: "'d sqlite \<Rightarrow> 'd op" where
  "migration_v29 q = seq_ops
    [quietly (execute q (AddColumn ''openvpn_servers'' (Column ''ca_id'' Integer_type []))),
     quietly (execute q (AddColumn ''openvpn_servers'' (Column ''server_cert_id'' Integer_type []))),
     quietly (execute q (AddColumn ''openvpn_servers'' (Column ''inactivity_timeout'' Integer_type [Default ''300'']))),
     quietly (execute q (AddColumn ''openvpn_servers'' (Column ''ping_method'' Text_type [DefaultText ''keepalive'']))),
     quietly (execute q (AddColumn ''openvpn_servers'' (Column ''ping_interval'' Integer_type [Default ''10'']))),
     quietly (execute q (AddColumn ''openvpn_servers'' (Column ''ping_timeout'' Integer_type [Default ''60'']))),
     quietly (execute q (AddColumn ''openvpn_servers'' (Column ''dh_parameter_length'' Text_type [DefaultText ''2048'']))),
     quietly (execute q (AddColumn ''openvpn_servers'' (Column ''ecdh_curve'' Text_type [DefaultText ''default'']))),
     quietly (execute q (AddColumn ''openvpn_servers'' (Column ''data_encryption_algorithms'' Text_type [DefaultText ''AES-256-GCM'']))),
     quietly (execute q (AddColumn ''openvpn_servers'' (Column ''fallback_data_encryption_algorithm'' Text_type [DefaultText ''AES-256-CBC'']))),
     quietly (execute q (AddColumn ''openvpn_servers'' (Column ''auth_digest_algorithm'' Text_type [DefaultText ''SHA256'']))),
     quietly (execute q (AddColumn ''openvpn_servers'' (Column ''verbosity_level'' Integer_type [Default ''1'']))),
     execute q (CreateTable ''vpn_portal_users''
     [Column ''id'' Integer_type [PrimaryKey True],
      Column ''username'' Text_type [NotNull, UniqueCol],
      Column ''password_hash'' Text_type [NotNull],
      Column ''email'' Text_type [DefaultText []],
      Column ''full_name'' Text_type [DefaultText []],
      Column ''totp_secret_enc'' Text_type [DefaultText []],
      Column ''totp_enrolled'' Integer_type [Default ''0''],
      Column ''client_cert_id'' Integer_type [],
      Column ''ovpn_server_id'' Integer_type [],
      Column ''disabled'' Integer_type [Default ''0''],
      Column ''created_at'' Timestamp_type [Default ''CURRENT_TIMESTAMP''],
      Column ''last_login_at'' Timestamp_type []] []),
     execute q (CreateIndex False ''idx_vpn_portal_users_username'' ''vpn_portal_users'' [''username''] []),
     execute q (CreateTable ''vpn_portal_login_attempts''
     [Column ''id'' Integer_type [PrimaryKey True],
      Column ''username'' Text_type [DefaultText []],
      Column ''remote_addr'' Text_type [DefaultText []],
      Column ''success'' Integer_type [Default ''0''],
      Column ''reason'' Text_type [DefaultText []],
      Column ''ts'' Timestamp_type [Default ''CURRENT_TIMESTAMP'']] []),
     execute q (CreateIndex False ''idx_vpla_user_ts'' ''vpn_portal_login_attempts'' [''username'', ''ts''] []),
     execute q (CreateIndex False ''idx_vpla_ip_ts'' ''vpn_portal_login_attempts'' [''remote_addr'', ''ts''] []),
     execute q (CreateTable ''vpn_portal_config''
     [Column ''id'' Integer_type [PrimaryKey False, CheckCol ''id = 1''],
      Column ''enabled'' Integer_type [Default ''0''],
      Column ''public_hostname'' Text_type [DefaultText []],
      Column ''updated_at'' Timestamp_type [Default ''CURRENT_TIMESTAMP'']] []),
     execute q (Write [(''vpn_portal_config'', [''id''])] ''INSERT OR IGNORE INTO vpn_portal_config (id) VALUES (1)'' [])]"

definition migration_v30 :: "'d sqlite \<Rightarrow> 'd op" where
  "migration_v30 q = seq_ops
    [execute q (CreateTable ''mail_alerts_config''
     [Column ''id'' Integer_type [PrimaryKey False, CheckCol ''id = 1''],
      Column ''enabled'' Integer_type [Default ''1''],
      Column ''smtp_host'' Text_type [DefaultText ''smtp.gmail.com''],
      Column ''smtp_port'' Integer_type [Default ''587''],
      Column ''smtp_security'' Text_type [DefaultText ''starttls''],
      Column ''smtp_username'' Text_type [DefaultText []],
      Column ''smtp_app_password'' Text_type [DefaultText []],
      Column ''from_name'' Text_type [DefaultText ''Smart Shield''],
      Column ''min_severity'' Text_type [DefaultText ''high''],
      Column ''category_filter'' Text_type [DefaultText []],
      Column ''cooldown_minutes'' Integer_type [Default ''10''],
      Column ''max_per_hour'' Integer_type [Default ''20''],
      Column ''updated_at'' Timestamp_type [Default ''CURRENT_TIMESTAMP'']] []),
     execute q (Write [(''mail_alerts_config'', [''id''])] ''INSERT OR IGNORE INTO mail_alerts_config (id) VALUES (1)'' []),
     execute q (CreateTable ''mail_alert_recipients''
     [Column ''id'' Integer_type [PrimaryKey True],
      Column ''user_id'' Integer_type [],
      Column ''email'' Text_type [DefaultText []],
      Column ''label'' Text_type [DefaultText []],
      Column ''disabled'' Integer_type [Default ''0''],
      Column ''created_at'' Timestamp_type [Default ''CURRENT_TIMESTAMP'']] [])]"

definition migration_v31 :: "'d sqlite \<Rightarrow> 'd op" where
  "migration_v31 q = seq_ops
    [execute q (CreateTable ''soc_blocked_ips''
     [Column ''id'' Integer_type [PrimaryKey True],
      Column ''ip'' Text_type [NotNull, UniqueCol],
      Column ''note'' Text_type [DefaultText []],
      Column ''blocked_by'' Text_type [DefaultText []],
      Column ''created_at'' Timestamp_type [Default ''CURRENT_TIMESTAMP'']] []),
     execute q (CreateTable ''siem_alert_assignments''
     [Column ''event_key'' Text_type [PrimaryKey False],
      Column ''assignee_id'' Integer_type [],
      Column ''assignee_name'' Text_type [DefaultText []],
      Column ''assigned_by'' Text_type [DefaultText []],
      Column ''assigned_at'' Timestamp_type [Default ''CURRENT_TIMESTAMP'']] []),
     execute q (CreateTable ''soc_active_sessions''
     [Column ''user_id'' Integer_type [PrimaryKey False],
      Column ''username'' Text_type [DefaultText []],
      Column ''tier'' Text_type [DefaultText []],
      Column ''last_seen'' Timestamp_type [Default ''CURRENT_TIMESTAMP'']] [])]"

definition migration_v32 :: "'d sqlite \<Rightarrow> 'd op" where
  "migration_v32 q = seq_ops
    [quietly (execute q (AddColumn ''soc_portal_config'' (Column ''public_url'' Text_type [DefaultText []]))),
     quietly (execute q (AddColumn ''soc_portal_config'' (Column ''allowed_networks'' Text_type [DefaultText []]))),
     quietly (execute q (AddColumn ''soc_portal_config'' (Column ''external_ingest_enabled'' Integer_type [Default ''0'']))),
     quietly (execute q (AddColumn ''soc_portal_config'' (Column ''retention_days'' Integer_type [Default ''90'']))),
     execute q (CreateTable ''soc_recommendations''
     [Column ''id'' Integer_type [PrimaryKey True],
      Column ''created_at'' Timestamp_type [Default ''CURRENT_TIMESTAMP''],
      Column ''source_alert_id'' Text_type [DefaultText []],
      Column ''action_type'' Text_type [NotNull],
      Column ''target_value'' Text_type [NotNull],
      Column ''reason'' Text_type [DefaultText []],
      Column ''severity'' Text_type [DefaultText ''medium''],
      Column ''status'' Text_type [DefaultText ''pending''],
      Column ''created_by'' Text_type [DefaultText []],
      Column ''reviewed_by'' Text_type [DefaultText []],
      Column ''reviewed_at'' Timestamp_type [],
      Column ''exported_at'' Timestamp_type [],
      Column ''core_approved_by'' Text_type [DefaultText []],
      Column ''core_approved_at'' Timestamp_type []] []),
     execute q (CreateIndex False ''idx_soc_recommendations_status'' ''soc_recommendations'' [''status''] [])]"

definition migration_v33 :: "'d sqlite \<Rightarrow> 'd op" where
  "migration_v33 q = seq_ops
    [execute q (CreateTable ''captive_auth_attempts''
     [Column ''id'' Integer_type [PrimaryKey True],
      Column ''ip_address'' Text_type [NotNull],
      Column ''username'' Text_type [DefaultText []],
      Column ''auth_type'' Text_type [DefaultText []],
      Column ''success'' Integer_type [Default ''0''],
      Column ''created_at'' Integer_type [NotNull]] []),
     execute q (CreateIndex False ''idx_captive_auth_attempts_ip_time'' ''captive_auth_attempts'' [''ip_address'', ''created_at''] [])]"

definition migration_v34 :: "'d mig_env \<Rightarrow> 'd op" where
  "migration_v34 m = (let q = me_sql m in seq_ops
    [unless_column ''events'' ''event_uuid'' (quietly (execute q (AddColumn ''events'' (Column ''event_uuid'' Text_type [])))),
     unless_column ''events'' ''source_type'' (quietly (execute q (AddColumn ''events'' (Column ''source_type'' Text_type [])))),
     unless_column ''events'' ''source_name'' (quietly (execute q (AddColumn ''events'' (Column ''source_name'' Text_type [])))),
     unless_column ''events'' ''src_ip'' (quietly (execute q (AddColumn ''events'' (Column ''src_ip'' Text_type [])))),
     unless_column ''events'' ''src_port'' (quietly (execute q (AddColumn ''events'' (Column ''src_port'' Integer_type [])))),
     unless_column ''events'' ''dst_ip'' (quietly (execute q (AddColumn ''events'' (Column ''dst_ip'' Text_type [])))),
     unless_column ''events'' ''dst_port'' (quietly (execute q (AddColumn ''events'' (Column ''dst_port'' Integer_type [])))),
     unless_column ''events'' ''protocol'' (quietly (execute q (AddColumn ''events'' (Column ''protocol'' Text_type [])))),
     unless_column ''events'' ''interface'' (quietly (execute q (AddColumn ''events'' (Column ''interface'' Text_type [])))),
     unless_column ''events'' ''direction'' (quietly (execute q (AddColumn ''events'' (Column ''direction'' Text_type [])))),
     unless_column ''events'' ''hostname'' (quietly (execute q (AddColumn ''events'' (Column ''hostname'' Text_type [])))),
     unless_column ''events'' ''mac'' (quietly (execute q (AddColumn ''events'' (Column ''mac'' Text_type [])))),
     unless_column ''events'' ''domain'' (quietly (execute q (AddColumn ''events'' (Column ''domain'' Text_type [])))),
     unless_column ''events'' ''url'' (quietly (execute q (AddColumn ''events'' (Column ''url'' Text_type [])))),
     unless_column ''events'' ''rule_id'' (quietly (execute q (AddColumn ''events'' (Column ''rule_id'' Text_type [])))),
     unless_column ''events'' ''rule_name'' (quietly (execute q (AddColumn ''events'' (Column ''rule_name'' Text_type [])))),
     unless_column ''events'' ''policy_id'' (quietly (execute q (AddColumn ''events'' (Column ''policy_id'' Text_type [])))),
     unless_column ''events'' ''policy_name'' (quietly (execute q (AddColumn ''events'' (Column ''policy_name'' Text_type [])))),
     unless_column ''events'' ''mitre_tactic'' (quietly (execute q (AddColumn ''events'' (Column ''mitre_tactic'' Text_type [])))),
     unless_column ''events'' ''mitre_technique'' (quietly (execute q (AddColumn ''events'' (Column ''mitre_technique'' Text_type [])))),
     unless_column ''events'' ''soc_origin'' (quietly (execute q (AddColumn ''events'' (Column ''soc_origin'' Integer_type [Default ''0''])))),
     unless_column ''events'' ''raw'' (quietly (execute q (AddColumn ''events'' (Column ''raw'' Text_type [])))),
     backfill_op m,
     execute q (CreateIndex True ''idx_events_event_uuid'' ''events'' [''event_uuid''] []),
     quietly (execute q (CreateIndex False ''idx_events_source_type'' ''events'' [''source_type''] [])),
     quietly (execute q (CreateIndex False ''idx_events_src_ip'' ''events'' [''src_ip''] [])),
     quietly (execute q (CreateIndex False ''idx_events_dst_ip'' ''events'' [''dst_ip''] [])),
     quietly (execute q (CreateIndex False ''idx_events_dst_port'' ''events'' [''dst_port''] [])),
     quietly (execute q (CreateIndex False ''idx_events_protocol'' ''events'' [''protocol''] [])),
     quietly (execute q (CreateIndex False ''idx_events_interface'' ''events'' [''interface''] [])),
     quietly (execute q (CreateIndex False ''idx_events_domain'' ''events'' [''domain''] [])),
     quietly (execute q (CreateIndex False ''idx_events_rule_id'' ''events'' [''rule_id''] [])),
     quietly (execute q (CreateIndex False ''idx_events_soc_origin'' ''events'' [''soc_origin''] [])),
     quietly (execute q (CreateIndex False ''idx_events_ts_sev'' ''events'' [''ts'', ''severity''] []))])"

definition migration_v35 :: "'d sqlite \<Rightarrow> 'd op" where
  "migration_v35 q = seq_ops
    [unless_column ''siem_alert_actions'' ''event_uuid'' (quietly (execute q (AddColumn ''siem_alert_actions'' (Column ''event_uuid'' Text_type [])))),
     unless_column ''siem_alert_assignments'' ''event_uuid'' (quietly (execute q (AddColumn ''siem_alert_assignments'' (Column ''event_uuid'' Text_type [])))),
     execute q (Write [(''siem_alert_actions'', [''event_uuid'', ''event_key'']), (''events'', [''event_uuid'', ''ts'', ''id''])] (''UPDATE siem_alert_actions SET event_uuid = (SELECT e.event_uuid FROM events e WHERE e.ts = siem_alert_actions.event_key ORDER BY e.id DESC LIMIT 1) WHERE (event_uuid IS NULL OR event_uuid = '' @ apos @ apos @ '') AND event_key IS NOT NULL'') []),
     execute q (Write [(''siem_alert_assignments'', [''event_uuid'', ''event_key'']), (''events'', [''event_uuid'', ''ts'', ''id''])] (''UPDATE siem_alert_assignments SET event_uuid = (SELECT e.event_uuid FROM events e WHERE e.ts = siem_alert_assignments.event_key ORDER BY e.id DESC LIMIT 1) WHERE (event_uuid IS NULL OR event_uuid = '' @ apos @ apos @ '') AND event_key IS NOT NULL'') []),
     quietly (execute q (CreateIndex False ''idx_saa_event_uuid'' ''siem_alert_actions'' [''event_uuid''] [])),
     quietly (execute q (CreateIndex False ''idx_saasign_event_uuid'' ''siem_alert_assignments'' [''event_uuid''] []))]"

definition migration_v36 :: "'d sqlite \<Rightarrow> 'd op" where
  "migration_v36 q = seq_ops
    [executescript q
    [CreateTable ''firewall_events''
     [Column ''id'' Integer_type [PrimaryKey True],
      Column ''event_id'' Integer_type [],
      Column ''event_uuid'' Text_type [],
      Column ''ts'' Text_type [NotNull],
      Column ''action'' Text_type [NotNull],
      Column ''direction'' Text_type [],
      Column ''interface'' Text_type [],
      Column ''ip_version'' Integer_type [],
      Column ''protocol'' Text_type [],
      Column ''src_ip'' Text_type [],
      Column ''src_port'' Integer_type [],
      Column ''dst_ip'' Text_type [],
      Column ''dst_port'' Integer_type [],
      Column ''rule_id'' Text_type [],
      Column ''rule_label'' Text_type [],
      Column ''anchor'' Text_type [],
      Column ''reason'' Text_type [],
      Column ''tcp_flags'' Text_type [],
      Column ''icmp_type'' Text_type [],
      Column ''icmp_code'' Text_type [],
      Column ''packet_length'' Integer_type [],
      Column ''nat_src_ip'' Text_type [],
      Column ''nat_src_port'' Integer_type [],
      Column ''nat_dst_ip'' Text_type [],
      Column ''nat_dst_port'' Integer_type [],
      Column ''hostname'' Text_type [],
      Column ''mac'' Text_type [],
      Column ''severity'' Text_type [DefaultText ''low''],
      Column ''policy_source'' Text_type [],
      Column ''captive_portal'' Integer_type [Default ''0''],
      Column ''content_policy'' Integer_type [Default ''0''],
      Column ''soc_origin'' Integer_type [Default ''0''],
      Column ''raw_line'' Text_type [],
      Column ''created_at'' Text_type [Default ''CURRENT_TIMESTAMP'']] [],
     CreateIndex False ''idx_fwev_ts'' ''firewall_events'' [''ts''] [],
     CreateIndex False ''idx_fwev_action'' ''firewall_events'' [''action''] [],
     CreateIndex False ''idx_fwev_interface'' ''firewall_events'' [''interface''] [],
     CreateIndex False ''idx_fwev_direction'' ''firewall_events'' [''direction''] [],
     CreateIndex False ''idx_fwev_src_ip'' ''firewall_events'' [''src_ip''] [],
     CreateIndex False ''idx_fwev_dst_ip'' ''firewall_events'' [''dst_ip''] [],
     CreateIndex False ''idx_fwev_dst_port'' ''firewall_events'' [''dst_port''] [],
     CreateIndex False ''idx_fwev_protocol'' ''firewall_events'' [''protocol''] [],
     CreateIndex False ''idx_fwev_rule_id'' ''firewall_events'' [''rule_id''] [],
     CreateIndex False ''idx_fwev_event_uuid'' ''firewall_events'' [''event_uuid''] [],
     CreateIndex False ''idx_fwev_soc_origin'' ''firewall_events'' [''soc_origin''] [],
     CreateIndex False ''idx_fwev_severity_ts'' ''firewall_events'' [''severity'', ''ts''] []],
     unless_column ''firewall_rules_lan'' ''log_enabled'' (quietly (execute q (AddColumn ''firewall_rules_lan'' (Column ''log_enabled'' Integer_type [Default ''0''])))),
     unless_column ''firewall_rules_wan'' ''log_enabled'' (quietly (execute q (AddColumn ''firewall_rules_wan'' (Column ''log_enabled'' Integer_type [Default ''0''])))),
     unless_column ''firewall_rules_floating'' ''log_enabled'' (quietly (execute q (AddColumn ''firewall_rules_floating'' (Column ''log_enabled'' Integer_type [Default ''0'']))))]"

definition migration_v37 :: "'d sqlite \<Rightarrow> 'd op" where
  "migration_v37 q = seq_ops
    [executescript q
    [CreateTable ''alerts''
     [Column ''id'' Integer_type [PrimaryKey True],
      Column ''alert_uuid'' Text_type [UniqueCol, NotNull],
      Column ''first_seen'' Text_type [NotNull],
      Column ''last_seen'' Text_type [NotNull],
      Column ''status'' Text_type [NotNull, DefaultText ''new''],
      Column ''severity'' Text_type [NotNull, DefaultText ''medium''],
      Column ''category'' Text_type [],
      Column ''alert_type'' Text_type [],
      Column ''title'' Text_type [],
      Column ''description'' Text_type [],
      Column ''source_event_id'' Integer_type [],
      Column ''source_event_uuid'' Text_type [],
      Column ''dedup_key'' Text_type [NotNull],
      Column ''count'' Integer_type [NotNull, Default ''1''],
      Column ''src_ip'' Text_type [],
      Column ''dst_ip'' Text_type [],
      Column ''username'' Text_type [],
      Column ''hostname'' Text_type [],
      Column ''mac'' Text_type [],
      Column ''domain'' Text_type [],
      Column ''rule_id'' Text_type [],
      Column ''rule_name'' Text_type [],
      Column ''signature_id'' Text_type [],
      Column ''mitre_tactic'' Text_type [],
      Column ''mitre_technique'' Text_type [],
      Column ''risk_score'' Real_type [NotNull, Default ''0''],
      Column ''assigned_to'' Integer_type [],
      Column ''assigned_name'' Text_type [],
      Column ''assigned_by'' Text_type [],
      Column ''assigned_at'' Text_type [],
      Column ''acknowledged_by'' Text_type [],
      Column ''acknowledged_at'' Text_type [],
      Column ''closed_by'' Text_type [],
      Column ''closed_at'' Text_type [],
      Column ''closure_type'' Text_type [],
      Column ''suppression_id'' Integer_type [],
      Column ''case_id'' Integer_type [],
      Column ''details'' Text_type [],
      Column ''created_at'' Text_type [Default ''CURRENT_TIMESTAMP''],
      Column ''updated_at'' Text_type [Default ''CURRENT_TIMESTAMP'']] [],
     CreateIndex False ''idx_alerts_status'' ''alerts'' [''status''] [],
     CreateIndex False ''idx_alerts_severity'' ''alerts'' [''severity''] [],
     CreateIndex False ''idx_alerts_last_seen'' ''alerts'' [''last_seen''] [],
     CreateIndex True ''idx_alerts_dedup_open'' ''alerts'' [''dedup_key''] (''status NOT IN ('' @ apos @ ''closed'' @ apos @ '','' @ apos @ ''false_positive'' @ apos @ '','' @ apos @ ''suppressed'' @ apos @ '')''),
     CreateIndex False ''idx_alerts_src_ip'' ''alerts'' [''src_ip''] [],
     CreateIndex False ''idx_alerts_dst_ip'' ''alerts'' [''dst_ip''] [],
     CreateIndex False ''idx_alerts_assigned_to'' ''alerts'' [''assigned_to''] [],
     CreateIndex False ''idx_alerts_case_id'' ''alerts'' [''case_id''] [],
     CreateTable ''alert_actions''
     [Column ''id'' Integer_type [PrimaryKey True],
      Column ''alert_id'' Integer_type [NotNull],
      Column ''action'' Text_type [NotNull],
      Column ''actor'' Text_type [NotNull],
      Column ''note'' Text_type [],
      Column ''old_status'' Text_type [],
      Column ''new_status'' Text_type [],
      Column ''details'' Text_type [],
      Column ''created_at'' Text_type [Default ''CURRENT_TIMESTAMP'']]
     [ForeignKey ''alert_id'' ''alerts'' ''id'' []],
     CreateIndex False ''idx_alert_actions_alert_id'' ''alert_actions'' [''alert_id''] [],
     CreateIndex False ''idx_alert_actions_created_at'' ''alert_actions'' [''created_at''] [],
     CreateTable ''alert_suppressions''
     [Column ''id'' Integer_type [PrimaryKey True],
      Column ''name'' Text_type [NotNull],
      Column ''enabled'' Integer_type [NotNull, Default ''1''],
      Column ''match_type'' Text_type [NotNull],
      Column ''match_value'' Text_type [NotNull],
      Column ''reason'' Text_type [],
      Column ''created_by'' Text_type [],
      Column ''created_at'' Text_type [Default ''CURRENT_TIMESTAMP''],
      Column ''expires_at'' Text_type [],
      Column ''details'' Text_type []] [],
     CreateIndex False ''idx_alert_supp_enabled'' ''alert_suppressions'' [''enabled''] [],
     CreateIndex False ''idx_alert_supp_match'' ''alert_suppressions'' [''match_type'', ''match_value''] [],
     CreateTable ''case_alerts''
     [Column ''id'' Integer_type [PrimaryKey True],
      Column ''case_id'' Integer_type [NotNull],
      Column ''alert_id'' Integer_type [NotNull],
      Column ''added_by'' Text_type [],
      Column ''added_at'' Text_type [Default ''CURRENT_TIMESTAMP'']]
     [UniqueOf [''case_id'', ''alert_id''],
      ForeignKey ''case_id'' ''siem_cases'' ''id'' [],
      ForeignKey ''alert_id'' ''alerts'' ''id'' []],
     CreateIndex False ''idx_case_alerts_case_id'' ''case_alerts'' [''case_id''] [],
     CreateIndex False ''idx_case_alerts_alert_id'' ''case_alerts'' [''alert_id''] []]]"

definition migration_v38 :: "'d sqlite \<Rightarrow> 'd op" where
  "migration_v38 q = seq_ops
    [executescript q
    [CreateTable ''collector_state''
     [Column ''source_name'' Text_type [PrimaryKey False],
      Column ''source_type'' Text_type [],
      Column ''enabled'' Integer_type [NotNull, Default ''1''],
      Column ''path'' Text_type [],
      Column ''inode'' Text_type [],
      Column ''offset'' Integer_type [NotNull, Default ''0''],
      Column ''file_size'' Integer_type [NotNull, Default ''0''],
      Column ''last_seen'' Text_type [],
      Column ''last_event_ts'' Text_type [],
      Column ''last_error'' Text_type [],
      Column ''events_collected'' Integer_type [NotNull, Default ''0''],
      Column ''events_dropped'' Integer_type [NotNull, Default ''0''],
      Column ''restart_count'' Integer_type [NotNull, Default ''0''],
      Column ''updated_at'' Text_type [Default ''CURRENT_TIMESTAMP'']] [],
     CreateTable ''event_dead_letter''
     [Column ''id'' Integer_type [PrimaryKey True],
      Column ''ts'' Text_type [NotNull],
      Column ''source_type'' Text_type [],
      Column ''source_name'' Text_type [],
      Column ''reason'' Text_type [],
      Column ''raw_payload'' Text_type [],
      Column ''details'' Text_type [],
      Column ''created_at'' Text_type [Default ''CURRENT_TIMESTAMP'']] [],
     CreateIndex False ''idx_dlq_ts'' ''event_dead_letter'' [''ts''] [],
     CreateIndex False ''idx_dlq_source'' ''event_dead_letter'' [''source_type'', ''source_name''] []]]"

definition migration_v39 :: "'d sqlite \<Rightarrow> 'd op" where
  "migration_v39 q = seq_ops
    [executescript q
    [CreateTable ''dns_events''
     [Column ''id'' Integer_type [PrimaryKey True],
      Column ''event_id'' Integer_type [],
      Column ''event_uuid'' Text_type [],
      Column ''ts'' Text_type [NotNull],
      Column ''client_ip'' Text_type [],
      Column ''client_port'' Integer_type [],
      Column ''query'' Text_type [NotNull],
      Column ''qtype'' Text_type [],
      Column ''rcode'' Text_type [],
      Column ''action'' Text_type [],
      Column ''blocked'' Integer_type [Default ''0''],
      Column ''redirected'' Integer_type [Default ''0''],
      Column ''policy_id'' Text_type [],
      Column ''policy_name'' Text_type [],
      Column ''matched_domain'' Text_type [],
      Column ''category'' Text_type [],
      Column ''resolver'' Text_type [],
      Column ''hostname'' Text_type [],
      Column ''mac'' Text_type [],
      Column ''raw_line'' Text_type [],
      Column ''created_at'' Text_type [Default ''CURRENT_TIMESTAMP'']] [],
     CreateIndex False ''idx_dns_ts'' ''dns_events'' [''ts''] [],
     CreateIndex False ''idx_dns_client_ip'' ''dns_events'' [''client_ip''] [],
     CreateIndex False ''idx_dns_query'' ''dns_events'' [''query''] [],
     CreateIndex False ''idx_dns_blocked'' ''dns_events'' [''blocked''] [],
     CreateIndex False ''idx_dns_action'' ''dns_events'' [''action''] [],
     CreateIndex False ''idx_dns_matched'' ''dns_events'' [''matched_domain''] [],
     CreateIndex False ''idx_dns_event_uuid'' ''dns_events'' [''event_uuid''] []],
     or_else
       (execute q (Write [(''siem_state'', [''key'', ''value''])] (''INSERT INTO siem_state (key, value) VALUES ('' @ apos @ ''dns_logging_mode'' @ apos @ '', '' @ apos @ ''blocked_only'' @ apos @ '') ON CONFLICT(key) DO NOTHING'') []))
       (seed_logging_mode q)]"

definition migration_v40 :: "'d sqlite \<Rightarrow> 'd op" where
  "migration_v40 q = seq_ops
    [unless_column ''dns_events'' ''policy_source'' (execute q (AddColumn ''dns_events'' (Column ''policy_source'' Text_type []))),
     execute q (CreateIndex False ''idx_dns_policy_source'' ''dns_events'' [''policy_source''] [])]"

definition migration_v41 :: "'d sqlite \<Rightarrow> 'd op" where
  "migration_v41 q = seq_ops
    [executescript q
    [CreateTable ''alert_observations''
     [Column ''id'' Integer_type [PrimaryKey True],
      Column ''alert_id'' Integer_type [NotNull],
      Column ''event_uuid'' Text_type [],
      Column ''observed_at'' Text_type [NotNull, Default ''CURRENT_TIMESTAMP''],
      Column ''src_ip'' Text_type [],
      Column ''dst_ip'' Text_type [],
      Column ''domain'' Text_type [],
      Column ''url'' Text_type [],
      Column ''username'' Text_type [],
      Column ''hostname'' Text_type [],
      Column ''summary'' Text_type [],
      Column ''raw_json'' Text_type []]
     [ForeignKey ''alert_id'' ''alerts'' ''id'' []],
     CreateIndex False ''idx_alert_obs_alert'' ''alert_observations'' [''alert_id''] [],
     CreateIndex False ''idx_alert_obs_time'' ''alert_observations'' [''observed_at''] [],
     CreateIndex False ''idx_alert_obs_event_uuid'' ''alert_observations'' [''event_uuid''] []]]"

definition migration_v42 :: "'d sqlite \<Rightarrow> 'd op" where
  "migration_v42 q = seq_ops
    [unless_column ''firewall_events'' ''policy_id'' (execute q (AddColumn ''firewall_events'' (Column ''policy_id'' Text_type []))),
     unless_column ''firewall_events'' ''policy_name'' (execute q (AddColumn ''firewall_events'' (Column ''policy_name'' Text_type []))),
     unless_column ''firewall_events'' ''zone_in'' (execute q (AddColumn ''firewall_events'' (Column ''zone_in'' Text_type []))),
     unless_column ''firewall_events'' ''zone_out'' (execute q (AddColumn ''firewall_events'' (Column ''zone_out'' Text_type []))),
     unless_column ''firewall_events'' ''nat_translated_src'' (execute q (AddColumn ''firewall_events'' (Column ''nat_translated_src'' Text_type []))),
     unless_column ''firewall_events'' ''nat_translated_dst'' (execute q (AddColumn ''firewall_events'' (Column ''nat_translated_dst'' Text_type []))),
     execute q (CreateIndex False ''idx_firewall_events_policy_id'' ''firewall_events'' [''policy_id''] [])]"

definition migration_v43 :: "'d sqlite \<Rightarrow> 'd op" where
  "migration_v43 q = seq_ops
    [execute q (Write [(''ids_threat_feeds'', [''abusech_dry_run'', ''abusech_auth_key''])] (''UPDATE ids_threat_feeds SET abusech_dry_run = 1 WHERE COALESCE(abusech_auth_key, '' @ apos @ apos @ '') = '' @ apos @ apos @ '' AND abusech_dry_run = 0'') [])]"

definition migration_v44 :: "'d sqlite \<Rightarrow> 'd op" where
  "migration_v44 q = seq_ops
    [execute q (Write [(''mail_alerts_config'', [''enabled'', ''id'', ''smtp_username'', ''smtp_app_password''])] (''UPDATE mail_alerts_config SET enabled = 1 WHERE id = 1 AND COALESCE(enabled, 0) = 0 AND COALESCE(TRIM(smtp_username), '' @ apos @ apos @ '') = '' @ apos @ apos @ '' AND COALESCE(TRIM(smtp_app_password), '' @ apos @ apos @ '') = '' @ apos @ apos) [])]"

definition migration_v45 :: "'d sqlite \<Rightarrow> 'd op" where
  "migration_v45 q = seq_ops
    [quietly (execute q (AddColumn ''ids_config'' (Column ''ips_peer_interface'' Text_type [DefaultText []]))),
     quietly (execute q (AddColumn ''ids_config'' (Column ''allow_degraded_rules'' Integer_type [NotNull, Default ''0''])))]"

definition migration_v46 :: "'d sqlite \<Rightarrow> 'd op" where
  "migration_v46 q = seq_ops
    [quietly (execute q (AddColumn ''siem_case_events'' (Column ''event_uuid'' Text_type [DefaultText []]))),
     quietly (execute q (AddColumn ''siem_case_events'' (Column ''event_details'' Text_type [DefaultText []])))]"

definition migration_v47 :: "'d sqlite \<Rightarrow> 'd op" where
  "migration_v47 q = seq_ops
    [quietly (execute q (AddColumn ''ids_config'' (Column ''ips_fallback_reason'' Text_type [DefaultText []])))]"

definition migration_v48 :: "'d sqlite \<Rightarrow> 'd op" where
  "migration_v48 q = seq_ops
    [execute q (CreateTable ''ids_blocked_ips''
     [Column ''id'' Integer_type [PrimaryKey True],
      Column ''ip'' Text_type [NotNull],
      Column ''source_alert_id'' Text_type [DefaultText []],
      Column ''signature'' Text_type [DefaultText []],
      Column ''severity'' Text_type [DefaultText []],
      Column ''added_at'' Real_type [NotNull],
      Column ''expires_at'' Real_type [NotNull]] []),
     execute q (CreateIndex False ''idx_ids_blocked_ips_ip'' ''ids_blocked_ips'' [''ip''] []),
     quietly (execute q (AddColumn ''ids_config'' (Column ''auto_block_ttl_seconds'' Integer_type [Default ''3600'']))),
     quietly (execute q (AddColumn ''ids_config'' (Column ''auto_block_sids'' Text_type [DefaultText []])))]"

definition migration_v49 :: "'d sqlite \<Rightarrow> 'd op" where
  "migration_v49 q = seq_ops
    [execute q (CreateTable ''ddns_status''
     [Column ''provider'' Text_type [PrimaryKey False],
      Column ''last_attempt_at'' Real_type [],
      Column ''last_success_at'' Real_type [],
      Column ''last_ip'' Text_type [DefaultText []],
      Column ''last_error'' Text_type [DefaultText []],
      Column ''updated_at'' Real_type []] [])]"

definition migration_v50 :: "'d sqlite \<Rightarrow> 'd op" where
  "migration_v50 q = seq_ops
    [quietly (execute q (AddColumn ''mail_alerts_config'' (Column ''per_source_cooldown_minutes'' Integer_type [Default ''10'']))),
     quietly (execute q (AddColumn ''mail_alerts_config'' (Column ''digest_window_minutes'' Integer_type [Default ''0''])))]"

definition migrations :: "'d mig_env \<Rightarrow> (nat \<times> 'd op) list" where
  "migrations m = (let q = me_sql m in
    [(2, migration_v2 q),
     (3, migration_v3 q),
     (4, migration_v4 q),
     (5, migration_v5 q),
     (6, migration_v6 q),
     (7, migration_v7 q),
     (8, migration_v8 q),
     (9, migration_v9 q),
     (10, migration_v10 q),
     (11, migration_v11 q),
     (12, migration_v12 q),
     (13, migration_v13 q),
     (14, migration_v14 q),
     (15, migration_v15 q),
     (16, migration_v16 q),
     (17, migration_v17 q),
     (18, migration_v18 q),
     (19, migration_v19 q),
     (20, migration_v20 q),
     (21, migration_v21 q),
     (22, migration_v22 m),
     (23, migration_v23 q),
     (24, migration_v24 q),
     (25, migration_v25 q),
     (26, migration_v26 q),
     (27, migration_v27 q),
     (28, migration_v28 q),
     (29, migration_v29 q),
     (30, migration_v30 q),
     (31, migration_v31 q),
     (32, migration_v32 q),
     (33, migration_v33 q),
     (34, migration_v34 m),
     (35, migration_v35 q),
     (36, migration_v36 q),
     (37, migration_v37 q),
     (38, migration_v38 q),
     (39, migration_v39 q),
     (40, migration_v40 q),
     (41, migration_v41 q),
     (42, migration_v42 q),
     (43, migration_v43 q),
     (44, migration_v44 q),
     (45, migration_v45 q),
     (46, migration_v46 q),
     (47, migration_v47 q),
     (48, migration_v48 q),
     (49, migration_v49 q),
     (50, migration_v50 q)])"

section \<open>The runner\<close>

definition current_schema_version :: nat where
  "current_schema_version = 50"

definition create_schema_version :: "'d sqlite \<Rightarrow> 'd op" where
  "create_schema_version q = execute q (CreateTable ''schema_version''
     [Column ''version'' Integer_type [PrimaryKey False], Column ''applied_at'' Timestamp_type [Default ''CURRENT_TIMESTAMP'']] [])"

definition get_db_version :: "'d db \<Rightarrow> nat" where
  "get_db_version d = (if has_table ''schema_version'' d then foldr max (sd_versions d) 0 else 0)"

definition set_db_version :: "'d sqlite \<Rightarrow> nat \<Rightarrow> 'd op" where
  "set_db_version q v = execute q (InsertVersion True v)"

definition failed_text :: "nat \<Rightarrow> pyexn \<Rightarrow> string" where
  "failed_text v e =
     ''Migration v'' @ str_nat v @ '' failed: '' @ exn_str e @ ''.  Database has been rolled back to the previous state.''"

fun run_pending :: "'d sqlite \<Rightarrow> (nat \<times> 'd op) list \<Rightarrow> 'd conn \<Rightarrow> 'd conn \<times> nat list res" where
  "run_pending q [] c = (c, Inr [])"
| "run_pending q ((v, f) # ps) c =
     (case seq_ops [f, set_db_version q v] c of
        (c1, Inl e) \<Rightarrow> (rollback c1, Inl (RuntimeError (failed_text v e)))
      | (c1, Inr u) \<Rightarrow>
          (case run_pending q ps (commit c1) of
             (c2, Inl e) \<Rightarrow> (c2, Inl e)
           | (c2, Inr vs) \<Rightarrow> (c2, Inr (v # vs))))"

text \<open>\<open>_backup_db\<close>: the copy of the file, when it can be made; a failure is only logged.\<close>

definition backup_db :: "'d mig_env \<Rightarrow> 'd conn \<Rightarrow> (string \<times> 'd db) list" where
  "backup_db m c =
     (case me_db_path m of
        None \<Rightarrow> []
      | Some p \<Rightarrow> if me_copy m = None then [(p @ ''.bak-'' @ me_stamp m, durable c)] else [])"

definition newer_text :: "nat \<Rightarrow> string" where
  "newer_text v =
     ''Database schema version '' @ str_nat v @ '' is newer than the application supports ('' @ str_nat current_schema_version @
     '').  Please upgrade the Smart Shield application.''"

definition run_migrations :: "'d mig_env \<Rightarrow> 'd conn \<Rightarrow> 'd conn \<times> (string \<times> 'd db) list \<times> nat list res" where
  "run_migrations m c =
     (case create_schema_version (me_sql m) c of
        (c1, Inl e) \<Rightarrow> (c1, [], Inl e)
      | (c1, Inr u) \<Rightarrow>
          (let v = get_db_version (cn_db c1) in
           if current_schema_version < v then (c1, [], Inl (SchemaVersionError (newer_text v)))
           else case filter (\<lambda>p. v < fst p) (migrations m) of
                  [] \<Rightarrow> (c1, [], Inr [])
                | p # ps \<Rightarrow> (case run_pending (me_sql m) (p # ps) c1 of (c2, r) \<Rightarrow> (c2, backup_db m c1, r))))"

section \<open>What a migration may change\<close>

text \<open>A relation of databases that says nothing of rows is followed by the steps that write rows.\<close>

locale write_order = schema_order +
  assumes row_stmt: "ok (Write uses sql ps)"
begin

lemma insert_event: "conforms R (insert_event q r)"
proof (cases "collect_res bind_param r")
  case (Inl e)
  then show ?thesis by (simp add: conforms_def insert_event_def reaches_refl)
next
  case (Inr vs)
  show ?thesis
    using execute[of "Write [(''events'', [''ts'', ''severity'', ''category'', ''action'', ''username'', ''remote_addr'', ''details''])]
          ''INSERT INTO events (ts, severity, category, action, username, remote_addr, details) VALUES (?,?,?,?,?,?,?)'' vs" q]
    by (simp add: conforms_def insert_event_def Inr row_stmt)
qed

lemma backfill_audit_log [conforms_intros]: "conforms R (backfill_audit_log m)"
proof -
  have "conforms R (seq_ops (map (insert_event (me_sql m)) rs))" for rs
    by (induction rs) (simp_all only: list.map seq_Nil seq_Cons insert_event)
  then show ?thesis
    unfolding backfill_audit_log_def
    by (intro guards) (auto simp: seq_Nil conforms_def reaches_refl split: option.split sum.split)
qed

lemma backfill_op [conforms_intros]: "conforms R (backfill_op m)"
proof (rule conformsI)
  fix c assume c: "R (durable c) (cn_db c)"
  note b = reaches_begin[OF c, of update_events]
  have "reaches R (begin_write update_events c) ((begin_write update_events c)\<lparr>cn_db := (cn_db (begin_write update_events c))\<lparr>sd_data := x\<rparr>\<rparr>)" for x
    by (rule reaches_step[OF reachesD[OF b] data])
  then show "reaches R c (fst (backfill_op m c))"
    using b c by (auto simp: backfill_op_def Let_def reaches_refl intro: reaches_trans split: option.split sum.split)
qed

lemma seed_logging_mode [conforms_intros]: "conforms R (seed_logging_mode q)"
  using execute[of "Write [(''siem_state'', [''key'', ''value''])] ''INSERT INTO siem_state (key, value) VALUES (?, ?)''
                  [PStr ''dns_logging_mode'', PStr ''blocked_only'']" q] reaches_refl
  by (auto simp: conforms_def seed_logging_mode_def row_stmt split: sum.split)

end

text \<open>
  A relation of databases that all statements follow but the entry of a version and a renaming outside of
  migration 11 is followed by every migration.
\<close>

locale migration_order = write_order +
  assumes plain: "keeps_names s \<Longrightarrow> leaves_versions s \<Longrightarrow> ok s"
begin

lemma rename_if [conforms_intros]: "old \<in> renamed t \<Longrightarrow> conforms R (rename_if q t old new)"
  using execute[of "RenameColumn t old new" q] reaches_refl
  by (auto simp: conforms_def rename_if_def plain keeps_names_def leaves_versions_def)

lemmas plain_stmts = plain keeps_names_def leaves_versions_def renamed_def

lemma migrations_conform: "list_all (\<lambda>p. conforms R (snd p)) (migrations m)"
  unfolding migrations_def Let_def list.pred_inject snd_conv
    migration_v2_def migration_v3_def migration_v4_def migration_v5_def migration_v6_def migration_v7_def
    migration_v8_def migration_v9_def migration_v10_def migration_v11_def migration_v12_def migration_v13_def
    migration_v14_def migration_v15_def migration_v16_def migration_v17_def migration_v18_def migration_v19_def
    migration_v20_def migration_v21_def migration_v22_def migration_v23_def migration_v24_def migration_v25_def
    migration_v26_def migration_v27_def migration_v28_def migration_v29_def migration_v30_def migration_v31_def
    migration_v32_def migration_v33_def migration_v34_def migration_v35_def migration_v36_def migration_v37_def
    migration_v38_def migration_v39_def migration_v40_def migration_v41_def migration_v42_def migration_v43_def
    migration_v44_def migration_v45_def migration_v46_def migration_v47_def migration_v48_def migration_v49_def
    migration_v50_def Let_def
  by (intro conjI TrueI conforms_intros) (simp_all add: plain_stmts)

end

interpretation growth: migration_order grown keeps_names
  by unfold_locales (simp_all add: keeps_names_def)

interpretation versions: migration_order same_versions leaves_versions
  by unfold_locales (simp_all add: leaves_versions_def)

section \<open>A run of the pending migrations\<close>

context schema_order begin

lemma run_pending:
  assumes "list_all (\<lambda>p. conforms R (snd p)) ps" "\<And>v. ok (InsertVersion True v)" "cn_saved c = None"
  shows "reaches R c (fst (run_pending q ps c))"
  using assms(1,3)
proof (induction ps arbitrary: c)
  case (Cons p ps)
  have c: "durable c = cn_db c" using Cons.prems(2) by (simp add: durable_def)
  obtain v f where p: "p = (v, f)" by (cases p)
  obtain c1 r where s: "seq_ops [f, set_db_version q v] c = (c1, r)" by fastforce
  have "conforms R (seq_ops [f, set_db_version q v])"
    using Cons.prems(1) by (auto simp: p set_db_version_def intro!: seq_Cons seq_Nil execute assms(2))
  then have r: "reaches R c c1" using conformsD[of _ c] refl s by (metis c fst_conv)
  show ?case
  proof (cases r)
    case (Inl e)
    have "reaches R c (rollback c1)"
      using r by (auto simp: reaches_def refl c)
    then show ?thesis using s by (simp add: p Inl del: seq_ops.simps)
  next
    case (Inr u)
    have "reaches R c (commit c1)" by (rule reaches_trans[OF r reaches_commit[OF reachesD[OF r]]])
    moreover have "reaches R (commit c1) (fst (run_pending q ps (commit c1)))"
      by (rule Cons.IH) (use Cons.prems(1) in auto)
    ultimately have "reaches R c (fst (run_pending q ps (commit c1)))" by (rule reaches_trans)
    then show ?thesis using s by (auto simp: p Inr simp del: seq_ops.simps split: prod.split sum.split)
  qed
qed (simp add: reaches_refl refl durable_def)

end

text \<open>The versions of a run: those of the migrations it applied, before the one that failed.\<close>

lemma set_db_version_Inr:
  "set_db_version q v c = (c', Inr u) \<Longrightarrow> set (sd_versions (cn_db c')) = insert v (set (sd_versions (cn_db c)))"
  by (auto simp: set_db_version_def execute_def exec_stmt_def Let_def split: sum.splits option.splits if_splits)

lemma set_db_version_Inl: "set_db_version q v c = (c', Inl e) \<Longrightarrow> durable c' = durable c"
  by (auto simp: set_db_version_def execute_def Let_def split: sum.splits)

definition run_result :: "nat list \<Rightarrow> nat list \<Rightarrow> nat list \<Rightarrow> nat list res \<Rightarrow> bool" where
  "run_result all past todo r \<longleftrightarrow> all = past @ todo \<and>
     (case r of Inr vs \<Rightarrow> vs = all \<and> todo = [] | Inl e \<Rightarrow> todo \<noteq> [] \<and> (\<exists>x. e = RuntimeError (failed_text (hd todo) x)))"

lemma run_pending_outcome:
  assumes "list_all (\<lambda>p. conforms same_versions (snd p)) ps" "cn_saved c = None" "run_pending q ps c = (c', r)"
  shows "\<exists>past todo. run_result (map fst ps) past todo r \<and> set (sd_versions (cn_db c')) = set (sd_versions (cn_db c)) \<union> set past
    \<and> cn_saved c' = None"
  using assms
proof (induction ps arbitrary: c r)
  case (Cons p ps)
  have c: "durable c = cn_db c" using Cons.prems(2) by (simp add: durable_def)
  obtain v f where p: "p = (v, f)" by (cases p)
  obtain c1 r1 where f: "f c = (c1, r1)" by fastforce
  have c1: "sd_versions (durable c1) = sd_versions (cn_db c)" "sd_versions (cn_db c1) = sd_versions (cn_db c)"
  proof -
    have "conforms same_versions f" using Cons.prems(1) by (simp add: p)
    then have "reaches same_versions c c1" using versions.conformsD[of f c] by (simp add: f c same_versions_def)
    then show "sd_versions (durable c1) = sd_versions (cn_db c)" "sd_versions (cn_db c1) = sd_versions (cn_db c)"
      by (simp_all add: reaches_def same_versions_def c)
  qed
  show ?case
  proof (cases "seq_ops [f, set_db_version q v] c")
    case (Pair c2 r2)
    show ?thesis
    proof (cases r2)
      case (Inl e)
      then have "sd_versions (durable c2) = sd_versions (cn_db c)"
        using Pair c1 by (auto simp: f dest!: set_db_version_Inl split: sum.splits prod.splits)
      moreover have "c' = rollback c2" "r = Inl (RuntimeError (failed_text v e))"
        using Cons.prems(3) Pair Inl by (simp_all add: p del: seq_ops.simps)
      ultimately show ?thesis
        by (intro exI[of _ "[]"] exI[of _ "map fst (p # ps)"]) (auto simp: run_result_def p)
    next
      case (Inr u)
      then have v2: "set (sd_versions (cn_db c2)) = insert v (set (sd_versions (cn_db c)))"
      proof -
        have "\<exists>u1. set_db_version q v c1 = (c2, Inr u1)" using Pair Inr by (auto simp: f split: sum.splits prod.splits)
        then show ?thesis using set_db_version_Inr[of q v c1 c2] c1(2) by auto
      qed
      obtain r3 where rest: "run_pending q ps (commit c2) = (c', r3)" and r: "r = (case r3 of Inl e \<Rightarrow> Inl e | Inr vs \<Rightarrow> Inr (v # vs))"
        using Cons.prems(3) Pair Inr by (auto simp: p simp del: seq_ops.simps split: prod.splits sum.splits)
      obtain past todo where "run_result (map fst ps) past todo r3"
        "set (sd_versions (cn_db c')) = insert v (set (sd_versions (cn_db c))) \<union> set past" "cn_saved c' = None"
        using Cons.IH[of "commit c2" r3] Cons.prems(1) rest v2 by auto
      then show ?thesis
        by (intro exI[of _ "v # past"] exI[of _ todo]) (auto simp: r p run_result_def split: sum.splits)
    qed
  qed
qed (auto simp: run_result_def)

text \<open>The versions of the list, ascending and without a gap.\<close>

definition schema_versions :: "nat list" where
  "schema_versions = [2..<51]"

lemma schema_versions_simps [simp]:
  "set schema_versions = {2..50}" "sorted schema_versions" "distinct schema_versions"
  by (auto simp: schema_versions_def simp del: upt_rec_numeral)

lemma map_fst_migrations: "map fst (migrations m) = schema_versions"
  by (simp add: migrations_def Let_def upt_rec_numeral schema_versions_def)

lemma map_fst_pending: "map fst (filter (\<lambda>p. v < fst p) (migrations m)) = filter (\<lambda>n. v < n) schema_versions"
  unfolding map_fst_migrations[of m, symmetric] filter_map by (simp add: comp_def)

lemma foldr_max: "foldr max xs 0 = Max (insert 0 (set xs))" for xs :: "nat list"
  by (induction xs) (simp_all add: insert_commute[of 0])

lemma create_existing:
  assumes "has_table ''schema_version'' (cn_db c)"
  shows "fst (create_schema_version q c) = c"
  using assms by (auto simp: create_schema_version_def execute_def exec_stmt_def begin_write_def is_write_def Let_def split: option.split)

lemma version_le: "get_db_version d \<le> n \<Longrightarrow> has_table ''schema_version'' d \<Longrightarrow> v \<in> set (sd_versions d) \<Longrightarrow> v \<le> n"
  by (simp add: get_db_version_def foldr_max)

lemma get_db_version_extend:
  assumes "has_table ''schema_version'' d" "has_table ''schema_version'' d'"
    and "set (sd_versions d') = set (sd_versions d) \<union> set vs"
  shows "get_db_version d' = Max (insert (get_db_version d) (set vs))"
proof -
  have "get_db_version d' = Max (insert 0 (set (sd_versions d)) \<union> set vs)"
    using assms(2,3) by (simp add: get_db_version_def foldr_max)
  also have "\<dots> = Max (insert (Max (insert 0 (set (sd_versions d)))) (set vs))"
    using Max_Un[of "insert 0 (set (sd_versions d))" "set vs"] by (cases "vs = []") (simp_all del: Max_insert add: Max_insert[of "set vs"])
  finally show ?thesis using assms(1) by (simp add: get_db_version_def foldr_max)
qed

text \<open>
  The versions of a database after a run that went through its pending migrations or stopped in one.
\<close>

lemma run_migrations_outcome:
  assumes "run_migrations m c = (c', copies, r)" "cn_saved c = None" "has_table ''schema_version'' (cn_db c)"
    and "get_db_version (cn_db c) \<le> 50"
  defines "pending \<equiv> filter (\<lambda>n. get_db_version (cn_db c) < n) schema_versions"
  shows "(\<exists>m. c' = c \<and> r = Inl (OperationalError m)) \<or>
    (\<exists>past todo. run_result pending past todo r \<and> get_db_version (cn_db c') = Max (insert (get_db_version (cn_db c)) (set past))
      \<and> cn_saved c' = None \<and> has_table ''schema_version'' (cn_db c'))"
proof (cases "snd (create_schema_version (me_sql m) c)")
  case (Inl e)
  then have "create_schema_version (me_sql m) c = (c, Inl e)" using create_existing[OF assms(3)] by (simp add: prod_eq_iff)
  moreover have "\<exists>t. e = OperationalError t"
    using Inl assms(3) by (auto simp: create_schema_version_def execute_def exec_stmt_def begin_write_def is_write_def Let_def split: option.splits)
  ultimately show ?thesis using assms(1) by (auto simp: run_migrations_def)
next
  case (Inr u)
  then have cr: "create_schema_version (me_sql m) c = (c, Inr u)" using create_existing[OF assms(3)] by (simp add: prod_eq_iff)
  let ?ps = "filter (\<lambda>p. get_db_version (cn_db c) < fst p) (migrations m)"
  obtain c2 r2 where rp: "run_pending (me_sql m) ?ps c = (c2, r2)" by fastforce
  have eq: "c' = c2" "r = r2"
    using assms(1,4) rp by (auto simp: run_migrations_def cr current_schema_version_def Let_def split: list.splits prod.splits)
  have all: "list_all (\<lambda>p. conforms R (snd p)) ?ps" if "list_all (\<lambda>p. conforms R (snd p)) (migrations m)" for R
    using that by (auto simp: list_all_iff)
  have d: "durable c = cn_db c" using assms(2) by (simp add: durable_def)
  have "reaches grown c c2"
    using growth.run_pending[OF all[OF growth.migrations_conform] _ assms(2), of "me_sql m"] rp by (simp add: keeps_names_def)
  then have tab: "has_table ''schema_version'' (cn_db c2)" using assms(3) by (auto simp: reaches_def grown_def)
  obtain past todo where "run_result pending past todo r2" "set (sd_versions (cn_db c2)) = set (sd_versions (cn_db c)) \<union> set past" "cn_saved c2 = None"
    using run_pending_outcome[OF all[OF versions.migrations_conform] assms(2) rp] unfolding pending_def map_fst_pending by blast
  then show ?thesis using get_db_version_extend[OF assms(3) tab] tab eq by blast
qed

lemma Max_tail: "sorted xs \<Longrightarrow> xs \<noteq> [] \<Longrightarrow> Max (set xs) = last xs" for xs :: "nat list"
  by (rule Max_eqI) (auto intro: sorted_le_last)

text \<open>
  C13: When \<open>run_migrations\<close> succeeds on a database that has its version table and is at version 50 or below, and SQLite refuses no
  statement, exactly the migrations above the version of the database were applied, in ascending order
  and each with its version, the database has the version of the program, nothing is left uncommitted, and a second
  run applies none.
\<close>

theorem migrated_once:
  assumes "run_migrations m c = (c', copies, Inr vs)" "cn_saved c = None" "has_table ''schema_version'' (cn_db c)"
    and "get_db_version (cn_db c) \<le> 50" "\<And>s d. sq_refuses (me_sql m) s d = None"
  shows "vs = filter (\<lambda>n. get_db_version (cn_db c) < n) schema_versions \<and> get_db_version (cn_db c') = current_schema_version
    \<and> cn_saved c' = None \<and> run_migrations m c' = (c', [], Inr [])"
proof -
  let ?v = "get_db_version (cn_db c)"
  obtain past where p: "vs = filter (\<lambda>n. ?v < n) schema_versions" "past = vs" "get_db_version (cn_db c') = Max (insert ?v (set past))"
    and c': "cn_saved c' = None" "has_table ''schema_version'' (cn_db c')"
    using run_migrations_outcome[OF assms(1-4)] by (auto simp: run_result_def)
  have "Max (insert ?v (set vs)) = 50" using assms(4) by (intro Max_eqI) (auto simp: p(1))
  then have v: "get_db_version (cn_db c') = 50" by (simp only: p)
  moreover have "create_schema_version (me_sql m) c' = (c', Inr ())"
    using c'(2) by (simp add: create_schema_version_def execute_def exec_stmt_def begin_write_def is_write_def Let_def assms(5))
  moreover have "filter (\<lambda>p. 50 < fst p) (migrations m) = []"
  proof -
    have "map fst (filter (\<lambda>p. 50 < fst p) (migrations m)) = []" unfolding map_fst_pending by (auto simp: filter_empty_conv)
    then show ?thesis by (simp only: list.map_disc_iff)
  qed
  ultimately have "run_migrations m c' = (c', [], Inr [])" by (simp add: run_migrations_def Let_def current_schema_version_def)
  then show ?thesis using p(1) c'(1) v by (simp add: current_schema_version_def)
qed

text \<open>
  C14: A start that stops in a migration keeps every migration before it: the database has the version of the last
  one that was applied, and the migrations the next start finds pending begin with the one that failed.
\<close>

theorem failed_start_resumes:
  assumes "run_migrations m c = (c', copies, Inl (RuntimeError t))" "cn_saved c = None" "has_table ''schema_version'' (cn_db c)"
    and "get_db_version (cn_db c) \<le> 50"
  shows "\<exists>past v todo. filter (\<lambda>n. get_db_version (cn_db c) < n) schema_versions = past @ v # todo
    \<and> filter (\<lambda>n. get_db_version (cn_db c') < n) schema_versions = v # todo \<and> (\<exists>x. t = failed_text v x) \<and> cn_saved c' = None"
proof -
  let ?v = "get_db_version (cn_db c)" and ?all = "filter (\<lambda>n. get_db_version (cn_db c) < n) schema_versions"
  obtain past rest where r: "?all = past @ rest" "rest \<noteq> []" "\<exists>x. t = failed_text (hd rest) x"
      "get_db_version (cn_db c') = Max (insert ?v (set past))" "cn_saved c' = None"
    using run_migrations_outcome[OF assms(1-4)] by (auto simp: run_result_def)
  obtain v todo where rest: "rest = v # todo" using r(2) by (cases rest) auto
  have sorted: "sorted (past @ rest)" "distinct (past @ rest)" unfolding r(1)[symmetric] by (simp_all add: sorted_wrt_filter)
  have new: "?v < n" if "n \<in> set (past @ rest)" for n using that unfolding r(1)[symmetric] by simp
  let ?w = "Max (insert ?v (set past))"
  have "?v \<le> ?w" by simp
  then have "filter (\<lambda>n. ?w < n) schema_versions = filter (\<lambda>n. ?w < n) ?all"
    by (auto simp: filter_filter intro!: filter_cong)
  also have "\<dots> = filter (\<lambda>n. ?w < n) past @ filter (\<lambda>n. ?w < n) rest" by (simp only: r(1) filter_append)
  also have "filter (\<lambda>n. ?w < n) past = []"
    by (auto simp: filter_empty_conv not_less intro!: Max_ge)
  also have "filter (\<lambda>n. ?w < n) rest = rest"
  proof (rule filter_True, rule ballI)
    fix n assume n: "n \<in> set rest"
    have "x < n" if "x \<in> set past" for x
      using that n sorted by (auto simp: sorted_append) (metis disjoint_iff le_neq_implies_less)
    then show "?w < n" using new[of n] n by simp
  qed
  finally show ?thesis using r rest by auto
qed

text \<open>
  No start loses a table, an index or a column, whether it succeeds or not; only the two columns of the
  certificates that migration 11 renames go.
\<close>

theorem schema_only_grows:
  assumes "run_migrations m c = (c', copies, r)" "cn_saved c = None"
  shows "(has_table t (cn_db c) \<longrightarrow> has_table t (cn_db c'))
    \<and> set (columns_of t (cn_db c)) \<subseteq> set (columns_of t (cn_db c')) \<union> renamed t
    \<and> set (sd_indexes (cn_db c)) \<subseteq> set (sd_indexes (cn_db c'))"
proof -
  obtain c1 r1 where cr: "create_schema_version (me_sql m) c = (c1, r1)" by fastforce
  have d: "durable c = cn_db c" using assms(2) by (simp add: durable_def)
  have "conforms grown (create_schema_version (me_sql m))"
    unfolding create_schema_version_def by (rule growth.execute) (simp add: keeps_names_def)
  then have g1: "reaches grown c c1" using growth.conformsD[of _ c] cr by (metis d fst_conv grown_refl)
  have c1: "cn_saved c1 = None"
    using cr assms(2) by (auto simp: create_schema_version_def execute_def begin_write_def is_write_def Let_def split: sum.splits)
  have "reaches grown c1 (fst (run_pending (me_sql m) ps c1))" if "set ps \<subseteq> set (migrations m)" for ps
    using that growth.migrations_conform[of m] by (intro growth.run_pending c1) (auto simp: list_all_iff keeps_names_def)
  from this[of "filter (\<lambda>p. get_db_version (cn_db c1) < fst p) (migrations m)"]
  have "c' = c1 \<or> reaches grown c1 c'"
    using assms(1) by (auto simp: run_migrations_def cr Let_def simp del: run_pending.simps split: sum.splits if_splits list.splits prod.splits)
  then have "grown (cn_db c) (cn_db c')" using g1 by (auto simp: reaches_def intro: growth.trans)
  then show ?thesis by (simp add: grown_def)
qed

section \<open>Failures and witnesses\<close>

text \<open>A database without rows of its own; \<open>refuse\<close> may name a table that cannot be created.\<close>

definition sample_sql :: "string option \<Rightarrow> unit sqlite" where
  "sample_sql refuse =
     \<lparr>sq_write = (\<lambda>sql ps d. d), sq_changed = (\<lambda>sql ps d. 0), sq_rows = (\<lambda>sql d. [[PInt 0]]),
      sq_refuses = (\<lambda>s d. case s of CreateTable t cs ks \<Rightarrow> if refuse = Some t then Some ''database or disk is full'' else None | _ \<Rightarrow> None),
      sq_fts5 = True\<rparr>"

definition sample_env :: "string option \<Rightarrow> unit mig_env" where
  "sample_env refuse =
     \<lparr>me_sql = sample_sql refuse, me_loads = (\<lambda>t. None), me_audit_log = None, me_uuid = id, me_events = (\<lambda>d. []),
      me_put_events = (\<lambda>rs d. d), me_db_path = Some ''data.db'', me_stamp = ''20250101T000000'', me_copy = None\<rparr>"

definition sample_db :: "nat \<Rightarrow> unit conn" where
  "sample_db v =
     \<lparr>cn_db = \<lparr>sd_tables = [(''schema_version'', [''version'', ''applied_at''])], sd_indexes = [], sd_triggers = [], sd_versions = [v],
        sd_data = ()\<rparr>, cn_saved = None\<rparr>"

lemma sample_simps:
  "cn_saved (sample_db v) = None" "has_table ''schema_version'' (cn_db (sample_db v))" "get_db_version (cn_db (sample_db v)) = v"
  by (auto simp: sample_db_def has_table_def get_db_version_def)

lemma sample_run: "snd (run_migrations (sample_env None) (sample_db 48)) = ([(''data.db.bak-20250101T000000'', cn_db (sample_db 48))], Inr [49, 50])"
  by code_simp

text \<open>
  The text of a failed migration says that the database was rolled back, and the module promises that any failure rolls
  back cleanly; but a CREATE TABLE is committed at once.  When the second table of migration 38 cannot be created, the
  first one stays.
\<close>

theorem failed_migration_not_undone:
  assumes "\<And>t cs ks d. sq_refuses q (CreateTable t cs ks) d = (if t = ''event_dead_letter'' then Some msg else None)"
    and "cn_saved c = None" "\<not> has_table ''collector_state'' (cn_db c)"
  shows "snd (run_pending q [(38, migration_v38 q)] c) = Inl (RuntimeError (failed_text 38 (OperationalError msg)))
    \<and> has_table ''collector_state'' (cn_db (fst (run_pending q [(38, migration_v38 q)] c)))"
  using assms(2,3)
  by (simp add: migration_v38_def executescript_def exec_stmt_def assms(1) commit_def rollback_def new_table_simps)

lemma failed_migration_not_undone_witness:
  "snd (run_pending (sample_sql (Some ''event_dead_letter'')) [(38, migration_v38 (sample_sql (Some ''event_dead_letter'')))] (sample_db 37))
     = Inl (RuntimeError (failed_text 38 (OperationalError ''database or disk is full'')))
   \<and> has_table ''collector_state'' (cn_db (fst (run_pending (sample_sql (Some ''event_dead_letter'')) [(38, migration_v38 (sample_sql (Some ''event_dead_letter'')))] (sample_db 37))))"
  by (rule failed_migration_not_undone) (auto simp: sample_sql_def sample_db_def has_table_def)

lemma migrated_once_witness:
  "\<exists>c' copies. run_migrations (sample_env None) (sample_db 48) = (c', copies, Inr [49, 50]) \<and> get_db_version (cn_db c') = current_schema_version
     \<and> run_migrations (sample_env None) c' = (c', [], Inr [])"
proof -
  obtain c' copies r where r: "run_migrations (sample_env None) (sample_db 48) = (c', copies, r)" by (metis prod_cases3)
  then have "r = Inr [49, 50]" using sample_run by simp
  moreover have "\<And>s d. sq_refuses (me_sql (sample_env None)) s d = None" by (simp add: sample_env_def sample_sql_def split: stmt.split)
  ultimately show ?thesis using migrated_once[of "sample_env None" "sample_db 48" c' copies "[49, 50]"] r by (simp add: sample_simps)
qed

lemma failed_start_resumes_witness:
  "\<exists>c' copies t. run_migrations (sample_env (Some ''ddns_status'')) (sample_db 48) = (c', copies, Inl (RuntimeError t))
     \<and> (\<exists>past v todo. filter (\<lambda>n. 48 < n) schema_versions = past @ v # todo \<and> filter (\<lambda>n. get_db_version (cn_db c') < n) schema_versions = v # todo)"
proof -
  obtain c' copies r where r: "run_migrations (sample_env (Some ''ddns_status'')) (sample_db 48) = (c', copies, r)" by (metis prod_cases3)
  have "snd (snd (run_migrations (sample_env (Some ''ddns_status'')) (sample_db 48)))
      = Inl (RuntimeError (failed_text 49 (OperationalError ''database or disk is full'')))" by code_simp
  then show ?thesis
    using failed_start_resumes[of "sample_env (Some ''ddns_status'')" "sample_db 48" c' copies] r by (simp add: sample_simps) blast
qed

lemma schema_only_grows_witness:
  "has_table ''schema_version'' (cn_db (fst (run_migrations (sample_env (Some ''ddns_status'')) (sample_db 48))))"
proof -
  obtain c' copies r where r: "run_migrations (sample_env (Some ''ddns_status'')) (sample_db 48) = (c', copies, r)" by (metis prod_cases3)
  show ?thesis using schema_only_grows[OF r, of "''schema_version''"] by (simp add: r sample_simps)
qed

end
