(* ===== verification/DatabaseInit.thy ===== *)
theory DatabaseInit
  imports Migrations
begin

text \<open>
  \<open>init_db\<close> of \<^verbatim>\<open>database.py\<close>, which every start of the program runs: the tables it creates, the columns it adds to older
  databases, the rows it seeds, the versions it enters, and the migrations it then runs.

  Every \<open>CREATE TABLE\<close> is a definition of its own; the statements follow in the order of the file, cut into parts.
\<close>

section \<open>The tables\<close>

definition tab_users :: stmt where
  "tab_users = CreateTable ''users''
     [Column ''id'' Integer_type [PrimaryKey True],
      Column ''username'' Text_type [UniqueCol, NotNull],
      Column ''password'' Text_type [NotNull],
      Column ''is_superuser'' Integer_type [Default ''0''],
      Column ''full_name'' Text_type [],
      Column ''status'' Text_type [DefaultText ''active''],
      Column ''profile_picture'' Text_type [],
      Column ''email'' Text_type [],
      Column ''soc_tier'' Text_type [Default ''NULL''],
      Column ''created_at'' Timestamp_type [Default ''CURRENT_TIMESTAMP'']] []"

definition tab_groups :: stmt where
  "tab_groups = CreateTable ''groups''
     [Column ''id'' Integer_type [PrimaryKey True],
      Column ''name'' Text_type [UniqueCol, NotNull],
      Column ''description'' Text_type [],
      Column ''soc_tier'' Text_type [Default ''NULL'']] []"

definition tab_user_groups :: stmt where
  "tab_user_groups = CreateTable ''user_groups''
     [Column ''user_id'' Integer_type [],
      Column ''group_id'' Integer_type []]
     [PrimaryKeyOf [''user_id'', ''group_id''],
      ForeignKey ''user_id'' ''users'' ''id'' [],
      ForeignKey ''group_id'' ''groups'' ''id'' []]"

definition tab_group_page_permissions :: stmt where
  "tab_group_page_permissions = CreateTable ''group_page_permissions''
     [Column ''id'' Integer_type [PrimaryKey True],
      Column ''group_id'' Integer_type [NotNull],
      Column ''endpoint'' Text_type [NotNull],
      Column ''created_at'' Timestamp_type [Default ''CURRENT_TIMESTAMP'']]
     [ForeignKey ''group_id'' ''groups'' ''id'' ''CASCADE'']"

definition tab_lan_config :: stmt where
  "tab_lan_config = CreateTable ''lan_config''
     [Column ''id'' Integer_type [PrimaryKey True],
      Column ''enable_interface'' Integer_type [Default ''1''],
      Column ''description'' Text_type [DefaultText ''LAN''],
      Column ''assigned_port'' Text_type [DefaultText []],
      Column ''ipv4_config_type'' Text_type [DefaultText ''static''],
      Column ''ipv6_config_type'' Text_type [DefaultText ''none''],
      Column ''mac_address'' Text_type [DefaultText []],
      Column ''mtu'' Text_type [DefaultText []],
      Column ''mss'' Text_type [DefaultText []],
      Column ''speed_and_duplex'' Text_type [DefaultText ''default''],
      Column ''ipv4_address'' Text_type [DefaultText []],
      Column ''ipv4_upstream_gateway'' Text_type [DefaultText []],
      Column ''block_private_networks'' Integer_type [Default ''0''],
      Column ''block_bogon_networks'' Integer_type [Default ''0'']] []"

definition tab_wan_config :: stmt where
  "tab_wan_config = CreateTable ''wan_config''
     [Column ''id'' Integer_type [PrimaryKey True],
      Column ''enable_interface'' Integer_type [Default ''1''],
      Column ''description'' Text_type [DefaultText ''WAN''],
      Column ''assigned_port'' Text_type [DefaultText []],
      Column ''ipv4_config_type'' Text_type [DefaultText ''dhcp''],
      Column ''ipv6_config_type'' Text_type [DefaultText ''none''],
      Column ''mac_address'' Text_type [DefaultText []],
      Column ''mtu'' Text_type [DefaultText []],
      Column ''mss'' Text_type [DefaultText []],
      Column ''speed_and_duplex'' Text_type [DefaultText ''default''],
      Column ''ipv4_address'' Text_type [DefaultText []],
      Column ''ipv4_upstream_gateway'' Text_type [DefaultText []],
      Column ''username'' Text_type [DefaultText []],
      Column ''password'' Text_type [DefaultText []],
      Column ''dial_on_demand'' Integer_type [Default ''0''],
      Column ''idle_timeout'' Integer_type [Default ''0''],
      Column ''block_private_networks'' Integer_type [Default ''1''],
      Column ''block_bogon_networks'' Integer_type [Default ''1'']] []"

definition tab_port_assignments :: stmt where
  "tab_port_assignments = CreateTable ''port_assignments''
     [Column ''id'' Integer_type [PrimaryKey True],
      Column ''interface_label'' Text_type [],
      Column ''network_port'' Text_type []] []"

definition tab_interface_assignments :: stmt where
  "tab_interface_assignments = CreateTable ''interface_assignments''
     [Column ''id'' Integer_type [PrimaryKey True],
      Column ''interface_type'' Text_type [NotNull, UniqueCol],
      Column ''network_port'' Text_type []] []"

definition tab_interface_groups :: stmt where
  "tab_interface_groups = CreateTable ''interface_groups''
     [Column ''id'' Integer_type [PrimaryKey True],
      Column ''group_name'' Text_type [NotNull],
      Column ''description'' Text_type [],
      Column ''members'' Text_type []] []"

definition tab_wireless_configs :: stmt where
  "tab_wireless_configs = CreateTable ''wireless_configs''
     [Column ''id'' Integer_type [PrimaryKey True],
      Column ''parent_interface'' Text_type [],
      Column ''mode'' Text_type [],
      Column ''description'' Text_type []] []"

definition tab_vlan_configs :: stmt where
  "tab_vlan_configs = CreateTable ''vlan_configs''
     [Column ''id'' Integer_type [PrimaryKey True],
      Column ''parent_interface'' Text_type [],
      Column ''vlan_tag'' Integer_type [],
      Column ''vlan_priority'' Integer_type [Default ''0''],
      Column ''description'' Text_type []] []"

definition tab_qinq_configs :: stmt where
  "tab_qinq_configs = CreateTable ''qinq_configs''
     [Column ''id'' Integer_type [PrimaryKey True],
      Column ''parent_interface'' Text_type [],
      Column ''first_level_tag'' Integer_type [],
      Column ''add_to_groups'' Integer_type [Default ''0''],
      Column ''description'' Text_type [],
      Column ''member_tags'' Text_type []] []"

definition tab_ppp_configs :: stmt where
  "tab_ppp_configs = CreateTable ''ppp_configs''
     [Column ''id'' Integer_type [PrimaryKey True],
      Column ''link_type'' Text_type [],
      Column ''link_interfaces'' Text_type [],
      Column ''description'' Text_type [],
      Column ''username'' Text_type [],
      Column ''password'' Text_type [],
      Column ''dial_on_demand'' Integer_type [Default ''0'']] []"

definition tab_gre_configs :: stmt where
  "tab_gre_configs = CreateTable ''gre_configs''
     [Column ''id'' Integer_type [PrimaryKey True],
      Column ''parent_interface'' Text_type [],
      Column ''gre_remote_address'' Text_type [],
      Column ''gre_local_address'' Text_type [],
      Column ''ipv4_tunnel_remote_address'' Text_type [],
      Column ''ipv4_tunnel_remote_prefix'' Integer_type [],
      Column ''ipv4_tunnel_local_address'' Text_type [],
      Column ''ipv4_tunnel_local_prefix'' Integer_type [],
      Column ''ipv6_tunnel_remote_address'' Text_type [],
      Column ''ipv6_tunnel_remote_prefix'' Integer_type [],
      Column ''ipv6_tunnel_local_address'' Text_type [],
      Column ''ipv6_tunnel_local_prefix'' Integer_type [],
      Column ''description'' Text_type []] []"

definition tab_gif_configs :: stmt where
  "tab_gif_configs = CreateTable ''gif_configs''
     [Column ''id'' Integer_type [PrimaryKey True],
      Column ''parent_interface'' Text_type [],
      Column ''gif_remote_address'' Text_type [],
      Column ''gif_tunnel_local_address'' Text_type [],
      Column ''gif_tunnel_remote_address'' Text_type [],
      Column ''gif_tunnel_subnet'' Integer_type [],
      Column ''ecn_friendly_behavior'' Integer_type [Default ''0''],
      Column ''outer_source_filtering'' Integer_type [Default ''0''],
      Column ''description'' Text_type []] []"

definition tab_bridge_configs :: stmt where
  "tab_bridge_configs = CreateTable ''bridge_configs''
     [Column ''id'' Integer_type [PrimaryKey True],
      Column ''member_interfaces'' Text_type [],
      Column ''description'' Text_type [],
      Column ''cache_size'' Integer_type [Default ''100''],
      Column ''cache_max_age'' Integer_type [Default ''240''],
      Column ''span_interfaces'' Text_type [],
      Column ''edge_interfaces'' Text_type [],
      Column ''auto_edge_interfaces'' Text_type [],
      Column ''ptp_interfaces'' Text_type [],
      Column ''sticky_ports'' Integer_type [Default ''0'']] []"

definition tab_lagg_configs :: stmt where
  "tab_lagg_configs = CreateTable ''lagg_configs''
     [Column ''id'' Integer_type [PrimaryKey True],
      Column ''parent_interfaces'' Text_type [],
      Column ''aggregation_protocol'' Text_type [],
      Column ''description'' Text_type []] []"

definition tab_advanced_admin_access :: stmt where
  "tab_advanced_admin_access = CreateTable ''advanced_admin_access''
     [Column ''id'' Integer_type [PrimaryKey True],
      Column ''protocol'' Text_type [DefaultText ''https''],
      Column ''ssl_cert'' Text_type [DefaultText ''default''],
      Column ''tcp_port'' Integer_type [],
      Column ''max_processes'' Integer_type [Default ''2''],
      Column ''webgui_redirect'' Integer_type [Default ''0''],
      Column ''ocsp_stapling'' Integer_type [Default ''0''],
      Column ''webgui_autocomplete'' Integer_type [Default ''1''],
      Column ''gui_login_messages'' Integer_type [Default ''0''],
      Column ''roaming'' Integer_type [Default ''1''],
      Column ''hsts'' Integer_type [Default ''0''],
      Column ''anti_lockout'' Integer_type [Default ''0''],
      Column ''dns_rebind'' Integer_type [Default ''0''],
      Column ''alternate_hostnames'' Text_type [],
      Column ''http_referer'' Integer_type [Default ''0''],
      Column ''browser_tab_text'' Integer_type [Default ''0''],
      Column ''enable_ssh'' Integer_type [Default ''0''],
      Column ''ssh_key_only'' Text_type [DefaultText ''password_or_key''],
      Column ''ssh_agent_forwarding'' Integer_type [Default ''0''],
      Column ''ssh_port'' Integer_type [Default ''22''],
      Column ''threshold'' Integer_type [Default ''30''],
      Column ''blocktime'' Integer_type [Default ''120''],
      Column ''detection_time'' Integer_type [Default ''1800''],
      Column ''pass_list'' Text_type [],
      Column ''serial_terminal'' Integer_type [Default ''0''],
      Column ''serial_speed'' Text_type [DefaultText ''115200''],
      Column ''primary_console'' Text_type [DefaultText ''video''],
      Column ''console_menu'' Integer_type [Default ''0'']] []"

definition tab_login_failures :: stmt where
  "tab_login_failures = CreateTable ''login_failures''
     [Column ''id'' Integer_type [PrimaryKey True],
      Column ''remote_addr'' Text_type [NotNull],
      Column ''failed_at'' Real_type [NotNull]] []"

definition tab_ha_settings :: stmt where
  "tab_ha_settings = CreateTable ''ha_settings''
     [Column ''id'' Integer_type [PrimaryKey False, Default ''1''],
      Column ''ss_sync_enabled'' Integer_type [Default ''1''],
      Column ''sync_interface'' Text_type [DefaultText ''WAN''],
      Column ''filter_host_id'' Text_type [DefaultText []],
      Column ''peer_ip'' Text_type [DefaultText []],
      Column ''xmlrpc_ip'' Text_type [DefaultText []],
      Column ''remote_username'' Text_type [DefaultText []],
      Column ''remote_password_enc'' Text_type [DefaultText []],
      Column ''sync_admin'' Integer_type [Default ''0''],
      Column ''sync_options'' Text_type [DefaultText ''[]''],
      Column ''updated_at'' Text_type [Default ''CURRENT_TIMESTAMP'']] []"

definition tab_advanced_firewall_nat :: stmt where
  "tab_advanced_firewall_nat = CreateTable ''advanced_firewall_nat''
     [Column ''id'' Integer_type [PrimaryKey True],
      Column ''ip_fragment'' Integer_type [Default ''0''],
      Column ''ip_random'' Integer_type [Default ''0''],
      Column ''firewall_optimization'' Text_type [DefaultText ''normal''],
      Column ''disable_scrub'' Integer_type [Default ''0''],
      Column ''adaptive_start'' Integer_type [Default ''1134000''],
      Column ''adaptive_end'' Integer_type [Default ''2333332''],
      Column ''firewall_max_states'' Integer_type [Default ''1990000''],
      Column ''firewall_max_table'' Integer_type [Default ''400000''],
      Column ''firewall_max_fragment'' Integer_type [Default ''5000''],
      Column ''vpn_ip_fragment'' Integer_type [Default ''0''],
      Column ''ip_fragment_reassemble'' Integer_type [Default ''0''],
      Column ''enable_mss'' Integer_type [Default ''0''],
      Column ''maximum_mss'' Integer_type [Default ''1400''],
      Column ''disable_firewall'' Integer_type [Default ''0''],
      Column ''firewall_state_policy'' Text_type [DefaultText ''interface_bound''],
      Column ''disable_static_policy'' Integer_type [Default ''0''],
      Column ''static_route_filtering'' Integer_type [Default ''0''],
      Column ''disable_auto_added_vpn'' Integer_type [Default ''0''],
      Column ''disable_reply_to'' Integer_type [Default ''0''],
      Column ''disable_negate_rules'' Integer_type [Default ''0''],
      Column ''allow_apipa'' Integer_type [Default ''0''],
      Column ''aliases_hostnames_interval'' Integer_type [Default ''300''],
      Column ''check_certificate_aliases_urls'' Integer_type [Default ''0''],
      Column ''update_frequency'' Text_type [DefaultText ''monthly''],
      Column ''nat_reflection_mode'' Text_type [DefaultText ''disabled''],
      Column ''reflection_timeout'' Integer_type [],
      Column ''enable_nat_reflection'' Integer_type [Default ''0''],
      Column ''enable_automatic_outbound'' Integer_type [Default ''0''],
      Column ''tftp_proxy_wan'' Integer_type [Default ''0''],
      Column ''tftp_proxy_lan'' Integer_type [Default ''0''],
      Column ''tcp_first'' Integer_type [],
      Column ''tcp_opening'' Integer_type [],
      Column ''tcp_established'' Integer_type [],
      Column ''tcp_closing'' Integer_type [],
      Column ''tcp_fin_wait'' Integer_type [],
      Column ''tcp_closed'' Integer_type [],
      Column ''tcp_tsdiff'' Integer_type [],
      Column ''sctp_first'' Integer_type [],
      Column ''sctp_opening'' Integer_type [],
      Column ''sctp_established'' Integer_type [],
      Column ''sctp_closing'' Integer_type [],
      Column ''sctp_closed'' Integer_type [],
      Column ''udp_first'' Integer_type [],
      Column ''udp_single'' Integer_type [],
      Column ''udp_multiple'' Integer_type [],
      Column ''icmp_first'' Integer_type [],
      Column ''icmp_error'' Integer_type [],
      Column ''other_first'' Integer_type [],
      Column ''other_single'' Integer_type [],
      Column ''other_multiple'' Integer_type [],
      Column ''block_bogons'' Integer_type [Default ''1''],
      Column ''block_private_nets'' Integer_type [Default ''1''],
      Column ''nat_reflection'' Integer_type [Default ''0''],
      Column ''kill_states_on_reload'' Integer_type [Default ''0'']] []"

definition tab_ipsec_mobile_clients_settings :: stmt where
  "tab_ipsec_mobile_clients_settings = CreateTable ''ipsec_mobile_clients_settings''
     [Column ''id'' Integer_type [PrimaryKey False, CheckCol ''id = 1''],
      Column ''ike_extensions'' Integer_type [Default ''0''],
      Column ''group_auth'' Integer_type [Default ''0''],
      Column ''radius_accounting'' Integer_type [Default ''0''],
      Column ''virtual_address_pool'' Integer_type [Default ''1''],
      Column ''virtual_ipv6_address_pool'' Integer_type [Default ''0''],
      Column ''radius_ip_priority'' Integer_type [Default ''0''],
      Column ''radius_advanced_parameters'' Integer_type [Default ''0''],
      Column ''network_list'' Integer_type [Default ''1''],
      Column ''save_xauth_password'' Integer_type [Default ''0''],
      Column ''dns_default_domain'' Integer_type [Default ''0''],
      Column ''split_dns'' Integer_type [Default ''0''],
      Column ''dns_servers'' Integer_type [Default ''0''],
      Column ''wins_servers'' Integer_type [Default ''0''],
      Column ''phase2_pfs_group'' Integer_type [Default ''0''],
      Column ''login_banner'' Integer_type [Default ''0''],
      Column ''updated_at'' Timestamp_type [Default ''CURRENT_TIMESTAMP'']] []"

definition tab_ipsec_pre_shared_keys :: stmt where
  "tab_ipsec_pre_shared_keys = CreateTable ''ipsec_pre_shared_keys''
     [Column ''id'' Integer_type [PrimaryKey True],
      Column ''identifier'' Text_type [NotNull],
      Column ''secret_type'' Text_type [NotNull, DefaultText ''psk''],
      Column ''pre_shared_key'' Text_type [NotNull],
      Column ''created_at'' Timestamp_type [Default ''CURRENT_TIMESTAMP'']] []"

definition tab_ipsec_advanced_settings :: stmt where
  "tab_ipsec_advanced_settings = CreateTable ''ipsec_advanced_settings''
     [Column ''id'' Integer_type [PrimaryKey False, CheckCol ''id = 1''],
      Column ''log_daemon'' Text_type [DefaultText ''Control''],
      Column ''log_sa_manager'' Text_type [DefaultText ''Control''],
      Column ''log_ike_sa'' Text_type [DefaultText ''Control''],
      Column ''log_ike_child_sa'' Text_type [DefaultText ''Control''],
      Column ''log_job_processing'' Text_type [DefaultText ''Control''],
      Column ''log_config_backend'' Text_type [DefaultText ''Control''],
      Column ''log_kernel_interface'' Text_type [DefaultText ''Control''],
      Column ''log_networking'' Text_type [DefaultText ''Control''],
      Column ''log_asn_encoding'' Text_type [DefaultText ''Control''],
      Column ''log_message_encoding'' Text_type [DefaultText ''Control''],
      Column ''log_integrity_checker'' Text_type [DefaultText ''Control''],
      Column ''log_integrity_verifier'' Text_type [DefaultText ''Control''],
      Column ''log_platform_trust_service'' Text_type [DefaultText ''Control''],
      Column ''log_tls_handler'' Text_type [DefaultText ''Control''],
      Column ''log_ipsec_traffic'' Text_type [DefaultText ''Control''],
      Column ''log_strongswan_lib'' Text_type [DefaultText ''Control''],
      Column ''unique_ids'' Text_type [DefaultText ''Yes (Replace)''],
      Column ''ipsec_filter_mode'' Text_type [DefaultText ''Filter [IPsec Tunnel, Transport, and VTI] on IPsec tab (enc0)''],
      Column ''ikev2_retransmission'' Integer_type [Default ''0''],
      Column ''ip_compression'' Integer_type [Default ''0''],
      Column ''pkcs11_support'' Integer_type [Default ''0''],
      Column ''strict_interface_binding'' Integer_type [Default ''0''],
      Column ''ikev1_unencrypted_payloads'' Integer_type [Default ''0''],
      Column ''max_ikev1_phase2_exchanges'' Integer_type [Default ''3''],
      Column ''enable_cisco_extensions'' Integer_type [Default ''0''],
      Column ''strict_crl_checking'' Integer_type [Default ''0''],
      Column ''fqdn_endpoints_resolve_interval'' Integer_type [Default ''60''],
      Column ''make_before_break'' Integer_type [Default ''0''],
      Column ''asynchronous_cryptography'' Integer_type [Default ''0''],
      Column ''custom_ike_port'' Text_type [DefaultText []],
      Column ''custom_nat_t_port'' Text_type [DefaultText []],
      Column ''auto_exclude_lan_address'' Integer_type [Default ''0''],
      Column ''additional_ipsec_bypass'' Integer_type [Default ''0''],
      Column ''updated_at'' Timestamp_type [Default ''CURRENT_TIMESTAMP'']] []"

definition tab_l2tp_settings :: stmt where
  "tab_l2tp_settings = CreateTable ''l2tp_settings''
     [Column ''id'' Integer_type [PrimaryKey False, CheckCol ''id = 1''],
      Column ''enabled'' Integer_type [Default ''1''],
      Column ''updated_at'' Timestamp_type [Default ''CURRENT_TIMESTAMP'']] []"

definition tab_firewall_schedules :: stmt where
  "tab_firewall_schedules = CreateTable ''firewall_schedules''
     [Column ''id'' Integer_type [PrimaryKey True],
      Column ''name'' Text_type [UniqueCol, NotNull],
      Column ''description'' Text_type [DefaultText []],
      Column ''created_at'' Timestamp_type [Default ''CURRENT_TIMESTAMP''],
      Column ''updated_at'' Timestamp_type [Default ''CURRENT_TIMESTAMP'']] []"

definition tab_firewall_schedule_ranges :: stmt where
  "tab_firewall_schedule_ranges = CreateTable ''firewall_schedule_ranges''
     [Column ''id'' Integer_type [PrimaryKey True],
      Column ''schedule_id'' Integer_type [NotNull],
      Column ''year'' Integer_type [NotNull],
      Column ''month'' Integer_type [NotNull],
      Column ''days_csv'' Text_type [NotNull],
      Column ''start_time'' Text_type [NotNull],
      Column ''end_time'' Text_type [NotNull],
      Column ''range_description'' Text_type [DefaultText []],
      Column ''created_at'' Timestamp_type [Default ''CURRENT_TIMESTAMP'']]
     [ForeignKey ''schedule_id'' ''firewall_schedules'' ''id'' ''CASCADE'']"

definition tab_virtual_ips_configs :: stmt where
  "tab_virtual_ips_configs = CreateTable ''virtual_ips_configs''
     [Column ''id'' Integer_type [PrimaryKey True],
      Column ''type'' Text_type [NotNull],
      Column ''interface'' Text_type [NotNull],
      Column ''address_type'' Text_type [DefaultText ''single''],
      Column ''address'' Text_type [NotNull],
      Column ''prefix'' Integer_type [Default ''32''],
      Column ''expansion'' Integer_type [Default ''0''],
      Column ''description'' Text_type [DefaultText []],
      Column ''vhid'' Integer_type [Default ''1''],
      Column ''carp_pass'' Text_type [DefaultText []],
      Column ''advskew'' Integer_type [Default ''0''],
      Column ''advbase'' Integer_type [Default ''1''],
      Column ''created_at'' Timestamp_type [Default ''CURRENT_TIMESTAMP'']] []"

definition tab_dhcp_relay_settings :: stmt where
  "tab_dhcp_relay_settings = CreateTable ''dhcp_relay_settings''
     [Column ''id'' Integer_type [PrimaryKey False, CheckCol ''id = 1''],
      Column ''enabled'' Integer_type [Default ''0''],
      Column ''downstream_interfaces'' Text_type [DefaultText []],
      Column ''carp_status_vip'' Text_type [DefaultText ''none''],
      Column ''append_circuit_id'' Integer_type [Default ''0''],
      Column ''updated_at'' Timestamp_type [Default ''CURRENT_TIMESTAMP'']] []"

definition tab_dhcp_relay_upstream_servers :: stmt where
  "tab_dhcp_relay_upstream_servers = CreateTable ''dhcp_relay_upstream_servers''
     [Column ''id'' Integer_type [PrimaryKey True],
      Column ''server_address'' Text_type [NotNull]] []"

definition tab_ipsec_phase1 :: stmt where
  "tab_ipsec_phase1 = CreateTable ''ipsec_phase1''
     [Column ''id'' Integer_type [PrimaryKey True],
      Column ''disabled'' Integer_type [Default ''0''],
      Column ''ike_version'' Text_type [DefaultText ''ikev2''],
      Column ''internet_protocol'' Text_type [DefaultText ''ipv4''],
      Column ''interface'' Text_type [DefaultText ''wan''],
      Column ''remote_gateway'' Text_type [NotNull],
      Column ''auth_method'' Text_type [DefaultText ''mutual-psk''],
      Column ''my_identifier'' Text_type [DefaultText ''my-ip''],
      Column ''peer_identifier'' Text_type [DefaultText ''peer-ip''],
      Column ''pre_shared_key'' Text_type [DefaultText []],
      Column ''p1_life_time'' Integer_type [Default ''28800''],
      Column ''p1_rekey_time'' Integer_type [Default ''25920''],
      Column ''p1_reauth_time'' Integer_type [Default ''0''],
      Column ''p1_rand_time'' Integer_type [Default ''2880''],
      Column ''child_sa_start_action'' Text_type [DefaultText ''default''],
      Column ''child_sa_close_action'' Text_type [DefaultText ''default''],
      Column ''nat_traversal'' Text_type [DefaultText ''auto''],
      Column ''mobike'' Text_type [DefaultText ''disable''],
      Column ''gateway_duplicates'' Integer_type [Default ''0''],
      Column ''split_connections'' Integer_type [Default ''0''],
      Column ''prf_selection'' Integer_type [Default ''0''],
      Column ''remote_ike_port'' Text_type [DefaultText []],
      Column ''remote_nat_t_port'' Text_type [DefaultText []],
      Column ''dpd_enable'' Integer_type [Default ''1''],
      Column ''dpd_delay'' Integer_type [Default ''10''],
      Column ''dpd_max_failures'' Integer_type [Default ''5''],
      Column ''description'' Text_type [DefaultText []],
      Column ''created_at'' Timestamp_type [Default ''CURRENT_TIMESTAMP'']] []"

definition tab_ipsec_phase1_algorithms :: stmt where
  "tab_ipsec_phase1_algorithms = CreateTable ''ipsec_phase1_algorithms''
     [Column ''id'' Integer_type [PrimaryKey True],
      Column ''phase1_id'' Integer_type [NotNull],
      Column ''encryption'' Text_type [NotNull],
      Column ''key_length'' Integer_type [],
      Column ''hash'' Text_type [],
      Column ''dh_group'' Text_type []]
     [ForeignKey ''phase1_id'' ''ipsec_phase1'' ''id'' ''CASCADE'']"

definition tab_dhcp_server_settings :: stmt where
  "tab_dhcp_server_settings = CreateTable ''dhcp_server_settings''
     [Column ''interface'' Text_type [PrimaryKey False],
      Column ''settings_json'' Text_type [NotNull],
      Column ''updated_at'' Timestamp_type [Default ''CURRENT_TIMESTAMP'']] []"

definition tab_service_state :: stmt where
  "tab_service_state = CreateTable ''service_state''
     [Column ''key_name'' Text_type [PrimaryKey False],
      Column ''value_json'' Text_type [NotNull],
      Column ''updated_at'' Timestamp_type [Default ''CURRENT_TIMESTAMP'']] []"

definition tab_advanced_network :: stmt where
  "tab_advanced_network = CreateTable ''advanced_network''
     [Column ''id'' Integer_type [PrimaryKey True],
      Column ''server_backend'' Text_type [DefaultText ''kea_dhcp''],
      Column ''ignore_deprecation'' Integer_type [Default ''0''],
      Column ''radvd_debug'' Integer_type [Default ''0''],
      Column ''dhcp6_debug'' Integer_type [Default ''0''],
      Column ''do_not_allow_release'' Integer_type [Default ''0''],
      Column ''dhcpv6_duid'' Text_type [DefaultText ''raw_duid''],
      Column ''raw_duid'' Text_type [],
      Column ''allow_ipv6'' Integer_type [Default ''1''],
      Column ''ipv6_over_ipv4_tunneling'' Integer_type [Default ''0''],
      Column ''ipv4_address_tunnel_peer'' Text_type [],
      Column ''prefer_ipv4_over_ipv6'' Integer_type [Default ''0''],
      Column ''ipv6_dns_entry'' Integer_type [Default ''0''],
      Column ''hardware_checksum_offloading'' Integer_type [Default ''0''],
      Column ''hardware_tcp_segmentation'' Integer_type [Default ''0''],
      Column ''hardware_large_receive'' Integer_type [Default ''0''],
      Column ''hn_altq_support'' Integer_type [Default ''0''],
      Column ''arp_handling'' Integer_type [Default ''0''],
      Column ''reset_all_states'' Integer_type [Default ''0''],
      Column ''if_pppoe_kernel'' Integer_type [Default ''0'']] []"

definition tab_advanced_miscellaneous :: stmt where
  "tab_advanced_miscellaneous = CreateTable ''advanced_miscellaneous''
     [Column ''id'' Integer_type [PrimaryKey True],
      Column ''proxy_url'' Text_type [],
      Column ''proxy_port'' Text_type [],
      Column ''proxy_username'' Text_type [],
      Column ''proxy_password'' Text_type [],
      Column ''load_balancing'' Integer_type [Default ''0''],
      Column ''sticky_timeout'' Integer_type [Default ''0''],
      Column ''powerd'' Integer_type [Default ''0''],
      Column ''ac_power'' Text_type [DefaultText ''hadaptive''],
      Column ''battery_power'' Text_type [DefaultText ''hadaptive''],
      Column ''unknown_power'' Text_type [DefaultText ''hadaptive''],
      Column ''cryptographic_hardware'' Text_type [DefaultText ''none''],
      Column ''thermal_sensors'' Text_type [DefaultText ''none_acpi''],
      Column ''kernel_pti'' Integer_type [Default ''0''],
      Column ''mds_mode'' Text_type [DefaultText ''mitigation_disabled''],
      Column ''schedule_states'' Integer_type [Default ''0''],
      Column ''state_killing_on_gateway_recovery'' Text_type [DefaultText ''dont_kill''],
      Column ''dont_kill_policy_routing'' Integer_type [Default ''0''],
      Column ''state_killing_on_gateway_failure'' Text_type [DefaultText ''do_not_kill''],
      Column ''skip_rules_gateway_down'' Integer_type [Default ''0''],
      Column ''static_routes'' Integer_type [Default ''0''],
      Column ''memory_limit'' Text_type [],
      Column ''use_ram_disks'' Integer_type [Default ''0''],
      Column ''tmp_ram_disk'' Text_type [],
      Column ''var_ram_disk'' Text_type [],
      Column ''rrd_data_backup'' Text_type [],
      Column ''dhcp_leases_backup'' Text_type [],
      Column ''log_directory_backup'' Text_type [],
      Column ''captive_portal_data_backup'' Text_type [],
      Column ''hard_disk_standby_time'' Text_type [DefaultText ''always_on''],
      Column ''smart_shield_device_id'' Integer_type [Default ''0'']] []"

definition tab_advanced_system_tunables :: stmt where
  "tab_advanced_system_tunables = CreateTable ''advanced_system_tunables''
     [Column ''id'' Integer_type [PrimaryKey True],
      Column ''name'' Text_type [NotNull],
      Column ''description'' Text_type [],
      Column ''value'' Text_type [NotNull]] []"

definition tab_nat_pf :: stmt where
  "tab_nat_pf = CreateTable ''nat_pf''
     [Column ''id'' Integer_type [PrimaryKey True],
      Column ''disabled'' Integer_type [Default ''0''],
      Column ''interface'' Text_type [],
      Column ''protocol'' Text_type [],
      Column ''src_type'' Text_type [],
      Column ''src_address'' Text_type [],
      Column ''dst_type'' Text_type [],
      Column ''dst_address'' Text_type [],
      Column ''dst_port'' Text_type [],
      Column ''redirect_ip'' Text_type [],
      Column ''redirect_port'' Text_type [],
      Column ''description'' Text_type [],
      Column ''nat_reflection'' Text_type [],
      Column ''rule_order'' Integer_type [Default ''0'']] []"

definition tab_nat_1to1 :: stmt where
  "tab_nat_1to1 = CreateTable ''nat_1to1''
     [Column ''id'' Integer_type [PrimaryKey True],
      Column ''disabled'' Integer_type [Default ''0''],
      Column ''interface'' Text_type [],
      Column ''external_address'' Text_type [],
      Column ''internal_address'' Text_type [],
      Column ''destination_address'' Text_type [],
      Column ''description'' Text_type [],
      Column ''rule_order'' Integer_type [Default ''0'']] []"

definition tab_nat_outbound :: stmt where
  "tab_nat_outbound = CreateTable ''nat_outbound''
     [Column ''id'' Integer_type [PrimaryKey True],
      Column ''disabled'' Integer_type [Default ''0''],
      Column ''interface'' Text_type [],
      Column ''src_address'' Text_type [],
      Column ''dst_address'' Text_type [],
      Column ''nat_address'' Text_type [],
      Column ''static_port'' Integer_type [Default ''0''],
      Column ''description'' Text_type [],
      Column ''rule_order'' Integer_type [Default ''0'']] []"

definition tab_nat_npt :: stmt where
  "tab_nat_npt = CreateTable ''nat_npt''
     [Column ''id'' Integer_type [PrimaryKey True],
      Column ''disabled'' Integer_type [Default ''0''],
      Column ''interface'' Text_type [],
      Column ''src_not'' Integer_type [Default ''0''],
      Column ''src_prefix'' Text_type [],
      Column ''src_prefix_length'' Integer_type [],
      Column ''dst_not'' Integer_type [Default ''0''],
      Column ''dst_type'' Text_type [],
      Column ''dst_prefix'' Text_type [],
      Column ''dst_prefix_length'' Integer_type [],
      Column ''description'' Text_type [],
      Column ''rule_order'' Integer_type [Default ''0'']] []"

definition tab_firewall_rules_floating :: stmt where
  "tab_firewall_rules_floating = CreateTable ''firewall_rules_floating''
     [Column ''id'' Integer_type [PrimaryKey True],
      Column ''action'' Text_type [DefaultText ''pass''],
      Column ''disabled'' Integer_type [Default ''0''],
      Column ''interface'' Text_type [],
      Column ''protocol'' Text_type [],
      Column ''source'' Text_type [],
      Column ''source_port'' Text_type [],
      Column ''destination'' Text_type [],
      Column ''dest_port'' Text_type [],
      Column ''gateway'' Text_type [],
      Column ''queue'' Text_type [],
      Column ''schedule'' Text_type [],
      Column ''description'' Text_type [],
      Column ''rule_order'' Integer_type [Default ''0'']] []"

definition tab_firewall_rules_wan :: stmt where
  "tab_firewall_rules_wan = CreateTable ''firewall_rules_wan''
     [Column ''id'' Integer_type [PrimaryKey True],
      Column ''action'' Text_type [DefaultText ''pass''],
      Column ''disabled'' Integer_type [Default ''0''],
      Column ''protocol'' Text_type [],
      Column ''source'' Text_type [],
      Column ''source_port'' Text_type [],
      Column ''destination'' Text_type [],
      Column ''dest_port'' Text_type [],
      Column ''description'' Text_type [],
      Column ''rule_order'' Integer_type [Default ''0'']] []"

definition tab_firewall_rules_lan :: stmt where
  "tab_firewall_rules_lan = CreateTable ''firewall_rules_lan''
     [Column ''id'' Integer_type [PrimaryKey True],
      Column ''action'' Text_type [DefaultText ''pass''],
      Column ''disabled'' Integer_type [Default ''0''],
      Column ''interface'' Text_type [],
      Column ''protocol'' Text_type [],
      Column ''source'' Text_type [],
      Column ''source_port'' Text_type [],
      Column ''destination'' Text_type [],
      Column ''dest_port'' Text_type [],
      Column ''description'' Text_type [],
      Column ''rule_order'' Integer_type [Default ''0'']] []"

definition tab_firewall_aliases :: stmt where
  "tab_firewall_aliases = CreateTable ''firewall_aliases''
     [Column ''id'' Integer_type [PrimaryKey True],
      Column ''name'' Text_type [UniqueCol, NotNull],
      Column ''type'' Text_type [],
      Column ''alias_values'' Text_type [],
      Column ''description'' Text_type []] []"

definition tab_traffic_shaper_configs :: stmt where
  "tab_traffic_shaper_configs = CreateTable ''traffic_shaper_configs''
     [Column ''id'' Integer_type [PrimaryKey True],
      Column ''interface_type'' Text_type [NotNull],
      Column ''enable_disable'' Integer_type [Default ''1''],
      Column ''name'' Text_type [NotNull],
      Column ''scheduler_type'' Text_type [DefaultText ''HFSC''],
      Column ''bandwidth'' Integer_type [],
      Column ''bandwidth_unit'' Text_type [DefaultText ''Mbit/s''],
      Column ''queue_limit'' Integer_type [],
      Column ''tbr_size'' Integer_type [],
      Column ''description'' Text_type [],
      Column ''created_at'' Timestamp_type [Default ''CURRENT_TIMESTAMP'']] []"

definition tab_traffic_shaper_queues :: stmt where
  "tab_traffic_shaper_queues = CreateTable ''traffic_shaper_queues''
     [Column ''id'' Integer_type [PrimaryKey True],
      Column ''enabled'' Integer_type [Default ''1''],
      Column ''queue_name'' Text_type [NotNull],
      Column ''ack_queue'' Text_type [DefaultText []],
      Column ''protocol'' Text_type [DefaultText ''any''],
      Column ''source'' Text_type [DefaultText ''any''],
      Column ''source_port'' Text_type [DefaultText []],
      Column ''destination'' Text_type [DefaultText ''any''],
      Column ''dest_port'' Text_type [DefaultText []],
      Column ''description'' Text_type [DefaultText []],
      Column ''created_at'' Timestamp_type [Default ''CURRENT_TIMESTAMP'']] []"

definition tab_limiters_configs :: stmt where
  "tab_limiters_configs = CreateTable ''limiters_configs''
     [Column ''id'' Integer_type [PrimaryKey True],
      Column ''enable_disable'' Integer_type [Default ''1''],
      Column ''name'' Text_type [NotNull],
      Column ''bandwidth'' Integer_type [],
      Column ''bandwidth_unit'' Text_type [DefaultText ''Mbit/s''],
      Column ''mask_type'' Text_type [DefaultText ''None''],
      Column ''ipv4_mask_bits'' Integer_type [Default ''32''],
      Column ''ipv6_mask_bits'' Integer_type [Default ''128''],
      Column ''queue_management_algorithm'' Text_type [DefaultText ''Tail Drop''],
      Column ''scheduler'' Text_type [DefaultText ''Worst-case Weighted fair Queuing (default)''],
      Column ''queue_length'' Integer_type [],
      Column ''delay_ms'' Integer_type [],
      Column ''packet_loss_rate'' Real_type [],
      Column ''bucket_size_slots'' Integer_type [],
      Column ''description'' Text_type [],
      Column ''created_at'' Timestamp_type [Default ''CURRENT_TIMESTAMP'']] []"

definition tab_openvpn_servers :: stmt where
  "tab_openvpn_servers = CreateTable ''openvpn_servers''
     [Column ''id'' Integer_type [PrimaryKey True],
      Column ''description'' Text_type [],
      Column ''disabled'' Integer_type [Default ''0''],
      Column ''server_mode'' Text_type [DefaultText ''peer2peer''],
      Column ''device_mode'' Text_type [DefaultText ''tun''],
      Column ''protocol'' Text_type [DefaultText ''udp4''],
      Column ''interface'' Text_type [DefaultText ''wan''],
      Column ''local_port'' Integer_type [Default ''1194''],
      Column ''tls_key'' Integer_type [Default ''1''],
      Column ''tls_key_auto'' Integer_type [Default ''1''],
      Column ''peer_ca'' Text_type [],
      Column ''tunnel_network'' Text_type [],
      Column ''tunnel_network_v6'' Text_type [],
      Column ''redirect_gateway'' Integer_type [Default ''0''],
      Column ''local_network'' Text_type [],
      Column ''remote_network'' Text_type [],
      Column ''max_clients'' Integer_type [],
      Column ''compression'' Text_type [],
      Column ''inter_client_communication'' Integer_type [Default ''0''],
      Column ''duplicate_connection'' Integer_type [Default ''0''],
      Column ''dynamic_ip'' Integer_type [Default ''0''],
      Column ''topology'' Text_type [DefaultText ''subnet''],
      Column ''dns_server1'' Text_type [],
      Column ''dns_server2'' Text_type [],
      Column ''dns_server3'' Text_type [],
      Column ''dns_server4'' Text_type [],
      Column ''ntp_server1'' Text_type [],
      Column ''ntp_server2'' Text_type [],
      Column ''netbios_enable'' Integer_type [Default ''0''],
      Column ''netbios_node_type'' Text_type [],
      Column ''netbios_scope'' Text_type [],
      Column ''wins_server1'' Text_type [],
      Column ''wins_server2'' Text_type [],
      Column ''custom_options'' Text_type [],
      Column ''ca_id'' Integer_type [],
      Column ''server_cert_id'' Integer_type [],
      Column ''inactivity_timeout'' Integer_type [Default ''300''],
      Column ''ping_method'' Text_type [DefaultText ''keepalive''],
      Column ''ping_interval'' Integer_type [Default ''10''],
      Column ''ping_timeout'' Integer_type [Default ''60''],
      Column ''dh_parameter_length'' Text_type [DefaultText ''2048''],
      Column ''ecdh_curve'' Text_type [DefaultText ''default''],
      Column ''data_encryption_algorithms'' Text_type [DefaultText ''AES-256-GCM''],
      Column ''fallback_data_encryption_algorithm'' Text_type [DefaultText ''AES-256-CBC''],
      Column ''auth_digest_algorithm'' Text_type [DefaultText ''SHA256''],
      Column ''verbosity_level'' Integer_type [Default ''1''],
      Column ''created_at'' Timestamp_type [Default ''CURRENT_TIMESTAMP'']] []"

definition tab_openvpn_clients :: stmt where
  "tab_openvpn_clients = CreateTable ''openvpn_clients''
     [Column ''id'' Integer_type [PrimaryKey True],
      Column ''description'' Text_type [],
      Column ''disabled'' Integer_type [Default ''0''],
      Column ''server_mode'' Text_type [DefaultText ''peer2peer''],
      Column ''protocol'' Text_type [DefaultText ''udp4''],
      Column ''interface'' Text_type [DefaultText ''wan''],
      Column ''server_hostname'' Text_type [],
      Column ''server_port'' Integer_type [Default ''1194''],
      Column ''use_tls_key'' Integer_type [Default ''0''],
      Column ''tls_key'' Text_type [],
      Column ''ca_cert'' Text_type [],
      Column ''client_cert'' Text_type [],
      Column ''client_key'' Text_type [],
      Column ''encryption_algorithm'' Text_type [DefaultText ''AES-256-CBC''],
      Column ''auth_digest_algorithm'' Text_type [DefaultText ''SHA256''],
      Column ''inactivity_timeout'' Integer_type [Default ''300''],
      Column ''ping_method'' Text_type [DefaultText ''keepalive''],
      Column ''ping_interval'' Integer_type [Default ''10''],
      Column ''ping_timeout'' Integer_type [Default ''60''],
      Column ''custom_options'' Text_type [],
      Column ''udp_fast_io'' Integer_type [Default ''0''],
      Column ''send_receive_buffer'' Text_type [DefaultText ''default''],
      Column ''verbosity_level'' Integer_type [Default ''3''],
      Column ''created_at'' Timestamp_type [Default ''CURRENT_TIMESTAMP'']] []"

definition tab_ipsec_phase2 :: stmt where
  "tab_ipsec_phase2 = CreateTable ''ipsec_phase2''
     [Column ''id'' Integer_type [PrimaryKey True],
      Column ''phase1_id'' Integer_type [],
      Column ''description'' Text_type [],
      Column ''disabled'' Integer_type [Default ''0''],
      Column ''mode'' Text_type [DefaultText ''tunnel''],
      Column ''local_network'' Text_type [],
      Column ''remote_network'' Text_type [],
      Column ''protocol'' Text_type [DefaultText ''esp''],
      Column ''encryption_algorithms'' Text_type [DefaultText ''aes256''],
      Column ''hash_algorithms'' Text_type [DefaultText ''sha256''],
      Column ''pfs_key_group'' Text_type [DefaultText ''14''],
      Column ''lifetime'' Integer_type [Default ''3600''],
      Column ''created_at'' Timestamp_type [Default ''CURRENT_TIMESTAMP'']]
     [ForeignKey ''phase1_id'' ''ipsec_phase1'' ''id'' []]"

definition tab_l2tp_config :: stmt where
  "tab_l2tp_config = CreateTable ''l2tp_config''
     [Column ''id'' Integer_type [PrimaryKey True],
      Column ''enabled'' Integer_type [Default ''1''],
      Column ''interface'' Text_type [DefaultText ''wan''],
      Column ''server_address'' Text_type [],
      Column ''remote_address_range'' Text_type [],
      Column ''subnet_mask'' Text_type [],
      Column ''dns_server1'' Text_type [],
      Column ''dns_server2'' Text_type [],
      Column ''wins_server'' Text_type [],
      Column ''authentication'' Text_type [DefaultText ''chap''],
      Column ''require_chap'' Integer_type [Default ''0''],
      Column ''require_pap'' Integer_type [Default ''0''],
      Column ''radius_server'' Text_type [],
      Column ''radius_secret'' Text_type [],
      Column ''pre_shared_key'' Text_type [DefaultText []],
      Column ''created_at'' Timestamp_type [Default ''CURRENT_TIMESTAMP'']] []"

definition tab_l2tp_users :: stmt where
  "tab_l2tp_users = CreateTable ''l2tp_users''
     [Column ''id'' Integer_type [PrimaryKey True],
      Column ''username'' Text_type [UniqueCol, NotNull],
      Column ''password'' Text_type [NotNull],
      Column ''ip_address'' Text_type [],
      Column ''created_at'' Timestamp_type [Default ''CURRENT_TIMESTAMP'']] []"

definition tab_openvpn_cso :: stmt where
  "tab_openvpn_cso = CreateTable ''openvpn_cso''
     [Column ''id'' Integer_type [PrimaryKey True],
      Column ''description'' Text_type [],
      Column ''disabled'' Integer_type [Default ''0''],
      Column ''common_name'' Text_type [NotNull],
      Column ''connection_blocking'' Integer_type [Default ''0''],
      Column ''server_list'' Text_type [],
      Column ''reset_server_options'' Text_type [DefaultText ''keep''],
      Column ''ipv4_tunnel_network'' Text_type [],
      Column ''ipv6_tunnel_network'' Text_type [],
      Column ''ipv4_gateway'' Text_type [],
      Column ''ipv6_gateway'' Text_type [],
      Column ''redirect_ipv4_gateway'' Integer_type [Default ''0''],
      Column ''redirect_ipv6_gateway'' Integer_type [Default ''0''],
      Column ''ipv4_local_networks'' Text_type [],
      Column ''ipv6_local_networks'' Text_type [],
      Column ''ipv4_remote_networks'' Text_type [],
      Column ''ipv6_remote_networks'' Text_type [],
      Column ''inactivity_timeout'' Integer_type [Default ''300''],
      Column ''ping_interval'' Integer_type [Default ''10''],
      Column ''ping_action'' Text_type [DefaultText ''none''],
      Column ''dns_default_domain'' Integer_type [Default ''0''],
      Column ''dns_servers'' Integer_type [Default ''0''],
      Column ''block_outside_dns'' Integer_type [Default ''0''],
      Column ''force_dns_cache_update'' Integer_type [Default ''0''],
      Column ''ntp_servers'' Integer_type [Default ''0''],
      Column ''netbios_options'' Integer_type [Default ''0''],
      Column ''advanced'' Text_type [],
      Column ''created_at'' Timestamp_type [Default ''CURRENT_TIMESTAMP'']] []"

definition tab_certificate_authorities :: stmt where
  "tab_certificate_authorities = CreateTable ''certificate_authorities''
     [Column ''id'' Integer_type [PrimaryKey True],
      Column ''descriptive_name'' Text_type [NotNull],
      Column ''randomize_serial'' Integer_type [Default ''1''],
      Column ''key_length'' Integer_type [Default ''2048''],
      Column ''lifetime'' Integer_type [Default ''3650''],
      Column ''common_name'' Text_type [],
      Column ''country_code'' Text_type [],
      Column ''state_or_province'' Text_type [],
      Column ''city'' Text_type [],
      Column ''organization'' Text_type [],
      Column ''organizational_unit'' Text_type [],
      Column ''ca_data'' Text_type [],
      Column ''created_at'' Timestamp_type [Default ''CURRENT_TIMESTAMP'']] []"

definition tab_openvpn_wizard_configs :: stmt where
  "tab_openvpn_wizard_configs = CreateTable ''openvpn_wizard_configs''
     [Column ''id'' Integer_type [PrimaryKey True],
      Column ''type_of_server'' Text_type [DefaultText ''local''],
      Column ''ca_id'' Integer_type [],
      Column ''server_configured'' Integer_type [Default ''0''],
      Column ''created_at'' Timestamp_type [Default ''CURRENT_TIMESTAMP'']]
     [ForeignKey ''ca_id'' ''certificate_authorities'' ''id'' []]"

definition tab_dhcp_pools :: stmt where
  "tab_dhcp_pools = CreateTable ''dhcp_pools''
     [Column ''id'' Integer_type [PrimaryKey True],
      Column ''interface_type'' Text_type [NotNull, UniqueCol],
      Column ''enabled'' Integer_type [Default ''0''],
      Column ''start_ip'' Text_type [NotNull],
      Column ''end_ip'' Text_type [NotNull],
      Column ''gateway_ip'' Text_type [],
      Column ''dns_servers'' Text_type [DefaultText []],
      Column ''lease_time'' Integer_type [Default ''86400''],
      Column ''created_at'' Timestamp_type [Default ''CURRENT_TIMESTAMP''],
      Column ''updated_at'' Timestamp_type [Default ''CURRENT_TIMESTAMP'']] []"

definition tab_static_leases :: stmt where
  "tab_static_leases = CreateTable ''static_leases''
     [Column ''id'' Integer_type [PrimaryKey True],
      Column ''interface_type'' Text_type [NotNull],
      Column ''hostname'' Text_type [],
      Column ''mac_address'' Text_type [NotNull],
      Column ''ip_address'' Text_type [NotNull],
      Column ''description'' Text_type [],
      Column ''created_at'' Timestamp_type [Default ''CURRENT_TIMESTAMP'']] []"

definition tab_tracked_hosts :: stmt where
  "tab_tracked_hosts = CreateTable ''tracked_hosts''
     [Column ''id'' Integer_type [PrimaryKey True],
      Column ''interface_type'' Text_type [NotNull, DefaultText ''UNKNOWN''],
      Column ''interface_name'' Text_type [DefaultText []],
      Column ''ip_address'' Text_type [NotNull],
      Column ''mac_address'' Text_type [DefaultText []],
      Column ''hostname'' Text_type [DefaultText []],
      Column ''discovered_via'' Text_type [DefaultText ''unknown''],
      Column ''first_seen'' Timestamp_type [Default ''CURRENT_TIMESTAMP''],
      Column ''last_seen'' Timestamp_type [Default ''CURRENT_TIMESTAMP''],
      Column ''policy_state'' Text_type [DefaultText ''unknown''],
      Column ''policy_note'' Text_type [DefaultText []]] []"

definition tab_ids_config :: stmt where
  "tab_ids_config = CreateTable ''ids_config''
     [Column ''id'' Integer_type [PrimaryKey False, CheckCol ''id = 1''],
      Column ''enabled'' Integer_type [Default ''0''],
      Column ''mode'' Text_type [DefaultText ''ids''],
      Column ''interface'' Text_type [DefaultText []],
      Column ''home_net'' Text_type [DefaultText []],
      Column ''external_net'' Text_type [DefaultText ''!$HOME_NET''],
      Column ''block_list_enabled'' Integer_type [Default ''1''],
      Column ''eve_json_enabled'' Integer_type [Default ''1''],
      Column ''fast_log_enabled'' Integer_type [Default ''1''],
      Column ''max_pending_packets'' Integer_type [Default ''1024''],
      Column ''stats_interval'' Integer_type [Default ''8''],
      Column ''updated_at'' Timestamp_type [Default ''CURRENT_TIMESTAMP'']] []"

definition tab_ids_rulesets :: stmt where
  "tab_ids_rulesets = CreateTable ''ids_rulesets''
     [Column ''id'' Integer_type [PrimaryKey True],
      Column ''name'' Text_type [NotNull, UniqueCol],
      Column ''enabled'' Integer_type [Default ''1''],
      Column ''url'' Text_type [DefaultText []],
      Column ''local_path'' Text_type [DefaultText []],
      Column ''description'' Text_type [DefaultText []],
      Column ''updated_at'' Timestamp_type [Default ''CURRENT_TIMESTAMP'']] []"

definition tab_ids_threat_feeds :: stmt where
  "tab_ids_threat_feeds = CreateTable ''ids_threat_feeds''
     [Column ''id'' Integer_type [PrimaryKey False, CheckCol ''id = 1''],
      Column ''abusech_auth_key'' Text_type [DefaultText []],
      Column ''abusech_dry_run'' Integer_type [Default ''1''],
      Column ''updated_at'' Timestamp_type [Default ''CURRENT_TIMESTAMP'']] []"

definition tab_siem_state :: stmt where
  "tab_siem_state = CreateTable ''siem_state''
     [Column ''key'' Text_type [PrimaryKey False],
      Column ''value'' Text_type [NotNull, DefaultText []],
      Column ''updated_at'' Timestamp_type [Default ''CURRENT_TIMESTAMP'']] []"

definition tab_events :: stmt where
  "tab_events = CreateTable ''events''
     [Column ''id'' Integer_type [PrimaryKey True],
      Column ''ts'' Text_type [NotNull],
      Column ''severity'' Text_type [DefaultText ''info''],
      Column ''category'' Text_type [],
      Column ''action'' Text_type [],
      Column ''username'' Text_type [],
      Column ''remote_addr'' Text_type [],
      Column ''details'' Text_type [],
      Column ''event_uuid'' Text_type [],
      Column ''source_type'' Text_type [],
      Column ''source_name'' Text_type [],
      Column ''src_ip'' Text_type [],
      Column ''src_port'' Integer_type [],
      Column ''dst_ip'' Text_type [],
      Column ''dst_port'' Integer_type [],
      Column ''protocol'' Text_type [],
      Column ''interface'' Text_type [],
      Column ''direction'' Text_type [],
      Column ''hostname'' Text_type [],
      Column ''mac'' Text_type [],
      Column ''domain'' Text_type [],
      Column ''url'' Text_type [],
      Column ''rule_id'' Text_type [],
      Column ''rule_name'' Text_type [],
      Column ''policy_id'' Text_type [],
      Column ''policy_name'' Text_type [],
      Column ''mitre_tactic'' Text_type [],
      Column ''mitre_technique'' Text_type [],
      Column ''soc_origin'' Integer_type [Default ''0''],
      Column ''raw'' Text_type []] []"

definition tab_correlation_rules :: stmt where
  "tab_correlation_rules = CreateTable ''correlation_rules''
     [Column ''id'' Integer_type [PrimaryKey True],
      Column ''name'' Text_type [NotNull],
      Column ''enabled'' Integer_type [Default ''1''],
      Column ''category_filter'' Text_type [DefaultText []],
      Column ''action_filter'' Text_type [DefaultText []],
      Column ''group_by'' Text_type [DefaultText ''remote_addr''],
      Column ''threshold'' Integer_type [Default ''5''],
      Column ''window_seconds'' Integer_type [Default ''300''],
      Column ''severity'' Text_type [DefaultText ''high''],
      Column ''mitre_technique'' Text_type [DefaultText []],
      Column ''created_at'' Timestamp_type [Default ''CURRENT_TIMESTAMP'']] []"

definition tab_siem_cases :: stmt where
  "tab_siem_cases = CreateTable ''siem_cases''
     [Column ''id'' Integer_type [PrimaryKey True],
      Column ''title'' Text_type [NotNull],
      Column ''description'' Text_type [DefaultText []],
      Column ''severity'' Text_type [DefaultText ''medium''],
      Column ''status'' Text_type [DefaultText ''open''],
      Column ''assigned_to'' Integer_type [],
      Column ''created_by'' Text_type [NotNull, DefaultText ''system''],
      Column ''source_event'' Text_type [DefaultText []],
      Column ''tags'' Text_type [DefaultText []],
      Column ''escalation_tier'' Text_type [Default ''NULL''],
      Column ''closure_type'' Text_type [Default ''NULL''],
      Column ''created_at'' Timestamp_type [Default ''CURRENT_TIMESTAMP''],
      Column ''updated_at'' Timestamp_type [Default ''CURRENT_TIMESTAMP'']]
     [ForeignKey ''assigned_to'' ''users'' ''id'' ''SET NULL'']"

definition tab_siem_case_notes :: stmt where
  "tab_siem_case_notes = CreateTable ''siem_case_notes''
     [Column ''id'' Integer_type [PrimaryKey True],
      Column ''case_id'' Integer_type [NotNull],
      Column ''note'' Text_type [NotNull],
      Column ''created_by'' Text_type [NotNull],
      Column ''created_at'' Timestamp_type [Default ''CURRENT_TIMESTAMP'']]
     [ForeignKey ''case_id'' ''siem_cases'' ''id'' ''CASCADE'']"

definition tab_siem_case_events :: stmt where
  "tab_siem_case_events = CreateTable ''siem_case_events''
     [Column ''id'' Integer_type [PrimaryKey True],
      Column ''case_id'' Integer_type [NotNull],
      Column ''event_timestamp'' Text_type [NotNull],
      Column ''event_action'' Text_type [NotNull, DefaultText []],
      Column ''event_category'' Text_type [NotNull, DefaultText []],
      Column ''event_summary'' Text_type [DefaultText []],
      Column ''event_uuid'' Text_type [DefaultText []],
      Column ''event_details'' Text_type [DefaultText []]]
     [ForeignKey ''case_id'' ''siem_cases'' ''id'' ''CASCADE'']"

definition tab_siem_alert_actions :: stmt where
  "tab_siem_alert_actions = CreateTable ''siem_alert_actions''
     [Column ''id'' Integer_type [PrimaryKey True],
      Column ''event_key'' Text_type [NotNull],
      Column ''event_uuid'' Text_type [],
      Column ''event_action'' Text_type [NotNull, DefaultText []],
      Column ''action'' Text_type [NotNull],
      Column ''taken_by'' Text_type [NotNull],
      Column ''taken_at'' Timestamp_type [Default ''CURRENT_TIMESTAMP''],
      Column ''note'' Text_type [DefaultText []],
      Column ''case_id'' Integer_type []] []"

definition tab_soc_blocked_ips :: stmt where
  "tab_soc_blocked_ips = CreateTable ''soc_blocked_ips''
     [Column ''id'' Integer_type [PrimaryKey True],
      Column ''ip'' Text_type [NotNull, UniqueCol],
      Column ''note'' Text_type [DefaultText []],
      Column ''blocked_by'' Text_type [DefaultText []],
      Column ''created_at'' Timestamp_type [Default ''CURRENT_TIMESTAMP'']] []"

definition tab_siem_alert_assignments :: stmt where
  "tab_siem_alert_assignments = CreateTable ''siem_alert_assignments''
     [Column ''event_key'' Text_type [PrimaryKey False],
      Column ''event_uuid'' Text_type [],
      Column ''assignee_id'' Integer_type [],
      Column ''assignee_name'' Text_type [DefaultText []],
      Column ''assigned_by'' Text_type [DefaultText []],
      Column ''assigned_at'' Timestamp_type [Default ''CURRENT_TIMESTAMP'']] []"

definition tab_soc_active_sessions :: stmt where
  "tab_soc_active_sessions = CreateTable ''soc_active_sessions''
     [Column ''user_id'' Integer_type [PrimaryKey False],
      Column ''username'' Text_type [DefaultText []],
      Column ''tier'' Text_type [DefaultText []],
      Column ''last_seen'' Timestamp_type [Default ''CURRENT_TIMESTAMP'']] []"

definition tab_soc_portal_config :: stmt where
  "tab_soc_portal_config = CreateTable ''soc_portal_config''
     [Column ''id'' Integer_type [PrimaryKey False, CheckCol ''id = 1''],
      Column ''enabled'' Integer_type [Default ''0''],
      Column ''bind_ip'' Text_type [DefaultText ''0.0.0.0''],
      Column ''bind_port'' Integer_type [Default ''8443''],
      Column ''ssl_cert_id'' Integer_type [Default ''NULL''],
      Column ''public_url'' Text_type [DefaultText []],
      Column ''allowed_networks'' Text_type [DefaultText []],
      Column ''external_ingest_enabled'' Integer_type [Default ''0''],
      Column ''retention_days'' Integer_type [Default ''90''],
      Column ''updated_at'' Timestamp_type [Default ''CURRENT_TIMESTAMP'']] []"

definition tab_soc_recommendations :: stmt where
  "tab_soc_recommendations = CreateTable ''soc_recommendations''
     [Column ''id'' Integer_type [PrimaryKey True],
      Column ''created_at'' Timestamp_type [Default ''CURRENT_TIMESTAMP''],
      Column ''source_alert_id'' Text_type [DefaultText []],
      Column ''action_type'' Text_type [NotNull],
      Column ''target_value'' Text_type [NotNull],
      Column ''reason'' Text_type [DefaultText []],
      Column ''severity'' Text_type [DefaultText ''medium''],
      Column ''status'' Text_type [DefaultText ''pending''],
      Column ''created_by'' Text_type [DefaultText []],
      Column ''reviewed_by'' Text_type [DefaultText []],
      Column ''reviewed_at'' Timestamp_type [],
      Column ''exported_at'' Timestamp_type [],
      Column ''core_approved_by'' Text_type [DefaultText []],
      Column ''core_approved_at'' Timestamp_type []] []"

definition tab_gateways :: stmt where
  "tab_gateways = CreateTable ''gateways''
     [Column ''id'' Integer_type [PrimaryKey True],
      Column ''disabled'' Integer_type [Default ''0''],
      Column ''name'' Text_type [NotNull],
      Column ''interface'' Text_type [DefaultText ''WAN''],
      Column ''address_family'' Text_type [DefaultText ''IPv4''],
      Column ''gateway'' Text_type [NotNull],
      Column ''monitor'' Text_type [DefaultText []],
      Column ''disable_monitoring'' Integer_type [Default ''0''],
      Column ''disable_monitoring_action'' Integer_type [Default ''0''],
      Column ''force_state'' Integer_type [Default ''0''],
      Column ''state_killing'' Text_type [DefaultText ''global''],
      Column ''is_default_v4'' Integer_type [Default ''0''],
      Column ''is_default_v6'' Integer_type [Default ''0''],
      Column ''description'' Text_type [DefaultText []],
      Column ''created_at'' Timestamp_type [Default ''CURRENT_TIMESTAMP'']] []"

definition tab_static_routes :: stmt where
  "tab_static_routes = CreateTable ''static_routes''
     [Column ''id'' Integer_type [PrimaryKey True],
      Column ''disabled'' Integer_type [Default ''0''],
      Column ''destination'' Text_type [NotNull],
      Column ''gateway_id'' Integer_type [],
      Column ''description'' Text_type [DefaultText []],
      Column ''created_at'' Timestamp_type [Default ''CURRENT_TIMESTAMP'']]
     [ForeignKey ''gateway_id'' ''gateways'' ''id'' ''SET NULL'']"

definition tab_gateway_groups :: stmt where
  "tab_gateway_groups = CreateTable ''gateway_groups''
     [Column ''id'' Integer_type [PrimaryKey True],
      Column ''name'' Text_type [NotNull, UniqueCol],
      Column ''trigger_level'' Text_type [DefaultText ''down''],
      Column ''description'' Text_type [DefaultText []],
      Column ''members_json'' Text_type [DefaultText ''[]''],
      Column ''created_at'' Timestamp_type [Default ''CURRENT_TIMESTAMP'']] []"

definition tab_filter_dns_rules :: stmt where
  "tab_filter_dns_rules = CreateTable ''filter_dns_rules''
     [Column ''id'' Integer_type [PrimaryKey True],
      Column ''enabled'' Integer_type [Default ''1''],
      Column ''domain'' Text_type [NotNull],
      Column ''action'' Text_type [DefaultText ''block''],
      Column ''redirect_ip'' Text_type [DefaultText []],
      Column ''category'' Text_type [DefaultText ''custom''],
      Column ''description'' Text_type [DefaultText []],
      Column ''created_at'' Timestamp_type [Default ''CURRENT_TIMESTAMP'']] []"

definition tab_filter_web_rules :: stmt where
  "tab_filter_web_rules = CreateTable ''filter_web_rules''
     [Column ''id'' Integer_type [PrimaryKey True],
      Column ''enabled'' Integer_type [Default ''1''],
      Column ''url_pattern'' Text_type [NotNull],
      Column ''action'' Text_type [DefaultText ''block''],
      Column ''category'' Text_type [DefaultText ''custom''],
      Column ''description'' Text_type [DefaultText []],
      Column ''created_at'' Timestamp_type [Default ''CURRENT_TIMESTAMP'']] []"

definition tab_filter_app_rules :: stmt where
  "tab_filter_app_rules = CreateTable ''filter_app_rules''
     [Column ''id'' Integer_type [PrimaryKey True],
      Column ''enabled'' Integer_type [Default ''1''],
      Column ''app_name'' Text_type [NotNull],
      Column ''action'' Text_type [DefaultText ''block''],
      Column ''block_dns'' Integer_type [Default ''1''],
      Column ''block_ports'' Integer_type [Default ''0''],
      Column ''ports'' Text_type [DefaultText []],
      Column ''protocol'' Text_type [DefaultText ''tcp+udp''],
      Column ''domains'' Text_type [DefaultText []],
      Column ''category'' Text_type [DefaultText ''custom''],
      Column ''description'' Text_type [DefaultText []],
      Column ''created_at'' Timestamp_type [Default ''CURRENT_TIMESTAMP'']] []"

definition tab_certificates :: stmt where
  "tab_certificates = CreateTable ''certificates''
     [Column ''id'' Integer_type [PrimaryKey True],
      Column ''name'' Text_type [NotNull],
      Column ''cert_type'' Text_type [NotNull, DefaultText ''client''],
      Column ''common_name'' Text_type [NotNull],
      Column ''ca_id'' Integer_type [],
      Column ''cert_pem'' Text_type [NotNull, DefaultText []],
      Column ''private_key_enc'' Text_type [NotNull, DefaultText []],
      Column ''serial'' Text_type [DefaultText []],
      Column ''not_before'' Text_type [DefaultText []],
      Column ''not_after'' Text_type [DefaultText []],
      Column ''revoked'' Integer_type [Default ''0''],
      Column ''revoked_at'' Timestamp_type [],
      Column ''created_at'' Timestamp_type [Default ''CURRENT_TIMESTAMP'']]
     [ForeignKey ''ca_id'' ''certificates'' ''id'' ''SET NULL'']"

definition tab_config_apply_jobs :: stmt where
  "tab_config_apply_jobs = CreateTable ''config_apply_jobs''
     [Column ''id'' Integer_type [PrimaryKey True],
      Column ''feature_key'' Text_type [NotNull],
      Column ''state'' Text_type [NotNull, DefaultText ''saved''],
      Column ''config_hash'' Text_type [DefaultText []],
      Column ''applied_by'' Text_type [DefaultText ''system''],
      Column ''notes'' Text_type [DefaultText []],
      Column ''message'' Text_type [DefaultText []],
      Column ''created_at'' Real_type [NotNull, Default ''0''],
      Column ''updated_at'' Real_type [NotNull, Default ''0'']] []"

definition tab_feature_applied_state :: stmt where
  "tab_feature_applied_state = CreateTable ''feature_applied_state''
     [Column ''feature_key'' Text_type [PrimaryKey False],
      Column ''state'' Text_type [NotNull, DefaultText ''saved''],
      Column ''message'' Text_type [DefaultText []],
      Column ''last_job_id'' Integer_type [],
      Column ''updated_at'' Real_type [NotNull, Default ''0'']]
     [ForeignKey ''last_job_id'' ''config_apply_jobs'' ''id'' []]"

definition tab_schema_version :: stmt where
  "tab_schema_version = CreateTable ''schema_version''
     [Column ''version'' Integer_type [PrimaryKey False],
      Column ''applied_at'' Timestamp_type [Default ''CURRENT_TIMESTAMP'']] []"

definition tab_policy_routes :: stmt where
  "tab_policy_routes = CreateTable ''policy_routes''
     [Column ''id'' Integer_type [PrimaryKey True],
      Column ''enabled'' Integer_type [Default ''1''],
      Column ''priority'' Integer_type [Default ''100''],
      Column ''description'' Text_type [DefaultText []],
      Column ''interface_type'' Text_type [DefaultText ''LAN''],
      Column ''source'' Text_type [DefaultText ''any''],
      Column ''destination'' Text_type [DefaultText ''any''],
      Column ''gateway_id'' Integer_type [References ''gateways'' ''id''],
      Column ''created_at'' Timestamp_type [Default ''CURRENT_TIMESTAMP'']] []"

definition tab_dhcpv6_pools :: stmt where
  "tab_dhcpv6_pools = CreateTable ''dhcpv6_pools''
     [Column ''id'' Integer_type [PrimaryKey True],
      Column ''interface_type'' Text_type [NotNull, UniqueCol],
      Column ''interface_name'' Text_type [DefaultText []],
      Column ''enabled'' Integer_type [Default ''0''],
      Column ''prefix'' Text_type [DefaultText ''::/64''],
      Column ''start_address'' Text_type [DefaultText []],
      Column ''end_address'' Text_type [DefaultText []],
      Column ''valid_lifetime'' Integer_type [Default ''86400''],
      Column ''preferred_lifetime'' Integer_type [Default ''3600''],
      Column ''dns_servers'' Text_type [DefaultText []],
      Column ''domain_search'' Text_type [DefaultText []],
      Column ''pd_prefix'' Text_type [DefaultText []],
      Column ''pd_prefix_len'' Integer_type [Default ''64''],
      Column ''created_at'' Timestamp_type [Default ''CURRENT_TIMESTAMP''],
      Column ''updated_at'' Timestamp_type [Default ''CURRENT_TIMESTAMP'']] []"

definition tab_ra_settings :: stmt where
  "tab_ra_settings = CreateTable ''ra_settings''
     [Column ''id'' Integer_type [PrimaryKey True],
      Column ''interface_name'' Text_type [NotNull, UniqueCol],
      Column ''enabled'' Integer_type [Default ''0''],
      Column ''prefix'' Text_type [DefaultText []],
      Column ''autonomous_flag'' Integer_type [Default ''1''],
      Column ''managed_flag'' Integer_type [Default ''0''],
      Column ''other_flag'' Integer_type [Default ''0''],
      Column ''router_priority'' Text_type [DefaultText ''medium''],
      Column ''min_interval'' Integer_type [Default ''200''],
      Column ''max_interval'' Integer_type [Default ''600''],
      Column ''default_lifetime'' Integer_type [Default ''1800''],
      Column ''dns_servers'' Text_type [DefaultText []],
      Column ''domain_search'' Text_type [DefaultText []],
      Column ''created_at'' Timestamp_type [Default ''CURRENT_TIMESTAMP'']] []"

definition tab_wol_hosts :: stmt where
  "tab_wol_hosts = CreateTable ''wol_hosts''
     [Column ''id'' Integer_type [PrimaryKey True],
      Column ''name'' Text_type [NotNull],
      Column ''mac_address'' Text_type [NotNull],
      Column ''interface'' Text_type [NotNull, DefaultText ''LAN''],
      Column ''broadcast_ip'' Text_type [DefaultText ''255.255.255.255''],
      Column ''description'' Text_type [DefaultText []],
      Column ''last_sent_at'' Timestamp_type [],
      Column ''created_at'' Timestamp_type [Default ''CURRENT_TIMESTAMP'']] []"

definition tab_captive_sessions :: stmt where
  "tab_captive_sessions = CreateTable ''captive_sessions''
     [Column ''id'' Integer_type [PrimaryKey True],
      Column ''mac_address'' Text_type [NotNull, UniqueCol],
      Column ''ip_address'' Text_type [NotNull],
      Column ''username'' Text_type [DefaultText []],
      Column ''is_superuser'' Integer_type [Default ''0''],
      Column ''expires_at'' Integer_type [NotNull],
      Column ''logged_out'' Integer_type [Default ''0''],
      Column ''bytes_in'' Integer_type [Default ''0''],
      Column ''bytes_out'' Integer_type [Default ''0''],
      Column ''created_at'' Timestamp_type [Default ''CURRENT_TIMESTAMP'']] []"

definition tab_captive_vouchers :: stmt where
  "tab_captive_vouchers = CreateTable ''captive_vouchers''
     [Column ''id'' Integer_type [PrimaryKey True],
      Column ''code'' Text_type [NotNull, UniqueCol],
      Column ''duration_minutes'' Integer_type [NotNull, Default ''60''],
      Column ''bandwidth_kbps'' Integer_type [Default ''0''],
      Column ''redeemed'' Integer_type [Default ''0''],
      Column ''disabled'' Integer_type [Default ''0''],
      Column ''redeemed_at'' Timestamp_type [],
      Column ''created_at'' Timestamp_type [Default ''CURRENT_TIMESTAMP'']] []"

definition tab_captive_auth_attempts :: stmt where
  "tab_captive_auth_attempts = CreateTable ''captive_auth_attempts''
     [Column ''id'' Integer_type [PrimaryKey True],
      Column ''ip_address'' Text_type [NotNull],
      Column ''username'' Text_type [DefaultText []],
      Column ''auth_type'' Text_type [DefaultText []],
      Column ''success'' Integer_type [Default ''0''],
      Column ''created_at'' Integer_type [NotNull]] []"

definition tab_pending_interface_changes :: stmt where
  "tab_pending_interface_changes = CreateTable ''pending_interface_changes''
     [Column ''id'' Integer_type [PrimaryKey True],
      Column ''interface_type'' Text_type [NotNull],
      Column ''snapshot_json'' Text_type [NotNull],
      Column ''applied_at'' Timestamp_type [Default ''CURRENT_TIMESTAMP''],
      Column ''confirmed'' Integer_type [Default ''0''],
      Column ''rollback_by'' Timestamp_type []] []"

definition tab_config_versions :: stmt where
  "tab_config_versions = CreateTable ''config_versions''
     [Column ''id'' Integer_type [PrimaryKey True],
      Column ''service'' Text_type [NotNull],
      Column ''version_num'' Integer_type [NotNull, Default ''1''],
      Column ''content'' Text_type [NotNull],
      Column ''content_hash'' Text_type [DefaultText []],
      Column ''applied_by'' Text_type [DefaultText ''system''],
      Column ''applied_at'' Timestamp_type [Default ''CURRENT_TIMESTAMP''],
      Column ''validation_ok'' Integer_type [Default ''1''],
      Column ''apply_ok'' Integer_type [Default ''1''],
      Column ''notes'' Text_type [DefaultText []],
      Column ''file_path'' Text_type [DefaultText []]] []"

definition tab_health_snapshots :: stmt where
  "tab_health_snapshots = CreateTable ''health_snapshots''
     [Column ''id'' Integer_type [PrimaryKey True],
      Column ''snapshot_at'' Timestamp_type [Default ''CURRENT_TIMESTAMP''],
      Column ''services_json'' Text_type [NotNull, DefaultText ''{}''],
      Column ''disk_json'' Text_type [NotNull, DefaultText ''{}''],
      Column ''system_json'' Text_type [NotNull, DefaultText ''{}'']] []"

section \<open>Steps that depend on rows or on the environment\<close>

text \<open>The environment variables \<open>init_db\<close> reads, the password hash and \<open>encrypt_secret\<close>.\<close>

record 'd init_env =
  ie_mig :: "'d mig_env"
  ie_admin_user :: "string option"
  ie_admin_pass :: "string option"
  ie_hash :: "string \<Rightarrow> string"
  ie_abusech_key :: string
  ie_dry_run :: string
  ie_groq_key :: string
  ie_encrypt :: "string \<Rightarrow> string res"

definition cell_text :: "pyval \<Rightarrow> string" where
  "cell_text v = (case v of PStr s \<Rightarrow> s | _ \<Rightarrow> [])"

text \<open>\<open>assigned_port\<close> follows the interface assignments.\<close>

definition sync_port :: "'d sqlite \<Rightarrow> pyval list \<Rightarrow> 'd op" where
  "sync_port q r =
     (case r of
        [itype, port] \<Rightarrow>
          (if upper (cell_text itype) = ''LAN'' \<and> cell_text port \<noteq> []
           then execute q (Write [(''lan_config'', [''assigned_port''])] (''UPDATE lan_config SET assigned_port=? WHERE assigned_port='' @ apos @ apos) [port])
           else if upper (cell_text itype) = ''WAN'' \<and> cell_text port \<noteq> []
           then execute q (Write [(''wan_config'', [''assigned_port''])] (''UPDATE wan_config SET assigned_port=? WHERE assigned_port='' @ apos @ apos) [port])
           else seq_ops [])
      | _ \<Rightarrow> seq_ops [])"

definition sync_ports :: "'d sqlite \<Rightarrow> 'd op" where
  "sync_ports q c =
     (if \<not> has_table ''interface_assignments'' (cn_db c) then (c, Inr ())
      else case select q [(''interface_assignments'', [''interface_type'', ''network_port''])]
             ''SELECT interface_type, network_port FROM interface_assignments WHERE network_port IS NOT NULL'' c of
             Inl e \<Rightarrow> (c, Inl e)
           | Inr rs \<Rightarrow> seq_ops (map (sync_port q) rs) c)"

text \<open>The first administrator, when both variables are set.\<close>

definition bootstrap_admin :: "'d init_env \<Rightarrow> 'd op" where
  "bootstrap_admin e =
     (case (ie_admin_user e, ie_admin_pass e) of
        (Some u, Some p) \<Rightarrow>
          (if u \<noteq> [] \<and> p \<noteq> []
           then execute (me_sql (ie_mig e)) (Write [(''users'', [''username'', ''password'', ''full_name'', ''is_superuser''])]
                  ''INSERT INTO users (username, password, full_name, is_superuser) VALUES (?, ?, ?, 1)''
                  [PStr u, PStr (ie_hash e p), PStr ''System Administrator''])
           else seq_ops [])
      | _ \<Rightarrow> seq_ops [])"

text \<open>Without a superuser, the user \<open>admin\<close> becomes one, or the first user when there is no \<open>admin\<close>.\<close>

definition ensure_superuser :: "'d sqlite \<Rightarrow> 'd op" where
  "ensure_superuser q c =
     (let sql = ''UPDATE users SET is_superuser = 1 WHERE username = '' @ apos @ ''admin'' @ apos;
          n = sq_changed q sql [] (sd_data (cn_db c)) in
      seq_ops
        (execute q (Write [(''users'', [''is_superuser'', ''username''])] sql []) #
         (if n = 0
          then [execute q (Write [(''users'', [''is_superuser'', ''id''])] ''UPDATE users SET is_superuser = 1 WHERE id = (SELECT MIN(id) FROM users)'' [])]
          else [])) c)"

text \<open>\<open>try: f(encrypt_secret(key)) except Exception: pass\<close>.\<close>

definition with_secret :: "string res \<Rightarrow> (string \<Rightarrow> 'd op) \<Rightarrow> 'd op" where
  "with_secret x f = quietly (case x of Inl e \<Rightarrow> (\<lambda>c. (c, Inl e)) | Inr k \<Rightarrow> f k)"

text \<open>Keys given to the installer are stored encrypted, unless there is one already.\<close>

definition seed_abusech :: "'d init_env \<Rightarrow> 'd op" where
  "seed_abusech e c =
     (let q = me_sql (ie_mig e); key = strip (ie_abusech_key e); dry = (if strip (ie_dry_run e) = ''0'' then 0 else 1) in
      if key = [] then (c, Inr ())
      else case select q [(''ids_threat_feeds'', [''abusech_auth_key'', ''id''])] ''SELECT abusech_auth_key FROM ids_threat_feeds WHERE id=1'' c of
             Inl x \<Rightarrow> (c, Inl x)
           | Inr rs \<Rightarrow>
               (if (case rs of (v # vs) # rest \<Rightarrow> py_bool_of v | _ \<Rightarrow> False) then (c, Inr ())
                else with_secret (ie_encrypt e key) (\<lambda>k. execute q (Write [(''ids_threat_feeds'', [''abusech_auth_key'', ''abusech_dry_run'', ''updated_at'', ''id''])]
                         ''UPDATE ids_threat_feeds SET abusech_auth_key=?, abusech_dry_run=?, updated_at=CURRENT_TIMESTAMP WHERE id=1''
                         [PStr k, PInt dry])) c))"

definition seed_groq :: "'d init_env \<Rightarrow> 'd op" where
  "seed_groq e c =
     (let q = me_sql (ie_mig e); key = strip (ie_groq_key e) in
      if key = [] then (c, Inr ())
      else case select q [(''service_state'', [''value_json'', ''key_name''])]
             (''SELECT value_json FROM service_state WHERE key_name='' @ apos @ ''chatbot_settings'' @ apos) c of
             Inl x \<Rightarrow> (c, Inl x)
           | Inr rs \<Rightarrow>
               (if rs \<noteq> [] then (c, Inr ())
                else with_secret (ie_encrypt e key) (\<lambda>k. execute q (Write [(''service_state'', [''key_name'', ''value_json''])]
                         ''INSERT OR IGNORE INTO service_state (key_name, value_json) VALUES (?, ?)''
                         [PStr ''chatbot_settings'', PStr (json_dumps (PDict [(''groq_api_key'', PStr k)]))])) c))"

text \<open>Versions 2 to 16 are entered when the version is below them.\<close>

definition bootstrap_versions :: "'d sqlite \<Rightarrow> 'd op" where
  "bootstrap_versions q c =
     (let v = get_db_version (cn_db c) in
      seq_ops (map (\<lambda>n. execute q (InsertVersion False n)) (filter (\<lambda>n. v < n) [2, 3, 4, 5, 6, 7, 8, 9, 10, 11, 12, 13, 14, 15, 16])) c)"

section \<open>The parts of \<open>init_db\<close>\<close>

definition init_users :: "'d sqlite \<Rightarrow> 'd op" where
  "init_users q = seq_ops
    [execute q tab_users,
     execute q tab_groups,
     execute q tab_user_groups,
     unless_column ''users'' ''is_superuser'' (execute q (AddColumn ''users'' (Column ''is_superuser'' Integer_type [Default ''0'']))),
     where_lacking ''lan_config'' ''assigned_port'' (execute q (AddColumn ''lan_config'' (Column ''assigned_port'' Text_type [DefaultText []]))),
     where_lacking ''wan_config'' ''assigned_port'' (execute q (AddColumn ''wan_config'' (Column ''assigned_port'' Text_type [DefaultText []]))),
     where_lacking ''firewall_rules_floating'' ''action'' (execute q (AddColumn ''firewall_rules_floating'' (Column ''action'' Text_type [DefaultText ''pass'']))),
     where_lacking ''firewall_rules_wan'' ''source_port'' (execute q (AddColumn ''firewall_rules_wan'' (Column ''source_port'' Text_type []))),
     where_lacking ''firewall_rules_wan'' ''dest_port'' (execute q (AddColumn ''firewall_rules_wan'' (Column ''dest_port'' Text_type []))),
     where_lacking ''firewall_rules_lan'' ''action'' (execute q (AddColumn ''firewall_rules_lan'' (Column ''action'' Text_type [DefaultText ''pass'']))),
     sync_ports q,
     execute q tab_group_page_permissions,
     execute q (CreateIndex True ''idx_group_page_permissions_group_endpoint'' ''group_page_permissions'' [''group_id'', ''endpoint''] [])]"

definition init_lan_config :: "'d sqlite \<Rightarrow> 'd op" where
  "init_lan_config q = seq_ops
    [execute q tab_lan_config,
     execute q tab_wan_config,
     execute q tab_port_assignments,
     execute q tab_interface_assignments,
     execute q (CreateIndex True ''idx_interface_assignments_type'' ''interface_assignments'' [''interface_type''] []),
     execute q tab_interface_groups,
     execute q tab_wireless_configs,
     execute q tab_vlan_configs,
     execute q tab_qinq_configs]"

definition init_ppp_configs :: "'d sqlite \<Rightarrow> 'd op" where
  "init_ppp_configs q = seq_ops
    [execute q tab_ppp_configs,
     execute q tab_gre_configs,
     execute q tab_gif_configs,
     execute q tab_bridge_configs,
     execute q tab_lagg_configs,
     execute q tab_advanced_admin_access,
     execute q tab_login_failures,
     execute q (CreateIndex False ''idx_login_failures_ip_time'' ''login_failures'' [''remote_addr'', ''failed_at''] [])]"

definition init_ha_settings :: "'d sqlite \<Rightarrow> 'd op" where
  "init_ha_settings q = seq_ops
    [where_lacking ''login_failures'' ''username'' (execute q (AddColumn ''login_failures'' (Column ''username'' Text_type []))),
     where_lacking ''groups'' ''soc_tier'' (execute q (AddColumn ''groups'' (Column ''soc_tier'' Text_type [Default ''NULL'']))),
     where_lacking ''advanced_admin_access'' ''terminal_enabled'' (execute q (AddColumn ''advanced_admin_access'' (Column ''terminal_enabled'' Integer_type [Default ''0'']))),
     where_lacking ''soc_portal_config'' ''ssl_cert_id'' (execute q (AddColumn ''soc_portal_config'' (Column ''ssl_cert_id'' Integer_type [Default ''NULL'']))),
     execute q tab_ha_settings,
     execute q tab_advanced_firewall_nat,
     quietly (execute q (AddColumn ''advanced_firewall_nat'' (Column ''nat_reflection'' Integer_type [Default ''0'']))),
     quietly (execute q (AddColumn ''advanced_firewall_nat'' (Column ''kill_states_on_reload'' Integer_type [Default ''0''])))]"

definition init_ipsec_mobile_clients_settings :: "'d sqlite \<Rightarrow> 'd op" where
  "init_ipsec_mobile_clients_settings q = seq_ops
    [execute q tab_ipsec_mobile_clients_settings,
     execute q (Write [(''ipsec_mobile_clients_settings'', [''id''])] ''INSERT OR IGNORE INTO ipsec_mobile_clients_settings (id) VALUES (1)'' []),
     execute q tab_ipsec_pre_shared_keys,
     execute q (CreateIndex True ''idx_ipsec_psk_identifier_type'' ''ipsec_pre_shared_keys'' [''identifier'', ''secret_type''] []),
     execute q tab_ipsec_advanced_settings,
     execute q (Write [(''ipsec_advanced_settings'', [''id''])] ''INSERT OR IGNORE INTO ipsec_advanced_settings (id) VALUES (1)'' [])]"

definition init_l2tp_settings :: "'d sqlite \<Rightarrow> 'd op" where
  "init_l2tp_settings q = seq_ops
    [execute q tab_l2tp_settings,
     execute q (Write [(''l2tp_settings'', [''id''])] ''INSERT OR IGNORE INTO l2tp_settings (id) VALUES (1)'' []),
     execute q tab_firewall_schedules,
     execute q tab_firewall_schedule_ranges,
     execute q (CreateIndex False ''idx_firewall_schedule_ranges_schedule_id'' ''firewall_schedule_ranges'' [''schedule_id''] []),
     execute q tab_virtual_ips_configs,
     execute q tab_dhcp_relay_settings,
     execute q tab_dhcp_relay_upstream_servers,
     execute q (CreateIndex True ''idx_dhcp_relay_upstream_server_address'' ''dhcp_relay_upstream_servers'' [''server_address''] [])]"

definition init_ipsec_phase1 :: "'d sqlite \<Rightarrow> 'd op" where
  "init_ipsec_phase1 q = seq_ops
    [execute q tab_ipsec_phase1,
     execute q tab_ipsec_phase1_algorithms,
     execute q (CreateIndex False ''idx_ipsec_phase1_algorithms_phase1_id'' ''ipsec_phase1_algorithms'' [''phase1_id''] []),
     execute q tab_dhcp_server_settings,
     execute q tab_service_state,
     execute q tab_advanced_network]"

definition init_advanced_miscellaneous :: "'d init_env \<Rightarrow> 'd op" where
  "init_advanced_miscellaneous e = (let q = me_sql (ie_mig e) in seq_ops
    [execute q tab_advanced_miscellaneous,
     execute q tab_advanced_system_tunables,
     if_none q [(''users'', [])] ''SELECT COUNT(*) AS c FROM users'' (bootstrap_admin e),
     if_none q [(''users'', [''is_superuser''])] ''SELECT COUNT(*) AS c FROM users WHERE COALESCE(is_superuser, 0) = 1'' (ensure_superuser q),
     if_none q [(''advanced_admin_access'', [])] ''SELECT COUNT(*) AS c FROM advanced_admin_access'' (execute q (Write [(''advanced_admin_access'', [])] ''INSERT INTO advanced_admin_access DEFAULT VALUES'' [])),
     if_none q [(''advanced_firewall_nat'', [])] ''SELECT COUNT(*) AS c FROM advanced_firewall_nat'' (execute q (Write [(''advanced_firewall_nat'', [])] ''INSERT INTO advanced_firewall_nat DEFAULT VALUES'' [])),
     if_none q [(''advanced_network'', [])] ''SELECT COUNT(*) AS c FROM advanced_network'' (execute q (Write [(''advanced_network'', [])] ''INSERT INTO advanced_network DEFAULT VALUES'' [])),
     if_none q [(''advanced_miscellaneous'', [])] ''SELECT COUNT(*) AS c FROM advanced_miscellaneous'' (execute q (Write [(''advanced_miscellaneous'', [])] ''INSERT INTO advanced_miscellaneous DEFAULT VALUES'' [])),
     if_none q [(''advanced_system_tunables'', [])] ''SELECT COUNT(*) AS c FROM advanced_system_tunables'' (execute q (Write [(''advanced_system_tunables'', [''name'', ''description'', ''value''])] (''INSERT INTO advanced_system_tunables (name, description, value) VALUES ('' @ apos @ ''net.inet.ip.portrange.first'' @ apos @ '', '' @ apos @ ''First port in the ephemeral port range'' @ apos @ '', '' @ apos @ ''1024'' @ apos @ '')'') [])),
     if_none q [(''lan_config'', [])] ''SELECT COUNT(*) AS c FROM lan_config'' (execute q (Write [(''lan_config'', [])] ''INSERT INTO lan_config DEFAULT VALUES'' [])),
     if_none q [(''wan_config'', [])] ''SELECT COUNT(*) AS c FROM wan_config'' (execute q (Write [(''wan_config'', [])] ''INSERT INTO wan_config DEFAULT VALUES'' [])),
     commit_op])"

definition init_nat_pf :: "'d sqlite \<Rightarrow> 'd op" where
  "init_nat_pf q = seq_ops
    [execute q tab_nat_pf,
     quietly (execute q (AddColumn ''nat_pf'' (Column ''dst_port'' Text_type []))),
     quietly (execute q (AddColumn ''nat_pf'' (Column ''redirect_port'' Text_type []))),
     execute q tab_nat_1to1,
     execute q tab_nat_outbound,
     execute q tab_nat_npt,
     execute q tab_firewall_rules_floating,
     execute q tab_firewall_rules_wan]"

definition init_firewall_rules_lan :: "'d sqlite \<Rightarrow> 'd op" where
  "init_firewall_rules_lan q = seq_ops
    [execute q tab_firewall_rules_lan,
     quietly (execute q (AddColumn ''firewall_rules_lan'' (Column ''source_port'' Text_type []))),
     quietly (execute q (AddColumn ''firewall_rules_lan'' (Column ''dest_port'' Text_type []))),
     execute q tab_firewall_aliases,
     execute q tab_traffic_shaper_configs,
     execute q tab_traffic_shaper_queues,
     execute q tab_limiters_configs]"

definition init_openvpn_servers :: "'d sqlite \<Rightarrow> 'd op" where
  "init_openvpn_servers q = seq_ops
    [execute q tab_openvpn_servers,
     execute q tab_openvpn_clients,
     execute q tab_ipsec_phase2]"

definition init_l2tp_config :: "'d sqlite \<Rightarrow> 'd op" where
  "init_l2tp_config q = seq_ops
    [execute q tab_l2tp_config,
     execute q tab_l2tp_users,
     execute q tab_openvpn_cso,
     execute q tab_certificate_authorities,
     execute q tab_openvpn_wizard_configs,
     execute q tab_dhcp_pools,
     execute q (Write [(''dhcp_pools'', [''interface_type'', ''start_ip'', ''end_ip''])] (''INSERT OR IGNORE INTO dhcp_pools (interface_type, start_ip, end_ip) VALUES ('' @ apos @ ''LAN'' @ apos @ '', '' @ apos @ apos @ '', '' @ apos @ apos @ '')'') [])]"

definition init_static_leases :: "'d sqlite \<Rightarrow> 'd op" where
  "init_static_leases q = seq_ops
    [execute q tab_static_leases,
     execute q (CreateIndex True ''idx_static_leases_mac'' ''static_leases'' [''mac_address''] []),
     execute q tab_tracked_hosts,
     execute q (CreateIndex True ''idx_tracked_hosts_iface_ip'' ''tracked_hosts'' [''interface_type'', ''ip_address''] []),
     execute q (CreateIndex False ''idx_tracked_hosts_last_seen'' ''tracked_hosts'' [''last_seen''] []),
     where_lacking ''tracked_hosts'' ''is_whitelisted'' (execute q (AddColumn ''tracked_hosts'' (Column ''is_whitelisted'' Integer_type [Default ''0'']))),
     where_lacking ''tracked_hosts'' ''is_policy_exempt'' (execute q (AddColumn ''tracked_hosts'' (Column ''is_policy_exempt'' Integer_type [Default ''0'']))),
     where_lacking ''tracked_hosts'' ''exempt_source'' (execute q (AddColumn ''tracked_hosts'' (Column ''exempt_source'' Text_type [DefaultText []]))),
     where_lacking ''l2tp_config'' ''pre_shared_key'' (execute q (AddColumn ''l2tp_config'' (Column ''pre_shared_key'' Text_type [DefaultText []]))),
     execute q tab_ids_config,
     execute q (Write [(''ids_config'', [''id''])] ''INSERT OR IGNORE INTO ids_config (id) VALUES (1)'' []),
     execute q tab_ids_rulesets,
     execute q (Write [(''ids_rulesets'', [''name'', ''enabled'', ''url'', ''description''])] ''INSERT OR IGNORE INTO ids_rulesets (name, enabled, url, description) VALUES (?, 1, ?, ?)'' [PStr ''et/open'', PStr [], PStr ''Emerging Threats Open Rules (free, no registration required)'']),
     execute q (Write [(''ids_rulesets'', [''name'', ''enabled'', ''url'', ''description''])] ''INSERT OR IGNORE INTO ids_rulesets (name, enabled, url, description) VALUES (?, 1, ?, ?)'' [PStr ''oisf/trafficid'', PStr [], PStr ''OISF Traffic ID rules (free, protocol identification)''])]"

definition init_ids_threat_feeds :: "'d sqlite \<Rightarrow> 'd op" where
  "init_ids_threat_feeds q = seq_ops
    [execute q tab_ids_threat_feeds,
     execute q (Write [(''ids_threat_feeds'', [''id'', ''abusech_dry_run''])] ''INSERT OR IGNORE INTO ids_threat_feeds (id, abusech_dry_run) VALUES (1, 1)'' []),
     execute q tab_siem_state,
     execute q tab_events,
     execute q (CreateIndex False ''idx_events_ts'' ''events'' [''ts''] []),
     execute q (CreateIndex False ''idx_events_category'' ''events'' [''category''] []),
     execute q (CreateIndex False ''idx_events_severity'' ''events'' [''severity''] []),
     execute q (CreateIndex False ''idx_events_action'' ''events'' [''action''] []),
     if_column ''events'' ''event_uuid'' (execute q (CreateIndex True ''idx_events_event_uuid'' ''events'' [''event_uuid''] [])),
     execute q tab_correlation_rules,
     execute q tab_siem_cases,
     execute q (CreateIndex False ''idx_siem_cases_status'' ''siem_cases'' [''status''] [])]"

definition init_siem_case_notes :: "'d sqlite \<Rightarrow> 'd op" where
  "init_siem_case_notes q = seq_ops
    [execute q (CreateIndex False ''idx_siem_cases_assigned'' ''siem_cases'' [''assigned_to''] []),
     execute q tab_siem_case_notes,
     execute q tab_siem_case_events,
     execute q tab_siem_alert_actions,
     execute q (CreateIndex False ''idx_saa_event_key'' ''siem_alert_actions'' [''event_key''] []),
     if_column ''siem_alert_actions'' ''event_uuid'' (execute q (CreateIndex False ''idx_saa_event_uuid'' ''siem_alert_actions'' [''event_uuid''] [])),
     execute q tab_soc_blocked_ips,
     execute q tab_siem_alert_assignments,
     if_column ''siem_alert_assignments'' ''event_uuid'' (execute q (CreateIndex False ''idx_saasign_event_uuid'' ''siem_alert_assignments'' [''event_uuid''] [])),
     execute q tab_soc_active_sessions,
     execute q tab_soc_portal_config,
     execute q (Write [(''soc_portal_config'', [''id''])] ''INSERT OR IGNORE INTO soc_portal_config (id) VALUES (1)'' [])]"

definition init_soc_recommendations :: "'d init_env \<Rightarrow> 'd op" where
  "init_soc_recommendations e = (let q = me_sql (ie_mig e) in seq_ops
    [execute q tab_soc_recommendations,
     execute q (CreateIndex False ''idx_soc_recommendations_status'' ''soc_recommendations'' [''status''] []),
     seed_abusech e,
     seed_groq e,
     execute q tab_gateways,
     execute q tab_static_routes,
     execute q tab_gateway_groups,
     execute q tab_filter_dns_rules])"

definition init_filter_web_rules :: "'d sqlite \<Rightarrow> 'd op" where
  "init_filter_web_rules q = seq_ops
    [execute q (CreateIndex True ''idx_filter_dns_domain'' ''filter_dns_rules'' [''domain''] []),
     execute q tab_filter_web_rules,
     execute q (CreateIndex True ''idx_filter_web_pattern'' ''filter_web_rules'' [''url_pattern''] []),
     execute q tab_filter_app_rules,
     execute q tab_certificates,
     execute q (CreateIndex True ''idx_certificates_name_type'' ''certificates'' [''name'', ''cert_type''] []),
     execute q tab_config_apply_jobs,
     execute q (CreateIndex False ''idx_cap_jobs_feature_created'' ''config_apply_jobs'' [''feature_key'', ''created_at''] []),
     execute q tab_feature_applied_state,
     execute q tab_schema_version,
     execute q tab_policy_routes]"

definition init_dhcpv6_pools :: "'d sqlite \<Rightarrow> 'd op" where
  "init_dhcpv6_pools q = seq_ops
    [execute q tab_dhcpv6_pools,
     if_none q [(''dhcpv6_pools'', [])] ''SELECT COUNT(*) AS c FROM dhcpv6_pools'' (execute q (Write [(''dhcpv6_pools'', [''interface_type''])] (''INSERT INTO dhcpv6_pools (interface_type) VALUES ('' @ apos @ ''LAN'' @ apos @ '')'') [])),
     execute q tab_ra_settings,
     execute q (CreateIndex True ''idx_ra_settings_iface'' ''ra_settings'' [''interface_name''] []),
     execute q tab_wol_hosts,
     execute q (CreateIndex True ''idx_wol_hosts_mac'' ''wol_hosts'' [''mac_address''] []),
     execute q tab_captive_sessions,
     quietly (execute q (AddColumn ''captive_sessions'' (Column ''is_superuser'' Integer_type [Default ''0'']))),
     execute q (CreateIndex False ''idx_captive_sessions_expires'' ''captive_sessions'' [''expires_at'', ''logged_out''] []),
     execute q tab_captive_vouchers,
     execute q tab_captive_auth_attempts]"

definition init_pending_interface_changes :: "'d sqlite \<Rightarrow> 'd op" where
  "init_pending_interface_changes q = seq_ops
    [execute q (CreateIndex False ''idx_captive_auth_attempts_ip_time'' ''captive_auth_attempts'' [''ip_address'', ''created_at''] []),
     execute q tab_pending_interface_changes,
     execute q (CreateIndex False ''idx_pending_iface_type'' ''pending_interface_changes'' [''interface_type'', ''applied_at''] []),
     execute q tab_config_versions,
     execute q (CreateIndex False ''idx_config_versions_service_version'' ''config_versions'' [''service'', ''version_num''] []),
     execute q tab_health_snapshots,
     execute q (CreateIndex False ''idx_health_snapshots_at'' ''health_snapshots'' [''snapshot_at''] [])]"

definition init_tables :: "'d init_env \<Rightarrow> 'd op" where
  "init_tables e = (let q = me_sql (ie_mig e) in seq_ops
    [init_users q,
     init_lan_config q,
     init_ppp_configs q,
     init_ha_settings q,
     init_ipsec_mobile_clients_settings q,
     init_l2tp_settings q,
     init_ipsec_phase1 q,
     init_advanced_miscellaneous e,
     init_nat_pf q,
     init_firewall_rules_lan q,
     init_openvpn_servers q,
     init_l2tp_config q,
     init_static_leases q,
     init_ids_threat_feeds q,
     init_siem_case_notes q,
     init_soc_recommendations e,
     init_filter_web_rules q,
     bootstrap_versions q,
     init_dhcpv6_pools q,
     init_pending_interface_changes q,
     commit_op])"

text \<open>\<open>init_db\<close>: its second commit is followed by the migrations.\<close>

definition init_db :: "'d init_env \<Rightarrow> 'd conn \<Rightarrow> 'd conn \<times> (string \<times> 'd db) list \<times> nat list res" where
  "init_db e c =
     (case init_tables e c of
        (c1, Inl x) \<Rightarrow> (c1, [], Inl x)
      | (c1, Inr u) \<Rightarrow> run_migrations (ie_mig e) c1)"

section \<open>What a start cannot change\<close>

text \<open>A column a table does not have stays away, when no statement adds it; a table that is created may bring it.\<close>

definition lacks :: "string \<Rightarrow> string \<Rightarrow> 'd db \<Rightarrow> bool" where
  "lacks t k d \<longleftrightarrow> k \<notin> set (columns_of t d)"

definition lacks_still :: "string \<Rightarrow> string \<Rightarrow> 'd db \<Rightarrow> 'd db \<Rightarrow> bool" where
  "lacks_still t k d d' \<longleftrightarrow> (lacks t k d \<longrightarrow> lacks t k d')"

definition adds_not :: "string \<Rightarrow> string \<Rightarrow> stmt \<Rightarrow> bool" where
  "adds_not t k s =
     (case s of
        CreateTable n cs ks \<Rightarrow> n \<noteq> t \<or> k \<notin> set (map cl_name cs)
      | CreateVirtual n cs \<Rightarrow> n \<noteq> t \<or> k \<notin> set cs
      | AddColumn n c \<Rightarrow> n \<noteq> t \<or> cl_name c \<noteq> k
      | RenameColumn n c c' \<Rightarrow> n \<noteq> t \<or> c' \<noteq> k
      | _ \<Rightarrow> True)"

lemma apply_stmt_lacks: "apply_stmt q s d = Inr d' \<Longrightarrow> adds_not t k s \<Longrightarrow> lacks_still t k d d'"
  by (cases "(q, s, d)" rule: apply_stmt.cases)
     (auto simp: adds_not_def lacks_still_def lacks_def new_table_simps columns_set_columns split: if_splits option.splits)

interpretation lack: write_order "lacks_still t k" "adds_not t k" for t k
  by unfold_locales (auto simp: apply_stmt_lacks, auto simp: lacks_still_def lacks_def adds_not_def)

context write_order begin

lemma sync_ports [conforms_intros]: "conforms R (sync_ports q)"
proof -
  have one: "conforms R (sync_port q r)" for r
    using seq_Nil by (auto simp: sync_port_def intro!: execute row_stmt split: list.split)
  have "conforms R (seq_ops (map (sync_port q) rs))" for rs
    by (induction rs) (simp_all only: list.map seq_Nil seq_Cons one)
  then show ?thesis by (auto simp: conforms_def sync_ports_def reaches_refl split: sum.split)
qed

lemma bootstrap_admin [conforms_intros]: "conforms R (bootstrap_admin e)"
  using seq_Nil by (auto simp: bootstrap_admin_def intro!: execute row_stmt split: option.split)

lemma ensure_superuser [conforms_intros]: "conforms R (ensure_superuser q)"
proof -
  have "conforms R (seq_ops (execute q (Write us sql ps) # (if b then [execute q (Write us' sql' ps')] else [])))" for us sql ps us' sql' ps' b
    by (auto intro!: seq_Cons seq_Nil execute row_stmt simp del: seq_ops.simps)
  then show ?thesis by (simp add: conforms_def ensure_superuser_def Let_def del: seq_ops.simps)
qed

lemma seeds [conforms_intros]: "conforms R (seed_abusech e)" "conforms R (seed_groq e)"
proof -
  have w: "conforms R (with_secret x f)" if f: "\<And>k. conforms R (f k)" for x f
    unfolding with_secret_def by (rule guards(1)) (use f in \<open>auto simp: conforms_def reaches_refl split: sum.split\<close>)
  have f: "conforms R (with_secret x (\<lambda>k. execute q (Write us sql (ps k))))" for x q us sql ps
    by (intro w execute row_stmt)
  show "conforms R (seed_abusech e)"
    using conformsD[OF f] by (auto simp: conforms_def seed_abusech_def Let_def reaches_refl split: sum.split)
  show "conforms R (seed_groq e)"
    using conformsD[OF f] by (auto simp: conforms_def seed_groq_def Let_def reaches_refl split: sum.split)
qed

lemma bootstrap_versions: "(\<And>n. ok (InsertVersion False n)) \<Longrightarrow> conforms R (bootstrap_versions q)"
proof -
  assume i: "\<And>n. ok (InsertVersion False n)"
  have "conforms R (seq_ops (map (\<lambda>n. execute q (InsertVersion False n)) ns))" for ns
    by (induction ns) (simp_all only: list.map seq_Nil seq_Cons execute i)
  then show ?thesis by (simp add: conforms_def bootstrap_versions_def Let_def del: seq_ops.simps)
qed

end

section \<open>A start, from the first statement to the last migration\<close>

context schema_order begin

text \<open>A list of operations that succeeds ran each of them, between databases it passed through.\<close>

lemma seq_ops_member:
  assumes "list_all (conforms R) fs" "R (durable c) (cn_db c)" "seq_ops fs c = (c', Inr u)" "f \<in> set fs"
  shows "\<exists>c1 c2 u2. f c1 = (c2, Inr u2) \<and> reaches R c c1 \<and> reaches R c2 c'"
  using assms
proof (induction fs arbitrary: c)
  case (Cons g gs)
  obtain c1 u1 where g: "g c = (c1, Inr u1)" and gs: "seq_ops gs c1 = (c', Inr u)"
    using Cons.prems(3) by (auto split: prod.splits sum.splits)
  have r: "reaches R c c1" using conformsD[of g c] Cons.prems(1,2) by (simp add: g)
  have all: "conforms R (seq_ops gs)" using Cons.prems(1) by (induction gs) (auto intro: seq_Nil seq_Cons simp del: seq_ops.simps)
  show ?case
  proof (cases "f = g")
    case True
    have "reaches R c1 c'" using conformsD[OF all reachesD[OF r]] by (simp add: gs)
    then show ?thesis using g True reaches_refl[OF Cons.prems(2)] by blast
  next
    case False
    then obtain c2 c3 u2 where "f c2 = (c3, Inr u2)" "reaches R c1 c2" "reaches R c3 c'"
      using Cons.IH[OF _ reachesD[OF r] gs] Cons.prems by auto
    then show ?thesis using reaches_trans[OF r] by blast
  qed
qed simp

end

lemma seq_ops_last: "seq_ops fs c = (c', Inr u) \<Longrightarrow> fs \<noteq> [] \<Longrightarrow> \<exists>c1 u1. last fs c1 = (c', Inr u1)"
proof (induction fs arbitrary: c)
  case (Cons f fs)
  then obtain c1 u1 where "f c = (c1, Inr u1)" "seq_ops fs c1 = (c', Inr u)" by (auto split: prod.splits sum.splits)
  then show ?case using Cons.IH[of c1] by (cases "fs = []") auto
qed simp

text \<open>Every part grows the schema.\<close>

lemma init_parts_grow:
  "list_all (conforms grown)
     (let q = me_sql (ie_mig e) in [init_users q, init_lan_config q, init_ppp_configs q, init_ha_settings q, init_ipsec_mobile_clients_settings q, init_l2tp_settings q, init_ipsec_phase1 q, init_advanced_miscellaneous e, init_nat_pf q, init_firewall_rules_lan q, init_openvpn_servers q, init_l2tp_config q, init_static_leases q, init_ids_threat_feeds q, init_siem_case_notes q, init_soc_recommendations e, init_filter_web_rules q, bootstrap_versions q, init_dhcpv6_pools q, init_pending_interface_changes q, commit_op])"
  unfolding Let_def list.pred_inject init_users_def init_lan_config_def init_ppp_configs_def init_ha_settings_def init_ipsec_mobile_clients_settings_def init_l2tp_settings_def init_ipsec_phase1_def init_advanced_miscellaneous_def init_nat_pf_def init_firewall_rules_lan_def init_openvpn_servers_def init_l2tp_config_def init_static_leases_def init_ids_threat_feeds_def init_siem_case_notes_def init_soc_recommendations_def init_filter_web_rules_def init_dhcpv6_pools_def init_pending_interface_changes_def Let_def
  by (intro conjI TrueI conforms_intros growth.bootstrap_versions) (simp_all add: keeps_names_def tab_users_def tab_groups_def tab_user_groups_def tab_group_page_permissions_def tab_lan_config_def tab_wan_config_def tab_port_assignments_def tab_interface_assignments_def tab_interface_groups_def tab_wireless_configs_def tab_vlan_configs_def tab_qinq_configs_def tab_ppp_configs_def tab_gre_configs_def tab_gif_configs_def tab_bridge_configs_def tab_lagg_configs_def tab_advanced_admin_access_def tab_login_failures_def tab_ha_settings_def tab_advanced_firewall_nat_def tab_ipsec_mobile_clients_settings_def tab_ipsec_pre_shared_keys_def tab_ipsec_advanced_settings_def tab_l2tp_settings_def tab_firewall_schedules_def tab_firewall_schedule_ranges_def tab_virtual_ips_configs_def tab_dhcp_relay_settings_def tab_dhcp_relay_upstream_servers_def tab_ipsec_phase1_def tab_ipsec_phase1_algorithms_def tab_dhcp_server_settings_def tab_service_state_def tab_advanced_network_def tab_advanced_miscellaneous_def tab_advanced_system_tunables_def tab_nat_pf_def tab_nat_1to1_def tab_nat_outbound_def tab_nat_npt_def tab_firewall_rules_floating_def tab_firewall_rules_wan_def tab_firewall_rules_lan_def tab_firewall_aliases_def tab_traffic_shaper_configs_def tab_traffic_shaper_queues_def tab_limiters_configs_def tab_openvpn_servers_def tab_openvpn_clients_def tab_ipsec_phase2_def tab_l2tp_config_def tab_l2tp_users_def tab_openvpn_cso_def tab_certificate_authorities_def tab_openvpn_wizard_configs_def tab_dhcp_pools_def tab_static_leases_def tab_tracked_hosts_def tab_ids_config_def tab_ids_rulesets_def tab_ids_threat_feeds_def tab_siem_state_def tab_events_def tab_correlation_rules_def tab_siem_cases_def tab_siem_case_notes_def tab_siem_case_events_def tab_siem_alert_actions_def tab_soc_blocked_ips_def tab_siem_alert_assignments_def tab_soc_active_sessions_def tab_soc_portal_config_def tab_soc_recommendations_def tab_gateways_def tab_static_routes_def tab_gateway_groups_def tab_filter_dns_rules_def tab_filter_web_rules_def tab_filter_app_rules_def tab_certificates_def tab_config_apply_jobs_def tab_feature_applied_state_def tab_schema_version_def tab_policy_routes_def tab_dhcpv6_pools_def tab_ra_settings_def tab_wol_hosts_def tab_captive_sessions_def tab_captive_vouchers_def tab_captive_auth_attempts_def tab_pending_interface_changes_def tab_config_versions_def tab_health_snapshots_def)

lemma grown_version: "grown d d' \<Longrightarrow> get_db_version d \<le> get_db_version d'"
  by (auto simp: get_db_version_def grown_def foldr_max intro!: Max_mono)

lemma reaches_version: "reaches grown c c' \<Longrightarrow> get_db_version (cn_db c) \<le> get_db_version (cn_db c')"
  by (simp add: reaches_def grown_version)

lemma bootstrap_16:
  assumes "bootstrap_versions q c = (c', Inr u)" "grown (durable c) (cn_db c)"
  shows "16 \<le> get_db_version (cn_db c')"
proof (cases "16 \<le> get_db_version (cn_db c)")
  case True
  have "reaches grown c c'"
    using growth.conformsD[OF growth.bootstrap_versions assms(2), of q] by (simp add: assms(1) keeps_names_def)
  then show ?thesis using reaches_version True by fastforce
next
  case False
  define ns where "ns = filter (\<lambda>n. get_db_version (cn_db c) < n) [2, 3, 4, 5, 6, 7, 8, 9, 10, 11, 12, 13, 14, 15, 16 :: nat]"
  have s: "seq_ops (map (\<lambda>n. execute q (InsertVersion False n)) ns) c = (c', Inr u)"
    using assms(1) by (simp add: bootstrap_versions_def ns_def Let_def del: seq_ops.simps)
  have "16 \<in> set ns" using False by (simp add: ns_def)
  then have m: "execute q (InsertVersion False 16) \<in> set (map (\<lambda>n. execute q (InsertVersion False n)) ns)" by simp
  have all: "list_all (conforms grown) (map (\<lambda>n. execute q (InsertVersion False n)) ns)"
    by (auto simp: list_all_iff keeps_names_def intro!: growth.execute)
  obtain c1 c2 u2 where x: "execute q (InsertVersion False 16) c1 = (c2, Inr u2)" "reaches grown c2 c'"
    using growth.seq_ops_member[OF all assms(2) s m] by blast
  have "16 \<le> get_db_version (cn_db c2)"
    using x(1) by (auto simp: execute_def exec_stmt_def Let_def get_db_version_def foldr_max split: option.splits sum.splits if_splits)
  then show ?thesis using reaches_version[OF x(2)] by simp
qed

lemma init_tables_16:
  assumes "init_tables e c = (c', Inr u)" "cn_saved c = None"
  shows "16 \<le> get_db_version (cn_db c') \<and> cn_saved c' = None"
proof -
  let ?ops = "let q = me_sql (ie_mig e) in [init_users q, init_lan_config q, init_ppp_configs q, init_ha_settings q, init_ipsec_mobile_clients_settings q, init_l2tp_settings q, init_ipsec_phase1 q, init_advanced_miscellaneous e, init_nat_pf q, init_firewall_rules_lan q, init_openvpn_servers q, init_l2tp_config q, init_static_leases q, init_ids_threat_feeds q, init_siem_case_notes q, init_soc_recommendations e, init_filter_web_rules q, bootstrap_versions q, init_dhcpv6_pools q, init_pending_interface_changes q, commit_op]"
  have s: "seq_ops ?ops c = (c', Inr u)" using assms(1) by (simp only: init_tables_def Let_def)
  have c: "grown (durable c) (cn_db c)" using assms(2) by (simp add: durable_def)
  have "bootstrap_versions (me_sql (ie_mig e)) \<in> set ?ops" by (simp only: Let_def list.set insert_iff) blast
  from growth.seq_ops_member[OF init_parts_grow c s this] obtain c1 c2 u2
    where p: "bootstrap_versions (me_sql (ie_mig e)) c1 = (c2, Inr u2)" "reaches grown c c1" "reaches grown c2 c'" by blast
  have "\<exists>c1 u1. commit_op c1 = (c', Inr u1)" using seq_ops_last[OF s] by (simp add: Let_def del: seq_ops.simps)
  then have "cn_saved c' = None" by (auto simp: commit_op_def)
  then show ?thesis using bootstrap_16[OF p(1) growth.reachesD[OF p(2)]] reaches_version[OF p(3)] by simp
qed

context schema_order begin

text \<open>With a version of at least 16 only the later migrations run, and those of the start keep the relation when they do.\<close>

lemma run_migrations_after_16:
  assumes "run_migrations m c = (c', copies, r)" "cn_saved c = None" "16 \<le> get_db_version (cn_db c)"
    and "list_all (\<lambda>p. 16 < fst p \<longrightarrow> conforms R (snd p)) (migrations m)"
    and "\<And>v. ok (InsertVersion True v)" "\<And>cs ks. ok (CreateTable ''schema_version'' cs ks)"
  shows "R (cn_db c) (cn_db c')"
proof -
  obtain c1 r1 where cr: "create_schema_version (me_sql m) c = (c1, r1)" by fastforce
  have d: "durable c = cn_db c" using assms(2) by (simp add: durable_def)
  have "conforms R (create_schema_version (me_sql m))"
    unfolding create_schema_version_def by (rule execute[OF assms(6)])
  then have g1: "reaches R c c1" using conformsD[of _ c] cr refl by (metis d fst_conv)
  have "conforms grown (create_schema_version (me_sql m))"
    unfolding create_schema_version_def by (rule growth.execute) (simp add: keeps_names_def)
  then have "reaches grown c c1" using growth.conformsD[of _ c] cr by (metis d fst_conv grown_refl)
  then have v1: "16 \<le> get_db_version (cn_db c1)" using assms(3) reaches_version by fastforce
  have c1: "cn_saved c1 = None"
    using cr assms(2) by (auto simp: create_schema_version_def execute_def begin_write_def is_write_def Let_def split: sum.splits)
  let ?ps = "filter (\<lambda>p. get_db_version (cn_db c1) < fst p) (migrations m)"
  have "reaches R c1 (fst (run_pending (me_sql m) ?ps c1))"
    using assms(4) v1 by (intro run_pending c1 assms(5)) (auto simp: list_all_iff)
  then have "c' = c1 \<or> reaches R c1 c'"
    using assms(1) by (auto simp: run_migrations_def cr Let_def simp del: run_pending.simps split: sum.splits if_splits list.splits prod.splits)
  then show ?thesis using g1 by (auto simp: reaches_def intro: trans)
qed

lemma init_db_keeps:
  assumes "init_db e c = (c', copies, r)" "cn_saved c = None" "conforms R (init_tables e)"
    and "list_all (\<lambda>p. 16 < fst p \<longrightarrow> conforms R (snd p)) (migrations (ie_mig e))"
    and "\<And>v. ok (InsertVersion True v)" "\<And>cs ks. ok (CreateTable ''schema_version'' cs ks)"
  shows "R (cn_db c) (cn_db c')"
proof -
  have d: "durable c = cn_db c" using assms(2) by (simp add: durable_def)
  obtain c1 x where i: "init_tables e c = (c1, x)" by fastforce
  have g: "R (cn_db c) (cn_db c1)" using conformsD[OF assms(3), of c] refl by (simp add: i d reaches_def)
  show ?thesis
  proof (cases x)
    case (Inl y)
    then show ?thesis using assms(1) g by (simp add: init_db_def i)
  next
    case (Inr u)
    then have "run_migrations (ie_mig e) c1 = (c', copies, r)" using assms(1) by (simp add: init_db_def i)
    moreover have "cn_saved c1 = None" "16 \<le> get_db_version (cn_db c1)" using init_tables_16[of e c c1 u] i Inr assms(2) by simp_all
    ultimately have "R (cn_db c1) (cn_db c')" by (rule run_migrations_after_16[OF _ _ _ assms(4-6)])
    then show ?thesis by (rule trans[OF g])
  qed
qed

end

lemma init_tables_grow: "conforms grown (init_tables e)"
proof -
  have "list_all (conforms grown) fs \<Longrightarrow> conforms grown (seq_ops fs)" for fs :: "'a op list"
    by (induction fs) (auto intro: growth.seq_Nil growth.seq_Cons simp del: seq_ops.simps)
  from this[OF init_parts_grow[of e]] show ?thesis
    unfolding init_tables_def[abs_def] Let_def by (simp add: conforms_def del: seq_ops.simps)
qed

text \<open>
  C15: No start loses a table, an index, a version or a column, whether it succeeds or stops on the way; only the two
  columns of the certificates that migration 11 renames may go.
\<close>

theorem start_only_grows:
  assumes "init_db e c = (c', copies, r)" "cn_saved c = None"
  shows "(has_table t (cn_db c) \<longrightarrow> has_table t (cn_db c'))
    \<and> set (columns_of t (cn_db c)) \<subseteq> set (columns_of t (cn_db c')) \<union> renamed t
    \<and> set (sd_indexes (cn_db c)) \<subseteq> set (sd_indexes (cn_db c')) \<and> set (sd_versions (cn_db c)) \<subseteq> set (sd_versions (cn_db c'))"
proof -
  have "list_all (\<lambda>p. 16 < fst p \<longrightarrow> conforms grown (snd p)) (migrations (ie_mig e))"
    using growth.migrations_conform[of "ie_mig e"] by (simp add: list_all_iff)
  then have "grown (cn_db c) (cn_db c')" by (rule growth.init_db_keeps[OF assms init_tables_grow]) (simp_all add: keeps_names_def)
  then show ?thesis by (simp add: grown_def)
qed

section \<open>Columns no start adds\<close>

lemma late_migrations_lack:
  assumes "k \<in> {''reachable'', ''last_seen''}"
  shows "list_all (\<lambda>p. 16 < fst p \<longrightarrow> conforms (lacks_still ''gateways'' k) (snd p)) (migrations m)"
  unfolding migrations_def Let_def list.pred_inject fst_conv snd_conv migration_v17_def migration_v18_def migration_v19_def migration_v20_def migration_v21_def migration_v22_def migration_v23_def migration_v24_def migration_v25_def migration_v26_def migration_v27_def migration_v28_def migration_v29_def migration_v30_def migration_v31_def migration_v32_def migration_v33_def migration_v34_def migration_v35_def migration_v36_def migration_v37_def migration_v38_def migration_v39_def migration_v40_def migration_v41_def migration_v42_def migration_v43_def migration_v44_def migration_v45_def migration_v46_def migration_v47_def migration_v48_def migration_v49_def migration_v50_def Let_def
  by (intro conjI TrueI impI conforms_intros; (simp add: adds_not_def)?)

lemma init_tables_lack:
  assumes "k \<in> {''reachable'', ''last_seen''}"
  shows "conforms (lacks_still ''gateways'' k) (init_tables e)"
proof -
  have "list_all (conforms (lacks_still ''gateways'' k)) (let q = me_sql (ie_mig e) in [init_users q, init_lan_config q, init_ppp_configs q, init_ha_settings q, init_ipsec_mobile_clients_settings q, init_l2tp_settings q, init_ipsec_phase1 q, init_advanced_miscellaneous e, init_nat_pf q, init_firewall_rules_lan q, init_openvpn_servers q, init_l2tp_config q, init_static_leases q, init_ids_threat_feeds q, init_siem_case_notes q, init_soc_recommendations e, init_filter_web_rules q, bootstrap_versions q, init_dhcpv6_pools q, init_pending_interface_changes q, commit_op])"
    unfolding Let_def list.pred_inject init_users_def init_lan_config_def init_ppp_configs_def init_ha_settings_def init_ipsec_mobile_clients_settings_def init_l2tp_settings_def init_ipsec_phase1_def init_advanced_miscellaneous_def init_nat_pf_def init_firewall_rules_lan_def init_openvpn_servers_def init_l2tp_config_def init_static_leases_def init_ids_threat_feeds_def init_siem_case_notes_def init_soc_recommendations_def init_filter_web_rules_def init_dhcpv6_pools_def init_pending_interface_changes_def Let_def
    by (intro conjI TrueI conforms_intros lack.bootstrap_versions; (use assms in \<open>auto simp: adds_not_def tab_users_def tab_groups_def tab_user_groups_def tab_group_page_permissions_def tab_lan_config_def tab_wan_config_def tab_port_assignments_def tab_interface_assignments_def tab_interface_groups_def tab_wireless_configs_def tab_vlan_configs_def tab_qinq_configs_def tab_ppp_configs_def tab_gre_configs_def tab_gif_configs_def tab_bridge_configs_def tab_lagg_configs_def tab_advanced_admin_access_def tab_login_failures_def tab_ha_settings_def tab_advanced_firewall_nat_def tab_ipsec_mobile_clients_settings_def tab_ipsec_pre_shared_keys_def tab_ipsec_advanced_settings_def tab_l2tp_settings_def tab_firewall_schedules_def tab_firewall_schedule_ranges_def tab_virtual_ips_configs_def tab_dhcp_relay_settings_def tab_dhcp_relay_upstream_servers_def tab_ipsec_phase1_def tab_ipsec_phase1_algorithms_def tab_dhcp_server_settings_def tab_service_state_def tab_advanced_network_def tab_advanced_miscellaneous_def tab_advanced_system_tunables_def tab_nat_pf_def tab_nat_1to1_def tab_nat_outbound_def tab_nat_npt_def tab_firewall_rules_floating_def tab_firewall_rules_wan_def tab_firewall_rules_lan_def tab_firewall_aliases_def tab_traffic_shaper_configs_def tab_traffic_shaper_queues_def tab_limiters_configs_def tab_openvpn_servers_def tab_openvpn_clients_def tab_ipsec_phase2_def tab_l2tp_config_def tab_l2tp_users_def tab_openvpn_cso_def tab_certificate_authorities_def tab_openvpn_wizard_configs_def tab_dhcp_pools_def tab_static_leases_def tab_tracked_hosts_def tab_ids_config_def tab_ids_rulesets_def tab_ids_threat_feeds_def tab_siem_state_def tab_events_def tab_correlation_rules_def tab_siem_cases_def tab_siem_case_notes_def tab_siem_case_events_def tab_siem_alert_actions_def tab_soc_blocked_ips_def tab_siem_alert_assignments_def tab_soc_active_sessions_def tab_soc_portal_config_def tab_soc_recommendations_def tab_gateways_def tab_static_routes_def tab_gateway_groups_def tab_filter_dns_rules_def tab_filter_web_rules_def tab_filter_app_rules_def tab_certificates_def tab_config_apply_jobs_def tab_feature_applied_state_def tab_schema_version_def tab_policy_routes_def tab_dhcpv6_pools_def tab_ra_settings_def tab_wol_hosts_def tab_captive_sessions_def tab_captive_vouchers_def tab_captive_auth_attempts_def tab_pending_interface_changes_def tab_config_versions_def tab_health_snapshots_def\<close>)?)
  moreover have "list_all (conforms (lacks_still ''gateways'' k)) fs \<Longrightarrow> conforms (lacks_still ''gateways'' k) (seq_ops fs)" for fs :: "'a op list"
    by (induction fs) (auto intro: lack.seq_Nil lack.seq_Cons simp del: seq_ops.simps)
  ultimately have "conforms (lacks_still ''gateways'' k) (seq_ops (let q = me_sql (ie_mig e) in [init_users q, init_lan_config q, init_ppp_configs q, init_ha_settings q, init_ipsec_mobile_clients_settings q, init_l2tp_settings q, init_ipsec_phase1 q, init_advanced_miscellaneous e, init_nat_pf q, init_firewall_rules_lan q, init_openvpn_servers q, init_l2tp_config q, init_static_leases q, init_ids_threat_feeds q, init_siem_case_notes q, init_soc_recommendations e, init_filter_web_rules q, bootstrap_versions q, init_dhcpv6_pools q, init_pending_interface_changes q, commit_op]))" by blast
  then show ?thesis unfolding init_tables_def[abs_def] Let_def by (simp add: conforms_def del: seq_ops.simps)
qed

text \<open>
  C38: The gateway table is created without the columns \<open>reachable\<close> and \<open>last_seen\<close>, which the gateway monitor writes; migration
  16 adds them, but every start first enters the versions 2 to 16 as applied, so that migration never runs.  Whatever
  the database was before, no start adds these columns.
\<close>

theorem health_columns_never_added:
  assumes "init_db e c = (c', copies, r)" "cn_saved c = None" "k \<in> {''reachable'', ''last_seen''}"
    and "k \<notin> set (columns_of ''gateways'' (cn_db c))"
  shows "k \<notin> set (columns_of ''gateways'' (cn_db c'))"
proof -
  have "lacks_still ''gateways'' k (cn_db c) (cn_db c')"
    by (rule lack.init_db_keeps[OF assms(1,2) init_tables_lack[OF assms(3)] late_migrations_lack[OF assms(3)]])
      (use assms(3) in \<open>auto simp: adds_not_def\<close>)
  then show ?thesis using assms(4) by (simp add: lacks_still_def lacks_def)
qed

definition fresh_db :: "unit conn" where
  "fresh_db = \<lparr>cn_db = \<lparr>sd_tables = [], sd_indexes = [], sd_triggers = [], sd_versions = [], sd_data = ()\<rparr>, cn_saved = None\<rparr>"

definition sample_init :: "unit init_env" where
  "sample_init = \<lparr>ie_mig = sample_env None, ie_admin_user = None, ie_admin_pass = None, ie_hash = id, ie_abusech_key = [], ie_dry_run = ''1'',
     ie_groq_key = [], ie_encrypt = Inr\<rparr>"

lemma health_columns_never_added_witness:
  "''last_seen'' \<notin> set (columns_of ''gateways'' (cn_db (fst (init_db sample_init fresh_db))))"
proof -
  obtain c' copies r where i: "init_db sample_init fresh_db = (c', copies, r)" by (metis prod_cases3)
  have "cn_saved fresh_db = None" "columns_of ''gateways'' (cn_db fresh_db) = []" by (simp_all add: fresh_db_def columns_of_def)
  then have "''last_seen'' \<notin> set (columns_of ''gateways'' (cn_db c'))" by (intro health_columns_never_added[OF i]) simp_all
  then show ?thesis by (simp only: i fst_conv not_False_eq_True)
qed

lemma start_only_grows_witness:
  "has_table ''captive_vouchers'' (cn_db (fst (init_db sample_init
     (fresh_db\<lparr>cn_db := (cn_db fresh_db)\<lparr>sd_tables := [(''captive_vouchers'', [''id'', ''code''])]\<rparr>\<rparr>))))"
proof -
  let ?c = "fresh_db\<lparr>cn_db := (cn_db fresh_db)\<lparr>sd_tables := [(''captive_vouchers'', [''id'', ''code''])]\<rparr>\<rparr>"
  obtain c' copies r where i: "init_db sample_init ?c = (c', copies, r)" by (metis prod_cases3)
  have c: "cn_saved ?c = None" "has_table ''captive_vouchers'' (cn_db ?c)" by (simp_all add: fresh_db_def has_table_def)
  then have "has_table ''captive_vouchers'' (cn_db c')" using start_only_grows[OF i c(1), of "''captive_vouchers''"] by blast
  then show ?thesis by (simp only: i fst_conv)
qed

end
