(* ===== verification/Spec2Isabelle.thy ===== *)
theory Spec2Isabelle
  imports CaptiveAnchor IdsBlocker WorkerLock ApiTokens RcConfWriter ConfigHistory Validators
    CorrelationEngine RuntimeMode Watchdog ScheduleEnforcer GatewayMonitor DnsWriter DatabaseInit
begin

text \<open>
  Verification library of Smart Shield, a FreeBSD firewall appliance written in Python.

  \<^bold>\<open>The program and its parts.\<close>  Settings and rules live in an SQLite database; services under
  \<^verbatim>\<open>src/app/services/\<close> read it, generate the configuration of PF, Unbound and the other
  daemons, install it with a transaction that can be undone, and keep alerts, jobs and the
  captive portal's sessions.  Everything that needs root goes through one allowlist of commands.

  \<^item> \<open>Prelude\<close>: exceptions as values (\<open>'a res\<close>, \<open>Inl\<close> is the raised exception), tables with
    AUTOINCREMENT keys (locale \<open>pk_table\<close>), \<open>update_where\<close>.  \<open>PyString\<close>: the operations of Python's
    \<open>str\<close>; \<open>PyValue\<close>: values of \<open>json.loads\<close> and of forms; \<open>IpAddress\<close>: the part of the standard
    module \<open>ipaddress\<close> the program uses.
  \<^item> \<open>ScheduleService\<close> (\<^verbatim>\<open>schedule_service.py\<close>) and \<open>ContentPolicy\<close> (\<^verbatim>\<open>content_policy.py\<close>,
    \<^verbatim>\<open>bypass_policy.py\<close>, the DoH zones of \<^verbatim>\<open>dns_filter.py\<close>) say which firewall rules and which domain
    policies are in force; the policy map is the winner of all candidate rules.
  \<^item> \<open>PfRows\<close>, \<open>PfBuilders\<close>, \<open>PfGenerator\<close>: the tables \<^verbatim>\<open>pf_generator.py\<close> reads, one
    definition per block builder and \<open>generate_pf_conf\<close>, which concatenates them.  \<open>PfStaticValidator\<close>
    (\<^verbatim>\<open>pf_static_validator.py\<close>) is the check the text must pass, and \<open>PfOrder\<close> proves that it does,
    by a calculus of blocks of one section.
  \<^item> \<open>ApplyState\<close> (\<^verbatim>\<open>apply_state.py\<close>), \<open>ConfigTransaction\<close> (\<^verbatim>\<open>config_transaction.py\<close>),
    \<open>ConfigFile\<close> (\<^verbatim>\<open>config_file_utils.py\<close>): jobs and their summary, the transaction over several
    services (locales \<open>undo_steps\<close> and \<open>txn_steps\<close>: what a step must promise for the transaction to be
    atomic) and the file transaction that interprets them on a file system.
  \<^item> \<open>PfReload\<close>: \<open>reload_pf_rules\<close> of \<^verbatim>\<open>pf_generator.py\<close>: generate, check, install, reload, roll back.
    \<open>ConfigHistory\<close> (\<^verbatim>\<open>config_history.py\<close>): versions, pruning and rollback, which reloads.
  \<^item> \<open>PrivHelper\<close>: \<^verbatim>\<open>priv_helper.py\<close> over \<open>run_command\<close> of \<^verbatim>\<open>network_service.py\<close>.
  \<^item> \<open>ServiceManager\<close> (\<^verbatim>\<open>service_manager.py\<close>): rc.conf variables and service actions through the helper, and
    the reload of every service; \<open>DhcpWriter\<close> (\<^verbatim>\<open>dhcp_writer.py\<close>): the DHCP server from its tables to the
    restart that can be undone, its leases and its automatic pool; \<open>RcConfWriter\<close>
    (\<^verbatim>\<open>rc_conf_writer.py\<close>): the managed block of rc.conf.local and its place in the file.
  \<^item> \<open>CaptivePortal\<close>, \<open>CaptiveAuth\<close>, \<open>CaptiveAnchor\<close>: \<^verbatim>\<open>captive_portal.py\<close>: sessions, vouchers, lockout
    and the kernel tables; the credential check; the two PF anchors.
  \<^item> \<open>AlertService\<close> (\<^verbatim>\<open>alert_service.py\<close>): alerts, suppressions, the actions on them.
    \<open>Validators\<close> (\<^verbatim>\<open>validators.py\<close>): the input validators of the API.
  \<^item> \<open>Playbooks\<close> (\<^verbatim>\<open>playbooks.py\<close> and the hub \<open>log_event\<close> of \<^verbatim>\<open>audit_log.py\<close>): automated responses, whose
    steps log events that may start further playbooks (locales \<open>event_logger\<close> and \<open>growing_log\<close>, interpreted for the plain
    and for the dispatching log); the two call each other, and the guard of the hub makes the recursion end.  \<open>IdsBlocker\<close> (\<^verbatim>\<open>ids_blocker.py\<close>): the blocking of addresses.
  \<^item> \<open>WorkerLock\<close> (\<^verbatim>\<open>worker_lock.py\<close>): the election of a leader, as interleaved steps of processes, each of which a failing
    system call may end.
    \<open>RiskScoring\<close> (\<^verbatim>\<open>risk_scoring.py\<close>): scores that decay, over the reals.
    \<open>ApiTokens\<close> (\<^verbatim>\<open>api_tokens.py\<close>, \<^verbatim>\<open>api_auth.py\<close>): tokens, scopes and session permissions.
  \<^item> \<open>CorrelationEngine\<close> (\<^verbatim>\<open>correlation_engine.py\<close>): the rules over the event store, which open alerts and cases and
    raise scores.  \<open>ScheduleEnforcer\<close> (\<^verbatim>\<open>schedule_enforcer.py\<close>) reloads when a schedule changes its state;
    \<open>Watchdog\<close> (\<^verbatim>\<open>dns_watchdog.py\<close>, \<^verbatim>\<open>ids_watchdog.py\<close>) restarts two daemons within a rate;
    \<open>GatewayMonitor\<close> (\<^verbatim>\<open>gateway_monitor.py\<close>) pings the gateways; \<open>RuntimeMode\<close> (\<^verbatim>\<open>runtime_mode.py\<close>) says
    in which mode the program works, what it warns of, and which file with secrets it refuses at the start.
  \<^item> \<open>FilterRules\<close> (\<^verbatim>\<open>dns_filter.py\<close>, \<^verbatim>\<open>web_filter.py\<close>, \<^verbatim>\<open>app_filter.py\<close>, \<^verbatim>\<open>filter_conflicts.py\<close>): the three lists of
    filter rules, their zones, the changes of the running resolver, conflicts, import and export (locale
    \<open>domain_table\<close>).  \<open>DnsWriter\<close> (\<^verbatim>\<open>dns_writer.py\<close>): the text of unbound.conf, its installation with the
    checks that the resolver serves the LAN and the rollback, and the recovery the watchdog calls.
  \<^item> \<open>SqliteSchema\<close>: statements that define a schema, and a connection with the implicit transactions of \<open>sqlite3\<close>
    (locale \<open>schema_order\<close>: a relation of databases that statements follow is followed by every program of them).
    \<open>DatabaseInit\<close> (\<open>init_db\<close> of \<^verbatim>\<open>database.py\<close>), \<open>Migrations\<close> and \<open>EventBackfill\<close> (\<^verbatim>\<open>migrations.py\<close>): every statement of a
    start, table by table and migration by migration, and the runner.  \<open>PyJson\<close>: \<open>json.dumps\<close>.

  \<^bold>\<open>How state corresponds.\<close>  A table is a list of row records in insertion order with its
  sequence; a nullable column is an \<open>option\<close>; a missing table is \<open>None\<close> where the code handles that
  error.  The functions take the database and return the new one.  Files are a map from paths to
  texts.  What the program cannot know is an argument: the faults of single file operations, the
  answers of pfctl, of the service manager and of subprocesses, the probes of the host, the clock,
  password hashes, MD5 and the exchange of RADIUS packets.  A laws hypothesis is used where a host
  must behave (\<open>portal_host\<close>: pfctl changes the table it is told to).

  \<^bold>\<open>What the lemmas show.\<close>  Generated files pass the program's own order check; a reload installs
  exactly the generated text, and loads it outside the dry run, or leaves the host with the previous one; the file transaction
  refines an atomic update; jobs and their summaries agree; an alert whose key is open is counted up instead of a second one; a policy
  map that holds for each domain the first rule of the highest precedence, and its lookup is the
  longest match; privileged commands run only allowlisted programs with arguments that are no
  options; portal tables equal the live sessions after a reconcile; a voucher is redeemed once; a playbook run
  keeps a log of its steps and carries nothing out behind an approval gate, and an event starts the playbooks that match it
  and no further ones; blocking keeps to its rate;
  never two leaders among fresh workers, and one when no call fails, after at most eight steps of each; a DHCP configuration is accepted exactly when it is valid, and its
  installation is atomic; an apply replaces the managed block in place; a sweep of the scores is not seen by a reader; a revoked token never gets in again;
  a correlation rule reports exactly the groups that reach its threshold outside their pause, each in the event log; the enforcer keeps the host on
  the rules of the present schedules; a watchdog keeps its pause and its cap;
  a DNS apply leaves the generated text or the one before; a start of the program loses no column, applies what is pending
  once and resumes where it stopped;
  and a number of places where the code does something else than it says (the theorems whose text
  names the place).

  \<^bold>\<open>Termination.\<close>  Every loop of the modelled code is structural over its rows or has a
  \<open>termination\<close> proof; there is no fuel.

  \<^bold>\<open>Not modelled.\<close>  HTTP routes and their permission checks, templates, the chatbot, the SIEM
  collectors and their parsers, the writers of the other daemons' configuration (VPN, Suricata, nginx), reports and mail, background threads, the
  generation of certificates.  They are text builders, network clients or wiring around the parts above, or rest on
  libraries outside the repository.
\<close>

end
